(* ===== verification/Prelude.thy ===== *)
theory Prelude
  imports Main "HOL-Library.AList" "HOL-Library.Sublist" "HOL-Library.List_Lexorder"
    "HOL-Library.Char_ord" "HOL-Library.Signed_Division"
begin

text \<open>
  Shared vocabulary of the development: how Go values are represented and the generic facts the
  component theories use.

  \<^item> A Go \<^verbatim>\<open>string\<close> is a byte sequence, here a \<^typ>\<open>char list\<close> (a \<^typ>\<open>char\<close> is one byte).
  \<^item> A Go \<^verbatim>\<open>map[K]V\<close> is an association list with distinct keys (\<open>gomap\<close>); the order of the list
    stands for the unspecified iteration order, so what a loop over a map computes is stated
    up to \<open>map_of\<close>. A map that may be \<^verbatim>\<open>nil\<close> is a \<open>gomap option\<close>.
  \<^item> \<^verbatim>\<open>int\<close> and \<^verbatim>\<open>int64\<close> are mathematical integers; \<open>i64\<close> is the two's-complement wrap-around and is
    written wherever the Go expression can leave the 64-bit range.
  \<^item> \<^verbatim>\<open>time.Duration\<close> is an integer number of nanoseconds.
\<close>

named_theorems gomap_simps \<open>lookups in updated Go maps\<close>
named_theorems step_inv \<open>invariants kept by one operation\<close>

section \<open>Machine integers and durations\<close>

definition i64 :: "int \<Rightarrow> int" where
  "i64 x = (x + 2 ^ 63) mod 2 ^ 64 - 2 ^ 63"

definition in_i64 :: "int \<Rightarrow> bool" where
  "in_i64 x \<longleftrightarrow> - (2 ^ 63) \<le> x \<and> x < 2 ^ 63"

type_synonym duration = int

abbreviation Second :: duration where
  "Second \<equiv> 1000000000"

section \<open>Go maps\<close>

type_synonym ('k, 'v) gomap = "('k \<times> 'v) list"

definition m_ok :: "('k, 'v) gomap \<Rightarrow> bool" where
  "m_ok m \<longleftrightarrow> distinct (map fst m)"

definition m_set :: "'k \<Rightarrow> 'v \<Rightarrow> ('k, 'v) gomap \<Rightarrow> ('k, 'v) gomap" where
  "m_set k v m = AList.update k v m"

definition m_del :: "'k \<Rightarrow> ('k, 'v) gomap \<Rightarrow> ('k, 'v) gomap" where
  "m_del k m = AList.delete k m"

definition m_has :: "('k, 'v) gomap \<Rightarrow> 'k \<Rightarrow> bool" where
  "m_has m k \<longleftrightarrow> map_of m k \<noteq> None"

text \<open>\<^verbatim>\<open>for k, v := range src { dst[k] = v }\<close>\<close>

definition m_copy :: "('k, 'v) gomap \<Rightarrow> ('k, 'v) gomap \<Rightarrow> ('k, 'v) gomap" where
  "m_copy src dst = foldl (\<lambda>m (k, v). m_set k v m) dst src"

text \<open>Reading a string-valued map: a missing key, or a nil map, reads as the empty string.\<close>

definition m_str :: "('k, string) gomap \<Rightarrow> 'k \<Rightarrow> string" where
  "m_str m k = (case map_of m k of None \<Rightarrow> [] | Some v \<Rightarrow> v)"

definition nil_map :: "('k, 'v) gomap option \<Rightarrow> ('k, 'v) gomap" where
  "nil_map m = (case m of None \<Rightarrow> [] | Some m' \<Rightarrow> m')"

definition m_keys :: "('k, 'v) gomap \<Rightarrow> 'k list" where
  "m_keys m = map fst m"

section \<open>Strings\<close>

definition nl :: char where "nl = CHR 0x0A"

definition lower_char :: "char \<Rightarrow> char" where
  "lower_char c = (let n = of_char c :: nat in
     if 65 \<le> n \<and> n \<le> 90 then char_of (n + 32) else c)"

definition upper_char :: "char \<Rightarrow> char" where
  "upper_char c = (let n = of_char c :: nat in
     if 97 \<le> n \<and> n \<le> 122 then char_of (n - 32) else c)"

text \<open>
  \<^verbatim>\<open>strings.ToLower\<close> as its ASCII part sees it: the two code points outside ASCII whose lower case is
  an ASCII letter (U+0130 to i, U+212A to k) are mapped, every other multi-byte sequence keeps its
  bytes. The sources only look for ASCII needles in the result, which a multi-byte lower-case
  letter never matches.
\<close>

fun to_lower :: "string \<Rightarrow> string" where
  "to_lower [] = []"
| "to_lower (c # cs) =
     (if c = CHR 0xC4 \<and> take 1 cs = [CHR 0xB0] then CHR ''i'' # to_lower (drop 1 cs)
      else if c = CHR 0xE2 \<and> take 2 cs = [CHR 0x84, CHR 0xAA] then CHR ''k'' # to_lower (drop 2 cs)
      else lower_char c # to_lower cs)"

fun show_nat_acc :: "nat \<Rightarrow> string \<Rightarrow> string" where
  "show_nat_acc n acc =
     (let acc' = char_of (48 + n mod 10) # acc
      in if n < 10 then acc' else show_nat_acc (n div 10) acc')"

definition show_nat :: "nat \<Rightarrow> string" where
  "show_nat n = show_nat_acc n []"

definition show_int :: "int \<Rightarrow> string" where
  "show_int i = (if i < 0 then CHR ''-'' # show_nat (nat (- i)) else show_nat (nat i))"

fun join :: "string \<Rightarrow> string list \<Rightarrow> string" where
  "join sep [] = []"
| "join sep [x] = x"
| "join sep (x # y # zs) = x @ sep @ join sep (y # zs)"

fun trim_left :: "(char \<Rightarrow> bool) \<Rightarrow> string \<Rightarrow> string" where
  "trim_left p [] = []"
| "trim_left p (c # cs) = (if p c then trim_left p cs else c # cs)"

definition trim_right :: "(char \<Rightarrow> bool) \<Rightarrow> string \<Rightarrow> string" where
  "trim_right p s = rev (trim_left p (rev s))"

text \<open>ASCII white space, as \<^verbatim>\<open>strings.TrimSpace\<close> treats it on ASCII text.\<close>

definition is_space :: "char \<Rightarrow> bool" where
  "is_space c \<longleftrightarrow> c \<in> {CHR '' '', CHR 0x09, CHR 0x0A, CHR 0x0B, CHR 0x0C, CHR 0x0D}"

definition trim_space :: "string \<Rightarrow> string" where
  "trim_space s = trim_right is_space (trim_left is_space s)"

text \<open>\<^verbatim>\<open>strings.Split\<close> at one separator byte: always at least one piece.\<close>

fun split_at :: "char \<Rightarrow> string \<Rightarrow> string list" where
  "split_at d [] = [[]]"
| "split_at d (c # cs) =
     (if c = d then [] # split_at d cs
      else (case split_at d cs of [] \<Rightarrow> [[c]] | w # ws \<Rightarrow> (c # w) # ws))"

section \<open>Facts on integers and maps\<close>

lemma i64_id [simp]: "in_i64 x \<Longrightarrow> i64 x = x"
  by (simp add: i64_def in_i64_def)

lemma in_i64_i64 [simp]: "in_i64 (i64 x)"
  by (simp add: i64_def in_i64_def)

lemma in_i64_nonneg: "0 \<le> x \<Longrightarrow> x < 2 ^ 63 \<Longrightarrow> in_i64 x"
  by (simp add: in_i64_def)

lemma m_set_get [gomap_simps, simp]: "map_of (m_set k v m) = (map_of m)(k \<mapsto> v)"
  by (simp add: m_set_def update_conv')

lemma m_del_get [gomap_simps, simp]: "map_of (m_del k m) = (map_of m)(k := None)"
  by (simp add: m_del_def delete_conv')

lemma m_ok_set [step_inv, simp]: "m_ok m \<Longrightarrow> m_ok (m_set k v m)"
  by (simp add: m_ok_def m_set_def distinct_update)

lemma m_ok_del [step_inv, simp]: "m_ok m \<Longrightarrow> m_ok (m_del k m)"
  by (simp add: m_ok_def m_del_def distinct_delete)

lemma m_ok_Nil [simp]: "m_ok []"
  by (simp add: m_ok_def)

lemma m_ok_filter [simp]: "m_ok m \<Longrightarrow> m_ok (filter p m)"
  by (simp add: m_ok_def distinct_map_filter)

lemma m_keys_set [simp]: "set (m_keys (m_set k v m)) = insert k (set (m_keys m))"
  by (auto simp: m_keys_def m_set_def dom_update)

lemma set_m_keys: "set (m_keys m) = dom (map_of m)"
  by (simp add: m_keys_def dom_map_of_conv_image_fst)

lemma m_has_iff: "m_has m k \<longleftrightarrow> k \<in> set (m_keys m)"
  by (auto simp: m_has_def set_m_keys)

lemma m_copy_Nil [simp]: "m_copy [] dst = dst"
  by (simp add: m_copy_def)

lemma m_copy_Cons: "m_copy ((k, v) # src) dst = m_copy src (m_set k v dst)"
  by (simp add: m_copy_def)

lemma m_ok_copy [simp]: "m_ok dst \<Longrightarrow> m_ok (m_copy src dst)"
  by (induction src arbitrary: dst) (auto simp: m_copy_Cons)

text \<open>A copy loop does not depend on the iteration order: it is map override.\<close>

lemma m_copy_get:
  "m_ok src \<Longrightarrow> map_of (m_copy src dst) = map_of dst ++ map_of src"
proof (induction src arbitrary: dst)
  case Nil
  then show ?case by simp
next
  case (Cons kv src)
  obtain k v where kv: "kv = (k, v)" by (cases kv)
  from Cons.prems kv have ok: "m_ok src" and new: "map_of src k = None"
    by (auto simp: m_ok_def map_of_eq_None_iff)
  have "map_of (m_copy (kv # src) dst) = (map_of dst)(k \<mapsto> v) ++ map_of src"
    using Cons.IH [OF ok] kv by (simp add: m_copy_Cons fun_upd_def)
  also have "\<dots> = map_of dst ++ map_of (kv # src)"
    using new kv by (auto simp: map_add_def fun_eq_iff split: option.splits)
  finally show ?case .
qed

lemma m_str_set [simp]: "m_str (m_set k v m) k' = (if k' = k then v else m_str m k')"
  by (simp add: m_str_def)

lemma m_str_cong: "map_of m = map_of m' \<Longrightarrow> m_str m k = m_str m' k"
  by (simp add: m_str_def)

text \<open>Two well-formed maps with the same lookups list the same keys up to order.\<close>

lemma sorted_keys_unique:
  fixes m m' :: "('k :: linorder, 'v) gomap"
  assumes "m_ok m" "m_ok m'" "map_of m = map_of m'"
  shows "sort (m_keys m) = sort (m_keys m')"
proof -
  have "set (m_keys m) = set (m_keys m')"
    using assms(3) by (simp add: set_m_keys)
  moreover have "distinct (m_keys m)" "distinct (m_keys m')"
    using assms(1,2) by (simp_all add: m_keys_def m_ok_def)
  ultimately show ?thesis
    by (metis distinct_sort set_sort sorted_distinct_set_unique sorted_sort)
qed

section \<open>Facts on strings\<close>

declare show_nat_acc.simps [simp del]

lemma trim_left_length: "length (trim_left p s) \<le> length s"
  by (induction s) auto

lemma split_at_nonempty [simp]: "split_at d s \<noteq> []"
  by (cases s) (auto split: list.splits)

text \<open>Splitting at a separator is inverted by joining with it.\<close>

lemma join_split_at: "join [d] (split_at d s) = s"
proof (induction s)
  case Nil
  then show ?case by simp
next
  case (Cons c cs)
  obtain w ws where w: "split_at d cs = w # ws"
    using split_at_nonempty [of d cs] by (cases "split_at d cs") auto
  show ?case
  proof (cases ws)
    case Nil
    with Cons w show ?thesis by auto
  next
    case (Cons v vs)
    with Cons.IH w show ?thesis by auto
  qed
qed

lemma split_at_plain: "d \<notin> set w \<Longrightarrow> split_at d w = [w]"
  by (induction w) auto

lemma split_at_first: "d \<notin> set w \<Longrightarrow> split_at d (w @ d # s) = w # split_at d s"
  by (induction w) auto

lemma split_at_join: "ws \<noteq> [] \<Longrightarrow> list_all (\<lambda>w. d \<notin> set w) ws \<Longrightarrow> split_at d (join [d] ws) = ws"
  by (induction "[d]" ws rule: join.induct) (auto simp: split_at_plain split_at_first)

lemma split_at_no_sep: "w \<in> set (split_at d s) \<Longrightarrow> d \<notin> set w"
proof (induction s arbitrary: w)
  case Nil
  then show ?case by simp
next
  case (Cons c cs)
  then show ?case by (cases "split_at d cs") (auto split: if_splits)
qed

end
