(* ===== verification/Safe_Queue.thy ===== *)
theory Safe_Queue
  imports Prelude
begin

text \<open>
  \<^verbatim>\<open>digcore/pkg/safe/queue.go\<close>: the locked linked-list queue every plugin instance pushes its events
  into and the alert engine drains, and its size-limited variant. The \<^verbatim>\<open>container/list\<close> is a list with
  its front first; every operation runs under the queue's mutex, so it is one atomic step. The
  locale \<open>fifo\<close> is the contract the alert engine relies on: what is pushed comes out in the order it
  was pushed, once.
\<close>

section \<open>Model\<close>

record 'a Queue =
  linkedlist :: "'a list"

definition NewQueue :: "'a Queue" where
  "NewQueue = \<lparr>linkedlist = []\<rparr>"

definition PushFront :: "'a \<Rightarrow> 'a Queue \<Rightarrow> 'a Queue" where
  "PushFront v q = q\<lparr>linkedlist := v # linkedlist q\<rparr>"

definition PushFrontN :: "'a list \<Rightarrow> 'a Queue \<Rightarrow> 'a Queue" where
  "PushFrontN vs q = foldl (\<lambda>q item. PushFront item q) q vs"

definition PopBack :: "'a Queue \<Rightarrow> 'a option \<times> 'a Queue" where
  "PopBack q =
     (if linkedlist q = [] then (None, q)
      else (Some (last (linkedlist q)), q\<lparr>linkedlist := butlast (linkedlist q)\<rparr>))"

text \<open>The loop \<^verbatim>\<open>for i := 0; i < count; i++\<close> of the two draining operations.\<close>

fun pop_back_loop :: "nat \<Rightarrow> 'a Queue \<Rightarrow> 'a list \<Rightarrow> 'a list \<times> 'a Queue" where
  "pop_back_loop 0 q items = (items, q)"
| "pop_back_loop (Suc n) q items =
     (case PopBack q of
        (None, q') \<Rightarrow> (items, q')
      | (Some v, q') \<Rightarrow> pop_back_loop n q' (items @ [v]))"

text \<open>
  \<^verbatim>\<open>PopBackN\<close>: a negative \<open>n\<close> on a non-empty queue makes \<^verbatim>\<open>make([]T, 0, n)\<close> panic, which is the
  result \<open>None\<close>.
\<close>

definition PopBackN :: "int \<Rightarrow> 'a Queue \<Rightarrow> ('a list \<times> 'a Queue) option" where
  "PopBackN n q =
     (let count = int (length (linkedlist q)) in
      if count = 0 then Some ([], q)
      else
        let count = (if count > n then n else count) in
        if count < 0 then None else Some (pop_back_loop (nat count) q []))"

definition PopBackAll :: "'a Queue \<Rightarrow> 'a list \<times> 'a Queue" where
  "PopBackAll q =
     (let count = length (linkedlist q) in
      if count = 0 then ([], q) else pop_back_loop count q [])"

definition RemoveAll :: "'a Queue \<Rightarrow> 'a Queue" where
  "RemoveAll q = q\<lparr>linkedlist := []\<rparr>"

definition Len :: "'a Queue \<Rightarrow> nat" where
  "Len q = length (linkedlist q)"

record 'a QueueLimited =
  maxSize :: int
  queue :: "'a Queue"

definition NewQueueLimited :: "int \<Rightarrow> 'a QueueLimited" where
  "NewQueueLimited n = \<lparr>maxSize = n, queue = NewQueue\<rparr>"

definition ql_PushFront :: "'a \<Rightarrow> 'a QueueLimited \<Rightarrow> bool \<times> 'a QueueLimited" where
  "ql_PushFront v ql =
     (if int (Len (queue ql)) \<ge> maxSize ql then (False, ql)
      else (True, ql\<lparr>queue := PushFront v (queue ql)\<rparr>))"

definition ql_PushFrontN :: "'a list \<Rightarrow> 'a QueueLimited \<Rightarrow> bool \<times> 'a QueueLimited" where
  "ql_PushFrontN vs ql =
     (if int (Len (queue ql)) \<ge> maxSize ql then (False, ql)
      else (True, ql\<lparr>queue := PushFrontN vs (queue ql)\<rparr>))"

definition ql_PopBack :: "'a QueueLimited \<Rightarrow> 'a option \<times> 'a QueueLimited" where
  "ql_PopBack ql = (let (v, q) = PopBack (queue ql) in (v, ql\<lparr>queue := q\<rparr>))"

definition ql_PopBackN :: "int \<Rightarrow> 'a QueueLimited \<Rightarrow> ('a list \<times> 'a QueueLimited) option" where
  "ql_PopBackN n ql = map_option (\<lambda>(vs, q). (vs, ql\<lparr>queue := q\<rparr>)) (PopBackN n (queue ql))"

definition ql_PopBackAll :: "'a QueueLimited \<Rightarrow> 'a list \<times> 'a QueueLimited" where
  "ql_PopBackAll ql = (let (vs, q) = PopBackAll (queue ql) in (vs, ql\<lparr>queue := q\<rparr>))"

definition ql_RemoveAll :: "'a QueueLimited \<Rightarrow> 'a QueueLimited" where
  "ql_RemoveAll ql = ql\<lparr>queue := RemoveAll (queue ql)\<rparr>"

definition ql_Len :: "'a QueueLimited \<Rightarrow> nat" where
  "ql_Len ql = Len (queue ql)"

text \<open>What a queue holds, oldest element first.\<close>

definition contents :: "'a Queue \<Rightarrow> 'a list" where
  "contents q = rev (linkedlist q)"

section \<open>The contract\<close>

locale fifo =
  fixes new :: "'q"
    and push :: "'a \<Rightarrow> 'q \<Rightarrow> 'q"
    and pop :: "'q \<Rightarrow> 'a option \<times> 'q"
    and drain :: "'q \<Rightarrow> 'a list \<times> 'q"
    and abs :: "'q \<Rightarrow> 'a list"
  assumes abs_new: "abs new = []"
    and abs_push: "abs (push v q) = abs q @ [v]"
    and pop_nil: "abs q = [] \<Longrightarrow> pop q = (None, q)"
    and pop_cons: "abs q = v # vs \<Longrightarrow> \<exists>q'. pop q = (Some v, q') \<and> abs q' = vs"
    and drain_abs: "fst (drain q) = abs q \<and> abs (snd (drain q)) = []"
begin

lemma abs_pushes: "abs (foldl (\<lambda>q v. push v q) q vs) = abs q @ vs"
  by (induction vs arbitrary: q) (auto simp: abs_push)

lemma drain_after_pushes: "fst (drain (foldl (\<lambda>q v. push v q) new vs)) = vs"
  using drain_abs abs_pushes [of new vs] by (simp add: abs_new)

lemma drain_twice: "fst (drain (snd (drain q))) = []"
  using drain_abs by simp

end

lemma contents_NewQueue [simp]: "contents NewQueue = []"
  by (simp add: contents_def NewQueue_def)

lemma contents_PushFront [simp]: "contents (PushFront v q) = contents q @ [v]"
  by (simp add: contents_def PushFront_def)

lemma contents_empty_iff: "contents q = [] \<longleftrightarrow> linkedlist q = []"
  by (simp add: contents_def)

lemma length_contents: "length (contents q) = Len q"
  by (simp add: contents_def Len_def)

lemma PopBack_Nil: "contents q = [] \<Longrightarrow> PopBack q = (None, q)"
  by (simp add: PopBack_def contents_def)

lemma PopBack_Cons:
  assumes "contents q = v # vs"
  shows "\<exists>q'. PopBack q = (Some v, q') \<and> contents q' = vs"
proof -
  have "linkedlist q = rev vs @ [v]"
    using assms by (metis contents_def rev.simps(2) rev_rev_ident)
  then show ?thesis by (simp add: PopBack_def contents_def)
qed

lemma pop_back_loop_take:
  "n \<le> Len q \<Longrightarrow>
   fst (pop_back_loop n q items) = items @ take n (contents q) \<and>
   contents (snd (pop_back_loop n q items)) = drop n (contents q)"
proof (induction n arbitrary: q items)
  case 0
  then show ?case by simp
next
  case (Suc n)
  then have "0 < length (contents q)" by (simp add: length_contents)
  then obtain v vs where vs: "contents q = v # vs"
    by (cases "contents q") auto
  from PopBack_Cons [OF this]
  obtain q' where q': "PopBack q = (Some v, q')" "contents q' = vs" by auto
  have "Len q = Suc (Len q')"
    by (simp add: length_contents [symmetric] vs q'(2))
  with Suc.prems have "n \<le> Len q'" by linarith
  from Suc.IH [OF this, of "items @ [v]"] q' vs show ?case by simp
qed

lemma PopBackAll_contents:
  "fst (PopBackAll q) = contents q \<and> contents (snd (PopBackAll q)) = []"
  using pop_back_loop_take [of "Len q" q "[]"] length_contents [of q]
  by (auto simp: PopBackAll_def Let_def Len_def contents_def)

interpretation safe_queue: fifo NewQueue PushFront PopBack PopBackAll contents
  by unfold_locales (auto simp: PopBack_Nil PopBack_Cons PopBackAll_contents)

lemma PushFrontN_contents: "contents (PushFrontN vs q) = contents q @ vs"
  unfolding PushFrontN_def by (rule safe_queue.abs_pushes)

lemma Len_PushFrontN: "Len (PushFrontN vs q) = Len q + length vs"
  using PushFrontN_contents [of vs q] length_contents by (metis length_append)

section \<open>Properties\<close>

text \<open>the queue is first-in first-out: a batch pushed with \<^verbatim>\<open>PushFrontN\<close> into a new queue is
  drained by \<^verbatim>\<open>PopBackAll\<close> in the order it was pushed, the drain leaves the queue empty, and
  \<^verbatim>\<open>PopBackN\<close> with a non-negative bound returns exactly the oldest elements and keeps the others.\<close>

theorem queue_fifo:
  "fst (PopBackAll (PushFrontN vs NewQueue)) = vs \<and>
   Len (snd (PopBackAll (PushFrontN vs NewQueue))) = 0 \<and>
   (\<exists>q'. PopBackN (int n) q = Some (take n (contents q), q') \<and> contents q' = drop n (contents q))"
proof (intro conjI)
  show "fst (PopBackAll (PushFrontN vs NewQueue)) = vs"
    unfolding PushFrontN_def by (rule safe_queue.drain_after_pushes)
  show "Len (snd (PopBackAll (PushFrontN vs NewQueue))) = 0"
    using PopBackAll_contents length_contents by (metis list.size(3))
  show "\<exists>q'. PopBackN (int n) q = Some (take n (contents q), q') \<and> contents q' = drop n (contents q)"
  proof (cases "linkedlist q = []")
    case True
    then show ?thesis by (simp add: PopBackN_def contents_def)
  next
    case False
    define k where "k = min n (Len q)"
    have k: "k \<le> Len q" and "take k (contents q) = take n (contents q)"
      and "drop k (contents q) = drop n (contents q)"
      by (simp_all add: k_def min_def length_contents [symmetric])
    with pop_back_loop_take [OF k, of "[]"]
    have "fst (pop_back_loop k q []) = take n (contents q)"
      and "contents (snd (pop_back_loop k q [])) = drop n (contents q)"
      by simp_all
    moreover have "PopBackN (int n) q = Some (pop_back_loop k q [])"
      using False by (auto simp: PopBackN_def Let_def k_def Len_def min_def)
    ultimately show ?thesis by (metis prod.collapse)
  qed
qed

text \<open>pushing single elements never makes a limited queue longer than its limit, but
  \<^verbatim>\<open>PushFrontN\<close> checks the length only once: the accepted batch goes in whole, so the queue ends
  with all of it, whatever the limit.\<close>

theorem queue_limited_bound:
  assumes "int (ql_Len ql) \<le> maxSize ql"
  shows "int (ql_Len (snd (ql_PushFront v ql))) \<le> maxSize ql \<and>
         (int (ql_Len ql) < maxSize ql \<longrightarrow>
            fst (ql_PushFrontN vs ql) \<and>
            ql_Len (snd (ql_PushFrontN vs ql)) = ql_Len ql + length vs)"
  using assms Len_PushFrontN
  by (auto simp: ql_PushFront_def ql_PushFrontN_def ql_Len_def Len_def PushFront_def)

theorem queue_limited_bound_witness:
  "maxSize (NewQueueLimited 1 :: nat QueueLimited) = 1 \<and>
   ql_Len (snd (ql_PushFrontN [1, 2, 3] (NewQueueLimited 1 :: nat QueueLimited))) = 3"
  using queue_limited_bound [of "NewQueueLimited 1" "0 :: nat" "[1, 2, 3]"]
  by (simp add: NewQueueLimited_def NewQueue_def ql_Len_def Len_def)

end
