(* ===== verification/Events.thy ===== *)
theory Events
  imports Prelude Complex_Main
begin

text \<open>
  \<^verbatim>\<open>digcore/types/event.go\<close> and \<^verbatim>\<open>digcore/config/inline.go\<close>: the event record every plugin produces, its
  builders, the threshold comparison shared by the plugins, and the per-instance configuration the
  alert engine reads. \<^verbatim>\<open>float64\<close> thresholds are real numbers: the code only compares them.
\<close>

section \<open>Model\<close>

definition EventStatusCritical :: string where "EventStatusCritical = ''Critical''"
definition EventStatusWarning :: string where "EventStatusWarning = ''Warning''"
definition EventStatusInfo :: string where "EventStatusInfo = ''Info''"
definition EventStatusOk :: string where "EventStatusOk = ''Ok''"
definition DescFormatMarkdown :: string where "DescFormatMarkdown = ''markdown''"
definition AttrCurrentValue :: string where "AttrCurrentValue = ''current_value''"
definition AttrThresholdDesc :: string where "AttrThresholdDesc = ''threshold_desc''"

type_synonym labels = "(string, string) gomap"

record Event =
  EventTime :: int
  EventStatus :: string
  AlertKey :: string
  Labels :: "labels option"
  Attrs :: "labels option"
  Description :: string
  DescriptionFormat :: string
  FirstFireTime :: int
  NotifyCount :: int
  LastSent :: int

definition EventStatusValid :: "string \<Rightarrow> bool" where
  "EventStatusValid status \<longleftrightarrow>
     status = EventStatusCritical \<or> status = EventStatusWarning \<or>
     status = EventStatusInfo \<or> status = EventStatusOk"

definition SetEventStatus :: "string \<Rightarrow> Event \<Rightarrow> Event" where
  "SetEventStatus status e = e\<lparr>EventStatus := status\<rparr>"

definition SetEventTime :: "int \<Rightarrow> Event \<Rightarrow> Event" where
  "SetEventTime t e = e\<lparr>EventTime := t\<rparr>"

definition SetAttrs :: "labels \<Rightarrow> Event \<Rightarrow> Event" where
  "SetAttrs attrs e = e\<lparr>Attrs := Some (m_copy attrs (nil_map (Attrs e)))\<rparr>"

definition SetCurrentValue :: "string \<Rightarrow> Event \<Rightarrow> Event" where
  "SetCurrentValue v e = e\<lparr>Attrs := Some (m_set AttrCurrentValue v (nil_map (Attrs e)))\<rparr>"

definition SetDescription :: "string \<Rightarrow> Event \<Rightarrow> Event" where
  "SetDescription desc e = e\<lparr>Description := desc\<rparr>"

definition EvaluateGeThreshold :: "real \<Rightarrow> real \<Rightarrow> real \<Rightarrow> string" where
  "EvaluateGeThreshold value warnGe criticalGe =
     (if criticalGe > 0 \<and> value \<ge> criticalGe then EventStatusCritical
      else if warnGe > 0 \<and> value \<ge> warnGe then EventStatusWarning
      else EventStatusOk)"

definition zero_event :: Event where
  "zero_event = \<lparr>EventTime = 0, EventStatus = [], AlertKey = [], Labels = None, Attrs = None,
     Description = [], DescriptionFormat = [], FirstFireTime = 0, NotifyCount = 0, LastSent = 0\<rparr>"

definition BuildEvent :: "labels list \<Rightarrow> Event" where
  "BuildEvent labelMaps =
     zero_event\<lparr>EventStatus := EventStatusOk,
       Labels := Some (foldl (\<lambda>acc labelMap. m_copy labelMap acc) [] labelMaps)\<rparr>"

record Alerting =
  Disabled :: bool
  ForDuration :: duration
  RepeatInterval :: duration
  RepeatNumber :: int
  DisableRecoveryNotification :: bool

record DiagnoseConfig =
  dc_Enabled :: bool
  dc_MinSeverity :: string
  dc_Timeout :: duration
  dc_Cooldown :: duration

record InternalConfig =
  ic_Labels :: "labels option"
  ic_Interval :: duration
  ic_Alerting :: Alerting
  ic_Diagnose :: DiagnoseConfig

definition GetLabels :: "InternalConfig \<Rightarrow> labels" where
  "GetLabels ic = (case ic_Labels ic of Some l \<Rightarrow> l | None \<Rightarrow> [])"

definition GetInterval :: "InternalConfig \<Rightarrow> duration" where
  "GetInterval ic = ic_Interval ic"

definition GetAlerting :: "InternalConfig \<Rightarrow> Alerting" where
  "GetAlerting ic = ic_Alerting ic"

definition GetDiagnoseConfig :: "InternalConfig \<Rightarrow> DiagnoseConfig" where
  "GetDiagnoseConfig ic = ic_Diagnose ic"

text \<open>The severity order of \<^verbatim>\<open>digcore/diagnose/types.go\<close>.\<close>

definition SeverityRank :: "string \<Rightarrow> nat" where
  "SeverityRank status =
     (if status = EventStatusCritical then 3
      else if status = EventStatusWarning then 2
      else if status = EventStatusInfo then 1 else 0)"

lemmas status_defs =
  EventStatusCritical_def EventStatusWarning_def EventStatusInfo_def EventStatusOk_def

section \<open>Facts\<close>

lemma status_distinct [simp]:
  "EventStatusCritical \<noteq> EventStatusOk" "EventStatusOk \<noteq> EventStatusCritical"
  "EventStatusWarning \<noteq> EventStatusOk" "EventStatusOk \<noteq> EventStatusWarning"
  "EventStatusCritical \<noteq> EventStatusWarning" "EventStatusWarning \<noteq> EventStatusCritical"
  "EventStatusInfo \<noteq> EventStatusOk" "EventStatusOk \<noteq> EventStatusInfo"
  by (simp_all add: status_defs)

lemma SeverityRank_Ok_iff:
  "EventStatusValid s \<Longrightarrow> SeverityRank s = 0 \<longleftrightarrow> s = EventStatusOk"
  by (auto simp: SeverityRank_def EventStatusValid_def status_defs)

lemma BuildEvent_fresh [simp]:
  "NotifyCount (BuildEvent ms) = 0" "LastSent (BuildEvent ms) = 0"
  "EventStatus (BuildEvent ms) = EventStatusOk" "AlertKey (BuildEvent ms) = []"
  by (simp_all add: BuildEvent_def zero_event_def)

lemma BuildEvent_labels:
  assumes "list_all m_ok ms"
  shows "map_of (nil_map (Labels (BuildEvent ms))) = foldl (\<lambda>acc m. acc ++ map_of m) Map.empty ms"
proof -
  have "map_of (foldl (\<lambda>acc m. m_copy m acc) acc ms) = foldl (\<lambda>acc m. acc ++ map_of m) (map_of acc) ms"
    for acc :: labels
    using assms by (induction ms arbitrary: acc) (auto simp: m_copy_get)
  from this [of "[]"] show ?thesis
    by (simp add: BuildEvent_def zero_event_def nil_map_def)
qed

section \<open>Properties\<close>

text \<open>the threshold comparison is monotone in the measured value: a larger value never gets a
  less severe status, whatever the configured thresholds (zero, reversed or disabled ones included).\<close>

theorem threshold_monotone:
  assumes "v \<le> w"
  shows "SeverityRank (EvaluateGeThreshold v warnGe criticalGe)
         \<le> SeverityRank (EvaluateGeThreshold w warnGe criticalGe)"
  using assms by (auto simp: EvaluateGeThreshold_def SeverityRank_def status_defs)

theorem threshold_monotone_witness:
  "SeverityRank (EvaluateGeThreshold 85 80 95) = 2 \<and>
   SeverityRank (EvaluateGeThreshold 85 80 95) \<le> SeverityRank (EvaluateGeThreshold 99 80 95)"
  using threshold_monotone [of 85 99 80 95]
  by (simp add: EvaluateGeThreshold_def SeverityRank_def status_defs)

end
