(* ===== verification/Notify.thy ===== *)
theory Notify
  imports Events
begin

text \<open>
  \<^verbatim>\<open>digcore/notify\<close>: the fan-out of an event to the registered notifiers (\<^verbatim>\<open>notify.go\<close>) and the three
  HTTP back ends (\<^verbatim>\<open>flashduty.go\<close>, \<^verbatim>\<open>pagerduty.go\<close>, \<^verbatim>\<open>webapi.go\<close>) with their retry loops.

  What a back end answers depends on the network, so a notifier is a function of the history of
  forwarded events and the event: distinct calls have distinct histories, hence every sequence of
  answers is covered. An HTTP exchange is the value \<open>http_outcome\<close>; \<^verbatim>\<open>json.Marshal\<close> and the RFC 3339
  rendering of a time stamp are parameters. Logging and the sleep between attempts are not modelled.
\<close>

section \<open>Model\<close>

subsection \<open>notify.go\<close>

record Notifier =
  nt_Name :: string
  nt_Forward :: "Event list \<Rightarrow> Event \<Rightarrow> bool"
  nt_Comment :: "(string \<Rightarrow> string \<Rightarrow> bool) option"

definition Register :: "Notifier \<Rightarrow> Notifier list \<Rightarrow> Notifier list" where
  "Register n notifiers = notifiers @ [n]"

definition Forward :: "Notifier list \<Rightarrow> Event list \<Rightarrow> Event \<Rightarrow> bool" where
  "Forward notifiers hist event =
     (if length notifiers = 0 then False
      else if length notifiers = 1 then nt_Forward (notifiers ! 0) hist event
      else (let results = map (\<lambda>n. nt_Forward n hist event) notifiers
            in list_ex (\<lambda>ok. ok) results))"

definition ForwardComment :: "Notifier list \<Rightarrow> string \<Rightarrow> string \<Rightarrow> bool" where
  "ForwardComment notifiers alertKey comment =
     (if length notifiers = 0 then False
      else
        let commentNotifiers = List.map_filter nt_Comment notifiers in
        if length commentNotifiers = 0 then False
        else if length commentNotifiers = 1 then (commentNotifiers ! 0) alertKey comment
        else (let results = map (\<lambda>c. c alertKey comment) commentNotifiers
              in list_ex (\<lambda>ok. ok) results))"

subsection \<open>HTTP back ends\<close>

datatype http_outcome =
    NewRequestFail
  | DoFail
  | Response (resp_status: int) (body_read: bool)

definition flashduty_doPost :: "http_outcome \<Rightarrow> bool \<times> bool" where
  "flashduty_doPost out =
     (case out of
        NewRequestFail \<Rightarrow> (False, False)
      | DoFail \<Rightarrow> (False, True)
      | Response status body_ok \<Rightarrow>
          if \<not> body_ok then (False, True)
          else if status \<ge> 500 then (False, True)
          else if status \<ge> 400 then (False, False)
          else (True, False))"

definition pagerduty_doPost :: "http_outcome \<Rightarrow> bool \<times> bool" where
  "pagerduty_doPost out =
     (case out of
        NewRequestFail \<Rightarrow> (False, False)
      | DoFail \<Rightarrow> (False, True)
      | Response status body_ok \<Rightarrow>
          if \<not> body_ok then (False, True)
          else if status = 202 then (True, False)
          else if status = 429 \<or> status \<ge> 500 then (False, True)
          else (False, False))"

definition webapi_doRequest :: "http_outcome \<Rightarrow> bool \<times> bool" where
  "webapi_doRequest out =
     (case out of
        NewRequestFail \<Rightarrow> (False, False)
      | DoFail \<Rightarrow> (False, True)
      | Response status body_ok \<Rightarrow>
          if status \<ge> 200 \<and> status < 300 then (True, False)
          else if status = 429 \<or> status \<ge> 500 then (False, True)
          else (False, False))"

text \<open>
  The loop \<^verbatim>\<open>for attempt := 0; attempt <= cfg.MaxRetries; attempt++\<close> the three back ends share. \<open>post i\<close> is
  what the request of attempt \<open>i\<close> comes to. The second component counts the requests made.
\<close>

function post_loop :: "(int \<Rightarrow> bool \<times> bool) \<Rightarrow> int \<Rightarrow> int \<Rightarrow> bool \<times> nat" where
  "post_loop post maxRetries attempt =
     (if attempt \<le> maxRetries then
        (case post attempt of
           (True, _) \<Rightarrow> (True, 1)
         | (False, False) \<Rightarrow> (False, 1)
         | (False, True) \<Rightarrow> (let (r, n) = post_loop post maxRetries (attempt + 1) in (r, Suc n)))
      else (False, 0))"
  by pat_completeness auto
termination
  by (relation "measure (\<lambda>(post, m, a). nat (m + 1 - a))") auto

record flashDutyPayload =
  fd_EventTime :: int
  fd_EventStatus :: string
  fd_AlertKey :: string
  fd_Labels :: labels
  fd_TitleRule :: string
  fd_Description :: string

definition flashdutyAttrPrefix :: string where
  "flashdutyAttrPrefix = ''_attr_''"

definition flashduty_toPayload :: "Event \<Rightarrow> flashDutyPayload" where
  "flashduty_toPayload event =
     (let labels = m_copy (nil_map (Labels event)) [];
          labels = m_copy (map (\<lambda>(k, v). (flashdutyAttrPrefix @ k, v)) (nil_map (Attrs event))) labels;
          titleRule = (if m_str (nil_map (Labels event)) ''target'' \<noteq> []
                       then ''[TPL]${check} ${from_hostip} ${target}''
                       else ''[TPL]${check} ${from_hostip}'');
          desc = (if DescriptionFormat event = DescFormatMarkdown
                  then ''[MD]'' @ Description event else Description event)
      in \<lparr>fd_EventTime = EventTime event, fd_EventStatus = EventStatus event,
          fd_AlertKey = AlertKey event, fd_Labels = labels, fd_TitleRule = titleRule,
          fd_Description = desc\<rparr>)"

definition flashduty_Forward ::
  "(flashDutyPayload \<Rightarrow> string option) \<Rightarrow> int \<Rightarrow> (string \<Rightarrow> int \<Rightarrow> http_outcome) \<Rightarrow> Event \<Rightarrow> bool" where
  "flashduty_Forward marshal maxRetries http event =
     (case marshal (flashduty_toPayload event) of
        None \<Rightarrow> False
      | Some bs \<Rightarrow> fst (post_loop (\<lambda>a. flashduty_doPost (http bs a)) maxRetries 0))"

record flashdutyCommentPayload =
  fc_AlertKey :: string
  fc_Comment :: string

definition flashduty_Comment ::
  "(flashdutyCommentPayload \<Rightarrow> string option) \<Rightarrow> int \<Rightarrow> (string \<Rightarrow> int \<Rightarrow> http_outcome) \<Rightarrow>
   string \<Rightarrow> string \<Rightarrow> bool" where
  "flashduty_Comment marshal maxRetries http alertKey comment =
     (let comment = trim_space comment in
      if comment = [] then False
      else
        (case marshal \<lparr>fc_AlertKey = alertKey, fc_Comment = comment\<rparr> of
           None \<Rightarrow> False
         | Some bs \<Rightarrow> fst (post_loop (\<lambda>a. flashduty_doPost (http bs a)) maxRetries 0)))"

text \<open>\<^verbatim>\<open>strings.Index\<close>\<close>

fun str_index :: "string \<Rightarrow> string \<Rightarrow> nat option" where
  "str_index needle [] = (if needle = [] then Some 0 else None)"
| "str_index needle (c # cs) =
     (if prefix needle (c # cs) then Some 0 else map_option Suc (str_index needle cs))"

definition deriveFlashdutyCommentPath :: "string \<Rightarrow> string" where
  "deriveFlashdutyCommentPath alertPath =
     (let commentPath = ''/push/incident/comment-by-alert'' in
      case str_index ''/event/push/alert/'' alertPath of
        Some idx \<Rightarrow>
          (let pre = trim_right (\<lambda>c. c = CHR ''/'') (take idx alertPath)
           in if pre = [] then commentPath else pre @ commentPath)
      | None \<Rightarrow> commentPath)"

record pdPayload =
  pd_Summary :: string
  pd_Severity :: string
  pd_Source :: string
  pd_Timestamp :: string
  pd_CustomDetails :: labels

record pdEnvelope =
  pd_RoutingKey :: string
  pd_EventAction :: string
  pd_DedupKey :: string
  pd_Payload :: pdPayload

definition pagerduty_toPayload ::
  "(int \<Rightarrow> string) \<Rightarrow> string \<Rightarrow> labels option \<Rightarrow> Event \<Rightarrow> pdEnvelope" where
  "pagerduty_toPayload rfc3339 routingKey severityMap event =
     (let ls = nil_map (Labels event);
          action = (if EventStatus event = EventStatusOk then ''resolve'' else ''trigger'');
          severity = (case map_of (nil_map severityMap) (EventStatus event) of
                        Some mapped \<Rightarrow> mapped | None \<Rightarrow> ''warning'');
          source = m_str ls ''from_hostip'';
          source = (if source = [] then m_str ls ''from_hostname'' else source);
          source = (if source = [] then ''catpaw'' else source);
          summary = Description event;
          summary = (if DescriptionFormat event = DescFormatMarkdown \<and> prefix ''[MD]'' summary
                     then drop 4 summary else summary);
          check = m_str ls ''check'';
          summary = (if check \<noteq> [] then check @ '' '' @ summary else summary);
          summary = (if length summary > 1024 then take 1024 summary else summary);
          details = m_copy (nil_map (Attrs event)) (m_copy ls [])
      in \<lparr>pd_RoutingKey = routingKey, pd_EventAction = action, pd_DedupKey = AlertKey event,
          pd_Payload = \<lparr>pd_Summary = summary, pd_Severity = severity, pd_Source = source,
            pd_Timestamp = rfc3339 (EventTime event), pd_CustomDetails = details\<rparr>\<rparr>)"

definition pagerduty_Forward ::
  "(int \<Rightarrow> string) \<Rightarrow> string \<Rightarrow> labels option \<Rightarrow> (pdEnvelope \<Rightarrow> string option) \<Rightarrow> int \<Rightarrow>
   (string \<Rightarrow> int \<Rightarrow> http_outcome) \<Rightarrow> Event \<Rightarrow> bool" where
  "pagerduty_Forward rfc3339 routingKey severityMap marshal maxRetries http event =
     (case marshal (pagerduty_toPayload rfc3339 routingKey severityMap event) of
        None \<Rightarrow> False
      | Some bs \<Rightarrow> fst (post_loop (\<lambda>a. pagerduty_doPost (http bs a)) maxRetries 0))"

definition webapi_Forward ::
  "(Event \<Rightarrow> string option) \<Rightarrow> int \<Rightarrow> (string \<Rightarrow> int \<Rightarrow> http_outcome) \<Rightarrow> Event \<Rightarrow> bool" where
  "webapi_Forward marshal maxRetries http event =
     (case marshal event of
        None \<Rightarrow> False
      | Some bs \<Rightarrow> fst (post_loop (\<lambda>a. webapi_doRequest (http bs a)) maxRetries 0))"

section \<open>The notifier contract\<close>

text \<open>
  What the alert engine relies on: forwarding succeeds exactly when one of the registered back ends
  accepts the event.
\<close>

locale fan_out =
  fixes forward :: "'n list \<Rightarrow> 'h \<Rightarrow> 'e \<Rightarrow> bool"
    and deliver :: "'n \<Rightarrow> 'h \<Rightarrow> 'e \<Rightarrow> bool"
  assumes forward_iff: "forward ns h e \<longleftrightarrow> list_ex (\<lambda>n. deliver n h e) ns"
begin

lemma forward_none: "\<not> forward [] h e"
  by (simp add: forward_iff)

lemma forward_mono: "set ns \<subseteq> set ms \<Longrightarrow> forward ns h e \<Longrightarrow> forward ms h e"
  by (auto simp: forward_iff list_ex_iff)

lemma forward_append: "forward (ns @ ms) h e \<longleftrightarrow> forward ns h e \<or> forward ms h e"
  by (simp add: forward_iff)

end

lemma list_ex_any [simp]: "list_ex (\<lambda>ok. ok) (map f xs) \<longleftrightarrow> list_ex f xs"
  by (induction xs) auto

lemma Forward_list_ex: "Forward ns h e \<longleftrightarrow> list_ex (\<lambda>n. nt_Forward n h e) ns"
  by (cases ns) (auto simp: Forward_def Let_def)

interpretation notify: fan_out Forward nt_Forward
  by unfold_locales (rule Forward_list_ex)

lemma ForwardComment_list_ex:
  "ForwardComment ns k c \<longleftrightarrow> list_ex (\<lambda>f. f k c) (List.map_filter nt_Comment ns)"
proof (cases "List.map_filter nt_Comment ns")
  case Nil
  then show ?thesis by (simp add: ForwardComment_def)
next
  case (Cons f fs)
  then have "ns \<noteq> []" by auto
  with Cons show ?thesis by (auto simp: ForwardComment_def Let_def)
qed

declare post_loop.simps [simp del]

text \<open>The retry loop, in closed form.\<close>

lemma post_loop_spec:
  "fst (post_loop post m a) \<longleftrightarrow>
   (\<exists>i. a \<le> i \<and> i \<le> m \<and> fst (post i) \<and> (\<forall>j. a \<le> j \<and> j < i \<longrightarrow> post j = (False, True)))"
proof (induction post m a rule: post_loop.induct)
  case (1 post m a)
  let ?ok = "\<lambda>b i. b \<le> i \<and> i \<le> m \<and> fst (post i) \<and> (\<forall>j. b \<le> j \<and> j < i \<longrightarrow> post j = (False, True))"
  show ?case
  proof (cases "a \<le> m")
    case False
    then show ?thesis by (subst post_loop.simps) auto
  next
    case True
    obtain ok re where p: "post a = (ok, re)" by (cases "post a")
    have stop: "i = a" if "?ok a i" "post a \<noteq> (False, True)" for i
      using that by (meson linorder_not_le order.not_eq_order_implies_strict order_refl)
    have le: "a \<le> j \<longleftrightarrow> j = a \<or> a + 1 \<le> j" for j by linarith
    have shift: "?ok a i \<longleftrightarrow> ?ok (a + 1) i" if "post a = (False, True)" for i
      unfolding le using that by auto
    consider "ok" | "\<not> ok" "\<not> re" | "\<not> ok" "re" by blast
    then show ?thesis
    proof cases
      case 1
      with True p show ?thesis
        by (subst post_loop.simps) (auto intro!: exI [of _ a])
    next
      case 2
      with p have "\<not> (\<exists>i. ?ok a i)" using stop by force
      with True p 2 show ?thesis by (subst post_loop.simps) auto
    next
      case 3
      with p have r: "post a = (False, True)" by simp
      have IH: "fst (post_loop post m (a + 1)) \<longleftrightarrow> (\<exists>i. ?ok (a + 1) i)"
        using "1.IH" [OF True p [symmetric]] 3 by simp
      have "fst (post_loop post m a) = fst (post_loop post m (a + 1))"
        using True r by (subst post_loop.simps) (auto split: prod.splits)
      with IH shift [OF r] show ?thesis by simp
    qed
  qed
qed

lemma post_loop_count: "int (snd (post_loop post m a)) \<le> max 0 (m + 1 - a)"
proof (induction post m a rule: post_loop.induct)
  case (1 post m a)
  obtain ok re where p: "post a = (ok, re)" by (cases "post a")
  show ?case
  proof (cases "a \<le> m \<and> \<not> ok \<and> re")
    case True
    with p "1.IH" [OF _ p [symmetric]] have "int (snd (post_loop post m (a + 1))) \<le> max 0 (m + 1 - (a + 1))" by auto
    with True p show ?thesis by (subst post_loop.simps) (auto split: prod.splits)
  next
    case False
    with p show ?thesis by (subst post_loop.simps) (auto split: bool.splits)
  qed
qed

section \<open>Properties\<close>

text \<open>forwarding an event succeeds exactly when at least one registered notifier accepts it,
  whether zero, one or several notifiers are registered (the three code paths agree), and a comment
  is delivered exactly when one of the notifiers that support comments accepts it.\<close>

theorem forward_any:
  "(Forward ns hist e \<longleftrightarrow> (\<exists>n. n \<in> set ns \<and> nt_Forward n hist e)) \<and>
   (ForwardComment ns k c \<longleftrightarrow> (\<exists>n f. n \<in> set ns \<and> nt_Comment n = Some f \<and> f k c))"
  by (auto simp: notify.forward_iff ForwardComment_list_ex list_ex_iff List.map_filter_def)

text \<open>the back ends' retry loop makes at most \<^verbatim>\<open>MaxRetries + 1\<close> requests (none at all when
  \<^verbatim>\<open>MaxRetries\<close> is negative), and reports success exactly when some allowed attempt succeeds and
  every attempt before it failed with a retryable error: a non-retryable error ends it.\<close>

theorem retry_loop_correct:
  "int (snd (post_loop post maxRetries 0)) \<le> max 0 (maxRetries + 1) \<and>
   (fst (post_loop post maxRetries 0) \<longleftrightarrow>
     (\<exists>i. 0 \<le> i \<and> i \<le> maxRetries \<and> fst (post i) \<and>
       (\<forall>j. 0 \<le> j \<and> j < i \<longrightarrow> post j = (False, True))))"
  using post_loop_count [of post maxRetries 0] post_loop_spec [of post maxRetries 0] by simp

theorem retry_loop_correct_witness:
  "post_loop (\<lambda>a. pagerduty_doPost (if a = 0 then DoFail else Response 202 True)) 1 0 = (True, 2)"
proof -
  let ?post = "\<lambda>a :: int. pagerduty_doPost (if a = 0 then DoFail else Response 202 True)"
  have "fst (post_loop ?post 1 0)"
    using retry_loop_correct [of ?post 1]
    by (auto simp: pagerduty_doPost_def intro!: exI [of _ 1])
  then show ?thesis by (simp add: post_loop.simps pagerduty_doPost_def)
qed

text \<open>the PagerDuty envelope resolves exactly for an \<^verbatim>\<open>Ok\<close> event, is de-duplicated on the
  alert key, never exceeds the 1024-byte summary limit, and its details are the labels overridden
  by the attributes.\<close>

theorem pagerduty_payload:
  assumes "m_ok (nil_map (Labels e))" "m_ok (nil_map (Attrs e))"
  shows "let p = pagerduty_toPayload rfc3339 key sev e in
    (pd_EventAction p = ''resolve'' \<longleftrightarrow> EventStatus e = EventStatusOk) \<and>
    pd_DedupKey p = AlertKey e \<and>
    length (pd_Summary (pd_Payload p)) \<le> 1024 \<and>
    pd_Source (pd_Payload p) \<noteq> [] \<and>
    map_of (pd_CustomDetails (pd_Payload p)) = map_of (nil_map (Labels e)) ++ map_of (nil_map (Attrs e))"
  using assms by (auto simp: pagerduty_toPayload_def Let_def m_copy_get)

theorem pagerduty_payload_witness:
  "pd_EventAction (pagerduty_toPayload (\<lambda>_. []) ''rk'' None (BuildEvent [])) = ''resolve'' \<and>
   pd_Source (pd_Payload (pagerduty_toPayload (\<lambda>_. []) ''rk'' None (BuildEvent []))) \<noteq> []"
  using pagerduty_payload [of "BuildEvent []" "\<lambda>_. []" "''rk''" None]
  by (simp add: BuildEvent_def zero_event_def nil_map_def Let_def)

end
