(* ===== verification/Aggregator.thy ===== *)
theory Aggregator
  imports Events "HOL-Library.Multiset"
begin

text \<open>
  \<^verbatim>\<open>digcore/diagnose/aggregator.go\<close>: alerts of one \<^verbatim>\<open>plugin::target\<close> that arrive within the aggregation
  window are collected into one diagnosis request, submitted when the window's timer fires.

  Events are pointers (\<open>addr\<close>); the event a pointer refers to is passed beside it. Every operation
  holds the aggregator's mutex, and the timer callback takes it, so each is one atomic step; a
  callback may run for a key whose entry is already gone (the timer fired while \<^verbatim>\<open>Shutdown\<close> held the
  mutex), which \<open>agg_fire\<close> covers. The real timer and its delay are not modelled: \<open>agg_fire\<close> may happen
  at any moment.
\<close>

section \<open>Model\<close>

type_synonym addr = nat

record CheckSnapshot =
  cs_Check :: string
  cs_Status :: string
  cs_CurrentValue :: string
  cs_ThresholdDesc :: string
  cs_Description :: string

record DiagnoseRequest =
  rq_Mode :: string
  rq_Events :: "addr list"
  rq_Plugin :: string
  rq_Target :: string
  rq_RuntimeOS :: string
  rq_Checks :: "CheckSnapshot list"
  rq_InstanceRef :: "addr option"
  rq_Timeout :: duration
  rq_Cooldown :: duration
  rq_Descriptions :: string

record DiagnoseAggregator =
  ag_pending :: "(string, DiagnoseRequest) gomap"
  ag_timers :: "(string, unit) gomap"
  ag_window :: duration

definition NewDiagnoseAggregator :: "duration \<Rightarrow> DiagnoseAggregator" where
  "NewDiagnoseAggregator window =
     \<lparr>ag_pending = [], ag_timers = [],
      ag_window = (if window \<le> 0 then 2 * Second else window)\<rparr>"

definition shouldTrigger :: "DiagnoseConfig \<Rightarrow> string \<Rightarrow> bool" where
  "shouldTrigger cfg eventStatus =
     (if \<not> dc_Enabled cfg then False
      else
        let minSeverity = (if dc_MinSeverity cfg = [] then EventStatusWarning else dc_MinSeverity cfg)
        in SeverityRank eventStatus \<ge> SeverityRank minSeverity)"

definition extractAttr :: "Event \<Rightarrow> string \<Rightarrow> string \<Rightarrow> string" where
  "extractAttr event key fallback =
     (case Attrs event of
        None \<Rightarrow> fallback
      | Some attrs \<Rightarrow>
          (case map_of attrs key of
             Some v \<Rightarrow> (if v \<noteq> [] then v else fallback)
           | None \<Rightarrow> fallback))"

definition ExtractCheckSnapshot :: "Event \<Rightarrow> CheckSnapshot" where
  "ExtractCheckSnapshot event =
     \<lparr>cs_Check = m_str (nil_map (Labels event)) ''check'',
      cs_Status = EventStatus event,
      cs_CurrentValue = extractAttr event AttrCurrentValue [],
      cs_ThresholdDesc = extractAttr event AttrThresholdDesc [],
      cs_Description = Description event\<rparr>"

definition target_of :: "string \<Rightarrow> Event \<Rightarrow> string" where
  "target_of pluginName event =
     (let target = m_str (nil_map (Labels event)) ''target''
      in if target = [] then pluginName else target)"

definition agg_key :: "string \<Rightarrow> string \<Rightarrow> string" where
  "agg_key plugin target = plugin @ ''::'' @ target"

definition accepts :: "bool \<Rightarrow> DiagnoseConfig \<Rightarrow> Event \<Rightarrow> bool" where
  "accepts aiEnabled diagCfg event \<longleftrightarrow>
     aiEnabled \<and> EventStatus event \<noteq> EventStatusOk \<and> shouldTrigger diagCfg (EventStatus event)"

definition agg_Submit ::
  "bool \<Rightarrow> addr \<Rightarrow> Event \<Rightarrow> CheckSnapshot \<Rightarrow> string \<Rightarrow> addr option \<Rightarrow> DiagnoseConfig \<Rightarrow>
   DiagnoseAggregator \<Rightarrow> DiagnoseAggregator" where
  "agg_Submit aiEnabled ptr event snapshot pluginName instanceRef diagCfg a =
     (if \<not> aiEnabled then a
      else if EventStatus event = EventStatusOk then a
      else if \<not> shouldTrigger diagCfg (EventStatus event) then a
      else
        let target = target_of pluginName event;
            key = agg_key pluginName target
        in case map_of (ag_pending a) key of
             Some req \<Rightarrow>
               a\<lparr>ag_pending := m_set key (req\<lparr>rq_Events := rq_Events req @ [ptr],
                                          rq_Checks := rq_Checks req @ [snapshot]\<rparr>) (ag_pending a)\<rparr>
           | None \<Rightarrow>
               let timeout = (if dc_Timeout diagCfg = 0 then 60 * Second else dc_Timeout diagCfg);
                   cooldown = (if dc_Cooldown diagCfg = 0 then 600 * Second else dc_Cooldown diagCfg);
                   req = \<lparr>rq_Mode = [], rq_Events = [ptr], rq_Plugin = pluginName, rq_Target = target,
                          rq_RuntimeOS = [], rq_Checks = [snapshot], rq_InstanceRef = instanceRef,
                          rq_Timeout = timeout, rq_Cooldown = cooldown, rq_Descriptions = []\<rparr>
               in a\<lparr>ag_pending := m_set key req (ag_pending a),
                    ag_timers := m_set key () (ag_timers a)\<rparr>)"

text \<open>The timer callback: the request it hands to the diagnose engine, if the entry is still there.\<close>

definition agg_fire :: "string \<Rightarrow> DiagnoseAggregator \<Rightarrow> DiagnoseRequest option \<times> DiagnoseAggregator" where
  "agg_fire key a =
     (map_of (ag_pending a) key,
      a\<lparr>ag_pending := m_del key (ag_pending a), ag_timers := m_del key (ag_timers a)\<rparr>)"

definition agg_Shutdown :: "DiagnoseAggregator \<Rightarrow> DiagnoseAggregator" where
  "agg_Shutdown a =
     foldl (\<lambda>a (key, _). a\<lparr>ag_timers := m_del key (ag_timers a), ag_pending := m_del key (ag_pending a)\<rparr>)
       a (ag_timers a)"

text \<open>Sequences of operations, with the requests the callbacks hand over.\<close>

datatype agg_op =
    OpSubmit bool addr Event string "addr option" DiagnoseConfig
  | OpFire string
  | OpShutdown

fun agg_exec :: "agg_op \<Rightarrow> DiagnoseAggregator \<Rightarrow> DiagnoseRequest list \<times> DiagnoseAggregator" where
  "agg_exec (OpSubmit ai ptr ev plugin ins cfg) a =
     ([], agg_Submit ai ptr ev (ExtractCheckSnapshot ev) plugin ins cfg a)"
| "agg_exec (OpFire key) a =
     (let (req, a') = agg_fire key a in (case req of None \<Rightarrow> [] | Some r \<Rightarrow> [r], a'))"
| "agg_exec OpShutdown a = ([], agg_Shutdown a)"

fun agg_run :: "agg_op list \<Rightarrow> DiagnoseAggregator \<Rightarrow> DiagnoseRequest list \<times> DiagnoseAggregator" where
  "agg_run [] a = ([], a)"
| "agg_run (x # xs) a =
     (let (out, a') = agg_exec x a; (outs, a'') = agg_run xs a' in (out @ outs, a''))"

section \<open>Invariant\<close>

text \<open>A pending request has a timer, is filed under its own key and is never empty.\<close>

definition req_ok :: "string \<Rightarrow> DiagnoseRequest \<Rightarrow> bool" where
  "req_ok key r \<longleftrightarrow>
     key = agg_key (rq_Plugin r) (rq_Target r) \<and> rq_Events r \<noteq> [] \<and>
     length (rq_Events r) = length (rq_Checks r) \<and>
     list_all (\<lambda>c. cs_Status c \<noteq> EventStatusOk) (rq_Checks r) \<and>
     rq_Timeout r \<noteq> 0 \<and> rq_Cooldown r \<noteq> 0"

definition agg_inv :: "DiagnoseAggregator \<Rightarrow> bool" where
  "agg_inv a \<longleftrightarrow>
     m_ok (ag_pending a) \<and> m_ok (ag_timers a) \<and>
     dom (map_of (ag_pending a)) = dom (map_of (ag_timers a)) \<and>
     (\<forall>key r. map_of (ag_pending a) key = Some r \<longrightarrow> req_ok key r)"

text \<open>The events an operation sequence has accepted, and those still pending.\<close>

fun accepted :: "agg_op list \<Rightarrow> addr multiset" where
  "accepted [] = {#}"
| "accepted (OpSubmit ai ptr ev plugin ins cfg # xs) =
     (if accepts ai cfg ev then {#ptr#} else {#}) + accepted xs"
| "accepted (_ # xs) = accepted xs"

definition pending_events :: "DiagnoseAggregator \<Rightarrow> addr multiset" where
  "pending_events a = (\<Sum>kr\<leftarrow>ag_pending a. mset (rq_Events (snd kr)))"

lemma agg_inv_new [step_inv]: "agg_inv (NewDiagnoseAggregator w)"
  by (simp add: agg_inv_def NewDiagnoseAggregator_def)

lemma agg_Submit_rejected: "\<not> accepts ai cfg ev \<Longrightarrow> agg_Submit ai p ev s pl i cfg a = a"
  by (auto simp: agg_Submit_def accepts_def)

lemma agg_inv_Submit [step_inv]:
  assumes "agg_inv a" "cs_Status s = EventStatus ev"
  shows "agg_inv (agg_Submit ai p ev s pl i cfg a)"
proof (cases "accepts ai cfg ev")
  case False
  then show ?thesis using assms(1) by (simp add: agg_Submit_rejected)
next
  case True
  let ?key = "agg_key pl (target_of pl ev)"
  show ?thesis
  proof (cases "map_of (ag_pending a) ?key")
    case None
    then show ?thesis using assms True
      by (auto simp: agg_Submit_def accepts_def agg_inv_def req_ok_def Let_def)
  next
    case (Some r)
    then have "?key \<in> dom (map_of (ag_timers a))" using assms(1) by (auto simp: agg_inv_def)
    with Some show ?thesis using assms True
      by (auto simp: agg_Submit_def accepts_def agg_inv_def req_ok_def Let_def)
  qed
qed

lemma agg_inv_fire [step_inv]: "agg_inv a \<Longrightarrow> agg_inv (snd (agg_fire key a))"
  by (auto simp: agg_inv_def agg_fire_def)

lemma agg_Shutdown_foldl:
  fixes ts :: "(string, unit) gomap"
  defines "f \<equiv> \<lambda>a (key, _ :: unit). a\<lparr>ag_timers := m_del key (ag_timers a), ag_pending := m_del key (ag_pending a)\<rparr>"
  shows "map_of (ag_pending (foldl f a ts)) k = (if k \<in> fst ` set ts then None else map_of (ag_pending a) k)"
    and "map_of (ag_timers (foldl f a ts)) k = (if k \<in> fst ` set ts then None else map_of (ag_timers a) k)"
  unfolding f_def by (induction ts arbitrary: a) auto

lemma agg_Shutdown_timers: "ag_timers (agg_Shutdown a) = []"
proof -
  have "map_of (ag_timers (agg_Shutdown a)) k = None" for k
    unfolding agg_Shutdown_def agg_Shutdown_foldl(2)
    by (auto simp: map_of_eq_None_iff)
  then show ?thesis
    by (metis map_of_eq_None_iff list.set_intros(1) image_eqI neq_Nil_conv)
qed

lemma agg_Shutdown_pending: "agg_inv a \<Longrightarrow> ag_pending (agg_Shutdown a) = []"
proof -
  assume inv: "agg_inv a"
  have "map_of (ag_pending (agg_Shutdown a)) k = None" for k
  proof (cases "k \<in> fst ` set (ag_timers a)")
    case True
    then show ?thesis unfolding agg_Shutdown_def agg_Shutdown_foldl(1) by simp
  next
    case False
    then have "map_of (ag_timers a) k = None" by (simp add: map_of_eq_None_iff)
    then have "map_of (ag_pending a) k = None"
      using inv unfolding agg_inv_def by (metis domIff)
    then show ?thesis unfolding agg_Shutdown_def agg_Shutdown_foldl(1) by simp
  qed
  then show ?thesis
    by (metis map_of_eq_None_iff list.set_intros(1) image_eqI neq_Nil_conv)
qed

lemma agg_inv_Shutdown [step_inv]: "agg_inv a \<Longrightarrow> agg_inv (agg_Shutdown a)"
  using agg_Shutdown_timers [of a] agg_Shutdown_pending [of a] by (simp add: agg_inv_def)

lemma agg_inv_exec [step_inv]: "agg_inv a \<Longrightarrow> agg_inv (snd (agg_exec x a))"
  by (cases x)
    (auto simp: ExtractCheckSnapshot_def agg_inv_Shutdown agg_inv_fire case_prod_beta intro!: agg_inv_Submit)

lemma agg_inv_run: "agg_inv a \<Longrightarrow> agg_inv (snd (agg_run xs a))"
proof (induction xs arbitrary: a)
  case Nil
  then show ?case by simp
next
  case (Cons x xs)
  then have "agg_inv (snd (agg_run xs (snd (agg_exec x a))))"
    by (blast intro: agg_inv_exec)
  then show ?case by (simp add: case_prod_beta Let_def)
qed

section \<open>Conservation of events\<close>

lemma sum_update_new:
  "map_of m k = None \<Longrightarrow>
   (\<Sum>kr\<leftarrow>m_set k v m. mset (rq_Events (snd kr))) = (\<Sum>kr\<leftarrow>m. mset (rq_Events (snd kr))) + mset (rq_Events v)"
  unfolding m_set_def by (induction m) (auto split: if_splits)

lemma sum_delete:
  "m_ok m \<Longrightarrow> map_of m k = Some v \<Longrightarrow>
   (\<Sum>kr\<leftarrow>m. mset (rq_Events (snd kr))) = mset (rq_Events v) + (\<Sum>kr\<leftarrow>m_del k m. mset (rq_Events (snd kr)))"
proof (induction m)
  case Nil
  then show ?case by simp
next
  case (Cons x m)
  obtain k' v' where x: "x = (k', v')" by (cases x)
  show ?case
  proof (cases "k' = k")
    case True
    with Cons.prems x have "k \<notin> fst ` set m" by (auto simp: m_ok_def)
    then have "m_del k m = m" by (simp add: m_del_def delete_idem)
    with True Cons.prems x show ?thesis by (simp add: m_del_def AList.delete_eq)
  next
    case False
    with Cons x show ?thesis by (simp add: m_ok_def m_del_def AList.delete_eq)
  qed
qed

lemma sum_update_old:
  assumes "m_ok m" "map_of m k = Some v"
  shows "(\<Sum>kr\<leftarrow>m_set k w m. mset (rq_Events (snd kr))) + mset (rq_Events v)
         = (\<Sum>kr\<leftarrow>m. mset (rq_Events (snd kr))) + mset (rq_Events w)"
proof -
  have "m_del k (m_set k w m) = m_del k m"
    unfolding m_del_def m_set_def by (induction m) (auto simp: AList.delete_eq)
  moreover have "(\<Sum>kr\<leftarrow>m_set k w m. mset (rq_Events (snd kr)))
     = mset (rq_Events w) + (\<Sum>kr\<leftarrow>m_del k (m_set k w m). mset (rq_Events (snd kr)))"
    using assms by (intro sum_delete) auto
  ultimately show ?thesis using sum_delete [OF assms] by simp
qed

lemma pending_Submit:
  assumes "agg_inv a" "accepts ai cfg ev"
  shows "pending_events (agg_Submit ai p ev s pl i cfg a) = pending_events a + {#p#}"
proof (cases "map_of (ag_pending a) (agg_key pl (target_of pl ev))")
  case None
  with assms show ?thesis
    by (simp add: agg_Submit_def accepts_def Let_def pending_events_def sum_update_new)
next
  case (Some r)
  have ok: "m_ok (ag_pending a)" using assms(1) by (simp add: agg_inv_def)
  from sum_update_old [OF ok Some, of "r\<lparr>rq_Events := rq_Events r @ [p], rq_Checks := rq_Checks r @ [s]\<rparr>"]
  show ?thesis using assms(2) Some
    by (simp add: agg_Submit_def accepts_def Let_def pending_events_def)
qed

lemma pending_fire:
  assumes "agg_inv a"
  shows "pending_events a = (case fst (agg_fire key a) of None \<Rightarrow> {#} | Some r \<Rightarrow> mset (rq_Events r))
                            + pending_events (snd (agg_fire key a))"
proof (cases "map_of (ag_pending a) key")
  case None
  then have "m_del key (ag_pending a) = ag_pending a"
    by (simp add: m_del_def delete_idem map_of_eq_None_iff)
  with None show ?thesis by (simp add: agg_fire_def pending_events_def)
next
  case (Some r)
  with assms show ?thesis
    by (simp add: agg_fire_def pending_events_def agg_inv_def sum_delete [of _ key r])
qed

lemma agg_exec_conserves:
  assumes "agg_inv a" "x \<noteq> OpShutdown"
  shows "(\<Sum>r\<leftarrow>fst (agg_exec x a). mset (rq_Events r)) + pending_events (snd (agg_exec x a))
         = accepted [x] + pending_events a"
proof (cases x)
  case (OpSubmit ai ptr ev plugin ins cfg)
  show ?thesis
  proof (cases "accepts ai cfg ev")
    case True
    with OpSubmit assms(1) show ?thesis by (simp add: pending_Submit)
  next
    case False
    with OpSubmit show ?thesis by (simp add: agg_Submit_rejected)
  qed
next
  case (OpFire key)
  with pending_fire [OF assms(1), of key] show ?thesis
    by (auto split: prod.splits option.splits)
qed (use assms in simp)

lemma accepted_Cons: "accepted (x # xs) = accepted [x] + accepted xs"
  by (cases x) auto

lemma agg_run_conserves:
  "agg_inv a \<Longrightarrow> OpShutdown \<notin> set xs \<Longrightarrow>
   (\<Sum>r\<leftarrow>fst (agg_run xs a). mset (rq_Events r)) + pending_events (snd (agg_run xs a))
   = accepted xs + pending_events a"
proof (induction xs arbitrary: a)
  case Nil
  then show ?case by simp
next
  case (Cons x xs)
  obtain out a' where x: "agg_exec x a = (out, a')" by (cases "agg_exec x a")
  obtain outs a'' where xs: "agg_run xs a' = (outs, a'')" by (cases "agg_run xs a'")
  have inv: "agg_inv a'" using agg_inv_exec [OF Cons.prems(1), of x] x by simp
  have 1: "(\<Sum>r\<leftarrow>out. mset (rq_Events r)) + pending_events a' = accepted [x] + pending_events a"
    using agg_exec_conserves [OF Cons.prems(1), of x] Cons.prems(2) x by auto
  have 2: "(\<Sum>r\<leftarrow>outs. mset (rq_Events r)) + pending_events a'' = accepted xs + pending_events a'"
    using Cons.IH [OF inv] Cons.prems(2) xs by auto
  have "(\<Sum>r\<leftarrow>fst (agg_run (x # xs) a). mset (rq_Events r)) + pending_events (snd (agg_run (x # xs) a))
        = (\<Sum>r\<leftarrow>out. mset (rq_Events r)) + ((\<Sum>r\<leftarrow>outs. mset (rq_Events r)) + pending_events a'')"
    using x xs by (simp add: ac_simps)
  also have "\<dots> = (\<Sum>r\<leftarrow>out. mset (rq_Events r)) + pending_events a' + accepted xs"
    unfolding 2 by (simp add: ac_simps)
  also have "\<dots> = accepted (x # xs) + pending_events a"
    unfolding 1 accepted_Cons [of x xs] by (simp add: ac_simps)
  finally show ?case .
qed

section \<open>Properties\<close>

text \<open>C7: aggregation neither loses nor duplicates an alert. From a new aggregator, after any
  sequence of submissions and timer firings, the alerts the filters accepted are, as a multiset,
  those of the requests handed to the diagnose engine together with those still pending; and the
  well-formedness invariant (every pending request has a timer and sits under its own key) holds.\<close>

theorem aggregator_conserves:
  assumes "OpShutdown \<notin> set ops"
  shows "(\<Sum>r\<leftarrow>fst (agg_run ops (NewDiagnoseAggregator w)). mset (rq_Events r))
           + pending_events (snd (agg_run ops (NewDiagnoseAggregator w))) = accepted ops \<and>
         agg_inv (snd (agg_run ops (NewDiagnoseAggregator w)))"
  using agg_run_conserves [OF agg_inv_new assms] agg_inv_run [OF agg_inv_new]
  by (simp add: pending_events_def NewDiagnoseAggregator_def)

definition sample_event :: "string \<Rightarrow> string \<Rightarrow> Event" where
  "sample_event check status =
     SetEventStatus status (BuildEvent [[(''check'', check), (''target'', ''/'')]])"

definition sample_diag :: DiagnoseConfig where
  "sample_diag = \<lparr>dc_Enabled = True, dc_MinSeverity = [], dc_Timeout = 0, dc_Cooldown = 0\<rparr>"

definition sample_ops :: "agg_op list" where
  "sample_ops =
    [OpSubmit True 1 (sample_event ''disk::space'' ''Critical'') ''disk'' None sample_diag,
     OpSubmit True 2 (sample_event ''disk::inode'' ''Warning'') ''disk'' None sample_diag,
     OpFire ''disk::/'',
     OpSubmit True 3 (sample_event ''disk::space'' ''Info'') ''disk'' None sample_diag]"

theorem aggregator_conserves_witness:
  "OpShutdown \<notin> set sample_ops \<and> accepted sample_ops = {#1, 2#} \<and>
   map rq_Events (fst (agg_run sample_ops (NewDiagnoseAggregator 0))) = [[1, 2]] \<and>
   pending_events (snd (agg_run sample_ops (NewDiagnoseAggregator 0))) = {#}"
proof -
  have no: "OpShutdown \<notin> set sample_ops" by (simp add: sample_ops_def)
  have acc: "accepted sample_ops = {#1, 2#}"
    by (simp add: sample_ops_def accepts_def shouldTrigger_def sample_diag_def sample_event_def
        SetEventStatus_def SeverityRank_def status_defs)
  have out: "map rq_Events (fst (agg_run sample_ops (NewDiagnoseAggregator 0))) = [[1, 2]]"
    by code_simp
  then obtain r where "fst (agg_run sample_ops (NewDiagnoseAggregator 0)) = [r]" "rq_Events r = [1, 2]"
    by auto
  with aggregator_conserves [OF no, of 0] acc
  have "pending_events (snd (agg_run sample_ops (NewDiagnoseAggregator 0))) = {#}" by simp
  with no acc out show ?thesis by simp
qed

text \<open>a shutdown leaves nothing behind: every timer and every pending request is gone, and a
  callback that still runs afterwards hands nothing over and changes nothing.\<close>

theorem aggregator_shutdown_quiet:
  assumes "agg_inv a"
  shows "ag_timers (agg_Shutdown a) = [] \<and> ag_pending (agg_Shutdown a) = [] \<and>
         agg_fire key (agg_Shutdown a) = (None, agg_Shutdown a)"
  using agg_Shutdown_timers [of a] agg_Shutdown_pending [OF assms]
  by (simp add: agg_fire_def m_del_def)

theorem aggregator_shutdown_quiet_witness:
  "agg_inv (NewDiagnoseAggregator 5) \<and>
   agg_fire ''disk::/'' (agg_Shutdown (NewDiagnoseAggregator 5)) = (None, agg_Shutdown (NewDiagnoseAggregator 5))"
  using aggregator_shutdown_quiet [OF agg_inv_new, of 5 "''disk::/''"] agg_inv_new by simp

end
