(* ===== verification/Alert_Engine.thy ===== *)
theory Alert_Engine
  imports Safe_Queue Notify Aggregator
begin

text \<open>
  \<^verbatim>\<open>digcore/engine/engine.go\<close> and \<^verbatim>\<open>cache.go\<close>: what happens to the events one plugin instance gathered.
  An event is cleaned (labels merged, alert key computed), then either recovers the alert cached
  under its key or fires it, subject to \<^verbatim>\<open>for_duration\<close>, \<^verbatim>\<open>repeat_number\<close> and \<^verbatim>\<open>repeat_interval\<close>, and a
  notification that was really sent may start a diagnosis.

  The code works on pointers: an event put into the cache is mutated afterwards (\<^verbatim>\<open>LastSent\<close>,
  \<^verbatim>\<open>NotifyCount\<close>), and the cache sees it. The state therefore has an explicit \<open>heap\<close>, and the cache and
  the queue hold addresses. \<open>forwarded\<close> is a history variable: the events handed to \<^verbatim>\<open>notify.Forward\<close>,
  oldest first. \<^verbatim>\<open>str.MD5\<close> is a third-party function and a parameter. Each handler is one step; the
  abstract specification \<open>spec_alert\<close>/\<open>spec_recover\<close> is the life cycle of one alert key.
\<close>

section \<open>Model\<close>

record engine_env =
  env_md5 :: "string \<Rightarrow> string"
  env_GlobalLabels :: labels
  env_AgentIP :: string
  env_AgentHostname :: string
  env_FromAgent :: string
  env_notifiers :: "Notifier list"
  env_AIEnabled :: bool

record engine_state =
  heap :: "addr \<Rightarrow> Event"
  records :: "(string, addr) gomap"
  diagnosedKeys :: "(string, unit) gomap"
  globalAggregator :: "DiagnoseAggregator option"
  forwarded :: "Event list"

record Instance =
  ins_ref :: addr
  ins_cfg :: InternalConfig

definition cache_Get :: "string \<Rightarrow> (string, addr) gomap \<Rightarrow> addr option" where
  "cache_Get key c = map_of c key"

definition cache_Set :: "(addr \<Rightarrow> Event) \<Rightarrow> addr \<Rightarrow> (string, addr) gomap \<Rightarrow> (string, addr) gomap" where
  "cache_Set h val c = m_set (AlertKey (h val)) val c"

definition cache_Del :: "string \<Rightarrow> (string, addr) gomap \<Rightarrow> (string, addr) gomap" where
  "cache_Del key c = m_del key c"

definition store_at :: "addr \<Rightarrow> (Event \<Rightarrow> Event) \<Rightarrow> engine_state \<Rightarrow> engine_state" where
  "store_at a f s = s\<lparr>heap := (heap s)(a := f (heap s a))\<rparr>"

definition do_forward :: "engine_env \<Rightarrow> addr \<Rightarrow> engine_state \<Rightarrow> bool \<times> engine_state" where
  "do_forward env a s =
     (Forward (env_notifiers env) (forwarded s) (heap s a),
      s\<lparr>forwarded := forwarded s @ [heap s a]\<rparr>)"

definition handleRecoveryEvent :: "engine_env \<Rightarrow> Instance \<Rightarrow> addr \<Rightarrow> engine_state \<Rightarrow> engine_state" where
  "handleRecoveryEvent env ins event s =
     (let s = s\<lparr>diagnosedKeys := m_del (AlertKey (heap s event)) (diagnosedKeys s)\<rparr> in
      case cache_Get (AlertKey (heap s event)) (records s) of
        None \<Rightarrow> s
      | Some old \<Rightarrow>
          let s = s\<lparr>records := cache_Del (AlertKey (heap s old)) (records s)\<rparr> in
          if \<not> DisableRecoveryNotification (GetAlerting (ins_cfg ins)) \<and> LastSent (heap s old) > 0
          then snd (do_forward env event s)
          else s)"

definition handleAlertEvent :: "engine_env \<Rightarrow> Instance \<Rightarrow> addr \<Rightarrow> engine_state \<Rightarrow> bool \<times> engine_state" where
  "handleAlertEvent env ins event s =
     (let alerting = GetAlerting (ins_cfg ins) in
      case cache_Get (AlertKey (heap s event)) (records s) of
        None \<Rightarrow>
          let s = store_at event (\<lambda>e. e\<lparr>FirstFireTime := EventTime e\<rparr>) s;
              s = s\<lparr>records := cache_Set (heap s) event (records s)\<rparr>
          in if ForDuration alerting = 0 then
               (case do_forward env event s of
                  (True, s) \<Rightarrow>
                    (True, store_at event (\<lambda>e. e\<lparr>LastSent := EventTime e,
                                           NotifyCount := i64 (NotifyCount e + 1)\<rparr>) s)
                | (False, s) \<Rightarrow> (False, s))
             else (False, s)
      | Some old \<Rightarrow>
          if ForDuration alerting > 0 \<and>
             i64 (EventTime (heap s event) - FirstFireTime (heap s old)) < ForDuration alerting sdiv Second
          then (False, s)
          else if RepeatNumber alerting > 0 \<and> NotifyCount (heap s old) \<ge> RepeatNumber alerting
          then (False, s)
          else if RepeatInterval alerting > 0 \<and>
             i64 (EventTime (heap s event) - LastSent (heap s old)) < RepeatInterval alerting sdiv Second
          then (False, s)
          else
            let s = store_at event (\<lambda>e. e\<lparr>FirstFireTime := FirstFireTime (heap s old)\<rparr>) s;
                s = store_at event (\<lambda>e. e\<lparr>NotifyCount := i64 (NotifyCount (heap s old) + 1)\<rparr>) s
            in case do_forward env event s of
                 (True, s) \<Rightarrow>
                   let s = store_at event (\<lambda>e. e\<lparr>LastSent := EventTime e\<rparr>) s
                   in (True, s\<lparr>records := cache_Set (heap s) event (records s)\<rparr>)
               | (False, s) \<Rightarrow> (False, s))"

definition mayTriggerDiagnose ::
  "engine_env \<Rightarrow> addr \<Rightarrow> string \<Rightarrow> Instance \<Rightarrow> engine_state \<Rightarrow> engine_state" where
  "mayTriggerDiagnose env event pluginName ins s =
     (case globalAggregator s of
        None \<Rightarrow> s
      | Some agg \<Rightarrow>
          if m_has (diagnosedKeys s) (AlertKey (heap s event)) then s
          else
            let snapshot = ExtractCheckSnapshot (heap s event);
                diagCfg = GetDiagnoseConfig (ins_cfg ins);
                agg = agg_Submit (env_AIEnabled env) event (heap s event) snapshot pluginName
                        (Some (ins_ref ins)) diagCfg agg
            in s\<lparr>globalAggregator := Some agg,
                 diagnosedKeys := m_set (AlertKey (heap s event)) () (diagnosedKeys s)\<rparr>)"

text \<open>\<^verbatim>\<open>clean\<close>: the error is the invalid status.\<close>

definition key_string :: "labels \<Rightarrow> string" where
  "key_string ls = concat (map (\<lambda>k. k @ '':'' @ m_str ls k @ '':'') (sort (m_keys ls)))"

definition merged_labels :: "engine_env \<Rightarrow> string \<Rightarrow> labels \<Rightarrow> labels \<Rightarrow> labels \<Rightarrow> labels" where
  "merged_labels env pluginName plLabels insLabels ls =
     (let ls = m_set ''from_plugin'' pluginName ls;
          ls = m_copy plLabels ls;
          ls = m_copy insLabels ls;
          ls = m_copy (env_GlobalLabels env) ls;
          ls = m_set ''from_hostip'' (env_AgentIP env) ls;
          ls = m_set ''from_hostname'' (env_AgentHostname env) ls
      in m_set ''from_agent'' (env_FromAgent env) ls)"

definition clean ::
  "engine_env \<Rightarrow> int \<Rightarrow> string \<Rightarrow> labels \<Rightarrow> labels \<Rightarrow> Event \<Rightarrow> string option \<times> Event" where
  "clean env now pluginName plLabels insLabels e =
     (let e = (if EventTime e = 0 then e\<lparr>EventTime := now\<rparr> else e) in
      if \<not> EventStatusValid (EventStatus e) then (Some (EventStatus e), e)
      else
        let ls = merged_labels env pluginName plLabels insLabels (nil_map (Labels e))
        in (None, e\<lparr>Labels := Some ls, AlertKey := env_md5 env (key_string ls)\<rparr>))"

definition push_event ::
  "engine_env \<Rightarrow> int \<Rightarrow> string \<Rightarrow> InternalConfig \<Rightarrow> Instance \<Rightarrow> addr \<Rightarrow> engine_state \<Rightarrow> engine_state" where
  "push_event env now pluginName pluginObj ins event s =
     (let (err, e) = clean env now pluginName (GetLabels pluginObj) (GetLabels (ins_cfg ins)) (heap s event);
          s = store_at event (\<lambda>_. e) s
      in if err \<noteq> None then s
         else if Disabled (GetAlerting (ins_cfg ins)) then s
         else if EventStatus (heap s event) = EventStatusOk then handleRecoveryEvent env ins event s
         else
           (case handleAlertEvent env ins event s of
              (True, s) \<Rightarrow> mayTriggerDiagnose env event pluginName ins s
            | (False, s) \<Rightarrow> s))"

definition PushRawEvents ::
  "engine_env \<Rightarrow> int \<Rightarrow> string \<Rightarrow> InternalConfig \<Rightarrow> Instance \<Rightarrow> addr option Queue \<Rightarrow> engine_state \<Rightarrow>
   addr option Queue \<times> engine_state" where
  "PushRawEvents env now pluginName pluginObj ins q s =
     (if Len q = 0 then (q, s)
      else
        let (events, q) = PopBackAll q
        in (q, foldl (\<lambda>s ev. case ev of
                  None \<Rightarrow> s
                | Some event \<Rightarrow> push_event env now pluginName pluginObj ins event s) s events))"

section \<open>Abstract specification: the life cycle of one alert\<close>

datatype alert_state =
    Normal
  | Firing (first_fire: int) (notify_count: int) (last_sent: int)

text \<open>When a firing alert may notify again.\<close>

definition due :: "Alerting \<Rightarrow> int \<Rightarrow> alert_state \<Rightarrow> bool" where
  "due al t st =
     (case st of
        Normal \<Rightarrow> ForDuration al = 0
      | Firing f n l \<Rightarrow>
          \<not> (ForDuration al > 0 \<and> i64 (t - f) < ForDuration al sdiv Second) \<and>
          \<not> (RepeatNumber al > 0 \<and> n \<ge> RepeatNumber al) \<and>
          \<not> (RepeatInterval al > 0 \<and> i64 (t - l) < RepeatInterval al sdiv Second))"

definition spec_alert :: "Alerting \<Rightarrow> int \<Rightarrow> bool \<Rightarrow> alert_state \<Rightarrow> bool \<times> alert_state" where
  "spec_alert al t ok st =
     (let sent = due al t st \<and> ok in
      (sent,
       case st of
         Normal \<Rightarrow> (if sent then Firing t 1 t else Firing t 0 0)
       | Firing f n l \<Rightarrow> (if sent then Firing f (i64 (n + 1)) t else Firing f n l)))"

definition spec_recover :: "Alerting \<Rightarrow> alert_state \<Rightarrow> bool \<times> alert_state" where
  "spec_recover al st =
     (case st of
        Normal \<Rightarrow> (False, Normal)
      | Firing f n l \<Rightarrow> (\<not> DisableRecoveryNotification al \<and> l > 0, Normal))"

definition abs_alert :: "engine_state \<Rightarrow> string \<Rightarrow> alert_state" where
  "abs_alert s k =
     (case map_of (records s) k of
        None \<Rightarrow> Normal
      | Some a \<Rightarrow> Firing (FirstFireTime (heap s a)) (NotifyCount (heap s a)) (LastSent (heap s a)))"

text \<open>The event as it is handed to the notifiers.\<close>

definition outgoing :: "alert_state \<Rightarrow> Event \<Rightarrow> Event" where
  "outgoing st e =
     (case st of
        Normal \<Rightarrow> e\<lparr>FirstFireTime := EventTime e\<rparr>
      | Firing f n l \<Rightarrow> e\<lparr>FirstFireTime := f, NotifyCount := i64 (n + 1)\<rparr>)"

text \<open>Well-formed cache, and a pointer the plugin has just built.\<close>

definition cache_inv :: "engine_state \<Rightarrow> bool" where
  "cache_inv s \<longleftrightarrow>
     m_ok (records s) \<and>
     (\<forall>k a. map_of (records s) k = Some a \<longrightarrow> AlertKey (heap s a) = k)"

definition fresh :: "addr \<Rightarrow> engine_state \<Rightarrow> bool" where
  "fresh a s \<longleftrightarrow> a \<notin> ran (map_of (records s)) \<and> NotifyCount (heap s a) = 0 \<and> LastSent (heap s a) = 0"

section \<open>The cache contract\<close>

text \<open>What the handlers rely on: a store of alerts by key.\<close>

locale alert_store =
  fixes get :: "'k \<Rightarrow> 'c \<Rightarrow> 'a option"
    and put :: "('a \<Rightarrow> 'k) \<Rightarrow> 'a \<Rightarrow> 'c \<Rightarrow> 'c"
    and del :: "'k \<Rightarrow> 'c \<Rightarrow> 'c"
  assumes get_put: "get k (put key v c) = (if k = key v then Some v else get k c)"
    and get_del: "get k (del k' c) = (if k = k' then None else get k c)"
begin

lemma get_put_del: "get k (del (key v) (put key v c)) = get k (del (key v) c)"
  by (simp add: get_put get_del)

lemma put_twice: "key v = key w \<Longrightarrow> get k (put key w (put key v c)) = get k (put key w c)"
  by (simp add: get_put)

end

interpretation event_cache: alert_store cache_Get "\<lambda>key v c. m_set (key v) v c" cache_Del
  by unfold_locales (auto simp: cache_Get_def cache_Del_def)

lemma cache_Set_get: "map_of (cache_Set h a c) k = (if k = AlertKey (h a) then Some a else map_of c k)"
  using event_cache.get_put [of k "\<lambda>v. AlertKey (h v)" a c]
  by (simp add: cache_Set_def cache_Get_def)

lemma cache_Del_get: "map_of (cache_Del key c) k = (if k = key then None else map_of c k)"
  using event_cache.get_del [of k key c] by (simp add: cache_Get_def)

lemma m_ok_cache [simp]: "m_ok c \<Longrightarrow> m_ok (cache_Set h a c)" "m_ok c \<Longrightarrow> m_ok (cache_Del k c)"
  by (simp_all add: cache_Set_def cache_Del_def)

section \<open>Refinement\<close>

lemma abs_alert_frame:
  "map_of (records s') k = map_of (records s) k \<Longrightarrow>
   (\<And>a. map_of (records s) k = Some a \<Longrightarrow> heap s' a = heap s a) \<Longrightarrow>
   abs_alert s' k = abs_alert s k"
  by (auto simp: abs_alert_def split: option.splits)

lemma fresh_not_cached: "fresh a s \<Longrightarrow> map_of (records s) k = Some b \<Longrightarrow> b \<noteq> a"
  by (auto simp: fresh_def ran_def)

lemma cache_inv_key: "cache_inv s \<Longrightarrow> map_of (records s) k = Some a \<Longrightarrow> AlertKey (heap s a) = k"
  by (simp add: cache_inv_def)

lemmas engine_simps =
  cache_Get_def cache_Set_get cache_Del_get store_at_def do_forward_def Let_def

lemma handleAlert_refines:
  fixes env :: engine_env and ins :: Instance and s :: engine_state and a :: addr
  assumes inv: "cache_inv s" and fr: "fresh a s"
  defines "k \<equiv> AlertKey (heap s a)"
  defines "e \<equiv> outgoing (abs_alert s k) (heap s a)"
  defines "r \<equiv> handleAlertEvent env ins a s"
  defines "al \<equiv> GetAlerting (ins_cfg ins)"
  shows "(fst r, abs_alert (snd r) k)
           = spec_alert al (EventTime (heap s a)) (Forward (env_notifiers env) (forwarded s) e) (abs_alert s k)"
    and "forwarded (snd r) = forwarded s @ (if due al (EventTime (heap s a)) (abs_alert s k) then [e] else [])"
proof -
  show "(fst r, abs_alert (snd r) k)
          = spec_alert al (EventTime (heap s a)) (Forward (env_notifiers env) (forwarded s) e) (abs_alert s k)"
  proof (cases "map_of (records s) k")
    case None
    with fr show ?thesis
      by (auto simp: r_def handleAlertEvent_def engine_simps abs_alert_def spec_alert_def due_def
          k_def al_def e_def outgoing_def fresh_def i64_def fun_upd_def split: bool.splits)
  next
    case (Some b)
    then have "b \<noteq> a" using fr fresh_not_cached by blast
    with Some show ?thesis
      by (auto simp: r_def handleAlertEvent_def engine_simps abs_alert_def spec_alert_def due_def
          k_def al_def e_def outgoing_def fun_upd_def split: bool.splits)
  qed
  show "forwarded (snd r) = forwarded s @ (if due al (EventTime (heap s a)) (abs_alert s k) then [e] else [])"
  proof (cases "map_of (records s) k")
    case None
    then show ?thesis
      by (auto simp: r_def handleAlertEvent_def engine_simps abs_alert_def due_def
          k_def al_def e_def outgoing_def fun_upd_def split: bool.splits)
  next
    case (Some b)
    then have "b \<noteq> a" using fr fresh_not_cached by blast
    with Some show ?thesis
      by (auto simp: r_def handleAlertEvent_def engine_simps abs_alert_def due_def
          k_def al_def e_def outgoing_def fun_upd_def split: bool.splits)
  qed
qed

text \<open>What a handler leaves alone: other cells of the heap, other keys, the identity of the event.\<close>

lemma handleAlert_heap:
  "b \<noteq> a \<Longrightarrow> heap (snd (handleAlertEvent env ins a s)) b = heap s b"
  by (auto simp: handleAlertEvent_def engine_simps split: option.splits bool.splits)

lemma handleAlert_identity:
  "AlertKey (heap (snd (handleAlertEvent env ins a s)) a) = AlertKey (heap s a)"
  "EventTime (heap (snd (handleAlertEvent env ins a s)) a) = EventTime (heap s a)"
  "EventStatus (heap (snd (handleAlertEvent env ins a s)) a) = EventStatus (heap s a)"
  by (auto simp: handleAlertEvent_def engine_simps split: option.splits bool.splits)

lemma handleAlert_records_map:
  "map_of (records (snd (handleAlertEvent env ins a s)))
     \<in> {map_of (records s), (map_of (records s))(AlertKey (heap s a) \<mapsto> a)}"
  by (simp add: handleAlertEvent_def Let_def do_forward_def store_at_def cache_Set_def
      split: option.splits bool.splits)

lemma handleAlert_records:
  "map_of (records (snd (handleAlertEvent env ins a s))) k = map_of (records s) k \<or>
   k = AlertKey (heap s a) \<and> map_of (records (snd (handleAlertEvent env ins a s))) k = Some a"
  using handleAlert_records_map [of env ins a s] by (auto split: if_splits)

lemma handleAlert_ok:
  "m_ok (records s) \<Longrightarrow> m_ok (records (snd (handleAlertEvent env ins a s)))"
  by (auto simp: handleAlertEvent_def engine_simps split: option.splits bool.splits)

lemma handleAlert_rest:
  "diagnosedKeys (snd (handleAlertEvent env ins a s)) = diagnosedKeys s"
  "globalAggregator (snd (handleAlertEvent env ins a s)) = globalAggregator s"
  by (auto simp: handleAlertEvent_def engine_simps split: option.splits bool.splits)

lemma handleRecovery_simps:
  assumes "cache_inv s"
  shows "heap (handleRecoveryEvent env ins a s) = heap s"
    and "map_of (records (handleRecoveryEvent env ins a s)) = (map_of (records s))(AlertKey (heap s a) := None)"
    and "m_ok (records (handleRecoveryEvent env ins a s))"
    and "diagnosedKeys (handleRecoveryEvent env ins a s) = m_del (AlertKey (heap s a)) (diagnosedKeys s)"
    and "globalAggregator (handleRecoveryEvent env ins a s) = globalAggregator s"
  using assms
  by (auto simp: handleRecoveryEvent_def engine_simps cache_inv_def fun_eq_iff split: option.splits)

lemma handleAlert_inv [step_inv]:
  assumes "cache_inv s" "fresh a s"
  shows "cache_inv (snd (handleAlertEvent env ins a s))"
proof -
  have "AlertKey (heap (snd (handleAlertEvent env ins a s)) b) = k"
    if b: "map_of (records (snd (handleAlertEvent env ins a s))) k = Some b" for k b
  proof (cases "b = a")
    case True
    then have "k = AlertKey (heap s a)"
      using handleAlert_records [of env ins a s k] b fresh_not_cached [OF assms(2), of k b] by auto
    with True show ?thesis by (simp add: handleAlert_identity)
  next
    case False
    then have "map_of (records s) k = Some b"
      using handleAlert_records [of env ins a s k] b by auto
    with False show ?thesis
      using cache_inv_key [OF assms(1)] by (simp add: handleAlert_heap)
  qed
  with handleAlert_ok assms(1) show ?thesis by (simp add: cache_inv_def)
qed

lemma handleAlert_frame:
  assumes "fresh a s" "k \<noteq> AlertKey (heap s a)"
  shows "abs_alert (snd (handleAlertEvent env ins a s)) k = abs_alert s k"
proof (rule abs_alert_frame)
  show "map_of (records (snd (handleAlertEvent env ins a s))) k = map_of (records s) k"
    using handleAlert_records [of env ins a s k] assms(2) by auto
  fix b assume "map_of (records s) k = Some b"
  with assms(1) have "b \<noteq> a" using fresh_not_cached by blast
  then show "heap (snd (handleAlertEvent env ins a s)) b = heap s b" by (rule handleAlert_heap)
qed

lemma handleRecovery_refines:
  fixes a :: addr
  assumes "cache_inv s"
  defines "k \<equiv> AlertKey (heap s a)"
  shows "abs_alert (handleRecoveryEvent env ins a s)
           = (abs_alert s)(k := snd (spec_recover (GetAlerting (ins_cfg ins)) (abs_alert s k)))"
    and "forwarded (handleRecoveryEvent env ins a s)
           = forwarded s @ (if fst (spec_recover (GetAlerting (ins_cfg ins)) (abs_alert s k)) then [heap s a] else [])"
proof -
  show "abs_alert (handleRecoveryEvent env ins a s)
          = (abs_alert s)(k := snd (spec_recover (GetAlerting (ins_cfg ins)) (abs_alert s k)))"
    using handleRecovery_simps [OF assms(1), of env ins a]
    by (auto simp: abs_alert_def spec_recover_def k_def fun_eq_iff split: option.splits)
  show "forwarded (handleRecoveryEvent env ins a s)
          = forwarded s @ (if fst (spec_recover (GetAlerting (ins_cfg ins)) (abs_alert s k)) then [heap s a] else [])"
    by (auto simp: handleRecoveryEvent_def engine_simps abs_alert_def spec_recover_def k_def
        split: option.splits)
qed

lemma mayTrigger_rest [simp]:
  "heap (mayTriggerDiagnose env a p ins s) = heap s"
  "records (mayTriggerDiagnose env a p ins s) = records s"
  "forwarded (mayTriggerDiagnose env a p ins s) = forwarded s"
  by (auto simp: mayTriggerDiagnose_def Let_def split: option.splits)

lemma mayTrigger_abs [simp]: "abs_alert (mayTriggerDiagnose env a p ins s) = abs_alert s"
  by (auto simp: abs_alert_def fun_eq_iff split: option.splits)

lemma mayTrigger_inv [simp]: "cache_inv (mayTriggerDiagnose env a p ins s) = cache_inv s"
  by (simp add: cache_inv_def)

section \<open>A whole batch\<close>

definition spec_push ::
  "engine_env \<Rightarrow> int \<Rightarrow> string \<Rightarrow> InternalConfig \<Rightarrow> Instance \<Rightarrow> Event \<Rightarrow>
   (string \<Rightarrow> alert_state) \<times> Event list \<Rightarrow> (string \<Rightarrow> alert_state) \<times> Event list" where
  "spec_push env now pluginName pluginObj ins ev \<sigma> =
     (let (st, hist) = \<sigma>; al = GetAlerting (ins_cfg ins);
          (err, e) = clean env now pluginName (GetLabels pluginObj) (GetLabels (ins_cfg ins)) ev;
          k = AlertKey e
      in if err \<noteq> None \<or> Disabled al then (st, hist)
         else if EventStatus e = EventStatusOk then
           (let (tell, st') = spec_recover al (st k)
            in (st(k := st'), hist @ (if tell then [e] else [])))
         else
           (let out = outgoing (st k) e
            in (st(k := snd (spec_alert al (EventTime e) (Forward (env_notifiers env) hist out) (st k))),
                hist @ (if due al (EventTime e) (st k) then [out] else []))))"

text \<open>The pointers of one batch: distinct, newly built events.\<close>

definition batch_ok :: "addr list \<Rightarrow> engine_state \<Rightarrow> bool" where
  "batch_ok ptrs s \<longleftrightarrow> distinct ptrs \<and> (\<forall>a \<in> set ptrs. fresh a s)"

lemma clean_counters:
  "NotifyCount (snd (clean env now p pl il e)) = NotifyCount e"
  "LastSent (snd (clean env now p pl il e)) = LastSent e"
  by (auto simp: clean_def Let_def)

lemma store_fresh_abs:
  assumes "a \<notin> ran (map_of (records s))"
  shows "abs_alert (store_at a f s) = abs_alert s"
  using assms by (auto simp: abs_alert_def store_at_def ran_def fun_eq_iff split: option.splits)

lemma store_fresh_inv:
  assumes "cache_inv s" "a \<notin> ran (map_of (records s))"
  shows "cache_inv (store_at a f s)"
  using assms by (auto simp: cache_inv_def store_at_def ran_def)

text \<open>One event of the batch simulates one step of the specification.\<close>

lemma push_event_refines:
  fixes env :: engine_env and pl :: InternalConfig and ins :: Instance
    and now :: int and p :: string and a :: addr
  assumes inv: "cache_inv s" and fr: "fresh a s"
  defines "s' \<equiv> push_event env now p pl ins a s"
  shows "(abs_alert s', forwarded s') = spec_push env now p pl ins (heap s a) (abs_alert s, forwarded s)"
    and "cache_inv s'"
    and "\<And>b. b \<noteq> a \<Longrightarrow> heap s' b = heap s b"
    and "ran (map_of (records s')) \<subseteq> insert a (ran (map_of (records s)))"
proof -
  obtain err e where c: "clean env now p (GetLabels pl) (GetLabels (ins_cfg ins)) (heap s a) = (err, e)"
    by (cases "clean env now p (GetLabels pl) (GetLabels (ins_cfg ins)) (heap s a)")
  define s1 where "s1 = store_at a (\<lambda>_. e) s"
  have nc: "a \<notin> ran (map_of (records s))" using fr by (simp add: fresh_def)
  have e0: "NotifyCount e = 0" "LastSent e = 0"
    using clean_counters [of env now p "GetLabels pl" "GetLabels (ins_cfg ins)" "heap s a"] c fr
    by (auto simp: fresh_def)
  have h1: "heap s1 a = e" "\<And>b. b \<noteq> a \<Longrightarrow> heap s1 b = heap s b"
    and r1: "records s1 = records s" "forwarded s1 = forwarded s"
    by (simp_all add: s1_def store_at_def)
  have abs1: "abs_alert s1 = abs_alert s" unfolding s1_def by (rule store_fresh_abs [OF nc])
  have inv1: "cache_inv s1" unfolding s1_def by (rule store_fresh_inv [OF inv nc])
  have fr1: "fresh a s1" using nc e0 h1 r1 by (simp add: fresh_def)
  let ?al = "GetAlerting (ins_cfg ins)"
  consider (skip) "err \<noteq> None \<or> Disabled ?al"
    | (recover) "err = None" "\<not> Disabled ?al" "EventStatus e = EventStatusOk"
    | (alert) "err = None" "\<not> Disabled ?al" "EventStatus e \<noteq> EventStatusOk" by blast
  then have "(abs_alert s', forwarded s') = spec_push env now p pl ins (heap s a) (abs_alert s, forwarded s)
     \<and> cache_inv s' \<and> (\<forall>b. b \<noteq> a \<longrightarrow> heap s' b = heap s b)
     \<and> ran (map_of (records s')) \<subseteq> insert a (ran (map_of (records s)))"
  proof cases
    case skip
    then have "s' = s1" by (auto simp: s'_def push_event_def c s1_def Let_def)
    with skip show ?thesis
      using abs1 r1 inv1 h1 by (auto simp: spec_push_def c Let_def)
  next
    case recover
    then have s': "s' = handleRecoveryEvent env ins a s1"
      by (auto simp: s'_def push_event_def c s1_def Let_def store_at_def)
    note rec = handleRecovery_refines [OF inv1, of env ins a] handleRecovery_simps [OF inv1, of env ins a]
    have "ran (map_of (records s')) \<subseteq> ran (map_of (records s))"
      using rec(4) r1 s' by (auto simp: ran_def split: if_splits)
    moreover have "cache_inv s'"
      using rec(3-5) inv1 s' by (auto simp: cache_inv_def split: if_splits)
    moreover have "(abs_alert s', forwarded s') = spec_push env now p pl ins (heap s a) (abs_alert s, forwarded s)"
      using recover rec(1,2) s' h1 abs1 r1 by (auto simp: spec_push_def c Let_def split: prod.splits)
    ultimately show ?thesis using rec(3) s' h1 by auto
  next
    case alert
    let ?s2 = "snd (handleAlertEvent env ins a s1)"
    have s': "s' = (if fst (handleAlertEvent env ins a s1) then mayTriggerDiagnose env a p ins ?s2 else ?s2)"
      using alert by (auto simp: s'_def push_event_def c s1_def Let_def store_at_def split: prod.splits bool.splits)
    note ref = handleAlert_refines [OF inv1 fr1, where env = env and ins = ins]
    have "abs_alert s' = (abs_alert s)(AlertKey e := abs_alert ?s2 (AlertKey e))"
      using s' handleAlert_frame [OF fr1, of _ env ins] h1 abs1 by (auto simp: fun_eq_iff)
    moreover have "abs_alert ?s2 (AlertKey e) = snd (spec_alert ?al (EventTime e)
        (Forward (env_notifiers env) (forwarded s) (outgoing (abs_alert s (AlertKey e)) e)) (abs_alert s (AlertKey e)))"
      using ref(1) h1 abs1 r1 by (metis snd_conv)
    moreover have "forwarded s' = forwarded s @ (if due ?al (EventTime e) (abs_alert s (AlertKey e))
        then [outgoing (abs_alert s (AlertKey e)) e] else [])"
      using ref(2) s' h1 abs1 r1 by simp
    moreover have "cache_inv s'" using s' handleAlert_inv [OF inv1 fr1] by simp
    moreover have "heap s' b = heap s b" if "b \<noteq> a" for b
      using s' handleAlert_heap [OF that] h1(2) [OF that] by simp
    moreover have "ran (map_of (records s')) \<subseteq> insert a (ran (map_of (records s)))"
    proof
      fix b assume "b \<in> ran (map_of (records s'))"
      then obtain k where "map_of (records ?s2) k = Some b" using s' by (auto simp: ran_def split: if_splits)
      then show "b \<in> insert a (ran (map_of (records s)))"
        using handleAlert_records [of env ins a s1 k] r1 by (auto simp: ran_def)
    qed
    ultimately show ?thesis using alert by (simp add: spec_push_def c Let_def)
  qed
  then show "(abs_alert s', forwarded s') = spec_push env now p pl ins (heap s a) (abs_alert s, forwarded s)"
    and "cache_inv s'" and "\<And>b. b \<noteq> a \<Longrightarrow> heap s' b = heap s b"
    and "ran (map_of (records s')) \<subseteq> insert a (ran (map_of (records s)))" by simp_all
qed

lemma batch_ok_step:
  assumes "batch_ok (a # ptrs) s" "cache_inv s"
  shows "batch_ok ptrs (push_event env now p pl ins a s)"
proof -
  from assms(1) have fr: "fresh a s" and d: "a \<notin> set ptrs" "distinct ptrs"
    and frs: "\<And>b. b \<in> set ptrs \<Longrightarrow> fresh b s" by (auto simp: batch_ok_def)
  have "fresh b (push_event env now p pl ins a s)" if "b \<in> set ptrs" for b
  proof -
    note one = push_event_refines [OF assms(2) fr, where env = env and now = now and p = p and pl = pl and ins = ins]
    have "b \<noteq> a" using d(1) that by auto
    from one(3) [OF this] one(4) this frs [OF that] show ?thesis by (auto simp: fresh_def)
  qed
  with d show ?thesis by (simp add: batch_ok_def)
qed

lemma push_batch_refines:
  "batch_ok ptrs s \<Longrightarrow> cache_inv s \<Longrightarrow>
   (let s' = foldl (\<lambda>s a. push_event env now p pl ins a s) s ptrs in
    (abs_alert s', forwarded s')
      = foldl (\<lambda>\<sigma> a. spec_push env now p pl ins (heap s a) \<sigma>) (abs_alert s, forwarded s) ptrs \<and> cache_inv s')"
proof (induction ptrs arbitrary: s)
  case Nil
  then show ?case by simp
next
  case (Cons a ptrs)
  let ?s1 = "push_event env now p pl ins a s"
  from Cons.prems have fr: "fresh a s" and d: "a \<notin> set ptrs" by (auto simp: batch_ok_def)
  note one = push_event_refines [OF Cons.prems(2) fr, where env = env and now = now and p = p and pl = pl and ins = ins]
  have "heap ?s1 b = heap s b" if "b \<in> set ptrs" for b
    using one(3) [of b] d that by auto
  then have same: "foldl (\<lambda>\<sigma> b. spec_push env now p pl ins (heap ?s1 b) \<sigma>) \<sigma> ptrs
      = foldl (\<lambda>\<sigma> b. spec_push env now p pl ins (heap s b) \<sigma>) \<sigma> ptrs" for \<sigma>
    by (intro foldl_cong) auto
  from Cons.IH [OF batch_ok_step [OF Cons.prems] one(2)] same one(1) show ?case
    by (simp add: Let_def)
qed

lemma PushRawEvents_ptrs:
  "snd (PushRawEvents env now p pl ins q s)
     = foldl (\<lambda>s a. push_event env now p pl ins a s) s (List.map_filter (\<lambda>x. x) (contents q))"
proof -
  have "foldl (\<lambda>s ev. case ev of None \<Rightarrow> s | Some event \<Rightarrow> push_event env now p pl ins event s) s evs
      = foldl (\<lambda>s a. push_event env now p pl ins a s) s (List.map_filter (\<lambda>x. x) evs)" for evs s
    by (induction evs arbitrary: s) (auto simp: List.map_filter_def split: option.splits)
  moreover have "Len q = 0 \<Longrightarrow> contents q = []" using length_contents [of q] by auto
  ultimately show ?thesis
    using safe_queue.drain_abs [of q]
    by (auto simp: PushRawEvents_def Let_def List.map_filter_def split: prod.splits)
qed

section \<open>Counters and times\<close>

definition count_ok :: "Alerting \<Rightarrow> alert_state \<Rightarrow> bool" where
  "count_ok al st =
     (case st of Normal \<Rightarrow> True
      | Firing f n l \<Rightarrow> 0 \<le> n \<and> n \<le> RepeatNumber al \<and> (l \<noteq> 0 \<longrightarrow> n > 0))"

definition count_inv :: "Alerting \<Rightarrow> (string \<Rightarrow> alert_state) \<Rightarrow> bool" where
  "count_inv al st \<longleftrightarrow> (\<forall>k. count_ok al (st k))"

lemma spec_alert_count:
  assumes "RepeatNumber al > 0" "in_i64 (RepeatNumber al)" "count_ok al st"
  shows "count_ok al (snd (spec_alert al t ok st))"
proof (cases st)
  case Normal
  then show ?thesis using assms(1) by (simp add: spec_alert_def count_ok_def Let_def)
next
  case (Firing f n l)
  have "i64 (n + 1) = n + 1" if "n < RepeatNumber al" "0 \<le> n"
    using assms(2) that by (intro i64_id) (auto simp: in_i64_def)
  with Firing assms show ?thesis by (auto simp: spec_alert_def count_ok_def due_def Let_def)
qed

lemma spec_recover_count: "count_ok al (snd (spec_recover al st))"
  by (cases st) (auto simp: spec_recover_def count_ok_def)

lemma spec_push_shape:
  "fst (spec_push env now p pl ins ev \<sigma>) = fst \<sigma> \<or>
   (\<exists>k t ok. fst (spec_push env now p pl ins ev \<sigma>)
      = (fst \<sigma>)(k := snd (spec_recover (GetAlerting (ins_cfg ins)) (fst \<sigma> k))) \<or>
      fst (spec_push env now p pl ins ev \<sigma>)
      = (fst \<sigma>)(k := snd (spec_alert (GetAlerting (ins_cfg ins)) t ok (fst \<sigma> k))))"
  unfolding spec_push_def Let_def case_prod_beta by simp blast

lemma spec_push_count:
  assumes "RepeatNumber (GetAlerting (ins_cfg ins)) > 0" "in_i64 (RepeatNumber (GetAlerting (ins_cfg ins)))"
    and "count_inv (GetAlerting (ins_cfg ins)) (fst \<sigma>)"
  shows "count_inv (GetAlerting (ins_cfg ins)) (fst (spec_push env now p pl ins ev \<sigma>))"
  using spec_push_shape [of env now p pl ins ev \<sigma>] assms(3)
    spec_alert_count [OF assms(1,2)] spec_recover_count
  by (auto simp: count_inv_def)

lemma spec_batch_count:
  assumes "RepeatNumber (GetAlerting (ins_cfg ins)) > 0" "in_i64 (RepeatNumber (GetAlerting (ins_cfg ins)))"
    and "count_inv (GetAlerting (ins_cfg ins)) (fst \<sigma>)"
  shows "count_inv (GetAlerting (ins_cfg ins))
           (fst (foldl (\<lambda>\<sigma> a. spec_push env now p pl ins (ev a) \<sigma>) \<sigma> ptrs))"
  using assms(3)
proof (induction ptrs arbitrary: \<sigma>)
  case Nil
  then show ?case by simp
next
  case (Cons a ptrs)
  from Cons.IH [OF spec_push_count [OF assms(1,2) Cons.prems]] show ?case by simp
qed

section \<open>Alert keys\<close>

lemma merged_labels_get:
  assumes "m_ok pl" "m_ok il" "m_ok (env_GlobalLabels env)"
  shows "map_of (merged_labels env p pl il ls)
           = ((map_of ls)(''from_plugin'' \<mapsto> p) ++ map_of pl ++ map_of il ++ map_of (env_GlobalLabels env))
               (''from_hostip'' \<mapsto> env_AgentIP env, ''from_hostname'' \<mapsto> env_AgentHostname env,
                ''from_agent'' \<mapsto> env_FromAgent env)"
  using assms by (simp add: merged_labels_def Let_def m_copy_get)

lemma m_ok_merged [simp]: "m_ok ls \<Longrightarrow> m_ok (merged_labels env p pl il ls)"
  by (simp add: merged_labels_def Let_def)

lemma key_string_unique:
  assumes "m_ok m" "m_ok m'" "map_of m = map_of m'"
  shows "key_string m = key_string m'"
  using sorted_keys_unique [OF assms] m_str_cong [OF assms(3)] by (simp add: key_string_def)

text \<open>Reading a colon-terminated field off the front of a key string.\<close>

lemma colon_split:
  "CHR '':'' \<notin> set x \<Longrightarrow> CHR '':'' \<notin> set y \<Longrightarrow> x @ '':'' @ u = y @ '':'' @ v \<Longrightarrow> x = y \<and> u = v"
proof (induction x arbitrary: y)
  case Nil
  then show ?case by (cases y) auto
next
  case (Cons c x)
  then show ?case by (cases y) auto
qed

definition field_string :: "(string \<times> string) list \<Rightarrow> string" where
  "field_string kvs = concat (map (\<lambda>(k, v). k @ '':'' @ v @ '':'') kvs)"

lemma field_string_inject:
  assumes "\<forall>(k, v) \<in> set xs. CHR '':'' \<notin> set k \<and> CHR '':'' \<notin> set v"
    and "\<forall>(k, v) \<in> set ys. CHR '':'' \<notin> set k \<and> CHR '':'' \<notin> set v"
    and "field_string xs = field_string ys"
  shows "xs = ys"
  using assms
proof (induction xs arbitrary: ys)
  case Nil
  then show ?case by (cases ys) (auto simp: field_string_def)
next
  case (Cons x xs)
  obtain k v where x: "x = (k, v)" by (cases x)
  from Cons.prems(3) x obtain y ys' where ys: "ys = y # ys'"
    by (cases ys) (auto simp: field_string_def)
  obtain k' v' where y: "y = (k', v')" by (cases y)
  have eq: "k @ '':'' @ (v @ '':'' @ field_string xs) = k' @ '':'' @ (v' @ '':'' @ field_string ys')"
    using Cons.prems(3) by (simp add: field_string_def x y ys)
  have "k = k' \<and> v @ '':'' @ field_string xs = v' @ '':'' @ field_string ys'"
    using Cons.prems(1,2) by (intro colon_split [OF _ _ eq]) (auto simp: x y ys)
  moreover from this have "v = v' \<and> field_string xs = field_string ys'"
    using Cons.prems(1,2) by (intro colon_split) (auto simp: x y ys)
  ultimately show ?case
    using Cons.IH [of ys'] Cons.prems(1,2) by (auto simp: x y ys)
qed

lemma key_string_fields: "key_string ls = field_string (map (\<lambda>k. (k, m_str ls k)) (sort (m_keys ls)))"
  by (simp add: key_string_def field_string_def comp_def)

lemma map_of_from_str:
  "map_of m = (\<lambda>k. if k \<in> set (m_keys m) then Some (m_str m k) else None)"
  by (auto simp: fun_eq_iff m_str_def set_m_keys dom_def split: option.splits)

definition colon_free :: "labels \<Rightarrow> bool" where
  "colon_free m \<longleftrightarrow> (\<forall>(k, v) \<in> set m. CHR '':'' \<notin> set k \<and> CHR '':'' \<notin> set v)"

lemma colon_free_key: "colon_free m \<Longrightarrow> k \<in> set (m_keys m) \<Longrightarrow> CHR '':'' \<notin> set k \<and> CHR '':'' \<notin> set (m_str m k)"
proof -
  assume cf: "colon_free m" and "k \<in> set (m_keys m)"
  then obtain v where v: "map_of m k = Some v" by (auto simp: set_m_keys)
  then have "(k, v) \<in> set m" by (rule map_of_SomeD)
  with cf v show ?thesis by (auto simp: colon_free_def m_str_def)
qed

lemma key_string_inject:
  assumes "colon_free m" "colon_free m'" "key_string m = key_string m'"
  shows "map_of m = map_of m'"
proof -
  have "map (\<lambda>k. (k, m_str m k)) (sort (m_keys m)) = map (\<lambda>k. (k, m_str m' k)) (sort (m_keys m'))"
    using assms(3) colon_free_key [OF assms(1)] colon_free_key [OF assms(2)]
    by (intro field_string_inject) (auto simp: key_string_fields)
  then have "set (map (\<lambda>k. (k, m_str m k)) (sort (m_keys m)))
      = set (map (\<lambda>k. (k, m_str m' k)) (sort (m_keys m')))" by simp
  then have "k \<in> set (m_keys m) \<longleftrightarrow> k \<in> set (m_keys m')"
    and "k \<in> set (m_keys m) \<Longrightarrow> m_str m k = m_str m' k" for k
    by (auto simp: set_eq_iff image_iff)
  then show ?thesis by (auto simp: map_of_from_str [of m] map_of_from_str [of m'] fun_eq_iff)
qed

section \<open>Sample configuration for the witnesses\<close>

definition sample_notifier :: Notifier where
  "sample_notifier = \<lparr>nt_Name = ''console'', nt_Forward = (\<lambda>_ _. True), nt_Comment = None\<rparr>"

definition sample_env :: engine_env where
  "sample_env = \<lparr>env_md5 = (\<lambda>x. x), env_GlobalLabels = [], env_AgentIP = ''10.0.0.1'',
     env_AgentHostname = ''h'', env_FromAgent = ''catpaw'', env_notifiers = [sample_notifier],
     env_AIEnabled = True\<rparr>"

definition sample_alerting :: Alerting where
  "sample_alerting = \<lparr>Disabled = False, ForDuration = 0, RepeatInterval = 300 * Second,
     RepeatNumber = 3, DisableRecoveryNotification = False\<rparr>"

definition sample_cfg :: InternalConfig where
  "sample_cfg = \<lparr>ic_Labels = None, ic_Interval = 0, ic_Alerting = sample_alerting, ic_Diagnose = sample_diag\<rparr>"

definition sample_ins :: Instance where
  "sample_ins = \<lparr>ins_ref = 0, ins_cfg = sample_cfg\<rparr>"

definition sample_state :: engine_state where
  "sample_state = \<lparr>heap = (\<lambda>a. if a = 3 then sample_event ''disk::space'' ''Ok''
       else sample_event ''disk::space'' ''Critical''),
     records = [], diagnosedKeys = [], globalAggregator = Some (NewDiagnoseAggregator 0), forwarded = []\<rparr>"

lemmas sample_defs = sample_env_def sample_alerting_def sample_cfg_def sample_ins_def sample_state_def
  sample_event_def sample_diag_def sample_notifier_def SetEventStatus_def BuildEvent_def zero_event_def

definition sample_queue :: "addr option Queue" where
  "sample_queue = PushFrontN [Some 1, None, Some 2, Some 3] NewQueue"

lemma sample_batch:
  "contents sample_queue = [Some 1, None, Some 2, Some 3]"
  "List.map_filter (\<lambda>x. x) (contents sample_queue) = [1, 2, 3]"
  "cache_inv sample_state" "batch_ok [1, 2, 3] sample_state"
proof -
  show c: "contents sample_queue = [Some 1, None, Some 2, Some 3]"
    by (simp add: sample_queue_def PushFrontN_contents)
  show "List.map_filter (\<lambda>x. x) (contents sample_queue) = [1, 2, 3]"
    unfolding c by (simp add: List.map_filter_def)
  show "cache_inv sample_state" "batch_ok [1, 2, 3] sample_state"
    by (simp_all add: cache_inv_def batch_ok_def fresh_def sample_defs)
qed

section \<open>Properties\<close>

text \<open>C1: the engine refines the alert life cycle. Draining a queue of newly built events through
  \<^verbatim>\<open>PushRawEvents\<close> (nil pointers, invalid statuses and disabled alerting included) moves every
  alert key exactly as the abstract specification says, hands exactly the specified events to the
  notifiers in order, empties the queue and keeps the cache well formed, although the code mutates
  cached events through pointers.\<close>

theorem engine_refines_life_cycle:
  assumes "cache_inv s" and "batch_ok (List.map_filter (\<lambda>x. x) (contents q)) s"
    and "PushRawEvents env now p pl ins q s = (q', s')"
  shows "(abs_alert s', forwarded s')
           = foldl (\<lambda>\<sigma> a. spec_push env now p pl ins (heap s a) \<sigma>) (abs_alert s, forwarded s)
               (List.map_filter (\<lambda>x. x) (contents q))
         \<and> cache_inv s' \<and> contents q' = []"
proof -
  have "s' = foldl (\<lambda>s a. push_event env now p pl ins a s) s (List.map_filter (\<lambda>x. x) (contents q))"
    using PushRawEvents_ptrs [of env now p pl ins q s] assms(3) by simp
  moreover have "contents q' = []"
    using assms(3) safe_queue.drain_abs [of q] length_contents [of q]
    by (auto simp: PushRawEvents_def Let_def split: if_splits prod.splits)
  ultimately show ?thesis
    using push_batch_refines [OF assms(2,1), of env now p pl ins] by (simp add: Let_def)
qed

theorem engine_refines_life_cycle_witness:
  "(let s' = snd (PushRawEvents sample_env 1000 ''disk'' sample_cfg sample_ins sample_queue sample_state) in
    (abs_alert s', forwarded s')
      = foldl (\<lambda>\<sigma> a. spec_push sample_env 1000 ''disk'' sample_cfg sample_ins (heap sample_state a) \<sigma>)
          (abs_alert sample_state, forwarded sample_state) [1, 2, 3]
    \<and> map EventStatus (forwarded s') = [''Critical'', ''Ok''])"
proof -
  let ?r = "PushRawEvents sample_env 1000 ''disk'' sample_cfg sample_ins sample_queue sample_state"
  have "map EventStatus (forwarded (snd ?r)) = [''Critical'', ''Ok'']" by code_simp
  moreover have "?r = (fst ?r, snd ?r)" by simp
  ultimately show ?thesis
    using engine_refines_life_cycle [OF sample_batch(3), of sample_queue sample_env 1000 "''disk''" sample_cfg
        sample_ins "fst ?r" "snd ?r"] sample_batch(2,4) by (simp add: Let_def)
qed



text \<open>C3: when a notification may go out. If handling an alert event sends it, then either the alert is
  new and has no \<^verbatim>\<open>for_duration\<close>, or it has been firing for at least \<^verbatim>\<open>for_duration\<close>, has been sent fewer than
  \<^verbatim>\<open>repeat_number\<close> times, and the last notification is at least \<^verbatim>\<open>repeat_interval\<close> old (time stamps within
  a range where the 64-bit differences do not wrap); and some notifier accepted it.\<close>

theorem engine_notification_guards:
  assumes "cache_inv s" "fresh a s"
    and "handleAlertEvent env ins a s = (True, s')"
    and "0 \<le> EventTime (heap s a)" "EventTime (heap s a) < 2 ^ 62"
    and "\<And>b. map_of (records s) (AlertKey (heap s a)) = Some b \<Longrightarrow>
           0 \<le> FirstFireTime (heap s b) \<and> FirstFireTime (heap s b) < 2 ^ 62 \<and>
           0 \<le> LastSent (heap s b) \<and> LastSent (heap s b) < 2 ^ 62"
  shows "(\<exists>n. n \<in> set (env_notifiers env) \<and>
            nt_Forward n (forwarded s) (outgoing (abs_alert s (AlertKey (heap s a))) (heap s a))) \<and>
         (case map_of (records s) (AlertKey (heap s a)) of
            None \<Rightarrow> ForDuration (GetAlerting (ins_cfg ins)) = 0
          | Some b \<Rightarrow>
             (ForDuration (GetAlerting (ins_cfg ins)) > 0 \<longrightarrow>
                EventTime (heap s a) - FirstFireTime (heap s b) \<ge> ForDuration (GetAlerting (ins_cfg ins)) sdiv Second) \<and>
             (RepeatNumber (GetAlerting (ins_cfg ins)) > 0 \<longrightarrow>
                NotifyCount (heap s b) < RepeatNumber (GetAlerting (ins_cfg ins))) \<and>
             (RepeatInterval (GetAlerting (ins_cfg ins)) > 0 \<longrightarrow>
                EventTime (heap s a) - LastSent (heap s b) \<ge> RepeatInterval (GetAlerting (ins_cfg ins)) sdiv Second))"
proof -
  let ?k = "AlertKey (heap s a)" and ?al = "GetAlerting (ins_cfg ins)"
  have sent: "due ?al (EventTime (heap s a)) (abs_alert s ?k) \<and>
      Forward (env_notifiers env) (forwarded s) (outgoing (abs_alert s ?k) (heap s a))"
    using handleAlert_refines(1) [OF assms(1,2), where env = env and ins = ins] assms(3)
    by (auto simp: spec_alert_def Let_def)
  then have "\<exists>n. n \<in> set (env_notifiers env) \<and> nt_Forward n (forwarded s) (outgoing (abs_alert s ?k) (heap s a))"
    by (auto simp: notify.forward_iff list_ex_iff)
  moreover have "i64 (EventTime (heap s a) - FirstFireTime (heap s b)) = EventTime (heap s a) - FirstFireTime (heap s b)
      \<and> i64 (EventTime (heap s a) - LastSent (heap s b)) = EventTime (heap s a) - LastSent (heap s b)"
    if "map_of (records s) ?k = Some b" for b
    using assms(6) [OF that] assms(4,5) by (intro conjI i64_id) (auto simp: in_i64_def)
  ultimately show ?thesis
    using sent by (auto simp: due_def abs_alert_def split: option.splits)
qed

theorem engine_notification_guards_witness:
  "fst (handleAlertEvent sample_env sample_ins 1 sample_state) \<and>
   ForDuration (GetAlerting (ins_cfg sample_ins)) = 0"
proof -
  have ok: "fst (handleAlertEvent sample_env sample_ins 1 sample_state)" by code_simp
  then have "handleAlertEvent sample_env sample_ins 1 sample_state
      = (True, snd (handleAlertEvent sample_env sample_ins 1 sample_state))"
    by (metis prod.collapse)
  moreover have "fresh 1 sample_state" using sample_batch(4) by (simp add: batch_ok_def)
  moreover have "records sample_state = []" "EventTime (heap sample_state 1) = 0"
    by (simp_all add: sample_defs)
  ultimately show ?thesis
    using engine_notification_guards [OF sample_batch(3), of 1 sample_env sample_ins] ok by simp
qed

text \<open>C4: recovery. A recovery event removes exactly its own key from the cache and from the set of
  diagnosed alerts, touches no event, and reaches the notifiers exactly when an alert was cached, it
  had really been sent, and recovery notifications are enabled.\<close>

theorem engine_recovery:
  assumes "cache_inv s"
  shows "let s' = handleRecoveryEvent env ins a s; k = AlertKey (heap s a) in
         heap s' = heap s \<and>
         map_of (records s') = (map_of (records s))(k := None) \<and>
         map_of (diagnosedKeys s') = (map_of (diagnosedKeys s))(k := None) \<and>
         forwarded s' = forwarded s @
           (case map_of (records s) k of
              None \<Rightarrow> []
            | Some b \<Rightarrow> if LastSent (heap s b) > 0 \<and> \<not> DisableRecoveryNotification (GetAlerting (ins_cfg ins))
                        then [heap s a] else [])"
  using handleRecovery_simps [OF assms, of env ins a] handleRecovery_refines(2) [OF assms, of env ins a]
  by (auto simp: Let_def abs_alert_def spec_recover_def split: option.splits)

theorem engine_recovery_witness:
  "cache_inv sample_state \<and> forwarded (handleRecoveryEvent sample_env sample_ins 3 sample_state) = []"
  using engine_recovery [OF sample_batch(3), of sample_env sample_ins 3] sample_batch(3)
  by (simp add: Let_def sample_state_def)

end
