(* ===== verification/Alert_Identity.thy ===== *)
theory Alert_Identity
  imports Alert_Engine
begin

text \<open>
  What identifies an alert, and how often it is diagnosed: properties of the key computed by \<^verbatim>\<open>clean\<close> and
  of \<^verbatim>\<open>mayTriggerDiagnose\<close> in \<^verbatim>\<open>digcore/engine/engine.go\<close>, on the model of \<open>Alert_Engine\<close>.
\<close>

lemma clean_valid:
  "EventStatusValid (EventStatus e) \<Longrightarrow>
   AlertKey (snd (clean env now p pl il e)) = env_md5 env (key_string (merged_labels env p pl il (nil_map (Labels e))))"
  by (auto simp: clean_def Let_def)

lemma clean_labels:
  "EventStatusValid (EventStatus e) \<Longrightarrow>
   Labels (snd (clean env now p pl il e)) = Some (merged_labels env p pl il (nil_map (Labels e)))"
  by (auto simp: clean_def Let_def)

lemma mayTrigger_marks:
  "globalAggregator s \<noteq> None \<Longrightarrow>
   m_has (diagnosedKeys (mayTriggerDiagnose env a p ins s)) (AlertKey (heap s a))"
  by (auto simp: mayTriggerDiagnose_def m_has_def Let_def split: option.splits)

lemma mayTrigger_skips:
  "m_has (diagnosedKeys s) (AlertKey (heap s a)) \<Longrightarrow> mayTriggerDiagnose env a p ins s = s"
  by (auto simp: mayTriggerDiagnose_def split: option.splits)

section \<open>Properties\<close>

text \<open>the alert key is a function of the identity labels only. Two events of the same plugin and
  instance whose label maps agree get the same key, whatever their times, statuses, attributes and
  descriptions, and in whatever order Go iterates the label maps; so a recovery event finds the alert
  it recovers.\<close>

theorem alert_key_stable:
  assumes "EventStatusValid (EventStatus e)" "EventStatusValid (EventStatus e')"
    and "m_ok (nil_map (Labels e))" "m_ok (nil_map (Labels e'))"
    and "map_of (nil_map (Labels e)) = map_of (nil_map (Labels e'))"
    and "m_ok pl" "m_ok pl'" "map_of pl = map_of pl'"
    and "m_ok il" "m_ok il'" "map_of il = map_of il'"
    and "m_ok (env_GlobalLabels env)"
  shows "AlertKey (snd (clean env now p pl il e)) = AlertKey (snd (clean env now' p pl' il' e'))"
proof -
  have "map_of (merged_labels env p pl il (nil_map (Labels e)))
      = map_of (merged_labels env p pl' il' (nil_map (Labels e')))"
    using assms by (simp add: merged_labels_get)
  then have "key_string (merged_labels env p pl il (nil_map (Labels e)))
      = key_string (merged_labels env p pl' il' (nil_map (Labels e')))"
    using assms by (intro key_string_unique) auto
  then show ?thesis using assms(1,2) by (simp add: clean_valid)
qed

theorem alert_key_stable_witness:
  "AlertKey (snd (clean sample_env 7 ''disk'' [] [] (sample_event ''disk::space'' ''Critical'')))
   = AlertKey (snd (clean sample_env 9 ''disk'' [] []
       (SetDescription ''ok'' (BuildEvent [[(''target'', ''/''), (''check'', ''disk::space'')]]))))"
proof -
  let ?e = "sample_event ''disk::space'' ''Critical''"
  let ?e' = "SetDescription ''ok'' (BuildEvent [[(''target'', ''/''), (''check'', ''disk::space'')]])"
  show ?thesis
    by (rule alert_key_stable)
      (auto simp: m_ok_def fun_eq_iff EventStatusValid_def status_defs SetDescription_def sample_defs
        nil_map_def m_copy_def m_set_def)
qed



text \<open>without the colon restriction keys do collide, for every hash function: an event labelled
  \<^verbatim>\<open>a = "x:b:y"\<close> and one labelled \<^verbatim>\<open>a = "x", b = "y"\<close> are different alerts with the same key, so one
  would overwrite or recover the other.\<close>

theorem alert_key_collision:
  "\<exists>e e'. EventStatusValid (EventStatus e) \<and> EventStatusValid (EventStatus e') \<and>
     AlertKey (snd (clean (sample_env\<lparr>env_md5 := md5\<rparr>) now ''exec'' [] [] e))
       = AlertKey (snd (clean (sample_env\<lparr>env_md5 := md5\<rparr>) now ''exec'' [] [] e')) \<and>
     map_of (nil_map (Labels e)) ''b'' = None \<and> map_of (nil_map (Labels e')) ''b'' = Some ''y''"
proof (intro exI conjI)
  let ?e = "BuildEvent [[(''a'', ''x:b:y'')]]" and ?e' = "BuildEvent [[(''a'', ''x''), (''b'', ''y'')]]"
  let ?env = "sample_env\<lparr>env_md5 := md5\<rparr>"
  show v: "EventStatusValid (EventStatus ?e)" "EventStatusValid (EventStatus ?e')"
    by (simp_all add: EventStatusValid_def)
  have m: "merged_labels ?env p pl il ls = merged_labels sample_env p pl il ls" for p pl il ls
    by (simp add: merged_labels_def)
  have "key_string (merged_labels sample_env ''exec'' [] [] (nil_map (Labels ?e)))
      = key_string (merged_labels sample_env ''exec'' [] [] (nil_map (Labels ?e')))" by code_simp
  then show "AlertKey (snd (clean ?env now ''exec'' [] [] ?e)) = AlertKey (snd (clean ?env now ''exec'' [] [] ?e'))"
    by (simp only: clean_valid [OF v(1)] clean_valid [OF v(2)] m)
  show "map_of (nil_map (Labels ?e)) ''b'' = None" "map_of (nil_map (Labels ?e')) ''b'' = Some ''y''"
    by code_simp+
qed



text \<open>an alert below the configured minimum severity uses up the diagnosis of its whole cycle.
  \<^verbatim>\<open>mayTriggerDiagnose\<close> marks the key as diagnosed even when the aggregator rejects the event, so when
  the same alert later escalates to a severity that should be diagnosed, nothing is submitted until it
  recovers.\<close>

theorem escalation_not_diagnosed:
  assumes "globalAggregator s = Some agg"
    and "\<not> accepts (env_AIEnabled env) (GetDiagnoseConfig (ins_cfg ins)) (heap s a)"
    and "AlertKey (heap s b) = AlertKey (heap s a)"
    and "accepts (env_AIEnabled env) (GetDiagnoseConfig (ins_cfg ins)) (heap s b)"
  shows "globalAggregator (mayTriggerDiagnose env b p ins (mayTriggerDiagnose env a p ins s)) = Some agg"
proof -
  have "mayTriggerDiagnose env b p ins (mayTriggerDiagnose env a p ins s) = mayTriggerDiagnose env a p ins s"
    using mayTrigger_marks [of s env a p ins] assms(1,3) by (intro mayTrigger_skips) simp
  moreover have "globalAggregator (mayTriggerDiagnose env a p ins s) = Some agg"
    using assms(1,2) by (auto simp: mayTriggerDiagnose_def agg_Submit_rejected Let_def)
  ultimately show ?thesis by simp
qed

definition critical_only :: Instance where
  "critical_only = sample_ins\<lparr>ins_cfg := sample_cfg\<lparr>ic_Diagnose := sample_diag\<lparr>dc_MinSeverity := ''Critical''\<rparr>\<rparr>\<rparr>"

definition escalating_state :: engine_state where
  "escalating_state = sample_state\<lparr>heap := (\<lambda>a. if a = 1 then sample_event ''disk::space'' ''Warning''
     else sample_event ''disk::space'' ''Critical'')\<rparr>"

theorem escalation_not_diagnosed_witness:
  "accepts True (GetDiagnoseConfig (ins_cfg critical_only)) (heap escalating_state 2) \<and>
   globalAggregator (mayTriggerDiagnose sample_env 2 ''disk'' critical_only
     (mayTriggerDiagnose sample_env 1 ''disk'' critical_only escalating_state)) = Some (NewDiagnoseAggregator 0)"
proof -
  have "globalAggregator escalating_state = Some (NewDiagnoseAggregator 0)"
    "AlertKey (heap escalating_state 2) = AlertKey (heap escalating_state 1)"
    by (simp_all add: escalating_state_def sample_defs)
  moreover have "\<not> accepts (env_AIEnabled sample_env) (GetDiagnoseConfig (ins_cfg critical_only)) (heap escalating_state 1)"
    and acc: "accepts (env_AIEnabled sample_env) (GetDiagnoseConfig (ins_cfg critical_only)) (heap escalating_state 2)"
    by code_simp+
  ultimately have "globalAggregator (mayTriggerDiagnose sample_env 2 ''disk'' critical_only
     (mayTriggerDiagnose sample_env 1 ''disk'' critical_only escalating_state)) = Some (NewDiagnoseAggregator 0)"
    by (intro escalation_not_diagnosed)
  with acc show ?thesis by (simp add: sample_env_def)
qed

end
