(* ===== verification/Ring_Buffer.thy ===== *)
theory Ring_Buffer
  imports Events
begin

text \<open>
  \<^verbatim>\<open>digcore/server/ringbuf.go\<close> and its users in \<^verbatim>\<open>digcore/server/notifier.go\<close> and \<^verbatim>\<open>conn.go\<close>: the
  fixed-capacity circular buffer that keeps alert events across server disconnects. The buffer is
  refined to a bounded first-in first-out list that drops its oldest element when full; the locale
  \<open>bounded_fifo\<close> is the contract its users rely on. Every operation runs under the buffer's mutex, so
  it is one atomic step. A slot of the backing slice is \<open>None\<close> where Go has a nil pointer.
\<close>

section \<open>Model\<close>

record 'a RingBuffer =
  rb_buf :: "'a option list"
  rb_cap :: int
  rb_head :: int
  rb_count :: int

definition NewRingBuffer :: "int \<Rightarrow> 'a RingBuffer" where
  "NewRingBuffer capacity =
     (let capacity = (if capacity \<le> 0 then 1000 else capacity) in
      \<lparr>rb_buf = replicate (nat capacity) None, rb_cap = capacity, rb_head = 0, rb_count = 0\<rparr>)"

definition rb_Push :: "'a \<Rightarrow> 'a RingBuffer \<Rightarrow> 'a RingBuffer" where
  "rb_Push event r =
     (let r1 = r\<lparr>rb_buf := (rb_buf r)[nat (rb_head r) := Some event],
                 rb_head := (rb_head r + 1) mod rb_cap r\<rparr>
      in if rb_count r < rb_cap r then r1\<lparr>rb_count := rb_count r + 1\<rparr> else r1)"

text \<open>The copy loop of \<^verbatim>\<open>Drain\<close>: slots \<open>tail + i\<close> for \<open>i\<close> from the given value, \<open>n\<close> of them.\<close>

fun drain_loop :: "int \<Rightarrow> int \<Rightarrow> int \<Rightarrow> nat \<Rightarrow> 'a option list \<Rightarrow> 'a option list \<Rightarrow>
    'a option list \<times> 'a option list" where
  "drain_loop cap tail i 0 buf result = (result, buf)"
| "drain_loop cap tail i (Suc n) buf result =
     (let idx = nat ((tail + i) mod cap)
      in drain_loop cap tail (i + 1) n (buf[idx := None]) (result @ [buf ! idx]))"

text \<open>\<^verbatim>\<open>Drain\<close>: a negative bound on a non-empty buffer makes \<^verbatim>\<open>make\<close> panic, which is \<open>None\<close>.\<close>

definition rb_Drain :: "int \<Rightarrow> 'a RingBuffer \<Rightarrow> ('a option list \<times> 'a RingBuffer) option" where
  "rb_Drain maxItems r =
     (if rb_count r = 0 then Some ([], r)
      else
        let n = (if rb_count r > maxItems then maxItems else rb_count r) in
        if n < 0 then None
        else
          let tail = (rb_head r - rb_count r + rb_cap r) mod rb_cap r;
              (result, buf) = drain_loop (rb_cap r) tail 0 (nat n) (rb_buf r) []
          in Some (result, r\<lparr>rb_buf := buf, rb_count := rb_count r - n\<rparr>))"

definition rb_Len :: "'a RingBuffer \<Rightarrow> int" where
  "rb_Len r = rb_count r"

text \<open>The package-level \<^verbatim>\<open>alertRing\<close> (nil until \<^verbatim>\<open>InitAlertBuffer\<close>) and the notifier in front of it.\<close>

definition InitAlertBuffer :: "int \<Rightarrow> 'a RingBuffer option" where
  "InitAlertBuffer capacity = Some (NewRingBuffer capacity)"

definition SendAlertEvent :: "'a \<Rightarrow> 'a RingBuffer option \<Rightarrow> 'a RingBuffer option" where
  "SendAlertEvent event alertRing =
     (case alertRing of None \<Rightarrow> None | Some r \<Rightarrow> Some (rb_Push event r))"

definition ServerNotifier_Forward :: "'a \<Rightarrow> 'a RingBuffer option \<Rightarrow> bool \<times> 'a RingBuffer option" where
  "ServerNotifier_Forward event alertRing = (True, SendAlertEvent event alertRing)"

record alertEventItem =
  ai_EventTime :: int
  ai_EventStatus :: string
  ai_AlertKey :: string
  ai_Labels :: "labels option"
  ai_Attrs :: "labels option"
  ai_Description :: string
  ai_DescriptionFormat :: string

definition alert_item :: "Event \<Rightarrow> alertEventItem" where
  "alert_item e = \<lparr>ai_EventTime = EventTime e, ai_EventStatus = EventStatus e,
     ai_AlertKey = AlertKey e, ai_Labels = Labels e, ai_Attrs = Attrs e,
     ai_Description = Description e, ai_DescriptionFormat = DescriptionFormat e\<rparr>"

definition alertFlushBatch :: int where "alertFlushBatch = 100"

text \<open>
  How one round of \<^verbatim>\<open>flushAlertEvents\<close> ends after its \<^verbatim>\<open>Drain\<close>: the message is handed to the write loop,
  building it fails, or the connection is done before the channel takes it.
\<close>

datatype flush_outcome = FlushSent | FlushMarshalFailed | FlushConnDone

text \<open>
  The flush loop. The outcomes of its rounds come from the environment, the batches put on \<^verbatim>\<open>sendCh\<close>
  are collected, and a nil slot would be the nil dereference of \<^verbatim>\<open>e.EventTime\<close> (\<open>None\<close>).
\<close>

function flushAlertEvents :: "(nat \<Rightarrow> flush_outcome) \<Rightarrow> nat \<Rightarrow> alertEventItem list list \<Rightarrow>
    Event RingBuffer \<Rightarrow> (alertEventItem list list \<times> Event RingBuffer) option" where
  "flushAlertEvents env k sent r =
     (case rb_Drain alertFlushBatch r of
        None \<Rightarrow> None
      | Some (events, r') \<Rightarrow>
          if events = [] then Some (sent, r')
          else if None \<in> set events then None
          else
            let items = map (\<lambda>e. alert_item (the e)) events in
            case env k of
              FlushMarshalFailed \<Rightarrow> Some (sent, r')
            | FlushConnDone \<Rightarrow> Some (sent, r')
            | FlushSent \<Rightarrow> flushAlertEvents env (Suc k) (sent @ [items]) r')"
  by pat_completeness auto

section \<open>The abstract buffer\<close>

definition bf_push :: "int \<Rightarrow> 'a \<Rightarrow> 'a list \<Rightarrow> 'a list" where
  "bf_push cap x xs = (if int (length xs) < cap then xs @ [x] else drop 1 xs @ [x])"

text \<open>Slot \<open>i\<close>, counted from the oldest event, and the buffered events, oldest first.\<close>

definition rb_slot :: "'a RingBuffer \<Rightarrow> nat \<Rightarrow> nat" where
  "rb_slot r i = nat ((rb_head r - rb_count r + int i) mod rb_cap r)"

definition rb_list :: "'a RingBuffer \<Rightarrow> 'a option list" where
  "rb_list r = map (\<lambda>i. rb_buf r ! rb_slot r i) [0..<nat (rb_count r)]"

definition rb_events :: "'a RingBuffer \<Rightarrow> 'a list" where
  "rb_events r = map the (rb_list r)"

definition rb_inv :: "'a RingBuffer \<Rightarrow> bool" where
  "rb_inv r \<longleftrightarrow> 0 < rb_cap r \<and> length (rb_buf r) = nat (rb_cap r) \<and>
     0 \<le> rb_head r \<and> rb_head r < rb_cap r \<and> 0 \<le> rb_count r \<and> rb_count r \<le> rb_cap r \<and>
     None \<notin> set (rb_list r)"

locale bounded_fifo =
  fixes inv :: "'r \<Rightarrow> bool"
    and abs :: "'r \<Rightarrow> 'a list"
    and capacity :: "'r \<Rightarrow> int"
    and new :: "int \<Rightarrow> 'r"
    and push :: "'a \<Rightarrow> 'r \<Rightarrow> 'r"
    and drain :: "int \<Rightarrow> 'r \<Rightarrow> ('a option list \<times> 'r) option"
  assumes new_inv: "inv (new c)"
    and new_abs: "abs (new c) = []"
    and new_cap: "0 < c \<Longrightarrow> capacity (new c) = c"
    and cap_pos: "inv r \<Longrightarrow> 0 < capacity r"
    and len_le: "inv r \<Longrightarrow> int (length (abs r)) \<le> capacity r"
    and push_inv: "inv r \<Longrightarrow> inv (push x r) \<and> capacity (push x r) = capacity r"
    and push_abs: "inv r \<Longrightarrow> abs (push x r) = bf_push (capacity r) x (abs r)"
    and drain_abs: "inv r \<Longrightarrow> 0 \<le> n \<Longrightarrow>
          \<exists>r'. drain n r = Some (map Some (take (nat n) (abs r)), r') \<and> inv r' \<and>
               capacity r' = capacity r \<and> abs r' = drop (nat n) (abs r)"
begin

lemma pushes_inv:
  "inv r \<Longrightarrow> inv (foldl (\<lambda>r x. push x r) r xs) \<and> capacity (foldl (\<lambda>r x. push x r) r xs) = capacity r"
  by (induction xs arbitrary: r) (auto simp: push_inv)

text \<open>After any pushes the buffer holds the newest \<open>capacity\<close> of all events, in order.\<close>

lemma pushes_abs:
  assumes "inv r"
  shows "abs (foldl (\<lambda>r x. push x r) r xs) =
         drop (length (abs r @ xs) - nat (capacity r)) (abs r @ xs)"
  using assms
proof (induction xs arbitrary: r)
  case Nil
  with len_le [OF Nil] show ?case by (simp add: le_nat_iff)
next
  case (Cons x xs)
  let ?c = "nat (capacity r)" and ?a = "abs r"
  have c: "0 < capacity r" by (rule cap_pos [OF Cons.prems])
  have le: "length ?a \<le> ?c" using len_le [OF Cons.prems] c by linarith
  have inv': "inv (push x r)" "capacity (push x r) = capacity r"
    using push_inv [OF Cons.prems] by auto
  have "abs (foldl (\<lambda>r x. push x r) r (x # xs)) =
        drop (length (bf_push (capacity r) x ?a @ xs) - ?c) (bf_push (capacity r) x ?a @ xs)"
    using Cons.IH [OF inv'(1)] inv'(2) push_abs [OF Cons.prems] by simp
  also have "\<dots> = drop (length (?a @ x # xs) - ?c) (?a @ x # xs)"
  proof (cases "int (length ?a) < capacity r")
    case True
    then show ?thesis by (simp add: bf_push_def)
  next
    case False
    then have eq: "length ?a = ?c" using le c by linarith
    then obtain b bs where b: "?a = b # bs" using c by (cases ?a) auto
    have "nat (capacity r) = Suc (length bs)" using eq b by simp
    then show ?thesis using False b by (simp add: bf_push_def)
  qed
  finally show ?case .
qed

end

section \<open>The ring buffer implements it\<close>

lemma rb_slot_lt: "rb_inv r \<Longrightarrow> rb_slot r i < length (rb_buf r)"
  by (simp add: rb_inv_def rb_slot_def nat_less_iff)

lemma length_rb_list [simp]: "length (rb_list r) = nat (rb_count r)"
  by (simp add: rb_list_def)

lemma rb_list_nth: "i < nat (rb_count r) \<Longrightarrow> rb_list r ! i = rb_buf r ! rb_slot r i"
  by (simp add: rb_list_def)

lemma rb_list_events: "rb_inv r \<Longrightarrow> rb_list r = map Some (rb_events r)"
  by (auto simp: rb_inv_def rb_events_def intro!: map_idI [symmetric])
     (metis option.exhaust_sel)

text \<open>Two positions less than one lap apart are different slots.\<close>

lemma mod_lap_neq:
  fixes a b c :: int
  assumes "a < b" "b < a + c"
  shows "a mod c \<noteq> b mod c"
proof
  assume "a mod c = b mod c"
  then have "c dvd b - a" by (metis mod_eq_dvd_iff)
  then have "c \<le> b - a" using assms by (intro zdvd_imp_le) auto
  with assms show False by simp
qed

lemma NewRingBuffer_inv: "rb_inv (NewRingBuffer c)"
  by (simp add: NewRingBuffer_def rb_inv_def rb_list_def Let_def)

lemma rb_list_Push:
  assumes inv: "rb_inv r"
  shows "rb_list (rb_Push x r) = bf_push (rb_cap r) (Some x) (rb_list r)"
proof (rule nth_equalityI)
  let ?r = "rb_Push x r"
  note I = inv [unfolded rb_inv_def]
  show len: "length (rb_list ?r) = length (bf_push (rb_cap r) (Some x) (rb_list r))"
    using I by (auto simp: rb_Push_def bf_push_def Let_def)
  fix i assume i: "i < length (rb_list ?r)"
  define d where "d = (if rb_count r < rb_cap r then 0 else 1 :: int)"
  have cnt: "rb_count ?r = rb_count r + 1 - d"
    by (simp add: rb_Push_def d_def Let_def)
  have slot: "rb_slot ?r i = nat ((rb_head r - rb_count r + (int i + d)) mod rb_cap r)"
    using mod_add_left_eq [of "rb_head r + 1" "rb_cap r" "int i - rb_count r"]
      mod_add_left_eq [of "rb_head r + 1" "rb_cap r" "int i - rb_count r - 1"]
    by (simp add: rb_slot_def rb_Push_def Let_def d_def algebra_simps)
  have nth: "rb_list ?r ! i = ((rb_buf r)[nat (rb_head r) := Some x]) ! rb_slot ?r i"
    using i by (simp add: rb_list_nth) (simp add: rb_Push_def Let_def)
  have ile: "int i + d \<le> rb_count r" using i cnt length_rb_list [of ?r] by linarith
  show "rb_list ?r ! i = bf_push (rb_cap r) (Some x) (rb_list r) ! i"
  proof (cases "int i + d = rb_count r")
    case True
    then have "rb_slot ?r i = nat (rb_head r)" using slot I by simp
    then show ?thesis using nth True I
      by (auto simp: bf_push_def d_def nth_append split: if_splits)
  next
    case False
    with ile have lt: "int i + d < rb_count r" by simp
    have "(rb_head r - rb_count r + (int i + d)) mod rb_cap r \<noteq> rb_head r mod rb_cap r"
      using lt I by (intro mod_lap_neq) (auto simp: d_def)
    then have "rb_slot ?r i \<noteq> nat (rb_head r)" using slot I by (simp add: nat_eq_iff)
    moreover have d': "i + nat d < nat (rb_count r)" "int (i + nat d) = int i + d"
      using lt by (auto simp: d_def)
    ultimately have "rb_list ?r ! i = rb_list r ! (i + nat d)"
      using nth slot d' rb_list_nth [OF d'(1)] by (simp add: rb_slot_def [of r])
    then show ?thesis using lt I
      by (auto simp: bf_push_def d_def nth_append nat_less_iff split: if_splits)
  qed
qed

lemma set_bf_push: "set (bf_push c x xs) \<subseteq> insert x (set xs)"
  by (auto simp: bf_push_def dest: in_set_dropD)

lemma rb_Push_inv: "rb_inv r \<Longrightarrow> rb_inv (rb_Push x r) \<and> rb_cap (rb_Push x r) = rb_cap r"
proof -
  assume inv: "rb_inv r"
  then have "None \<notin> set (rb_list (rb_Push x r))"
    using set_bf_push [of "rb_cap r" "Some x" "rb_list r"] rb_list_Push [OF inv, of x]
    by (auto simp: rb_inv_def)
  with inv show ?thesis by (auto simp: rb_inv_def rb_Push_def Let_def)
qed

lemma rb_events_Push: "rb_inv r \<Longrightarrow> rb_events (rb_Push x r) = bf_push (rb_cap r) x (rb_events r)"
  by (simp add: rb_events_def rb_list_Push) (simp add: bf_push_def drop_map)

lemma drain_loop_spec:
  assumes "0 < c" "length buf = nat c" "int n \<le> c"
  shows "drain_loop c t i n buf res =
    (res @ map (\<lambda>j. buf ! nat ((t + i + int j) mod c)) [0..<n],
     foldl (\<lambda>b j. b[nat ((t + i + int j) mod c) := None]) buf [0..<n])"
  using assms
proof (induction n arbitrary: i buf res)
  case 0
  then show ?case by simp
next
  case (Suc n)
  let ?p = "\<lambda>i j. nat ((t + i + int j) mod c)"
  have shift: "?p (i + 1) j = ?p i (Suc j)" for j by (simp add: algebra_simps)
  have ne: "?p i 0 \<noteq> ?p i (Suc j)" if "j < n" for j
  proof -
    have "(t + i + int 0) mod c \<noteq> (t + i + int (Suc j)) mod c"
      using that Suc.prems by (intro mod_lap_neq) auto
    then show ?thesis using Suc.prems by (simp add: eq_nat_nat_iff)
  qed
  have up: "[0..<Suc n] = 0 # map Suc [0..<n]"
    by (metis map_Suc_upt upt_conv_Cons zero_less_Suc)
  show ?case
    using Suc.IH [of "buf[?p i 0 := None]" "i + 1" "res @ [buf ! ?p i 0]"] Suc.prems ne
    by (simp add: Let_def shift up foldl_map del: upt_Suc)
qed

lemma clear_slots_length: "length (foldl (\<lambda>b j. b[p j := None]) buf js) = length buf"
  by (induction js arbitrary: buf) auto

lemma clear_slots_other:
  "k \<notin> p ` set js \<Longrightarrow> foldl (\<lambda>b j. b[p j := None]) buf js ! k = buf ! k"
  by (induction js arbitrary: buf) auto

lemma rb_Drain_list:
  assumes inv: "rb_inv r" and n: "0 \<le> n"
  shows "\<exists>r'. rb_Drain n r = Some (take (nat n) (rb_list r), r') \<and>
    rb_cap r' = rb_cap r \<and> rb_head r' = rb_head r \<and> rb_list r' = drop (nat n) (rb_list r) \<and>
    rb_count r' = rb_count r - min n (rb_count r) \<and> length (rb_buf r') = length (rb_buf r)"
proof (cases "rb_count r = 0")
  case True
  then show ?thesis using n by (simp add: rb_Drain_def rb_list_def)
next
  case False
  note I = inv [unfolded rb_inv_def]
  define m where "m = nat (min n (rb_count r))"
  have m: "int m = min n (rb_count r)" using n I by (simp add: m_def)
  have le: "int m \<le> rb_cap r" using m I by linarith
  let ?t = "(rb_head r - rb_count r + rb_cap r) mod rb_cap r"
  let ?p = "\<lambda>j. nat ((?t + 0 + int j) mod rb_cap r)"
  have p: "?p j = rb_slot r j" for j
    using mod_add_left_eq [of "rb_head r - rb_count r + rb_cap r" "rb_cap r" "int j"]
      mod_add_self2 [of "rb_head r - rb_count r + int j" "rb_cap r"]
    by (simp add: rb_slot_def algebra_simps)
  let ?b = "foldl (\<lambda>b j. b[rb_slot r j := None]) (rb_buf r) [0..<m]"
  let ?r = "r\<lparr>rb_buf := ?b, rb_count := rb_count r - int m\<rparr>"
  have "drain_loop (rb_cap r) ?t 0 m (rb_buf r) [] =
        (map (\<lambda>j. rb_buf r ! rb_slot r j) [0..<m], ?b)"
    using drain_loop_spec [of "rb_cap r" "rb_buf r" m ?t 0 "[]"] I le by (simp only: p) simp
  moreover have "map (\<lambda>j. rb_buf r ! rb_slot r j) [0..<m] = take (nat n) (rb_list r)"
    using n I by (simp add: rb_list_def take_map m_def take_upt min_def)
  ultimately have "rb_Drain n r = Some (take (nat n) (rb_list r), ?r)"
    using False n I m by (auto simp: rb_Drain_def Let_def min_def m_def)
  moreover have "rb_list ?r = drop (nat n) (rb_list r)"
  proof (rule nth_equalityI)
    show len: "length (rb_list ?r) = length (drop (nat n) (rb_list r))"
      using n I m by (simp add: min_def nat_diff_distrib)
    fix i assume i: "i < length (rb_list ?r)"
    have s: "rb_slot ?r i = rb_slot r (m + i)" by (simp add: rb_slot_def algebra_simps)
    have lt: "int (m + i) < rb_count r" using i by simp
    have "rb_slot r (m + i) \<notin> rb_slot r ` set [0..<m]"
    proof
      assume "rb_slot r (m + i) \<in> rb_slot r ` set [0..<m]"
      then obtain j where j: "j < m" and e: "rb_slot r (m + i) = rb_slot r j" by auto
      have "(rb_head r - rb_count r + int j) mod rb_cap r \<noteq>
            (rb_head r - rb_count r + int (m + i)) mod rb_cap r"
        using j lt I by (intro mod_lap_neq) auto
      then show False using e I by (simp add: rb_slot_def eq_nat_nat_iff)
    qed
    then have "rb_list ?r ! i = rb_list r ! (m + i)"
      using i lt s by (simp add: rb_list_nth clear_slots_other)
    moreover have "m = nat n" using i len m n by (simp add: min_def split: if_splits)
    moreover have "nat n \<le> nat (rb_count r)" using \<open>m = nat n\<close> lt by linarith
    ultimately show "rb_list ?r ! i = drop (nat n) (rb_list r) ! i" by simp
  qed
  ultimately show ?thesis using m by (auto simp: clear_slots_length)
qed

lemma rb_Drain_refines:
  assumes inv: "rb_inv r" and n: "0 \<le> n"
  shows "\<exists>r'. rb_Drain n r = Some (map Some (take (nat n) (rb_events r)), r') \<and> rb_inv r' \<and>
              rb_cap r' = rb_cap r \<and> rb_events r' = drop (nat n) (rb_events r)"
proof -
  obtain r' where r': "rb_Drain n r = Some (take (nat n) (rb_list r), r')"
    "rb_cap r' = rb_cap r" "rb_head r' = rb_head r" "rb_list r' = drop (nat n) (rb_list r)"
    "rb_count r' = rb_count r - min n (rb_count r)" "length (rb_buf r') = length (rb_buf r)"
    using rb_Drain_list [OF assms] by auto
  have "rb_inv r'"
    using inv n r'(2-6) by (auto simp: rb_inv_def dest: in_set_dropD)
  moreover have "rb_events r' = drop (nat n) (rb_events r)"
    by (simp add: rb_events_def r'(4) drop_map)
  ultimately show ?thesis using r'(1,2) rb_list_events [OF inv] by (simp add: take_map)
qed

interpretation ring: bounded_fifo rb_inv rb_events rb_cap NewRingBuffer rb_Push rb_Drain
proof unfold_locales
  show "rb_inv (NewRingBuffer c)" for c by (rule NewRingBuffer_inv)
  show "rb_events (NewRingBuffer c) = []" for c
    by (simp add: rb_events_def rb_list_def NewRingBuffer_def Let_def)
  show "0 < c \<Longrightarrow> rb_cap (NewRingBuffer c) = c" for c
    by (simp add: NewRingBuffer_def Let_def)
qed (auto simp: rb_inv_def [THEN iffD1] rb_Push_inv rb_events_Push rb_Drain_refines
      , auto simp: rb_inv_def rb_events_def)

text \<open>A drain with a positive bound makes progress, so the flush loop ends on every buffer.\<close>

lemma rb_Drain_shrinks:
  assumes "rb_Drain n r = Some (events, r')" "events \<noteq> []" "0 < n"
  shows "0 \<le> rb_count r' \<and> rb_count r' < rb_count r"
proof -
  have "rb_count r > 0"
    using assms by (auto simp: rb_Drain_def Let_def split: if_splits prod.splits)
  then show ?thesis
    using assms by (auto simp: rb_Drain_def Let_def split: if_splits prod.splits)
qed

termination flushAlertEvents
  by (relation "measure (\<lambda>(_, _, _, r). nat (rb_count r))")
     (auto dest!: rb_Drain_shrinks simp: alertFlushBatch_def)

declare flushAlertEvents.simps [simp del]

lemma flush_conserves:
  "rb_inv r \<Longrightarrow>
   \<exists>sent' lost r'. flushAlertEvents env k sent r = Some (sent @ sent', r') \<and> rb_inv r' \<and>
     length lost \<le> 100 \<and>
     concat sent' @ lost @ map alert_item (rb_events r') = map alert_item (rb_events r) \<and>
     (lost = [] \<or> (\<exists>j \<ge> k. env j \<noteq> FlushSent)) \<and>
     (lost = [] \<longrightarrow> rb_events r' = []) \<and> (\<forall>b \<in> set sent'. b \<noteq> [] \<and> length b \<le> 100)"
proof (induction env k sent r rule: flushAlertEvents.induct)
  case (1 env k sent r)
  obtain r' where d: "rb_Drain alertFlushBatch r = Some (map Some (take 100 (rb_events r)), r')"
    and inv': "rb_inv r'" and ev': "rb_events r' = drop 100 (rb_events r)"
    using rb_Drain_refines [OF 1(2), of alertFlushBatch] by (auto simp: alertFlushBatch_def)
  let ?b = "map alert_item (take 100 (rb_events r))"
  show ?case
  proof (cases "rb_events r = []")
    case True
    with d inv' ev' show ?thesis
      by (intro exI [of _ "[]"] exI [of _ r']) (simp add: flushAlertEvents.simps)
  next
    case False
    have step: "flushAlertEvents env k sent r =
        (if env k = FlushSent then flushAlertEvents env (Suc k) (sent @ [?b]) r' else Some (sent, r'))"
      using d False
      by (subst flushAlertEvents.simps) (auto simp: comp_def Let_def split: flush_outcome.split)
    show ?thesis
    proof (cases "env k = FlushSent")
      case sent: True
      have ih: "\<exists>sent' lost r''. flushAlertEvents env (Suc k) (sent @ [?b]) r' =
            Some ((sent @ [?b]) @ sent', r'') \<and> rb_inv r'' \<and> length lost \<le> 100 \<and>
            concat sent' @ lost @ map alert_item (rb_events r'') = map alert_item (rb_events r') \<and>
            (lost = [] \<or> (\<exists>j \<ge> Suc k. env j \<noteq> FlushSent)) \<and>
            (lost = [] \<longrightarrow> rb_events r'' = []) \<and> (\<forall>b \<in> set sent'. b \<noteq> [] \<and> length b \<le> 100)"
        using 1(1) [OF d refl] False sent inv' by (simp add: comp_def)
      then obtain sent' lost r'' where ih:
        "flushAlertEvents env (Suc k) (sent @ [?b]) r' = Some ((sent @ [?b]) @ sent', r'')"
        "rb_inv r''" "length lost \<le> 100"
        "concat sent' @ lost @ map alert_item (rb_events r'') = map alert_item (rb_events r')"
        "lost = [] \<or> (\<exists>j \<ge> Suc k. env j \<noteq> FlushSent)" "lost = [] \<longrightarrow> rb_events r'' = []"
        "\<forall>b \<in> set sent'. b \<noteq> [] \<and> length b \<le> 100"
        by auto
      have "concat (?b # sent') @ lost @ map alert_item (rb_events r'') =
            map alert_item (rb_events r)"
        using ih(4) ev' by (simp flip: map_append)
      moreover have "lost = [] \<or> (\<exists>j \<ge> k. env j \<noteq> FlushSent)"
        using ih(5) Suc_leD by blast
      ultimately show ?thesis using step sent ih False
        by (intro exI [of _ "?b # sent'"] exI [of _ lost] exI [of _ r'']) auto
    next
      case stop: False
      then show ?thesis using step inv' ev' False
        by (intro exI [of _ "[]"] exI [of _ ?b] exI [of _ r'])
           (auto simp flip: map_append)
    qed
  qed
qed

section \<open>Properties\<close>

text \<open>C13: the ring buffer is a first-in first-out buffer that drops its oldest events: after pushing
  any events into a new buffer of positive capacity, it holds exactly the newest \<^verbatim>\<open>capacity\<close> of them
  in order, \<^verbatim>\<open>Len\<close> counts them, and \<^verbatim>\<open>Drain\<close> with a non-negative bound returns the oldest of these
  and keeps the others.\<close>

theorem ring_keeps_newest:
  fixes xs :: "'a list"
  assumes "0 < c" "0 \<le> n"
  defines "kept \<equiv> drop (length xs - nat c) xs"
  shows "\<exists>r'. rb_Drain n (foldl (\<lambda>r x. rb_Push x r) (NewRingBuffer c) xs) =
               Some (map Some (take (nat n) kept), r') \<and>
             rb_events r' = drop (nat n) kept \<and> rb_inv r' \<and>
             rb_Len r' = int (length kept - nat n)"
proof -
  let ?r = "foldl (\<lambda>r x. rb_Push x r) (NewRingBuffer c) xs"
  have "rb_inv ?r" using ring.pushes_inv NewRingBuffer_inv by blast
  moreover have "rb_events ?r = kept"
    using ring.pushes_abs [OF NewRingBuffer_inv, of c xs] assms
    by (simp add: ring.new_abs ring.new_cap)
  ultimately obtain r' where r': "rb_Drain n ?r = Some (map Some (take (nat n) kept), r')"
    "rb_inv r'" "rb_events r' = drop (nat n) kept"
    using rb_Drain_refines [of ?r n] assms by auto
  moreover have "rb_Len r' = int (length (rb_events r'))"
    using r'(2) by (simp add: rb_Len_def rb_events_def rb_inv_def)
  ultimately show ?thesis by auto
qed

theorem ring_keeps_newest_witness:
  "\<exists>r'. rb_Drain 1 (foldl (\<lambda>r x. rb_Push x r) (NewRingBuffer 2) [1, 2, 3 :: nat]) =
      Some ([Some 2], r') \<and> rb_events r' = [3] \<and> rb_inv r' \<and> rb_Len r' = 1"
  using ring_keeps_newest [of 2 1 "[1, 2, 3 :: nat]"] by simp

text \<open>C14: a flush of a well-formed buffer ends without a panic and loses or duplicates nothing it
  cannot help: the batches it hands to the write loop (each non-empty, at most 100 events), followed
  by at most one lost batch and by the events still buffered, are exactly the buffered events in
  order. Nothing is lost unless a round fails, and if nothing is lost the buffer ends empty. A batch
  whose round fails because the connection is done is lost: \<^verbatim>\<open>Drain\<close> has already removed it.\<close>

theorem flush_delivers_in_order:
  assumes "rb_inv r"
  shows "\<exists>sent lost r'. flushAlertEvents env 0 [] r = Some (sent, r') \<and> rb_inv r' \<and>
     concat sent @ lost @ map alert_item (rb_events r') = map alert_item (rb_events r) \<and>
     (\<forall>b \<in> set sent. b \<noteq> [] \<and> length b \<le> 100) \<and> length lost \<le> 100 \<and>
     (lost = [] \<or> (\<exists>j. env j \<noteq> FlushSent)) \<and> (lost = [] \<longrightarrow> rb_events r' = []) \<and>
     (env 0 = FlushConnDone \<longrightarrow> sent = [] \<and> rb_events r' = drop 100 (rb_events r))"
proof -
  obtain sent lost r' where f: "flushAlertEvents env 0 [] r = Some (sent, r')" "rb_inv r'"
    "length lost \<le> 100" "concat sent @ lost @ map alert_item (rb_events r') = map alert_item (rb_events r)"
    "lost = [] \<or> (\<exists>j. env j \<noteq> FlushSent)" "lost = [] \<longrightarrow> rb_events r' = []"
    "\<forall>b \<in> set sent. b \<noteq> [] \<and> length b \<le> 100"
    using flush_conserves [OF assms, of env 0 "[]"] by auto
  obtain q where "rb_Drain alertFlushBatch r = Some (map Some (take 100 (rb_events r)), q)"
    "rb_events q = drop 100 (rb_events r)"
    using rb_Drain_refines [OF assms, of alertFlushBatch] by (auto simp: alertFlushBatch_def)
  then have "env 0 = FlushConnDone \<longrightarrow> sent = [] \<and> rb_events r' = drop 100 (rb_events r)"
    using f(1) by (subst (asm) flushAlertEvents.simps) (auto simp: Let_def split: if_splits)
  with f show ?thesis by auto
qed

theorem flush_delivers_in_order_witness:
  "\<exists>sent r'. flushAlertEvents (\<lambda>_. FlushConnDone) 0 [] (rb_Push zero_event (NewRingBuffer 2)) =
      Some (sent, r') \<and> sent = [] \<and> rb_events r' = []"
  using flush_delivers_in_order [of "rb_Push zero_event (NewRingBuffer 2)" "\<lambda>_. FlushConnDone"]
    rb_Push_inv [OF NewRingBuffer_inv, of zero_event 2]
    rb_events_Push [OF NewRingBuffer_inv, of zero_event 2]
  by (auto simp: bf_push_def ring.new_abs ring.new_cap)

end
