(* ===== verification/Reconnect.thy ===== *)
theory Reconnect
  imports Ring_Buffer
begin

text \<open>
  \<^verbatim>\<open>digcore/server/conn.go\<close> and the envelope of \<^verbatim>\<open>proto.go\<close>: one connection life cycle (\<^verbatim>\<open>Run\<close>: dial,
  register, ack, loops), the registration reply, and the reconnect loop with its back-off
  (\<^verbatim>\<open>RunForever\<close>, \<^verbatim>\<open>nextReconnectState\<close>). Go errors are a datatype that keeps the wrapping structure
  \<^verbatim>\<open>errors.As\<close> and \<^verbatim>\<open>errors.Is\<close> walk; the network, the JSON codec and the clock are the environment.
  The jitter on a wait uses floating point and a random source and is not modelled.
\<close>

section \<open>Errors\<close>

datatype go_error =
    ErrAuthFailed
  | ErrConnectionLost
  | DisconnectError int
  | ReconnectError go_error bool
  | WrapError string go_error
  | PlainError string

text \<open>\<^verbatim>\<open>errors.As(err, &de)\<close> for the two error types, and \<^verbatim>\<open>errors.Is(err, errAuthFailed)\<close>.\<close>

fun as_disconnect :: "go_error \<Rightarrow> int option" where
  "as_disconnect (DisconnectError n) = Some n"
| "as_disconnect (ReconnectError e _) = as_disconnect e"
| "as_disconnect (WrapError _ e) = as_disconnect e"
| "as_disconnect _ = None"

fun as_reconnect :: "go_error \<Rightarrow> bool option" where
  "as_reconnect (ReconnectError _ reset) = Some reset"
| "as_reconnect (WrapError _ e) = as_reconnect e"
| "as_reconnect _ = None"

fun is_auth_failed :: "go_error \<Rightarrow> bool" where
  "is_auth_failed ErrAuthFailed = True"
| "is_auth_failed (ReconnectError e _) = is_auth_failed e"
| "is_auth_failed (WrapError _ e) = is_auth_failed e"
| "is_auth_failed _ = False"

section \<open>Back-off\<close>

definition clampBackoff :: "duration \<Rightarrow> duration \<Rightarrow> duration \<Rightarrow> duration" where
  "clampBackoff d mn mx = (if d < mn then mn else if d > mx then mx else d)"

text \<open>The wait before the next attempt and the next back-off; the third result of the Go function is
  only the log line.\<close>

definition nextReconnectState ::
    "go_error option \<Rightarrow> duration \<Rightarrow> duration \<Rightarrow> duration \<Rightarrow> duration \<Rightarrow> duration \<Rightarrow> duration \<times> duration" where
  "nextReconnectState err backoff normalMin normalMax authMin authMax =
     (case err of
        None \<Rightarrow> (0, backoff)
      | Some e \<Rightarrow>
          (case as_disconnect e of
             Some retryAfterSec \<Rightarrow>
               let wait = i64 (retryAfterSec * Second);
                   wait = (if wait < normalMin then normalMin else wait)
               in (wait, normalMin)
           | None \<Rightarrow>
               if is_auth_failed e then
                 let backoff = (if backoff < authMin then authMin else backoff)
                 in (backoff, clampBackoff (i64 (backoff * 2)) authMin authMax)
               else
                 let backoff = (if as_reconnect e = Some True then normalMin else backoff)
                 in (backoff, clampBackoff (i64 (backoff * 2)) normalMin normalMax)))"

definition normalMin :: duration where "normalMin = 1 * Second"
definition normalMax :: duration where "normalMax = 300 * Second"
definition authMin :: duration where "authMin = 60 * Second"
definition authMax :: duration where "authMax = 1800 * Second"

text \<open>
  The loop of \<^verbatim>\<open>RunForever\<close>, from the back-off it holds, over the results of the successive \<^verbatim>\<open>Run\<close>
  calls made before the context is cancelled: the waits it computes, in order.
\<close>

fun reconnect_waits :: "duration \<Rightarrow> go_error option list \<Rightarrow> duration list" where
  "reconnect_waits backoff [] = []"
| "reconnect_waits backoff (err # errs) =
     (let (wait, nextBackoff) =
        nextReconnectState err backoff normalMin normalMax authMin authMax
      in wait # reconnect_waits nextBackoff errs)"

definition RunForever :: "bool \<Rightarrow> string \<Rightarrow> go_error option list \<Rightarrow> duration list" where
  "RunForever enabled address errs =
     (if \<not> enabled \<or> address = [] then [] else reconnect_waits normalMin errs)"

section \<open>The envelope and the registration reply\<close>

record Message =
  msg_Type :: string
  msg_ID :: string
  msg_RefID :: string
  msg_Payload :: string

definition typeAck :: string where "typeAck = ''ack''"

text \<open>\<^verbatim>\<open>json.Marshal\<close>, \<^verbatim>\<open>json.Unmarshal\<close> and \<^verbatim>\<open>uuid.NewString\<close> are arguments.\<close>

definition newMessage :: "('p \<Rightarrow> string option) \<Rightarrow> string \<Rightarrow> string \<Rightarrow> 'p \<Rightarrow> string + Message" where
  "newMessage marshal uuid typ payload =
     (case marshal payload of
        None \<Rightarrow> Inl (''marshal '' @ typ @ '' payload'')
      | Some raw \<Rightarrow> Inr \<lparr>msg_Type = typ, msg_ID = uuid, msg_RefID = [], msg_Payload = raw\<rparr>)"

definition decodePayload :: "(string \<Rightarrow> string + 'p) \<Rightarrow> Message \<Rightarrow> string + 'p" where
  "decodePayload unmarshal m =
     (if msg_Payload m = [] then Inl (''message has no payload: '' @ msg_Type m)
      else unmarshal (msg_Payload m))"

record ackPayload =
  ack_OK :: bool
  ack_Error :: string
  ack_Warning :: string

definition recvAck :: "(string \<Rightarrow> string + Message) \<Rightarrow> (string \<Rightarrow> string + ackPayload) \<Rightarrow>
    string + string \<Rightarrow> go_error + ackPayload" where
  "recvAck unmarshalMessage unmarshalAck read =
     (case read of
        Inl err \<Rightarrow> Inl (WrapError ''read ack'' (PlainError err))
      | Inr data \<Rightarrow>
          (case unmarshalMessage data of
             Inl err \<Rightarrow> Inl (WrapError ''unmarshal ack'' (PlainError err))
           | Inr msg \<Rightarrow>
               if msg_Type msg \<noteq> typeAck then Inl (PlainError (''expected ack, got '' @ msg_Type msg))
               else
                 (case decodePayload unmarshalAck msg of
                    Inl err \<Rightarrow> Inl (PlainError err)
                  | Inr payload \<Rightarrow> Inr payload)))"

text \<open>The request headers; \<^verbatim>\<open>Header.Set\<close> stores the canonical form of a key.\<close>

definition buildHeaders :: "string \<Rightarrow> string \<Rightarrow> (string, string) gomap" where
  "buildHeaders agentToken agentID =
     (let h = [];
          h = (if agentToken \<noteq> [] then m_set ''X-Agent-Token'' agentToken h else h);
          h = m_set ''X-Agent-Id'' agentID h
      in m_set ''X-Proto-Version'' ''1'' h)"

text \<open>\<^verbatim>\<open>buildHTTPClient\<close>: no client, or one with the given verification setting and root pool.\<close>

record http_client =
  hc_SkipVerify :: bool
  hc_RootCAs :: "string option"

definition buildHTTPClient :: "(string \<Rightarrow> string + string) \<Rightarrow> (string \<Rightarrow> bool) \<Rightarrow> string \<Rightarrow> bool \<Rightarrow>
    go_error + http_client option" where
  "buildHTTPClient readFile validPEM caFile skipVerify =
     (if caFile = [] \<and> \<not> skipVerify then Inr None
      else if caFile \<noteq> [] then
        (case readFile caFile of
           Inl err \<Rightarrow> Inl (WrapError (''read ca_file '' @ caFile) (PlainError err))
         | Inr pem \<Rightarrow>
             if \<not> validPEM pem
             then Inl (PlainError (''ca_file '' @ caFile @ '' contains no valid certificates''))
             else Inr (Some \<lparr>hc_SkipVerify = skipVerify, hc_RootCAs = Some pem\<rparr>))
      else Inr (Some \<lparr>hc_SkipVerify = skipVerify, hc_RootCAs = None\<rparr>))"

section \<open>One connection\<close>

datatype dial_result = DialOk | DialFailed "int option" string

text \<open>The answers of the environment to the steps of \<^verbatim>\<open>Run\<close>, in the order it asks for them.\<close>

record run_env =
  re_Enabled :: bool
  re_Address :: string
  re_wsURL :: "string + string"
  re_agentID :: "string + string"
  re_client :: "go_error + http_client option"
  re_dial :: dial_result
  re_register :: "go_error option"
  re_ack :: "go_error + ackPayload"
  re_retryAfterSec :: int

datatype conn_action =
    Dial | SetReadLimit int | SendRegister | ReadAck
  | StartLoops | ReadLoop | CancelConn | CancelAllSessions | CloseDone | WaitLoops
  | CloseWS string

definition StatusInternalError :: string where "StatusInternalError = ''1011''"
definition StatusNormalClosure :: string where "StatusNormalClosure = ''1000''"

definition Run :: "run_env \<Rightarrow> go_error option \<times> conn_action list" where
  "Run env =
     (if \<not> re_Enabled env \<or> re_Address env = [] then (None, [])
      else case re_wsURL env of
        Inl err \<Rightarrow> (Some (WrapError ''resolve server websocket url'' (PlainError err)), [])
      | Inr _ \<Rightarrow>
      (case re_agentID env of
        Inl err \<Rightarrow> (Some (WrapError ''load agent_id'' (PlainError err)), [])
      | Inr _ \<Rightarrow>
      (case re_client env of
        Inl err \<Rightarrow> (Some (WrapError ''tls config'' err), [])
      | Inr _ \<Rightarrow>
      (case re_dial env of
        DialFailed status err \<Rightarrow>
          if status = Some 401 then (Some (WrapError err ErrAuthFailed), [Dial])
          else (Some (WrapError ''ws dial'' (PlainError err)), [Dial])
      | DialOk \<Rightarrow>
      (case re_register env of
        Some err \<Rightarrow>
          (Some (WrapError ''register'' err),
           [Dial, SetReadLimit (2 ^ 20), SendRegister, CloseWS StatusInternalError])
      | None \<Rightarrow>
      (case re_ack env of
        Inl err \<Rightarrow>
          (Some (WrapError ''register ack'' err),
           [Dial, SetReadLimit (2 ^ 20), SendRegister, ReadAck, CloseWS StatusInternalError])
      | Inr ack \<Rightarrow>
          if \<not> ack_OK ack then
            (Some (PlainError (''register rejected: '' @ ack_Error ack)),
             [Dial, SetReadLimit (2 ^ 20), SendRegister, ReadAck, CloseWS StatusNormalClosure])
          else
            ((if re_retryAfterSec env > 0 then Some (DisconnectError (re_retryAfterSec env))
              else Some (ReconnectError ErrConnectionLost True)),
             [Dial, SetReadLimit (2 ^ 20), SendRegister, ReadAck, StartLoops, ReadLoop, CancelConn,
              CancelAllSessions, CloseDone, WaitLoops, CloseWS StatusNormalClosure])))))))"

section \<open>Lemmas\<close>

lemmas backoff_limits = normalMin_def normalMax_def authMin_def authMax_def

lemma i64_double: "0 \<le> b \<Longrightarrow> b \<le> authMax \<Longrightarrow> i64 (b * 2) = b * 2"
  by (rule i64_id) (simp add: in_i64_def backoff_limits)

lemma clampBackoff_bounds: "mn \<le> mx \<Longrightarrow> mn \<le> clampBackoff d mn mx \<and> clampBackoff d mn mx \<le> mx"
  by (simp add: clampBackoff_def)

definition backoff_ok :: "duration \<Rightarrow> bool" where
  "backoff_ok b \<longleftrightarrow> normalMin \<le> b \<and> b \<le> authMax"

abbreviation next_state :: "go_error option \<Rightarrow> duration \<Rightarrow> duration \<times> duration" where
  "next_state err b \<equiv> nextReconnectState err b normalMin normalMax authMin authMax"

lemma next_backoff_ok: "backoff_ok b \<Longrightarrow> backoff_ok (snd (next_state err b))"
  by (auto simp: backoff_ok_def nextReconnectState_def Let_def clampBackoff_def backoff_limits
      split: option.splits)

lemma next_wait_lower: "backoff_ok b \<Longrightarrow> err \<noteq> None \<Longrightarrow> normalMin \<le> fst (next_state err b)"
  by (auto simp: backoff_ok_def nextReconnectState_def Let_def backoff_limits split: option.splits)

lemma next_wait_upper:
  "backoff_ok b \<Longrightarrow> (\<forall>e. err = Some e \<longrightarrow> as_disconnect e = None) \<Longrightarrow> fst (next_state err b) \<le> authMax"
  by (auto simp: backoff_ok_def nextReconnectState_def Let_def backoff_limits split: option.splits)

lemma waits_bounded:
  assumes "backoff_ok b" "w \<in> set (reconnect_waits b errs)" "None \<notin> set errs"
  shows "normalMin \<le> w \<and> ((\<forall>e. Some e \<in> set errs \<longrightarrow> as_disconnect e = None) \<longrightarrow> w \<le> authMax)"
  using assms
proof (induction errs arbitrary: b)
  case Nil
  then show ?case by simp
next
  case (Cons err errs)
  show ?case
  proof (cases "w = fst (next_state err b)")
    case True
    moreover have "err \<noteq> None" using Cons.prems(3) by (metis list.set_intros(1))
    ultimately show ?thesis
      using next_wait_lower [of b err] next_wait_upper [of b err] Cons.prems(1) by auto
  next
    case False
    then have "w \<in> set (reconnect_waits (snd (next_state err b)) errs)"
      using Cons.prems(2) by (simp add: case_prod_beta)
    then show ?thesis
      using Cons.IH [OF next_backoff_ok [OF Cons.prems(1), of err]] Cons.prems(3) by auto
  qed
qed

text \<open>Failures that neither reset the back-off nor ask for one of their own.\<close>

definition plain_failure :: "go_error \<Rightarrow> bool" where
  "plain_failure e \<longleftrightarrow> as_disconnect e = None \<and> \<not> is_auth_failed e \<and> as_reconnect e \<noteq> Some True"

lemma next_state_plain:
  assumes "plain_failure e"
  shows "next_state (Some e) (min (2 ^ k * Second) normalMax) =
         (min (2 ^ k * Second) normalMax, min (2 ^ Suc k * Second) normalMax)"
proof -
  let ?b = "min (2 ^ k * Second) normalMax"
  have p: "(1 :: int) \<le> 2 ^ k" and p2: "\<not> 2 * 2 ^ k < (1 :: int)"
    using one_le_power [of "2 :: int" k] by linarith+
  have b: "normalMin \<le> ?b" "?b \<le> normalMax" using p by (auto simp: backoff_limits)
  have "next_state (Some e) ?b = (?b, clampBackoff (i64 (?b * 2)) normalMin normalMax)"
    using assms by (auto simp: nextReconnectState_def plain_failure_def Let_def)
  also have "i64 (?b * 2) = ?b * 2"
    using b by (intro i64_double) (auto simp: backoff_limits)
  also have "clampBackoff (?b * 2) normalMin normalMax = min (2 ^ Suc k * Second) normalMax"
    using p p2 by (auto simp: clampBackoff_def backoff_limits min_def)
  finally show ?thesis .
qed

lemma waits_plain:
  "list_all plain_failure es \<Longrightarrow>
   reconnect_waits (min (2 ^ k * Second) normalMax) (map Some es) =
   map (\<lambda>i. min (2 ^ (k + i) * Second) normalMax) [0..<length es]"
proof (induction es arbitrary: k)
  case Nil
  then show ?case by simp
next
  case (Cons e es)
  have up: "[0..<Suc (length es)] = 0 # map Suc [0..<length es]"
    by (metis map_Suc_upt upt_conv_Cons zero_less_Suc)
  have "plain_failure e" and es: "list_all plain_failure es" using Cons.prems by auto
  then show ?case
    using Cons.IH [OF es, of "Suc k"] next_state_plain [of e k] by (simp add: up del: upt_Suc)
qed

section \<open>Properties\<close>

text \<open>the reconnect loop never spins and never waits without bound: whatever failures follow each
  other, every wait is at least one second, and every wait that the server did not ask for itself is
  at most 30 minutes.\<close>

theorem reconnect_wait_bounds:
  assumes "None \<notin> set errs" and "w \<in> set (RunForever enabled address errs)"
  shows "normalMin \<le> w \<and> ((\<forall>e. Some e \<in> set errs \<longrightarrow> as_disconnect e = None) \<longrightarrow> w \<le> authMax)"
  using waits_bounded [of normalMin w errs] assms
  by (auto simp: RunForever_def backoff_ok_def backoff_limits split: if_splits)

theorem reconnect_wait_bounds_witness:
  "normalMin \<le> (60 * Second) \<and> (60 * Second) \<le> authMax \<and>
   60 * Second \<in> set (RunForever True ''host'' [Some ErrAuthFailed])"
  using reconnect_wait_bounds [of "[Some ErrAuthFailed]" "60 * Second" True "''host''"]
  by (simp add: RunForever_def nextReconnectState_def backoff_limits)

text \<open>repeated dial failures back off exponentially: the k-th consecutive one waits
  min(2^k, 300) seconds, and a connection that was established and lost starts again at one second.\<close>

theorem reconnect_exponential:
  assumes "list_all plain_failure es" "address \<noteq> []"
  shows "RunForever True address (Some (ReconnectError ErrConnectionLost True) # map Some es) =
         1 * Second # map (\<lambda>i. min (2 ^ Suc i * Second) (300 * Second)) [0..<length es]"
proof -
  have "next_state (Some (ReconnectError ErrConnectionLost True)) normalMin =
        (normalMin, min (2 ^ 1 * Second) normalMax)"
    using i64_double [of normalMin]
    by (simp add: nextReconnectState_def clampBackoff_def backoff_limits)
  with waits_plain [OF assms(1), of 1] assms(2) show ?thesis
    by (simp add: RunForever_def) (simp add: backoff_limits)
qed

theorem reconnect_exponential_witness:
  "RunForever True ''h'' (map Some [ReconnectError ErrConnectionLost True,
      WrapError ''ws dial'' (PlainError ''refused''), WrapError ''ws dial'' (PlainError ''refused'')]) =
   [1 * Second, 2 * Second, 4 * Second]"
  using reconnect_exponential [of "[WrapError ''ws dial'' (PlainError ''refused''),
      WrapError ''ws dial'' (PlainError ''refused'')]" "''h''"]
  by (simp add: plain_failure_def upt_rec)

text \<open>the documented 300-second limit of ordinary failures does not hold after authentication
  failures: the back-off they leave behind is used as it is, so a refused connection right after six
  rejected tokens waits 30 minutes.\<close>

theorem reconnect_auth_backoff_leaks:
  "RunForever True ''host''
     (replicate 6 (Some (WrapError ''401'' ErrAuthFailed)) @
      [Some (WrapError ''ws dial'' (PlainError ''connection refused''))]) =
   map (\<lambda>s. s * Second) [60, 120, 240, 480, 960, 1800, 1800]"
  by code_simp

text \<open>a connection that is switched on never ends without an error, so the reconnect loop always
  waits before the next attempt; once the socket is open it is closed exactly once, as the last
  action; and only a 401 reply to the handshake is treated as an authentication failure.\<close>

theorem run_closes_socket:
  assumes "re_Enabled env" "re_Address env \<noteq> []"
    "\<forall>e. re_client env = Inl e \<or> re_register env = Some e \<or> re_ack env = Inl e \<longrightarrow>
         \<not> is_auth_failed e"
  shows "\<exists>e tr. Run env = (Some e, tr) \<and>
           (is_auth_failed e \<longleftrightarrow>
              Dial \<in> set tr \<and> (\<exists>msg. re_dial env = DialFailed (Some 401) msg)) \<and>
           (Dial \<in> set tr \<and> re_dial env = DialOk \<longrightarrow>
              (\<exists>pre code. tr = pre @ [CloseWS code] \<and> (\<forall>c. CloseWS c \<notin> set pre)))"
  using assms
  by (auto simp: Run_def split: sum.splits dial_result.splits option.splits)

theorem run_closes_socket_witness:
  "\<exists>e tr. Run \<lparr>re_Enabled = True, re_Address = ''h'', re_wsURL = Inr ''u'', re_agentID = Inr ''id'',
       re_client = Inr None, re_dial = DialOk, re_register = None,
       re_ack = Inr \<lparr>ack_OK = True, ack_Error = [], ack_Warning = []\<rparr>, re_retryAfterSec = 0\<rparr> = (Some e, tr)
     \<and> \<not> is_auth_failed e"
  using run_closes_socket [of "\<lparr>re_Enabled = True, re_Address = ''h'', re_wsURL = Inr ''u'',
       re_agentID = Inr ''id'', re_client = Inr None, re_dial = DialOk, re_register = None,
       re_ack = Inr \<lparr>ack_OK = True, ack_Error = [], ack_Warning = []\<rparr>, re_retryAfterSec = 0\<rparr>"]
  by auto

end
