(* ===== verification/Utf8.thy ===== *)
theory Utf8
  imports Prelude
begin

text \<open>
  The parts of Go's \<^verbatim>\<open>unicode/utf8\<close> the sources use (decoding one rune with the standard table of first
  bytes and accept ranges, counting, validity, encoding), and the routines of the repository that
  cut strings: \<^verbatim>\<open>TruncateUTF8\<close> and \<^verbatim>\<open>TruncateRunes\<close> of \<^verbatim>\<open>digcore/diagnose/report.go\<close>, \<^verbatim>\<open>truncStr\<close> of
  \<^verbatim>\<open>digcore/diagnose/aiclient/client.go\<close> and \<^verbatim>\<open>truncateUTF8\<close> of \<^verbatim>\<open>plugins/logfile/logfile.go\<close>.
\<close>

section \<open>Decoding and encoding\<close>

abbreviation byte :: "char \<Rightarrow> nat" where
  "byte c \<equiv> of_char c"

definition RuneError :: nat where "RuneError = 0xFFFD"

definition RuneStart :: "char \<Rightarrow> bool" where
  "RuneStart c \<longleftrightarrow> \<not> (128 \<le> byte c \<and> byte c < 192)"

text \<open>Size of the sequence a non-ASCII first byte opens, and the range of its second byte.\<close>

definition first_info :: "nat \<Rightarrow> (nat \<times> nat \<times> nat) option" where
  "first_info p =
     (if p < 0xC2 then None
      else if p \<le> 0xDF then Some (2, 0x80, 0xBF)
      else if p = 0xE0 then Some (3, 0xA0, 0xBF)
      else if p \<le> 0xEC then Some (3, 0x80, 0xBF)
      else if p = 0xED then Some (3, 0x80, 0x9F)
      else if p \<le> 0xEF then Some (3, 0x80, 0xBF)
      else if p = 0xF0 then Some (4, 0x90, 0xBF)
      else if p \<le> 0xF3 then Some (4, 0x80, 0xBF)
      else if p = 0xF4 then Some (4, 0x80, 0x8F)
      else None)"

definition cont_byte :: "nat \<Rightarrow> bool" where
  "cont_byte b \<longleftrightarrow> 0x80 \<le> b \<and> b \<le> 0xBF"

text \<open>\<^verbatim>\<open>utf8.DecodeRuneInString\<close>: the first rune of a string and its width.\<close>

fun decode_rune :: "string \<Rightarrow> nat \<times> nat" where
  "decode_rune [] = (RuneError, 0)"
| "decode_rune (c # cs) =
     (let p = byte c in
      if p < 0x80 then (p, 1)
      else case first_info p of
        None \<Rightarrow> (RuneError, 1)
      | Some (sz, lo, hi) \<Rightarrow>
          if length cs + 1 < sz then (RuneError, 1)
          else
            let b1 = byte (cs ! 0) in
            if b1 < lo \<or> hi < b1 then (RuneError, 1)
            else if sz = 2 then ((p mod 32) * 64 + b1 mod 64, 2)
            else
              let b2 = byte (cs ! 1) in
              if \<not> cont_byte b2 then (RuneError, 1)
              else if sz = 3 then ((p mod 16) * 4096 + (b1 mod 64) * 64 + b2 mod 64, 3)
              else
                let b3 = byte (cs ! 2) in
                if \<not> cont_byte b3 then (RuneError, 1)
                else ((p mod 8) * 262144 + (b1 mod 64) * 4096 + (b2 mod 64) * 64 + b3 mod 64, 4))"

lemma first_info_range:
  "first_info p = Some (sz, lo, hi) \<Longrightarrow>
   194 \<le> p \<and> (sz = 2 \<or> sz = 3 \<or> sz = 4) \<and> 128 \<le> lo \<and> hi \<le> 191"
  by (auto simp: first_info_def split: if_splits)

text \<open>The shapes of a decoding step: an error, an ASCII byte, or a complete sequence.\<close>

lemma decode_rune_cases:
  assumes "s = c # cs"
  obtains (error) "decode_rune s = (RuneError, 1)"
  | (ascii) "byte c < 128" "decode_rune s = (byte c, 1)"
  | (multi) sz lo hi r where "first_info (byte c) = Some (sz, lo, hi)" "194 \<le> byte c"
      "sz = 2 \<or> sz = 3 \<or> sz = 4" "128 \<le> lo" "hi \<le> 191" "sz \<le> length s"
      "lo \<le> byte (s ! 1)" "byte (s ! 1) \<le> hi" "2 < sz \<Longrightarrow> cont_byte (byte (s ! 2))"
      "3 < sz \<Longrightarrow> cont_byte (byte (s ! 3))" "decode_rune s = (r, sz)"
proof (cases "byte c < 128 \<or> first_info (byte c) = None")
  case True
  then have "byte c < 128 \<and> decode_rune s = (byte c, 1) \<or> decode_rune s = (RuneError, 1)"
    using assms by (auto simp: Let_def)
  then show thesis using error ascii by blast
next
  case False
  then obtain sz lo hi where f: "first_info (byte c) = Some (sz, lo, hi)" by auto
  show thesis
  proof (cases "decode_rune s = (RuneError, 1)")
    case err: False
    then show thesis
      using False f first_info_range [OF f] assms multi [OF f]
      by (auto simp: Let_def not_less numeral_2_eq_2 numeral_3_eq_3 split: if_splits)
  qed (rule error)
qed

lemma decode_rune_width:
  assumes "s \<noteq> []"
  shows "1 \<le> snd (decode_rune s) \<and> snd (decode_rune s) \<le> length s \<and> snd (decode_rune s) \<le> 4"
proof -
  obtain c cs where s: "s = c # cs" using assms by (cases s) auto
  show ?thesis by (rule decode_rune_cases [OF s]) (use s in auto)
qed

text \<open>\<^verbatim>\<open>[]rune(s)\<close> and \<^verbatim>\<open>utf8.RuneCountInString\<close>.\<close>

function runes :: "string \<Rightarrow> nat list" where
  "runes s = (if s = [] then [] else fst (decode_rune s) # runes (drop (snd (decode_rune s)) s))"
  by pat_completeness auto

termination runes
  by (relation "measure length") (use decode_rune_width in \<open>force+\<close>)

declare runes.simps [simp del]

definition RuneCountInString :: "string \<Rightarrow> nat" where
  "RuneCountInString s = length (runes s)"

text \<open>\<^verbatim>\<open>utf8.ValidString\<close>.\<close>

function ValidString :: "string \<Rightarrow> bool" where
  "ValidString s \<longleftrightarrow>
     (if s = [] then True
      else decode_rune s \<noteq> (RuneError, 1) \<and> ValidString (drop (snd (decode_rune s)) s))"
  by pat_completeness auto

termination ValidString
  by (relation "measure length") (use decode_rune_width in \<open>force+\<close>)

declare ValidString.simps [simp del]

text \<open>\<^verbatim>\<open>string(r)\<close> for one rune, and for a rune slice.\<close>

definition encode_rune :: "nat \<Rightarrow> string" where
  "encode_rune r =
     (let r = (if 0x10FFFF < r \<or> (0xD800 \<le> r \<and> r \<le> 0xDFFF) then RuneError else r) in
      if r < 0x80 then [char_of r]
      else if r < 0x800 then [char_of (0xC0 + r div 64), char_of (0x80 + r mod 64)]
      else if r < 0x10000 then
        [char_of (0xE0 + r div 4096), char_of (0x80 + r div 64 mod 64), char_of (0x80 + r mod 64)]
      else
        [char_of (0xF0 + r div 262144), char_of (0x80 + r div 4096 mod 64),
         char_of (0x80 + r div 64 mod 64), char_of (0x80 + r mod 64)])"

definition string_of_runes :: "nat list \<Rightarrow> string" where
  "string_of_runes rs = concat (map encode_rune rs)"

text \<open>\<^verbatim>\<open>hex.EncodeToString\<close>.\<close>

definition hex_digit :: "nat \<Rightarrow> char" where
  "hex_digit n = ''0123456789abcdef'' ! n"

definition hex_encode :: "string \<Rightarrow> string" where
  "hex_encode s = concat (map (\<lambda>c. [hex_digit (byte c div 16), hex_digit (byte c mod 16)]) s)"

lemma hex_encode_length [simp]: "length (hex_encode s) = 2 * length s"
  by (induction s) (auto simp: hex_encode_def)

lemma hex_encode_append: "hex_encode (a @ b) = hex_encode a @ hex_encode b"
  by (simp add: hex_encode_def)

lemma hex_encode_Nil_iff [simp]: "hex_encode s = [] \<longleftrightarrow> s = []"
  by (cases s) (auto simp: hex_encode_def)

section \<open>The truncation routines\<close>

text \<open>The backing-up loop \<^verbatim>\<open>for maxBytes > 0 && !utf8.RuneStart(s[maxBytes]) { maxBytes-- }\<close>.\<close>

fun trunc_pos :: "string \<Rightarrow> nat \<Rightarrow> nat" where
  "trunc_pos s 0 = 0"
| "trunc_pos s (Suc n) = (if RuneStart (s ! Suc n) then Suc n else trunc_pos s n)"

definition TruncateUTF8 :: "string \<Rightarrow> int \<Rightarrow> string" where
  "TruncateUTF8 s maxBytes =
     (if int (length s) \<le> maxBytes then s
      else if maxBytes \<le> 0 then []
      else take (trunc_pos s (nat maxBytes)) s)"

text \<open>\<^verbatim>\<open>truncStr\<close> and \<^verbatim>\<open>truncateUTF8\<close> mark the cut; a negative bound would panic on the slice (\<open>None\<close>).\<close>

definition truncStr :: "string \<Rightarrow> int \<Rightarrow> string option" where
  "truncStr s maxBytes =
     (if int (length s) \<le> maxBytes then Some s
      else if maxBytes < 0 then None
      else Some (take (trunc_pos s (nat maxBytes)) s @ ''...''))"

definition truncateUTF8 :: "string \<Rightarrow> int \<Rightarrow> string option" where
  "truncateUTF8 s maxBytes =
     (if int (length s) \<le> maxBytes then Some s
      else if maxBytes < 0 then None
      else Some (take (trunc_pos s (nat maxBytes)) s @ ''...''))"

definition TruncateRunes :: "string \<Rightarrow> int \<Rightarrow> string" where
  "TruncateRunes s maxRunes =
     (if maxRunes \<le> 0 then []
      else let rs = runes s in
        if int (length rs) \<le> maxRunes then s else string_of_runes (take (nat maxRunes) rs))"

section \<open>Facts on decoding\<close>

text \<open>The bytes after the first of a decoded sequence are no rune starts.\<close>

lemma decode_rune_cont:
  assumes "0 < i" "i < snd (decode_rune s)"
  shows "\<not> RuneStart (s ! i)"
proof (cases s)
  case Nil
  then show ?thesis using assms by simp
next
  case (Cons c cs)
  show ?thesis
  proof (rule decode_rune_cases [OF Cons])
    fix sz lo hi r
    assume m: "sz = 2 \<or> sz = 3 \<or> sz = 4" "128 \<le> lo" "hi \<le> 191" "lo \<le> byte (s ! 1)"
      "byte (s ! 1) \<le> hi" "2 < sz \<Longrightarrow> cont_byte (byte (s ! 2))"
      "3 < sz \<Longrightarrow> cont_byte (byte (s ! 3))" "decode_rune s = (r, sz)"
    have "i = 1 \<or> i = 2 \<and> 2 < sz \<or> i = 3 \<and> 3 < sz" using m(1,8) assms by auto
    then have "128 \<le> byte (s ! i) \<and> byte (s ! i) \<le> 191"
      using m by (auto simp: cont_byte_def)
    then show ?thesis by (simp add: RuneStart_def)
  qed (use assms in auto)
qed

lemma decode_rune_start:
  assumes "s \<noteq> []" "decode_rune s \<noteq> (RuneError, 1)"
  shows "RuneStart (s ! 0)"
proof -
  obtain c cs where s: "s = c # cs" using assms by (cases s) auto
  show ?thesis
    by (rule decode_rune_cases [OF s]) (use s assms in \<open>auto simp: RuneStart_def\<close>)
qed

text \<open>Decoding looks only at the bytes it consumes.\<close>

lemma decode_rune_take:
  assumes "decode_rune s \<noteq> (RuneError, 1)" "snd (decode_rune s) \<le> k"
  shows "decode_rune (take k s) = decode_rune s"
proof (cases s)
  case Nil
  then show ?thesis by simp
next
  case (Cons c cs)
  show ?thesis
  proof (rule decode_rune_cases [OF Cons])
    assume "byte c < 128" "decode_rune s = (byte c, 1)"
    then show ?thesis using Cons assms(2) by (cases k) auto
  next
    fix sz lo hi r
    assume m: "first_info (byte c) = Some (sz, lo, hi)" "194 \<le> byte c"
      "sz = 2 \<or> sz = 3 \<or> sz = 4" "sz \<le> length s" "decode_rune s = (r, sz)"
    then obtain k' where k: "k = Suc k'" "sz - 1 \<le> k'" using assms(2) by (cases k) auto
    then show ?thesis using m(1-4) Cons by (auto simp: Let_def)
  qed (use assms in auto)
qed

lemma decode_rune_append:
  assumes "decode_rune a \<noteq> (RuneError, 1)" "a \<noteq> []"
  shows "decode_rune (a @ b) = decode_rune a"
proof -
  obtain c cs where a: "a = c # cs" using assms by (cases a) auto
  show ?thesis
  proof (rule decode_rune_cases [OF a])
    assume "byte c < 128" "decode_rune a = (byte c, 1)"
    then show ?thesis using a by simp
  next
    fix sz lo hi r
    assume m: "first_info (byte c) = Some (sz, lo, hi)" "194 \<le> byte c"
      "sz = 2 \<or> sz = 3 \<or> sz = 4" "sz \<le> length a"
    have "(cs @ b) ! 0 = cs ! 0" "2 < sz \<Longrightarrow> (cs @ b) ! 1 = cs ! 1" "3 < sz \<Longrightarrow> (cs @ b) ! 2 = cs ! 2"
      and "cs \<noteq> []"
      using m(3,4) a by (auto simp: nth_append)
    then show ?thesis using m a by (elim disjE) (simp_all add: Let_def)
  qed (use assms in auto)
qed

lemma valid_step:
  "s \<noteq> [] \<Longrightarrow> ValidString s \<Longrightarrow>
   decode_rune s \<noteq> (RuneError, 1) \<and> ValidString (drop (snd (decode_rune s)) s)"
  by (metis ValidString.simps)

text \<open>Cutting a valid string at a rune start, or at its end, cuts between runes.\<close>

lemma valid_cut:
  "ValidString s \<Longrightarrow> k \<le> length s \<Longrightarrow> k = 0 \<or> k = length s \<or> RuneStart (s ! k) \<Longrightarrow>
   ValidString (take k s) \<and> (\<exists>n. runes (take k s) = take n (runes s))"
proof (induction s arbitrary: k rule: length_induct)
  case (1 s)
  show ?case
  proof (cases "s = [] \<or> k = 0")
    case True
    then show ?thesis
      by (metis ValidString.simps take_0 take_Nil runes.simps take_eq_Nil2)
  next
    case False
    let ?w = "snd (decode_rune s)"
    have w: "1 \<le> ?w" "?w \<le> length s" using decode_rune_width False by auto
    have v: "decode_rune s \<noteq> (RuneError, 1)" "ValidString (drop ?w s)"
      using valid_step [of s] False 1 by auto
    have kw: "?w \<le> k"
    proof (rule ccontr)
      assume "\<not> ?w \<le> k"
      then show False using decode_rune_cont [of k s] False 1(4) w by auto
    qed
    have dt: "decode_rune (take k s) = decode_rune s"
      by (rule decode_rune_take [OF v(1) kw])
    have dr: "drop ?w (take k s) = take (k - ?w) (drop ?w s)" by (simp add: drop_take)
    have "ValidString (take (k - ?w) (drop ?w s)) \<and>
          (\<exists>n. runes (take (k - ?w) (drop ?w s)) = take n (runes (drop ?w s)))"
      using 1(1) [rule_format, of "drop ?w s" "k - ?w"] 1(3,4) v(2) w kw False by auto
    then obtain n where ih: "ValidString (take (k - ?w) (drop ?w s))"
      "runes (take (k - ?w) (drop ?w s)) = take n (runes (drop ?w s))" by auto
    have "ValidString (take k s)"
      using False v(1) ih(1) by (subst ValidString.simps) (simp add: dt dr)
    moreover have "runes (take k s) = take (Suc n) (runes s)"
      using False ih(2) runes.simps [of s] by (subst runes.simps) (simp add: dt dr)
    ultimately show ?thesis by blast
  qed
qed

lemma trunc_pos_spec:
  "trunc_pos s n \<le> n \<and> (trunc_pos s n = 0 \<or> RuneStart (s ! trunc_pos s n)) \<and>
   (\<forall>j. trunc_pos s n < j \<and> j \<le> n \<longrightarrow> \<not> RuneStart (s ! j))"
  by (induction n) (auto simp: le_Suc_eq)

lemma trunc_pos_at: "0 < n \<Longrightarrow> RuneStart (s ! n) \<Longrightarrow> trunc_pos s n = n"
  by (cases n) auto

text \<open>In a valid string a rune starts within any four consecutive positions.\<close>

lemma valid_rune_start_near:
  "ValidString s \<Longrightarrow> n < length s \<Longrightarrow> \<exists>j \<le> n. n \<le> j + 3 \<and> RuneStart (s ! j)"
proof (induction s arbitrary: n rule: length_induct)
  case (1 s)
  let ?w = "snd (decode_rune s)"
  have ne: "s \<noteq> []" using 1 by auto
  have w: "1 \<le> ?w" "?w \<le> length s" "?w \<le> 4" using decode_rune_width [OF ne] by auto
  have v: "decode_rune s \<noteq> (RuneError, 1)" "ValidString (drop ?w s)"
    using valid_step [OF ne] 1 by auto
  show ?case
  proof (cases "n < ?w")
    case True
    then show ?thesis using decode_rune_start [OF ne v(1)] w by (intro exI [of _ 0]) auto
  next
    case False
    then have "\<exists>j \<le> n - ?w. n - ?w \<le> j + 3 \<and> RuneStart (drop ?w s ! j)"
      using 1(1) [rule_format, of "drop ?w s" "n - ?w"] 1(3) v(2) w by auto
    then obtain j where "j \<le> n - ?w" "n - ?w \<le> j + 3" "RuneStart (s ! (?w + j))"
      using w by auto
    then show ?thesis using False by (intro exI [of _ "?w + j"]) auto
  qed
qed

lemma trunc_pos_near:
  assumes "ValidString s" "n < length s"
  shows "n \<le> trunc_pos s n + 3"
proof -
  obtain j where j: "j \<le> n" "n \<le> j + 3" "RuneStart (s ! j)"
    using valid_rune_start_near [OF assms] by auto
  have "\<not> trunc_pos s n < j" using trunc_pos_spec [of s n] j by auto
  then show ?thesis using j by simp
qed

section \<open>Counting and encoding\<close>

lemma runes_Nil [simp]: "runes [] = []"
  by (simp add: runes.simps)

lemma RuneCount_le: "RuneCountInString s \<le> length s"
proof (induction s rule: length_induct)
  case (1 s)
  show ?case
  proof (cases "s = []")
    case False
    let ?w = "snd (decode_rune s)"
    have "1 \<le> ?w" "?w \<le> length s" using decode_rune_width [OF False] by auto
    then show ?thesis
      using 1 [rule_format, of "drop ?w s"] False runes.simps [of s]
      by (simp add: RuneCountInString_def)
  qed (simp add: RuneCountInString_def)
qed

lemma encode_rune_length: "1 \<le> length (encode_rune r) \<and> length (encode_rune r) \<le> 4"
  by (simp add: encode_rune_def Let_def)

lemma of_char_char_of_small [simp]: "n < 256 \<Longrightarrow> byte (char_of n) = n"
  by simp

definition scalar :: "nat \<Rightarrow> nat" where
  "scalar r = (if 0x10FFFF < r \<or> (0xD800 \<le> r \<and> r \<le> 0xDFFF) then RuneError else r)"

lemma scalar_range: "scalar r \<le> 0x10FFFF \<and> \<not> (0xD800 \<le> scalar r \<and> scalar r \<le> 0xDFFF)"
  by (auto simp: scalar_def RuneError_def)

lemma base64_digits: "(r :: nat) = r div 4096 * 4096 + r div 64 mod 64 * 64 + r mod 64"
proof -
  have "r div 64 div 64 = r div 4096" using div_mult2_eq [of r 64 64] by simp
  then show ?thesis
    using div_mult_mod_eq [of r 64] div_mult_mod_eq [of "r div 64" 64] by linarith
qed

lemma base64_digits4:
  "(r :: nat) = r div 262144 * 262144 + r div 4096 mod 64 * 4096 + r div 64 mod 64 * 64 + r mod 64"
proof -
  have "r div 4096 div 64 = r div 262144" using div_mult2_eq [of r 4096 64] by simp
  then show ?thesis
    using base64_digits [of r] div_mult_mod_eq [of "r div 4096" 64] by linarith
qed

lemma decode_encode1:
  assumes "r < 0x800"
  shows "decode_rune (encode_rune r @ s) = (r, length (encode_rune r))"
proof (cases "r < 128")
  case True
  then show ?thesis by (simp add: encode_rune_def)
next
  case False
  define a b where "a = r div 64" and "b = r mod 64"
  have r: "r = a * 64 + b" and bounds: "2 \<le> a" "a < 32" "b < 64"
    using assms False by (auto simp: a_def b_def)
  have e: "encode_rune r = [char_of (0xC0 + a), char_of (0x80 + b)]"
    using assms False by (simp add: encode_rune_def a_def b_def)
  have "first_info (0xC0 + a) = Some (2, 0x80, 0xBF)" using bounds by (simp add: first_info_def)
  moreover have "(192 + a) mod 32 = a" "(128 + b) mod 64 = b"
    using bounds mod_mult_self3 [of 6 32 a] mod_mult_self3 [of 2 64 b] by simp_all
  ultimately show ?thesis unfolding e using bounds r by (simp add: Let_def)
qed

lemma decode_encode3:
  assumes "0x800 \<le> r" "r < 0x10000" "\<not> (0xD800 \<le> r \<and> r \<le> 0xDFFF)"
  shows "decode_rune (encode_rune r @ s) = (r, length (encode_rune r))"
proof -
  define a b c where "a = r div 4096" and "b = r div 64 mod 64" and "c = r mod 64"
  have r: "r = a * 4096 + b * 64 + c"
    unfolding a_def b_def c_def by (rule base64_digits)
  have bounds: "a < 16" "b < 64" "c < 64" using assms by (auto simp: a_def b_def c_def)
  have a0: "a = 0 \<Longrightarrow> 32 \<le> b" using assms(1) r bounds by linarith
  have aD: "a = 13 \<Longrightarrow> b < 32" using assms(3) r bounds by linarith
  have e: "encode_rune r = [char_of (0xE0 + a), char_of (0x80 + b), char_of (0x80 + c)]"
    using assms by (auto simp: encode_rune_def Let_def a_def b_def c_def)
  obtain lo hi where f: "first_info (0xE0 + a) = Some (3, lo, hi)" "lo \<le> 0x80 + b" "0x80 + b \<le> hi"
    using bounds a0 aD by (cases "a = 0"; cases "a = 13") (auto simp: first_info_def)
  have "(224 + a) mod 16 = a" "(128 + b) mod 64 = b" "(128 + c) mod 64 = c"
    using bounds mod_mult_self3 [of 14 16 a] mod_mult_self3 [of 2 64 b] mod_mult_self3 [of 2 64 c]
    by simp_all
  then show ?thesis unfolding e using bounds r f by (simp add: Let_def cont_byte_def)
qed

lemma decode_encode4:
  assumes "0x10000 \<le> r" "r \<le> 0x10FFFF"
  shows "decode_rune (encode_rune r @ s) = (r, length (encode_rune r))"
proof -
  define a b c d where "a = r div 262144" and "b = r div 4096 mod 64"
    and "c = r div 64 mod 64" and "d = r mod 64"
  have r: "r = a * 262144 + b * 4096 + c * 64 + d"
    unfolding a_def b_def c_def d_def by (rule base64_digits4)
  have bounds: "a < 5" "b < 64" "c < 64" "d < 64" using assms by (auto simp: a_def b_def c_def d_def)
  have a0: "a = 0 \<Longrightarrow> 16 \<le> b" using assms(1) r bounds by linarith
  have a4: "a = 4 \<Longrightarrow> b < 16" using assms(2) r bounds by linarith
  have e: "encode_rune r =
      [char_of (0xF0 + a), char_of (0x80 + b), char_of (0x80 + c), char_of (0x80 + d)]"
    using assms by (auto simp: encode_rune_def Let_def a_def b_def c_def d_def)
  obtain lo hi where f: "first_info (0xF0 + a) = Some (4, lo, hi)" "lo \<le> 0x80 + b" "0x80 + b \<le> hi"
    using bounds a0 a4 by (cases "a = 0"; cases "a = 4") (auto simp: first_info_def)
  have "(240 + a) mod 8 = a" "(128 + b) mod 64 = b" "(128 + c) mod 64 = c" "(128 + d) mod 64 = d"
    using bounds mod_mult_self3 [of 30 8 a] mod_mult_self3 [of 2 64 b] mod_mult_self3 [of 2 64 c]
      mod_mult_self3 [of 2 64 d] by simp_all
  then show ?thesis unfolding e using bounds r f by (simp add: Let_def cont_byte_def numeral_2_eq_2)
qed

lemma decode_encode: "decode_rune (encode_rune r @ s) = (scalar r, length (encode_rune r))"
proof -
  have "scalar (scalar r) = scalar r" by (simp add: scalar_def RuneError_def)
  then have "encode_rune r = encode_rune (scalar r)"
    unfolding encode_rune_def scalar_def [symmetric] by simp
  then show ?thesis
    using scalar_range [of r] decode_encode1 [of "scalar r" s] decode_encode3 [of "scalar r" s]
      decode_encode4 [of "scalar r" s]
    by (metis not_less)
qed

text \<open>Encoding then decoding a rune slice gives it back, invalid runes replaced.\<close>

lemma runes_string_of_runes: "runes (string_of_runes rs) = map scalar rs"
proof (induction rs)
  case Nil
  then show ?case by (simp add: string_of_runes_def)
next
  case (Cons r rs)
  let ?s = "encode_rune r @ string_of_runes rs"
  have s: "string_of_runes (r # rs) = ?s" by (simp add: string_of_runes_def)
  have "?s \<noteq> []" using encode_rune_length [of r] by auto
  then have "runes ?s = scalar r # runes (string_of_runes rs)"
    by (subst runes.simps) (simp add: decode_encode)
  then show ?case using Cons s by simp
qed

section \<open>Properties\<close>

text \<open>\<^verbatim>\<open>TruncateUTF8\<close> never returns more than \<open>maxBytes\<close> bytes and always returns a prefix; on a valid
  string the prefix is valid, consists of whole runes of the string, and is at most three bytes
  shorter than the bound allows; a string that fits is returned unchanged.\<close>

theorem truncate_utf8_rune_boundary:
  assumes "ValidString s" "0 \<le> maxBytes"
  defines "t \<equiv> TruncateUTF8 s maxBytes"
  shows "(\<exists>u. s = t @ u) \<and> int (length t) \<le> maxBytes \<and> ValidString t \<and>
         (\<exists>n. runes t = take n (runes s)) \<and>
         (if int (length s) \<le> maxBytes then t = s else maxBytes \<le> int (length t) + 3)"
proof (cases "int (length s) \<le> maxBytes")
  case True
  then have "t = s" by (simp add: t_def TruncateUTF8_def)
  with True assms show ?thesis by (auto intro: exI [of _ "length (runes s)"])
next
  case False
  let ?n = "nat maxBytes"
  let ?k = "trunc_pos s ?n"
  have n: "?n < length s" using False assms(2) by linarith
  have t: "t = take ?k s"
    using False assms(2) by (auto simp: t_def TruncateUTF8_def)
  have k: "?k \<le> ?n" "?k = 0 \<or> RuneStart (s ! ?k)" using trunc_pos_spec by auto
  have "ValidString t \<and> (\<exists>m. runes t = take m (runes s))"
    using valid_cut [OF assms(1), of ?k] k n t by auto
  moreover have "?n \<le> ?k + 3" by (rule trunc_pos_near [OF assms(1) n])
  moreover have "s = t @ drop ?k s" using t by simp
  moreover have "length t = ?k" using t k n by simp
  ultimately show ?thesis using False k assms(2) by auto
qed

theorem truncate_utf8_rune_boundary_witness:
  "TruncateUTF8 [CHR ''a'', CHR 0xE4, CHR 0xBD, CHR 0xA0] 3 = ''a'' \<and>
   ValidString (TruncateUTF8 [CHR ''a'', CHR 0xE4, CHR 0xBD, CHR 0xA0] 3)"
proof -
  have "ValidString [CHR ''a'', CHR 0xE4, CHR 0xBD, CHR 0xA0]"
    by (simp add: ValidString.simps Let_def first_info_def cont_byte_def RuneError_def)
  moreover have "TruncateUTF8 [CHR ''a'', CHR 0xE4, CHR 0xBD, CHR 0xA0] 3 = ''a''"
    by (simp add: TruncateUTF8_def RuneStart_def numeral_3_eq_3)
  ultimately show ?thesis
    using truncate_utf8_rune_boundary [of "[CHR ''a'', CHR 0xE4, CHR 0xBD, CHR 0xA0]" 3] by simp
qed

end
