(* ===== verification/AI_Messages.thy ===== *)
theory AI_Messages
  imports Utf8
begin

text \<open>
  \<^verbatim>\<open>digcore/diagnose/aiclient/types.go\<close>, \<^verbatim>\<open>token.go\<close>, \<^verbatim>\<open>compact.go\<close> and \<^verbatim>\<open>trimHistory\<close> of
  \<^verbatim>\<open>digcore/diagnose/streaming.go\<close>: the chat messages exchanged with a model, the token estimate, and
  the two routines that shorten a conversation. The specification of both is in terms of \<open>units\<close>: a
  conversation is a sequence of atomic units, an assistant message with tool calls and the tool
  results after it forming one.
\<close>

section \<open>Messages\<close>

record FunctionCall =
  fn_Name :: string
  fn_Arguments :: string

record ToolCall =
  tc_ID :: string
  tc_Type :: string
  tc_Function :: FunctionCall

record AIMessage =
  am_Role :: string
  am_Content :: string
  am_ReasoningContent :: string
  am_ToolCallID :: string
  am_ToolCalls :: "ToolCall list"

record Property =
  pr_Type :: string
  pr_Description :: string

record Parameters =
  pa_Type :: string
  pa_Properties :: "(string, Property) gomap"
  pa_Required :: "string list"

record ToolFunction =
  tf_Name :: string
  tf_Description :: string
  tf_Parameters :: "Parameters option"

record Tool =
  tl_Type :: string
  tl_Function :: ToolFunction

record Usage =
  us_PromptTokens :: int
  us_CompletionTokens :: int
  us_TotalTokens :: int

record Choice =
  ch_Index :: int
  ch_Message :: AIMessage
  ch_FinishReason :: string

record ChatResponse =
  cr_ID :: string
  cr_Choices :: "Choice list"
  cr_Usage :: Usage

text \<open>A message with only a role and a content.\<close>

definition plain_message :: "string \<Rightarrow> string \<Rightarrow> AIMessage" where
  "plain_message role content =
     \<lparr>am_Role = role, am_Content = content, am_ReasoningContent = [], am_ToolCallID = [],
      am_ToolCalls = []\<rparr>"

section \<open>Token estimate\<close>

definition EstimateTokensChinese :: "string \<Rightarrow> int" where
  "EstimateTokensChinese text =
     (let n = int (RuneCountInString text) in if n = 0 then 0 else (n + 1) div 2)"

definition perMessageOverhead :: int where "perMessageOverhead = 4"

definition EstimateMessageTokens :: "AIMessage \<Rightarrow> int" where
  "EstimateMessageTokens m =
     foldl (\<lambda>tokens tc. tokens + EstimateTokensChinese (fn_Name (tc_Function tc))
                              + EstimateTokensChinese (fn_Arguments (tc_Function tc)) + 10)
       (EstimateTokensChinese (am_Content m) + EstimateTokensChinese (am_ReasoningContent m)
         + perMessageOverhead)
       (am_ToolCalls m)"

definition EstimateMessagesTokens :: "AIMessage list \<Rightarrow> int" where
  "EstimateMessagesTokens messages = foldl (\<lambda>total m. total + EstimateMessageTokens m) 0 messages"

section \<open>Compaction\<close>

record messageGroup =
  mg_startIdx :: nat
  mg_tokens :: int

definition opens_tools :: "AIMessage \<Rightarrow> bool" where
  "opens_tools m \<longleftrightarrow> am_Role m = ''assistant'' \<and> length (am_ToolCalls m) > 0"

definition is_tool :: "AIMessage \<Rightarrow> bool" where
  "is_tool m \<longleftrightarrow> am_Role m = ''tool''"

text \<open>The inner loop over the tool results after an assistant message.\<close>

function tool_run :: "AIMessage list \<Rightarrow> nat \<Rightarrow> int \<Rightarrow> nat \<times> int" where
  "tool_run messages i t =
     (if i < length messages \<and> is_tool (messages ! i)
      then tool_run messages (i + 1) (t + EstimateMessageTokens (messages ! i))
      else (i, t))"
  by pat_completeness auto
termination by (relation "measure (\<lambda>(messages, i, t). length messages - i)") auto

declare tool_run.simps [simp del]

lemma tool_run_le: "i \<le> fst (tool_run messages i t)"
  by (induction messages i t rule: tool_run.induct) (subst tool_run.simps, auto)

lemma tool_run_less: "tool_run messages (Suc i) t = (i', t') \<Longrightarrow> i < i'"
  using tool_run_le [of "Suc i" messages t] by simp

function group_loop :: "AIMessage list \<Rightarrow> nat \<Rightarrow> messageGroup list \<Rightarrow> messageGroup list" where
  "group_loop messages i groups =
     (if i < length messages then
        (if opens_tools (messages ! i) then
           (let (i', t) = tool_run messages (i + 1) (EstimateMessageTokens (messages ! i))
            in group_loop messages i' (groups @ [\<lparr>mg_startIdx = i, mg_tokens = t\<rparr>]))
         else
           group_loop messages (i + 1)
             (groups @ [\<lparr>mg_startIdx = i, mg_tokens = EstimateMessageTokens (messages ! i)\<rparr>]))
      else groups)"
  by pat_completeness auto

termination
  by (relation "measure (\<lambda>(messages, i, groups). length messages - i)")
     (auto dest!: sym [THEN tool_run_less])

declare group_loop.simps [simp del]

definition parseMessageGroups :: "AIMessage list \<Rightarrow> nat \<Rightarrow> messageGroup list" where
  "parseMessageGroups messages startIdx =
     group_loop messages (if startIdx < 1 then 1 else startIdx) []"

text \<open>The loop \<^verbatim>\<open>for j := len(groups) - 1; j >= 0; j--\<close>, from the index above the next group.\<close>

fun keep_loop :: "messageGroup list \<Rightarrow> int \<Rightarrow> nat \<Rightarrow> int \<Rightarrow> nat \<Rightarrow> nat" where
  "keep_loop groups budget 0 s keepFrom = keepFrom"
| "keep_loop groups budget (Suc j) s keepFrom =
     (if s + mg_tokens (groups ! j) > budget then keepFrom
      else keep_loop groups budget j (s + mg_tokens (groups ! j)) j)"

definition CompactMessages :: "AIMessage list \<Rightarrow> int \<Rightarrow> AIMessage list" where
  "CompactMessages messages tokenBudget =
     (if length messages \<le> 1 \<or> tokenBudget \<le> 0 then messages
      else if EstimateMessagesTokens messages \<le> tokenBudget then messages
      else
        let stickyPrefix =
              (if length messages > 1 \<and> am_Role (messages ! 1) = ''user'' \<and>
                  length (am_ToolCalls (messages ! 1)) = 0 then 2 else 1);
            stickyTokens = EstimateMessagesTokens (take stickyPrefix messages)
        in if stickyTokens > tokenBudget then take stickyPrefix messages
           else
             let groups = parseMessageGroups messages stickyPrefix;
                 budget = tokenBudget - stickyTokens
             in if budget \<le> 0 then take stickyPrefix messages
                else
                  let keepFrom = keep_loop groups budget (length groups) 0 (length groups)
                  in if keepFrom = 0 then messages
                     else if keepFrom \<ge> length groups then take stickyPrefix messages
                     else take stickyPrefix messages @ drop (mg_startIdx (groups ! keepFrom)) messages)"

section \<open>Trimming the chat history\<close>

definition maxHistoryMessages :: nat where "maxHistoryMessages = 40"

function safe_cut :: "AIMessage list \<Rightarrow> nat \<Rightarrow> nat" where
  "safe_cut messages safeCut =
     (if safeCut < length messages \<and>
         (is_tool (messages ! safeCut) \<or> opens_tools (messages ! safeCut))
      then safe_cut messages (safeCut + 1) else safeCut)"
  by pat_completeness auto
termination by (relation "measure (\<lambda>(messages, i). length messages - i)") auto

declare safe_cut.simps [simp del]

definition trimHistory :: "AIMessage list \<Rightarrow> AIMessage list" where
  "trimHistory messages =
     (if length messages \<le> maxHistoryMessages + 1 then messages
      else
        let cut = length messages - maxHistoryMessages;
            safeCut = safe_cut messages cut
        in if safeCut < length messages then messages ! 0 # drop safeCut messages
           else if length messages > maxHistoryMessages * 2 then messages ! 0 # drop cut messages
           else messages)"

section \<open>Units of a conversation\<close>

function units :: "AIMessage list \<Rightarrow> AIMessage list list" where
  "units [] = []"
| "units (m # ms) =
     (if opens_tools m then (m # takeWhile is_tool ms) # units (dropWhile is_tool ms)
      else [m] # units ms)"
  by pat_completeness auto
termination
  by (relation "measure length") (auto simp: le_imp_less_Suc length_dropWhile_le)

text \<open>Tool results without the assistant message that asked for them.\<close>

definition orphan_free :: "AIMessage list \<Rightarrow> bool" where
  "orphan_free ms \<longleftrightarrow> (\<forall>u \<in> set (units ms). \<not> is_tool (hd u))"

text \<open>The units with the index each starts at.\<close>

fun unit_groups :: "nat \<Rightarrow> AIMessage list list \<Rightarrow> messageGroup list" where
  "unit_groups i [] = []"
| "unit_groups i (u # us) =
     \<lparr>mg_startIdx = i, mg_tokens = EstimateMessagesTokens u\<rparr> # unit_groups (i + length u) us"

lemma foldl_plus_shift: "foldl (\<lambda>t m. t + f m) (a :: int) ms = a + foldl (\<lambda>t m. t + f m) 0 ms"
proof (induction ms arbitrary: a)
  case Nil
  then show ?case by simp
next
  case (Cons m ms)
  show ?case using Cons [of "a + f m"] Cons [of "f m"] by simp
qed

lemma tokens_Nil [simp]: "EstimateMessagesTokens [] = 0"
  by (simp add: EstimateMessagesTokens_def)

lemma tokens_Cons [simp]:
  "EstimateMessagesTokens (m # ms) = EstimateMessageTokens m + EstimateMessagesTokens ms"
  unfolding EstimateMessagesTokens_def using foldl_plus_shift [of _ "EstimateMessageTokens m" ms]
  by simp

lemma tokens_append [simp]:
  "EstimateMessagesTokens (xs @ ys) = EstimateMessagesTokens xs + EstimateMessagesTokens ys"
  by (induction xs) auto

lemma EstimateTokensChinese_nonneg: "0 \<le> EstimateTokensChinese t"
  by (simp add: EstimateTokensChinese_def Let_def)

lemma foldl_ge: "(\<And>x. 0 \<le> f x) \<Longrightarrow> a \<le> foldl (\<lambda>t x. t + f x) (a :: int) xs"
proof (induction xs arbitrary: a)
  case Nil
  then show ?case by simp
next
  case (Cons x xs)
  then have "a + f x \<le> foldl (\<lambda>t x. t + f x) (a + f x) xs" by blast
  with Cons.prems [of x] show ?case by simp
qed

lemma message_tokens_pos: "4 \<le> EstimateMessageTokens m"
proof -
  let ?f = "\<lambda>tc. EstimateTokensChinese (fn_Name (tc_Function tc)) +
                 EstimateTokensChinese (fn_Arguments (tc_Function tc)) + 10"
  have "perMessageOverhead \<le> EstimateTokensChinese (am_Content m)
      + EstimateTokensChinese (am_ReasoningContent m) + perMessageOverhead"
    using EstimateTokensChinese_nonneg by (simp add: add_nonneg_nonneg)
  also have "\<dots> \<le> EstimateMessageTokens m"
    unfolding EstimateMessageTokens_def using foldl_ge [of ?f] EstimateTokensChinese_nonneg
    by (simp add: add.assoc)
  finally show ?thesis by (simp add: perMessageOverhead_def)
qed

lemma tokens_nonneg: "0 \<le> EstimateMessagesTokens ms"
  using message_tokens_pos by (induction ms) (auto simp: add_nonneg_nonneg order_trans [of 0 4])

lemma concat_units [simp]: "concat (units ms) = ms"
  by (induction ms rule: units.induct) auto

lemma units_nonempty: "u \<in> set (units ms) \<Longrightarrow> u \<noteq> []"
  by (induction ms rule: units.induct) (auto split: if_splits)

lemma units_Cons_tail: "units ms = u # us \<Longrightarrow> units (concat us) = us"
  by (cases ms) (auto split: if_splits)

text \<open>A suffix of units is the unit decomposition of the messages it holds.\<close>

lemma units_concat_drop: "units (concat (drop k (units ms))) = drop k (units ms)"
proof (induction k arbitrary: ms)
  case 0
  then show ?case by simp
next
  case (Suc k)
  show ?case
  proof (cases "units ms")
    case Nil
    then show ?thesis by simp
  next
    case (Cons u us)
    then have "us = units (concat us)" using units_Cons_tail by metis
    then show ?thesis using Suc [of "concat us"] Cons by simp
  qed
qed

lemma orphan_free_suffix: "orphan_free ms \<Longrightarrow> orphan_free (concat (drop k (units ms)))"
  by (auto simp: orphan_free_def units_concat_drop dest: in_set_dropD)

lemma units_plain_prefix:
  "list_all (\<lambda>m. \<not> opens_tools m) xs \<Longrightarrow> units (xs @ ys) = map (\<lambda>m. [m]) xs @ units ys"
  by (induction xs) auto

lemma orphan_free_plain_prefix:
  "list_all (\<lambda>m. \<not> opens_tools m \<and> \<not> is_tool m) xs \<Longrightarrow> orphan_free (xs @ ys) \<longleftrightarrow> orphan_free ys"
  by (auto simp: orphan_free_def units_plain_prefix list_all_iff)

section \<open>The code computes units\<close>

lemma tool_run_takeWhile:
  "i \<le> length ms \<Longrightarrow>
   tool_run ms i t = (i + length (takeWhile is_tool (drop i ms)),
                      t + EstimateMessagesTokens (takeWhile is_tool (drop i ms)))"
proof (induction ms i t rule: tool_run.induct)
  case (1 ms i t)
  show ?case
  proof (cases "i < length ms")
    case True
    then have "drop i ms = ms ! i # drop (Suc i) ms" by (simp add: Cons_nth_drop_Suc)
    then show ?thesis using 1 True by (subst tool_run.simps) simp
  next
    case False
    with 1 show ?thesis by (subst tool_run.simps) simp
  qed
qed

lemma group_loop_units:
  "i \<le> length ms \<Longrightarrow> group_loop ms i gs = gs @ unit_groups i (units (drop i ms))"
proof (induction ms i gs rule: group_loop.induct)
  case (1 ms i gs)
  show ?case
  proof (cases "i < length ms")
    case False
    with 1 show ?thesis by (subst group_loop.simps) simp
  next
    case True
    let ?m = "ms ! i" and ?r = "drop (Suc i) ms"
    have d: "drop i ms = ?m # ?r" using True by (simp add: Cons_nth_drop_Suc)
    show ?thesis
    proof (cases "opens_tools ?m")
      case op: True
      let ?n = "length (takeWhile is_tool ?r)"
      let ?t = "EstimateMessagesTokens (?m # takeWhile is_tool ?r)"
      have run: "tool_run ms (Suc i) (EstimateMessageTokens ?m) = (Suc i + ?n, ?t)"
        using tool_run_takeWhile [of "Suc i" ms] True by simp
      have le: "Suc i + ?n \<le> length ms"
        using length_takeWhile_le [of is_tool ?r] True by simp
      have dw: "drop (Suc i + ?n) ms = dropWhile is_tool ?r"
        by (simp add: dropWhile_eq_drop add.commute)
      have "group_loop ms i gs =
            group_loop ms (Suc i + ?n) (gs @ [\<lparr>mg_startIdx = i, mg_tokens = ?t\<rparr>])"
        using True op run by (subst group_loop.simps) simp
      also have "\<dots> = (gs @ [\<lparr>mg_startIdx = i, mg_tokens = ?t\<rparr>]) @
                      unit_groups (Suc i + ?n) (units (dropWhile is_tool ?r))"
        using 1(1) [OF True op refl, of "Suc i + ?n" ?t] run le dw by simp
      finally show ?thesis using d op by simp
    next
      case False
      then show ?thesis using 1(2) [OF True False] True d
        by (subst group_loop.simps) simp
    qed
  qed
qed

lemma length_unit_groups [simp]: "length (unit_groups i us) = length us"
  by (induction us arbitrary: i) auto

lemma unit_groups_nth:
  "k < length us \<Longrightarrow> unit_groups i us ! k =
     \<lparr>mg_startIdx = i + length (concat (take k us)), mg_tokens = EstimateMessagesTokens (us ! k)\<rparr>"
  by (induction us arbitrary: i k) (auto simp: nth_Cons split: nat.split)

lemma keep_loop_spec:
  fixes i :: nat
  assumes "n \<le> length us" "keep = n" "s = EstimateMessagesTokens (concat (drop n us))" "s \<le> b"
  defines "k \<equiv> keep_loop (unit_groups i us) b n s keep"
  shows "k \<le> length us \<and> EstimateMessagesTokens (concat (drop k us)) \<le> b \<and>
         (k = 0 \<or> b < EstimateMessagesTokens (concat (drop (k - 1) us)))"
  using assms(1-4) unfolding k_def
proof (induction n arbitrary: s keep)
  case 0
  then show ?case by simp
next
  case (Suc n)
  have d: "drop n us = us ! n # drop (Suc n) us" using Suc.prems by (simp add: Cons_nth_drop_Suc)
  have t: "mg_tokens (unit_groups i us ! n) = EstimateMessagesTokens (us ! n)"
    using Suc.prems by (simp add: unit_groups_nth)
  show ?case
  proof (cases "s + EstimateMessagesTokens (us ! n) > b")
    case True
    then show ?thesis using Suc.prems d t by simp
  next
    case False
    then show ?thesis
      using Suc.IH [of n "s + EstimateMessagesTokens (us ! n)"] Suc.prems d t by simp
  qed
qed

lemma drop_concat_take: "drop (length (concat (take k us))) (concat us) = concat (drop k us)"
  by (metis append_eq_conv_conj append_take_drop_id concat_append)

definition sticky :: "AIMessage list \<Rightarrow> nat" where
  "sticky messages =
     (if length messages > 1 \<and> am_Role (messages ! 1) = ''user'' \<and>
         length (am_ToolCalls (messages ! 1)) = 0 then 2 else 1)"

text \<open>What compaction returns when the conversation does not fit.\<close>

lemma CompactMessages_shape:
  assumes "1 < length ms" "0 < b" "b < EstimateMessagesTokens ms"
  defines "p \<equiv> sticky ms"
  defines "us \<equiv> units (drop p ms)"
  shows "\<exists>k. CompactMessages ms b = take p ms @ concat (drop k us) \<and> 0 < k \<and> k \<le> length us \<and>
     (if EstimateMessagesTokens (take p ms) \<ge> b then k = length us
      else EstimateMessagesTokens (CompactMessages ms b) \<le> b \<and>
           b < EstimateMessagesTokens (take p ms @ concat (drop (k - 1) us)))
   \<or> CompactMessages ms b = take p ms \<and> us = [] \<and> b < EstimateMessagesTokens (take p ms)"
proof -
  have p: "1 \<le> p" "p \<le> length ms" using assms(1) by (auto simp: p_def sticky_def)
  let ?T = "EstimateMessagesTokens (take p ms)"
  have cat: "concat us = drop p ms" by (simp add: us_def)
  have tot: "EstimateMessagesTokens ms = ?T + EstimateMessagesTokens (concat us)"
    using cat tokens_append [of "take p ms" "drop p ms"] by simp
  have gs: "parseMessageGroups ms p = unit_groups p us"
    using group_loop_units [of p ms "[]"] p by (simp add: parseMessageGroups_def us_def)
  have C: "CompactMessages ms b =
     (if ?T \<ge> b then take p ms
      else let k = keep_loop (unit_groups p us) (b - ?T) (length us) 0 (length us)
           in if k = 0 then ms else if k \<ge> length us then take p ms
              else take p ms @ drop (mg_startIdx (unit_groups p us ! k)) ms)"
    using assms(1-3) gs unfolding CompactMessages_def sticky_def [symmetric] p_def [symmetric]
    by (simp add: Let_def)
  show ?thesis
  proof (cases "?T \<ge> b")
    case True
    then have eq: "CompactMessages ms b = take p ms" using C by simp
    show ?thesis
    proof (cases "us = []")
      case True
      then show ?thesis using eq tot assms(3) by auto
    next
      case False
      then show ?thesis using eq True by (intro exI [of _ "length us"]) auto
    qed
  next
    case False
    define k where "k = keep_loop (unit_groups p us) (b - ?T) (length us) 0 (length us)"
    have k: "k \<le> length us" "EstimateMessagesTokens (concat (drop k us)) \<le> b - ?T"
      "k = 0 \<or> b - ?T < EstimateMessagesTokens (concat (drop (k - 1) us))"
      using keep_loop_spec [of "length us" us "length us" 0 "b - ?T" p] False by (auto simp: k_def)
    have k0: "k \<noteq> 0" using k(2) tot assms(3) by (cases k) auto
    have "CompactMessages ms b = take p ms @ concat (drop k us)"
    proof (cases "k < length us")
      case True
      have "drop (mg_startIdx (unit_groups p us ! k)) ms = drop (length (concat (take k us))) (concat us)"
        using True cat by (simp add: unit_groups_nth add.commute)
      then show ?thesis using C False k0 True by (simp add: k_def [symmetric] drop_concat_take)
    next
      case ge: False
      then show ?thesis using C False k0 by (simp add: k_def [symmetric])
    qed
    then show ?thesis using k k0 False by (intro exI [of _ k]) auto
  qed
qed

lemma sticky_bounds: "1 < length ms \<Longrightarrow> 1 \<le> sticky ms \<and> sticky ms \<le> length ms"
  by (simp add: sticky_def)

lemma sticky_plain:
  assumes "1 < length ms" "\<not> opens_tools (ms ! 0)" "\<not> is_tool (ms ! 0)"
  shows "list_all (\<lambda>m. \<not> opens_tools m \<and> \<not> is_tool m) (take (sticky ms) ms)"
proof -
  obtain a b r where "ms = a # b # r" using assms(1) by (cases ms; cases "tl ms") auto
  then show ?thesis using assms by (auto simp: sticky_def opens_tools_def is_tool_def numeral_2_eq_2)
qed

text \<open>A message that is no tool result starts a unit.\<close>

lemma drop_at_unit:
  "i < length ms \<Longrightarrow> \<not> is_tool (ms ! i) \<Longrightarrow> \<exists>k. drop i ms = concat (drop k (units ms))"
proof (induction ms arbitrary: i rule: units.induct)
  case 1
  then show ?case by simp
next
  case (2 m ms)
  show ?case
  proof (cases i)
    case 0
    then show ?thesis by (metis concat_units drop_0)
  next
    case (Suc j)
    show ?thesis
    proof (cases "opens_tools m")
      case True
      let ?n = "length (takeWhile is_tool ms)"
      have "\<not> j < ?n"
        using 2(4) Suc by (metis nth_Cons_Suc nth_mem set_takeWhileD takeWhile_nth)
      then have j: "drop j ms = drop (j - ?n) (dropWhile is_tool ms)"
        by (simp add: dropWhile_eq_drop)
      have "j - ?n < length (dropWhile is_tool ms)"
        using 2(3) Suc \<open>\<not> j < ?n\<close> by (simp add: dropWhile_eq_drop)
      moreover have "dropWhile is_tool ms ! (j - ?n) = ms ! j"
        using \<open>\<not> j < ?n\<close> 2(3) Suc length_takeWhile_le [of is_tool ms] by (simp add: dropWhile_eq_drop)
      ultimately obtain k where "drop j ms = concat (drop k (units (dropWhile is_tool ms)))"
        using 2(1) [OF True, of "j - ?n"] 2(4) Suc j by (metis nth_Cons_Suc)
      then show ?thesis using Suc True by (intro exI [of _ "Suc k"]) simp
    next
      case False
      then obtain k where "drop j ms = concat (drop k (units ms))"
        using 2(2) [OF False, of j] 2(3,4) Suc by auto
      then show ?thesis using Suc False by (intro exI [of _ "Suc k"]) simp
    qed
  qed
qed

lemma safe_cut_spec:
  "i \<le> length ms \<Longrightarrow> i \<le> safe_cut ms i \<and> safe_cut ms i \<le> length ms \<and>
     (safe_cut ms i < length ms \<longrightarrow>
        \<not> is_tool (ms ! safe_cut ms i) \<and> \<not> opens_tools (ms ! safe_cut ms i))"
proof (induction ms i rule: safe_cut.induct)
  case (1 ms i)
  then show ?case by (subst (1 2 3 4 5) safe_cut.simps) auto
qed

lemma safe_cut_last:
  assumes "i < length ms" "\<not> is_tool (last ms)" "\<not> opens_tools (last ms)"
  shows "safe_cut ms i < length ms"
  using assms
proof (induction ms i rule: safe_cut.induct)
  case (1 ms i)
  show ?case
  proof (cases "is_tool (ms ! i) \<or> opens_tools (ms ! i)")
    case True
    then have "i \<noteq> length ms - 1" using 1 by (metis last_conv_nth length_greater_0_conv less_nat_zero_code list.size(3))
    then have "Suc i < length ms" using 1 by auto
    then show ?thesis using 1 True by (subst safe_cut.simps) auto
  next
    case False
    then show ?thesis using 1 by (subst safe_cut.simps) auto
  qed
qed

text \<open>Appending to a conversation.\<close>

lemma units_append_nontool:
  "\<not> is_tool a \<Longrightarrow> units (ms @ a # rest) = units ms @ units (a # rest)"
proof (induction ms rule: units.induct)
  case 1
  then show ?case by simp
next
  case (2 m ms)
  have "takeWhile is_tool (ms @ a # rest) = takeWhile is_tool ms"
    and "dropWhile is_tool (ms @ a # rest) = dropWhile is_tool ms @ a # rest"
    using 2(3) by (simp_all add: takeWhile_tail dropWhile_append3)
  then show ?case using 2 by auto
qed

lemma orphan_free_append:
  assumes "orphan_free ms" "\<not> is_tool a"
  shows "orphan_free (ms @ a # rest) \<longleftrightarrow> orphan_free (a # rest)"
  using assms by (auto simp: orphan_free_def units_append_nontool)

lemma orphan_free_user:
  assumes "orphan_free ms"
  shows "orphan_free (ms @ [plain_message ''user'' c])"
proof -
  have "\<not> is_tool (plain_message ''user'' c)" by (simp add: is_tool_def plain_message_def)
  then show ?thesis
    using orphan_free_append [OF assms, of "plain_message ''user'' c" "[]"]
    by (simp add: orphan_free_def)
qed

lemma orphan_free_round:
  assumes "orphan_free ms" "opens_tools a" "list_all is_tool results"
  shows "orphan_free (ms @ a # results)"
proof -
  have nt: "\<not> is_tool a" using assms(2) by (auto simp: opens_tools_def is_tool_def)
  have tw: "takeWhile is_tool results = results" and dw: "dropWhile is_tool results = []"
    using assms(3) by (auto simp: list_all_iff takeWhile_eq_all_conv dropWhile_eq_Nil_conv)
  have "units (a # results) = [a # results]" using assms(2) by (simp only: units.simps if_True tw dw)
  then have "orphan_free (a # results)" using nt by (simp add: orphan_free_def)
  then show ?thesis using orphan_free_append [OF assms(1) nt] by simp
qed

lemma compact_orphan_free:
  assumes "orphan_free ms" "1 < length ms" "\<not> opens_tools (ms ! 0)"
  shows "orphan_free (CompactMessages ms b)"
proof (cases "EstimateMessagesTokens ms \<le> b \<or> b \<le> 0")
  case True
  then have "CompactMessages ms b = ms" by (auto simp: CompactMessages_def)
  then show ?thesis using assms(1) by simp
next
  case False
  let ?p = "sticky ms"
  have nt: "\<not> is_tool (ms ! 0)"
    using assms by (cases ms) (auto simp: orphan_free_def)
  have plain: "list_all (\<lambda>m. \<not> opens_tools m \<and> \<not> is_tool m) (take ?p ms)"
    by (rule sticky_plain [OF assms(2,3) nt])
  have "orphan_free (drop ?p ms)"
    using assms(1) orphan_free_plain_prefix [OF plain, of "drop ?p ms"] by simp
  then have suf: "orphan_free (concat (drop k (units (drop ?p ms))))" for k
    by (rule orphan_free_suffix)
  have "\<exists>k. CompactMessages ms b = take ?p ms @ concat (drop k (units (drop ?p ms)))"
    using CompactMessages_shape [OF assms(2), of b] False by (force intro: exI [of _ 0])
  then show ?thesis using suf orphan_free_plain_prefix [OF plain] by auto
qed

section \<open>Properties\<close>

text \<open>C12: compaction fits the budget: a conversation that is too long is cut to its fixed prefix (the
  system prompt and the first user turn) followed by a suffix of the rest, and the result is within
  the token budget unless the prefix alone is not; a conversation that fits is returned
  unchanged.\<close>

theorem compact_fits_budget:
  assumes "1 < length ms" "0 < b"
  shows "\<exists>dropped kept. CompactMessages ms b = take (sticky ms) ms @ kept \<and>
           drop (sticky ms) ms = dropped @ kept \<and>
           (EstimateMessagesTokens ms \<le> b \<longrightarrow> dropped = []) \<and>
           (EstimateMessagesTokens (CompactMessages ms b) \<le> b \<or>
              kept = [] \<and> b < EstimateMessagesTokens (take (sticky ms) ms))"
proof (cases "EstimateMessagesTokens ms \<le> b")
  case True
  then have "CompactMessages ms b = ms" by (simp add: CompactMessages_def)
  then show ?thesis using True
    by (intro exI [of _ "[]"] exI [of _ "drop (sticky ms) ms"]) simp
next
  case False
  let ?us = "units (drop (sticky ms) ms)"
  have split: "drop (sticky ms) ms = concat (take k ?us) @ concat (drop k ?us)" for k
    by (metis append_take_drop_id concat_append concat_units)
  from CompactMessages_shape [OF assms] False obtain k where
    "CompactMessages ms b = take (sticky ms) ms @ concat (drop k ?us)"
    "EstimateMessagesTokens (CompactMessages ms b) \<le> b \<or>
     concat (drop k ?us) = [] \<and> b < EstimateMessagesTokens (take (sticky ms) ms)"
    by (force split: if_splits)
  then show ?thesis using split [of k] False
    by (intro exI [of _ "concat (take k ?us)"] exI [of _ "concat (drop k ?us)"]) auto
qed

definition sample_history :: "AIMessage list" where
  "sample_history = [plain_message ''system'' ''s'', plain_message ''user'' ''u'',
     (plain_message ''assistant'' [])\<lparr>am_ToolCalls := [\<lparr>tc_ID = ''1'', tc_Type = ''function'',
        tc_Function = \<lparr>fn_Name = ''f'', fn_Arguments = []\<rparr>\<rparr>]\<rparr>,
     plain_message ''tool'' ''result'', plain_message ''user'' ''more'']"

lemma runes_ascii: "byte c < 128 \<Longrightarrow> runes (c # cs) = byte c # runes cs"
  by (subst runes.simps) simp

lemmas sample_history_eval = sample_history_def plain_message_def EstimateMessageTokens_def
  EstimateTokensChinese_def RuneCountInString_def runes_ascii perMessageOverhead_def sticky_def
  opens_tools_def is_tool_def

theorem compact_fits_budget_witness:
  "1 < length sample_history \<and>
   EstimateMessagesTokens (CompactMessages sample_history 20) \<le> 20"
  using compact_fits_budget [of sample_history 20] by (auto simp: sample_history_eval)

text \<open>compaction keeps as much as fits: when something is dropped although the prefix leaves room,
  what is kept is a whole number of units, and keeping one more unit would exceed the budget.\<close>

theorem compact_is_maximal:
  assumes "1 < length ms" "EstimateMessagesTokens (take (sticky ms) ms) < b"
    "b < EstimateMessagesTokens ms"
  shows "\<exists>k. 0 < k \<and> k \<le> length (units (drop (sticky ms) ms)) \<and>
     CompactMessages ms b = take (sticky ms) ms @ concat (drop k (units (drop (sticky ms) ms))) \<and>
     b < EstimateMessagesTokens (take (sticky ms) ms @ concat (drop (k - 1) (units (drop (sticky ms) ms))))"
proof -
  have "0 < b" using assms(2) tokens_nonneg [of "take (sticky ms) ms"] by simp
  from CompactMessages_shape [OF assms(1) this assms(3)] assms(2) show ?thesis by force
qed

theorem compact_is_maximal_witness:
  "1 < length sample_history \<and>
   (\<exists>k. 0 < k \<and> CompactMessages sample_history 20 =
      take 2 sample_history @ concat (drop k (units (drop 2 sample_history))))"
  using compact_is_maximal [of sample_history 20] by (auto simp: sample_history_eval)

text \<open>compaction never separates a tool result from the assistant message that requested it: if the
  conversation has no orphaned tool results and starts with a plain message, neither has the
  compacted one.\<close>

theorem compact_keeps_tool_pairs:
  assumes "orphan_free ms" "1 < length ms" "\<not> opens_tools (ms ! 0)"
  shows "orphan_free (CompactMessages ms b)"
  by (rule compact_orphan_free [OF assms])

theorem compact_keeps_tool_pairs_witness:
  "orphan_free sample_history \<and> orphan_free (CompactMessages sample_history 20)"
  using compact_keeps_tool_pairs [of sample_history 20]
  by (simp add: sample_history_eval orphan_free_def)

text \<open>trimming the chat history, as it is called after a user turn was appended, keeps the system
  prompt and the new turn, never more than 41 messages of a history that was longer, and never
  leaves a tool result without its request.\<close>

theorem trim_history_safe:
  assumes "2 \<le> length ms" "\<not> is_tool (last ms)" "\<not> opens_tools (last ms)" "orphan_free ms"
    "\<not> opens_tools (ms ! 0)"
  shows "orphan_free (trimHistory ms) \<and> length (trimHistory ms) \<le> 41 \<and>
         trimHistory ms ! 0 = ms ! 0 \<and> last (trimHistory ms) = last ms \<and>
         (length ms \<le> 41 \<longrightarrow> trimHistory ms = ms)"
proof (cases "length ms \<le> 41")
  case True
  then show ?thesis using assms by (simp add: trimHistory_def maxHistoryMessages_def)
next
  case False
  let ?cut = "length ms - 40" and ?n = "safe_cut ms (length ms - 40)"
  have n: "?cut \<le> ?n" "?n < length ms" "\<not> is_tool (ms ! ?n)"
    using safe_cut_spec [of ?cut ms] safe_cut_last [of ?cut ms] assms False by auto
  have eq: "trimHistory ms = ms ! 0 # drop ?n ms"
    using False n(2) by (simp add: trimHistory_def maxHistoryMessages_def Let_def)
  have nt: "\<not> is_tool (ms ! 0)" using assms by (cases ms) (auto simp: orphan_free_def)
  obtain k where "drop ?n ms = concat (drop k (units ms))" using drop_at_unit [OF n(2,3)] by auto
  then have "orphan_free (drop ?n ms)" using orphan_free_suffix [OF assms(4), of k] by simp
  then have "orphan_free (trimHistory ms)"
    using orphan_free_plain_prefix [of "[ms ! 0]" "drop ?n ms"] nt assms(5) eq by simp
  then show ?thesis using eq n False by (auto simp: last_drop)
qed

theorem trim_history_safe_witness:
  "orphan_free (trimHistory (sample_history @ replicate 50 (plain_message ''user'' ''x''))) \<and>
   length (trimHistory (sample_history @ replicate 50 (plain_message ''user'' ''x''))) \<le> 41"
  using trim_history_safe [of "sample_history @ replicate 50 (plain_message ''user'' ''x'')"]
  by (simp add: sample_history_eval orphan_free_def numeral_eq_Suc)

end
