(* ===== verification/Registry.thy ===== *)
theory Registry
  imports AI_Messages Aggregator
begin

text \<open>
  \<^verbatim>\<open>digcore/diagnose/registry.go\<close>, the tool types of \<^verbatim>\<open>types.go\<close>, and \<^verbatim>\<open>toolconv.go\<close>: the registry of
  diagnostic tools that plugins fill at start-up, the listings made from it for the model, and the
  tool definitions sent with a request. Tool, accessor and collector functions are values of the
  records; Go's \<^verbatim>\<open>%q\<close> quoting is an argument. The invariant \<open>reg_inv\<close> (tool names are unique over all
  categories and the flat index is exact) holds in every reachable registry, and makes the lookups
  that walk a map independent of its iteration order.
\<close>

section \<open>Tools\<close>

datatype ToolScope = ToolScopeLocal | ToolScopeRemote

record ToolParam =
  tp_Name :: string
  tp_Type :: string
  tp_Description :: string
  tp_Required :: bool

type_synonym tool_args = "(string, string) gomap option"

record DiagnoseTool =
  dt_Name :: string
  dt_Description :: string
  dt_Parameters :: "ToolParam list"
  dt_Scope :: ToolScope
  dt_SupportedOS :: "string list"
  dt_Execute :: "(tool_args \<Rightarrow> string + string) option"
  dt_RemoteExecute :: "(addr option \<Rightarrow> tool_args \<Rightarrow> string + string) option"

definition SupportsOS :: "DiagnoseTool \<Rightarrow> string \<Rightarrow> bool" where
  "SupportsOS t goos =
     (if length (dt_SupportedOS t) = 0 then True else goos \<in> set (dt_SupportedOS t))"

record ToolCategory =
  tg_Name :: string
  tg_Plugin :: string
  tg_Description :: string
  tg_Scope :: ToolScope
  tg_Tools :: "DiagnoseTool list"

record ToolRegistry =
  rg_categories :: "(string, ToolCategory) gomap"
  rg_toolIndex :: "(string, DiagnoseTool) gomap"
  rg_accessorFactory :: "(string, addr \<Rightarrow> string \<Rightarrow> string + addr) gomap"
  rg_preCollectors :: "(string, addr option \<Rightarrow> string) gomap"
  rg_diagnoseHints :: "(string, string) gomap"
  rg_baselinePlugins :: "string list"

section \<open>Registration\<close>

definition NewToolRegistry :: ToolRegistry where
  "NewToolRegistry = \<lparr>rg_categories = [], rg_toolIndex = [], rg_accessorFactory = [],
     rg_preCollectors = [], rg_diagnoseHints = [], rg_baselinePlugins = []\<rparr>"

definition reg_Register :: "string \<Rightarrow> DiagnoseTool \<Rightarrow> ToolRegistry \<Rightarrow> ToolRegistry" where
  "reg_Register category tool r =
     (if map_of (rg_toolIndex r) (dt_Name tool) \<noteq> None then r
      else
        let cat = (case map_of (rg_categories r) category of
                     Some c \<Rightarrow> c
                   | None \<Rightarrow> \<lparr>tg_Name = category, tg_Plugin = category, tg_Description = [],
                              tg_Scope = dt_Scope tool, tg_Tools = []\<rparr>);
            cat = cat\<lparr>tg_Tools := tg_Tools cat @ [tool]\<rparr>
        in r\<lparr>rg_categories := m_set category cat (rg_categories r),
             rg_toolIndex := m_set (dt_Name tool) tool (rg_toolIndex r)\<rparr>)"

definition RegisterCategory :: "string \<Rightarrow> string \<Rightarrow> string \<Rightarrow> ToolScope \<Rightarrow> ToolRegistry \<Rightarrow> ToolRegistry" where
  "RegisterCategory name plugin description scope r =
     (let cat = (case map_of (rg_categories r) name of
                   Some c \<Rightarrow> c
                 | None \<Rightarrow> \<lparr>tg_Name = name, tg_Plugin = [], tg_Description = [],
                            tg_Scope = ToolScopeLocal, tg_Tools = []\<rparr>)
      in r\<lparr>rg_categories := m_set name
             (cat\<lparr>tg_Plugin := plugin, tg_Description := description, tg_Scope := scope\<rparr>)
             (rg_categories r)\<rparr>)"

definition RegisterAccessorFactory :: "string \<Rightarrow> (addr \<Rightarrow> string \<Rightarrow> string + addr) \<Rightarrow> ToolRegistry \<Rightarrow> ToolRegistry" where
  "RegisterAccessorFactory plugin factory r =
     r\<lparr>rg_accessorFactory := m_set plugin factory (rg_accessorFactory r)\<rparr>"

definition CreateAccessor :: "(string \<Rightarrow> string) \<Rightarrow> string \<Rightarrow> addr \<Rightarrow> string \<Rightarrow> ToolRegistry \<Rightarrow> string + addr" where
  "CreateAccessor quote plugin instanceRef target r =
     (case map_of (rg_accessorFactory r) plugin of
        None \<Rightarrow> Inl (''no accessor factory registered for plugin '' @ quote plugin)
      | Some factory \<Rightarrow> factory instanceRef target)"

definition HasAccessorFactory :: "string \<Rightarrow> ToolRegistry \<Rightarrow> bool" where
  "HasAccessorFactory plugin r = m_has (rg_accessorFactory r) plugin"

definition RegisterPreCollector :: "string \<Rightarrow> (addr option \<Rightarrow> string) \<Rightarrow> ToolRegistry \<Rightarrow> ToolRegistry" where
  "RegisterPreCollector plugin fn r = r\<lparr>rg_preCollectors := m_set plugin fn (rg_preCollectors r)\<rparr>"

definition RunPreCollector :: "string \<Rightarrow> addr option \<Rightarrow> ToolRegistry \<Rightarrow> string" where
  "RunPreCollector plugin accessor r =
     (case map_of (rg_preCollectors r) plugin of None \<Rightarrow> [] | Some fn \<Rightarrow> fn accessor)"

definition SetDiagnoseHints :: "string \<Rightarrow> string \<Rightarrow> ToolRegistry \<Rightarrow> ToolRegistry" where
  "SetDiagnoseHints plugin hints r = r\<lparr>rg_diagnoseHints := m_set plugin hints (rg_diagnoseHints r)\<rparr>"

definition GetDiagnoseHints :: "string \<Rightarrow> ToolRegistry \<Rightarrow> string" where
  "GetDiagnoseHints plugin r = m_str (rg_diagnoseHints r) plugin"

definition RegisterBaselinePlugin :: "string \<Rightarrow> ToolRegistry \<Rightarrow> ToolRegistry" where
  "RegisterBaselinePlugin plugin r =
     (if plugin \<in> set (rg_baselinePlugins r) then r
      else r\<lparr>rg_baselinePlugins := rg_baselinePlugins r @ [plugin]\<rparr>)"

definition RunBaselinePreCollectors :: "string \<Rightarrow> ToolRegistry \<Rightarrow> (string, string) gomap" where
  "RunBaselinePreCollectors excludePlugin r =
     foldl (\<lambda>result p.
        if p = excludePlugin then result
        else let d = RunPreCollector p None r in if d \<noteq> [] then m_set p d result else result)
       [] (rg_baselinePlugins r)"

section \<open>Lookup\<close>

definition reg_Get :: "string \<Rightarrow> ToolRegistry \<Rightarrow> DiagnoseTool option" where
  "reg_Get name r = map_of (rg_toolIndex r) name"

definition ByPlugin :: "string \<Rightarrow> ToolRegistry \<Rightarrow> DiagnoseTool list" where
  "ByPlugin plugin r = (case map_of (rg_categories r) plugin of None \<Rightarrow> [] | Some cat \<Rightarrow> tg_Tools cat)"

definition contains_str :: "string \<Rightarrow> string \<Rightarrow> bool" where
  "contains_str s needle \<longleftrightarrow> sublist needle s"

definition categorySupportsOS :: "ToolCategory \<Rightarrow> string \<Rightarrow> bool" where
  "categorySupportsOS cat goos =
     (let desc = to_lower (tg_Description cat) in
      if contains_str desc ''linux only.'' then goos = ''linux''
      else if contains_str desc ''darwin only.'' \<or> contains_str desc ''macos only.'' then goos = ''darwin''
      else if contains_str desc ''windows only.'' then goos = ''windows''
      else True)"

definition ByPluginForOS :: "string \<Rightarrow> string \<Rightarrow> ToolRegistry \<Rightarrow> DiagnoseTool list" where
  "ByPluginForOS plugin goos r =
     (case map_of (rg_categories r) plugin of
        None \<Rightarrow> []
      | Some cat \<Rightarrow>
          if \<not> categorySupportsOS cat goos then []
          else filter (\<lambda>t. SupportsOS t goos) (tg_Tools cat))"

text \<open>The nested loop over the category map of \<^verbatim>\<open>ToolSupportedOn\<close>: the first category with the tool decides.\<close>

fun first_category :: "string \<Rightarrow> (string \<times> ToolCategory) list \<Rightarrow> ToolCategory option" where
  "first_category name [] = None"
| "first_category name ((k, cat) # cats) =
     (if name \<in> dt_Name ` set (tg_Tools cat) then Some cat else first_category name cats)"

definition ToolSupportedOn :: "string \<Rightarrow> string \<Rightarrow> ToolRegistry \<Rightarrow> bool" where
  "ToolSupportedOn name goos r =
     (case map_of (rg_toolIndex r) name of
        None \<Rightarrow> False
      | Some tool \<Rightarrow>
          if \<not> SupportsOS tool goos then False
          else case first_category name (rg_categories r) of
                 Some cat \<Rightarrow> categorySupportsOS cat goos
               | None \<Rightarrow> True)"

definition Categories :: "ToolRegistry \<Rightarrow> string list" where
  "Categories r = sort (m_keys (rg_categories r))"

definition ToolCount :: "ToolRegistry \<Rightarrow> nat" where
  "ToolCount r = length (rg_toolIndex r)"

definition CategoriesWithTools :: "ToolRegistry \<Rightarrow> ToolCategory list" where
  "CategoriesWithTools r = sort_key tg_Name (map snd (rg_categories r))"

section \<open>Listings\<close>

text \<open>\<^verbatim>\<open>%-12s\<close> pads with blanks on the right, counting runes.\<close>

definition pad12 :: "string \<Rightarrow> string" where
  "pad12 s = s @ replicate (12 - RuneCountInString s) (CHR '' '')"

definition category_line :: "ToolCategory \<Rightarrow> nat \<Rightarrow> string" where
  "category_line cat n =
     pad12 (tg_Name cat) @ '' ('' @ show_nat n @ '' tools) - ''
     @ (if tg_Description cat = [] then tg_Name cat @ '' diagnostics'' else tg_Description cat) @ [nl]"

definition cat_at :: "ToolRegistry \<Rightarrow> string \<Rightarrow> ToolCategory list" where
  "cat_at r name = (case map_of (rg_categories r) name of Some c \<Rightarrow> [c] | None \<Rightarrow> [])"

definition ListCategories :: "ToolRegistry \<Rightarrow> string" where
  "ListCategories r =
     concat (map (\<lambda>cat. category_line cat (length (tg_Tools cat)))
       (concat (map (cat_at r) (sort (m_keys (rg_categories r))))))"

definition ListCategoriesForOS :: "string \<Rightarrow> ToolRegistry \<Rightarrow> string" where
  "ListCategoriesForOS goos r =
     (let names = sort (map fst (filter (\<lambda>(n, cat). categorySupportsOS cat goos) (rg_categories r)))
      in concat (map (\<lambda>cat.
             let n = length (filter (\<lambda>t. SupportsOS t goos) (tg_Tools cat))
             in if n = 0 then [] else category_line cat n)
           (concat (map (cat_at r) names))))"

definition tool_lines :: "DiagnoseTool \<Rightarrow> string" where
  "tool_lines t =
     dt_Name t @ '' - '' @ dt_Description t @ [nl]
     @ concat (map (\<lambda>p. ''  '' @ tp_Name p @ '' ('' @ tp_Type p @ ''): '' @ tp_Description p
                        @ (if tp_Required p then '' (required)'' else []) @ [nl]) (dt_Parameters t))"

definition ListTools :: "(string \<Rightarrow> string) \<Rightarrow> string \<Rightarrow> ToolRegistry \<Rightarrow> string" where
  "ListTools quote category r =
     (case map_of (rg_categories r) category of
        None \<Rightarrow> ''unknown category: '' @ quote category
      | Some cat \<Rightarrow> concat (map tool_lines (tg_Tools cat)))"

definition ListToolsForOS :: "(string \<Rightarrow> string) \<Rightarrow> string \<Rightarrow> string \<Rightarrow> ToolRegistry \<Rightarrow> string" where
  "ListToolsForOS quote category goos r =
     (case map_of (rg_categories r) category of
        None \<Rightarrow> ''unknown category: '' @ quote category
      | Some cat \<Rightarrow>
          let none = ''no tools in category '' @ quote category @ '' support os='' @ quote goos;
              tools = filter (\<lambda>t. SupportsOS t goos) (tg_Tools cat)
          in if \<not> categorySupportsOS cat goos then none
             else if length tools = 0 then none
             else concat (map tool_lines tools))"

definition formatParamsCompact :: "ToolParam list \<Rightarrow> string" where
  "formatParamsCompact params =
     join '', '' (map (\<lambda>p. tp_Name p @ (if tp_Required p then ''*'' else [])) params)"

definition catalog_tool :: "DiagnoseTool \<Rightarrow> string" where
  "catalog_tool t =
     (let params = formatParamsCompact (dt_Parameters t) in
      if params \<noteq> [] then ''  '' @ dt_Name t @ ''('' @ params @ '') - '' @ dt_Description t @ [nl]
      else ''  '' @ dt_Name t @ ''() - '' @ dt_Description t @ [nl])"

definition catalog_desc :: "ToolCategory \<Rightarrow> string" where
  "catalog_desc cat = (if tg_Description cat = [] then tg_Name cat else tg_Description cat)"

definition ListAllTools :: "ToolRegistry \<Rightarrow> string" where
  "ListAllTools r =
     concat (map (\<lambda>cat. ''['' @ tg_Name cat @ ''] '' @ catalog_desc cat @ [nl]
                        @ concat (map catalog_tool (tg_Tools cat)))
       (sort_key tg_Name (map snd (rg_categories r))))"

text \<open>The summary line of an MCP category; its fixed Chinese text is the UTF-8 bytes of the literal.\<close>

definition mcp_hint :: string where
  "mcp_hint =
     [CHR '' '', CHR 0xE2, CHR 0x80, CHR 0x94, CHR '' '', CHR 0xE4, CHR 0xBD, CHR 0xBF, CHR 0xE7, CHR 0x94,
      CHR 0xA8, CHR 0xE5, CHR 0x89, CHR 0x8D, CHR 0xE5, CHR 0x85, CHR 0x88] @ '' list_tools(category=''"

definition catalog_entry :: "ToolCategory \<Rightarrow> DiagnoseTool list \<Rightarrow> string" where
  "catalog_entry cat tools =
     (if prefix ''mcp:'' (tg_Name cat) then
        ''['' @ tg_Name cat @ ''] ('' @ show_nat (length tools) @ '' tools) '' @ catalog_desc cat
        @ mcp_hint @ [CHR 0x22] @ tg_Name cat @ [CHR 0x22] @ '')'' @ [nl]
      else ''['' @ tg_Name cat @ ''] '' @ catalog_desc cat @ [nl] @ concat (map catalog_tool tools))"

definition ListToolCatalogSmart :: "ToolRegistry \<Rightarrow> string" where
  "ListToolCatalogSmart r =
     concat (map (\<lambda>cat. catalog_entry cat (tg_Tools cat))
       (sort_key tg_Name (map snd (rg_categories r))))"

definition ListToolCatalogSmartForOS :: "string \<Rightarrow> ToolRegistry \<Rightarrow> string" where
  "ListToolCatalogSmartForOS goos r =
     concat (map (\<lambda>cat.
        let filtered = filter (\<lambda>t. SupportsOS t goos) (tg_Tools cat)
        in if \<not> categorySupportsOS cat goos then []
           else if length filtered = 0 then []
           else catalog_entry cat filtered)
       (sort_key tg_Name (map snd (rg_categories r))))"

section \<open>Tool definitions for the model\<close>

definition diagnoseToolToAI :: "DiagnoseTool \<Rightarrow> Tool" where
  "diagnoseToolToAI t =
     \<lparr>tl_Type = ''function'',
      tl_Function = \<lparr>tf_Name = dt_Name t, tf_Description = dt_Description t,
        tf_Parameters =
          (if length (dt_Parameters t) > 0
           then Some \<lparr>pa_Type = ''object'',
                  pa_Properties = foldl (\<lambda>m p. m_set (tp_Name p)
                      \<lparr>pr_Type = tp_Type p, pr_Description = tp_Description p\<rparr> m) [] (dt_Parameters t),
                  pa_Required = map tp_Name (filter tp_Required (dt_Parameters t))\<rparr>
           else None)\<rparr>\<rparr>"

text \<open>The two meta tools; their descriptions are fixed texts, given as an argument.\<close>

definition metaTools :: "(string \<Rightarrow> string) \<Rightarrow> Tool list" where
  "metaTools descr =
     [\<lparr>tl_Type = ''function'',
       tl_Function = \<lparr>tf_Name = ''list_tools'', tf_Description = descr ''list_tools'',
         tf_Parameters = Some \<lparr>pa_Type = ''object'',
           pa_Properties = [(''category'', \<lparr>pr_Type = ''string'', pr_Description = descr ''category''\<rparr>)],
           pa_Required = [''category'']\<rparr>\<rparr>\<rparr>,
      \<lparr>tl_Type = ''function'',
       tl_Function = \<lparr>tf_Name = ''call_tool'', tf_Description = descr ''call_tool'',
         tf_Parameters = Some \<lparr>pa_Type = ''object'',
           pa_Properties = [(''name'', \<lparr>pr_Type = ''string'', pr_Description = descr ''name''\<rparr>),
                            (''tool_args'', \<lparr>pr_Type = ''string'', pr_Description = descr ''tool_args''\<rparr>)],
           pa_Required = [''name'']\<rparr>\<rparr>\<rparr>]"

definition buildToolSet :: "(string \<Rightarrow> string) \<Rightarrow> ToolRegistry \<Rightarrow> DiagnoseRequest \<Rightarrow> Tool list \<times> DiagnoseTool list" where
  "buildToolSet descr r req =
     (let directTools = ByPluginForOS (rq_Plugin req) (rq_RuntimeOS req) r
      in (map diagnoseToolToAI directTools @ metaTools descr, directTools))"

section \<open>Invariant\<close>

definition all_tools :: "ToolRegistry \<Rightarrow> DiagnoseTool list" where
  "all_tools r = concat (map (\<lambda>(k, c). tg_Tools c) (rg_categories r))"

definition reg_inv :: "ToolRegistry \<Rightarrow> bool" where
  "reg_inv r \<longleftrightarrow> m_ok (rg_categories r) \<and> m_ok (rg_toolIndex r) \<and>
     (\<forall>kc \<in> set (rg_categories r). tg_Name (snd kc) = fst kc) \<and>
     distinct (map dt_Name (all_tools r)) \<and>
     (\<forall>name t. map_of (rg_toolIndex r) name = Some t \<longleftrightarrow> t \<in> set (all_tools r) \<and> dt_Name t = name)"

text \<open>Registries as start-up builds them.\<close>

inductive reg_reachable :: "ToolRegistry \<Rightarrow> bool" where
  start: "reg_reachable NewToolRegistry"
| tool: "reg_reachable r \<Longrightarrow> reg_reachable (reg_Register category t r)"
| category: "reg_reachable r \<Longrightarrow> reg_reachable (RegisterCategory name plugin d scope r)"
| factory: "reg_reachable r \<Longrightarrow> reg_reachable (RegisterAccessorFactory plugin f r)"
| collector: "reg_reachable r \<Longrightarrow> reg_reachable (RegisterPreCollector plugin g r)"
| hints: "reg_reachable r \<Longrightarrow> reg_reachable (SetDiagnoseHints plugin h r)"
| baseline: "reg_reachable r \<Longrightarrow> reg_reachable (RegisterBaselinePlugin plugin r)"

text \<open>What replacing one category does to the list of all tools.\<close>

lemma mset_tools_set:
  assumes "m_ok m"
  shows "mset (concat (map (\<lambda>(k, c). tg_Tools c) (m_set k c m))) +
           mset (case map_of m k of Some c' \<Rightarrow> tg_Tools c' | None \<Rightarrow> []) =
         mset (concat (map (\<lambda>(k, c). tg_Tools c) m)) + mset (tg_Tools c)"
  using assms unfolding m_set_def m_ok_def
  by (induction m) (auto simp: ac_simps)

lemma set_m_set: "m_ok m \<Longrightarrow> set (m_set k v m) \<subseteq> insert (k, v) (set m)"
  unfolding m_set_def m_ok_def by (induction m) auto

lemma mset_names_distinct: "mset xs = mset ys \<Longrightarrow> distinct (map f xs) \<longleftrightarrow> distinct (map f ys)"
  by (metis mset_map mset_eq_imp_distinct_iff)

lemma reg_inv_Register [step_inv]:
  assumes "reg_inv r"
  shows "reg_inv (reg_Register category t r)"
proof (cases "map_of (rg_toolIndex r) (dt_Name t)")
  case (Some x)
  then show ?thesis using assms by (simp add: reg_Register_def)
next
  case None
  note I = assms [unfolded reg_inv_def]
  define cat where "cat = (case map_of (rg_categories r) category of
      Some c \<Rightarrow> c
    | None \<Rightarrow> \<lparr>tg_Name = category, tg_Plugin = category, tg_Description = [],
               tg_Scope = dt_Scope t, tg_Tools = []\<rparr>)"
  define cat' where "cat' = cat\<lparr>tg_Tools := tg_Tools cat @ [t]\<rparr>"
  let ?r = "reg_Register category t r"
  have r: "rg_categories ?r = m_set category cat' (rg_categories r)"
    "rg_toolIndex ?r = m_set (dt_Name t) t (rg_toolIndex r)"
    using None by (simp_all add: reg_Register_def Let_def cat_def cat'_def)
  have name: "tg_Name cat' = category"
    using I by (auto simp: cat'_def cat_def split: option.splits dest!: map_of_SomeD)
  have old: "tg_Tools cat = (case map_of (rg_categories r) category of Some c' \<Rightarrow> tg_Tools c' | None \<Rightarrow> [])"
    by (simp add: cat_def split: option.splits)
  have "mset (all_tools ?r) + mset (tg_Tools cat) = mset (all_tools r) + mset (tg_Tools cat')"
    using mset_tools_set [of "rg_categories r" category cat'] I
    by (simp add: all_tools_def r old)
  then have ms: "mset (all_tools ?r) = mset (t # all_tools r)" by (simp add: cat'_def)
  then have st: "set (all_tools ?r) = insert t (set (all_tools r))" by (metis list.simps(15) set_mset_mset)
  have idx: "\<And>name u. map_of (rg_toolIndex r) name = Some u \<longleftrightarrow> u \<in> set (all_tools r) \<and> dt_Name u = name"
    using I by blast
  have fresh: "dt_Name t \<notin> dt_Name ` set (all_tools r)"
    using idx None by (metis imageE option.distinct(1))
  have "distinct (map dt_Name (all_tools ?r))"
    using mset_names_distinct [OF ms, of dt_Name] I fresh by simp
  moreover have "map_of (rg_toolIndex ?r) name = Some u \<longleftrightarrow> u \<in> set (all_tools ?r) \<and> dt_Name u = name" for name u
    using idx fresh by (auto simp: r st image_iff)
  moreover have "\<forall>kc \<in> set (rg_categories ?r). tg_Name (snd kc) = fst kc"
    using I name set_m_set [of "rg_categories r" category cat'] unfolding r by force
  moreover have "m_ok (rg_categories ?r)" "m_ok (rg_toolIndex ?r)" using I by (simp_all add: r)
  ultimately show ?thesis unfolding reg_inv_def by blast
qed

lemma reg_inv_RegisterCategory [step_inv]:
  assumes "reg_inv r"
  shows "reg_inv (RegisterCategory name plugin d scope r)"
proof -
  note I = assms [unfolded reg_inv_def]
  define cat where "cat = (case map_of (rg_categories r) name of
      Some c \<Rightarrow> c
    | None \<Rightarrow> \<lparr>tg_Name = name, tg_Plugin = [], tg_Description = [],
               tg_Scope = ToolScopeLocal, tg_Tools = []\<rparr>)"
  define cat' where "cat' = cat\<lparr>tg_Plugin := plugin, tg_Description := d, tg_Scope := scope\<rparr>"
  let ?r = "RegisterCategory name plugin d scope r"
  have r: "rg_categories ?r = m_set name cat' (rg_categories r)" "rg_toolIndex ?r = rg_toolIndex r"
    by (simp_all add: RegisterCategory_def Let_def cat_def cat'_def)
  have nm: "tg_Name cat' = name"
    using I by (auto simp: cat'_def cat_def split: option.splits dest!: map_of_SomeD)
  have old: "tg_Tools cat' = (case map_of (rg_categories r) name of Some c' \<Rightarrow> tg_Tools c' | None \<Rightarrow> [])"
    by (simp add: cat'_def cat_def split: option.splits)
  have ms: "mset (all_tools ?r) = mset (all_tools r)"
    using mset_tools_set [of "rg_categories r" name cat'] I
    by (simp add: all_tools_def r old)
  then have st: "set (all_tools ?r) = set (all_tools r)" by (metis set_mset_mset)
  have "\<forall>kc \<in> set (rg_categories ?r). tg_Name (snd kc) = fst kc"
    using I nm set_m_set [of "rg_categories r" name cat'] unfolding r by force
  then show ?thesis
    using I mset_names_distinct [OF ms, of dt_Name] by (simp add: reg_inv_def r st)
qed

lemma reg_inv_others [step_inv]:
  "reg_inv r \<Longrightarrow> reg_inv (RegisterAccessorFactory plugin f r)"
  "reg_inv r \<Longrightarrow> reg_inv (RegisterPreCollector plugin g r)"
  "reg_inv r \<Longrightarrow> reg_inv (SetDiagnoseHints plugin h r)"
  "reg_inv r \<Longrightarrow> reg_inv (RegisterBaselinePlugin plugin r)"
  by (auto simp: reg_inv_def all_tools_def RegisterAccessorFactory_def RegisterPreCollector_def
      SetDiagnoseHints_def RegisterBaselinePlugin_def)

lemma reachable_reg_inv: "reg_reachable r \<Longrightarrow> reg_inv r"
proof (induction rule: reg_reachable.induct)
  case start
  then show ?case by (simp add: reg_inv_def NewToolRegistry_def all_tools_def)
qed (auto intro: step_inv)

section \<open>Lookups under the invariant\<close>

lemma reg_inv_index:
  assumes "reg_inv r"
  shows "reg_Get name r = Some t \<longleftrightarrow> t \<in> set (all_tools r) \<and> dt_Name t = name"
  using assms unfolding reg_inv_def reg_Get_def by blast

lemma all_tools_iff: "t \<in> set (all_tools r) \<longleftrightarrow> (\<exists>kc \<in> set (rg_categories r). t \<in> set (tg_Tools (snd kc)))"
  by (simp add: all_tools_def case_prod_beta)

text \<open>A tool name determines its category, whatever the order of the map.\<close>

lemma first_category_unique:
  assumes "distinct (map dt_Name (concat (map (\<lambda>(k, c). tg_Tools c) m)))"
    "(k, c) \<in> set m" "t \<in> set (tg_Tools c)"
  shows "first_category (dt_Name t) m = Some c"
  using assms
proof (induction m)
  case Nil
  then show ?case by simp
next
  case (Cons kc m)
  obtain k' c' where kc: "kc = (k', c')" by (cases kc)
  show ?case
  proof (cases "(k, c) \<in> set m")
    case True
    then have "dt_Name t \<notin> dt_Name ` set (tg_Tools c')"
      using Cons.prems kc by force
    moreover have "first_category (dt_Name t) m = Some c"
      using Cons.IH [OF _ True Cons.prems(3)] Cons.prems(1) kc by simp
    ultimately show ?thesis using kc by simp
  next
    case False
    then have "c = c'" using Cons.prems(2) kc by simp
    then show ?thesis using Cons.prems(3) kc by simp
  qed
qed

lemma ToolSupportedOn_iff:
  assumes "reg_inv r"
  shows "ToolSupportedOn name goos r \<longleftrightarrow>
    (\<exists>kc t. kc \<in> set (rg_categories r) \<and> t \<in> set (tg_Tools (snd kc)) \<and> dt_Name t = name \<and>
       SupportsOS t goos \<and> categorySupportsOS (snd kc) goos)"
proof -
  have dist: "distinct (map dt_Name (concat (map (\<lambda>(k, c). tg_Tools c) (rg_categories r))))"
    using assms by (simp add: reg_inv_def all_tools_def)
  have fc: "first_category (dt_Name t) (rg_categories r) = Some (snd kc)"
    if "kc \<in> set (rg_categories r)" "t \<in> set (tg_Tools (snd kc))" for kc t
    using first_category_unique [OF dist, of "fst kc" "snd kc" t] that by simp
  have idx: "map_of (rg_toolIndex r) (dt_Name t) = Some t"
    if "kc \<in> set (rg_categories r)" "t \<in> set (tg_Tools (snd kc))" for kc t
    using reg_inv_index [OF assms, of "dt_Name t" t] that all_tools_iff [of t r]
    by (auto simp: reg_Get_def)
  show ?thesis
  proof
    assume L: "ToolSupportedOn name goos r"
    then obtain t where t: "reg_Get name r = Some t" "SupportsOS t goos"
      by (auto simp: ToolSupportedOn_def reg_Get_def split: option.splits if_splits)
    then obtain kc where kc: "kc \<in> set (rg_categories r)" "t \<in> set (tg_Tools (snd kc))" "dt_Name t = name"
      using reg_inv_index [OF assms, of name t] all_tools_iff [of t r] by auto
    have "categorySupportsOS (snd kc) goos"
      using L t fc [OF kc(1,2)] kc(3) by (simp add: ToolSupportedOn_def reg_Get_def)
    then show "\<exists>kc t. kc \<in> set (rg_categories r) \<and> t \<in> set (tg_Tools (snd kc)) \<and> dt_Name t = name \<and>
       SupportsOS t goos \<and> categorySupportsOS (snd kc) goos" using kc t by blast
  next
    assume "\<exists>kc t. kc \<in> set (rg_categories r) \<and> t \<in> set (tg_Tools (snd kc)) \<and> dt_Name t = name \<and>
       SupportsOS t goos \<and> categorySupportsOS (snd kc) goos"
    then show "ToolSupportedOn name goos r"
      using fc idx by (force simp: ToolSupportedOn_def)
  qed
qed

section \<open>The interface the executor relies on\<close>

locale tool_directory =
  fixes inv :: "'r \<Rightarrow> bool"
    and find_tool :: "string \<Rightarrow> 'r \<Rightarrow> 't option"
    and supported :: "string \<Rightarrow> string \<Rightarrow> 'r \<Rightarrow> bool"
    and offered :: "string \<Rightarrow> string \<Rightarrow> 'r \<Rightarrow> 't list"
    and name_of :: "'t \<Rightarrow> string"
  assumes offered_found: "inv r \<Longrightarrow> t \<in> set (offered p os r) \<Longrightarrow> find_tool (name_of t) r = Some t"
    and offered_supported: "inv r \<Longrightarrow> t \<in> set (offered p os r) \<Longrightarrow> supported (name_of t) os r"
    and offered_distinct: "inv r \<Longrightarrow> distinct (map name_of (offered p os r))"
begin

text \<open>Every offered tool can be called by its name, and no other tool answers to it.\<close>

lemma offered_callable:
  assumes "inv r" "t \<in> set (offered p os r)" "find_tool (name_of t) r = Some u"
  shows "u = t \<and> supported (name_of t) os r"
  using assms offered_found offered_supported by force

lemma offered_injective:
  assumes "inv r" "t \<in> set (offered p os r)" "u \<in> set (offered p os r)" "name_of t = name_of u"
  shows "t = u"
  using offered_distinct [OF assms(1)] assms(2-4) by (metis distinct_map inj_onD)

end

lemma ByPluginForOS_iff:
  "t \<in> set (ByPluginForOS p os r) \<longleftrightarrow>
   (\<exists>c. map_of (rg_categories r) p = Some c \<and> categorySupportsOS c os \<and> t \<in> set (tg_Tools c) \<and> SupportsOS t os)"
  by (cases "map_of (rg_categories r) p") (auto simp: ByPluginForOS_def)

lemma distinct_concat_part:
  "distinct (map f (concat xss)) \<Longrightarrow> xs \<in> set xss \<Longrightarrow> distinct (map f xs)"
  by (induction xss) auto

lemma ByPluginForOS_distinct:
  assumes "reg_inv r"
  shows "distinct (map dt_Name (ByPluginForOS p os r))"
proof (cases "map_of (rg_categories r) p")
  case None
  then show ?thesis by (simp add: ByPluginForOS_def)
next
  case (Some c)
  then have "tg_Tools c \<in> set (map (\<lambda>(k, c). tg_Tools c) (rg_categories r))"
    by (force dest: map_of_SomeD)
  then have "distinct (map dt_Name (tg_Tools c))"
    using assms distinct_concat_part unfolding reg_inv_def all_tools_def by blast
  then show ?thesis using Some by (simp add: ByPluginForOS_def distinct_map_filter)
qed

interpretation registry: tool_directory reg_inv reg_Get ToolSupportedOn ByPluginForOS dt_Name
proof unfold_locales
  fix r t p os
  assume inv: "reg_inv r" and "t \<in> set (ByPluginForOS p os r)"
  then obtain c where c: "(p, c) \<in> set (rg_categories r)" "categorySupportsOS c os"
    "t \<in> set (tg_Tools c)" "SupportsOS t os"
    by (auto simp: ByPluginForOS_iff dest: map_of_SomeD)
  then have "t \<in> set (all_tools r)" by (force simp: all_tools_iff)
  then show "reg_Get (dt_Name t) r = Some t" using reg_inv_index [OF inv] by blast
  show "ToolSupportedOn (dt_Name t) os r" using c by (force simp: ToolSupportedOn_iff [OF inv])
qed (rule ByPluginForOS_distinct)

section \<open>Properties\<close>

text \<open>in every registry that start-up can build, tool names are unique over all categories and the
  flat index is exact, so whether a tool is supported on a system does not depend on the iteration
  order of the category map: it is supported exactly if it is registered in some category, and both
  it and that category support the system.\<close>

theorem registry_support_exact:
  assumes "reg_reachable r"
  shows "reg_inv r \<and>
    (ToolSupportedOn name goos r \<longleftrightarrow>
      (\<exists>kc t. kc \<in> set (rg_categories r) \<and> t \<in> set (tg_Tools (snd kc)) \<and> dt_Name t = name \<and>
         SupportsOS t goos \<and> categorySupportsOS (snd kc) goos))"
  using reachable_reg_inv [OF assms] ToolSupportedOn_iff by blast

definition sample_tool :: DiagnoseTool where
  "sample_tool = \<lparr>dt_Name = ''disk_usage'', dt_Description = ''df'', dt_Parameters = [],
     dt_Scope = ToolScopeLocal, dt_SupportedOS = [''linux''],
     dt_Execute = Some (\<lambda>_. Inr ''ok''), dt_RemoteExecute = None\<rparr>"

definition sample_registry :: ToolRegistry where
  "sample_registry = RegisterCategory ''disk'' ''disk'' ''Linux only.'' ToolScopeLocal
     (reg_Register ''disk'' sample_tool NewToolRegistry)"

lemma sample_registry_reachable: "reg_reachable sample_registry"
  unfolding sample_registry_def by (intro reg_reachable.intros)

theorem registry_support_exact_witness:
  "reg_inv sample_registry \<and> \<not> ToolSupportedOn ''none'' ''linux'' sample_registry"
  using registry_support_exact [OF sample_registry_reachable, of "''none''" "''linux''"]
  by (simp add: sample_registry_def reg_Register_def RegisterCategory_def NewToolRegistry_def
      sample_tool_def m_set_def)

end
