(* ===== verification/Report.thy ===== *)
theory Report
  imports Utf8 Aggregator
begin

text \<open>
  \<^verbatim>\<open>digcore/diagnose/record.go\<close> and \<^verbatim>\<open>report.go\<close>: the record of one diagnosis run and the two texts made
  from it, the notification description (at most 2048 bytes) and the alert comment (at most 1024
  characters). The Chinese literals are their UTF-8 bytes. The formatted time, the wall clock, the
  random suffix and the path of the record file are arguments.
\<close>

section \<open>Records\<close>

record AlertRecord =
  ar_Plugin :: string
  ar_Target :: string
  ar_Checks :: "CheckSnapshot list"

record AIRecord =
  ai_Model :: string
  ai_TotalRounds :: int
  ai_InputTokens :: int
  ai_OutputTokens :: int

record ToolCallRecord =
  tr_Name :: string
  tr_Args :: "(string, string) gomap"
  tr_Result :: string
  tr_DurationMs :: int

record RoundRecord =
  rr_Round :: int
  rr_ToolCalls :: "ToolCallRecord list"
  rr_AIReasoning :: string

record DiagnoseRecord =
  dr_ID :: string
  dr_Mode :: string
  dr_Status :: string
  dr_Error :: string
  dr_CreatedAt :: int
  dr_DurationMs :: int
  dr_Alert :: AlertRecord
  dr_AI :: AIRecord
  dr_Rounds :: "RoundRecord list"
  dr_Report :: string

definition ModeAlert :: string where "ModeAlert = ''alert''"
definition ModeInspect :: string where "ModeInspect = ''inspect''"

definition safe_char :: "char \<Rightarrow> bool" where
  "safe_char c \<longleftrightarrow>
     (let n = of_char c :: nat in
      97 \<le> n \<and> n \<le> 122 \<or> 65 \<le> n \<and> n \<le> 90 \<or> 48 \<le> n \<and> n \<le> 57 \<or> c = CHR ''-'' \<or> c = CHR ''_'')"

fun sanitizeTarget :: "string \<Rightarrow> string" where
  "sanitizeTarget [] = []"
| "sanitizeTarget (c # cs) = (if safe_char c then c else CHR ''_'') # sanitizeTarget cs"

definition NewDiagnoseRecord :: "int \<Rightarrow> string \<Rightarrow> DiagnoseRequest \<Rightarrow> DiagnoseRecord" where
  "NewDiagnoseRecord now randHex4 req =
     (let mode = (if rq_Mode req = [] then ModeAlert else rq_Mode req) in
      \<lparr>dr_ID = mode @ ''_'' @ rq_Plugin req @ ''_'' @ sanitizeTarget (rq_Target req) @ ''_''
                @ show_int (now div 1000000) @ ''_'' @ randHex4,
       dr_Mode = mode, dr_Status = ''running'', dr_Error = [], dr_CreatedAt = now, dr_DurationMs = 0,
       dr_Alert = \<lparr>ar_Plugin = rq_Plugin req, ar_Target = rq_Target req, ar_Checks = rq_Checks req\<rparr>,
       dr_AI = \<lparr>ai_Model = [], ai_TotalRounds = 0, ai_InputTokens = 0, ai_OutputTokens = 0\<rparr>,
       dr_Rounds = [], dr_Report = []\<rparr>)"

section \<open>Texts\<close>

definition maxDescriptionBytes :: int where "maxDescriptionBytes = 2048"
definition maxCommentChars :: int where "maxCommentChars = 1024"

text \<open>The pieces of the Chinese header and footer.\<close>

definition zh_title :: string where
  "zh_title =
     (''[*] AI ''
      @ [CHR 0xE8, CHR 0xAF, CHR 0x8A, CHR 0xE6, CHR 0x96, CHR 0xAD, CHR 0xE6, CHR 0x8A, CHR 0xA5, CHR 0xE5, CHR 0x91, CHR 0x8A]
      @ '' ['')"

definition zh_plugin :: string where
  "zh_plugin =
     ([CHR 0xE6, CHR 0x8F, CHR 0x92, CHR 0xE4, CHR 0xBB, CHR 0xB6]
      @ '': '')"

definition zh_target :: string where
  "zh_target =
     ('' | ''
      @ [CHR 0xE7, CHR 0x9B, CHR 0xAE, CHR 0xE6, CHR 0xA0, CHR 0x87]
      @ '': '')"

definition zh_time :: string where
  "zh_time =
     ([CHR 0xE8, CHR 0xAF, CHR 0x8A, CHR 0xE6, CHR 0x96, CHR 0xAD, CHR 0xE6, CHR 0x97, CHR 0xB6, CHR 0xE9, CHR 0x97, CHR 0xB4]
      @ '': '')"

definition zh_took :: string where
  "zh_took =
     ('' | ''
      @ [CHR 0xE8, CHR 0x80, CHR 0x97, CHR 0xE6, CHR 0x97, CHR 0xB6]
      @ '': '')"

definition zh_rounds :: string where
  "zh_rounds =
     (''ms | AI''
      @ [CHR 0xE8, CHR 0xBD, CHR 0xAE, CHR 0xE6, CHR 0xAC, CHR 0xA1]
      @ '': '')"

definition zh_view :: string where
  "zh_view =
     ([CHR 0x0A]
      @ ''---''
      @ [CHR 0x0A, CHR 0xE6, CHR 0x9F, CHR 0xA5, CHR 0xE7, CHR 0x9C, CHR 0x8B, CHR 0xE5, CHR 0x91, CHR 0xBD, CHR 0xE4, CHR 0xBB]
      @ [CHR 0xA4]
      @ '': catpaw diagnose show '')"

definition zh_full :: string where
  "zh_full =
     ([CHR 0x0A, CHR 0xE5, CHR 0xAE, CHR 0x8C, CHR 0xE6, CHR 0x95, CHR 0xB4, CHR 0xE8, CHR 0xAE, CHR 0xB0, CHR 0xE5, CHR 0xBD]
      @ [CHR 0x95]
      @ '': '')"

definition zh_details :: string where
  "zh_details =
     ([CHR 0x0A, CHR 0x0A, CHR 0xE8, CHR 0xAF, CHR 0xA6, CHR 0xE6, CHR 0x83, CHR 0x85]
      @ '': catpaw diagnose show '')"

definition formatHeader :: "string \<Rightarrow> DiagnoseRecord \<Rightarrow> string \<Rightarrow> string" where
  "formatHeader created r language =
     (if language = ''zh'' then
        zh_title @ dr_Status r @ '']'' @ [nl]
        @ zh_plugin @ ar_Plugin (dr_Alert r) @ zh_target @ ar_Target (dr_Alert r) @ [nl]
        @ zh_time @ created @ zh_took @ show_int (dr_DurationMs r) @ zh_rounds
        @ show_int (ai_TotalRounds (dr_AI r)) @ [nl]
      else
        ''[*] AI Diagnosis Report ['' @ dr_Status r @ '']'' @ [nl]
        @ ''Plugin: '' @ ar_Plugin (dr_Alert r) @ '' | Target: '' @ ar_Target (dr_Alert r) @ [nl]
        @ ''Time: '' @ created @ '' | Duration: '' @ show_int (dr_DurationMs r) @ ''ms | Rounds: ''
        @ show_int (ai_TotalRounds (dr_AI r)) @ [nl])
     @ ''---'' @ [nl]"

definition formatFooter :: "string \<Rightarrow> DiagnoseRecord \<Rightarrow> string \<Rightarrow> string" where
  "formatFooter filePath r language =
     (if language = ''zh'' then zh_view @ dr_ID r @ zh_full @ filePath @ [nl]
      else [nl] @ ''---'' @ [nl] @ ''View command: catpaw diagnose show '' @ dr_ID r @ [nl]
           @ ''Full record: '' @ filePath @ [nl])"

definition formatCommentFooter :: "DiagnoseRecord \<Rightarrow> string \<Rightarrow> string" where
  "formatCommentFooter r language =
     (if language = ''zh'' then zh_details @ dr_ID r
      else [nl, nl] @ ''Details: catpaw diagnose show '' @ dr_ID r)"

definition formatCommentTruncSuffix :: "string \<Rightarrow> string" where
  "formatCommentTruncSuffix language =
     (if language = ''zh'' then
     ([CHR 0x0A]
      @ ''...[''
      @ [CHR 0xE5, CHR 0xB7, CHR 0xB2, CHR 0xE6, CHR 0x88, CHR 0xAA, CHR 0xE6, CHR 0x96, CHR 0xAD]
      @ '']'')
      else [nl] @ ''...[truncated]'')"

definition formatEmptyComment :: "string \<Rightarrow> string" where
  "formatEmptyComment language =
     (if language = ''zh'' then
     (''AI ''
      @ [CHR 0xE8, CHR 0xAF, CHR 0x8A, CHR 0xE6, CHR 0x96, CHR 0xAD, CHR 0xE5, CHR 0xB7, CHR 0xB2, CHR 0xE5, CHR 0xAE, CHR 0x8C]
      @ [CHR 0xE6, CHR 0x88, CHR 0x90, CHR 0xEF, CHR 0xBC, CHR 0x8C, CHR 0xE4, CHR 0xBD, CHR 0x86, CHR 0xE6, CHR 0x9C, CHR 0xAA]
      @ [CHR 0xE7, CHR 0x94, CHR 0x9F, CHR 0xE6, CHR 0x88, CHR 0x90, CHR 0xE5, CHR 0x8F, CHR 0xAF, CHR 0xE6, CHR 0x98, CHR 0xBE]
      @ [CHR 0xE7, CHR 0xA4, CHR 0xBA, CHR 0xE7, CHR 0x9A, CHR 0x84, CHR 0xE6, CHR 0x8A, CHR 0xA5, CHR 0xE5, CHR 0x91, CHR 0x8A]
      @ [CHR 0xE3, CHR 0x80, CHR 0x82])
      else ''AI diagnosis completed, but no displayable report was generated.'')"

definition truncSuffixText :: "string \<Rightarrow> string" where
  "truncSuffixText language =
     (if language = ''zh'' then
     ([CHR 0x0A]
      @ ''...[''
      @ [CHR 0xE8, CHR 0xAF, CHR 0x8A, CHR 0xE6, CHR 0x96, CHR 0xAD, CHR 0xE6, CHR 0x8A, CHR 0xA5, CHR 0xE5, CHR 0x91, CHR 0x8A]
      @ [CHR 0xE5, CHR 0xB7, CHR 0xB2, CHR 0xE6, CHR 0x88, CHR 0xAA, CHR 0xE6, CHR 0x96, CHR 0xAD, CHR 0xEF, CHR 0xBC, CHR 0x8C]
      @ [CHR 0xE5, CHR 0xAE, CHR 0x8C, CHR 0xE6, CHR 0x95, CHR 0xB4, CHR 0xE5, CHR 0x86, CHR 0x85, CHR 0xE5, CHR 0xAE, CHR 0xB9]
      @ [CHR 0xE8, CHR 0xAF, CHR 0xB7, CHR 0xE6, CHR 0x9F, CHR 0xA5, CHR 0xE7, CHR 0x9C, CHR 0x8B, CHR 0xE6, CHR 0x9C, CHR 0xAC]
      @ [CHR 0xE5, CHR 0x9C, CHR 0xB0, CHR 0xE8, CHR 0xAE, CHR 0xB0, CHR 0xE5, CHR 0xBD, CHR 0x95]
      @ '']'')
      else [nl] @ ''...[Report truncated, see local record for full content]'')"

definition FormatReportDescription :: "string \<Rightarrow> string \<Rightarrow> DiagnoseRecord \<Rightarrow> string \<Rightarrow> string \<Rightarrow> string" where
  "FormatReportDescription created filePath r report language =
     (let header = formatHeader created r language;
          footer = formatFooter filePath r language;
          overhead = int (length header) + int (length footer)
      in if overhead \<ge> maxDescriptionBytes then TruncateUTF8 header maxDescriptionBytes
         else
           let truncSuffix = truncSuffixText language;
               budget = maxDescriptionBytes - overhead;
               body = (if int (length report) > budget then
                         (if budget > int (length truncSuffix)
                          then TruncateUTF8 report (budget - int (length truncSuffix)) @ truncSuffix
                          else TruncateUTF8 report budget)
                       else report)
           in header @ body @ footer)"

definition FormatReportComment :: "DiagnoseRecord \<Rightarrow> string \<Rightarrow> string \<Rightarrow> string" where
  "FormatReportComment r report language =
     (let body = trim_space report;
          body = (if body = [] then formatEmptyComment language else body);
          footer = formatCommentFooter r language;
          truncSuffix = formatCommentTruncSuffix language;
          footerRunes = int (RuneCountInString footer)
      in if footerRunes \<ge> maxCommentChars then TruncateRunes footer maxCommentChars
         else
           let budget = maxCommentChars - footerRunes;
               suffixRunes = int (RuneCountInString truncSuffix);
               body = (if int (RuneCountInString body) > budget then
                         (if budget > suffixRunes then TruncateRunes body (budget - suffixRunes) @ truncSuffix
                          else TruncateRunes body budget)
                       else body)
           in body @ footer)"

section \<open>Counting runes of a concatenation\<close>

text \<open>A continuation byte on its own decodes as one invalid rune.\<close>

lemma decode_cont_byte: "\<not> RuneStart c \<Longrightarrow> decode_rune (c # cs) = (RuneError, 1)"
  by (simp add: RuneStart_def first_info_def Let_def)

lemma count_cont_prefix:
  "list_all (\<lambda>c. \<not> RuneStart c) b \<Longrightarrow>
   RuneCountInString (b @ s) = length b + RuneCountInString s"
proof (induction b)
  case Nil
  then show ?case by simp
next
  case (Cons c b)
  then have "runes ((c # b) @ s) = RuneError # runes (b @ s)"
    by (subst runes.simps) (simp add: decode_cont_byte del: decode_rune.simps)
  then show ?case using Cons by (simp add: RuneCountInString_def)
qed

text \<open>Only a rune cut off at the end of the first string can be completed by the second.\<close>

lemma RuneCount_append: "RuneCountInString (a @ b) \<le> RuneCountInString a + RuneCountInString b"
proof (induction a rule: length_induct)
  case (1 a)
  show ?case
  proof (cases "a = []")
    case True
    then show ?thesis by simp
  next
    case False
    let ?w = "snd (decode_rune (a @ b))" and ?v = "snd (decode_rune a)"
    have w: "1 \<le> ?w" "?w \<le> length a + length b" using decode_rune_width [of "a @ b"] False by auto
    have v: "1 \<le> ?v" "?v \<le> length a" using decode_rune_width [OF False] by auto
    have split: "RuneCountInString (a @ b) = Suc (RuneCountInString (drop ?w (a @ b)))"
      using False runes.simps [of "a @ b"] by (simp add: RuneCountInString_def)
    have a_split: "RuneCountInString a = Suc (RuneCountInString (drop ?v a))"
      using False runes.simps [of a] by (simp add: RuneCountInString_def)
    show ?thesis
    proof (cases "?w \<le> length a")
      case True
      have "?v = ?w"
      proof (cases "decode_rune (a @ b) = (RuneError, 1)")
        case err: False
        then show ?thesis using decode_rune_take [OF err True] by simp
      next
        case True
        then have "decode_rune a = (RuneError, 1)" using decode_rune_append [of a b] False by auto
        then show ?thesis using True by simp
      qed
      then have "RuneCountInString (a @ b) = Suc (RuneCountInString (drop ?v a @ b))"
        using split v by simp
      also have "\<dots> \<le> Suc (RuneCountInString (drop ?v a) + RuneCountInString b)"
        using 1 [rule_format, of "drop ?v a"] v False by simp
      finally show ?thesis using a_split by simp
    next
      case False
      define k where "k = ?w - length a"
      have k: "?w = length a + k" "k \<le> length b" using False w by (auto simp: k_def)
      have cont: "\<not> RuneStart ((a @ b) ! i)" if "0 < i" "i < ?w" for i
        by (rule decode_rune_cont [OF that])
      have "list_all (\<lambda>c. \<not> RuneStart c) (take k b)"
        unfolding list_all_length
      proof (intro allI impI)
        fix i assume "i < length (take k b)"
        then show "\<not> RuneStart (take k b ! i)" using cont [of "length a + i"] k v
          by (cases a) simp_all
      qed
      then have "RuneCountInString b = length (take k b) + RuneCountInString (drop k b)"
        using count_cont_prefix [of "take k b" "drop k b"] by simp
      moreover have "RuneCountInString (a @ b) = Suc (RuneCountInString (drop k b))"
        using split k(1) by simp
      ultimately show ?thesis using a_split by simp
    qed
  qed
qed

lemma RuneCount_TruncateRunes: "0 \<le> n \<Longrightarrow> int (RuneCountInString (TruncateRunes s n)) \<le> n"
  by (auto simp: TruncateRunes_def RuneCountInString_def Let_def runes_string_of_runes)

lemma length_TruncateUTF8: "0 \<le> n \<Longrightarrow> int (length (TruncateUTF8 s n)) \<le> n"
  using trunc_pos_spec [of s "nat n"] by (auto simp: TruncateUTF8_def)

section \<open>Properties\<close>

text \<open>a notification description never exceeds 2048 bytes, whatever the record, the report and the
  language, and when header, report and footer fit together the report appears in full.\<close>

theorem description_within_limit:
  "int (length (FormatReportDescription created filePath r report language)) \<le> 2048 \<and>
   (length (formatHeader created r language) + length report + length (formatFooter filePath r language) \<le> 2048 \<and>
    report \<noteq> [] \<longrightarrow>
    FormatReportDescription created filePath r report language =
      formatHeader created r language @ report @ formatFooter filePath r language)"
  using length_TruncateUTF8 [of 2048 "formatHeader created r language"]
    length_TruncateUTF8 [of "2048 - (int (length (formatHeader created r language))
        + int (length (formatFooter filePath r language))) - int (length (truncSuffixText language))" report]
    length_TruncateUTF8 [of "2048 - (int (length (formatHeader created r language))
        + int (length (formatFooter filePath r language)))" report]
  by (cases report) (auto simp: FormatReportDescription_def Let_def maxDescriptionBytes_def)

text \<open>an alert comment never exceeds 1024 characters, even for text that is not valid UTF-8.\<close>

theorem comment_within_limit:
  "int (RuneCountInString (FormatReportComment r report language)) \<le> 1024"
proof -
  let ?f = "formatCommentFooter r language" and ?t = "formatCommentTruncSuffix language"
  let ?c = "\<lambda>s. int (RuneCountInString s)"
  have app: "?c (x @ y) \<le> ?c x + ?c y" for x y using RuneCount_append [of x y] by linarith
  show ?thesis
  proof (cases "?c ?f \<ge> 1024")
    case True
    then show ?thesis using RuneCount_TruncateRunes [of 1024 ?f]
      by (simp add: FormatReportComment_def Let_def maxCommentChars_def)
  next
    case False
    define body where "body = (if trim_space report = [] then formatEmptyComment language else trim_space report)"
    define b where "b = 1024 - ?c ?f"
    define cut where "cut = (if ?c body > b then
        (if b > ?c ?t then TruncateRunes body (b - ?c ?t) @ ?t else TruncateRunes body b) else body)"
    have "?c cut \<le> b"
      using app [of "TruncateRunes body (b - ?c ?t)" ?t] RuneCount_TruncateRunes [of "b - ?c ?t" body]
        RuneCount_TruncateRunes [of b body] False
      by (auto simp: cut_def b_def)
    moreover have "FormatReportComment r report language = cut @ ?f"
      using False unfolding FormatReportComment_def Let_def maxCommentChars_def body_def [symmetric]
      by (simp add: cut_def b_def)
    ultimately show ?thesis using app [of cut ?f] by (simp add: b_def)
  qed
qed

text \<open>the target part of a record's identifier, which becomes a file name, has the length of the target
  and consists of letters, digits, dashes and underscores only; a target that already does is kept
  as it is.\<close>

theorem sanitize_target_safe:
  "length (sanitizeTarget s) = length s \<and> list_all safe_char (sanitizeTarget s) \<and>
   (list_all safe_char s \<longrightarrow> sanitizeTarget s = s)"
  by (induction s) (auto simp: safe_char_def)

end
