(* ===== verification/Executor.thy ===== *)
theory Executor
  imports Registry Report
begin

text \<open>
  \<^verbatim>\<open>digcore/diagnose/executor.go\<close>: how a tool call of the model is parsed, routed through the registry and
  truncated. The JSON decoder is an argument; a decoded value of unknown type carries the text that
  \<^verbatim>\<open>strconv\<close>, \<^verbatim>\<open>json.Marshal\<close> or \<^verbatim>\<open>fmt.Sprint\<close> renders for it.
\<close>

section \<open>Arguments\<close>

datatype any_json =
    AnyNil
  | AnyFloat string
  | AnyComposite "string option" string
  | AnyScalar string

fun anyToString :: "any_json \<Rightarrow> string" where
  "anyToString AnyNil = []"
| "anyToString (AnyFloat s) = s"
| "anyToString (AnyComposite (Some b) s) = b"
| "anyToString (AnyComposite None s) = s"
| "anyToString (AnyScalar s) = s"

text \<open>Decoding into \<^verbatim>\<open>map[string]string\<close> and \<^verbatim>\<open>map[string]any\<close>: an error (\<open>None\<close>), a nil map for JSON null
  (\<open>Some None\<close>), or a map.\<close>

record json_decoder =
  jd_strings :: "string \<Rightarrow> (string, string) gomap option option"
  jd_any :: "string \<Rightarrow> (string, any_json) gomap option option"

definition unmarshalStringMap :: "json_decoder \<Rightarrow> string \<Rightarrow> (string, string) gomap option" where
  "unmarshalStringMap j raw =
     (case jd_strings j raw of
        Some m \<Rightarrow> m
      | None \<Rightarrow>
          (case jd_any j raw of
             None \<Rightarrow> None
           | Some anyMap \<Rightarrow> Some (map (\<lambda>(k, v). (k, anyToString v)) (nil_map anyMap))))"

definition ParseArgs :: "json_decoder \<Rightarrow> string \<Rightarrow> (string, string) gomap" where
  "ParseArgs j raw =
     (if raw = [] then []
      else case unmarshalStringMap j raw of None \<Rightarrow> [(''_raw'', raw)] | Some m \<Rightarrow> m)"

definition ParseToolArgs :: "json_decoder \<Rightarrow> string \<Rightarrow> tool_args" where
  "ParseToolArgs j raw =
     (if raw = [] then None
      else case unmarshalStringMap j raw of None \<Rightarrow> Some [(''_raw'', raw)] | Some m \<Rightarrow> Some m)"

section \<open>Routing\<close>

text \<open>The session a remote tool runs in: none, or one with an accessor that may be nil.\<close>

type_synonym session = "addr option option"

definition executeToolImpl :: "session \<Rightarrow> DiagnoseTool \<Rightarrow> tool_args \<Rightarrow> string + string" where
  "executeToolImpl session tool args =
     (if dt_Scope tool = ToolScopeLocal then
        (case dt_Execute tool of
           None \<Rightarrow> Inl (''tool '' @ dt_Name tool @ '' has no Execute function'')
         | Some f \<Rightarrow> f args)
      else
        case dt_RemoteExecute tool of
          None \<Rightarrow> Inl (''tool '' @ dt_Name tool @ '' has no RemoteExecute function'')
        | Some f \<Rightarrow>
            (case session of
               None \<Rightarrow> Inl (''no session available for remote tool '' @ dt_Name tool)
             | Some accessor \<Rightarrow> f accessor args))"

definition call_by_name :: "string \<Rightarrow> ToolRegistry \<Rightarrow> session \<Rightarrow> string \<Rightarrow> tool_args \<Rightarrow> string + string" where
  "call_by_name goos r session name args =
     (case reg_Get name r of
        None \<Rightarrow> Inl (''unknown tool: '' @ name)
      | Some tool \<Rightarrow>
          if \<not> ToolSupportedOn name goos r
          then Inl (''tool '' @ name @ '' is not supported on '' @ goos)
          else executeToolImpl session tool args)"

definition executeTool ::
    "json_decoder \<Rightarrow> (string \<Rightarrow> string) \<Rightarrow> string \<Rightarrow> ToolRegistry \<Rightarrow> session \<Rightarrow> string \<Rightarrow> string \<Rightarrow> string + string" where
  "executeTool j quote goos r session name rawArgs =
     (let args = ParseArgs j rawArgs in
      if name = ''list_tool_categories'' then Inr (ListCategoriesForOS goos r)
      else if name = ''list_tools'' then
        (let category = m_str args ''category'' in
         if category = [] then Inl ''list_tools requires 'category' parameter''
         else Inr (ListToolsForOS quote category goos r))
      else if name = ''call_tool'' then
        (let toolName = m_str args ''name'' in
         if toolName = [] then Inl ''call_tool requires 'name' parameter''
         else call_by_name goos r session toolName (ParseToolArgs j (m_str args ''tool_args'')))
      else call_by_name goos r session name (Some args))"

section \<open>Display and truncation\<close>

definition FormatToolArgsDisplay :: "json_decoder \<Rightarrow> string \<Rightarrow> string \<Rightarrow> string" where
  "FormatToolArgsDisplay j name rawArgs =
     (let args = ParseArgs j rawArgs in
      if name = ''call_tool'' then
        (let toolName = m_str args ''name''; toolArgs = m_str args ''tool_args'' in
         if toolArgs \<noteq> [] \<and> toolArgs \<noteq> ''{}'' then toolName @ '' '' @ toolArgs else toolName)
      else if name = ''list_tools'' then m_str args ''category''
      else if name = ''exec_shell'' then
        (let cmd = m_str args ''command'' in
         if RuneCountInString cmd > 80 then string_of_runes (take 77 (runes cmd)) @ ''...'' else cmd)
      else [])"

definition maxToolOutputBytes :: int where "maxToolOutputBytes = 32 * 1024"
definition maxRecordResultBytes :: int where "maxRecordResultBytes = 64 * 1024"

definition TruncateOutput :: "string \<Rightarrow> string" where
  "TruncateOutput s =
     (if int (length s) \<le> maxToolOutputBytes then s
      else TruncateUTF8 s maxToolOutputBytes @ [nl] @ ''...[output truncated]'')"

definition TruncateForRecord :: "string \<Rightarrow> string" where
  "TruncateForRecord s =
     (if int (length s) \<le> maxRecordResultBytes then s
      else TruncateUTF8 s maxRecordResultBytes @ [nl] @ ''...[record truncated]'')"

section \<open>Properties\<close>

definition meta_tool_names :: "string list" where
  "meta_tool_names = [''list_tool_categories'', ''list_tools'', ''call_tool'']"

text \<open>C16: every tool offered to the model can be called by it: for a registry start-up can build, a tool
  in the set sent with the request whose name is not one of the meta tools is executed with the
  parsed arguments, directly and through \<^verbatim>\<open>call_tool\<close>, and the call reaches exactly that tool; a name
  that is not registered is answered with an error and runs nothing.\<close>

theorem offered_tools_execute:
  assumes "reg_reachable r" "t \<in> set (snd (buildToolSet descr r req))"
    "dt_Name t \<notin> set meta_tool_names"
  shows "executeTool j quote (rq_RuntimeOS req) r session (dt_Name t) raw =
           executeToolImpl session t (Some (ParseArgs j raw)) \<and>
         (m_str (ParseArgs j raw') ''name'' = dt_Name t \<and> dt_Name t \<noteq> [] \<longrightarrow>
            executeTool j quote (rq_RuntimeOS req) r session ''call_tool'' raw' =
            executeToolImpl session t (ParseToolArgs j (m_str (ParseArgs j raw') ''tool_args''))) \<and>
         (reg_Get name r = None \<and> name \<notin> set meta_tool_names \<longrightarrow>
            executeTool j quote (rq_RuntimeOS req) r session name raw = Inl (''unknown tool: '' @ name))"
proof -
  have inv: "reg_inv r" by (rule reachable_reg_inv [OF assms(1)])
  have off: "t \<in> set (ByPluginForOS (rq_Plugin req) (rq_RuntimeOS req) r)"
    using assms(2) by (simp add: buildToolSet_def Let_def)
  have "reg_Get (dt_Name t) r = Some t" "ToolSupportedOn (dt_Name t) (rq_RuntimeOS req) r"
    using registry.offered_found [OF inv off] registry.offered_supported [OF inv off] by auto
  then have "call_by_name (rq_RuntimeOS req) r session (dt_Name t) args = executeToolImpl session t args" for args
    by (simp add: call_by_name_def)
  then show ?thesis
    using assms(3)
    by (auto simp: executeTool_def meta_tool_names_def Let_def call_by_name_def [of _ _ _ name])
qed

definition sample_decoder :: json_decoder where
  "sample_decoder = \<lparr>jd_strings = (\<lambda>_. None), jd_any = (\<lambda>_. None)\<rparr>"

definition sample_request :: DiagnoseRequest where
  "sample_request = \<lparr>rq_Mode = [], rq_Events = [], rq_Plugin = ''disk'', rq_Target = ''/'',
     rq_RuntimeOS = ''linux'', rq_Checks = [], rq_InstanceRef = None, rq_Timeout = 0, rq_Cooldown = 0,
     rq_Descriptions = []\<rparr>"

theorem offered_tools_execute_witness:
  "executeTool sample_decoder (\<lambda>s. s) ''linux'' sample_registry None ''disk_usage'' [] = Inr ''ok''"
proof -
  have "sample_tool \<in> set (ByPluginForOS ''disk'' ''linux'' sample_registry)"
  proof -
    have "categorySupportsOS \<lparr>tg_Name = ''disk'', tg_Plugin = ''disk'', tg_Description = ''Linux only.'',
        tg_Scope = ToolScopeLocal, tg_Tools = [sample_tool]\<rparr> ''linux''"
      by code_simp
    then show ?thesis
      by (simp add: ByPluginForOS_def sample_registry_def reg_Register_def RegisterCategory_def
          NewToolRegistry_def m_set_def SupportsOS_def sample_tool_def)
  qed
  then have "sample_tool \<in> set (snd (buildToolSet (\<lambda>s. s) sample_registry sample_request))"
    by (simp add: buildToolSet_def sample_request_def Let_def)
  from offered_tools_execute [OF sample_registry_reachable this, of sample_decoder "\<lambda>s. s" None "[]"]
  show ?thesis
    by (simp add: meta_tool_names_def sample_tool_def executeToolImpl_def sample_request_def)
qed

text \<open>tool output sent to the model is bounded by 32 KiB and the marker, not by 32 KiB: a longer
  output is cut at a rune boundary to at most 32768 bytes, and the marker of 22 bytes comes on top,
  so the bound in the comment is exceeded when the cut falls on a boundary.\<close>

theorem tool_output_bound:
  "int (length (TruncateOutput s)) \<le> maxToolOutputBytes + 22 \<and>
   (int (length s) \<le> maxToolOutputBytes \<longrightarrow> TruncateOutput s = s) \<and>
   (maxToolOutputBytes < int (length s) \<and> RuneStart (s ! 32768) \<longrightarrow>
      int (length (TruncateOutput s)) = maxToolOutputBytes + 22)"
proof -
  have "trunc_pos s 32768 = 32768" if "RuneStart (s ! 32768)"
    using that trunc_pos_at [of 32768 s] by simp
  then show ?thesis
    using length_TruncateUTF8 [of maxToolOutputBytes s]
    by (auto simp: TruncateOutput_def maxToolOutputBytes_def TruncateUTF8_def)
qed

end
