(* ===== verification/Config.thy ===== *)
theory Config
  imports Prelude "HOL-Library.Multiset"
begin

text \<open>
  \<^verbatim>\<open>digcore/config/config.go\<close>, \<^verbatim>\<open>server_config.go\<close>, \<^verbatim>\<open>mcp_config.go\<close> and \<^verbatim>\<open>digcore/pkg/cfg/cfg.go\<close>: the
  configuration records, their defaults, the resolution of \<^verbatim>\<open>${ENV}\<close> references, the validation of the
  AI section, the identity labels with their one-minute cache, and the order in which configuration
  files are applied. The process environment (\<^verbatim>\<open>os.Getenv\<close>), host detection, the clock, URL parsing and
  the third-party loader are arguments. \<^verbatim>\<open>os.Expand\<close> is modelled as the standard library defines it.
\<close>

section \<open>os.Expand\<close>

type_synonym getenv = "string \<Rightarrow> string"

definition isShellSpecialVar :: "char \<Rightarrow> bool" where
  "isShellSpecialVar c \<longleftrightarrow> c \<in> set ''*#$@!?-0123456789''"

definition isAlphaNum :: "char \<Rightarrow> bool" where
  "isAlphaNum c \<longleftrightarrow> c = CHR ''_'' \<or>
     (let n = of_char c :: nat in 48 \<le> n \<and> n \<le> 57 \<or> 97 \<le> n \<and> n \<le> 122 \<or> 65 \<le> n \<and> n \<le> 90)"

text \<open>The variable name after a dollar sign, and how many bytes it takes.\<close>

definition getShellName :: "string \<Rightarrow> string \<times> nat" where
  "getShellName s =
     (if s ! 0 = CHR ''{'' then
        (if length s > 2 \<and> isShellSpecialVar (s ! 1) \<and> s ! 2 = CHR ''}'' then ([s ! 1], 3)
         else
           let name = takeWhile (\<lambda>c. c \<noteq> CHR ''}'') (drop 1 s) in
           if length name + 1 < length s
           then (if name = [] then ([], 2) else (name, length name + 2))
           else ([], 1))
      else if isShellSpecialVar (s ! 0) then ([s ! 0], 1)
      else let name = takeWhile isAlphaNum s in (name, length name))"

function os_Expand :: "(string \<Rightarrow> string) \<Rightarrow> string \<Rightarrow> string" where
  "os_Expand mapping [] = []"
| "os_Expand mapping (c # cs) =
     (if c = CHR ''$'' \<and> cs \<noteq> [] then
        (let (name, w) = getShellName cs in
         (if name = [] \<and> w > 0 then [] else if name = [] then [c] else mapping name)
           @ os_Expand mapping (drop w cs))
      else c # os_Expand mapping cs)"
  by pat_completeness auto
termination by (relation "measure (\<lambda>(m, s). length s)") auto

definition contains_dollar :: "string \<Rightarrow> bool" where
  "contains_dollar s \<longleftrightarrow> CHR ''$'' \<in> set s"

section \<open>Models, gateway and AI section\<close>

text \<open>A value of \<^verbatim>\<open>map[string]interface{}\<close>: a string, or something else.\<close>

datatype any_val = AnyStr string | AnyOther nat

record ModelConfig =
  mc_Provider :: string
  mc_BaseURL :: string
  mc_APIKey :: string
  mc_Model :: string
  mc_MaxTokens :: int
  mc_MaxCompletionTokens :: int
  mc_ContextWindow :: int
  mc_ExtraBody :: "(string, any_val) gomap option"

record GatewayConfig =
  gw_Enabled :: bool
  gw_BaseURL :: string
  gw_AgentToken :: string
  gw_RequestTimeout :: duration
  gw_MaxRetries :: int
  gw_FallbackToDirect :: bool

record AIConfig =
  ac_Enabled :: bool
  ac_ModelPriority :: "string list"
  ac_Models :: "(string, ModelConfig) gomap"
  ac_Gateway :: GatewayConfig
  ac_MaxRounds :: int
  ac_RequestTimeout :: duration
  ac_MaxRetries :: int
  ac_RetryBackoff :: duration
  ac_MaxConcurrentDiagnoses :: int
  ac_QueueFullPolicy :: string
  ac_DailyTokenLimit :: int
  ac_ToolTimeout :: duration
  ac_AggregateWindow :: duration
  ac_DiagnoseRetention :: duration
  ac_DiagnoseMaxCount :: int
  ac_Language :: string

definition ExtraStr :: "ModelConfig \<Rightarrow> string \<Rightarrow> string" where
  "ExtraStr m key =
     (case mc_ExtraBody m of
        None \<Rightarrow> []
      | Some extra \<Rightarrow> (case map_of extra key of Some (AnyStr s) \<Rightarrow> s | _ \<Rightarrow> []))"

definition zero_model :: ModelConfig where
  "zero_model = \<lparr>mc_Provider = [], mc_BaseURL = [], mc_APIKey = [], mc_Model = [], mc_MaxTokens = 0,
     mc_MaxCompletionTokens = 0, mc_ContextWindow = 0, mc_ExtraBody = None\<rparr>"

definition model_at :: "AIConfig \<Rightarrow> string \<Rightarrow> ModelConfig" where
  "model_at c name = (case map_of (ac_Models c) name of Some m \<Rightarrow> m | None \<Rightarrow> zero_model)"

definition PrimaryModel :: "AIConfig \<Rightarrow> ModelConfig" where
  "PrimaryModel c =
     (if length (ac_ModelPriority c) = 0 \<or> length (ac_Models c) = 0 then zero_model
      else model_at c (ac_ModelPriority c ! 0))"

definition PrimaryModelName :: "AIConfig \<Rightarrow> string" where
  "PrimaryModelName c =
     (if length (ac_ModelPriority c) = 0 \<or> length (ac_Models c) = 0 then []
      else ac_ModelPriority c ! 0)"

definition ContextWindowLimit :: "AIConfig \<Rightarrow> int" where
  "ContextWindowLimit c =
     (if length (ac_ModelPriority c) = 0 \<or> length (ac_Models c) = 0 then 0
      else
        let cw = mc_ContextWindow (PrimaryModel c);
            cw = (if cw \<le> 0 then 128000 else cw)
        in i64 (cw * 80) sdiv 100)"

definition model_defaults :: "ModelConfig \<Rightarrow> ModelConfig" where
  "model_defaults m =
     (let m = (if mc_MaxTokens m \<le> 0 \<and> mc_MaxCompletionTokens m \<le> 0
               then m\<lparr>mc_MaxTokens := 4000\<rparr> else m)
      in if mc_ContextWindow m \<le> 0 then m\<lparr>mc_ContextWindow := 128000\<rparr> else m)"

definition Hour :: duration where "Hour = 3600 * Second"

definition gateway_defaults :: "GatewayConfig \<Rightarrow> GatewayConfig" where
  "gateway_defaults g =
     g\<lparr>gw_RequestTimeout := (if gw_RequestTimeout g = 0 then 30 * Second else gw_RequestTimeout g),
       gw_MaxRetries := (if gw_Enabled g \<and> gw_MaxRetries g = 0 then 1 else gw_MaxRetries g)\<rparr>"

text \<open>Each field is set from its own old value, so the assignments are one record update.\<close>

definition ai_applyDefaults :: "AIConfig \<Rightarrow> AIConfig" where
  "ai_applyDefaults c =
     c\<lparr>ac_Gateway := gateway_defaults (ac_Gateway c),
       ac_MaxRounds := (if ac_MaxRounds c \<le> 0 then 15 else ac_MaxRounds c),
       ac_RequestTimeout := (if ac_RequestTimeout c = 0 then 60 * Second else ac_RequestTimeout c),
       ac_MaxRetries := (if ac_MaxRetries c = 0 \<and> ac_Enabled c then 2 else ac_MaxRetries c),
       ac_RetryBackoff := (if ac_RetryBackoff c = 0 then 2 * Second else ac_RetryBackoff c),
       ac_MaxConcurrentDiagnoses :=
         (if ac_MaxConcurrentDiagnoses c \<le> 0 then 3 else ac_MaxConcurrentDiagnoses c),
       ac_QueueFullPolicy := (if ac_QueueFullPolicy c = [] then ''drop'' else ac_QueueFullPolicy c),
       ac_ToolTimeout := (if ac_ToolTimeout c = 0 then 10 * Second else ac_ToolTimeout c),
       ac_AggregateWindow := (if ac_AggregateWindow c = 0 then 2 * Second else ac_AggregateWindow c),
       ac_DiagnoseRetention :=
         (if ac_DiagnoseRetention c = 0 then 7 * 24 * Hour else ac_DiagnoseRetention c),
       ac_DiagnoseMaxCount := (if ac_DiagnoseMaxCount c \<le> 0 then 1000 else ac_DiagnoseMaxCount c),
       ac_Language := (if ac_Language c = [] then ''zh'' else ac_Language c),
       ac_Models := map (\<lambda>(name, m). (name, model_defaults m)) (ac_Models c)\<rparr>"

text \<open>\<^verbatim>\<open>${NAME}\<close> as a whole value is read from the environment.\<close>

definition is_env_ref :: "string \<Rightarrow> bool" where
  "is_env_ref val \<longleftrightarrow> take 2 val = ''${'' \<and> val \<noteq> [] \<and> last val = CHR ''}''"

definition resolveEnvRef :: "getenv \<Rightarrow> string \<Rightarrow> string" where
  "resolveEnvRef env val =
     (if is_env_ref val then env (take (length val - 3) (drop 2 val)) else val)"

definition setExtraDefault :: "getenv \<Rightarrow> string \<Rightarrow> string \<Rightarrow> (string, any_val) gomap \<Rightarrow> (string, any_val) gomap" where
  "setExtraDefault env key envVar extra =
     (case map_of extra key of
        Some (AnyStr s) \<Rightarrow>
          if s \<noteq> [] then extra
          else if env envVar \<noteq> [] then m_set key (AnyStr (env envVar)) extra else extra
      | _ \<Rightarrow> if env envVar \<noteq> [] then m_set key (AnyStr (env envVar)) extra else extra)"

fun resolve_any :: "getenv \<Rightarrow> any_val \<Rightarrow> any_val" where
  "resolve_any env (AnyStr s) = AnyStr (resolveEnvRef env s)"
| "resolve_any env (AnyOther n) = AnyOther n"

definition resolve_model :: "getenv \<Rightarrow> ModelConfig \<Rightarrow> ModelConfig" where
  "resolve_model env m =
     (let m = m\<lparr>mc_APIKey := resolveEnvRef env (mc_APIKey m)\<rparr>;
          m = m\<lparr>mc_ExtraBody := map_option (map (\<lambda>(k, v). (k, resolve_any env v))) (mc_ExtraBody m)\<rparr>
      in if mc_Provider m = ''bedrock'' then
           let e = (case mc_ExtraBody m of None \<Rightarrow> [] | Some e \<Rightarrow> e);
               e = setExtraDefault env ''aws_access_key_id'' ''AWS_ACCESS_KEY_ID'' e;
               e = setExtraDefault env ''aws_secret_access_key'' ''AWS_SECRET_ACCESS_KEY'' e;
               e = setExtraDefault env ''aws_session_token'' ''AWS_SESSION_TOKEN'' e
           in m\<lparr>mc_ExtraBody := Some e\<rparr>
         else m)"

definition trim_slashes :: "string \<Rightarrow> string" where
  "trim_slashes s = trim_right (\<lambda>c. c = CHR ''/'') s"

definition resolveAPIKeys :: "getenv \<Rightarrow> AIConfig \<Rightarrow> AIConfig" where
  "resolveAPIKeys env c =
     (let g = ac_Gateway c;
          g = g\<lparr>gw_AgentToken := resolveEnvRef env (gw_AgentToken g)\<rparr>;
          g = (if gw_BaseURL g \<noteq> [] then g\<lparr>gw_BaseURL := trim_slashes (gw_BaseURL g)\<rparr> else g)
      in c\<lparr>ac_Gateway := g,
           ac_Models := map (\<lambda>(name, m). (name, resolve_model env m)) (ac_Models c)\<rparr>)"

text \<open>The errors \<^verbatim>\<open>Validate\<close> reports, one constructor per message.\<close>

datatype ai_config_error =
    GatewayBaseURLRequired
  | GatewayMaxRetriesRange int
  | ModelPriorityRequired
  | NoModels
  | UnknownModel string
  | BedrockModelRequired string
  | BedrockRegionRequired string
  | BaseURLRequired string
  | APIKeyRequired string
  | BadQueueFullPolicy string

fun validate_models :: "AIConfig \<Rightarrow> string list \<Rightarrow> ai_config_error option" where
  "validate_models c [] = None"
| "validate_models c (name # names) =
     (case map_of (ac_Models c) name of
        None \<Rightarrow> Some (UnknownModel name)
      | Some m \<Rightarrow>
          if mc_Provider m = ''bedrock'' then
            (if mc_Model m = [] then Some (BedrockModelRequired name)
             else if ExtraStr m ''aws_region'' = [] then Some (BedrockRegionRequired name)
             else validate_models c names)
          else
            (if mc_BaseURL m = [] then Some (BaseURLRequired name)
             else if mc_APIKey m = [] then Some (APIKeyRequired name)
             else validate_models c names))"

definition Validate :: "AIConfig \<Rightarrow> ai_config_error option" where
  "Validate c =
     (if \<not> ac_Enabled c then None
      else
        let g = ac_Gateway c;
            hasLocalModels = length (ac_Models c) > 0;
            requireLocalModels = (\<not> gw_Enabled g \<or> gw_FallbackToDirect g \<or> hasLocalModels);
            queue_check = (if ac_QueueFullPolicy c \<noteq> ''drop'' \<and> ac_QueueFullPolicy c \<noteq> ''wait''
                           then Some (BadQueueFullPolicy (ac_QueueFullPolicy c)) else None)
        in if gw_Enabled g \<and> gw_BaseURL g = [] then Some GatewayBaseURLRequired
           else if gw_Enabled g \<and> (gw_MaxRetries g < 0 \<or> gw_MaxRetries g > 2)
           then Some (GatewayMaxRetriesRange (gw_MaxRetries g))
           else if requireLocalModels then
             (if length (ac_ModelPriority c) = 0 then Some ModelPriorityRequired
              else if length (ac_Models c) = 0 then Some NoModels
              else (case validate_models c (ac_ModelPriority c) of
                      Some e \<Rightarrow> Some e
                    | None \<Rightarrow> queue_check))
           else queue_check)"

section \<open>Notification defaults\<close>

record FlashdutyConfig =
  fdc_IntegrationKey :: string
  fdc_BaseUrl :: string
  fdc_Timeout :: duration
  fdc_MaxRetries :: int

record PagerDutyConfig =
  pdc_RoutingKey :: string
  pdc_BaseUrl :: string
  pdc_SeverityMap :: "(string, string) gomap option"
  pdc_Timeout :: duration
  pdc_MaxRetries :: int

record WebAPIConfig =
  wac_URL :: string
  wac_Method :: string
  wac_Headers :: "(string, string) gomap"
  wac_Timeout :: duration
  wac_MaxRetries :: int

record NotifyConfig =
  nc_Console :: "bool option"
  nc_Flashduty :: "FlashdutyConfig option"
  nc_PagerDuty :: "PagerDutyConfig option"
  nc_WebAPI :: "WebAPIConfig option"

definition flashduty_defaults :: "FlashdutyConfig \<Rightarrow> FlashdutyConfig" where
  "flashduty_defaults f =
     (let f = (if fdc_BaseUrl f = []
               then f\<lparr>fdc_BaseUrl := ''https://api.flashcat.cloud/event/push/alert/standard''\<rparr> else f);
          f = (if fdc_Timeout f = 0 then f\<lparr>fdc_Timeout := 10 * Second\<rparr> else f)
      in if fdc_MaxRetries f \<le> 0 then f\<lparr>fdc_MaxRetries := 1\<rparr> else f)"

definition pagerduty_defaults :: "PagerDutyConfig \<Rightarrow> PagerDutyConfig" where
  "pagerduty_defaults p =
     (let p = (if pdc_BaseUrl p = []
               then p\<lparr>pdc_BaseUrl := ''https://events.pagerduty.com/v2/enqueue''\<rparr> else p);
          p = (if pdc_Timeout p = 0 then p\<lparr>pdc_Timeout := 10 * Second\<rparr> else p);
          p = (if pdc_MaxRetries p \<le> 0 then p\<lparr>pdc_MaxRetries := 1\<rparr> else p)
      in if pdc_SeverityMap p = None
         then p\<lparr>pdc_SeverityMap := Some [(''Critical'', ''critical''), (''Warning'', ''warning''),
                                         (''Info'', ''info'')]\<rparr>
         else p)"

definition webapi_defaults :: "getenv \<Rightarrow> WebAPIConfig \<Rightarrow> WebAPIConfig" where
  "webapi_defaults env w =
     (let method = map upper_char (wac_Method w);
          method = (if method \<noteq> ''PUT'' then ''POST'' else method);
          w = w\<lparr>wac_Method := method\<rparr>;
          w = (if wac_Timeout w = 0 then w\<lparr>wac_Timeout := 10 * Second\<rparr> else w);
          w = (if wac_MaxRetries w \<le> 0 then w\<lparr>wac_MaxRetries := 1\<rparr> else w)
      in w\<lparr>wac_Headers := map (\<lambda>(k, v). (k, os_Expand env v)) (wac_Headers w)\<rparr>)"

definition notify_applyDefaults :: "getenv \<Rightarrow> NotifyConfig \<Rightarrow> NotifyConfig" where
  "notify_applyDefaults env c =
     c\<lparr>nc_Flashduty := map_option flashduty_defaults (nc_Flashduty c),
       nc_PagerDuty := map_option pagerduty_defaults (nc_PagerDuty c),
       nc_WebAPI := map_option (webapi_defaults env) (nc_WebAPI c)\<rparr>"

section \<open>The server section\<close>

record ServerConfig =
  sc_Enabled :: bool
  sc_Address :: string
  sc_AgentToken :: string
  sc_CAFile :: string
  sc_TLSSkipVerify :: bool
  sc_AlertBufferSize :: int

definition GetAlertBufferSize :: "ServerConfig \<Rightarrow> int" where
  "GetAlertBufferSize c = (if sc_AlertBufferSize c \<le> 0 then 1000 else sc_AlertBufferSize c)"

definition server_resolve :: "getenv \<Rightarrow> ServerConfig \<Rightarrow> ServerConfig" where
  "server_resolve env c =
     (let c = c\<lparr>sc_Address := resolveEnvRef env (sc_Address c)\<rparr>;
          c = c\<lparr>sc_AgentToken := resolveEnvRef env (sc_AgentToken c)\<rparr>
      in c\<lparr>sc_Address := trim_slashes (trim_space (sc_Address c))\<rparr>)"

text \<open>The parts of a parsed URL; \<^verbatim>\<open>url.Parse\<close> and \<^verbatim>\<open>URL.String\<close> are arguments.\<close>

record url =
  url_Scheme :: string
  url_Host :: string
  url_Path :: string
  url_RawPath :: string
  url_RawQuery :: string
  url_Fragment :: string

datatype url_error = ParseError string | NotAbsolute | BadScheme string | HasPath string

definition contains_sub :: "string \<Rightarrow> string \<Rightarrow> bool" where
  "contains_sub s needle \<longleftrightarrow> sublist needle s"

definition strip_url :: "string \<Rightarrow> url \<Rightarrow> url" where
  "strip_url path u = u\<lparr>url_Path := path, url_RawPath := [], url_RawQuery := [], url_Fragment := []\<rparr>"

definition deriveServerBaseURL :: "(string \<Rightarrow> string + url) \<Rightarrow> (url \<Rightarrow> string) \<Rightarrow> string \<Rightarrow> url_error + string" where
  "deriveServerBaseURL parse render address =
     (let raw = trim_space address in
      if raw = [] then Inr []
      else
        let raw = (if \<not> contains_sub raw ''://'' then ''http://'' @ raw else raw) in
        case parse raw of
          Inl err \<Rightarrow> Inl (ParseError err)
        | Inr parsed \<Rightarrow>
            if url_Scheme parsed = [] \<or> url_Host parsed = [] then Inl NotAbsolute
            else
              let scheme = url_Scheme parsed in
              if scheme \<notin> {''http'', ''https'', ''ws'', ''wss''} then Inl (BadScheme scheme)
              else
                let parsed = parsed\<lparr>url_Scheme := (if scheme = ''ws'' then ''http''
                                                  else if scheme = ''wss'' then ''https'' else scheme)\<rparr>
                in if url_Path parsed \<noteq> [] \<and> url_Path parsed \<noteq> ''/'' then Inl (HasPath (url_Path parsed))
                   else Inr (trim_slashes (render (strip_url [] parsed))))"

definition WebSocketURL :: "(string \<Rightarrow> string + url) \<Rightarrow> (url \<Rightarrow> string) \<Rightarrow> ServerConfig \<Rightarrow> url_error + string" where
  "WebSocketURL parse render c =
     (case deriveServerBaseURL parse render (sc_Address c) of
        Inl err \<Rightarrow> Inl err
      | Inr baseURL \<Rightarrow>
          (case parse baseURL of
             Inl err \<Rightarrow> Inl (ParseError err)
           | Inr parsed \<Rightarrow>
               if url_Scheme parsed = ''http''
               then Inr (render (strip_url ''/api/v1/agent/ws'' (parsed\<lparr>url_Scheme := ''ws''\<rparr>)))
               else if url_Scheme parsed = ''https''
               then Inr (render (strip_url ''/api/v1/agent/ws'' (parsed\<lparr>url_Scheme := ''wss''\<rparr>)))
               else Inl (BadScheme (url_Scheme parsed))))"

definition GatewayBaseURL :: "(string \<Rightarrow> string + url) \<Rightarrow> (url \<Rightarrow> string) \<Rightarrow> ServerConfig \<Rightarrow> url_error + string" where
  "GatewayBaseURL parse render c =
     (case deriveServerBaseURL parse render (sc_Address c) of
        Inl err \<Rightarrow> Inl err
      | Inr baseURL \<Rightarrow>
          (case parse baseURL of
             Inl err \<Rightarrow> Inl (ParseError err)
           | Inr parsed \<Rightarrow> Inr (trim_slashes (render (strip_url ''/api/v1/agent/llm'' parsed)))))"

definition resolveGatewayConfig ::
    "(string \<Rightarrow> string + url) \<Rightarrow> (url \<Rightarrow> string) \<Rightarrow> ServerConfig \<Rightarrow> AIConfig \<Rightarrow> url_error + AIConfig" where
  "resolveGatewayConfig parse render srv ai =
     (let g = ac_Gateway ai in
      if \<not> gw_Enabled g then Inr ai
      else
        let g = (if gw_AgentToken g = [] then g\<lparr>gw_AgentToken := sc_AgentToken srv\<rparr> else g) in
        if gw_BaseURL g \<noteq> []
        then Inr (ai\<lparr>ac_Gateway := g\<lparr>gw_BaseURL := trim_slashes (gw_BaseURL g)\<rparr>\<rparr>)
        else if sc_Address srv = [] then Inr (ai\<lparr>ac_Gateway := g\<rparr>)
        else case GatewayBaseURL parse render srv of
               Inl err \<Rightarrow> Inl err
             | Inr derived \<Rightarrow> Inr (ai\<lparr>ac_Gateway := g\<lparr>gw_BaseURL := derived\<rparr>\<rparr>))"

section \<open>Labels and host identity\<close>

definition requiredGlobalLabels :: "string list" where
  "requiredGlobalLabels = [''from_hostname'', ''from_hostip'']"

definition validateRequiredLabels :: "(string, string) gomap \<Rightarrow> string option" where
  "validateRequiredLabels labels =
     find (\<lambda>key. case map_of labels key of None \<Rightarrow> True | Some v \<Rightarrow> v = []) requiredGlobalLabels"

definition ExpandWithBuiltins :: "getenv \<Rightarrow> (string, string) gomap \<Rightarrow> string \<Rightarrow> string" where
  "ExpandWithBuiltins env builtins raw =
     os_Expand (\<lambda>key. case map_of builtins key of Some v \<Rightarrow> v | None \<Rightarrow> env key) raw"

definition HostBuiltinsWithoutIP :: "string \<Rightarrow> (string, string) gomap" where
  "HostBuiltinsWithoutIP hostname =
     (let idx = length (takeWhile (\<lambda>c. c \<noteq> CHR ''.'') hostname);
          short = (if 0 < idx \<and> idx < length hostname then take idx hostname else hostname)
      in [(''HOSTNAME'', hostname), (''SHORT_HOSTNAME'', short)])"

definition needsAutoDetect :: "getenv \<Rightarrow> string \<Rightarrow> string \<Rightarrow> bool" where
  "needsAutoDetect env raw varName =
     (if \<not> contains_dollar raw then False
      else if \<not> contains_sub raw (''${'' @ varName @ ''}'') \<and> \<not> contains_sub raw (CHR ''$'' # varName)
      then False
      else env varName = [])"

text \<open>\<^verbatim>\<open>resolveConfiguredHostname\<close> and \<^verbatim>\<open>resolveConfiguredHostIP\<close>, for their variable and detector.\<close>

definition resolve_host_var :: "getenv \<Rightarrow> string \<Rightarrow> string \<Rightarrow> string \<Rightarrow> (string, string) gomap \<Rightarrow> string" where
  "resolve_host_var env varName detect raw builtins =
     (if raw = [] \<or> \<not> contains_dollar raw then raw
      else os_Expand
        (\<lambda>key.
           if key = varName then
             (if env key \<noteq> [] then env key
              else case map_of builtins key of
                     Some v \<Rightarrow> if v \<noteq> [] then v else detect
                   | None \<Rightarrow> detect)
           else case map_of builtins key of Some v \<Rightarrow> v | None \<Rightarrow> env key)
        raw)"

definition resolveConfiguredHostname :: "getenv \<Rightarrow> string \<Rightarrow> string \<Rightarrow> (string, string) gomap \<Rightarrow> string" where
  "resolveConfiguredHostname env detectHostname raw builtins =
     resolve_host_var env ''HOSTNAME'' detectHostname raw builtins"

definition resolveConfiguredHostIP :: "getenv \<Rightarrow> string \<Rightarrow> string \<Rightarrow> (string, string) gomap \<Rightarrow> string" where
  "resolveConfiguredHostIP env detectIP raw builtins =
     resolve_host_var env ''IP'' detectIP raw builtins"

text \<open>The package variables behind \<^verbatim>\<open>AgentIP\<close> and \<^verbatim>\<open>AgentHostname\<close>; times are in nanoseconds.\<close>

record ident =
  ipAutoDetect :: bool
  ipCached :: string
  ipCachedAt :: int
  hostAutoDetect :: bool
  hostCached :: string
  hostCachedAt :: int

definition expandLabels :: "getenv \<Rightarrow> (string, string) gomap \<Rightarrow> (string, string) gomap \<Rightarrow> (string, string) gomap" where
  "expandLabels env builtins labels =
     map (\<lambda>(k, v). (k, if contains_dollar v then ExpandWithBuiltins env builtins v else v)) labels"

definition resolveGlobalLabels ::
    "getenv \<Rightarrow> string \<Rightarrow> string \<Rightarrow> int \<Rightarrow> (string, string) gomap \<Rightarrow> (string, string) gomap \<Rightarrow> ident \<Rightarrow>
     (string, string) gomap \<times> ident" where
  "resolveGlobalLabels env detectHostname detectIP now labels builtins st =
     (let (labels, builtins, st) =
            (case map_of labels ''from_hostname'' of
               None \<Rightarrow> (labels, builtins, st)
             | Some raw \<Rightarrow>
                 let resolved = resolveConfiguredHostname env detectHostname raw builtins;
                     auto = needsAutoDetect env raw ''HOSTNAME'';
                     st = st\<lparr>hostAutoDetect := auto\<rparr>;
                     st = (if auto then st\<lparr>hostCached := resolved, hostCachedAt := now\<rparr> else st)
                 in if resolved \<noteq> []
                    then (m_set ''from_hostname'' resolved labels, m_set ''HOSTNAME'' resolved builtins, st)
                    else (labels, builtins, st));
          (labels, builtins, st) =
            (case map_of labels ''from_hostip'' of
               None \<Rightarrow> (labels, builtins, st)
             | Some raw \<Rightarrow>
                 let resolved = resolveConfiguredHostIP env detectIP raw builtins;
                     auto = needsAutoDetect env raw ''IP'';
                     st = st\<lparr>ipAutoDetect := auto\<rparr>;
                     st = (if auto then st\<lparr>ipCached := resolved, ipCachedAt := now\<rparr> else st)
                 in if resolved \<noteq> []
                    then (m_set ''from_hostip'' resolved labels, m_set ''IP'' resolved builtins, st)
                    else (labels, builtins, st))
      in (expandLabels env builtins labels, st))"

definition identCacheTTL :: duration where "identCacheTTL = 60 * Second"

definition AgentIP :: "string \<Rightarrow> int \<Rightarrow> (string, string) gomap option \<Rightarrow> ident \<Rightarrow> string \<times> ident" where
  "AgentIP detectIP now labels st =
     (let ip = (case labels of None \<Rightarrow> [] | Some l \<Rightarrow> trim_space (m_str l ''from_hostip'')) in
      if \<not> ipAutoDetect st \<and> ip \<noteq> [] then (ip, st)
      else if now - ipCachedAt st < identCacheTTL \<and> ipCached st \<noteq> [] then (ipCached st, st)
      else (detectIP, st\<lparr>ipCached := detectIP, ipCachedAt := now\<rparr>))"

definition AgentHostname :: "string \<Rightarrow> int \<Rightarrow> (string, string) gomap option \<Rightarrow> ident \<Rightarrow> string \<times> ident" where
  "AgentHostname detectHostname now labels st =
     (let h = (case labels of None \<Rightarrow> [] | Some l \<Rightarrow> trim_space (m_str l ''from_hostname'')) in
      if \<not> hostAutoDetect st \<and> h \<noteq> [] then (h, st)
      else if now - hostCachedAt st < identCacheTTL \<and> hostCached st \<noteq> [] then (hostCached st, st)
      else (detectHostname, st\<lparr>hostCached := detectHostname, hostCachedAt := now\<rparr>))"

definition AgentLabels ::
    "string \<Rightarrow> string \<Rightarrow> int \<Rightarrow> (string, string) gomap option \<Rightarrow> ident \<Rightarrow>
     (string, string) gomap option \<times> ident" where
  "AgentLabels detectHostname detectIP now labels st =
     (case labels of
        None \<Rightarrow> (None, st)
      | Some l \<Rightarrow>
          let (ip, st) = AgentIP detectIP now labels st;
              (h, st) = AgentHostname detectHostname now labels st
          in (Some (m_set ''from_hostname'' h (m_set ''from_hostip'' ip (m_copy l []))), st))"

section \<open>Configuration files\<close>

definition has_suffix :: "string \<Rightarrow> string \<Rightarrow> bool" where
  "has_suffix s suf \<longleftrightarrow> suffix suf s"

definition DefaultConfigFile :: string where "DefaultConfigFile = ''config.toml''"
definition LocalOverrideConfigFile :: string where "LocalOverrideConfigFile = ''config.local.toml''"

definition isLocalOverrideToml :: "string \<Rightarrow> bool" where
  "isLocalOverrideToml name \<longleftrightarrow> has_suffix (to_lower name) ''.local.toml''"

definition orderedConfigFiles :: "string list \<Rightarrow> string list" where
  "orderedConfigFiles files =
     (let files = sort files in
      filter (\<lambda>f. f = DefaultConfigFile) files
      @ filter (\<lambda>f. f \<noteq> DefaultConfigFile \<and> \<not> isLocalOverrideToml f) files
      @ filter (\<lambda>f. isLocalOverrideToml f \<and> f \<noteq> LocalOverrideConfigFile) files
      @ filter (\<lambda>f. f = LocalOverrideConfigFile) files)"

text \<open>The loaders in the order they are applied; a later one overrides an earlier one.\<close>

datatype loader = TagLoader | EnvironmentLoader | JSONLoader string | YAMLLoader string | TOMLLoader string

fun dir_loader :: "string \<Rightarrow> loader list" where
  "dir_loader f =
     (if has_suffix f ''.toml'' then []
      else if has_suffix f ''.json'' then [JSONLoader f]
      else if has_suffix f ''.yaml'' \<or> has_suffix f ''.yml'' then [YAMLLoader f] else [])"

definition LoadConfigByDir :: "string list \<Rightarrow> loader list" where
  "LoadConfigByDir files =
     (let files = sort files;
          tomlFiles = filter (\<lambda>f. has_suffix f ''.toml'') files
      in [TagLoader, EnvironmentLoader] @ concat (map dir_loader files)
         @ map TOMLLoader (orderedConfigFiles tomlFiles))"

section \<open>Start-up\<close>

record Global =
  gl_Interval :: duration
  gl_Labels :: "(string, string) gomap option"

record LogConfig =
  lc_Level :: string
  lc_Format :: string
  lc_Output :: string
  lc_Fields :: "(string, any_val) gomap option"

record ConfigType =
  cf_ConfigDir :: string
  cf_StateDir :: string
  cf_Plugins :: string
  cf_Loglevel :: string
  cf_Global :: Global
  cf_LogConfig :: LogConfig
  cf_Notify :: NotifyConfig
  cf_AI :: AIConfig
  cf_Server :: ServerConfig

datatype init_error =
    ConfigFileNotFound | LoadFailed string | ServerAddressRequired | GatewayError url_error
  | RequiredLabelMissing string

text \<open>What start-up asks of the outside world; \<open>ie_load\<close> is the third-party loader filling the record it
  is given, \<open>ie_stateDir\<close> the state directory beside the configuration directory.\<close>

record init_env =
  ie_exists :: bool
  ie_stateDir :: string
  ie_load :: "ConfigType \<Rightarrow> string + ConfigType"
  ie_getenv :: getenv
  ie_hostname :: string
  ie_detectIP :: string
  ie_now :: int
  ie_parse :: "string \<Rightarrow> string + url"
  ie_render :: "url \<Rightarrow> string"

definition default_global :: "int \<Rightarrow> Global \<Rightarrow> Global" where
  "default_global interval g =
     (let g = (if interval > 0 then g\<lparr>gl_Interval := i64 (Second * interval)\<rparr> else g)
      in if gl_Interval g = 0 then g\<lparr>gl_Interval := 30 * Second\<rparr> else g)"

definition default_log :: "string \<Rightarrow> LogConfig \<Rightarrow> LogConfig" where
  "default_log loglevel l =
     (let l = (if loglevel \<noteq> [] then l\<lparr>lc_Level := loglevel\<rparr> else l);
          l = (if lc_Level l = [] then l\<lparr>lc_Level := ''info''\<rparr> else l);
          l = (if lc_Format l = [] then l\<lparr>lc_Format := ''json''\<rparr> else l);
          l = (if length (lc_Output l) = 0 then l\<lparr>lc_Output := ''stdout''\<rparr> else l)
      in if lc_Fields l = None then l\<lparr>lc_Fields := Some []\<rparr> else l)"

text \<open>\<^verbatim>\<open>InitConfig\<close> after the files are loaded: defaults and resolution, then the checks.\<close>

definition init_defaults :: "init_env \<Rightarrow> int \<Rightarrow> ConfigType \<Rightarrow> ident \<Rightarrow> ConfigType \<times> ident" where
  "init_defaults e interval c st =
     (let g = default_global interval (cf_Global c);
          (labels, st) = resolveGlobalLabels (ie_getenv e) (ie_hostname e) (ie_detectIP e) (ie_now e)
                           (nil_map (gl_Labels g)) (HostBuiltinsWithoutIP (ie_hostname e)) st
      in (c\<lparr>cf_LogConfig := default_log (cf_Loglevel c) (cf_LogConfig c),
            cf_Notify := notify_applyDefaults (ie_getenv e) (cf_Notify c),
            cf_AI := resolveAPIKeys (ie_getenv e) (ai_applyDefaults (cf_AI c)),
            cf_Global := g\<lparr>gl_Labels := Some labels\<rparr>,
            cf_Server := server_resolve (ie_getenv e) (cf_Server c)\<rparr>, st))"

definition init_check :: "init_env \<Rightarrow> ConfigType \<Rightarrow> init_error + ConfigType" where
  "init_check e c =
     (if sc_Enabled (cf_Server c) \<and> sc_Address (cf_Server c) = [] then Inl ServerAddressRequired
      else
        case resolveGatewayConfig (ie_parse e) (ie_render e) (cf_Server c) (cf_AI c) of
          Inl err \<Rightarrow> Inl (GatewayError err)
        | Inr ai \<Rightarrow>
            if sc_Enabled (cf_Server c) then
              (case validateRequiredLabels (nil_map (gl_Labels (cf_Global c))) of
                 Some key \<Rightarrow> Inl (RequiredLabelMissing key)
               | None \<Rightarrow> Inr (c\<lparr>cf_AI := ai\<rparr>))
            else Inr (c\<lparr>cf_AI := ai\<rparr>))"

definition InitConfig ::
    "init_env \<Rightarrow> ConfigType \<Rightarrow> string \<Rightarrow> int \<Rightarrow> string \<Rightarrow> string \<Rightarrow> ident \<Rightarrow>
     init_error + ConfigType \<times> ident" where
  "InitConfig e zero configDir interval plugins loglevel st =
     (if \<not> ie_exists e then Inl ConfigFileNotFound
      else
        case ie_load e (zero\<lparr>cf_ConfigDir := configDir, cf_StateDir := ie_stateDir e,
                              cf_Plugins := plugins, cf_Loglevel := loglevel\<rparr>) of
          Inl err \<Rightarrow> Inl (LoadFailed err)
        | Inr c \<Rightarrow>
            let (c, st) = init_defaults e interval c st in
            case init_check e c of Inl err \<Rightarrow> Inl err | Inr c \<Rightarrow> Inr (c, st))"

section \<open>Lemmas\<close>

lemma model_defaults_idem: "model_defaults (model_defaults m) = model_defaults m"
  by (simp add: model_defaults_def Let_def)

lemma model_defaults_ok:
  "mc_ContextWindow (model_defaults m) > 0 \<and>
   (mc_MaxTokens (model_defaults m) > 0 \<or> mc_MaxCompletionTokens (model_defaults m) > 0)"
  by (auto simp: model_defaults_def Let_def)

text \<open>The defaults field by field.\<close>

lemma ai_applyDefaults_fields:
  "ac_Enabled (ai_applyDefaults c) = ac_Enabled c"
  "ac_ModelPriority (ai_applyDefaults c) = ac_ModelPriority c"
  "ac_Models (ai_applyDefaults c) = map (\<lambda>(n, m). (n, model_defaults m)) (ac_Models c)"
  "ac_MaxRounds (ai_applyDefaults c) = (if ac_MaxRounds c \<le> 0 then 15 else ac_MaxRounds c)"
  "ac_MaxRetries (ai_applyDefaults c) =
     (if ac_MaxRetries c = 0 \<and> ac_Enabled c then 2 else ac_MaxRetries c)"
  "ac_MaxConcurrentDiagnoses (ai_applyDefaults c) =
     (if ac_MaxConcurrentDiagnoses c \<le> 0 then 3 else ac_MaxConcurrentDiagnoses c)"
  "ac_QueueFullPolicy (ai_applyDefaults c) =
     (if ac_QueueFullPolicy c = [] then ''drop'' else ac_QueueFullPolicy c)"
  "ac_DiagnoseMaxCount (ai_applyDefaults c) =
     (if ac_DiagnoseMaxCount c \<le> 0 then 1000 else ac_DiagnoseMaxCount c)"
  by (simp_all add: ai_applyDefaults_def)

definition model_complete :: "ModelConfig \<Rightarrow> bool" where
  "model_complete m \<longleftrightarrow>
     (if mc_Provider m = ''bedrock'' then mc_Model m \<noteq> [] \<and> ExtraStr m ''aws_region'' \<noteq> []
      else mc_BaseURL m \<noteq> [] \<and> mc_APIKey m \<noteq> [])"

lemma validate_models_sound:
  "validate_models c names = None \<longleftrightarrow>
   (\<forall>n \<in> set names. \<exists>m. map_of (ac_Models c) n = Some m \<and> model_complete m)"
proof (induction names)
  case Nil
  then show ?case by simp
next
  case (Cons name names)
  show ?case
  proof (cases "map_of (ac_Models c) name")
    case None
    then show ?thesis by simp
  next
    case (Some m)
    then show ?thesis using Cons
      by (cases "mc_Provider m = ''bedrock''") (simp_all add: model_complete_def)
  qed
qed

lemma init_check_ok:
  assumes "init_check e c = Inr c'"
  shows "cf_Server c' = cf_Server c \<and> cf_Global c' = cf_Global c \<and> cf_LogConfig c' = cf_LogConfig c \<and>
    (sc_Enabled (cf_Server c) \<longrightarrow> sc_Address (cf_Server c) \<noteq> [] \<and>
       validateRequiredLabels (nil_map (gl_Labels (cf_Global c))) = None)"
  using assms by (auto simp: init_check_def split: sum.splits if_splits option.splits)

lemma default_log_level: "lc_Level (default_log loglevel l) \<noteq> []"
  by (simp add: default_log_def Let_def)

lemma default_global_interval: "gl_Interval (default_global interval g) \<noteq> 0"
  by (simp add: default_global_def Let_def)

lemma init_defaults_ok:
  assumes "init_defaults e interval c st = (c', st')"
  shows "gl_Interval (cf_Global c') \<noteq> 0 \<and> gl_Labels (cf_Global c') \<noteq> None \<and> lc_Level (cf_LogConfig c') \<noteq> []"
  using assms default_log_level default_global_interval
  by (auto simp: init_defaults_def Let_def case_prod_beta)

lemma required_labels_ok:
  "validateRequiredLabels labels = None \<longleftrightarrow>
   (\<forall>key \<in> {''from_hostname'', ''from_hostip''}. \<exists>v. map_of labels key = Some v \<and> v \<noteq> [])"
  by (auto simp: validateRequiredLabels_def requiredGlobalLabels_def split: option.splits)

lemma local_override_is_local: "isLocalOverrideToml LocalOverrideConfigFile"
  by code_simp

lemma default_not_local: "\<not> isLocalOverrideToml DefaultConfigFile"
  by code_simp

section \<open>Properties\<close>

text \<open>the defaults of the AI section are complete and stable: applying them a second time changes
  nothing, the round limit, the concurrency limit and the record limit are positive, every model
  has a positive context window and a completion limit, and no model or priority is lost.\<close>

theorem ai_defaults_complete:
  "ai_applyDefaults (ai_applyDefaults c) = ai_applyDefaults c \<and>
   ac_MaxRounds (ai_applyDefaults c) > 0 \<and> ac_MaxConcurrentDiagnoses (ai_applyDefaults c) > 0 \<and>
   ac_DiagnoseMaxCount (ai_applyDefaults c) > 0 \<and> ac_QueueFullPolicy (ai_applyDefaults c) \<noteq> [] \<and>
   ac_ModelPriority (ai_applyDefaults c) = ac_ModelPriority c \<and>
   (\<forall>name. map_of (ac_Models (ai_applyDefaults c)) name =
           map_option model_defaults (map_of (ac_Models c) name)) \<and>
   (\<forall>m. mc_ContextWindow (model_defaults m) > 0 \<and>
         (mc_MaxTokens (model_defaults m) > 0 \<or> mc_MaxCompletionTokens (model_defaults m) > 0))"
proof (intro conjI allI)
  show "ai_applyDefaults (ai_applyDefaults c) = ai_applyDefaults c"
  proof -
    have "map (\<lambda>(n, m). (n, model_defaults m)) (map (\<lambda>(n, m). (n, model_defaults m)) ms) =
          map (\<lambda>(n, m). (n, model_defaults m)) ms" for ms :: "(string \<times> ModelConfig) list"
      by (auto simp: model_defaults_idem)
    then show ?thesis by (simp add: ai_applyDefaults_def gateway_defaults_def Hour_def)
  qed
  show "map_of (ac_Models (ai_applyDefaults c)) name =
        map_option model_defaults (map_of (ac_Models c) name)" for name
    by (simp add: ai_applyDefaults_fields map_of_map)
qed (simp_all add: ai_applyDefaults_fields model_defaults_ok)

text \<open>a validated configuration cannot name a model that does not exist: when validation accepts
  an enabled AI section without a gateway, the priority list is not empty, every name in it is
  configured with what its provider needs (model and region for Bedrock, address and key for every
  other), and the primary model is one of them.\<close>

theorem validate_sound:
  assumes "ac_Enabled c" "Validate c = None" "\<not> gw_Enabled (ac_Gateway c)"
  shows "ac_ModelPriority c \<noteq> [] \<and>
    (\<forall>n \<in> set (ac_ModelPriority c). \<exists>m. map_of (ac_Models c) n = Some m \<and> model_complete m) \<and>
    map_of (ac_Models c) (PrimaryModelName c) = Some (PrimaryModel c)"
proof -
  have ne: "ac_ModelPriority c \<noteq> []" "ac_Models c \<noteq> []"
    and v: "validate_models c (ac_ModelPriority c) = None"
    using assms by (auto simp: Validate_def Let_def split: if_splits option.splits)
  have all: "\<forall>n \<in> set (ac_ModelPriority c). \<exists>m. map_of (ac_Models c) n = Some m \<and> model_complete m"
    using validate_models_sound v by blast
  moreover have "ac_ModelPriority c ! 0 \<in> set (ac_ModelPriority c)" using ne by simp
  ultimately have "\<exists>m. map_of (ac_Models c) (ac_ModelPriority c ! 0) = Some m" by blast
  then have "map_of (ac_Models c) (PrimaryModelName c) = Some (PrimaryModel c)"
    using ne by (auto simp: PrimaryModelName_def PrimaryModel_def model_at_def)
  with all ne show ?thesis by blast
qed

definition sample_ai :: AIConfig where
  "sample_ai = \<lparr>ac_Enabled = True, ac_ModelPriority = [''m''],
     ac_Models = [(''m'', zero_model\<lparr>mc_BaseURL := ''http://x'', mc_APIKey := ''k''\<rparr>)],
     ac_Gateway = \<lparr>gw_Enabled = False, gw_BaseURL = [], gw_AgentToken = [], gw_RequestTimeout = 0,
       gw_MaxRetries = 0, gw_FallbackToDirect = False\<rparr>,
     ac_MaxRounds = 0, ac_RequestTimeout = 0, ac_MaxRetries = 0, ac_RetryBackoff = 0,
     ac_MaxConcurrentDiagnoses = 0, ac_QueueFullPolicy = ''drop'', ac_DailyTokenLimit = 0,
     ac_ToolTimeout = 0, ac_AggregateWindow = 0, ac_DiagnoseRetention = 0, ac_DiagnoseMaxCount = 0,
     ac_Language = []\<rparr>"

theorem validate_sound_witness:
  "Validate sample_ai = None \<and> map_of (ac_Models sample_ai) ''m'' = Some (PrimaryModel sample_ai)"
proof -
  have "Validate sample_ai = None" by code_simp
  moreover have "ac_Enabled sample_ai" "\<not> gw_Enabled (ac_Gateway sample_ai)"
    "PrimaryModelName sample_ai = ''m''"
    by (simp_all add: sample_ai_def PrimaryModelName_def)
  ultimately show ?thesis using validate_sound [of sample_ai] by simp
qed

text \<open>the order of the TOML files is a permutation of the files found that starts with
  \<^verbatim>\<open>config.toml\<close>, puts every \<^verbatim>\<open>*.local.toml\<close> after every other file, and ends with \<^verbatim>\<open>config.local.toml\<close>,
  whatever order the directory listing has.\<close>

theorem config_file_order:
  "mset (orderedConfigFiles files) = mset files \<and>
   orderedConfigFiles (rev files) = orderedConfigFiles files \<and>
   (\<exists>k shared locals l. orderedConfigFiles files =
        replicate k DefaultConfigFile @ shared @ locals @ replicate l LocalOverrideConfigFile \<and>
      (\<forall>f \<in> set shared. \<not> isLocalOverrideToml f \<and> f \<noteq> DefaultConfigFile) \<and>
      (\<forall>f \<in> set locals. isLocalOverrideToml f \<and> f \<noteq> LocalOverrideConfigFile) \<and>
      sorted shared \<and> sorted locals)"
proof (intro conjI)
  let ?s = "sort files"
  let ?a = "filter (\<lambda>f. f = DefaultConfigFile) ?s"
    and ?b = "filter (\<lambda>f. f \<noteq> DefaultConfigFile \<and> \<not> isLocalOverrideToml f) ?s"
    and ?c = "filter (\<lambda>f. isLocalOverrideToml f \<and> f \<noteq> LocalOverrideConfigFile) ?s"
    and ?d = "filter (\<lambda>f. f = LocalOverrideConfigFile) ?s"
  have def: "orderedConfigFiles files = ?a @ ?b @ ?c @ ?d"
    by (simp add: orderedConfigFiles_def Let_def)
  have "mset xs = mset (filter (\<lambda>f. f = DefaultConfigFile) xs)
      + mset (filter (\<lambda>f. f \<noteq> DefaultConfigFile \<and> \<not> isLocalOverrideToml f) xs)
      + mset (filter (\<lambda>f. isLocalOverrideToml f \<and> f \<noteq> LocalOverrideConfigFile) xs)
      + mset (filter (\<lambda>f. f = LocalOverrideConfigFile) xs)" for xs
    using local_override_is_local default_not_local by (induction xs) auto
  from this [of ?s] show "mset (orderedConfigFiles files) = mset files"
    unfolding def by (simp add: ac_simps)
  have "sort (rev files) = sort files" by (rule properties_for_sort) auto
  then show "orderedConfigFiles (rev files) = orderedConfigFiles files"
    by (simp add: orderedConfigFiles_def)
  have rep: "filter (\<lambda>f. f = x) xs = replicate (length (filter (\<lambda>f. f = x) xs)) x"
    for x and xs :: "string list" by (induction xs) auto
  show "\<exists>k shared locals l. orderedConfigFiles files =
        replicate k DefaultConfigFile @ shared @ locals @ replicate l LocalOverrideConfigFile \<and>
      (\<forall>f \<in> set shared. \<not> isLocalOverrideToml f \<and> f \<noteq> DefaultConfigFile) \<and>
      (\<forall>f \<in> set locals. isLocalOverrideToml f \<and> f \<noteq> LocalOverrideConfigFile) \<and>
      sorted shared \<and> sorted locals"
    using rep [of DefaultConfigFile ?s] rep [of LocalOverrideConfigFile ?s] def
    by (intro exI [of _ "length ?a"] exI [of _ ?b] exI [of _ ?c] exI [of _ "length ?d"])
       (simp add: sorted_filter [of id, simplified])
qed

theorem config_file_order_witness:
  "mset (orderedConfigFiles [''b.toml'', ''config.toml'']) = mset [''b.toml'', ''config.toml'']"
  using config_file_order [of "[''b.toml'', ''config.toml'']"] by simp

text \<open>start-up never hands a server connection an incomplete identity: when it succeeds with the
  server section enabled, the address is not empty and both required labels are present and not
  empty; it succeeds in local mode without them. The interval is never zero.\<close>

theorem init_config_identity:
  assumes "InitConfig e zero configDir interval plugins loglevel st = Inr (c, st')"
  shows "(sc_Enabled (cf_Server c) \<longrightarrow>
            sc_Address (cf_Server c) \<noteq> [] \<and>
            (\<exists>labels. gl_Labels (cf_Global c) = Some labels \<and>
               (\<forall>key \<in> {''from_hostname'', ''from_hostip''}. \<exists>v. map_of labels key = Some v \<and> v \<noteq> []))) \<and>
         gl_Interval (cf_Global c) \<noteq> 0 \<and> lc_Level (cf_LogConfig c) \<noteq> []"
proof -
  obtain c0 c1 where d: "init_defaults e interval c0 st = (c1, st')" and k: "init_check e c1 = Inr c"
    using assms by (auto simp: InitConfig_def split: if_splits sum.splits prod.splits)
  show ?thesis
    using init_defaults_ok [OF d] init_check_ok [OF k] required_labels_ok
    by (auto simp: nil_map_def)
qed

definition sample_config :: ConfigType where
  "sample_config = \<lparr>cf_ConfigDir = [], cf_StateDir = [], cf_Plugins = [], cf_Loglevel = [],
     cf_Global = \<lparr>gl_Interval = 0, gl_Labels = Some [(''from_hostname'', ''h''), (''from_hostip'', ''1.2.3.4'')]\<rparr>,
     cf_LogConfig = \<lparr>lc_Level = [], lc_Format = [], lc_Output = [], lc_Fields = None\<rparr>,
     cf_Notify = \<lparr>nc_Console = None, nc_Flashduty = None, nc_PagerDuty = None, nc_WebAPI = None\<rparr>,
     cf_AI = sample_ai,
     cf_Server = \<lparr>sc_Enabled = True, sc_Address = ''srv'', sc_AgentToken = [], sc_CAFile = [],
       sc_TLSSkipVerify = False, sc_AlertBufferSize = 0\<rparr>\<rparr>"

definition sample_init :: init_env where
  "sample_init = \<lparr>ie_exists = True, ie_stateDir = ''state.d'', ie_load = Inr, ie_getenv = (\<lambda>_. []),
     ie_hostname = ''h'', ie_detectIP = ''1.2.3.4'', ie_now = 0, ie_parse = (\<lambda>s. Inl s),
     ie_render = (\<lambda>u. [])\<rparr>"

definition sample_ident :: ident where
  "sample_ident = \<lparr>ipAutoDetect = False, ipCached = [], ipCachedAt = 0, hostAutoDetect = False,
     hostCached = [], hostCachedAt = 0\<rparr>"

theorem init_config_identity_witness:
  "\<exists>c st'. InitConfig sample_init sample_config ''conf'' 0 [] [] sample_ident = Inr (c, st') \<and>
     sc_Enabled (cf_Server c) \<and> sc_Address (cf_Server c) \<noteq> []"
proof -
  have "case InitConfig sample_init sample_config ''conf'' 0 [] [] sample_ident of
          Inl _ \<Rightarrow> False | Inr (c, _) \<Rightarrow> sc_Enabled (cf_Server c)"
    by code_simp
  then obtain c st' where
    c: "InitConfig sample_init sample_config ''conf'' 0 [] [] sample_ident = Inr (c, st')"
       "sc_Enabled (cf_Server c)"
    by (auto split: sum.splits prod.splits)
  with init_config_identity [OF c(1)] show ?thesis by blast
qed

end
