(* ===== verification/AI_Client.thy ===== *)
theory AI_Client
  imports AI_Messages Config
begin

text \<open>
  \<^verbatim>\<open>digcore/diagnose/aiclient/\<close>: the retry loop (\<^verbatim>\<open>retry.go\<close>), the failover over several models
  (\<^verbatim>\<open>failover.go\<close>), the OpenAI and gateway clients' handling of a response (\<^verbatim>\<open>client.go\<close>,
  \<^verbatim>\<open>server_client.go\<close>) and the conversion to and from Bedrock's message format (\<^verbatim>\<open>bedrock.go\<close>). The
  answers of the network are the environment: the outcome of the i-th call of a client, and whether
  the context ends during the wait before it.
\<close>

section \<open>Errors and retries\<close>

datatype ai_error =
    APIError int string
  | CtxCanceled
  | CtxDeadline
  | OtherError string
  | WrapAI string ai_error

fun as_api_error :: "ai_error \<Rightarrow> int option" where
  "as_api_error (APIError code body) = Some code"
| "as_api_error (WrapAI _ e) = as_api_error e"
| "as_api_error _ = None"

fun is_canceled :: "ai_error \<Rightarrow> bool" where
  "is_canceled CtxCanceled = True"
| "is_canceled (WrapAI _ e) = is_canceled e"
| "is_canceled _ = False"

definition IsRetryable :: "ai_error \<Rightarrow> bool" where
  "IsRetryable err =
     (case as_api_error err of
        Some code \<Rightarrow> code \<in> {429, 500, 502, 503, 504}
      | None \<Rightarrow> \<not> is_canceled err)"

record RetryConfig =
  rc_MaxRetries :: int
  rc_RetryBackoff :: duration

definition maxBackoff :: duration where "maxBackoff = 30 * Second"

text \<open>The wait before attempt \<open>attempt\<close> (positive), before its jitter: both operations are on \<^verbatim>\<open>int64\<close>.\<close>

definition retry_backoff :: "duration \<Rightarrow> int \<Rightarrow> duration" where
  "retry_backoff base attempt =
     (let backoff = i64 (base * i64 (2 ^ nat (attempt - 1)))
      in if backoff > maxBackoff then maxBackoff else backoff)"

text \<open>One client as the environment answers it: the outcome of each call, and for each wait the error
  of the context when it is done first.\<close>

record client_env =
  ce_call :: "nat \<Rightarrow> ai_error + ChatResponse"
  ce_done :: "nat \<Rightarrow> ai_error option"

text \<open>The Go pair \<^verbatim>\<open>(*ChatResponse, error)\<close>: both components may be nil.\<close>

type_synonym chat_result = "ChatResponse option \<times> ai_error option"

text \<open>The retry loop from attempt number \<open>attempt\<close>; the second result counts the calls made.\<close>

function retry_loop :: "RetryConfig \<Rightarrow> client_env \<Rightarrow> nat \<Rightarrow> ai_error option \<Rightarrow> chat_result \<times> nat" where
  "retry_loop cfg env attempt lastErr =
     (if int attempt > rc_MaxRetries cfg then ((None, lastErr), attempt)
      else if attempt > 0 \<and> ce_done env attempt \<noteq> None then ((None, ce_done env attempt), attempt)
      else
        case ce_call env attempt of
          Inr resp \<Rightarrow> ((Some resp, None), attempt + 1)
        | Inl err \<Rightarrow>
            if \<not> IsRetryable err then ((None, Some err), attempt + 1)
            else retry_loop cfg env (attempt + 1) (Some err))"
  by pat_completeness auto
termination by (relation "measure (\<lambda>(cfg, env, attempt, _). nat (rc_MaxRetries cfg + 1 - int attempt))") auto

declare retry_loop.simps [simp del]

definition ChatWithRetry :: "RetryConfig \<Rightarrow> client_env \<Rightarrow> chat_result \<times> nat" where
  "ChatWithRetry cfg env = retry_loop cfg env 0 None"

section \<open>Failover\<close>

record FailoverClient =
  fc_priority :: "string list"
  fc_clients :: "(string, client_env) gomap"
  fc_retryCfg :: RetryConfig
  fc_pinned :: string
  fc_gateway :: bool
  fc_initErr :: "ai_error option"

definition shouldFailover :: "ai_error \<Rightarrow> bool" where
  "shouldFailover err =
     (if is_canceled err then False
      else case as_api_error err of
             Some code \<Rightarrow> code \<ge> 500 \<or> code = 429
           | None \<Rightarrow> True)"

text \<open>
  The loop over the priority list. A name without a client is a nil interface, and calling it
  panics (\<open>None\<close>). The result is the response, the model name and the error.
\<close>

fun failover_loop ::
    "FailoverClient \<Rightarrow> nat \<Rightarrow> string list \<Rightarrow> ai_error option \<Rightarrow>
     (ChatResponse option \<times> string \<times> ai_error option) option" where
  "failover_loop fc n [] lastErr =
     Some (None, [], Some (WrapAI (''all '' @ show_nat n @ '' models failed, last'')
                             (case lastErr of Some e \<Rightarrow> e | None \<Rightarrow> OtherError [])))"
| "failover_loop fc n (name # names) lastErr =
     (case map_of (fc_clients fc) name of
        None \<Rightarrow> None
      | Some env \<Rightarrow>
          (case fst (ChatWithRetry (fc_retryCfg fc) env) of
             (resp, None) \<Rightarrow> Some (resp, name, None)
           | (resp, Some err) \<Rightarrow>
               if \<not> shouldFailover err then Some (None, name, Some err)
               else failover_loop fc n names (Some (WrapAI (''model '' @ name) err))))"

definition fc_Chat :: "FailoverClient \<Rightarrow> (ChatResponse option \<times> string \<times> ai_error option) option" where
  "fc_Chat fc =
     (if length (fc_priority fc) = 0 then
        (case fc_initErr fc of
           Some e \<Rightarrow> Some (None, [], Some e)
         | None \<Rightarrow> Some (None, [], Some (OtherError ''no ai clients configured'')))
      else if fc_pinned fc \<noteq> [] then
        (case map_of (fc_clients fc) (fc_pinned fc) of
           None \<Rightarrow> Some (None, fc_pinned fc, Some (OtherError (''pinned model not found: '' @ fc_pinned fc)))
         | Some env \<Rightarrow>
             let (resp, err) = fst (ChatWithRetry (fc_retryCfg fc) env)
             in Some (resp, fc_pinned fc, err))
      else failover_loop fc (length (fc_priority fc)) (fc_priority fc) None)"

definition PinModel :: "string \<Rightarrow> FailoverClient \<Rightarrow> ai_error option \<times> FailoverClient" where
  "PinModel name fc =
     (if name \<noteq> [] \<and> map_of (fc_clients fc) name = None
      then (Some (OtherError (''unknown model '' @ name)), fc)
      else (None, fc\<lparr>fc_pinned := name\<rparr>))"

definition PinnedModel :: "FailoverClient \<Rightarrow> string" where
  "PinnedModel fc = fc_pinned fc"

definition ModelNames :: "FailoverClient \<Rightarrow> string list" where
  "ModelNames fc = fc_priority fc"

definition IsGateway :: "FailoverClient \<Rightarrow> bool" where
  "IsGateway fc = fc_gateway fc"

text \<open>The clients are built from the configured models; \<open>mk\<close> builds one (\<^verbatim>\<open>newChatClient\<close>), \<open>gw\<close> is the
  gateway client or the error of building it.\<close>

definition direct_clients :: "(ModelConfig \<Rightarrow> client_env) \<Rightarrow> AIConfig \<Rightarrow> (string, client_env) gomap \<Rightarrow> (string, client_env) gomap" where
  "direct_clients mk cfg clients =
     foldl (\<lambda>m name. m_set name (mk (model_at cfg name)) m) clients (ac_ModelPriority cfg)"

definition newGatewayFailoverClient ::
    "(ModelConfig \<Rightarrow> client_env) \<Rightarrow> ai_error + client_env \<Rightarrow> AIConfig \<Rightarrow> string \<Rightarrow> FailoverClient" where
  "newGatewayFailoverClient mk gw cfg scene =
     (let gatewayName = ''server:'' @ scene;
          (clients, priority, err) =
            (case gw of
               Inr client \<Rightarrow> (m_set gatewayName client [], [gatewayName], None)
             | Inl e \<Rightarrow> ([], [], Some e));
          (clients, priority) =
            (if gw_FallbackToDirect (ac_Gateway cfg)
             then (direct_clients mk cfg clients, priority @ ac_ModelPriority cfg)
             else (clients, priority))
      in \<lparr>fc_priority = priority, fc_clients = clients,
          fc_retryCfg = \<lparr>rc_MaxRetries = gw_MaxRetries (ac_Gateway cfg), rc_RetryBackoff = ac_RetryBackoff cfg\<rparr>,
          fc_pinned = [], fc_gateway = True, fc_initErr = err\<rparr>)"

definition NewFailoverClientForScene ::
    "(ModelConfig \<Rightarrow> client_env) \<Rightarrow> ai_error + client_env \<Rightarrow> AIConfig \<Rightarrow> string \<Rightarrow> FailoverClient" where
  "NewFailoverClientForScene mk gw cfg scene =
     (if gw_Enabled (ac_Gateway cfg) then newGatewayFailoverClient mk gw cfg scene
      else \<lparr>fc_priority = ac_ModelPriority cfg, fc_clients = direct_clients mk cfg [],
            fc_retryCfg = \<lparr>rc_MaxRetries = ac_MaxRetries cfg, rc_RetryBackoff = ac_RetryBackoff cfg\<rparr>,
            fc_pinned = [], fc_gateway = False, fc_initErr = None\<rparr>)"

section \<open>The HTTP clients\<close>

text \<open>What one request comes back with.\<close>

datatype http_reply =
    ReqFailed string
  | BodyFailed string
  | Reply int string

text \<open>\<^verbatim>\<open>Client.Chat\<close> after the request is built; the JSON decoder is an argument.\<close>

definition Client_Chat :: "(string \<Rightarrow> string + ChatResponse) \<Rightarrow> http_reply \<Rightarrow> ai_error + ChatResponse" where
  "Client_Chat unmarshal reply =
     (case reply of
        ReqFailed err \<Rightarrow> Inl (WrapAI ''http request'' (OtherError err))
      | BodyFailed err \<Rightarrow> Inl (WrapAI ''read response'' (OtherError err))
      | Reply status body \<Rightarrow>
          if status \<noteq> 200 then Inl (APIError status (the (truncStr body 1024)))
          else case unmarshal body of
                 Inl err \<Rightarrow> Inl (WrapAI ''unmarshal response'' (OtherError err))
               | Inr resp \<Rightarrow> Inr resp)"

record GatewayChatData =
  gd_ID :: string
  gd_Message :: AIMessage
  gd_FinishReason :: string
  gd_Usage :: Usage

record gatewayEnvelope =
  ge_Data :: "GatewayChatData option"
  ge_Error :: "string option"

definition ServerClient_Chat :: "(string \<Rightarrow> string + gatewayEnvelope) \<Rightarrow> http_reply \<Rightarrow> ai_error + ChatResponse" where
  "ServerClient_Chat unmarshal reply =
     (case reply of
        ReqFailed err \<Rightarrow> Inl (WrapAI ''http request'' (OtherError err))
      | BodyFailed err \<Rightarrow> Inl (WrapAI ''read response'' (OtherError err))
      | Reply status raw \<Rightarrow>
          (case unmarshal raw of
             Inl err \<Rightarrow> Inl (WrapAI ''unmarshal response'' (OtherError err))
           | Inr env \<Rightarrow>
               if status \<noteq> 200 then
                 let msg = (case ge_Error env of Some m \<Rightarrow> (if m \<noteq> [] then m else raw) | None \<Rightarrow> raw)
                 in Inl (APIError status msg)
               else case ge_Data env of
                      None \<Rightarrow> Inl (OtherError ''unmarshal response: missing data'')
                    | Some d \<Rightarrow>
                        Inr \<lparr>cr_ID = gd_ID d,
                             cr_Choices = [\<lparr>ch_Index = 0, ch_Message = gd_Message d,
                                            ch_FinishReason = gd_FinishReason d\<rparr>],
                             cr_Usage = gd_Usage d\<rparr>))"

text \<open>The body of an OpenAI request, before it is marshalled: the vendor's extra fields first, the
  standard fields over them.\<close>

datatype body_val =
    BExtra any_val | BModel string | BMessages "AIMessage list" | BTools "Tool list" | BInt int

record Client =
  cl_model :: string
  cl_maxTokens :: int
  cl_maxCompletionTokens :: int
  cl_extraBody :: "(string, any_val) gomap"

definition buildRequestPayload :: "Client \<Rightarrow> AIMessage list \<Rightarrow> Tool list \<Rightarrow> (string, body_val) gomap" where
  "buildRequestPayload c messages tools =
     (let body = m_copy (map (\<lambda>(k, v). (k, BExtra v)) (cl_extraBody c)) [];
          body = m_set ''model'' (BModel (cl_model c)) body;
          body = m_set ''messages'' (BMessages messages) body;
          body = (if length tools > 0 then m_set ''tools'' (BTools tools) body else body)
      in if cl_maxCompletionTokens c > 0 then
           m_set ''max_completion_tokens'' (BInt (cl_maxCompletionTokens c)) (m_del ''max_tokens'' body)
         else if cl_maxTokens c > 0 then
           m_set ''max_tokens'' (BInt (cl_maxTokens c)) (m_del ''max_completion_tokens'' body)
         else body)"

section \<open>Bedrock\<close>

record bedrockToolUse =
  bu_ToolUseID :: string
  bu_Name :: string
  bu_Input :: string

text \<open>A content block has a text and two optional parts; the tool result is its id and its blocks.\<close>

datatype bedrockContentBlock =
  Block (blk_Text: string) (blk_ToolUse: "bedrockToolUse option")
        (blk_ToolResult: "(string \<times> bedrockContentBlock list) option")

abbreviation text_block :: "string \<Rightarrow> bedrockContentBlock" where
  "text_block t \<equiv> Block t None None"

record bedrockMessage =
  bm_Role :: string
  bm_Content :: "bedrockContentBlock list"

text \<open>\<^verbatim>\<open>json.Valid\<close> and \<^verbatim>\<open>json.Marshal\<close> of a string are arguments.\<close>

record json_env =
  je_valid :: "string \<Rightarrow> bool"
  je_quote :: "string \<Rightarrow> string"

definition convertAssistantMessage :: "json_env \<Rightarrow> AIMessage \<Rightarrow> bedrockMessage" where
  "convertAssistantMessage j msg =
     (let blocks = (if am_Content msg \<noteq> [] then [text_block (am_Content msg)] else []);
          blocks = blocks @ map (\<lambda>tc.
              let inputRaw = fn_Arguments (tc_Function tc);
                  inputRaw = (if \<not> je_valid j inputRaw then je_quote j inputRaw else inputRaw)
              in Block [] (Some \<lparr>bu_ToolUseID = tc_ID tc, bu_Name = fn_Name (tc_Function tc),
                                  bu_Input = inputRaw\<rparr>) None) (am_ToolCalls msg)
      in \<lparr>bm_Role = ''assistant'', bm_Content = (if length blocks = 0 then [text_block []] else blocks)\<rparr>)"

definition convertToolResultMessage :: "AIMessage \<Rightarrow> bedrockMessage" where
  "convertToolResultMessage msg =
     \<lparr>bm_Role = ''user'', bm_Content = [Block [] None (Some (am_ToolCallID msg, [text_block (am_Content msg)]))]\<rparr>"

definition convertMessage :: "json_env \<Rightarrow> AIMessage \<Rightarrow> bedrockMessage" where
  "convertMessage j msg =
     (if am_Role msg = ''assistant'' then convertAssistantMessage j msg
      else if am_Role msg = ''tool'' then convertToolResultMessage msg
      else \<lparr>bm_Role = ''user'', bm_Content = [text_block (am_Content msg)]\<rparr>)"

text \<open>The merge loop: the message under construction is the last of \<open>merged\<close>.\<close>

fun merge_loop :: "bedrockMessage list \<Rightarrow> bedrockMessage list \<Rightarrow> bedrockMessage list" where
  "merge_loop merged [] = merged"
| "merge_loop merged (m # ms) =
     (let l = last merged in
      if bm_Role m = bm_Role l
      then merge_loop (butlast merged @ [l\<lparr>bm_Content := bm_Content l @ bm_Content m\<rparr>]) ms
      else merge_loop (merged @ [m]) ms)"

definition mergeConsecutiveMessages :: "bedrockMessage list \<Rightarrow> bedrockMessage list" where
  "mergeConsecutiveMessages msgs =
     (case msgs of [] \<Rightarrow> [] | m # ms \<Rightarrow> merge_loop [m] ms)"

text \<open>The tool definitions; a tool without parameters gets the empty object schema (\<open>None\<close>).\<close>

record bedrockToolSpec =
  bt_Name :: string
  bt_Description :: string
  bt_InputSchema :: "Parameters option"

definition convertTools :: "Tool list \<Rightarrow> bedrockToolSpec list" where
  "convertTools tools =
     map (\<lambda>t. \<lparr>bt_Name = tf_Name (tl_Function t), bt_Description = tf_Description (tl_Function t),
               bt_InputSchema = tf_Parameters (tl_Function t)\<rparr>) tools"

record bedrockConverseRequest =
  bq_System :: "bedrockContentBlock list"
  bq_Messages :: "bedrockMessage list"
  bq_MaxTokens :: int
  bq_ToolConfig :: "bedrockToolSpec list option"

definition buildConverseRequest :: "json_env \<Rightarrow> int \<Rightarrow> AIMessage list \<Rightarrow> Tool list \<Rightarrow> bedrockConverseRequest" where
  "buildConverseRequest j maxTokens messages tools =
     \<lparr>bq_System = map (\<lambda>m. text_block (am_Content m)) (filter (\<lambda>m. am_Role m = ''system'') messages),
      bq_Messages = mergeConsecutiveMessages
        (map (convertMessage j) (filter (\<lambda>m. am_Role m \<noteq> ''system'') messages)),
      bq_MaxTokens = maxTokens,
      bq_ToolConfig = (if length tools > 0 then Some (convertTools tools) else None)\<rparr>"

text \<open>\<open>br_Output\<close> is the output and the message in it, both of which may be absent.\<close>

record bedrockConverseResponse =
  br_Output :: "bedrockMessage option option"
  br_StopReason :: string
  br_Usage :: "Usage option"

definition block_call :: "bedrockContentBlock \<Rightarrow> ToolCall list" where
  "block_call b =
     (case blk_ToolUse b of
        None \<Rightarrow> []
      | Some u \<Rightarrow> [\<lparr>tc_ID = bu_ToolUseID u, tc_Type = ''function'',
                    tc_Function = \<lparr>fn_Name = bu_Name u, fn_Arguments = bu_Input u\<rparr>\<rparr>])"

definition toChatResponse :: "bedrockConverseResponse \<Rightarrow> ChatResponse" where
  "toChatResponse resp =
     (let blocks = (case br_Output resp of Some (Some m) \<Rightarrow> bm_Content m | _ \<Rightarrow> []);
          textParts = filter (\<lambda>t. t \<noteq> []) (map blk_Text blocks);
          toolCalls = concat (map block_call blocks);
          msg = (plain_message ''assistant'' (join [nl] textParts))\<lparr>am_ToolCalls := toolCalls\<rparr>;
          finishReason = (if br_StopReason resp = ''tool_use'' then ''tool_calls''
                          else if br_StopReason resp = ''max_tokens'' then ''length'' else ''stop'')
      in \<lparr>cr_ID = [],
          cr_Choices = [\<lparr>ch_Index = 0, ch_Message = msg, ch_FinishReason = finishReason\<rparr>],
          cr_Usage = (case br_Usage resp of
             Some u \<Rightarrow>
               (if us_TotalTokens u = 0
                then u\<lparr>us_TotalTokens := us_PromptTokens u + us_CompletionTokens u\<rparr> else u)
           | None \<Rightarrow> \<lparr>us_PromptTokens = 0, us_CompletionTokens = 0, us_TotalTokens = 0\<rparr>)\<rparr>)"

section \<open>Lemmas\<close>

text \<open>The loop ends after at most \<open>MaxRetries + 1\<close> calls, all earlier ones having failed retryably.\<close>

lemma retry_loop_spec:
  assumes "int attempt \<le> rc_MaxRetries cfg + 1"
    "\<forall>i < attempt. \<exists>e. ce_call env i = Inl e \<and> IsRetryable e"
    "0 < attempt \<longrightarrow> (\<exists>e. lastErr = Some e \<and> ce_call env (attempt - 1) = Inl e)"
  shows "\<exists>n res. retry_loop cfg env attempt lastErr = (res, n) \<and> int n \<le> rc_MaxRetries cfg + 1 \<and>
    (\<forall>i. Suc i < n \<longrightarrow> (\<exists>e. ce_call env i = Inl e \<and> IsRetryable e)) \<and>
    (rc_MaxRetries cfg \<ge> 0 \<longrightarrow> 0 < n \<and>
       ((\<exists>r. res = (Some r, None) \<and> ce_call env (n - 1) = Inr r) \<or>
        (\<exists>e. res = (None, Some e) \<and> (ce_call env (n - 1) = Inl e \<or> ce_done env n = Some e))))"
  using assms
proof (induction cfg env attempt lastErr rule: retry_loop.induct)
  case (1 cfg env attempt lastErr)
  show ?case
  proof (cases "int attempt > rc_MaxRetries cfg \<or> attempt > 0 \<and> ce_done env attempt \<noteq> None")
    case True
    then show ?thesis using 1(2-4) by (subst retry_loop.simps) auto
  next
    case False
    show ?thesis
    proof (cases "ce_call env attempt")
      case (Inr r)
      then show ?thesis using 1(2-4) False
        by (subst retry_loop.simps) (auto simp: less_Suc_eq)
    next
      case (Inl e)
      show ?thesis
      proof (cases "IsRetryable e")
        case nr: False
        then show ?thesis using 1(2-4) False Inl
          by (subst retry_loop.simps) (auto simp: less_Suc_eq)
      next
        case r: True
        have "retry_loop cfg env attempt lastErr = retry_loop cfg env (attempt + 1) (Some e)"
          using False Inl r by (subst retry_loop.simps) auto
        moreover have "\<forall>i < attempt + 1. \<exists>e. ce_call env i = Inl e \<and> IsRetryable e"
          using 1(3) Inl r by (auto simp: less_Suc_eq)
        ultimately show ?thesis
          using 1(1) [of e] False Inl r by auto
      qed
    qed
  qed
qed

lemma direct_clients_dom:
  "set (ac_ModelPriority cfg) \<union> dom (map_of clients) = dom (map_of (direct_clients mk cfg clients))"
proof -
  have "dom (map_of (foldl (\<lambda>m name. m_set name (f name) m) clients names)) =
        set names \<union> dom (map_of clients)" for names and f :: "string \<Rightarrow> client_env"
    by (induction names arbitrary: clients) auto
  then show ?thesis by (simp add: direct_clients_def)
qed

lemma new_failover_clients:
  "set (fc_priority (NewFailoverClientForScene mk gw cfg scene)) \<subseteq>
   dom (map_of (fc_clients (NewFailoverClientForScene mk gw cfg scene)))"
  using direct_clients_dom [of cfg "[]" mk]
    direct_clients_dom [of cfg "m_set (''server:'' @ scene) (projr gw) []" mk]
  by (auto simp: NewFailoverClientForScene_def newGatewayFailoverClient_def Let_def
      split: sum.splits if_splits)

text \<open>The errors a model may fail with before the next one is tried.\<close>

definition fails_over :: "FailoverClient \<Rightarrow> string \<Rightarrow> bool" where
  "fails_over fc name \<longleftrightarrow>
     (\<exists>env err. map_of (fc_clients fc) name = Some env \<and>
        snd (fst (ChatWithRetry (fc_retryCfg fc) env)) = Some err \<and> shouldFailover err)"

lemma failover_loop_spec:
  assumes "set names \<subseteq> dom (map_of (fc_clients fc))"
  shows "(\<exists>e. failover_loop fc n names lastErr = Some (None, [], Some e) \<and> list_all (fails_over fc) names) \<or>
    (\<exists>pre name post env. names = pre @ name # post \<and> list_all (fails_over fc) pre \<and>
        \<not> fails_over fc name \<and> map_of (fc_clients fc) name = Some env \<and>
        (case fst (ChatWithRetry (fc_retryCfg fc) env) of
           (resp, None) \<Rightarrow> failover_loop fc n names lastErr = Some (resp, name, None)
         | (resp, Some e) \<Rightarrow> failover_loop fc n names lastErr = Some (None, name, Some e)))"
  using assms
proof (induction names arbitrary: lastErr)
  case Nil
  then show ?case by simp
next
  case (Cons name names)
  then obtain env where env: "map_of (fc_clients fc) name = Some env" by auto
  obtain resp err where r: "fst (ChatWithRetry (fc_retryCfg fc) env) = (resp, err)" by fastforce
  show ?case
  proof (cases "fails_over fc name")
    case False
    then have "\<not> (\<exists>e. err = Some e \<and> shouldFailover e)" using env r by (auto simp: fails_over_def)
    then have "case fst (ChatWithRetry (fc_retryCfg fc) env) of
           (resp, None) \<Rightarrow> failover_loop fc n (name # names) lastErr = Some (resp, name, None)
         | (resp, Some e) \<Rightarrow> failover_loop fc n (name # names) lastErr = Some (None, name, Some e)"
      using env r by (auto split: option.splits)
    then show ?thesis using env False by (metis append_Nil list.pred_inject(1))
  next
    case True
    then obtain e where e: "err = Some e" "shouldFailover e" using env r by (auto simp: fails_over_def)
    have step: "failover_loop fc n (name # names) lastErr =
        failover_loop fc n names (Some (WrapAI (''model '' @ name) e))"
      using env r e by simp
    have "set names \<subseteq> dom (map_of (fc_clients fc))" using Cons.prems by auto
    from Cons.IH [OF this, of "Some (WrapAI (''model '' @ name) e)"]
    show ?thesis
    proof (elim disjE exE conjE, goal_cases)
      case (1 e')
      then show ?thesis using step True by auto
    next
      case (2 pre nm post env')
      then show ?thesis using True unfolding step
        by (metis append_Cons list.pred_inject(2))
    qed
  qed
qed

text \<open>Merging: adjacent messages end with different roles and no content block is lost.\<close>

fun alternating :: "bedrockMessage list \<Rightarrow> bool" where
  "alternating [] = True"
| "alternating [m] = True"
| "alternating (m # n # ms) \<longleftrightarrow> bm_Role m \<noteq> bm_Role n \<and> alternating (n # ms)"

lemma alternating_snoc:
  "alternating (ms @ [m]) \<longleftrightarrow> alternating ms \<and> (ms \<noteq> [] \<longrightarrow> bm_Role (last ms) \<noteq> bm_Role m)"
  by (induction ms rule: alternating.induct) auto

lemma merge_loop_spec:
  "merged \<noteq> [] \<Longrightarrow> alternating merged \<Longrightarrow>
   alternating (merge_loop merged ms) \<and>
   concat (map bm_Content (merge_loop merged ms)) = concat (map bm_Content (merged @ ms)) \<and>
   bm_Role ` set (merge_loop merged ms) = bm_Role ` set (merged @ ms)"
proof (induction merged ms rule: merge_loop.induct)
  case (1 merged)
  then show ?case by simp
next
  case (2 merged m ms)
  obtain pre l where pl: "merged = pre @ [l]" using 2(3) by (metis append_butlast_last_id)
  show ?case
  proof (cases "bm_Role m = bm_Role l")
    case True
    let ?l = "l\<lparr>bm_Content := bm_Content l @ bm_Content m\<rparr>"
    have "alternating (pre @ [?l])" using 2(4) pl by (simp add: alternating_snoc)
    then show ?thesis using 2(1) [OF refl] True pl by auto
  next
    case False
    then have "alternating (merged @ [m])" using 2(4) pl alternating_snoc [of merged m] by auto
    then show ?thesis using 2(2) [OF refl] False pl by auto
  qed
qed

lemma mergeConsecutiveMessages_spec:
  "alternating (mergeConsecutiveMessages ms) \<and>
   concat (map bm_Content (mergeConsecutiveMessages ms)) = concat (map bm_Content ms) \<and>
   bm_Role ` set (mergeConsecutiveMessages ms) = bm_Role ` set ms"
  using merge_loop_spec [of "[hd ms]" "tl ms"]
  by (cases ms) (simp_all add: mergeConsecutiveMessages_def)

lemma convertMessage_role: "bm_Role (convertMessage j m) \<in> {''user'', ''assistant''}"
  by (simp add: convertMessage_def convertAssistantMessage_def convertToolResultMessage_def Let_def)

section \<open>Properties\<close>

text \<open>C15: with a non-negative retry limit a call is attempted at least once and at most \<open>MaxRetries + 1\<close>
  times, only retryable failures are retried, and exactly one of response and error is returned:
  the answer of the last call, or the error of a context that ended while waiting.\<close>

theorem retry_limit:
  assumes "0 \<le> rc_MaxRetries cfg"
  shows "\<exists>n. snd (ChatWithRetry cfg env) = n \<and> 0 < n \<and> int n \<le> rc_MaxRetries cfg + 1 \<and>
    (\<forall>i. Suc i < n \<longrightarrow> (\<exists>e. ce_call env i = Inl e \<and> IsRetryable e)) \<and>
    ((\<exists>r. fst (ChatWithRetry cfg env) = (Some r, None) \<and> ce_call env (n - 1) = Inr r) \<or>
     (\<exists>e. fst (ChatWithRetry cfg env) = (None, Some e) \<and>
          (ce_call env (n - 1) = Inl e \<or> ce_done env n = Some e)))"
  using retry_loop_spec [of 0 cfg env None] assms by (auto simp: ChatWithRetry_def)

definition sample_client :: client_env where
  "sample_client = \<lparr>ce_call = (\<lambda>i. if i < 2 then Inl (APIError 503 []) else Inl (APIError 401 [])),
     ce_done = (\<lambda>_. None)\<rparr>"

theorem retry_limit_witness:
  "\<exists>n. snd (ChatWithRetry \<lparr>rc_MaxRetries = 2, rc_RetryBackoff = 2 * Second\<rparr> sample_client) = n \<and>
       0 < n \<and> int n \<le> 3"
  using retry_limit [of "\<lparr>rc_MaxRetries = 2, rc_RetryBackoff = 2 * Second\<rparr>" sample_client] by auto

text \<open>a negative retry limit, which validation of the \<^verbatim>\<open>[ai]\<close> section accepts, makes every call
  return neither a response nor an error without contacting a model; the failover client hands
  this on as the success of the first model, and its callers dereference the nil response.\<close>

theorem negative_retries_nil:
  assumes "map_of (fc_clients fc) name = Some env" "fc_priority fc = name # names"
    "fc_pinned fc = []" "rc_MaxRetries (fc_retryCfg fc) < 0"
  shows "ChatWithRetry (fc_retryCfg fc) env = ((None, None), 0) \<and> fc_Chat fc = Some (None, name, None) \<and>
         Validate (sample_ai\<lparr>ac_MaxRetries := -1\<rparr>) = None"
proof -
  have "ChatWithRetry (fc_retryCfg fc) env = ((None, None), 0)"
    using assms(4) by (simp add: ChatWithRetry_def retry_loop.simps)
  moreover have "Validate (sample_ai\<lparr>ac_MaxRetries := -1\<rparr>) = None" by code_simp
  ultimately show ?thesis using assms by (simp add: fc_Chat_def)
qed

theorem negative_retries_nil_witness:
  "fc_Chat (NewFailoverClientForScene (\<lambda>_. sample_client) (Inl CtxCanceled)
      (sample_ai\<lparr>ac_MaxRetries := -1\<rparr>) ''diagnose'') = Some (None, ''m'', None)"
  using negative_retries_nil [of "NewFailoverClientForScene (\<lambda>_. sample_client) (Inl CtxCanceled)
      (sample_ai\<lparr>ac_MaxRetries := -1\<rparr>) ''diagnose''" "''m''" sample_client "[]"]
  by (simp add: NewFailoverClientForScene_def sample_ai_def direct_clients_def)

text \<open>the wait before a retry doubles and is capped at 30 seconds for every base of at most 30
  seconds, as long as the shift stays in range; it is never above the cap for any attempt.\<close>

theorem retry_backoff_doubles:
  assumes "0 < base" "base \<le> maxBackoff" "1 \<le> attempt" "attempt \<le> 29"
  shows "retry_backoff base attempt = min (base * 2 ^ nat (attempt - 1)) maxBackoff \<and>
         (\<forall>b a. retry_backoff b a \<le> maxBackoff)"
proof -
  let ?p = "2 ^ nat (attempt - 1) :: int"
  have p: "1 \<le> ?p" by simp
  have "nat (attempt - 1) \<le> 28" using assms by simp
  then have "?p \<le> 2 ^ 28" by (rule power_increasing) simp
  then have le: "base * ?p \<le> maxBackoff * 2 ^ 28" and nn: "0 \<le> base * ?p"
    using mult_mono [of base maxBackoff ?p "2 ^ 28"] assms by (simp_all add: maxBackoff_def)
  have "i64 ?p = ?p"
    using p \<open>?p \<le> 2 ^ 28\<close> by (intro i64_id in_i64_nonneg) auto
  moreover have "i64 (base * ?p) = base * ?p"
    using le nn by (intro i64_id in_i64_nonneg) (auto simp: maxBackoff_def)
  ultimately show ?thesis by (auto simp: retry_backoff_def Let_def min_def)
qed

theorem retry_backoff_doubles_witness:
  "retry_backoff (2 * Second) 3 = 8 * Second"
  using retry_backoff_doubles [of "2 * Second" 3] by (simp add: maxBackoff_def)

text \<open>the doubling overflows for long retry chains: with the default base of two seconds the wait
  before attempt 34 is negative, so that retry and the ones after it are immediate.\<close>

theorem retry_backoff_overflow:
  "retry_backoff (2 * Second) 34 < 0 \<and> retry_backoff (2 * Second) 70 = 0"
  by (simp add: retry_backoff_def i64_def maxBackoff_def)

text \<open>failover follows the priority list: a client built from a configuration never calls a model
  that has no client, and unless a model is pinned the answer is that of the first model in
  priority order that does not fail with a failover error; an error for all is returned only when
  every model failed with one.\<close>

theorem failover_order:
  assumes "fc = NewFailoverClientForScene mk gw cfg scene" "fc_priority fc \<noteq> []"
  shows "(\<exists>pre name post resp err. fc_priority fc = pre @ name # post \<and>
            fc_Chat fc = Some (resp, name, err) \<and>
            list_all (fails_over fc) pre \<and> \<not> fails_over fc name) \<or>
         (\<exists>e. fc_Chat fc = Some (None, [], Some e) \<and> list_all (fails_over fc) (fc_priority fc))"
proof -
  have sub: "set (fc_priority fc) \<subseteq> dom (map_of (fc_clients fc))"
    using assms(1) new_failover_clients by simp
  have pin: "fc_pinned fc = []"
    using assms(1) by (simp add: NewFailoverClientForScene_def newGatewayFailoverClient_def Let_def
        split: sum.splits)
  have eq: "fc_Chat fc = failover_loop fc (length (fc_priority fc)) (fc_priority fc) None"
    using assms(2) pin by (simp add: fc_Chat_def)
  from failover_loop_spec [OF sub, of "length (fc_priority fc)" None] show ?thesis
  proof (elim disjE exE conjE, goal_cases)
    case (1 e)
    then show ?thesis using eq by auto
  next
    case (2 pre name post env)
    obtain resp err where r: "fst (ChatWithRetry (fc_retryCfg fc) env) = (resp, err)" by fastforce
    have "\<exists>resp' err'. fc_Chat fc = Some (resp', name, err')"
      using 2(5) r eq by (cases err) auto
    then show ?thesis using 2(1-3) by blast
  qed
qed

theorem failover_order_witness:
  "\<exists>resp name err. fc_Chat (NewFailoverClientForScene (\<lambda>_. sample_client) (Inl CtxCanceled) sample_ai ''chat'')
     = Some (resp, name, err)"
  using failover_order [OF refl, of "\<lambda>_. sample_client" "Inl CtxCanceled" sample_ai "''chat''"]
  by (simp add: NewFailoverClientForScene_def sample_ai_def) blast

text \<open>an error reply is classified differently by the two HTTP clients: the OpenAI client turns
  every status other than 200 into an API error, so 401 is final, while the gateway client decodes
  the body first, so an error reply whose body is not JSON, whatever its status, is retried and
  fails over.\<close>

theorem gateway_masks_status:
  assumes "status \<noteq> 200" "status \<notin> {429, 500, 502, 503, 504}" "status < 500"
    "unmarshal body = Inl err"
  shows "(\<exists>e. Client_Chat um (Reply status body) = Inl e \<and> \<not> IsRetryable e \<and> \<not> shouldFailover e) \<and>
         (\<exists>e. ServerClient_Chat unmarshal (Reply status body) = Inl e \<and> IsRetryable e \<and> shouldFailover e)"
  using assms by (auto simp: Client_Chat_def ServerClient_Chat_def IsRetryable_def shouldFailover_def)

theorem gateway_masks_status_witness:
  "\<exists>e. ServerClient_Chat (\<lambda>_. Inl ''invalid character'') (Reply 401 ''<html>'') = Inl e \<and> IsRetryable e"
  using gateway_masks_status [of 401 "\<lambda>_. Inl ''invalid character''" "''<html>''"
      "''invalid character''" "\<lambda>_. Inl []"]
  by auto

text \<open>the vendor's extra fields never override what the client sends itself: model and messages are
  always the client's, and exactly one token limit is sent when one is configured.\<close>

theorem payload_standard_fields:
  "map_of (buildRequestPayload c messages tools) ''model'' = Some (BModel (cl_model c)) \<and>
   map_of (buildRequestPayload c messages tools) ''messages'' = Some (BMessages messages) \<and>
   (tools \<noteq> [] \<longrightarrow> map_of (buildRequestPayload c messages tools) ''tools'' = Some (BTools tools)) \<and>
   (cl_maxCompletionTokens c > 0 \<longrightarrow>
      map_of (buildRequestPayload c messages tools) ''max_completion_tokens'' = Some (BInt (cl_maxCompletionTokens c)) \<and>
      map_of (buildRequestPayload c messages tools) ''max_tokens'' = None) \<and>
   (cl_maxCompletionTokens c \<le> 0 \<and> cl_maxTokens c > 0 \<longrightarrow>
      map_of (buildRequestPayload c messages tools) ''max_tokens'' = Some (BInt (cl_maxTokens c)) \<and>
      map_of (buildRequestPayload c messages tools) ''max_completion_tokens'' = None)"
  by (simp add: buildRequestPayload_def Let_def)

theorem payload_standard_fields_witness:
  "map_of (buildRequestPayload \<lparr>cl_model = ''m'', cl_maxTokens = 10, cl_maxCompletionTokens = 5,
      cl_extraBody = [(''model'', AnyStr ''x''), (''max_tokens'', AnyStr ''9'')]\<rparr> [] []) ''max_tokens'' = None"
  using payload_standard_fields [of "\<lparr>cl_model = ''m'', cl_maxTokens = 10, cl_maxCompletionTokens = 5,
      cl_extraBody = [(''model'', AnyStr ''x''), (''max_tokens'', AnyStr ''9'')]\<rparr>" "[]" "[]"]
  by simp

text \<open>a Bedrock request alternates strictly between user and assistant messages, as the service
  requires, every content block of every non-system message is sent exactly once and in order, and
  no system message is lost.\<close>

theorem bedrock_alternates:
  "alternating (bq_Messages (buildConverseRequest j n messages tools)) \<and>
   bm_Role ` set (bq_Messages (buildConverseRequest j n messages tools)) \<subseteq> {''user'', ''assistant''} \<and>
   concat (map bm_Content (bq_Messages (buildConverseRequest j n messages tools))) =
     concat (map (\<lambda>m. bm_Content (convertMessage j m)) (filter (\<lambda>m. am_Role m \<noteq> ''system'') messages)) \<and>
   map blk_Text (bq_System (buildConverseRequest j n messages tools)) =
     map am_Content (filter (\<lambda>m. am_Role m = ''system'') messages)"
proof -
  let ?ms = "map (convertMessage j) (filter (\<lambda>m. am_Role m \<noteq> ''system'') messages)"
  have "bm_Role ` set ?ms \<subseteq> {''user'', ''assistant''}" using convertMessage_role by auto
  then show ?thesis
    using mergeConsecutiveMessages_spec [of ?ms] by (simp add: buildConverseRequest_def comp_def)
qed

end
