(* ===== verification/Diag_State.thy ===== *)
theory Diag_State
  imports Aggregator
begin

text \<open>
  \<^verbatim>\<open>digcore/diagnose/state.go\<close> and \<^verbatim>\<open>cleanup.go\<close>: the daily token counters, the per-target cooldowns,
  how they are reloaded after a restart, and the removal of old diagnosis records. Times are
  nanoseconds since the epoch; \<open>unix\<close> is \<^verbatim>\<open>Time.Unix\<close>. The date of a moment is an argument (it depends
  on the time zone), as are the contents read from disk. Every operation holds the state's mutex.
\<close>

section \<open>Model\<close>

type_synonym date_of = "int \<Rightarrow> string"

definition unix :: "int \<Rightarrow> int" where
  "unix t = t div Second"

record DiagnoseState =
  ds_Date :: string
  ds_InputTokens :: int
  ds_OutputTokens :: int
  ds_Cooldowns :: "(string, int) gomap option"

definition NewDiagnoseState :: "date_of \<Rightarrow> int \<Rightarrow> DiagnoseState" where
  "NewDiagnoseState date now =
     \<lparr>ds_Date = date now, ds_InputTokens = 0, ds_OutputTokens = 0, ds_Cooldowns = Some []\<rparr>"

definition resetIfNewDay :: "date_of \<Rightarrow> int \<Rightarrow> DiagnoseState \<Rightarrow> DiagnoseState" where
  "resetIfNewDay date now s =
     (let d = date now in
      if ds_Date s \<noteq> d then s\<lparr>ds_Date := d, ds_InputTokens := 0, ds_OutputTokens := 0\<rparr> else s)"

definition AddTokens :: "date_of \<Rightarrow> int \<Rightarrow> int \<Rightarrow> int \<Rightarrow> DiagnoseState \<Rightarrow> DiagnoseState" where
  "AddTokens date now input output s =
     (let s = resetIfNewDay date now s
      in s\<lparr>ds_InputTokens := ds_InputTokens s + input, ds_OutputTokens := ds_OutputTokens s + output\<rparr>)"

definition TotalTokens :: "date_of \<Rightarrow> int \<Rightarrow> DiagnoseState \<Rightarrow> int \<times> DiagnoseState" where
  "TotalTokens date now s =
     (let s = resetIfNewDay date now s in (ds_InputTokens s + ds_OutputTokens s, s))"

text \<open>Writing to a nil map panics (\<open>None\<close>).\<close>

definition UpdateCooldown :: "int \<Rightarrow> string \<Rightarrow> string \<Rightarrow> duration \<Rightarrow> DiagnoseState \<Rightarrow> DiagnoseState option" where
  "UpdateCooldown now plugin target d s =
     (case ds_Cooldowns s of
        None \<Rightarrow> None
      | Some m \<Rightarrow> Some (s\<lparr>ds_Cooldowns := Some (m_set (agg_key plugin target) (unix (now + d)) m)\<rparr>))"

definition IsCooldownActive :: "int \<Rightarrow> string \<Rightarrow> string \<Rightarrow> DiagnoseState \<Rightarrow> bool \<times> DiagnoseState" where
  "IsCooldownActive now plugin target s =
     (let key = agg_key plugin target in
      case map_of (nil_map (ds_Cooldowns s)) key of
        None \<Rightarrow> (False, s)
      | Some expires \<Rightarrow>
          if unix now \<ge> expires
          then (False, s\<lparr>ds_Cooldowns := map_option (m_del key) (ds_Cooldowns s)\<rparr>)
          else (True, s))"

definition cleanExpiredCooldowns :: "int \<Rightarrow> DiagnoseState \<Rightarrow> DiagnoseState" where
  "cleanExpiredCooldowns now s =
     s\<lparr>ds_Cooldowns := map_option (filter (\<lambda>(k, v). \<not> unix now \<ge> v)) (ds_Cooldowns s)\<rparr>"

text \<open>
  \<^verbatim>\<open>Load\<close>: what is on disk is absent, unreadable as JSON (\<^verbatim>\<open>json.Unmarshal\<close> may have filled some fields
  before it failed), or a decoded state.
\<close>

datatype loaded = NoFile | Corrupt DiagnoseState | Decoded DiagnoseState

definition Load :: "date_of \<Rightarrow> int \<Rightarrow> loaded \<Rightarrow> DiagnoseState \<Rightarrow> DiagnoseState" where
  "Load date now disk s =
     (case disk of
        NoFile \<Rightarrow> s
      | _ \<Rightarrow>
          let s = (case disk of
                     Corrupt part \<Rightarrow>
                       part\<lparr>ds_Date := date now, ds_InputTokens := 0, ds_OutputTokens := 0\<rparr>
                   | Decoded d \<Rightarrow> d
                   | NoFile \<Rightarrow> s);
              s = (if ds_Cooldowns s = None then s\<lparr>ds_Cooldowns := Some []\<rparr> else s)
          in cleanExpiredCooldowns now (resetIfNewDay date now s))"

definition IsDailyLimitReached :: "date_of \<Rightarrow> int \<Rightarrow> int \<Rightarrow> DiagnoseState \<Rightarrow> bool \<times> DiagnoseState" where
  "IsDailyLimitReached date now limit s =
     (if limit \<le> 0 then (False, s)
      else let (total, s) = TotalTokens date now s in (total \<ge> limit, s))"

text \<open>\<^verbatim>\<open>CleanupRecords\<close>: which directory entries are removed. The sort is \<^verbatim>\<open>sort.Slice\<close>, which promises
  only a descending permutation, so it is an argument.\<close>

record dir_entry =
  de_Name :: string
  de_IsDir :: bool
  de_ModTime :: "int option"

definition record_files :: "dir_entry list \<Rightarrow> (string \<times> int) list" where
  "record_files entries =
     concat (map (\<lambda>e. if de_IsDir e \<or> \<not> suffix ''.json'' (de_Name e) then []
                      else case de_ModTime e of None \<Rightarrow> [] | Some t \<Rightarrow> [(de_Name e, t)]) entries)"

definition should_remove :: "int \<Rightarrow> duration \<Rightarrow> int \<Rightarrow> nat \<Rightarrow> int \<Rightarrow> bool" where
  "should_remove now retention maxCount i modTime \<longleftrightarrow>
     maxCount > 0 \<and> int i \<ge> maxCount \<or> retention > 0 \<and> now - modTime > retention"

definition CleanupRecords ::
    "((string \<times> int) list \<Rightarrow> (string \<times> int) list) \<Rightarrow> int \<Rightarrow> duration \<Rightarrow> int \<Rightarrow> dir_entry list \<Rightarrow> string list" where
  "CleanupRecords sortSlice now retention maxCount entries =
     (let files = sortSlice (record_files entries)
      in map (\<lambda>i. fst (files ! i))
           (filter (\<lambda>i. should_remove now retention maxCount i (snd (files ! i))) [0..<length files]))"

section \<open>Lemmas\<close>

lemma unix_mono: "a \<le> b \<Longrightarrow> unix a \<le> unix b"
  by (simp add: unix_def zdiv_mono1)

lemma cooldown_after_update:
  assumes "UpdateCooldown t0 p tg d s = Some s'"
  shows "fst (IsCooldownActive t1 p tg s') \<longleftrightarrow> unix t1 < unix (t0 + d)"
  using assms
  by (auto simp: UpdateCooldown_def IsCooldownActive_def nil_map_def Let_def split: option.splits)

lemma IsCooldownActive_other:
  assumes "agg_key p' tg' \<noteq> agg_key p tg"
  shows "fst (IsCooldownActive t p tg (snd (IsCooldownActive t' p' tg' s))) = fst (IsCooldownActive t p tg s)"
  using assms by (auto simp: IsCooldownActive_def nil_map_def Let_def split: option.splits)

lemma Load_has_map: "disk \<noteq> NoFile \<Longrightarrow> ds_Cooldowns (Load date now disk s) \<noteq> None"
  by (cases disk) (auto simp: Load_def Let_def cleanExpiredCooldowns_def resetIfNewDay_def)

lemma filter_map_of_distinct:
  "distinct (map fst m) \<Longrightarrow>
   map_of (filter (\<lambda>(k, v). P v) m) k =
     (case map_of m k of None \<Rightarrow> None | Some v \<Rightarrow> if P v then Some v else None)"
proof (induction m)
  case Nil
  then show ?case by simp
next
  case (Cons kv m)
  obtain a b where kv: "kv = (a, b)" by (cases kv)
  have "map_of m a = None" using Cons.prems kv by (simp add: map_of_eq_None_iff)
  moreover have "map_of (filter (\<lambda>(k, v). P v) m) a = None"
    using Cons.prems kv by (auto simp: map_of_eq_None_iff)
  ultimately show ?case using Cons kv by (auto split: option.splits)
qed

fun token_sum :: "(int \<times> int) list \<Rightarrow> int" where
  "token_sum [] = 0"
| "token_sum ((i, out) # rest) = i + out + token_sum rest"

definition add_all :: "date_of \<Rightarrow> (int \<times> int \<times> int) list \<Rightarrow> DiagnoseState \<Rightarrow> DiagnoseState" where
  "add_all date adds s = foldl (\<lambda>s (now, i, out). AddTokens date now i out s) s adds"

lemma add_all_day:
  assumes "\<forall>(now, i, out) \<in> set adds. date now = day" "ds_Date s = day"
  shows "ds_Date (add_all date adds s) = day \<and>
    ds_InputTokens (add_all date adds s) + ds_OutputTokens (add_all date adds s) =
    ds_InputTokens s + ds_OutputTokens s + token_sum (map snd adds)"
  using assms unfolding add_all_def
proof (induction adds arbitrary: s)
  case Nil
  then show ?case by simp
next
  case (Cons a adds)
  obtain now i out where a: "a = (now, i, out)" by (cases a)
  have "AddTokens date now i out s =
        s\<lparr>ds_InputTokens := ds_InputTokens s + i, ds_OutputTokens := ds_OutputTokens s + out\<rparr>"
    using Cons.prems a by (simp add: AddTokens_def resetIfNewDay_def)
  then show ?case using Cons.IH [of "AddTokens date now i out s"] Cons.prems a by simp
qed

text \<open>What \<^verbatim>\<open>sort.Slice\<close> with the newest first promises.\<close>

definition newest_first :: "((string \<times> int) list \<Rightarrow> (string \<times> int) list) \<Rightarrow> bool" where
  "newest_first f \<longleftrightarrow> (\<forall>xs. mset (f xs) = mset xs \<and> sorted_wrt (\<lambda>x y. snd x \<ge> snd y) (f xs))"

section \<open>Properties\<close>

text \<open>a cooldown holds exactly from the moment it is set until its second has passed: after
  \<^verbatim>\<open>UpdateCooldown\<close> the target is in cooldown at a later moment if and only if that moment's second is
  before the second of the expiry, asking about another key in between does not change the answer,
  and once it has expired the entry is gone.\<close>

theorem cooldown_window:
  assumes "UpdateCooldown t0 plugin target d s = Some s'"
  shows "(fst (IsCooldownActive t1 plugin target s') \<longleftrightarrow> unix t1 < unix (t0 + d)) \<and>
    (agg_key p tg \<noteq> agg_key plugin target \<longrightarrow>
       fst (IsCooldownActive t1 plugin target (snd (IsCooldownActive t2 p tg s'))) =
       fst (IsCooldownActive t1 plugin target s')) \<and>
    (unix (t0 + d) \<le> unix t1 \<longrightarrow>
       map_of (nil_map (ds_Cooldowns (snd (IsCooldownActive t1 plugin target s')))) (agg_key plugin target) = None)"
proof (intro conjI impI)
  show "fst (IsCooldownActive t1 plugin target s') \<longleftrightarrow> unix t1 < unix (t0 + d)"
    by (rule cooldown_after_update [OF assms])
  show "fst (IsCooldownActive t1 plugin target (snd (IsCooldownActive t2 p tg s'))) =
        fst (IsCooldownActive t1 plugin target s')" if "agg_key p tg \<noteq> agg_key plugin target"
    using IsCooldownActive_other [OF that] .
  show "map_of (nil_map (ds_Cooldowns (snd (IsCooldownActive t1 plugin target s')))) (agg_key plugin target) = None"
    if "unix (t0 + d) \<le> unix t1"
    using assms that
    by (auto simp: UpdateCooldown_def IsCooldownActive_def nil_map_def Let_def split: option.splits)
qed

theorem cooldown_window_witness:
  "\<exists>s'. UpdateCooldown 0 ''disk'' ''/'' (5 * Second) (NewDiagnoseState (\<lambda>_. ''d'') 0) = Some s' \<and>
        fst (IsCooldownActive (4 * Second) ''disk'' ''/'' s') \<and>
        \<not> fst (IsCooldownActive (5 * Second) ''disk'' ''/'' s')"
proof -
  obtain s' where s': "UpdateCooldown 0 ''disk'' ''/'' (5 * Second) (NewDiagnoseState (\<lambda>_. ''d'') 0) = Some s'"
    by (simp add: UpdateCooldown_def NewDiagnoseState_def)
  show ?thesis
    using s' cooldown_window [OF s', of "4 * Second"] cooldown_window [OF s', of "5 * Second"]
    by (auto simp: unix_def)
qed

text \<open>the daily budget counts exactly the tokens of the day: after any additions on one day to a
  state of that day the limit is reached if and only if the old total and the additions sum up to
  it, a moment of another day starts again at zero, and a limit that is not positive never
  blocks.\<close>

theorem daily_budget:
  assumes "\<forall>(now, i, out) \<in> set adds. date now = day" "ds_Date s = day" "date t = day" "date t' \<noteq> day"
  shows "(fst (IsDailyLimitReached date t limit (add_all date adds s)) \<longleftrightarrow>
            0 < limit \<and> limit \<le> ds_InputTokens s + ds_OutputTokens s + token_sum (map snd adds)) \<and>
         fst (TotalTokens date t' (add_all date adds s)) = 0"
  using add_all_day [OF assms(1,2)] assms(3,4)
  by (auto simp: IsDailyLimitReached_def TotalTokens_def resetIfNewDay_def Let_def)

theorem daily_budget_witness:
  "fst (IsDailyLimitReached (\<lambda>t. show_int (t div 10)) 5 12 (add_all (\<lambda>t. show_int (t div 10))
     [(1, 5, 3), (2, 4, 1)] (NewDiagnoseState (\<lambda>t. show_int (t div 10)) 0)))"
proof -
  have d: "show_int (0 :: int) = ''0''" "show_int (1 :: int) = ''1''" by code_simp+
  show ?thesis
    using daily_budget [of "[(1, 5, 3), (2, 4, 1)]" "\<lambda>t. show_int (t div 10)" "''0''"
        "NewDiagnoseState (\<lambda>t. show_int (t div 10)) 0" 5 10 12] d
    by (simp add: NewDiagnoseState_def)
qed

text \<open>a restart keeps exactly the cooldowns that are still running: after loading a state whose map
  has distinct keys, a target is in cooldown if and only if its stored expiry lies in the future,
  token counters of an earlier day are zero, and the cooldown map can be written.\<close>

theorem load_restores_cooldowns:
  assumes "ds_Cooldowns d = Some m" "m_ok m"
  shows "(fst (IsCooldownActive now plugin target (Load date now (Decoded d) s)) \<longleftrightarrow>
            (\<exists>e. map_of m (agg_key plugin target) = Some e \<and> unix now < e)) \<and>
         (ds_Date d \<noteq> date now \<longrightarrow> fst (TotalTokens date now (Load date now (Decoded d) s)) = 0) \<and>
         UpdateCooldown now plugin target c (Load date now (Decoded d) s) \<noteq> None"
proof -
  let ?s = "Load date now (Decoded d) s"
  have cd: "ds_Cooldowns ?s = Some (filter (\<lambda>(k, v). \<not> unix now \<ge> v) m)"
    using assms(1) by (simp add: Load_def Let_def cleanExpiredCooldowns_def resetIfNewDay_def)
  have "map_of (nil_map (ds_Cooldowns ?s)) key =
        (case map_of m key of None \<Rightarrow> None | Some v \<Rightarrow> if \<not> unix now \<ge> v then Some v else None)" for key
    using filter_map_of_distinct [of m "\<lambda>v. \<not> unix now \<ge> v" key] assms(2)
    by (simp add: cd nil_map_def m_ok_def)
  then have "fst (IsCooldownActive now plugin target ?s) \<longleftrightarrow>
            (\<exists>e. map_of m (agg_key plugin target) = Some e \<and> unix now < e)"
    by (auto simp: IsCooldownActive_def Let_def split: option.splits)
  moreover have "ds_Date d \<noteq> date now \<longrightarrow> fst (TotalTokens date now ?s) = 0"
    using assms(1)
    by (simp add: Load_def Let_def cleanExpiredCooldowns_def resetIfNewDay_def TotalTokens_def)
  moreover have "UpdateCooldown now plugin target c ?s \<noteq> None" by (simp add: UpdateCooldown_def cd)
  ultimately show ?thesis by blast
qed

theorem load_restores_cooldowns_witness:
  "fst (IsCooldownActive (3 * Second) ''disk'' ''/''
     (Load (\<lambda>_. ''today'') (3 * Second) (Decoded \<lparr>ds_Date = ''old'', ds_InputTokens = 7, ds_OutputTokens = 1,
        ds_Cooldowns = Some [(''disk::/'', 9), (''cpu::x'', 2)]\<rparr>) (NewDiagnoseState (\<lambda>_. ''today'') 0)))"
  using load_restores_cooldowns [of "\<lparr>ds_Date = ''old'', ds_InputTokens = 7, ds_OutputTokens = 1,
        ds_Cooldowns = Some [(''disk::/'', 9), (''cpu::x'', 2)]\<rparr>" "[(''disk::/'', 9), (''cpu::x'', 2)]"
        "3 * Second" "''disk''" "''/''" "\<lambda>_. ''today''" "NewDiagnoseState (\<lambda>_. ''today'') 0"]
  by (simp add: agg_key_def unix_def m_ok_def)

text \<open>Removal index by index.\<close>

lemma removed_iff:
  assumes "distinct (map fst files)" "i < length files"
  shows "fst (files ! i) \<in> set (map (\<lambda>i. fst (files ! i)) (filter P [0..<length files])) \<longleftrightarrow> P i"
  using assms nth_eq_iff_index_eq [of "map fst files"] by auto

lemma kept_count:
  assumes "distinct (map fst files)" "\<And>i. i < length files \<Longrightarrow> n \<le> i \<Longrightarrow> P i"
  shows "card {x \<in> set (map fst files).
     x \<notin> set (map (\<lambda>i. fst (files ! i)) (filter P [0..<length files]))} \<le> n"
proof -
  have "{x \<in> set (map fst files). x \<notin> set (map (\<lambda>i. fst (files ! i)) (filter P [0..<length files]))}
        \<subseteq> (\<lambda>i. fst (files ! i)) ` {..<n}"
  proof
    fix x assume x: "x \<in> {x \<in> set (map fst files).
        x \<notin> set (map (\<lambda>i. fst (files ! i)) (filter P [0..<length files]))}"
    then obtain i where i: "i < length files" "x = fst (files ! i)" by (auto simp: in_set_conv_nth)
    then have "\<not> P i" using x removed_iff [OF assms(1) i(1), of P] by auto
    then have "i < n" using assms(2) [OF i(1)] by (meson not_le)
    then show "x \<in> (\<lambda>i. fst (files ! i)) ` {..<n}" using i by auto
  qed
  then have "card {x \<in> set (map fst files). x \<notin> set (map (\<lambda>i. fst (files ! i)) (filter P [0..<length files]))}
      \<le> card ((\<lambda>i. fst (files ! i)) ` {..<n})"
    by (rule card_mono [rotated]) simp
  also have "\<dots> \<le> n" using card_image_le [of "{..<n}" "\<lambda>i. fst (files ! i)"] by simp
  finally show ?thesis .
qed

text \<open>A file behind \<open>n\<close> others in the sorted list has \<open>n\<close> files at least as new.\<close>

lemma newer_count:
  assumes "sorted_wrt (\<lambda>x y. snd x \<ge> snd y) files" "distinct (map fst files)"
    "i < length files" "n \<le> i"
  shows "n \<le> card {f \<in> set files. fst f \<noteq> fst (files ! i) \<and> snd f \<ge> snd (files ! i)}"
proof -
  have inj: "inj_on (\<lambda>j. files ! j) {..<n}"
    using assms(2-4) by (auto simp: inj_on_def nth_eq_iff_index_eq distinct_map)
  have "(\<lambda>j. files ! j) ` {..<n} \<subseteq> {f \<in> set files. fst f \<noteq> fst (files ! i) \<and> snd f \<ge> snd (files ! i)}"
  proof
    fix f assume "f \<in> (\<lambda>j. files ! j) ` {..<n}"
    then obtain j where j: "j < n" "f = files ! j" by auto
    then have "j < i" "j < length files" using assms(3,4) by auto
    moreover from this have "fst (files ! j) \<noteq> fst (files ! i)"
      using nth_eq_iff_index_eq [OF assms(2), of j i] assms(3) by simp
    ultimately show "f \<in> {f \<in> set files. fst f \<noteq> fst (files ! i) \<and> snd f \<ge> snd (files ! i)}"
      using j assms(1,3) by (auto simp: sorted_wrt_iff_nth_less)
  qed
  then have "card ((\<lambda>j. files ! j) ` {..<n})
      \<le> card {f \<in> set files. fst f \<noteq> fst (files ! i) \<and> snd f \<ge> snd (files ! i)}"
    by (rule card_mono [rotated]) simp
  then show ?thesis using card_image [OF inj] by simp
qed

text \<open>cleaning up removes enough and not too much, for every permitted result of the sort: afterwards
  at most \<open>maxCount\<close> records remain and none of them is older than the retention; and a record is
  removed only if it is older than that or at least \<open>maxCount\<close> other records are as new as it.\<close>

theorem cleanup_bounds:
  fixes now :: int
  assumes "newest_first sortSlice" "distinct (map fst (record_files entries))"
    "0 < maxCount" "0 < retention"
  defines "removed \<equiv> CleanupRecords sortSlice now retention maxCount entries"
  shows "card {n \<in> fst ` set (record_files entries). n \<notin> set removed} \<le> nat maxCount \<and>
    (\<forall>(n, t) \<in> set (record_files entries). n \<notin> set removed \<longrightarrow> now - t \<le> retention) \<and>
    (\<forall>n \<in> set removed. \<exists>t. (n, t) \<in> set (record_files entries) \<and>
       (now - t > retention \<or>
        nat maxCount \<le> card {f \<in> set (record_files entries). fst f \<noteq> n \<and> snd f \<ge> t}))"
proof -
  define files where "files = sortSlice (record_files entries)"
  let ?P = "\<lambda>i. should_remove now retention maxCount i (snd (files ! i))"
  have ms: "mset files = mset (record_files entries)"
    and sorted: "sorted_wrt (\<lambda>x y. snd x \<ge> snd y) files"
    using assms(1) by (auto simp: newest_first_def files_def)
  have sets: "set files = set (record_files entries)" using ms by (metis set_mset_mset)
  have dist: "distinct (map fst files)"
    using assms(2) ms by (metis mset_map mset_eq_imp_distinct_iff)
  have rem: "removed = map (\<lambda>i. fst (files ! i)) (filter ?P [0..<length files])"
    by (simp add: removed_def CleanupRecords_def files_def Let_def)
  have "card {n \<in> set (map fst files). n \<notin> set removed} \<le> nat maxCount"
    unfolding rem using assms(3) by (intro kept_count [OF dist]) (auto simp: should_remove_def)
  moreover have "now - t \<le> retention" if nt: "(n, t) \<in> set files" "n \<notin> set removed" for n t
  proof -
    obtain i where i: "i < length files" "files ! i = (n, t)" using nt by (auto simp: in_set_conv_nth)
    then have "\<not> ?P i" using nt(2) removed_iff [OF dist i(1), of ?P] rem by auto
    then show ?thesis using i assms(4) by (auto simp: should_remove_def)
  qed
  moreover have "\<exists>t. (n, t) \<in> set files \<and> (now - t > retention \<or>
      nat maxCount \<le> card {f \<in> set files. fst f \<noteq> n \<and> snd f \<ge> t})" if "n \<in> set removed" for n
  proof -
    from that rem obtain i where i: "i < length files" "?P i" "n = fst (files ! i)" by auto
    then show ?thesis
      using newer_count [OF sorted dist i(1), of "nat maxCount"] assms(3)
      by (intro exI [of _ "snd (files ! i)"]) (auto simp: should_remove_def nat_le_iff)
  qed
  ultimately show ?thesis unfolding sets [symmetric] by (auto simp: sets)
qed

definition sort_newest :: "(string \<times> int) list \<Rightarrow> (string \<times> int) list" where
  "sort_newest xs = sort_key (\<lambda>f. - snd f) xs"

lemma sort_newest_ok: "newest_first sort_newest"
proof -
  have "sorted_wrt (\<lambda>x y. snd x \<ge> snd y) (sort_newest xs)" for xs
    using sorted_sort_key [of "\<lambda>f. - snd f" xs] by (simp add: sorted_wrt_map sort_newest_def)
  then show ?thesis by (simp add: newest_first_def sort_newest_def)
qed

definition sample_dir :: "dir_entry list" where
  "sample_dir = [\<lparr>de_Name = ''a.json'', de_IsDir = False, de_ModTime = Some 10\<rparr>,
     \<lparr>de_Name = ''b.json'', de_IsDir = False, de_ModTime = Some 90\<rparr>,
     \<lparr>de_Name = ''c.txt'', de_IsDir = False, de_ModTime = Some 1\<rparr>]"

theorem cleanup_bounds_witness:
  "card {n \<in> fst ` set (record_files sample_dir).
      n \<notin> set (CleanupRecords sort_newest 100 50 1 sample_dir)} \<le> 1"
proof -
  have "record_files sample_dir = [(''a.json'', 10), (''b.json'', 90)]" by code_simp
  then show ?thesis
    using cleanup_bounds [OF sort_newest_ok, of sample_dir 1 50 100] by simp
qed

end
