(* ===== verification/Diag_Engine.thy ===== *)
theory Diag_Engine
  imports Executor AI_Client Diag_State
begin

text \<open>
  \<^verbatim>\<open>digcore/diagnose/engine.go\<close>: the coordinator of AI diagnoses. The first part models one run
  (\<^verbatim>\<open>diagnose\<close>, \<^verbatim>\<open>RunDiagnose\<close>, \<^verbatim>\<open>forwardReport\<close>) as a function of the answers of the model and of the tools;
  the second part models the engine shared by concurrent runs (\<^verbatim>\<open>Submit\<close>, the semaphore, the in-flight
  map, \<^verbatim>\<open>Shutdown\<close>) as a step relation over all interleavings. The prompts, the clock and the tool
  functions are arguments.
\<close>

section \<open>One run\<close>

text \<open>What a run sees of its environment: the context's error before a round, the failover client's reply
  to the messages and tools of a round (a nil response without an error is possible, see
  \<^verbatim>\<open>ChatWithRetry\<close>), the registry with the tool functions as they answer in that round, the duration of a
  call, the JSON decoder, \<^verbatim>\<open>%q\<close> quoting, \<^verbatim>\<open>runtime.GOOS\<close>, the session's accessor and the tool
  definitions sent to the model.\<close>

record diag_env =
  dv_ctxErr :: "nat \<Rightarrow> ai_error option"
  dv_chat :: "nat \<Rightarrow> AIMessage list \<Rightarrow> Tool list \<Rightarrow> ChatResponse option \<times> string \<times> ai_error option"
  dv_registry :: "nat \<Rightarrow> ToolRegistry"
  dv_ms :: "nat \<Rightarrow> ToolCall \<Rightarrow> int"
  dv_json :: json_decoder
  dv_quote :: "string \<Rightarrow> string"
  dv_goos :: string
  dv_accessor :: "addr option"
  dv_toolDefs :: "Tool list"

record diag_cfg =
  dg_maxRounds :: int
  dg_contextWindowLimit :: int
  dg_language :: string
  dg_primary :: string

datatype diag_result = DReport string | DError ai_error | DPanic

text \<open>The two closing instructions appended to the conversation.\<close>

definition context_exhausted :: string where
  "context_exhausted =
     ([CHR 0xE4, CHR 0xB8, CHR 0x8A, CHR 0xE4, CHR 0xB8, CHR 0x8B, CHR 0xE6, CHR 0x96, CHR 0x87, CHR 0xE7, CHR 0xA9, CHR 0xBA]
      @ [CHR 0xE9, CHR 0x97, CHR 0xB4, CHR 0xE5, CHR 0x8D, CHR 0xB3, CHR 0xE5, CHR 0xB0, CHR 0x86, CHR 0xE8, CHR 0x80, CHR 0x97]
      @ [CHR 0xE5, CHR 0xB0, CHR 0xBD, CHR 0xE3, CHR 0x80, CHR 0x82, CHR 0xE8, CHR 0xAF, CHR 0xB7, CHR 0xE5, CHR 0x9F, CHR 0xBA]
      @ [CHR 0xE4, CHR 0xBA, CHR 0x8E, CHR 0xE7, CHR 0x9B, CHR 0xAE, CHR 0xE5, CHR 0x89, CHR 0x8D, CHR 0xE6, CHR 0x94, CHR 0xB6]
      @ [CHR 0xE9, CHR 0x9B, CHR 0x86, CHR 0xE5, CHR 0x88, CHR 0xB0, CHR 0xE7, CHR 0x9A, CHR 0x84, CHR 0xE4, CHR 0xBF, CHR 0xA1]
      @ [CHR 0xE6, CHR 0x81, CHR 0xAF, CHR 0xEF, CHR 0xBC, CHR 0x8C, CHR 0xE7, CHR 0xAB, CHR 0x8B, CHR 0xE5, CHR 0x8D, CHR 0xB3]
      @ [CHR 0xE8, CHR 0xBE, CHR 0x93, CHR 0xE5, CHR 0x87, CHR 0xBA, CHR 0xE6, CHR 0x9C, CHR 0x80, CHR 0xE7, CHR 0xBB, CHR 0x88]
      @ [CHR 0xE8, CHR 0xAF, CHR 0x8A, CHR 0xE6, CHR 0x96, CHR 0xAD, CHR 0xE6, CHR 0x8A, CHR 0xA5, CHR 0xE5, CHR 0x91, CHR 0x8A]
      @ [CHR 0xE3, CHR 0x80, CHR 0x82, CHR 0xE4, CHR 0xB8, CHR 0x8D, CHR 0xE8, CHR 0xA6, CHR 0x81, CHR 0xE5, CHR 0x86, CHR 0x8D]
      @ [CHR 0xE8, CHR 0xB0, CHR 0x83, CHR 0xE7, CHR 0x94, CHR 0xA8, CHR 0xE4, CHR 0xBB, CHR 0xBB, CHR 0xE4, CHR 0xBD, CHR 0x95]
      @ [CHR 0xE5, CHR 0xB7, CHR 0xA5, CHR 0xE5, CHR 0x85, CHR 0xB7, CHR 0xE3, CHR 0x80, CHR 0x82])"

definition rounds_exhausted :: string where
  "rounds_exhausted =
     ([CHR 0xE4, CHR 0xBD, CHR 0xA0, CHR 0xE5, CHR 0xB7, CHR 0xB2, CHR 0xE4, CHR 0xBD, CHR 0xBF, CHR 0xE7, CHR 0x94, CHR 0xA8]
      @ [CHR 0xE4, CHR 0xBA, CHR 0x86, CHR 0xE6, CHR 0x89, CHR 0x80, CHR 0xE6, CHR 0x9C, CHR 0x89, CHR 0xE5, CHR 0x8F, CHR 0xAF]
      @ [CHR 0xE7, CHR 0x94, CHR 0xA8, CHR 0xE7, CHR 0x9A, CHR 0x84, CHR 0xE5, CHR 0xB7, CHR 0xA5, CHR 0xE5, CHR 0x85, CHR 0xB7]
      @ [CHR 0xE8, CHR 0xB0, CHR 0x83, CHR 0xE7, CHR 0x94, CHR 0xA8, CHR 0xE8, CHR 0xBD, CHR 0xAE, CHR 0xE6, CHR 0xAC, CHR 0xA1]
      @ [CHR 0xE3, CHR 0x80, CHR 0x82, CHR 0xE8, CHR 0xAF, CHR 0xB7, CHR 0xE5, CHR 0x9F, CHR 0xBA, CHR 0xE4, CHR 0xBA, CHR 0x8E]
      @ [CHR 0xE7, CHR 0x9B, CHR 0xAE, CHR 0xE5, CHR 0x89, CHR 0x8D, CHR 0xE6, CHR 0x94, CHR 0xB6, CHR 0xE9, CHR 0x9B, CHR 0x86]
      @ [CHR 0xE5, CHR 0x88, CHR 0xB0, CHR 0xE7, CHR 0x9A, CHR 0x84, CHR 0xE4, CHR 0xBF, CHR 0xA1, CHR 0xE6, CHR 0x81, CHR 0xAF]
      @ [CHR 0xEF, CHR 0xBC, CHR 0x8C, CHR 0xE7, CHR 0xAB, CHR 0x8B, CHR 0xE5, CHR 0x8D, CHR 0xB3, CHR 0xE8, CHR 0xBE, CHR 0x93]
      @ [CHR 0xE5, CHR 0x87, CHR 0xBA, CHR 0xE6, CHR 0x9C, CHR 0x80, CHR 0xE7, CHR 0xBB, CHR 0x88, CHR 0xE8, CHR 0xAF, CHR 0x8A]
      @ [CHR 0xE6, CHR 0x96, CHR 0xAD, CHR 0xE6, CHR 0x8A, CHR 0xA5, CHR 0xE5, CHR 0x91, CHR 0x8A, CHR 0xE3, CHR 0x80, CHR 0x82]
      @ [CHR 0xE4, CHR 0xB8, CHR 0x8D, CHR 0xE8, CHR 0xA6, CHR 0x81, CHR 0xE5, CHR 0x86, CHR 0x8D, CHR 0xE8, CHR 0xB0, CHR 0x83]
      @ [CHR 0xE7, CHR 0x94, CHR 0xA8, CHR 0xE4, CHR 0xBB, CHR 0xBB, CHR 0xE4, CHR 0xBD, CHR 0x95, CHR 0xE5, CHR 0xB7, CHR 0xA5]
      @ [CHR 0xE5, CHR 0x85, CHR 0xB7, CHR 0xE3, CHR 0x80, CHR 0x82])"

definition incomplete_zh :: string where
  "incomplete_zh =
     (''[''
      @ [CHR 0xE8, CHR 0xAF, CHR 0x8A, CHR 0xE6, CHR 0x96, CHR 0xAD, CHR 0xE6, CHR 0x9C, CHR 0xAA, CHR 0xE5, CHR 0xAE, CHR 0x8C]
      @ [CHR 0xE6, CHR 0x88, CHR 0x90]
      @ ''] ''
      @ [CHR 0xE5, CHR 0xB7, CHR 0xB2, CHR 0xE8, CHR 0xBE, CHR 0xBE, CHR 0xE5, CHR 0x88, CHR 0xB0, CHR 0xE6, CHR 0x9C, CHR 0x80]
      @ [CHR 0xE5, CHR 0xA4, CHR 0xA7, CHR 0xE8, CHR 0xBD, CHR 0xAE, CHR 0xE6, CHR 0xAC, CHR 0xA1, CHR 0xE9, CHR 0x99, CHR 0x90]
      @ [CHR 0xE5, CHR 0x88, CHR 0xB6, CHR 0xEF, CHR 0xBC, CHR 0x8C]
      @ ''AI ''
      @ [CHR 0xE6, CHR 0x9C, CHR 0xAA, CHR 0xE8, CHR 0x83, CHR 0xBD, CHR 0xE5, CHR 0x9C, CHR 0xA8, CHR 0xE9, CHR 0x99, CHR 0x90]
      @ [CHR 0xE5, CHR 0xAE, CHR 0x9A, CHR 0xE8, CHR 0xBD, CHR 0xAE, CHR 0xE6, CHR 0xAC, CHR 0xA1, CHR 0xE5, CHR 0x86, CHR 0x85]
      @ [CHR 0xE8, CHR 0xBE, CHR 0x93, CHR 0xE5, CHR 0x87, CHR 0xBA, CHR 0xE6, CHR 0x9C, CHR 0x80, CHR 0xE7, CHR 0xBB, CHR 0x88]
      @ [CHR 0xE6, CHR 0x8A, CHR 0xA5, CHR 0xE5, CHR 0x91, CHR 0x8A, CHR 0xE3, CHR 0x80, CHR 0x82])"

definition incomplete_en :: string where
  "incomplete_en = ''[Incomplete] Max round limit reached, AI did not produce a final report.''"

text \<open>\<^verbatim>\<open>diagnoseUserKickoffMessage\<close>.\<close>

definition kickoff_inspect_zh :: string where
  "kickoff_inspect_zh =
     ([CHR 0xE8, CHR 0xAF, CHR 0xB7, CHR 0xE6, CHR 0xA0, CHR 0xB9, CHR 0xE6, CHR 0x8D, CHR 0xAE, CHR 0xE4, CHR 0xB8, CHR 0x8A]
      @ [CHR 0xE8, CHR 0xBF, CHR 0xB0, CHR 0xE5, CHR 0xB7, CHR 0xA1, CHR 0xE6, CHR 0xA3, CHR 0x80, CHR 0xE4, CHR 0xBB, CHR 0xBB]
      @ [CHR 0xE5, CHR 0x8A, CHR 0xA1, CHR 0xE8, CHR 0xAF, CHR 0xB4, CHR 0xE6, CHR 0x98, CHR 0x8E, CHR 0xE5, CHR 0xBC, CHR 0x80]
      @ [CHR 0xE5, CHR 0xA7, CHR 0x8B, CHR 0xE6, CHR 0xA3, CHR 0x80, CHR 0xE6, CHR 0x9F, CHR 0xA5, CHR 0xEF, CHR 0xBC, CHR 0x88]
      @ [CHR 0xE5, CHR 0x8F, CHR 0xAF, CHR 0xE8, CHR 0xB0, CHR 0x83, CHR 0xE7, CHR 0x94, CHR 0xA8, CHR 0xE5, CHR 0xB7, CHR 0xA5]
      @ [CHR 0xE5, CHR 0x85, CHR 0xB7, CHR 0xEF, CHR 0xBC, CHR 0x89, CHR 0xE3, CHR 0x80, CHR 0x82])"

definition kickoff_alert_zh :: string where
  "kickoff_alert_zh =
     ([CHR 0xE8, CHR 0xAF, CHR 0xB7, CHR 0xE6, CHR 0xA0, CHR 0xB9, CHR 0xE6, CHR 0x8D, CHR 0xAE, CHR 0xE4, CHR 0xB8, CHR 0x8A]
      @ [CHR 0xE8, CHR 0xBF, CHR 0xB0, CHR 0xE5, CHR 0x91, CHR 0x8A, CHR 0xE8, CHR 0xAD, CHR 0xA6, CHR 0xE4, CHR 0xBF, CHR 0xA1]
      @ [CHR 0xE6, CHR 0x81, CHR 0xAF, CHR 0xE5, CHR 0xBC, CHR 0x80, CHR 0xE5, CHR 0xA7, CHR 0x8B, CHR 0xE6, CHR 0xA0, CHR 0xB9]
      @ [CHR 0xE5, CHR 0x9B, CHR 0xA0, CHR 0xE8, CHR 0xAF, CHR 0x8A, CHR 0xE6, CHR 0x96, CHR 0xAD, CHR 0xEF, CHR 0xBC, CHR 0x88]
      @ [CHR 0xE5, CHR 0x8F, CHR 0xAF, CHR 0xE8, CHR 0xB0, CHR 0x83, CHR 0xE7, CHR 0x94, CHR 0xA8, CHR 0xE5, CHR 0xB7, CHR 0xA5]
      @ [CHR 0xE5, CHR 0x85, CHR 0xB7, CHR 0xEF, CHR 0xBC, CHR 0x89, CHR 0xE3, CHR 0x80, CHR 0x82])"

definition diagnoseUserKickoffMessage :: "string \<Rightarrow> string \<Rightarrow> string" where
  "diagnoseUserKickoffMessage mode lang =
     (let isZH = (lang = [] \<or> lang = ''zh'') in
      if mode = ModeInspect then
        (if isZH then kickoff_inspect_zh
         else ''Begin the inspection as described in the system message above (you may use tools).'')
      else if isZH then kickoff_alert_zh
      else ''Begin root-cause diagnosis for the alert described in the system message above (you may use tools).'')"

text \<open>The local variables of \<^verbatim>\<open>diagnose\<close> that its loop changes; \<open>dl_sent\<close> collects what was sent to the model.\<close>

record diag_loop =
  dl_messages :: "AIMessage list"
  dl_estimated :: int
  dl_warned :: bool
  dl_record :: DiagnoseRecord
  dl_sent :: "AIMessage list list"

text \<open>The beginning of a round: compaction, then at most one closing instruction.\<close>

definition round_prepare :: "diag_cfg \<Rightarrow> nat \<Rightarrow> diag_loop \<Rightarrow> diag_loop" where
  "round_prepare cfg rnd l =
     (let limit = dg_contextWindowLimit cfg;
          l = (if limit > 0 \<and> dl_estimated l > limit then
                 let ms = CompactMessages (dl_messages l) limit
                 in l\<lparr>dl_messages := ms, dl_estimated := EstimateMessagesTokens ms\<rparr>
               else l)
      in if limit > 0 \<and> \<not> dl_warned l \<and> dl_estimated l > i64 (limit * 90) sdiv 100 then
           l\<lparr>dl_warned := True, dl_messages := dl_messages l @ [plain_message ''user'' context_exhausted]\<rparr>
         else if int rnd = dg_maxRounds cfg - 1 then
           l\<lparr>dl_messages := dl_messages l @ [plain_message ''user'' rounds_exhausted]\<rparr>
         else l)"

text \<open>One tool call of a round: the result message and the record entry.\<close>

definition run_tool_call :: "diag_env \<Rightarrow> nat \<Rightarrow> AIMessage list \<times> int \<times> ToolCallRecord list \<Rightarrow> ToolCall \<Rightarrow>
    AIMessage list \<times> int \<times> ToolCallRecord list" where
  "run_tool_call env rnd st tc =
     (let (messages, est, calls) = st;
          name = fn_Name (tc_Function tc);
          raw = fn_Arguments (tc_Function tc);
          result = (case executeTool (dv_json env) (dv_quote env) (dv_goos env) (dv_registry env rnd)
                            (Some (dv_accessor env)) name raw of Inr out \<Rightarrow> out | Inl err \<Rightarrow> ''error: '' @ err);
          msg = (plain_message ''tool'' (TruncateOutput result))\<lparr>am_ToolCallID := tc_ID tc\<rparr>
      in (messages @ [msg], est + EstimateMessageTokens msg,
          calls @ [\<lparr>tr_Name = name, tr_Args = ParseArgs (dv_json env) raw,
                    tr_Result = TruncateForRecord result, tr_DurationMs = dv_ms env rnd tc\<rparr>]))"

definition assistant_message :: "string \<Rightarrow> ToolCall list \<Rightarrow> AIMessage" where
  "assistant_message content toolCalls = (plain_message ''assistant'' content)\<lparr>am_ToolCalls := toolCalls\<rparr>"

text \<open>The rest of a round once the model has asked for tools.\<close>

definition round_tools :: "diag_env \<Rightarrow> nat \<Rightarrow> string \<Rightarrow> ToolCall list \<Rightarrow> diag_loop \<Rightarrow> diag_loop" where
  "round_tools env rnd content toolCalls l =
     (let a = assistant_message content toolCalls;
          (messages, est, calls) =
            foldl (run_tool_call env rnd)
              (dl_messages l @ [a], dl_estimated l + EstimateMessageTokens a, []) toolCalls;
          rec = dl_record l
      in l\<lparr>dl_messages := messages, dl_estimated := est,
           dl_record := rec\<lparr>dr_Rounds := dr_Rounds rec @
             [\<lparr>rr_Round = int rnd + 1, rr_ToolCalls = calls, rr_AIReasoning = content\<rparr>]\<rparr>\<rparr>)"

definition set_model :: "string \<Rightarrow> diag_loop \<Rightarrow> diag_loop" where
  "set_model name l =
     (let rec = dl_record l in l\<lparr>dl_record := rec\<lparr>dr_AI := (dr_AI rec)\<lparr>ai_Model := name\<rparr>\<rparr>\<rparr>)"

text \<open>Taking the model's answer into the record and the token estimate.\<close>

definition account_response :: "ChatResponse \<Rightarrow> string \<Rightarrow> diag_loop \<Rightarrow> diag_loop" where
  "account_response resp modelName l =
     (let u = cr_Usage resp; rec = dl_record l; ai = dr_AI rec in
      l\<lparr>dl_estimated := (if us_TotalTokens u > 0 then us_TotalTokens u else dl_estimated l),
        dl_record := rec\<lparr>dr_AI := ai\<lparr>ai_Model := modelName,
          ai_InputTokens := ai_InputTokens ai + us_PromptTokens u,
          ai_OutputTokens := ai_OutputTokens ai + us_CompletionTokens u\<rparr>\<rparr>\<rparr>)"

definition first_choice :: "ChatResponse \<Rightarrow> string \<times> ToolCall list" where
  "first_choice resp =
     (case cr_Choices resp of
        [] \<Rightarrow> ([], [])
      | c # _ \<Rightarrow> (am_Content (ch_Message c), am_ToolCalls (ch_Message c)))"

definition set_rounds :: "int \<Rightarrow> diag_loop \<Rightarrow> diag_loop" where
  "set_rounds n l =
     (let rec = dl_record l in
      l\<lparr>dl_record := rec\<lparr>dr_AI := (dr_AI rec)\<lparr>ai_TotalRounds := n\<rparr>\<rparr>\<rparr>)"

function diagnose_loop :: "diag_env \<Rightarrow> diag_cfg \<Rightarrow> nat \<Rightarrow> diag_loop \<Rightarrow> diag_result \<times> diag_loop" where
  "diagnose_loop env cfg rnd l =
     (if int rnd \<ge> dg_maxRounds cfg then
        (DReport (if dg_language cfg = ''zh'' then incomplete_zh else incomplete_en),
         set_rounds (dg_maxRounds cfg) l)
      else if dv_ctxErr env rnd \<noteq> None then (DError (the (dv_ctxErr env rnd)), l)
      else
        let l = round_prepare cfg rnd l;
            l = l\<lparr>dl_sent := dl_sent l @ [dl_messages l]\<rparr>
        in case dv_chat env rnd (dl_messages l) (dv_toolDefs env) of
             (_, _, Some err) \<Rightarrow>
               (DError (WrapAI (''AI API error at round '' @ show_nat (rnd + 1)) err), l)
           | (None, modelName, None) \<Rightarrow> (DPanic, set_model modelName l)
           | (Some resp, modelName, None) \<Rightarrow>
               let l = account_response resp modelName l;
                   (content, toolCalls) = first_choice resp
               in if toolCalls = [] then (DReport content, set_rounds (int rnd + 1) l)
                  else diagnose_loop env cfg (rnd + 1) (round_tools env rnd content toolCalls l))"
  by pat_completeness auto
termination
  by (relation "measure (\<lambda>(env, cfg, rnd, l). nat (dg_maxRounds cfg - int rnd))") auto

declare diagnose_loop.simps [simp del]

text \<open>\<^verbatim>\<open>diagnose\<close>: the accessor (\<^verbatim>\<open>initSessionAccessor\<close>), the two opening messages, the loop. The prompt
  builder is an argument; it sees what the pre-collectors and the registry return. Allocating the
  message slice panics for a negative number of rounds.\<close>

definition initSessionAccessor :: "(string \<Rightarrow> string) \<Rightarrow> ToolRegistry \<Rightarrow> DiagnoseRequest \<Rightarrow> string + addr option" where
  "initSessionAccessor quote r req =
     (case rq_InstanceRef req of
        None \<Rightarrow> Inr None
      | Some ref \<Rightarrow>
          if \<not> HasAccessorFactory (rq_Plugin req) r then Inr None
          else case CreateAccessor quote (rq_Plugin req) ref (rq_Target req) r of
                 Inl err \<Rightarrow> Inl (''create accessor for '' @ agg_key (rq_Plugin req) (rq_Target req) @ '': '' @ err)
               | Inr a \<Rightarrow> Inr (Some a))"

definition opening_messages :: "string \<Rightarrow> DiagnoseRequest \<Rightarrow> string \<Rightarrow> AIMessage list" where
  "opening_messages prompt req language =
     [plain_message ''system'' prompt,
      plain_message ''user'' (diagnoseUserKickoffMessage (rq_Mode req) language)]"

text \<open>What the two prompt builders get besides the request.\<close>

record promptContext =
  px_preCollected :: string
  px_diagnoseHints :: string
  px_systemBaseline :: "(string, string) gomap"
  px_directTools :: string
  px_toolCatalog :: string
  px_isRemote :: bool

definition isRemoteTarget :: "string \<Rightarrow> bool" where
  "isRemoteTarget target =
     (let t = to_lower target in
      if prefix ''localhost'' t \<or> prefix ''127.'' t \<or> prefix ''[::1]'' t \<or> prefix ''::1'' t then False
      else \<not> (t = [] \<or> t = ''/''))"

definition direct_param :: "ToolParam \<Rightarrow> string" where
  "direct_param p =
     (''  ''
      @ [CHR 0xE5, CHR 0x8F, CHR 0x82, CHR 0xE6, CHR 0x95, CHR 0xB0]
      @ '' '') @ tp_Name p @ '' ('' @ tp_Type p @ ''): '' @ tp_Description p
     @ (if tp_Required p then ('' (''
      @ [CHR 0xE5, CHR 0xBF, CHR 0x85, CHR 0xE9, CHR 0x9C, CHR 0x80]
      @ '')'') else []) @ [nl]"

definition formatDirectTools :: "DiagnoseTool list \<Rightarrow> string" where
  "formatDirectTools tools =
     (if tools = [] then (''(''
      @ [CHR 0xE6, CHR 0x97, CHR 0xA0, CHR 0xE7, CHR 0x9B, CHR 0xB4, CHR 0xE6, CHR 0x8E, CHR 0xA5, CHR 0xE5, CHR 0xB7, CHR 0xA5]
      @ [CHR 0xE5, CHR 0x85, CHR 0xB7]
      @ '')'')
      else concat (map (\<lambda>t. ''- '' @ dt_Name t @ '': '' @ dt_Description t @ [nl]
                           @ concat (map direct_param (dt_Parameters t))) tools))"

definition prompt_context :: "(string \<Rightarrow> string) \<Rightarrow> diag_env \<Rightarrow> DiagnoseRequest \<Rightarrow> promptContext" where
  "prompt_context descr env req =
     (let r = dv_registry env 0; isRemote = isRemoteTarget (rq_Target req) in
      \<lparr>px_preCollected = RunPreCollector (rq_Plugin req) (dv_accessor env) r,
       px_diagnoseHints = GetDiagnoseHints (rq_Plugin req) r,
       px_systemBaseline = (if \<not> isRemote then RunBaselinePreCollectors (rq_Plugin req) r else []),
       px_directTools = formatDirectTools (snd (buildToolSet descr r req)),
       px_toolCatalog = ListToolCatalogSmartForOS (rq_RuntimeOS req) r,
       px_isRemote = isRemote\<rparr>)"

definition with_os :: "string \<Rightarrow> DiagnoseRequest \<Rightarrow> DiagnoseRequest" where
  "with_os goos req = (if rq_RuntimeOS req = [] then req\<lparr>rq_RuntimeOS := goos\<rparr> else req)"

definition session_env :: "(string \<Rightarrow> string) \<Rightarrow> DiagnoseRequest \<Rightarrow> addr option \<Rightarrow> diag_env \<Rightarrow> diag_env" where
  "session_env descr req accessor env =
     env\<lparr>dv_accessor := accessor, dv_toolDefs := fst (buildToolSet descr (dv_registry env 0) req)\<rparr>"

definition diagnose ::
    "diag_env \<Rightarrow> diag_cfg \<Rightarrow> (string \<Rightarrow> string) \<Rightarrow> (DiagnoseRequest \<Rightarrow> promptContext \<Rightarrow> string) \<Rightarrow>
     DiagnoseRequest \<Rightarrow> DiagnoseRecord \<Rightarrow> diag_result \<times> diag_loop" where
  "diagnose env cfg descr prompt req rec =
     (case initSessionAccessor (dv_quote env) (dv_registry env 0) req of
        Inl err \<Rightarrow>
          (DError (WrapAI ''create accessor'' (OtherError err)),
           \<lparr>dl_messages = [], dl_estimated = 0, dl_warned = False, dl_record = rec, dl_sent = []\<rparr>)
      | Inr accessor \<Rightarrow>
          if dg_maxRounds cfg < 0 then
            (DPanic, \<lparr>dl_messages = [], dl_estimated = 0, dl_warned = False, dl_record = rec, dl_sent = []\<rparr>)
          else
          let req = with_os (dv_goos env) req;
              env = session_env descr req accessor env;
              messages = opening_messages (prompt req (prompt_context descr env req)) req (dg_language cfg)
          in diagnose_loop env cfg 0
               \<lparr>dl_messages = messages, dl_estimated = EstimateMessagesTokens (take 2 messages),
                dl_warned = False, dl_record = rec\<lparr>dr_AI := (dr_AI rec)\<lparr>ai_Model := dg_primary cfg\<rparr>\<rparr>,
                dl_sent = []\<rparr>)"

text \<open>\<^verbatim>\<open>forwardReport\<close>: the alert keys that get the comment, in order, each once.\<close>

fun forward_keys :: "string list \<Rightarrow> string list \<Rightarrow> string list" where
  "forward_keys seen [] = []"
| "forward_keys seen (k # ks) =
     (if k \<in> set seen then forward_keys seen ks else k # forward_keys (k # seen) ks)"

definition forwardReport :: "string list \<Rightarrow> DiagnoseRecord \<Rightarrow> string \<Rightarrow> string \<Rightarrow> (string \<times> string) list" where
  "forwardReport alertKeys record report language =
     (let comment = FormatReportComment record report language
      in map (\<lambda>k. (k, comment)) (forward_keys [] alertKeys))"

text \<open>The effects of \<^verbatim>\<open>RunDiagnose\<close>, in order.\<close>

datatype run_effect =
    SaveRecord DiagnoseRecord
  | Comment string string
  | AddTokensEff int int
  | UpdateCooldownEff
  | SaveState

text \<open>\<^verbatim>\<open>RunDiagnose\<close> after the engine bookkeeping; \<open>alertKeys\<close> are the keys of the request's events, and the
  rendering of an error as text is an argument. The deferred recovery saves the record of a run that
  panicked; nothing else of the tail runs then.\<close>

definition RunDiagnose ::
    "diag_env \<Rightarrow> diag_cfg \<Rightarrow> (string \<Rightarrow> string) \<Rightarrow> (DiagnoseRequest \<Rightarrow> promptContext \<Rightarrow> string) \<Rightarrow>
     (ai_error \<Rightarrow> string) \<Rightarrow> int \<Rightarrow> string list \<Rightarrow> DiagnoseRequest \<Rightarrow> DiagnoseRecord \<Rightarrow> DiagnoseRecord \<times> run_effect list" where
  "RunDiagnose env cfg descr prompt show_err durationMs alertKeys req rec0 =
     (let (result, l) = diagnose env cfg descr prompt req rec0; rec = dl_record l in
      case result of
        DPanic \<Rightarrow>
          let rec = rec\<lparr>dr_Status := ''failed'', dr_Error := ''panic: runtime error: invalid memory address or nil pointer dereference''\<rparr>
          in (rec, [SaveRecord rec])
      | _ \<Rightarrow>
          let (report, rec) =
                (case result of
                   DReport rp \<Rightarrow> (rp, rec\<lparr>dr_Status := ''success'', dr_Report := rp\<rparr>)
                 | DError e \<Rightarrow> ([], rec\<lparr>dr_Status := ''failed'', dr_Error := show_err e\<rparr>)
                 | DPanic \<Rightarrow> ([], rec));
              rec = rec\<lparr>dr_DurationMs := durationMs\<rparr>
          in (rec,
              [SaveRecord rec]
              @ (if report \<noteq> [] \<and> length (rq_Events req) > 0
                 then map (\<lambda>(k, c). Comment k c) (forwardReport alertKeys rec report (dg_language cfg))
                 else [])
              @ [AddTokensEff (ai_InputTokens (dr_AI rec)) (ai_OutputTokens (dr_AI rec))]
              @ (if rq_Mode req \<noteq> ModeInspect then [UpdateCooldownEff] else [])
              @ [SaveState]))"

section \<open>The shared engine\<close>

text \<open>Where a run is between being started and giving back its slot.\<close>

datatype phase = Spawned | Registered | Finishing | Unregistered

record run =
  rn_id :: nat
  rn_req :: DiagnoseRequest
  rn_phase :: phase

text \<open>
  \<open>en_remote\<close> counts the slots taken by remote sessions through \<^verbatim>\<open>TrySem\<close>; \<open>en_cancelled\<close> the runs whose context
  was cancelled by \<^verbatim>\<open>Shutdown\<close>. The cancel functions of the in-flight map are run numbers.
\<close>

record DiagnoseEngine =
  en_state :: DiagnoseState
  en_inFlight :: "(string, nat) gomap"
  en_sem :: nat
  en_semCap :: nat
  en_stopped :: bool
  en_dailyLimit :: int
  en_runs :: "run list"
  en_next :: nat
  en_remote :: nat
  en_cancelled :: "nat list"

text \<open>The state is the one loaded from disk; a negative channel capacity panics (\<open>None\<close>).\<close>

definition NewDiagnoseEngine :: "DiagnoseState \<Rightarrow> AIConfig \<Rightarrow> DiagnoseEngine option" where
  "NewDiagnoseEngine st cfg =
     (if ac_MaxConcurrentDiagnoses cfg < 0 then None
      else Some \<lparr>en_state = st, en_inFlight = [], en_sem = 0, en_semCap = nat (ac_MaxConcurrentDiagnoses cfg),
      en_stopped = False, en_dailyLimit = ac_DailyTokenLimit cfg, en_runs = [], en_next = 0,
      en_remote = 0, en_cancelled = []\<rparr>)"

text \<open>The channel \<^verbatim>\<open>e.sem\<close> as a counter.\<close>

definition TrySem :: "DiagnoseEngine \<Rightarrow> bool \<times> DiagnoseEngine" where
  "TrySem e = (if en_sem e < en_semCap e then (True, e\<lparr>en_sem := en_sem e + 1\<rparr>) else (False, e))"

text \<open>\<^verbatim>\<open>ReleaseSem\<close> receives from the channel; on an empty channel it would block (\<open>None\<close>).\<close>

definition ReleaseSem :: "DiagnoseEngine \<Rightarrow> DiagnoseEngine option" where
  "ReleaseSem e = (if en_sem e = 0 then None else Some (e\<lparr>en_sem := en_sem e - 1\<rparr>))"

text \<open>\<^verbatim>\<open>Submit\<close>: whether a run was started, and the engine after it.\<close>

definition engine_Submit :: "date_of \<Rightarrow> int \<Rightarrow> DiagnoseRequest \<Rightarrow> DiagnoseEngine \<Rightarrow> bool \<times> DiagnoseEngine" where
  "engine_Submit date now req e =
     (if en_stopped e then (False, e)
      else
        let (active, st) = IsCooldownActive now (rq_Plugin req) (rq_Target req) (en_state e);
            e = e\<lparr>en_state := st\<rparr>
        in if active then (False, e)
           else
             let (reached, st) = IsDailyLimitReached date now (en_dailyLimit e) (en_state e);
                 e = e\<lparr>en_state := st\<rparr>
             in if reached then (False, e)
                else
                  let (got, e) = TrySem e in
                  if \<not> got then (False, e)
                  else (True, e\<lparr>en_runs := en_runs e @ [\<lparr>rn_id = en_next e, rn_req = req, rn_phase = Spawned\<rparr>],
                                en_next := en_next e + 1\<rparr>))"

definition run_key :: "run \<Rightarrow> string" where
  "run_key r = agg_key (rq_Plugin (rn_req r)) (rq_Target (rn_req r))"

definition set_phase :: "nat \<Rightarrow> phase \<Rightarrow> DiagnoseEngine \<Rightarrow> DiagnoseEngine" where
  "set_phase i p e = e\<lparr>en_runs := map (\<lambda>r. if rn_id r = i then r\<lparr>rn_phase := p\<rparr> else r) (en_runs e)\<rparr>"

definition registerInFlight :: "run \<Rightarrow> DiagnoseEngine \<Rightarrow> DiagnoseEngine" where
  "registerInFlight r e = e\<lparr>en_inFlight := m_set (run_key r) (rn_id r) (en_inFlight e)\<rparr>"

definition unregisterInFlight :: "run \<Rightarrow> DiagnoseEngine \<Rightarrow> DiagnoseEngine" where
  "unregisterInFlight r e = e\<lparr>en_inFlight := m_del (run_key r) (en_inFlight e)\<rparr>"

definition Shutdown :: "DiagnoseEngine \<Rightarrow> DiagnoseEngine" where
  "Shutdown e = e\<lparr>en_stopped := True, en_cancelled := en_cancelled e @ map snd (en_inFlight e)\<rparr>"

text \<open>The steps of the engine's goroutines. A run registers itself, does its work, accounts for it
  (skipped when it panics), unregisters itself and gives back its slot; in between anything else may
  happen.\<close>

inductive engine_step :: "DiagnoseEngine \<Rightarrow> DiagnoseEngine \<Rightarrow> bool" where
  submit: "engine_step e (snd (engine_Submit date now req e))"
| register: "r \<in> set (en_runs e) \<Longrightarrow> rn_phase r = Spawned \<Longrightarrow>
    engine_step e (set_phase (rn_id r) Registered (registerInFlight r e))"
| account: "r \<in> set (en_runs e) \<Longrightarrow> rn_phase r = Registered \<Longrightarrow>
    rq_Mode (rn_req r) \<noteq> ModeInspect \<Longrightarrow>
    UpdateCooldown now (rq_Plugin (rn_req r)) (rq_Target (rn_req r)) (rq_Cooldown (rn_req r))
      (AddTokens date now i out (en_state e)) = Some st \<Longrightarrow>
    engine_step e (set_phase (rn_id r) Finishing (e\<lparr>en_state := st\<rparr>))"
| account_panics: "r \<in> set (en_runs e) \<Longrightarrow> rn_phase r = Registered \<Longrightarrow>
    rq_Mode (rn_req r) \<noteq> ModeInspect \<Longrightarrow>
    UpdateCooldown now (rq_Plugin (rn_req r)) (rq_Target (rn_req r)) (rq_Cooldown (rn_req r))
      (AddTokens date now i out (en_state e)) = None \<Longrightarrow>
    engine_step e (set_phase (rn_id r) Finishing (e\<lparr>en_state := AddTokens date now i out (en_state e)\<rparr>))"
| account_inspect: "r \<in> set (en_runs e) \<Longrightarrow> rn_phase r = Registered \<Longrightarrow>
    rq_Mode (rn_req r) = ModeInspect \<Longrightarrow>
    engine_step e (set_phase (rn_id r) Finishing (e\<lparr>en_state := AddTokens date now i out (en_state e)\<rparr>))"
| panicked: "r \<in> set (en_runs e) \<Longrightarrow> rn_phase r = Registered \<Longrightarrow>
    engine_step e (set_phase (rn_id r) Finishing e)"
| unregister: "r \<in> set (en_runs e) \<Longrightarrow> rn_phase r = Finishing \<Longrightarrow>
    engine_step e (set_phase (rn_id r) Unregistered (unregisterInFlight r e))"
| release: "r \<in> set (en_runs e) \<Longrightarrow> rn_phase r = Unregistered \<Longrightarrow> ReleaseSem e = Some e' \<Longrightarrow>
    engine_step e (e'\<lparr>en_runs := filter (\<lambda>q. rn_id q \<noteq> rn_id r) (en_runs e')\<rparr>)"
| remote_start: "TrySem e = (True, e') \<Longrightarrow> engine_step e (e'\<lparr>en_remote := en_remote e' + 1\<rparr>)"
| remote_end: "0 < en_remote e \<Longrightarrow> ReleaseSem e = Some e' \<Longrightarrow>
    engine_step e (e'\<lparr>en_remote := en_remote e' - 1\<rparr>)"
| shutdown: "engine_step e (Shutdown e)"

inductive engine_reachable :: "DiagnoseEngine \<Rightarrow> DiagnoseEngine \<Rightarrow> bool" for e0 where
  init: "engine_reachable e0 e0"
| step: "engine_reachable e0 e \<Longrightarrow> engine_step e e' \<Longrightarrow> engine_reachable e0 e'"

section \<open>Lemmas on a run\<close>

text \<open>The conversation of a run: the two opening messages stay in front and every tool result follows
  its request.\<close>

definition conv_ok :: "AIMessage list \<Rightarrow> AIMessage list \<Rightarrow> bool" where
  "conv_ok opening ms \<longleftrightarrow> orphan_free ms \<and> take 2 ms = opening"

lemma opening_ok: "conv_ok (opening_messages p req lang) (opening_messages p req lang)"
  by (simp add: conv_ok_def opening_messages_def orphan_free_def is_tool_def opens_tools_def
      plain_message_def)

lemma opening_shape:
  assumes "take 2 ms = opening_messages p req lang"
  shows "sticky ms = 2" "\<not> opens_tools (ms ! 0)" "1 < length ms"
proof -
  have "length (take 2 ms) = 2" using assms by (simp add: opening_messages_def)
  then show len: "1 < length ms" by simp
  have "ms ! 0 = take 2 ms ! 0" "ms ! 1 = take 2 ms ! 1" by simp_all
  then show "sticky ms = 2" "\<not> opens_tools (ms ! 0)"
    using assms len by (simp_all add: sticky_def opening_messages_def plain_message_def opens_tools_def)
qed

lemma compact_conv_ok:
  assumes "conv_ok (opening_messages p req lang) ms" "0 < b"
  shows "conv_ok (opening_messages p req lang) (CompactMessages ms b)"
proof -
  have t: "take 2 ms = opening_messages p req lang" and o: "orphan_free ms"
    using assms(1) by (auto simp: conv_ok_def)
  note sh = opening_shape [OF t]
  obtain kept where "CompactMessages ms b = take 2 ms @ kept"
  proof (cases "EstimateMessagesTokens ms \<le> b")
    case True
    then have "CompactMessages ms b = take 2 ms @ drop 2 ms" by (auto simp: CompactMessages_def)
    then show thesis by (rule that)
  next
    case False
    then show thesis using CompactMessages_shape [OF sh(3) assms(2)] sh(1) that by force
  qed
  moreover have "length (take 2 ms) = 2" using sh(3) by simp
  moreover have "orphan_free (CompactMessages ms b)"
  proof (cases "EstimateMessagesTokens ms \<le> b")
    case True
    then have "CompactMessages ms b = ms" by (auto simp: CompactMessages_def)
    then show ?thesis using o by simp
  next
    case False
    show ?thesis by (rule compact_orphan_free [OF o sh(3,2)])
  qed
  ultimately show ?thesis using t by (simp add: conv_ok_def)
qed

lemma conv_ok_user: "conv_ok (opening_messages p req lang) ms \<Longrightarrow>
    conv_ok (opening_messages p req lang) (ms @ [plain_message ''user'' c])"
  using opening_shape(3) [of ms p req lang] orphan_free_user [of ms c]
  by (simp add: conv_ok_def)

lemma round_prepare_ok:
  assumes "conv_ok (opening_messages p req lang) (dl_messages l)"
  shows "conv_ok (opening_messages p req lang) (dl_messages (round_prepare cfg rnd l))"
proof -
  define l1 where "l1 = (if dg_contextWindowLimit cfg > 0 \<and> dl_estimated l > dg_contextWindowLimit cfg
      then l\<lparr>dl_messages := CompactMessages (dl_messages l) (dg_contextWindowLimit cfg),
             dl_estimated := EstimateMessagesTokens (CompactMessages (dl_messages l) (dg_contextWindowLimit cfg))\<rparr>
      else l)"
  have "conv_ok (opening_messages p req lang) (dl_messages l1)"
    using assms compact_conv_ok by (simp add: l1_def)
  then show ?thesis
    using conv_ok_user unfolding round_prepare_def Let_def l1_def [symmetric] by simp
qed

lemma round_prepare_keeps:
  "dl_record (round_prepare cfg rnd l) = dl_record l \<and> dl_sent (round_prepare cfg rnd l) = dl_sent l"
  by (simp add: round_prepare_def Let_def)

text \<open>The tool loop appends one result per call, in order.\<close>

lemma foldl_tool_calls:
  "\<exists>est' calls' results. foldl (run_tool_call env rnd) (ms, est, calls) tcs = (ms @ results, est', calls @ calls') \<and>
     map am_ToolCallID results = map tc_ID tcs \<and> list_all is_tool results \<and>
     map tr_Name calls' = map (\<lambda>tc. fn_Name (tc_Function tc)) tcs"
proof (induction tcs arbitrary: ms est calls)
  case Nil
  then show ?case by simp
next
  case (Cons tc tcs)
  obtain m est1 c where step: "run_tool_call env rnd (ms, est, calls) tc = (ms @ [m], est1, calls @ [c])"
    and m: "am_ToolCallID m = tc_ID tc" "is_tool m" "tr_Name c = fn_Name (tc_Function tc)"
    by (simp add: run_tool_call_def Let_def is_tool_def plain_message_def)
  from Cons [of "ms @ [m]" est1 "calls @ [c]"] obtain est' calls' results where
    "foldl (run_tool_call env rnd) (ms @ [m], est1, calls @ [c]) tcs = ((ms @ [m]) @ results, est', (calls @ [c]) @ calls')"
    "map am_ToolCallID results = map tc_ID tcs" "list_all is_tool results"
    "map tr_Name calls' = map (\<lambda>tc. fn_Name (tc_Function tc)) tcs" by blast
  then show ?case using step m
    by (intro exI [of _ est']) (auto intro!: exI [of _ "c # calls'"] exI [of _ "m # results"])
qed

lemma round_tools_shape:
  assumes "toolCalls \<noteq> []"
  shows "\<exists>results. dl_messages (round_tools env rnd content toolCalls l) =
      dl_messages l @ assistant_message content toolCalls # results \<and>
      list_all is_tool results \<and> map am_ToolCallID results = map tc_ID toolCalls \<and>
      dr_AI (dl_record (round_tools env rnd content toolCalls l)) = dr_AI (dl_record l) \<and>
      dl_sent (round_tools env rnd content toolCalls l) = dl_sent l"
proof -
  let ?a = "assistant_message content toolCalls"
  obtain est' calls' results where f:
    "foldl (run_tool_call env rnd) (dl_messages l @ [?a], dl_estimated l + EstimateMessageTokens ?a, []) toolCalls
       = ((dl_messages l @ [?a]) @ results, est', [] @ calls')"
    "map am_ToolCallID results = map tc_ID toolCalls" "list_all is_tool results"
    using foldl_tool_calls by blast
  then show ?thesis by (auto simp: round_tools_def Let_def)
qed

lemma round_tools_ok:
  assumes "conv_ok (opening_messages p req lang) (dl_messages l)" "toolCalls \<noteq> []"
  shows "conv_ok (opening_messages p req lang) (dl_messages (round_tools env rnd content toolCalls l))"
proof -
  obtain results where "dl_messages (round_tools env rnd content toolCalls l) =
      dl_messages l @ assistant_message content toolCalls # results" "list_all is_tool results"
    using round_tools_shape [OF assms(2)] by blast
  moreover have "opens_tools (assistant_message content toolCalls)"
    using assms(2) by (simp add: opens_tools_def assistant_message_def plain_message_def)
  ultimately show ?thesis
    using assms(1) orphan_free_round opening_shape(3) [of "dl_messages l" p req lang] by (simp add: conv_ok_def)
qed

text \<open>The tokens one answer adds to the record.\<close>

definition answer_tokens :: "ChatResponse option \<times> string \<times> ai_error option \<Rightarrow> int \<times> int" where
  "answer_tokens a =
     (case a of (Some resp, _, None) \<Rightarrow>
        (us_PromptTokens (cr_Usage resp), us_CompletionTokens (cr_Usage resp)) | _ \<Rightarrow> (0, 0))"

lemma answer_tokens_simps [simp]:
  "answer_tokens (r, name, Some err) = (0, 0)"
  "answer_tokens (None, name, None) = (0, 0)"
  "answer_tokens (Some resp, name, None) =
     (us_PromptTokens (cr_Usage resp), us_CompletionTokens (cr_Usage resp))"
  by (simp_all add: answer_tokens_def split: option.splits)

text \<open>The answers to the messages sent from round \<open>n\<close> on.\<close>

definition answers :: "diag_env \<Rightarrow> nat \<Rightarrow> AIMessage list list \<Rightarrow> (ChatResponse option \<times> string \<times> ai_error option) list" where
  "answers env n sent = map (\<lambda>(i, ms). dv_chat env i ms (dv_toolDefs env)) (zip [n..<n + length sent] sent)"

lemma answers_Cons: "answers env n (ms # sent) = dv_chat env n ms (dv_toolDefs env) # answers env (Suc n) sent"
proof -
  have "[n..<n + length (ms # sent)] = n # [Suc n..<Suc n + length sent]"
    by (simp add: upt_rec)
  then show ?thesis by (simp add: answers_def)
qed

text \<open>Everything the loop does from a round on: what it sends, how it ends, what it counts.\<close>

definition loop_post :: "AIMessage list \<Rightarrow> diag_env \<Rightarrow> diag_cfg \<Rightarrow> nat \<Rightarrow> diag_loop \<Rightarrow> AIMessage list list \<Rightarrow>
    diag_result \<times> diag_loop \<Rightarrow> bool" where
  "loop_post opening env cfg n l sent out \<longleftrightarrow>
     dl_sent (snd out) = dl_sent l @ sent \<and> int n + int (length sent) \<le> max (int n) (dg_maxRounds cfg) \<and>
     list_all (conv_ok opening) sent \<and>
     ai_InputTokens (dr_AI (dl_record (snd out))) = ai_InputTokens (dr_AI (dl_record l))
       + sum_list (map (fst \<circ> answer_tokens) (answers env n sent)) \<and>
     ai_OutputTokens (dr_AI (dl_record (snd out))) = ai_OutputTokens (dr_AI (dl_record l))
       + sum_list (map (snd \<circ> answer_tokens) (answers env n sent)) \<and>
     (\<forall>report. fst out = DReport report \<longrightarrow>
        (int n + int (length sent) = max (int n) (dg_maxRounds cfg) \<and> report \<in> {incomplete_zh, incomplete_en}) \<or>
        (\<exists>resp name. sent \<noteq> [] \<and> last (answers env n sent) = (Some resp, name, None) \<and>
           first_choice resp = (report, []) \<and>
           ai_TotalRounds (dr_AI (dl_record (snd out))) = int n + int (length sent)))"

text \<open>The loop state with which a round calls the model, and the five ways a round goes on.\<close>

definition round_sent :: "diag_cfg \<Rightarrow> nat \<Rightarrow> diag_loop \<Rightarrow> diag_loop" where
  "round_sent cfg n l =
     (round_prepare cfg n l)\<lparr>dl_sent := dl_sent (round_prepare cfg n l) @ [dl_messages (round_prepare cfg n l)]\<rparr>"

lemma round_sent_keeps:
  "dl_sent (round_sent cfg n l) = dl_sent l @ [dl_messages (round_sent cfg n l)]"
  "dl_record (round_sent cfg n l) = dl_record l"
  using round_prepare_keeps [of cfg n l] by (auto simp: round_sent_def)

lemma round_sent_ok:
  "conv_ok (opening_messages p req lang) (dl_messages l) \<Longrightarrow>
   conv_ok (opening_messages p req lang) (dl_messages (round_sent cfg n l))"
  using round_prepare_ok by (simp add: round_sent_def)

lemma loop_unfold:
  assumes "int n < dg_maxRounds cfg" "dv_ctxErr env n = None"
  shows "dv_chat env n (dl_messages (round_sent cfg n l)) (dv_toolDefs env) = (r, name, Some err) \<Longrightarrow>
      diagnose_loop env cfg n l =
        (DError (WrapAI (''AI API error at round '' @ show_nat (n + 1)) err), round_sent cfg n l)"
    and "dv_chat env n (dl_messages (round_sent cfg n l)) (dv_toolDefs env) = (None, name, None) \<Longrightarrow>
      diagnose_loop env cfg n l = (DPanic, set_model name (round_sent cfg n l))"
    and "dv_chat env n (dl_messages (round_sent cfg n l)) (dv_toolDefs env) = (Some resp, name, None) \<Longrightarrow>
      first_choice resp = (content, []) \<Longrightarrow>
      diagnose_loop env cfg n l =
        (DReport content, set_rounds (int n + 1) (account_response resp name (round_sent cfg n l)))"
    and "dv_chat env n (dl_messages (round_sent cfg n l)) (dv_toolDefs env) = (Some resp, name, None) \<Longrightarrow>
      first_choice resp = (content, tcs) \<Longrightarrow> tcs \<noteq> [] \<Longrightarrow>
      diagnose_loop env cfg n l =
        diagnose_loop env cfg (n + 1) (round_tools env n content tcs (account_response resp name (round_sent cfg n l)))"
  using assms by (subst diagnose_loop.simps, simp add: Let_def round_sent_def split: option.splits)+

lemma account_response_keeps:
  "dl_sent (account_response resp name l) = dl_sent l"
  "dl_messages (account_response resp name l) = dl_messages l"
  "ai_InputTokens (dr_AI (dl_record (account_response resp name l))) =
     ai_InputTokens (dr_AI (dl_record l)) + us_PromptTokens (cr_Usage resp)"
  "ai_OutputTokens (dr_AI (dl_record (account_response resp name l))) =
     ai_OutputTokens (dr_AI (dl_record l)) + us_CompletionTokens (cr_Usage resp)"
  by (auto simp: account_response_def Let_def)

lemma set_rounds_keeps:
  "dl_sent (set_rounds k l) = dl_sent l"
  "ai_InputTokens (dr_AI (dl_record (set_rounds k l))) = ai_InputTokens (dr_AI (dl_record l))"
  "ai_OutputTokens (dr_AI (dl_record (set_rounds k l))) = ai_OutputTokens (dr_AI (dl_record l))"
  "ai_TotalRounds (dr_AI (dl_record (set_rounds k l))) = k"
  by (auto simp: set_rounds_def Let_def)

lemma set_model_keeps:
  "dl_sent (set_model m l) = dl_sent l"
  "ai_InputTokens (dr_AI (dl_record (set_model m l))) = ai_InputTokens (dr_AI (dl_record l))"
  "ai_OutputTokens (dr_AI (dl_record (set_model m l))) = ai_OutputTokens (dr_AI (dl_record l))"
  by (auto simp: set_model_def Let_def)

lemmas loop_keeps = round_sent_keeps account_response_keeps set_rounds_keeps set_model_keeps

lemma answers_Nil [simp]: "answers env n [] = []" by (simp add: answers_def)

lemma answers_eq_Nil [simp]: "answers env n sent = [] \<longleftrightarrow> sent = []"
  by (cases sent) (simp_all add: answers_Cons)

text \<open>One round that asks for tools in front of the rest of the loop.\<close>

lemma loop_post_step:
  assumes ans: "dv_chat env n (dl_messages (round_sent cfg n l)) (dv_toolDefs env) = (Some resp, name, None)"
    and ok: "conv_ok opening (dl_messages (round_sent cfg n l))"
    and n: "int n < dg_maxRounds cfg" and go: "tcs \<noteq> []"
    and rest: "loop_post opening env cfg (n + 1)
      (round_tools env n content tcs (account_response resp name (round_sent cfg n l))) sent out"
  shows "loop_post opening env cfg n l (dl_messages (round_sent cfg n l) # sent) out"
proof -
  let ?l2 = "account_response resp name (round_sent cfg n l)"
  have l3: "dl_sent (round_tools env n content tcs ?l2) = dl_sent l @ [dl_messages (round_sent cfg n l)]"
    "dr_AI (dl_record (round_tools env n content tcs ?l2)) = dr_AI (dl_record ?l2)"
    using round_tools_shape [OF go, of env n content ?l2] by (auto simp: loop_keeps)
  have "max (int (n + 1)) (dg_maxRounds cfg) = dg_maxRounds cfg" "max (int n) (dg_maxRounds cfg) = dg_maxRounds cfg"
    using n by auto
  then show ?thesis
    using rest ok ans l3
    by (auto simp: loop_post_def answers_Cons loop_keeps)
qed

lemma loop_post_last:
  assumes n: "int n < dg_maxRounds cfg" "dv_ctxErr env n = None"
    and ok: "conv_ok opening (dl_messages (round_sent cfg n l))"
    and stop: "\<And>resp name. dv_chat env n (dl_messages (round_sent cfg n l)) (dv_toolDefs env) = (Some resp, name, None) \<Longrightarrow>
      snd (first_choice resp) = []"
  shows "loop_post opening env cfg n l [dl_messages (round_sent cfg n l)] (diagnose_loop env cfg n l)"
proof -
  obtain r name err where ans: "dv_chat env n (dl_messages (round_sent cfg n l)) (dv_toolDefs env) = (r, name, err)"
    by (metis prod_cases3)
  consider e where "err = Some e" | "err = None" "r = None" | resp where "err = None" "r = Some resp"
    by (cases err; cases r) auto
  then show ?thesis
  proof cases
    case 1
    with loop_unfold(1) [OF n] ans n ok show ?thesis
      by (simp add: loop_post_def answers_Cons loop_keeps)
  next
    case 2
    with loop_unfold(2) [OF n] ans n ok show ?thesis
      by (simp add: loop_post_def answers_Cons loop_keeps)
  next
    case 3
    then have "first_choice resp = (fst (first_choice resp), [])" using stop ans by (metis prod.collapse)
    with loop_unfold(3) [OF n] ans 3 n ok show ?thesis
      by (simp add: loop_post_def answers_Cons loop_keeps)
  qed
qed

lemma diagnose_loop_post:
  assumes "conv_ok (opening_messages p req lang) (dl_messages l)"
  shows "\<exists>sent. loop_post (opening_messages p req lang) env cfg n l sent (diagnose_loop env cfg n l)"
  using assms
proof (induction "nat (dg_maxRounds cfg - int n)" arbitrary: n l rule: less_induct)
  case less
  let ?o = "opening_messages p req lang" and ?l1 = "round_sent cfg n l"
  have ok: "conv_ok ?o (dl_messages ?l1)" using less(2) by (rule round_sent_ok)
  show ?case
  proof (cases "int n < dg_maxRounds cfg \<and> dv_ctxErr env n = None")
    case False
    then have "loop_post ?o env cfg n l [] (diagnose_loop env cfg n l)"
      by (subst diagnose_loop.simps) (auto simp: loop_post_def loop_keeps max_def)
    then show ?thesis by blast
  next
    case n: True
    show ?thesis
    proof (cases "\<exists>resp name. dv_chat env n (dl_messages ?l1) (dv_toolDefs env) = (Some resp, name, None) \<and> snd (first_choice resp) \<noteq> []")
      case False
      then show ?thesis using loop_post_last [OF _ _ ok] n by blast
    next
      case True
      then obtain resp name content tcs where ans: "dv_chat env n (dl_messages ?l1) (dv_toolDefs env) = (Some resp, name, None)"
        and fc: "first_choice resp = (content, tcs)" and go: "tcs \<noteq> []" by (metis prod.collapse)
      let ?l2 = "account_response resp name ?l1"
      have "conv_ok ?o (dl_messages (round_tools env n content tcs ?l2))"
        using ok go by (intro round_tools_ok) (auto simp: loop_keeps)
      moreover have "nat (dg_maxRounds cfg - int (n + 1)) < nat (dg_maxRounds cfg - int n)" using n by simp
      ultimately obtain sent where "loop_post ?o env cfg (n + 1) (round_tools env n content tcs ?l2) sent
          (diagnose_loop env cfg (n + 1) (round_tools env n content tcs ?l2))"
        using less(1) by blast
      then show ?thesis
        using loop_post_step [OF ans ok _ go] loop_unfold(4) [OF _ _ ans fc go] n by metis
    qed
  qed
qed

text \<open>The keys of \<^verbatim>\<open>forwardReport\<close>.\<close>

lemma forward_keys_once:
  "distinct (forward_keys seen ks) \<and> set (forward_keys seen ks) = set ks - set seen"
  by (induction seen ks rule: forward_keys.induct) auto

lemma diagnose_post:
  assumes "initSessionAccessor (dv_quote env) (dv_registry env 0) req = Inr accessor" "0 \<le> dg_maxRounds cfg"
  shows "\<exists>p l0 sent. dl_sent l0 = [] \<and>
    ai_InputTokens (dr_AI (dl_record l0)) = ai_InputTokens (dr_AI rec) \<and>
    ai_OutputTokens (dr_AI (dl_record l0)) = ai_OutputTokens (dr_AI rec) \<and>
    loop_post (opening_messages p req (dg_language cfg)) (session_env descr (with_os (dv_goos env) req) accessor env)
      cfg 0 l0 sent (diagnose env cfg descr prompt req rec)"
proof -
  let ?req = "with_os (dv_goos env) req"
  let ?env = "session_env descr ?req accessor env"
  let ?p = "prompt ?req (prompt_context descr ?env ?req)"
  have om: "opening_messages ?p ?req lang = opening_messages ?p req lang" for lang
    by (simp add: opening_messages_def with_os_def)
  define l0 where "l0 = \<lparr>dl_messages = opening_messages ?p req (dg_language cfg),
      dl_estimated = EstimateMessagesTokens (take 2 (opening_messages ?p req (dg_language cfg))), dl_warned = False,
      dl_record = rec\<lparr>dr_AI := (dr_AI rec)\<lparr>ai_Model := dg_primary cfg\<rparr>\<rparr>, dl_sent = []\<rparr>"
  have d: "diagnose env cfg descr prompt req rec = diagnose_loop ?env cfg 0 l0"
    using assms by (simp add: diagnose_def Let_def om l0_def)
  have "conv_ok (opening_messages ?p req (dg_language cfg)) (dl_messages l0)"
    using opening_ok by (simp add: l0_def)
  then have "\<exists>sent. loop_post (opening_messages ?p req (dg_language cfg)) ?env cfg 0 l0 sent
      (diagnose env cfg descr prompt req rec)"
    unfolding d by (rule diagnose_loop_post)
  moreover have "dl_sent l0 = []" "ai_InputTokens (dr_AI (dl_record l0)) = ai_InputTokens (dr_AI rec)"
    "ai_OutputTokens (dr_AI (dl_record l0)) = ai_OutputTokens (dr_AI rec)"
    by (simp_all add: l0_def)
  ultimately show ?thesis by blast
qed

fun comment_keys :: "run_effect list \<Rightarrow> string list" where
  "comment_keys [] = []"
| "comment_keys (Comment k c # es) = k # comment_keys es"
| "comment_keys (_ # es) = comment_keys es"

lemma comment_keys_append [simp]: "comment_keys (xs @ ys) = comment_keys xs @ comment_keys ys"
  by (induction xs rule: comment_keys.induct) auto

lemma comment_keys_forward [simp]:
  "comment_keys (map (\<lambda>(k, c). Comment k c) (forwardReport keys rec report lang)) = forward_keys [] keys"
proof -
  have "comment_keys (map (\<lambda>(k, c). Comment k c) (map (\<lambda>k. (k, c0)) ks)) = ks" for ks c0
    by (induction ks) auto
  then show ?thesis by (simp add: forwardReport_def Let_def del: map_map)
qed

section \<open>Properties of a run\<close>


text \<open>C9: a finished report is either the text of the model's last answer, given without further tool
  calls, or the notice that the rounds ran out, given only after all of them.\<close>

theorem diagnose_report_origin:
  assumes "initSessionAccessor (dv_quote env) (dv_registry env 0) req = Inr accessor"
    and "fst (diagnose env cfg descr prompt req rec) = DReport report"
  shows "let out = snd (diagnose env cfg descr prompt req rec); sent = dl_sent out in
    (report \<in> {incomplete_zh, incomplete_en} \<and> int (length sent) = dg_maxRounds cfg) \<or>
    (\<exists>resp name. sent \<noteq> [] \<and>
       last (answers (session_env descr (with_os (dv_goos env) req) accessor env) 0 sent) = (Some resp, name, None) \<and>
       first_choice resp = (report, []) \<and>
       ai_TotalRounds (dr_AI (dl_record out)) = int (length sent))"
proof -
  have "0 \<le> dg_maxRounds cfg" using assms by (auto simp: diagnose_def split: if_splits)
  then show ?thesis
    using diagnose_post [OF assms(1), of cfg rec descr prompt] assms(2)
    by (fastforce simp: loop_post_def Let_def)
qed

text \<open>C10: whatever happens in a diagnosis, its record is saved exactly once and first; the cooldown of the
  target is set unless the run was an inspection or panicked, a failed run included; each alert of the
  request gets the report at most once, in order.\<close>

theorem run_diagnose_effects:
  "let (rec, effs) = RunDiagnose env cfg descr prompt show_err ms keys req rec0;
       result = fst (diagnose env cfg descr prompt req rec0)
   in (\<exists>rest. effs = SaveRecord rec # rest \<and> (\<forall>r. SaveRecord r \<notin> set rest)) \<and>
      (UpdateCooldownEff \<in> set effs \<longleftrightarrow> result \<noteq> DPanic \<and> rq_Mode req \<noteq> ModeInspect) \<and>
      comment_keys effs = (if (\<exists>rp. result = DReport rp \<and> rp \<noteq> []) \<and> rq_Events req \<noteq> []
                           then forward_keys [] keys else []) \<and>
      distinct (forward_keys [] keys) \<and> set (forward_keys [] keys) = set keys \<and>
      (dr_Status rec = ''success'' \<longleftrightarrow> (\<exists>rp. result = DReport rp))"
proof -
  obtain result l where d: "diagnose env cfg descr prompt req rec0 = (result, l)" by fastforce
  show ?thesis
    using forward_keys_once [of "[]" keys]
    by (cases result) (auto simp: RunDiagnose_def d Let_def)
qed

section \<open>The shared engine: slots and the in-flight map\<close>

text \<open>The contract of a concurrency limiter, and what its users get from it.\<close>

locale concurrency_limiter =
  fixes acquire :: "'s \<Rightarrow> bool \<times> 's" and release :: "'s \<Rightarrow> 's option"
    and held :: "'s \<Rightarrow> nat" and cap :: "'s \<Rightarrow> nat"
  assumes acquire_free: "held s < cap s \<Longrightarrow>
      fst (acquire s) \<and> held (snd (acquire s)) = held s + 1 \<and> cap (snd (acquire s)) = cap s"
    and acquire_full: "cap s \<le> held s \<Longrightarrow> acquire s = (False, s)"
    and release_held: "0 < held s \<Longrightarrow> \<exists>s'. release s = Some s' \<and> held s' = held s - 1 \<and> cap s' = cap s"
    and release_idle: "held s = 0 \<Longrightarrow> release s = None"
begin

lemma acquired:
  assumes "acquire s = (True, s')"
  shows "held s' = held s + 1 \<and> held s' \<le> cap s' \<and> cap s' = cap s"
proof -
  have "held s < cap s" using acquire_full [of s] assms by (cases "held s < cap s") auto
  then show ?thesis using acquire_free [of s] assms by simp
qed

lemma released:
  assumes "release s = Some s'"
  shows "held s = held s' + 1 \<and> cap s' = cap s"
proof -
  have "0 < held s" using release_idle [of s] assms by (cases "held s") auto
  then show ?thesis using release_held [of s] assms by auto
qed

lemma acquire_release:
  assumes "acquire s = (True, s')"
  shows "\<exists>s''. release s' = Some s'' \<and> held s'' = held s \<and> cap s'' = cap s"
  using acquired [OF assms] release_held [of s'] by auto

end

interpretation sem: concurrency_limiter TrySem ReleaseSem en_sem en_semCap
  by unfold_locales (auto simp: TrySem_def ReleaseSem_def)

definition slots_inv :: "DiagnoseEngine \<Rightarrow> bool" where
  "slots_inv e \<longleftrightarrow> en_sem e = length (en_runs e) + en_remote e \<and> en_sem e \<le> en_semCap e"

definition runs_inv :: "DiagnoseEngine \<Rightarrow> bool" where
  "runs_inv e \<longleftrightarrow> distinct (map rn_id (en_runs e)) \<and> list_all (\<lambda>i. i < en_next e) (map rn_id (en_runs e))"

definition inflight_inv :: "DiagnoseEngine \<Rightarrow> bool" where
  "inflight_inv e \<longleftrightarrow> m_ok (en_inFlight e) \<and>
     (\<forall>k i. map_of (en_inFlight e) k = Some i \<longrightarrow>
        (\<exists>r \<in> set (en_runs e). rn_id r = i \<and> run_key r = k \<and> rn_phase r \<in> {Registered, Finishing}))"

lemma engine_Submit_cases:
  "\<exists>st. snd (engine_Submit date now req e) = e\<lparr>en_state := st\<rparr> \<and> \<not> fst (engine_Submit date now req e) \<or>
     fst (engine_Submit date now req e) \<and> en_sem e < en_semCap e \<and>
     snd (engine_Submit date now req e) = e\<lparr>en_state := st, en_sem := en_sem e + 1,
       en_runs := en_runs e @ [\<lparr>rn_id = en_next e, rn_req = req, rn_phase = Spawned\<rparr>], en_next := en_next e + 1\<rparr>"
proof -
  obtain a st1 where c: "IsCooldownActive now (rq_Plugin req) (rq_Target req) (en_state e) = (a, st1)" by fastforce
  obtain b st2 where d: "IsDailyLimitReached date now (en_dailyLimit e) st1 = (b, st2)" by fastforce
  consider "en_stopped e" | "\<not> en_stopped e" "a" | "\<not> en_stopped e" "\<not> a" by blast
  then show ?thesis
  proof cases
    case 1
    then show ?thesis by (intro exI [of _ "en_state e"]) (simp add: engine_Submit_def)
  next
    case 2
    then show ?thesis using c by (intro exI [of _ st1]) (simp add: engine_Submit_def)
  next
    case 3
    then show ?thesis using c d
      by (intro exI [of _ st2]) (auto simp: engine_Submit_def TrySem_def Let_def)
  qed
qed

lemma set_phase_fields [simp]:
  "en_sem (set_phase i p e) = en_sem e" "en_semCap (set_phase i p e) = en_semCap e"
  "en_remote (set_phase i p e) = en_remote e" "en_next (set_phase i p e) = en_next e"
  "en_inFlight (set_phase i p e) = en_inFlight e" "length (en_runs (set_phase i p e)) = length (en_runs e)"
  "map rn_id (en_runs (set_phase i p e)) = map rn_id (en_runs e)"
  by (auto simp: set_phase_def)

lemma set_phase_in:
  "q \<in> set (en_runs e) \<Longrightarrow>
   (if rn_id q = i then q\<lparr>rn_phase := p\<rparr> else q) \<in> set (en_runs (set_phase i p e))"
  by (auto simp: set_phase_def)

lemma same_run:
  "runs_inv e \<Longrightarrow> q \<in> set (en_runs e) \<Longrightarrow> r \<in> set (en_runs e) \<Longrightarrow> rn_id q = rn_id r \<Longrightarrow> q = r"
  by (auto simp: runs_inv_def distinct_map inj_on_def)

lemma filter_one_out:
  assumes "distinct (map f xs)" "x \<in> set xs"
  shows "Suc (length (filter (\<lambda>y. f y \<noteq> f x) xs)) = length xs"
proof -
  have "filter (\<lambda>y. f y = f x) xs = [x]"
    using assms by (induction xs) (auto simp: filter_empty_conv image_iff)
  then show ?thesis using sum_length_filter_compl [of "\<lambda>y. f y = f x" xs] by simp
qed

lemma runs_inv_phase [simp]: "runs_inv (set_phase i p e) = runs_inv e"
  unfolding runs_inv_def set_phase_fields by (rule refl)

lemma slots_inv_phase [simp]: "slots_inv (set_phase i p e) = slots_inv e"
  by (simp add: slots_inv_def)

lemma inv_inFlight [simp]:
  "runs_inv (registerInFlight r e) = runs_inv e" "slots_inv (registerInFlight r e) = slots_inv e"
  "runs_inv (unregisterInFlight r e) = runs_inv e" "slots_inv (unregisterInFlight r e) = slots_inv e"
  by (simp_all add: runs_inv_def slots_inv_def registerInFlight_def unregisterInFlight_def)

text \<open>A run that stays registered keeps the in-flight entries valid.\<close>

lemma inflight_inv_phase:
  assumes "inflight_inv e" "p \<in> {Registered, Finishing}"
  shows "inflight_inv (set_phase i p e)"
proof -
  have "\<exists>r' \<in> set (en_runs (set_phase i p e)). rn_id r' = rn_id r \<and> run_key r' = run_key r \<and>
      rn_phase r' \<in> {Registered, Finishing}"
    if "r \<in> set (en_runs e)" "rn_phase r \<in> {Registered, Finishing}" for r
    using set_phase_in [OF that(1), of i p] that(2) assms(2)
    by (cases "rn_id r = i") (auto simp: run_key_def intro: bexI [rotated])
  then show ?thesis using assms(1) unfolding inflight_inv_def set_phase_fields by metis
qed

lemma runs_inv_state [simp]:
  "runs_inv (e\<lparr>en_state := st\<rparr>) = runs_inv e" "slots_inv (e\<lparr>en_state := st\<rparr>) = slots_inv e"
  "inflight_inv (e\<lparr>en_state := st\<rparr>) = inflight_inv e"
  by (simp_all add: runs_inv_def slots_inv_def inflight_inv_def)

lemma inflight_register:
  assumes "inflight_inv e" "r \<in> set (en_runs e)"
  shows "inflight_inv (set_phase (rn_id r) Registered (registerInFlight r e))"
proof -
  let ?e = "set_phase (rn_id r) Registered (registerInFlight r e)"
  have eq: "en_runs ?e = en_runs (set_phase (rn_id r) Registered e)"
    by (simp add: set_phase_def registerInFlight_def)
  have old: "inflight_inv (set_phase (rn_id r) Registered e)" using assms(1) by (simp add: inflight_inv_phase)
  have new: "r\<lparr>rn_phase := Registered\<rparr> \<in> set (en_runs ?e)"
    using set_phase_in [OF assms(2), of "rn_id r" Registered] by (simp add: eq)
  have "en_inFlight ?e = m_set (run_key r) (rn_id r) (en_inFlight e)"
    by (simp add: registerInFlight_def)
  then show ?thesis
    using old new unfolding inflight_inv_def eq
    by (auto simp: run_key_def intro!: bexI [of _ "r\<lparr>rn_phase := Registered\<rparr>"])
qed

lemma inflight_unregister:
  assumes "inflight_inv e" "runs_inv e" "r \<in> set (en_runs e)"
  shows "inflight_inv (set_phase (rn_id r) Unregistered (unregisterInFlight r e))"
proof -
  let ?e = "set_phase (rn_id r) Unregistered (unregisterInFlight r e)"
  have fl: "en_inFlight ?e = m_del (run_key r) (en_inFlight e)" by (simp add: unregisterInFlight_def)
  have "\<exists>q \<in> set (en_runs ?e). rn_id q = i \<and> run_key q = k \<and> rn_phase q \<in> {Registered, Finishing}"
    if k: "map_of (en_inFlight e) k = Some i" "k \<noteq> run_key r" for k i
  proof -
    obtain q where q: "q \<in> set (en_runs e)" "rn_id q = i" "run_key q = k" "rn_phase q \<in> {Registered, Finishing}"
      using assms(1) k(1) unfolding inflight_inv_def by blast
    then have "rn_id q \<noteq> rn_id r" using same_run [OF assms(2) q(1) assms(3)] k(2) by auto
    then have "q \<in> set (en_runs ?e)"
      using set_phase_in [of q "unregisterInFlight r e" "rn_id r" Unregistered] q(1)
      by (simp add: unregisterInFlight_def)
    then show ?thesis using q by blast
  qed
  then show ?thesis using assms(1) unfolding inflight_inv_def fl by (auto split: if_splits)
qed

lemma release_step:
  fixes e1 :: DiagnoseEngine and r :: run
  assumes "slots_inv e" "runs_inv e" "inflight_inv e" "r \<in> set (en_runs e)" "rn_phase r = Unregistered"
    and "ReleaseSem e = Some e1"
  defines "e' \<equiv> e1\<lparr>en_runs := filter (\<lambda>q. rn_id q \<noteq> rn_id r) (en_runs e1)\<rparr>"
  shows "slots_inv e' \<and> runs_inv e' \<and> inflight_inv e'"
proof -
  have e1: "e1 = e\<lparr>en_sem := en_sem e - 1\<rparr>" "0 < en_sem e"
    using assms(6) by (auto simp: ReleaseSem_def split: if_splits)
  have "Suc (length (filter (\<lambda>q. rn_id q \<noteq> rn_id r) (en_runs e))) = length (en_runs e)"
    using assms(2,4) by (intro filter_one_out) (auto simp: runs_inv_def)
  then have "slots_inv e'" using assms(1) e1 by (auto simp: slots_inv_def e'_def)
  moreover have "runs_inv e'" using assms(2) e1 by (auto simp: runs_inv_def e'_def distinct_map_filter list_all_iff)
  moreover have "rn_id q \<noteq> rn_id r" if "q \<in> set (en_runs e)" "rn_phase q \<in> {Registered, Finishing}" for q
    using same_run [OF assms(2) that(1) assms(4)] that(2) assms(5) by auto
  then have "inflight_inv e'" using assms(3) e1 unfolding inflight_inv_def e'_def by fastforce
  ultimately show ?thesis by blast
qed

lemma submit_step:
  fixes date :: date_of and now :: int and req :: DiagnoseRequest and e :: DiagnoseEngine
  assumes "slots_inv e" "runs_inv e" "inflight_inv e"
  defines "e' \<equiv> snd (engine_Submit date now req e)"
  shows "slots_inv e' \<and> runs_inv e' \<and> inflight_inv e'"
proof -
  obtain st where "e' = e\<lparr>en_state := st\<rparr> \<or> en_sem e < en_semCap e \<and>
     e' = e\<lparr>en_state := st, en_sem := en_sem e + 1,
       en_runs := en_runs e @ [\<lparr>rn_id = en_next e, rn_req = req, rn_phase = Spawned\<rparr>], en_next := en_next e + 1\<rparr>"
    using engine_Submit_cases [of date now req e] unfolding e'_def by blast
  then show ?thesis
  proof
    assume "e' = e\<lparr>en_state := st\<rparr>"
    then show ?thesis using assms by simp
  next
    assume new: "en_sem e < en_semCap e \<and>
     e' = e\<lparr>en_state := st, en_sem := en_sem e + 1,
       en_runs := en_runs e @ [\<lparr>rn_id = en_next e, rn_req = req, rn_phase = Spawned\<rparr>], en_next := en_next e + 1\<rparr>"
    have "runs_inv e'" using new assms(2) by (auto simp: runs_inv_def list_all_iff)
    moreover have "slots_inv e'" using new assms(1) by (auto simp: slots_inv_def)
    moreover have "inflight_inv e'" using new assms(3) by (fastforce simp: inflight_inv_def)
    ultimately show ?thesis by blast
  qed
qed

lemma remote_steps:
  assumes "slots_inv e" "runs_inv e" "inflight_inv e"
  shows "TrySem e = (True, e1) \<Longrightarrow> slots_inv (e1\<lparr>en_remote := en_remote e1 + 1\<rparr>) \<and>
      runs_inv (e1\<lparr>en_remote := en_remote e1 + 1\<rparr>) \<and> inflight_inv (e1\<lparr>en_remote := en_remote e1 + 1\<rparr>)"
    and "0 < en_remote e \<Longrightarrow> ReleaseSem e = Some e1 \<Longrightarrow> slots_inv (e1\<lparr>en_remote := en_remote e1 - 1\<rparr>) \<and>
      runs_inv (e1\<lparr>en_remote := en_remote e1 - 1\<rparr>) \<and> inflight_inv (e1\<lparr>en_remote := en_remote e1 - 1\<rparr>)"
  using assms
  by (auto simp: TrySem_def ReleaseSem_def slots_inv_def runs_inv_def inflight_inv_def split: if_splits)

lemma engine_step_inv:
  assumes "engine_step e e'" "slots_inv e" "runs_inv e" "inflight_inv e"
  shows "slots_inv e' \<and> runs_inv e' \<and> inflight_inv e'"
  using assms(1)
proof cases
  case (submit date now req)
  then show ?thesis using submit_step assms by simp
next
  case (register r)
  then show ?thesis using inflight_register assms by simp
next
  case (unregister r)
  then show ?thesis using inflight_unregister assms by simp
next
  case (release r e1)
  then show ?thesis using release_step assms by simp
next
  case (remote_start e1)
  then show ?thesis using remote_steps(1) assms by simp
next
  case (remote_end e1)
  then show ?thesis using remote_steps(2) assms by simp
next
  case shutdown
  then show ?thesis using assms by (simp add: Shutdown_def slots_inv_def runs_inv_def inflight_inv_def)
qed (use assms in \<open>simp_all add: inflight_inv_phase\<close>)

lemma engine_step_cap:
  assumes "engine_step e e'"
  shows "en_semCap e' = en_semCap e"
  using assms
proof cases
  case (submit date now req)
  then show ?thesis using engine_Submit_cases [of date now req e] by auto
next
  case (release r e1)
  then show ?thesis using sem.released by simp
next
  case (remote_start e1)
  then show ?thesis using sem.acquired by simp
next
  case (remote_end e1)
  then show ?thesis using sem.released by simp
qed (simp_all add: registerInFlight_def unregisterInFlight_def Shutdown_def)

lemma engine_reachable_inv:
  assumes "engine_reachable e0 e" "NewDiagnoseEngine st cfg = Some e0"
  shows "slots_inv e \<and> runs_inv e \<and> inflight_inv e \<and> en_semCap e = nat (ac_MaxConcurrentDiagnoses cfg)"
  using assms(1)
proof induction
  case init
  then show ?case using assms(2)
    by (auto simp: NewDiagnoseEngine_def slots_inv_def runs_inv_def inflight_inv_def split: if_splits)
next
  case (step e e')
  then show ?case using engine_step_inv [of e e'] engine_step_cap [of e e'] by simp
qed

section \<open>Properties of the engine\<close>

text \<open>C11: in every interleaving of submissions, diagnoses, remote sessions and shutdown, the slots taken are
  exactly the running diagnoses and remote sessions and never exceed the configured limit; a
  diagnosis that ends gives its slot back without blocking; and every entry of the in-flight map is
  the cancel function of a registered run of that plugin and target.\<close>

theorem engine_slots_exact:
  assumes "NewDiagnoseEngine st cfg = Some e0" "engine_reachable e0 e"
  shows "en_sem e = length (en_runs e) + en_remote e \<and> int (en_sem e) \<le> ac_MaxConcurrentDiagnoses cfg \<and>
    (en_runs e \<noteq> [] \<longrightarrow> ReleaseSem e \<noteq> None) \<and>
    (\<forall>k i. map_of (en_inFlight e) k = Some i \<longrightarrow>
       (\<exists>r \<in> set (en_runs e). rn_id r = i \<and> run_key r = k \<and> rn_phase r \<in> {Registered, Finishing}))"
proof -
  have "0 \<le> ac_MaxConcurrentDiagnoses cfg" using assms(1) by (auto simp: NewDiagnoseEngine_def split: if_splits)
  then show ?thesis
    using engine_reachable_inv [OF assms(2,1)]
    by (auto simp: slots_inv_def inflight_inv_def ReleaseSem_def)
qed

definition two_slots :: AIConfig where
  "two_slots = sample_ai\<lparr>ac_MaxConcurrentDiagnoses := 2\<rparr>"

definition sample_engine :: DiagnoseEngine where
  "sample_engine = \<lparr>en_state = NewDiagnoseState (\<lambda>_. []) 0, en_inFlight = [], en_sem = 0, en_semCap = 2,
     en_stopped = False, en_dailyLimit = 0, en_runs = [], en_next = 0, en_remote = 0, en_cancelled = []\<rparr>"

lemma sample_engine_new: "NewDiagnoseEngine (NewDiagnoseState (\<lambda>_. []) 0) two_slots = Some sample_engine"
  by (simp add: NewDiagnoseEngine_def two_slots_def sample_ai_def sample_engine_def)

definition sample_run :: "nat \<Rightarrow> phase \<Rightarrow> run" where
  "sample_run i p = \<lparr>rn_id = i, rn_req = sample_request, rn_phase = p\<rparr>"

text \<open>Two submissions for one target, both registered, then a shutdown.\<close>

definition twice_submitted :: DiagnoseEngine where
  "twice_submitted = sample_engine\<lparr>en_sem := 2, en_runs := [sample_run 0 Spawned, sample_run 1 Spawned], en_next := 2\<rparr>"

definition twice_registered :: DiagnoseEngine where
  "twice_registered = sample_engine\<lparr>en_sem := 2, en_runs := [sample_run 0 Registered, sample_run 1 Registered],
     en_next := 2, en_inFlight := [(''disk::/'', 1)]\<rparr>"

lemma twice_submitted_reachable: "engine_reachable sample_engine twice_submitted"
proof -
  have sub: "snd (engine_Submit (\<lambda>_. []) 0 sample_request (sample_engine\<lparr>en_sem := n, en_runs := rs, en_next := k\<rparr>)) =
      sample_engine\<lparr>en_sem := n + 1, en_runs := rs @ [sample_run k Spawned], en_next := k + 1\<rparr>" if "n < 2" for n rs k
    using that
    by (simp add: engine_Submit_def sample_engine_def NewDiagnoseState_def IsCooldownActive_def nil_map_def
        IsDailyLimitReached_def TrySem_def sample_run_def Let_def)
  let ?e1 = "sample_engine\<lparr>en_sem := 1, en_runs := [sample_run 0 Spawned], en_next := 1\<rparr>"
  have "snd (engine_Submit (\<lambda>_. []) 0 sample_request sample_engine) = ?e1"
    using sub [where n = 0 and rs = "[]" and k = 0] by (simp add: sample_engine_def)
  then have "engine_reachable sample_engine ?e1"
    using engine_reachable.step [OF engine_reachable.init engine_step.submit] by metis
  moreover have "snd (engine_Submit (\<lambda>_. []) 0 sample_request ?e1) = twice_submitted"
    using sub [where n = 1 and rs = "[sample_run 0 Spawned]" and k = 1] by (simp add: twice_submitted_def numeral_2_eq_2)
  ultimately show ?thesis using engine_reachable.step [OF _ engine_step.submit] by metis
qed

lemma twice_registered_reachable: "engine_reachable sample_engine twice_registered"
proof -
  let ?r0 = "sample_run 0 Spawned" and ?r1 = "sample_run 1 Spawned"
  let ?e3 = "set_phase (rn_id ?r0) Registered (registerInFlight ?r0 twice_submitted)"
  have "engine_step twice_submitted ?e3"
    by (rule engine_step.register) (simp_all add: twice_submitted_def sample_run_def)
  then have r3: "engine_reachable sample_engine ?e3"
    using twice_submitted_reachable by (rule engine_reachable.step [rotated])
  have "engine_step ?e3 (set_phase (rn_id ?r1) Registered (registerInFlight ?r1 ?e3))"
    by (rule engine_step.register)
       (simp_all add: twice_submitted_def sample_run_def set_phase_def registerInFlight_def)
  moreover have "set_phase (rn_id ?r1) Registered (registerInFlight ?r1 ?e3) = twice_registered"
    by (simp add: twice_submitted_def twice_registered_def sample_run_def set_phase_def registerInFlight_def
        sample_engine_def m_set_def run_key_def agg_key_def sample_request_def)
  ultimately show ?thesis using engine_reachable.step [OF r3] by metis
qed

text \<open>two diagnoses of one target can run at the same time: the cooldown is set only when the first one
  ends, so a second submission before that is accepted, the second registration overwrites the cancel
  function of the first in the in-flight map, and a shutdown then leaves the first one running.\<close>

theorem shutdown_misses_duplicate:
  "NewDiagnoseEngine (NewDiagnoseState (\<lambda>_. []) 0) two_slots = Some sample_engine \<and>
   (\<exists>e r q. engine_reachable sample_engine e \<and> en_stopped e \<and> r \<in> set (en_runs e) \<and> q \<in> set (en_runs e) \<and>
      rn_id q \<noteq> rn_id r \<and> run_key q = run_key r \<and> rn_phase r = Registered \<and> rn_phase q = Registered \<and>
      rn_id q \<in> set (en_cancelled e) \<and> rn_id r \<notin> set (en_cancelled e))"
proof -
  have "engine_reachable sample_engine (Shutdown twice_registered)"
    using twice_registered_reachable engine_step.shutdown by (rule engine_reachable.step)
  moreover have "en_stopped (Shutdown twice_registered)"
    "sample_run 0 Registered \<in> set (en_runs (Shutdown twice_registered))"
    "sample_run 1 Registered \<in> set (en_runs (Shutdown twice_registered))"
    "en_cancelled (Shutdown twice_registered) = [1]"
    by (simp_all add: Shutdown_def twice_registered_def sample_engine_def)
  moreover have "rn_id (sample_run i p) = i" "rn_phase (sample_run i p) = p"
    "run_key (sample_run i p) = run_key (sample_run 0 p)" for i p
    by (simp_all add: sample_run_def run_key_def)
  ultimately show ?thesis using sample_engine_new by (metis list.set_intros(1) list.set(1,2) singletonD zero_neq_one)
qed

theorem engine_slots_exact_witness:
  "en_sem twice_registered = 2 \<and> int (en_sem twice_registered) \<le> ac_MaxConcurrentDiagnoses two_slots \<and>
   ReleaseSem twice_registered \<noteq> None"
  using engine_slots_exact [OF sample_engine_new twice_registered_reachable]
  by (simp add: twice_registered_def)

definition sample_cfg :: diag_cfg where
  "sample_cfg = \<lparr>dg_maxRounds = 2, dg_contextWindowLimit = 0, dg_language = ''en'', dg_primary = ''m''\<rparr>"

definition sample_answer :: ChatResponse where
  "sample_answer = \<lparr>cr_ID = [],
     cr_Choices = [\<lparr>ch_Index = 0, ch_Message = plain_message ''assistant'' ''disk full'', ch_FinishReason = ''stop''\<rparr>],
     cr_Usage = \<lparr>us_PromptTokens = 7, us_CompletionTokens = 2, us_TotalTokens = 9\<rparr>\<rparr>"

definition sample_env :: diag_env where
  "sample_env = \<lparr>dv_ctxErr = (\<lambda>_. None), dv_chat = (\<lambda>_ _ _. (Some sample_answer, ''m'', None)),
     dv_registry = (\<lambda>_. sample_registry), dv_ms = (\<lambda>_ _. 1), dv_json = sample_decoder, dv_quote = (\<lambda>s. s),
     dv_goos = ''linux'', dv_accessor = None, dv_toolDefs = []\<rparr>"

definition sample_diagnosis :: "diag_result \<times> diag_loop" where
  "sample_diagnosis = diagnose sample_env sample_cfg (\<lambda>s. s) (\<lambda>_ _. ''prompt'') sample_request
     (NewDiagnoseRecord 0 ''0000'' sample_request)"

lemma sample_rounds: "dg_maxRounds sample_cfg = 2" by (simp add: sample_cfg_def)

lemma sample_init: "initSessionAccessor (dv_quote sample_env) (dv_registry sample_env 0) sample_request = Inr None"
  by (simp add: initSessionAccessor_def sample_request_def)

lemma sample_diagnosis_report: "fst sample_diagnosis = DReport ''disk full''"
proof -
  have "fst (diagnose_loop env sample_cfg 0 l) = DReport ''disk full''"
    if "dv_chat env = dv_chat sample_env" "dv_ctxErr env = dv_ctxErr sample_env" for env l
    using that
    by (subst diagnose_loop.simps)
       (simp add: sample_cfg_def sample_env_def Let_def first_choice_def sample_answer_def plain_message_def)
  then show ?thesis
    by (simp add: sample_diagnosis_def diagnose_def sample_init sample_rounds Let_def session_env_def)
qed


theorem diagnose_report_origin_witness:
  "fst sample_diagnosis = DReport ''disk full'' \<and>
   ai_TotalRounds (dr_AI (dl_record (snd sample_diagnosis))) = int (length (dl_sent (snd sample_diagnosis)))"
proof -
  have "''disk full'' \<notin> {incomplete_zh, incomplete_en}"
    by (simp add: incomplete_zh_def incomplete_en_def)
  then show ?thesis
    using diagnose_report_origin [OF sample_init, of sample_cfg "\<lambda>s. s" "\<lambda>_ _. ''prompt''"
      "NewDiagnoseRecord 0 ''0000'' sample_request" "''disk full''"] sample_diagnosis_report
    by (auto simp: sample_diagnosis_def [symmetric] Let_def)
qed

end
