(* ===== verification/Session.thy ===== *)
theory Session
  imports Reconnect Diag_Engine
begin

text \<open>
  \<^verbatim>\<open>digcore/server/session.go\<close>, \<^verbatim>\<open>session_handler.go\<close> and the dispatch of \<^verbatim>\<open>conn.go\<close>: remote sessions. The session
  table and the handlers of server messages are state transformers; the goroutine of a session is a
  task whose work is a function of what the runners answer, and whose two deferred calls are steps
  that interleave with everything else. The slots are those of the diagnosis engine.
\<close>

section \<open>Payloads and frames\<close>

record sessionStartPayload =
  sp_SessionID :: string
  sp_SessionType :: string
  sp_UserName :: string
  sp_Params :: "(string, any_val) gomap option"

record sessionInputPayload =
  si_SessionID :: string
  si_Message :: string

record sessionCancelPayload =
  sx_SessionID :: string
  sx_Reason :: string

record disconnectPayload =
  dp_Reason :: string
  dp_RetryAfterSec :: int

record sessionOutputPayload =
  so_SessionID :: string
  so_Delta :: string
  so_Stage :: string
  so_Done :: bool
  so_Report :: string
  so_Metadata :: "(string, any_val) gomap option"

record sessionErrorPayload =
  se_SessionID :: string
  se_Error :: string
  se_Code :: string

text \<open>What is handed to the send channel; after the connection is done a frame may be dropped there.\<close>

datatype frame =
    AckFrame string ackPayload
  | OutputFrame sessionOutputPayload
  | ErrorFrame sessionErrorPayload

text \<open>The decoders of \<^verbatim>\<open>encoding/json\<close> for the four payloads the server sends.\<close>

record payload_decoders =
  pd_start :: "string \<Rightarrow> string + sessionStartPayload"
  pd_input :: "string \<Rightarrow> string + sessionInputPayload"
  pd_cancel :: "string \<Rightarrow> string + sessionCancelPayload"
  pd_disconnect :: "string \<Rightarrow> string + disconnectPayload"

section \<open>The session table\<close>

record remoteSession =
  rs_sessionID :: string
  rs_sessionType :: string
  rs_inputCh :: "string list option"

text \<open>A session's goroutine; \<open>rt_removed\<close> once its deferred \<^verbatim>\<open>remove\<close> has run. The session object of a task is
  shared with the table, which holds the task's number as the pointer.\<close>

record session_task =
  rt_id :: nat
  rt_sess :: remoteSession
  rt_payload :: sessionStartPayload
  rt_cancelled :: bool
  rt_removed :: bool

record Conn =
  cn_sessions :: "(string, nat) gomap"
  cn_tasks :: "session_task list"
  cn_next :: nat
  cn_sent :: "frame list"
  cn_retryAfterSec :: int
  cn_cancelled :: bool
  cn_limiter :: "DiagnoseEngine option"
  cn_diagnoseRunner :: bool
  cn_chatRunner :: bool

definition on_task :: "nat \<Rightarrow> (session_task \<Rightarrow> session_task) \<Rightarrow> Conn \<Rightarrow> Conn" where
  "on_task i f c = c\<lparr>cn_tasks := map (\<lambda>t. if rt_id t = i then f t else t) (cn_tasks c)\<rparr>"

definition cancel_task :: "nat \<Rightarrow> Conn \<Rightarrow> Conn" where
  "cancel_task i = on_task i (\<lambda>t. t\<lparr>rt_cancelled := True\<rparr>)"

definition sm_add :: "string \<Rightarrow> nat \<Rightarrow> Conn \<Rightarrow> bool \<times> Conn" where
  "sm_add sessionID i c =
     (if m_has (cn_sessions c) sessionID then (False, c)
      else (True, c\<lparr>cn_sessions := m_set sessionID i (cn_sessions c)\<rparr>))"

definition sm_remove :: "string \<Rightarrow> Conn \<Rightarrow> Conn" where
  "sm_remove sessionID c =
     (case map_of (cn_sessions c) sessionID of
        None \<Rightarrow> c
      | Some i \<Rightarrow> cancel_task i (c\<lparr>cn_sessions := m_del sessionID (cn_sessions c)\<rparr>))"

definition sm_get :: "string \<Rightarrow> Conn \<Rightarrow> nat option" where
  "sm_get sessionID c = map_of (cn_sessions c) sessionID"

definition sm_count :: "Conn \<Rightarrow> nat" where
  "sm_count c = length (cn_sessions c)"

definition cancelAll :: "Conn \<Rightarrow> Conn" where
  "cancelAll c = fold cancel_task (map snd (cn_sessions c)) (c\<lparr>cn_sessions := []\<rparr>)"

definition send :: "frame \<Rightarrow> Conn \<Rightarrow> Conn" where
  "send f c = c\<lparr>cn_sent := cn_sent c @ [f]\<rparr>"

definition sendACK :: "string \<Rightarrow> bool \<Rightarrow> string \<Rightarrow> Conn \<Rightarrow> Conn" where
  "sendACK refID ok errMsg = send (AckFrame refID \<lparr>ack_OK = ok, ack_Error = errMsg, ack_Warning = []\<rparr>)"

definition session_output :: "string \<Rightarrow> string \<Rightarrow> string \<Rightarrow> bool \<Rightarrow> string \<Rightarrow> (string, any_val) gomap option \<Rightarrow> frame" where
  "session_output sessionID delta stage done report metadata =
     OutputFrame \<lparr>so_SessionID = sessionID, so_Delta = delta, so_Stage = stage, so_Done = done,
       so_Report = report, so_Metadata = metadata\<rparr>"

definition session_error :: "string \<Rightarrow> string \<Rightarrow> string \<Rightarrow> frame" where
  "session_error sessionID errMsg code =
     ErrorFrame \<lparr>se_SessionID = sessionID, se_Error = errMsg, se_Code = code\<rparr>"

section \<open>Handlers\<close>

definition sessionStartUnavailableError :: "string \<Rightarrow> Conn \<Rightarrow> string" where
  "sessionStartUnavailableError sessionType c =
     (if cn_limiter c = None then
        (if sessionType = ''chat'' then ''chat engine not available'' else ''diagnose engine not available'')
      else if sessionType = ''chat'' then
        (if \<not> cn_chatRunner c then ''chat engine not available'' else [])
      else if sessionType = ''inspect'' \<or> sessionType = ''diagnose'' then
        (if \<not> cn_diagnoseRunner c then ''diagnose engine not available'' else [])
      else [])"

definition new_session :: "sessionStartPayload \<Rightarrow> remoteSession" where
  "new_session payload =
     \<lparr>rs_sessionID = sp_SessionID payload, rs_sessionType = sp_SessionType payload,
      rs_inputCh = (if sp_SessionType payload = ''chat'' then Some [] else None)\<rparr>"

text \<open>The part of \<^verbatim>\<open>handleSessionStart\<close> after the slot was taken. \<open>en_remote\<close> counts the slots held by
  sessions; the release on the duplicate branch receives from a channel that holds the slot just taken.\<close>

definition start_session :: "string \<Rightarrow> sessionStartPayload \<Rightarrow> DiagnoseEngine \<Rightarrow> Conn \<Rightarrow> Conn" where
  "start_session refID payload e c =
     (let (added, c1) = sm_add (sp_SessionID payload) (cn_next c) c in
      if \<not> added then
        sendACK refID False ''duplicate session_id'' (c1\<lparr>cn_limiter := ReleaseSem e\<rparr>)
      else
        sendACK refID True []
          (c1\<lparr>cn_limiter := Some (e\<lparr>en_remote := en_remote e + 1\<rparr>),
              cn_tasks := cn_tasks c1 @ [\<lparr>rt_id = cn_next c1, rt_sess = new_session payload,
                                        rt_payload = payload, rt_cancelled = False, rt_removed = False\<rparr>],
              cn_next := cn_next c1 + 1\<rparr>))"

definition handleSessionStart :: "payload_decoders \<Rightarrow> Message \<Rightarrow> Conn \<Rightarrow> Conn" where
  "handleSessionStart dec msg c =
     (case decodePayload (pd_start dec) msg of
        Inl _ \<Rightarrow> sendACK (msg_ID msg) False ''invalid payload'' c
      | Inr payload \<Rightarrow>
          if sp_SessionID payload = [] then sendACK (msg_ID msg) False ''missing session_id'' c
          else
            let engineErr = sessionStartUnavailableError (sp_SessionType payload) c in
            if engineErr \<noteq> [] then sendACK (msg_ID msg) False engineErr c
            else
              (case cn_limiter c of
                 None \<Rightarrow> c
               | Some e \<Rightarrow>
                   let (got, e') = TrySem e in
                   if \<not> got then sendACK (msg_ID msg) False ''max concurrent sessions reached'' c
                   else start_session (msg_ID msg) payload e' c))"

text \<open>The input channel holds eight messages; a full channel drops the message.\<close>

definition handleSessionInput :: "payload_decoders \<Rightarrow> Message \<Rightarrow> Conn \<Rightarrow> Conn" where
  "handleSessionInput dec msg c =
     (case decodePayload (pd_input dec) msg of
        Inl _ \<Rightarrow> c
      | Inr payload \<Rightarrow>
          (case sm_get (si_SessionID payload) c of
             None \<Rightarrow> c
           | Some i \<Rightarrow>
               if si_Message payload = [] then c
               else on_task i (\<lambda>t. t\<lparr>rt_sess := (rt_sess t)\<lparr>rs_inputCh :=
                      map_option (\<lambda>q. if length q < 8 then q @ [si_Message payload] else q)
                        (rs_inputCh (rt_sess t))\<rparr>\<rparr>) c))"

definition handleSessionCancel :: "payload_decoders \<Rightarrow> Message \<Rightarrow> Conn \<Rightarrow> Conn" where
  "handleSessionCancel dec msg c =
     (case decodePayload (pd_cancel dec) msg of
        Inl _ \<Rightarrow> c
      | Inr payload \<Rightarrow> sm_remove (sx_SessionID payload) c)"

definition handleServerMessage :: "payload_decoders \<Rightarrow> Message \<Rightarrow> Conn \<Rightarrow> Conn" where
  "handleServerMessage dec msg c =
     (if msg_Type msg = ''disconnect'' then
        (case decodePayload (pd_disconnect dec) msg of
           Inl _ \<Rightarrow> c\<lparr>cn_cancelled := True\<rparr>
         | Inr payload \<Rightarrow> c\<lparr>cn_retryAfterSec := dp_RetryAfterSec payload, cn_cancelled := True\<rparr>)
      else if msg_Type msg = ''session_start'' then handleSessionStart dec msg c
      else if msg_Type msg = ''session_input'' then handleSessionInput dec msg c
      else if msg_Type msg = ''session_cancel'' then handleSessionCancel dec msg c
      else c)"

text \<open>The two deferred calls of a session's goroutine, in the order they run.\<close>

definition task_remove :: "session_task \<Rightarrow> Conn \<Rightarrow> Conn" where
  "task_remove t c =
     on_task (rt_id t) (\<lambda>t. t\<lparr>rt_removed := True\<rparr>) (sm_remove (sp_SessionID (rt_payload t)) c)"

definition task_release :: "session_task \<Rightarrow> Conn \<Rightarrow> Conn" where
  "task_release t c =
     (case cn_limiter c of
        None \<Rightarrow> c
      | Some e \<Rightarrow>
          (case ReleaseSem e of
             None \<Rightarrow> c
           | Some e' \<Rightarrow> c\<lparr>cn_limiter := Some (e'\<lparr>en_remote := en_remote e' - 1\<rparr>),
                          cn_tasks := filter (\<lambda>u. rt_id u \<noteq> rt_id t) (cn_tasks c)\<rparr>))"

section \<open>The work of a session\<close>

text \<open>What the goroutine of a session sees: whether its context has ended at the points where the code
  asks, what the diagnosis runner streams and returns, whether a chat can be opened, and how each chat
  turn ends. A streamed output is delta, stage and metadata.\<close>

type_synonym streamed = "string \<times> string \<times> (string, any_val) gomap option"

datatype chat_turn =
    TurnReply "streamed list" string
  | TurnError "streamed list" string bool
  | TurnPanic "streamed list"

record remote_env =
  rv_ctxDone :: bool
  rv_diagnoseRunner :: bool
  rv_stream :: "string \<Rightarrow> string \<Rightarrow> string \<Rightarrow> (string, any_val) gomap \<Rightarrow> streamed list \<times> (string + string)"
  rv_ctxErr :: bool
  rv_chatRunner :: bool
  rv_chatCtxErr :: bool
  rv_newSession :: "string option"
  rv_turn :: "nat \<Rightarrow> string \<Rightarrow> chat_turn"

definition str_param :: "(string, any_val) gomap option \<Rightarrow> string \<Rightarrow> string" where
  "str_param params key =
     (case map_of (nil_map params) key of Some (AnyStr v) \<Rightarrow> v | _ \<Rightarrow> [])"

definition cb_frames :: "string \<Rightarrow> streamed list \<Rightarrow> frame list" where
  "cb_frames sid outs = map (\<lambda>(delta, stage, metadata). session_output sid delta stage False [] metadata) outs"

text \<open>\<^verbatim>\<open>runInspectOrDiagnose\<close>: outcome, report, and the frames it sends.\<close>

definition stream_result :: "remote_env \<Rightarrow> string \<Rightarrow> streamed list \<times> (string + string) \<Rightarrow> (string \<times> string) \<times> frame list" where
  "stream_result env sid answer =
     (let (outs, result) = answer in
      case result of
        Inr report \<Rightarrow> ((''ok'', report), cb_frames sid outs)
      | Inl err \<Rightarrow>
          if rv_ctxErr env then ((''cancelled'', []), cb_frames sid outs)
          else ((''error'', []), cb_frames sid outs @ [session_error sid err ''diagnose_failed'']))"

definition runInspectOrDiagnose :: "remote_env \<Rightarrow> remoteSession \<Rightarrow> sessionStartPayload \<Rightarrow> (string \<times> string) \<times> frame list" where
  "runInspectOrDiagnose env sess payload =
     (let sid = rs_sessionID sess;
          plugin = str_param (sp_Params payload) ''plugin'';
          target = str_param (sp_Params payload) ''target''
      in if \<not> rv_diagnoseRunner env then
           ((''error'', []), [session_error sid ''diagnose engine not available'' ''engine_unavailable''])
         else if rs_sessionType sess = ''inspect'' \<and> plugin = [] then
           ((''error'', []), [session_error sid ''plugin is required for inspect'' ''missing_plugin''])
         else
           let plugin = (if plugin = [] then ''system'' else plugin);
               target = (if target = [] then ''localhost'' else target);
               mode = (if rs_sessionType sess = ''diagnose'' then ''alert'' else ''inspect'')
           in stream_result env sid (rv_stream env mode plugin target (nil_map (sp_Params payload))))"

text \<open>The metadata \<^verbatim>\<open>turn_done: true\<close>.\<close>

definition turn_done :: "(string, any_val) gomap option" where
  "turn_done = Some [(''turn_done'', AnyOther 1)]"

definition processTurn :: "remote_env \<Rightarrow> string \<Rightarrow> nat \<Rightarrow> string \<Rightarrow> string \<times> frame list" where
  "processTurn env sid turn msg =
     (case rv_turn env turn msg of
        TurnReply outs reply \<Rightarrow> ([], cb_frames sid outs @ [session_output sid reply ''answer'' False [] turn_done])
      | TurnError outs err ctxErr \<Rightarrow>
          if ctxErr then (''cancelled'', cb_frames sid outs)
          else ([], cb_frames sid outs @ [session_output sid err ''error'' False [] turn_done])
      | TurnPanic outs \<Rightarrow>
          ([], cb_frames sid outs @ [session_output sid ''internal error'' ''error'' False [] turn_done]))"

text \<open>The select loop of \<^verbatim>\<open>runChat\<close> over the messages it receives before its context ends.\<close>

fun chat_loop :: "remote_env \<Rightarrow> string \<Rightarrow> nat \<Rightarrow> string list \<Rightarrow> string \<times> frame list" where
  "chat_loop env sid turn [] = (''cancelled'', [])"
| "chat_loop env sid turn (msg # msgs) =
     (let (outcome, fs) = processTurn env sid turn msg in
      if outcome \<noteq> [] then (outcome, fs)
      else let (outcome, fs') = chat_loop env sid (turn + 1) msgs in (outcome, fs @ fs'))"

definition runChat :: "remote_env \<Rightarrow> remoteSession \<Rightarrow> sessionStartPayload \<Rightarrow> string list \<Rightarrow> string \<times> frame list" where
  "runChat env sess payload inputs =
     (let sid = rs_sessionID sess in
      if \<not> rv_chatRunner env then
        (''error'', [session_error sid ''chat engine not available'' ''engine_unavailable''])
      else if rv_chatCtxErr env then (''cancelled'', [])
      else
        case rv_newSession env of
          Some err \<Rightarrow>
            if rv_ctxErr env then (''cancelled'', [])
            else (''error'', [session_error sid err ''chat_init_failed''])
        | None \<Rightarrow>
            let msg = str_param (sp_Params payload) ''message'' in
            if msg \<noteq> [] then
              (let (outcome, fs) = processTurn env sid 1 msg in
               if outcome \<noteq> [] then (outcome, fs)
               else let (outcome, fs') = chat_loop env sid 2 inputs in (outcome, fs @ fs'))
            else chat_loop env sid 1 inputs)"

definition runRemoteSession :: "remote_env \<Rightarrow> remoteSession \<Rightarrow> sessionStartPayload \<Rightarrow> string list \<Rightarrow> string \<times> frame list" where
  "runRemoteSession env sess payload inputs =
     (let sid = rs_sessionID sess; final = [session_output sid [] [] True [] None] in
      if rv_ctxDone env then (''cancelled'', final)
      else if rs_sessionType sess = ''inspect'' \<or> rs_sessionType sess = ''diagnose'' then
        (let ((outcome, report), fs) = runInspectOrDiagnose env sess payload in
         if report \<noteq> [] then (outcome, fs @ [session_output sid [] [] True report None])
         else (outcome, fs @ final))
      else if rs_sessionType sess = ''chat'' then
        (let (outcome, fs) = runChat env sess payload inputs in (outcome, fs @ final))
      else
        (''error'', [session_error sid (''unknown session type: '' @ rs_sessionType sess) ''invalid_type''] @ final))"

section \<open>Interleavings\<close>

text \<open>The steps of one connection: a message of the server, an output of a session, a chat session
  taking its next input, the loss of the connection, the deferred calls of a session, and the local
  steps of the diagnosis engine, which are those that leave the remote slots alone.\<close>

definition is_ack :: "frame \<Rightarrow> bool" where
  "is_ack f \<longleftrightarrow> (case f of AckFrame _ _ \<Rightarrow> True | _ \<Rightarrow> False)"

inductive server_step :: "Conn \<Rightarrow> Conn \<Rightarrow> bool" where
  message: "\<not> cn_cancelled c \<Longrightarrow> server_step c (handleServerMessage dec msg c)"
| emit: "t \<in> set (cn_tasks c) \<Longrightarrow> \<not> rt_removed t \<Longrightarrow> \<not> is_ack f \<Longrightarrow> server_step c (send f c)"
| input: "t \<in> set (cn_tasks c) \<Longrightarrow> \<not> rt_removed t \<Longrightarrow> rs_inputCh (rt_sess t) = Some (m # ms) \<Longrightarrow>
    server_step c (on_task (rt_id t) (\<lambda>u. u\<lparr>rt_sess := (rt_sess u)\<lparr>rs_inputCh := Some ms\<rparr>\<rparr>) c)"
| lost: "server_step c (cancelAll (c\<lparr>cn_cancelled := True\<rparr>))"
| remove: "t \<in> set (cn_tasks c) \<Longrightarrow> \<not> rt_removed t \<Longrightarrow> server_step c (task_remove t c)"
| release: "t \<in> set (cn_tasks c) \<Longrightarrow> rt_removed t \<Longrightarrow> server_step c (task_release t c)"
| local: "cn_limiter c = Some e \<Longrightarrow> engine_step e e' \<Longrightarrow> en_remote e' = en_remote e \<Longrightarrow>
    server_step c (c\<lparr>cn_limiter := Some e'\<rparr>)"

inductive server_reachable :: "Conn \<Rightarrow> Conn \<Rightarrow> bool" for c0 where
  init: "server_reachable c0 c0"
| step: "server_reachable c0 c \<Longrightarrow> server_step c c' \<Longrightarrow> server_reachable c0 c'"

definition new_conn :: "DiagnoseEngine \<Rightarrow> Conn" where
  "new_conn e = \<lparr>cn_sessions = [], cn_tasks = [], cn_next = 0, cn_sent = [], cn_retryAfterSec = 0,
     cn_cancelled = False, cn_limiter = Some e, cn_diagnoseRunner = True, cn_chatRunner = True\<rparr>"

section \<open>Properties of a session's work\<close>

fun frame_done :: "frame \<Rightarrow> bool" where
  "frame_done (OutputFrame p) = so_Done p"
| "frame_done _ = False"

fun frame_session :: "frame \<Rightarrow> string" where
  "frame_session (AckFrame r p) = []"
| "frame_session (OutputFrame p) = so_SessionID p"
| "frame_session (ErrorFrame p) = se_SessionID p"

text \<open>A frame of a session that is still going on.\<close>

definition running_frame :: "string \<Rightarrow> frame \<Rightarrow> bool" where
  "running_frame sid f \<longleftrightarrow> \<not> frame_done f \<and> frame_session f = sid \<and> \<not> is_ack f"

lemma running_frames [simp]:
  "running_frame sid (session_error sid e c)" "running_frame sid (session_output sid d st False r m)"
  "list_all (running_frame sid) (cb_frames sid outs)"
  by (auto simp: running_frame_def session_error_def session_output_def cb_frames_def is_ack_def list_all_iff)

lemma stream_result_running:
  "list_all (running_frame sid) (snd (stream_result env sid answer))"
  "snd (fst (stream_result env sid answer)) \<noteq> [] \<Longrightarrow> fst (fst (stream_result env sid answer)) = ''ok''"
  by (cases answer; cases "snd answer"; auto simp: stream_result_def)+

lemma runInspect_running:
  "list_all (running_frame (rs_sessionID sess)) (snd (runInspectOrDiagnose env sess payload))"
  "snd (fst (runInspectOrDiagnose env sess payload)) \<noteq> [] \<Longrightarrow>
   fst (fst (runInspectOrDiagnose env sess payload)) = ''ok''"
  by (auto simp: runInspectOrDiagnose_def Let_def stream_result_running simp del: not_Cons_self split: if_splits)

lemma processTurn_running: "list_all (running_frame sid) (snd (processTurn env sid turn msg))"
  by (simp add: processTurn_def split: chat_turn.splits)

lemma chat_loop_running: "list_all (running_frame sid) (snd (chat_loop env sid turn msgs))"
proof (induction msgs arbitrary: turn)
  case Nil
  then show ?case by simp
next
  case (Cons msg msgs)
  then show ?case using processTurn_running [of sid env turn msg] by (simp add: Let_def case_prod_beta)
qed

lemma runChat_running: "list_all (running_frame (rs_sessionID sess)) (snd (runChat env sess payload inputs))"
  using processTurn_running chat_loop_running
  by (auto simp: runChat_def Let_def case_prod_beta split: option.splits)

text \<open>C17: whatever happens in a remote session (an unknown type, a missing runner, a failed or cancelled
  diagnosis, chat turns that fail or panic), the server gets exactly one final frame for it, as the
  last frame, and every frame of the session carries its session id; the final frame has a report
  only after a successful inspection or diagnosis.\<close>

theorem remote_session_done_once:
  "\<exists>fs final. snd (runRemoteSession env sess payload inputs) = fs @ [final] \<and>
     list_all (\<lambda>f. \<not> frame_done f \<and> frame_session f = rs_sessionID sess \<and> \<not> is_ack f) fs \<and>
     (\<exists>report. final = session_output (rs_sessionID sess) [] [] True report None \<and>
        (report = [] \<or> fst (runRemoteSession env sess payload inputs) = ''ok''))"
proof -
  let ?sid = "rs_sessionID sess"
  have fold: "(\<lambda>f. \<not> frame_done f \<and> frame_session f = ?sid \<and> \<not> is_ack f) = running_frame ?sid"
    by (simp add: running_frame_def fun_eq_iff)
  have "\<exists>fs report. snd (runRemoteSession env sess payload inputs) = fs @ [session_output ?sid [] [] True report None] \<and>
      list_all (running_frame ?sid) fs \<and> (report = [] \<or> fst (runRemoteSession env sess payload inputs) = ''ok'')"
  proof -
    consider "rv_ctxDone env" | "\<not> rv_ctxDone env" "rs_sessionType sess = ''inspect'' \<or> rs_sessionType sess = ''diagnose''"
      | "\<not> rv_ctxDone env" "rs_sessionType sess \<noteq> ''inspect''" "rs_sessionType sess \<noteq> ''diagnose''" by blast
    then show ?thesis
    proof cases
      case 2
      then show ?thesis using runInspect_running(1) [of sess env payload] runInspect_running(2) [of env sess payload]
        by (auto simp: runRemoteSession_def Let_def case_prod_beta)
    next
      case 3
      then show ?thesis using runChat_running [of sess env payload inputs]
        by (auto simp: runRemoteSession_def Let_def case_prod_beta)
    qed (simp add: runRemoteSession_def)
  qed
  then show ?thesis unfolding fold by blast
qed

section \<open>The session table and the slots\<close>

definition tasks_inv :: "Conn \<Rightarrow> bool" where
  "tasks_inv c \<longleftrightarrow> distinct (map rt_id (cn_tasks c)) \<and> list_all (\<lambda>i. i < cn_next c) (map rt_id (cn_tasks c))"

text \<open>An entry of the table is a session that has neither been cancelled nor removed itself.\<close>

definition live :: "string \<Rightarrow> nat \<Rightarrow> session_task \<Rightarrow> bool" where
  "live k i t \<longleftrightarrow> rt_id t = i \<and> sp_SessionID (rt_payload t) = k \<and> \<not> rt_cancelled t \<and> \<not> rt_removed t"

definition table_inv :: "Conn \<Rightarrow> bool" where
  "table_inv c \<longleftrightarrow> m_ok (cn_sessions c) \<and>
     (\<forall>k i. map_of (cn_sessions c) k = Some i \<longrightarrow> list_ex (live k i) (cn_tasks c))"

definition limiter_inv :: "DiagnoseEngine \<Rightarrow> Conn \<Rightarrow> bool" where
  "limiter_inv e0 c \<longleftrightarrow>
     (\<exists>e. cn_limiter c = Some e \<and> engine_reachable e0 e \<and> en_remote e = length (cn_tasks c))"

lemma on_task_fields [simp]:
  "cn_sessions (on_task i f c) = cn_sessions c" "cn_next (on_task i f c) = cn_next c"
  "cn_limiter (on_task i f c) = cn_limiter c" "length (cn_tasks (on_task i f c)) = length (cn_tasks c)"
  "cn_sent (on_task i f c) = cn_sent c"
  by (auto simp: on_task_def)

text \<open>Functions on tasks that keep the number and the payload.\<close>

definition keeps_task :: "(session_task \<Rightarrow> session_task) \<Rightarrow> bool" where
  "keeps_task f \<longleftrightarrow> (\<forall>t. rt_id (f t) = rt_id t \<and> rt_payload (f t) = rt_payload t)"

lemma on_task_ids: "keeps_task f \<Longrightarrow> map rt_id (cn_tasks (on_task i f c)) = map rt_id (cn_tasks c)"
  by (auto simp: on_task_def keeps_task_def)

lemma tasks_inv_on_task: "keeps_task f \<Longrightarrow> tasks_inv (on_task i f c) = tasks_inv c"
  by (simp add: tasks_inv_def on_task_ids del: list.map_comp)

lemma limiter_inv_on_task [simp]: "limiter_inv e0 (on_task i f c) = limiter_inv e0 c"
  by (simp add: limiter_inv_def)

lemma keeps_task_simps [simp]:
  "keeps_task (\<lambda>t. t\<lparr>rt_cancelled := b\<rparr>)" "keeps_task (\<lambda>t. t\<lparr>rt_removed := b\<rparr>)"
  "keeps_task (\<lambda>t. t\<lparr>rt_sess := g t\<rparr>)"
  by (simp_all add: keeps_task_def)

text \<open>An update of task \<open>i\<close> keeps the table correct if it keeps the task live, or if no entry points to it.\<close>

lemma table_inv_on_task:
  assumes "table_inv c" "keeps_task f"
    and "(\<forall>t. rt_cancelled (f t) = rt_cancelled t \<and> rt_removed (f t) = rt_removed t) \<or>
      (\<forall>k. map_of (cn_sessions c) k \<noteq> Some i)"
  shows "table_inv (on_task i f c)"
proof -
  have "list_ex (live k j) (cn_tasks (on_task i f c))"
    if e: "map_of (cn_sessions c) k = Some j" and l: "list_ex (live k j) (cn_tasks c)" for k j
  proof -
    obtain t where t: "t \<in> set (cn_tasks c)" "live k j t" using l by (auto simp: list_ex_iff)
    have "live k j (if rt_id t = i then f t else t)"
      using t(2) assms(2,3) e by (auto simp: live_def keeps_task_def)
    moreover have "(if rt_id t = i then f t else t) \<in> set (cn_tasks (on_task i f c))"
      using t(1) by (auto simp: on_task_def)
    ultimately show ?thesis unfolding list_ex_iff by blast
  qed
  then show ?thesis using assms(1) by (simp add: table_inv_def)
qed

lemma table_entry_task:
  assumes "table_inv c" "tasks_inv c" "map_of (cn_sessions c) k = Some i" "t \<in> set (cn_tasks c)" "rt_id t = i"
  shows "sp_SessionID (rt_payload t) = k" "\<not> rt_removed t"
proof -
  obtain u where u: "u \<in> set (cn_tasks c)" "live k i u"
    using assms(1,3) by (auto simp: table_inv_def list_ex_iff)
  have "u = t" using assms(2,4,5) u by (auto simp: tasks_inv_def distinct_map inj_on_def live_def)
  then show "sp_SessionID (rt_payload t) = k" "\<not> rt_removed t" using u(2) by (auto simp: live_def)
qed

lemma table_inv_del:
  "table_inv c \<Longrightarrow> table_inv (c\<lparr>cn_sessions := m_del k (cn_sessions c)\<rparr>)"
  by (auto simp: table_inv_def split: if_splits)

lemma table_entries_unique:
  assumes "table_inv c" "tasks_inv c" "map_of (cn_sessions c) k = Some i" "map_of (cn_sessions c) k' = Some i"
  shows "k = k'"
proof -
  obtain t where t: "t \<in> set (cn_tasks c)" "live k i t"
    using assms(1,3) by (auto simp: table_inv_def list_ex_iff)
  then have "rt_id t = i" "sp_SessionID (rt_payload t) = k" by (auto simp: live_def)
  then show ?thesis using table_entry_task(1) [OF assms(1,2,4) t(1)] by simp
qed

definition conn_inv :: "DiagnoseEngine \<Rightarrow> Conn \<Rightarrow> bool" where
  "conn_inv e0 c \<longleftrightarrow> tasks_inv c \<and> table_inv c \<and> limiter_inv e0 c"

lemma sm_remove_inv:
  assumes "conn_inv e0 c"
  shows "conn_inv e0 (sm_remove k c)" "map_of (cn_sessions (sm_remove k c)) k = None"
    "map rt_id (cn_tasks (sm_remove k c)) = map rt_id (cn_tasks c)"
proof -
  have inv: "tasks_inv c" "table_inv c" "limiter_inv e0 c" using assms by (auto simp: conn_inv_def)
  let ?d = "c\<lparr>cn_sessions := m_del k (cn_sessions c)\<rparr>"
  have d: "tasks_inv ?d" "table_inv ?d" "limiter_inv e0 ?d"
    using inv table_inv_del [OF inv(2)] by (auto simp: tasks_inv_def limiter_inv_def)
  show "conn_inv e0 (sm_remove k c)"
  proof (cases "map_of (cn_sessions c) k")
    case (Some i)
    have "\<forall>k'. map_of (cn_sessions ?d) k' \<noteq> Some i"
      using table_entries_unique [OF inv(2,1) Some] by auto
    then have "table_inv (cancel_task i ?d)"
      unfolding cancel_task_def using table_inv_on_task [OF d(2)] by simp
    then show ?thesis using Some d by (simp add: sm_remove_def conn_inv_def cancel_task_def tasks_inv_on_task)
  qed (use assms in \<open>simp add: sm_remove_def\<close>)
  show "map_of (cn_sessions (sm_remove k c)) k = None"
    by (cases "map_of (cn_sessions c) k") (simp_all add: sm_remove_def cancel_task_def)
  show "map rt_id (cn_tasks (sm_remove k c)) = map rt_id (cn_tasks c)"
    by (cases "map_of (cn_sessions c) k") (simp_all add: sm_remove_def cancel_task_def on_task_ids del: list.map_comp)
qed

lemma send_inv [simp]:
  "conn_inv e0 (send f c) = conn_inv e0 c" "conn_inv e0 (sendACK r ok m c) = conn_inv e0 c"
  "conn_inv e0 (c\<lparr>cn_retryAfterSec := n\<rparr>) = conn_inv e0 c" "conn_inv e0 (c\<lparr>cn_cancelled := b\<rparr>) = conn_inv e0 c"
  by (simp_all add: conn_inv_def tasks_inv_def table_inv_def limiter_inv_def send_def sendACK_def)

lemma start_session_inv:
  assumes "conn_inv e0 c" "cn_limiter c = Some e" "TrySem e = (True, e')"
  shows "conn_inv e0 (start_session refID payload e' c)"
proof -
  have inv: "tasks_inv c" "table_inv c" "limiter_inv e0 c" using assms(1) by (auto simp: conn_inv_def)
  have e: "engine_reachable e0 e" "en_remote e = length (cn_tasks c)"
    using inv(3) assms(2) by (auto simp: limiter_inv_def)
  have e': "e' = e\<lparr>en_sem := en_sem e + 1\<rparr>" using assms(3) by (auto simp: TrySem_def split: if_splits)
  show ?thesis
  proof (cases "m_has (cn_sessions c) (sp_SessionID payload)")
    case True
    have "ReleaseSem e' = Some e" using e' by (simp add: ReleaseSem_def)
    moreover have "c\<lparr>cn_limiter := Some e\<rparr> = c" using assms(2) by (cases c) simp
    ultimately show ?thesis using True assms(1) by (simp add: start_session_def sm_add_def)
  next
    case False
    have "engine_reachable e0 (e'\<lparr>en_remote := en_remote e' + 1\<rparr>)"
      using engine_reachable.step [OF e(1) engine_step.remote_start [OF assms(3)]] .
    then have "limiter_inv e0 (start_session refID payload e' c)"
      using False e(2) e' by (simp add: start_session_def sm_add_def limiter_inv_def sendACK_def send_def)
    moreover have "tasks_inv (start_session refID payload e' c)"
      using False inv(1) by (auto simp: start_session_def sm_add_def tasks_inv_def sendACK_def send_def list_all_iff)
    moreover have "table_inv (start_session refID payload e' c)"
      using False inv(2)
      by (auto simp: start_session_def sm_add_def table_inv_def sendACK_def send_def live_def)
    ultimately show ?thesis by (simp add: conn_inv_def)
  qed
qed

lemma handleSessionStart_inv:
  assumes "conn_inv e0 c"
  shows "conn_inv e0 (handleSessionStart dec msg c)"
  using assms start_session_inv [OF assms]
  by (auto simp: handleSessionStart_def Let_def split: sum.splits option.splits prod.splits)

lemma handleServerMessage_inv:
  assumes "conn_inv e0 c"
  shows "conn_inv e0 (handleServerMessage dec msg c)"
proof -
  have "conn_inv e0 (on_task i (\<lambda>t. t\<lparr>rt_sess := g t\<rparr>) c)" for i g
    using assms table_inv_on_task [of c "\<lambda>t. t\<lparr>rt_sess := g t\<rparr>" i]
    by (simp add: conn_inv_def tasks_inv_on_task)
  then have "conn_inv e0 (handleSessionInput dec msg c)"
    using assms by (auto simp: handleSessionInput_def split: sum.splits option.splits)
  moreover have "conn_inv e0 (handleSessionCancel dec msg c)"
    using assms sm_remove_inv(1) by (auto simp: handleSessionCancel_def split: sum.splits)
  ultimately show ?thesis
    using assms handleSessionStart_inv by (auto simp: handleServerMessage_def split: sum.splits)
qed

lemma fold_cancel:
  "cn_sessions (fold cancel_task is c) = cn_sessions c \<and> cn_limiter (fold cancel_task is c) = cn_limiter c \<and>
   cn_next (fold cancel_task is c) = cn_next c \<and>
   map rt_id (cn_tasks (fold cancel_task is c)) = map rt_id (cn_tasks c)"
proof (induction "is" arbitrary: c)
  case (Cons i "is")
  show ?case using Cons [of "cancel_task i c"] by (simp add: cancel_task_def on_task_ids del: list.map_comp)
qed simp

lemma cancelAll_inv:
  assumes "conn_inv e0 c"
  shows "conn_inv e0 (cancelAll c)"
proof -
  let ?c = "cancelAll c"
  have f: "cn_sessions ?c = []" "cn_limiter ?c = cn_limiter c" "cn_next ?c = cn_next c"
    "map rt_id (cn_tasks ?c) = map rt_id (cn_tasks c)"
    unfolding cancelAll_def using fold_cancel [of "map snd (cn_sessions c)" "c\<lparr>cn_sessions := []\<rparr>"] by simp_all
  have "length (cn_tasks ?c) = length (cn_tasks c)" using arg_cong [OF f(4), of length] by simp
  then show ?thesis using assms f by (simp add: conn_inv_def tasks_inv_def table_inv_def limiter_inv_def)
qed

lemma task_remove_inv:
  assumes "conn_inv e0 c" "t \<in> set (cn_tasks c)"
  shows "conn_inv e0 (task_remove t c)"
proof -
  let ?k = "sp_SessionID (rt_payload t)"
  let ?d = "sm_remove ?k c"
  have inv: "tasks_inv c" "table_inv c" using assms(1) by (auto simp: conn_inv_def)
  have d: "conn_inv e0 ?d" "map_of (cn_sessions ?d) ?k = None" using sm_remove_inv [OF assms(1)] by auto
  have sub: "map_of (cn_sessions ?d) k' = Some i \<Longrightarrow> map_of (cn_sessions c) k' = Some i" for k' i
    by (auto simp: sm_remove_def cancel_task_def split: option.splits if_splits)
  have "map_of (cn_sessions ?d) k' \<noteq> Some (rt_id t)" for k'
  proof
    assume e: "map_of (cn_sessions ?d) k' = Some (rt_id t)"
    then have "?k = k'" using table_entry_task(1) [OF inv(2,1) sub assms(2) refl] by blast
    then show False using e d(2) by simp
  qed
  then show ?thesis
    using d(1) table_inv_on_task [of ?d "\<lambda>t. t\<lparr>rt_removed := True\<rparr>" "rt_id t"]
    by (simp add: task_remove_def conn_inv_def tasks_inv_on_task)
qed

lemma task_release_inv:
  assumes "conn_inv e0 c" "NewDiagnoseEngine st cfg = Some e0" "t \<in> set (cn_tasks c)" "rt_removed t"
  shows "conn_inv e0 (task_release t c)" "Suc (length (cn_tasks (task_release t c))) = length (cn_tasks c)"
proof -
  have inv: "tasks_inv c" "table_inv c" using assms(1) by (auto simp: conn_inv_def)
  obtain e where e: "cn_limiter c = Some e" "engine_reachable e0 e" "en_remote e = length (cn_tasks c)"
    using assms(1) by (auto simp: conn_inv_def limiter_inv_def)
  have pos: "0 < en_remote e" using e(3) assms(3) by (metis length_pos_if_in_set)
  then have "0 < en_sem e" using engine_reachable_inv [OF e(2) assms(2)] by (simp add: slots_inv_def)
  then obtain e' where rel: "ReleaseSem e = Some e'" "en_remote e' = en_remote e" by (auto simp: ReleaseSem_def)
  let ?ts = "filter (\<lambda>u. rt_id u \<noteq> rt_id t) (cn_tasks c)"
  have c': "task_release t c = c\<lparr>cn_limiter := Some (e'\<lparr>en_remote := en_remote e' - 1\<rparr>), cn_tasks := ?ts\<rparr>"
    using e(1) rel(1) by (simp add: task_release_def)
  show one: "Suc (length (cn_tasks (task_release t c))) = length (cn_tasks c)"
    using filter_one_out [of rt_id "cn_tasks c" t] inv(1) assms(3) by (simp add: c' tasks_inv_def)
  have "engine_reachable e0 (e'\<lparr>en_remote := en_remote e' - 1\<rparr>)"
    using engine_reachable.step [OF e(2) engine_step.remote_end [OF pos rel(1)]] .
  then have "limiter_inv e0 (task_release t c)"
    using one rel(2) e(3) by (simp add: limiter_inv_def c')
  moreover have "tasks_inv (task_release t c)"
    using inv(1) by (auto simp: tasks_inv_def c' distinct_map_filter list_all_iff)
  moreover have "list_ex (live k i) ?ts" if m: "map_of (cn_sessions c) k = Some i" for k i
  proof -
    obtain u where u: "u \<in> set (cn_tasks c)" "live k i u" using inv(2) m by (auto simp: table_inv_def list_ex_iff)
    have "rt_id t \<noteq> i" using table_entry_task(2) [OF inv(2,1) m assms(3)] assms(4) by blast
    then show ?thesis using u by (auto simp: list_ex_iff live_def)
  qed
  then have "table_inv (task_release t c)" using inv(2) by (simp add: table_inv_def c')
  ultimately show "conn_inv e0 (task_release t c)" by (simp add: conn_inv_def)
qed

lemma server_step_inv:
  assumes "server_step c c'" "conn_inv e0 c" "NewDiagnoseEngine st cfg = Some e0"
  shows "conn_inv e0 c'"
  using assms(1)
proof cases
  case (message dec msg)
  then show ?thesis using handleServerMessage_inv assms(2) by simp
next
  case (emit t f)
  then show ?thesis using assms(2) by simp
next
  case (input t m ms)
  then show ?thesis
    using assms(2) table_inv_on_task [of c "\<lambda>u. u\<lparr>rt_sess := (rt_sess u)\<lparr>rs_inputCh := Some ms\<rparr>\<rparr>" "rt_id t"]
    by (simp add: conn_inv_def tasks_inv_on_task)
next
  case lost
  then show ?thesis using cancelAll_inv [of e0 "c\<lparr>cn_cancelled := True\<rparr>"] assms(2) by simp
next
  case (remove t)
  then show ?thesis using task_remove_inv assms(2) by simp
next
  case (release t)
  then show ?thesis using task_release_inv(1) assms(2,3) by simp
next
  case (local e e')
  then have "engine_reachable e0 e" "en_remote e = length (cn_tasks c)"
    using assms(2) by (auto simp: conn_inv_def limiter_inv_def)
  then show ?thesis using local assms(2) engine_reachable.step
    by (auto simp: conn_inv_def tasks_inv_def table_inv_def limiter_inv_def)
qed

lemma server_reachable_inv:
  assumes "NewDiagnoseEngine st cfg = Some e0" "server_reachable (new_conn e0) c"
  shows "conn_inv e0 c"
  using assms(2)
proof induction
  case init
  have "en_remote e0 = 0" using assms(1) by (auto simp: NewDiagnoseEngine_def split: if_splits)
  then show ?case
    by (simp add: conn_inv_def tasks_inv_def table_inv_def limiter_inv_def new_conn_def engine_reachable.init)
next
  case (step c c')
  then show ?case using server_step_inv assms(1) by blast
qed

section \<open>Properties of the session table\<close>


text \<open>every session_start message is acknowledged exactly once, under its own id. A negative
  acknowledgement changes nothing else, the slot taken for a duplicate id included; a positive one
  means a slot was free and is now taken, the id was not in use, and exactly one goroutine was
  started for it.\<close>

theorem session_start_acked:
  "(\<exists>err. err \<noteq> [] \<and> handleSessionStart dec msg c = sendACK (msg_ID msg) False err c) \<or>
   (\<exists>payload e. decodePayload (pd_start dec) msg = Inr payload \<and> sp_SessionID payload \<noteq> [] \<and>
      map_of (cn_sessions c) (sp_SessionID payload) = None \<and>
      cn_limiter c = Some e \<and> en_sem e < en_semCap e \<and>
      handleSessionStart dec msg c =
        sendACK (msg_ID msg) True []
          (c\<lparr>cn_sessions := m_set (sp_SessionID payload) (cn_next c) (cn_sessions c),
             cn_limiter := Some (e\<lparr>en_sem := en_sem e + 1, en_remote := en_remote e + 1\<rparr>),
             cn_tasks := cn_tasks c @ [\<lparr>rt_id = cn_next c, rt_sess = new_session payload,
               rt_payload = payload, rt_cancelled = False, rt_removed = False\<rparr>],
             cn_next := cn_next c + 1\<rparr>))"
proof (cases "decodePayload (pd_start dec) msg")
  case (Inr payload)
  show ?thesis
  proof (cases "sp_SessionID payload = [] \<or> sessionStartUnavailableError (sp_SessionType payload) c \<noteq> []")
    case False
    then obtain e where e: "cn_limiter c = Some e"
      by (cases "cn_limiter c") (auto simp: sessionStartUnavailableError_def split: if_splits)
    then have same: "c\<lparr>cn_limiter := Some e\<rparr> = c" by (cases c) simp
    have dup: "m_has (cn_sessions c) (sp_SessionID payload) \<Longrightarrow> en_sem e < en_semCap e \<Longrightarrow>
        handleSessionStart dec msg c = sendACK (msg_ID msg) False ''duplicate session_id'' c"
      using False Inr e arg_cong [OF same, of "sendACK (msg_ID msg) False ''duplicate session_id''"]
      by (simp add: handleSessionStart_def TrySem_def ReleaseSem_def start_session_def sm_add_def Let_def)
    show ?thesis
      using False Inr e dup
      by (auto simp: handleSessionStart_def TrySem_def ReleaseSem_def start_session_def sm_add_def Let_def m_has_def
          split: option.splits)
  qed (use Inr in \<open>auto simp: handleSessionStart_def Let_def\<close>)
qed (auto simp: handleSessionStart_def)

definition sample_start :: sessionStartPayload where
  "sample_start = \<lparr>sp_SessionID = ''s1'', sp_SessionType = ''chat'', sp_UserName = [], sp_Params = None\<rparr>"

definition sample_decoders :: payload_decoders where
  "sample_decoders = \<lparr>pd_start = (\<lambda>_. Inr sample_start), pd_input = (\<lambda>_. Inl []),
     pd_cancel = (\<lambda>_. Inr \<lparr>sx_SessionID = ''s1'', sx_Reason = []\<rparr>), pd_disconnect = (\<lambda>_. Inl [])\<rparr>"

definition server_msg :: "string \<Rightarrow> Message" where
  "server_msg ty = \<lparr>msg_Type = ty, msg_ID = ''m'', msg_RefID = [], msg_Payload = ''x''\<rparr>"

definition chat_task :: "nat \<Rightarrow> bool \<Rightarrow> session_task" where
  "chat_task i cancelled = \<lparr>rt_id = i, rt_sess = new_session sample_start, rt_payload = sample_start,
     rt_cancelled = cancelled, rt_removed = False\<rparr>"

text \<open>A chat session is started, cancelled by the server and started again under the same id.\<close>

definition after_messages :: "string list \<Rightarrow> Conn" where
  "after_messages tys = fold (\<lambda>ty. handleServerMessage sample_decoders (server_msg ty)) tys (new_conn sample_engine)"

lemma after_messages_reachable:
  "set tys \<subseteq> {''session_start'', ''session_cancel''} \<Longrightarrow>
   server_reachable (new_conn sample_engine) (after_messages tys) \<and> \<not> cn_cancelled (after_messages tys)"
proof (induction tys rule: rev_induct)
  case Nil
  then show ?case by (simp add: after_messages_def server_reachable.init new_conn_def)
next
  case (snoc ty tys)
  have "after_messages (tys @ [ty]) = handleServerMessage sample_decoders (server_msg ty) (after_messages tys)"
    by (simp add: after_messages_def)
  moreover have "cn_cancelled (handleServerMessage sample_decoders (server_msg ty) c) = cn_cancelled c"
    if "ty \<in> {''session_start'', ''session_cancel''}" for c
    using that by (auto simp: handleServerMessage_def server_msg_def handleSessionStart_def handleSessionCancel_def
        start_session_def sm_add_def sm_remove_def cancel_task_def on_task_def sendACK_def send_def Let_def
        split: sum.splits option.splits prod.splits)
  ultimately show ?case using snoc server_reachable.step [OF _ server_step.message] by auto
qed

lemma restarted_state:
  "cn_tasks (after_messages [''session_start'', ''session_cancel'', ''session_start'']) = [chat_task 0 True, chat_task 1 False]"
  "cn_sessions (after_messages [''session_start'', ''session_cancel'', ''session_start'']) = [(''s1'', 1)]"
  by code_simp+

text \<open>a session id that is used again while the goroutine of its cancelled predecessor is still
  ending is not protected from it: the deferred removal of the old goroutine removes by id, so it takes
  the new session out of the table and cancels it, although the server never asked for that.\<close>

theorem stale_remove_cancels_restart:
  "\<exists>c old new. server_reachable (new_conn sample_engine) c \<and> old \<in> set (cn_tasks c) \<and> new \<in> set (cn_tasks c) \<and>
     rt_id old \<noteq> rt_id new \<and> \<not> rt_removed old \<and> \<not> rt_cancelled new \<and> sm_get ''s1'' c = Some (rt_id new) \<and>
     server_step c (task_remove old c) \<and> sm_get ''s1'' (task_remove old c) = None \<and>
     new\<lparr>rt_cancelled := True\<rparr> \<in> set (cn_tasks (task_remove old c))"
proof -
  let ?c = "after_messages [''session_start'', ''session_cancel'', ''session_start'']"
  have old: "chat_task 0 True \<in> set (cn_tasks ?c)" "chat_task 1 False \<in> set (cn_tasks ?c)"
    "\<not> rt_removed (chat_task 0 True)"
    by (simp_all add: restarted_state) (simp add: chat_task_def)
  have "server_step ?c (task_remove (chat_task 0 True) ?c)"
    using old by (intro server_step.remove)
  moreover have "sm_get ''s1'' (task_remove (chat_task 0 True) ?c) = None"
    "(chat_task 1 False)\<lparr>rt_cancelled := True\<rparr> \<in> set (cn_tasks (task_remove (chat_task 0 True) ?c))"
    by (simp_all add: task_remove_def sm_remove_def restarted_state cancel_task_def on_task_def sm_get_def)
       (simp_all add: chat_task_def sample_start_def m_del_def)
  moreover have "rt_id (chat_task 0 True) \<noteq> rt_id (chat_task 1 False)" "\<not> rt_cancelled (chat_task 1 False)"
    "sm_get ''s1'' ?c = Some (rt_id (chat_task 1 False))"
    by (simp_all add: sm_get_def restarted_state) (simp_all add: chat_task_def)
  ultimately show ?thesis
    using old after_messages_reachable [of "[''session_start'', ''session_cancel'', ''session_start'']"] by force
qed


end
