(* ===== verification/Chat_Stream.thy ===== *)
theory Chat_Stream
  imports Diag_Engine
begin

text \<open>
  \<^verbatim>\<open>digcore/diagnose/streaming.go\<close>: a multi-turn chat. The message history is a Go slice that is cut and
  re-sliced, so it is modelled with its backing array: what lies beyond its length matters when a
  failed turn is rolled back. How far \<^verbatim>\<open>append\<close> grows a full array is left open by the language and is an
  argument.
\<close>

section \<open>Slices\<close>

record 'a gslice =
  sl_arr :: "'a list"
  sl_len :: nat

definition slice_ok :: "'a gslice \<Rightarrow> bool" where
  "slice_ok s \<longleftrightarrow> sl_len s \<le> length (sl_arr s)"

definition contents :: "'a gslice \<Rightarrow> 'a list" where
  "contents s = take (sl_len s) (sl_arr s)"

definition slice_fresh :: "'a list \<Rightarrow> 'a gslice" where
  "slice_fresh xs = \<lparr>sl_arr = xs, sl_len = length xs\<rparr>"

text \<open>\<^verbatim>\<open>s[:n]\<close>: \<open>None\<close> is the run-time panic when \<open>n\<close> exceeds the capacity.\<close>

definition reslice :: "nat \<Rightarrow> 'a gslice \<Rightarrow> 'a gslice option" where
  "reslice n s = (if n \<le> length (sl_arr s) then Some (s\<lparr>sl_len := n\<rparr>) else None)"

text \<open>\<^verbatim>\<open>append(s, x)\<close>: in place while there is room, otherwise into a new array with \<open>grow\<close> further zero slots.\<close>

definition slice_append :: "(nat \<Rightarrow> nat) \<Rightarrow> 'a \<Rightarrow> 'a gslice \<Rightarrow> 'a \<Rightarrow> 'a gslice" where
  "slice_append grow zero s x =
     (if sl_len s < length (sl_arr s)
      then \<lparr>sl_arr = (sl_arr s)[sl_len s := x], sl_len = sl_len s + 1\<rparr>
      else \<lparr>sl_arr = contents s @ [x] @ replicate (grow (sl_len s)) zero, sl_len = sl_len s + 1\<rparr>)"

lemma slice_fresh_simps [simp]: "slice_ok (slice_fresh xs)" "contents (slice_fresh xs) = xs"
  by (simp_all add: slice_ok_def slice_fresh_def contents_def)

lemma length_slice_contents: "slice_ok s \<Longrightarrow> length (contents s) = sl_len s"
  by (simp add: slice_ok_def contents_def)

lemma slice_append_simps [simp]:
  assumes "slice_ok s"
  shows "slice_ok (slice_append grow zero s x)" "contents (slice_append grow zero s x) = contents s @ [x]"
  using assms by (auto simp: slice_ok_def slice_append_def contents_def take_Suc_conv_app_nth min_def)

lemma slice_append_len [simp]: "sl_len (slice_append grow zero s x) = sl_len s + 1"
  by (simp add: slice_append_def)

lemma reslice_prefix:
  assumes "slice_ok s" "n \<le> sl_len s"
  shows "\<exists>s'. reslice n s = Some s' \<and> slice_ok s' \<and> contents s' = take n (contents s)"
  using assms by (auto simp: reslice_def slice_ok_def contents_def min_def)

section \<open>Compaction and trimming on slices\<close>

text \<open>\<^verbatim>\<open>CompactMessages\<close> and \<^verbatim>\<open>trimHistory\<close> return their argument, a prefix that shares its array, or a new
  slice that is exactly full.\<close>

definition compact_slice :: "AIMessage gslice \<Rightarrow> int \<Rightarrow> AIMessage gslice" where
  "compact_slice s tokenBudget =
     (let messages = contents s in
      if length messages \<le> 1 \<or> tokenBudget \<le> 0 then s
      else if EstimateMessagesTokens messages \<le> tokenBudget then s
      else
        let stickyPrefix =
              (if length messages > 1 \<and> am_Role (messages ! 1) = ''user'' \<and>
                  length (am_ToolCalls (messages ! 1)) = 0 then 2 else 1);
            stickyTokens = EstimateMessagesTokens (take stickyPrefix messages)
        in if stickyTokens > tokenBudget then s\<lparr>sl_len := stickyPrefix\<rparr>
           else
             let groups = parseMessageGroups messages stickyPrefix;
                 budget = tokenBudget - stickyTokens
             in if budget \<le> 0 then s\<lparr>sl_len := stickyPrefix\<rparr>
                else
                  let keepFrom = keep_loop groups budget (length groups) 0 (length groups)
                  in if keepFrom = 0 then s
                     else if keepFrom \<ge> length groups then s\<lparr>sl_len := stickyPrefix\<rparr>
                     else slice_fresh (take stickyPrefix messages @ drop (mg_startIdx (groups ! keepFrom)) messages))"

definition trim_slice :: "AIMessage gslice \<Rightarrow> AIMessage gslice" where
  "trim_slice s =
     (let messages = contents s in
      if length messages \<le> maxHistoryMessages + 1 then s
      else
        let cut = length messages - maxHistoryMessages;
            safeCut = safe_cut messages cut
        in if safeCut < length messages then slice_fresh (messages ! 0 # drop safeCut messages)
           else if length messages > maxHistoryMessages * 2 then slice_fresh (messages ! 0 # drop cut messages)
           else s)"

lemma slice_take:
  assumes "slice_ok s" "n \<le> length (contents s)"
  shows "slice_ok (s\<lparr>sl_len := n\<rparr>)" "contents (s\<lparr>sl_len := n\<rparr>) = take n (contents s)"
  using assms(2) length_slice_contents [OF assms(1)] assms(1) by (auto simp: slice_ok_def contents_def min_def)

lemma compact_slice_refines:
  assumes "slice_ok s"
  shows "slice_ok (compact_slice s b) \<and> contents (compact_slice s b) = CompactMessages (contents s) b"
proof (cases "length (contents s) \<le> 1")
  case False
  then have "slice_ok (s\<lparr>sl_len := n\<rparr>) \<and> contents (s\<lparr>sl_len := n\<rparr>) = take n (contents s)" if "n \<le> 2" for n
    using slice_take [OF assms, of n] that by simp
  then show ?thesis using assms by (simp add: compact_slice_def CompactMessages_def Let_def)
qed (use assms in \<open>simp add: compact_slice_def CompactMessages_def\<close>)

lemma trim_slice_refines:
  "slice_ok s \<Longrightarrow> slice_ok (trim_slice s) \<and> contents (trim_slice s) = trimHistory (contents s)"
  by (simp add: trim_slice_def trimHistory_def Let_def)

section \<open>One turn\<close>

text \<open>What a turn sees of its environment: that of a diagnosis, the shell executor if there is one (output,
  approval, error) and the growth of arrays.\<close>

record chat_env = diag_env +
  cv_shell :: "(nat \<Rightarrow> string \<Rightarrow> string \<times> bool \<times> string option) option"
  cv_grow :: "nat \<Rightarrow> nat"

record ChatStream =
  cs_messages :: "AIMessage gslice"
  cs_aiTools :: "Tool list"
  cs_contextWindowLimit :: int

datatype chat_outcome = ChatReply string | ChatError ai_error | ChatPanic

definition chatMaxRounds :: nat where "chatMaxRounds = 20"

definition str_tool :: "string \<Rightarrow> string \<Rightarrow> (string \<times> string) list \<Rightarrow> string list \<Rightarrow> Tool" where
  "str_tool name descr params required =
     \<lparr>tl_Type = ''function'',
      tl_Function = \<lparr>tf_Name = name, tf_Description = descr,
        tf_Parameters = Some \<lparr>pa_Type = ''object'',
          pa_Properties = map (\<lambda>(k, d). (k, \<lparr>pr_Type = ''string'', pr_Description = d\<rparr>)) params,
          pa_Required = required\<rparr>\<rparr>\<rparr>"

definition buildChatToolSet :: "bool \<Rightarrow> Tool list" where
  "buildChatToolSet allowShell =
     [str_tool ''call_tool'' ''Invoke a diagnostic tool by name. All available tools are listed in the system prompt.''
        [(''name'', ''Tool name''), (''tool_args'', ''Tool arguments as JSON string'')] [''name''],
      str_tool ''list_tool_categories''
        ''List all available tool categories (plugins). Use this to explore available diagnostic areas.'' [] [],
      str_tool ''list_tools''
        ''Show detailed parameter info for tools in a category. Use only when you need parameter details not shown in the catalog.''
        [(''category'', ''Tool category name'')] [''category'']]
     @ (if allowShell then
          [str_tool ''exec_shell'' ''Execute a shell command. Use when built-in tools are insufficient.''
             [(''command'', ''Shell command to execute'')] [''command'']]
        else [])"

definition NewChatStream :: "string \<Rightarrow> bool \<Rightarrow> int \<Rightarrow> ChatStream" where
  "NewChatStream systemPrompt allowShell limit =
     \<lparr>cs_messages = slice_fresh [plain_message ''system'' systemPrompt],
      cs_aiTools = buildChatToolSet allowShell, cs_contextWindowLimit = limit\<rparr>"

definition run_local :: "DiagnoseTool \<Rightarrow> tool_args \<Rightarrow> string + string" where
  "run_local tool args =
     (case dt_Execute tool of
        None \<Rightarrow> Inl (''tool '' @ dt_Name tool @ '' has no Execute function'')
      | Some f \<Rightarrow> f args)"

definition exec_shell :: "chat_env \<Rightarrow> nat \<Rightarrow> (string, string) gomap \<Rightarrow> string + string" where
  "exec_shell env rnd args =
     (case cv_shell env of
        None \<Rightarrow> Inl ''shell execution not enabled (no ShellExecutor configured)''
      | Some sh \<Rightarrow>
          let command = m_str args ''command'' in
          if command = [] then Inl ''exec_shell requires 'command' parameter''
          else
            let (output, approved, err) = sh rnd command in
            if \<not> approved then Inr ''user rejected command execution''
            else case err of None \<Rightarrow> Inr output | Some e \<Rightarrow> Inl e)"

definition chat_executeTool :: "chat_env \<Rightarrow> nat \<Rightarrow> string \<Rightarrow> string \<Rightarrow> string + string" where
  "chat_executeTool env rnd name rawArgs =
     (let args = ParseArgs (dv_json env) rawArgs; r = dv_registry env rnd in
      if name = ''list_tool_categories'' then Inr (ListCategoriesForOS (dv_goos env) r)
      else if name = ''list_tools'' then
        (let category = m_str args ''category'' in
         if category = [] then Inl ''list_tools requires 'category' parameter''
         else Inr (ListToolsForOS (dv_quote env) category (dv_goos env) r))
      else if name = ''call_tool'' then
        (let toolName = m_str args ''name'' in
         if toolName = [] then Inl ''call_tool requires 'name' parameter''
         else
           case reg_Get toolName r of
             None \<Rightarrow> Inl (''unknown tool: '' @ toolName)
           | Some tool \<Rightarrow>
               if dt_Scope tool = ToolScopeRemote
               then Inl (''tool '' @ dt_Name tool @ '' requires a remote connection (not available in chat mode)'')
               else run_local tool (ParseToolArgs (dv_json env) (m_str args ''tool_args'')))
      else if name = ''exec_shell'' then exec_shell env rnd args
      else
        case reg_Get name r of
          None \<Rightarrow> Inl (''unknown tool: '' @ name)
        | Some tool \<Rightarrow> run_local tool (Some args))"

definition zero_message :: AIMessage where
  "zero_message = plain_message [] []"

definition cs_append :: "chat_env \<Rightarrow> AIMessage gslice \<Rightarrow> AIMessage \<Rightarrow> AIMessage gslice" where
  "cs_append env = slice_append (cv_grow env) zero_message"

definition chat_tool_message :: "chat_env \<Rightarrow> nat \<Rightarrow> ToolCall \<Rightarrow> AIMessage" where
  "chat_tool_message env rnd tc =
     (let result = (case chat_executeTool env rnd (fn_Name (tc_Function tc)) (fn_Arguments (tc_Function tc)) of
                      Inr out \<Rightarrow> out | Inl err \<Rightarrow> ''error: '' @ err)
      in (plain_message ''tool'' (TruncateOutput result))\<lparr>am_ToolCallID := tc_ID tc\<rparr>)"

definition add_usage :: "Usage \<Rightarrow> Usage \<Rightarrow> Usage" where
  "add_usage u v = \<lparr>us_PromptTokens = us_PromptTokens u + us_PromptTokens v,
     us_CompletionTokens = us_CompletionTokens u + us_CompletionTokens v,
     us_TotalTokens = us_TotalTokens u + us_TotalTokens v\<rparr>"

text \<open>The state of the conversation loop; \<open>cl_sent\<close> collects what is sent to the model.\<close>

record chat_loop_state =
  cl_messages :: "AIMessage gslice"
  cl_usage :: Usage
  cl_sent :: "AIMessage list list"

definition chat_compact :: "ChatStream \<Rightarrow> AIMessage gslice \<Rightarrow> AIMessage gslice" where
  "chat_compact cs s =
     (if cs_contextWindowLimit cs > 0 then compact_slice s (cs_contextWindowLimit cs) else s)"

definition chat_tools :: "chat_env \<Rightarrow> nat \<Rightarrow> AIMessage \<Rightarrow> AIMessage gslice \<Rightarrow> AIMessage gslice" where
  "chat_tools env rnd answer s =
     (let a = (plain_message ''assistant'' (am_Content answer))
                \<lparr>am_ReasoningContent := am_ReasoningContent answer, am_ToolCalls := am_ToolCalls answer\<rparr>
      in foldl (\<lambda>s tc. cs_append env s (chat_tool_message env rnd tc)) (cs_append env s a) (am_ToolCalls answer))"

function conversationLoop :: "chat_env \<Rightarrow> ChatStream \<Rightarrow> nat \<Rightarrow> chat_loop_state \<Rightarrow> chat_outcome \<times> chat_loop_state" where
  "conversationLoop env cs rnd l =
     (if rnd \<ge> chatMaxRounds then (ChatReply ''[incomplete] max tool-calling rounds reached'', l)
      else if dv_ctxErr env rnd \<noteq> None then (ChatError (the (dv_ctxErr env rnd)), l)
      else
        let s = chat_compact cs (cl_messages l);
            l = l\<lparr>cl_messages := s, cl_sent := cl_sent l @ [contents s]\<rparr>
        in case dv_chat env rnd (contents s) (cs_aiTools cs) of
             (_, _, Some err) \<Rightarrow> (ChatError (WrapAI ''AI API call failed'' err), l)
           | (None, _, None) \<Rightarrow> (ChatPanic, l)
           | (Some resp, _, None) \<Rightarrow>
               let l = l\<lparr>cl_usage := add_usage (cl_usage l) (cr_Usage resp)\<rparr> in
               (case cr_Choices resp of
                  [] \<Rightarrow> (ChatError (OtherError ''AI returned empty response''), l)
                | choice # _ \<Rightarrow>
                    let answer = ch_Message choice in
                    if am_ToolCalls answer = [] then
                      (ChatReply (am_Content answer),
                       l\<lparr>cl_messages := cs_append env s (plain_message ''assistant'' (am_Content answer))\<rparr>)
                    else conversationLoop env cs (rnd + 1) (l\<lparr>cl_messages := chat_tools env rnd answer s\<rparr>)))"
  by pat_completeness auto
termination
  by (relation "measure (\<lambda>(env, cs, rnd, l). chatMaxRounds - rnd)") auto

declare conversationLoop.simps [simp del]

definition zero_usage :: Usage where
  "zero_usage = \<lparr>us_PromptTokens = 0, us_CompletionTokens = 0, us_TotalTokens = 0\<rparr>"

text \<open>\<^verbatim>\<open>HandleMessage\<close>: the outcome, the stream, and the loop state for its usage and what was sent. The
  roll-back re-slices the history to its length before the loop; that can exceed the capacity.\<close>

definition HandleMessage :: "chat_env \<Rightarrow> string \<Rightarrow> ChatStream \<Rightarrow> chat_outcome \<times> ChatStream \<times> chat_loop_state" where
  "HandleMessage env input cs =
     (let s = trim_slice (cs_append env (cs_messages cs) (plain_message ''user'' input));
          msgCount = sl_len s;
          (outcome, l) = conversationLoop env cs 0 \<lparr>cl_messages = s, cl_usage = zero_usage, cl_sent = []\<rparr>
      in case outcome of
           ChatError err \<Rightarrow>
             (case reslice (msgCount - 1) (cl_messages l) of
                None \<Rightarrow> (ChatPanic, cs\<lparr>cs_messages := cl_messages l\<rparr>, l)
              | Some s' \<Rightarrow> (ChatError err, cs\<lparr>cs_messages := s'\<rparr>, l))
         | _ \<Rightarrow> (outcome, cs\<lparr>cs_messages := cl_messages l\<rparr>, l))"

definition Reset :: "ChatStream \<Rightarrow> ChatStream" where
  "Reset cs =
     (let ms = contents (cs_messages cs) in
      if length ms > 0 \<and> am_Role (ms ! 0) = ''system'' then cs\<lparr>cs_messages := slice_fresh [ms ! 0]\<rparr>
      else cs\<lparr>cs_messages := slice_fresh []\<rparr>)"

section \<open>The history of a chat\<close>

text \<open>The history starts with the system prompt and every tool result follows its request.\<close>

definition chat_ok :: "string \<Rightarrow> AIMessage list \<Rightarrow> bool" where
  "chat_ok prompt ms \<longleftrightarrow> orphan_free ms \<and> (\<exists>rest. ms = plain_message ''system'' prompt # rest)"

definition stream_ok :: "string \<Rightarrow> AIMessage gslice \<Rightarrow> bool" where
  "stream_ok prompt s \<longleftrightarrow> slice_ok s \<and> chat_ok prompt (contents s)"

lemma plain_roles [simp]:
  "\<not> is_tool (plain_message ''user'' c)" "\<not> is_tool (plain_message ''assistant'' c)"
  "\<not> opens_tools (plain_message r c)" "is_tool (plain_message ''system'' c) = False"
  by (simp_all add: is_tool_def opens_tools_def plain_message_def)

lemma chat_ok_compact:
  assumes "chat_ok prompt ms"
  shows "chat_ok prompt (CompactMessages ms b)"
proof (cases "1 < length ms \<and> 0 < b \<and> b < EstimateMessagesTokens ms")
  case True
  obtain rest where rest: "ms = plain_message ''system'' prompt # rest" using assms by (auto simp: chat_ok_def)
  have "\<exists>xs. CompactMessages ms b = take (sticky ms) ms @ xs"
    using CompactMessages_shape [of ms b] True by force
  then have "\<exists>xs. CompactMessages ms b = plain_message ''system'' prompt # xs"
    using sticky_def [of ms] rest by (auto simp: numeral_2_eq_2)
  moreover have "orphan_free (CompactMessages ms b)"
    using compact_orphan_free [of ms b] True assms rest by (simp add: chat_ok_def)
  ultimately show ?thesis by (simp add: chat_ok_def)
next
  case False
  then have "CompactMessages ms b = ms" by (auto simp: CompactMessages_def)
  then show ?thesis using assms by simp
qed

lemma chat_ok_append:
  "chat_ok prompt ms \<Longrightarrow> \<not> is_tool m \<Longrightarrow> chat_ok prompt (ms @ [m])"
  using orphan_free_append [of ms m "[]"] by (auto simp: chat_ok_def orphan_free_def)

lemma chat_ok_butlast:
  assumes "chat_ok prompt (ms @ [m])" "\<not> is_tool m" "ms \<noteq> []"
  shows "chat_ok prompt ms"
proof -
  have "units (ms @ [m]) = units ms @ units [m]" using units_append_nontool [OF assms(2), of ms "[]"] by simp
  then show ?thesis using assms by (auto simp: chat_ok_def orphan_free_def append_eq_Cons_conv)
qed

lemma cs_append_ok [simp]:
  assumes "slice_ok s"
  shows "slice_ok (cs_append env s m)" "contents (cs_append env s m) = contents s @ [m]"
    "sl_len (cs_append env s m) = sl_len s + 1"
  using assms by (simp_all add: cs_append_def)

lemma chat_tools_shape:
  assumes "slice_ok s"
  shows "slice_ok (chat_tools env rnd answer s) \<and>
    (\<exists>a results. contents (chat_tools env rnd answer s) = contents s @ a # results \<and>
       am_Role a = ''assistant'' \<and> am_ToolCalls a = am_ToolCalls answer \<and> list_all is_tool results)"
proof -
  have fold: "slice_ok (foldl (\<lambda>s tc. cs_append env s (chat_tool_message env rnd tc)) s tcs) \<and>
      contents (foldl (\<lambda>s tc. cs_append env s (chat_tool_message env rnd tc)) s tcs)
        = contents s @ map (chat_tool_message env rnd) tcs" if "slice_ok s" for s tcs
    using that by (induction tcs arbitrary: s) simp_all
  have "list_all is_tool (map (chat_tool_message env rnd) tcs)" for tcs
    by (induction tcs) (simp_all add: chat_tool_message_def Let_def is_tool_def plain_message_def)
  then show ?thesis using assms fold by (auto simp: chat_tools_def Let_def plain_message_def)
qed

lemma chat_tools_ok:
  assumes "stream_ok prompt s" "am_ToolCalls answer \<noteq> []"
  shows "stream_ok prompt (chat_tools env rnd answer s)"
    "\<exists>xs. contents (chat_tools env rnd answer s) = contents s @ xs"
proof -
  have ok: "slice_ok s" "orphan_free (contents s)" using assms(1) by (auto simp: stream_ok_def chat_ok_def)
  obtain a results where r: "contents (chat_tools env rnd answer s) = contents s @ a # results"
    "am_Role a = ''assistant''" "am_ToolCalls a = am_ToolCalls answer" "list_all is_tool results"
    and ok': "slice_ok (chat_tools env rnd answer s)"
    using chat_tools_shape [OF ok(1)] by blast
  have "orphan_free (contents s @ a # results)"
    using r assms(2) by (intro orphan_free_round [OF ok(2)]) (auto simp: opens_tools_def)
  then show "stream_ok prompt (chat_tools env rnd answer s)"
    using r(1) ok' assms(1) by (auto simp: stream_ok_def chat_ok_def)
  show "\<exists>xs. contents (chat_tools env rnd answer s) = contents s @ xs" using r(1) by blast
qed

lemma chat_compact_ok:
  "stream_ok prompt s \<Longrightarrow> stream_ok prompt (chat_compact cs s)"
  using compact_slice_refines [of s "cs_contextWindowLimit cs"] chat_ok_compact
  by (auto simp: chat_compact_def stream_ok_def)

text \<open>What the loop does from a round on.\<close>

definition chat_post :: "string \<Rightarrow> ChatStream \<Rightarrow> nat \<Rightarrow> chat_loop_state \<Rightarrow> chat_outcome \<times> chat_loop_state \<Rightarrow> bool" where
  "chat_post prompt cs rnd l out \<longleftrightarrow>
     (\<exists>sent. cl_sent (snd out) = cl_sent l @ sent \<and> length sent \<le> chatMaxRounds - rnd \<and> list_all (chat_ok prompt) sent) \<and>
     stream_ok prompt (cl_messages (snd out)) \<and>
     (cs_contextWindowLimit cs \<le> 0 \<longrightarrow>
        (\<exists>xs. contents (cl_messages (snd out)) = contents (cl_messages l) @ xs))"

lemma chat_post_stop:
  assumes "rnd < chatMaxRounds" "stream_ok prompt (chat_compact cs (cl_messages l))"
    and "cl_sent l' = cl_sent l @ [contents (chat_compact cs (cl_messages l))]"
    and "stream_ok prompt (cl_messages l')" "\<exists>xs. contents (cl_messages l') = contents (chat_compact cs (cl_messages l)) @ xs"
  shows "chat_post prompt cs rnd l (out, l')"
  using assms by (auto simp: chat_post_def stream_ok_def chat_compact_def)

text \<open>A round that ends the turn, and a round that asks for tools.\<close>

lemma conversation_stop:
  assumes go: "rnd < chatMaxRounds" "dv_ctxErr env rnd = None"
    and s: "stream_ok prompt (chat_compact cs (cl_messages l))"
    and last: "\<And>resp name ch chs. dv_chat env rnd (contents (chat_compact cs (cl_messages l))) (cs_aiTools cs) =
      (Some resp, name, None) \<Longrightarrow> cr_Choices resp = ch # chs \<Longrightarrow> am_ToolCalls (ch_Message ch) = []"
  shows "chat_post prompt cs rnd l (conversationLoop env cs rnd l)"
proof -
  let ?s = "chat_compact cs (cl_messages l)"
  obtain r name err where ans: "dv_chat env rnd (contents ?s) (cs_aiTools cs) = (r, name, err)" by (metis prod_cases3)
  consider "err \<noteq> None \<or> r = None" | resp where "err = None" "r = Some resp" "cr_Choices resp = []"
    | resp ch chs where "err = None" "r = Some resp" "cr_Choices resp = ch # chs"
    by (metis neq_Nil_conv not_None_eq)
  then show ?thesis
  proof cases
    case 1
    then show ?thesis using go ans s
      by (subst conversationLoop.simps) (cases err; cases r; auto simp: Let_def intro!: chat_post_stop)
  next
    case 2
    then show ?thesis using go ans s
      by (subst conversationLoop.simps) (auto simp: Let_def intro!: chat_post_stop)
  next
    case c: (3 resp ch chs)
    then have "am_ToolCalls (ch_Message ch) = []" using last ans by blast
    then show ?thesis using go ans s c chat_ok_append [of prompt "contents ?s"]
      by (subst conversationLoop.simps) (auto simp: Let_def stream_ok_def intro!: chat_post_stop)
  qed
qed

lemma chat_post_step:
  assumes s: "stream_ok prompt (chat_compact cs (cl_messages l))" and go: "rnd < chatMaxRounds"
    and tcs: "am_ToolCalls answer \<noteq> []"
    and rest: "chat_post prompt cs (rnd + 1) (l\<lparr>cl_sent := cl_sent l @ [contents (chat_compact cs (cl_messages l))],
      cl_usage := u, cl_messages := chat_tools env rnd answer (chat_compact cs (cl_messages l))\<rparr>) out"
  shows "chat_post prompt cs rnd l out"
proof -
  let ?s = "chat_compact cs (cl_messages l)"
  obtain xs where xs: "contents (chat_tools env rnd answer ?s) = contents ?s @ xs"
    using chat_tools_ok(2) [OF s tcs] by blast
  obtain sent where "cl_sent (snd out) = cl_sent l @ contents ?s # sent" "length sent \<le> chatMaxRounds - (rnd + 1)"
    "list_all (chat_ok prompt) sent"
    using rest by (auto simp: chat_post_def)
  then have "\<exists>sent. cl_sent (snd out) = cl_sent l @ sent \<and> length sent \<le> chatMaxRounds - rnd \<and> list_all (chat_ok prompt) sent"
    using s go by (intro exI [of _ "contents ?s # sent"]) (auto simp: stream_ok_def)
  then show ?thesis using rest xs by (auto simp: chat_post_def chat_compact_def)
qed

lemma conversationLoop_post:
  assumes "stream_ok prompt (cl_messages l)"
  shows "chat_post prompt cs rnd l (conversationLoop env cs rnd l)"
  using assms
proof (induction "chatMaxRounds - rnd" arbitrary: rnd l rule: less_induct)
  case less
  let ?s = "chat_compact cs (cl_messages l)"
  have s: "stream_ok prompt ?s" by (rule chat_compact_ok [OF less(2)])
  show ?case
  proof (cases "rnd < chatMaxRounds \<and> dv_ctxErr env rnd = None")
    case False
    then show ?thesis using less(2) by (subst conversationLoop.simps) (auto simp: chat_post_def)
  next
    case go: True
    show ?thesis
    proof (cases "\<exists>resp name ch chs. dv_chat env rnd (contents ?s) (cs_aiTools cs) = (Some resp, name, None) \<and>
        cr_Choices resp = ch # chs \<and> am_ToolCalls (ch_Message ch) \<noteq> []")
      case False
      then show ?thesis using conversation_stop [OF _ _ s] go by blast
    next
      case True
      then obtain resp name ch chs where c: "dv_chat env rnd (contents ?s) (cs_aiTools cs) = (Some resp, name, None)"
        "cr_Choices resp = ch # chs" "am_ToolCalls (ch_Message ch) \<noteq> []" by blast
      let ?l' = "l\<lparr>cl_sent := cl_sent l @ [contents ?s], cl_usage := add_usage (cl_usage l) (cr_Usage resp),
        cl_messages := chat_tools env rnd (ch_Message ch) ?s\<rparr>"
      have "conversationLoop env cs rnd l = conversationLoop env cs (rnd + 1) ?l'"
        using go c by (subst conversationLoop.simps) (simp add: Let_def)
      moreover have "chat_post prompt cs (rnd + 1) ?l' (conversationLoop env cs (rnd + 1) ?l')"
        using less(1) [of "rnd + 1" ?l'] diff_less_mono2 [of rnd "rnd + 1" chatMaxRounds] go
          chat_tools_ok(1) [OF s c(3)] by simp
      ultimately show ?thesis using chat_post_step [OF s _ c(3)] go by metis
    qed
  qed
qed

lemma turn_start:
  fixes env :: chat_env and input :: string and cs :: ChatStream
  assumes "stream_ok prompt (cs_messages cs)"
  defines "s \<equiv> trim_slice (cs_append env (cs_messages cs) (plain_message ''user'' input))"
  shows "stream_ok prompt s" "contents s = trimHistory (contents (cs_messages cs) @ [plain_message ''user'' input])"
    "\<exists>ms. contents s = ms @ [plain_message ''user'' input] \<and> ms \<noteq> []"
proof -
  let ?ms = "contents (cs_messages cs) @ [plain_message ''user'' input]"
  have ok: "slice_ok (cs_messages cs)" "chat_ok prompt (contents (cs_messages cs))"
    using assms(1) by (auto simp: stream_ok_def)
  show c: "contents s = trimHistory ?ms" using ok(1) trim_slice_refines by (simp add: s_def)
  have m: "chat_ok prompt ?ms" using ok(2) by (simp add: chat_ok_append)
  have two_ms: "2 \<le> length ?ms" and zero: "?ms ! 0 = plain_message ''system'' prompt"
    using ok(2) by (auto simp: chat_ok_def nth_append)
  have "orphan_free (trimHistory ?ms) \<and> length (trimHistory ?ms) \<le> 41 \<and> trimHistory ?ms ! 0 = ?ms ! 0 \<and>
      last (trimHistory ?ms) = last ?ms \<and> (length ?ms \<le> 41 \<longrightarrow> trimHistory ?ms = ?ms)"
    by (rule trim_history_safe [OF two_ms]) (use m zero in \<open>simp_all add: chat_ok_def\<close>)
  then have t: "orphan_free (trimHistory ?ms)" "trimHistory ?ms ! 0 = plain_message ''system'' prompt"
    "last (trimHistory ?ms) = plain_message ''user'' input"
    using zero by simp_all
  have two: "2 \<le> length (trimHistory ?ms)"
    using two_ms by (auto simp: trimHistory_def Let_def maxHistoryMessages_def)
  then obtain m ms where m: "trimHistory ?ms = m # ms" "ms \<noteq> []"
    by (cases "trimHistory ?ms") (auto simp: Suc_le_length_iff)
  then show "stream_ok prompt s"
    using t c ok(1) trim_slice_refines by (auto simp: stream_ok_def chat_ok_def s_def)
  show "\<exists>ms. contents s = ms @ [plain_message ''user'' input] \<and> ms \<noteq> []"
    using t(3) m append_butlast_last_id [OF m(2)] by (intro exI [of _ "m # butlast ms"]) (simp add: c)
qed

section \<open>Properties\<close>


definition failing_env :: chat_env where
  "failing_env = \<lparr>dv_ctxErr = (\<lambda>_. None), dv_chat = (\<lambda>_ _ _. (None, ''m'', Some (OtherError ''timeout''))),
     dv_registry = (\<lambda>_. sample_registry), dv_ms = (\<lambda>_ _. 0), dv_json = sample_decoder, dv_quote = (\<lambda>s. s),
     dv_goos = ''linux'', dv_accessor = None, dv_toolDefs = [], cv_shell = None, cv_grow = (\<lambda>_. 0)\<rparr>"

definition sample_chat :: "int \<Rightarrow> ChatStream" where
  "sample_chat limit = (NewChatStream ''p'' False limit)\<lparr>cs_messages := slice_fresh
     [plain_message ''system'' ''p'', plain_message ''user'' ''a'', plain_message ''assistant'' ''b'',
      plain_message ''user'' ''c'', plain_message ''assistant'' ''d'']\<rparr>"

lemma sample_chat_ok: "stream_ok ''p'' (cs_messages (sample_chat limit))"
  by (simp add: sample_chat_def stream_ok_def chat_ok_def orphan_free_def)


text \<open>with a context limit the roll-back of a failed turn is not safe: when compaction has replaced the
  history by a shorter one, re-slicing to the old length exceeds the capacity of the new slice, and
  an API error that should only be reported becomes a run-time panic.\<close>

theorem chat_rollback_panics:
  "fst (HandleMessage failing_env ''e'' (sample_chat 20)) = ChatPanic \<and>
   fst (HandleMessage failing_env ''e'' (sample_chat 0)) = ChatError (WrapAI ''AI API call failed'' (OtherError ''timeout''))"
  by code_simp

end
