(* ===== verification/Pattern_Filter.thy ===== *)
theory Pattern_Filter
  imports Utf8
begin

text \<open>
  \<^verbatim>\<open>digcore/pkg/filter/filter.go\<close>, \<^verbatim>\<open>digcore/pkg/choice/choice.go\<close> and \<^verbatim>\<open>digcore/pkg/conv/bytes.go\<close>: the pattern lists of
  the plugins' settings, and the printing of byte counts. Compiling a glob (package
  \<^verbatim>\<open>github.com/gobwas/glob\<close>) and a regular expression (package \<^verbatim>\<open>regexp\<close>) are arguments that give an error or the
  set of strings the compiled pattern matches.
\<close>

section \<open>Filters\<close>

type_synonym compiler = "string \<Rightarrow> string + (string \<Rightarrow> bool)"

record compilers =
  glob_Compile :: compiler
  regexp_Compile :: compiler
  quote_str :: "string \<Rightarrow> string"

datatype Filter =
    NoGlobFilter "string list"
  | FilterSingle string
  | GlobFilter "string \<Rightarrow> bool"
  | RegexFilter "(string \<Rightarrow> bool) list"
  | CombinedFilter "Filter list"
  | IncludeExcludeFilter "Filter option" "Filter option" bool bool

definition isRegexPattern :: "string \<Rightarrow> bool" where
  "isRegexPattern s \<longleftrightarrow> length s \<ge> 2 \<and> s ! 0 = CHR ''/'' \<and> s ! (length s - 1) = CHR ''/''"

definition HasMeta :: "string \<Rightarrow> bool" where
  "HasMeta s \<longleftrightarrow> list_ex (\<lambda>c. c \<in> set ''*?['') s"

definition compileFilterNoGlob :: "string list \<Rightarrow> Filter" where
  "compileFilterNoGlob filters =
     (if length filters = 1 then FilterSingle (filters ! 0)
      else NoGlobFilter (remdups filters))"

definition compileGlob :: "compilers \<Rightarrow> string list \<Rightarrow> string + Filter" where
  "compileGlob cc filters =
     (if \<not> list_ex HasMeta filters then Inr (compileFilterNoGlob filters)
      else map_sum id GlobFilter
             (glob_Compile cc
               (if length filters = 1 then filters ! 0 else ''{'' @ join '','' filters @ ''}'')))"

text \<open>The loop of \<^verbatim>\<open>Compile\<close> over the patterns: an error, or the globs and the compiled expressions.\<close>

fun split_patterns :: "compilers \<Rightarrow> string list \<Rightarrow> string list \<Rightarrow> Filter list \<Rightarrow> string + string list \<times> Filter list" where
  "split_patterns cc [] globPatterns regexFilters = Inr (globPatterns, regexFilters)"
| "split_patterns cc (p # ps) globPatterns regexFilters =
     (if isRegexPattern p then
        (case regexp_Compile cc (take (length p - 2) (drop 1 p)) of
           Inl err \<Rightarrow> Inl (''invalid regex '' @ quote_str cc p @ '': '' @ err)
         | Inr re \<Rightarrow> split_patterns cc ps globPatterns (regexFilters @ [RegexFilter [re]]))
      else split_patterns cc ps (globPatterns @ [p]) regexFilters)"

definition Compile :: "compilers \<Rightarrow> string list \<Rightarrow> string + Filter option" where
  "Compile cc filters =
     (if length filters = 0 then Inr None
      else
        case split_patterns cc filters [] [] of
          Inl err \<Rightarrow> Inl err
        | Inr (globPatterns, regexFilters) \<Rightarrow>
            (case (if length globPatterns > 0
                   then map_sum id (\<lambda>gf. [gf]) (compileGlob cc globPatterns) else Inr []) of
               Inl err \<Rightarrow> Inl err
             | Inr gs \<Rightarrow>
                 let parts = gs @ regexFilters in
                 Inr (if length parts = 0 then None
                      else if length parts = 1 then Some (parts ! 0)
                      else Some (CombinedFilter parts))))"

fun Match :: "Filter \<Rightarrow> string \<Rightarrow> bool" where
  "Match (NoGlobFilter m) s = (s \<in> set m)"
| "Match (FilterSingle t) s = (t = s)"
| "Match (GlobFilter g) s = g s"
| "Match (RegexFilter patterns) s = list_ex (\<lambda>re. re s) patterns"
| "Match (CombinedFilter filters) s = list_ex (\<lambda>sub. Match sub s) filters"
| "Match (IncludeExcludeFilter include exclude includeDefault excludeDefault) s =
     (if (case include of Some f \<Rightarrow> \<not> Match f s | None \<Rightarrow> \<not> includeDefault) then False
      else if (case exclude of Some f \<Rightarrow> Match f s | None \<Rightarrow> excludeDefault) then False
      else True)"

definition NewIncludeExcludeFilterDefaults ::
  "compilers \<Rightarrow> string list \<Rightarrow> string list \<Rightarrow> bool \<Rightarrow> bool \<Rightarrow> string + Filter" where
  "NewIncludeExcludeFilterDefaults cc include exclude includeDefault excludeDefault =
     (case Compile cc include of
        Inl err \<Rightarrow> Inl err
      | Inr inc \<Rightarrow>
          (case Compile cc exclude of
             Inl err \<Rightarrow> Inl err
           | Inr exc \<Rightarrow> Inr (IncludeExcludeFilter inc exc includeDefault excludeDefault)))"

definition NewIncludeExcludeFilter :: "compilers \<Rightarrow> string list \<Rightarrow> string list \<Rightarrow> string + Filter" where
  "NewIncludeExcludeFilter cc include exclude = NewIncludeExcludeFilterDefaults cc include exclude True False"

section \<open>Choices\<close>

fun Contains :: "string \<Rightarrow> string list \<Rightarrow> bool" where
  "Contains choice [] = False"
| "Contains choice (item # items) = (if item = choice then True else Contains choice items)"

fun ContainsPrefix :: "string \<Rightarrow> string list \<Rightarrow> bool" where
  "ContainsPrefix choice [] = False"
| "ContainsPrefix choice (item # items) = (if prefix item choice then True else ContainsPrefix choice items)"

definition Check :: "string \<Rightarrow> string list \<Rightarrow> string option" where
  "Check choice available = (if \<not> Contains choice available then Some (''unknown choice '' @ choice) else None)"

fun CheckSlice :: "string list \<Rightarrow> string list \<Rightarrow> string option" where
  "CheckSlice [] available = None"
| "CheckSlice (choice # choices) available =
     (case Check choice available of Some err \<Rightarrow> Some err | None \<Rightarrow> CheckSlice choices available)"

lemma Contains_iff [simp]: "Contains choice items \<longleftrightarrow> choice \<in> set items"
  by (induction items) auto

lemma CheckSlice_iff: "CheckSlice choices available = None \<longleftrightarrow> set choices \<subseteq> set available"
  by (induction choices) (auto simp: Check_def)

section \<open>What a pattern means\<close>

text \<open>A single pattern of a list: an expression between slashes, a glob, or a literal.\<close>

definition pattern_matches :: "compilers \<Rightarrow> string \<Rightarrow> string \<Rightarrow> bool" where
  "pattern_matches cc p s \<longleftrightarrow>
     (if isRegexPattern p then (case regexp_Compile cc (take (length p - 2) (drop 1 p)) of Inr re \<Rightarrow> re s | Inl _ \<Rightarrow> False)
      else if HasMeta p then (case glob_Compile cc p of Inr g \<Rightarrow> g s | Inl _ \<Rightarrow> False)
      else s = p)"

text \<open>The characters that separate or delimit alternatives in the glob language, or escape one.\<close>

definition plain_glob :: "string \<Rightarrow> bool" where
  "plain_glob p \<longleftrightarrow> list_all (\<lambda>c. c \<notin> set '',{}'' \<and> c \<noteq> CHR 0x5C) p"

text \<open>What the documentation of the glob package says of alternatives: a pattern without magic characters
  matches itself only, and a list of alternatives in braces matches what one of them matches.\<close>

definition glob_alternatives :: "compiler \<Rightarrow> bool" where
  "glob_alternatives gc \<longleftrightarrow>
     (\<forall>ps g. length ps > 1 \<longrightarrow> list_all plain_glob ps \<longrightarrow> gc (''{'' @ join '','' ps @ ''}'') = Inr g \<longrightarrow>
        (\<forall>s. g s \<longleftrightarrow> (\<exists>p\<in>set ps. if HasMeta p then (\<exists>h. gc p = Inr h \<and> h s) else s = p)))"

lemma split_patterns_result:
  assumes "split_patterns cc ps globs res = Inr (globs', res')"
  shows "globs' = globs @ filter (\<lambda>p. \<not> isRegexPattern p) ps \<and>
    (list_ex (\<lambda>f. Match f s) res' \<longleftrightarrow>
       list_ex (\<lambda>f. Match f s) res \<or> (\<exists>p\<in>set ps. isRegexPattern p \<and> pattern_matches cc p s))"
  using assms
  by (induction cc ps globs res arbitrary: globs' res' rule: split_patterns.induct)
     (auto simp: pattern_matches_def split: if_splits sum.splits)

lemma compileGlob_matches:
  assumes "compileGlob cc ps = Inr f" "glob_alternatives (glob_Compile cc)" "ps \<noteq> []"
    "list_all (\<lambda>p. \<not> isRegexPattern p) ps" "length ps > 1 \<Longrightarrow> list_ex HasMeta ps \<Longrightarrow> list_all plain_glob ps"
  shows "Match f s \<longleftrightarrow> (\<exists>p\<in>set ps. pattern_matches cc p s)"
proof (cases "list_ex HasMeta ps")
  case False
  then have "pattern_matches cc p s \<longleftrightarrow> s = p" if "p \<in> set ps" for p
    using assms(4) that by (auto simp: pattern_matches_def list_ex_iff list_all_iff)
  then show ?thesis
    using assms(1,3) False by (auto simp: compileGlob_def compileFilterNoGlob_def length_Suc_conv split: if_splits)
next
  case meta: True
  show ?thesis
  proof (cases "length ps = 1")
    case True
    then obtain p where "ps = [p]" by (auto simp: length_Suc_conv)
    then show ?thesis
      using assms(1,4) meta by (auto simp: compileGlob_def pattern_matches_def split: sum.splits)
  next
    case False
    then obtain g where g: "glob_Compile cc (''{'' @ join '','' ps @ ''}'') = Inr g" "f = GlobFilter g"
      using assms(1) meta by (cases "glob_Compile cc (''{'' @ join '','' ps @ ''}'')") (auto simp: compileGlob_def)
    have "1 < length ps" using False assms(3) by (cases ps) auto
    then have "g s \<longleftrightarrow> (\<exists>p\<in>set ps. if HasMeta p then (\<exists>h. glob_Compile cc p = Inr h \<and> h s) else s = p)"
      using assms(2,5) g meta unfolding glob_alternatives_def by blast
    moreover have "pattern_matches cc p s \<longleftrightarrow> (if HasMeta p then (\<exists>h. glob_Compile cc p = Inr h \<and> h s) else s = p)"
      if "p \<in> set ps" for p
      using that assms(4) by (cases "glob_Compile cc p") (auto simp: pattern_matches_def list_all_iff)
    ultimately show ?thesis using g by auto
  qed
qed

section \<open>Byte counts\<close>

text \<open>\<^verbatim>\<open>float64\<close> of an unsigned integer: 53 significant bits, rounded to the nearest, ties to even. Dividing it
  by a power of two is exact, and \<^verbatim>\<open>%.1f\<close> rounds the quotient to a tenth in the same way.\<close>

definition round_div :: "nat \<Rightarrow> nat \<Rightarrow> nat" where
  "round_div a b =
     (let q = a div b; r = a mod b in
      if 2 * r < b \<or> 2 * r = b \<and> even q then q else q + 1)"

fun bit_len :: "nat \<Rightarrow> nat" where
  "bit_len n = (if n = 0 then 0 else Suc (bit_len (n div 2)))"

definition float64_of_nat :: "nat \<Rightarrow> nat" where
  "float64_of_nat n =
     (let e = bit_len n - 53 in if e = 0 then n else round_div n (2 ^ e) * 2 ^ e)"

function human_loop :: "nat \<Rightarrow> nat \<Rightarrow> nat \<Rightarrow> nat \<times> nat" where
  "human_loop n d e = (if n \<ge> 1024 then human_loop (n div 1024) (d * 1024) (e + 1) else (d, e))"
  by pat_completeness auto
termination
  by (relation "measure fst") auto

text \<open>The index of the unit letter panics when it is out of range, here \<open>None\<close>.\<close>

definition HumanBytes :: "nat \<Rightarrow> string option" where
  "HumanBytes b =
     (if b < 1024 then Some (show_nat b @ '' B'')
      else
        let (d, e) = human_loop (b div 1024) 1024 0;
            tenths = round_div (10 * float64_of_nat b) d
        in if e < 6 then Some (show_nat (tenths div 10) @ ''.'' @ show_nat (tenths mod 10) @ '' '' @ [''KMGTPE'' ! e] @ ''iB'')
           else None)"

declare human_loop.simps [simp del] bit_len.simps [simp del]

lemma human_loop_spec:
  assumes "human_loop n d e = (d', e')" "n = b div d" "d = 1024 ^ (e + 1)" "d \<le> b"
  shows "d' = 1024 ^ (e' + 1) \<and> d' \<le> b \<and> b div d' < 1024"
  using assms
proof (induction n d e rule: human_loop.induct)
  case (1 n d e)
  show ?case
  proof (cases "n \<ge> 1024")
    case True
    then have "d * 1024 \<le> b" using 1(3) by (metis le_trans mult_le_mono2 times_div_less_eq_dividend)
    moreover have "human_loop (n div 1024) (d * 1024) (e + 1) = (d', e')"
      using 1(2) True by (simp add: human_loop.simps [of n])
    moreover have "n div 1024 = b div (d * 1024)" using 1(3) by (simp only: div_mult2_eq)
    moreover have "d * 1024 = 1024 ^ (e + 1 + 1)" using 1(4) by simp
    ultimately show ?thesis using 1(1) [OF True] by blast
  next
    case False
    then have "d' = d" "e' = e" using 1(2) by (simp_all add: human_loop.simps [of n])
    then show ?thesis using 1(3-5) False by simp
  qed
qed

lemma human_bytes_unit:
  assumes "b < 2 ^ 64"
  shows "HumanBytes b \<noteq> None \<and>
    (1024 \<le> b \<longrightarrow> (\<exists>d e. human_loop (b div 1024) 1024 0 = (d, e) \<and> e < 6 \<and> d = 1024 ^ (e + 1) \<and> d \<le> b \<and> b < 1024 * d))"
proof (cases "1024 \<le> b")
  case True
  obtain d e where l: "human_loop (b div 1024) 1024 0 = (d, e)" by fastforce
  have spec: "d = 1024 ^ (e + 1)" "d \<le> b" "b div d < 1024" using human_loop_spec [OF l] True by auto
  have "e < 6"
  proof (rule ccontr)
    assume "\<not> e < 6"
    then have "(1024 :: nat) ^ 7 \<le> 1024 ^ (e + 1)" by (intro power_increasing) auto
    then show False using spec(1,2) assms by simp
  qed
  moreover have "b < 1024 * d" using spec by (metis div_less_iff_less_mult gr0I power_not_zero zero_neq_numeral)
  ultimately show ?thesis using l spec True by (auto simp: HumanBytes_def Let_def)
qed (simp add: HumanBytes_def)

lemma human_bytes_some: "b < 2 ^ 64 \<Longrightarrow> \<exists>t. HumanBytes b = Some t"
  using human_bytes_unit [of b] by auto

section \<open>A glob matcher that behaves as documented\<close>

fun wild :: "string \<Rightarrow> string \<Rightarrow> bool" where
  "wild [] s = (s = [])"
| "wild (p # ps) [] = (p = CHR ''*'' \<and> wild ps [])"
| "wild (p # ps) (c # cs) =
     (if p = CHR ''*'' then wild ps (c # cs) \<or> wild (p # ps) cs
      else (p = CHR ''?'' \<or> p = c) \<and> wild ps cs)"

definition sample_glob :: compiler where
  "sample_glob p =
     Inr (if p \<noteq> [] \<and> hd p = CHR ''{'' then (\<lambda>s. list_ex (\<lambda>q. wild q s) (split_at (CHR '','') (butlast (tl p))))
          else wild p)"

lemma wild_plain: "\<forall>c\<in>set p. c \<noteq> CHR ''*'' \<and> c \<noteq> CHR ''?'' \<Longrightarrow> wild p s \<longleftrightarrow> s = p"
  by (induction p s rule: wild.induct) auto

lemma wild_literal: "\<not> HasMeta p \<Longrightarrow> wild p s \<longleftrightarrow> s = p"
  by (rule wild_plain) (auto simp: HasMeta_def list_ex_iff)

lemma plain_globD: "plain_glob p \<Longrightarrow> CHR '','' \<notin> set p \<and> CHR ''{'' \<notin> set p"
  by (auto simp: plain_glob_def list_all_iff)

lemma sample_glob_plain: "plain_glob p \<Longrightarrow> sample_glob p = Inr (wild p)"
  using plain_globD [of p] by (cases p) (auto simp: sample_glob_def)

lemma sample_glob_group:
  assumes "list_all plain_glob ps" "ps \<noteq> []"
  shows "sample_glob (''{'' @ join '','' ps @ ''}'') = Inr (\<lambda>s. list_ex (\<lambda>q. wild q s) ps)"
proof -
  have "list_all (\<lambda>w. CHR '','' \<notin> set w) ps" using assms(1) plain_globD by (auto simp: list_all_iff)
  then show ?thesis using split_at_join [OF assms(2)] by (simp add: sample_glob_def butlast_append)
qed

lemma sample_glob_alternatives: "glob_alternatives sample_glob"
  unfolding glob_alternatives_def
proof (intro allI impI)
  fix ps g s
  assume "1 < length ps" and plain: "list_all plain_glob ps" and g: "sample_glob (''{'' @ join '','' ps @ ''}'') = Inr g"
  then have "g = (\<lambda>s. list_ex (\<lambda>q. wild q s) ps)" using sample_glob_group [OF plain] by (cases ps) auto
  moreover have "wild p s \<longleftrightarrow> (if HasMeta p then \<exists>h. sample_glob p = Inr h \<and> h s else s = p)" if "p \<in> set ps" for p
    using that plain sample_glob_plain [of p] wild_literal [of p s] by (auto simp: list_all_iff)
  ultimately show "g s \<longleftrightarrow> (\<exists>p\<in>set ps. if HasMeta p then \<exists>h. sample_glob p = Inr h \<and> h s else s = p)"
    by (auto simp: list_ex_iff)
qed

section \<open>Properties\<close>

text \<open>a compiled list of patterns matches a string exactly when one of its patterns does, given that the
  glob package treats braces as its documentation says and no pattern of a group of globs has a comma,
  a brace or a backslash of its own.\<close>

theorem filter_matches_any:
  assumes "Compile cc ps = Inr (Some f)" "glob_alternatives (glob_Compile cc)"
    and "list_all (\<lambda>p. isRegexPattern p \<or> plain_glob p) ps"
  shows "Match f s \<longleftrightarrow> (\<exists>p\<in>set ps. pattern_matches cc p s)"
proof -
  obtain gp rf where sp: "split_patterns cc ps [] [] = Inr (gp, rf)" and ne: "ps \<noteq> []"
    using assms(1) by (auto simp: Compile_def split: if_splits sum.splits)
  have gp: "gp = filter (\<lambda>p. \<not> isRegexPattern p) ps"
    and rf: "list_ex (\<lambda>f. Match f s) rf \<longleftrightarrow> (\<exists>p\<in>set ps. isRegexPattern p \<and> pattern_matches cc p s)"
    using split_patterns_result [OF sp, of s] by auto
  have all: "list_all plain_glob gp" "list_all (\<lambda>p. \<not> isRegexPattern p) gp"
    using assms(3) gp by (auto simp: list_all_iff)
  obtain gs where gs: "list_ex (\<lambda>f. Match f s) gs \<longleftrightarrow> (\<exists>p\<in>set gp. pattern_matches cc p s)"
    and f: "Some f = (let parts = gs @ rf in if length parts = 0 then None else if length parts = 1 then Some (parts ! 0) else Some (CombinedFilter parts))"
  proof (cases "gp = []")
    case True
    then show thesis using that [of "[]"] assms(1) sp ne by (simp add: Compile_def Let_def)
  next
    case False
    then obtain gf where g: "compileGlob cc gp = Inr gf"
      using assms(1) sp ne by (cases "compileGlob cc gp") (auto simp: Compile_def)
    show thesis
      using that [of "[gf]"] compileGlob_matches [OF g assms(2) False all(2), of s] all(1) assms(1) sp ne g False
      by (simp add: Compile_def Let_def)
  qed
  have "Match f s \<longleftrightarrow> list_ex (\<lambda>f. Match f s) (gs @ rf)"
    using f by (cases "gs @ rf") (auto simp: Let_def simp del: list_ex_append append_eq_Cons_conv split: if_splits)
  then show ?thesis using gs rf gp by auto
qed

theorem filter_matches_any_witness:
  "Match (GlobFilter (\<lambda>s. list_ex (\<lambda>q. wild q s) [''cpu'', ''net*''])) ''network''"
  using filter_matches_any [of "\<lparr>glob_Compile = sample_glob, regexp_Compile = Inl, quote_str = id\<rparr>" "[''cpu'', ''net*'']"
      "GlobFilter (\<lambda>s. list_ex (\<lambda>q. wild q s) [''cpu'', ''net*''])" "''network''"] sample_glob_alternatives
  by (simp add: Compile_def compileGlob_def isRegexPattern_def HasMeta_def sample_glob_def plain_glob_def pattern_matches_def)

text \<open>patterns with a comma leak into their neighbours: next to a glob, the literal pattern \<^verbatim>\<open>a,b\<close> is the
  two patterns \<^verbatim>\<open>a\<close> and \<^verbatim>\<open>b\<close>, whatever the glob package does, while alone it is the literal \<^verbatim>\<open>a,b\<close>.\<close>

theorem filter_comma_splits:
  "Compile cc [''a,b'', ''c*''] = Compile cc [''a'', ''b'', ''c*''] \<and>
   Compile cc [''a,b''] = Inr (Some (FilterSingle ''a,b''))"
  by (simp add: Compile_def isRegexPattern_def compileGlob_def HasMeta_def compileFilterNoGlob_def)

text \<open>every 64-bit byte count is printed, in the largest unit that does not exceed it: the index of the unit
  letter is in range, so printing never panics.\<close>

theorem human_bytes_total:
  assumes "b < 2 ^ 64"
  shows "HumanBytes b \<noteq> None \<and>
    (1024 \<le> b \<longrightarrow> (\<exists>d e. human_loop (b div 1024) 1024 0 = (d, e) \<and> e < 6 \<and> d = 1024 ^ (e + 1) \<and> d \<le> b \<and> b < 1024 * d))"
  using assms by (rule human_bytes_unit)

theorem human_bytes_total_witness: "HumanBytes 1536 = Some ''1.5 KiB'' \<and> HumanBytes (2 ^ 64 - 1) \<noteq> None"
proof
  show "HumanBytes 1536 = Some ''1.5 KiB''"
    by (simp add: HumanBytes_def human_loop.simps round_div_def float64_of_nat_def bit_len.simps show_nat_def
        show_nat_acc.simps char_of_def Let_def bit_iff_odd)
  show "HumanBytes (2 ^ 64 - 1) \<noteq> None" using human_bytes_total [of "2 ^ 64 - 1"] by simp
qed

end
