(* ===== verification/Logfile.thy ===== *)
theory Logfile
  imports Events Pattern_Filter "HOL-Library.Word"
begin

unbundle bit_operations_syntax

text \<open>
  \<^verbatim>\<open>plugins/logfile/logfile.go\<close>: following log files. What the operating system answers is a record of
  functions: the result of \<^verbatim>\<open>stat\<close>, the first bytes read for the fingerprint, the contents read from an
  offset, glob expansion, and which file of a run is past the deadline. The decoders of
  \<^verbatim>\<open>golang.org/x/text\<close> are an argument. Events are listed in the order they are pushed.
\<close>

section \<open>Types\<close>

definition fingerprintSize :: nat where "fingerprintSize = 256"

record fileState =
  fs_Offset :: int
  fs_Inode :: nat
  fs_Fingerprint :: string

datatype encoding = GBK | GB18030 | Big5 | ShiftJIS | EUCJP | EUCKR | ISO8859_1 | Windows1252

record LogInstance =
  lf_Targets :: "string list"
  lf_InitialPosition :: string
  lf_FilterInclude :: "string list"
  lf_FilterExclude :: "string list"
  lf_MaxLines :: int
  lf_MaxReadBytes :: int
  lf_MaxLineLength :: int
  lf_MaxTargets :: int
  lf_ContextBefore :: int
  lf_ContextAfter :: int
  lf_Encoding :: string
  lf_StateFile :: string
  lf_GatherTimeout :: duration
  lf_Severity :: string
  lf_includeFilter :: "Filter option"
  lf_excludeFilter :: "Filter option"
  lf_fileStates :: "(string, fileState) gomap"
  lf_explicitTargets :: "string list"
  lf_enc :: "encoding option"
  lf_stateDirty :: bool
  lf_globExceeded :: bool
  lf_gatherTimedOut :: bool

datatype stat_error = NotExist string | StatError string

fun stat_text :: "stat_error \<Rightarrow> string" where
  "stat_text (NotExist e) = e"
| "stat_text (StatError e) = e"

record file_info =
  fi_IsDir :: bool
  fi_Size :: int
  fi_Inode :: nat

record log_env =
  le_stat :: "string \<Rightarrow> stat_error + file_info"
  le_head :: "string \<Rightarrow> string option"
  le_open :: "string \<Rightarrow> string option"
  le_seek :: "string \<Rightarrow> int \<Rightarrow> string option"
  le_read :: "string \<Rightarrow> int \<Rightarrow> int \<Rightarrow> string + string"
  le_glob :: "string \<Rightarrow> string + string list"
  le_late :: "nat \<Rightarrow> bool"
  le_decode :: "encoding \<Rightarrow> string \<Rightarrow> string"
  le_dur :: "duration \<Rightarrow> string"

section \<open>Fingerprints and targets\<close>

text \<open>\<open>le_head\<close> is what opening the file and reading up to 256 bytes gives.\<close>

definition readFingerprint :: "log_env \<Rightarrow> string \<Rightarrow> string" where
  "readFingerprint env filePath =
     (case le_head env filePath of
        None \<Rightarrow> []
      | Some buf \<Rightarrow> hex_encode (take fingerprintSize buf))"

definition fingerprintsMatch :: "string \<Rightarrow> string \<Rightarrow> bool" where
  "fingerprintsMatch current stored \<longleftrightarrow>
     (if current = [] \<or> stored = [] then current = stored
      else if length current < length stored then False
      else take (length stored) current = stored)"

fun add_matches :: "log_env \<Rightarrow> string list \<Rightarrow> string list \<times> string list \<Rightarrow> string list \<times> string list" where
  "add_matches env [] (files, seen) = (files, seen)"
| "add_matches env (m # ms) (files, seen) =
     (case le_stat env m of
        Inl _ \<Rightarrow> add_matches env ms (files, seen)
      | Inr info \<Rightarrow>
          if fi_IsDir info then add_matches env ms (files, seen)
          else if m \<notin> set seen then add_matches env ms (files @ [m], m # seen)
          else add_matches env ms (files, seen))"

fun resolve_loop :: "log_env \<Rightarrow> string list \<Rightarrow> string list \<times> string list \<Rightarrow> string list" where
  "resolve_loop env [] (files, seen) = files"
| "resolve_loop env (target # ts) (files, seen) =
     (if \<not> HasMeta target then
        (if target \<notin> set seen then
           resolve_loop env ts
             (case le_stat env target of
                Inr info \<Rightarrow> if fi_IsDir info then files else files @ [target]
              | Inl _ \<Rightarrow> files, target # seen)
         else resolve_loop env ts (files, seen))
      else
        case le_glob env target of
          Inl _ \<Rightarrow> resolve_loop env ts (files, seen)
        | Inr ms \<Rightarrow> resolve_loop env ts (add_matches env ms (files, seen)))"

definition resolveTargets :: "log_env \<Rightarrow> LogInstance \<Rightarrow> string list" where
  "resolveTargets env ins = resolve_loop env (lf_Targets ins) ([], [])"

definition log_event :: "string \<Rightarrow> Event" where
  "log_event filePath = BuildEvent [[(''check'', ''logfile::match''), (''target'', filePath)]]"

section \<open>Lines and descriptions\<close>

text \<open>\<^verbatim>\<open>strings.ToValidUTF8\<close>: each run of invalid bytes becomes one replacement.\<close>

function to_valid :: "bool \<Rightarrow> string \<Rightarrow> string" where
  "to_valid bad s =
     (if s = [] then []
      else if decode_rune s = (RuneError, 1)
      then (if bad then [] else encode_rune RuneError) @ to_valid True (drop 1 s)
      else take (snd (decode_rune s)) s @ to_valid False (drop (snd (decode_rune s)) s))"
  by pat_completeness auto
termination
  by (relation "measure (\<lambda>(bad, s). length s)") (use decode_rune_width in \<open>force+\<close>)

declare to_valid.simps [simp del]

definition split_lines :: "string \<Rightarrow> string list" where
  "split_lines text =
     (let rawLines = split_at nl text in
      if length rawLines > 0 \<and> last rawLines = [] then butlast rawLines else rawLines)"

definition clean_line :: "string \<Rightarrow> string" where
  "clean_line line = to_valid False (trim_right (\<lambda>c. c = CHR 0x0D) line)"

definition line_matches :: "LogInstance \<Rightarrow> string \<Rightarrow> bool option" where
  "line_matches ins line =
     (case lf_includeFilter ins of
        None \<Rightarrow> None
      | Some inc \<Rightarrow>
          Some (Match inc line \<and>
            \<not> (case lf_excludeFilter ins of None \<Rightarrow> False | Some exc \<Rightarrow> Match exc line)))"

fun match_loop :: "LogInstance \<Rightarrow> nat \<Rightarrow> string list \<Rightarrow> nat list \<Rightarrow> nat list option" where
  "match_loop ins i [] acc = Some acc"
| "match_loop ins i (line # lines) acc =
     (case line_matches ins line of
        None \<Rightarrow> None
      | Some b \<Rightarrow> match_loop ins (i + 1) lines (if b then acc @ [i] else acc))"

fun cut_lines :: "int \<Rightarrow> string list \<Rightarrow> string list option" where
  "cut_lines n [] = Some []"
| "cut_lines n (line # lines) =
     (case (if int (length line) > n then truncateUTF8 line n else Some line) of
        None \<Rightarrow> None
      | Some l \<Rightarrow> map_option (Cons l) (cut_lines n lines))"

definition context_range :: "LogInstance \<Rightarrow> nat \<Rightarrow> nat \<Rightarrow> int \<times> int" where
  "context_range ins n idx =
     (let start = int idx - lf_ContextBefore ins; start = (if start < 0 then 0 else start);
          end = int idx + lf_ContextAfter ins; end = (if end \<ge> int n then int n - 1 else end)
      in (start, end))"

text \<open>Merging overlapping or adjacent ranges; \<open>cur\<close> is the last merged range.\<close>

fun merge_ranges :: "int \<times> int \<Rightarrow> (int \<times> int) list \<Rightarrow> (int \<times> int) list" where
  "merge_ranges cur [] = [cur]"
| "merge_ranges (a, b) ((c, d) # rs) =
     (if c \<le> b + 1 then merge_ranges (a, if d > b then d else b) rs
      else (a, b) # merge_ranges (c, d) rs)"

text \<open>Reading a line outside the slice panics, here \<open>None\<close>.\<close>

definition line_at :: "string list \<Rightarrow> int \<Rightarrow> string option" where
  "line_at lines i = (if 0 \<le> i \<and> i < int (length lines) then Some (lines ! nat i) else None)"

definition cat_opt :: "string option list \<Rightarrow> string option" where
  "cat_opt xs = foldr (\<lambda>x acc. case (x, acc) of (Some a, Some b) \<Rightarrow> Some (a @ b) | _ \<Rightarrow> None) xs (Some [])"

definition range_text :: "string list \<Rightarrow> nat list \<Rightarrow> int \<times> int \<Rightarrow> string option" where
  "range_text lines shown r =
     cat_opt (map (\<lambda>i. map_option (\<lambda>l. (if i \<in> int ` set shown then ''> '' else ''  '') @ l @ [nl]) (line_at lines i))
                  [fst r..snd r])"

definition context_text :: "LogInstance \<Rightarrow> string list \<Rightarrow> nat list \<Rightarrow> string option" where
  "context_text ins lines shown =
     (case map (context_range ins (length lines)) shown of
        [] \<Rightarrow> None
      | r # rs \<Rightarrow>
          (case merge_ranges r rs of
             [] \<Rightarrow> Some []
           | m # ms \<Rightarrow>
               cat_opt (range_text lines shown m #
                 concat (map (\<lambda>x. [Some (''  ...'' @ [nl]), range_text lines shown x]) ms))))"

definition buildDescription :: "LogInstance \<Rightarrow> string list \<Rightarrow> nat list \<Rightarrow> string option" where
  "buildDescription ins lines matched =
     (let totalMatched = int (length matched);
          hasContext = (lf_ContextBefore ins > 0 \<or> lf_ContextAfter ins > 0);
          shown = (if totalMatched > lf_MaxLines ins then take (nat (lf_MaxLines ins)) matched else matched);
          more = (if totalMatched > lf_MaxLines ins
                  then ''... and '' @ show_int (totalMatched - lf_MaxLines ins) @ '' more lines'' @ [nl] else [])
      in if totalMatched > lf_MaxLines ins \<and> lf_MaxLines ins < 0 then None
         else
           map_option (\<lambda>body. trim_right (\<lambda>c. c = nl) (body @ more))
             (if hasContext then
                map_option (\<lambda>t. ''matched '' @ show_int totalMatched @ '' lines (context: -'' @ show_int (lf_ContextBefore ins)
                    @ ''/+'' @ show_int (lf_ContextAfter ins) @ ''):'' @ [nl] @ t) (context_text ins lines shown)
              else
                map_option (\<lambda>t. ''matched '' @ show_int totalMatched @ '' lines:'' @ [nl] @ t)
                  (cat_opt (map (\<lambda>i. map_option (\<lambda>l. l @ [nl]) (line_at lines (int i))) shown))))"

section \<open>One file\<close>

definition ok_event :: "string \<Rightarrow> Event" where
  "ok_event filePath = SetDescription ''everything is ok'' (log_event filePath)"

definition failure :: "string \<Rightarrow> string \<Rightarrow> Event" where
  "failure filePath desc = SetDescription desc (SetEventStatus EventStatusCritical (log_event filePath))"

definition is_rotated :: "file_info \<Rightarrow> string \<Rightarrow> fileState \<Rightarrow> bool" where
  "is_rotated info currentFP state \<longleftrightarrow>
     (if fi_Inode info \<noteq> fs_Inode state \<and> fi_Inode info \<noteq> 0 \<and> fs_Inode state \<noteq> 0 then True
      else if \<not> fingerprintsMatch currentFP (fs_Fingerprint state) then True
      else fi_Size info < fs_Offset state)"

text \<open>The state of a file before it is read, and whether it changed.\<close>

definition track :: "LogInstance \<Rightarrow> file_info \<Rightarrow> string \<Rightarrow> fileState option \<Rightarrow> fileState \<times> bool" where
  "track ins info currentFP old =
     (case old of
        None \<Rightarrow> (\<lparr>fs_Offset = (if lf_InitialPosition ins = ''end'' then fi_Size info else 0),
                  fs_Inode = fi_Inode info, fs_Fingerprint = currentFP\<rparr>, True)
      | Some state \<Rightarrow>
          if is_rotated info currentFP state
          then (\<lparr>fs_Offset = 0, fs_Inode = fi_Inode info, fs_Fingerprint = currentFP\<rparr>, True)
          else if length currentFP > length (fs_Fingerprint state)
          then (state\<lparr>fs_Fingerprint := currentFP\<rparr>, True)
          else (state, False))"

fun last_index :: "char \<Rightarrow> string \<Rightarrow> nat option" where
  "last_index c [] = None"
| "last_index c (x # xs) =
     (case last_index c xs of Some i \<Rightarrow> Some (i + 1) | None \<Rightarrow> if x = c then Some 0 else None)"

text \<open>The part of what was read that is processed: up to the last newline; nothing while a line is
  incomplete; the whole block when it is full and has no newline.\<close>

definition complete_part :: "int \<Rightarrow> string \<Rightarrow> string option" where
  "complete_part maxReadBytes rawBuf =
     (case last_index nl rawBuf of
        Some lastNL \<Rightarrow> Some (take (lastNL + 1) rawBuf)
      | None \<Rightarrow> if int (length rawBuf) < maxReadBytes then None else Some rawBuf)"

definition chunk_text :: "log_env \<Rightarrow> LogInstance \<Rightarrow> string \<Rightarrow> string" where
  "chunk_text env ins completeRaw =
     (case lf_enc ins of
        None \<Rightarrow> completeRaw
      | Some enc \<Rightarrow>
          let decoded = le_decode env enc completeRaw in
          if decoded = [] \<and> length completeRaw > 0 then completeRaw else decoded)"

text \<open>The event for a processed chunk; \<open>None\<close> is a panic.\<close>

definition chunk_event :: "log_env \<Rightarrow> LogInstance \<Rightarrow> string \<Rightarrow> string \<Rightarrow> Event option" where
  "chunk_event env ins filePath completeRaw =
     (let lines = map clean_line (split_lines (chunk_text env ins completeRaw)) in
      case match_loop ins 0 lines [] of
        None \<Rightarrow> None
      | Some matched \<Rightarrow>
          (case cut_lines (lf_MaxLineLength ins) lines of
             None \<Rightarrow> None
           | Some lines' \<Rightarrow>
               if length matched = 0 then Some (ok_event filePath)
               else
                 case (buildDescription ins lines' matched, HumanBytes (length completeRaw)) of
                   (Some desc, Some bytes) \<Rightarrow>
                     Some (SetDescription desc (SetEventStatus (lf_Severity ins)
                       (SetAttrs [(''matched_count'', show_nat (length matched)), (''bytes_read'', bytes)] (log_event filePath))))
                 | _ \<Rightarrow> None))"

definition put_state :: "string \<Rightarrow> fileState \<Rightarrow> bool \<Rightarrow> LogInstance \<Rightarrow> LogInstance" where
  "put_state filePath state dirty ins =
     ins\<lparr>lf_fileStates := m_set filePath state (lf_fileStates ins), lf_stateDirty := lf_stateDirty ins \<or> dirty\<rparr>"

definition read_file :: "log_env \<Rightarrow> string \<Rightarrow> file_info \<Rightarrow> fileState \<Rightarrow> LogInstance \<Rightarrow> (Event \<times> LogInstance) option" where
  "read_file env filePath info state ins =
     (let bytesToRead = (if fi_Size info - fs_Offset state > lf_MaxReadBytes ins then lf_MaxReadBytes ins
                         else fi_Size info - fs_Offset state)
      in case le_open env filePath of
           Some err \<Rightarrow> Some (failure filePath (''failed to open '' @ filePath @ '': '' @ err), ins)
         | None \<Rightarrow>
             (case le_seek env filePath (fs_Offset state) of
                Some err \<Rightarrow> Some (failure filePath (''failed to seek '' @ filePath @ '' to offset '' @ show_int (fs_Offset state) @ '': '' @ err), ins)
              | None \<Rightarrow>
                  (case le_read env filePath (fs_Offset state) bytesToRead of
                     Inl err \<Rightarrow> Some (failure filePath (''failed to read '' @ filePath @ '': '' @ err), ins)
                   | Inr rawBuf \<Rightarrow>
                       if length rawBuf = 0 then Some (ok_event filePath, ins)
                       else case complete_part (lf_MaxReadBytes ins) rawBuf of
                              None \<Rightarrow> Some (ok_event filePath, ins)
                            | Some completeRaw \<Rightarrow>
                                map_option
                                  (\<lambda>ev. (ev, put_state filePath (state\<lparr>fs_Offset := fs_Offset state + int (length completeRaw)\<rparr>) True ins))
                                  (chunk_event env ins filePath completeRaw))))"

definition processFile :: "log_env \<Rightarrow> string \<Rightarrow> LogInstance \<Rightarrow> (Event \<times> LogInstance) option" where
  "processFile env filePath ins =
     (case le_stat env filePath of
        Inl err \<Rightarrow> Some (failure filePath (''failed to stat '' @ filePath @ '': '' @ stat_text err), ins)
      | Inr info \<Rightarrow>
          let old = map_of (lf_fileStates ins) filePath;
              (state, dirty) = track ins info (readFingerprint env filePath) old;
              ins = put_state filePath state dirty ins
          in if old = None \<and> lf_InitialPosition ins = ''end'' then Some (ok_event filePath, ins)
             else if fi_Size info = fs_Offset state then Some (ok_event filePath, ins)
             else read_file env filePath info state ins)"

section \<open>One run\<close>

fun process_files :: "log_env \<Rightarrow> nat \<Rightarrow> string list \<Rightarrow> Event list \<Rightarrow> LogInstance \<Rightarrow> (Event list \<times> LogInstance) option" where
  "process_files env i [] evs ins = Some (evs, ins)"
| "process_files env i (filePath # files) evs ins =
     (if le_late env i
      then Some (evs @ [SetDescription (''gather_timeout ('' @ le_dur env (lf_GatherTimeout ins) @ '') exceeded, skipped remaining files'')
                   (SetEventStatus EventStatusCritical (log_event ''gather_timeout''))],
                 ins\<lparr>lf_gatherTimedOut := True\<rparr>)
      else
        case processFile env filePath ins of
          None \<Rightarrow> None
        | Some (ev, ins') \<Rightarrow> process_files env (i + 1) files (evs @ [ev]) ins')"

definition missing_event :: "log_env \<Rightarrow> LogInstance \<Rightarrow> string \<Rightarrow> Event list" where
  "missing_event env ins path =
     (case le_stat env path of
        Inr _ \<Rightarrow> []
      | Inl (NotExist _) \<Rightarrow>
          if m_has (lf_fileStates ins) path
          then [failure path (''file '' @ path @ '' disappeared (was previously monitored)'')] else []
      | Inl (StatError err) \<Rightarrow> [failure path (''file '' @ path @ '' inaccessible: '' @ err)])"

text \<open>The first half of \<^verbatim>\<open>Gather\<close>: the files to visit, the events about their number and about missing files, and
  the instance without the states of files that are gone. The explicit targets are visited in the
  iteration order of their map, here the order of the list.\<close>

definition log_prepare :: "log_env \<Rightarrow> LogInstance \<Rightarrow> (string list \<times> Event list \<times> LogInstance) option" where
  "log_prepare env ins =
     (let prevGlobExceeded = lf_globExceeded ins;
          ins = ins\<lparr>lf_globExceeded := False, lf_gatherTimedOut := False\<rparr>;
          resolved = resolveTargets env ins;
          n = int (length resolved);
          over = (n > lf_MaxTargets ins)
      in if over \<and> lf_MaxTargets ins < 0 then None
         else
           let glob_evs =
                 (if over
                  then [SetDescription (''targets resolved to '' @ show_int n @ '' files, exceeding max_targets('' @ show_int (lf_MaxTargets ins)
                          @ ''), only monitoring the first '' @ show_int (lf_MaxTargets ins))
                        (SetEventStatus EventStatusWarning (log_event ''glob''))]
                  else if prevGlobExceeded
                  then [SetDescription (''target count back to normal ('' @ show_int n @ '' files)'') (log_event ''glob'')]
                  else []);
               resolved = (if over then take (nat (lf_MaxTargets ins)) resolved else resolved);
               stale = filter (\<lambda>(path, _). path \<notin> set resolved \<and> path \<notin> set (lf_explicitTargets ins)) (lf_fileStates ins);
               ins = ins\<lparr>lf_globExceeded := over,
                        lf_fileStates := filter (\<lambda>(path, _). path \<in> set resolved \<or> path \<in> set (lf_explicitTargets ins)) (lf_fileStates ins),
                        lf_stateDirty := lf_stateDirty ins \<or> stale \<noteq> []\<rparr>;
               missing = concat (map (missing_event env ins) (filter (\<lambda>p. p \<notin> set resolved) (lf_explicitTargets ins)))
           in Some (resolved, glob_evs @ missing, ins))"

text \<open>\<^verbatim>\<open>Gather\<close>: the events pushed, the instance afterwards, and whether the state file was written.\<close>

definition log_Gather :: "log_env \<Rightarrow> LogInstance \<Rightarrow> (Event list \<times> LogInstance \<times> bool) option" where
  "log_Gather env ins =
     (case log_prepare env ins of
        None \<Rightarrow> None
      | Some (resolved, evs, ins1) \<Rightarrow>
          (case process_files env 0 resolved evs ins1 of
             None \<Rightarrow> None
           | Some (evs, ins2) \<Rightarrow>
               Some (if lf_gatherTimedOut ins \<and> \<not> lf_gatherTimedOut ins2
                     then evs @ [SetDescription ''gather completed within timeout'' (log_event ''gather_timeout'')] else evs,
                     ins2\<lparr>lf_stateDirty := False\<rparr>, lf_stateDirty ins2)))"

section \<open>Start-up\<close>

definition lookupEncoding :: "compilers \<Rightarrow> string \<Rightarrow> string + encoding option" where
  "lookupEncoding cc name =
     (let n = to_lower (trim_space name) in
      if n \<in> {[], ''utf-8'', ''utf8''} then Inr None
      else if n \<in> {''gbk'', ''gb2312''} then Inr (Some GBK)
      else if n = ''gb18030'' then Inr (Some GB18030)
      else if n = ''big5'' then Inr (Some Big5)
      else if n \<in> {''shift_jis'', ''shift-jis'', ''sjis''} then Inr (Some ShiftJIS)
      else if n \<in> {''euc-jp'', ''eucjp''} then Inr (Some EUCJP)
      else if n \<in> {''euc-kr'', ''euckr''} then Inr (Some EUCKR)
      else if n \<in> {''latin1'', ''iso-8859-1''} then Inr (Some ISO8859_1)
      else if n \<in> {''windows-1252'', ''cp1252''} then Inr (Some Windows1252)
      else Inl (''unsupported encoding: '' @ quote_str cc name
             @ '' (supported: utf-8, gbk, gb18030, big5, shift_jis, euc-jp, euc-kr, latin1, windows-1252)''))"

text \<open>\<^verbatim>\<open>fnv.New32a\<close> over the targets, each followed by a zero byte.\<close>

definition fnv_step :: "32 word \<Rightarrow> char \<Rightarrow> 32 word" where
  "fnv_step h c = (h XOR of_nat (byte c)) * 16777619"

definition fnv32a :: "string \<Rightarrow> 32 word" where
  "fnv32a s = foldl fnv_step 2166136261 s"

definition hex08 :: "32 word \<Rightarrow> string" where
  "hex08 w = map (\<lambda>i. hex_digit (unat w div 16 ^ i mod 16)) [7, 6, 5, 4, 3, 2, 1, 0]"

definition state_name :: "string list \<Rightarrow> string" where
  "state_name targets = ''.logfile_state_'' @ hex08 (fnv32a (concat (map (\<lambda>t. t @ [CHR 0x00]) targets))) @ ''.json''"

text \<open>What start-up reads: the path of a state file, and its decoded contents if it can be read and parsed.\<close>

record log_setup =
  ls_path :: "string \<Rightarrow> string"
  ls_load :: "string \<Rightarrow> (string, fileState) gomap option"

definition default_to :: "int \<Rightarrow> int \<Rightarrow> int" where
  "default_to d x = (if x \<le> 0 then d else x)"

text \<open>The checks of \<^verbatim>\<open>Init\<close> after the filters are compiled: defaults and ranges.\<close>

definition log_defaults :: "LogInstance \<Rightarrow> LogInstance" where
  "log_defaults ins = ins\<lparr>lf_MaxReadBytes := default_to 1048576 (lf_MaxReadBytes ins),
     lf_MaxLines := default_to 10 (lf_MaxLines ins),
     lf_MaxLineLength := default_to 8192 (lf_MaxLineLength ins),
     lf_MaxTargets := default_to 100 (lf_MaxTargets ins),
     lf_GatherTimeout := default_to (10 * Second) (lf_GatherTimeout ins)\<rparr>"

definition context_error :: "LogInstance \<Rightarrow> string option" where
  "context_error ins =
     (if lf_ContextBefore ins < 0 then Some (''context_before must be >= 0 (got '' @ show_int (lf_ContextBefore ins) @ '')'')
      else if lf_ContextAfter ins < 0 then Some (''context_after must be >= 0 (got '' @ show_int (lf_ContextAfter ins) @ '')'')
      else if lf_ContextBefore ins > 10 then Some (''context_before must be <= 10 (got '' @ show_int (lf_ContextBefore ins) @ '')'')
      else if lf_ContextAfter ins > 10 then Some (''context_after must be <= 10 (got '' @ show_int (lf_ContextAfter ins) @ '')'')
      else None)"

definition loadState :: "log_setup \<Rightarrow> LogInstance \<Rightarrow> LogInstance" where
  "loadState su ins =
     (case ls_load su (lf_StateFile ins) of None \<Rightarrow> ins | Some loaded \<Rightarrow> ins\<lparr>lf_fileStates := loaded\<rparr>)"

definition init_state :: "log_setup \<Rightarrow> encoding option \<Rightarrow> LogInstance \<Rightarrow> LogInstance" where
  "init_state su enc ins =
     loadState su (ins\<lparr>lf_enc := enc,
       lf_StateFile := (if lf_StateFile ins = [] then ls_path su (state_name (lf_Targets ins)) else lf_StateFile ins),
       lf_explicitTargets := remdups (filter (\<lambda>t. \<not> HasMeta t) (lf_Targets ins)),
       lf_fileStates := []\<rparr>)"

definition log_filters :: "compilers \<Rightarrow> LogInstance \<Rightarrow> string + LogInstance" where
  "log_filters cc ins =
     (case Compile cc (lf_FilterInclude ins) of
        Inl err \<Rightarrow> Inl (''failed to compile filter_include: '' @ err)
      | Inr inc \<Rightarrow>
          let ins = ins\<lparr>lf_includeFilter := inc\<rparr> in
          if length (lf_FilterExclude ins) > 0 then
            (case Compile cc (lf_FilterExclude ins) of
               Inl err \<Rightarrow> Inl (''failed to compile filter_exclude: '' @ err)
             | Inr exc \<Rightarrow> Inr (ins\<lparr>lf_excludeFilter := exc\<rparr>))
          else Inr ins)"

definition with_severity :: "LogInstance \<Rightarrow> LogInstance" where
  "with_severity ins = ins\<lparr>lf_Severity := (if lf_Severity ins = [] then EventStatusWarning else lf_Severity ins)\<rparr>"

definition with_position :: "LogInstance \<Rightarrow> LogInstance" where
  "with_position ins = ins\<lparr>lf_InitialPosition := (if lf_InitialPosition ins = [] then ''end'' else lf_InitialPosition ins)\<rparr>"

definition log_Init :: "compilers \<Rightarrow> log_setup \<Rightarrow> LogInstance \<Rightarrow> string + LogInstance" where
  "log_Init cc su ins =
     (if length (lf_Targets ins) = 0 then Inl ''targets must not be empty''
      else if length (lf_FilterInclude ins) = 0
      then Inl ''filter_include must not be empty (logfile monitoring without match rules is meaningless)''
      else
        case log_filters cc ins of
          Inl err \<Rightarrow> Inl err
        | Inr ins \<Rightarrow>
            let ins = with_severity ins in
            if \<not> EventStatusValid (lf_Severity ins)
            then Inl (''match.severity '' @ quote_str cc (lf_Severity ins) @ '' is invalid (use Critical, Warning, Info, Ok)'')
            else
              let ins = with_position ins in
              if lf_InitialPosition ins \<noteq> ''end'' \<and> lf_InitialPosition ins \<noteq> ''beginning''
              then Inl (''initial_position must be \"end\" or \"beginning\" (got '' @ quote_str cc (lf_InitialPosition ins) @ '')'')
              else
                let ins = log_defaults ins in
                case context_error ins of
                  Some err \<Rightarrow> Inl err
                | None \<Rightarrow>
                    (case lookupEncoding cc (lf_Encoding ins) of
                       Inl err \<Rightarrow> Inl err
                     | Inr enc \<Rightarrow> Inr (init_state su enc ins)))"

text \<open>An instance after start-up.\<close>

definition log_ready :: "LogInstance \<Rightarrow> bool" where
  "log_ready ins \<longleftrightarrow> lf_includeFilter ins \<noteq> None \<and> EventStatusValid (lf_Severity ins) \<and>
     (lf_InitialPosition ins = ''end'' \<or> lf_InitialPosition ins = ''beginning'') \<and>
     0 < lf_MaxReadBytes ins \<and> 0 < lf_MaxLines ins \<and> 0 < lf_MaxLineLength ins \<and> 0 < lf_MaxTargets ins \<and>
     lf_ContextBefore ins \<in> {0..10} \<and> lf_ContextAfter ins \<in> {0..10}"

lemma Compile_Some:
  assumes "Compile cc ps = Inr f" "ps \<noteq> []"
  shows "f \<noteq> None"
proof -
  obtain gp rf where sp: "split_patterns cc ps [] [] = Inr (gp, rf)"
    using assms by (auto simp: Compile_def split: sum.splits)
  have len: "length gp + length rf = length gs + length res + length ps"
    if "split_patterns cc ps gs res = Inr (gp, rf)" for ps gs res
    using that by (induction cc ps gs res rule: split_patterns.induct) (auto split: if_splits sum.splits)
  have "gp = [] \<Longrightarrow> rf \<noteq> []" using len [OF sp] assms(2) by (cases ps) auto
  then show ?thesis
    using assms sp by (cases "compileGlob cc gp") (auto simp: Compile_def Let_def split: if_splits)
qed

lemma log_filters_result:
  assumes "log_filters cc ins = Inr ins'" "lf_FilterInclude ins \<noteq> []"
  shows "lf_includeFilter ins' \<noteq> None"
proof -
  obtain inc where "Compile cc (lf_FilterInclude ins) = Inr inc" using assms by (auto simp: log_filters_def split: sum.splits)
  then show ?thesis
    using assms Compile_Some [of cc "lf_FilterInclude ins" inc]
    by (auto simp: log_filters_def Let_def split: if_splits sum.splits)
qed

lemma init_state_ready [simp]: "log_ready (init_state su enc ins) \<longleftrightarrow> log_ready ins"
  by (simp add: init_state_def loadState_def log_ready_def split: option.split)

lemma log_defaults_ready:
  assumes "lf_includeFilter ins \<noteq> None" "EventStatusValid (lf_Severity ins)"
    "lf_InitialPosition ins = ''end'' \<or> lf_InitialPosition ins = ''beginning''" "context_error (log_defaults ins) = None"
  shows "log_ready (log_defaults ins)"
  using assms by (auto simp: log_ready_def log_defaults_def default_to_def context_error_def split: if_splits)

lemma log_Init_ready:
  assumes "log_Init cc su ins = Inr ins'"
  shows "log_ready ins'"
proof -
  obtain ins1 where f: "log_filters cc ins = Inr ins1" "lf_FilterInclude ins \<noteq> []"
    using assms by (auto simp: log_Init_def split: if_splits sum.splits)
  have inc: "lf_includeFilter ins1 \<noteq> None" using log_filters_result [OF f] by simp
  define ins3 where "ins3 = with_position (with_severity ins1)"
  have "EventStatusValid (lf_Severity (with_severity ins1)) \<and> (lf_InitialPosition ins3 = ''end'' \<or> lf_InitialPosition ins3 = ''beginning'') \<and>
    context_error (log_defaults ins3) = None \<and> (\<exists>enc. ins' = init_state su enc (log_defaults ins3))"
    using assms f unfolding log_Init_def Let_def ins3_def
    by (auto split: if_split_asm option.split_asm sum.split_asm)
  moreover have "lf_includeFilter ins3 \<noteq> None" "lf_Severity ins3 = lf_Severity (with_severity ins1)"
    using inc by (simp_all add: ins3_def with_position_def with_severity_def)
  ultimately show ?thesis using log_defaults_ready [of ins3] by auto
qed

section \<open>Descriptions never read outside the lines\<close>

lemma cat_opt_total: "list_all (\<lambda>x. x \<noteq> None) xs \<Longrightarrow> cat_opt xs \<noteq> None"
  by (induction xs) (auto simp: cat_opt_def split: option.splits)

definition in_lines :: "nat \<Rightarrow> int \<times> int \<Rightarrow> bool" where
  "in_lines n r \<longleftrightarrow> 0 \<le> fst r \<and> snd r < int n"

lemma context_range_within: "idx < n \<Longrightarrow> in_lines n (context_range ins n idx)"
  by (auto simp: context_range_def in_lines_def Let_def)

lemma merge_ranges_within: "in_lines n r \<Longrightarrow> list_all (in_lines n) rs \<Longrightarrow> list_all (in_lines n) (merge_ranges r rs)"
  by (induction r rs rule: merge_ranges.induct) (auto simp: in_lines_def)

lemma range_text_total: "in_lines (length lines) r \<Longrightarrow> range_text lines shown r \<noteq> None"
  unfolding range_text_def by (rule cat_opt_total) (auto simp: list_all_iff line_at_def in_lines_def)

lemma context_text_total:
  assumes "shown \<noteq> []" "list_all (\<lambda>i. i < length lines) shown"
  shows "context_text ins lines shown \<noteq> None"
proof -
  obtain r rs where r: "map (context_range ins (length lines)) shown = r # rs" using assms(1) by (cases shown) auto
  have "list_all (in_lines (length lines)) (map (context_range ins (length lines)) shown)"
    using assms(2) context_range_within by (fastforce simp: list_all_iff)
  then have "list_all (in_lines (length lines)) (merge_ranges r rs)" using r merge_ranges_within by simp
  then have texts: "\<forall>m \<in> set (merge_ranges r rs). range_text lines shown m \<noteq> None"
    using range_text_total by (simp add: list_all_iff)
  show ?thesis
  proof (cases "merge_ranges r rs")
    case (Cons m ms)
    have "cat_opt (range_text lines shown m # concat (map (\<lambda>x. [Some (''  ...'' @ [nl]), range_text lines shown x]) ms)) \<noteq> None"
      using texts Cons by (intro cat_opt_total) (auto simp: list_all_iff)
    then show ?thesis using r Cons by (simp add: context_text_def)
  qed (use r in \<open>simp add: context_text_def\<close>)
qed

lemma buildDescription_total:
  assumes "log_ready ins" "matched \<noteq> []" "list_all (\<lambda>i. i < length lines) matched"
  shows "buildDescription ins lines matched \<noteq> None"
proof -
  define shown where "shown = (if int (length matched) > lf_MaxLines ins then take (nat (lf_MaxLines ins)) matched else matched)"
  have pos: "0 < lf_MaxLines ins" using assms(1) by (simp add: log_ready_def)
  have shown: "shown \<noteq> []" "list_all (\<lambda>i. i < length lines) shown"
    using assms pos by (auto simp: shown_def list_all_iff dest: in_set_takeD)
  have "cat_opt (map (\<lambda>i. map_option (\<lambda>l. l @ [nl]) (line_at lines (int i))) shown) \<noteq> None"
    using shown(2) by (intro cat_opt_total) (auto simp: list_all_iff line_at_def)
  then show ?thesis
    using context_text_total [OF shown, of ins] pos
    by (auto simp: buildDescription_def Let_def shown_def [symmetric])
qed

lemma match_loop_result:
  assumes "log_ready ins" "list_all (\<lambda>i. i < k) acc"
  shows "\<exists>m. match_loop ins k lines acc = Some m \<and> list_all (\<lambda>i. i < k + length lines) m \<and>
    (length m = 0 \<longleftrightarrow> acc = [] \<and> list_all (\<lambda>l. line_matches ins l = Some False) lines)"
  using assms(2)
proof (induction lines arbitrary: k acc)
  case (Cons line lines)
  obtain b where b: "line_matches ins line = Some b" using assms(1) by (auto simp: line_matches_def log_ready_def)
  have "list_all (\<lambda>i. i < k + 1) (if b then acc @ [k] else acc)" using Cons(2) by (auto simp: list_all_iff)
  from Cons.IH [OF this] show ?case using b by (auto simp: list_all_iff)
qed simp

lemma cut_lines_total: "0 < n \<Longrightarrow> \<exists>ls. cut_lines n lines = Some ls \<and> length ls = length lines"
  by (induction lines) (auto simp: truncateUTF8_def split: if_splits)

text \<open>Whether a chunk has a line that the filters select.\<close>

definition chunk_matches :: "log_env \<Rightarrow> LogInstance \<Rightarrow> string \<Rightarrow> bool" where
  "chunk_matches env ins chunk \<longleftrightarrow>
     list_ex (\<lambda>l. line_matches ins l = Some True) (map clean_line (split_lines (chunk_text env ins chunk)))"

lemma line_matches_total: "log_ready ins \<Longrightarrow> line_matches ins l = Some True \<or> line_matches ins l = Some False"
  by (auto simp: line_matches_def log_ready_def split: option.splits)

lemma chunk_event_result:
  assumes "log_ready ins" "length chunk < 2 ^ 64"
  shows "\<exists>ev. chunk_event env ins filePath chunk = Some ev \<and>
    EventStatus ev = (if chunk_matches env ins chunk then lf_Severity ins else EventStatusOk)"
proof -
  define lines where "lines = map clean_line (split_lines (chunk_text env ins chunk))"
  obtain m where m: "match_loop ins 0 lines [] = Some m" "list_all (\<lambda>i. i < length lines) m"
    "length m = 0 \<longleftrightarrow> list_all (\<lambda>l. line_matches ins l = Some False) lines"
    using match_loop_result [OF assms(1), of 0 "[]" lines] by auto
  obtain ls where ls: "cut_lines (lf_MaxLineLength ins) lines = Some ls" "length ls = length lines"
    using cut_lines_total [of "lf_MaxLineLength ins" lines] assms(1) by (auto simp: log_ready_def)
  have none: "length m = 0 \<longleftrightarrow> \<not> chunk_matches env ins chunk"
    using m(3) line_matches_total [OF assms(1)]
    by (auto simp: chunk_matches_def lines_def [symmetric] list_all_iff list_ex_iff)
  obtain hb where hb: "HumanBytes (length chunk) = Some hb" using human_bytes_some [OF assms(2)] by auto
  have "\<exists>d. buildDescription ins ls m = Some d" if "m \<noteq> []"
    using buildDescription_total [OF assms(1) that, of ls] m(2) ls(2) by auto
  then show ?thesis
    using m(1) ls(1) none hb
    by (auto simp: chunk_event_def Let_def lines_def [symmetric] ok_event_def log_event_def SetDescription_def
        SetEventStatus_def SetAttrs_def)
qed

section \<open>Following a file that only grows\<close>

text \<open>The environment serves a regular file: its size was taken when it held \<open>c\<close>, and it was read when it
  held \<open>c'\<close>.\<close>

definition serves :: "log_env \<Rightarrow> string \<Rightarrow> nat \<Rightarrow> string \<Rightarrow> string \<Rightarrow> bool" where
  "serves env path inode c c' \<longleftrightarrow>
     le_stat env path = Inr \<lparr>fi_IsDir = False, fi_Size = int (length c), fi_Inode = inode\<rparr> \<and>
     le_head env path = Some (take fingerprintSize c') \<and> le_open env path = None \<and>
     (\<forall>off. 0 \<le> off \<longrightarrow> le_seek env path off = None \<and>
        (\<forall>n. le_read env path off n = Inr (take (nat n) (drop (nat off) c')))) \<and> prefix c c'"

definition following :: "LogInstance \<Rightarrow> string \<Rightarrow> nat \<Rightarrow> string \<Rightarrow> nat \<Rightarrow> bool" where
  "following ins path inode c' off \<longleftrightarrow> off \<le> length c' \<and>
     map_of (lf_fileStates ins) path =
       Some \<lparr>fs_Offset = int off, fs_Inode = inode, fs_Fingerprint = hex_encode (take fingerprintSize c')\<rparr>"

text \<open>What the code takes of the pending bytes: nothing, up to the last newline of a block, or a full block
  without newline.\<close>

definition next_chunk :: "int \<Rightarrow> string \<Rightarrow> string" where
  "next_chunk maxReadBytes pending =
     (case complete_part maxReadBytes (take (nat maxReadBytes) pending) of None \<Rightarrow> [] | Some chunk \<Rightarrow> chunk)"

lemma fingerprint_grows:
  assumes "prefix c d" "c \<noteq> []"
  shows "fingerprintsMatch (hex_encode (take fingerprintSize d)) (hex_encode (take fingerprintSize c))"
proof -
  obtain t where "take fingerprintSize d = take fingerprintSize c @ t"
    using assms(1) by (auto simp: prefix_def)
  then show ?thesis using assms(2) by (simp add: fingerprintsMatch_def hex_encode_append fingerprintSize_def)
qed

lemma last_index_bound: "last_index c s = Some i \<Longrightarrow> i < length s"
  by (induction s arbitrary: i) (auto split: option.splits if_splits)

lemma last_index_None: "last_index c s = None \<longleftrightarrow> c \<notin> set s"
  by (induction s) (auto split: option.splits)

lemma last_index_char: "last_index c s = Some i \<Longrightarrow> s ! i = c"
  by (induction s arbitrary: i) (auto split: option.splits if_splits)

lemma next_chunk_cases:
  obtains (newline) i where "last_index nl (take (nat m) p) = Some i" "i < length (take (nat m) p)" "take (nat m) p ! i = nl"
      "next_chunk m p = take (Suc i) (take (nat m) p)"
  | (wait) "nl \<notin> set (take (nat m) p)" "int (length (take (nat m) p)) < m" "next_chunk m p = []"
  | (full) "nl \<notin> set (take (nat m) p)" "int (length (take (nat m) p)) \<ge> m" "next_chunk m p = take (nat m) p"
proof (cases "last_index nl (take (nat m) p)")
  case None
  then have "nl \<notin> set (take (nat m) p)" by (metis last_index_None)
  then show thesis using None wait full by (cases "int (length (take (nat m) p)) < m") (auto simp: next_chunk_def complete_part_def)
next
  case (Some i)
  then show thesis
    using newline last_index_bound [OF Some] last_index_char [OF Some] by (simp add: next_chunk_def complete_part_def)
qed

lemma next_chunk_prefix: "prefix (next_chunk m p) p"
  by (rule next_chunk_cases [of m p]) (auto simp: take_is_prefix)

lemma next_chunk_whole:
  "next_chunk m p = [] \<or> last (next_chunk m p) = nl \<or> int (length (next_chunk m p)) \<ge> m \<and> nl \<notin> set (next_chunk m p)"
proof (rule next_chunk_cases [of m p])
  fix i
  assume "i < length (take (nat m) p)" "take (nat m) p ! i = nl" "next_chunk m p = take (Suc i) (take (nat m) p)"
  then show ?thesis by (simp only: take_Suc_conv_app_nth last_snoc simp_thms)
qed auto

lemma next_chunk_Nil: "0 < m \<Longrightarrow> next_chunk m p = [] \<longleftrightarrow> nl \<notin> set p \<and> int (length p) < m"
proof (rule next_chunk_cases [of m p])
  fix i
  assume i: "i < length (take (nat m) p)" "take (nat m) p ! i = nl" "next_chunk m p = take (Suc i) (take (nat m) p)"
  then have "nl \<in> set p" by (metis in_set_takeD nth_mem)
  then show ?thesis using i by auto
qed auto

text \<open>A grown file is never taken for a rotated one, and the stored position is kept.\<close>

lemma track_grows:
  assumes "following ins path inode c off" "prefix c d" "prefix d d'"
  shows "fst (track ins \<lparr>fi_IsDir = False, fi_Size = int (length d), fi_Inode = inode\<rparr> (hex_encode (take fingerprintSize d'))
            (map_of (lf_fileStates ins) path)) =
         \<lparr>fs_Offset = int off, fs_Inode = inode, fs_Fingerprint = hex_encode (take fingerprintSize d')\<rparr>"
proof (cases "c = []")
  case True
  then show ?thesis
    using assms by (auto simp: track_def following_def is_rotated_def fingerprintsMatch_def)
next
  case False
  have cd: "prefix c d'" using assms by (meson prefix_order.trans)
  have "off \<le> length d" using assms(1,2) prefix_length_le by (fastforce simp: following_def)
  then have "\<not> is_rotated \<lparr>fi_IsDir = False, fi_Size = int (length d), fi_Inode = inode\<rparr> (hex_encode (take fingerprintSize d'))
      \<lparr>fs_Offset = int off, fs_Inode = inode, fs_Fingerprint = hex_encode (take fingerprintSize c)\<rparr>"
    using fingerprint_grows [OF cd False] by (simp add: is_rotated_def)
  moreover have "length (take fingerprintSize d') \<le> length (take fingerprintSize c) \<Longrightarrow> take fingerprintSize d' = take fingerprintSize c"
    using cd by (auto simp: prefix_def min_def split: if_splits)
  ultimately show ?thesis using assms(1) by (auto simp: track_def following_def)
qed

lemma read_file_grows:
  assumes "serves env path inode d d'" "log_ready ins" "in_i64 (lf_MaxReadBytes ins)" "off < length d"
    and st_def: "st = \<lparr>fs_Offset = int off, fs_Inode = inode, fs_Fingerprint = fp\<rparr>"
  defines "chunk \<equiv> next_chunk (lf_MaxReadBytes ins) (drop off d)"
  shows "\<exists>ev. read_file env path \<lparr>fi_IsDir = False, fi_Size = int (length d), fi_Inode = inode\<rparr> st ins =
      Some (ev, if chunk = [] then ins else put_state path (st\<lparr>fs_Offset := int (off + length chunk)\<rparr>) True ins) \<and>
    (if chunk = [] then ev = ok_event path else chunk_event env ins path chunk = Some ev)"
proof -
  define n where "n = (if int (length d) - int off > lf_MaxReadBytes ins then lf_MaxReadBytes ins else int (length d) - int off)"
  have m: "0 < lf_MaxReadBytes ins" using assms(2) by (simp add: log_ready_def)
  obtain t where t: "d' = d @ t" using assms(1) by (auto simp: serves_def prefix_def)
  have buf: "take (nat n) (drop off d') = take (nat (lf_MaxReadBytes ins)) (drop off d)"
    using m assms(4) t by (auto simp: n_def)
  have "length chunk \<le> nat (lf_MaxReadBytes ins)"
    unfolding chunk_def by (rule next_chunk_cases [of "lf_MaxReadBytes ins" "drop off d"]) auto
  moreover have "nat (lf_MaxReadBytes ins) < 2 ^ 63" using assms(3) m by (simp add: in_i64_def)
  ultimately have "length chunk < 2 ^ 64" by simp
  then obtain ev where ev: "chunk_event env ins path chunk = Some ev" using chunk_event_result [OF assms(2)] by blast
  define b where "b = take (nat (lf_MaxReadBytes ins)) (drop off d)"
  have ne: "b \<noteq> []" using m assms(4) by (simp add: b_def)
  have opn: "le_open env path = None" "le_seek env path (int off) = None" and rdq: "le_read env path (int off) n = Inr b"
    using assms(1) buf by (simp_all add: serves_def b_def)
  have rd: "read_file env path \<lparr>fi_IsDir = False, fi_Size = int (length d), fi_Inode = inode\<rparr> st ins =
      (case complete_part (lf_MaxReadBytes ins) b of
         None \<Rightarrow> Some (ok_event path, ins)
       | Some cr \<Rightarrow> map_option (\<lambda>ev. (ev, put_state path (st\<lparr>fs_Offset := int (off + length cr)\<rparr>) True ins)) (chunk_event env ins path cr))"
    using ne rdq opn unfolding read_file_def Let_def st_def fileState.select_convs file_info.select_convs n_def [symmetric]
    by (simp cong: option.case_cong)
  show ?thesis
  proof (cases "complete_part (lf_MaxReadBytes ins) b")
    case None
    then show ?thesis using rd by (simp add: chunk_def next_chunk_def b_def [symmetric])
  next
    case (Some cr)
    then have "chunk = cr" "cr \<noteq> []"
      using ne by (auto simp: chunk_def next_chunk_def b_def [symmetric] complete_part_def split: option.splits if_splits)
    then show ?thesis using rd Some ev by simp
  qed
qed

text \<open>Only the offsets change while files are read.\<close>

lemma match_loop_put [simp]: "match_loop (put_state path st b ins) i lines acc = match_loop ins i lines acc"
proof -
  have "line_matches (put_state path st b ins) = line_matches ins"
    by (intro ext) (simp add: line_matches_def put_state_def split: option.split)
  then show ?thesis by (induction lines arbitrary: i acc) (simp_all split: option.split)
qed

lemma chunk_event_put [simp]: "chunk_event env (put_state path st b ins) filePath chunk = chunk_event env ins filePath chunk"
proof -
  have range: "context_range (put_state path st b ins) = context_range ins" by (intro ext) (simp add: context_range_def put_state_def)
  have eqs: "lf_enc (put_state path st b ins) = lf_enc ins" "lf_MaxLineLength (put_state path st b ins) = lf_MaxLineLength ins"
    "lf_Severity (put_state path st b ins) = lf_Severity ins" "lf_ContextBefore (put_state path st b ins) = lf_ContextBefore ins"
    "lf_ContextAfter (put_state path st b ins) = lf_ContextAfter ins" "lf_MaxLines (put_state path st b ins) = lf_MaxLines ins"
    by (simp_all add: put_state_def)
  show ?thesis
    unfolding chunk_event_def chunk_text_def buildDescription_def context_text_def range eqs match_loop_put ..
qed

lemma put_state_fields [simp]:
  "lf_MaxReadBytes (put_state path st b ins) = lf_MaxReadBytes ins"
  "log_ready (put_state path st b ins) \<longleftrightarrow> log_ready ins"
  by (simp_all add: put_state_def log_ready_def)

text \<open>One run over a file that has grown.\<close>

lemma processFile_grows:
  assumes "following ins path inode c off" "prefix c d" "serves env path inode d d'"
    and "log_ready ins" "in_i64 (lf_MaxReadBytes ins)"
  defines "chunk \<equiv> next_chunk (lf_MaxReadBytes ins) (drop off d)"
  shows "\<exists>ev ins'. processFile env path ins = Some (ev, ins') \<and> following ins' path inode d' (off + length chunk) \<and>
    (\<exists>fs b. ins' = ins\<lparr>lf_fileStates := fs, lf_stateDirty := b\<rparr>) \<and>
    (if chunk = [] then ev = ok_event path else chunk_event env ins path chunk = Some ev)"
proof -
  define fp where "fp = hex_encode (take fingerprintSize d')"
  define st where "st = \<lparr>fs_Offset = int off, fs_Inode = inode, fs_Fingerprint = fp\<rparr>"
  define info where "info = \<lparr>fi_IsDir = False, fi_Size = int (length d), fi_Inode = inode\<rparr>"
  have dd: "prefix d d'" using assms(3) by (simp add: serves_def)
  obtain dirty where tr: "track ins info (readFingerprint env path) (map_of (lf_fileStates ins) path) = (st, dirty)"
    using track_grows [OF assms(1,2) dd] assms(3)
    by (cases "track ins info (readFingerprint env path) (map_of (lf_fileStates ins) path)")
       (auto simp: readFingerprint_def serves_def info_def st_def fp_def)
  define ins1 where "ins1 = put_state path st dirty ins"
  have off: "off \<le> length d" using assms(1,2) prefix_length_le by (fastforce simp: following_def)
  have old: "map_of (lf_fileStates ins) path \<noteq> None" using assms(1) by (simp add: following_def)
  have pf: "processFile env path ins = (if length d = off then Some (ok_event path, ins1) else read_file env path info st ins1)"
    using assms(3) tr old by (simp add: processFile_def serves_def info_def [symmetric] Let_def ins1_def) (auto simp: info_def st_def)
  have keep: "\<exists>fs b. put_state path st' b' ins1 = ins\<lparr>lf_fileStates := fs, lf_stateDirty := b\<rparr>" for st' b'
    by (cases ins) (auto simp: put_state_def ins1_def)
  have keep1: "\<exists>fs b. ins1 = ins\<lparr>lf_fileStates := fs, lf_stateDirty := b\<rparr>" by (auto simp: put_state_def ins1_def)
  have fol1: "following ins1 path inode d' off"
    using off dd prefix_length_le [OF dd] by (auto simp: following_def ins1_def put_state_def st_def fp_def)
  have same: "lf_MaxReadBytes ins1 = lf_MaxReadBytes ins" "log_ready ins1" "chunk_event env ins1 = chunk_event env ins"
    using assms(4) by (simp_all add: ins1_def ext)
  show ?thesis
  proof (cases "length d = off")
    case True
    then have "chunk = []" using next_chunk_prefix [of "lf_MaxReadBytes ins" "drop off d"] by (simp add: chunk_def)
    then show ?thesis using True pf fol1 keep1 by auto
  next
    case False
    then obtain ev where ev: "read_file env path info st ins1 =
        Some (ev, if chunk = [] then ins1 else put_state path (st\<lparr>fs_Offset := int (off + length chunk)\<rparr>) True ins1)"
      "if chunk = [] then ev = ok_event path else chunk_event env ins1 path chunk = Some ev"
      using read_file_grows [OF assms(3) same(2) _ _ st_def, unfolded same(1), OF assms(5)] off
      unfolding chunk_def info_def by auto
    have "following (put_state path (st\<lparr>fs_Offset := int (off + length chunk)\<rparr>) True ins1) path inode d' (off + length chunk)"
      using prefix_length_le [OF next_chunk_prefix, of "lf_MaxReadBytes ins" "drop off d"] off prefix_length_le [OF dd]
      by (auto simp: following_def put_state_def st_def fp_def chunk_def)
    then show ?thesis using False pf ev fol1 keep keep1 same(3) by (cases "chunk = []") auto
  qed
qed

text \<open>Successive runs over one file, and a file that is only appended to between them.\<close>

fun log_runs :: "log_env list \<Rightarrow> string \<Rightarrow> LogInstance \<Rightarrow> (Event list \<times> LogInstance) option" where
  "log_runs [] path ins = Some ([], ins)"
| "log_runs (env # envs) path ins =
     (case processFile env path ins of
        None \<Rightarrow> None
      | Some (ev, ins') \<Rightarrow> map_option (\<lambda>(evs, ins''). (ev # evs, ins'')) (log_runs envs path ins'))"

fun grows :: "string \<Rightarrow> nat \<Rightarrow> string \<Rightarrow> (log_env \<times> string \<times> string) list \<Rightarrow> bool" where
  "grows path inode c [] = True"
| "grows path inode c ((env, d, d') # runs) \<longleftrightarrow>
     prefix c d \<and> serves env path inode d d' \<and> grows path inode d' runs"

fun final_content :: "string \<Rightarrow> (log_env \<times> string \<times> string) list \<Rightarrow> string" where
  "final_content c [] = c"
| "final_content c ((env, d, d') # runs) = final_content d' runs"

definition whole_chunk :: "int \<Rightarrow> string \<Rightarrow> bool" where
  "whole_chunk m chunk \<longleftrightarrow> chunk = [] \<or> last chunk = nl \<or> int (length chunk) \<ge> m \<and> nl \<notin> set chunk"

definition reports :: "LogInstance \<Rightarrow> log_env \<times> string \<times> string \<Rightarrow> Event \<Rightarrow> string \<Rightarrow> bool" where
  "reports ins run ev chunk \<longleftrightarrow>
     EventStatus ev = (if chunk \<noteq> [] \<and> chunk_matches (fst run) ins chunk then lf_Severity ins else EventStatusOk)"

lemma final_content_prefix: "grows path inode c runs \<Longrightarrow> prefix c (final_content c runs)"
  by (induction path inode c runs rule: grows.induct)
     (auto simp: serves_def intro: prefix_order.trans)

lemma reports_other: "reports (ins\<lparr>lf_fileStates := fs, lf_stateDirty := b\<rparr>) = reports ins"
proof -
  have "line_matches (ins\<lparr>lf_fileStates := fs, lf_stateDirty := b\<rparr>) = line_matches ins"
    by (intro ext) (simp add: line_matches_def split: option.split)
  then show ?thesis by (intro ext) (simp add: reports_def chunk_matches_def chunk_text_def)
qed

lemma ready_other: "log_ready (ins\<lparr>lf_fileStates := fs, lf_stateDirty := b\<rparr>) \<longleftrightarrow> log_ready ins"
  by (simp add: log_ready_def)

lemma processFile_reports:
  assumes "following ins path inode c off" "prefix c d" "serves env path inode d d'" "log_ready ins" "in_i64 (lf_MaxReadBytes ins)"
  defines "chunk \<equiv> next_chunk (lf_MaxReadBytes ins) (drop off d)"
  shows "\<exists>ev ins'. processFile env path ins = Some (ev, ins') \<and> following ins' path inode d' (off + length chunk) \<and>
    reports ins (env, d, d') ev chunk \<and> (\<exists>fs b. ins' = ins\<lparr>lf_fileStates := fs, lf_stateDirty := b\<rparr>)"
proof -
  obtain ev ins' where p: "processFile env path ins = Some (ev, ins')" "following ins' path inode d' (off + length chunk)"
    "\<exists>fs b. ins' = ins\<lparr>lf_fileStates := fs, lf_stateDirty := b\<rparr>"
    "if chunk = [] then ev = ok_event path else chunk_event env ins path chunk = Some ev"
    using processFile_grows [OF assms(1-5)] unfolding chunk_def by blast
  have "length chunk \<le> nat (lf_MaxReadBytes ins)"
    unfolding chunk_def by (rule next_chunk_cases [of "lf_MaxReadBytes ins" "drop off d"]) auto
  moreover have "nat (lf_MaxReadBytes ins) < 2 ^ 63" using assms(4,5) by (simp add: in_i64_def log_ready_def)
  ultimately have "length chunk < 2 ^ 64" by simp
  then have "reports ins (env, d, d') ev chunk"
    using p(4) chunk_event_result [OF assms(4), of chunk env path]
    by (auto simp: reports_def ok_event_def log_event_def SetDescription_def split: if_splits)
  then show ?thesis using p by blast
qed

section \<open>Properties\<close>

text \<open>C22: following a file that is only appended to between runs, under start-up settings: the runs neither
  panic nor skip nor repeat a byte. They cut what follows the start position into consecutive chunks,
  each ending at a newline unless a full block has none, and a run raises the configured severity
  exactly when its chunk has a line the filters select.\<close>

theorem log_exactly_once:
  assumes "following ins path inode c off" "log_ready ins" "in_i64 (lf_MaxReadBytes ins)" "grows path inode c runs"
  shows "\<exists>evs ins' chunks. log_runs (map fst runs) path ins = Some (evs, ins') \<and>
    following ins' path inode (final_content c runs) (off + length (concat chunks)) \<and>
    prefix (concat chunks) (drop off (final_content c runs)) \<and>
    list_all (whole_chunk (lf_MaxReadBytes ins)) chunks \<and>
    length chunks = length runs \<and> length evs = length runs \<and>
    (\<forall>i. i < length runs \<longrightarrow> reports ins (runs ! i) (evs ! i) (chunks ! i))"
  using assms
proof (induction runs arbitrary: ins c off)
  case Nil
  then show ?case by (intro exI [of _ "[]"] exI [of _ ins]) simp
next
  case (Cons run runs)
  obtain env d d' where run: "run = (env, d, d')" by (cases run)
  define chunk where "chunk = next_chunk (lf_MaxReadBytes ins) (drop off d)"
  have pre: "prefix c d" and srv: "serves env path inode d d'" and gr: "grows path inode d' runs" using Cons.prems(4) run by auto
  obtain ev ins' fs b where p: "processFile env path ins = Some (ev, ins')" "following ins' path inode d' (off + length chunk)"
    "reports ins run ev chunk" "ins' = ins\<lparr>lf_fileStates := fs, lf_stateDirty := b\<rparr>"
    using processFile_reports [OF Cons.prems(1) pre srv Cons.prems(2,3)] run unfolding chunk_def by blast
  have "log_ready ins'" "in_i64 (lf_MaxReadBytes ins')" "reports ins' = reports ins" "lf_MaxReadBytes ins' = lf_MaxReadBytes ins"
    using Cons.prems p(4) by (simp_all add: ready_other reports_other)
  then obtain evs ins2 chunks where ih: "log_runs (map fst runs) path ins' = Some (evs, ins2)"
    "following ins2 path inode (final_content d' runs) (off + length chunk + length (concat chunks))"
    "prefix (concat chunks) (drop (off + length chunk) (final_content d' runs))"
    "list_all (whole_chunk (lf_MaxReadBytes ins)) chunks" "length chunks = length runs" "length evs = length runs"
    "\<forall>i. i < length runs \<longrightarrow> reports ins (runs ! i) (evs ! i) (chunks ! i)"
    using Cons.IH [OF p(2) _ _ gr] by auto
  have fin: "prefix d (final_content d' runs)"
    using final_content_prefix [OF gr] srv by (auto simp: serves_def intro: prefix_order.trans)
  then have "prefix (drop off d) (drop off (final_content d' runs))" by (auto simp: prefix_def)
  then obtain t where t: "drop off (final_content d' runs) = chunk @ t"
    using next_chunk_prefix [of "lf_MaxReadBytes ins" "drop off d"] unfolding chunk_def
    by (meson prefix_def prefix_order.trans)
  then have "drop (off + length chunk) (final_content d' runs) = t"
    by (metis add.commute append_eq_conv_conj drop_drop)
  then have "prefix (concat (chunk # chunks)) (drop off (final_content c (run # runs)))" using ih(3) t run by simp
  moreover have "whole_chunk (lf_MaxReadBytes ins) chunk"
    using next_chunk_whole [of "lf_MaxReadBytes ins" "drop off d"] by (auto simp: whole_chunk_def chunk_def)
  ultimately show ?case
    using p ih run by (intro exI [of _ "ev # evs"] exI [of _ ins2] exI [of _ "chunk # chunks"]) (auto simp: nth_Cons ac_simps split: nat.split)
qed

lemma log_runs_progress:
  assumes "following ins path inode c off" "log_ready ins" "in_i64 (lf_MaxReadBytes ins)"
    "list_all (\<lambda>env. serves env path inode c c) envs"
  shows "\<exists>evs ins' off'. log_runs envs path ins = Some (evs, ins') \<and> following ins' path inode c off' \<and>
    (next_chunk (lf_MaxReadBytes ins) (drop off c) = [] \<longrightarrow> off' = off) \<and>
    (next_chunk (lf_MaxReadBytes ins) (drop off' c) = [] \<or> off + length envs \<le> off')"
  using assms
proof (induction envs arbitrary: ins off)
  case (Cons env envs)
  define chunk where "chunk = next_chunk (lf_MaxReadBytes ins) (drop off c)"
  have srv: "serves env path inode c c" using Cons.prems(4) by simp
  obtain ev ins' fs b where p: "processFile env path ins = Some (ev, ins')" "following ins' path inode c (off + length chunk)"
    "ins' = ins\<lparr>lf_fileStates := fs, lf_stateDirty := b\<rparr>"
    using processFile_reports [OF Cons.prems(1) prefix_order.refl srv Cons.prems(2,3)] unfolding chunk_def by blast
  have "log_ready ins'" "lf_MaxReadBytes ins' = lf_MaxReadBytes ins" using Cons.prems p(3) by (simp_all add: ready_other)
  then obtain evs ins2 off' where ih: "log_runs envs path ins' = Some (evs, ins2)" "following ins2 path inode c off'"
    "next_chunk (lf_MaxReadBytes ins) (drop (off + length chunk) c) = [] \<longrightarrow> off' = off + length chunk"
    "next_chunk (lf_MaxReadBytes ins) (drop off' c) = [] \<or> off + length chunk + length envs \<le> off'"
    using Cons.IH [OF p(2)] Cons.prems(3,4) by auto
  show ?case
  proof (cases "chunk = []")
    case False
    then have "1 \<le> length chunk" by (cases chunk) auto
    then show ?thesis
      using p ih False unfolding chunk_def [symmetric] by (intro exI [of _ "ev # evs"] exI [of _ ins2] exI [of _ off']) auto
  next
    case True
    then have "next_chunk (lf_MaxReadBytes ins) (drop off c) = []" "off' = off" using ih(3) by (auto simp: chunk_def)
    then show ?thesis using p ih by (intro exI [of _ "ev # evs"] exI [of _ ins2] exI [of _ off']) auto
  qed
qed auto

text \<open>C23: while a file stays as it is, the plugin catches up: after as many runs as there are pending bytes, at
  most, no complete line and no full block is left unread.\<close>

theorem log_catches_up:
  assumes "following ins path inode c off" "log_ready ins" "in_i64 (lf_MaxReadBytes ins)"
    and "list_all (\<lambda>env. serves env path inode c c) envs" "length c - off \<le> length envs"
  shows "\<exists>evs ins' off'. log_runs envs path ins = Some (evs, ins') \<and> following ins' path inode c off' \<and>
    nl \<notin> set (drop off' c) \<and> int (length (drop off' c)) < lf_MaxReadBytes ins"
proof -
  obtain evs ins' off' where r: "log_runs envs path ins = Some (evs, ins')" "following ins' path inode c off'"
    "next_chunk (lf_MaxReadBytes ins) (drop off' c) = [] \<or> off + length envs \<le> off'"
    using log_runs_progress [OF assms(1-4)] by blast
  have m: "0 < lf_MaxReadBytes ins" using assms(2) by (simp add: log_ready_def)
  have "off' \<le> length c" using r(2) by (simp add: following_def)
  then have "next_chunk (lf_MaxReadBytes ins) (drop off' c) = []"
    using r(3) assms(5) next_chunk_Nil [OF m, of "drop off' c"] m by auto
  then show ?thesis using r next_chunk_Nil [OF m] by blast
qed

section \<open>A whole run\<close>

definition bounded_reads :: "log_env \<Rightarrow> bool" where
  "bounded_reads env \<longleftrightarrow> (\<forall>path off n buf. le_read env path off n = Inr buf \<longrightarrow> int (length buf) \<le> max 0 n)"

definition ev_target :: "Event \<Rightarrow> string" where
  "ev_target ev = m_str (nil_map (Labels ev)) ''target''"

fun visited :: "log_env \<Rightarrow> nat \<Rightarrow> string list \<Rightarrow> string list" where
  "visited env i [] = []"
| "visited env i (f # fs) = (if le_late env i then [] else f # visited env (i + 1) fs)"

lemma ev_target_log_event [simp]: "ev_target (log_event path) = path"
  by (simp add: ev_target_def log_event_def BuildEvent_def nil_map_def m_copy_def m_set_def m_str_def)

lemma ev_target_set [simp]:
  "ev_target (SetDescription d e) = ev_target e" "ev_target (SetEventStatus st e) = ev_target e" "ev_target (SetAttrs a e) = ev_target e"
  by (simp_all add: ev_target_def SetDescription_def SetEventStatus_def SetAttrs_def)

lemma chunk_event_target: "chunk_event env ins path chunk = Some ev \<Longrightarrow> ev_target ev = path"
  by (auto simp: chunk_event_def Let_def ok_event_def split: option.splits if_splits)

lemma complete_part_length: "complete_part m buf = Some chunk \<Longrightarrow> length chunk \<le> length buf"
  by (auto simp: complete_part_def split: option.splits if_splits)

lemma read_file_total:
  assumes "log_ready ins" "in_i64 (lf_MaxReadBytes ins)" "bounded_reads env"
  shows "\<exists>ev fs b. read_file env path info st ins = Some (ev, ins\<lparr>lf_fileStates := fs, lf_stateDirty := b\<rparr>) \<and> ev_target ev = path"
proof -
  define n where "n = (if fi_Size info - fs_Offset st > lf_MaxReadBytes ins then lf_MaxReadBytes ins else fi_Size info - fs_Offset st)"
  have same: "\<exists>fs b. ins = ins\<lparr>lf_fileStates := fs, lf_stateDirty := b\<rparr>"
    by (intro exI [of _ "lf_fileStates ins"] exI [of _ "lf_stateDirty ins"]) simp
  have chunk: "\<exists>ev. chunk_event env ins path chunk = Some ev \<and> ev_target ev = path"
    if r: "le_read env path (fs_Offset st) n = Inr buf" and c: "complete_part (lf_MaxReadBytes ins) buf = Some chunk" for buf chunk
  proof -
    have "int (length buf) \<le> max 0 n" using assms(3) r by (auto simp: bounded_reads_def)
    moreover have "n \<le> lf_MaxReadBytes ins" by (simp add: n_def)
    ultimately have "length chunk < 2 ^ 64"
      using complete_part_length [OF c] assms(1,2) by (auto simp: in_i64_def log_ready_def)
    then show ?thesis using chunk_event_result [OF assms(1)] chunk_event_target by blast
  qed
  have upd: "\<exists>fs b'. put_state path st' b ins = ins\<lparr>lf_fileStates := fs, lf_stateDirty := b'\<rparr>" for st' b
    by (auto simp: put_state_def)
  show ?thesis
    using same chunk upd unfolding read_file_def n_def [symmetric] Let_def
    by (auto simp: failure_def ok_event_def split: option.split sum.split)
qed

lemma processFile_total:
  assumes "log_ready ins" "in_i64 (lf_MaxReadBytes ins)" "bounded_reads env"
  shows "\<exists>ev fs b. processFile env path ins = Some (ev, ins\<lparr>lf_fileStates := fs, lf_stateDirty := b\<rparr>) \<and> ev_target ev = path"
proof (cases "le_stat env path")
  case (Inl err)
  then show ?thesis
    by (intro exI [of _ "failure path (''failed to stat '' @ path @ '': '' @ stat_text err)"] exI [of _ "lf_fileStates ins"]
        exI [of _ "lf_stateDirty ins"]) (simp add: processFile_def failure_def)
next
  case (Inr info)
  obtain st dirty where tr: "track ins info (readFingerprint env path) (map_of (lf_fileStates ins) path) = (st, dirty)" by fastforce
  define ins1 where "ins1 = put_state path st dirty ins"
  have "\<exists>fs b. ins1\<lparr>lf_fileStates := fs', lf_stateDirty := b'\<rparr> = ins\<lparr>lf_fileStates := fs, lf_stateDirty := b\<rparr>" for fs' b'
    by (auto simp: ins1_def put_state_def)
  moreover have "\<exists>fs b. ins1 = ins\<lparr>lf_fileStates := fs, lf_stateDirty := b\<rparr>" by (auto simp: ins1_def put_state_def)
  moreover have "\<exists>ev fs b. read_file env path info st ins1 = Some (ev, ins1\<lparr>lf_fileStates := fs, lf_stateDirty := b\<rparr>) \<and> ev_target ev = path"
    using read_file_total [of ins1 env path info st] assms by (simp add: ins1_def)
  ultimately show ?thesis
    using Inr tr by (auto simp: processFile_def Let_def ins1_def [symmetric] ok_event_def)
qed

lemma process_files_total:
  assumes "log_ready ins" "in_i64 (lf_MaxReadBytes ins)" "bounded_reads env" "\<not> lf_gatherTimedOut ins"
  shows "\<exists>per post ins'. process_files env i files evs ins = Some (evs @ per @ post, ins') \<and>
    map ev_target per = visited env i files \<and> log_ready ins' \<and> (lf_gatherTimedOut ins' \<longleftrightarrow> visited env i files \<noteq> files)"
  using assms
proof (induction files arbitrary: i evs ins)
  case (Cons f files)
  show ?case
  proof (cases "le_late env i")
    case True
    then show ?thesis using Cons.prems by (auto simp: log_ready_def intro!: exI [of _ "[]"])
  next
    case False
    obtain ev fs b where p: "processFile env f ins = Some (ev, ins\<lparr>lf_fileStates := fs, lf_stateDirty := b\<rparr>)" "ev_target ev = f"
      using processFile_total [OF Cons.prems(1-3)] by blast
    obtain per post ins' where ih: "process_files env (i + 1) files (evs @ [ev]) (ins\<lparr>lf_fileStates := fs, lf_stateDirty := b\<rparr>) =
        Some ((evs @ [ev]) @ per @ post, ins')" "map ev_target per = visited env (i + 1) files" "log_ready ins'"
      "lf_gatherTimedOut ins' \<longleftrightarrow> visited env (i + 1) files \<noteq> files"
      using Cons.IH [of "ins\<lparr>lf_fileStates := fs, lf_stateDirty := b\<rparr>" "i + 1" "evs @ [ev]"] Cons.prems by (auto simp: ready_other)
    show ?thesis
      using p ih False by (intro exI [of _ "ev # per"] exI [of _ post] exI [of _ ins']) auto
  qed
qed auto

lemma log_prepare_result:
  assumes "log_ready ins"
  shows "\<exists>pre ins1. log_prepare env ins = Some (take (nat (lf_MaxTargets ins)) (resolveTargets env ins), pre, ins1) \<and>
    log_ready ins1 \<and> lf_MaxReadBytes ins1 = lf_MaxReadBytes ins \<and> \<not> lf_gatherTimedOut ins1"
proof -
  have "resolveTargets env (ins\<lparr>lf_globExceeded := False, lf_gatherTimedOut := False\<rparr>) = resolveTargets env ins"
    by (simp add: resolveTargets_def)
  then show ?thesis using assms by (auto simp: log_prepare_def Let_def log_ready_def)
qed

text \<open>with start-up settings a run never panics when reads return at most what was asked for, and it
  reports on every file it visits exactly once, in order: those are the first \<open>max_targets\<close> resolved
  files up to the first one past the deadline. The run is marked as timed out exactly when it stopped
  early, and the instance keeps its start-up invariant.\<close>

theorem log_gather_reports_each:
  assumes "log_ready ins" "in_i64 (lf_MaxReadBytes ins)" "bounded_reads env"
  defines "files \<equiv> take (nat (lf_MaxTargets ins)) (resolveTargets env ins)"
  shows "\<exists>pre per post ins' saved. log_Gather env ins = Some (pre @ per @ post, ins', saved) \<and>
    map ev_target per = visited env 0 files \<and> log_ready ins' \<and> (lf_gatherTimedOut ins' \<longleftrightarrow> visited env 0 files \<noteq> files)"
proof -
  obtain pre ins1 where p: "log_prepare env ins = Some (files, pre, ins1)" "log_ready ins1" "lf_MaxReadBytes ins1 = lf_MaxReadBytes ins"
    "\<not> lf_gatherTimedOut ins1"
    using log_prepare_result [OF assms(1)] unfolding files_def by blast
  obtain per post ins' where "process_files env 0 files pre ins1 = Some (pre @ per @ post, ins')"
    "map ev_target per = visited env 0 files" "log_ready ins'" "lf_gatherTimedOut ins' \<longleftrightarrow> visited env 0 files \<noteq> files"
    using process_files_total [OF p(2) _ assms(3) p(4)] assms(2) p(3) by metis
  then show ?thesis
    using p(1) by (cases "lf_gatherTimedOut ins \<and> \<not> lf_gatherTimedOut ins'") (auto simp: log_Gather_def log_ready_def)
qed

section \<open>A concrete file\<close>

definition file_env :: "string \<Rightarrow> log_env" where
  "file_env c = \<lparr>le_stat = (\<lambda>_. Inr \<lparr>fi_IsDir = False, fi_Size = int (length c), fi_Inode = 7\<rparr>),
     le_head = (\<lambda>_. Some (take fingerprintSize c)), le_open = (\<lambda>_. None), le_seek = (\<lambda>_ _. None),
     le_read = (\<lambda>_ off n. Inr (take (nat n) (drop (nat off) c))), le_glob = (\<lambda>_. Inr []), le_late = (\<lambda>_. False),
     le_decode = (\<lambda>_ s. s), le_dur = (\<lambda>_. ''10s'')\<rparr>"

definition sample_log :: LogInstance where
  "sample_log = \<lparr>lf_Targets = [''f''], lf_InitialPosition = ''end'', lf_FilterInclude = [''ERR''], lf_FilterExclude = [],
     lf_MaxLines = 10, lf_MaxReadBytes = 64, lf_MaxLineLength = 80, lf_MaxTargets = 5, lf_ContextBefore = 0, lf_ContextAfter = 0,
     lf_Encoding = [], lf_StateFile = ''s'', lf_GatherTimeout = 1, lf_Severity = ''Warning'',
     lf_includeFilter = Some (FilterSingle ''ERR''), lf_excludeFilter = None,
     lf_fileStates = [(''f'', \<lparr>fs_Offset = 0, fs_Inode = 7, fs_Fingerprint = []\<rparr>)],
     lf_explicitTargets = [''f''], lf_enc = None, lf_stateDirty = False, lf_globExceeded = False, lf_gatherTimedOut = False\<rparr>"

lemma serves_file_env: "serves (file_env c) path 7 c c"
  by (simp add: serves_def file_env_def)

lemma sample_log_facts:
  "following sample_log ''f'' 7 [] 0" "log_ready sample_log" "in_i64 (lf_MaxReadBytes sample_log)"
  by (simp_all add: following_def sample_log_def log_ready_def in_i64_def hex_encode_def EventStatusValid_def status_defs)

theorem log_exactly_once_witness:
  "\<exists>evs ins' chunks. log_runs [file_env (''ok'' @ [nl]), file_env (''ok'' @ [nl] @ ''ERR'' @ [nl])] ''f'' sample_log = Some (evs, ins') \<and>
     prefix (concat chunks) (''ok'' @ [nl] @ ''ERR'' @ [nl]) \<and> length evs = 2"
proof -
  have "grows ''f'' 7 [] [(file_env (''ok'' @ [nl]), ''ok'' @ [nl], ''ok'' @ [nl]),
      (file_env (''ok'' @ [nl] @ ''ERR'' @ [nl]), ''ok'' @ [nl] @ ''ERR'' @ [nl], ''ok'' @ [nl] @ ''ERR'' @ [nl])]"
    using serves_file_env by simp
  from log_exactly_once [OF sample_log_facts this] show ?thesis by auto
qed

theorem log_catches_up_witness:
  "\<exists>evs ins' off'. log_runs (replicate 7 (file_env (''ok'' @ [nl] @ ''ERR''))) ''f''
       (sample_log\<lparr>lf_fileStates := [(''f'', \<lparr>fs_Offset = 0, fs_Inode = 7, fs_Fingerprint = hex_encode (''ok'' @ [nl] @ ''ERR'')\<rparr>)]\<rparr>) = Some (evs, ins') \<and>
     following ins' ''f'' 7 (''ok'' @ [nl] @ ''ERR'') off' \<and> nl \<notin> set (drop off' (''ok'' @ [nl] @ ''ERR''))"
  (is "\<exists>evs ins' off'. log_runs _ _ ?ins = _ \<and> _ \<and> _")
proof -
  have "following ?ins ''f'' 7 (''ok'' @ [nl] @ ''ERR'') 0" "log_ready ?ins" "in_i64 (lf_MaxReadBytes ?ins)"
    using sample_log_facts(2,3) by (simp_all add: following_def fingerprintSize_def log_ready_def)
  moreover have "list_all (\<lambda>env. serves env ''f'' 7 (''ok'' @ [nl] @ ''ERR'') (''ok'' @ [nl] @ ''ERR'')) (replicate 7 (file_env (''ok'' @ [nl] @ ''ERR'')))"
    using serves_file_env by (simp add: list_all_iff)
  ultimately show ?thesis using log_catches_up by fastforce
qed

theorem log_gather_reports_each_witness:
  "\<exists>evs ins' saved. log_Gather (file_env ''x'') sample_log = Some (evs, ins', saved) \<and> log_ready ins'"
proof -
  have "bounded_reads (file_env ''x'')" by (auto simp: bounded_reads_def file_env_def)
  from log_gather_reports_each [OF sample_log_facts(2,3) this] show ?thesis by blast
qed

section \<open>Context ranges\<close>

text \<open>The indices a list of ranges shows.\<close>

definition shown_lines :: "(int \<times> int) list \<Rightarrow> int list" where
  "shown_lines rs = concat (map (\<lambda>(a, b). [a..b]) rs)"

lemma shown_lines_Cons: "shown_lines ((a, b) # rs) = [a..b] @ shown_lines rs"
  by (simp add: shown_lines_def)

lemma set_shown_lines: "set (shown_lines rs) = (\<Union>r\<in>set rs. {fst r..snd r})"
  by (auto simp: shown_lines_def)

fun ordered_ranges :: "(int \<times> int) list \<Rightarrow> bool" where
  "ordered_ranges [] = True"
| "ordered_ranges [(a, b)] = (a \<le> b)"
| "ordered_ranges ((a, b) # (c, d) # rs) \<longleftrightarrow> a \<le> b \<and> a \<le> c \<and> ordered_ranges ((c, d) # rs)"

lemma ordered_ranges_weaken: "ordered_ranges ((c, d) # rs) \<Longrightarrow> a \<le> c \<Longrightarrow> a \<le> b \<Longrightarrow> c \<le> b + 1 \<Longrightarrow> ordered_ranges ((a, max b d) # rs)"
  by (cases rs) auto

lemma merge_ranges_lines:
  assumes "ordered_ranges ((a, b) # rs)"
  shows "set (shown_lines (merge_ranges (a, b) rs)) = set (shown_lines ((a, b) # rs)) \<and>
    sorted_wrt (<) (shown_lines (merge_ranges (a, b) rs)) \<and> (\<forall>x\<in>set (shown_lines (merge_ranges (a, b) rs)). a \<le> x)"
  using assms
proof (induction "(a, b)" rs arbitrary: a b rule: merge_ranges.induct)
  case (2 a b c d rs)
  show ?case
  proof (cases "c \<le> b + 1")
    case True
    have "ordered_ranges ((a, max b d) # rs)" using 2(3) True ordered_ranges_weaken [of c d rs a b] by simp
    moreover have mx: "(if d > b then d else b) = max b d" by simp
    have mr: "merge_ranges (a, b) ((c, d) # rs) = merge_ranges (a, max b d) rs" using True mx by simp
    moreover have "set [a..max b d] = set [a..b] \<union> set [c..d]" using 2(3) True by (auto simp: max_def)
    ultimately show ?thesis using 2(1) [OF True, unfolded mx] unfolding mr shown_lines_Cons set_append by blast
  next
    case False
    have "ordered_ranges ((c, d) # rs)" "a \<le> b" "a \<le> c" using 2(3) by auto
    then have ih: "set (shown_lines (merge_ranges (c, d) rs)) = set (shown_lines ((c, d) # rs))"
      "sorted_wrt (<) (shown_lines (merge_ranges (c, d) rs))" "\<forall>x\<in>set (shown_lines (merge_ranges (c, d) rs)). c \<le> x"
      using 2(2) [OF False] by auto
    have mr: "merge_ranges (a, b) ((c, d) # rs) = (a, b) # merge_ranges (c, d) rs" using False by simp
    have "x < y" if "x \<in> set [a..b]" "y \<in> set (shown_lines (merge_ranges (c, d) rs))" for x y
    proof -
      have "x \<le> b" "c \<le> y" using that ih(3) by simp_all
      then show ?thesis using False by linarith
    qed
    moreover have "a \<le> x" if "x \<in> set (shown_lines (merge_ranges (c, d) rs))" for x
      using that ih(3) \<open>a \<le> c\<close> by (meson order_trans)
    ultimately show ?thesis using ih(1,2) unfolding mr shown_lines_Cons by (auto simp: sorted_wrt_append)
  qed
qed (simp add: shown_lines_def)

lemma context_ranges_ordered:
  assumes "log_ready ins" "sorted_wrt (<) (i # is)" "list_all (\<lambda>j. j < n) (i # is)"
  shows "ordered_ranges (map (context_range ins n) (i # is))"
  using assms(2,3)
proof (induction "is" arbitrary: i)
  case Nil
  then show ?case using assms(1) by (auto simp: context_range_def log_ready_def Let_def)
next
  case (Cons j js)
  then have "ordered_ranges (map (context_range ins n) (j # js))" by auto
  moreover have "fst (context_range ins n i) \<le> snd (context_range ins n i)" "fst (context_range ins n i) \<le> fst (context_range ins n j)"
    using Cons.prems assms(1) by (auto simp: context_range_def log_ready_def Let_def)
  ultimately show ?case by (cases "context_range ins n i"; cases "context_range ins n j") simp
qed

text \<open>the context shown around the matched lines: every line within the configured distance of a shown
  match appears exactly once and in order, however the ranges overlap, and no other line appears.\<close>

theorem log_context_lines_once:
  assumes "log_ready ins" "sorted_wrt (<) (i # is)" "list_all (\<lambda>j. j < n) (i # is)"
  defines "shown \<equiv> shown_lines (merge_ranges (context_range ins n i) (map (context_range ins n) is))"
  shows "sorted_wrt (<) shown \<and>
    set shown = {x. 0 \<le> x \<and> x < int n \<and> (\<exists>j\<in>set (i # is). int j - lf_ContextBefore ins \<le> x \<and> x \<le> int j + lf_ContextAfter ins)}"
proof -
  obtain a b where ab: "context_range ins n i = (a, b)" by fastforce
  have "ordered_ranges ((a, b) # map (context_range ins n) is)" using context_ranges_ordered [OF assms(1-3)] ab by simp
  note m = merge_ranges_lines [OF this]
  have line: "x \<in> {fst (context_range ins n j)..snd (context_range ins n j)} \<longleftrightarrow>
      0 \<le> x \<and> x < int n \<and> int j - lf_ContextBefore ins \<le> x \<and> x \<le> int j + lf_ContextAfter ins" for x j
    by (auto simp: context_range_def Let_def)
  have "set shown = (\<Union>j\<in>set (i # is). {fst (context_range ins n j)..snd (context_range ins n j)})"
    using m ab unfolding shown_def set_shown_lines by simp
  then have "set shown = {x. 0 \<le> x \<and> x < int n \<and> (\<exists>j\<in>set (i # is). int j - lf_ContextBefore ins \<le> x \<and> x \<le> int j + lf_ContextAfter ins)}"
    using line by blast
  then show ?thesis using m ab unfolding shown_def by simp
qed

theorem log_context_lines_once_witness:
  "sorted_wrt (<) (shown_lines (merge_ranges (context_range (sample_log\<lparr>lf_ContextBefore := 2, lf_ContextAfter := 1\<rparr>) 9 3)
     (map (context_range (sample_log\<lparr>lf_ContextBefore := 2, lf_ContextAfter := 1\<rparr>) 9) [5, 8])))"
proof -
  have "log_ready (sample_log\<lparr>lf_ContextBefore := 2, lf_ContextAfter := 1\<rparr>)"
    using sample_log_facts(2) by (simp add: log_ready_def)
  from log_context_lines_once [OF this, of 3 "[5, 8]" 9] show ?thesis by simp
qed

text \<open>whatever the configuration file says, a successful start-up leaves usable settings: a compiled include
  filter, a valid severity and start position, positive limits and a context of at most ten lines.\<close>

theorem log_init_ready:
  assumes "log_Init cc su ins = Inr ins'"
  shows "log_ready ins'"
  using assms by (rule log_Init_ready)

theorem log_init_ready_witness:
  "\<exists>ins'. log_Init \<lparr>glob_Compile = sample_glob, regexp_Compile = Inl, quote_str = id\<rparr>
      \<lparr>ls_path = id, ls_load = (\<lambda>_. None)\<rparr> (sample_log\<lparr>lf_MaxLines := 0, lf_Severity := []\<rparr>) = Inr ins' \<and> log_ready ins'"
proof -
  define ins where "ins = sample_log\<lparr>lf_MaxLines := 0, lf_Severity := []\<rparr>"
  obtain ins' where "log_Init \<lparr>glob_Compile = sample_glob, regexp_Compile = Inl, quote_str = id\<rparr>
      \<lparr>ls_path = id, ls_load = (\<lambda>_. None)\<rparr> ins = Inr ins'"
    by (simp add: ins_def sample_log_def log_Init_def log_filters_def Compile_def compileGlob_def isRegexPattern_def HasMeta_def
        with_severity_def with_position_def log_defaults_def default_to_def context_error_def lookupEncoding_def trim_space_def
        trim_right_def EventStatusValid_def status_defs Let_def)
  then show ?thesis using log_init_ready unfolding ins_def by blast
qed

end
