(* ===== verification/Agent.thy ===== *)
theory Agent
  imports Events Safe_Queue Pattern_Filter
begin

text \<open>
  \<^verbatim>\<open>agent/agent.go\<close>, \<^verbatim>\<open>agent/runner.go\<close>, \<^verbatim>\<open>agent/funcs.go\<close>: the plugins an agent runs, their start, reload and stop, and one
  gathering of an instance. A runner is an object on a list of runners; the maps of the agent hold its
  index as the pointer. What the configuration directory holds and how a plugin reads its settings
  (package \<^verbatim>\<open>github.com/BurntSushi/toml\<close> and the plugin's own methods) are records of functions. Goroutines of
  instances end when their quit channel is closed; closing a channel twice panics, here \<open>None\<close>.
\<close>

section \<open>Configuration directory\<close>

record conf_dir =
  cd_dirs :: "string + string list"
  cd_files :: "string \<Rightarrow> string + string list"
  cd_mtime :: "string \<Rightarrow> string + int"
  cd_read :: "string \<Rightarrow> string + string"
  cd_join :: "string \<Rightarrow> string \<Rightarrow> string"

fun read_files :: "conf_dir \<Rightarrow> string \<Rightarrow> string list \<Rightarrow> int \<Rightarrow> string \<Rightarrow> nat \<Rightarrow> string + int \<times> string" where
  "read_files d pluginDir [] maxmt content tomlCount = Inr (maxmt, content)"
| "read_files d pluginDir (f # fs) maxmt content tomlCount =
     (if \<not> suffix ''.toml'' f then read_files d pluginDir fs maxmt content tomlCount
      else
        let fp = cd_join d pluginDir f in
        case cd_mtime d fp of
          Inl err \<Rightarrow> Inl (''failed to get mtime of '' @ fp @ '': '' @ err)
        | Inr mtime \<Rightarrow>
            let maxmt = (if mtime > maxmt then mtime else maxmt);
                content = (if tomlCount > 0 then content @ [nl, nl] else content)
            in case cd_read d fp of
                 Inl err \<Rightarrow> Inl (''failed to read '' @ fp @ '': '' @ err)
               | Inr bs \<Rightarrow> read_files d pluginDir fs maxmt (content @ bs) (tomlCount + 1))"

definition readPluginDir :: "conf_dir \<Rightarrow> string \<Rightarrow> string \<Rightarrow> string + int \<times> string" where
  "readPluginDir d configDir name =
     (let pluginDir = cd_join d configDir (''p.'' @ name) in
      case cd_files d pluginDir of
        Inl err \<Rightarrow> Inl (''failed to list files under '' @ pluginDir @ '': '' @ err)
      | Inr files \<Rightarrow> read_files d pluginDir (sort files) (- 1) [] 0)"

record PluginConfig =
  pc_Source :: string
  pc_Digest :: string
  pc_FileContent :: string

definition file_config :: "int \<Rightarrow> string \<Rightarrow> PluginConfig" where
  "file_config mtime content = \<lparr>pc_Source = ''file'', pc_Digest = show_int mtime, pc_FileContent = content\<rparr>"

text \<open>The names of the plugin directories: \<^verbatim>\<open>p.name\<close>.\<close>

fun load_dirs :: "conf_dir \<Rightarrow> string \<Rightarrow> string list \<Rightarrow> (string, PluginConfig) gomap \<Rightarrow> string + (string, PluginConfig) gomap" where
  "load_dirs d configDir [] ret = Inr ret"
| "load_dirs d configDir (dir # dirs) ret =
     (if \<not> prefix ''p.'' dir then load_dirs d configDir dirs ret
      else
        let name = drop 2 dir in
        case readPluginDir d configDir name of
          Inl err \<Rightarrow> Inl err
        | Inr (mtime, content) \<Rightarrow>
            if mtime = - 1 \<or> length content = 0 then load_dirs d configDir dirs ret
            else load_dirs d configDir dirs (m_set name (file_config mtime content) ret))"

definition loadFileConfigs :: "conf_dir \<Rightarrow> string \<Rightarrow> string + (string, PluginConfig) gomap" where
  "loadFileConfigs d configDir =
     (case cd_dirs d of
        Inl err \<Rightarrow> Inl (''failed to get config dirs: '' @ err)
      | Inr dirs \<Rightarrow> load_dirs d configDir dirs [])"

definition parseFilter :: "string \<Rightarrow> string list" where
  "parseFilter filterStr =
     remdups (map trim_space (filter (\<lambda>f. trim_space f \<noteq> []) (split_at (CHR '':'') filterStr)))"

section \<open>Plugin runners\<close>

text \<open>What a plugin's code does with its settings: whether it exists, how it reads a configuration, its
  initialisation, and how many instances it has.\<close>

record 'p plugin_code =
  pg_creators :: "string \<Rightarrow> bool"
  pg_unmarshal :: "string \<Rightarrow> string \<Rightarrow> string + 'p"
  pg_partials :: "'p \<Rightarrow> string + 'p"
  pg_init :: "'p \<Rightarrow> string option"
  pg_instances :: "'p \<Rightarrow> nat"

record 'p PluginRunner =
  pr_name :: string
  pr_object :: 'p
  pr_instances :: nat
  pr_closed :: bool

definition newPluginRunner :: "string \<Rightarrow> 'p \<Rightarrow> 'p PluginRunner" where
  "newPluginRunner name p = \<lparr>pr_name = name, pr_object = p, pr_instances = 0, pr_closed = False\<rparr>"

definition runner_start :: "'p plugin_code \<Rightarrow> 'p PluginRunner \<Rightarrow> 'p PluginRunner" where
  "runner_start code r =
     (case pg_init code (pr_object r) of
        Some _ \<Rightarrow> r
      | None \<Rightarrow> r\<lparr>pr_instances := pg_instances code (pr_object r)\<rparr>)"

definition runner_stop :: "'p PluginRunner \<Rightarrow> 'p PluginRunner option" where
  "runner_stop r = (if pr_instances r > 0 \<and> pr_closed r then None else Some (r\<lparr>pr_closed := True\<rparr>))"

section \<open>The agent\<close>

record 'p Agent =
  ag_filters :: "string list"
  ag_configs :: "(string, PluginConfig) gomap"
  ag_runners :: "(string, nat) gomap"
  ag_objects :: "'p PluginRunner list"

definition New :: "string \<Rightarrow> 'p Agent" where
  "New filterStr = \<lparr>ag_filters = parseFilter filterStr, ag_configs = [], ag_runners = [], ag_objects = []\<rparr>"

text \<open>The object a plugin's configuration gives, if the plugin is selected and its configuration is good.\<close>

definition make_plugin :: "'p plugin_code \<Rightarrow> string list \<Rightarrow> string \<Rightarrow> string \<Rightarrow> 'p option" where
  "make_plugin code filters name content =
     (if length filters > 0 \<and> name \<notin> set filters then None
      else if \<not> pg_creators code name then None
      else case pg_unmarshal code name content of
             Inl _ \<Rightarrow> None
           | Inr p \<Rightarrow> (case pg_partials code p of Inl _ \<Rightarrow> None | Inr p' \<Rightarrow> Some p'))"

definition LoadPlugin :: "'p plugin_code \<Rightarrow> string \<Rightarrow> PluginConfig \<Rightarrow> 'p Agent \<Rightarrow> 'p Agent" where
  "LoadPlugin code name pc a =
     (case make_plugin code (ag_filters a) name (pc_FileContent pc) of
        None \<Rightarrow> a
      | Some p \<Rightarrow>
          a\<lparr>ag_runners := m_set name (length (ag_objects a)) (ag_runners a),
            ag_configs := m_set name pc (ag_configs a),
            ag_objects := ag_objects a @ [runner_start code (newPluginRunner name p)]\<rparr>)"

definition DelPlugin :: "string \<Rightarrow> 'p Agent \<Rightarrow> 'p Agent option" where
  "DelPlugin name a =
     (case map_of (ag_runners a) name of
        None \<Rightarrow> Some a
      | Some i \<Rightarrow>
          (case runner_stop (ag_objects a ! i) of
             None \<Rightarrow> None
           | Some r \<Rightarrow> Some (a\<lparr>ag_runners := m_del name (ag_runners a), ag_configs := m_del name (ag_configs a),
                             ag_objects := (ag_objects a)[i := r]\<rparr>)))"

definition RunningPlugins :: "'p Agent \<Rightarrow> string list" where
  "RunningPlugins a = m_keys (ag_runners a)"

definition GetPluginConfig :: "'p Agent \<Rightarrow> string \<Rightarrow> PluginConfig option" where
  "GetPluginConfig a name = map_of (ag_configs a) name"

fun load_all :: "'p plugin_code \<Rightarrow> (string \<times> PluginConfig) list \<Rightarrow> 'p Agent \<Rightarrow> 'p Agent" where
  "load_all code [] a = a"
| "load_all code ((name, pc) # pcs) a = load_all code pcs (LoadPlugin code name pc a)"

text \<open>The part of \<^verbatim>\<open>Start\<close> that loads the plugins; it ends early when a directory cannot be read.\<close>

definition ag_Start :: "'p plugin_code \<Rightarrow> conf_dir \<Rightarrow> string \<Rightarrow> 'p Agent \<Rightarrow> 'p Agent" where
  "ag_Start code d configDir a =
     (case loadFileConfigs d configDir of Inl _ \<Rightarrow> a | Inr pcs \<Rightarrow> load_all code pcs a)"

fun HandleChangedPlugin :: "'p plugin_code \<Rightarrow> conf_dir \<Rightarrow> string \<Rightarrow> string list \<Rightarrow> 'p Agent \<Rightarrow> 'p Agent option" where
  "HandleChangedPlugin code d configDir [] a = Some a"
| "HandleChangedPlugin code d configDir (name # names) a =
     (case GetPluginConfig a name of
        None \<Rightarrow> None
      | Some pc \<Rightarrow>
          if pc_Source pc \<noteq> ''file'' then HandleChangedPlugin code d configDir names a
          else
            case readPluginDir d configDir name of
              Inl _ \<Rightarrow> HandleChangedPlugin code d configDir names a
            | Inr (mtime, content) \<Rightarrow>
                if mtime = - 1 \<or> length content = 0 then
                  (case DelPlugin name a of
                     None \<Rightarrow> None
                   | Some a' \<Rightarrow> HandleChangedPlugin code d configDir names a')
                else if pc_Digest pc = show_int mtime then HandleChangedPlugin code d configDir names a
                else
                  (case DelPlugin name a of
                     None \<Rightarrow> None
                   | Some a' \<Rightarrow> HandleChangedPlugin code d configDir names (LoadPlugin code name (file_config mtime content) a')))"

fun new_dirs :: "'p plugin_code \<Rightarrow> conf_dir \<Rightarrow> string \<Rightarrow> string list \<Rightarrow> string list \<Rightarrow> 'p Agent \<Rightarrow> 'p Agent" where
  "new_dirs code d configDir names [] a = a"
| "new_dirs code d configDir names (dir # dirs) a =
     (if \<not> prefix ''p.'' dir then new_dirs code d configDir names dirs a
      else
        let name = drop 2 dir in
        if Contains name names then new_dirs code d configDir names dirs a
        else
          case readPluginDir d configDir name of
            Inl _ \<Rightarrow> new_dirs code d configDir names dirs a
          | Inr (mtime, content) \<Rightarrow>
              if mtime = - 1 \<or> length content = 0 then new_dirs code d configDir names dirs a
              else new_dirs code d configDir names dirs (LoadPlugin code name (file_config mtime content) a))"

definition HandleNewPlugin :: "'p plugin_code \<Rightarrow> conf_dir \<Rightarrow> string \<Rightarrow> string list \<Rightarrow> 'p Agent \<Rightarrow> 'p Agent" where
  "HandleNewPlugin code d configDir names a =
     (case cd_dirs d of Inl _ \<Rightarrow> a | Inr dirs \<Rightarrow> new_dirs code d configDir names dirs a)"

definition Reload :: "'p plugin_code \<Rightarrow> conf_dir \<Rightarrow> string \<Rightarrow> 'p Agent \<Rightarrow> 'p Agent option" where
  "Reload code d configDir a =
     (let names = RunningPlugins a in
      map_option (HandleNewPlugin code d configDir names) (HandleChangedPlugin code d configDir names a))"

fun stop_all :: "string list \<Rightarrow> 'p Agent \<Rightarrow> 'p Agent option" where
  "stop_all [] a = Some a"
| "stop_all (name # names) a =
     (case DelPlugin name a of None \<Rightarrow> None | Some a' \<Rightarrow> stop_all names a')"

text \<open>The plugin part of \<^verbatim>\<open>Stop\<close>: the loop over the map stops and deletes each runner, as \<^verbatim>\<open>DelPlugin\<close> does.\<close>

definition ag_Stop :: "'p Agent \<Rightarrow> 'p Agent option" where
  "ag_Stop a = stop_all (m_keys (ag_runners a)) a"

section \<open>Gathering\<close>

text \<open>The interval of an instance: its own, the plugin's, or the global one; and the pause after a run that
  took \<open>elapsed\<close>.\<close>

definition choose_interval :: "duration \<Rightarrow> duration \<Rightarrow> duration \<Rightarrow> duration" where
  "choose_interval ins plugin global = (if ins \<noteq> 0 then ins else if plugin \<noteq> 0 then plugin else global)"

definition next_pause :: "duration \<Rightarrow> duration \<Rightarrow> duration" where
  "next_pause interval elapsed = (let n = interval - elapsed in if n < 0 then 0 else n)"

text \<open>When the runs of an instance start, given how long each takes.\<close>

fun run_starts :: "duration \<Rightarrow> int \<Rightarrow> duration list \<Rightarrow> int list" where
  "run_starts interval t [] = [t]"
| "run_starts interval t (d # ds) = t # run_starts interval (t + d + next_pause interval d) ds"

text \<open>What \<^verbatim>\<open>Gather\<close> pushes before it returns or panics, and the queue handed to the engine (\<open>None\<close>: nothing is
  handed over).\<close>

definition panic_event :: "string \<Rightarrow> string \<Rightarrow> Event" where
  "panic_event pluginName rc =
     SetDescription (''plugin panic: '' @ rc) (SetEventStatus EventStatusCritical
       (BuildEvent [[(''check'', pluginName @ ''::panic''), (''target'', pluginName)]]))"

definition gatherInstancePlugin :: "string \<Rightarrow> Event list \<times> string option \<Rightarrow> Event Queue option" where
  "gatherInstancePlugin pluginName result =
     (let q = foldl (\<lambda>q e. PushFront e q) NewQueue (fst result);
          q = (case snd result of None \<Rightarrow> q | Some rc \<Rightarrow> PushFront (panic_event pluginName rc) q)
      in if Len q > 0 then Some q else None)"

section \<open>Runners are neither lost nor stopped twice\<close>

definition agent_inv :: "'p Agent \<Rightarrow> bool" where
  "agent_inv a \<longleftrightarrow> m_ok (ag_runners a) \<and> m_ok (ag_configs a) \<and>
     (\<forall>name. map_of (ag_runners a) name = None \<longleftrightarrow> map_of (ag_configs a) name = None) \<and>
     (\<forall>name name' i. map_of (ag_runners a) name = Some i \<longrightarrow> map_of (ag_runners a) name' = Some i \<longrightarrow> name = name') \<and>
     (\<forall>name i. map_of (ag_runners a) name = Some i \<longrightarrow> i < length (ag_objects a)) \<and>
     (\<forall>i < length (ag_objects a). \<not> pr_closed (ag_objects a ! i) \<longleftrightarrow> (\<exists>name. map_of (ag_runners a) name = Some i))"

text \<open>What an observer sees of a plugin: its configuration and its runner.\<close>

definition view :: "'p Agent \<Rightarrow> string \<Rightarrow> (PluginConfig \<times> 'p PluginRunner) option" where
  "view a name =
     (case (map_of (ag_runners a) name, map_of (ag_configs a) name) of
        (Some i, Some pc) \<Rightarrow> Some (pc, ag_objects a ! i)
      | _ \<Rightarrow> None)"

definition fresh_plugin :: "'p plugin_code \<Rightarrow> string list \<Rightarrow> string \<Rightarrow> PluginConfig \<Rightarrow> (PluginConfig \<times> 'p PluginRunner) option" where
  "fresh_plugin code filters name pc =
     (case make_plugin code filters name (pc_FileContent pc) of
        None \<Rightarrow> None
      | Some p \<Rightarrow> Some (pc, runner_start code (newPluginRunner name p)))"

lemma runner_start_open [simp]: "pr_closed (runner_start code (newPluginRunner name p)) = False"
  by (simp add: runner_start_def newPluginRunner_def split: option.split)

lemma agent_inv_view_None:
  assumes "agent_inv a"
  shows "view a name = None \<longleftrightarrow> map_of (ag_runners a) name = None" "map_of (ag_runners a) name = None \<longleftrightarrow> map_of (ag_configs a) name = None"
proof -
  show eq: "map_of (ag_runners a) name = None \<longleftrightarrow> map_of (ag_configs a) name = None"
    using assms by (simp add: agent_inv_def)
  then show "view a name = None \<longleftrightarrow> map_of (ag_runners a) name = None"
    by (auto simp: view_def split: option.splits)
qed

lemma LoadPlugin_inv:
  assumes "agent_inv a" "map_of (ag_runners a) name = None"
  shows "agent_inv (LoadPlugin code name pc a)"
    and "view (LoadPlugin code name pc a) = (view a)(name := fresh_plugin code (ag_filters a) name pc)"
    and "ag_filters (LoadPlugin code name pc a) = ag_filters a"
proof -
  have none: "view a name = None" using agent_inv_view_None [OF assms(1)] assms(2) by blast
  have b: "i < length (ag_objects a)" if "map_of (ag_runners a) n = Some i" for n i
    using assms(1) that by (auto simp: agent_inv_def)
  show "agent_inv (LoadPlugin code name pc a)"
  proof (cases "make_plugin code (ag_filters a) name (pc_FileContent pc)")
    case (Some p)
    define k where "k = length (ag_objects a)"
    have notin: "map_of (ag_runners a) n \<noteq> Some k" for n using b unfolding k_def by (metis less_irrefl)
    have "(\<exists>n. n \<noteq> name \<and> map_of (ag_runners a) n = Some i) \<longleftrightarrow> (\<exists>n. map_of (ag_runners a) n = Some i)" for i
      using assms(2) by (metis option.distinct(1))
    then show ?thesis
      using assms Some notin b
      by (auto simp: LoadPlugin_def agent_inv_def k_def [symmetric] nth_append less_Suc_eq) metis
  qed (use assms in \<open>simp add: LoadPlugin_def\<close>)
  show "view (LoadPlugin code name pc a) = (view a)(name := fresh_plugin code (ag_filters a) name pc)"
    using none b by (auto simp: LoadPlugin_def view_def fresh_plugin_def nth_append split: option.splits intro!: ext)
  show "ag_filters (LoadPlugin code name pc a) = ag_filters a" by (simp add: LoadPlugin_def split: option.split)
qed

lemma DelPlugin_inv:
  assumes "agent_inv a"
  shows "\<exists>a'. DelPlugin name a = Some a' \<and> agent_inv a' \<and> view a' = (view a)(name := None) \<and> ag_filters a' = ag_filters a \<and>
    map_of (ag_runners a') name = None \<and> length (ag_objects a') = length (ag_objects a)"
proof (cases "map_of (ag_runners a) name")
  case None
  then have "view a name = None" using agent_inv_view_None [OF assms] by blast
  then show ?thesis using None assms by (auto simp: DelPlugin_def)
next
  case (Some i)
  have i: "i < length (ag_objects a)" "\<not> pr_closed (ag_objects a ! i)" using assms Some by (auto simp: agent_inv_def)
  define a' where "a' = a\<lparr>ag_runners := m_del name (ag_runners a), ag_configs := m_del name (ag_configs a),
      ag_objects := (ag_objects a)[i := (ag_objects a ! i)\<lparr>pr_closed := True\<rparr>]\<rparr>"
  have d: "DelPlugin name a = Some a'" using Some i by (simp add: DelPlugin_def runner_stop_def a'_def)
  have other: "map_of (ag_runners a) n \<noteq> Some i" if "n \<noteq> name" for n
    using assms Some that by (auto simp: agent_inv_def)
  have "agent_inv a'"
    using assms other i Some by (auto simp: agent_inv_def a'_def nth_list_update) (metis option.inject)
  moreover have "view a' = (view a)(name := None)"
    using other by (intro ext) (auto simp: view_def a'_def split: option.splits, metis nth_list_update_neq)
  ultimately show ?thesis using d by (auto simp: a'_def)
qed

section \<open>Reloading\<close>

definition listed :: "conf_dir \<Rightarrow> string \<Rightarrow> bool" where
  "listed d name \<longleftrightarrow> (case cd_dirs d of Inr dirs \<Rightarrow> ''p.'' @ name \<in> set dirs | Inl _ \<Rightarrow> False)"

definition distinct_dirs :: "conf_dir \<Rightarrow> bool" where
  "distinct_dirs d \<longleftrightarrow> (case cd_dirs d of Inr dirs \<Rightarrow> distinct dirs | Inl _ \<Rightarrow> True)"

text \<open>What a reload makes of one plugin, independently of all others.\<close>

definition reloaded :: "'p plugin_code \<Rightarrow> conf_dir \<Rightarrow> string \<Rightarrow> string list \<Rightarrow> string \<Rightarrow>
    (PluginConfig \<times> 'p PluginRunner) option \<Rightarrow> (PluginConfig \<times> 'p PluginRunner) option" where
  "reloaded code d configDir filters name old =
     (case old of
        Some (pc, r) \<Rightarrow>
          if pc_Source pc \<noteq> ''file'' then old
          else (case readPluginDir d configDir name of
                  Inl _ \<Rightarrow> old
                | Inr (mtime, content) \<Rightarrow>
                    if mtime = - 1 \<or> content = [] then None
                    else if pc_Digest pc = show_int mtime then old
                    else fresh_plugin code filters name (file_config mtime content))
      | None \<Rightarrow>
          if listed d name
          then (case readPluginDir d configDir name of
                  Inl _ \<Rightarrow> None
                | Inr (mtime, content) \<Rightarrow>
                    if mtime = - 1 \<or> content = [] then None
                    else fresh_plugin code filters name (file_config mtime content))
          else None)"

lemma view_Some:
  assumes "agent_inv a" "GetPluginConfig a name = Some pc"
  shows "\<exists>r. view a name = Some (pc, r)"
  using assms agent_inv_view_None(2) [OF assms(1), of name] by (auto simp: GetPluginConfig_def view_def split: option.split)

lemma changed_spec:
  assumes "agent_inv a" "distinct names" "set names \<subseteq> {n. view a n \<noteq> None}"
  shows "\<exists>a'. HandleChangedPlugin code d configDir names a = Some a' \<and> agent_inv a' \<and> ag_filters a' = ag_filters a \<and>
    (\<forall>n. view a' n = (if n \<in> set names then reloaded code d configDir (ag_filters a) n (view a n) else view a n))"
  using assms
proof (induction names arbitrary: a)
  case (Cons name names)
  have vn: "view a name \<noteq> None" using Cons.prems(3) by simp
  then obtain pc where pc: "GetPluginConfig a name = Some pc"
    by (auto simp: view_def GetPluginConfig_def split: option.splits)
  obtain r where v: "view a name = Some (pc, r)" using view_Some [OF Cons.prems(1) pc] by blast
  have step: "\<exists>a'. HandleChangedPlugin code d configDir names a1 = Some a' \<and> agent_inv a' \<and> ag_filters a' = ag_filters a \<and>
      (\<forall>n. view a' n = (if n \<in> set (name # names) then reloaded code d configDir (ag_filters a) n (view a n) else view a n))"
    if a1: "agent_inv a1" "ag_filters a1 = ag_filters a" "view a1 = (view a)(name := reloaded code d configDir (ag_filters a) name (view a name))" for a1
  proof -
    have "set names \<subseteq> {n. view a1 n \<noteq> None}" using Cons.prems(2,3) a1(3) by auto
    from Cons.IH [OF a1(1) _ this] show ?thesis using Cons.prems(2) a1 by (auto split: if_splits)
  qed
  obtain ad where del: "DelPlugin name a = Some ad" "agent_inv ad" "view ad = (view a)(name := None)" "ag_filters ad = ag_filters a"
    "map_of (ag_runners ad) name = None"
    using DelPlugin_inv [OF Cons.prems(1)] by blast
  have load: "agent_inv (LoadPlugin code name pc' ad)" "ag_filters (LoadPlugin code name pc' ad) = ag_filters a"
    "view (LoadPlugin code name pc' ad) = (view a)(name := fresh_plugin code (ag_filters a) name pc')" for pc'
    using LoadPlugin_inv [OF del(2,5), of code pc'] del(3,4) by auto
  show ?case
  proof (cases "pc_Source pc \<noteq> ''file''")
    case True
    then show ?thesis using pc v step [of a] Cons.prems(1) by (simp add: reloaded_def fun_upd_idem)
  next
    case False
    show ?thesis
    proof (cases "readPluginDir d configDir name")
      case (Inl e)
      then show ?thesis using False pc v step [of a] Cons.prems(1) by (simp add: reloaded_def fun_upd_idem)
    next
      case (Inr res)
      obtain mtime content where res: "res = (mtime, content)" by (cases res)
      consider "mtime = - 1 \<or> content = []" | "\<not> (mtime = - 1 \<or> content = [])" "pc_Digest pc = show_int mtime"
        | "\<not> (mtime = - 1 \<or> content = [])" "pc_Digest pc \<noteq> show_int mtime" by blast
      then show ?thesis
      proof cases
        case 1
        then show ?thesis using False pc v Inr res del step [of ad] by (auto simp: reloaded_def)
      next
        case 2
        then show ?thesis using False pc v Inr res step [of a] Cons.prems(1) by (simp add: reloaded_def fun_upd_idem)
      next
        case 3
        then show ?thesis
          using False pc v Inr res del(1) step [of "LoadPlugin code name (file_config mtime content) ad"] load
          by (simp add: reloaded_def)
      qed
    qed
  qed
qed simp

lemma new_dirs_spec:
  assumes "agent_inv a" "distinct dirs" "\<forall>n. ''p.'' @ n \<in> set dirs \<and> n \<notin> set names \<longrightarrow> view a n = None"
  shows "agent_inv (new_dirs code d configDir names dirs a) \<and>
    (\<forall>n. view (new_dirs code d configDir names dirs a) n =
       (if n \<notin> set names \<and> ''p.'' @ n \<in> set dirs
        then (case readPluginDir d configDir n of
                Inl _ \<Rightarrow> None
              | Inr (mtime, content) \<Rightarrow>
                  if mtime = - 1 \<or> content = [] then None
                  else fresh_plugin code (ag_filters a) n (file_config mtime content))
        else view a n))"
  using assms
proof (induction dirs arbitrary: a)
  case (Cons dir dirs)
  have ih0: "\<forall>n. ''p.'' @ n \<in> set dirs \<and> n \<notin> set names \<longrightarrow> view a n = None" using Cons.prems(3) by simp
  note IH = Cons.IH [OF Cons.prems(1) _ ih0]
  show ?case
  proof (cases "prefix ''p.'' dir \<and> drop 2 dir \<notin> set names")
    case False
    have "n \<in> set names" if "dir = ''p.'' @ n" for n using False that by auto
    then show ?thesis using IH Cons.prems(2) False by (auto simp: Let_def)
  next
    case True
    then obtain name where dir: "dir = ''p.'' @ name" "name \<notin> set names" by (auto simp: prefix_def)
    have vn: "view a name = None" using Cons.prems(3) dir by simp
    have eqn: "''p.'' @ n = dir \<longleftrightarrow> n = name" for n using dir by auto
    show ?thesis
    proof (cases "\<exists>mtime content. readPluginDir d configDir name = Inr (mtime, content) \<and> \<not> (mtime = - 1 \<or> content = [])")
      case False
      then have "new_dirs code d configDir names (dir # dirs) a = new_dirs code d configDir names dirs a"
        using dir by (auto simp: Let_def split: sum.split)
      then show ?thesis
        using IH Cons.prems(2) dir eqn vn False by (auto split: sum.split if_splits)
    next
      case True
      then obtain mtime content where rd: "readPluginDir d configDir name = Inr (mtime, content)" "\<not> (mtime = - 1 \<or> content = [])" by blast
      define a1 where "a1 = LoadPlugin code name (file_config mtime content) a"
      have none: "map_of (ag_runners a) name = None" using agent_inv_view_None [OF Cons.prems(1)] vn by blast
      have a1: "agent_inv a1" "view a1 = (view a)(name := fresh_plugin code (ag_filters a) name (file_config mtime content))" "ag_filters a1 = ag_filters a"
        using LoadPlugin_inv [OF Cons.prems(1) none] by (simp_all add: a1_def)
      have "new_dirs code d configDir names (dir # dirs) a = new_dirs code d configDir names dirs a1"
        using dir rd by (simp add: Let_def a1_def)
      moreover have "\<forall>n. ''p.'' @ n \<in> set dirs \<and> n \<notin> set names \<longrightarrow> view a1 n = None"
        using Cons.prems(2,3) a1(2) dir by auto
      ultimately show ?thesis
        using Cons.IH [OF a1(1), unfolded a1(3)] a1(2) Cons.prems(2) dir rd by auto
    qed
  qed
qed simp

lemma reload_spec:
  assumes "agent_inv a" "distinct_dirs d"
  shows "\<exists>a'. Reload code d configDir a = Some a' \<and> agent_inv a' \<and>
    (\<forall>n. view a' n = reloaded code d configDir (ag_filters a) n (view a n)) \<and> ag_filters a' = ag_filters a"
proof -
  define names where "names = RunningPlugins a"
  have "set names = dom (map_of (ag_runners a))" by (simp add: names_def RunningPlugins_def set_m_keys)
  then have names: "set names = {n. view a n \<noteq> None}"
    by (simp add: dom_def agent_inv_view_None(1) [OF assms(1)])
  have dist: "distinct names" using assms(1) by (simp add: names_def RunningPlugins_def agent_inv_def m_ok_def m_keys_def)
  obtain a1 where a1: "HandleChangedPlugin code d configDir names a = Some a1" "agent_inv a1" "ag_filters a1 = ag_filters a"
    "\<forall>n. view a1 n = (if n \<in> set names then reloaded code d configDir (ag_filters a) n (view a n) else view a n)"
    using changed_spec [OF assms(1) dist] names by blast
  have filters: "ag_filters (new_dirs code d configDir ns dirs b) = ag_filters b" for ns dirs and b :: "'a Agent"
    by (induction dirs arbitrary: b) (auto simp: Let_def LoadPlugin_def split: sum.split option.split)
  have rl: "Reload code d configDir a = Some (HandleNewPlugin code d configDir names a1)"
    using a1(1) by (simp add: Reload_def names_def [symmetric])
  show ?thesis
  proof (cases "cd_dirs d")
    case (Inl e)
    then have "reloaded code d configDir (ag_filters a) n None = None" for n by (simp add: reloaded_def listed_def)
    then have "view a1 n = reloaded code d configDir (ag_filters a) n (view a n)" for n
      using a1(4) names by (cases "view a n") auto
    then show ?thesis using rl a1(2,3) Inl by (simp add: HandleNewPlugin_def)
  next
    case (Inr dirs)
    have "distinct dirs" using assms(2) Inr by (simp add: distinct_dirs_def)
    moreover have "view a1 n = None" if "n \<notin> set names" for n
    proof -
      have "view a n = None" using that names by (cases "view a n") auto
      then show ?thesis using that a1(4) by simp
    qed
    ultimately have nd: "agent_inv (new_dirs code d configDir names dirs a1)"
      "\<forall>n. view (new_dirs code d configDir names dirs a1) n =
       (if n \<notin> set names \<and> ''p.'' @ n \<in> set dirs
        then (case readPluginDir d configDir n of
                Inl _ \<Rightarrow> None
              | Inr (mtime, content) \<Rightarrow>
                  if mtime = - 1 \<or> content = [] then None
                  else fresh_plugin code (ag_filters a) n (file_config mtime content))
        else view a1 n)"
      using new_dirs_spec [OF a1(2), of dirs names code d configDir] unfolding a1(3) by simp_all
    have "view (new_dirs code d configDir names dirs a1) n = reloaded code d configDir (ag_filters a) n (view a n)" for n
    proof (cases "n \<in> set names")
      case True
      then show ?thesis using nd(2) a1(4) by simp
    next
      case False
      then have "view a n = None" using names by blast
      then show ?thesis using nd(2) a1(4) False Inr by (auto simp: reloaded_def listed_def)
    qed
    then show ?thesis using rl nd(1) Inr filters a1(3) by (auto simp: HandleNewPlugin_def)
  qed
qed

section \<open>Life cycle\<close>

lemma load_all_inv:
  assumes "agent_inv a" "distinct (map fst pcs)" "\<forall>n \<in> fst ` set pcs. map_of (ag_runners a) n = None"
  shows "agent_inv (load_all code pcs a)"
  using assms
proof (induction code pcs a rule: load_all.induct)
  case (2 code name pc pcs a)
  have none: "map_of (ag_runners a) name = None" using 2(4) by simp
  have "map_of (ag_runners (LoadPlugin code name pc a)) n = None" if "n \<in> fst ` set pcs" for n
    using 2(3,4) that by (auto simp: LoadPlugin_def image_iff split: option.split)
  then show ?case using 2(1) LoadPlugin_inv(1) [OF 2(2) none] 2(3) by simp
qed simp

lemma load_dirs_ok: "load_dirs d configDir dirs ret = Inr pcs \<Longrightarrow> m_ok ret \<Longrightarrow> m_ok pcs"
  by (induction d configDir dirs ret rule: load_dirs.induct) (auto simp: Let_def split: if_splits sum.splits prod.splits)

lemma New_inv: "agent_inv (New filterStr)"
  by (simp add: New_def agent_inv_def)

lemma Start_inv: "agent_inv (ag_Start code d configDir (New filterStr))"
proof (cases "loadFileConfigs d configDir")
  case (Inr pcs)
  then have "m_ok pcs" using load_dirs_ok by (auto simp: loadFileConfigs_def split: sum.splits)
  then show ?thesis
    using Inr load_all_inv [OF New_inv, of pcs filterStr code] by (simp add: ag_Start_def m_ok_def New_def)
qed (simp add: ag_Start_def New_inv)

fun reloads :: "'p plugin_code \<Rightarrow> string \<Rightarrow> conf_dir list \<Rightarrow> 'p Agent \<Rightarrow> 'p Agent option" where
  "reloads code configDir [] a = Some a"
| "reloads code configDir (d # ds) a =
     (case Reload code d configDir a of None \<Rightarrow> None | Some a' \<Rightarrow> reloads code configDir ds a')"

lemma reloads_inv:
  assumes "agent_inv a" "list_all distinct_dirs ds"
  shows "\<exists>a'. reloads code configDir ds a = Some a' \<and> agent_inv a'"
  using assms
proof (induction ds arbitrary: a)
  case (Cons d ds)
  obtain a1 where "Reload code d configDir a = Some a1" "agent_inv a1" using reload_spec [of a d code configDir] Cons.prems by auto
  then show ?case using Cons.IH Cons.prems by simp
qed simp

lemma stop_all_inv:
  assumes "agent_inv a"
  shows "\<exists>a'. stop_all names a = Some a' \<and> agent_inv a' \<and> (\<forall>n. view a' n = (if n \<in> set names then None else view a n))"
  using assms
proof (induction names arbitrary: a)
  case (Cons name names)
  obtain a1 where a1: "DelPlugin name a = Some a1" "agent_inv a1" "view a1 = (view a)(name := None)"
    using DelPlugin_inv [OF Cons.prems] by blast
  then show ?case using Cons.IH [OF a1(2)] by auto
qed simp

section \<open>Properties\<close>

text \<open>a reload treats every plugin on its own: a running plugin whose directory cannot be read or has the
  same time stamp keeps its runner, one whose directory is empty is stopped, one that changed is
  stopped and started anew, or stays away when its new configuration is bad; a plugin that was not
  running is started if its directory is there. Nothing panics.\<close>

theorem reload_per_plugin:
  assumes "agent_inv a" "distinct_dirs d"
  shows "\<exists>a'. Reload code d configDir a = Some a' \<and> agent_inv a' \<and>
    (\<forall>n. view a' n = reloaded code d configDir (ag_filters a) n (view a n))"
  using reload_spec [OF assms] by blast

text \<open>reloading twice is reloading once: when nothing has changed on disk, a second reload keeps every runner,
  restarts none and starts none.\<close>

theorem reload_idempotent:
  assumes "agent_inv a" "distinct_dirs d" "Reload code d configDir a = Some a'"
  shows "\<exists>a''. Reload code d configDir a' = Some a'' \<and> (\<forall>n. view a'' n = view a' n)"
proof -
  obtain a1 where a1: "Reload code d configDir a = Some a1" "agent_inv a1" "ag_filters a1 = ag_filters a"
    "\<forall>n. view a1 n = reloaded code d configDir (ag_filters a) n (view a n)"
    using reload_spec [OF assms(1,2)] by blast
  obtain a2 where a2: "Reload code d configDir a' = Some a2" "\<forall>n. view a2 n = reloaded code d configDir (ag_filters a) n (view a' n)"
    using reload_spec [OF a1(2) assms(2), of code configDir] a1(1,3) assms(3) by auto
  have idem: "reloaded code d configDir fs n (reloaded code d configDir fs n v) = reloaded code d configDir fs n v" for fs n v
    by (auto simp: reloaded_def fresh_plugin_def file_config_def split: option.splits sum.splits if_splits prod.splits)
  then show ?thesis using a1 a2 assms(3) by auto
qed

text \<open>C24: over a whole life, from start through any number of reloads to stop, no channel is closed twice, no
  runner is lost, and after the stop every runner ever started has been stopped.\<close>

theorem agent_stops_all:
  assumes "list_all distinct_dirs ds"
  shows "\<exists>a a'. reloads code configDir ds (ag_Start code d configDir (New filterStr)) = Some a \<and> agent_inv a \<and>
    ag_Stop a = Some a' \<and> list_all pr_closed (ag_objects a') \<and> (\<forall>n. view a' n = None)"
proof -
  obtain a where a: "reloads code configDir ds (ag_Start code d configDir (New filterStr)) = Some a" "agent_inv a"
    using reloads_inv [OF Start_inv assms] by blast
  obtain a' where a': "ag_Stop a = Some a'" "agent_inv a'" "\<forall>n. view a' n = (if n \<in> set (m_keys (ag_runners a)) then None else view a n)"
    using stop_all_inv [OF a(2)] by (auto simp: ag_Stop_def)
  have none: "view a' n = None" for n
    using a'(3) agent_inv_view_None(1) [OF a(2), of n] by (auto simp: set_m_keys)
  then have "map_of (ag_runners a') n = None" for n using agent_inv_view_None(1) [OF a'(2)] by blast
  then have "list_all pr_closed (ag_objects a')" using a'(2) by (auto simp: agent_inv_def list_all_length)
  then show ?thesis using a a' none by blast
qed

definition sample_code :: "string plugin_code" where
  "sample_code = \<lparr>pg_creators = (\<lambda>n. n = ''cpu'' \<or> n = ''mem''), pg_unmarshal = (\<lambda>_ c. Inr c), pg_partials = Inr,
     pg_init = (\<lambda>_. None), pg_instances = (\<lambda>_. 1)\<rparr>"

definition sample_dir :: "string list \<Rightarrow> int \<Rightarrow> conf_dir" where
  "sample_dir names mtime = \<lparr>cd_dirs = Inr (map (\<lambda>n. ''p.'' @ n) names), cd_files = (\<lambda>_. Inr [''a.toml'']),
     cd_mtime = (\<lambda>_. Inr mtime), cd_read = (\<lambda>_. Inr ''x''), cd_join = (\<lambda>a b. a @ ''/'' @ b)\<rparr>"

lemma sample_dir_distinct: "distinct_dirs (sample_dir [''cpu'', ''mem''] t)"
  by (simp add: distinct_dirs_def sample_dir_def)

theorem reload_per_plugin_witness:
  "\<exists>a'. Reload sample_code (sample_dir [''cpu'', ''mem''] 7) ''conf.d'' (New []) = Some a' \<and> view a' ''cpu'' \<noteq> None"
proof -
  obtain a' where "Reload sample_code (sample_dir [''cpu'', ''mem''] 7) ''conf.d'' (New []) = Some a'"
    "view a' ''cpu'' = reloaded sample_code (sample_dir [''cpu'', ''mem''] 7) ''conf.d'' (ag_filters (New [] :: string Agent)) ''cpu'' (view (New []) ''cpu'')"
    using reload_per_plugin [OF New_inv [of "[]"] sample_dir_distinct [of 7], of sample_code "''conf.d''"] by blast
  then show ?thesis
    by (simp add: reloaded_def listed_def sample_dir_def view_def New_def readPluginDir_def fresh_plugin_def make_plugin_def
        sample_code_def parseFilter_def file_config_def trim_space_def trim_right_def suffix_def)
qed

theorem reload_idempotent_witness:
  "\<exists>a' a''. Reload sample_code (sample_dir [''cpu'', ''mem''] 7) ''conf.d'' (New []) = Some a' \<and>
     Reload sample_code (sample_dir [''cpu'', ''mem''] 7) ''conf.d'' a' = Some a'' \<and> (\<forall>n. view a'' n = view a' n)"
proof -
  obtain a' where "Reload sample_code (sample_dir [''cpu'', ''mem''] 7) ''conf.d'' (New []) = Some a'"
    using reload_spec [OF New_inv [of "[]"] sample_dir_distinct [of 7], of sample_code "''conf.d''"] by blast
  from reload_idempotent [OF New_inv sample_dir_distinct this] this show ?thesis by blast
qed

theorem agent_stops_all_witness:
  "\<exists>a a'. reloads sample_code ''conf.d'' [sample_dir [''cpu'', ''mem''] 8] (ag_Start sample_code (sample_dir [''cpu'', ''mem''] 7) ''conf.d'' (New [])) = Some a \<and>
     ag_Stop a = Some a' \<and> list_all pr_closed (ag_objects a')"
  using agent_stops_all [of "[sample_dir [''cpu'', ''mem''] 8]" sample_code "''conf.d''" "sample_dir [''cpu'', ''mem''] 7" "[]"] sample_dir_distinct
  by auto

text \<open>whatever a plugin pushed before it panicked still reaches the engine, in order, followed by one critical
  event that names the panic; a run that pushed nothing and did not panic hands nothing over.\<close>

theorem gather_survives_panic:
  "(case gatherInstancePlugin pluginName (evs, rc) of None \<Rightarrow> [] | Some q \<Rightarrow> fst (PopBackAll q)) =
     evs @ (case rc of None \<Rightarrow> [] | Some r \<Rightarrow> [panic_event pluginName r]) \<and>
   (gatherInstancePlugin pluginName (evs, rc) = None \<longleftrightarrow> evs = [] \<and> rc = None)"
proof -
  define q where "q = foldl (\<lambda>q e. PushFront e q) NewQueue evs"
  have q: "contents q = evs" by (simp add: q_def safe_queue.abs_pushes)
  define q' where "q' = (case rc of None \<Rightarrow> q | Some r \<Rightarrow> PushFront (panic_event pluginName r) q)"
  have q': "contents q' = evs @ (case rc of None \<Rightarrow> [] | Some r \<Rightarrow> [panic_event pluginName r])"
    using q by (auto simp: q'_def split: option.split)
  have "gatherInstancePlugin pluginName (evs, rc) = (if Len q' > 0 then Some q' else None)"
    by (simp add: gatherInstancePlugin_def q_def [symmetric] q'_def [symmetric])
  moreover have "fst (PopBackAll q') = contents q'" by (simp add: PopBackAll_contents)
  ultimately show ?thesis using q' length_contents [of q'] by (auto split: option.splits)
qed

text \<open>the runs of an instance start at least one interval apart and never overlap; a run that takes longer than
  the interval delays the next one by exactly what it took.\<close>

lemma run_starts_steps:
  assumes "list_all (\<lambda>d. 0 \<le> d) ds" "i < length ds"
  shows "run_starts interval t ds ! Suc i = run_starts interval t ds ! i + max interval (ds ! i)"
  using assms
proof (induction interval t ds arbitrary: i rule: run_starts.induct)
  case (2 interval t d ds)
  have "run_starts interval u ds ! 0 = u" for u by (cases ds) auto
  then show ?case using 2 by (cases i) (auto simp: next_pause_def Let_def)
qed simp

end
