(* ===== verification/Inspect.thy ===== *)
theory Inspect
  imports Agent Registry "HOL-Library.Multiset"
begin

text \<open>
  \<^verbatim>\<open>agent/inspect.go\<close>: from the command line to the request of an inspection: which plugin and target are
  inspected, and which configured instance holds the credentials of the target. An instance is seen
  through the two fields the code looks up by reflection.
\<close>

section \<open>Instances and their targets\<close>

record inspect_instance =
  ii_Targets :: "string list option"
  ii_Target :: "string option"

definition instanceContainsTarget :: "inspect_instance \<Rightarrow> string \<Rightarrow> bool" where
  "instanceContainsTarget inst target \<longleftrightarrow>
     (case ii_Targets inst of Some ts \<Rightarrow> target \<in> set ts | None \<Rightarrow> False) \<or> ii_Target inst = Some target"

text \<open>The first position after the front that holds the target is exchanged with the front.\<close>

fun swap_at :: "nat \<Rightarrow> nat \<Rightarrow> string list \<Rightarrow> string \<Rightarrow> string list" where
  "swap_at 0 i ts target = ts"
| "swap_at (Suc n) i ts target =
     (if ts ! i = target then ts[0 := target, i := ts ! 0] else swap_at n (i + 1) ts target)"

definition swapTargetToFront :: "inspect_instance \<Rightarrow> string \<Rightarrow> inspect_instance" where
  "swapTargetToFront inst target =
     (case ii_Targets inst of
        None \<Rightarrow> inst
      | Some ts \<Rightarrow> inst\<lparr>ii_Targets := Some (swap_at (length ts - 1) 1 ts target)\<rparr>)"

definition describeTargets :: "inspect_instance \<Rightarrow> string list" where
  "describeTargets inst =
     (case ii_Targets inst of
        Some ts \<Rightarrow> ts
      | None \<Rightarrow> (case ii_Target inst of Some t \<Rightarrow> if t \<noteq> [] then [t] else [''(unknown)''] | None \<Rightarrow> [''(unknown)'']))"

section \<open>Configuration\<close>

fun inspect_files :: "conf_dir \<Rightarrow> string \<Rightarrow> string list \<Rightarrow> string \<Rightarrow> nat \<Rightarrow> string + string \<times> nat" where
  "inspect_files d pluginDir [] content tomlCount = Inr (content, tomlCount)"
| "inspect_files d pluginDir (f # fs) content tomlCount =
     (if \<not> suffix ''.toml'' f then inspect_files d pluginDir fs content tomlCount
      else
        let content = (if tomlCount > 0 then content @ [nl, nl] else content) in
        case cd_read d (cd_join d pluginDir f) of
          Inl err \<Rightarrow> Inl (''read '' @ f @ '': '' @ err)
        | Inr bs \<Rightarrow> inspect_files d pluginDir fs (content @ bs) (tomlCount + 1))"

definition readInspectPluginConfig :: "conf_dir \<Rightarrow> string \<Rightarrow> string \<Rightarrow> string + string" where
  "readInspectPluginConfig d configDir pluginName =
     (let pluginDir = cd_join d configDir (''p.'' @ pluginName) in
      case cd_files d pluginDir of
        Inl err \<Rightarrow> Inl (''read config dir '' @ pluginDir @ '': '' @ err)
      | Inr files \<Rightarrow>
          (case inspect_files d pluginDir (sort files) [] 0 of
             Inl err \<Rightarrow> Inl err
           | Inr (content, tomlCount) \<Rightarrow>
               if tomlCount = 0 then Inl (''no .toml config files found in '' @ pluginDir) else Inr content))"

text \<open>What a plugin makes of its settings: its instances, and which of them fail to initialise.\<close>

record inspect_code =
  ic_creators :: "string list"
  ic_unmarshal :: "string \<Rightarrow> string \<Rightarrow> string + inspect_instance list"
  ic_partials :: "string \<Rightarrow> inspect_instance list \<Rightarrow> string + inspect_instance list"
  ic_init :: "inspect_instance \<Rightarrow> string + inspect_instance"

fun find_instance :: "inspect_code \<Rightarrow> string \<Rightarrow> inspect_instance list \<Rightarrow> inspect_instance option" where
  "find_instance code target [] = None"
| "find_instance code target (inst # insts) =
     (case ic_init code inst of
        Inl _ \<Rightarrow> find_instance code target insts
      | Inr inst' \<Rightarrow>
          if instanceContainsTarget inst' target then Some (swapTargetToFront inst' target)
          else find_instance code target insts)"

text \<open>Initialisation changes an instance even when no instance is found; the error lists their targets.\<close>

definition after_init :: "inspect_code \<Rightarrow> inspect_instance \<Rightarrow> inspect_instance" where
  "after_init code inst = (case ic_init code inst of Inl _ \<Rightarrow> inst | Inr inst' \<Rightarrow> inst')"

definition resolveInstance :: "inspect_code \<Rightarrow> (string \<Rightarrow> string) \<Rightarrow> conf_dir \<Rightarrow> string \<Rightarrow> string \<Rightarrow> string \<Rightarrow> string + inspect_instance" where
  "resolveInstance code quote d configDir pluginName target =
     (case readInspectPluginConfig d configDir pluginName of
        Inl err \<Rightarrow> Inl (''read plugin config: '' @ err)
      | Inr content \<Rightarrow>
          (case ic_unmarshal code pluginName content of
             Inl err \<Rightarrow> Inl (''parse plugin config: '' @ err)
           | Inr obj \<Rightarrow>
               (case ic_partials code pluginName obj of
                  Inl err \<Rightarrow> Inl (''apply partials: '' @ err)
                | Inr instances \<Rightarrow>
                    if length instances = 0 then Inl (''plugin '' @ quote pluginName @ '' has no instances configured'')
                    else case find_instance code target instances of
                           Some inst \<Rightarrow> Inr inst
                         | None \<Rightarrow>
                             Inl (''target '' @ quote target @ '' not found in plugin '' @ quote pluginName @ '' config.'' @ [nl] @ ''Available targets:'' @ [nl] @ ''  ''
                               @ join ([nl] @ ''  '') (concat (map (describeTargets \<circ> after_init code) instances))))))"

definition availablePluginNames :: "inspect_code \<Rightarrow> string" where
  "availablePluginNames code = join '', '' (sort (ic_creators code))"

text \<open>The request an inspection starts with: plugin, target, and the instance of a remote target.\<close>

definition RunInspect :: "inspect_code \<Rightarrow> (string \<Rightarrow> string) \<Rightarrow> conf_dir \<Rightarrow> string \<Rightarrow> bool \<Rightarrow> string option \<Rightarrow> ToolRegistry \<Rightarrow>
    string \<Rightarrow> string \<Rightarrow> string + string \<times> string \<times> inspect_instance option" where
  "RunInspect code quote d configDir aiEnabled aiInvalid registry pluginName target =
     (if \<not> aiEnabled then Inl ''AI diagnose is not enabled. Set [ai] enabled=true in config''
      else case aiInvalid of
        Some err \<Rightarrow> Inl (''invalid AI config: '' @ err)
      | None \<Rightarrow>
          if ToolCount registry = 0 then Inl ''no diagnostic tools registered''
          else if pluginName = ''system'' \<or> pluginName = ''local'' then Inr (''system'', ''localhost'', None)
          else if pluginName \<notin> set (ic_creators code)
          then Inl (''unknown plugin: '' @ quote pluginName @ [nl] @ ''Available: '' @ availablePluginNames code)
          else if HasAccessorFactory pluginName registry then
            (if target = [] then Inl (''remote plugin '' @ quote pluginName @ '' requires a target address (e.g. 10.0.0.1:6379)'')
             else case resolveInstance code quote d configDir pluginName target of
                    Inl err \<Rightarrow> Inl err
                  | Inr inst \<Rightarrow> Inr (pluginName, target, Some inst))
          else Inr (pluginName, if target = [] then ''localhost'' else target, None))"

section \<open>Facts\<close>

lemma swap_at_spec:
  assumes "ts \<noteq> []" "0 < i" "i + n = length ts"
  shows "mset (swap_at n i ts target) = mset ts \<and>
    (target = ts ! 0 \<or> target \<in> set (drop i ts) \<longrightarrow> swap_at n i ts target ! 0 = target)"
  using assms
proof (induction n i ts target rule: swap_at.induct)
  case (2 n i ts target)
  have i: "i < length ts" using 2(4) by simp
  show ?case
  proof (cases "ts ! i = target")
    case True
    then show ?thesis using 2(2,3) i mset_swap [of i ts 0] by (auto simp: nth_list_update)
  next
    case False
    have "target \<in> set (drop i ts) \<Longrightarrow> target \<in> set (drop (Suc i) ts)"
      using False i by (metis Cons_nth_drop_Suc set_ConsD)
    then show ?thesis using False 2 by simp
  qed
qed simp

lemma swapTargetToFront_spec:
  assumes "ii_Targets inst = Some ts"
  shows "\<exists>ts'. ii_Targets (swapTargetToFront inst target) = Some ts' \<and> mset ts' = mset ts \<and> (target \<in> set ts \<longrightarrow> ts' ! 0 = target)"
proof (cases ts)
  case (Cons t rest)
  then show ?thesis
    using assms swap_at_spec [of ts 1 "length ts - 1" target] by (auto simp: swapTargetToFront_def)
qed (use assms in \<open>simp add: swapTargetToFront_def\<close>)

lemma swapTargetToFront_Target [simp]: "ii_Target (swapTargetToFront inst target) = ii_Target inst"
  by (simp add: swapTargetToFront_def split: option.split)

section \<open>Properties\<close>

text \<open>the instance an inspection of a remote target uses is the first configured instance that initialises and
  names the target; its targets are the configured ones with the target moved to the front. When there is
  none, the inspection fails.\<close>

theorem inspect_uses_matching_instance:
  "case find_instance code target insts of
     Some inst \<Rightarrow> (\<exists>pre raw inst0 post. insts = pre @ raw # post \<and> ic_init code raw = Inr inst0 \<and>
        instanceContainsTarget inst0 target \<and> ii_Target inst = ii_Target inst0 \<and>
        list_all (\<lambda>x. \<forall>y. ic_init code x \<noteq> Inr y \<or> \<not> instanceContainsTarget y target) pre \<and>
        (case ii_Targets inst0 of
           None \<Rightarrow> ii_Targets inst = None
         | Some ts \<Rightarrow> (\<exists>ts'. ii_Targets inst = Some ts' \<and> mset ts' = mset ts \<and> (target \<notin> set ts \<or> ts' ! 0 = target))))
   | None \<Rightarrow> list_all (\<lambda>x. \<forall>y. ic_init code x \<noteq> Inr y \<or> \<not> instanceContainsTarget y target) insts"
proof (induction insts)
  case (Cons raw insts)
  show ?case
  proof (cases "\<exists>inst0. ic_init code raw = Inr inst0 \<and> instanceContainsTarget inst0 target")
    case True
    then obtain inst0 where i: "ic_init code raw = Inr inst0" "instanceContainsTarget inst0 target" by blast
    have "case ii_Targets inst0 of
           None \<Rightarrow> ii_Targets (swapTargetToFront inst0 target) = None
         | Some ts \<Rightarrow> (\<exists>ts'. ii_Targets (swapTargetToFront inst0 target) = Some ts' \<and> mset ts' = mset ts \<and> (target \<notin> set ts \<or> ts' ! 0 = target))"
      using swapTargetToFront_spec [of inst0 _ target] by (auto simp: swapTargetToFront_def split: option.split)
    then show ?thesis
      using i by (auto intro!: exI [of _ "[]"])
  next
    case False
    then have f: "find_instance code target (raw # insts) = find_instance code target insts"
      "\<forall>y. ic_init code raw \<noteq> Inr y \<or> \<not> instanceContainsTarget y target"
      by (auto split: sum.split)
    show ?thesis
    proof (cases "find_instance code target insts")
      case None
      then show ?thesis using Cons f by simp
    next
      case (Some inst)
      then obtain pre raw' inst0 post where p: "insts = pre @ raw' # post" "ic_init code raw' = Inr inst0"
        "instanceContainsTarget inst0 target" "ii_Target inst = ii_Target inst0"
        "list_all (\<lambda>x. \<forall>y. ic_init code x \<noteq> Inr y \<or> \<not> instanceContainsTarget y target) pre"
        "case ii_Targets inst0 of
           None \<Rightarrow> ii_Targets inst = None
         | Some ts \<Rightarrow> (\<exists>ts'. ii_Targets inst = Some ts' \<and> mset ts' = mset ts \<and> (target \<notin> set ts \<or> ts' ! 0 = target))"
        using Cons by auto
      then have "raw # insts = (raw # pre) @ raw' # post" "list_all (\<lambda>x. \<forall>y. ic_init code x \<noteq> Inr y \<or> \<not> instanceContainsTarget y target) (raw # pre)"
        using f(2) by simp_all
      then show ?thesis
        unfolding f(1) Some option.case using p(2-4,6)
        by (intro exI [of _ "raw # pre"] exI [of _ raw'] exI [of _ inst0] exI [of _ post]) simp
    qed
  qed
qed simp

theorem inspect_uses_matching_instance_witness:
  "\<exists>inst. find_instance \<lparr>ic_creators = [''redis''], ic_unmarshal = (\<lambda>_ _. Inl []), ic_partials = (\<lambda>_. Inr), ic_init = Inr\<rparr> ''b''
      [\<lparr>ii_Targets = Some [''c''], ii_Target = None\<rparr>, \<lparr>ii_Targets = Some [''a'', ''b''], ii_Target = None\<rparr>] = Some inst \<and>
    (\<exists>ts. ii_Targets inst = Some ts \<and> mset ts = mset [''a'', ''b''] \<and> ts ! 0 = ''b'')"
  using inspect_uses_matching_instance [of "\<lparr>ic_creators = [''redis''], ic_unmarshal = (\<lambda>_ _. Inl []), ic_partials = (\<lambda>_. Inr), ic_init = Inr\<rparr>" "''b''"
      "[\<lparr>ii_Targets = Some [''c''], ii_Target = None\<rparr>, \<lparr>ii_Targets = Some [''a'', ''b''], ii_Target = None\<rparr>]"]
  by (auto simp: instanceContainsTarget_def swapTargetToFront_def)

end
