(* ===== verification/MCP.thy ===== *)
theory MCP
  imports Config Registry Utf8
begin

text \<open>
  \<^verbatim>\<open>digcore/mcp\<close> and the server settings of \<^verbatim>\<open>digcore/config/mcp_config.go\<close>: external tool servers. A client talks
  to a child process over its standard streams, one JSON object per line; decoding JSON is a record of
  functions. The goroutine that reads a response outlives a call that times out, so the client is a
  step relation over calls, readers and the lines the process has written. The manager turns the tools a
  server offers into tools of the registry.
\<close>

section \<open>Settings\<close>

record MCPServerConfig =
  ms_Name :: string
  ms_Command :: string
  ms_Args :: "string list"
  ms_Env :: "(string, string) gomap"
  ms_Identity :: string
  ms_ToolsAllow :: "string list"

record MCPConfig =
  mc_Enabled :: bool
  mc_DefaultIdentity :: string
  mc_Servers :: "MCPServerConfig list"

definition IsToolAllowed :: "MCPServerConfig \<Rightarrow> string \<Rightarrow> bool" where
  "IsToolAllowed s toolName =
     (if length (ms_ToolsAllow s) = 0 then True else list_ex (\<lambda>allowed. allowed = toolName) (ms_ToolsAllow s))"

definition autoIdentity :: "(string, string) gomap \<Rightarrow> string" where
  "autoIdentity builtins =
     (let parts = (if m_str builtins ''HOSTNAME'' \<noteq> [] then [''hostname='' @ m_str builtins ''HOSTNAME''] else [])
                @ (if m_str builtins ''IP'' \<noteq> [] then [''ip='' @ m_str builtins ''IP''] else [])
      in if length parts = 0 then [] else join '', '' parts)"

definition ResolvedIdentity :: "getenv \<Rightarrow> MCPServerConfig \<Rightarrow> string \<Rightarrow> (string, string) gomap \<Rightarrow> string" where
  "ResolvedIdentity env s defaultIdentity builtins =
     (let raw = (if ms_Identity s = [] then defaultIdentity else ms_Identity s)
      in if raw = [] then autoIdentity builtins else ExpandWithBuiltins env builtins raw)"

definition HostBuiltins :: "string \<Rightarrow> string \<Rightarrow> (string, string) gomap" where
  "HostBuiltins hostname ip = m_set ''IP'' ip (HostBuiltinsWithoutIP hostname)"

section \<open>Tools of a server\<close>

record mcp_tool =
  mt_Name :: string
  mt_Description :: string
  mt_InputSchema :: string

record schema =
  sc_Properties :: "(string, string \<times> string) gomap"
  sc_Required :: "string list"

text \<open>\<^verbatim>\<open>ExtractParams\<close>: the parameters come in the iteration order of the decoded map.\<close>

definition ExtractParams :: "(string \<Rightarrow> schema option) \<Rightarrow> mcp_tool \<Rightarrow> ToolParam list" where
  "ExtractParams decode t =
     (if length (mt_InputSchema t) = 0 then []
      else case decode (mt_InputSchema t) of
             None \<Rightarrow> []
           | Some sc \<Rightarrow>
               map (\<lambda>(name, ty, desc). \<lparr>tp_Name = name, tp_Type = ty, tp_Description = desc, tp_Required = (name \<in> set (sc_Required sc))\<rparr>)
                 (sc_Properties sc))"

record ToolContent =
  tt_Type :: string
  tt_Text :: string

definition extractTexts :: "ToolContent list \<Rightarrow> string" where
  "extractTexts contents = join [nl] (map tt_Text (filter (\<lambda>c. tt_Type c = ''text'' \<and> tt_Text c \<noteq> []) contents))"

text \<open>What a client's call of a tool gives: an error, or contents and whether they are an error.\<close>

type_synonym tool_call = "string \<Rightarrow> (string, string) gomap option \<Rightarrow> string + ToolContent list \<times> bool"

definition CallTool :: "string \<Rightarrow> tool_call \<Rightarrow> string \<Rightarrow> (string, string) gomap option \<Rightarrow> string + string" where
  "CallTool client call toolName args =
     (case call toolName args of
        Inl err \<Rightarrow> Inl (''mcp '' @ client @ '': tools/call '' @ toolName @ '': '' @ err)
      | Inr (contents, isError) \<Rightarrow>
          let texts = extractTexts contents in
          if isError then
            (if texts \<noteq> [] then Inl (''mcp tool '' @ toolName @ '' error: '' @ texts)
             else Inl (''mcp tool '' @ toolName @ '' returned an error''))
          else Inr texts)"

definition bridge_tool :: "(string \<Rightarrow> schema option) \<Rightarrow> MCPServerConfig \<Rightarrow> tool_call \<Rightarrow> mcp_tool \<Rightarrow> DiagnoseTool" where
  "bridge_tool decode srv call t =
     \<lparr>dt_Name = ms_Name srv @ ''_'' @ mt_Name t, dt_Description = mt_Description t, dt_Parameters = ExtractParams decode t,
      dt_Scope = ToolScopeLocal, dt_SupportedOS = [],
      dt_Execute = Some (CallTool (ms_Name srv) call (mt_Name t)), dt_RemoteExecute = None\<rparr>"

definition registerTools :: "(string \<Rightarrow> string) \<Rightarrow> (string \<Rightarrow> schema option) \<Rightarrow> MCPServerConfig \<Rightarrow> mcp_tool list \<Rightarrow> tool_call \<Rightarrow>
    string \<Rightarrow> ToolRegistry \<Rightarrow> nat \<times> ToolRegistry" where
  "registerTools quote decode srv tools call identity r =
     (let catName = ''mcp:'' @ ms_Name srv;
          toRegister = map (bridge_tool decode srv call) (filter (\<lambda>t. IsToolAllowed srv (mt_Name t)) tools)
      in if length toRegister = 0 then (0, r)
         else
           let desc = ''External data via MCP server '' @ quote (ms_Name srv)
                      @ (if identity \<noteq> [] then '' (this host: '' @ identity @ '')'' else []);
               r = RegisterCategory catName catName desc ToolScopeLocal r
           in (length toRegister, foldl (\<lambda>r dt. reg_Register catName dt r) r toRegister))"

section \<open>The manager\<close>

record Manager =
  mg_clients :: "string list"
  mg_configs :: "(string, MCPServerConfig) gomap"
  mg_builtins :: "(string, string) gomap"

text \<open>What starting a server gives: a spawn error, a failed handshake, a failed tool list, or the tools and how
  they are called.\<close>

datatype server_start =
    SpawnFailed string
  | InitializeFailed string
  | ListFailed string
  | ServerTools "mcp_tool list" tool_call

record mcp_env =
  me_start :: "MCPServerConfig \<Rightarrow> server_start"
  me_quote :: "string \<Rightarrow> string"
  me_decode :: "string \<Rightarrow> schema option"
  me_getenv :: getenv

definition startServer :: "mcp_env \<Rightarrow> MCPServerConfig \<Rightarrow> string \<Rightarrow> Manager \<Rightarrow> ToolRegistry \<Rightarrow> string option \<times> Manager \<times> ToolRegistry" where
  "startServer env srv defaultIdentity m r =
     (case me_start env srv of
        SpawnFailed err \<Rightarrow> (Some err, m, r)
      | InitializeFailed err \<Rightarrow> (Some (''initialize: '' @ err), m, r)
      | ListFailed err \<Rightarrow> (Some (''tools/list: '' @ err), m, r)
      | ServerTools tools call \<Rightarrow>
          let m = m\<lparr>mg_clients := (if ms_Name srv \<in> set (mg_clients m) then mg_clients m else mg_clients m @ [ms_Name srv]),
                   mg_configs := m_set (ms_Name srv) srv (mg_configs m)\<rparr>;
              identity = ResolvedIdentity (me_getenv env) srv defaultIdentity (mg_builtins m)
          in (None, m, snd (registerTools (me_quote env) (me_decode env) srv tools call identity r)))"

fun start_servers :: "mcp_env \<Rightarrow> string \<Rightarrow> MCPServerConfig list \<Rightarrow> Manager \<Rightarrow> ToolRegistry \<Rightarrow> Manager \<times> ToolRegistry" where
  "start_servers env defaultIdentity [] m r = (m, r)"
| "start_servers env defaultIdentity (srv # srvs) m r =
     (if ms_Name srv = [] \<or> ms_Command srv = [] then start_servers env defaultIdentity srvs m r
      else case startServer env srv defaultIdentity m r of
             (_, m', r') \<Rightarrow> start_servers env defaultIdentity srvs m' r')"

definition StartAll :: "mcp_env \<Rightarrow> string \<Rightarrow> string \<Rightarrow> MCPConfig \<Rightarrow> Manager \<Rightarrow> ToolRegistry \<Rightarrow> Manager \<times> ToolRegistry" where
  "StartAll env hostname ip cfg m r =
     start_servers env (mc_DefaultIdentity cfg) (mc_Servers cfg) (m\<lparr>mg_builtins := HostBuiltins hostname ip\<rparr>) r"

definition ServerNames :: "Manager \<Rightarrow> string list" where
  "ServerNames m = sort (mg_clients m)"

definition ServerCount :: "Manager \<Rightarrow> nat" where
  "ServerCount m = length (mg_clients m)"

definition IdentitySummary :: "getenv \<Rightarrow> string \<Rightarrow> Manager \<Rightarrow> string" where
  "IdentitySummary env defaultIdentity m =
     concat (map (\<lambda>n. case map_of (mg_configs m) n of
                        None \<Rightarrow> []
                      | Some cfg \<Rightarrow>
                          let ident = ResolvedIdentity env cfg defaultIdentity (mg_builtins m) in
                          if ident \<noteq> [] then ''- '' @ n @ '': '' @ ident @ [nl] else [])
       (sort (m_keys (mg_configs m))))"

definition mcp_Close :: "Manager \<Rightarrow> Manager" where
  "mcp_Close m = m\<lparr>mg_clients := []\<rparr>"

section \<open>Responses\<close>

record jsonrpcResponse =
  rr_ID :: int
  rr_Result :: string
  rr_Error :: "string option"

text \<open>Whether a line decodes and has an id, and the decoded response.\<close>

record mcp_json =
  mj_peek :: "string \<Rightarrow> bool option"
  mj_resp :: "string \<Rightarrow> string + jsonrpcResponse"

definition trimLine :: "string \<Rightarrow> string" where
  "trimLine b = trim_right (\<lambda>c. c = nl \<or> c = CHR 0x0D) b"

text \<open>The lines the reading loop passes over: blank, not an object, or a notification.\<close>

definition skips :: "mcp_json \<Rightarrow> string \<Rightarrow> bool" where
  "skips j raw \<longleftrightarrow>
     (let line = trimLine raw in
      line = [] \<or> hd line \<noteq> CHR ''{'' \<or> mj_peek j line = Some False)"

definition truncRaw :: "string \<Rightarrow> string" where
  "truncRaw b = (let rs = runes b in if length rs \<le> 200 then b else string_of_runes (take 200 rs) @ ''...'')"

datatype call_outcome = CallResult string | CallFailed string | CallTimeout

definition recv_result :: "mcp_json \<Rightarrow> int \<Rightarrow> string \<Rightarrow> call_outcome" where
  "recv_result j expectedID line =
     (case mj_resp j line of
        Inl err \<Rightarrow> CallFailed (''unmarshal response: '' @ err @ '' (raw: '' @ truncRaw line @ '')'')
      | Inr resp \<Rightarrow>
          if rr_ID resp \<noteq> expectedID
          then CallFailed (''response id mismatch: got '' @ show_int (rr_ID resp) @ '', want '' @ show_int expectedID)
          else case rr_Error resp of
                 Some err \<Rightarrow> CallFailed err
               | None \<Rightarrow> CallResult (rr_Result resp))"

section \<open>The client\<close>

text \<open>\<open>cl_readers\<close> are the calls whose reading goroutine still runs; \<open>cl_waiting\<close> is the call that holds the lock.\<close>

record mcp_Client =
  cl_nextID :: int
  cl_pipe :: "string list"
  cl_readers :: "int list"
  cl_waiting :: "int option"
  cl_done :: "(int \<times> call_outcome) list"

definition new_client :: mcp_Client where
  "new_client = \<lparr>cl_nextID = 0, cl_pipe = [], cl_readers = [], cl_waiting = None, cl_done = []\<rparr>"

definition begin_call :: "mcp_Client \<Rightarrow> mcp_Client" where
  "begin_call c = c\<lparr>cl_nextID := cl_nextID c + 1, cl_readers := cl_readers c @ [cl_nextID c + 1], cl_waiting := Some (cl_nextID c + 1)\<rparr>"

definition take_line :: "mcp_json \<Rightarrow> int \<Rightarrow> string \<Rightarrow> mcp_Client \<Rightarrow> mcp_Client" where
  "take_line j r raw c =
     (if skips j raw then c\<lparr>cl_pipe := tl (cl_pipe c)\<rparr>
      else
        let c = c\<lparr>cl_pipe := tl (cl_pipe c), cl_readers := remove1 r (cl_readers c)\<rparr> in
        if cl_waiting c = Some r
        then c\<lparr>cl_waiting := None, cl_done := cl_done c @ [(r, recv_result j r (trimLine raw))]\<rparr>
        else c)"

definition time_out :: "int \<Rightarrow> mcp_Client \<Rightarrow> mcp_Client" where
  "time_out r c = c\<lparr>cl_waiting := None, cl_done := cl_done c @ [(r, CallTimeout)]\<rparr>"

text \<open>The steps of a client and its process. A well-behaved process answers the call it was sent, once, and may
  write other lines that the client passes over. The first flag of a step allows timeouts.\<close>

definition answers :: "mcp_json \<Rightarrow> int \<Rightarrow> string \<Rightarrow> bool" where
  "answers j r raw \<longleftrightarrow> \<not> skips j raw \<and> (\<exists>resp. mj_resp j (trimLine raw) = Inr resp \<and> rr_ID resp = r)"

inductive client_step :: "bool \<Rightarrow> mcp_json \<Rightarrow> mcp_Client \<Rightarrow> mcp_Client \<Rightarrow> bool" for timeouts j where
  call: "cl_waiting c = None \<Longrightarrow> client_step timeouts j c (begin_call c)"
| noise: "skips j raw \<Longrightarrow> client_step timeouts j c (c\<lparr>cl_pipe := cl_pipe c @ [raw]\<rparr>)"
| answer: "answers j r raw \<Longrightarrow> 0 < r \<Longrightarrow> r \<le> cl_nextID c \<Longrightarrow> r \<notin> fst ` set (cl_done c) \<or> timeouts \<Longrightarrow>
    list_all (\<lambda>l. \<not> answers j r l) (cl_pipe c) \<Longrightarrow> client_step timeouts j c (c\<lparr>cl_pipe := cl_pipe c @ [raw]\<rparr>)"
| read: "cl_pipe c = raw # rest \<Longrightarrow> r \<in> set (cl_readers c) \<Longrightarrow> client_step timeouts j c (take_line j r raw c)"
| timeout: "timeouts \<Longrightarrow> cl_waiting c = Some r \<Longrightarrow> client_step timeouts j c (time_out r c)"

inductive client_reach :: "bool \<Rightarrow> mcp_json \<Rightarrow> mcp_Client \<Rightarrow> bool" for timeouts j where
  start: "client_reach timeouts j new_client"
| step: "client_reach timeouts j c \<Longrightarrow> client_step timeouts j c c' \<Longrightarrow> client_reach timeouts j c'"

section \<open>Calls without timeouts\<close>

definition serial_inv :: "mcp_json \<Rightarrow> mcp_Client \<Rightarrow> bool" where
  "serial_inv j c \<longleftrightarrow>
     cl_readers c = (case cl_waiting c of None \<Rightarrow> [] | Some r \<Rightarrow> [r]) \<and>
     (\<forall>r. cl_waiting c = Some r \<longrightarrow> r = cl_nextID c) \<and>
     (\<forall>i. 0 < i \<and> i \<le> cl_nextID c \<and> cl_waiting c \<noteq> Some i \<longrightarrow> i \<in> fst ` set (cl_done c)) \<and>
     (\<forall>l \<in> set (cl_pipe c). skips j l \<or> (\<exists>r. cl_waiting c = Some r \<and> answers j r l)) \<and>
     length (filter (\<lambda>l. \<not> skips j l) (cl_pipe c)) \<le> 1 \<and>
     (\<forall>p \<in> set (cl_done c). \<exists>raw. answers j (fst p) raw \<and> snd p = recv_result j (fst p) (trimLine raw))"

lemma serial_step:
  assumes "client_step False j c c'" "serial_inv j c"
  shows "serial_inv j c'"
  using assms
proof cases
  case call
  then show ?thesis using assms(2) by (auto simp: serial_inv_def begin_call_def)
next
  case (noise raw)
  then show ?thesis using assms(2) by (auto simp: serial_inv_def)
next
  case (answer r raw)
  then have w: "cl_waiting c = Some r" using assms(2) by (auto simp: serial_inv_def)
  have "\<not> skips j raw" using answer(2) by (simp add: answers_def)
  moreover have "filter (\<lambda>l. \<not> skips j l) (cl_pipe c) = []"
    using assms(2) w answer(6) by (fastforce simp: serial_inv_def filter_empty_conv list_all_iff)
  ultimately show ?thesis using answer w assms(2) by (auto simp: serial_inv_def)
next
  case (read raw rest r)
  have w: "cl_waiting c = Some r" using read(3) assms(2) by (auto simp: serial_inv_def split: option.splits)
  show ?thesis
  proof (cases "skips j raw")
    case True
    then show ?thesis using read assms(2) by (auto simp: serial_inv_def take_line_def)
  next
    case False
    then have ans: "answers j r raw" using assms(2) read(2) w by (auto simp: serial_inv_def)
    have "filter (\<lambda>l. \<not> skips j l) rest = []" using assms(2) read(2) False by (simp add: serial_inv_def)
    then have "\<forall>l \<in> set rest. skips j l" by (simp add: filter_empty_conv)
    then show ?thesis
      using read False w ans assms(2) by (auto simp: serial_inv_def take_line_def Let_def filter_empty_conv)
  qed
qed simp

lemma serial_reach: "client_reach False j c \<Longrightarrow> serial_inv j c"
proof (induction rule: client_reach.induct)
  case start
  then show ?case by (simp add: serial_inv_def new_client_def)
qed (rule serial_step)

section \<open>Registration\<close>

lemma reg_Get_Register:
  "reg_Get name (reg_Register cat t r) = (if reg_Get (dt_Name t) r = None \<and> name = dt_Name t then Some t else reg_Get name r)"
  by (auto simp: reg_Get_def reg_Register_def Let_def)

lemma reg_Get_RegisterCategory [simp]: "reg_Get name (RegisterCategory n p d s r) = reg_Get name r"
  by (simp add: reg_Get_def RegisterCategory_def Let_def)

lemma reg_Get_foldl:
  "reg_Get name (foldl (\<lambda>r dt. reg_Register cat dt r) r ts) =
     (case reg_Get name r of Some t \<Rightarrow> Some t | None \<Rightarrow> find (\<lambda>t. dt_Name t = name) ts)"
  by (induction ts arbitrary: r) (auto simp: reg_Get_Register split: option.splits)

lemma registerTools_get:
  "reg_Get name (snd (registerTools quote decode srv tools call identity r)) =
     (case reg_Get name r of
        Some t \<Rightarrow> Some t
      | None \<Rightarrow> find (\<lambda>t. dt_Name t = name) (map (bridge_tool decode srv call) (filter (\<lambda>t. IsToolAllowed srv (mt_Name t)) tools)))"
  by (auto simp: registerTools_def Let_def reg_Get_foldl split: option.split)

section \<open>Properties\<close>


definition sample_json :: mcp_json where
  "sample_json = \<lparr>mj_peek = (\<lambda>_. Some True), mj_resp = (\<lambda>l. Inr \<lparr>rr_ID = int (length l), rr_Result = l, rr_Error = None\<rparr>)\<rparr>"

lemma sample_answers: "answers sample_json 1 ''{''" "answers sample_json 2 ''{{''" "\<not> skips sample_json ''{''" "\<not> answers sample_json 2 ''{''"
  by (simp_all add: answers_def skips_def sample_json_def trimLine_def trim_right_def nl_def)


text \<open>a timeout breaks the pairing for good: the reader of the abandoned call keeps running. Its late answer can be
  given to the next call, which fails although the server answered it, and it can itself take the
  answer of the next call, which then has nothing left to read.\<close>

theorem mcp_timeout_steals_answer:
  "(\<exists>c. client_reach True sample_json c \<and> (2, CallFailed ''response id mismatch: got 1, want 2'') \<in> set (cl_done c) \<and>
        cl_pipe c = [''{{'']) \<and>
   (\<exists>c. client_reach True sample_json c \<and> cl_waiting c = Some 2 \<and> cl_readers c = [2] \<and> cl_pipe c = [] \<and>
        cl_nextID c = 2 \<and> fst ` set (cl_done c) = {1})"
proof -
  define c1 where "c1 = begin_call new_client"
  define c2 where "c2 = time_out 1 c1"
  define c3 where "c3 = begin_call c2"
  define c4 where "c4 = c3\<lparr>cl_pipe := [''{'']\<rparr>"
  define c5 where "c5 = c4\<lparr>cl_pipe := [''{'', ''{{'']\<rparr>"
  define d4 where "d4 = c3\<lparr>cl_pipe := [''{{'']\<rparr>"
  note defs = c1_def c2_def c3_def c4_def c5_def d4_def begin_call_def time_out_def new_client_def
  have "client_reach True sample_json c1"
    unfolding c1_def by (rule client_reach.step [OF client_reach.start], rule client_step.call) (simp add: new_client_def)
  moreover have "client_step True sample_json c1 c2" unfolding c2_def by (rule client_step.timeout) (simp_all add: defs)
  moreover have "client_step True sample_json c2 c3" unfolding c3_def by (rule client_step.call) (simp add: defs)
  ultimately have r3: "client_reach True sample_json c3" by (meson client_reach.step)
  have "client_step True sample_json c3 c4"
    using client_step.answer [of sample_json 1 "''{''" c3 True] sample_answers by (simp add: defs)
  moreover have "client_step True sample_json c4 c5"
    using client_step.answer [of sample_json 2 "''{{''" c4 True] sample_answers by (simp add: defs)
  moreover have "client_step True sample_json c5 (take_line sample_json 2 ''{'' c5)"
    by (rule client_step.read) (simp_all add: defs)
  ultimately have first: "client_reach True sample_json (take_line sample_json 2 ''{'' c5)" using r3 by (meson client_reach.step)
  have "client_step True sample_json c3 d4"
    using client_step.answer [of sample_json 2 "''{{''" c3 True] sample_answers by (simp add: defs)
  moreover have "client_step True sample_json d4 (take_line sample_json 1 ''{{'' d4)"
    by (rule client_step.read) (simp_all add: defs)
  ultimately have second: "client_reach True sample_json (take_line sample_json 1 ''{{'' d4)" using r3 by (meson client_reach.step)
  have noskip: "\<not> skips sample_json ''{''" "\<not> skips sample_json ''{{''" using sample_answers by (simp_all add: answers_def)
  have "show_int 1 = ''1''" "show_int 2 = ''2''"
    by (simp_all add: show_int_def show_nat_def show_nat_acc.simps char_of_def bit_iff_odd)
  then have "(2, CallFailed ''response id mismatch: got 1, want 2'') \<in> set (cl_done (take_line sample_json 2 ''{'' c5))"
    using noskip by (simp add: take_line_def defs recv_result_def sample_json_def trimLine_def trim_right_def nl_def)
  moreover have "cl_pipe (take_line sample_json 2 ''{'' c5) = [''{{'']" using noskip by (simp add: take_line_def defs)
  moreover have "cl_waiting (take_line sample_json 1 ''{{'' d4) = Some 2 \<and> cl_readers (take_line sample_json 1 ''{{'' d4) = [2] \<and>
      cl_pipe (take_line sample_json 1 ''{{'' d4) = [] \<and> cl_nextID (take_line sample_json 1 ''{{'' d4) = 2 \<and>
      fst ` set (cl_done (take_line sample_json 1 ''{{'' d4)) = {1}"
    using noskip by (simp add: take_line_def defs)
  ultimately show ?thesis using first second by blast
qed

text \<open>registering the tools of a server adds exactly the allowed ones under the server's name, never replaces a
  tool that is already there, and what it adds calls the server under the tool's own name.\<close>

theorem mcp_registers_allowed:
  "(\<forall>t. reg_Get name r = Some t \<longrightarrow> reg_Get name (snd (registerTools quote decode srv tools call identity r)) = Some t) \<and>
   (reg_Get name r = None \<longrightarrow>
      (\<forall>t. reg_Get name (snd (registerTools quote decode srv tools call identity r)) = Some t \<longrightarrow>
         (\<exists>u \<in> set tools. IsToolAllowed srv (mt_Name u) \<and> t = bridge_tool decode srv call u \<and> name = ms_Name srv @ ''_'' @ mt_Name u)) \<and>
      ((\<exists>u \<in> set tools. IsToolAllowed srv (mt_Name u) \<and> name = ms_Name srv @ ''_'' @ mt_Name u) \<longrightarrow>
         reg_Get name (snd (registerTools quote decode srv tools call identity r)) \<noteq> None))"
proof -
  define ts where "ts = map (bridge_tool decode srv call) (filter (\<lambda>t. IsToolAllowed srv (mt_Name t)) tools)"
  have dn: "dt_Name (bridge_tool decode srv call u) = ms_Name srv @ ''_'' @ mt_Name u" for u by (simp add: bridge_tool_def)
  have some: "\<exists>u \<in> set tools. IsToolAllowed srv (mt_Name u) \<and> t = bridge_tool decode srv call u \<and> name = ms_Name srv @ ''_'' @ mt_Name u"
    if "find (\<lambda>t. dt_Name t = name) ts = Some t" for t
  proof -
    have "t \<in> set ts" "dt_Name t = name" using that by (auto simp: find_Some_iff)
    then show ?thesis using dn by (auto simp: ts_def)
  qed
  have none: "find (\<lambda>t. dt_Name t = name) ts \<noteq> None" if "u \<in> set tools" "IsToolAllowed srv (mt_Name u)" "name = ms_Name srv @ ''_'' @ mt_Name u" for u
    using that dn by (auto simp: find_None_iff ts_def)
  show ?thesis using some none by (auto simp: registerTools_get ts_def [symmetric] simp del: find.simps)
qed

theorem mcp_registers_allowed_witness:
  "reg_Get ''prom_query'' (snd (registerTools id (\<lambda>_. None) \<lparr>ms_Name = ''prom'', ms_Command = ''p'', ms_Args = [], ms_Env = [], ms_Identity = [], ms_ToolsAllow = [''query'']\<rparr>
      [\<lparr>mt_Name = ''query'', mt_Description = [], mt_InputSchema = []\<rparr>] (\<lambda>_ _. Inl []) [] NewToolRegistry)) \<noteq> None"
  using mcp_registers_allowed [of "''prom_query''" NewToolRegistry id "\<lambda>_. None"
      "\<lparr>ms_Name = ''prom'', ms_Command = ''p'', ms_Args = [], ms_Env = [], ms_Identity = [], ms_ToolsAllow = [''query'']\<rparr>"
      "[\<lparr>mt_Name = ''query'', mt_Description = [], mt_InputSchema = []\<rparr>]" "\<lambda>_ _. Inl []" "[]"]
  by (simp add: reg_Get_def NewToolRegistry_def IsToolAllowed_def)

end
