(* ===== verification/Sigv4.thy ===== *)
theory Sigv4
  imports Utf8 "HOL-Library.Multiset"
begin

text \<open>
  \<^verbatim>\<open>digcore/diagnose/aiclient/sigv4.go\<close>: signing a request to Bedrock. The hash functions of \<^verbatim>\<open>crypto\<close> are arguments, as
  is the formatted time. A header is a map from canonical names to their values, in an arbitrary
  iteration order; setting a header canonicalises its name as \<^verbatim>\<open>net/textproto\<close> does.
\<close>

section \<open>Headers\<close>

definition token_byte :: "char \<Rightarrow> bool" where
  "token_byte c \<longleftrightarrow>
     (let n = byte c in
      48 \<le> n \<and> n \<le> 57 \<or> 65 \<le> n \<and> n \<le> 90 \<or> 97 \<le> n \<and> n \<le> 122 \<or> n \<in> {33, 35, 36, 37, 38, 39, 42, 43, 45, 46, 94, 95, 96, 124, 126})"

fun canon_loop :: "bool \<Rightarrow> string \<Rightarrow> string" where
  "canon_loop upper [] = []"
| "canon_loop upper (c # cs) =
     (if upper then upper_char c else lower_char c) # canon_loop (c = CHR ''-'') cs"

definition CanonicalHeaderKey :: "string \<Rightarrow> string" where
  "CanonicalHeaderKey k = (if list_all token_byte k then canon_loop True k else k)"

type_synonym header = "(string, string list) gomap"

definition header_Set :: "string \<Rightarrow> string \<Rightarrow> header \<Rightarrow> header" where
  "header_Set k v h = m_set (CanonicalHeaderKey k) [v] h"

definition header_Get :: "header \<Rightarrow> string \<Rightarrow> string" where
  "header_Get h k = (case map_of h (CanonicalHeaderKey k) of Some (v # _) \<Rightarrow> v | _ \<Rightarrow> [])"

section \<open>Signing\<close>

record AWSCredentials =
  aws_AccessKeyID :: string
  aws_SecretAccessKey :: string
  aws_SessionToken :: string

record http_request =
  hq_Method :: string
  hq_Path :: string
  hq_RawQuery :: string
  hq_Host :: string
  hq_Header :: header

record crypto =
  cy_hmac :: "string \<Rightarrow> string \<Rightarrow> string"
  cy_sha :: "string \<Rightarrow> string"

definition hashSHA256 :: "crypto \<Rightarrow> string \<Rightarrow> string" where
  "hashSHA256 cy s = hex_encode (cy_sha cy s)"

definition deriveSigningKey :: "crypto \<Rightarrow> string \<Rightarrow> string \<Rightarrow> string \<Rightarrow> string \<Rightarrow> string" where
  "deriveSigningKey cy secret datestamp region service =
     (let kDate = cy_hmac cy (''AWS4'' @ secret) datestamp;
          kRegion = cy_hmac cy kDate region;
          kService = cy_hmac cy kRegion service
      in cy_hmac cy kService ''aws4_request'')"

text \<open>The two loops of \<^verbatim>\<open>buildCanonicalHeaders\<close>: collecting lower-case names and values, and writing them sorted.\<close>

definition collect :: "header \<Rightarrow> (string, string) gomap \<times> string list" where
  "collect h = foldl (\<lambda>(headers, keys) k. (m_set (to_lower k) (trim_space (header_Get h k)) headers, keys @ [to_lower k])) ([], []) (m_keys h)"

definition with_host :: "string \<Rightarrow> (string, string) gomap \<times> string list \<Rightarrow> (string, string) gomap \<times> string list" where
  "with_host host hk = (if m_has (fst hk) ''host'' then hk else (m_set ''host'' host (fst hk), snd hk @ [''host'']))"

definition buildCanonicalHeaders :: "http_request \<Rightarrow> string \<times> string" where
  "buildCanonicalHeaders req =
     (let (headers, keys) = with_host (hq_Host req) (collect (hq_Header req));
          keys = sort keys
      in (join '';'' keys, concat (map (\<lambda>k. k @ '':'' @ m_str headers k @ [nl]) keys)))"

definition buildCanonicalRequest :: "http_request \<Rightarrow> string \<Rightarrow> string \<Rightarrow> string \<Rightarrow> string" where
  "buildCanonicalRequest req signedHeaders canonicalHeaders payloadHash =
     (let uri = (if hq_Path req = [] then ''/'' else hq_Path req) in
      hq_Method req @ [nl] @ uri @ [nl] @ hq_RawQuery req @ [nl] @ canonicalHeaders @ [nl] @ signedHeaders @ [nl] @ payloadHash)"

definition amz_headers :: "string \<Rightarrow> string \<Rightarrow> AWSCredentials \<Rightarrow> http_request \<Rightarrow> http_request" where
  "amz_headers amzdate payloadHash creds req =
     (let h = header_Set ''x-amz-content-sha256'' payloadHash (header_Set ''x-amz-date'' amzdate (hq_Header req));
          h = (if aws_SessionToken creds \<noteq> [] then header_Set ''x-amz-security-token'' (aws_SessionToken creds) h else h)
      in req\<lparr>hq_Header := h\<rparr>)"

text \<open>The value of the authorization header.\<close>

definition authorization :: "crypto \<Rightarrow> string \<Rightarrow> string \<Rightarrow> string \<Rightarrow> string \<Rightarrow> string \<Rightarrow> AWSCredentials \<Rightarrow> http_request \<Rightarrow> string" where
  "authorization cy datestamp amzdate payloadHash region service creds req =
     (let (signedHeaders, canonicalHeaders) = buildCanonicalHeaders req;
          canonicalRequest = buildCanonicalRequest req signedHeaders canonicalHeaders payloadHash;
          scope = datestamp @ ''/'' @ region @ ''/'' @ service @ ''/aws4_request'';
          stringToSign = ''AWS4-HMAC-SHA256'' @ [nl] @ amzdate @ [nl] @ scope @ [nl] @ hashSHA256 cy canonicalRequest;
          signingKey = deriveSigningKey cy (aws_SecretAccessKey creds) datestamp region service;
          signature = hex_encode (cy_hmac cy signingKey stringToSign)
      in ''AWS4-HMAC-SHA256 Credential='' @ aws_AccessKeyID creds @ ''/'' @ scope @ '', SignedHeaders='' @ signedHeaders
         @ '', Signature='' @ signature)"

definition signV4 :: "crypto \<Rightarrow> string \<Rightarrow> string \<Rightarrow> string \<Rightarrow> string \<Rightarrow> string \<Rightarrow> AWSCredentials \<Rightarrow> http_request \<Rightarrow> http_request" where
  "signV4 cy datestamp amzdate payloadHash region service creds req =
     (let req = amz_headers amzdate payloadHash creds req
      in req\<lparr>hq_Header := header_Set ''Authorization''
                (authorization cy datestamp amzdate payloadHash region service creds req) (hq_Header req)\<rparr>)"

section \<open>Facts\<close>

text \<open>A header whose names stay apart in lower case, as canonical names do.\<close>

definition header_ok :: "header \<Rightarrow> bool" where
  "header_ok h \<longleftrightarrow> m_ok h \<and> inj_on to_lower (set (m_keys h))"

definition lower_map :: "header \<Rightarrow> string \<Rightarrow> string option" where
  "lower_map h l = (if l \<in> to_lower ` set (m_keys h) then Some (trim_space (header_Get h (inv_into (set (m_keys h)) to_lower l))) else None)"

lemma collect_spec:
  assumes "header_ok h"
  shows "snd (collect h) = map to_lower (m_keys h) \<and> map_of (fst (collect h)) = lower_map h"
proof -
  have gen: "set ks \<subseteq> set (m_keys h) \<Longrightarrow> snd (foldl (\<lambda>(headers, keys) k. (m_set (to_lower k) (trim_space (header_Get h k)) headers, keys @ [to_lower k])) (hs, kk) ks)
        = kk @ map to_lower ks \<and>
      map_of (fst (foldl (\<lambda>(headers, keys) k. (m_set (to_lower k) (trim_space (header_Get h k)) headers, keys @ [to_lower k])) (hs, kk) ks)) l =
        (if l \<in> to_lower ` set ks then Some (trim_space (header_Get h (inv_into (set (m_keys h)) to_lower l))) else map_of hs l)" for hs kk ks l
  proof (induction ks arbitrary: hs kk)
    case (Cons k ks)
    have "inv_into (set (m_keys h)) to_lower (to_lower k) = k"
      using assms Cons.prems by (auto simp: header_ok_def)
    then show ?case using Cons by (auto simp: image_iff)
  qed simp
  show ?thesis
    using gen [of "m_keys h" "[]" "[]"] by (auto simp: collect_def lower_map_def)
qed

lemma header_perm:
  assumes "map_of h = map_of h'"
  shows "set (m_keys h) = set (m_keys h')" "header_Get h = header_Get h'" "lower_map h = lower_map h'"
proof -
  show keys: "set (m_keys h) = set (m_keys h')" using assms by (simp add: set_m_keys)
  show get: "header_Get h = header_Get h'" using assms by (intro ext) (simp add: header_Get_def)
  show "lower_map h = lower_map h'" using keys get by (intro ext) (simp add: lower_map_def)
qed

lemma sorted_lower_keys:
  assumes "header_ok h" "header_ok h'" "map_of h = map_of h'"
  shows "sort (map to_lower (m_keys h) @ xs) = sort (map to_lower (m_keys h') @ xs)"
proof -
  have "distinct (m_keys h)" "distinct (m_keys h')" using assms by (simp_all add: header_ok_def m_ok_def m_keys_def)
  then have "mset (m_keys h) = mset (m_keys h')"
    using header_perm(1) [OF assms(3)] set_eq_iff_mset_eq_distinct by blast
  then have "mset (map to_lower (m_keys h) @ xs) = mset (map to_lower (m_keys h') @ xs)" by simp
  then show ?thesis by (metis mset_sort properties_for_sort sorted_sort)
qed

lemma canonical_headers_order:
  assumes "header_ok (hq_Header r)" "header_ok h'" "map_of (hq_Header r) = map_of h'"
  shows "buildCanonicalHeaders (r\<lparr>hq_Header := h'\<rparr>) = buildCanonicalHeaders r"
proof -
  let ?h = "hq_Header r"
  have c: "snd (collect ?h) = map to_lower (m_keys ?h)" "snd (collect h') = map to_lower (m_keys h')"
    "map_of (fst (collect ?h)) = map_of (fst (collect h'))"
    using collect_spec [OF assms(1)] collect_spec [OF assms(2)] header_perm(3) [OF assms(3)] by simp_all
  have s: "sort (map to_lower (m_keys h') @ xs) = sort (map to_lower (m_keys ?h) @ xs)" for xs
    using sorted_lower_keys [OF assms] by simp
  have "m_str (m_set k v (fst (collect h'))) = m_str (m_set k v (fst (collect ?h)))"
    "m_str (fst (collect h')) = m_str (fst (collect ?h))"
    "m_has (fst (collect h')) k = m_has (fst (collect ?h)) k" for k v
    using c(3) by (auto simp: m_str_def m_has_def)
  then show ?thesis
    using c(1,2) s s [of "[]"] by (simp add: buildCanonicalHeaders_def with_host_def Let_def split_beta)
qed

text \<open>A header whose names are canonical, as \<^verbatim>\<open>Header.Set\<close> leaves them.\<close>

definition canonical_header :: "header \<Rightarrow> bool" where
  "canonical_header h \<longleftrightarrow> m_ok h \<and> (\<forall>k \<in> set (m_keys h). list_all token_byte k \<and> CanonicalHeaderKey k = k)"

lemma to_lower_token: "list_all token_byte k \<Longrightarrow> to_lower k = map lower_char k"
  by (induction k) (auto simp: token_byte_def Let_def)

lemma case_folding:
  "upper_char (lower_char c) = upper_char c" "lower_char (lower_char c) = lower_char c"
  "lower_char c = CHR ''-'' \<longleftrightarrow> c = CHR ''-''"
proof -
  let ?n = "of_char c :: nat"
  have n: "?n < 256" "c = char_of ?n" by simp_all
  have char_eq_iff_nat: "a = b \<longleftrightarrow> of_char a = (of_char b :: nat)" for a b :: char by simp
  show "upper_char (lower_char c) = upper_char c" "lower_char (lower_char c) = lower_char c"
    using n by (auto simp: upper_char_def lower_char_def Let_def)
  have "lower_char c = CHR ''-'' \<longleftrightarrow> of_char (lower_char c) = (45 :: nat)"
    by (subst char_eq_iff_nat) simp
  also have "\<dots> \<longleftrightarrow> ?n = 45" using n by (auto simp: lower_char_def Let_def)
  also have "\<dots> \<longleftrightarrow> c = CHR ''-''" by (subst char_eq_iff_nat) simp
  finally show "lower_char c = CHR ''-'' \<longleftrightarrow> c = CHR ''-''" .
qed

lemma canon_loop_lower: "canon_loop b (map lower_char k) = canon_loop b k"
  by (induction k arbitrary: b) (simp_all add: case_folding)

lemma canonical_header_ok: "canonical_header h \<Longrightarrow> header_ok h"
proof -
  assume h: "canonical_header h"
  have "k = k'" if k: "k \<in> set (m_keys h)" "k' \<in> set (m_keys h)" "to_lower k = to_lower k'" for k k'
  proof -
    have "canon_loop True k = k" "canon_loop True k' = k'"
      using h k by (auto simp: canonical_header_def CanonicalHeaderKey_def)
    then show "k = k'" using canon_loop_lower [of True k] canon_loop_lower [of True k'] k(3) to_lower_token h k(1,2)
      by (metis canonical_header_def)
  qed
  then show ?thesis using h by (auto simp: header_ok_def canonical_header_def intro: inj_onI)
qed

lemma canonical_set:
  assumes "canonical_header h" "list_all token_byte (CanonicalHeaderKey k)" "CanonicalHeaderKey (CanonicalHeaderKey k) = CanonicalHeaderKey k"
  shows "canonical_header (header_Set k v h)"
  using assms by (auto simp: canonical_header_def header_Set_def set_m_keys)

lemma amz_names:
  "CanonicalHeaderKey ''x-amz-date'' = ''X-Amz-Date''" "CanonicalHeaderKey ''X-Amz-Date'' = ''X-Amz-Date''"
  "CanonicalHeaderKey ''x-amz-content-sha256'' = ''X-Amz-Content-Sha256''"
  "CanonicalHeaderKey ''X-Amz-Content-Sha256'' = ''X-Amz-Content-Sha256''"
  "CanonicalHeaderKey ''x-amz-security-token'' = ''X-Amz-Security-Token''"
  "CanonicalHeaderKey ''X-Amz-Security-Token'' = ''X-Amz-Security-Token''"
  "CanonicalHeaderKey ''Authorization'' = ''Authorization''"
  "list_all token_byte ''X-Amz-Date''" "list_all token_byte ''X-Amz-Content-Sha256''" "list_all token_byte ''X-Amz-Security-Token''"
  by code_simp+

lemma amz_headers_canonical: "canonical_header (hq_Header r) \<Longrightarrow> canonical_header (hq_Header (amz_headers d p c r))"
  by (simp add: amz_headers_def Let_def canonical_set amz_names [simplified])

lemma amz_headers_order:
  assumes "map_of (hq_Header r) = map_of h'"
  shows "map_of (hq_Header (amz_headers d p c (r\<lparr>hq_Header := h'\<rparr>))) = map_of (hq_Header (amz_headers d p c r))"
    and "amz_headers d p c (r\<lparr>hq_Header := h'\<rparr>) = (amz_headers d p c r)\<lparr>hq_Header := hq_Header (amz_headers d p c (r\<lparr>hq_Header := h'\<rparr>))\<rparr>"
  using assms by (simp_all add: amz_headers_def Let_def header_Set_def)

text \<open>
  The signature is a function of the contents of the request: the order in which the header map is
  walked has no influence on the authorization, although the map is walked in random order.
\<close>

theorem signature_order_independent:
  assumes "canonical_header (hq_Header r)" "canonical_header h'" "map_of (hq_Header r) = map_of h'"
  shows "map_of (hq_Header (signV4 cy ds ad ph reg svc creds (r\<lparr>hq_Header := h'\<rparr>))) = map_of (hq_Header (signV4 cy ds ad ph reg svc creds r))"
proof -
  let ?a = "amz_headers ad ph creds r" and ?b = "amz_headers ad ph creds (r\<lparr>hq_Header := h'\<rparr>)"
  note ord = amz_headers_order [OF assms(3), of ad ph creds]
  have ok: "header_ok (hq_Header ?a)" "header_ok (hq_Header ?b)"
    using assms by (auto intro!: canonical_header_ok amz_headers_canonical)
  have h: "buildCanonicalHeaders ?b = buildCanonicalHeaders ?a"
    using canonical_headers_order [OF ok ord(1) [symmetric]] ord(2) by simp
  have "buildCanonicalRequest ?b s c ph = buildCanonicalRequest ?a s c ph" for s c
    by (simp add: buildCanonicalRequest_def amz_headers_def Let_def)
  with h have "authorization cy ds ad ph reg svc creds ?b = authorization cy ds ad ph reg svc creds ?a"
    by (simp add: authorization_def split_beta Let_def)
  then show ?thesis using ord(1) by (simp add: signV4_def Let_def header_Set_def)
qed

theorem signature_order_witness:
  "map_of (hq_Header (signV4 \<lparr>cy_hmac = \<lambda>k d. k @ d, cy_sha = \<lambda>d. d\<rparr> ''20250101'' ''20250101T000000Z'' ''ab'' ''us-east-1'' ''bedrock''
       \<lparr>aws_AccessKeyID = ''A'', aws_SecretAccessKey = ''S'', aws_SessionToken = []\<rparr>
       \<lparr>hq_Method = ''POST'', hq_Path = ''/m'', hq_RawQuery = [], hq_Host = ''h'', hq_Header = [(''Accept'', [''a'']), (''Content-Type'', [''b''])]\<rparr>)) =
   map_of (hq_Header (signV4 \<lparr>cy_hmac = \<lambda>k d. k @ d, cy_sha = \<lambda>d. d\<rparr> ''20250101'' ''20250101T000000Z'' ''ab'' ''us-east-1'' ''bedrock''
       \<lparr>aws_AccessKeyID = ''A'', aws_SecretAccessKey = ''S'', aws_SessionToken = []\<rparr>
       \<lparr>hq_Method = ''POST'', hq_Path = ''/m'', hq_RawQuery = [], hq_Host = ''h'', hq_Header = [(''Content-Type'', [''b'']), (''Accept'', [''a''])]\<rparr>))"
proof -
  have "canonical_header [(''Content-Type'', [''b'']), (''Accept'', [''a''])]" "canonical_header [(''Accept'', [''a'']), (''Content-Type'', [''b''])]"
    by code_simp+
  moreover have "map_of [(''Content-Type'', [''b'']), (''Accept'', [''a''])] = map_of [(''Accept'', [''a'']), (''Content-Type'', [''b''])]"
    by (rule ext) simp
  ultimately show ?thesis
    using signature_order_independent [of "\<lparr>hq_Method = ''POST'', hq_Path = ''/m'', hq_RawQuery = [], hq_Host = ''h'',
        hq_Header = [(''Content-Type'', [''b'']), (''Accept'', [''a''])]\<rparr>" "[(''Accept'', [''a'']), (''Content-Type'', [''b''])]"]
    by simp
qed

text \<open>
  Every header the request carries is signed exactly once, the host header included, with its value
  without surrounding white space; the names are lower case and strictly increasing.
\<close>

theorem signature_covers_headers:
  assumes "canonical_header (hq_Header r)"
  shows "\<exists>keys. sorted_wrt (<) keys \<and> set keys = insert ''host'' (to_lower ` set (m_keys (hq_Header r))) \<and>
    fst (buildCanonicalHeaders r) = join '';'' keys \<and>
    snd (buildCanonicalHeaders r) =
      concat (map (\<lambda>l. l @ '':'' @ (case lower_map (hq_Header r) l of Some v \<Rightarrow> v | None \<Rightarrow> hq_Host r) @ [nl]) keys)"
proof -
  let ?h = "hq_Header r"
  have ok: "header_ok ?h" using canonical_header_ok [OF assms] .
  note sp = collect_spec [OF ok]
  have dist: "distinct (map to_lower (m_keys ?h))"
    using ok unfolding header_ok_def m_ok_def m_keys_def distinct_map [of to_lower] by simp
  define hk where "hk = with_host (hq_Host r) (collect ?h)"
  have has: "m_has (fst (collect ?h)) ''host'' \<longleftrightarrow> ''host'' \<in> set (map to_lower (m_keys ?h))"
    using sp by (auto simp: m_has_def lower_map_def)
  have keys: "distinct (snd hk)" "set (snd hk) = insert ''host'' (to_lower ` set (m_keys ?h))"
    using sp dist has by (auto simp: hk_def with_host_def)
  have vals: "m_str (fst hk) l = (case lower_map ?h l of Some v \<Rightarrow> v | None \<Rightarrow> hq_Host r)" if "l \<in> set (snd hk)" for l
    using that sp has by (auto simp: hk_def with_host_def m_str_def lower_map_def split: if_splits)
  have "sorted_wrt (<) (sort (snd hk))" using keys(1) by (simp add: strict_sorted_iff)
  moreover have "set (sort (snd hk)) = insert ''host'' (to_lower ` set (m_keys ?h))" using keys(2) by simp
  moreover have "fst (buildCanonicalHeaders r) = join '';'' (sort (snd hk))"
    by (simp add: buildCanonicalHeaders_def hk_def [symmetric] split_beta Let_def)
  moreover have "snd (buildCanonicalHeaders r) =
      concat (map (\<lambda>l. l @ '':'' @ (case lower_map ?h l of Some v \<Rightarrow> v | None \<Rightarrow> hq_Host r) @ [nl]) (sort (snd hk)))"
    by (auto simp: buildCanonicalHeaders_def hk_def [symmetric] split_beta Let_def vals intro!: arg_cong [where f = concat] map_cong)
  ultimately show ?thesis by blast
qed

theorem signature_covers_witness:
  "\<exists>keys. sorted_wrt (<) keys \<and> set keys = {''host'', ''accept'', ''content-type''} \<and>
    fst (buildCanonicalHeaders \<lparr>hq_Method = ''POST'', hq_Path = ''/m'', hq_RawQuery = [], hq_Host = ''h'',
        hq_Header = [(''Content-Type'', ['' b '']), (''Accept'', [''a''])]\<rparr>) = join '';'' keys"
proof -
  have "canonical_header [(''Content-Type'', ['' b '']), (''Accept'', [''a''])]" by code_simp
  moreover have "to_lower ''Content-Type'' = ''content-type''" "to_lower ''Accept'' = ''accept''" by code_simp+
  ultimately show ?thesis
    using signature_covers_headers [of "\<lparr>hq_Method = ''POST'', hq_Path = ''/m'', hq_RawQuery = [], hq_Host = ''h'',
        hq_Header = [(''Content-Type'', ['' b '']), (''Accept'', [''a''])]\<rparr>"]
    by (auto simp: m_keys_def insert_commute simp del: to_lower.simps)
qed

end
