(* ===== verification/Strconv.thy ===== *)
theory Strconv
  imports Utf8 Complex_Main
begin

text \<open>
  What the plugins use of \<^verbatim>\<open>strconv\<close>, \<^verbatim>\<open>strings\<close>, \<^verbatim>\<open>fmt\<close> and \<^verbatim>\<open>time\<close>: decimal parsing with its two errors, the
  printed form of a parse error, splitting into fields, searching and cutting text, fixed-point and
  duration formatting. A \<^verbatim>\<open>float64\<close> is a real number here: the plugins compare and print them. The printable form of
  a quoted string (\<^verbatim>\<open>%q\<close>) depends on the Unicode tables and is an argument.
\<close>

section \<open>Parsing decimal numbers\<close>

datatype num_error = ErrSyntax | ErrRange

definition digit_val :: "char \<Rightarrow> nat option" where
  "digit_val c = (let n = byte c in if 48 \<le> n \<and> n \<le> 57 then Some (n - 48) else None)"

fun uint_loop :: "nat \<Rightarrow> string \<Rightarrow> num_error + nat" where
  "uint_loop n [] = Inr n"
| "uint_loop n (c # cs) =
     (case digit_val c of
        None \<Rightarrow> Inl ErrSyntax
      | Some d \<Rightarrow> if n * 10 + d \<ge> 2 ^ 64 then Inl ErrRange else uint_loop (n * 10 + d) cs)"

definition ParseUint :: "string \<Rightarrow> num_error + nat" where
  "ParseUint s = (if s = [] then Inl ErrSyntax else uint_loop 0 s)"

fun split_sign :: "string \<Rightarrow> bool \<times> string" where
  "split_sign [] = (False, [])"
| "split_sign (c # cs) = (if c = CHR ''-'' then (True, cs) else if c = CHR ''+'' then (False, cs) else (False, c # cs))"

definition ParseInt :: "string \<Rightarrow> num_error + int" where
  "ParseInt s =
     (if s = [] then Inl ErrSyntax
      else
        let (neg, ds) = split_sign s in
        case ParseUint ds of
          Inl e \<Rightarrow> Inl e
        | Inr un \<Rightarrow>
            if \<not> neg \<and> un \<ge> 2 ^ 63 then Inl ErrRange
            else if neg \<and> un > 2 ^ 63 then Inl ErrRange
            else Inr (if neg then - int un else int un))"

text \<open>The text of a \<^verbatim>\<open>*strconv.NumError\<close>.\<close>

definition num_text :: "(string \<Rightarrow> string) \<Rightarrow> string \<Rightarrow> string \<Rightarrow> num_error \<Rightarrow> string" where
  "num_text quote fn s e =
     ''strconv.'' @ fn @ '': parsing '' @ quote s @ '': '' @
     (case e of ErrSyntax \<Rightarrow> ''invalid syntax'' | ErrRange \<Rightarrow> ''value out of range'')"

section \<open>Searching and cutting\<close>

fun index_byte :: "char \<Rightarrow> string \<Rightarrow> nat option" where
  "index_byte d [] = None"
| "index_byte d (c # cs) = (if c = d then Some 0 else map_option Suc (index_byte d cs))"

text \<open>\<^verbatim>\<open>strings.SplitN(s, d, 2)\<close> for one separator byte.\<close>

definition split_two :: "char \<Rightarrow> string \<Rightarrow> string list" where
  "split_two d s = (case index_byte d s of None \<Rightarrow> [s] | Some i \<Rightarrow> [take i s, drop (i + 1) s])"

definition trim_prefix :: "string \<Rightarrow> string \<Rightarrow> string" where
  "trim_prefix p s = (if prefix p s then drop (length p) s else s)"

definition trim_suffix :: "string \<Rightarrow> string \<Rightarrow> string" where
  "trim_suffix p s = (if suffix p s then take (length s - length p) s else s)"

text \<open>\<^verbatim>\<open>strings.Fields\<close> on ASCII white space.\<close>

fun Fields :: "string \<Rightarrow> string list" where
  "Fields [] = []"
| "Fields (c # cs) =
     (if is_space c then Fields cs
      else case cs of
             [] \<Rightarrow> [[c]]
           | c' # _ \<Rightarrow> if is_space c' then [c] # Fields cs
                      else case Fields cs of [] \<Rightarrow> [[c]] | w # ws \<Rightarrow> (c # w) # ws)"

definition contains_text :: "string \<Rightarrow> string \<Rightarrow> bool" where
  "contains_text s t \<longleftrightarrow> sublist t s"

section \<open>Errors and addresses\<close>

text \<open>A computation that may return early with an error, and the test that does.\<close>

fun sbind :: "'e + 'a \<Rightarrow> ('a \<Rightarrow> 'e + 'b) \<Rightarrow> 'e + 'b" where
  "sbind (Inl e) f = Inl e"
| "sbind (Inr x) f = f x"

definition refuse :: "bool \<Rightarrow> 'e \<Rightarrow> 'e + unit" where
  "refuse bad e = (if bad then Inl e else Inr ())"

lemma sbind_Inr_iff [simp]: "sbind m f = Inr y \<longleftrightarrow> (\<exists>x. m = Inr x \<and> f x = Inr y)"
  by (cases m) auto

lemma case_sum_Inr_iff: "(case m of Inl e \<Rightarrow> Inl (f e) | Inr x \<Rightarrow> g x) = Inr y \<longleftrightarrow> (\<exists>x. m = Inr x \<and> g x = Inr y)"
  by (cases m) auto

lemma refuse_Inr_iff [simp]: "refuse bad e = Inr u \<longleftrightarrow> \<not> bad"
  by (simp add: refuse_def)

text \<open>\<^verbatim>\<open>net.SplitHostPort\<close> with its errors, and \<^verbatim>\<open>net.JoinHostPort\<close>.\<close>

datatype addr_error = MissingPort | TooManyColons | MissingBracket | UnexpectedOpen | UnexpectedClose

fun addr_text :: "addr_error \<Rightarrow> string" where
  "addr_text MissingPort = ''missing port in address''"
| "addr_text TooManyColons = ''too many colons in address''"
| "addr_text MissingBracket = ''missing ']' in address''"
| "addr_text UnexpectedOpen = ''unexpected '[' in address''"
| "addr_text UnexpectedClose = ''unexpected ']' in address''"

definition addr_error_text :: "string \<Rightarrow> addr_error \<Rightarrow> string" where
  "addr_error_text hostport e = ''address '' @ hostport @ '': '' @ addr_text e"

definition last_index_byte :: "char \<Rightarrow> string \<Rightarrow> nat option" where
  "last_index_byte d s = map_option (\<lambda>i. length s - 1 - i) (index_byte d (rev s))"

definition after_host :: "string \<Rightarrow> nat \<Rightarrow> string \<Rightarrow> nat \<Rightarrow> nat \<Rightarrow> addr_error + string \<times> string" where
  "after_host hostport i host j k =
     (if CHR ''['' \<in> set (drop j hostport) then Inl UnexpectedOpen
      else if CHR '']'' \<in> set (drop k hostport) then Inl UnexpectedClose
      else Inr (host, drop (i + 1) hostport))"

definition SplitHostPort :: "string \<Rightarrow> addr_error + string \<times> string" where
  "SplitHostPort hostport =
     (case last_index_byte (CHR '':'') hostport of
        None \<Rightarrow> Inl MissingPort
      | Some i \<Rightarrow>
          if hostport ! 0 = CHR ''['' then
            (case index_byte (CHR '']'') hostport of
               None \<Rightarrow> Inl MissingBracket
             | Some e \<Rightarrow>
                 if e + 1 = length hostport then Inl MissingPort
                 else if e + 1 = i then after_host hostport i (take (e - 1) (drop 1 hostport)) 1 (e + 1)
                 else if hostport ! (e + 1) = CHR '':'' then Inl TooManyColons
                 else Inl MissingPort)
          else if CHR '':'' \<in> set (take i hostport) then Inl TooManyColons
          else after_host hostport i (take i hostport) 0 0)"

definition JoinHostPort :: "string \<Rightarrow> string \<Rightarrow> string" where
  "JoinHostPort host port =
     (if CHR '':'' \<in> set host then ''['' @ host @ '']:'' @ port else host @ '':'' @ port)"

section \<open>Formatting numbers\<close>

text \<open>Rounding to the nearest integer, ties to even.\<close>

definition round_even :: "real \<Rightarrow> int" where
  "round_even x =
     (let q = \<lfloor>x\<rfloor>; r = x - of_int q in
      if r < 1 / 2 \<or> r = 1 / 2 \<and> even q then q else q + 1)"

definition pad_left :: "char \<Rightarrow> nat \<Rightarrow> string \<Rightarrow> string" where
  "pad_left c n s = replicate (n - length s) c @ s"

definition pad_right :: "nat \<Rightarrow> string \<Rightarrow> string" where
  "pad_right n s = s @ replicate (n - length s) (CHR '' '')"

text \<open>\<^verbatim>\<open>%.df\<close>: the sign of a negative number stays although it rounds to zero.\<close>

definition fmt_fixed :: "nat \<Rightarrow> real \<Rightarrow> string" where
  "fmt_fixed d x =
     (let n = nat (round_even (\<bar>x\<bar> * 10 ^ d));
          whole = show_nat (n div 10 ^ d);
          frac = pad_left (CHR ''0'') d (show_nat (n mod 10 ^ d))
      in (if x < 0 then ''-'' else []) @ whole @ (if d = 0 then [] else CHR ''.'' # frac))"

text \<open>\<^verbatim>\<open>time.Duration.String\<close>: the fraction loses its trailing zeros, and its point when it is empty.\<close>

definition fmt_frac :: "nat \<Rightarrow> nat \<Rightarrow> string" where
  "fmt_frac v prec =
     (let f = rev (dropWhile (\<lambda>c. c = CHR ''0'') (rev (pad_left (CHR ''0'') prec (show_nat (v mod 10 ^ prec)))))
      in if f = [] then [] else CHR ''.'' # f)"

definition micro_sign :: string where "micro_sign = [CHR 0xC2, CHR 0xB5]"

definition dur_abs :: "nat \<Rightarrow> string" where
  "dur_abs u =
     (if u = 0 then ''0s''
      else if u < 1000 then show_nat u @ ''ns''
      else if u < 1000000 then show_nat (u div 1000) @ fmt_frac u 3 @ micro_sign @ ''s''
      else if u < 1000000000 then show_nat (u div 1000000) @ fmt_frac u 6 @ ''ms''
      else
        let secs = u div 1000000000;
            s = show_nat (secs mod 60) @ fmt_frac u 9 @ ''s'';
            mins = secs div 60
        in if mins = 0 then s
           else if mins div 60 = 0 then show_nat mins @ ''m'' @ s
           else show_nat (mins div 60) @ ''h'' @ show_nat (mins mod 60) @ ''m'' @ s)"

definition dur_string :: "duration \<Rightarrow> string" where
  "dur_string d = (if d < 0 then CHR ''-'' # dur_abs (nat (- d)) else dur_abs (nat d))"

section \<open>Facts\<close>

text \<open>The decimal digits of a number, most significant first.\<close>

lemma show_nat_acc_append: "show_nat_acc n acc = show_nat_acc n [] @ acc"
proof (induction n arbitrary: acc rule: less_induct)
  case (less n)
  show ?case
  proof (cases "n < 10")
    case False
    then have lt: "n div 10 < n" by simp
    have "show_nat_acc n acc = show_nat_acc (n div 10) (char_of (48 + n mod 10) # acc)" for acc
      using False by (simp add: show_nat_acc.simps [of n])
    then show ?thesis
      using less [OF lt, of "char_of (48 + n mod 10) # acc"] less [OF lt, of "[char_of (48 + n mod 10)]"] by simp
  qed (simp add: show_nat_acc.simps)
qed

lemma show_nat_step:
  "show_nat n = (if n < 10 then [] else show_nat (n div 10)) @ [char_of (48 + n mod 10)]"
  using show_nat_acc_append [of "n div 10" "[char_of (48 + n mod 10)]"]
  by (simp add: show_nat_def show_nat_acc.simps [of n])

lemma digit_val_digit [simp]: "d < 10 \<Longrightarrow> digit_val (char_of (48 + d)) = Some d"
  by (simp add: digit_val_def)

lemma show_nat_nonempty [simp]: "show_nat n \<noteq> []"
  by (simp add: show_nat_step [of n])

lemma show_nat_digits: "c \<in> set (show_nat n) \<Longrightarrow> \<exists>d :: nat. d < 10 \<and> c = char_of (48 + d)"
proof (induction n rule: less_induct)
  case (less n)
  have "n mod 10 < 10" by simp
  moreover have "c = char_of (48 + n mod 10) \<or> n div 10 < n \<and> c \<in> set (show_nat (n div 10))"
    using less.prems by (auto simp: show_nat_step [of n] split: if_splits)
  ultimately show ?case using less.IH by blast
qed

lemma uint_loop_append:
  "uint_loop n (s @ t) = (case uint_loop n s of Inl e \<Rightarrow> Inl e | Inr m \<Rightarrow> uint_loop m t)"
  by (induction s arbitrary: n) (auto split: option.splits)

lemma uint_loop_show: "n < 2 ^ 64 \<Longrightarrow> uint_loop 0 (show_nat n) = Inr n"
proof (induction n rule: less_induct)
  case (less n)
  have "uint_loop (n div 10) [char_of (48 + n mod 10)] = Inr n"
    using less.prems by simp
  moreover have "n \<ge> 10 \<Longrightarrow> uint_loop 0 (show_nat (n div 10)) = Inr (n div 10)"
    using less by simp
  ultimately show ?case
    by (simp add: show_nat_step [of n] uint_loop_append split: if_splits)
qed

lemma ParseUint_show: "n < 2 ^ 64 \<Longrightarrow> ParseUint (show_nat n) = Inr n"
  by (simp add: ParseUint_def uint_loop_show)

lemma split_sign_show: "split_sign (show_nat n) = (False, show_nat n)"
proof (cases "show_nat n")
  case (Cons c cs)
  then obtain d :: nat where "d < 10" "c = char_of (48 + d)" using show_nat_digits [of c n] by auto
  then have "byte c = 48 + d" "d < 10" by simp_all
  then have "c \<noteq> CHR ''-''" "c \<noteq> CHR ''+''" by auto
  with Cons show ?thesis by simp
qed simp

text \<open>What is printed in decimal is parsed back, over the whole 64-bit range.\<close>

lemma ParseInt_show: "in_i64 i \<Longrightarrow> ParseInt (show_int i) = Inr i"
proof -
  assume i: "in_i64 i"
  show ?thesis
  proof (cases "i < 0")
    case True
    have "nat (- i) \<le> 2 ^ 63" using i by (auto simp: in_i64_def)
    moreover have "(2 :: nat) ^ 63 < 2 ^ 64" by simp
    ultimately have "ParseUint (show_nat (nat (- i))) = Inr (nat (- i))" by (intro ParseUint_show) linarith
    then show ?thesis using True i by (simp add: show_int_def ParseInt_def in_i64_def)
  next
    case False
    have "nat i < 2 ^ 63" using i False by (auto simp: in_i64_def)
    then have "ParseUint (show_nat (nat i)) = Inr (nat i)" by (intro ParseUint_show) simp
    then show ?thesis using False \<open>nat i < 2 ^ 63\<close> by (simp add: show_int_def ParseInt_def split_sign_show)
  qed
qed

lemma ParseInt_range: "ParseInt s = Inr i \<Longrightarrow> in_i64 i"
  by (auto simp: ParseInt_def in_i64_def split: if_splits prod.splits sum.splits)

lemma uint_loop_range: "n < 2 ^ 64 \<Longrightarrow> uint_loop n s = Inr m \<Longrightarrow> m < 2 ^ 64"
proof (induction s arbitrary: n)
  case (Cons c s)
  from Cons.prems obtain d where "n * 10 + d < 2 ^ 64" "uint_loop (n * 10 + d) s = Inr m"
    by (auto simp: not_le split: option.splits if_splits)
  then show ?case using Cons.IH by blast
qed auto

lemma ParseUint_range: "ParseUint s = Inr n \<Longrightarrow> n < 2 ^ 64"
  using uint_loop_range [of 0 s n] by (auto simp: ParseUint_def split: if_splits)

lemma index_byte_None_iff: "index_byte d s = None \<longleftrightarrow> d \<notin> set s"
  by (induction s) auto

lemma index_byte_Some: "index_byte d s = Some i \<Longrightarrow> i < length s \<and> s ! i = d \<and> d \<notin> set (take i s)"
  by (induction s arbitrary: i) (auto split: if_splits)

lemma index_byte_append: "d \<notin> set w \<Longrightarrow> index_byte d (w @ d # t) = Some (length w)"
  by (induction w) auto

end
