(* ===== verification/Redis_Resp.thy ===== *)
theory Redis_Resp
  imports Strconv
begin

text \<open>
  \<^verbatim>\<open>plugins/redis/accessor.go\<close>: the wire protocol of the Redis plugin, the accessor built on it and the
  reading of \<^verbatim>\<open>INFO\<close> answers. A connection is the bytes received and not yet read, the bytes that arrive before the
  deadline of each command to come, the bytes written so far and the error a read meets after the
  last byte (end of file or a timeout). \<^verbatim>\<open>any\<close> is one of the three
  values a reply can be; a panic of \<^verbatim>\<open>make\<close> is an error of its own.
\<close>

section \<open>Replies\<close>

datatype reply = RStr string | RNil | RArr "reply list"

datatype resp_error =
    EndOfInput
  | ServerError string
  | BadNumber string string num_error
  | BulkTooBig int
  | BadPrefix char
  | MakePanic

definition maxBulkSize :: int where "maxBulkSize = 1048576"

text \<open>The longest slice of \<^verbatim>\<open>any\<close> the runtime allocates: 2 to the 48 bytes of 16 each.\<close>

definition max_slice :: int where "max_slice = 2 ^ 44"

abbreviation cr :: char where "cr \<equiv> CHR 0x0D"

definition readLine :: "string \<Rightarrow> (resp_error + string) \<times> string" where
  "readLine s =
     (case index_byte nl s of
        None \<Rightarrow> (Inl EndOfInput, [])
      | Some i \<Rightarrow> (Inr (trim_suffix [cr] (take i s)), drop (i + 1) s))"

definition read_bulk :: "string \<Rightarrow> string \<Rightarrow> (resp_error + reply) \<times> string" where
  "read_bulk line s =
     (case ParseInt line of
        Inl e \<Rightarrow> (Inl (BadNumber ''Atoi'' line e), s)
      | Inr sz \<Rightarrow>
          if sz < 0 then (Inr RNil, s)
          else if sz > maxBulkSize then (Inl (BulkTooBig sz), s)
          else if length s < nat sz + 2 then (Inl EndOfInput, [])
          else (Inr (RStr (take (nat sz) s)), drop (nat sz + 2) s))"

definition read_int :: "string \<Rightarrow> string \<Rightarrow> (resp_error + reply) \<times> string" where
  "read_int line s =
     (case ParseInt line of
        Inl e \<Rightarrow> (Inl (BadNumber ''ParseInt'' line e), s)
      | Inr n \<Rightarrow> (Inr (RStr (show_int n)), s))"

text \<open>The number of elements a reply announces, \<open>None\<close> for a nil array.\<close>

definition read_count :: "string \<Rightarrow> resp_error + nat option" where
  "read_count line =
     (case ParseInt line of
        Inl e \<Rightarrow> Inl (BadNumber ''Atoi'' line e)
      | Inr n \<Rightarrow> if n < 0 then Inr None else if n > max_slice then Inl MakePanic else Inr (Some (nat n)))"

lemma readLine_shorter: "readLine s = (x, r) \<Longrightarrow> length r \<le> length s"
  by (auto simp: readLine_def split: option.splits)

lemma read_parts_shorter:
  "length s \<le> k \<Longrightarrow> length (snd (read_int line s)) \<le> k" "length s \<le> k \<Longrightarrow> length (snd (read_bulk line s)) \<le> k"
  by (auto simp: read_int_def read_bulk_def split: sum.splits)

function (sequential)
  read_value :: "string \<Rightarrow> (resp_error + reply) \<times> string" and
  read_elems :: "nat \<Rightarrow> string \<Rightarrow> (resp_error + reply list) \<times> string" where
  "read_value [] = (Inl EndOfInput, [])"
| "read_value (c # s) =
     (if c \<notin> {CHR ''+'', CHR ''-'', CHR '':'', CHR ''$'', CHR ''*''} then (Inl (BadPrefix c), s)
      else case readLine s of
        (Inl e, r) \<Rightarrow> (Inl e, r)
      | (Inr line, r) \<Rightarrow>
          if c = CHR ''+'' then (Inr (RStr line), r)
          else if c = CHR ''-'' then (Inl (ServerError line), r)
          else if c = CHR '':'' then read_int line r
          else if c = CHR ''$'' then read_bulk line r
          else case read_count line of
                 Inl e \<Rightarrow> (Inl e, r)
               | Inr None \<Rightarrow> (Inr RNil, r)
               | Inr (Some n) \<Rightarrow> (case read_elems n r of (Inl e, r') \<Rightarrow> (Inl e, r') | (Inr es, r') \<Rightarrow> (Inr (RArr es), r')))"
| "read_elems 0 s = (Inr [], s)"
| "read_elems (Suc n) s =
     (case read_value s of
        (Inl e, r) \<Rightarrow> (Inl e, r)
      | (Inr v, r) \<Rightarrow> (case read_elems n r of (Inl e, r') \<Rightarrow> (Inl e, r') | (Inr es, r') \<Rightarrow> (Inr (v # es), r')))"
  by pat_completeness auto

termination
proof -
  have shorter: "read_value_read_elems_dom (Inl s) \<Longrightarrow> length (snd (read_value s)) \<le> length s"
    "read_value_read_elems_dom (Inr (n, s)) \<Longrightarrow> length (snd (read_elems n s)) \<le> length s" for n s
  proof (induct s and n s rule: read_value_read_elems.pinduct)
    case (2 c s)
    show ?case
      using 2(1,2) by (simp add: read_value.psimps)
        (fastforce split: prod.splits sum.splits option.splits dest: readLine_shorter intro: read_parts_shorter)
  next
    case (4 n s)
    show ?case using 4 by (fastforce simp: read_elems.psimps split: prod.splits sum.splits)
  qed (simp_all add: read_value.psimps read_elems.psimps)
  have line: "(x, r) = readLine s \<Longrightarrow> length r < Suc (length s)" for x r s
    using readLine_shorter [of s x r] by simp
  have value_le: "(x, r) = read_value s \<Longrightarrow> length (snd (read_value s)) \<le> length s \<Longrightarrow> length r \<noteq> length s \<Longrightarrow> length r < length s" for x r s
    by (metis le_neq_implies_less snd_conv)
  show ?thesis
    by (relation "inv_image (less_than <*lex*> less_than) (case_sum (\<lambda>s. (length s, 0)) (\<lambda>(n, s). (length s, Suc n)))")
      (auto dest: shorter line value_le)
qed

declare read_value.simps(2) [simp del]

section \<open>Commands\<close>

definition resp_line :: "string \<Rightarrow> string" where
  "resp_line s = s @ [cr, nl]"

definition bulk :: "string \<Rightarrow> string" where
  "bulk arg = resp_line (CHR ''$'' # show_nat (length arg)) @ resp_line arg"

definition writeCommand :: "string list \<Rightarrow> string" where
  "writeCommand args = resp_line (CHR ''*'' # show_nat (length args)) @ concat (map bulk args)"

text \<open>The connection: \<open>cn_arrivals\<close> lists what arrives in time for each following command, \<open>cn_stop\<close> is what a read
  past the last byte reports, \<open>cn_broken\<close> what a write reports.\<close>

record redis_conn =
  cn_in :: string
  cn_arrivals :: "string list"
  cn_out :: string
  cn_stop :: string
  cn_broken :: "string option"
  cn_closed :: bool

record fmt_quote =
  fq_str :: "string \<Rightarrow> string"
  fq_byte :: "char \<Rightarrow> string"

fun resp_text :: "fmt_quote \<Rightarrow> string \<Rightarrow> resp_error \<Rightarrow> string" where
  "resp_text q stop EndOfInput = stop"
| "resp_text q stop (ServerError line) = line"
| "resp_text q stop (BadNumber fn line e) = num_text (fq_str q) fn line e"
| "resp_text q stop (BulkTooBig n) = ''redis bulk string size '' @ show_int n @ '' exceeds limit '' @ show_int maxBulkSize"
| "resp_text q stop (BadPrefix c) = ''unsupported redis reply prefix '' @ fq_byte q c"
| "resp_text q stop MakePanic = ''runtime error: makeslice: len out of range''"

datatype call_error = CallErr string | CallPanic string

definition arrive :: "redis_conn \<Rightarrow> redis_conn" where
  "arrive c = c\<lparr>cn_in := cn_in c @ concat (take 1 (cn_arrivals c)), cn_arrivals := drop 1 (cn_arrivals c)\<rparr>"

definition rawCommand :: "fmt_quote \<Rightarrow> string list \<Rightarrow> redis_conn \<Rightarrow> (call_error + reply) \<times> redis_conn" where
  "rawCommand q args c =
     (case cn_broken c of
        Some e \<Rightarrow> (Inl (CallErr e), c)
      | None \<Rightarrow>
          let c = arrive (c\<lparr>cn_out := cn_out c @ writeCommand args\<rparr>) in
          case read_value (cn_in c) of
            (Inl MakePanic, r) \<Rightarrow> (Inl (CallPanic (resp_text q (cn_stop c) MakePanic)), c\<lparr>cn_in := r\<rparr>)
          | (Inl e, r) \<Rightarrow> (Inl (CallErr (resp_text q (cn_stop c) e)), c\<lparr>cn_in := r\<rparr>)
          | (Inr v, r) \<Rightarrow> (Inr v, c\<lparr>cn_in := r\<rparr>))"

fun format_elem :: "nat \<Rightarrow> nat \<Rightarrow> reply \<Rightarrow> string" and formatArray :: "nat \<Rightarrow> nat \<Rightarrow> reply list \<Rightarrow> string" where
  "format_elem depth i (RArr xs) =
     replicate (2 * depth) (CHR '' '') @ show_nat (i + 1) @ '')'' @ [nl] @ formatArray (depth + 1) 0 xs"
| "format_elem depth i (RStr v) = replicate (2 * depth) (CHR '' '') @ show_nat (i + 1) @ '') '' @ v @ [nl]"
| "format_elem depth i RNil = replicate (2 * depth) (CHR '' '') @ show_nat (i + 1) @ '') (nil)'' @ [nl]"
| "formatArray depth i [] = []"
| "formatArray depth i (x # xs) = format_elem depth i x @ formatArray depth (i + 1) xs"

fun formatReply :: "reply \<Rightarrow> string" where
  "formatReply (RStr v) = v"
| "formatReply RNil = ''(nil)''"
| "formatReply (RArr xs) = formatArray 0 0 xs"

definition command :: "fmt_quote \<Rightarrow> string list \<Rightarrow> redis_conn \<Rightarrow> (call_error + string) \<times> redis_conn" where
  "command q args c = map_prod (map_sum id formatReply) id (rawCommand q args c)"

section \<open>The accessor\<close>

record RedisAccessorConfig =
  ac_Target :: string
  ac_Username :: string
  ac_Password :: string
  ac_DB :: int

record RedisAccessor =
  ra_client :: redis_conn
  ra_target :: string

definition to_upper :: "string \<Rightarrow> string" where
  "to_upper s = map upper_char s"

text \<open>A command whose only good answer is \<^verbatim>\<open>OK\<close>; every other outcome closes the connection.\<close>

definition expect_ok :: "fmt_quote \<Rightarrow> string \<Rightarrow> string list \<Rightarrow> redis_conn \<Rightarrow> (call_error + redis_conn)" where
  "expect_ok q name args c =
     (case command q args c of
        (Inl e, c) \<Rightarrow> Inl e
      | (Inr rep, c) \<Rightarrow>
          if to_upper rep \<noteq> ''OK'' then Inl (CallErr (''unexpected '' @ name @ '' reply: '' @ fq_str q rep))
          else Inr c)"

definition auth_args :: "RedisAccessorConfig \<Rightarrow> string list" where
  "auth_args cfg = [''AUTH''] @ (if ac_Username cfg \<noteq> [] then [ac_Username cfg] else []) @ [ac_Password cfg]"

definition NewRedisAccessor ::
  "fmt_quote \<Rightarrow> (string \<Rightarrow> string + redis_conn) \<Rightarrow> RedisAccessorConfig \<Rightarrow> call_error + RedisAccessor" where
  "NewRedisAccessor q dial cfg =
     (case dial (ac_Target cfg) of
        Inl e \<Rightarrow> Inl (CallErr e)
      | Inr c \<Rightarrow>
          (case (if ac_Password cfg \<noteq> [] \<or> ac_Username cfg \<noteq> [] then expect_ok q ''AUTH'' (auth_args cfg) c else Inr c) of
             Inl e \<Rightarrow> Inl e
           | Inr c \<Rightarrow>
               (case (if ac_DB cfg > 0 then expect_ok q ''SELECT'' [''SELECT'', show_int (ac_DB cfg)] c else Inr c) of
                  Inl e \<Rightarrow> Inl e
                | Inr c \<Rightarrow> Inr \<lparr>ra_client = c, ra_target = ac_Target cfg\<rparr>)))"

definition acc_Close :: "RedisAccessor \<Rightarrow> RedisAccessor" where
  "acc_Close a = a\<lparr>ra_client := (ra_client a)\<lparr>cn_closed := True\<rparr>\<rparr>"

definition acc_RawCommand :: "fmt_quote \<Rightarrow> string list \<Rightarrow> RedisAccessor \<Rightarrow> (call_error + reply) \<times> RedisAccessor" where
  "acc_RawCommand q args a = map_prod id (\<lambda>c. a\<lparr>ra_client := c\<rparr>) (rawCommand q args (ra_client a))"

definition acc_Command :: "fmt_quote \<Rightarrow> string list \<Rightarrow> RedisAccessor \<Rightarrow> (call_error + string) \<times> RedisAccessor" where
  "acc_Command q args a = map_prod id (\<lambda>c. a\<lparr>ra_client := c\<rparr>) (command q args (ra_client a))"

definition Ping :: "fmt_quote \<Rightarrow> RedisAccessor \<Rightarrow> call_error option \<times> RedisAccessor" where
  "Ping q a =
     (case acc_Command q [''PING''] a of
        (Inl e, a) \<Rightarrow> (Some e, a)
      | (Inr rep, a) \<Rightarrow>
          (if to_upper rep \<noteq> ''PONG'' then Some (CallErr (''unexpected PING reply: '' @ fq_str q rep)) else None, a))"

section \<open>Reading answers\<close>

type_synonym info = "(string, string) gomap"

definition info_line :: "info \<Rightarrow> string \<Rightarrow> info" where
  "info_line m line =
     (let line = trim_space line in
      if line = [] \<or> prefix ''#'' line then m
      else case index_byte (CHR '':'') line of
             None \<Rightarrow> m
           | Some idx \<Rightarrow> m_set (take idx line) (trim_space (drop (idx + 1) line)) m)"

definition parseInfoToMap :: "string \<Rightarrow> info" where
  "parseInfoToMap raw = foldl info_line [] (split_at nl raw)"

text \<open>A number of an answer: missing, not a number, or its value.\<close>

datatype 'a field = Missing | Bad string | Val 'a

definition info_get :: "fmt_quote \<Rightarrow> string \<Rightarrow> (string \<Rightarrow> num_error + 'a) \<Rightarrow> info \<Rightarrow> string \<Rightarrow> 'a field" where
  "info_get q fn parse info key =
     (case map_of info key of
        None \<Rightarrow> Missing
      | Some v \<Rightarrow> (case parse v of Inl e \<Rightarrow> Bad (num_text (fq_str q) fn v e) | Inr n \<Rightarrow> Val n))"

definition infoGetInt :: "fmt_quote \<Rightarrow> info \<Rightarrow> string \<Rightarrow> int field" where
  "infoGetInt q = info_get q ''Atoi'' ParseInt"

definition infoGetInt64 :: "fmt_quote \<Rightarrow> info \<Rightarrow> string \<Rightarrow> int field" where
  "infoGetInt64 q = info_get q ''ParseInt'' ParseInt"

definition infoGetUint64 :: "fmt_quote \<Rightarrow> info \<Rightarrow> string \<Rightarrow> nat field" where
  "infoGetUint64 q = info_get q ''ParseUint'' ParseUint"

definition Info :: "fmt_quote \<Rightarrow> string \<Rightarrow> RedisAccessor \<Rightarrow> (call_error + info) \<times> RedisAccessor" where
  "Info q sect a = map_prod (map_sum id parseInfoToMap) id (acc_Command q [''INFO'', sect] a)"

definition InfoRaw :: "fmt_quote \<Rightarrow> string \<Rightarrow> RedisAccessor \<Rightarrow> (call_error + string) \<times> RedisAccessor" where
  "InfoRaw q sect a = acc_Command q [''INFO'', sect] a"

definition SlowlogGet :: "fmt_quote \<Rightarrow> int \<Rightarrow> RedisAccessor \<Rightarrow> (call_error + string) \<times> RedisAccessor" where
  "SlowlogGet q count a = acc_Command q [''SLOWLOG'', ''GET'', show_int (if count \<le> 0 then 10 else count)] a"

definition ClientList :: "fmt_quote \<Rightarrow> RedisAccessor \<Rightarrow> (call_error + string) \<times> RedisAccessor" where
  "ClientList q a = acc_Command q [''CLIENT'', ''LIST''] a"

definition ClusterInfo :: "fmt_quote \<Rightarrow> RedisAccessor \<Rightarrow> (call_error + string) \<times> RedisAccessor" where
  "ClusterInfo q a = acc_Command q [''CLUSTER'', ''INFO''] a"

definition ClusterNodes :: "fmt_quote \<Rightarrow> RedisAccessor \<Rightarrow> (call_error + string) \<times> RedisAccessor" where
  "ClusterNodes q a = acc_Command q [''CLUSTER'', ''NODES''] a"

definition DBSize :: "fmt_quote \<Rightarrow> RedisAccessor \<Rightarrow> (call_error + string) \<times> RedisAccessor" where
  "DBSize q a = acc_Command q [''DBSIZE''] a"

section \<open>Settings without secrets\<close>

definition redisConfigDenyList :: "string list" where
  "redisConfigDenyList =
     [''requirepass'', ''masterauth'', ''tls-key-file'', ''tls-key-file-pass'', ''tls-cert-file'', ''tls-ca-cert-file'']"

definition redacted :: string where "redacted = ''***REDACTED***''"

fun reply_type :: "reply \<Rightarrow> string" where
  "reply_type (RStr _) = ''string''"
| "reply_type RNil = ''<nil>''"
| "reply_type (RArr _) = ''[]interface {}''"

fun redact_pairs :: "reply list \<Rightarrow> string + reply list" where
  "redact_pairs (k # v # xs) =
     (case k of
        RStr key \<Rightarrow>
          (case redact_pairs xs of
             Inl e \<Rightarrow> Inl e
           | Inr ys \<Rightarrow> Inr (k # (if trim_space key \<in> set redisConfigDenyList then RStr redacted else v) # ys))
      | _ \<Rightarrow> Inl (''unexpected CONFIG GET key type '' @ reply_type k))"
| "redact_pairs xs = Inr xs"

fun formatRedactedConfigReply :: "reply \<Rightarrow> string + string" where
  "formatRedactedConfigReply (RArr arr) = map_sum id (\<lambda>xs. formatReply (RArr xs)) (redact_pairs arr)"
| "formatRedactedConfigReply r = Inl (''unexpected CONFIG GET reply type '' @ reply_type r)"

definition ConfigGet :: "fmt_quote \<Rightarrow> string \<Rightarrow> RedisAccessor \<Rightarrow> (call_error + string) \<times> RedisAccessor" where
  "ConfigGet q pattern a =
     (case acc_RawCommand q [''CONFIG'', ''GET'', if pattern = [] then ''*'' else pattern] a of
        (Inl e, a) \<Rightarrow> (Inl e, a)
      | (Inr rep, a) \<Rightarrow> (map_sum CallErr id (formatRedactedConfigReply rep), a))"

fun filter_lines :: "bool \<Rightarrow> string list \<Rightarrow> string list" where
  "filter_lines redactNext [] = []"
| "filter_lines redactNext (line # ls) =
     (if redactNext then redacted # filter_lines False ls
      else if trim_space line \<in> set redisConfigDenyList then line # filter_lines True ls
      else line # filter_lines False ls)"

definition filterSensitiveConfig :: "string \<Rightarrow> string" where
  "filterSensitiveConfig raw = join [nl] (filter_lines False (split_at nl raw))"

section \<open>Facts\<close>

text \<open>What a server sends for a value, following the protocol: strings as bulk strings, a nil, arrays.\<close>

fun encode :: "reply \<Rightarrow> string" where
  "encode (RStr s) = bulk s"
| "encode RNil = resp_line ''$-1''"
| "encode (RArr xs) = resp_line (CHR ''*'' # show_nat (length xs)) @ concat (map encode xs)"

fun fits :: "reply \<Rightarrow> bool" where
  "fits (RStr s) \<longleftrightarrow> int (length s) \<le> maxBulkSize"
| "fits RNil \<longleftrightarrow> True"
| "fits (RArr xs) \<longleftrightarrow> int (length xs) \<le> max_slice \<and> list_all fits xs"

lemma readLine_line:
  assumes "nl \<notin> set l"
  shows "readLine (resp_line l @ s) = (Inr l, s)"
proof -
  have "nl \<notin> set (l @ [cr])" using assms by (simp add: nl_def)
  then have "index_byte nl ((l @ [cr]) @ nl # s) = Some (length (l @ [cr]))" by (rule index_byte_append)
  then show ?thesis by (simp add: readLine_def resp_line_def trim_suffix_def)
qed

lemma nl_not_show [simp]: "nl \<notin> set (show_nat n)"
proof
  assume "nl \<in> set (show_nat n)"
  then obtain d :: nat where d: "d < 10" "nl = char_of (48 + d)" using show_nat_digits by blast
  have "byte nl = byte (char_of (48 + d))" by (subst d(2)) (rule refl)
  also have "\<dots> = 48 + d" using d(1) by simp
  finally show False by (simp add: nl_def)
qed

lemma ParseInt_show_nat: "n < 2 ^ 63 \<Longrightarrow> ParseInt (show_nat n) = Inr (int n)"
  using ParseInt_show [of "int n"] by (simp add: show_int_def in_i64_def)

lemma read_value_bulk:
  assumes "int (length s) \<le> maxBulkSize"
  shows "read_value (bulk s @ t) = (Inr (RStr s), t)"
proof -
  have p: "ParseInt (show_nat (length s)) = Inr (int (length s))"
    using assms by (intro ParseInt_show_nat) (simp add: maxBulkSize_def)
  have "readLine (resp_line (show_nat (length s)) @ resp_line s @ t) = (Inr (show_nat (length s)), resp_line s @ t)"
    by (rule readLine_line) simp
  moreover have "bulk s @ t = CHR ''$'' # resp_line (show_nat (length s)) @ resp_line s @ t"
    by (simp add: bulk_def resp_line_def)
  ultimately show ?thesis
    using assms p by (simp add: read_value.simps(2) read_bulk_def resp_line_def)
qed

lemma read_value_array:
  assumes "int n \<le> max_slice"
  shows "read_value (resp_line (CHR ''*'' # show_nat n) @ s) =
    (case read_elems n s of (Inl e, r') \<Rightarrow> (Inl e, r') | (Inr es, r') \<Rightarrow> (Inr (RArr es), r'))"
proof -
  have "ParseInt (show_nat n) = Inr (int n)" using assms by (intro ParseInt_show_nat) (simp add: max_slice_def)
  moreover have "readLine (resp_line (show_nat n) @ s) = (Inr (show_nat n), s)" by (rule readLine_line) simp
  moreover have "resp_line (CHR ''*'' # show_nat n) @ s = CHR ''*'' # resp_line (show_nat n) @ s"
    by (simp add: resp_line_def)
  ultimately show ?thesis
    using assms by (simp add: read_value.simps(2) read_count_def split: prod.splits sum.splits)
qed

lemma read_elems_concat:
  assumes "\<And>x t. x \<in> set xs \<Longrightarrow> read_value (f x @ t) = (Inr (g x), t)"
  shows "read_elems (length xs) (concat (map f xs) @ t) = (Inr (map g xs), t)"
  using assms by (induction xs) simp_all

lemma read_value_encode: "fits r \<Longrightarrow> read_value (encode r @ t) = (Inr r, t)"
proof (induction r arbitrary: t)
  case (RStr s)
  then show ?case by (simp add: read_value_bulk)
next
  case RNil
  have "readLine (resp_line ''-1'' @ t) = (Inr ''-1'', t)" by (rule readLine_line) (simp add: nl_def)
  moreover have "ParseInt ''-1'' = Inr (- 1)"
    using ParseInt_show [of "- 1"] by (simp add: in_i64_def show_int_def show_nat_step [of "Suc 0"] char_of_def bit_iff_odd)
  ultimately show ?case by (simp add: read_value.simps(2) read_bulk_def resp_line_def)
next
  case (RArr xs)
  have "read_elems (length xs) (concat (map encode xs) @ t) = (Inr (map id xs), t)"
    using RArr by (intro read_elems_concat) (auto simp: list_all_iff)
  then show ?case using RArr.prems by (simp add: read_value_array)
qed

section \<open>Properties\<close>

text \<open>C28: the reader gives back every value a server encodes, whatever follows it in the stream, and reads
  nothing of what follows. A command the plugin writes is such an encoding, of the list of its arguments.\<close>

theorem resp_round_trip:
  assumes "fits r"
  shows "read_value (encode r @ t) = (Inr r, t) \<and> writeCommand args = encode (RArr (map RStr args))"
proof
  show "read_value (encode r @ t) = (Inr r, t)" using assms by (rule read_value_encode)
  show "writeCommand args = encode (RArr (map RStr args))" by (simp add: writeCommand_def o_def)
qed

theorem resp_round_trip_witness:
  "read_value (encode (RArr [RStr ''0'', RArr [RStr ''a b'', RNil]]) @ ''+OK'') = (Inr (RArr [RStr ''0'', RArr [RStr ''a b'', RNil]]), ''+OK'') \<and>
   writeCommand [''PING''] = encode (RArr (map RStr [''PING'']))"
  by (rule resp_round_trip) (simp add: maxBulkSize_def max_slice_def)

text \<open>A malformed array header makes the plugin allocate whatever the header says: the limit that stops
  oversized bulk strings does not exist for arrays.\<close>

theorem array_size_unchecked:
  assumes "nl \<notin> set line" "ParseInt line = Inr n" "max_slice < n"
  shows "read_value (CHR ''*'' # resp_line line @ t) = (Inl MakePanic, t)"
  using assms readLine_line [OF assms(1), of t]
  by (simp add: read_value.simps(2) read_count_def max_slice_def)

text \<open>Two lists of settings that differ only in the values of secret settings.\<close>

fun same_public :: "reply list \<Rightarrow> reply list \<Rightarrow> bool" where
  "same_public (k # v # xs) (k' # v' # ys) \<longleftrightarrow>
     k = k' \<and> (v = v' \<or> (\<exists>key. k = RStr key \<and> trim_space key \<in> set redisConfigDenyList)) \<and> same_public xs ys"
| "same_public xs ys \<longleftrightarrow> xs = ys"

lemma redact_same: "same_public xs ys \<Longrightarrow> redact_pairs xs = redact_pairs ys"
  by (induction xs ys rule: same_public.induct) (auto split: reply.splits)

text \<open>C29: what a diagnosis sees of the settings does not depend on the secrets: two servers that differ only in
  the values of secret settings give the same text.\<close>

theorem config_hides_secrets:
  assumes "same_public xs ys"
  shows "formatRedactedConfigReply (RArr xs) = formatRedactedConfigReply (RArr ys)"
  using redact_same [OF assms] by simp

theorem config_hides_secrets_witness:
  "formatRedactedConfigReply (RArr [RStr ''requirepass'', RStr ''s3cret'', RStr ''port'', RStr ''6379'']) =
   formatRedactedConfigReply (RArr [RStr ''requirepass'', RStr ''other'', RStr ''port'', RStr ''6379''])"
proof (rule config_hides_secrets)
  have "trim_space ''requirepass'' \<in> set redisConfigDenyList" by code_simp
  then show "same_public [RStr ''requirepass'', RStr ''s3cret'', RStr ''port'', RStr ''6379'']
     [RStr ''requirepass'', RStr ''other'', RStr ''port'', RStr ''6379'']" by simp
qed

text \<open>C30: A connection stays in use after a read timed out, but the late answer is still on its way: the next
  command is given the answer to the one that failed.\<close>

theorem late_answer_shifts:
  assumes "fits r" "cn_in c = []" "cn_broken c = None" "cn_arrivals c = [] # (encode r @ late) # rest"
  shows "\<exists>c1 c2. rawCommand q a1 c = (Inl (CallErr (cn_stop c)), c1) \<and> rawCommand q a2 c1 = (Inr r, c2) \<and> cn_in c2 = late"
  using assms read_value_encode [OF assms(1), of late]
  by (simp add: rawCommand_def arrive_def)

theorem late_answer_shifts_witness:
  "\<exists>c1 c2. rawCommand \<lparr>fq_str = id, fq_byte = (\<lambda>c. [c])\<rparr> [''INFO'', ''server'']
       \<lparr>cn_in = [], cn_arrivals = [[], encode (RStr ''redis_mode:standalone'') @ encode (RStr ''role:master'')], cn_out = [],
        cn_stop = ''i/o timeout'', cn_broken = None, cn_closed = False\<rparr> = (Inl (CallErr ''i/o timeout''), c1) \<and>
     rawCommand \<lparr>fq_str = id, fq_byte = (\<lambda>c. [c])\<rparr> [''INFO'', ''replication''] c1 = (Inr (RStr ''redis_mode:standalone''), c2) \<and>
     cn_in c2 = encode (RStr ''role:master'')"
  using late_answer_shifts [of "RStr ''redis_mode:standalone''"
    "\<lparr>cn_in = [], cn_arrivals = [[], encode (RStr ''redis_mode:standalone'') @ encode (RStr ''role:master'')], cn_out = [],
        cn_stop = ''i/o timeout'', cn_broken = None, cn_closed = False\<rparr>" "encode (RStr ''role:master'')" "[]"
    "\<lparr>fq_str = id, fq_byte = (\<lambda>c. [c])\<rparr>" "[''INFO'', ''server'']" "[''INFO'', ''replication'']"]
  by (simp add: maxBulkSize_def)

end
