(* ===== verification/Tls_Config.thy ===== *)
theory Tls_Config
  imports Strconv Pattern_Filter
begin

text \<open>
  \<^verbatim>\<open>digcore/pkg/tls/config.go\<close> and \<^verbatim>\<open>common.go\<close>: from TLS settings to a \<^verbatim>\<open>tls.Config\<close>. Reading certificates from files is
  a record of functions; a version is the number the protocol gives it, a cipher suite its name.
\<close>

section \<open>Model\<close>

record ClientConfig =
  tc_UseTLS :: "bool option"
  tc_TLSCA :: string
  tc_TLSCert :: string
  tc_TLSKey :: string
  tc_TLSKeyPwd :: string
  tc_InsecureSkipVerify :: "bool option"
  tc_ServerName :: string
  tc_TLSMinVersion :: string
  tc_TLSMaxVersion :: string

record tls_ServerConfig =
  ts_TLSCert :: string
  ts_TLSKey :: string
  ts_TLSAllowedCACerts :: "string list"
  ts_TLSCipherSuites :: "string list"
  ts_TLSMinVersion :: string
  ts_TLSMaxVersion :: string
  ts_TLSAllowedDNSNames :: "string list"

text \<open>The parts of a \<^verbatim>\<open>tls.Config\<close> these functions set; version 0 is the library's default.\<close>

record ('pool, 'cert) tls_config =
  tl_InsecureSkipVerify :: bool
  tl_RootCAs :: "'pool option"
  tl_ClientCAs :: "'pool option"
  tl_RequireClientCert :: bool
  tl_Certificates :: "'cert list"
  tl_ServerName :: string
  tl_CipherSuites :: "string list"
  tl_MinVersion :: nat
  tl_MaxVersion :: nat
  tl_VerifyNames :: bool

definition zero_tls :: "('pool, 'cert) tls_config" where
  "zero_tls = \<lparr>tl_InsecureSkipVerify = False, tl_RootCAs = None, tl_ClientCAs = None, tl_RequireClientCert = False,
     tl_Certificates = [], tl_ServerName = [], tl_CipherSuites = [], tl_MinVersion = 0, tl_MaxVersion = 0, tl_VerifyNames = False\<rparr>"

record ('pool, 'cert) cert_files =
  cf_quote :: "string \<Rightarrow> string"
  cf_quote_rune :: "nat \<Rightarrow> string"
  cf_empty :: 'pool
  cf_read :: "string \<Rightarrow> string + string"
  cf_append :: "string \<Rightarrow> 'pool \<Rightarrow> 'pool option"
  cf_keypair :: "string \<Rightarrow> string \<Rightarrow> string + 'cert"

definition VersionTLS10 :: nat where "VersionTLS10 = 0x0301"
definition VersionTLS11 :: nat where "VersionTLS11 = 0x0302"
definition VersionTLS12 :: nat where "VersionTLS12 = 0x0303"
definition VersionTLS13 :: nat where "VersionTLS13 = 0x0304"

fun add_certs :: "('pool, 'cert) cert_files \<Rightarrow> string list \<Rightarrow> 'pool \<Rightarrow> string + 'pool" where
  "add_certs cf [] pool = Inr pool"
| "add_certs cf (f # fs) pool =
     (case cf_read cf f of
        Inl e \<Rightarrow> Inl (''could not read certificate '' @ cf_quote cf f @ '': '' @ e)
      | Inr pem \<Rightarrow>
          (case cf_append cf pem pool of
             None \<Rightarrow> Inl (''could not parse any PEM certificates '' @ cf_quote cf f @ '': <nil>'')
           | Some pool' \<Rightarrow> add_certs cf fs pool'))"

definition makeCertPool :: "('pool, 'cert) cert_files \<Rightarrow> string list \<Rightarrow> string + 'pool" where
  "makeCertPool cf certFiles = add_certs cf certFiles (cf_empty cf)"

definition loadCertificate :: "('pool, 'cert) cert_files \<Rightarrow> string \<Rightarrow> string \<Rightarrow> ('pool, 'cert) tls_config \<Rightarrow> string + ('pool, 'cert) tls_config" where
  "loadCertificate cf certFile keyFile config =
     (case cf_keypair cf certFile keyFile of
        Inl e \<Rightarrow> Inl (''could not load keypair '' @ certFile @ '':'' @ keyFile @ '': '' @ e)
      | Inr cert \<Rightarrow> Inr (config\<lparr>tl_Certificates := [cert]\<rparr>))"

definition client_enabled :: "ClientConfig \<Rightarrow> bool" where
  "client_enabled c =
     (case tc_UseTLS c of
        Some b \<Rightarrow> b
      | None \<Rightarrow> tc_InsecureSkipVerify c \<noteq> None \<or> tc_TLSCA c \<noteq> [] \<or> tc_TLSCert c \<noteq> [] \<or> tc_TLSKey c \<noteq> [] \<or>
          tc_ServerName c \<noteq> [] \<or> tc_TLSMinVersion c \<noteq> [] \<or> tc_TLSMaxVersion c \<noteq> [])"

text \<open>The version a client setting names; an unknown name keeps the library's default.\<close>

definition client_version :: "string \<Rightarrow> nat" where
  "client_version v =
     (if v = ''1.0'' then VersionTLS10 else if v = ''1.1'' then VersionTLS11
      else if v = ''1.2'' then VersionTLS12 else if v = ''1.3'' then VersionTLS13 else 0)"

definition client_TLSConfig :: "('pool, 'cert) cert_files \<Rightarrow> ClientConfig \<Rightarrow> string + ('pool, 'cert) tls_config option" where
  "client_TLSConfig cf c =
     (if \<not> client_enabled c then Inr None
      else
        sbind (if tc_TLSCA c \<noteq> [] then map_sum id Some (makeCertPool cf [tc_TLSCA c]) else Inr None) (\<lambda>pool.
        let t = zero_tls\<lparr>tl_InsecureSkipVerify := tc_InsecureSkipVerify c = Some True, tl_RootCAs := pool\<rparr> in
        sbind (if tc_TLSCert c \<noteq> [] \<and> tc_TLSKey c \<noteq> [] then loadCertificate cf (tc_TLSCert c) (tc_TLSKey c) t else Inr t) (\<lambda>t.
        Inr (Some (t\<lparr>tl_ServerName := tc_ServerName c, tl_MinVersion := client_version (tc_TLSMinVersion c),
                     tl_MaxVersion := client_version (tc_TLSMaxVersion c)\<rparr>)))))"

definition tlsVersionMap :: "(string \<times> nat) list" where
  "tlsVersionMap = [(''TLS10'', VersionTLS10), (''TLS11'', VersionTLS11), (''TLS12'', VersionTLS12), (''TLS13'', VersionTLS13)]"

definition ParseTLSVersion :: "(string \<Rightarrow> string) \<Rightarrow> string \<Rightarrow> string + nat" where
  "ParseTLSVersion quote v =
     (case map_of tlsVersionMap v of Some n \<Rightarrow> Inr n | None \<Rightarrow> Inl (''unsupported version '' @ quote v))"

definition tlsCipherMap :: "string list" where
  "tlsCipherMap =
     [''TLS_ECDHE_RSA_WITH_CHACHA20_POLY1305'', ''TLS_ECDHE_ECDSA_WITH_CHACHA20_POLY1305'', ''TLS_ECDHE_RSA_WITH_AES_128_GCM_SHA256'',
      ''TLS_ECDHE_ECDSA_WITH_AES_128_GCM_SHA256'', ''TLS_ECDHE_RSA_WITH_AES_256_GCM_SHA384'', ''TLS_ECDHE_ECDSA_WITH_AES_256_GCM_SHA384'',
      ''TLS_ECDHE_RSA_WITH_AES_128_CBC_SHA256'', ''TLS_ECDHE_RSA_WITH_AES_128_CBC_SHA'', ''TLS_ECDHE_ECDSA_WITH_AES_128_CBC_SHA256'',
      ''TLS_ECDHE_ECDSA_WITH_AES_128_CBC_SHA'', ''TLS_ECDHE_RSA_WITH_AES_256_CBC_SHA'', ''TLS_ECDHE_ECDSA_WITH_AES_256_CBC_SHA'',
      ''TLS_RSA_WITH_AES_128_GCM_SHA256'', ''TLS_RSA_WITH_AES_256_GCM_SHA384'', ''TLS_RSA_WITH_AES_128_CBC_SHA256'',
      ''TLS_RSA_WITH_AES_128_CBC_SHA'', ''TLS_RSA_WITH_AES_256_CBC_SHA'', ''TLS_ECDHE_RSA_WITH_3DES_EDE_CBC_SHA'',
      ''TLS_RSA_WITH_3DES_EDE_CBC_SHA'', ''TLS_RSA_WITH_RC4_128_SHA'', ''TLS_ECDHE_RSA_WITH_RC4_128_SHA'',
      ''TLS_ECDHE_ECDSA_WITH_RC4_128_SHA'', ''TLS_AES_128_GCM_SHA256'', ''TLS_AES_256_GCM_SHA384'', ''TLS_CHACHA20_POLY1305_SHA256'']"

fun ParseCiphers :: "(string \<Rightarrow> string) \<Rightarrow> string list \<Rightarrow> string + string list" where
  "ParseCiphers quote [] = Inr []"
| "ParseCiphers quote (c # cs) =
     (if c \<notin> set tlsCipherMap then Inl (''unsupported cipher '' @ quote c) else map_sum id (Cons c) (ParseCiphers quote cs))"

definition named_version :: "(string \<Rightarrow> string) \<Rightarrow> string \<Rightarrow> string \<Rightarrow> string + nat" where
  "named_version quote what v =
     (if v = [] then Inr 0
      else case ParseTLSVersion quote v of
             Inl e \<Rightarrow> Inl (''could not parse tls '' @ what @ '' version '' @ quote v @ '': '' @ e)
           | Inr n \<Rightarrow> Inr n)"

text \<open>The authorities, the key pair and the cipher suites of a server.\<close>

definition server_certs :: "('pool, 'cert) cert_files \<Rightarrow> tls_ServerConfig \<Rightarrow> string + ('pool, 'cert) tls_config" where
  "server_certs cf c =
     sbind (if ts_TLSAllowedCACerts c \<noteq> []
            then map_sum id (\<lambda>p. zero_tls\<lparr>tl_ClientCAs := Some p, tl_RequireClientCert := True\<rparr>) (makeCertPool cf (ts_TLSAllowedCACerts c))
            else Inr zero_tls) (\<lambda>t.
     sbind (if ts_TLSCert c \<noteq> [] \<and> ts_TLSKey c \<noteq> [] then loadCertificate cf (ts_TLSCert c) (ts_TLSKey c) t else Inr t) (\<lambda>t.
     case ParseCiphers (cf_quote cf) (ts_TLSCipherSuites c) of
       Inl e \<Rightarrow> Inl (''could not parse server cipher suites '' @ join '','' (ts_TLSCipherSuites c) @ '': '' @ e)
     | Inr cs \<Rightarrow> Inr (t\<lparr>tl_CipherSuites := cs\<rparr>)))"

definition server_TLSConfig :: "('pool, 'cert) cert_files \<Rightarrow> tls_ServerConfig \<Rightarrow> string + ('pool, 'cert) tls_config option" where
  "server_TLSConfig cf c =
     (if ts_TLSCert c = [] \<and> ts_TLSKey c = [] \<and> ts_TLSAllowedCACerts c = [] then Inr None
      else
        sbind (server_certs cf c) (\<lambda>t.
        sbind (named_version (cf_quote cf) ''max'' (ts_TLSMaxVersion c)) (\<lambda>hi.
        sbind (named_version (cf_quote cf) ''min'' (ts_TLSMinVersion c)) (\<lambda>lo.
        sbind (refuse (lo \<noteq> 0 \<and> hi \<noteq> 0 \<and> lo > hi)
                (''tls min version '' @ cf_quote_rune cf lo @ '' can't be greater than tls max version '' @ cf_quote_rune cf hi)) (\<lambda>_.
        Inr (Some (t\<lparr>tl_MinVersion := lo, tl_MaxVersion := hi,
                     tl_VerifyNames := (ts_TLSAllowedCACerts c \<noteq> [] \<and> ts_TLSAllowedDNSNames c \<noteq> [])\<rparr>)))))))"

text \<open>The check of a client certificate: one of its names must be allowed.\<close>

definition verifyPeerCertificate :: "string list \<Rightarrow> tls_ServerConfig \<Rightarrow> bool" where
  "verifyPeerCertificate dns_names c \<longleftrightarrow> (\<exists>name \<in> set dns_names. Contains name (ts_TLSAllowedDNSNames c))"

section \<open>Facts\<close>

lemma ParseCiphers_known: "ParseCiphers q cs = Inr xs \<Longrightarrow> set xs \<subseteq> set tlsCipherMap"
proof (induction cs arbitrary: xs)
  case (Cons c cs)
  then obtain ys where "c \<in> set tlsCipherMap" "ParseCiphers q cs = Inr ys" "xs = c # ys"
    by (cases "ParseCiphers q cs") (auto simp del: set_simps split: if_splits)
  with Cons.IH show ?case by auto
qed simp

lemma server_certs_sound:
  assumes "server_certs cf c = Inr t"
  shows "(tl_RequireClientCert t \<longleftrightarrow> ts_TLSAllowedCACerts c \<noteq> []) \<and> set (tl_CipherSuites t) \<subseteq> set tlsCipherMap"
proof -
  from assms obtain t1 t2 cs where
    t1: "(if ts_TLSAllowedCACerts c \<noteq> []
          then map_sum id (\<lambda>p. zero_tls\<lparr>tl_ClientCAs := Some p, tl_RequireClientCert := True\<rparr>) (makeCertPool cf (ts_TLSAllowedCACerts c))
          else Inr zero_tls) = Inr t1" and
    t2: "(if ts_TLSCert c \<noteq> [] \<and> ts_TLSKey c \<noteq> [] then loadCertificate cf (ts_TLSCert c) (ts_TLSKey c) t1 else Inr t1) = Inr t2" and
    cs: "ParseCiphers (cf_quote cf) (ts_TLSCipherSuites c) = Inr cs" and t: "t = t2\<lparr>tl_CipherSuites := cs\<rparr>"
    unfolding server_certs_def sbind_Inr_iff
    by (cases "ParseCiphers (cf_quote cf) (ts_TLSCipherSuites c)") auto
  have "tl_RequireClientCert t1 \<longleftrightarrow> ts_TLSAllowedCACerts c \<noteq> []"
    using t1 by (cases "makeCertPool cf (ts_TLSAllowedCACerts c)") (auto simp: zero_tls_def split: if_splits)
  moreover have "tl_RequireClientCert t2 = tl_RequireClientCert t1"
    using t2 by (auto simp: loadCertificate_def split: if_splits sum.splits)
  ultimately show ?thesis using ParseCiphers_known [OF cs] t by simp
qed

section \<open>Properties\<close>

text \<open>A client setting that names no version the code knows is dropped without an error: the connection then
  uses the library's default range.\<close>

theorem client_version_dropped:
  assumes "client_enabled c" "tc_TLSCA c = []" "tc_TLSCert c = []" "tc_TLSMinVersion c \<notin> {''1.0'', ''1.1'', ''1.2'', ''1.3''}"
  shows "\<exists>t. client_TLSConfig cf c = Inr (Some t) \<and> tl_MinVersion t = 0"
  using assms by (simp add: client_TLSConfig_def client_version_def)

text \<open>A server configuration that is built asks for a certificate exactly when authorities are configured, and
  its range of versions is not empty.\<close>

theorem server_config_sound:
  assumes "server_TLSConfig cf c = Inr (Some t)"
  shows "(tl_RequireClientCert t \<longleftrightarrow> ts_TLSAllowedCACerts c \<noteq> []) \<and>
    (tl_VerifyNames t \<longrightarrow> tl_RequireClientCert t) \<and>
    (tl_MinVersion t = 0 \<or> tl_MaxVersion t = 0 \<or> tl_MinVersion t \<le> tl_MaxVersion t) \<and>
    set (tl_CipherSuites t) \<subseteq> set tlsCipherMap"
proof -
  from assms obtain t0 hi lo where t0: "server_certs cf c = Inr t0" and ord: "\<not> (lo \<noteq> 0 \<and> hi \<noteq> 0 \<and> lo > hi)"
    and t: "t = t0\<lparr>tl_MinVersion := lo, tl_MaxVersion := hi,
      tl_VerifyNames := (ts_TLSAllowedCACerts c \<noteq> [] \<and> ts_TLSAllowedDNSNames c \<noteq> [])\<rparr>"
    by (auto simp: server_TLSConfig_def split: if_splits)
  show ?thesis using server_certs_sound [OF t0] ord t by auto
qed

end
