(* ===== verification/Redis_Config.thy ===== *)
theory Redis_Config
  imports Redis_Resp Tls_Config Events
begin

text \<open>
  \<^verbatim>\<open>plugins/redis/types.go\<close> and \<^verbatim>\<open>config.go\<close>: the settings of the Redis plugin, the merge of a shared partial into an
  instance, defaults, validation and the normal form of a target. The struct types that only differ in
  their name share a record: a pair of thresholds, an expectation with a severity, a switch with a
  severity. A \<^verbatim>\<open>*bool\<close> is an option.
\<close>

section \<open>Sizes\<close>

text \<open>\<^verbatim>\<open>config.Size.String\<close>: \<^verbatim>\<open>float64(s)/float64(unit)\<close> is exact once \<^verbatim>\<open>s\<close> is rounded, the unit being a power of two.\<close>

definition in_units :: "int \<Rightarrow> nat \<Rightarrow> string" where
  "in_units s unit =
     (let tenths = round_div (10 * float64_of_nat (nat s)) unit in show_nat (tenths div 10) @ ''.'' @ show_nat (tenths mod 10))"

definition Size_String :: "int \<Rightarrow> string" where
  "Size_String s =
     (if s \<ge> 2 ^ 40 then in_units s (2 ^ 40) @ ''TB''
      else if s \<ge> 2 ^ 30 then in_units s (2 ^ 30) @ ''GB''
      else if s \<ge> 2 ^ 20 then in_units s (2 ^ 20) @ ''MB''
      else if s \<ge> 2 ^ 10 then in_units s (2 ^ 10) @ ''KB''
      else show_int s @ ''B'')"

section \<open>Settings\<close>

record CountCheck =
  ck_WarnGe :: int
  ck_CriticalGe :: int

record MinCountCheck =
  mk_WarnLt :: int
  mk_CriticalLt :: int

record ExpectCheck =
  ex_Expect :: string
  ex_Severity :: string

record FlagCheck =
  fl_Flag :: "bool option"
  fl_Severity :: string

type_synonym ResponseTimeCheck = CountCheck
type_synonym MemoryUsageCheck = CountCheck
type_synonym ReplLagCheck = CountCheck
type_synonym PercentCheck = CountCheck
type_synonym OpsPerSecondCheck = CountCheck
type_synonym RoleCheck = ExpectCheck
type_synonym MasterLinkCheck = ExpectCheck
type_synonym PersistenceCheck = FlagCheck
type_synonym ClusterStateCheck = FlagCheck

record redis_settings =
  rs_Concurrency :: int
  rs_Timeout :: duration
  rs_ReadTimeout :: duration
  rs_Username :: string
  rs_Password :: string
  rs_DB :: int
  rs_Mode :: string
  rs_ClusterName :: string
  rs_ClientConfig :: ClientConfig
  rs_Connectivity :: string
  rs_ResponseTime :: ResponseTimeCheck
  rs_Role :: RoleCheck
  rs_ReplLag :: ReplLagCheck
  rs_ConnectedClients :: CountCheck
  rs_BlockedClients :: CountCheck
  rs_UsedMemory :: MemoryUsageCheck
  rs_UsedMemoryPct :: PercentCheck
  rs_RejectedConn :: CountCheck
  rs_MasterLink :: MasterLinkCheck
  rs_ConnectedSlaves :: MinCountCheck
  rs_EvictedKeys :: CountCheck
  rs_ExpiredKeys :: CountCheck
  rs_OpsPerSecond :: OpsPerSecondCheck
  rs_Persistence :: PersistenceCheck
  rs_ClusterState :: ClusterStateCheck
  rs_ClusterTopology :: "bool option"

record Partial = redis_settings +
  pt_ID :: string

record redisCounterSnapshot =
  sn_evictedKeys :: nat
  sn_expiredKeys :: nat
  sn_rejectedConn :: nat

record redis_Instance = redis_settings +
  ri_Partial :: string
  ri_Targets :: "string list"
  ri_prevStats :: "(string, redisCounterSnapshot) gomap"
  ri_initialized :: "(string, bool) gomap"

definition redisModeAuto :: string where "redisModeAuto = ''auto''"
definition redisModeStandalone :: string where "redisModeStandalone = ''standalone''"
definition redisModeCluster :: string where "redisModeCluster = ''cluster''"

lemmas mode_defs = redisModeAuto_def redisModeStandalone_def redisModeCluster_def

section \<open>Partials\<close>

definition or_int :: "int \<Rightarrow> int \<Rightarrow> int" where "or_int dst src = (if dst = 0 then src else dst)"
definition or_str :: "string \<Rightarrow> string \<Rightarrow> string" where "or_str dst src = (if dst = [] then src else dst)"
definition or_flag :: "bool option \<Rightarrow> bool option \<Rightarrow> bool option" where "or_flag dst src = (if dst = None then src else dst)"

definition mergeCountCheck :: "CountCheck \<Rightarrow> CountCheck \<Rightarrow> CountCheck" where
  "mergeCountCheck dst src =
     \<lparr>ck_WarnGe = or_int (ck_WarnGe dst) (ck_WarnGe src), ck_CriticalGe = or_int (ck_CriticalGe dst) (ck_CriticalGe src)\<rparr>"

definition mergeMinCountCheck :: "MinCountCheck \<Rightarrow> MinCountCheck \<Rightarrow> MinCountCheck" where
  "mergeMinCountCheck dst src =
     \<lparr>mk_WarnLt = or_int (mk_WarnLt dst) (mk_WarnLt src), mk_CriticalLt = or_int (mk_CriticalLt dst) (mk_CriticalLt src)\<rparr>"

definition mergeRoleCheck :: "ExpectCheck \<Rightarrow> ExpectCheck \<Rightarrow> ExpectCheck" where
  "mergeRoleCheck dst src =
     \<lparr>ex_Expect = or_str (ex_Expect dst) (ex_Expect src), ex_Severity = or_str (ex_Severity dst) (ex_Severity src)\<rparr>"

definition mergePersistenceCheck :: "FlagCheck \<Rightarrow> FlagCheck \<Rightarrow> FlagCheck" where
  "mergePersistenceCheck dst src =
     \<lparr>fl_Flag = or_flag (fl_Flag dst) (fl_Flag src), fl_Severity = or_str (fl_Severity dst) (fl_Severity src)\<rparr>"

definition mergeClientConfig :: "ClientConfig \<Rightarrow> ClientConfig \<Rightarrow> ClientConfig" where
  "mergeClientConfig dst src =
     \<lparr>tc_UseTLS = or_flag (tc_UseTLS dst) (tc_UseTLS src), tc_TLSCA = or_str (tc_TLSCA dst) (tc_TLSCA src),
      tc_TLSCert = or_str (tc_TLSCert dst) (tc_TLSCert src), tc_TLSKey = or_str (tc_TLSKey dst) (tc_TLSKey src),
      tc_TLSKeyPwd = or_str (tc_TLSKeyPwd dst) (tc_TLSKeyPwd src),
      tc_InsecureSkipVerify = or_flag (tc_InsecureSkipVerify dst) (tc_InsecureSkipVerify src),
      tc_ServerName = or_str (tc_ServerName dst) (tc_ServerName src),
      tc_TLSMinVersion = or_str (tc_TLSMinVersion dst) (tc_TLSMinVersion src),
      tc_TLSMaxVersion = or_str (tc_TLSMaxVersion dst) (tc_TLSMaxVersion src)\<rparr>"

definition merge_partial :: "redis_Instance \<Rightarrow> Partial \<Rightarrow> redis_Instance" where
  "merge_partial ins p =
     ins\<lparr>rs_Concurrency := or_int (rs_Concurrency ins) (rs_Concurrency p),
         rs_Timeout := or_int (rs_Timeout ins) (rs_Timeout p),
         rs_ReadTimeout := or_int (rs_ReadTimeout ins) (rs_ReadTimeout p),
         rs_Username := or_str (rs_Username ins) (rs_Username p),
         rs_Password := or_str (rs_Password ins) (rs_Password p),
         rs_DB := or_int (rs_DB ins) (rs_DB p),
         rs_Mode := or_str (rs_Mode ins) (rs_Mode p),
         rs_ClusterName := or_str (rs_ClusterName ins) (rs_ClusterName p),
         rs_ClientConfig := mergeClientConfig (rs_ClientConfig ins) (rs_ClientConfig p),
         rs_Connectivity := or_str (rs_Connectivity ins) (rs_Connectivity p),
         rs_ResponseTime := mergeCountCheck (rs_ResponseTime ins) (rs_ResponseTime p),
         rs_Role := mergeRoleCheck (rs_Role ins) (rs_Role p),
         rs_ReplLag := mergeCountCheck (rs_ReplLag ins) (rs_ReplLag p),
         rs_ConnectedClients := mergeCountCheck (rs_ConnectedClients ins) (rs_ConnectedClients p),
         rs_BlockedClients := mergeCountCheck (rs_BlockedClients ins) (rs_BlockedClients p),
         rs_UsedMemory := mergeCountCheck (rs_UsedMemory ins) (rs_UsedMemory p),
         rs_UsedMemoryPct := mergeCountCheck (rs_UsedMemoryPct ins) (rs_UsedMemoryPct p),
         rs_RejectedConn := mergeCountCheck (rs_RejectedConn ins) (rs_RejectedConn p),
         rs_MasterLink := mergeRoleCheck (rs_MasterLink ins) (rs_MasterLink p),
         rs_ConnectedSlaves := mergeMinCountCheck (rs_ConnectedSlaves ins) (rs_ConnectedSlaves p),
         rs_EvictedKeys := mergeCountCheck (rs_EvictedKeys ins) (rs_EvictedKeys p),
         rs_ExpiredKeys := mergeCountCheck (rs_ExpiredKeys ins) (rs_ExpiredKeys p),
         rs_OpsPerSecond := mergeCountCheck (rs_OpsPerSecond ins) (rs_OpsPerSecond p),
         rs_Persistence := mergePersistenceCheck (rs_Persistence ins) (rs_Persistence p),
         rs_ClusterState := mergePersistenceCheck (rs_ClusterState ins) (rs_ClusterState p),
         rs_ClusterTopology := or_flag (rs_ClusterTopology ins) (rs_ClusterTopology p)\<rparr>"

fun index_partials :: "(string \<Rightarrow> string) \<Rightarrow> Partial list \<Rightarrow> (string, Partial) gomap \<Rightarrow> string + (string, Partial) gomap" where
  "index_partials quote [] m = Inr m"
| "index_partials quote (p # ps) m =
     (if pt_ID p = [] then Inl ''redis partial id must not be empty''
      else if m_has m (pt_ID p) then Inl (''duplicate redis partial id '' @ quote (pt_ID p))
      else index_partials quote ps (m_set (pt_ID p) p m))"

fun apply_partials :: "(string \<Rightarrow> string) \<Rightarrow> (string, Partial) gomap \<Rightarrow> redis_Instance list \<Rightarrow> string + redis_Instance list" where
  "apply_partials quote m [] = Inr []"
| "apply_partials quote m (ins # is) =
     (if ri_Partial ins = [] then map_sum id (Cons ins) (apply_partials quote m is)
      else case map_of m (ri_Partial ins) of
             None \<Rightarrow> Inl (''redis partial '' @ quote (ri_Partial ins) @ '' not found'')
           | Some p \<Rightarrow> map_sum id (Cons (merge_partial ins p)) (apply_partials quote m is))"

definition ApplyPartials :: "(string \<Rightarrow> string) \<Rightarrow> Partial list \<Rightarrow> redis_Instance list \<Rightarrow> string + redis_Instance list" where
  "ApplyPartials quote partials instances =
     sbind (index_partials quote partials []) (\<lambda>m. apply_partials quote m instances)"

section \<open>Validation\<close>

definition normal :: "string \<Rightarrow> string" where
  "normal s = to_lower (trim_space s)"

definition normalizeRedisMode :: "(string \<Rightarrow> string) \<Rightarrow> string \<Rightarrow> string + string" where
  "normalizeRedisMode quote mode =
     (let mode = normal mode in
      if mode = [] \<or> mode = redisModeAuto then Inr redisModeAuto
      else if mode = redisModeStandalone then Inr redisModeStandalone
      else if mode = redisModeCluster then Inr redisModeCluster
      else Inl (''invalid mode '' @ quote mode @ '', must be one of: auto, standalone, cluster''))"

definition normalizeRole :: "(string \<Rightarrow> string) \<Rightarrow> string \<Rightarrow> string + string" where
  "normalizeRole quote role =
     (let role = normal role in
      if role = [] then Inr []
      else if role = ''master'' then Inr ''master''
      else if role = ''slave'' \<or> role = ''replica'' then Inr ''slave''
      else Inl (''invalid role.expect '' @ quote role @ '', must be one of: master, slave, replica''))"

definition normalizeMasterLinkStatus :: "(string \<Rightarrow> string) \<Rightarrow> string \<Rightarrow> string + string" where
  "normalizeMasterLinkStatus quote status =
     (let status = normal status in
      if status = [] then Inr []
      else if status = ''up'' \<or> status = ''down'' then Inr status
      else Inl (''invalid master_link_status.expect '' @ quote status @ '', must be one of: up, down''))"

definition defaultRedisPort :: string where "defaultRedisPort = ''6379''"

definition normalizeTarget :: "(string \<Rightarrow> string) \<Rightarrow> string \<Rightarrow> string + string" where
  "normalizeTarget quote raw =
     (let target = trim_space raw in
      if target = [] then Inl ''redis target must not be empty''
      else case SplitHostPort target of
             Inr (host, port) \<Rightarrow>
               if port = [] then Inl (''bad port, target: '' @ raw)
               else Inr (JoinHostPort (if host = [] then ''localhost'' else host) port)
           | Inl e \<Rightarrow>
               if contains_text (addr_error_text target e) ''missing port in address'' then
                 if 1 < length (filter (\<lambda>c. c = CHR '':'') target) \<and> \<not> prefix ''['' target
                 then Inl (''redis IPv6 target must use [addr]:port format: '' @ raw)
                 else Inr (JoinHostPort target defaultRedisPort)
               else Inl (''failed to parse redis target '' @ quote raw @ '': '' @ addr_error_text target e))"

fun normalize_targets :: "(string \<Rightarrow> string) \<Rightarrow> string list \<Rightarrow> string + string list" where
  "normalize_targets quote [] = Inr []"
| "normalize_targets quote (t # ts) = sbind (normalizeTarget quote t) (\<lambda>t'. map_sum id (Cons t') (normalize_targets quote ts))"

definition below :: "string \<Rightarrow> (int \<Rightarrow> string) \<Rightarrow> CountCheck \<Rightarrow> string + unit" where
  "below name show check =
     refuse (ck_WarnGe check > 0 \<and> ck_CriticalGe check > 0 \<and> ck_WarnGe check \<ge> ck_CriticalGe check)
       (name @ ''.warn_ge('' @ show (ck_WarnGe check) @ '') must be less than '' @ name @ ''.critical_ge('' @ show (ck_CriticalGe check) @ '')'')"

definition validateCountCheck :: "string \<Rightarrow> (int \<Rightarrow> string) \<Rightarrow> CountCheck \<Rightarrow> string + unit" where
  "validateCountCheck name show check =
     sbind (refuse (ck_WarnGe check < 0 \<or> ck_CriticalGe check < 0) (name @ '' thresholds must be >= 0'')) (\<lambda>_.
     below name show check)"

definition validateMinCountCheck :: "string \<Rightarrow> MinCountCheck \<Rightarrow> string + unit" where
  "validateMinCountCheck name check =
     sbind (refuse (mk_WarnLt check < 0 \<or> mk_CriticalLt check < 0) (name @ '' thresholds must be >= 0'')) (\<lambda>_.
     refuse (mk_WarnLt check > 0 \<and> mk_CriticalLt check > 0 \<and> mk_WarnLt check \<le> mk_CriticalLt check)
       (name @ ''.warn_lt('' @ show_int (mk_WarnLt check) @ '') must be greater than '' @ name @ ''.critical_lt('' @ show_int (mk_CriticalLt check) @ '')''))"

definition validatePercentCheck :: "string \<Rightarrow> PercentCheck \<Rightarrow> string + unit" where
  "validatePercentCheck name check =
     sbind (refuse (ck_WarnGe check < 0 \<or> ck_CriticalGe check < 0) (name @ '' thresholds must be >= 0'')) (\<lambda>_.
     sbind (refuse (ck_WarnGe check > 100 \<or> ck_CriticalGe check > 100) (name @ '' thresholds must be <= 100'')) (\<lambda>_.
     below name show_int check))"

text \<open>A severity: the default when it is not set, and one of the four statuses otherwise.\<close>

definition severity_or :: "(string \<Rightarrow> string) \<Rightarrow> string \<Rightarrow> string \<Rightarrow> string \<Rightarrow> string + string" where
  "severity_or quote name def sev =
     (if sev = [] then Inr def
      else if \<not> EventStatusValid sev then Inl (''invalid '' @ name @ ''.severity '' @ quote sev)
      else Inr sev)"

definition expect_severity :: "(string \<Rightarrow> string) \<Rightarrow> string \<Rightarrow> ExpectCheck \<Rightarrow> string + ExpectCheck" where
  "expect_severity quote name c =
     (if ex_Expect c \<noteq> [] then map_sum id (\<lambda>s. c\<lparr>ex_Severity := s\<rparr>) (severity_or quote name EventStatusWarning (ex_Severity c))
      else Inr c)"

definition clusterStateEnabled :: "'a redis_settings_scheme \<Rightarrow> bool" where
  "clusterStateEnabled ins \<longleftrightarrow> fl_Flag (rs_ClusterState ins) \<noteq> Some True"

definition clusterTopologyEnabled :: "'a redis_settings_scheme \<Rightarrow> bool" where
  "clusterTopologyEnabled ins \<longleftrightarrow> rs_ClusterTopology ins \<noteq> Some True"

definition persistenceEnabled :: "'a redis_settings_scheme \<Rightarrow> bool" where
  "persistenceEnabled ins \<longleftrightarrow> fl_Flag (rs_Persistence ins) = Some True"

definition flag_severity :: "(string \<Rightarrow> string) \<Rightarrow> string \<Rightarrow> bool \<Rightarrow> FlagCheck \<Rightarrow> string + FlagCheck" where
  "flag_severity quote name enabled c =
     (if enabled then map_sum id (\<lambda>s. c\<lparr>fl_Severity := s\<rparr>) (severity_or quote name EventStatusCritical (fl_Severity c)) else Inr c)"

text \<open>The steps of \<^verbatim>\<open>Init\<close> in their order: mode, connectivity and role first, \<dots>\<close>

definition init_modes :: "(string \<Rightarrow> string) \<Rightarrow> redis_Instance \<Rightarrow> string + redis_Instance" where
  "init_modes quote ins =
     sbind (normalizeRedisMode quote (rs_Mode ins)) (\<lambda>mode.
     sbind (severity_or quote ''connectivity'' EventStatusCritical (rs_Connectivity ins)) (\<lambda>sev.
     sbind (below ''response_time'' dur_string (rs_ResponseTime ins)) (\<lambda>_.
     sbind (normalizeRole quote (ex_Expect (rs_Role ins))) (\<lambda>role.
     sbind (expect_severity quote ''role'' ((rs_Role ins)\<lparr>ex_Expect := role\<rparr>)) (\<lambda>rc.
     Inr (ins\<lparr>rs_Mode := mode, rs_Connectivity := sev, rs_Role := rc\<rparr>))))))"

text \<open>\<dots> then the thresholds, \<dots>\<close>

definition init_thresholds :: "redis_Instance \<Rightarrow> string + unit" where
  "init_thresholds ins =
     sbind (validateCountCheck ''repl_lag'' Size_String (rs_ReplLag ins)) (\<lambda>_.
     sbind (validateCountCheck ''connected_clients'' show_int (rs_ConnectedClients ins)) (\<lambda>_.
     sbind (validateCountCheck ''blocked_clients'' show_int (rs_BlockedClients ins)) (\<lambda>_.
     sbind (validateCountCheck ''rejected_connections'' show_int (rs_RejectedConn ins)) (\<lambda>_.
     sbind (validateMinCountCheck ''connected_slaves'' (rs_ConnectedSlaves ins)) (\<lambda>_.
     sbind (validateCountCheck ''evicted_keys'' show_int (rs_EvictedKeys ins)) (\<lambda>_.
     sbind (validateCountCheck ''expired_keys'' show_int (rs_ExpiredKeys ins)) (\<lambda>_.
     sbind (validateCountCheck ''instantaneous_ops_per_sec'' show_int (rs_OpsPerSecond ins)) (\<lambda>_.
     sbind (validateCountCheck ''used_memory'' Size_String (rs_UsedMemory ins)) (\<lambda>_.
     validatePercentCheck ''used_memory_pct'' (rs_UsedMemoryPct ins))))))))))"

text \<open>\<dots> the remaining severities and the credentials.\<close>

definition init_severities :: "(string \<Rightarrow> string) \<Rightarrow> redis_Instance \<Rightarrow> string + redis_Instance" where
  "init_severities quote ins =
     sbind (normalizeMasterLinkStatus quote (ex_Expect (rs_MasterLink ins))) (\<lambda>expect.
     sbind (expect_severity quote ''master_link_status'' ((rs_MasterLink ins)\<lparr>ex_Expect := expect\<rparr>)) (\<lambda>ml.
     sbind (flag_severity quote ''persistence'' (persistenceEnabled ins) (rs_Persistence ins)) (\<lambda>pc.
     sbind (flag_severity quote ''cluster_state'' (rs_Mode ins \<noteq> redisModeStandalone \<and> clusterStateEnabled ins) (rs_ClusterState ins)) (\<lambda>cs.
     sbind (refuse (rs_Username ins \<noteq> [] \<and> rs_Password ins = []) ''password must not be empty when username is set'') (\<lambda>_.
     sbind (refuse (rs_DB ins < 0) (''db must be >= 0 (got '' @ show_int (rs_DB ins) @ '')'')) (\<lambda>_.
     Inr (ins\<lparr>rs_MasterLink := ml, rs_Persistence := pc, rs_ClusterState := cs\<rparr>)))))))"

definition redis_Init ::
  "('pool, 'cert) cert_files \<Rightarrow> redis_Instance \<Rightarrow> string + redis_Instance \<times> ('pool, 'cert) tls_config option" where
  "redis_Init cf ins =
     (let quote = cf_quote cf;
          ins = ins\<lparr>rs_Concurrency := or_int (rs_Concurrency ins) 10,
                    rs_Timeout := or_int (rs_Timeout ins) (3 * Second),
                    rs_ReadTimeout := or_int (rs_ReadTimeout ins) (2 * Second)\<rparr>
      in sbind (init_modes quote ins) (\<lambda>ins.
         sbind (init_thresholds ins) (\<lambda>_.
         sbind (init_severities quote ins) (\<lambda>ins.
         sbind (normalize_targets quote (ri_Targets ins)) (\<lambda>targets.
         case client_TLSConfig cf (rs_ClientConfig ins) of
           Inl e \<Rightarrow> Inl (''failed to build redis TLS config: '' @ e)
         | Inr tls \<Rightarrow> Inr (ins\<lparr>ri_Targets := targets\<rparr>, tls))))))"

section \<open>Facts\<close>

definition thresholds_ok :: "CountCheck \<Rightarrow> bool" where
  "thresholds_ok c \<longleftrightarrow> 0 \<le> ck_WarnGe c \<and> 0 \<le> ck_CriticalGe c \<and>
     (0 < ck_WarnGe c \<and> 0 < ck_CriticalGe c \<longrightarrow> ck_WarnGe c < ck_CriticalGe c)"

definition expect_ok_values :: "string list \<Rightarrow> ExpectCheck \<Rightarrow> bool" where
  "expect_ok_values vs c \<longleftrightarrow> ex_Expect c = [] \<or> ex_Expect c \<in> set vs \<and> EventStatusValid (ex_Severity c)"

definition min_ok :: "MinCountCheck \<Rightarrow> bool" where
  "min_ok c \<longleftrightarrow> (0 < mk_WarnLt c \<and> 0 < mk_CriticalLt c \<longrightarrow> mk_CriticalLt c < mk_WarnLt c)"

text \<open>What a started instance satisfies.\<close>

definition redis_ready :: "redis_Instance \<Rightarrow> bool" where
  "redis_ready ins \<longleftrightarrow>
     rs_Concurrency ins \<noteq> 0 \<and> rs_Timeout ins \<noteq> 0 \<and> rs_ReadTimeout ins \<noteq> 0 \<and>
     rs_Mode ins \<in> {redisModeAuto, redisModeStandalone, redisModeCluster} \<and>
     EventStatusValid (rs_Connectivity ins) \<and>
     expect_ok_values [''master'', ''slave''] (rs_Role ins) \<and>
     expect_ok_values [''up'', ''down''] (rs_MasterLink ins) \<and>
     (\<forall>c \<in> {rs_ReplLag ins, rs_ConnectedClients ins, rs_BlockedClients ins, rs_RejectedConn ins, rs_EvictedKeys ins, rs_ExpiredKeys ins,
       rs_OpsPerSecond ins, rs_UsedMemory ins, rs_UsedMemoryPct ins}. thresholds_ok c) \<and>
     min_ok (rs_ConnectedSlaves ins) \<and>
     ck_WarnGe (rs_UsedMemoryPct ins) \<le> 100 \<and> ck_CriticalGe (rs_UsedMemoryPct ins) \<le> 100 \<and>
     (persistenceEnabled ins \<longrightarrow> EventStatusValid (fl_Severity (rs_Persistence ins))) \<and>
     (rs_Mode ins \<noteq> redisModeStandalone \<and> clusterStateEnabled ins \<longrightarrow> EventStatusValid (fl_Severity (rs_ClusterState ins))) \<and>
     (rs_Username ins \<noteq> [] \<longrightarrow> rs_Password ins \<noteq> []) \<and> 0 \<le> rs_DB ins"

lemma below_ok: "below name show c = Inr u \<longleftrightarrow>
    (0 < ck_WarnGe c \<and> 0 < ck_CriticalGe c \<longrightarrow> ck_WarnGe c < ck_CriticalGe c)"
  by (auto simp: below_def)

lemma validateCountCheck_ok: "validateCountCheck name show c = Inr u \<longleftrightarrow> thresholds_ok c"
  by (auto simp: validateCountCheck_def thresholds_ok_def below_ok)

lemma validateMinCountCheck_ok: "validateMinCountCheck name c = Inr u \<Longrightarrow> min_ok c"
  by (auto simp: validateMinCountCheck_def min_ok_def)

lemma validatePercentCheck_ok:
  "validatePercentCheck name c = Inr u \<longleftrightarrow> thresholds_ok c \<and> ck_WarnGe c \<le> 100 \<and> ck_CriticalGe c \<le> 100"
  by (auto simp: validatePercentCheck_def thresholds_ok_def below_ok)

lemma init_thresholds_ok:
  assumes "init_thresholds ins = Inr u"
  shows "\<forall>c \<in> {rs_ReplLag ins, rs_ConnectedClients ins, rs_BlockedClients ins, rs_RejectedConn ins, rs_EvictedKeys ins, rs_ExpiredKeys ins,
       rs_OpsPerSecond ins, rs_UsedMemory ins, rs_UsedMemoryPct ins}. thresholds_ok c"
    and "min_ok (rs_ConnectedSlaves ins)" "ck_WarnGe (rs_UsedMemoryPct ins) \<le> 100" "ck_CriticalGe (rs_UsedMemoryPct ins) \<le> 100"
  using assms validateMinCountCheck_ok
  unfolding init_thresholds_def sbind_Inr_iff validateCountCheck_ok validatePercentCheck_ok by blast+

lemma severity_or_ok:
  "severity_or quote name def sev = Inr s \<Longrightarrow> EventStatusValid def \<Longrightarrow> EventStatusValid s"
  by (auto simp: severity_or_def split: if_splits)

lemma default_severities: "EventStatusValid EventStatusCritical" "EventStatusValid EventStatusWarning"
  by (simp_all add: EventStatusValid_def)

lemma expect_severity_ok:
  "expect_severity quote name c = Inr c' \<Longrightarrow> ex_Expect c = [] \<or> ex_Expect c \<in> set vs \<Longrightarrow> expect_ok_values vs c'"
  by (cases "severity_or quote name EventStatusWarning (ex_Severity c)")
     (auto simp: expect_severity_def expect_ok_values_def default_severities dest: severity_or_ok split: if_splits)

lemma flag_severity_ok:
  "flag_severity quote name en c = Inr c' \<Longrightarrow> fl_Flag c' = fl_Flag c \<and> (en \<longrightarrow> EventStatusValid (fl_Severity c'))"
  by (cases "severity_or quote name EventStatusCritical (fl_Severity c)")
     (auto simp: flag_severity_def default_severities dest: severity_or_ok split: if_splits)

lemma init_modes_ok:
  assumes "init_modes quote ins = Inr ins'"
  shows "\<exists>mode sev rc. ins' = ins\<lparr>rs_Mode := mode, rs_Connectivity := sev, rs_Role := rc\<rparr> \<and>
    mode \<in> {redisModeAuto, redisModeStandalone, redisModeCluster} \<and> EventStatusValid sev \<and> expect_ok_values [''master'', ''slave''] rc"
proof -
  from assms obtain mode sev role rc where m: "normalizeRedisMode quote (rs_Mode ins) = Inr mode"
    and s: "severity_or quote ''connectivity'' EventStatusCritical (rs_Connectivity ins) = Inr sev"
    and r: "normalizeRole quote (ex_Expect (rs_Role ins)) = Inr role"
    and rc: "expect_severity quote ''role'' ((rs_Role ins)\<lparr>ex_Expect := role\<rparr>) = Inr rc"
    and i: "ins' = ins\<lparr>rs_Mode := mode, rs_Connectivity := sev, rs_Role := rc\<rparr>"
    by (auto simp: init_modes_def)
  have "mode \<in> {redisModeAuto, redisModeStandalone, redisModeCluster}"
    using m by (auto simp: normalizeRedisMode_def Let_def split: if_splits)
  moreover have "role = [] \<or> role \<in> set [''master'', ''slave'']"
    using r by (auto simp: normalizeRole_def Let_def split: if_splits)
  then have "expect_ok_values [''master'', ''slave''] rc" using expect_severity_ok [OF rc] by simp
  moreover have "EventStatusValid sev" using severity_or_ok [OF s] by (simp add: default_severities)
  ultimately show ?thesis using i by blast
qed

lemma init_severities_ok:
  assumes "init_severities quote ins = Inr ins'"
  shows "\<exists>ml pc cs. ins' = ins\<lparr>rs_MasterLink := ml, rs_Persistence := pc, rs_ClusterState := cs\<rparr> \<and>
    expect_ok_values [''up'', ''down''] ml \<and>
    fl_Flag pc = fl_Flag (rs_Persistence ins) \<and> fl_Flag cs = fl_Flag (rs_ClusterState ins) \<and>
    (persistenceEnabled ins \<longrightarrow> EventStatusValid (fl_Severity pc)) \<and>
    (rs_Mode ins \<noteq> redisModeStandalone \<and> clusterStateEnabled ins \<longrightarrow> EventStatusValid (fl_Severity cs)) \<and>
    (rs_Username ins \<noteq> [] \<longrightarrow> rs_Password ins \<noteq> []) \<and> 0 \<le> rs_DB ins"
proof -
  from assms obtain expect ml pc cs where e: "normalizeMasterLinkStatus quote (ex_Expect (rs_MasterLink ins)) = Inr expect"
    and ml: "expect_severity quote ''master_link_status'' ((rs_MasterLink ins)\<lparr>ex_Expect := expect\<rparr>) = Inr ml"
    and pc: "flag_severity quote ''persistence'' (persistenceEnabled ins) (rs_Persistence ins) = Inr pc"
    and cs: "flag_severity quote ''cluster_state'' (rs_Mode ins \<noteq> redisModeStandalone \<and> clusterStateEnabled ins) (rs_ClusterState ins) = Inr cs"
    and u: "\<not> (rs_Username ins \<noteq> [] \<and> rs_Password ins = [])" "\<not> rs_DB ins < 0"
    and i: "ins\<lparr>rs_MasterLink := ml, rs_Persistence := pc, rs_ClusterState := cs\<rparr> = ins'"
    unfolding init_severities_def sbind_Inr_iff refuse_Inr_iff sum.inject by blast
  have "expect = [] \<or> expect \<in> set [''up'', ''down'']"
    using e by (auto simp: normalizeMasterLinkStatus_def Let_def split: if_splits)
  then have "expect_ok_values [''up'', ''down''] ml" using expect_severity_ok [OF ml] by simp
  then show ?thesis
    using flag_severity_ok [OF pc] flag_severity_ok [OF cs] u i [symmetric]
    by - (rule exI [of _ ml], rule exI [of _ pc], rule exI [of _ cs], auto)
qed


section \<open>Properties\<close>



text \<open>A bracketed IPv6 address without a port is given a second pair of brackets: the target the instance keeps
  is not an address, and no connection to it can succeed.\<close>

theorem bracket_target_broken:
  "normalizeTarget quote ''[::1]'' = Inr ''[[::1]]:6379'' \<and> SplitHostPort ''[[::1]]:6379'' = Inl MissingPort"
proof
  have "trim_space ''[::1]'' = ''[::1]''" "SplitHostPort ''[::1]'' = Inl MissingPort" by code_simp+
  moreover have "contains_text (addr_error_text ''[::1]'' MissingPort) ''missing port in address''"
    unfolding contains_text_def addr_error_text_def
    using sublist_append_leftI [of "''missing port in address''" "''address [::1]: ''"] by simp
  moreover have "JoinHostPort ''[::1]'' defaultRedisPort = ''[[::1]]:6379''" by code_simp
  ultimately show "normalizeTarget quote ''[::1]'' = Inr ''[[::1]]:6379''"
    by (simp add: normalizeTarget_def Let_def)
  show "SplitHostPort ''[[::1]]:6379'' = Inl MissingPort" by code_simp
qed

end
