(* ===== verification/Plugin_Events.thy ===== *)
theory Plugin_Events
  imports Events Strconv Pattern_Filter
begin

text \<open>
  What the plugins share when they report: the event of a check on a target, the choice of status and description by
  a threshold, integers turned into \<^verbatim>\<open>float64\<close>, and what an event says about its check and its target.
\<close>

section \<open>Events\<close>

definition ge_sign :: string where "ge_sign = [CHR 0xE2, CHR 0x89, CHR 0xA5]"
definition ne_sign :: string where "ne_sign = [CHR 0xE2, CHR 0x89, CHR 0xA0]"

text \<open>\<^verbatim>\<open>types.BuildEvent\<close> on the two labels nearly every check has.\<close>

definition check_event :: "string \<Rightarrow> string \<Rightarrow> Event" where
  "check_event check target = BuildEvent [[(''check'', check), (''target'', target)]]"

text \<open>A failed check: status and description on an event.\<close>

definition alert_with :: "string \<Rightarrow> string \<Rightarrow> Event \<Rightarrow> Event" where
  "alert_with status desc e = SetDescription desc (SetEventStatus status e)"

definition by_status :: "string \<Rightarrow> string \<Rightarrow> string \<Rightarrow> string \<Rightarrow> Event \<Rightarrow> Event" where
  "by_status status dcritical dwarning dok event =
     (if status = EventStatusCritical then SetDescription dcritical (SetEventStatus EventStatusCritical event)
      else if status = EventStatusWarning then SetDescription dwarning (SetEventStatus EventStatusWarning event)
      else SetDescription dok event)"

text \<open>\<^verbatim>\<open>float64\<close> of a signed integer, and \<^verbatim>\<open>conv.HumanBytes(uint64(x))\<close>, which is defined on every 64-bit value.\<close>

definition float64_of_int :: "int \<Rightarrow> int" where
  "float64_of_int i = (if i < 0 then - int (float64_of_nat (nat (- i))) else int (float64_of_nat (nat i)))"

abbreviation fl :: "int \<Rightarrow> real" where "fl i \<equiv> real_of_int (float64_of_int i)"

definition human_u64 :: "int \<Rightarrow> string" where
  "human_u64 x = (case HumanBytes (nat (x mod 2 ^ 64)) of Some t \<Rightarrow> t | None \<Rightarrow> [])"

section \<open>Facts\<close>

definition ev_check :: "Event \<Rightarrow> string" where
  "ev_check e = m_str (nil_map (Labels e)) ''check''"

definition ev_of :: "Event \<Rightarrow> string" where
  "ev_of e = m_str (nil_map (Labels e)) ''target''"

lemma Labels_builders [simp]:
  "Labels (SetDescription d e) = Labels e" "Labels (SetEventStatus s e) = Labels e"
  "Labels (SetAttrs a e) = Labels e" "Labels (SetCurrentValue v e) = Labels e"
  by (simp_all add: SetDescription_def SetEventStatus_def SetAttrs_def SetCurrentValue_def)

lemma Status_builders [simp]:
  "EventStatus (SetDescription d e) = EventStatus e" "EventStatus (SetEventStatus s e) = s"
  "EventStatus (SetAttrs a e) = EventStatus e" "EventStatus (SetCurrentValue v e) = EventStatus e"
  by (simp_all add: SetDescription_def SetEventStatus_def SetAttrs_def SetCurrentValue_def)

lemma ev_builders [simp]:
  "ev_check (SetDescription d e) = ev_check e" "ev_check (SetEventStatus s e) = ev_check e"
  "ev_check (SetAttrs a e) = ev_check e" "ev_check (SetCurrentValue v e) = ev_check e"
  "ev_of (SetDescription d e) = ev_of e" "ev_of (SetEventStatus s e) = ev_of e"
  "ev_of (SetAttrs a e) = ev_of e" "ev_of (SetCurrentValue v e) = ev_of e"
  by (simp_all add: ev_check_def ev_of_def)

lemma ev_by_status [simp]:
  "ev_check (by_status s c w k e) = ev_check e" "ev_of (by_status s c w k e) = ev_of e"
  by (simp_all add: by_status_def)

lemma check_event_labels [simp]: "ev_check (check_event check target) = check" "ev_of (check_event check target) = target"
  "EventStatus (check_event check target) = EventStatusOk"
  by (simp_all add: ev_check_def ev_of_def check_event_def BuildEvent_def nil_map_def m_copy_Cons m_str_def)

lemma alert_with_fields [simp]:
  "ev_check (alert_with s d e) = ev_check e" "ev_of (alert_with s d e) = ev_of e" "EventStatus (alert_with s d e) = s" "Labels (alert_with s d e) = Labels e"
  by (simp_all add: alert_with_def)

text \<open>An event of a check on a target.\<close>

definition is_event :: "string \<Rightarrow> string \<Rightarrow> Event \<Rightarrow> bool" where
  "is_event target check e \<longleftrightarrow> ev_check e = check \<and> ev_of e = target"

named_theorems check_events \<open>the check and the target of the events\<close>

lemma is_event_intros [check_events]:
  "is_event target check (check_event check target)" "is_event target check e \<Longrightarrow> is_event target check (alert_with s d e)"
  "is_event target check e \<Longrightarrow> is_event target check (SetDescription d e)" "is_event target check e \<Longrightarrow> is_event target check (SetEventStatus s e)"
  "is_event target check e \<Longrightarrow> is_event target check (SetAttrs a e)" "is_event target check e \<Longrightarrow> is_event target check (SetCurrentValue v e)"
  "is_event target check e \<Longrightarrow> is_event target check (by_status s dc dw dk e)"
  by (simp_all add: is_event_def)

text \<open>The status a threshold gives.\<close>

lemma by_status_status:
  "EventStatus e = EventStatusOk \<Longrightarrow> EventStatus (by_status (EvaluateGeThreshold v w c) dc dw dk e) = EvaluateGeThreshold v w c"
  by (auto simp: by_status_def EvaluateGeThreshold_def status_defs)

end
