(* ===== verification/Redis_Checks.thy ===== *)
theory Redis_Checks
  imports Redis_Config Plugin_Events
begin

text \<open>
  \<^verbatim>\<open>plugins/redis/checks.go\<close>, \<^verbatim>\<open>cluster.go\<close> and \<^verbatim>\<open>gatherTarget\<close> of \<^verbatim>\<open>gather.go\<close>: the checks of one Redis server. A check is a
  function from the settings and the answers of the server to the event it pushes; the counters
  compare with the previous run and keep it in the instance. Integers turned into \<^verbatim>\<open>float64\<close> are rounded
  to 53 bits as Go does; percentages are computed without rounding.
\<close>

section \<open>Events of the plugin\<close>

definition newEvent :: "'a redis_settings_scheme \<Rightarrow> string \<Rightarrow> string \<Rightarrow> Event" where
  "newEvent ins check target =
     BuildEvent [[(''check'', check), (''target'', target)] @
       (if rs_ClusterName ins \<noteq> [] then [(''cluster_name'', rs_ClusterName ins)] else [])]"

definition critical :: "'a redis_settings_scheme \<Rightarrow> string \<Rightarrow> string \<Rightarrow> string \<Rightarrow> Event" where
  "critical ins check target desc = SetDescription desc (SetEventStatus EventStatusCritical (newEvent ins check target))"

definition enabled :: "CountCheck \<Rightarrow> bool" where
  "enabled c \<longleftrightarrow> ck_WarnGe c > 0 \<or> ck_CriticalGe c > 0"

definition ge_status :: "int \<Rightarrow> CountCheck \<Rightarrow> string" where
  "ge_status v c = EvaluateGeThreshold (fl v) (fl (ck_WarnGe c)) (fl (ck_CriticalGe c))"

definition ge_parts :: "(int \<Rightarrow> string) \<Rightarrow> CountCheck \<Rightarrow> string" where
  "ge_parts show c =
     join '', ''
       ((if ck_WarnGe c > 0 then [''Warning '' @ ge_sign @ '' '' @ show (ck_WarnGe c)] else []) @
        (if ck_CriticalGe c > 0 then [''Critical '' @ ge_sign @ '' '' @ show (ck_CriticalGe c)] else []))"

definition labelled :: "string \<Rightarrow> string" where
  "labelled check = trim_prefix ''redis::'' check"

section \<open>Checks\<close>

definition checkResponseTime :: "redis_Instance \<Rightarrow> string \<Rightarrow> duration \<Rightarrow> Event list" where
  "checkResponseTime ins target t =
     (let c = rs_ResponseTime ins in
      if ck_WarnGe c = 0 \<and> ck_CriticalGe c = 0 then []
      else
        let event = SetCurrentValue (dur_string t) (SetAttrs [(''response_time'', dur_string t), (''threshold_desc'', ge_parts dur_string c)]
              (newEvent ins ''redis::response_time'' target))
        in [by_status (ge_status t c)
              (''redis response time '' @ dur_string t @ '' >= critical threshold '' @ dur_string (ck_CriticalGe c))
              (''redis response time '' @ dur_string t @ '' >= warning threshold '' @ dur_string (ck_WarnGe c))
              (''redis response time '' @ dur_string t @ '', everything is ok'') event])"

definition checkRole :: "redis_Instance \<Rightarrow> string \<Rightarrow> info \<Rightarrow> Event" where
  "checkRole ins target info =
     (case map_of info ''role'' of
        None \<Rightarrow> critical ins ''redis::role'' target ''redis info output missing role''
      | Some a \<Rightarrow>
          let actual = normal a;
              expect = ex_Expect (rs_Role ins);
              event = SetCurrentValue actual (SetAttrs [(''actual'', actual), (''expect'', expect),
                (''threshold_desc'', ex_Severity (rs_Role ins) @ '': role '' @ ne_sign @ '' '' @ expect)] (newEvent ins ''redis::role'' target))
          in if actual = expect then SetDescription (''redis role is '' @ actual @ '', matches expectation'') event
             else SetDescription (''redis role is '' @ actual @ '', expected '' @ expect) (SetEventStatus (ex_Severity (rs_Role ins)) event))"

text \<open>An attribute that is only set when the answer has a value for it.\<close>

definition attr_of :: "info \<Rightarrow> string \<Rightarrow> bool \<Rightarrow> labels" where
  "attr_of info key nonempty =
     (case map_of info key of None \<Rightarrow> [] | Some v \<Rightarrow> if nonempty \<and> v = [] then [] else [(key, v)])"

definition checkMasterLink :: "redis_Instance \<Rightarrow> string \<Rightarrow> info \<Rightarrow> Event" where
  "checkMasterLink ins target info =
     (let c = rs_MasterLink ins; event = newEvent ins ''redis::master_link_status'' target in
      case map_of info ''master_link_status'' of
        None \<Rightarrow> SetDescription ''redis replication info missing master_link_status'' (SetEventStatus (ex_Severity c) event)
      | Some a \<Rightarrow>
          let actual = normal a;
              attrs = [(''threshold_desc'', ex_Severity c @ '': master link status does not match expected'')] @ attr_of info ''role'' False @
                [(''actual'', actual), (''expect'', ex_Expect c)] @ attr_of info ''master_host'' True @ attr_of info ''master_port'' True;
              event = SetCurrentValue actual (SetAttrs attrs event)
          in if actual = ex_Expect c then SetDescription (''redis master link status is '' @ actual @ '', matches expectation'') event
             else SetDescription (''redis master link status is '' @ actual @ '', expected '' @ ex_Expect c) (SetEventStatus (ex_Severity c) event))"

definition checkCount :: "redis_Instance \<Rightarrow> string \<Rightarrow> string \<Rightarrow> int \<Rightarrow> CountCheck \<Rightarrow> string \<Rightarrow> Event" where
  "checkCount ins target check v c metric =
     (let event = SetCurrentValue (show_int v) (SetAttrs [(labelled check, show_int v), (''threshold_desc'', ge_parts show_int c)] (newEvent ins check target))
      in by_status (ge_status v c)
           (''redis '' @ metric @ '' '' @ show_int v @ '' >= critical threshold '' @ show_int (ck_CriticalGe c))
           (''redis '' @ metric @ '' '' @ show_int v @ '' >= warning threshold '' @ show_int (ck_WarnGe c))
           (''redis '' @ metric @ '' '' @ show_int v @ '', everything is ok'') event)"

definition checkMinCount :: "redis_Instance \<Rightarrow> string \<Rightarrow> string \<Rightarrow> int \<Rightarrow> MinCountCheck \<Rightarrow> string \<Rightarrow> Event" where
  "checkMinCount ins target check v c metric =
     (let parts = join '', ''
            ((if mk_WarnLt c > 0 then [''Warning < '' @ show_int (mk_WarnLt c)] else []) @
             (if mk_CriticalLt c > 0 then [''Critical < '' @ show_int (mk_CriticalLt c)] else []));
          event = SetCurrentValue (show_int v) (SetAttrs [(labelled check, show_int v), (''threshold_desc'', parts)] (newEvent ins check target))
      in if mk_CriticalLt c > 0 \<and> v < mk_CriticalLt c
         then SetDescription (''redis '' @ metric @ '' '' @ show_int v @ '' < critical threshold '' @ show_int (mk_CriticalLt c))
           (SetEventStatus EventStatusCritical event)
         else if mk_WarnLt c > 0 \<and> v < mk_WarnLt c
         then SetDescription (''redis '' @ metric @ '' '' @ show_int v @ '' < warning threshold '' @ show_int (mk_WarnLt c))
           (SetEventStatus EventStatusWarning event)
         else SetDescription (''redis '' @ metric @ '' '' @ show_int v @ '', everything is ok'') event)"

text \<open>A check on a number of an answer: an event of its own when the number is missing or not a number.\<close>

definition from_info :: "redis_Instance \<Rightarrow> string \<Rightarrow> string \<Rightarrow> string \<Rightarrow> 'v field \<Rightarrow> ('v \<Rightarrow> Event) \<Rightarrow> Event" where
  "from_info ins target check key v k =
     (case v of
        Bad e \<Rightarrow> critical ins check target (''failed to parse redis '' @ key @ '': '' @ e)
      | Missing \<Rightarrow> critical ins check target (''redis info output missing '' @ key)
      | Val n \<Rightarrow> k n)"

definition checkCountFromInfo :: "fmt_quote \<Rightarrow> redis_Instance \<Rightarrow> string \<Rightarrow> string \<Rightarrow> info \<Rightarrow> string \<Rightarrow> CountCheck \<Rightarrow> string \<Rightarrow> Event" where
  "checkCountFromInfo q ins target check info key c metric =
     from_info ins target check key (infoGetInt q info key) (\<lambda>v. checkCount ins target check v c metric)"

definition checkMinCountFromInfo :: "fmt_quote \<Rightarrow> redis_Instance \<Rightarrow> string \<Rightarrow> string \<Rightarrow> info \<Rightarrow> string \<Rightarrow> MinCountCheck \<Rightarrow> string \<Rightarrow> Event" where
  "checkMinCountFromInfo q ins target check info key c metric =
     from_info ins target check key (infoGetInt q info key) (\<lambda>v. checkMinCount ins target check v c metric)"

section \<open>Replication lag\<close>

text \<open>The offset a replica reports: the first \<^verbatim>\<open>offset=\<close> field of its line.\<close>

fun replica_offset :: "fmt_quote \<Rightarrow> string \<Rightarrow> string list \<Rightarrow> string + int option" where
  "replica_offset q key [] = Inr None"
| "replica_offset q key (f # fs) =
     (case split_two (CHR ''='') (trim_space f) of
        [k, v] \<Rightarrow>
          if k \<noteq> ''offset'' then replica_offset q key fs
          else (case ParseInt v of
                  Inl e \<Rightarrow> Inl (''parse '' @ key @ '' offset: '' @ num_text (fq_str q) ''ParseInt'' v e)
                | Inr n \<Rightarrow> Inr (Some n))
      | _ \<Rightarrow> replica_offset q key fs)"

definition clamp_lag :: "int \<Rightarrow> int \<Rightarrow> int" where
  "clamp_lag master replica = (let lag = i64 (master - replica) in if lag < 0 then 0 else lag)"

fun max_lag_loop :: "fmt_quote \<Rightarrow> int \<Rightarrow> (string \<times> string) list \<Rightarrow> int \<times> nat \<Rightarrow> string + int \<times> nat" where
  "max_lag_loop q master [] acc = Inr acc"
| "max_lag_loop q master ((key, v) # kvs) (maxLag, replicas) =
     (if \<not> prefix ''slave'' key then max_lag_loop q master kvs (maxLag, replicas)
      else case replica_offset q key (split_at (CHR '','') v) of
             Inl e \<Rightarrow> Inl e
           | Inr None \<Rightarrow> max_lag_loop q master kvs (maxLag, replicas)
           | Inr (Some off) \<Rightarrow> max_lag_loop q master kvs (max maxLag (clamp_lag master off), replicas + 1))"

definition maxReplicaLagFromMaster :: "fmt_quote \<Rightarrow> info \<Rightarrow> int \<Rightarrow> string + int \<times> nat" where
  "maxReplicaLagFromMaster q info master = max_lag_loop q master info (0, 0)"

definition need :: "fmt_quote \<Rightarrow> info \<Rightarrow> string \<Rightarrow> string + int" where
  "need q info key =
     (case infoGetInt64 q info key of
        Bad e \<Rightarrow> Inl (''parse '' @ key @ '': '' @ e)
      | Missing \<Rightarrow> Inl (''redis replication info missing '' @ key)
      | Val n \<Rightarrow> Inr n)"

definition slave_lag :: "fmt_quote \<Rightarrow> info \<Rightarrow> string + int \<times> string \<times> labels" where
  "slave_lag q info =
     sbind (need q info ''master_repl_offset'') (\<lambda>master.
     sbind (need q info ''slave_repl_offset'') (\<lambda>slave.
     let lag = clamp_lag master slave in
     Inr (lag, ''redis replication lag '' @ human_u64 lag @ '', everything is ok'',
       [(''master_repl_offset'', show_int master), (''slave_repl_offset'', show_int slave)])))"

definition master_lag :: "fmt_quote \<Rightarrow> info \<Rightarrow> string + int \<times> string \<times> labels" where
  "master_lag q info =
     sbind (need q info ''master_repl_offset'') (\<lambda>master.
     sbind (case infoGetInt q info ''connected_slaves'' of Bad e \<Rightarrow> Inl (''parse connected_slaves: '' @ e) | Missing \<Rightarrow> Inr 0 | Val n \<Rightarrow> Inr n) (\<lambda>slaves.
     sbind (maxReplicaLagFromMaster q info master) (\<lambda>(maxLag, replicas).
     if replicas = 0 \<or> slaves = 0
     then Inr (- 1, ''redis replication lag skipped: no connected replicas'',
            [(''master_repl_offset'', show_int master), (''connected_slaves'', show_int slaves)])
     else Inr (maxLag, ''redis replication lag max '' @ human_u64 maxLag @ '' across '' @ show_nat replicas @ '' replicas, everything is ok'',
            [(''master_repl_offset'', show_int master), (''replica_count'', show_nat replicas)]))))"

definition calculateReplicationLag :: "fmt_quote \<Rightarrow> info \<Rightarrow> string + int \<times> string \<times> labels" where
  "calculateReplicationLag q info =
     (let role = normal (m_str info ''role'') in
      if role = ''slave'' \<or> role = ''replica'' then slave_lag q info
      else if role = ''master'' then master_lag q info
      else Inl (''unsupported redis role '' @ fq_str q role @ '' for replication lag''))"

definition checkReplLag :: "fmt_quote \<Rightarrow> redis_Instance \<Rightarrow> string \<Rightarrow> info \<Rightarrow> Event" where
  "checkReplLag q ins target info =
     (let c = rs_ReplLag ins; check = ''redis::repl_lag''; event = newEvent ins check target; role = normal (m_str info ''role'') in
      if role = [] then critical ins check target ''redis replication info missing role''
      else case calculateReplicationLag q info of
             Inl e \<Rightarrow> critical ins check target (''failed to evaluate redis replication lag: '' @ e)
           | Inr (lag, desc, attrs) \<Rightarrow>
               if lag < 0 then
                 SetDescription desc (SetAttrs (m_copy [(''role'', role),
                   (''threshold_desc'', ''Warning '' @ ge_sign @ '' '' @ Size_String (ck_WarnGe c) @ '', Critical '' @ ge_sign @ '' '' @ Size_String (ck_CriticalGe c))] attrs) event)
               else
                 by_status (ge_status lag c)
                   (''redis replication lag '' @ human_u64 lag @ '' >= critical threshold '' @ Size_String (ck_CriticalGe c))
                   (''redis replication lag '' @ human_u64 lag @ '' >= warning threshold '' @ Size_String (ck_WarnGe c)) desc
                   (SetCurrentValue (human_u64 lag) (SetAttrs (m_copy [(''role'', role), (''repl_lag_bytes'', show_int lag), (''repl_lag'', human_u64 lag),
                     (''threshold_desc'', ge_parts Size_String c)] attrs) event)))"

section \<open>Counters\<close>

text \<open>The three counters of the statistics: check, key, thresholds, name and the place in the snapshot.\<close>

record counter =
  ct_check :: string
  ct_key :: string
  ct_limits :: CountCheck
  ct_metric :: string
  ct_prev :: "redisCounterSnapshot \<Rightarrow> nat"

definition evicted_counter :: "redis_Instance \<Rightarrow> counter" where
  "evicted_counter ins = \<lparr>ct_check = ''redis::evicted_keys'', ct_key = ''evicted_keys'', ct_limits = rs_EvictedKeys ins,
     ct_metric = ''evicted keys'', ct_prev = sn_evictedKeys\<rparr>"

definition expired_counter :: "redis_Instance \<Rightarrow> counter" where
  "expired_counter ins = \<lparr>ct_check = ''redis::expired_keys'', ct_key = ''expired_keys'', ct_limits = rs_ExpiredKeys ins,
     ct_metric = ''expired keys'', ct_prev = sn_expiredKeys\<rparr>"

definition rejected_counter :: "redis_Instance \<Rightarrow> counter" where
  "rejected_counter ins = \<lparr>ct_check = ''redis::rejected_connections'', ct_key = ''rejected_connections'', ct_limits = rs_RejectedConn ins,
     ct_metric = ''rejected connections'', ct_prev = sn_rejectedConn\<rparr>"

definition counters :: "redis_Instance \<Rightarrow> counter list" where
  "counters ins = [evicted_counter ins, expired_counter ins, rejected_counter ins]"

definition read_counter :: "fmt_quote \<Rightarrow> redis_Instance \<Rightarrow> string \<Rightarrow> info \<Rightarrow> counter \<Rightarrow> Event + nat" where
  "read_counter q ins target info c =
     (if \<not> enabled (ct_limits c) then Inr 0
      else case infoGetUint64 q info (ct_key c) of
             Bad e \<Rightarrow> Inl (critical ins (ct_check c) target (''failed to parse redis '' @ ct_key c @ '': '' @ e))
           | Missing \<Rightarrow> Inl (critical ins (ct_check c) target (''redis info output missing '' @ ct_key c))
           | Val n \<Rightarrow> Inr n)"

definition baseline_event :: "redis_Instance \<Rightarrow> string \<Rightarrow> counter \<Rightarrow> nat \<Rightarrow> Event" where
  "baseline_event ins target c tot =
     SetDescription (''redis '' @ ct_metric c @ '' baseline established (total: '' @ show_nat tot @ '')'')
       (SetAttrs [(''delta'', ''0''), (''total'', show_nat tot)] (newEvent ins (ct_check c) target))"

definition checkDeltaCount :: "redis_Instance \<Rightarrow> string \<Rightarrow> counter \<Rightarrow> nat \<Rightarrow> nat \<Rightarrow> Event" where
  "checkDeltaCount ins target c delta tot =
     by_status (ge_status (int delta) (ct_limits c))
       (''redis '' @ ct_metric c @ '' delta '' @ show_nat delta @ '' >= critical threshold '' @ show_int (ck_CriticalGe (ct_limits c)))
       (''redis '' @ ct_metric c @ '' delta '' @ show_nat delta @ '' >= warning threshold '' @ show_int (ck_WarnGe (ct_limits c)))
       (''redis '' @ ct_metric c @ '' delta '' @ show_nat delta @ '', everything is ok'')
       (SetCurrentValue (show_nat delta) (SetAttrs [(''delta'', show_nat delta), (''total'', show_nat tot),
          (''threshold_desc'', ge_parts show_int (ct_limits c))] (newEvent ins (ct_check c) target)))"

text \<open>The growth since the last run; a counter that went back (the server restarted) counts as no growth.\<close>

definition delta_of :: "nat \<Rightarrow> nat \<Rightarrow> nat" where
  "delta_of tot prev = (if tot \<ge> prev then tot - prev else 0)"

definition zero_snapshot :: redisCounterSnapshot where
  "zero_snapshot = \<lparr>sn_evictedKeys = 0, sn_expiredKeys = 0, sn_rejectedConn = 0\<rparr>"

definition counter_event :: "redis_Instance \<Rightarrow> string \<Rightarrow> bool \<Rightarrow> redisCounterSnapshot \<Rightarrow> redisCounterSnapshot \<Rightarrow> counter \<Rightarrow> Event list" where
  "counter_event ins target initialized prev now c =
     (if \<not> enabled (ct_limits c) then []
      else [if initialized then checkDeltaCount ins target c (delta_of (ct_prev c now) (ct_prev c prev)) (ct_prev c now)
            else baseline_event ins target c (ct_prev c now)])"

definition checkCounterDeltas :: "fmt_quote \<Rightarrow> redis_Instance \<Rightarrow> string \<Rightarrow> info \<Rightarrow> Event list \<times> redis_Instance" where
  "checkCounterDeltas q ins target info =
     (case read_counter q ins target info (evicted_counter ins) of
        Inl e \<Rightarrow> ([e], ins)
      | Inr evicted \<Rightarrow>
     (case read_counter q ins target info (expired_counter ins) of
        Inl e \<Rightarrow> ([e], ins)
      | Inr expired \<Rightarrow>
     (case read_counter q ins target info (rejected_counter ins) of
        Inl e \<Rightarrow> ([e], ins)
      | Inr rejected \<Rightarrow>
          let prev = (case map_of (ri_prevStats ins) target of Some p \<Rightarrow> p | None \<Rightarrow> zero_snapshot);
              initialized = (map_of (ri_initialized ins) target = Some True);
              now = \<lparr>sn_evictedKeys = evicted, sn_expiredKeys = expired, sn_rejectedConn = rejected\<rparr>
          in (concat (map (counter_event ins target initialized prev now) (counters ins)),
              ins\<lparr>ri_prevStats := m_set target now (ri_prevStats ins), ri_initialized := m_set target True (ri_initialized ins)\<rparr>))))"

section \<open>Memory, persistence, cluster\<close>

definition pct_text :: "real \<Rightarrow> string" where
  "pct_text x = fmt_fixed 1 x @ ''%''"

definition percent_of :: "int \<Rightarrow> int \<Rightarrow> real" where
  "percent_of used tot = fl used * 100 / fl tot"

definition checkUsedMemory :: "fmt_quote \<Rightarrow> redis_Instance \<Rightarrow> string \<Rightarrow> info \<Rightarrow> Event" where
  "checkUsedMemory q ins target info =
     (let c = rs_UsedMemory ins; check = ''redis::used_memory'' in
      from_info ins target check ''used_memory'' (infoGetInt64 q info ''used_memory'') (\<lambda>used.
      let more = (case infoGetInt64 q info ''maxmemory'' of
            Val m \<Rightarrow> if m > 0 then [(''maxmemory'', human_u64 m), (''maxmemory_bytes'', show_int m), (''used_percent_of_maxmemory'', pct_text (percent_of used m))] else []
          | _ \<Rightarrow> []);
          attrs = [(''used_memory'', human_u64 used), (''used_memory_bytes'', show_int used), (''threshold_desc'', ge_parts Size_String c)] @ more
      in by_status (ge_status used c)
           (''redis used memory '' @ human_u64 used @ '' >= critical threshold '' @ Size_String (ck_CriticalGe c))
           (''redis used memory '' @ human_u64 used @ '' >= warning threshold '' @ Size_String (ck_WarnGe c))
           (''redis used memory '' @ human_u64 used @ '', everything is ok'')
           (SetCurrentValue (human_u64 used) (SetAttrs attrs (newEvent ins check target)))))"

definition pct_thresholds :: "CountCheck \<Rightarrow> string" where
  "pct_thresholds c = ''Warning '' @ ge_sign @ '' '' @ show_int (ck_WarnGe c) @ ''%, Critical '' @ ge_sign @ '' '' @ show_int (ck_CriticalGe c) @ ''%''"

definition checkUsedMemoryPct :: "fmt_quote \<Rightarrow> redis_Instance \<Rightarrow> string \<Rightarrow> info \<Rightarrow> Event" where
  "checkUsedMemoryPct q ins target info =
     (let c = rs_UsedMemoryPct ins; check = ''redis::used_memory_pct'' in
      from_info ins target check ''used_memory'' (infoGetInt64 q info ''used_memory'') (\<lambda>used.
      from_info ins target check ''maxmemory'' (infoGetInt64 q info ''maxmemory'') (\<lambda>m.
      if m \<le> 0 then
        SetDescription ''redis maxmemory is 0 (unlimited), used memory percent check skipped''
          (SetAttrs [(''used_memory'', human_u64 used), (''used_memory_bytes'', show_int used), (''maxmemory_bytes'', ''0''), (''threshold_desc'', pct_thresholds c)]
            (newEvent ins check target))
      else
        let pct = percent_of used m in
        by_status (EvaluateGeThreshold pct (fl (ck_WarnGe c)) (fl (ck_CriticalGe c)))
          (''redis used memory '' @ pct_text pct @ '' >= critical threshold '' @ show_int (ck_CriticalGe c) @ ''%'')
          (''redis used memory '' @ pct_text pct @ '' >= warning threshold '' @ show_int (ck_WarnGe c) @ ''%'')
          (''redis used memory '' @ pct_text pct @ '' of maxmemory, everything is ok'')
          (SetCurrentValue (pct_text pct) (SetAttrs [(''used_memory'', human_u64 used), (''used_memory_bytes'', show_int used),
             (''maxmemory'', human_u64 m), (''maxmemory_bytes'', show_int m), (''used_memory_pct'', pct_text pct), (''threshold_desc'', pct_thresholds c)]
             (newEvent ins check target))))))"

definition not_ok :: "info \<Rightarrow> string \<Rightarrow> string option" where
  "not_ok info key =
     (case map_of info key of None \<Rightarrow> None | Some s \<Rightarrow> if s \<noteq> [] \<and> to_lower s \<noteq> ''ok'' then Some s else None)"

definition checkPersistence :: "fmt_quote \<Rightarrow> redis_Instance \<Rightarrow> string \<Rightarrow> info \<Rightarrow> Event" where
  "checkPersistence q ins target info =
     (let check = ''redis::persistence''; sev = fl_Severity (rs_Persistence ins) in
      case infoGetInt q info ''loading'' of
        Bad e \<Rightarrow> critical ins check target (''failed to parse redis loading state: '' @ e)
      | Missing \<Rightarrow> critical ins check target ''redis persistence info missing loading''
      | Val loading \<Rightarrow>
          let attrs = [(''loading'', show_int loading)] @ attr_of info ''rdb_last_bgsave_status'' False @ attr_of info ''aof_enabled'' False @
                attr_of info ''aof_last_write_status'' False @ attr_of info ''rdb_bgsave_in_progress'' False @
                attr_of info ''aof_rewrite_in_progress'' False @ [(''threshold_desc'', sev @ '': persistence not healthy'')];
              event = SetAttrs attrs (newEvent ins check target)
          in if loading = 1 then SetDescription ''redis is loading persistence data'' (SetEventStatus sev event)
             else case not_ok info ''rdb_last_bgsave_status'' of
                    Some s \<Rightarrow> SetDescription (''redis RDB last bgsave status is '' @ s) (SetEventStatus sev event)
                  | None \<Rightarrow>
                      (case (if map_of info ''aof_enabled'' = Some ''1'' then not_ok info ''aof_last_write_status'' else None) of
                         Some s \<Rightarrow> SetDescription (''redis AOF last write status is '' @ s) (SetEventStatus sev event)
                       | None \<Rightarrow> SetDescription ''redis persistence status is healthy'' event))"

definition checkClusterState :: "redis_Instance \<Rightarrow> string \<Rightarrow> string + info \<Rightarrow> Event" where
  "checkClusterState ins target answer =
     (let check = ''redis::cluster_state''; sev = fl_Severity (rs_ClusterState ins) in
      case answer of
        Inl e \<Rightarrow> critical ins check target (''failed to query redis cluster info: '' @ e)
      | Inr info \<Rightarrow>
          let state = normal (m_str info ''cluster_state'') in
          if state = [] then critical ins check target ''redis cluster info missing cluster_state''
          else
            let event = SetCurrentValue state (SetAttrs [(''cluster_state'', state), (''threshold_desc'', sev @ '': cluster_state must be ok'')] (newEvent ins check target))
            in if state = ''ok'' then SetDescription ''redis cluster state is ok'' event
               else SetDescription (''redis cluster state is '' @ state @ '', expected ok'') (SetEventStatus sev event))"

definition node_flags :: "string \<Rightarrow> (bool \<times> bool) option" where
  "node_flags line =
     (let f = Fields (trim_space line) in
      if length f < 3 then None
      else let flags = map trim_space (split_at (CHR '','') (f ! 2)) in
           Some (''fail'' \<in> set flags, ''fail?'' \<in> set flags \<or> ''pfail'' \<in> set flags))"

definition summarizeClusterNodeFlags :: "string \<Rightarrow> nat \<times> nat" where
  "summarizeClusterNodeFlags raw =
     (let fs = List.map_filter node_flags (split_at nl raw)
      in (length (filter fst fs), length (filter (\<lambda>f. \<not> fst f \<and> snd f) fs)))"

definition clusterSlotsFull :: int where "clusterSlotsFull = 16384"

definition checkClusterTopology :: "fmt_quote \<Rightarrow> redis_Instance \<Rightarrow> string \<Rightarrow> string + info \<Rightarrow> string + string \<Rightarrow> Event" where
  "checkClusterTopology q ins target answer nodes =
     (let check = ''redis::cluster_topology''; refused = critical ins check target in
      case answer of
        Inl e \<Rightarrow> refused (''failed to query redis cluster info: '' @ e)
      | Inr info \<Rightarrow>
      (case nodes of
         Inl e \<Rightarrow> refused (''failed to query redis cluster nodes: '' @ e)
       | Inr raw \<Rightarrow>
      (case infoGetInt q info ''cluster_slots_assigned'' of
         Bad e \<Rightarrow> refused (''failed to parse redis cluster_slots_assigned: '' @ e)
       | Missing \<Rightarrow> refused ''redis cluster info missing cluster_slots_assigned''
       | Val assigned \<Rightarrow>
      (case infoGetInt q info ''cluster_slots_fail'' of
         Bad e \<Rightarrow> refused (''failed to parse redis cluster_slots_fail: '' @ e)
       | Missing \<Rightarrow> refused ''redis cluster info missing cluster_slots_fail''
       | Val failed \<Rightarrow>
           let (failNodes, pfailNodes) = summarizeClusterNodeFlags raw;
               event = SetAttrs [(''fail_nodes'', show_nat failNodes), (''pfail_nodes'', show_nat pfailNodes),
                 (''cluster_slots_assigned'', show_int assigned), (''cluster_slots_fail'', show_int failed),
                 (''threshold_desc'', ''Critical: fail nodes, slot gaps, or slots_fail > 0; Warning: pfail nodes'')] (newEvent ins check target);
               issues = (if failNodes > 0 then [show_nat failNodes @ '' fail node detected''] else []) @
                 (if failed > 0 then [''cluster_slots_fail is '' @ show_int failed] else []) @
                 (if assigned \<noteq> clusterSlotsFull then [''assigned slots '' @ show_int assigned @ '' != expected '' @ show_int clusterSlotsFull] else [])
           in if issues \<noteq> [] then SetDescription (''redis cluster topology unhealthy: '' @ join ''; '' issues) (SetEventStatus EventStatusCritical event)
              else if pfailNodes > 0
              then SetDescription (''redis cluster topology unhealthy: '' @ show_nat pfailNodes @ '' pfail node detected'') (SetEventStatus EventStatusWarning event)
              else SetDescription ''redis cluster topology is healthy'' event))))"

section \<open>One target\<close>

text \<open>The state of a run: the connection, the answers already read, the instance, the events pushed so far in
  their order, and the panic that ended it.\<close>

record gather =
  ga_acc :: RedisAccessor
  ga_cache :: "(string, info) gomap"
  ga_ins :: redis_Instance
  ga_events :: "Event list"
  ga_panic :: "string option"

definition push :: "Event \<Rightarrow> gather \<Rightarrow> gather" where
  "push e g = g\<lparr>ga_events := ga_events g @ [e]\<rparr>"

definition after_call ::
  "('a \<Rightarrow> RedisAccessor \<Rightarrow> gather \<Rightarrow> gather) \<Rightarrow> (string \<Rightarrow> gather \<Rightarrow> gather) \<Rightarrow> (call_error + 'a) \<times> RedisAccessor \<Rightarrow> gather \<Rightarrow> gather" where
  "after_call good bad r g =
     (case r of
        (Inl (CallPanic p), a) \<Rightarrow> g\<lparr>ga_acc := a, ga_panic := Some p\<rparr>
      | (Inl (CallErr e), a) \<Rightarrow> bad e (g\<lparr>ga_acc := a\<rparr>)
      | (Inr v, a) \<Rightarrow> good v a g)"

definition infoSection :: "fmt_quote \<Rightarrow> string \<Rightarrow> (info \<Rightarrow> gather \<Rightarrow> gather) \<Rightarrow> (string \<Rightarrow> gather \<Rightarrow> gather) \<Rightarrow> gather \<Rightarrow> gather" where
  "infoSection q sect good bad g =
     (case map_of (ga_cache g) sect of
        Some info \<Rightarrow> good info g
      | None \<Rightarrow> after_call (\<lambda>info a g. good info (g\<lparr>ga_acc := a, ga_cache := m_set sect info (ga_cache g)\<rparr>)) bad (Info q sect (ga_acc g)) g)"

text \<open>A stage runs unless an earlier one panicked.\<close>

definition stage :: "bool \<Rightarrow> (gather \<Rightarrow> gather) \<Rightarrow> gather \<Rightarrow> gather" where
  "stage wanted f g = (if ga_panic g = None \<and> wanted then f g else g)"

definition cluster_stage :: "fmt_quote \<Rightarrow> string \<Rightarrow> gather \<Rightarrow> gather" where
  "cluster_stage q target g =
     after_call
       (\<lambda>raw a g.
          let g = g\<lparr>ga_acc := a\<rparr>; ins = ga_ins g;
              g = stage (clusterStateEnabled ins) (push (checkClusterState ins target (Inr (parseInfoToMap raw)))) g
          in stage (clusterTopologyEnabled ins)
               (\<lambda>g. after_call (\<lambda>nodes a g. push (checkClusterTopology q ins target (Inr (parseInfoToMap raw)) (Inr nodes)) (g\<lparr>ga_acc := a\<rparr>))
                      (\<lambda>e. push (checkClusterTopology q ins target (Inr (parseInfoToMap raw)) (Inl e))) (ClusterNodes q (ga_acc g)) g) g)
       (\<lambda>e g.
          let ins = ga_ins g;
              g = stage (clusterStateEnabled ins) (push (checkClusterState ins target (Inl e))) g
          in stage (clusterTopologyEnabled ins)
               (\<lambda>g. after_call (\<lambda>nodes a g. push (checkClusterTopology q ins target (Inl e) (Inr nodes)) (g\<lparr>ga_acc := a\<rparr>))
                      (\<lambda>e'. push (checkClusterTopology q ins target (Inl e) (Inl e'))) (ClusterNodes q (ga_acc g)) g) g)
       (ClusterInfo q (ga_acc g)) g"

definition mode_mismatch :: "redis_Instance \<Rightarrow> string \<Rightarrow> string \<Rightarrow> string \<Rightarrow> string \<Rightarrow> Event" where
  "mode_mismatch ins check target actual desc =
     SetDescription (''redis mode is '' @ actual @ '', expected cluster'')
       (SetAttrs [(''redis_mode'', actual), (''threshold_desc'', desc)] (SetEventStatus EventStatusCritical (newEvent ins check target)))"

definition mode_stage :: "fmt_quote \<Rightarrow> string \<Rightarrow> gather \<Rightarrow> gather" where
  "mode_stage q target g =
     (let ins = ga_ins g; cluster = (rs_Mode ins = redisModeCluster) in
      infoSection q ''server''
        (\<lambda>info g.
           let actual = normal (m_str info ''redis_mode''); actual = (if actual = [] then redisModeStandalone else actual) in
           if cluster \<and> actual \<noteq> redisModeCluster then
             stage (clusterTopologyEnabled ins) (push (mode_mismatch ins ''redis::cluster_topology'' target actual ''Critical: redis_mode must be cluster''))
               (stage (clusterStateEnabled ins)
                 (push (mode_mismatch ins ''redis::cluster_state'' target actual (fl_Severity (rs_ClusterState ins) @ '': redis_mode must be cluster''))) g)
           else if actual = redisModeCluster then cluster_stage q target g else g)
        (\<lambda>e g.
           stage (cluster \<and> clusterTopologyEnabled ins) (push (critical ins ''redis::cluster_topology'' target (''failed to query redis server info: '' @ e)))
             (stage (cluster \<and> clusterStateEnabled ins) (push (critical ins ''redis::cluster_state'' target (''failed to query redis server info: '' @ e))) g)) g)"

text \<open>A stage with one check on one section.\<close>

definition section_check :: "fmt_quote \<Rightarrow> string \<Rightarrow> string \<Rightarrow> string \<Rightarrow> string \<Rightarrow> (redis_Instance \<Rightarrow> info \<Rightarrow> Event) \<Rightarrow> gather \<Rightarrow> gather" where
  "section_check q sect what check target f g =
     infoSection q sect (\<lambda>info g. push (f (ga_ins g) info) g)
       (\<lambda>e g. push (critical (ga_ins g) check target (''failed to query redis '' @ what @ '' info: '' @ e)) g) g"

definition clients_stage :: "fmt_quote \<Rightarrow> string \<Rightarrow> gather \<Rightarrow> gather" where
  "clients_stage q target g =
     (let ins = ga_ins g; c = rs_ConnectedClients ins; b = rs_BlockedClients ins in
      infoSection q ''clients''
        (\<lambda>info g. stage (enabled b) (push (checkCountFromInfo q ins target ''redis::blocked_clients'' info ''blocked_clients'' b ''blocked clients''))
           (stage (enabled c) (push (checkCountFromInfo q ins target ''redis::connected_clients'' info ''connected_clients'' c ''connected clients'')) g))
        (\<lambda>e g. stage (enabled b) (push (critical ins ''redis::blocked_clients'' target (''failed to query redis client info: '' @ e)))
           (stage (enabled c) (push (critical ins ''redis::connected_clients'' target (''failed to query redis client info: '' @ e))) g)) g)"

definition stats_stage :: "fmt_quote \<Rightarrow> string \<Rightarrow> gather \<Rightarrow> gather" where
  "stats_stage q target g =
     (let ins = ga_ins g; o' = rs_OpsPerSecond ins in
      infoSection q ''stats''
        (\<lambda>info g.
           let (es, ins') = checkCounterDeltas q ins target info; g = g\<lparr>ga_events := ga_events g @ es, ga_ins := ins'\<rparr>
           in stage (enabled o') (push (checkCountFromInfo q ins target ''redis::instantaneous_ops_per_sec'' info ''instantaneous_ops_per_sec'' o'
                ''instantaneous ops per second'')) g)
        (\<lambda>e g.
           let fail = (\<lambda>check. push (critical ins check target (''failed to query redis stats info: '' @ e))) in
           stage (enabled o') (fail ''redis::instantaneous_ops_per_sec'')
           (stage (enabled (rs_ExpiredKeys ins)) (fail ''redis::expired_keys'')
           (stage (enabled (rs_EvictedKeys ins)) (fail ''redis::evicted_keys'')
           (stage (enabled (rs_RejectedConn ins)) (fail ''redis::rejected_connections'') g)))) g)"

definition needs_stats :: "redis_Instance \<Rightarrow> bool" where
  "needs_stats ins \<longleftrightarrow> enabled (rs_RejectedConn ins) \<or> enabled (rs_EvictedKeys ins) \<or> enabled (rs_ExpiredKeys ins) \<or> enabled (rs_OpsPerSecond ins)"

definition slaves_wanted :: "redis_Instance \<Rightarrow> bool" where
  "slaves_wanted ins \<longleftrightarrow> mk_WarnLt (rs_ConnectedSlaves ins) > 0 \<or> mk_CriticalLt (rs_ConnectedSlaves ins) > 0"

text \<open>Everything after a successful ping, in the order of the code.\<close>

definition gather_checks :: "fmt_quote \<Rightarrow> string \<Rightarrow> gather \<Rightarrow> gather" where
  "gather_checks q target g0 =
     (let ins = ga_ins g0;
          g = stage (rs_Mode ins \<noteq> redisModeStandalone) (mode_stage q target) g0;
          g = stage (ex_Expect (rs_Role ins) \<noteq> []) (section_check q ''replication'' ''replication'' ''redis::role'' target (\<lambda>i. checkRole i target)) g;
          g = stage (ex_Expect (rs_MasterLink ins) \<noteq> [])
                (section_check q ''replication'' ''replication'' ''redis::master_link_status'' target (\<lambda>i. checkMasterLink i target)) g;
          g = stage (slaves_wanted ins) (section_check q ''replication'' ''replication'' ''redis::connected_slaves'' target
                (\<lambda>i info. checkMinCountFromInfo q i target ''redis::connected_slaves'' info ''connected_slaves'' (rs_ConnectedSlaves i) ''connected slaves'')) g;
          g = stage (enabled (rs_ReplLag ins)) (section_check q ''replication'' ''replication'' ''redis::repl_lag'' target (\<lambda>i. checkReplLag q i target)) g;
          g = stage (enabled (rs_ConnectedClients ins) \<or> enabled (rs_BlockedClients ins)) (clients_stage q target) g;
          g = (if enabled (rs_UsedMemory ins)
               then stage True (section_check q ''memory'' ''memory'' ''redis::used_memory'' target (\<lambda>i. checkUsedMemory q i target)) g
               else stage (enabled (rs_UsedMemoryPct ins)) (section_check q ''memory'' ''memory'' ''redis::used_memory_pct'' target (\<lambda>i. checkUsedMemoryPct q i target)) g);
          g = stage (enabled (rs_UsedMemory ins) \<and> enabled (rs_UsedMemoryPct ins))
                (section_check q ''memory'' ''memory'' ''redis::used_memory_pct'' target (\<lambda>i. checkUsedMemoryPct q i target)) g;
          g = stage (needs_stats ins) (stats_stage q target) g
      in stage (persistenceEnabled ins) (section_check q ''persistence'' ''persistence'' ''redis::persistence'' target (\<lambda>i. checkPersistence q i target)) g)"

definition conn_event :: "redis_Instance \<Rightarrow> string \<Rightarrow> duration \<Rightarrow> Event" where
  "conn_event ins target t =
     SetAttrs [(''response_time'', dur_string t), (''threshold_desc'', rs_Connectivity ins @ '': redis ping failed'')]
       (newEvent ins ''redis::connectivity'' target)"

definition ping_failed :: "redis_Instance \<Rightarrow> string \<Rightarrow> duration \<Rightarrow> string \<Rightarrow> Event" where
  "ping_failed ins target t e =
     SetDescription (''redis ping failed: '' @ e) (SetEventStatus (rs_Connectivity ins) (conn_event ins target t))"

definition accessor_config :: "redis_Instance \<Rightarrow> string \<Rightarrow> RedisAccessorConfig" where
  "accessor_config ins target =
     \<lparr>ac_Target = target, ac_Username = rs_Username ins, ac_Password = rs_Password ins, ac_DB = rs_DB ins\<rparr>"

text \<open>A run for one target: the events in the order they are pushed, the instance afterwards, and the panic if
  there was one. The argument \<open>t\<close> is the time until the ping was answered or failed.\<close>

definition gatherTarget ::
  "fmt_quote \<Rightarrow> (string \<Rightarrow> string + redis_conn) \<Rightarrow> duration \<Rightarrow> string \<Rightarrow> redis_Instance \<Rightarrow> Event list \<times> redis_Instance \<times> string option" where
  "gatherTarget q dial t target ins =
     (case NewRedisAccessor q dial (accessor_config ins target) of
        Inl (CallPanic p) \<Rightarrow> ([], ins, Some p)
      | Inl (CallErr e) \<Rightarrow> ([ping_failed ins target t e], ins, None)
      | Inr acc \<Rightarrow>
          (case Ping q acc of
             (Some (CallPanic p), _) \<Rightarrow> ([], ins, Some p)
           | (Some (CallErr e), _) \<Rightarrow> ([ping_failed ins target t e], ins, None)
           | (None, acc) \<Rightarrow>
               let g = gather_checks q target \<lparr>ga_acc = acc, ga_cache = [], ga_ins = ins,
                     ga_events = SetDescription ''redis ping ok'' (conn_event ins target t) # checkResponseTime ins target t, ga_panic = None\<rparr>
               in (ga_events g, ga_ins g, ga_panic g)))"

text \<open>The goroutine of a target: a panic is recovered into an event after those already pushed.\<close>

definition gather_goroutine ::
  "fmt_quote \<Rightarrow> (string \<Rightarrow> string + redis_conn) \<Rightarrow> duration \<Rightarrow> string \<Rightarrow> redis_Instance \<Rightarrow> Event list \<times> redis_Instance" where
  "gather_goroutine q dial t target ins =
     (case gatherTarget q dial t target ins of
        (es, ins', None) \<Rightarrow> (es, ins')
      | (es, ins', Some p) \<Rightarrow>
          (es @ [SetDescription (''panic during check: '' @ p) (SetEventStatus EventStatusCritical
             (BuildEvent [[(''check'', ''redis::connectivity''), (''target'', target)]]))], ins'))"

section \<open>Facts\<close>

lemma newEvent_labels [simp]: "ev_check (newEvent ins check target) = check" "ev_of (newEvent ins check target) = target"
  by (simp_all add: ev_check_def ev_of_def newEvent_def BuildEvent_def nil_map_def m_copy_Cons m_str_def)

lemma ev_critical [simp]: "ev_check (critical ins check target d) = check" "ev_of (critical ins check target d) = target"
  by (simp_all add: critical_def)

lemma is_event_redis [check_events]:
  "is_event target check (newEvent ins check target)" "is_event target check (critical ins check target d)"
  by (simp_all add: is_event_def)

lemma is_event_from_info [check_events]:
  "(\<And>n. is_event target check (k n)) \<Longrightarrow> is_event target check (from_info ins target check key v k)"
  by (cases v) (simp_all add: from_info_def check_events)

lemma is_event_simple [check_events]:
  "is_event target ''redis::role'' (checkRole ins target info)"
  "is_event target ''redis::master_link_status'' (checkMasterLink ins target info)"
  "is_event target check (checkCount ins target check v c metric)"
  "is_event target check (checkMinCount ins target check v mc metric)"
  by (simp_all add: checkRole_def checkMasterLink_def checkCount_def checkMinCount_def Let_def check_events split: option.split)

lemma is_event_counts [check_events]:
  "is_event target check (checkCountFromInfo q ins target check info key c metric)"
  "is_event target check (checkMinCountFromInfo q ins target check info key mc metric)"
  by (auto simp: checkCountFromInfo_def checkMinCountFromInfo_def intro: check_events)

lemma is_event_more [check_events]:
  "is_event target ''redis::repl_lag'' (checkReplLag q ins target info)"
  "is_event target ''redis::used_memory'' (checkUsedMemory q ins target info)"
  "is_event target ''redis::used_memory_pct'' (checkUsedMemoryPct q ins target info)"
  "is_event target ''redis::persistence'' (checkPersistence q ins target info)"
  by (auto simp: checkReplLag_def checkUsedMemory_def checkUsedMemoryPct_def checkPersistence_def Let_def intro!: check_events split: sum.split field.split option.split)

lemma is_event_cluster [check_events]:
  "is_event target ''redis::cluster_state'' (checkClusterState ins target a)"
  "is_event target ''redis::cluster_topology'' (checkClusterTopology q ins target a n)"
  by (auto simp: checkClusterState_def checkClusterTopology_def Let_def intro!: check_events split: sum.split field.split prod.split)

text \<open>A step that pushes events of given checks, in their order, unless it panics. The settings stay as they
  are; only the counters of the instance change.\<close>

definition same_settings :: "redis_Instance \<Rightarrow> redis_Instance \<Rightarrow> bool" where
  "same_settings ins ins' \<longleftrightarrow> (\<exists>ps iz. ins' = ins\<lparr>ri_prevStats := ps, ri_initialized := iz\<rparr>)"

definition adds :: "string \<Rightarrow> string list set \<Rightarrow> gather \<Rightarrow> gather \<Rightarrow> bool" where
  "adds target names g g' \<longleftrightarrow>
     same_settings (ga_ins g) (ga_ins g') \<and>
     (ga_panic g' = None \<longrightarrow> ga_panic g = None \<and>
       (\<exists>new. ga_events g' = ga_events g @ new \<and> map ev_check new \<in> names \<and> (\<forall>e \<in> set new. ev_of e = target)))"

lemma same_settings_refl [simp]: "same_settings ins ins"
  unfolding same_settings_def by (rule exI [of _ "ri_prevStats ins"], rule exI [of _ "ri_initialized ins"]) simp

lemma same_settings_trans: "same_settings a b \<Longrightarrow> same_settings b c \<Longrightarrow> same_settings a c"
  unfolding same_settings_def by (elim exE) (simp, blast)


lemma adds_refl: "[] \<in> names \<Longrightarrow> adds target names g g"
  by (simp add: adds_def)

lemma adds_trans:
  assumes "adds target n1 g1 g2" "adds target n2 g2 g3"
  shows "adds target {a @ b |a b. a \<in> n1 \<and> b \<in> n2} g1 g3"
proof -
  have "\<exists>new. ga_events g3 = ga_events g1 @ new \<and> map ev_check new \<in> {a @ b |a b. a \<in> n1 \<and> b \<in> n2} \<and> (\<forall>e \<in> set new. ev_of e = target)"
    if p: "ga_panic g3 = None"
  proof -
    from assms p obtain x y where x: "ga_events g2 = ga_events g1 @ x" "map ev_check x \<in> n1" "\<forall>e \<in> set x. ev_of e = target"
      and y: "ga_events g3 = ga_events g2 @ y" "map ev_check y \<in> n2" "\<forall>e \<in> set y. ev_of e = target"
      by (auto simp: adds_def)
    then show ?thesis by (intro exI [of _ "x @ y"]) auto
  qed
  moreover have "same_settings (ga_ins g1) (ga_ins g3)" using assms same_settings_trans by (auto simp: adds_def)
  moreover have "ga_panic g3 = None \<Longrightarrow> ga_panic g1 = None" using assms by (auto simp: adds_def)
  ultimately show ?thesis by (simp add: adds_def)
qed

lemma adds_weaken: "adds target n g g' \<Longrightarrow> n \<subseteq> n' \<Longrightarrow> adds target n' g g'"
  unfolding adds_def by blast

lemma adds_push: "is_event target check e \<Longrightarrow> ga_panic g = None \<Longrightarrow> adds target {[check]} g (push e g)"
  by (simp add: adds_def push_def is_event_def)

text \<open>A step that reads from the connection first.\<close>

definition same_run :: "gather \<Rightarrow> gather \<Rightarrow> bool" where
  "same_run g g' \<longleftrightarrow> ga_ins g' = ga_ins g \<and> ga_events g' = ga_events g \<and> ga_panic g' = ga_panic g"

lemma adds_same_run: "same_run g g' \<Longrightarrow> adds target names g' g'' \<Longrightarrow> adds target names g g''"
  by (simp add: adds_def same_run_def)

lemma adds_panic: "adds target names g (g\<lparr>ga_acc := a, ga_panic := Some p\<rparr>)"
  by (simp add: adds_def)

lemma adds_after_call:
  assumes "\<And>v a. adds target names g (good v a g)" "\<And>e g'. same_run g g' \<Longrightarrow> adds target names g' (bad e g')"
  shows "adds target names g (after_call good bad r g)"
proof -
  obtain x a where r: "r = (x, a)" by (cases r)
  have "same_run g (g\<lparr>ga_acc := a\<rparr>)" by (simp add: same_run_def)
  then show ?thesis using assms r adds_panic adds_same_run
    by (auto simp: after_call_def split: sum.split call_error.split)
qed

lemma adds_infoSection:
  assumes "\<And>info g'. same_run g g' \<Longrightarrow> adds target names g' (good info g')" "\<And>e g'. same_run g g' \<Longrightarrow> adds target names g' (bad e g')"
  shows "adds target names g (infoSection q sect good bad g)"
proof (cases "map_of (ga_cache g) sect")
  case (Some info)
  have "same_run g g" by (simp add: same_run_def)
  then show ?thesis using assms(1) Some by (simp add: infoSection_def)
next
  case None
  have "adds target names g (good info (g\<lparr>ga_acc := a, ga_cache := m_set sect info (ga_cache g)\<rparr>))" for info a
  proof -
    have "same_run g (g\<lparr>ga_acc := a, ga_cache := m_set sect info (ga_cache g)\<rparr>)" by (simp add: same_run_def)
    then show ?thesis using assms(1) adds_same_run by blast
  qed
  then show ?thesis using None assms(2) by (simp add: infoSection_def adds_after_call)
qed

text \<open>The checks of a stage: those it adds when it is wanted, none otherwise.\<close>

definition opt :: "bool \<Rightarrow> string \<Rightarrow> string list" where
  "opt b check = (if b then [check] else [])"

lemma adds_stage:
  assumes "wanted \<Longrightarrow> ga_panic g = None \<Longrightarrow> adds target names g (f g)"
  shows "adds target (if wanted then names else {[]}) g (stage wanted f g)"
proof (cases "ga_panic g = None \<and> wanted")
  case False
  then show ?thesis by (auto simp: stage_def adds_def)
qed (simp add: stage_def assms)

lemma adds_stage_push:
  assumes "is_event target check e"
  shows "adds target {opt wanted check} g (stage wanted (push e) g)"
proof -
  have "adds target (if wanted then {[check]} else {[]}) g (stage wanted (push e) g)"
    using assms by (intro adds_stage adds_push)
  then show ?thesis by (rule adds_weaken) (simp add: opt_def)
qed

lemma adds_two_pushes:
  assumes "is_event target c1 e1" "is_event target c2 e2"
  shows "adds target {opt w1 c1 @ opt w2 c2} g (stage w2 (push e2) (stage w1 (push e1) g))"
  using adds_trans [OF adds_stage_push [OF assms(1)] adds_stage_push [OF assms(2)]] by simp

lemma adds_section_check:
  assumes "\<And>ins info. is_event target check (f ins info)"
  shows "adds target {opt wanted check} g (stage wanted (section_check q sect what check target f) g)"
proof -
  have "adds target (if wanted then {[check]} else {[]}) g (stage wanted (section_check q sect what check target f) g)"
  proof (rule adds_stage)
    assume p: "ga_panic g = None"
    show "adds target {[check]} g (section_check q sect what check target f g)"
      unfolding section_check_def
      using p assms by (intro adds_infoSection adds_push) (auto simp: same_run_def check_events)
  qed
  then show ?thesis by (rule adds_weaken) (simp add: opt_def)
qed


definition cluster_checks :: "redis_Instance \<Rightarrow> string list" where
  "cluster_checks ins = opt (clusterStateEnabled ins) ''redis::cluster_state'' @ opt (clusterTopologyEnabled ins) ''redis::cluster_topology''"

lemma adds_call_push:
  assumes "ga_panic g = None" "\<And>v. is_event target check (f v)" "\<And>e. is_event target check (h e)"
  shows "adds target {[check]} g (after_call (\<lambda>v a g. push (f v) (g\<lparr>ga_acc := a\<rparr>)) (\<lambda>e. push (h e)) r g)"
proof (rule adds_after_call)
  fix v a
  have "same_run g (g\<lparr>ga_acc := a\<rparr>)" by (simp add: same_run_def)
  then show "adds target {[check]} g (push (f v) (g\<lparr>ga_acc := a\<rparr>))"
    using assms(1,2) by (intro adds_same_run [of g "g\<lparr>ga_acc := a\<rparr>"] adds_push) (simp_all add: same_run_def)
next
  fix e g'
  assume "same_run g g'"
  then show "adds target {[check]} g' (push (h e) g')" using assms(1,3) by (intro adds_push) (simp_all add: same_run_def)
qed

text \<open>The two cluster checks after the cluster was asked for its state.\<close>

lemma adds_cluster_pair:
  assumes "is_event target ''redis::cluster_state'' e1" "\<And>v. is_event target ''redis::cluster_topology'' (f v)" "\<And>e. is_event target ''redis::cluster_topology'' (h e)"
  shows "adds target {cluster_checks ins} g
    (stage (clusterTopologyEnabled ins) (\<lambda>g. after_call (\<lambda>v a g. push (f v) (g\<lparr>ga_acc := a\<rparr>)) (\<lambda>e. push (h e)) (r g) g)
      (stage (clusterStateEnabled ins) (push e1) g))"
proof -
  have "adds target (if clusterTopologyEnabled ins then {[''redis::cluster_topology'']} else {[]}) g'
      (stage (clusterTopologyEnabled ins) (\<lambda>g. after_call (\<lambda>v a g. push (f v) (g\<lparr>ga_acc := a\<rparr>)) (\<lambda>e. push (h e)) (r g) g) g')" for g'
    using assms(2,3) by (intro adds_stage adds_call_push)
  from adds_trans [OF adds_stage_push [OF assms(1)] this]
  show ?thesis by (rule adds_weaken) (auto simp: cluster_checks_def opt_def)
qed

lemma adds_cluster_stage: "adds target {cluster_checks (ga_ins g)} g (cluster_stage q target g)"
  unfolding cluster_stage_def
proof (rule adds_after_call, goal_cases)
  case (1 raw a)
  have "same_run g (g\<lparr>ga_acc := a\<rparr>)" by (simp add: same_run_def)
  then show ?case unfolding Let_def
    by (rule adds_same_run) (simp, rule adds_cluster_pair; intro check_events)
next
  case (2 e g')
  then have "ga_ins g = ga_ins g'" by (simp add: same_run_def)
  then show ?case unfolding Let_def by simp (rule adds_cluster_pair; intro check_events)
qed

text \<open>What the mode of an instance allows: the cluster checks are due in cluster mode, never on a standalone
  server, and depend on the server otherwise.\<close>

definition cluster_options :: "redis_Instance \<Rightarrow> string list set" where
  "cluster_options ins =
     (if rs_Mode ins = redisModeStandalone then {[]}
      else if rs_Mode ins = redisModeCluster then {cluster_checks ins}
      else {[], cluster_checks ins})"

lemma is_event_mismatch [check_events]: "is_event target check (mode_mismatch ins check target actual d)"
  by (auto simp: mode_mismatch_def intro: check_events)

lemma adds_mode_stage:
  assumes "rs_Mode (ga_ins g) \<noteq> redisModeStandalone"
  shows "adds target (cluster_options (ga_ins g)) g (mode_stage q target g)"
  unfolding mode_stage_def Let_def
proof (rule adds_infoSection, goal_cases)
  case (1 info g')
  then have i: "ga_ins g = ga_ins g'" by (simp add: same_run_def)
  have pair: "adds target {cluster_checks (ga_ins g')} g' (stage (clusterTopologyEnabled (ga_ins g')) (push (mode_mismatch (ga_ins g') ''redis::cluster_topology'' target a d))
      (stage (clusterStateEnabled (ga_ins g')) (push (mode_mismatch (ga_ins g') ''redis::cluster_state'' target a d')) g'))" for a d d'
    unfolding cluster_checks_def by (intro adds_two_pushes check_events)
  show ?case
    using assms i adds_weaken [OF pair] adds_weaken [OF adds_cluster_stage] adds_refl
    by (auto simp: cluster_options_def mode_defs)
next
  case (2 e g')
  then have i: "ga_ins g = ga_ins g'" by (simp add: same_run_def)
  have pair: "adds target {opt (c \<and> clusterStateEnabled ins) ''redis::cluster_state'' @ opt (c \<and> clusterTopologyEnabled ins) ''redis::cluster_topology''} g'
      (stage (c \<and> clusterTopologyEnabled ins) (push (critical ins ''redis::cluster_topology'' target d))
        (stage (c \<and> clusterStateEnabled ins) (push (critical ins ''redis::cluster_state'' target d')) g'))" for c ins d d'
    by (intro adds_two_pushes check_events)
  show ?case using i assms
    by (intro adds_weaken [OF pair]) (auto simp: cluster_options_def cluster_checks_def opt_def)
qed

lemma adds_clients_stage:
  "adds target {opt (enabled (rs_ConnectedClients (ga_ins g))) ''redis::connected_clients'' @ opt (enabled (rs_BlockedClients (ga_ins g))) ''redis::blocked_clients''} g
    (clients_stage q target g)"
  unfolding clients_stage_def Let_def by (intro adds_infoSection adds_two_pushes check_events)


text \<open>The events on counters: one for each enabled counter, or a single one when a counter cannot be read.\<close>

definition counter_checks :: "counter list \<Rightarrow> string list" where
  "counter_checks cs = concat (map (\<lambda>c. opt (enabled (ct_limits c)) (ct_check c)) cs)"

definition counter_options :: "redis_Instance \<Rightarrow> string list set" where
  "counter_options ins =
     {counter_checks (counters ins), counter_checks [rejected_counter ins, evicted_counter ins, expired_counter ins]}
     \<union> {[x] |x. x \<in> set (counter_checks (counters ins))}"

lemma is_event_counter [check_events]:
  "is_event target (ct_check c) (checkDeltaCount ins target c d n)" "is_event target (ct_check c) (baseline_event ins target c n)"
  by (auto simp: checkDeltaCount_def baseline_event_def intro!: check_events)

lemma counter_event_checks:
  "map ev_check (concat (map (counter_event ins target iz prev now) cs)) = counter_checks cs"
  "e \<in> set (concat (map (counter_event ins target iz prev now) cs)) \<Longrightarrow> ev_of e = target"
proof -
  have "map ev_check (counter_event ins target iz prev now c) = opt (enabled (ct_limits c)) (ct_check c) \<and>
      (\<forall>e \<in> set (counter_event ins target iz prev now c). ev_of e = target)" for c
    using is_event_counter by (auto simp: counter_event_def opt_def is_event_def)
  then show "map ev_check (concat (map (counter_event ins target iz prev now) cs)) = counter_checks cs"
    "e \<in> set (concat (map (counter_event ins target iz prev now) cs)) \<Longrightarrow> ev_of e = target"
    by (auto simp: counter_checks_def map_concat o_def)
qed

lemma read_counter_event:
  assumes "read_counter q ins target info c = Inl e" "c \<in> set (counters ins)"
  shows "is_event target (ct_check c) e \<and> ct_check c \<in> set (counter_checks (counters ins))"
  using assms by (auto simp: read_counter_def counter_checks_def opt_def is_event_def split: if_splits field.splits)

lemma same_settings_counters: "same_settings ins (ins\<lparr>ri_prevStats := a, ri_initialized := b\<rparr>)"
  unfolding same_settings_def by blast

lemma checkCounterDeltas_spec:
  assumes "checkCounterDeltas q ins target info = (es, ins')"
  shows "same_settings ins ins' \<and> map ev_check es \<in> counter_options ins \<and> (\<forall>e \<in> set es. ev_of e = target)"
proof -
  have failed: ?thesis if r: "read_counter q ins target info c = Inl e" "c \<in> set (counters ins)" "es = [e]" "ins' = ins" for c e
    using read_counter_event [OF r(1,2)] r(3,4) by (auto simp: counter_options_def is_event_def)
  have read: ?thesis if "es = concat (map (counter_event ins target iz prev now) (counters ins))" "same_settings ins ins'" for iz prev now
    using that counter_event_checks by (auto simp: counter_options_def)
  have mem: "evicted_counter ins \<in> set (counters ins)" "expired_counter ins \<in> set (counters ins)" "rejected_counter ins \<in> set (counters ins)"
    by (simp_all add: counters_def)
  note d = assms [unfolded checkCounterDeltas_def]
  show ?thesis
  proof (cases "read_counter q ins target info (evicted_counter ins)")
    case (Inl e)
    show ?thesis using d Inl by (intro failed [OF Inl mem(1)]) simp_all
  next
    case ev: (Inr evicted)
    show ?thesis
    proof (cases "read_counter q ins target info (expired_counter ins)")
      case (Inl e)
      show ?thesis using d ev Inl by (intro failed [OF Inl mem(2)]) simp_all
    next
      case ex: (Inr expired)
      show ?thesis
      proof (cases "read_counter q ins target info (rejected_counter ins)")
        case (Inl e)
        show ?thesis using d ev ex Inl by (intro failed [OF Inl mem(3)]) simp_all
      next
        case (Inr rejected)
        then show ?thesis using d ev ex by (intro read) (auto simp: Let_def same_settings_counters)
      qed
    qed
  qed
qed

definition stats_options :: "redis_Instance \<Rightarrow> string list set" where
  "stats_options ins = {c @ opt (enabled (rs_OpsPerSecond ins)) ''redis::instantaneous_ops_per_sec'' |c. c \<in> counter_options ins}"

lemma adds_stats_stage:
  assumes "ga_panic g = None"
  shows "adds target (stats_options (ga_ins g)) g (stats_stage q target g)"
  unfolding stats_stage_def Let_def
proof (rule adds_infoSection, goal_cases)
  case (1 info g')
  obtain es ins' where c: "checkCounterDeltas q (ga_ins g) target info = (es, ins')" by fastforce
  have "adds target (counter_options (ga_ins g)) g' (g'\<lparr>ga_events := ga_events g' @ es, ga_ins := ins'\<rparr>)"
    using checkCounterDeltas_spec [OF c] 1 by (auto simp: adds_def same_run_def)
  from adds_trans [OF this adds_stage_push]
  show ?case unfolding stats_options_def c by (simp add: check_events)
next
  case (2 e g')
  let ?ins = "ga_ins g"
  let ?fail = "\<lambda>check. push (critical ?ins check target (''failed to query redis stats info: '' @ e))"
  have "adds target {opt (enabled (rs_RejectedConn ?ins)) ''redis::rejected_connections'' @ opt (enabled (rs_EvictedKeys ?ins)) ''redis::evicted_keys''} g'
      (stage (enabled (rs_EvictedKeys ?ins)) (?fail ''redis::evicted_keys'') (stage (enabled (rs_RejectedConn ?ins)) (?fail ''redis::rejected_connections'') g'))"
    by (intro adds_two_pushes check_events)
  note three = adds_trans [OF this adds_stage_push [OF is_event_redis(2)]]
  show ?case
    by (rule adds_weaken [OF adds_trans [OF three adds_stage_push [OF is_event_redis(2)]]])
      (auto simp: stats_options_def counter_options_def counter_checks_def evicted_counter_def expired_counter_def rejected_counter_def)
qed

text \<open>The checks a run reports, in their order. Only the cluster checks and the counters leave a choice.\<close>

definition plain_checks :: "redis_Instance \<Rightarrow> string list" where
  "plain_checks ins =
     opt (ex_Expect (rs_Role ins) \<noteq> []) ''redis::role'' @ opt (ex_Expect (rs_MasterLink ins) \<noteq> []) ''redis::master_link_status'' @
     opt (slaves_wanted ins) ''redis::connected_slaves'' @ opt (enabled (rs_ReplLag ins)) ''redis::repl_lag'' @
     opt (enabled (rs_ConnectedClients ins)) ''redis::connected_clients'' @ opt (enabled (rs_BlockedClients ins)) ''redis::blocked_clients'' @
     opt (enabled (rs_UsedMemory ins)) ''redis::used_memory'' @ opt (enabled (rs_UsedMemoryPct ins)) ''redis::used_memory_pct''"

definition run_options :: "redis_Instance \<Rightarrow> string list set" where
  "run_options ins =
     {cl @ plain_checks ins @ st @ opt (persistenceEnabled ins) ''redis::persistence'' |cl st.
        cl \<in> cluster_options ins \<and> st \<in> (if needs_stats ins then stats_options ins else {[]})}"

lemma same_settings_fields:
  assumes "same_settings ins ins'"
  shows "rs_ConnectedClients ins' = rs_ConnectedClients ins" "rs_BlockedClients ins' = rs_BlockedClients ins"
    "rs_OpsPerSecond ins' = rs_OpsPerSecond ins" "stats_options ins' = stats_options ins"
  using assms by (auto simp: same_settings_def stats_options_def counter_options_def counter_checks_def counters_def
    evicted_counter_def expired_counter_def rejected_counter_def)


lemma adds_append:
  assumes "adds target {n1} g1 g2" "adds target {n2} g2 g3"
  shows "adds target {n1 @ n2} g1 g3"
  using adds_trans [OF assms] by simp

text \<open>The memory checks are written twice in the code: the second time for the case that both are enabled.\<close>

lemma adds_memory:
  "adds target {opt m ''redis::used_memory'' @ opt p ''redis::used_memory_pct''} g
     (stage (m \<and> p) (section_check q ''memory'' ''memory'' ''redis::used_memory_pct'' target (\<lambda>i. checkUsedMemoryPct q i target))
       (if m then stage True (section_check q ''memory'' ''memory'' ''redis::used_memory'' target (\<lambda>i. checkUsedMemory q i target)) g
        else stage p (section_check q ''memory'' ''memory'' ''redis::used_memory_pct'' target (\<lambda>i. checkUsedMemoryPct q i target)) g))"
proof -
  let ?pct = "\<lambda>b. stage b (section_check q ''memory'' ''memory'' ''redis::used_memory_pct'' target (\<lambda>i. checkUsedMemoryPct q i target))"
  let ?mem = "stage True (section_check q ''memory'' ''memory'' ''redis::used_memory'' target (\<lambda>i. checkUsedMemory q i target))"
  have "adds target {opt b ''redis::used_memory_pct''} h (?pct b h)" "adds target {opt True ''redis::used_memory''} h (?mem h)" for b h
    by (intro adds_section_check check_events)+
  note both = adds_append [OF this(2) this(1), of p g] and one = adds_append [OF this(1) this(1), of p False g]
  show ?thesis using both one by (cases m) (simp_all add: opt_def)
qed

lemma adds_gather_checks:
  "adds target (run_options (ga_ins g)) g (gather_checks q target g)"
proof -
  let ?ins = "ga_ins g"
  define g1 where "g1 = stage (rs_Mode ?ins \<noteq> redisModeStandalone) (mode_stage q target) g"
  define g2 where "g2 = stage (ex_Expect (rs_Role ?ins) \<noteq> []) (section_check q ''replication'' ''replication'' ''redis::role'' target (\<lambda>i. checkRole i target)) g1"
  define g3 where "g3 = stage (ex_Expect (rs_MasterLink ?ins) \<noteq> [])
    (section_check q ''replication'' ''replication'' ''redis::master_link_status'' target (\<lambda>i. checkMasterLink i target)) g2"
  define g4 where "g4 = stage (slaves_wanted ?ins) (section_check q ''replication'' ''replication'' ''redis::connected_slaves'' target
    (\<lambda>i info. checkMinCountFromInfo q i target ''redis::connected_slaves'' info ''connected_slaves'' (rs_ConnectedSlaves i) ''connected slaves'')) g3"
  define g5 where "g5 = stage (enabled (rs_ReplLag ?ins)) (section_check q ''replication'' ''replication'' ''redis::repl_lag'' target (\<lambda>i. checkReplLag q i target)) g4"
  define g6 where "g6 = stage (enabled (rs_ConnectedClients ?ins) \<or> enabled (rs_BlockedClients ?ins)) (clients_stage q target) g5"
  define g7 where "g7 = stage (enabled (rs_UsedMemory ?ins) \<and> enabled (rs_UsedMemoryPct ?ins))
      (section_check q ''memory'' ''memory'' ''redis::used_memory_pct'' target (\<lambda>i. checkUsedMemoryPct q i target))
      (if enabled (rs_UsedMemory ?ins)
       then stage True (section_check q ''memory'' ''memory'' ''redis::used_memory'' target (\<lambda>i. checkUsedMemory q i target)) g6
       else stage (enabled (rs_UsedMemoryPct ?ins)) (section_check q ''memory'' ''memory'' ''redis::used_memory_pct'' target (\<lambda>i. checkUsedMemoryPct q i target)) g6)"
  define g8 where "g8 = stage (needs_stats ?ins) (stats_stage q target) g7"
  have a1: "adds target (cluster_options ?ins) g g1"
    unfolding g1_def by (rule adds_weaken [OF adds_stage [OF adds_mode_stage]]) (auto simp: cluster_options_def)
  have a2: "adds target {opt (ex_Expect (rs_Role ?ins) \<noteq> []) ''redis::role''} g1 g2" unfolding g2_def by (intro adds_section_check check_events)
  have a3: "adds target {opt (ex_Expect (rs_MasterLink ?ins) \<noteq> []) ''redis::master_link_status''} g2 g3" unfolding g3_def by (intro adds_section_check check_events)
  have a4: "adds target {opt (slaves_wanted ?ins) ''redis::connected_slaves''} g3 g4" unfolding g4_def by (intro adds_section_check check_events)
  have a5: "adds target {opt (enabled (rs_ReplLag ?ins)) ''redis::repl_lag''} g4 g5" unfolding g5_def by (intro adds_section_check check_events)
  note a15 = adds_trans [OF a1 adds_append [OF adds_append [OF adds_append [OF a2 a3] a4] a5]]
  then have "same_settings ?ins (ga_ins g5)" by (simp add: adds_def)
  then have a6: "adds target {opt (enabled (rs_ConnectedClients ?ins)) ''redis::connected_clients'' @ opt (enabled (rs_BlockedClients ?ins)) ''redis::blocked_clients''} g5 g6"
    unfolding g6_def
    by (intro adds_weaken [OF adds_stage [OF adds_clients_stage]]) (auto simp: same_settings_fields opt_def)
  have a7: "adds target {opt (enabled (rs_UsedMemory ?ins)) ''redis::used_memory'' @ opt (enabled (rs_UsedMemoryPct ?ins)) ''redis::used_memory_pct''} g6 g7"
    unfolding g7_def by (rule adds_memory)
  note a17 = adds_trans [OF a15 adds_append [OF a6 a7]]
  then have s7: "same_settings ?ins (ga_ins g7)" by (simp add: adds_def)
  have b7: "adds target {cl @ plain_checks ?ins |cl. cl \<in> cluster_options ?ins} g g7"
    by (rule adds_weaken [OF a17]) (auto simp: plain_checks_def)
  have a8: "adds target (if needs_stats ?ins then stats_options ?ins else {[]}) g7 g8"
    unfolding g8_def same_settings_fields(4) [OF s7, symmetric] by (intro adds_stage adds_stats_stage)
  have a9: "adds target {opt (persistenceEnabled ?ins) ''redis::persistence''} g8 (gather_checks q target g)"
    unfolding gather_checks_def Let_def g1_def [symmetric] g2_def [symmetric] g3_def [symmetric] g4_def [symmetric] g5_def [symmetric]
      g6_def [symmetric] g7_def [symmetric] g8_def [symmetric] by (intro adds_section_check check_events)
  show ?thesis
    by (rule adds_weaken [OF adds_trans [OF adds_trans [OF b7 a8] a9]]) (force simp: run_options_def)
qed


section \<open>Properties\<close>

definition base_checks :: "redis_Instance \<Rightarrow> string list" where
  "base_checks ins =
     ''redis::connectivity'' # opt (ck_WarnGe (rs_ResponseTime ins) \<noteq> 0 \<or> ck_CriticalGe (rs_ResponseTime ins) \<noteq> 0) ''redis::response_time''"



definition zero_check :: CountCheck where "zero_check = \<lparr>ck_WarnGe = 0, ck_CriticalGe = 0\<rparr>"

definition sample_redis :: redis_Instance where
  "sample_redis = \<lparr>rs_Concurrency = 10, rs_Timeout = 3 * Second, rs_ReadTimeout = 2 * Second, rs_Username = [], rs_Password = [],
     rs_DB = 0, rs_Mode = redisModeStandalone, rs_ClusterName = [],
     rs_ClientConfig = \<lparr>tc_UseTLS = None, tc_TLSCA = [], tc_TLSCert = [], tc_TLSKey = [], tc_TLSKeyPwd = [], tc_InsecureSkipVerify = None,
       tc_ServerName = [], tc_TLSMinVersion = [], tc_TLSMaxVersion = []\<rparr>,
     rs_Connectivity = EventStatusCritical, rs_ResponseTime = zero_check, rs_Role = \<lparr>ex_Expect = ''master'', ex_Severity = EventStatusWarning\<rparr>,
     rs_ReplLag = zero_check, rs_ConnectedClients = zero_check, rs_BlockedClients = zero_check, rs_UsedMemory = zero_check,
     rs_UsedMemoryPct = zero_check, rs_RejectedConn = zero_check, rs_MasterLink = \<lparr>ex_Expect = [], ex_Severity = []\<rparr>,
     rs_ConnectedSlaves = \<lparr>mk_WarnLt = 0, mk_CriticalLt = 0\<rparr>, rs_EvictedKeys = \<lparr>ck_WarnGe = 5, ck_CriticalGe = 0\<rparr>, rs_ExpiredKeys = zero_check,
     rs_OpsPerSecond = zero_check, rs_Persistence = \<lparr>fl_Flag = None, fl_Severity = []\<rparr>, rs_ClusterState = \<lparr>fl_Flag = None, fl_Severity = []\<rparr>,
     rs_ClusterTopology = None, ri_Partial = [], ri_Targets = [''h:1''], ri_prevStats = [], ri_initialized = []\<rparr>"

definition sample_quote :: fmt_quote where "sample_quote = \<lparr>fq_str = id, fq_byte = (\<lambda>c. [c])\<rparr>"

definition sample_dial :: "string \<Rightarrow> string + redis_conn" where
  "sample_dial a = Inr \<lparr>cn_in = [], cn_arrivals = [encode (RStr ''PONG''), encode (RStr ''role:slave''), encode (RStr ''evicted_keys:7'')],
     cn_out = [], cn_stop = ''EOF'', cn_broken = None, cn_closed = False\<rparr>"

lemma command_encoded:
  assumes "cn_broken c = None" "cn_in c = []" "cn_arrivals c = encode (RStr s) # rest" "int (length s) \<le> maxBulkSize"
  shows "command q args c = (Inr s, c\<lparr>cn_out := cn_out c @ writeCommand args, cn_arrivals := rest\<rparr>)"
  using assms read_value_encode [of "RStr s" "[]"] by (simp add: command_def rawCommand_def arrive_def)

lemma sample_infos:
  "parseInfoToMap ''role:slave'' = [(''role'', ''slave'')]" "parseInfoToMap ''evicted_keys:7'' = [(''evicted_keys'', ''7'')]"
  "to_upper ''PONG'' = ''PONG''"
  by code_simp+

lemma sample_settings:
  "rs_Username sample_redis = []" "rs_Password sample_redis = []" "rs_DB sample_redis = 0" "rs_Mode sample_redis = redisModeStandalone"
  "rs_ResponseTime sample_redis = zero_check" "ex_Expect (rs_Role sample_redis) = ''master''" "rs_ReplLag sample_redis = zero_check"
  "rs_ConnectedClients sample_redis = zero_check" "rs_BlockedClients sample_redis = zero_check" "rs_UsedMemory sample_redis = zero_check"
  "rs_UsedMemoryPct sample_redis = zero_check" "rs_RejectedConn sample_redis = zero_check" "ex_Expect (rs_MasterLink sample_redis) = []"
  "rs_ConnectedSlaves sample_redis = \<lparr>mk_WarnLt = 0, mk_CriticalLt = 0\<rparr>" "rs_EvictedKeys sample_redis = \<lparr>ck_WarnGe = 5, ck_CriticalGe = 0\<rparr>"
  "rs_ExpiredKeys sample_redis = zero_check" "rs_OpsPerSecond sample_redis = zero_check" "fl_Flag (rs_Persistence sample_redis) = None"
  "ri_prevStats sample_redis = []" "ri_initialized sample_redis = []"
  by (simp_all add: sample_redis_def)

lemma sample_run:
  "\<exists>es ins'. gatherTarget sample_quote sample_dial 1000 ''h:1'' sample_redis = (es, ins', None) \<and>
     map ev_check es = [''redis::connectivity'', ''redis::role'', ''redis::evicted_keys'']"
proof -
  have seven: "ParseUint ''7'' = Inr 7" using ParseUint_show [of 7] by (simp add: show_nat_step [of 7] char_of_def bit_iff_odd)
  have events: "ev_check (checkRole i g n) = ''redis::role''" "ev_check (baseline_event i g c k) = ct_check c" for i g n c k
    using is_event_simple(1) is_event_counter(2) by (auto simp: is_event_def)
  have conn: "ev_check (conn_event i g t) = ''redis::connectivity''" for i g t by (simp add: conn_event_def)
  have counters: "checkCounterDeltas sample_quote sample_redis ''h:1'' [(''evicted_keys'', ''7'')] =
      ([baseline_event sample_redis ''h:1'' (evicted_counter sample_redis) 7],
       sample_redis\<lparr>ri_prevStats := m_set ''h:1'' \<lparr>sn_evictedKeys = 7, sn_expiredKeys = 0, sn_rejectedConn = 0\<rparr> [],
         ri_initialized := m_set ''h:1'' True []\<rparr>)"
    by (simp add: checkCounterDeltas_def read_counter_def infoGetUint64_def info_get_def evicted_counter_def expired_counter_def
      rejected_counter_def counters_def counter_event_def seven sample_settings enabled_def zero_check_def Let_def)
  have check: "ct_check (evicted_counter i) = ''redis::evicted_keys''" for i by (simp add: evicted_counter_def)
  show ?thesis
    by (simp add: gatherTarget_def NewRedisAccessor_def sample_dial_def accessor_config_def Ping_def acc_Command_def command_encoded
      maxBulkSize_def sample_infos sample_settings gather_checks_def Let_def stage_def section_check_def infoSection_def Info_def after_call_def
      slaves_wanted_def enabled_def zero_check_def needs_stats_def persistenceEnabled_def push_def stats_stage_def counters
      checkResponseTime_def conn events check)
qed



section \<open>Growth of counters\<close>

text \<open>The growth a list of events reports for a check, and the runs over the answers of a server.\<close>

definition delta_attr :: "Event \<Rightarrow> string" where
  "delta_attr e = m_str (nil_map (Attrs e)) ''delta''"

definition reported :: "string \<Rightarrow> Event list \<Rightarrow> nat" where
  "reported check es =
     sum_list (map (\<lambda>e. case ParseUint (delta_attr e) of Inr n \<Rightarrow> n | Inl _ \<Rightarrow> 0) (filter (\<lambda>e. ev_check e = check) es))"

fun stat_runs :: "fmt_quote \<Rightarrow> string \<Rightarrow> redis_Instance \<Rightarrow> info list \<Rightarrow> Event list list" where
  "stat_runs q target ins [] = []"
| "stat_runs q target ins (info # infos) =
     (case checkCounterDeltas q ins target info of (es, ins') \<Rightarrow> es # stat_runs q target ins' infos)"

definition counter_val :: "fmt_quote \<Rightarrow> info \<Rightarrow> counter \<Rightarrow> nat" where
  "counter_val q info c = (case infoGetUint64 q info (ct_key c) of Val n \<Rightarrow> n | _ \<Rightarrow> 0)"

definition readable :: "fmt_quote \<Rightarrow> redis_Instance \<Rightarrow> info \<Rightarrow> bool" where
  "readable q ins info \<longleftrightarrow>
     (\<forall>c \<in> set (counters ins). enabled (ct_limits c) \<longrightarrow> (\<exists>n. infoGetUint64 q info (ct_key c) = Val n))"

definition prev_of :: "redis_Instance \<Rightarrow> string \<Rightarrow> redisCounterSnapshot" where
  "prev_of ins target = (case map_of (ri_prevStats ins) target of Some p \<Rightarrow> p | None \<Rightarrow> zero_snapshot)"

lemma counters_settings [simp]: "counters (ins\<lparr>ri_prevStats := a, ri_initialized := b\<rparr>) = counters ins"
  by (simp add: counters_def evicted_counter_def expired_counter_def rejected_counter_def)

lemma readable_settings [simp]: "readable q (ins\<lparr>ri_prevStats := a, ri_initialized := b\<rparr>) = readable q ins"
  by (rule ext) (simp add: readable_def)

lemma readable_counter:
  assumes "readable q ins info" "c \<in> set (counters ins)"
  shows "read_counter q ins target info c = Inr (if enabled (ct_limits c) then counter_val q info c else 0)"
  using assms by (auto simp: readable_def read_counter_def counter_val_def split: field.splits)

lemma checkCounterDeltas_readable:
  assumes "readable q ins info"
  shows "\<exists>now. checkCounterDeltas q ins target info =
      (concat (map (counter_event ins target (map_of (ri_initialized ins) target = Some True) (prev_of ins target) now) (counters ins)),
       ins\<lparr>ri_prevStats := m_set target now (ri_prevStats ins), ri_initialized := m_set target True (ri_initialized ins)\<rparr>) \<and>
    (\<forall>c \<in> set (counters ins). enabled (ct_limits c) \<longrightarrow> ct_prev c now = counter_val q info c)"
proof -
  have mem: "evicted_counter ins \<in> set (counters ins)" "expired_counter ins \<in> set (counters ins)" "rejected_counter ins \<in> set (counters ins)"
    by (simp_all add: counters_def)
  define v where "v c = (if enabled (ct_limits c) then counter_val q info c else 0)" for c
  note r = readable_counter [OF assms mem(1), of target, folded v_def] readable_counter [OF assms mem(2), of target, folded v_def]
    readable_counter [OF assms mem(3), of target, folded v_def]
  let ?now = "\<lparr>sn_evictedKeys = v (evicted_counter ins), sn_expiredKeys = v (expired_counter ins), sn_rejectedConn = v (rejected_counter ins)\<rparr>"
  have "ct_prev c ?now = v c" if "c \<in> set (counters ins)" for c
    using that by (auto simp: counters_def) (simp_all add: evicted_counter_def expired_counter_def rejected_counter_def)
  then show ?thesis
    by (intro exI [of _ ?now]) (simp add: checkCounterDeltas_def r Let_def prev_of_def v_def)
qed

lemma counter_val_range: "counter_val q info c < 2 ^ 64"
  using ParseUint_range by (auto simp: counter_val_def infoGetUint64_def info_get_def split: option.splits sum.splits field.splits)

lemma delta_attr_builders [simp]:
  "delta_attr (SetDescription d e) = delta_attr e" "delta_attr (SetEventStatus s e) = delta_attr e"
  "delta_attr (by_status st dc dw dk e) = delta_attr e" "delta_attr (SetCurrentValue v e) = delta_attr e"
  by (auto simp: delta_attr_def SetDescription_def SetEventStatus_def by_status_def SetCurrentValue_def AttrCurrentValue_def nil_map_def m_str_def split: option.splits)

lemma newEvent_attrs: "Attrs (newEvent ins check target) = None"
  by (simp add: newEvent_def BuildEvent_def zero_event_def)

lemma delta_attr_events:
  "delta_attr (checkDeltaCount ins target c d n) = show_nat d" "delta_attr (baseline_event ins target c n) = ''0''"
  by (simp_all add: checkDeltaCount_def baseline_event_def) (simp_all add: delta_attr_def SetAttrs_def newEvent_attrs nil_map_def m_copy_Cons m_str_def)

lemma counter_names: "distinct (map ct_check (counters ins))"
  by (simp add: counters_def evicted_counter_def expired_counter_def rejected_counter_def)

lemma reported_counter:
  assumes "c \<in> set cs" "distinct (map ct_check cs)" "enabled (ct_limits c)" "ct_prev c now < 2 ^ 64"
  shows "reported (ct_check c) (concat (map (counter_event ins target iz prev now) cs)) =
    (if iz then delta_of (ct_prev c now) (ct_prev c prev) else 0)"
  using assms(1,2)
proof (induction cs)
  case (Cons c' cs)
  have app: "reported check (xs @ ys) = reported check xs + reported check ys" for check xs ys by (simp add: reported_def)
  have checks: "ev_check e = ct_check d" if "e \<in> set (counter_event ins target iz prev now d)" for e d
    using that is_event_counter by (auto simp: counter_event_def is_event_def split: if_splits)
  have other: "reported (ct_check c) (counter_event ins target iz prev now d) = 0" if "ct_check d \<noteq> ct_check c" for d
    using that checks [of _ d] by (auto simp: reported_def filter_empty_conv)
  have others: "reported (ct_check c) (concat (map (counter_event ins target iz prev now) ds)) = 0" if "ct_check c \<notin> ct_check ` set ds" for ds
    using that other by (induction ds) (auto simp: app, simp add: reported_def)
  have zero: "ParseUint ''0'' = Inr 0" using ParseUint_show [of 0] by (simp add: show_nat_step [of 0] char_of_def bit_iff_odd)
  have delta: "ParseUint (show_nat (delta_of (ct_prev c now) (ct_prev c prev))) = Inr (delta_of (ct_prev c now) (ct_prev c prev))"
    using assms(4) by (intro ParseUint_show) (auto simp: delta_of_def)
  have own: "reported (ct_check c) (counter_event ins target iz prev now c) = (if iz then delta_of (ct_prev c now) (ct_prev c prev) else 0)"
    using assms(3) is_event_counter zero delta by (auto simp: counter_event_def reported_def is_event_def delta_attr_events)
  show ?case
  proof (cases "c = c'")
    case True
    with Cons.prems have "ct_check c \<notin> ct_check ` set cs" by simp
    with True show ?thesis using own others by (simp add: app)
  next
    case False
    with Cons.prems have "ct_check c' \<noteq> ct_check c" "c \<in> set cs" "distinct (map ct_check cs)" by auto
    with Cons.IH show ?thesis by (simp add: app other)
  qed
qed simp

lemma stat_runs_growth:
  assumes "c \<in> set (counters ins)" "enabled (ct_limits c)" "list_all (readable q ins) infos"
    "map_of (ri_initialized ins) target = Some True" "sorted (ct_prev c (prev_of ins target) # map (\<lambda>i. counter_val q i c) infos)"
  shows "sum_list (map (reported (ct_check c)) (stat_runs q target ins infos)) =
    last (ct_prev c (prev_of ins target) # map (\<lambda>i. counter_val q i c) infos) - ct_prev c (prev_of ins target)"
  using assms
proof (induction infos arbitrary: ins)
  case (Cons info infos)
  from Cons.prems checkCounterDeltas_readable [of q ins info target] obtain now where
    r: "checkCounterDeltas q ins target info =
      (concat (map (counter_event ins target True (prev_of ins target) now) (counters ins)),
       ins\<lparr>ri_prevStats := m_set target now (ri_prevStats ins), ri_initialized := m_set target True (ri_initialized ins)\<rparr>)"
    and now: "ct_prev c now = counter_val q info c" by auto
  let ?ins = "ins\<lparr>ri_prevStats := m_set target now (ri_prevStats ins), ri_initialized := m_set target True (ri_initialized ins)\<rparr>"
  have p: "prev_of ?ins target = now" by (simp add: prev_of_def)
  have le: "ct_prev c (prev_of ins target) \<le> counter_val q info c" using Cons.prems(5) by simp
  have "sum_list (map (reported (ct_check c)) (stat_runs q target ?ins infos)) =
      last (counter_val q info c # map (\<lambda>i. counter_val q i c) infos) - counter_val q info c"
    using Cons.IH [of ?ins] Cons.prems p now by simp
  moreover have "counter_val q info c \<le> last (counter_val q info c # map (\<lambda>i. counter_val q i c) infos)"
    using Cons.prems(5) by (cases infos rule: rev_cases) (auto simp: sorted_append)
  moreover have "reported (ct_check c) (concat (map (counter_event ins target True (prev_of ins target) now) (counters ins))) =
      counter_val q info c - ct_prev c (prev_of ins target)"
    using reported_counter [OF Cons.prems(1) counter_names Cons.prems(2)] now le counter_val_range by (simp add: delta_of_def)
  ultimately show ?case using r le by simp
qed simp




text \<open>The set-up of this instance, with no certificate files.\<close>

definition sample_files :: "(unit, unit) cert_files" where
  "sample_files = \<lparr>cf_quote = id, cf_quote_rune = (\<lambda>_. []), cf_empty = (), cf_read = Inr, cf_append = (\<lambda>_ _. None), cf_keypair = (\<lambda>_ _. Inr ())\<rparr>"

lemma sample_names:
  "normalize_targets id [''h:1''] = Inr [''h:1'']" "normalizeRedisMode id redisModeStandalone = Inr redisModeStandalone"
  "normalizeRole id ''master'' = Inr ''master''" "normalizeMasterLinkStatus id [] = Inr []"
  "severity_or id ''connectivity'' EventStatusCritical EventStatusCritical = Inr EventStatusCritical"
  "severity_or id ''role'' EventStatusWarning EventStatusWarning = Inr EventStatusWarning"
  by code_simp+


end
