(* ===== verification/Gather_Hung.thy ===== *)
theory Gather_Hung
  imports Plugin_Events
begin

text \<open>
  The concurrent driver the Redis, Sentinel and disk plugins share (\<^verbatim>\<open>Gather\<close> of \<^verbatim>\<open>plugins/redis/gather.go\<close>,
  \<^verbatim>\<open>plugins/redis_sentinel/gather.go\<close> and \<^verbatim>\<open>plugins/disk/disk.go\<close>): one goroutine per target under a semaphore, a map of the
  targets being worked on and a map of those that were still running when a gather gave up. The
  goroutines of one gather and of earlier ones interleave; a step is one operation on the shared
  state. What a goroutine does between entering and leaving the map is an argument: it pushes events and changes
  the instance, without looking at the two maps.
\<close>

section \<open>Model\<close>

datatype task_phase = Waiting | Acquired | Working | Leaving | Finished

record task =
  tk_run :: nat
  tk_target :: string
  tk_phase :: task_phase

datatype gather_phase = Idle | Looping "string list" | Joining

text \<open>What a plugin brings: the targets a gather may visit, the semaphore's size, the time a gather waits, its
  two events, and the work on a target, whose outcome depends on the world.\<close>

record ('w, 'i) hung_plugin =
  hp_targets :: "string list \<Rightarrow> bool"
  hp_concurrency :: int
  hp_timeout :: duration
  hp_hung :: "string \<Rightarrow> int \<Rightarrow> Event"
  hp_recovered :: "string \<Rightarrow> Event"
  hp_work :: "'w \<Rightarrow> string \<Rightarrow> 'i \<Rightarrow> Event list \<times> 'i"

record 'i hung_state =
  hs_now :: int
  hs_ins :: 'i
  hs_run :: nat
  hs_phase :: gather_phase
  hs_joined :: int
  hs_tasks :: "task list"
  hs_inFlight :: "(string, int) gomap"
  hs_prevHung :: "(string, bool) gomap"
  hs_queue :: "Event list"

definition hung_init :: "'i \<Rightarrow> 'i hung_state" where
  "hung_init i = \<lparr>hs_now = 0, hs_ins = i, hs_run = 0, hs_phase = Idle, hs_joined = 0, hs_tasks = [], hs_inFlight = [],
     hs_prevHung = [], hs_queue = []\<rparr>"

text \<open>\<^verbatim>\<open>time.Now().Unix()\<close>, and \<^verbatim>\<open>int64(gatherTimeout.Seconds())\<close>.\<close>

definition unix :: "'i hung_state \<Rightarrow> int" where
  "unix s = hs_now s div Second"

text \<open>The body of the loop over the targets.\<close>

definition pass_target :: "('w, 'i) hung_plugin \<Rightarrow> string \<Rightarrow> 'i hung_state \<Rightarrow> 'i hung_state" where
  "pass_target h t s =
     (case map_of (hs_inFlight s) t of
        Some start \<Rightarrow>
          (let elapsed = unix s - start
           in if elapsed > hp_timeout h div Second then s\<lparr>hs_queue := hs_queue s @ [hp_hung h t elapsed]\<rparr> else s)
      | None \<Rightarrow>
          (let s = (if m_has (hs_prevHung s) t
                    then s\<lparr>hs_queue := hs_queue s @ [hp_recovered h t], hs_prevHung := m_del t (hs_prevHung s)\<rparr> else s)
           in s\<lparr>hs_tasks := hs_tasks s @ [\<lparr>tk_run = hs_run s, tk_target = t, tk_phase = Waiting\<rparr>]\<rparr>))"

definition in_run :: "nat \<Rightarrow> task \<Rightarrow> bool" where
  "in_run r k \<longleftrightarrow> tk_run k = r"

definition holds_slot :: "task \<Rightarrow> bool" where
  "holds_slot k \<longleftrightarrow> tk_phase k \<in> {Acquired, Working, Leaving}"

definition slots_taken :: "nat \<Rightarrow> 'i hung_state \<Rightarrow> nat" where
  "slots_taken r s = length (filter (\<lambda>k. in_run r k \<and> holds_slot k) (hs_tasks s))"

text \<open>After the deadline: \<^verbatim>\<open>inFlight.Range\<close> stores every key into \<^verbatim>\<open>prevHung\<close>.\<close>

definition mark_hung :: "'i hung_state \<Rightarrow> 'i hung_state" where
  "mark_hung s = s\<lparr>hs_prevHung := foldl (\<lambda>m t. m_set t True m) (hs_prevHung s) (m_keys (hs_inFlight s))\<rparr>"

definition set_task :: "nat \<Rightarrow> task_phase \<Rightarrow> 'i hung_state \<Rightarrow> 'i hung_state" where
  "set_task i p s = s\<lparr>hs_tasks := (hs_tasks s)[i := (hs_tasks s ! i)\<lparr>tk_phase := p\<rparr>]\<rparr>"

definition task_in :: "nat \<Rightarrow> task_phase \<Rightarrow> 'i hung_state \<Rightarrow> bool" where
  "task_in i p s \<longleftrightarrow> i < length (hs_tasks s) \<and> tk_phase (hs_tasks s ! i) = p"

text \<open>The steps: the clock, the gather loop (\<open>GStart\<close> to \<open>GTimeout\<close>) and the goroutines. A step that is not possible
  in a state gives \<open>None\<close>; \<^verbatim>\<open>make\<close> of a negative semaphore panics.\<close>

datatype 'w hung_label =
  GTick int | GStart "string list" | GPass | GJoin | GDone | GTimeout
| TAcquire nat | TStore nat | TWork nat 'w | TLeave nat

fun hung_next :: "('w, 'i) hung_plugin \<Rightarrow> 'w hung_label \<Rightarrow> 'i hung_state \<Rightarrow> 'i hung_state option" where
  "hung_next h (GTick n) s = (if hs_now s \<le> n then Some (s\<lparr>hs_now := n\<rparr>) else None)"
| "hung_next h (GStart ts) s =
     (if hs_phase s = Idle \<and> hp_targets h ts \<and> ts \<noteq> [] \<and> 0 \<le> hp_concurrency h
      then Some (s\<lparr>hs_run := Suc (hs_run s), hs_phase := Looping ts\<rparr>) else None)"
| "hung_next h GPass s =
     (case hs_phase s of
        Looping (t # ts) \<Rightarrow> Some ((pass_target h t s)\<lparr>hs_phase := Looping ts\<rparr>)
      | _ \<Rightarrow> None)"
| "hung_next h GJoin s = (if hs_phase s = Looping [] then Some (s\<lparr>hs_phase := Joining, hs_joined := hs_now s\<rparr>) else None)"
| "hung_next h GDone s =
     (if hs_phase s = Joining \<and> list_all (\<lambda>k. in_run (hs_run s) k \<longrightarrow> tk_phase k = Finished) (hs_tasks s)
      then Some (s\<lparr>hs_phase := Idle\<rparr>) else None)"
| "hung_next h GTimeout s =
     (if hs_phase s = Joining \<and> hp_timeout h \<le> hs_now s - hs_joined s then Some ((mark_hung s)\<lparr>hs_phase := Idle\<rparr>) else None)"
| "hung_next h (TAcquire i) s =
     (if task_in i Waiting s \<and> int (slots_taken (tk_run (hs_tasks s ! i)) s) < hp_concurrency h
      then Some (set_task i Acquired s) else None)"
| "hung_next h (TStore i) s =
     (if task_in i Acquired s
      then Some ((set_task i Working s)\<lparr>hs_inFlight := m_set (tk_target (hs_tasks s ! i)) (unix s) (hs_inFlight s)\<rparr>) else None)"
| "hung_next h (TWork i w) s =
     (if task_in i Working s
      then let t = tk_target (hs_tasks s ! i); (es, ins) = hp_work h w t (hs_ins s)
           in Some ((set_task i Leaving s)\<lparr>hs_ins := ins, hs_queue := hs_queue s @ es, hs_inFlight := m_del t (hs_inFlight s)\<rparr>)
      else None)"
| "hung_next h (TLeave i) s = (if task_in i Leaving s then Some (set_task i Finished s) else None)"

fun hung_run :: "('w, 'i) hung_plugin \<Rightarrow> 'w hung_label list \<Rightarrow> 'i hung_state \<Rightarrow> 'i hung_state option" where
  "hung_run h [] s = Some s"
| "hung_run h (l # ls) s = (case hung_next h l s of None \<Rightarrow> None | Some s' \<Rightarrow> hung_run h ls s')"

text \<open>The reachable states, when a step is only taken where \<open>ok\<close> allows it.\<close>

inductive hung_reach :: "('w, 'i) hung_plugin \<Rightarrow> ('w hung_label \<Rightarrow> 'i hung_state \<Rightarrow> bool) \<Rightarrow> 'i hung_state \<Rightarrow> bool"
  for h ok where
  reach_init: "hung_reach h ok (hung_init i)"
| reach_step: "hung_reach h ok s \<Longrightarrow> ok l s \<Longrightarrow> hung_next h l s = Some s' \<Longrightarrow> hung_reach h ok s'"

text \<open>A gather is prompt when it visits no target twice and does not give up before every goroutine has entered the map.\<close>

definition unstored :: "task \<Rightarrow> bool" where
  "unstored k \<longleftrightarrow> tk_phase k \<in> {Waiting, Acquired}"

definition prompt :: "'w hung_label \<Rightarrow> 'i hung_state \<Rightarrow> bool" where
  "prompt l s \<longleftrightarrow>
     (case l of
        GStart ts \<Rightarrow> distinct ts
      | GTimeout \<Rightarrow> list_all (\<lambda>k. \<not> unstored k) (hs_tasks s)
      | _ \<Rightarrow> True)"

text \<open>A run of prompt steps.\<close>

fun prompt_run :: "('w, 'i) hung_plugin \<Rightarrow> 'w hung_label list \<Rightarrow> 'i hung_state \<Rightarrow> 'i hung_state option" where
  "prompt_run h [] s = Some s"
| "prompt_run h (l # ls) s =
     (if prompt l s then case hung_next h l s of None \<Rightarrow> None | Some s' \<Rightarrow> prompt_run h ls s' else None)"

lemma prompt_run_reach: "hung_reach h prompt s \<Longrightarrow> prompt_run h ls s = Some s' \<Longrightarrow> hung_reach h prompt s'"
  by (induction ls arbitrary: s) (auto split: if_splits option.splits intro: reach_step)

text \<open>An alert is owed a recovery when the last event of its check on the target is not \<^verbatim>\<open>Ok\<close>.\<close>

definition owed :: "string \<Rightarrow> string \<Rightarrow> Event list \<Rightarrow> bool" where
  "owed check t q \<longleftrightarrow>
     (let es = filter (\<lambda>e. ev_check e = check \<and> ev_of e = t) q
      in es \<noteq> [] \<and> EventStatus (last es) \<noteq> EventStatusOk)"


section \<open>Facts about single steps\<close>

lemma m_has_Nil [simp]: "\<not> m_has [] k"
  by (simp add: m_has_def)

lemma m_has_set [simp]: "m_has (m_set k v m) k' \<longleftrightarrow> k' = k \<or> m_has m k'"
  by (simp add: m_has_def)

lemma m_has_del [simp]: "m_has (m_del k m) k' \<longleftrightarrow> k' \<noteq> k \<and> m_has m k'"
  by (simp add: m_has_def)

lemma m_has_marks: "m_has (foldl (\<lambda>m t. m_set t True m) m ts) k \<longleftrightarrow> k \<in> set ts \<or> m_has m k"
  by (induction ts arbitrary: m) auto

lemma mark_hung_fields [simp]:
  "hs_tasks (mark_hung s) = hs_tasks s" "hs_inFlight (mark_hung s) = hs_inFlight s" "hs_queue (mark_hung s) = hs_queue s"
  "hs_run (mark_hung s) = hs_run s" "hs_phase (mark_hung s) = hs_phase s"
  "m_has (hs_prevHung (mark_hung s)) t \<longleftrightarrow> m_has (hs_inFlight s) t \<or> m_has (hs_prevHung s) t"
  by (simp_all add: mark_hung_def m_has_marks) (simp add: m_has_iff)

lemma set_task_fields [simp]:
  "hs_inFlight (set_task i p s) = hs_inFlight s" "hs_prevHung (set_task i p s) = hs_prevHung s" "hs_queue (set_task i p s) = hs_queue s"
  "hs_run (set_task i p s) = hs_run s" "hs_phase (set_task i p s) = hs_phase s" "length (hs_tasks (set_task i p s)) = length (hs_tasks s)"
  by (simp_all add: set_task_def)

lemma set_task_nth [simp]:
  "i < length (hs_tasks s) \<Longrightarrow> j < length (hs_tasks s) \<Longrightarrow>
    hs_tasks (set_task i p s) ! j = (if j = i then (hs_tasks s ! i)\<lparr>tk_phase := p\<rparr> else hs_tasks s ! j)"
  by (simp add: set_task_def nth_list_update)

lemma owed_other: "\<forall>e \<in> set es. ev_check e \<noteq> check \<Longrightarrow> owed check t (q @ es) = owed check t q"
  by (simp add: owed_def)

lemma owed_push: "owed check t (q @ [e]) \<longleftrightarrow>
    (if ev_check e = check \<and> ev_of e = t then EventStatus e \<noteq> EventStatusOk else owed check t q)"
  by (simp add: owed_def Let_def)

text \<open>The phases of the goroutines against the two maps.\<close>

definition pending :: "task \<Rightarrow> bool" where
  "pending k \<longleftrightarrow> tk_phase k \<in> {Waiting, Acquired, Working}"

definition runs_ok :: "'i hung_state \<Rightarrow> bool" where
  "runs_ok s \<longleftrightarrow> (\<forall>i < length (hs_tasks s). tk_run (hs_tasks s ! i) \<le> hs_run s \<and>
     (unstored (hs_tasks s ! i) \<longrightarrow> tk_run (hs_tasks s ! i) = hs_run s \<and> hs_phase s \<noteq> Idle))"

definition one_each :: "'i hung_state \<Rightarrow> bool" where
  "one_each s \<longleftrightarrow> (\<forall>i < length (hs_tasks s). \<forall>j < length (hs_tasks s). i \<noteq> j \<longrightarrow> pending (hs_tasks s ! i) \<longrightarrow> pending (hs_tasks s ! j) \<longrightarrow>
     tk_target (hs_tasks s ! i) \<noteq> tk_target (hs_tasks s ! j))"

text \<open>The targets being worked on, and those by other goroutines than the one at an index.\<close>

definition working :: "'i hung_state \<Rightarrow> string set" where
  "working s = {tk_target (hs_tasks s ! i) |i. i < length (hs_tasks s) \<and> tk_phase (hs_tasks s ! i) = Working}"

definition working_but :: "nat \<Rightarrow> 'i hung_state \<Rightarrow> string set" where
  "working_but j s = {tk_target (hs_tasks s ! i) |i. i < length (hs_tasks s) \<and> i \<noteq> j \<and> tk_phase (hs_tasks s ! i) = Working}"

definition entries_ok :: "'i hung_state \<Rightarrow> bool" where
  "entries_ok s \<longleftrightarrow> (\<forall>t. m_has (hs_inFlight s) t \<longleftrightarrow> t \<in> working s)"

lemma working_split:
  "i < length (hs_tasks s) \<Longrightarrow> working s = (if tk_phase (hs_tasks s ! i) = Working then insert (tk_target (hs_tasks s ! i)) (working_but i s) else working_but i s)"
  unfolding working_def working_but_def by auto

lemma working_set_task:
  assumes "i < length (hs_tasks s)"
  shows "working (set_task i p s) = (if p = Working then insert (tk_target (hs_tasks s ! i)) (working_but i s) else working_but i s)"
proof -
  have "working_but i (set_task i p s) = working_but i s" using assms unfolding working_but_def
    by (intro Collect_cong ex_cong1) auto
  then show ?thesis using assms working_split [of i "set_task i p s"] by (cases "p = Working") simp_all
qed

lemma working_fields [simp]: "working (s\<lparr>hs_inFlight := f\<rparr>) = working s" "working (s\<lparr>hs_queue := q\<rparr>) = working s"
  "working (s\<lparr>hs_ins := n\<rparr>) = working s" "working (s\<lparr>hs_phase := p\<rparr>) = working s" "working (s\<lparr>hs_prevHung := m\<rparr>) = working s"
  "working (s\<lparr>hs_run := r\<rparr>) = working s" "working (s\<lparr>hs_now := n'\<rparr>) = working s" "working (s\<lparr>hs_joined := n'\<rparr>) = working s"
  "working (mark_hung s) = working s"
  by (simp_all add: working_def)

definition loop_ok :: "'i hung_state \<Rightarrow> bool" where
  "loop_ok s \<longleftrightarrow> (\<forall>ts. hs_phase s = Looping ts \<longrightarrow> distinct ts \<and>
     (\<forall>i < length (hs_tasks s). tk_run (hs_tasks s ! i) = hs_run s \<longrightarrow> tk_target (hs_tasks s ! i) \<notin> set ts))"

definition marks_ok :: "'i hung_state \<Rightarrow> bool" where
  "marks_ok s \<longleftrightarrow> (\<forall>i < length (hs_tasks s). tk_phase (hs_tasks s ! i) = Working \<and> (tk_run (hs_tasks s ! i) < hs_run s \<or> hs_phase s = Idle) \<longrightarrow>
     m_has (hs_prevHung s) (tk_target (hs_tasks s ! i)))"

definition debts_ok :: "string \<Rightarrow> 'i hung_state \<Rightarrow> bool" where
  "debts_ok check s \<longleftrightarrow> (\<forall>t. owed check t (hs_queue s) \<longrightarrow> m_has (hs_prevHung s) t)"

lemmas hung_inv_defs = runs_ok_def one_each_def entries_ok_def loop_ok_def marks_ok_def debts_ok_def

definition hung_inv :: "string \<Rightarrow> 'i hung_state \<Rightarrow> bool" where
  "hung_inv check s \<longleftrightarrow> runs_ok s \<and> one_each s \<and> entries_ok s \<and> loop_ok s \<and> marks_ok s \<and> debts_ok check s"

lemma hung_inv_init: "hung_inv check (hung_init i)"
  by (simp add: hung_inv_def hung_inv_defs hung_init_def owed_def working_def)

text \<open>A goroutine that changes its phase only.\<close>

lemma hung_invD:
  assumes "hung_inv check s"
  shows "runs_ok s" "one_each s" "entries_ok s" "loop_ok s" "marks_ok s" "debts_ok check s"
  using assms by (simp_all add: hung_inv_def)

lemma hung_inv_advance:
  assumes "hung_inv check s" "task_in i p s" "(p, p') \<in> {(Waiting, Acquired), (Leaving, Finished)}"
  shows "hung_inv check (set_task i p' s)"
proof -
  note inv = hung_invD [OF assms(1)]
  have i: "i < length (hs_tasks s)" "tk_phase (hs_tasks s ! i) = p" using assms(2) by (auto simp: task_in_def)
  have p: "unstored (hs_tasks s ! i) = (p = Waiting)" "pending (hs_tasks s ! i) = (p = Waiting)" "p \<noteq> Working" "p' \<noteq> Working"
    "\<And>k. unstored (k\<lparr>tk_phase := p'\<rparr>) = (p = Waiting)" "\<And>k. pending (k\<lparr>tk_phase := p'\<rparr>) = (p = Waiting)"
    using i(2) assms(3) by (auto simp: unstored_def pending_def)
  have "runs_ok (set_task i p' s)" using inv(1) i(1) p by (simp add: runs_ok_def)
  moreover have "one_each (set_task i p' s)" using inv(2) i(1) p by (simp add: one_each_def)
  moreover have "entries_ok (set_task i p' s)" using inv(3) i p by (simp add: entries_ok_def working_set_task working_split [OF i(1)])
  moreover have "loop_ok (set_task i p' s)" using inv(4) i(1) by (simp add: loop_ok_def)
  moreover have "marks_ok (set_task i p' s)" using inv(5) i(1) p by (simp add: marks_ok_def)
  moreover have "debts_ok check (set_task i p' s)" using inv(6) by (simp add: debts_ok_def)
  ultimately show ?thesis by (simp add: hung_inv_def)
qed

lemma hung_inv_store:
  assumes "hung_inv check s" "hung_next h (TStore i) s = Some s'"
  shows "hung_inv check s'"
proof -
  note inv = hung_invD [OF assms(1)]
  let ?t = "tk_target (hs_tasks s ! i)"
  have i: "i < length (hs_tasks s)" "tk_phase (hs_tasks s ! i) = Acquired" and
    s': "s' = (set_task i Working s)\<lparr>hs_inFlight := m_set ?t (unix s) (hs_inFlight s)\<rparr>"
    using assms(2) by (auto simp: task_in_def split: if_splits)
  have p: "unstored (hs_tasks s ! i)" "pending (hs_tasks s ! i)" "\<And>k. \<not> unstored (k\<lparr>tk_phase := Working\<rparr>)" "\<And>k. pending (k\<lparr>tk_phase := Working\<rparr>)"
    using i(2) by (auto simp: unstored_def pending_def)
  have run: "tk_run (hs_tasks s ! i) = hs_run s" "hs_phase s \<noteq> Idle" using inv(1) i(1) p by (auto simp: runs_ok_def)
  have "runs_ok s'" using inv(1) i(1) p by (simp add: s' runs_ok_def)
  moreover have "one_each s'" using inv(2) i(1) p by (simp add: s' one_each_def)
  moreover have "entries_ok s'" using inv(3) i by (simp add: s' entries_ok_def working_set_task working_split [OF i(1)])
  moreover have "loop_ok s'" using inv(4) i(1) by (simp add: s' loop_ok_def)
  moreover have "marks_ok s'" using inv(5) i(1) run by (simp add: s' marks_ok_def)
  moreover have "debts_ok check s'" using inv(6) by (simp add: s' debts_ok_def)
  ultimately show ?thesis by (simp add: hung_inv_def)
qed

text \<open>The gather loop.\<close>

lemma hung_inv_gather:
  assumes "hung_inv check s" "hung_next h l s = Some s'" "prompt l s"
    "(\<exists>n. l = GTick n) \<or> (\<exists>ts. l = GStart ts) \<or> l = GJoin \<or> l = GDone \<or> l = GTimeout"
  shows "hung_inv check s'"
proof -
  note inv = hung_invD [OF assms(1)]
  from assms(4) consider n where "l = GTick n" | ts where "l = GStart ts" | "l = GJoin" | "l = GDone" | "l = GTimeout" by blast
  then show ?thesis
  proof cases
    case 1
    then have "s' = s\<lparr>hs_now := n\<rparr>" using assms(2) by (simp split: if_splits)
    then show ?thesis using assms(1) by (simp add: hung_inv_def hung_inv_defs)
  next
    case 2
    then have s': "s' = s\<lparr>hs_run := Suc (hs_run s), hs_phase := Looping ts\<rparr>" and p: "hs_phase s = Idle" "distinct ts"
      using assms(2,3) by (auto simp: prompt_def split: if_splits)
    have "runs_ok s'" using inv(1) p by (auto simp: s' runs_ok_def)
    moreover have "loop_ok s'" using inv(1) p by (fastforce simp: s' loop_ok_def runs_ok_def)
    moreover have "marks_ok s'" using inv(5) p by (auto simp: s' marks_ok_def)
    moreover have "one_each s'" "entries_ok s'" "debts_ok check s'"
      using inv by (simp_all add: s' one_each_def entries_ok_def debts_ok_def)
    ultimately show ?thesis by (simp add: hung_inv_def)
  next
    case 3
    then have s': "s' = s\<lparr>hs_phase := Joining, hs_joined := hs_now s\<rparr>" and p: "hs_phase s = Looping []"
      using assms(2) by (auto split: if_splits)
    show ?thesis using assms(1) p by (simp add: s' hung_inv_def hung_inv_defs)
  next
    case 4
    then have s': "s' = s\<lparr>hs_phase := Idle\<rparr>" and p: "hs_phase s = Joining"
      and fin: "\<forall>i < length (hs_tasks s). tk_run (hs_tasks s ! i) = hs_run s \<longrightarrow> tk_phase (hs_tasks s ! i) = Finished"
      using assms(2) by (auto simp: list_all_length in_run_def split: if_splits)
    have un: "\<not> unstored (hs_tasks s ! i)" if "i < length (hs_tasks s)" for i
    proof
      assume "unstored (hs_tasks s ! i)"
      moreover from this have "tk_phase (hs_tasks s ! i) = Finished" using that inv(1) fin by (simp add: runs_ok_def)
      ultimately show False by (simp add: unstored_def)
    qed
    have old: "tk_run (hs_tasks s ! i) < hs_run s" if "i < length (hs_tasks s)" "tk_phase (hs_tasks s ! i) = Working" for i
    proof -
      have "tk_run (hs_tasks s ! i) \<noteq> hs_run s" using that fin by auto
      then show ?thesis using that inv(1) by (simp add: runs_ok_def order_less_le)
    qed
    have "runs_ok s'" using inv(1) un by (simp add: s' runs_ok_def)
    moreover have "marks_ok s'" using inv(5) old by (simp add: s' marks_ok_def)
    moreover have "one_each s'" "entries_ok s'" "debts_ok check s'" "loop_ok s'"
      using inv by (simp_all add: s' one_each_def entries_ok_def debts_ok_def loop_ok_def)
    ultimately show ?thesis by (simp add: hung_inv_def)
  next
    case 5
    then have s': "s' = (mark_hung s)\<lparr>hs_phase := Idle\<rparr>" and un: "\<forall>i < length (hs_tasks s). \<not> unstored (hs_tasks s ! i)"
      using assms(2,3) by (auto simp: prompt_def list_all_length split: if_splits)
    have "runs_ok s'" using inv(1) un by (auto simp: s' runs_ok_def)
    moreover have "marks_ok s'" using inv(3) by (auto simp: s' marks_ok_def entries_ok_def working_def)
    moreover have "one_each s'" "entries_ok s'" "debts_ok check s'" "loop_ok s'"
      using inv by (auto simp: s' one_each_def entries_ok_def debts_ok_def loop_ok_def)
    ultimately show ?thesis by (simp add: hung_inv_def)
  qed
qed


text \<open>The contract of a plugin with its driver: its two events belong to one check, and the work pushes none of that
  check.\<close>

locale hung_reporter =
  fixes h :: "('w, 'i) hung_plugin" and check :: string
  assumes hung_event: "ev_check (hp_hung h t n) = check" "ev_of (hp_hung h t n) = t" "EventStatus (hp_hung h t n) \<noteq> EventStatusOk"
    and recovered_event: "ev_check (hp_recovered h t) = check" "ev_of (hp_recovered h t) = t" "EventStatus (hp_recovered h t) = EventStatusOk"
    and work_events: "e \<in> set (fst (hp_work h w t i)) \<Longrightarrow> ev_check e \<noteq> check"
begin

lemma work_keeps:
  assumes "hung_inv check s" "hung_next h (TWork i w) s = Some s'"
  shows "hung_inv check s'"
proof -
  note inv = hung_invD [OF assms(1)]
  let ?t = "tk_target (hs_tasks s ! i)"
  obtain es n where w: "hp_work h w ?t (hs_ins s) = (es, n)" by fastforce
  have i: "i < length (hs_tasks s)" "tk_phase (hs_tasks s ! i) = Working" and
    s': "s' = (set_task i Leaving s)\<lparr>hs_ins := n, hs_queue := hs_queue s @ es, hs_inFlight := m_del ?t (hs_inFlight s)\<rparr>"
    using assms(2) w by (auto simp: task_in_def split: if_splits)
  have p: "pending (hs_tasks s ! i)" "\<And>k. \<not> unstored (k\<lparr>tk_phase := Leaving\<rparr>)" "\<And>k. \<not> pending (k\<lparr>tk_phase := Leaving\<rparr>)"
    using i(2) by (auto simp: unstored_def pending_def)
  have alone: "?t \<notin> working_but i s"
    using inv(2) i p(1) by (auto simp: one_each_def working_but_def pending_def)
  have es: "\<forall>e \<in> set es. ev_check e \<noteq> check" using work_events [of _ w ?t "hs_ins s"] w by simp
  have "runs_ok s'" using inv(1) i(1) p by (simp add: s' runs_ok_def)
  moreover have "one_each s'" using inv(2) i(1) p by (simp add: s' one_each_def)
  moreover have "entries_ok s'" using inv(3) i alone by (auto simp: s' entries_ok_def working_set_task working_split [OF i(1)])
  moreover have "loop_ok s'" using inv(4) i(1) by (simp add: s' loop_ok_def)
  moreover have "marks_ok s'" using inv(5) i(1) by (simp add: s' marks_ok_def)
  moreover have "debts_ok check s'" using inv(6) es by (simp add: s' debts_ok_def owed_other)
  ultimately show ?thesis by (simp add: hung_inv_def)
qed

lemma pass_keeps:
  assumes "hung_inv check s" "hung_next h GPass s = Some s'"
  shows "hung_inv check s'"
proof -
  note inv = hung_invD [OF assms(1)]
  from assms(2) obtain t ts where ph: "hs_phase s = Looping (t # ts)" and s': "s' = (pass_target h t s)\<lparr>hs_phase := Looping ts\<rparr>"
    by (auto split: gather_phase.splits list.splits)
  have fresh: "distinct (t # ts)" "\<forall>i < length (hs_tasks s). tk_run (hs_tasks s ! i) = hs_run s \<longrightarrow> tk_target (hs_tasks s ! i) \<notin> set (t # ts)"
    using inv(4) ph unfolding loop_ok_def by blast+
  show ?thesis
  proof (cases "map_of (hs_inFlight s) t")
    case None
    let ?k = "\<lparr>tk_run = hs_run s, tk_target = t, tk_phase = Waiting\<rparr>"
    define q where "q = (if m_has (hs_prevHung s) t then hs_queue s @ [hp_recovered h t] else hs_queue s)"
    define m where "m = (if m_has (hs_prevHung s) t then m_del t (hs_prevHung s) else hs_prevHung s)"
    have s'_eq: "s' = s\<lparr>hs_queue := q, hs_prevHung := m, hs_tasks := hs_tasks s @ [?k], hs_phase := Looping ts\<rparr>"
      using None by (simp add: s' pass_target_def q_def m_def Let_def)
    have idle: "t \<notin> working s" using inv(3) None by (metis entries_ok_def m_has_def)
    have nop: "\<not> (pending (hs_tasks s ! i) \<and> tk_target (hs_tasks s ! i) = t)" if "i < length (hs_tasks s)" for i
      using that inv(1) fresh(2) idle by (auto simp: runs_ok_def unstored_def pending_def working_def)
    have w: "working s' = working s" unfolding working_def s'_eq by (auto simp: nth_append less_Suc_eq)
    have "runs_ok s'" using inv(1) ph by (auto simp: s'_eq runs_ok_def nth_append less_Suc_eq)
    moreover have "one_each s'" using inv(2) nop by (auto simp: s'_eq one_each_def nth_append less_Suc_eq)
    moreover have "entries_ok s'" using inv(3) w by (simp add: s'_eq entries_ok_def)
    moreover have "loop_ok s'" using fresh by (auto simp: s'_eq loop_ok_def nth_append less_Suc_eq)
    moreover have "marks_ok s'" using inv(5) ph idle by (auto simp: s'_eq m_def marks_ok_def working_def nth_append less_Suc_eq)
    moreover have "debts_ok check s'" using inv(6) recovered_event by (auto simp: s'_eq q_def m_def debts_ok_def owed_push)
    ultimately show ?thesis by (simp add: hung_inv_def)
  next
    case (Some start)
    define q where "q = (if unix s - start > hp_timeout h div Second then hs_queue s @ [hp_hung h t (unix s - start)] else hs_queue s)"
    have s'_eq: "s' = s\<lparr>hs_queue := q, hs_phase := Looping ts\<rparr>" using Some by (simp add: s' pass_target_def q_def Let_def)
    have "t \<in> working s" using Some inv(3) by (metis entries_ok_def m_has_def option.distinct(1))
    then obtain i where i: "i < length (hs_tasks s)" "tk_phase (hs_tasks s ! i) = Working" "tk_target (hs_tasks s ! i) = t"
      by (auto simp: working_def)
    have "tk_run (hs_tasks s ! i) < hs_run s" using inv(1) fresh(2) i by (fastforce simp: runs_ok_def)
    then have marked: "m_has (hs_prevHung s) t" using inv(5) i by (auto simp: marks_ok_def)
    have "runs_ok s'" using inv(1) ph by (simp add: s'_eq runs_ok_def)
    moreover have "one_each s'" "entries_ok s'" using inv(2,3) by (simp_all add: s'_eq one_each_def entries_ok_def)
    moreover have "loop_ok s'" using fresh by (auto simp: s'_eq loop_ok_def)
    moreover have "marks_ok s'" using inv(5) ph by (simp add: s'_eq marks_ok_def)
    moreover have "debts_ok check s'" using inv(6) hung_event marked by (auto simp: s'_eq q_def debts_ok_def owed_push)
    ultimately show ?thesis by (simp add: hung_inv_def)
  qed
qed

lemma step_keeps:
  assumes "hung_inv check s" "hung_next h l s = Some s'" "prompt l s"
  shows "hung_inv check s'"
proof (cases l)
  case GPass
  then show ?thesis using pass_keeps assms by simp
next
  case (TAcquire i)
  then have "task_in i Waiting s" "s' = set_task i Acquired s" using assms(2) by (auto split: if_splits)
  then show ?thesis using hung_inv_advance [OF assms(1)] by blast
next
  case (TLeave i)
  then have "task_in i Leaving s" "s' = set_task i Finished s" using assms(2) by (auto split: if_splits)
  then show ?thesis using hung_inv_advance [OF assms(1)] by blast
next
  case (TStore i)
  then show ?thesis using hung_inv_store assms by blast
next
  case (TWork i w)
  then show ?thesis using work_keeps assms by blast
qed (use hung_inv_gather [OF assms] in blast)+

lemma prompt_inv: "hung_reach h prompt s \<Longrightarrow> hung_inv check s"
  by (induction rule: hung_reach.induct) (auto intro: hung_inv_init step_keeps)

text \<open>Passing a target that is not being worked on settles what it is owed.\<close>

lemma pass_settles:
  assumes "hung_reach h prompt s" "hs_phase s = Looping (t # ts)" "map_of (hs_inFlight s) t = None" "hung_next h GPass s = Some s'"
  shows "\<not> owed check t (hs_queue s')"
proof -
  have "owed check t (hs_queue s) \<Longrightarrow> m_has (hs_prevHung s) t"
    using hung_invD(6) [OF prompt_inv [OF assms(1)]] by (auto simp: debts_ok_def)
  then show ?thesis using assms(2-4) recovered_event by (cases "m_has (hs_prevHung s) t") (auto simp: pass_target_def owed_push Let_def)
qed

end

end
