(* ===== verification/Redis_Gather.thy ===== *)
theory Redis_Gather
  imports Redis_Checks Gather_Hung
begin

text \<open>
  \<^verbatim>\<open>Gather\<close> of \<^verbatim>\<open>plugins/redis/gather.go\<close>: the concurrent driver of theory \<open>Gather_Hung\<close> on the Redis plugin. The time a
  gather waits, the two events of the \<^verbatim>\<open>redis::hung\<close> check, and the goroutine of a target, whose outcome depends on what
  dialling gives and on how long the ping takes.
\<close>

section \<open>Model\<close>

text \<open>The products and sums are \<^verbatim>\<open>int64\<close>; a division in Go truncates, here of positive numbers.\<close>

definition redis_timeout :: "redis_Instance \<Rightarrow> duration" where
  "redis_timeout ins =
     (let perTarget = i64 (rs_Timeout ins + i64 (rs_ReadTimeout ins * 8));
          batches = (int (length (ri_Targets ins)) + rs_Concurrency ins - 1) div rs_Concurrency ins;
          t = i64 (perTarget * (batches + 1))
      in if t < 30 * Second then 30 * Second else t)"

definition buildHungEvent :: "string \<Rightarrow> int \<Rightarrow> Event" where
  "buildHungEvent target elapsed =
     alert_with EventStatusCritical (''redis check hung for '' @ show_int elapsed @ '' seconds (target may be unreachable or blocked)'')
       (SetAttrs [(''elapsed_seconds'', show_int elapsed), (''threshold_desc'', ''Critical: redis check hung'')]
         (check_event ''redis::hung'' target))"

definition buildHungRecoveryEvent :: "string \<Rightarrow> Event" where
  "buildHungRecoveryEvent target = SetDescription ''redis check recovered from hung state'' (check_event ''redis::hung'' target)"

text \<open>The world of a goroutine: what dialling gives, and the time until the ping was answered.\<close>

type_synonym redis_world = "(string \<Rightarrow> string + redis_conn) \<times> duration"

definition redis_plugin :: "fmt_quote \<Rightarrow> redis_Instance \<Rightarrow> (redis_world, redis_Instance) hung_plugin" where
  "redis_plugin q ins =
     \<lparr>hp_targets = (\<lambda>ts. ts = ri_Targets ins), hp_concurrency = rs_Concurrency ins, hp_timeout = redis_timeout ins,
      hp_hung = buildHungEvent, hp_recovered = buildHungRecoveryEvent,
      hp_work = (\<lambda>(dial, t) target i. gather_goroutine q dial t target i)\<rparr>"

section \<open>The work on a target never reports the hung check\<close>

definition quiet :: "gather \<Rightarrow> bool" where
  "quiet g \<longleftrightarrow> (\<forall>e \<in> set (ga_events g). ev_check e \<noteq> ''redis::hung'')"

lemma quiet_push: "is_event target check e \<Longrightarrow> check \<noteq> ''redis::hung'' \<Longrightarrow> quiet g \<Longrightarrow> quiet (push e g)"
  by (auto simp: quiet_def push_def is_event_def)

lemma quiet_stage: "(ga_panic g = None \<Longrightarrow> quiet g \<Longrightarrow> quiet (f g)) \<Longrightarrow> quiet g \<Longrightarrow> quiet (stage w f g)"
  by (simp add: stage_def)

lemma quiet_stage_push: "is_event target check e \<Longrightarrow> check \<noteq> ''redis::hung'' \<Longrightarrow> quiet g \<Longrightarrow> quiet (stage w (push e) g)"
  by (simp add: stage_def quiet_push)

lemma quiet_fields [simp]: "quiet (g\<lparr>ga_acc := a\<rparr>) = quiet g" "quiet (g\<lparr>ga_cache := c\<rparr>) = quiet g" "quiet (g\<lparr>ga_panic := p\<rparr>) = quiet g"
  by (simp_all add: quiet_def)

lemma quiet_call:
  assumes "\<And>v a. quiet (good v a g)" "\<And>e g'. quiet g' \<Longrightarrow> quiet (bad e g')" "quiet g"
  shows "quiet (after_call good bad r g)"
  using assms by (auto simp: after_call_def split: prod.split sum.split call_error.split)

lemma quiet_info:
  assumes "\<And>i g'. quiet g' \<Longrightarrow> quiet (good i g')" "\<And>e g'. quiet g' \<Longrightarrow> quiet (bad e g')" "quiet g"
  shows "quiet (infoSection q sect good bad g)"
  using assms by (auto simp: infoSection_def intro!: quiet_call split: option.split)

lemma quiet_section:
  assumes "\<And>i info. is_event target check (f i info)" "check \<noteq> ''redis::hung''" "quiet g"
  shows "quiet (stage w (section_check q sect what check target f) g)"
  unfolding section_check_def by (intro quiet_stage quiet_info quiet_push [where check = check and target = target] assms check_events)

lemma quiet_cluster: "quiet g \<Longrightarrow> quiet (cluster_stage q target g)"
  unfolding cluster_stage_def Let_def
  by (intro quiet_call quiet_stage) (auto intro!: quiet_call quiet_stage quiet_push intro: check_events)

lemma quiet_mode_run: "quiet g \<Longrightarrow> quiet (mode_stage q target g)"
  unfolding mode_stage_def Let_def
  by (intro quiet_info) (auto intro!: quiet_cluster quiet_stage_push intro: check_events)

lemma quiet_clients_run: "quiet g \<Longrightarrow> quiet (clients_stage q target g)"
  unfolding clients_stage_def Let_def
  by (intro quiet_info) (auto intro!: quiet_stage_push intro: check_events)

lemma quiet_counters:
  assumes "e \<in> set (fst (checkCounterDeltas q ins target info))"
  shows "ev_check e \<noteq> ''redis::hung''"
proof -
  obtain es ins' where c: "checkCounterDeltas q ins target info = (es, ins')" by fastforce
  then have "map ev_check es \<in> counter_options ins" using checkCounterDeltas_spec by blast
  moreover have "set names \<subseteq> ct_check ` set (counters ins)" if "names \<in> counter_options ins" for names
    using that by (auto simp: counter_options_def counter_checks_def counters_def opt_def split: if_splits)
  ultimately have "set (map ev_check es) \<subseteq> ct_check ` set (counters ins)" by blast
  moreover have "''redis::hung'' \<notin> ct_check ` set (counters ins)"
    by (simp add: counters_def evicted_counter_def expired_counter_def rejected_counter_def)
  ultimately show ?thesis using assms c by (metis fst_conv imageI list.set_map subsetD)
qed

lemma quiet_stats_run: "quiet g \<Longrightarrow> quiet (stats_stage q target g)"
  unfolding stats_stage_def Let_def
proof (intro quiet_info, goal_cases)
  case (1 i g')
  obtain es ins' where c: "checkCounterDeltas q (ga_ins g) target i = (es, ins')" by fastforce
  have "quiet (g'\<lparr>ga_events := ga_events g' @ es, ga_ins := ins'\<rparr>)"
    using 1 quiet_counters [of _ q "ga_ins g" target i] c by (auto simp: quiet_def)
  then show ?case by (auto simp: c intro!: quiet_stage_push intro: check_events)
qed (auto intro!: quiet_stage_push intro: check_events)

lemma quiet_stages:
  "quiet g \<Longrightarrow> quiet (stage w (mode_stage q target) g)" "quiet g \<Longrightarrow> quiet (stage w (clients_stage q target) g)"
  "quiet g \<Longrightarrow> quiet (stage w (stats_stage q target) g)"
  by (simp_all add: quiet_stage quiet_mode_run quiet_clients_run quiet_stats_run)

lemma quiet_checks: "quiet g \<Longrightarrow> quiet (gather_checks q target g)"
  unfolding gather_checks_def Let_def
  by (auto intro!: quiet_section quiet_stages intro: check_events)

lemma goroutine_quiet:
  assumes "e \<in> set (fst (gather_goroutine q dial t target ins))"
  shows "ev_check e \<noteq> ''redis::hung''"
proof -
  have conn: "ev_check (conn_event ins target t) = ''redis::connectivity''" by (simp add: conn_event_def)
  have resp: "\<forall>e \<in> set (checkResponseTime ins target t). ev_check e = ''redis::response_time''"
    by (simp add: checkResponseTime_def Let_def)
  have run: "quiet (gather_checks q target \<lparr>ga_acc = acc, ga_cache = [], ga_ins = ins,
      ga_events = SetDescription ''redis ping ok'' (conn_event ins target t) # checkResponseTime ins target t, ga_panic = None\<rparr>)" for acc
    using conn resp by (intro quiet_checks) (auto simp: quiet_def)
  have "\<forall>e \<in> set (fst (gatherTarget q dial t target ins)). ev_check e \<noteq> ''redis::hung''"
    using run conn by (auto simp: gatherTarget_def Let_def quiet_def ping_failed_def split: sum.splits call_error.splits prod.splits option.splits)
  then show ?thesis
    using assms by (auto simp: gather_goroutine_def ev_check_def BuildEvent_def nil_map_def m_copy_Cons m_str_def split: prod.splits option.splits)
qed

interpretation redis: hung_reporter "redis_plugin q ins" "''redis::hung''" for q ins
  by unfold_locales
    (auto simp: redis_plugin_def buildHungEvent_def buildHungRecoveryEvent_def status_defs dest: goroutine_quiet split: prod.splits)

section \<open>Properties\<close>

text \<open>C32: a hung alert of a target is always cleared: as long as every goroutine enters the map before its gather gives
  up, a gather that passes a target nobody is working on leaves no \<^verbatim>\<open>redis::hung\<close> alert of that target without a later
  recovery event.\<close>

theorem redis_hung_recovers:
  assumes "hung_reach (redis_plugin q ins) prompt s" "hs_phase s = Looping (t # ts)" "map_of (hs_inFlight s) t = None"
    "hung_next (redis_plugin q ins) GPass s = Some s'"
  shows "\<not> owed ''redis::hung'' t (hs_queue s')"
  using redis.pass_settles [OF assms] .

definition no_dial :: redis_world where
  "no_dial = (\<lambda>_. Inl ''refused'', 0)"

lemma no_dial_work: "gather_goroutine q (fst no_dial) (snd no_dial) t ins = ([ping_failed ins t 0 ''refused''], ins)"
  by (simp add: no_dial_def gather_goroutine_def gatherTarget_def NewRedisAccessor_def accessor_config_def)

lemmas gather_eval = task_in_def set_task_def pass_target_def slots_taken_def in_run_def holds_slot_def unix_def mark_hung_def m_keys_def
  m_set_def m_del_def m_has_def owed_def ping_failed_def conn_event_def buildHungEvent_def buildHungRecoveryEvent_def status_defs

definition hung_trace :: "redis_world hung_label list" where
  "hung_trace =
     [GStart [''h:1''], GPass, GJoin, TAcquire 0, TStore 0, GTick (40 * Second), GTimeout,
      GTick (90 * Second), GStart [''h:1''], GPass, GJoin, GDone, TWork 0 no_dial, TLeave 0, GStart [''h:1'']]"

lemma sample_plugin:
  "hp_targets (redis_plugin q sample_redis) ts \<longleftrightarrow> ts = [''h:1'']" "hp_concurrency (redis_plugin q sample_redis) = 10"
  "hp_timeout (redis_plugin q sample_redis) = 38 * Second" "hp_hung (redis_plugin q sample_redis) = buildHungEvent"
  "hp_recovered (redis_plugin q sample_redis) = buildHungRecoveryEvent" "hp_work (redis_plugin q sample_redis) no_dial t i = ([ping_failed i t 0 ''refused''], i)"
  using no_dial_work [of q t i] by (simp_all add: redis_plugin_def redis_timeout_def in_i64_def sample_redis_def no_dial_def)

theorem redis_hung_recovers_witness:
  "\<exists>s s'. prompt_run (redis_plugin sample_quote sample_redis) hung_trace (hung_init sample_redis) = Some s \<and> owed ''redis::hung'' ''h:1'' (hs_queue s) \<and>
    hung_next (redis_plugin sample_quote sample_redis) GPass s = Some s' \<and> \<not> owed ''redis::hung'' ''h:1'' (hs_queue s')"
proof -
  let ?h = "redis_plugin sample_quote sample_redis"
  have "\<exists>s s'. prompt_run ?h hung_trace (hung_init sample_redis) = Some s \<and> owed ''redis::hung'' ''h:1'' (hs_queue s) \<and>
      hs_phase s = Looping [''h:1''] \<and> map_of (hs_inFlight s) ''h:1'' = None \<and> hung_next ?h GPass s = Some s'"
    by (simp add: hung_trace_def hung_init_def sample_plugin prompt_def unstored_def gather_eval Let_def)
  then obtain s s' where s: "prompt_run ?h hung_trace (hung_init sample_redis) = Some s" "owed ''redis::hung'' ''h:1'' (hs_queue s)"
    "hs_phase s = Looping [''h:1'']" "map_of (hs_inFlight s) ''h:1'' = None" "hung_next ?h GPass s = Some s'" by blast
  have "hung_reach ?h prompt s" using prompt_run_reach [OF reach_init s(1)] .
  from redis_hung_recovers [OF this s(3-5)] show ?thesis using s by blast
qed

text \<open>Two targets, one slot, and no server that answers.\<close>

definition two_targets :: redis_Instance where
  "two_targets = sample_redis\<lparr>rs_Concurrency := 1, ri_Targets := [''a:1'', ''b:1'']\<rparr>"

text \<open>The first target keeps its slot past the timeout. The second gets it afterwards, so the gather that gave up has
  not marked it; it keeps the slot past the timeout as well and is reported, and nothing marks it either.\<close>

definition late_trace :: "redis_world hung_label list" where
  "late_trace =
     [GStart [''a:1'', ''b:1''], GPass, GPass, GJoin, TAcquire 0, TStore 0, GTick (60 * Second), GTimeout,
      TWork 0 no_dial, TLeave 0, TAcquire 1, TStore 1,
      GStart [''a:1'', ''b:1''], GPass, GPass, GJoin, TAcquire 2, TStore 2, TWork 2 no_dial, TLeave 2, GDone,
      GTick (200 * Second), GStart [''a:1'', ''b:1''], GPass, GPass, GJoin, TAcquire 3, TStore 3, TWork 3 no_dial, TLeave 3, GDone,
      TWork 1 no_dial, TLeave 1,
      GStart [''a:1'', ''b:1''], GPass, GPass, GJoin, TAcquire 4, TStore 4, TWork 4 no_dial, TLeave 4, TAcquire 5, TStore 5,
      TWork 5 no_dial, TLeave 5, GDone]"

lemma late_timeout: "redis_timeout two_targets = 57 * Second"
  by (simp add: redis_timeout_def two_targets_def sample_redis_def in_i64_def)

lemma late_plugin:
  "hp_targets (redis_plugin q two_targets) ts \<longleftrightarrow> ts = [''a:1'', ''b:1'']" "hp_concurrency (redis_plugin q two_targets) = 1"
  "hp_timeout (redis_plugin q two_targets) = 57 * Second" "hp_hung (redis_plugin q two_targets) = buildHungEvent"
  "hp_recovered (redis_plugin q two_targets) = buildHungRecoveryEvent" "hp_work (redis_plugin q two_targets) no_dial t i = ([ping_failed i t 0 ''refused''], i)"
  using no_dial_work [of q t i] late_timeout by (simp_all add: redis_plugin_def two_targets_def no_dial_def)

text \<open>without that condition the alert can stay for ever: after a goroutine waited for its slot until the gather had
  given up, its target is reported as hung, is worked on normally afterwards, and no recovery event follows.\<close>

theorem redis_hung_stuck:
  "\<exists>s. hung_run (redis_plugin q two_targets) late_trace (hung_init two_targets) = Some s \<and> hs_phase s = Idle \<and>
    hs_inFlight s = [] \<and> hs_prevHung s = [] \<and> owed ''redis::hung'' ''b:1'' (hs_queue s)"
  by (simp add: late_trace_def hung_init_def late_plugin gather_eval Let_def)

end
