(* ===== verification/Host_Metrics.thy ===== *)
theory Host_Metrics
  imports Plugin_Events
begin

text \<open>
  The plugins that compare one reading of the host with two thresholds: \<^verbatim>\<open>plugins/mem\<close>, \<^verbatim>\<open>plugins/cpu\<close>, \<^verbatim>\<open>plugins/conntrack\<close>,
  \<^verbatim>\<open>plugins/neigh\<close>, \<^verbatim>\<open>plugins/filefd\<close>, \<^verbatim>\<open>plugins/sockstat\<close>, \<^verbatim>\<open>plugins/tcpstate\<close>, \<^verbatim>\<open>plugins/uptime\<close>, \<^verbatim>\<open>plugins/zombie\<close> and
  \<^verbatim>\<open>plugins/hostident\<close>. What the operating system answers (the packages of \<^verbatim>\<open>gopsutil\<close>, the files under \<^verbatim>\<open>/proc\<close>, the clock) is
  an argument; parsing those files is modelled. A \<^verbatim>\<open>float64\<close> is a real number: readings are compared and printed, and a
  percentage is computed without rounding.
\<close>

section \<open>Thresholds\<close>

record threshold =
  th_WarnGe :: real
  th_CriticalGe :: real

definition th_off :: "threshold \<Rightarrow> bool" where
  "th_off t \<longleftrightarrow> th_WarnGe t = 0 \<and> th_CriticalGe t = 0"

definition th_status :: "threshold \<Rightarrow> real \<Rightarrow> string" where
  "th_status t v = EvaluateGeThreshold v (th_WarnGe t) (th_CriticalGe t)"

definition th_parts :: "(real \<Rightarrow> string) \<Rightarrow> threshold \<Rightarrow> string list" where
  "th_parts show t =
     (if th_WarnGe t > 0 then [''Warning '' @ ge_sign @ '' '' @ show (th_WarnGe t)] else []) @
     (if th_CriticalGe t > 0 then [''Critical '' @ ge_sign @ '' '' @ show (th_CriticalGe t)] else [])"

definition with_parts :: "string list \<Rightarrow> Event \<Rightarrow> Event" where
  "with_parts parts e = (if parts = [] then e else e\<lparr>Attrs := Some (m_set ''threshold_desc'' (join '', '' parts) (nil_map (Attrs e)))\<rparr>)"

definition pct :: "nat \<Rightarrow> real \<Rightarrow> string" where
  "pct d x = fmt_fixed d x @ ''%''"

text \<open>The two checks of a set-up on a pair of thresholds: between 0 and 100, or not negative; and in order.\<close>

definition th_percent :: "string \<Rightarrow> threshold \<Rightarrow> string + unit" where
  "th_percent name t =
     refuse (th_WarnGe t < 0 \<or> th_WarnGe t > 100 \<or> th_CriticalGe t < 0 \<or> th_CriticalGe t > 100)
       (name @ '' thresholds must be between 0 and 100 (got warn_ge='' @ fmt_fixed 1 (th_WarnGe t) @ '', critical_ge='' @ fmt_fixed 1 (th_CriticalGe t) @ '')'')"

definition th_nonneg :: "nat \<Rightarrow> string \<Rightarrow> threshold \<Rightarrow> string + unit" where
  "th_nonneg d name t =
     refuse (th_WarnGe t < 0 \<or> th_CriticalGe t < 0)
       (name @ '' thresholds must be >= 0 (got warn_ge='' @ fmt_fixed d (th_WarnGe t) @ '', critical_ge='' @ fmt_fixed d (th_CriticalGe t) @ '')'')"

definition th_order :: "(real \<Rightarrow> string) \<Rightarrow> string \<Rightarrow> threshold \<Rightarrow> string + unit" where
  "th_order show name t =
     refuse (th_WarnGe t > 0 \<and> th_CriticalGe t > 0 \<and> th_WarnGe t \<ge> th_CriticalGe t)
       (name @ ''.warn_ge('' @ show (th_WarnGe t) @ '') must be less than '' @ name @ ''.critical_ge('' @ show (th_CriticalGe t) @ '')'')"

definition th_percent_order :: "string \<Rightarrow> threshold \<Rightarrow> string + unit" where
  "th_percent_order name t = sbind (th_percent name t) (\<lambda>_. th_order (fmt_fixed 1) name t)"

text \<open>The two ways a reading is turned into an event: the description of the event stays when the status is \<^verbatim>\<open>Ok\<close>, or
  every status has a description.\<close>

definition above :: "threshold \<Rightarrow> real \<Rightarrow> (string \<Rightarrow> real \<Rightarrow> string) \<Rightarrow> Event \<Rightarrow> Event" where
  "above t v desc event =
     (let status = th_status t v in
      if status \<noteq> EventStatusOk then
        let (threshold, level) = (if status = EventStatusCritical then (th_CriticalGe t, ''critical'') else (th_WarnGe t, ''warning''))
        in alert_with status (desc level threshold) event
      else event)"

definition rated :: "threshold \<Rightarrow> real \<Rightarrow> string \<Rightarrow> string \<Rightarrow> string \<Rightarrow> Event \<Rightarrow> Event" where
  "rated t v dcritical dwarning dok event =
     (let status = th_status t v; event = SetEventStatus status event in
      if status = EventStatusCritical then SetDescription dcritical event
      else if status = EventStatusWarning then SetDescription dwarning event
      else SetDescription dok event)"

definition everything_ok :: string where "everything_ok = ''everything is ok''"

section \<open>Memory\<close>

record mem_Instance =
  mi_MemoryUsage :: threshold
  mi_SwapUsage :: threshold

definition mem_Init :: "mem_Instance \<Rightarrow> string + unit" where
  "mem_Init ins =
     sbind (th_percent ''memory_usage'' (mi_MemoryUsage ins)) (\<lambda>_.
     sbind (th_percent ''swap_usage'' (mi_SwapUsage ins)) (\<lambda>_.
     sbind (th_order (fmt_fixed 1) ''memory_usage'' (mi_MemoryUsage ins)) (\<lambda>_.
     th_order (fmt_fixed 1) ''swap_usage'' (mi_SwapUsage ins))))"

record virtual_memory =
  vm_Total :: nat
  vm_Used :: nat
  vm_Available :: nat
  vm_UsedPercent :: real
  vm_Buffers :: nat
  vm_Cached :: nat

record swap_memory =
  sw_Total :: nat
  sw_Used :: nat
  sw_Free :: nat
  sw_UsedPercent :: real

abbreviation human :: "nat \<Rightarrow> string" where "human n \<equiv> human_u64 (int n)"

definition checkMemoryUsage :: "mem_Instance \<Rightarrow> string + virtual_memory \<Rightarrow> Event list" where
  "checkMemoryUsage ins reading =
     (let t = mi_MemoryUsage ins; base = check_event ''mem::memory_usage'' ''memory'' in
      if th_off t then []
      else case reading of
        Inl e \<Rightarrow> [alert_with EventStatusCritical (''failed to get memory info: '' @ e) base]
      | Inr vm \<Rightarrow>
          let event = with_parts (th_parts (pct 1) t) (SetDescription everything_ok (SetCurrentValue (pct 1 (vm_UsedPercent vm))
                (SetAttrs [(''total'', human (vm_Total vm)), (''used'', human (vm_Used vm)), (''available'', human (vm_Available vm)),
                   (''used_percent'', pct 1 (vm_UsedPercent vm)), (''buffers'', human (vm_Buffers vm)), (''cached'', human (vm_Cached vm))] base)))
          in [above t (vm_UsedPercent vm) (\<lambda>level thr. ''memory usage '' @ pct 1 (vm_UsedPercent vm) @ '' >= '' @ level @ '' threshold '' @ pct 1 thr @
                '', total: '' @ human (vm_Total vm) @ '', available: '' @ human (vm_Available vm)) event])"

definition checkSwapUsage :: "mem_Instance \<Rightarrow> string + swap_memory \<Rightarrow> Event list" where
  "checkSwapUsage ins reading =
     (let t = mi_SwapUsage ins; base = check_event ''mem::swap_usage'' ''memory'' in
      if th_off t then []
      else case reading of
        Inl e \<Rightarrow> [alert_with EventStatusCritical (''failed to get swap info: '' @ e) base]
      | Inr sw \<Rightarrow>
          if sw_Total sw = 0 then []
          else
            let event = with_parts (th_parts (pct 1) t) (SetDescription everything_ok (SetCurrentValue (pct 1 (sw_UsedPercent sw))
                  (SetAttrs [(''swap_total'', human (sw_Total sw)), (''swap_used'', human (sw_Used sw)), (''swap_free'', human (sw_Free sw)),
                     (''swap_used_percent'', pct 1 (sw_UsedPercent sw))] base)))
            in [above t (sw_UsedPercent sw) (\<lambda>level thr. ''swap usage '' @ pct 1 (sw_UsedPercent sw) @ '' >= '' @ level @ '' threshold '' @ pct 1 thr @
                  '', total: '' @ human (sw_Total sw) @ '', free: '' @ human (sw_Free sw)) event])"

definition mem_Gather :: "mem_Instance \<Rightarrow> string + virtual_memory \<Rightarrow> string + swap_memory \<Rightarrow> Event list" where
  "mem_Gather ins vm sw = checkMemoryUsage ins vm @ checkSwapUsage ins sw"

section \<open>Processor\<close>

record cpu_Instance =
  ci_Interval :: duration
  ci_CpuUsage :: threshold
  ci_LoadAverage :: threshold
  ci_Period :: string
  ci_cpuCores :: int

definition cpu_Init :: "(string \<Rightarrow> string) \<Rightarrow> string + int \<Rightarrow> cpu_Instance \<Rightarrow> string + cpu_Instance" where
  "cpu_Init quote cores ins =
     sbind (th_percent_order ''cpu_usage'' (ci_CpuUsage ins)) (\<lambda>_.
     sbind (th_nonneg 2 ''load_average'' (ci_LoadAverage ins)) (\<lambda>_.
     sbind (th_order (fmt_fixed 2) ''load_average'' (ci_LoadAverage ins)) (\<lambda>_.
     let ins = (if ci_Period ins = [] then ins\<lparr>ci_Period := ''5m''\<rparr> else ins) in
     sbind (refuse (ci_Period ins \<notin> {''1m'', ''5m'', ''15m''})
       (''load_average.period must be one of: 1m, 5m, 15m (got '' @ quote (ci_Period ins) @ '')'')) (\<lambda>_.
     case cores of
       Inl e \<Rightarrow> Inl (''failed to get CPU core count: '' @ e)
     | Inr n \<Rightarrow> Inr (ins\<lparr>ci_cpuCores := (if n \<le> 0 then 1 else n)\<rparr>)))))"

definition checkCpuUsage :: "cpu_Instance \<Rightarrow> string + real list \<Rightarrow> Event list" where
  "checkCpuUsage ins reading =
     (let t = ci_CpuUsage ins; base = check_event ''cpu::cpu_usage'' ''cpu'' in
      if th_off t then []
      else case reading of
        Inl e \<Rightarrow> [alert_with EventStatusCritical (''failed to get CPU usage: '' @ e) base]
      | Inr [] \<Rightarrow> [alert_with EventStatusCritical ''cpu.Percent returned empty result'' base]
      | Inr (usage # _) \<Rightarrow>
          let event = with_parts (th_parts (pct 1) t) (SetDescription everything_ok (SetCurrentValue (pct 1 usage)
                (SetAttrs [(''cpu_usage'', pct 1 usage), (''cpu_cores'', show_int (ci_cpuCores ins))] base)));
              hint = (if ci_Interval ins > 0 then dur_string (ci_Interval ins) @ '' avg'' else ''interval avg'')
          in [above t usage (\<lambda>level thr. ''CPU usage '' @ pct 1 usage @ '' ('' @ hint @ '') >= '' @ level @ '' threshold '' @ pct 1 thr @
                '', cores: '' @ show_int (ci_cpuCores ins)) event])"

record load_avg =
  la_Load1 :: real
  la_Load5 :: real
  la_Load15 :: real

definition raw_load :: "string \<Rightarrow> load_avg \<Rightarrow> real" where
  "raw_load period avg = (if period = ''1m'' then la_Load1 avg else if period = ''15m'' then la_Load15 avg else la_Load5 avg)"

definition checkLoadAverage :: "cpu_Instance \<Rightarrow> string + load_avg \<Rightarrow> Event list" where
  "checkLoadAverage ins reading =
     (let t = ci_LoadAverage ins; base = check_event ''cpu::load_average'' ''cpu'' in
      if th_off t then []
      else case reading of
        Inl e \<Rightarrow> [alert_with EventStatusCritical (''failed to get load average: '' @ e) base]
      | Inr avg \<Rightarrow>
          let raw = raw_load (ci_Period ins) avg;
              perCore = raw / real_of_int (ci_cpuCores ins);
              event = with_parts (th_parts (fmt_fixed 2) t) (SetDescription everything_ok (SetCurrentValue (fmt_fixed 2 perCore)
                (SetAttrs [(''load1'', fmt_fixed 2 (la_Load1 avg)), (''load5'', fmt_fixed 2 (la_Load5 avg)), (''load15'', fmt_fixed 2 (la_Load15 avg)),
                   (''per_core_load'', fmt_fixed 2 perCore), (''cpu_cores'', show_int (ci_cpuCores ins)), (''period'', ci_Period ins)] base)))
          in [above t perCore (\<lambda>level thr. ''load average ('' @ ci_Period ins @ '') per-core '' @ fmt_fixed 2 perCore @ '' >= '' @ level @ '' threshold '' @
                fmt_fixed 2 thr @ '', raw load: '' @ fmt_fixed 2 raw @ '', cores: '' @ show_int (ci_cpuCores ins)) event])"

definition cpu_Gather :: "cpu_Instance \<Rightarrow> string + real list \<Rightarrow> string + load_avg \<Rightarrow> Event list" where
  "cpu_Gather ins usage avg = checkCpuUsage ins usage @ checkLoadAverage ins avg"

section \<open>Kernel tables: connection tracking, neighbours, file descriptors\<close>

definition linux_only :: "string \<Rightarrow> string \<Rightarrow> string + unit" where
  "linux_only plugin os = refuse (os \<noteq> ''linux'') (plugin @ '' plugin only supports linux (current: '' @ os @ '')'')"

text \<open>\<^verbatim>\<open>os.ReadFile\<close>: the content, a file that does not exist, or another error.\<close>

datatype file_read = FContent string | FMissing string | FError string

definition file_error :: "file_read \<Rightarrow> string option" where
  "file_error r = (case r of FContent _ \<Rightarrow> None | FMissing e \<Rightarrow> Some e | FError e \<Rightarrow> Some e)"

definition parse_file :: "(string \<Rightarrow> string) \<Rightarrow> string \<Rightarrow> string \<Rightarrow> string + nat" where
  "parse_file quote name content =
     (case ParseUint (trim_space content) of
        Inl e \<Rightarrow> Inl (''parse '' @ name @ '': '' @ num_text quote ''ParseUint'' (trim_space content) e)
      | Inr n \<Rightarrow> Inr n)"

text \<open>\<open>Inr None\<close> stands for \<^verbatim>\<open>errModuleNotLoaded\<close>.\<close>

definition conntrackPaths :: "(string \<times> string) list" where
  "conntrackPaths =
     [(''/proc/sys/net/netfilter/nf_conntrack_count'', ''/proc/sys/net/netfilter/nf_conntrack_max''),
      (''/proc/sys/net/ipv4/netfilter/ip_conntrack_count'', ''/proc/sys/net/ipv4/netfilter/ip_conntrack_max'')]"

fun conntrack_loop :: "(string \<Rightarrow> string) \<Rightarrow> (string \<Rightarrow> file_read) \<Rightarrow> (string \<times> string) list \<Rightarrow> string + (nat \<times> nat) option" where
  "conntrack_loop quote rd [] = Inr None"
| "conntrack_loop quote rd ((countPath, maxPath) # paths) =
     (case (rd countPath, rd maxPath) of
        (FContent c, FContent m) \<Rightarrow>
          sbind (parse_file quote countPath c) (\<lambda>count.
          sbind (parse_file quote maxPath m) (\<lambda>max. Inr (Some (count, max))))
      | (FError e, _) \<Rightarrow> Inl (''read '' @ countPath @ '': '' @ e)
      | (_, FError e) \<Rightarrow> Inl (''read '' @ maxPath @ '': '' @ e)
      | _ \<Rightarrow> conntrack_loop quote rd paths)"

definition readConntrackFiles :: "(string \<Rightarrow> string) \<Rightarrow> (string \<Rightarrow> file_read) \<Rightarrow> string + (nat \<times> nat) option" where
  "readConntrackFiles quote rd = conntrack_loop quote rd conntrackPaths"

definition neigh_paths :: "string \<times> string" where
  "neigh_paths = (''/proc/net/arp'', ''/proc/sys/net/ipv4/neigh/default/gc_thresh3'')"

definition arp_entries :: "string \<Rightarrow> nat" where
  "arp_entries content =
     (let content = trim_space content in
      if content = [] then 0 else let lines = split_at nl content in if length lines \<le> 1 then 0 else length lines - 1)"

definition readNeighData :: "(string \<Rightarrow> string) \<Rightarrow> (string \<Rightarrow> file_read) \<Rightarrow> string + nat \<times> nat" where
  "readNeighData quote rd =
     (let (arpPath, gcThresh3Path) = neigh_paths in
      case rd gcThresh3Path of
        FContent c \<Rightarrow>
          (case ParseUint (trim_space c) of
             Inl e \<Rightarrow> Inl (''parse gc_thresh3: '' @ num_text quote ''ParseUint'' (trim_space c) e)
           | Inr gc \<Rightarrow>
               (case rd arpPath of
                  FContent a \<Rightarrow> Inr (arp_entries a, gc)
                | FMissing e \<Rightarrow> Inl (''read '' @ arpPath @ '': '' @ e)
                | FError e \<Rightarrow> Inl (''read '' @ arpPath @ '': '' @ e)))
      | FMissing e \<Rightarrow> Inl (''read gc_thresh3: '' @ e)
      | FError e \<Rightarrow> Inl (''read gc_thresh3: '' @ e))"

definition fileNrPath :: string where "fileNrPath = ''/proc/sys/fs/file-nr''"

definition readFileNr :: "(string \<Rightarrow> string) \<Rightarrow> (string \<Rightarrow> file_read) \<Rightarrow> string + nat \<times> nat" where
  "readFileNr quote rd =
     (case rd fileNrPath of
        FContent data \<Rightarrow>
          (let fs = Fields (trim_space data) in
           if length fs < 3 then Inl (''unexpected file-nr format: '' @ quote (trim_space data))
           else case ParseUint (fs ! 0) of
                  Inl e \<Rightarrow> Inl (''parse allocated: '' @ num_text quote ''ParseUint'' (fs ! 0) e)
                | Inr allocated \<Rightarrow>
                    (case ParseUint (fs ! 2) of
                       Inl e \<Rightarrow> Inl (''parse max: '' @ num_text quote ''ParseUint'' (fs ! 2) e)
                     | Inr mx \<Rightarrow> Inr (allocated, mx)))
      | FMissing e \<Rightarrow> Inl (''read '' @ fileNrPath @ '': '' @ e)
      | FError e \<Rightarrow> Inl (''read '' @ fileNrPath @ '': '' @ e))"

text \<open>\<^verbatim>\<open>float64(count)/float64(max)*100\<close>.\<close>

definition table_percent :: "nat \<Rightarrow> nat \<Rightarrow> real" where
  "table_percent n limit = real (float64_of_nat n) / real (float64_of_nat limit) * 100"

text \<open>The three plugins differ in their texts only.\<close>

record table_texts =
  tt_check :: string
  tt_read :: string
  tt_zero :: string
  tt_name :: string
  tt_attrs :: "string \<times> string"

definition conntrack_texts :: table_texts where
  "conntrack_texts = \<lparr>tt_check = ''conntrack::conntrack_usage'', tt_read = ''failed to read conntrack data: '',
     tt_zero = ''nf_conntrack_max is 0, cannot calculate usage'', tt_name = ''conntrack usage'', tt_attrs = (''count'', ''max'')\<rparr>"

definition neigh_texts :: table_texts where
  "neigh_texts = \<lparr>tt_check = ''neigh::neigh_usage'', tt_read = ''failed to read neigh data: '',
     tt_zero = ''gc_thresh3 is 0, cannot calculate usage'', tt_name = ''neigh table usage'', tt_attrs = (''entries'', ''gc_thresh3'')\<rparr>"

definition filefd_texts :: table_texts where
  "filefd_texts = \<lparr>tt_check = ''filefd::filefd_usage'', tt_read = ''failed to read file-nr: '',
     tt_zero = ''file-max is 0, cannot calculate usage'', tt_name = ''filefd usage'', tt_attrs = (''allocated'', ''max'')\<rparr>"

definition table_event :: "table_texts \<Rightarrow> threshold \<Rightarrow> nat \<Rightarrow> nat \<Rightarrow> Event" where
  "table_event x t n limit =
     (let base = check_event (tt_check x) ''system'' in
      if limit = 0 then alert_with EventStatusCritical (tt_zero x) base
      else
        let usage = table_percent n limit;
            used = tt_name x @ '' '' @ pct 1 usage @ '' ('' @ show_nat n @ ''/'' @ show_nat limit @ ''), '';
            event = with_parts (th_parts (pct 0) t) (SetCurrentValue (pct 1 usage)
              (SetAttrs [(fst (tt_attrs x), show_nat n), (snd (tt_attrs x), show_nat limit), (''usage_percent'', pct 1 usage)] base))
        in rated t usage (used @ ''above critical threshold '' @ pct 0 (th_CriticalGe t)) (used @ ''above warning threshold '' @ pct 0 (th_WarnGe t))
             (used @ ''everything is ok'') event)"

definition table_gather :: "table_texts \<Rightarrow> threshold \<Rightarrow> string + (nat \<times> nat) option \<Rightarrow> Event list" where
  "table_gather x t reading =
     (if th_off t then []
      else case reading of
        Inl e \<Rightarrow> [alert_with EventStatusCritical (tt_read x @ e) (check_event (tt_check x) ''system'')]
      | Inr None \<Rightarrow> []
      | Inr (Some (count, mx)) \<Rightarrow> [table_event x t count mx])"

definition conntrack_Init :: "string \<Rightarrow> threshold \<Rightarrow> string + unit" where
  "conntrack_Init os t = sbind (linux_only ''conntrack'' os) (\<lambda>_. th_percent_order ''conntrack_usage'' t)"

definition conntrack_Gather :: "(string \<Rightarrow> string) \<Rightarrow> (string \<Rightarrow> file_read) \<Rightarrow> threshold \<Rightarrow> Event list" where
  "conntrack_Gather quote rd t = table_gather conntrack_texts t (readConntrackFiles quote rd)"

definition neigh_Init :: "string \<Rightarrow> threshold \<Rightarrow> string + unit" where
  "neigh_Init os t = sbind (linux_only ''neigh'' os) (\<lambda>_. th_percent_order ''neigh_usage'' t)"

definition neigh_Gather :: "(string \<Rightarrow> string) \<Rightarrow> (string \<Rightarrow> file_read) \<Rightarrow> threshold \<Rightarrow> Event list" where
  "neigh_Gather quote rd t = table_gather neigh_texts t (map_sum id Some (readNeighData quote rd))"

definition filefd_Init :: "string \<Rightarrow> threshold \<Rightarrow> string + unit" where
  "filefd_Init os t = sbind (linux_only ''filefd'' os) (\<lambda>_. th_percent_order ''filefd_usage'' t)"

definition filefd_Gather :: "(string \<Rightarrow> string) \<Rightarrow> (string \<Rightarrow> file_read) \<Rightarrow> threshold \<Rightarrow> Event list" where
  "filefd_Gather quote rd t = table_gather filefd_texts t (map_sum id Some (readFileNr quote rd))"

end
