(* ===== verification/Host_States.thy ===== *)
theory Host_States
  imports Host_Metrics Gather_Hung
begin

text \<open>
  More checks of the host: counters of \<^verbatim>\<open>/proc/net\<close> and socket states (\<^verbatim>\<open>plugins/sockstat\<close>, \<^verbatim>\<open>plugins/tcpstate\<close> with its netlink
  query), \<^verbatim>\<open>plugins/uptime\<close>, \<^verbatim>\<open>plugins/zombie\<close> and \<^verbatim>\<open>plugins/hostident\<close>. As in theory \<open>Host_Metrics\<close> the answers of the system are
  arguments. The contract of a check with two thresholds is a locale, and each check of the two theories is an
  instance of it.
\<close>

section \<open>Listen queue overflows\<close>

record sockstat_Instance =
  so_ListenOverflow :: threshold
  so_prevOverflows :: nat
  so_prevDrops :: nat
  so_initialized :: bool

definition sockstat_Init :: "string \<Rightarrow> sockstat_Instance \<Rightarrow> string + unit" where
  "sockstat_Init os ins =
     sbind (linux_only ''sockstat'' os) (\<lambda>_.
     sbind (th_nonneg 1 ''listen_overflow'' (so_ListenOverflow ins)) (\<lambda>_.
     th_order (fmt_fixed 1) ''listen_overflow'' (so_ListenOverflow ins)))"

definition netstatPath :: string where "netstatPath = ''/proc/net/netstat''"

text \<open>The first two lines of the section: names and values.\<close>

definition tcp_ext :: "string list \<Rightarrow> (string \<times> string) option" where
  "tcp_ext lines = (case filter (prefix ''TcpExt:'') lines of h # v # _ \<Rightarrow> Some (h, v) | _ \<Rightarrow> None)"

text \<open>The index of the last name that matches, as the loop leaves it.\<close>

definition last_pos :: "string \<Rightarrow> string list \<Rightarrow> nat option" where
  "last_pos x xs = (case filter (\<lambda>i. xs ! i = x) [0..<length xs] of [] \<Rightarrow> None | is \<Rightarrow> Some (last is))"

definition readListenStats :: "(string \<Rightarrow> string) \<Rightarrow> file_read \<Rightarrow> string + nat \<times> nat" where
  "readListenStats quote rd =
     (case rd of
        FContent data \<Rightarrow>
          (case tcp_ext (split_at nl data) of
             None \<Rightarrow> Inl (''TcpExt section not found in '' @ netstatPath)
           | Some (headerLine, valueLine) \<Rightarrow>
               let headers = Fields headerLine; values = Fields valueLine in
               if length headers \<noteq> length values
               then Inl (''TcpExt header/value count mismatch ('' @ show_nat (length headers) @ '' vs '' @ show_nat (length values) @ '')'')
               else case last_pos ''ListenOverflows'' headers of
                      None \<Rightarrow> Inl ''ListenOverflows not found in TcpExt''
                    | Some i \<Rightarrow>
                        (case ParseUint (values ! i) of
                           Inl e \<Rightarrow> Inl (''parse ListenOverflows: '' @ num_text quote ''ParseUint'' (values ! i) e)
                         | Inr overflows \<Rightarrow>
                             Inr (overflows,
                               case last_pos ''ListenDrops'' headers of
                                 None \<Rightarrow> 0
                               | Some j \<Rightarrow> (case ParseUint (values ! j) of Inr d \<Rightarrow> d | Inl ErrRange \<Rightarrow> 2 ^ 64 - 1 | Inl ErrSyntax \<Rightarrow> 0))))
      | FMissing e \<Rightarrow> Inl (''read '' @ netstatPath @ '': '' @ e)
      | FError e \<Rightarrow> Inl (''read '' @ netstatPath @ '': '' @ e))"

definition overflow_delta :: "nat \<Rightarrow> nat \<Rightarrow> nat" where
  "overflow_delta now prev = (if now \<ge> prev then now - prev else 0)"

definition overflow_event :: "threshold \<Rightarrow> nat \<Rightarrow> nat \<Rightarrow> nat \<Rightarrow> Event" where
  "overflow_event t delta overflows drops =
     (let event = with_parts (th_parts (fmt_fixed 0) t) (SetCurrentValue (show_nat delta)
            (SetAttrs [(''delta'', show_nat delta), (''total_overflows'', show_nat overflows), (''total_drops'', show_nat drops)]
              (check_event ''sockstat::listen_overflow'' ''system'')));
          what = show_nat delta @ '' new listen overflows since last check (total: '' @ show_nat overflows @ ''), above ''
      in rated t (real (float64_of_nat delta)) (what @ ''critical threshold '' @ fmt_fixed 0 (th_CriticalGe t))
           (what @ ''warning threshold '' @ fmt_fixed 0 (th_WarnGe t))
           (''no new listen overflows (total: '' @ show_nat overflows @ ''), everything is ok'') event)"

definition sockstat_Gather :: "(string \<Rightarrow> string) \<Rightarrow> file_read \<Rightarrow> sockstat_Instance \<Rightarrow> Event list \<times> sockstat_Instance" where
  "sockstat_Gather quote rd ins =
     (let base = check_event ''sockstat::listen_overflow'' ''system'' in
      if th_off (so_ListenOverflow ins) then ([], ins)
      else case readListenStats quote rd of
        Inl e \<Rightarrow> ([alert_with EventStatusCritical (''failed to read netstat data: '' @ e) base], ins)
      | Inr (overflows, drops) \<Rightarrow>
          if \<not> so_initialized ins then
            ([alert_with EventStatusOk (''listen overflow baseline established (total overflows: '' @ show_nat overflows @ '')'')
                (SetCurrentValue ''0'' (SetAttrs [(''delta'', ''0''), (''total_overflows'', show_nat overflows), (''total_drops'', show_nat drops)] base))],
             ins\<lparr>so_prevOverflows := overflows, so_prevDrops := drops, so_initialized := True\<rparr>)
          else
            ([overflow_event (so_ListenOverflow ins) (overflow_delta overflows (so_prevOverflows ins)) overflows drops],
             ins\<lparr>so_prevOverflows := overflows, so_prevDrops := drops\<rparr>))"

section \<open>Socket states\<close>

record stateCounts =
  sc_established :: nat
  sc_closeWait :: nat
  sc_timeWait :: nat

record tcpstate_Instance =
  ts_CloseWait :: threshold
  ts_TimeWait :: threshold
  ts_hasCloseWait :: bool
  ts_hasTimeWait :: bool

text \<open>\<^verbatim>\<open>%g\<close> is an argument.\<close>

definition validateThresholds :: "(real \<Rightarrow> string) \<Rightarrow> string \<Rightarrow> threshold \<Rightarrow> string + unit" where
  "validateThresholds fmt_g name t =
     sbind (refuse (th_WarnGe t < 0) (name @ ''.warn_ge must be non-negative (got '' @ fmt_g (th_WarnGe t) @ '')'')) (\<lambda>_.
     sbind (refuse (th_CriticalGe t < 0) (name @ ''.critical_ge must be non-negative (got '' @ fmt_g (th_CriticalGe t) @ '')'')) (\<lambda>_.
     th_order fmt_g name t))"

definition tcpstate_Init :: "(real \<Rightarrow> string) \<Rightarrow> string \<Rightarrow> tcpstate_Instance \<Rightarrow> string + tcpstate_Instance" where
  "tcpstate_Init fmt_g os ins =
     sbind (linux_only ''tcpstate'' os) (\<lambda>_.
     let ins = ins\<lparr>ts_hasCloseWait := (th_WarnGe (ts_CloseWait ins) > 0 \<or> th_CriticalGe (ts_CloseWait ins) > 0),
                   ts_hasTimeWait := (th_WarnGe (ts_TimeWait ins) > 0 \<or> th_CriticalGe (ts_TimeWait ins) > 0)\<rparr> in
     sbind (refuse (\<not> ts_hasCloseWait ins \<and> \<not> ts_hasTimeWait ins) ''at least one check must be configured (close_wait or time_wait)'') (\<lambda>_.
     sbind (validateThresholds fmt_g ''close_wait'' (ts_CloseWait ins)) (\<lambda>_.
     sbind (validateThresholds fmt_g ''time_wait'' (ts_TimeWait ins)) (\<lambda>_. Inr ins))))"

text \<open>A datagram of the kernel: too short, not parseable, or a list of messages with their type and payload. The socket
  has a receive timeout, so the list of receive results ends with an error.\<close>

datatype errno = Errno int

datatype nl_error = NlText string | NlErrno errno

type_synonym datagram = "nl_error + (nat \<times> (string + (nat \<times> string) list))"

definition nl_word :: "string \<Rightarrow> int" where
  "nl_word data =
     (let u = (\<Sum>i<4. int (of_char (data ! i)) * 256 ^ i) in if u \<ge> 2 ^ 31 then u - 2 ^ 32 else u)"

definition parseNlError :: "string \<Rightarrow> nl_error option" where
  "parseNlError data =
     (if length data < 4 then Some (NlText (''netlink error: truncated payload ('' @ show_nat (length data) @ '' bytes)''))
      else let errno = nl_word data in
        if errno = 0 then None else Some (NlErrno (Errno (if errno > 0 then errno else - errno))))"

definition count_state :: "string \<Rightarrow> stateCounts \<Rightarrow> stateCounts" where
  "count_state data c =
     (if length data \<ge> 2 then
        (let st = of_char (data ! 1) :: nat in
         if st = 1 then c\<lparr>sc_established := sc_established c + 1\<rparr>
         else if st = 8 then c\<lparr>sc_closeWait := sc_closeWait c + 1\<rparr>
         else if st = 6 then c\<lparr>sc_timeWait := sc_timeWait c + 1\<rparr>
         else c)
      else c)"

text \<open>The messages of one datagram: \<open>Some\<close> outcome when the query ends with it.\<close>

fun nl_messages :: "(nat \<times> string) list \<Rightarrow> stateCounts \<Rightarrow> stateCounts \<times> nl_error option option" where
  "nl_messages [] c = (c, None)"
| "nl_messages ((typ', data) # ms) c =
     (if typ' = 3 then (c, Some None)
      else if typ' = 2 then (c, Some (parseNlError data))
      else nl_messages ms (count_state data c))"

fun nl_receive :: "nl_error \<Rightarrow> datagram list \<Rightarrow> stateCounts \<Rightarrow> stateCounts \<times> nl_error option \<times> datagram list" where
  "nl_receive timeout [] c = (c, Some timeout, [])"
| "nl_receive timeout (d # ds) c =
     (case d of
        Inl e \<Rightarrow> (c, Some e, ds)
      | Inr (n, p) \<Rightarrow>
          if n < 16 then (c, Some (NlText (''netlink recv: short read ('' @ show_nat n @ '' bytes)'')), ds)
          else (case p of
                  Inl e \<Rightarrow> (c, Some (NlText (''parse netlink message: '' @ e)), ds)
                | Inr ms \<Rightarrow>
                    (case nl_messages ms c of
                       (c, Some r) \<Rightarrow> (c, r, ds)
                     | (c, None) \<Rightarrow> nl_receive timeout ds c)))"

definition isIPv6Unavailable :: "nl_error \<Rightarrow> bool" where
  "isIPv6Unavailable e \<longleftrightarrow> e \<in> NlErrno ` Errno ` {2, 97, 93}"

text \<open>The query over the two families: \<open>v4\<close> and \<open>v6\<close> are what is received for each.\<close>

definition queryNetlinkTcpStates :: "nl_error \<Rightarrow> datagram list \<Rightarrow> datagram list \<Rightarrow> nl_error + stateCounts" where
  "queryNetlinkTcpStates timeout v4 v6 =
     (case nl_receive timeout v4 \<lparr>sc_established = 0, sc_closeWait = 0, sc_timeWait = 0\<rparr> of
        (_, Some e, _) \<Rightarrow> Inl e
      | (c, None, _) \<Rightarrow>
          (case nl_receive timeout v6 c of
             (c, None, _) \<Rightarrow> Inr c
           | (c, Some e, _) \<Rightarrow> if isIPv6Unavailable e then Inr c else Inl e))"

definition sockstatPath :: string where "sockstatPath = ''/proc/net/sockstat''"

fun tw_field :: "string list \<Rightarrow> string option" where
  "tw_field (f # v # fs) = (if f = ''tw'' then Some v else tw_field (v # fs))"
| "tw_field _ = None"

fun tw_lines :: "(string \<Rightarrow> string) \<Rightarrow> string list \<Rightarrow> string + nat" where
  "tw_lines quote [] = Inl (''tw field not found in '' @ sockstatPath)"
| "tw_lines quote (line # ls) =
     (if \<not> prefix ''TCP:'' line then tw_lines quote ls
      else case tw_field (Fields line) of
             None \<Rightarrow> tw_lines quote ls
           | Some v \<Rightarrow>
               (case ParseUint v of
                  Inl e \<Rightarrow> Inl (''parse tw value '' @ quote v @ '': '' @ num_text quote ''ParseUint'' v e)
                | Inr n \<Rightarrow> Inr n))"

definition parseSockstatTimeWait :: "(string \<Rightarrow> string) \<Rightarrow> string \<Rightarrow> string + nat" where
  "parseSockstatTimeWait quote data = tw_lines quote (split_at nl data)"

definition readSockstatTimeWait :: "(string \<Rightarrow> string) \<Rightarrow> file_read \<Rightarrow> string + nat" where
  "readSockstatTimeWait quote rd =
     (case rd of
        FContent data \<Rightarrow> parseSockstatTimeWait quote data
      | FMissing e \<Rightarrow> Inl (''read '' @ sockstatPath @ '': '' @ e)
      | FError e \<Rightarrow> Inl (''read '' @ sockstatPath @ '': '' @ e))"

definition emitStateEvent :: "string \<Rightarrow> string \<Rightarrow> nat \<Rightarrow> threshold \<Rightarrow> int \<Rightarrow> Event" where
  "emitStateEvent check stateName n t established =
     (let attrs = [(''count'', show_nat n)] @ (if established \<ge> 0 then [(''established'', show_int established)] else []);
          event = with_parts (th_parts (fmt_fixed 0) t) (SetCurrentValue (show_nat n) (SetAttrs attrs (check_event check ''system'')));
          what = show_nat n @ '' '' @ stateName @ '' connections, ''
      in rated t (real (float64_of_nat n)) (what @ ''above critical threshold '' @ fmt_fixed 0 (th_CriticalGe t))
           (what @ ''above warning threshold '' @ fmt_fixed 0 (th_WarnGe t)) (what @ ''everything is ok'') event)"

definition buildErrorEvent :: "tcpstate_Instance \<Rightarrow> string \<Rightarrow> Event" where
  "buildErrorEvent ins msg =
     alert_with EventStatusCritical msg
       (check_event (if ts_hasCloseWait ins then ''tcpstate::close_wait'' else ''tcpstate::time_wait'') ''system'')"

text \<open>\<^verbatim>\<open>int64(counts.established)\<close> does not wrap for a count of sockets.\<close>

definition gatherViaNetlink :: "tcpstate_Instance \<Rightarrow> string + stateCounts \<Rightarrow> Event list" where
  "gatherViaNetlink ins reading =
     (case reading of
        Inl e \<Rightarrow> [buildErrorEvent ins (''failed to query TCP states via netlink: '' @ e)]
      | Inr c \<Rightarrow>
          emitStateEvent ''tcpstate::close_wait'' ''CLOSE_WAIT'' (sc_closeWait c) (ts_CloseWait ins) (int (sc_established c)) #
          (if ts_hasTimeWait ins
           then [emitStateEvent ''tcpstate::time_wait'' ''TIME_WAIT'' (sc_timeWait c) (ts_TimeWait ins) (int (sc_established c))] else []))"

definition gatherViaSockstat :: "tcpstate_Instance \<Rightarrow> string + nat \<Rightarrow> Event list" where
  "gatherViaSockstat ins reading =
     (case reading of
        Inl e \<Rightarrow> [buildErrorEvent ins (''failed to read sockstat: '' @ e)]
      | Inr n \<Rightarrow> [emitStateEvent ''tcpstate::time_wait'' ''TIME_WAIT'' n (ts_TimeWait ins) (- 1)])"

definition tcpstate_Gather :: "tcpstate_Instance \<Rightarrow> string + stateCounts \<Rightarrow> string + nat \<Rightarrow> Event list" where
  "tcpstate_Gather ins states tw =
     (if ts_hasCloseWait ins then gatherViaNetlink ins states
      else if ts_hasTimeWait ins then gatherViaSockstat ins tw else [])"

section \<open>Reboots\<close>

definition opt_part :: "int \<Rightarrow> string \<Rightarrow> string" where
  "opt_part n u = (if n > 0 then '' '' @ show_int n @ u else [])"

definition humanDuration :: "duration \<Rightarrow> string" where
  "humanDuration d =
     (let total = \<bar>d\<bar> div Second; days = total div 86400; hours = total mod 86400 div 3600;
          minutes = total mod 3600 div 60; seconds = total mod 60
      in if days > 0 then show_int days @ ''d'' @ opt_part hours ''h'' @ opt_part minutes ''m''
         else if hours > 0 then show_int hours @ ''h'' @ opt_part minutes ''m'' @ opt_part seconds ''s''
         else if minutes > 0 then show_int minutes @ ''m'' @ opt_part seconds ''s''
         else show_int seconds @ ''s'')"

record uptime_Instance =
  up_WarnLt :: duration
  up_CriticalLt :: duration

definition uptime_Init :: "uptime_Instance \<Rightarrow> string + unit" where
  "uptime_Init ins =
     refuse (up_WarnLt ins > 0 \<and> up_CriticalLt ins > 0 \<and> up_WarnLt ins \<le> up_CriticalLt ins)
       (''reboot_detected.warn_lt('' @ humanDuration (up_WarnLt ins) @ '') must be greater than reboot_detected.critical_lt('' @
        humanDuration (up_CriticalLt ins) @ '')'')"

text \<open>\<open>boot\<close> is the formatted boot time, when the system gives one. The multiplication of \<^verbatim>\<open>time.Duration\<close> wraps.\<close>

definition uptime_Gather :: "string + nat \<Rightarrow> string option \<Rightarrow> uptime_Instance \<Rightarrow> Event list" where
  "uptime_Gather reading boot ins =
     (let c = up_CriticalLt ins; w = up_WarnLt ins; base = check_event ''uptime::reboot_detected'' ''system'' in
      if c = 0 \<and> w = 0 then []
      else case reading of
        Inl e \<Rightarrow> [alert_with EventStatusCritical (''failed to get system uptime: '' @ e) base]
      | Inr secs \<Rightarrow>
          let up = i64 (i64 (int secs) * Second);
              attrs = [(''uptime'', humanDuration up), (''uptime_seconds'', show_nat secs)] @
                (case boot of Some b \<Rightarrow> [(''boot_time'', b)] | None \<Rightarrow> []) @
                (if c > 0 \<or> w > 0 then [(''threshold_desc'', join '', ''
                   ((if w > 0 then [''Warning < '' @ humanDuration w] else []) @ (if c > 0 then [''Critical < '' @ humanDuration c] else [])))] else []);
              event = SetAttrs attrs base
          in if c > 0 \<and> up < c then [alert_with EventStatusCritical
                 (''system uptime '' @ humanDuration up @ '', rebooted within critical threshold '' @ humanDuration c) event]
             else if w > 0 \<and> up < w then [alert_with EventStatusWarning
                 (''system uptime '' @ humanDuration up @ '', rebooted within warning threshold '' @ humanDuration w) event]
             else [SetDescription (''system uptime '' @ humanDuration up @ '', everything is ok'') event])"

section \<open>Zombie processes\<close>

record zombie_Instance =
  zo_WarnGt :: "int option"
  zo_CriticalGt :: "int option"

definition zombie_Init :: "zombie_Instance \<Rightarrow> string + unit" where
  "zombie_Init ins =
     (let w = zo_WarnGt ins; c = zo_CriticalGt ins; val = case_option 0 id in
      sbind (refuse (w = None \<and> c = None) ''at least one threshold must be configured (warn_gt or critical_gt)'') (\<lambda>_.
      sbind (refuse (w \<noteq> None \<and> val w < 0) (''warn_gt must be non-negative (got '' @ show_int (val w) @ '')'')) (\<lambda>_.
      sbind (refuse (c \<noteq> None \<and> val c < 0) (''critical_gt must be non-negative (got '' @ show_int (val c) @ '')'')) (\<lambda>_.
      refuse (w \<noteq> None \<and> c \<noteq> None \<and> val w > val c) (''warn_gt('' @ show_int (val w) @ '') must be <= critical_gt('' @ show_int (val c) @ '')'')))))"

text \<open>The states of each process, or an error when it is gone.\<close>

definition countZombieProcesses :: "string + (string + string list) list \<Rightarrow> string + nat" where
  "countZombieProcesses procs =
     map_sum id (\<lambda>ps. length (filter (\<lambda>p. case p of Inl _ \<Rightarrow> False | Inr states \<Rightarrow> ''Z'' \<in> set states) ps)) procs"

definition zombie_Gather :: "string + (string + string list) list \<Rightarrow> zombie_Instance \<Rightarrow> Event list" where
  "zombie_Gather procs ins =
     (let base = check_event ''zombie::count'' ''system'' in
      case countZombieProcesses procs of
        Inl e \<Rightarrow> [alert_with EventStatusCritical (''failed to count zombie processes: '' @ e) base]
      | Inr n \<Rightarrow>
          let parts = (case zo_WarnGt ins of Some w \<Rightarrow> [''Warning > '' @ show_int w] | None \<Rightarrow> []) @
                (case zo_CriticalGt ins of Some c \<Rightarrow> [''Critical > '' @ show_int c] | None \<Rightarrow> []);
              attrs = [(''zombie_count'', show_nat n)] @ (if parts = [] then [] else [(''threshold_desc'', join '', '' parts)]);
              event = SetCurrentValue (show_nat n) (SetAttrs attrs base);
              what = ''zombie process count '' @ show_nat n
          in case (zo_CriticalGt ins, zo_WarnGt ins) of
               (Some c, w) \<Rightarrow>
                 if int n > c then [alert_with EventStatusCritical (what @ '' > critical threshold '' @ show_int c) event]
                 else (case w of
                         Some w \<Rightarrow> if int n > w then [alert_with EventStatusWarning (what @ '' > warning threshold '' @ show_int w) event]
                           else [SetDescription (what @ '', everything is ok'') event]
                       | None \<Rightarrow> [SetDescription (what @ '', everything is ok'') event])
             | (None, Some w) \<Rightarrow>
                 if int n > w then [alert_with EventStatusWarning (what @ '' > warning threshold '' @ show_int w) event]
                 else [SetDescription (what @ '', everything is ok'') event]
             | (None, None) \<Rightarrow> [SetDescription (what @ '', everything is ok'') event])"

section \<open>Identity of the host\<close>

record CheckConfig =
  cc_Enabled :: bool
  cc_Severity :: string

record hostident_Instance =
  hi_HostnameChanged :: CheckConfig
  hi_IPChanged :: CheckConfig
  hi_baseHostname :: string
  hi_baseIP :: string
  hi_hostSeverity :: string
  hi_ipSeverity :: string

definition parseSeverity :: "(string \<Rightarrow> string) \<Rightarrow> string \<Rightarrow> string + string" where
  "parseSeverity quote raw =
     (if raw = [] then Inr EventStatusWarning
      else if to_lower raw = ''critical'' then Inr EventStatusCritical
      else if to_lower raw = ''warning'' then Inr EventStatusWarning
      else if to_lower raw = ''info'' then Inr EventStatusInfo
      else Inl (''unsupported severity '' @ quote raw @ '', must be Critical, Warning, or Info''))"

definition hostident_Init :: "(string \<Rightarrow> string) \<Rightarrow> string + string \<Rightarrow> string \<Rightarrow> hostident_Instance \<Rightarrow> string + hostident_Instance" where
  "hostident_Init quote hostname ip ins =
     sbind (if cc_Enabled (hi_HostnameChanged ins) then
              case parseSeverity quote (cc_Severity (hi_HostnameChanged ins)) of
                Inl e \<Rightarrow> Inl (''hostident: hostname_changed.severity: '' @ e)
              | Inr sev \<Rightarrow>
                  (case hostname of
                     Inl e \<Rightarrow> Inl (''hostident: failed to get baseline hostname: '' @ e)
                   | Inr h \<Rightarrow> Inr (ins\<lparr>hi_hostSeverity := sev, hi_baseHostname := h\<rparr>))
            else Inr ins) (\<lambda>ins.
     if cc_Enabled (hi_IPChanged ins) then
       case parseSeverity quote (cc_Severity (hi_IPChanged ins)) of
         Inl e \<Rightarrow> Inl (''hostident: ip_changed.severity: '' @ e)
       | Inr sev \<Rightarrow>
           if ip = [] then Inl ''hostident: failed to detect baseline IP address''
           else Inr (ins\<lparr>hi_ipSeverity := sev, hi_baseIP := ip\<rparr>)
     else Inr ins)"

definition checkHostname :: "(string \<Rightarrow> string) \<Rightarrow> string + string \<Rightarrow> hostident_Instance \<Rightarrow> Event" where
  "checkHostname quote hostname ins =
     (let event = check_event ''hostident::hostname_changed'' ''system'' in
      case hostname of
        Inl e \<Rightarrow> SetAttrs [(''baseline'', hi_baseHostname ins)] (alert_with (hi_hostSeverity ins) (''failed to get hostname: '' @ e) event)
      | Inr current \<Rightarrow>
          let attrs = [(''baseline'', hi_baseHostname ins), (''current'', current)] in
          if current \<noteq> hi_baseHostname ins then
            SetAttrs attrs (alert_with (hi_hostSeverity ins) (''hostname changed from '' @ quote (hi_baseHostname ins) @ '' to '' @ quote current @
              '' since catpaw started, consider restarting catpaw'') event)
          else SetAttrs attrs (SetDescription (''hostname '' @ quote current @ '' unchanged'') event))"

definition checkIP :: "string \<Rightarrow> hostident_Instance \<Rightarrow> Event" where
  "checkIP current ins =
     (let event = check_event ''hostident::ip_changed'' ''system''; attrs = [(''baseline'', hi_baseIP ins), (''current'', current)] in
      if current = [] then SetAttrs attrs (alert_with (hi_ipSeverity ins) ''failed to detect current IP address'' event)
      else if current \<noteq> hi_baseIP ins then
        SetAttrs attrs (alert_with (hi_ipSeverity ins) (''IP changed from '' @ hi_baseIP ins @ '' to '' @ current @
          '' since catpaw started, consider restarting catpaw'') event)
      else SetAttrs attrs (SetDescription (''IP '' @ current @ '' unchanged'') event))"

definition hostident_Gather :: "(string \<Rightarrow> string) \<Rightarrow> string + string \<Rightarrow> string \<Rightarrow> hostident_Instance \<Rightarrow> Event list" where
  "hostident_Gather quote hostname ip ins =
     (if cc_Enabled (hi_HostnameChanged ins) then [checkHostname quote hostname ins] else []) @
     (if cc_Enabled (hi_IPChanged ins) then [checkIP ip ins] else [])"


section \<open>The contract of a threshold check\<close>

lemma with_parts_fields [simp]:
  "Labels (with_parts ps e) = Labels e" "EventStatus (with_parts ps e) = EventStatus e" "Description (with_parts ps e) = Description e"
  "ev_check (with_parts ps e) = ev_check e" "ev_of (with_parts ps e) = ev_of e"
  by (simp_all add: with_parts_def ev_check_def ev_of_def)

lemma above_fields [simp]:
  "ev_check (above t v d e) = ev_check e" "ev_of (above t v d e) = ev_of e"
  "EventStatus e = EventStatusOk \<Longrightarrow> EventStatus (above t v d e) = th_status t v"
  by (simp_all add: above_def Let_def)

lemma rated_fields [simp]:
  "ev_check (rated t v dc dw dk e) = ev_check e" "ev_of (rated t v dc dw dk e) = ev_of e" "EventStatus (rated t v dc dw dk e) = th_status t v"
  by (simp_all add: rated_def Let_def)

lemma th_status_ok: "th_status t v = EventStatusOk \<longleftrightarrow>
    \<not> (th_CriticalGe t > 0 \<and> v \<ge> th_CriticalGe t) \<and> \<not> (th_WarnGe t > 0 \<and> v \<ge> th_WarnGe t)"
  by (simp add: th_status_def EvaluateGeThreshold_def status_defs)

lemma th_status_mono: "v \<le> v' \<Longrightarrow> SeverityRank (th_status t v) \<le> SeverityRank (th_status t v')"
  by (auto simp: th_status_def EvaluateGeThreshold_def SeverityRank_def status_defs)

text \<open>A check reports a reading when it pushes one event of its name and target with the status the thresholds give.\<close>

definition reports :: "string \<Rightarrow> string \<Rightarrow> string \<Rightarrow> Event list \<Rightarrow> bool" where
  "reports check target status es \<longleftrightarrow> (\<exists>e. es = [e] \<and> is_event target check e \<and> EventStatus e = status)"

lemma owed_reports:
  "reports check target status es \<Longrightarrow> owed check target (q @ es) \<longleftrightarrow> status \<noteq> EventStatusOk"
  by (auto simp: reports_def is_event_def owed_push)

locale threshold_check =
  fixes gather_one :: "'m \<Rightarrow> Event list" and reading :: "'m \<Rightarrow> real option" and limits :: threshold and check target :: string
  assumes reported: "reading m = Some v \<Longrightarrow> reports check target (th_status limits v) (gather_one m)"
begin

text \<open>After a sequence of readable gathers the alert is raised exactly when the last reading is above a threshold.\<close>

lemma follows_last:
  assumes "reading m = Some v"
  shows "owed check target (q @ concat (map gather_one ms) @ gather_one m) \<longleftrightarrow> th_status limits v \<noteq> EventStatusOk"
  using owed_reports [OF reported [OF assms], of "q @ concat (map gather_one ms)"] by simp

lemma recovers:
  assumes "reading m = Some v" "v < th_WarnGe limits \<or> th_WarnGe limits \<le> 0" "v < th_CriticalGe limits \<or> th_CriticalGe limits \<le> 0"
  shows "\<not> owed check target (q @ gather_one m)"
  using follows_last [OF assms(1), of q "[]"] assms(2,3) by (auto simp: th_status_ok)

lemma severity_mono:
  assumes "reading m = Some v" "reading m' = Some v'" "v \<le> v'"
  shows "SeverityRank (EventStatus (hd (gather_one m))) \<le> SeverityRank (EventStatus (hd (gather_one m')))"
  using reported [OF assms(1)] reported [OF assms(2)] th_status_mono [OF assms(3)] by (auto simp: reports_def)

end

text \<open>The checks of both theories with the reading each compares.\<close>

definition memory_reading :: "mem_Instance \<Rightarrow> string + virtual_memory \<Rightarrow> real option" where
  "memory_reading ins r = (case r of Inr vm \<Rightarrow> if th_off (mi_MemoryUsage ins) then None else Some (vm_UsedPercent vm) | Inl _ \<Rightarrow> None)"

interpretation memory: threshold_check "checkMemoryUsage ins" "memory_reading ins" "mi_MemoryUsage ins" "''mem::memory_usage''" "''memory''" for ins
  by unfold_locales (auto simp: memory_reading_def checkMemoryUsage_def reports_def is_event_def Let_def split: sum.splits if_splits)

definition swap_reading :: "mem_Instance \<Rightarrow> string + swap_memory \<Rightarrow> real option" where
  "swap_reading ins r = (case r of Inr sw \<Rightarrow> if th_off (mi_SwapUsage ins) \<or> sw_Total sw = 0 then None else Some (sw_UsedPercent sw) | Inl _ \<Rightarrow> None)"

interpretation swap: threshold_check "checkSwapUsage ins" "swap_reading ins" "mi_SwapUsage ins" "''mem::swap_usage''" "''memory''" for ins
  by unfold_locales (auto simp: swap_reading_def checkSwapUsage_def reports_def is_event_def Let_def split: sum.splits if_splits)

definition cpu_reading :: "cpu_Instance \<Rightarrow> string + real list \<Rightarrow> real option" where
  "cpu_reading ins r = (case r of Inr (u # _) \<Rightarrow> if th_off (ci_CpuUsage ins) then None else Some u | _ \<Rightarrow> None)"

interpretation cpu: threshold_check "checkCpuUsage ins" "cpu_reading ins" "ci_CpuUsage ins" "''cpu::cpu_usage''" "''cpu''" for ins
  by unfold_locales (auto simp: cpu_reading_def checkCpuUsage_def reports_def is_event_def Let_def split: sum.splits if_splits list.splits)

definition load_reading :: "cpu_Instance \<Rightarrow> string + load_avg \<Rightarrow> real option" where
  "load_reading ins r =
     (case r of Inr avg \<Rightarrow> if th_off (ci_LoadAverage ins) then None else Some (raw_load (ci_Period ins) avg / real_of_int (ci_cpuCores ins)) | Inl _ \<Rightarrow> None)"

interpretation load: threshold_check "checkLoadAverage ins" "load_reading ins" "ci_LoadAverage ins" "''cpu::load_average''" "''cpu''" for ins
  by unfold_locales (auto simp: load_reading_def checkLoadAverage_def reports_def is_event_def Let_def split: sum.splits if_splits)

definition table_reading :: "threshold \<Rightarrow> string + (nat \<times> nat) option \<Rightarrow> real option" where
  "table_reading t r = (case r of Inr (Some (n, limit)) \<Rightarrow> if th_off t \<or> limit = 0 then None else Some (table_percent n limit) | _ \<Rightarrow> None)"

lemma table_reports: "table_reading t r = Some v \<Longrightarrow> reports (tt_check x) ''system'' (th_status t v) (table_gather x t r)"
  by (auto simp: table_reading_def table_gather_def table_event_def reports_def is_event_def Let_def split: sum.splits if_splits option.splits prod.splits)

interpretation conntrack: threshold_check "\<lambda>rd. conntrack_Gather quote rd t" "\<lambda>rd. table_reading t (readConntrackFiles quote rd)" t
  "''conntrack::conntrack_usage''" "''system''" for quote t
  by unfold_locales (use table_reports [of t _ _ conntrack_texts] in \<open>simp add: conntrack_Gather_def conntrack_texts_def\<close>)

interpretation neigh: threshold_check "\<lambda>rd. neigh_Gather quote rd t" "\<lambda>rd. table_reading t (map_sum id Some (readNeighData quote rd))" t
  "''neigh::neigh_usage''" "''system''" for quote t
  by unfold_locales (use table_reports [of t _ _ neigh_texts] in \<open>simp add: neigh_Gather_def neigh_texts_def\<close>)

interpretation filefd: threshold_check "\<lambda>rd. filefd_Gather quote rd t" "\<lambda>rd. table_reading t (map_sum id Some (readFileNr quote rd))" t
  "''filefd::filefd_usage''" "''system''" for quote t
  by unfold_locales (use table_reports [of t _ _ filefd_texts] in \<open>simp add: filefd_Gather_def filefd_texts_def\<close>)

definition time_wait_reading :: "tcpstate_Instance \<Rightarrow> string + nat \<Rightarrow> real option" where
  "time_wait_reading ins r =
     (case r of Inr n \<Rightarrow> if \<not> ts_hasCloseWait ins \<and> ts_hasTimeWait ins then Some (real (float64_of_nat n)) else None | Inl _ \<Rightarrow> None)"

interpretation time_wait: threshold_check "tcpstate_Gather ins states" "time_wait_reading ins" "ts_TimeWait ins" "''tcpstate::time_wait''" "''system''"
  for ins states
  by unfold_locales
    (auto simp: time_wait_reading_def tcpstate_Gather_def gatherViaSockstat_def emitStateEvent_def reports_def is_event_def Let_def split: sum.splits if_splits)


section \<open>Properties\<close>


definition sample_swap :: "mem_Instance" where
  "sample_swap = \<lparr>mi_MemoryUsage = \<lparr>th_WarnGe = 0, th_CriticalGe = 0\<rparr>, mi_SwapUsage = \<lparr>th_WarnGe = 50, th_CriticalGe = 0\<rparr>\<rparr>"

definition swap_used :: "real \<Rightarrow> string + swap_memory" where
  "swap_used p = Inr \<lparr>sw_Total = 100, sw_Used = 0, sw_Free = 0, sw_UsedPercent = p\<rparr>"


text \<open>A reading that does not come keeps the alert: swap space that is turned off, and a connection tracking module that is
  unloaded, are passed over without an event.\<close>

theorem silent_reading_keeps_alert:
  "owed check target (q @ checkSwapUsage mi (Inr \<lparr>sw_Total = 0, sw_Used = 0, sw_Free = 0, sw_UsedPercent = 0\<rparr>)) = owed check target q"
  "owed check target (q @ conntrack_Gather quote (\<lambda>_. FMissing e) t) = owed check target q"
  by (simp_all add: checkSwapUsage_def conntrack_Gather_def readConntrackFiles_def conntrackPaths_def table_gather_def Let_def)

text \<open>New overflows below the thresholds are described as none.\<close>

theorem overflow_denied:
  "Description (overflow_event \<lparr>th_WarnGe = 10, th_CriticalGe = 0\<rparr> 3 7 0) = ''no new listen overflows (total: 7), everything is ok''"
  by code_simp

text \<open>A failed netlink query reports on one of the two checks only.\<close>

theorem netlink_error_hides_time_wait:
  "ts_hasCloseWait ti \<Longrightarrow> map ev_check (tcpstate_Gather ti (Inl e) tw) = [''tcpstate::close_wait'']"
  by (simp add: tcpstate_Gather_def gatherViaNetlink_def buildErrorEvent_def)

text \<open>The netlink query counts every socket of the answer, and only those: with the messages of the datagrams before the end
  of the dump put together, each state is counted as often as it occurs.\<close>

definition socket_state :: "nat \<times> string \<Rightarrow> nat" where
  "socket_state m = (if length (snd m) \<ge> 2 then of_char (snd m ! 1) else 0)"

definition states_of :: "nat \<Rightarrow> (nat \<times> string) list \<Rightarrow> nat" where
  "states_of st ms = length (filter (\<lambda>m. socket_state m = st) ms)"

definition plain_message :: "nat \<times> string \<Rightarrow> bool" where
  "plain_message m \<longleftrightarrow> fst m \<noteq> 2 \<and> fst m \<noteq> 3"

lemma count_states:
  "sc_established (count_state data c) = sc_established c + states_of 1 [(n, data)]"
  "sc_closeWait (count_state data c) = sc_closeWait c + states_of 8 [(n, data)]"
  "sc_timeWait (count_state data c) = sc_timeWait c + states_of 6 [(n, data)]"
  by (simp_all add: count_state_def states_of_def socket_state_def Let_def)

lemma nl_messages_count:
  assumes "list_all plain_message ms" "nl_messages (ms @ rest) c = (c', r)"
  shows "\<exists>c1. nl_messages rest c1 = (c', r) \<and> sc_established c1 = sc_established c + states_of 1 ms \<and>
    sc_closeWait c1 = sc_closeWait c + states_of 8 ms \<and> sc_timeWait c1 = sc_timeWait c + states_of 6 ms"
  using assms
proof (induction ms arbitrary: c)
  case Nil
  then show ?case by (intro exI [of _ c]) (simp add: states_of_def)
next
  case (Cons m ms)
  obtain n data where m: "m = (n, data)" by fastforce
  have "states_of st (m # ms) = states_of st [m] + states_of st ms" for st by (simp add: states_of_def)
  then show ?case using Cons.IH [of "count_state data c"] Cons.prems count_states [of data c n] by (simp add: m plain_message_def add.assoc)
qed


theorem netlink_counts_exact:
  assumes "list_all (list_all plain_message) mss" "list_all plain_message ms" "list_all (\<lambda>n. n \<ge> 16) (n # ns)" "length ns = length mss"
    "nl_receive timeout (map2 (\<lambda>n ms. Inr (n, Inr ms)) ns mss @ Inr (n, Inr (ms @ (3, d) # junk)) # ds) c = (c', e, rest)"
  shows "e = None \<and> rest = ds \<and> sc_established c' = sc_established c + states_of 1 (concat mss @ ms) \<and>
    sc_closeWait c' = sc_closeWait c + states_of 8 (concat mss @ ms) \<and> sc_timeWait c' = sc_timeWait c + states_of 6 (concat mss @ ms)"
  using assms(4,1,3,5)
proof (induction ns mss arbitrary: c rule: list_induct2)
  case Nil
  obtain c1 r1 where m: "nl_messages (ms @ (3, d) # junk) c = (c1, r1)" by fastforce
  from nl_messages_count [OF assms(2) m] show ?case using Nil.prems m by auto
next
  case (Cons k ns x mss)
  obtain c1 r1 where m: "nl_messages x c = (c1, r1)" by fastforce
  then have r: "r1 = None" "sc_established c1 = sc_established c + states_of 1 x" "sc_closeWait c1 = sc_closeWait c + states_of 8 x"
      "sc_timeWait c1 = sc_timeWait c + states_of 6 x"
    using nl_messages_count [of x "[]" c c1 r1] Cons.prems by auto
  have app: "states_of st (xs @ ys) = states_of st xs + states_of st ys" for st xs ys by (simp add: states_of_def)
  show ?case using Cons.IH [of c1] Cons.prems m r by (simp add: app)
qed

end
