(* ===== verification/Disk.thy ===== *)
theory Disk
  imports Host_Metrics Gather_Hung
begin

text \<open>
  \<^verbatim>\<open>plugins/disk/disk.go\<close>: the set-up, the choice of mount points, the three checks of a mount point and the driver of theory
  \<open>Gather_Hung\<close> on them. The mount table, \<^verbatim>\<open>disk.Usage\<close> and the operations on the test file are arguments.
\<close>

section \<open>Model\<close>

record WritableCheck =
  wc_Severity :: string
  wc_TestFile :: string

record disk_Instance =
  di_MountPoints :: "string list"
  di_IgnoreMountPoints :: "string list"
  di_IgnoreFSTypes :: "string list"
  di_SpaceUsage :: threshold
  di_InodeUsage :: threshold
  di_Writable :: WritableCheck
  di_Concurrency :: int
  di_GatherTimeout :: duration
  di_mountFilter :: "Filter option"

definition disk_Init :: "compilers \<Rightarrow> disk_Instance \<Rightarrow> string + disk_Instance" where
  "disk_Init cs ins =
     (let ins = (if di_Concurrency ins = 0 then ins\<lparr>di_Concurrency := 10\<rparr> else ins);
          ins = (if di_GatherTimeout ins = 0 then ins\<lparr>di_GatherTimeout := 10 * Second\<rparr> else ins);
          ins = (if wc_Severity (di_Writable ins) \<noteq> [] \<and> wc_TestFile (di_Writable ins) = []
                 then ins\<lparr>di_Writable := (di_Writable ins)\<lparr>wc_TestFile := ''.catpaw_disk_check''\<rparr>\<rparr> else ins)
      in sbind (th_order (fmt_fixed 1) ''space_usage'' (di_SpaceUsage ins)) (\<lambda>_.
         sbind (th_order (fmt_fixed 1) ''inode_usage'' (di_InodeUsage ins)) (\<lambda>_.
         case NewIncludeExcludeFilter cs (di_MountPoints ins) (di_IgnoreMountPoints ins) of
           Inl e \<Rightarrow> Inl (''failed to compile mount point filter: '' @ e)
         | Inr f \<Rightarrow> Inr (ins\<lparr>di_mountFilter := Some f\<rparr>))))"

text \<open>\<^verbatim>\<open>strings.EqualFold\<close> on ASCII names.\<close>

definition isIgnoredFSType :: "disk_Instance \<Rightarrow> string \<Rightarrow> bool" where
  "isIgnoredFSType ins fsType \<longleftrightarrow> (\<exists>ignored \<in> set (di_IgnoreFSTypes ins). to_lower ignored = to_lower fsType)"

record partition =
  pa_Mountpoint :: string
  pa_Device :: string
  pa_Fstype :: string

definition disk_targets :: "disk_Instance \<Rightarrow> partition list \<Rightarrow> partition list" where
  "disk_targets ins ps =
     filter (\<lambda>p. \<not> isIgnoredFSType ins (pa_Fstype p) \<and> (case di_mountFilter ins of None \<Rightarrow> True | Some f \<Rightarrow> Match f (pa_Mountpoint p))) ps"

record disk_usage =
  du_Total :: nat
  du_Used :: nat
  du_Free :: nat
  du_UsedPercent :: real
  du_InodesTotal :: nat
  du_InodesUsed :: nat
  du_InodesFree :: nat
  du_InodesUsedPercent :: real

definition mount_event :: "string \<Rightarrow> partition \<Rightarrow> Event" where
  "mount_event check p = SetAttrs [(''device'', pa_Device p), (''fs_type'', pa_Fstype p)] (check_event check (pa_Mountpoint p))"

text \<open>Both usage checks compare a percentage, critical first.\<close>

definition usage_event :: "threshold \<Rightarrow> string \<Rightarrow> real \<Rightarrow> Event \<Rightarrow> Event" where
  "usage_event t what v event =
     (let event = with_parts (th_parts (pct 1) t) event in
      if th_CriticalGe t > 0 \<and> v \<ge> th_CriticalGe t
      then alert_with EventStatusCritical (what @ '' '' @ pct 1 v @ '' >= critical threshold '' @ pct 1 (th_CriticalGe t)) event
      else if th_WarnGe t > 0 \<and> v \<ge> th_WarnGe t
      then alert_with EventStatusWarning (what @ '' '' @ pct 1 v @ '' >= warning threshold '' @ pct 1 (th_WarnGe t)) event
      else event)"

definition checkUsage :: "disk_Instance \<Rightarrow> partition \<Rightarrow> disk_usage \<Rightarrow> Event list" where
  "checkUsage ins p u =
     (if th_off (di_SpaceUsage ins) then []
      else [usage_event (di_SpaceUsage ins) ''disk usage'' (du_UsedPercent u)
              (SetDescription everything_ok (SetCurrentValue (pct 1 (du_UsedPercent u))
                (SetAttrs [(''total'', human (du_Total u)), (''used'', human (du_Used u)), (''available'', human (du_Free u)),
                   (''used_percent'', pct 1 (du_UsedPercent u))] (mount_event ''disk::space_usage'' p))))])"

definition checkInodes :: "disk_Instance \<Rightarrow> partition \<Rightarrow> disk_usage \<Rightarrow> Event list" where
  "checkInodes ins p u =
     (if du_InodesTotal u = 0 then []
      else if th_off (di_InodeUsage ins) then []
      else [usage_event (di_InodeUsage ins) ''inode usage'' (du_InodesUsedPercent u)
              (SetDescription everything_ok (SetCurrentValue (pct 1 (du_InodesUsedPercent u))
                (SetAttrs [(''inodes_total'', show_nat (du_InodesTotal u)), (''inodes_used'', show_nat (du_InodesUsed u)),
                   (''inodes_free'', show_nat (du_InodesFree u)), (''inodes_used_percent'', pct 1 (du_InodesUsedPercent u))]
                   (mount_event ''disk::inode_usage'' p))))])"

text \<open>The test file: whether writing it fails (the text of the error, and whether it is a permission error), what is read
  back, and the content that was written.\<close>

record write_test =
  wt_write :: "(string \<times> bool) option"
  wt_read :: "string + string"
  wt_content :: string

definition classifyWriteError :: "string \<Rightarrow> bool \<Rightarrow> string" where
  "classifyWriteError e permission =
     (if permission \<or> contains_text e ''permission denied'' then ''permission denied (catpaw process lacks write access): '' @ e
      else if contains_text e ''read-only file system'' then ''read-only file system: '' @ e
      else if contains_text e ''no space left'' then ''no space left on device: '' @ e
      else ''write failed (possible disk fault): '' @ e)"

definition checkWritable :: "disk_Instance \<Rightarrow> partition \<Rightarrow> write_test \<Rightarrow> Event" where
  "checkWritable ins p w =
     (let event = mount_event ''disk::writable'' p; sev = wc_Severity (di_Writable ins) in
      case wt_write w of
        Some (e, permission) \<Rightarrow> alert_with sev (classifyWriteError e permission) event
      | None \<Rightarrow>
          (case wt_read w of
             Inl e \<Rightarrow> alert_with sev (''write succeeded but read-back failed: '' @ e) event
           | Inr back \<Rightarrow>
               if back \<noteq> wt_content w
               then alert_with sev ''write succeeded but read-back content mismatch (possible data corruption)'' event
               else SetDescription ''read-write test passed'' event))"

definition gatherMountPoint :: "disk_Instance \<Rightarrow> partition \<Rightarrow> string + disk_usage \<Rightarrow> write_test \<Rightarrow> Event list" where
  "gatherMountPoint ins p usage w =
     (case usage of
        Inl e \<Rightarrow> [alert_with EventStatusCritical (''failed to get disk usage: '' @ e) (mount_event ''disk::space_usage'' p)]
      | Inr u \<Rightarrow>
          checkUsage ins p u @ checkInodes ins p u @
          (if wc_Severity (di_Writable ins) \<noteq> [] then [checkWritable ins p w] else []))"

text \<open>The world of a goroutine: its entry of the mount table, what the system answers, and a panic of \<^verbatim>\<open>disk.Usage\<close>, its first call.\<close>

datatype disk_world = DiskWorld partition "string + disk_usage" write_test "string option"

fun disk_goroutine :: "disk_world \<Rightarrow> string \<Rightarrow> disk_Instance \<Rightarrow> Event list \<times> disk_Instance" where
  "disk_goroutine (DiskWorld p usage w None) mp ins = (gatherMountPoint ins (p\<lparr>pa_Mountpoint := mp\<rparr>) usage w, ins)"
| "disk_goroutine (DiskWorld p usage w (Some r)) mp ins =
     ([alert_with EventStatusCritical (''panic during check: '' @ r) (check_event ''disk::space_usage'' mp)], ins)"

definition disk_hung_event :: "string \<Rightarrow> int \<Rightarrow> Event" where
  "disk_hung_event mp elapsed =
     alert_with EventStatusCritical (''disk check hung for '' @ show_int elapsed @ '' seconds (possible NFS/network disk issue)'')
       (SetAttrs [(''elapsed_seconds'', show_int elapsed)] (check_event ''disk::hung'' mp))"

definition disk_recovery_event :: "string \<Rightarrow> Event" where
  "disk_recovery_event mp = SetDescription ''disk check recovered from hung state'' (check_event ''disk::hung'' mp)"

text \<open>A gather visits the selected entries of some mount table; when the table cannot be read it only reports that.\<close>

definition disk_plugin :: "disk_Instance \<Rightarrow> (disk_world, disk_Instance) hung_plugin" where
  "disk_plugin ins =
     \<lparr>hp_targets = (\<lambda>ts. \<exists>ps. ts = map pa_Mountpoint (disk_targets ins ps)), hp_concurrency = di_Concurrency ins,
      hp_timeout = di_GatherTimeout ins, hp_hung = disk_hung_event, hp_recovered = disk_recovery_event, hp_work = disk_goroutine\<rparr>"

definition partitions_failed :: "string \<Rightarrow> Event" where
  "partitions_failed e = alert_with EventStatusCritical (''failed to get disk partitions: '' @ e) (check_event ''disk::space_usage'' ''partitions'')"

section \<open>Facts\<close>

lemma mount_event_labels [simp]: "ev_check (mount_event check p) = check" "ev_of (mount_event check p) = pa_Mountpoint p"
  "EventStatus (mount_event check p) = EventStatusOk"
  by (simp_all add: mount_event_def)

lemma usage_event_fields [simp]:
  "ev_check (usage_event t w v e) = ev_check e" "ev_of (usage_event t w v e) = ev_of e"
  "EventStatus e = EventStatusOk \<Longrightarrow> EventStatus (usage_event t w v e) = th_status t v"
  by (simp_all add: usage_event_def with_parts_def ev_check_def ev_of_def th_status_def EvaluateGeThreshold_def Let_def)

lemma checkWritable_labels [simp]: "ev_check (checkWritable ins p w) = ''disk::writable''" "ev_of (checkWritable ins p w) = pa_Mountpoint p"
  by (simp_all add: checkWritable_def Let_def split: option.split sum.split prod.split)

lemma disk_goroutine_quiet: "e \<in> set (fst (disk_goroutine w mp ins)) \<Longrightarrow> ev_check e \<noteq> ''disk::hung''"
proof (cases w)
  case (DiskWorld p usage t r)
  then show "e \<in> set (fst (disk_goroutine w mp ins)) \<Longrightarrow> ev_check e \<noteq> ''disk::hung''"
    by (cases r) (auto simp: gatherMountPoint_def checkUsage_def checkInodes_def split: sum.splits if_splits)
qed

interpretation disk: hung_reporter "disk_plugin ins" "''disk::hung''" for ins
  by unfold_locales (auto simp: disk_plugin_def disk_hung_event_def disk_recovery_event_def status_defs dest: disk_goroutine_quiet)

text \<open>What a gather of a mount point reports: an unreadable file system is one critical event, and otherwise one event for every check
  that is configured and applies, in their order.\<close>

lemma mount_point_checks:
  "map ev_check (gatherMountPoint ins p (Inr u) w) =
     (if th_off (di_SpaceUsage ins) then [] else [''disk::space_usage'']) @
     (if du_InodesTotal u = 0 \<or> th_off (di_InodeUsage ins) then [] else [''disk::inode_usage'']) @
     (if wc_Severity (di_Writable ins) = [] then [] else [''disk::writable''])"
  by (simp add: gatherMountPoint_def checkUsage_def checkInodes_def)

theorem disk_hung_recovers:
  assumes "hung_reach (disk_plugin ins) prompt s" "hs_phase s = Looping (t # ts)" "map_of (hs_inFlight s) t = None"
    "hung_next (disk_plugin ins) GPass s = Some s'"
  shows "\<not> owed ''disk::hung'' t (hs_queue s')"
  using disk.pass_settles [OF assms] .

end
