(* ===== verification/Redis_Peer.thy ===== *)
theory Redis_Peer
  imports Redis_Checks
begin

text \<open>
  \<^verbatim>\<open>plugins/redis/peer.go\<close> and the tools of \<^verbatim>\<open>plugins/redis/diagnose.go\<close>: what the diagnosis may ask a Redis server and its cluster
  peers. A tool is a function of the accessor of the session, threaded through the calls; a panic of the
  protocol reader passes every handler. The time of a probe and whether its context is cancelled are arguments.
\<close>

section \<open>Calls\<close>

type_synonym 'a call = "RedisAccessor \<Rightarrow> (call_error + 'a) \<times> RedisAccessor"

definition ret :: "'a \<Rightarrow> 'a call" where
  "ret v a = (Inr v, a)"

definition fail :: "string \<Rightarrow> 'a call" where
  "fail e a = (Inl (CallErr e), a)"

text \<open>A call whose error the code looks at, and a call whose error is returned with a prefix.\<close>

definition attempt :: "'a call \<Rightarrow> (string + 'a \<Rightarrow> 'b call) \<Rightarrow> 'b call" where
  "attempt m f a =
     (case m a of
        (Inl (CallPanic p), a) \<Rightarrow> (Inl (CallPanic p), a)
      | (Inl (CallErr e), a) \<Rightarrow> f (Inl e) a
      | (Inr v, a) \<Rightarrow> f (Inr v) a)"

definition ask :: "string \<Rightarrow> 'a call \<Rightarrow> ('a \<Rightarrow> 'b call) \<Rightarrow> 'b call" where
  "ask what m f = attempt m (\<lambda>r. case r of Inl e \<Rightarrow> fail (what @ '': '' @ e) | Inr v \<Rightarrow> f v)"

section \<open>The nodes of a cluster\<close>

record clusterNodeEntry =
  ne_ID :: string
  ne_Address :: string
  ne_Flags :: "string list"
  ne_Role :: string
  ne_MasterID :: string
  ne_LinkState :: string
  ne_IsSelf :: bool
  ne_IsFail :: bool
  ne_IsPFail :: bool
  ne_IsNoAddr :: bool

text \<open>The role is the last of the two flags that occurs.\<close>

definition flag_role :: "string list \<Rightarrow> string" where
  "flag_role flags = (case rev (filter (\<lambda>f. f \<in> {''master'', ''slave''}) flags) of [] \<Rightarrow> ''unknown'' | r # _ \<Rightarrow> r)"

definition cut_at :: "char \<Rightarrow> string \<Rightarrow> string" where
  "cut_at d s = (case index_byte d s of None \<Rightarrow> s | Some i \<Rightarrow> take i s)"

definition cluster_node :: "string \<Rightarrow> clusterNodeEntry option" where
  "cluster_node line =
     (let line = trim_space line; fs = Fields line in
      if line = [] \<or> length fs < 8 then None
      else
        let addr = cut_at (CHR ''@'') (fs ! 1); flags = split_at (CHR '','') (fs ! 2); gone = (addr = '':0'' \<or> addr = []) in
        Some \<lparr>ne_ID = fs ! 0, ne_Address = (if gone then [] else addr), ne_Flags = flags, ne_Role = flag_role flags,
              ne_MasterID = fs ! 3, ne_LinkState = fs ! 7, ne_IsSelf = ''myself'' \<in> set flags, ne_IsFail = ''fail'' \<in> set flags,
              ne_IsPFail = (''fail?'' \<in> set flags \<or> ''pfail'' \<in> set flags), ne_IsNoAddr = (''noaddr'' \<in> set flags \<or> gone)\<rparr>)"

definition parseClusterNodes :: "string \<Rightarrow> clusterNodeEntry list" where
  "parseClusterNodes raw = List.map_filter cluster_node (split_at nl raw)"

definition maxProbePeers :: nat where "maxProbePeers = 20"

definition is_self :: "string \<Rightarrow> clusterNodeEntry \<Rightarrow> bool" where
  "is_self selfAddr n \<longleftrightarrow> ne_IsSelf n \<or> ne_Address n \<noteq> [] \<and> ne_Address n = selfAddr"

fun selfMasterID :: "clusterNodeEntry list \<Rightarrow> string \<Rightarrow> string" where
  "selfMasterID [] i = []"
| "selfMasterID (n # ns) i = (if ne_ID n = i then ne_MasterID n else selfMasterID ns i)"

text \<open>The three classes in the order they are probed. \<^verbatim>\<open>sort.Slice\<close> may permute nodes with the same identifier; node identifiers
  are unique in an answer of the server.\<close>

definition is_priority :: "clusterNodeEntry \<Rightarrow> bool" where
  "is_priority n \<longleftrightarrow> ne_IsFail n \<or> ne_IsPFail n"

definition is_related :: "clusterNodeEntry list \<Rightarrow> string \<Rightarrow> clusterNodeEntry \<Rightarrow> bool" where
  "is_related nodes self n \<longleftrightarrow> self \<noteq> [] \<and> (ne_MasterID n = self \<or> ne_ID n = selfMasterID nodes self)"

definition self_id :: "clusterNodeEntry list \<Rightarrow> string \<Rightarrow> string" where
  "self_id nodes selfAddr = (case filter (is_self selfAddr) nodes of [] \<Rightarrow> [] | n # _ \<Rightarrow> ne_ID n)"

definition byte_less :: "string \<Rightarrow> string \<Rightarrow> bool" where
  "byte_less a b \<longleftrightarrow> ord.lexordp_eq (\<lambda>c d. (of_char c :: nat) < of_char d) a b"

fun insert_by :: "('a \<Rightarrow> 'a \<Rightarrow> bool) \<Rightarrow> 'a \<Rightarrow> 'a list \<Rightarrow> 'a list" where
  "insert_by le x [] = [x]"
| "insert_by le x (y # ys) = (if le x y then x # y # ys else y # insert_by le x ys)"

definition sort_by :: "('a \<Rightarrow> 'a \<Rightarrow> bool) \<Rightarrow> 'a list \<Rightarrow> 'a list" where
  "sort_by le xs = foldr (insert_by le) xs []"

definition selectProbeCandidates :: "clusterNodeEntry list \<Rightarrow> string \<Rightarrow> clusterNodeEntry list \<times> clusterNodeEntry list" where
  "selectProbeCandidates nodes selfAddr =
     (let self = self_id nodes selfAddr;
          peers = filter (\<lambda>n. \<not> is_self selfAddr n) nodes;
          unprobeable = filter ne_IsNoAddr peers;
          live = filter (\<lambda>n. \<not> ne_IsNoAddr n) peers;
          priority = filter is_priority live;
          related = filter (\<lambda>n. \<not> is_priority n \<and> is_related nodes self n) live;
          others = sort_by (\<lambda>m n. byte_less (ne_ID m) (ne_ID n)) (filter (\<lambda>n. \<not> is_priority n \<and> \<not> is_related nodes self n) live)
      in (take maxProbePeers (priority @ related @ others), unprobeable))"

section \<open>Probing peers\<close>

record peerProbeResult =
  pr_NodeID :: string
  pr_Address :: string
  pr_Role :: string
  pr_Reachable :: bool
  pr_Latency :: duration
  pr_Error :: string
  pr_Snapshot :: string

definition classifyConnError :: "string \<Rightarrow> string" where
  "classifyConnError s =
     (if contains_text s ''connection refused'' then ''connection refused''
      else if contains_text s ''i/o timeout'' \<or> contains_text s ''deadline exceeded'' then ''timeout''
      else if contains_text s ''no route to host'' then ''no route to host''
      else if contains_text s ''connection reset'' then ''connection reset''
      else if contains_text s ''AUTH'' \<or> contains_text s ''NOAUTH'' \<or> contains_text s ''invalid password'' \<or>
        contains_text s ''WRONGPASS'' \<or> contains_text s ''username-password'' then ''auth failed''
      else if contains_text s ''context canceled'' then ''context cancelled''
      else if length s > 80 then take 80 s @ ''...'' else s)"

definition contextDialFunc :: "string option \<Rightarrow> (string \<Rightarrow> string + redis_conn) \<Rightarrow> string \<Rightarrow> string + redis_conn" where
  "contextDialFunc ctxErr base addr = (case ctxErr of Some e \<Rightarrow> Inl e | None \<Rightarrow> base addr)"

definition peer_config :: "redis_Instance \<Rightarrow> string \<Rightarrow> RedisAccessorConfig" where
  "peer_config ins addr = \<lparr>ac_Target = addr, ac_Username = rs_Username ins, ac_Password = rs_Password ins, ac_DB = 0\<rparr>"

definition positive :: "int field \<Rightarrow> int option" where
  "positive v = (case v of Val n \<Rightarrow> if n > 0 then Some n else None | _ \<Rightarrow> None)"

definition snap_memory :: "fmt_quote \<Rightarrow> info \<Rightarrow> string list" where
  "snap_memory q i =
     (case positive (infoGetInt64 q i ''used_memory'') of
        None \<Rightarrow> []
      | Some n \<Rightarrow>
          [''mem='' @ human_u64 n @
            (case positive (infoGetInt64 q i ''maxmemory'') of None \<Rightarrow> [] | Some m \<Rightarrow> ''/'' @ human_u64 m)])"

definition snap_field :: "string \<Rightarrow> string \<Rightarrow> info \<Rightarrow> string list" where
  "snap_field name key i = (case map_of i key of Some v \<Rightarrow> [name @ v] | None \<Rightarrow> [])"

definition snap_lag :: "fmt_quote \<Rightarrow> info \<Rightarrow> string list" where
  "snap_lag q i =
     (if m_str i ''role'' = ''slave'' then
        case (infoGetInt64 q i ''master_repl_offset'', infoGetInt64 q i ''slave_repl_offset'') of
          (Val m, Val s) \<Rightarrow> [''repl_lag='' @ show_int (i64 (m - s))]
        | _ \<Rightarrow> []
      else [])"

definition snap :: "fmt_quote \<Rightarrow> string \<Rightarrow> (info \<Rightarrow> string list) \<Rightarrow> (string list \<Rightarrow> 'a call) \<Rightarrow> 'a call" where
  "snap q sect f k = attempt (Info q sect) (\<lambda>r. k (case r of Inl _ \<Rightarrow> [] | Inr i \<Rightarrow> f i))"

definition collectPeerSnapshot :: "fmt_quote \<Rightarrow> string call" where
  "collectPeerSnapshot q =
     snap q ''memory'' (snap_memory q) (\<lambda>a.
     snap q ''clients'' (snap_field ''clients='' ''connected_clients'') (\<lambda>b.
     snap q ''stats'' (snap_field ''ops/s='' ''instantaneous_ops_per_sec'') (\<lambda>c.
     snap q ''replication'' (snap_lag q) (\<lambda>d.
       let parts = a @ b @ c @ d in ret (if parts = [] then ''ok'' else join '', '' parts)))))"

text \<open>The result of a probe, or the panic that ended it.\<close>

definition probeSinglePeer ::
  "fmt_quote \<Rightarrow> string option \<Rightarrow> (string \<Rightarrow> string + redis_conn) \<Rightarrow> duration \<Rightarrow> redis_Instance \<Rightarrow> clusterNodeEntry \<Rightarrow> string + peerProbeResult" where
  "probeSinglePeer q ctxErr dial t ins node =
     (let result = \<lparr>pr_NodeID = ne_ID node, pr_Address = ne_Address node, pr_Role = ne_Role node, pr_Reachable = False, pr_Latency = 0,
            pr_Error = [], pr_Snapshot = []\<rparr> in
      case NewRedisAccessor q (contextDialFunc ctxErr dial) (peer_config ins (ne_Address node)) of
        Inl (CallPanic p) \<Rightarrow> Inl p
      | Inl (CallErr e) \<Rightarrow> Inr (result\<lparr>pr_Error := classifyConnError e\<rparr>)
      | Inr acc \<Rightarrow>
          (case Ping q acc of
             (Some (CallPanic p), _) \<Rightarrow> Inl p
           | (Some (CallErr e), _) \<Rightarrow> Inr (result\<lparr>pr_Error := classifyConnError e\<rparr>)
           | (None, acc) \<Rightarrow>
               (case collectPeerSnapshot q acc of
                  (Inl (CallPanic p), _) \<Rightarrow> Inl p
                | (Inl (CallErr e), _) \<Rightarrow> Inl e
                | (Inr s, _) \<Rightarrow> Inr (result\<lparr>pr_Reachable := True, pr_Latency := t, pr_Snapshot := s\<rparr>))))"

text \<open>\<^verbatim>\<open>probePeers\<close>: every candidate has its own goroutine and its own place in the results. The world of a candidate is \<open>None\<close> when the
  context ends before it gets a slot.\<close>

definition probe_one ::
  "fmt_quote \<Rightarrow> redis_Instance \<Rightarrow> clusterNodeEntry \<Rightarrow> (string option \<times> (string \<Rightarrow> string + redis_conn) \<times> duration) option \<Rightarrow> string + peerProbeResult" where
  "probe_one q ins n w =
     (case w of
        None \<Rightarrow> Inr \<lparr>pr_NodeID = ne_ID n, pr_Address = ne_Address n, pr_Role = ne_Role n, pr_Reachable = False, pr_Latency = 0,
            pr_Error = ''context cancelled'', pr_Snapshot = []\<rparr>
      | Some (ctxErr, dial, t) \<Rightarrow> probeSinglePeer q ctxErr dial t ins n)"

fun probePeers ::
  "fmt_quote \<Rightarrow> redis_Instance \<Rightarrow> clusterNodeEntry list \<Rightarrow> (string option \<times> (string \<Rightarrow> string + redis_conn) \<times> duration) option list \<Rightarrow> string + peerProbeResult list" where
  "probePeers q ins (n # ns) (w # ws) = sbind (probe_one q ins n w) (\<lambda>r. map_sum id (Cons r) (probePeers q ins ns ws))"
| "probePeers q ins _ _ = Inr []"

definition tick_mark :: string where "tick_mark = [CHR 0xE2, CHR 0x9C, CHR 0x93]"
definition cross_mark :: string where "cross_mark = [CHR 0xE2, CHR 0x9C, CHR 0x97]"

definition formatLatency :: "duration \<Rightarrow> string" where
  "formatLatency d = (if d < 1000000 then ''<1ms'' else show_int (d div 1000000) @ ''ms'')"

definition peer_line :: "peerProbeResult \<Rightarrow> string" where
  "peer_line r =
     (let short = take 8 (pr_NodeID r) @ ''  '' @ pad_right 21 (pr_Address r) @ ''  '' @ pad_right 7 (pr_Role r) @ ''  '' in
      if pr_Reachable r then short @ tick_mark @ '' '' @ pad_left (CHR '' '') 4 (formatLatency (pr_Latency r)) @ ''  '' @ pr_Snapshot r @ [nl]
      else short @ cross_mark @ ''       '' @ pr_Error r @ [nl])"

definition unprobeable_line :: "clusterNodeEntry \<Rightarrow> string" where
  "unprobeable_line n =
     take 8 (ne_ID n) @ ''  '' @ pad_right 21 ''(no address)'' @ ''  '' @ pad_right 7 (ne_Role n) @ ''  '' @ cross_mark @ ''       '' @
     (if ne_IsFail n then ''fail,noaddr'' else if ne_IsPFail n then ''pfail,noaddr'' else ''noaddr'') @ '' (unprobeable)'' @ [nl]"

definition formatPeerConnectivity :: "peerProbeResult list \<Rightarrow> clusterNodeEntry list \<Rightarrow> int \<Rightarrow> int \<Rightarrow> string" where
  "formatPeerConnectivity results unprobeable total' probed =
     ''[PEER CONNECTIVITY]'' @ [nl] @
     (if probed < total' - 1 - int (length unprobeable)
      then ''(probed '' @ show_int probed @ ''/'' @ show_int (total' - 1) @ '' peers, priority: fail/pfail + related replicas)'' @ [nl] else []) @
     concat (map peer_line results) @ concat (map unprobeable_line unprobeable)"

end
