(* ===== verification/Redis_Tools.thy ===== *)
theory Redis_Tools
  imports Redis_Peer "HOL-Library.Multiset"
begin

text \<open>
  The diagnosis tools of \<^verbatim>\<open>plugins/redis/diagnose.go\<close> and the queries to cluster peers of \<^verbatim>\<open>peer.go\<close>. A tool is a call on the
  accessor of its session. The facts say what the tools can send: only commands that read, and only to the
  server of the session and to addresses of its cluster.
\<close>

section \<open>Arguments and replies\<close>

definition parseIntArg :: "string \<Rightarrow> int \<Rightarrow> int" where
  "parseIntArg raw fallback =
     (if raw = [] then fallback else case ParseInt (trim_space raw) of Inl _ \<Rightarrow> fallback | Inr v \<Rightarrow> v)"

definition clampInt :: "int \<Rightarrow> int \<Rightarrow> int \<Rightarrow> int" where
  "clampInt v minV maxV = (if v < minV then minV else if v > maxV then maxV else v)"

fun string_items :: "reply list \<Rightarrow> string + string list" where
  "string_items [] = Inr []"
| "string_items (RStr s # rs) = map_sum id (Cons s) (string_items rs)"
| "string_items (r # rs) = Inl (''unexpected array item type '' @ reply_type r)"

fun parseStringArray :: "reply \<Rightarrow> string + string list" where
  "parseStringArray (RArr rs) = string_items rs"
| "parseStringArray r = Inl (''unexpected array reply type '' @ reply_type r)"

fun parseScanReply :: "reply \<Rightarrow> string + (string \<times> string list)" where
  "parseScanReply (RArr [RStr cursor, r]) = map_sum id (Pair cursor) (parseStringArray r)"
| "parseScanReply (RArr [c, r]) = Inl (''redis SCAN cursor has unexpected type '' @ reply_type c)"
| "parseScanReply r = Inl (''redis SCAN returned unexpected reply type '' @ reply_type r)"

text \<open>The number, whether there was one, and the error.\<close>

fun parseIntegerReply :: "fmt_quote \<Rightarrow> reply \<Rightarrow> int \<times> bool \<times> string option" where
  "parseIntegerReply q RNil = (0, False, None)"
| "parseIntegerReply q (RStr v) =
     (case ParseInt (trim_space v) of
        Inl e \<Rightarrow> (0, True, Some (num_text (fq_str q) ''ParseInt'' (trim_space v) e))
      | Inr n \<Rightarrow> (n, True, None))"
| "parseIntegerReply q r = (0, False, Some (''unexpected integer reply type '' @ reply_type r))"

text \<open>\<^verbatim>\<open>fmt.Sscanf(v, "%d", &n)\<close>: blanks (a line break is an error), a sign, digits; what follows is ignored and a failure keeps the number.\<close>

fun scan_blanks :: "string \<Rightarrow> string option" where
  "scan_blanks [] = Some []"
| "scan_blanks (c # s) =
     (if c = nl then None
      else if c = cr \<and> take 1 s = [nl] then scan_blanks (drop 1 s)
      else if is_space c then scan_blanks s
      else Some (c # s))"

definition scan_int :: "string \<Rightarrow> int \<Rightarrow> int" where
  "scan_int v n =
     (case scan_blanks v of
        None \<Rightarrow> n
      | Some s \<Rightarrow>
          let sign = takeWhile (\<lambda>c. c \<in> {CHR ''+'', CHR ''-''}) (take 1 s);
              digits = takeWhile (\<lambda>c. digit_val c \<noteq> None) (drop (length sign) s)
          in case ParseInt (sign @ digits) of Inl _ \<Rightarrow> n | Inr k \<Rightarrow> k)"

section \<open>Queries to a peer\<close>

definition peerCommandWhitelist :: "string list" where
  "peerCommandWhitelist =
     [''client_list'', ''cluster_info'', ''config_get'', ''info'', ''latency'', ''memory_doctor'', ''memory_stats'', ''slowlog'']"

definition safeClientThreshold :: int where "safeClientThreshold = 5000"

definition summary_keys :: "string list" where
  "summary_keys =
     [''connected_clients'', ''cluster_connections'', ''maxclients'', ''client_recent_max_input_buffer'', ''client_recent_max_output_buffer'',
      ''blocked_clients'', ''tracking_clients'', ''clients_in_timeout_table'', ''total_blocking_clients'']"

definition clientSummaryFromInfo :: "fmt_quote \<Rightarrow> int \<Rightarrow> string call" where
  "clientSummaryFromInfo q clientCount =
     ask ''INFO clients'' (Info q ''clients'') (\<lambda>i.
       ret (''[!] CLIENT LIST skipped: '' @ show_int clientCount @ '' connected clients exceeds safe threshold (5000).'' @ [nl] @
         ''Running CLIENT LIST with this many clients would block Redis for ~'' @ show_int (clientCount div 500) @ ''ms.'' @ [nl, nl] @
         ''Client summary from INFO clients:'' @ [nl] @
         concat (map (\<lambda>k. case map_of i k of Some v \<Rightarrow> ''  '' @ pad_right 40 k @ '' '' @ v @ [nl] | None \<Rightarrow> []) summary_keys) @
         [nl] @ ''Tip: Use redis_info with section=clients for full client statistics.'' @ [nl]))"

text \<open>The number of clients when it is above the threshold: the guard before every \<^verbatim>\<open>CLIENT LIST\<close>.\<close>

definition many_clients :: "string + info \<Rightarrow> int option" where
  "many_clients r =
     (case r of
        Inl _ \<Rightarrow> None
      | Inr i \<Rightarrow>
          (case map_of i ''connected_clients'' of
             None \<Rightarrow> None
           | Some s \<Rightarrow> (case ParseInt s of Inl _ \<Rightarrow> None | Inr n \<Rightarrow> if n > safeClientThreshold then Some n else None)))"

definition safeClientList :: "fmt_quote \<Rightarrow> string \<Rightarrow> string call" where
  "safeClientList q peer =
     attempt (Info q ''clients'') (\<lambda>r.
       case many_clients r of
         Some n \<Rightarrow>
           ask (''peer '' @ peer @ '' client summary'') (clientSummaryFromInfo q n) (\<lambda>s.
             ret (''[PEER '' @ peer @ ''] CLIENT LIST (summary, '' @ show_int n @ '' clients)'' @ [nl] @ s))
       | None \<Rightarrow>
           ask (''peer '' @ peer @ '' CLIENT LIST'') (ClientList q) (\<lambda>s. ret (''[PEER '' @ peer @ ''] CLIENT LIST'' @ [nl] @ s)))"

definition validatePeerInTopology :: "fmt_quote \<Rightarrow> string \<Rightarrow> unit call" where
  "validatePeerInTopology q peer =
     ask ''cannot validate peer: CLUSTER NODES failed'' (ClusterNodes q) (\<lambda>raw.
       if peer \<in> ne_Address ` set (parseClusterNodes raw) then ret ()
       else fail (''peer '' @ peer @ '' is not in the current cluster topology, connection denied''))"

definition peer_titled :: "string \<Rightarrow> string \<Rightarrow> string \<Rightarrow> string call \<Rightarrow> string call" where
  "peer_titled peer err title m = ask (''peer '' @ peer @ '' '' @ err) m (\<lambda>s. ret (''[PEER '' @ peer @ ''] '' @ title @ [nl] @ s))"

definition run_peer_command :: "fmt_quote \<Rightarrow> string \<Rightarrow> string \<Rightarrow> string \<Rightarrow> string call" where
  "run_peer_command q peer cmd cmdArgs =
     (if cmd = ''info'' then
        let sect = (if cmdArgs = [] then ''all'' else cmdArgs) in peer_titled peer (''INFO '' @ sect) (''INFO '' @ sect) (InfoRaw q sect)
      else if cmd = ''slowlog'' then
        let n = parseIntArg cmdArgs 10 in peer_titled peer ''SLOWLOG GET'' (''SLOWLOG GET '' @ show_int n) (SlowlogGet q n)
      else if cmd = ''client_list'' then safeClientList q peer
      else if cmd = ''cluster_info'' then peer_titled peer ''CLUSTER INFO'' ''CLUSTER INFO'' (ClusterInfo q)
      else if cmd = ''memory_doctor'' then peer_titled peer ''MEMORY DOCTOR'' ''MEMORY DOCTOR'' (acc_Command q [''MEMORY'', ''DOCTOR''])
      else if cmd = ''memory_stats'' then peer_titled peer ''MEMORY STATS'' ''MEMORY STATS'' (acc_Command q [''MEMORY'', ''STATS''])
      else if cmd = ''latency'' then
        ask (''peer '' @ peer @ '' LATENCY LATEST'') (acc_Command q [''LATENCY'', ''LATEST'']) (\<lambda>s.
          ret (''[PEER '' @ peer @ ''] LATENCY LATEST'' @ [nl] @ (if s = [] \<or> s = ''(nil)'' then ''No latency events recorded.'' else s)))
      else if cmd = ''config_get'' then
        let pattern = (if cmdArgs = [] then ''*'' else cmdArgs) in
        peer_titled peer (''CONFIG GET '' @ pattern) (''CONFIG GET '' @ pattern) (ConfigGet q pattern)
      else fail (''unhandled command '' @ fq_str q cmd))"

text \<open>\<^verbatim>\<open>executePeerCommand\<close>: the result and the session's accessor, with the connection that was made to the peer, if any.\<close>

definition executePeerCommand ::
  "fmt_quote \<Rightarrow> string option \<Rightarrow> (string \<Rightarrow> string + redis_conn) \<Rightarrow> redis_Instance \<Rightarrow> string \<Rightarrow> string \<Rightarrow> string \<Rightarrow>
   RedisAccessor \<Rightarrow> ((call_error + string) \<times> RedisAccessor option) \<times> RedisAccessor" where
  "executePeerCommand q ctxErr dial ins peer cmd cmdArgs sess =
     (if cmd \<notin> set peerCommandWhitelist
      then ((Inl (CallErr (''unsupported command '' @ fq_str q cmd @ '', allowed: '' @ join '', '' peerCommandWhitelist)), None), sess)
      else case validatePeerInTopology q peer sess of
        (Inl e, sess) \<Rightarrow> ((Inl e, None), sess)
      | (Inr _, sess) \<Rightarrow>
          (case NewRedisAccessor q (contextDialFunc ctxErr dial) (peer_config ins peer) of
             Inl (CallPanic p) \<Rightarrow> ((Inl (CallPanic p), None), sess)
           | Inl (CallErr e) \<Rightarrow> ((Inl (CallErr (''connect to peer '' @ peer @ '': '' @ classifyConnError e)), None), sess)
           | Inr acc \<Rightarrow>
               (case run_peer_command q peer cmd cmdArgs acc of
                  (r, acc) \<Rightarrow> ((r, Some (acc_Close acc)), sess))))"

section \<open>The tools of a session\<close>

text \<open>What a session holds: an accessor of some type, and a reference to an instance of some type. A reference may be a nil pointer.\<close>

datatype session_accessor = NilAccessor | RedisAcc RedisAccessor | OtherAcc string

datatype instance_ref = RedisRef "redis_Instance option" | OtherRef string

definition getAccessor :: "session_accessor \<Rightarrow> string + RedisAccessor" where
  "getAccessor s =
     (case s of
        NilAccessor \<Rightarrow> Inl ''no redis accessor in session (remote connection not established)''
      | OtherAcc t \<Rightarrow> Inl (''session accessor is '' @ t @ '', expected *RedisAccessor'')
      | RedisAcc a \<Rightarrow> Inr a)"

type_synonym tool_args = "(string, string) gomap"

definition redis_info :: "fmt_quote \<Rightarrow> tool_args \<Rightarrow> string call" where
  "redis_info q args =
     (let sect = (if m_str args ''section'' = [] then ''all'' else m_str args ''section'') in
      ask (''redis INFO '' @ sect) (InfoRaw q sect) ret)"

definition summary_line :: "string \<Rightarrow> info \<Rightarrow> string" where
  "summary_line key i = (if m_str i key = [] then [] else key @ '': '' @ m_str i key @ [nl])"

definition cluster_summary :: "string \<Rightarrow> string \<Rightarrow> string" where
  "cluster_summary clusterInfo clusterNodes =
     (let (failNodes, pfailNodes) = summarizeClusterNodeFlags clusterNodes; i = parseInfoToMap clusterInfo in
      ''[CLUSTER SUMMARY]'' @ [nl] @ ''cluster_state: '' @ m_str i ''cluster_state'' @ [nl] @
      summary_line ''cluster_slots_assigned'' i @ summary_line ''cluster_slots_fail'' i @ summary_line ''cluster_known_nodes'' i @
      ''fail_nodes: '' @ show_nat failNodes @ [nl] @ ''pfail_nodes: '' @ show_nat pfailNodes @ [nl, nl] @
      ''[CLUSTER INFO]'' @ [nl] @ clusterInfo @ [nl, nl] @ ''[CLUSTER NODES]'' @ [nl] @ clusterNodes @ [nl])"

type_synonym peer_world = "(string option \<times> (string \<Rightarrow> string + redis_conn) \<times> duration) option"

text \<open>The section on the peers; a panic in the goroutine of a probe ends the process.\<close>

definition peer_section :: "fmt_quote \<Rightarrow> (clusterNodeEntry \<Rightarrow> peer_world) \<Rightarrow> redis_Instance option \<Rightarrow> string \<Rightarrow> string \<Rightarrow> string + string" where
  "peer_section q w ins target clusterNodes =
     (let nodes = parseClusterNodes clusterNodes; (probeable, unprobeable) = selectProbeCandidates nodes target in
      case ins of
        None \<Rightarrow> Inr []
      | Some ins \<Rightarrow>
          if length nodes > 1 \<and> (probeable \<noteq> [] \<or> unprobeable \<noteq> []) then
            map_sum id (\<lambda>results. nl # formatPeerConnectivity results unprobeable (int (length nodes)) (int (length probeable)))
              (probePeers q ins probeable (map w probeable))
          else Inr [])"

definition redis_cluster_info :: "fmt_quote \<Rightarrow> (clusterNodeEntry \<Rightarrow> peer_world) \<Rightarrow> redis_Instance option \<Rightarrow> string call" where
  "redis_cluster_info q w ins =
     ask ''redis INFO server'' (Info q ''server'') (\<lambda>i.
       let mode = to_lower (trim_space (m_str i ''redis_mode'')) in
       if mode \<noteq> redisModeCluster
       then ret (''Redis target is running in '' @ (if mode = [] then redisModeStandalone else mode) @ '' mode, not cluster mode.'')
       else ask ''redis CLUSTER INFO'' (ClusterInfo q) (\<lambda>info.
         ask ''redis CLUSTER NODES'' (ClusterNodes q) (\<lambda>nodes a.
           case peer_section q w ins (ra_target a) nodes of
             Inl p \<Rightarrow> (Inl (CallPanic p), a)
           | Inr peers \<Rightarrow> (Inr (cluster_summary info nodes @ peers), a))))"

definition redis_slowlog :: "fmt_quote \<Rightarrow> tool_args \<Rightarrow> string call" where
  "redis_slowlog q args =
     ask ''redis SLOWLOG GET'' (SlowlogGet q (if m_str args ''count'' = [] then 10 else scan_int (m_str args ''count'') 10)) ret"

definition redis_client_list :: "fmt_quote \<Rightarrow> string call" where
  "redis_client_list q =
     attempt (Info q ''clients'') (\<lambda>r.
       case many_clients r of
         Some n \<Rightarrow> clientSummaryFromInfo q n
       | None \<Rightarrow> ask ''redis CLIENT LIST'' (ClientList q) ret)"

definition redis_config_get :: "fmt_quote \<Rightarrow> tool_args \<Rightarrow> string call" where
  "redis_config_get q args = ask (''redis CONFIG GET '' @ m_str args ''pattern'') (ConfigGet q (m_str args ''pattern'')) ret"

definition redis_latency :: "fmt_quote \<Rightarrow> string call" where
  "redis_latency q =
     ask ''redis LATENCY LATEST'' (acc_Command q [''LATENCY'', ''LATEST'']) (\<lambda>s.
       ret (if s = [] \<or> s = ''(nil)''
            then ''No latency events recorded. Note: latency-monitor-threshold may be 0 (disabled). '' @
                 ''Use redis_config_get with pattern '' @ [CHR 0x27] @ ''latency-monitor-threshold'' @ [CHR 0x27] @ '' to check.''
            else s))"

definition redis_memory_analysis :: "fmt_quote \<Rightarrow> string call" where
  "redis_memory_analysis q =
     attempt (acc_Command q [''MEMORY'', ''DOCTOR'']) (\<lambda>doctor.
     attempt (acc_Command q [''MEMORY'', ''STATS'']) (\<lambda>stats.
       case (doctor, stats) of
         (Inl d, Inl s) \<Rightarrow> fail (''redis MEMORY DOCTOR: '' @ d @ ''; MEMORY STATS: '' @ s)
       | _ \<Rightarrow>
           ret ((case doctor of Inl e \<Rightarrow> ''[MEMORY DOCTOR] error: '' @ e @ [nl, nl] | Inr s \<Rightarrow> ''[MEMORY DOCTOR]'' @ [nl] @ s @ [nl, nl]) @
                (case stats of Inl e \<Rightarrow> ''[MEMORY STATS] error: '' @ e @ [nl] | Inr s \<Rightarrow> ''[MEMORY STATS]'' @ [nl] @ s @ [nl]))))"

text \<open>The tool that asks a peer, on the session's accessor and instance.\<close>

definition redis_query_peer ::
  "fmt_quote \<Rightarrow> string option \<Rightarrow> (string \<Rightarrow> string + redis_conn) \<Rightarrow> instance_ref \<Rightarrow> session_accessor \<Rightarrow> tool_args \<Rightarrow>
   (call_error + string) \<times> RedisAccessor option \<times> session_accessor" where
  "redis_query_peer q ctxErr dial ref s args =
     (case ref of
        RedisRef (Some ins) \<Rightarrow>
          (case getAccessor s of
             Inl e \<Rightarrow> (Inl (CallErr (''redis_query_peer requires session accessor for topology validation: '' @ e)), None, s)
           | Inr a \<Rightarrow>
               let peer = trim_space (m_str args ''peer''); cmd = to_lower (trim_space (m_str args ''command'')) in
               if peer = [] then (Inl (CallErr ''peer address is required''), None, s)
               else if cmd = [] then (Inl (CallErr ''command is required''), None, s)
               else case executePeerCommand q ctxErr dial ins peer cmd (trim_space (m_str args ''args'')) a of
                      ((r, p), a) \<Rightarrow> (r, p, RedisAcc a))
      | _ \<Rightarrow> (Inl (CallErr ''redis_query_peer requires instance reference for authentication''), None, s))"

text \<open>\<^verbatim>\<open>RegisterAccessorFactory\<close>: a nil instance pointer panics at its first field.\<close>

definition factory_config :: "redis_Instance \<Rightarrow> string \<Rightarrow> RedisAccessorConfig" where
  "factory_config ins target =
     \<lparr>ac_Target = (if target = [] \<and> ri_Targets ins \<noteq> [] then hd (ri_Targets ins) else target), ac_Username = rs_Username ins,
      ac_Password = rs_Password ins, ac_DB = rs_DB ins\<rparr>"

definition redis_accessor_factory ::
  "fmt_quote \<Rightarrow> (string \<Rightarrow> string + redis_conn) \<Rightarrow> instance_ref \<Rightarrow> string \<Rightarrow> call_error + RedisAccessor" where
  "redis_accessor_factory q dial ref target =
     (case ref of
        OtherRef t \<Rightarrow> Inl (CallErr (''redis accessor factory: expected *Instance, got '' @ t))
      | RedisRef None \<Rightarrow> Inl (CallPanic ''runtime error: invalid memory address or nil pointer dereference'')
      | RedisRef (Some ins) \<Rightarrow> NewRedisAccessor q dial (factory_config ins target))"

definition redis_pre_collect :: "fmt_quote \<Rightarrow> string call" where
  "redis_pre_collect q =
     attempt (InfoRaw q ''all'') (\<lambda>r. case r of Inl _ \<Rightarrow> ret [] | Inr raw \<Rightarrow>
     attempt (Info q ''server'') (\<lambda>r. case r of Inl _ \<Rightarrow> ret raw | Inr i \<Rightarrow>
       if to_lower (trim_space (m_str i ''redis_mode'')) \<noteq> redisModeCluster then ret raw
       else attempt (ClusterInfo q) (\<lambda>r. ret (case r of Inl _ \<Rightarrow> raw | Inr info \<Rightarrow> raw @ [nl, nl] @ ''[CLUSTER INFO]'' @ [nl] @ info))))"

section \<open>The scan for big keys\<close>

record bigkeyCandidate =
  bk_Key :: string
  bk_Type :: string
  bk_Size :: int

text \<open>One key of a page: a key whose type or size cannot be read is passed over.\<close>

definition measured :: "fmt_quote \<Rightarrow> string \<Rightarrow> string \<Rightarrow> string + reply \<Rightarrow> bigkeyCandidate option" where
  "measured q key typ' r =
     (case r of
        Inl _ \<Rightarrow> None
      | Inr rep \<Rightarrow>
          (case parseIntegerReply q rep of
             (n, ok, e) \<Rightarrow> if e \<noteq> None \<or> \<not> ok \<or> n < 0 then None else Some \<lparr>bk_Key = key, bk_Type = typ', bk_Size = n\<rparr>))"

definition measure_key :: "fmt_quote \<Rightarrow> string \<Rightarrow> (bigkeyCandidate option \<Rightarrow> 'a call) \<Rightarrow> 'a call" where
  "measure_key q key k =
     attempt (acc_Command q [''TYPE'', key]) (\<lambda>r.
       case r of
         Inl _ \<Rightarrow> k None
       | Inr t \<Rightarrow>
           let t = trim_space t in
           if t = [] \<or> t = ''(nil)'' then k None
           else attempt (acc_RawCommand q [''MEMORY'', ''USAGE'', key]) (\<lambda>r. k (measured q key t r)))"

fun sample_page :: "fmt_quote \<Rightarrow> int \<Rightarrow> string list \<Rightarrow> bigkeyCandidate list \<Rightarrow> bigkeyCandidate list call" where
  "sample_page q sampleKeys [] found = ret found"
| "sample_page q sampleKeys (key # keys) found =
     (if int (length found) \<ge> sampleKeys then ret found
      else measure_key q key (\<lambda>c. sample_page q sampleKeys keys (found @ (case c of None \<Rightarrow> [] | Some c \<Rightarrow> [c]))))"

definition scan_args :: "string \<Rightarrow> string \<Rightarrow> int \<Rightarrow> string list" where
  "scan_args cursor match remaining =
     [''SCAN'', cursor] @ (if match \<noteq> [] then [''MATCH'', match] else []) @ [''COUNT'', show_int (clampInt remaining 1 200)]"

text \<open>One round of the loop: what was found, and the next cursor if there is another round. The sampled keys are the
  candidates found.\<close>

definition scan_round ::
  "fmt_quote \<Rightarrow> int \<Rightarrow> string \<Rightarrow> string \<Rightarrow> bigkeyCandidate list \<Rightarrow> (bigkeyCandidate list \<times> string option) call" where
  "scan_round q sampleKeys match cursor found =
     (if sampleKeys - int (length found) \<le> 0 then ret (found, None)
      else ask ''redis SCAN'' (acc_RawCommand q (scan_args cursor match (sampleKeys - int (length found)))) (\<lambda>r.
        case parseScanReply r of
          Inl e \<Rightarrow> fail e
        | Inr (nextCursor, keys) \<Rightarrow> (\<lambda>a.
            case sample_page q sampleKeys keys found a of
              (Inl e, a) \<Rightarrow> (Inl e, a)
            | (Inr found, a) \<Rightarrow> (Inr (found, if nextCursor = ''0'' \<or> keys = [] then None else Some nextCursor), a))))"

text \<open>The bytes a connection still delivers. A round with another one after it takes at least one of them.\<close>

definition unread :: "RedisAccessor \<Rightarrow> nat" where
  "unread a = length (cn_in (ra_client a)) + length (concat (cn_arrivals (ra_client a)))"

lemma read_shorter:
  "length (snd (read_value s)) \<le> length s - 1"
  "length (snd (read_elems n s)) \<le> length s"
proof (induct s and n s rule: read_value_read_elems.induct)
  case (2 c s)
  obtain l r where line: "readLine s = (l, r)" by fastforce
  have r: "length r \<le> length s" using readLine_shorter [OF line] .
  show ?case
  proof (cases "c \<in> {CHR ''+'', CHR ''-'', CHR '':'', CHR ''$'', CHR ''*''} \<and> (\<exists>ln. l = Inr ln)")
    case True
    then obtain ln where ln: "l = Inr ln" by blast
    consider "c = CHR ''+''" | "c = CHR ''-''" | "c = CHR '':''" | "c = CHR ''$''" | "c = CHR ''*''" using True by blast
    then show ?thesis
    proof cases
      case 5
      have "length (snd (read_elems n r)) \<le> length s" if "read_count ln = Inr (Some n)" for n
        using 2 5 line ln that r by (simp; fail | fastforce)
      then show ?thesis
        using 5 line ln r by (auto simp: read_value.simps(2) split: sum.splits option.splits prod.splits)
    qed (use line ln r in \<open>auto simp: read_value.simps(2) intro: read_parts_shorter\<close>)
  qed (use line r in \<open>auto simp: read_value.simps(2) split: sum.splits\<close>)
next
  case (4 n s)
  obtain x r where x: "read_value s = (x, r)" by fastforce
  show ?case
    using 4 x by (cases x) (auto split: prod.splits sum.splits)
qed simp_all

lemma read_value_shorter: "read_value s = (Inr v, r) \<Longrightarrow> length r < length s"
  using read_shorter(1) [of s] by (cases s) auto

lemma concat_take_drop: "length (concat (take 1 xs)) + length (concat (drop 1 xs)) = length (concat xs)"
  by (cases xs) auto

lemma rawCommand_unread:
  assumes "acc_RawCommand q args a = (r, a')"
  shows "unread a' \<le> unread a \<and> ((\<exists>v. r = Inr v) \<longrightarrow> unread a' < unread a)"
proof -
  define c where "c = arrive ((ra_client a)\<lparr>cn_out := cn_out (ra_client a) @ writeCommand args\<rparr>)"
  have c: "length (cn_in c) + length (concat (cn_arrivals c)) = unread a"
    using concat_take_drop [of "cn_arrivals (ra_client a)"] by (simp add: c_def arrive_def unread_def)
  obtain x s where rv: "read_value (cn_in c) = (x, s)"
    by fastforce
  have "length s \<le> length (cn_in c)" "(\<exists>v. x = Inr v) \<longrightarrow> length s < length (cn_in c)"
    using read_shorter(1) [of "cn_in c"] rv read_value_shorter by fastforce+
  moreover have "a' = a \<and> (\<exists>e. r = Inl e) \<or> a' = a\<lparr>ra_client := c\<lparr>cn_in := s\<rparr>\<rparr> \<and> ((\<exists>v. r = Inr v) \<longrightarrow> (\<exists>v. x = Inr v))"
  proof (cases "cn_broken (ra_client a)")
    case None
    then show ?thesis
      using assms rv by (cases x rule: sum.exhaust; cases "projl x")
        (auto simp: acc_RawCommand_def rawCommand_def c_def [symmetric] Let_def)
  qed (use assms in \<open>auto simp: acc_RawCommand_def rawCommand_def\<close>)
  ultimately show ?thesis
    using c by (auto simp: unread_def)
qed

subsection \<open>What every call keeps\<close>

text \<open>A reflexive and transitive relation between accessors that every permitted command keeps is kept by every call that only sends
  permitted commands.\<close>

locale call_rule =
  fixes R :: "RedisAccessor \<Rightarrow> RedisAccessor \<Rightarrow> bool" and ok :: "string list \<Rightarrow> bool"
  assumes keep_refl: "R a a"
    and keep_trans: "R a b \<Longrightarrow> R b c \<Longrightarrow> R a c"
    and keep_command: "ok args \<Longrightarrow> R a (snd (acc_RawCommand q args a))"
begin

definition keeps :: "'a call \<Rightarrow> bool" where
  "keeps m \<longleftrightarrow> (\<forall>a. R a (snd (m a)))"

lemma keepsD: "keeps m \<Longrightarrow> m a = (r, a') \<Longrightarrow> R a a'"
  by (metis keeps_def snd_conv)

lemma keeps_ret [simp, intro]: "keeps (ret v)"
  by (simp add: keeps_def ret_def keep_refl)

lemma keeps_fail [simp, intro]: "keeps (fail e)"
  by (simp add: keeps_def fail_def keep_refl)

lemma keeps_attempt [intro]:
  assumes "keeps m" and f: "\<And>r. keeps (f r)"
  shows "keeps (attempt m f)"
proof -
  have "R a (snd (attempt m f a))" for a
  proof -
    obtain r b where m: "m a = (r, b)" by fastforce
    have "R a b" using assms(1) m by (rule keepsD)
    then show ?thesis
      using m f keep_trans by (auto simp: attempt_def keeps_def split: sum.splits call_error.splits)
  qed
  then show ?thesis by (simp add: keeps_def)
qed

lemma keeps_ask [intro]: "keeps m \<Longrightarrow> (\<And>v. keeps (f v)) \<Longrightarrow> keeps (ask what m f)"
  unfolding ask_def by (intro keeps_attempt) (auto split: sum.split)

lemma keeps_raw: "ok args \<Longrightarrow> keeps (acc_RawCommand q args)"
  by (simp add: keeps_def keep_command)

lemma keeps_command: "ok args \<Longrightarrow> keeps (acc_Command q args)"
  using keep_command by (auto simp: keeps_def acc_Command_def acc_RawCommand_def command_def)

lemma keeps_Info: "ok [''INFO'', s] \<Longrightarrow> keeps (Info q s)" "ok [''INFO'', s] \<Longrightarrow> keeps (InfoRaw q s)"
  using keeps_command [of "[''INFO'', s]" q] by (auto simp: keeps_def Info_def InfoRaw_def)

lemma keeps_ConfigGet: "(\<And>p. ok [''CONFIG'', ''GET'', p]) \<Longrightarrow> keeps (ConfigGet q pattern)"
  using keeps_raw [of "[''CONFIG'', ''GET'', if pattern = [] then ''*'' else pattern]" q]
  by (auto simp: keeps_def ConfigGet_def split: prod.splits sum.splits) (metis snd_conv)+

lemma keeps_measure_key:
  assumes "ok [''TYPE'', key]" "ok [''MEMORY'', ''USAGE'', key]" "\<And>c. keeps (k c)"
  shows "keeps (measure_key q key k)"
  unfolding measure_key_def Let_def
  using assms by (intro keeps_attempt) (auto intro: keeps_command keeps_raw split: sum.split)

lemma keeps_sample_page:
  assumes "\<And>key. ok [''TYPE'', key]" "\<And>key. ok [''MEMORY'', ''USAGE'', key]"
  shows "keeps (sample_page q sampleKeys keys found)"
  by (induct keys arbitrary: found) (auto intro: keeps_measure_key assms)

lemma keeps_scan_round:
  assumes "\<And>key. ok [''TYPE'', key]" "\<And>key. ok [''MEMORY'', ''USAGE'', key]" "\<And>r. ok (scan_args cursor match r)"
  shows "keeps (scan_round q sampleKeys match cursor found)"
proof -
  have "keeps (\<lambda>a. case sample_page q sampleKeys keys found a of
      (Inl e, a) \<Rightarrow> (Inl e, a) | (Inr found, a) \<Rightarrow> (Inr (found, nx found), a))" for keys and nx :: "bigkeyCandidate list \<Rightarrow> string option"
    using keeps_sample_page [OF assms(1,2)] by (auto simp: keeps_def split: prod.split sum.split) (metis snd_conv)+
  then show ?thesis
    unfolding scan_round_def by (auto intro!: keeps_ask keeps_raw assms(3) split: sum.split)
qed

end

interpretation shrinks: call_rule "\<lambda>a b. unread b \<le> unread a" "\<lambda>_. True"
  by unfold_locales (auto, metis prod.collapse rawCommand_unread)

lemma scan_round_shrinks:
  assumes "scan_round q sampleKeys match cursor found a = (Inr (found', Some c), a')"
  shows "unread a' < unread a"
proof -
  have pos: "\<not> sampleKeys - int (length found) \<le> 0"
    using assms by (auto simp: scan_round_def ret_def)
  obtain r b where rb: "acc_RawCommand q (scan_args cursor match (sampleKeys - int (length found))) a = (r, b)"
    by fastforce
  then obtain rep where r: "r = Inr rep"
    using assms pos by (auto simp: scan_round_def ask_def attempt_def fail_def split: sum.splits call_error.splits)
  with assms pos rb obtain keys where "sample_page q sampleKeys keys found b = (Inr found', a')"
    by (auto simp: scan_round_def ask_def attempt_def fail_def split: sum.splits prod.splits)
  then have "unread a' \<le> unread b"
    using shrinks.keepsD [OF shrinks.keeps_sample_page] by blast
  then show ?thesis
    using rawCommand_unread [OF rb] r by simp
qed

function scan_loop ::
  "fmt_quote \<Rightarrow> (nat \<Rightarrow> string option) \<Rightarrow> int \<Rightarrow> string \<Rightarrow> nat \<Rightarrow> string \<Rightarrow> bigkeyCandidate list \<Rightarrow> bigkeyCandidate list call" where
  "scan_loop q ctx sampleKeys match n cursor found a =
     (case ctx n of
        Some e \<Rightarrow> fail e a
      | None \<Rightarrow>
          (case scan_round q sampleKeys match cursor found a of
             (Inl e, a) \<Rightarrow> (Inl e, a)
           | (Inr (found, None), a) \<Rightarrow> (Inr found, a)
           | (Inr (found, Some cursor), a) \<Rightarrow> scan_loop q ctx sampleKeys match (Suc n) cursor found a))"
  by pat_completeness auto

termination
  by (relation "measure (\<lambda>(q, ctx, sampleKeys, match, n, cursor, found, a). unread a)") (auto dest: scan_round_shrinks [OF sym])

declare scan_loop.simps [simp del]

text \<open>The report: the largest first, equal sizes by key.\<close>

definition bigger :: "bigkeyCandidate \<Rightarrow> bigkeyCandidate \<Rightarrow> bool" where
  "bigger c d \<longleftrightarrow> (if bk_Size c = bk_Size d then byte_less (bk_Key c) (bk_Key d) else bk_Size c > bk_Size d)"

definition top_keys :: "int \<Rightarrow> bigkeyCandidate list \<Rightarrow> bigkeyCandidate list" where
  "top_keys topN found = take (nat topN) (sort_by bigger found)"

definition key_line :: "nat \<times> bigkeyCandidate \<Rightarrow> string" where
  "key_line ic =
     (case ic of
        (i, c) \<Rightarrow>
          show_nat (i + 1) @ ''. '' @ bk_Key c @ ''  type='' @ bk_Type c @ ''  size='' @ human_u64 (bk_Size c) @ '' ('' @ show_int (bk_Size c) @ '' bytes)'' @ [nl])"

definition bigkeys_report :: "string \<Rightarrow> int \<Rightarrow> bigkeyCandidate list \<Rightarrow> string" where
  "bigkeys_report match topN found =
     (let types = sort_by byte_less (remdups (map bk_Type found)); top = top_keys topN found in
      ''[BIGKEYS SUMMARY]'' @ [nl] @ ''sampled_keys: '' @ show_nat (length found) @ [nl] @
      (if match \<noteq> [] then ''match: '' @ match @ [nl] else []) @
      (if types = [] then ''types: none'' @ [nl, nl]
       else ''types:'' @ [nl] @
         concat (map (\<lambda>t. ''  '' @ t @ '': '' @ show_nat (length (filter (\<lambda>c. bk_Type c = t) found)) @ [nl]) types) @ [nl]) @
      (if top = []
       then ''No keys sampled with MEMORY USAGE. Keys may have expired during scan or the match pattern returned nothing.'' @ [nl]
       else ''[TOP '' @ show_nat (length top) @ '' BIGGEST KEYS]'' @ [nl] @ concat (map key_line (enumerate 0 top))))"

definition redis_bigkeys_scan :: "fmt_quote \<Rightarrow> (nat \<Rightarrow> string option) \<Rightarrow> tool_args \<Rightarrow> string call" where
  "redis_bigkeys_scan q ctx args a =
     (let sampleKeys = clampInt (parseIntArg (m_str args ''sample_keys'') 1000) 1 5000;
          topN = clampInt (parseIntArg (m_str args ''topn'') 20) 1 100;
          match = trim_space (m_str args ''match'')
      in map_prod (map_sum id (bigkeys_report match topN)) id (scan_loop q ctx sampleKeys match 0 ''0'' [] a))"

section \<open>What the tools send\<close>

text \<open>The tools that ask the session's server, by name; what the peers answer and when the context ends are arguments.\<close>

definition session_tools ::
  "fmt_quote \<Rightarrow> (nat \<Rightarrow> string option) \<Rightarrow> (clusterNodeEntry \<Rightarrow> peer_world) \<Rightarrow> redis_Instance option \<Rightarrow> tool_args \<Rightarrow> (string \<times> string call) list" where
  "session_tools q ctx w ins args =
     [(''redis_info'', redis_info q args), (''redis_cluster_info'', redis_cluster_info q w ins), (''redis_slowlog'', redis_slowlog q args),
      (''redis_client_list'', redis_client_list q), (''redis_config_get'', redis_config_get q args), (''redis_latency'', redis_latency q),
      (''redis_memory_analysis'', redis_memory_analysis q), (''redis_bigkeys_scan'', redis_bigkeys_scan q ctx args)]"

definition run_tool :: "session_accessor \<Rightarrow> string call \<Rightarrow> (call_error + string) \<times> session_accessor" where
  "run_tool s m =
     (case getAccessor s of
        Inl e \<Rightarrow> (Inl (CallErr e), s)
      | Inr a \<Rightarrow> map_prod id RedisAcc (m a))"

text \<open>The commands that only read, by their first words.\<close>

definition read_only :: "string list \<Rightarrow> bool" where
  "read_only args \<longleftrightarrow>
     take 1 args \<in> {[''INFO''], [''SCAN''], [''TYPE''], [''PING'']} \<or>
     take 2 args \<in> {[''CLUSTER'', ''INFO''], [''CLUSTER'', ''NODES''], [''SLOWLOG'', ''GET''], [''CLIENT'', ''LIST''], [''CONFIG'', ''GET''],
       [''LATENCY'', ''LATEST''], [''MEMORY'', ''DOCTOR''], [''MEMORY'', ''STATS''], [''MEMORY'', ''USAGE'']}"

text \<open>From one state of an accessor to a later one, only commands that satisfy \<open>P\<close> were sent, to the same server.\<close>

definition sent_by :: "(string list \<Rightarrow> bool) \<Rightarrow> RedisAccessor \<Rightarrow> RedisAccessor \<Rightarrow> bool" where
  "sent_by P a b \<longleftrightarrow>
     (\<exists>cmds. list_all P cmds \<and> cn_out (ra_client b) = cn_out (ra_client a) @ concat (map writeCommand cmds) \<and> ra_target b = ra_target a)"

abbreviation sent :: "RedisAccessor \<Rightarrow> RedisAccessor \<Rightarrow> bool" where
  "sent \<equiv> sent_by read_only"

lemma sent_by_refl: "sent_by P a a"
  unfolding sent_by_def by (intro exI [where x = "[]"]) simp

lemma sent_by_trans:
  assumes "sent_by P a b" "sent_by P b c"
  shows "sent_by P a c"
proof -
  obtain xs where xs: "list_all P xs" "cn_out (ra_client b) = cn_out (ra_client a) @ concat (map writeCommand xs)" "ra_target b = ra_target a"
    using assms(1) sent_by_def by auto
  obtain ys where ys: "list_all P ys" "cn_out (ra_client c) = cn_out (ra_client b) @ concat (map writeCommand ys)" "ra_target c = ra_target b"
    using assms(2) sent_by_def by auto
  show ?thesis
    unfolding sent_by_def using xs ys by (intro exI [where x = "xs @ ys"]) simp
qed

lemma sent_by_command:
  assumes "P args"
  shows "sent_by P a (snd (acc_RawCommand q args a))"
proof -
  define c where "c = arrive ((ra_client a)\<lparr>cn_out := cn_out (ra_client a) @ writeCommand args\<rparr>)"
  obtain x s where rv: "read_value (cn_in c) = (x, s)" by fastforce
  have out: "cn_out c = cn_out (ra_client a) @ writeCommand args"
    by (simp add: c_def arrive_def)
  have "snd (acc_RawCommand q args a) \<in> {a, a\<lparr>ra_client := c\<lparr>cn_in := s\<rparr>\<rparr>}"
  proof (cases "cn_broken (ra_client a)")
    case None
    then show ?thesis
      using rv by (cases x rule: sum.exhaust; cases "projl x") (auto simp: acc_RawCommand_def rawCommand_def c_def [symmetric] Let_def)
  qed (simp add: acc_RawCommand_def rawCommand_def)
  then show ?thesis
    using out assms by (auto simp: sent_by_def intro: exI [where x = "[]"] exI [where x = "[args]"])
qed

context call_rule
begin

lemma keeps_if: "keeps m \<Longrightarrow> keeps m' \<Longrightarrow> keeps (if b then m else m')"
  by simp

lemma keeps_option: "keeps m \<Longrightarrow> (\<And>v. keeps (f v)) \<Longrightarrow> keeps (case x of None \<Rightarrow> m | Some v \<Rightarrow> f v)"
  by (simp split: option.split)

lemma keeps_sum: "(\<And>e. keeps (f e)) \<Longrightarrow> (\<And>v. keeps (g v)) \<Longrightarrow> keeps (case x of Inl e \<Rightarrow> f e | Inr v \<Rightarrow> g v)"
  by (simp split: sum.split)

lemmas keeps_intros = keeps_ret keeps_fail keeps_attempt keeps_ask keeps_if keeps_option keeps_sum

lemma keeps_scan_loop:
  assumes "\<And>key. ok [''TYPE'', key]" "\<And>key. ok [''MEMORY'', ''USAGE'', key]" "\<And>c r. ok (scan_args c match r)"
  shows "keeps (scan_loop q ctx sampleKeys match n cursor found)"
proof -
  have "R a (snd (scan_loop q ctx sampleKeys match n cursor found a))" for a
    using assms(3)
  proof (induct q ctx sampleKeys match n cursor found a rule: scan_loop.induct)
    case (1 q ctx sampleKeys match n cursor found a)
    obtain r b where rb: "scan_round q sampleKeys match cursor found a = (r, b)" by fastforce
    have ab: "R a b" using keepsD [OF keeps_scan_round rb] assms(1,2) 1(2) by blast
    have "R b (snd (scan_loop q ctx sampleKeys match (Suc n) c found' b))" if "ctx n = None" "r = Inr (found', Some c)" for c found'
      using 1(1) [OF that(1) rb [symmetric] that(2) refl refl 1(2)] .
    then show ?case
      using ab rb keep_refl keep_trans
      by (subst scan_loop.simps) (auto simp: fail_def split: option.split sum.split)
  qed
  then show ?thesis by (simp add: keeps_def)
qed

end

locale read_rule = call_rule +
  assumes reads: "read_only args \<Longrightarrow> ok args"
begin

lemma ok_reads [simp, intro]:
  "ok [''INFO'', s]" "ok [''TYPE'', k]" "ok [''MEMORY'', ''USAGE'', k]" "ok (scan_args c m r)" "ok [''CONFIG'', ''GET'', p]"
  "ok [''SLOWLOG'', ''GET'', n]" "ok [''CLIENT'', ''LIST'']" "ok [''CLUSTER'', ''INFO'']" "ok [''CLUSTER'', ''NODES'']"
  "ok [''MEMORY'', ''DOCTOR'']" "ok [''MEMORY'', ''STATS'']" "ok [''LATENCY'', ''LATEST'']" "ok [''PING'']"
  by (auto intro!: reads simp: read_only_def scan_args_def)

lemma keeps_reads [simp, intro]:
  "keeps (Info q s)" "keeps (InfoRaw q s)" "keeps (ConfigGet q p)" "keeps (SlowlogGet q k)" "keeps (ClientList q)" "keeps (ClusterInfo q)"
  "keeps (ClusterNodes q)"
  by (auto intro: keeps_Info keeps_ConfigGet keeps_command
      simp: SlowlogGet_def [abs_def] ClientList_def [abs_def] ClusterInfo_def [abs_def] ClusterNodes_def [abs_def])

lemma keeps_read_command [simp, intro]:
  "keeps (acc_Command q [''MEMORY'', ''DOCTOR''])" "keeps (acc_Command q [''MEMORY'', ''STATS''])" "keeps (acc_Command q [''LATENCY'', ''LATEST''])"
  by (auto intro: keeps_command)

lemma keeps_summary [simp, intro]: "keeps (clientSummaryFromInfo q n)"
  unfolding clientSummaryFromInfo_def by (intro keeps_intros keeps_reads)

lemma keeps_validate [simp, intro]: "keeps (validatePeerInTopology q peer)"
  unfolding validatePeerInTopology_def by (intro keeps_intros keeps_reads)

lemma keeps_client_list [simp, intro]: "keeps (safeClientList q peer)" "keeps (redis_client_list q)"
  unfolding safeClientList_def redis_client_list_def by (intro keeps_intros keeps_reads keeps_summary)+

lemma keeps_run_peer [simp, intro]: "keeps (run_peer_command q peer cmd cmdArgs)"
  unfolding run_peer_command_def peer_titled_def Let_def by (intro keeps_intros keeps_reads keeps_read_command keeps_client_list)

lemma keeps_cluster_info [simp, intro]: "keeps (redis_cluster_info q w ins)"
proof -
  have "keeps (\<lambda>a. case peer_section q w ins (ra_target a) nodes of
      Inl p \<Rightarrow> (Inl (CallPanic p), a) | Inr peers \<Rightarrow> (Inr (cluster_summary info nodes @ peers), a))" for info nodes
    by (auto simp: keeps_def keep_refl split: sum.split)
  then show ?thesis
    unfolding redis_cluster_info_def Let_def by (intro keeps_intros keeps_reads)
qed

lemma keeps_bigkeys [simp, intro]: "keeps (redis_bigkeys_scan q ctx args)"
  using keeps_scan_loop by (auto simp: keeps_def redis_bigkeys_scan_def Let_def)

lemma keeps_simple_tools [simp, intro]:
  "keeps (redis_info q args)" "keeps (redis_slowlog q args)" "keeps (redis_config_get q args)" "keeps (redis_latency q)"
  unfolding redis_info_def redis_slowlog_def redis_config_get_def redis_latency_def Let_def
  by (intro keeps_intros keeps_reads keeps_read_command)+

lemma keeps_memory_analysis [simp, intro]: "keeps (redis_memory_analysis q)"
  unfolding redis_memory_analysis_def prod.case by (intro keeps_intros keeps_read_command)

lemma keeps_session_tools: "(name, m) \<in> set (session_tools q ctx w ins args) \<Longrightarrow> keeps m"
  by (simp add: session_tools_def) (elim disjE conjE; simp)

lemma keeps_pre_collect: "keeps (redis_pre_collect q)"
  unfolding redis_pre_collect_def by (intro keeps_intros keeps_reads)

end

interpretation reading: read_rule sent read_only
  by unfold_locales (auto intro: sent_by_refl sent_by_trans sent_by_command)

section \<open>Properties\<close>

lemma peer_query_cases:
  assumes "executePeerCommand q ctxErr dial ins peer cmd cmdArgs a = ((r, p), a')"
  shows "sent a a' \<and>
    (\<forall>b. p = Some b \<longrightarrow>
       (\<exists>raw a1 c. ClusterNodes q a = (Inr raw, a1) \<and> peer \<in> ne_Address ` set (parseClusterNodes raw) \<and>
          NewRedisAccessor q (contextDialFunc ctxErr dial) (peer_config ins peer) = Inr c \<and> sent c b \<and> cn_closed (ra_client b)))"
proof (cases "cmd \<in> set peerCommandWhitelist")
  case True
  obtain v a1 where v: "validatePeerInTopology q peer a = (v, a1)" by fastforce
  have a1: "sent a a1" using reading.keepsD [OF reading.keeps_validate v] .
  show ?thesis
  proof (cases "\<exists>c. v = Inr () \<and> NewRedisAccessor q (contextDialFunc ctxErr dial) (peer_config ins peer) = Inr c")
    case True
    then obtain c where c: "v = Inr ()" "NewRedisAccessor q (contextDialFunc ctxErr dial) (peer_config ins peer) = Inr c" by blast
    obtain r' b where b: "run_peer_command q peer cmd cmdArgs c = (r', b)" by fastforce
    have "sent c (acc_Close b)"
      using reading.keepsD [OF reading.keeps_run_peer b] by (simp add: sent_by_def acc_Close_def)
    moreover obtain raw a2 where "ClusterNodes q a = (Inr raw, a2)" "peer \<in> ne_Address ` set (parseClusterNodes raw)"
      using v c(1) by (auto simp: validatePeerInTopology_def ask_def attempt_def fail_def split: sum.splits call_error.splits prod.splits if_splits)
    ultimately show ?thesis
      using assms \<open>cmd \<in> set peerCommandWhitelist\<close> v c b a1 by (auto simp: executePeerCommand_def acc_Close_def)
  next
    case False
    then show ?thesis
      using assms \<open>cmd \<in> set peerCommandWhitelist\<close> v a1
      by (auto simp: executePeerCommand_def split: sum.splits call_error.splits)
  qed
qed (use assms reading.keep_refl in \<open>auto simp: executePeerCommand_def\<close>)

lemma query_peer_cases:
  assumes "redis_query_peer q ctxErr dial ref (RedisAcc a) args = (r, p, s)"
  shows "s = RedisAcc a \<and> p = None \<or>
    (\<exists>ins peer cmd cmdArgs a'. ref = RedisRef (Some ins) \<and> s = RedisAcc a' \<and>
       executePeerCommand q ctxErr dial ins peer cmd cmdArgs a = ((r, p), a'))"
  using assms by (auto simp: redis_query_peer_def getAccessor_def Let_def split: instance_ref.splits option.splits if_splits prod.splits)

text \<open>C34: every tool of the Redis category, the collection before a diagnosis and the topology check of a peer query write nothing to the
  session's server but whole commands that only read; whatever the server answers, and also when the call fails.\<close>

theorem redis_tools_read_only:
  "list_all (\<lambda>(name, m). \<exists>a'. snd (run_tool (RedisAcc a) m) = RedisAcc a' \<and> sent a a')
     ((''pre_collect'', redis_pre_collect q) # session_tools q ctx w ins args) \<and>
   (\<exists>a'. snd (snd (redis_query_peer q ctxErr dial ref (RedisAcc a) args)) = RedisAcc a' \<and> sent a a')"
proof
  have run: "\<exists>a'. snd (run_tool (RedisAcc a) m) = RedisAcc a' \<and> sent a a'" if "reading.keeps m" for m :: "string call"
    using that by (auto simp: run_tool_def getAccessor_def reading.keeps_def)
  show "list_all (\<lambda>(name, m). \<exists>a'. snd (run_tool (RedisAcc a) m) = RedisAcc a' \<and> sent a a')
     ((''pre_collect'', redis_pre_collect q) # session_tools q ctx w ins args)"
    using run reading.keeps_session_tools reading.keeps_pre_collect unfolding list_all_iff by auto
  obtain r p s where "redis_query_peer q ctxErr dial ref (RedisAcc a) args = (r, p, s)"
    by (metis prod.exhaust)
  then show "\<exists>a'. snd (snd (redis_query_peer q ctxErr dial ref (RedisAcc a) args)) = RedisAcc a' \<and> sent a a'"
    using query_peer_cases peer_query_cases sent_by_refl by (metis snd_conv)
qed

lemma NewRedisAccessor_cong:
  "dial (ac_Target cfg) = dial' (ac_Target cfg) \<Longrightarrow> NewRedisAccessor q dial cfg = NewRedisAccessor q dial' cfg"
  by (simp add: NewRedisAccessor_def)

lemma execute_cong:
  assumes "\<And>raw a1. ClusterNodes q a = (Inr raw, a1) \<Longrightarrow> peer \<in> ne_Address ` set (parseClusterNodes raw) \<Longrightarrow> dial' peer = dial peer"
  shows "executePeerCommand q ctxErr dial' ins peer cmd cmdArgs a = executePeerCommand q ctxErr dial ins peer cmd cmdArgs a"
proof -
  obtain v a1 where v: "validatePeerInTopology q peer a = (v, a1)" by fastforce
  show ?thesis
  proof (cases v)
    case (Inr u)
    obtain raw a2 where "ClusterNodes q a = (Inr raw, a2)" "peer \<in> ne_Address ` set (parseClusterNodes raw)"
      using v Inr by (auto simp: validatePeerInTopology_def ask_def attempt_def fail_def split: sum.splits call_error.splits prod.splits if_splits)
    then have "dial' peer = dial peer" by (rule assms)
    then have "NewRedisAccessor q (contextDialFunc ctxErr dial') (peer_config ins peer) = NewRedisAccessor q (contextDialFunc ctxErr dial) (peer_config ins peer)"
      by (intro NewRedisAccessor_cong) (simp add: contextDialFunc_def peer_config_def split: option.split)
    then show ?thesis by (simp add: executePeerCommand_def v Inr split: prod.split)
  qed (simp add: executePeerCommand_def v)
qed

text \<open>C35: a peer query opens a connection only to an address the session's server just reported as a node of its cluster, sends it
  only commands that read after the login, and closes it. Addresses outside that report are never dialled: the outcome does not depend on
  what dialling them would do.\<close>

theorem peer_query_confined:
  assumes "redis_query_peer q ctxErr dial ref (RedisAcc a) args = (r, p, s)"
  shows "(\<forall>b. p = Some b \<longrightarrow>
      (\<exists>raw a1 ins c peer. ClusterNodes q a = (Inr raw, a1) \<and> ref = RedisRef (Some ins) \<and> peer \<in> ne_Address ` set (parseClusterNodes raw) \<and>
         NewRedisAccessor q (contextDialFunc ctxErr dial) (peer_config ins peer) = Inr c \<and> sent c b \<and> cn_closed (ra_client b))) \<and>
    (\<forall>dial'. (\<forall>raw a1. ClusterNodes q a = (Inr raw, a1) \<longrightarrow> (\<forall>x \<in> ne_Address ` set (parseClusterNodes raw). dial' x = dial x)) \<longrightarrow>
       redis_query_peer q ctxErr dial' ref (RedisAcc a) args = (r, p, s))"
proof (intro conjI allI impI)
  fix b assume "p = Some b"
  with query_peer_cases [OF assms] obtain ins peer cmd cmdArgs a' where
    "ref = RedisRef (Some ins)" "executePeerCommand q ctxErr dial ins peer cmd cmdArgs a = ((r, Some b), a')"
    by auto
  then show "\<exists>raw a1 ins c peer. ClusterNodes q a = (Inr raw, a1) \<and> ref = RedisRef (Some ins) \<and> peer \<in> ne_Address ` set (parseClusterNodes raw) \<and>
      NewRedisAccessor q (contextDialFunc ctxErr dial) (peer_config ins peer) = Inr c \<and> sent c b \<and> cn_closed (ra_client b)"
    using peer_query_cases [of q ctxErr dial ins peer cmd cmdArgs a r "Some b" a'] by blast
next
  fix dial'
  assume "\<forall>raw a1. ClusterNodes q a = (Inr raw, a1) \<longrightarrow> (\<forall>x \<in> ne_Address ` set (parseClusterNodes raw). dial' x = dial x)"
  then have "executePeerCommand q ctxErr dial' ins peer cmd cmdArgs a = executePeerCommand q ctxErr dial ins peer cmd cmdArgs a" for ins peer cmd cmdArgs
    by (intro execute_cong) auto
  then show "redis_query_peer q ctxErr dial' ref (RedisAcc a) args = (r, p, s)"
    using assms by (cases "\<exists>ins. ref = RedisRef (Some ins)") (auto split: instance_ref.splits option.splits simp: redis_query_peer_def getAccessor_def Let_def)
qed

definition plain_conn :: "string list \<Rightarrow> redis_conn" where
  "plain_conn answers = \<lparr>cn_in = [], cn_arrivals = answers, cn_out = [], cn_stop = ''EOF'', cn_broken = None, cn_closed = False\<rparr>"

definition plain_quote :: fmt_quote where
  "plain_quote = \<lparr>fq_str = id, fq_byte = (\<lambda>c. [c])\<rparr>"

definition sample_session :: RedisAccessor where
  "sample_session = \<lparr>ra_client = plain_conn [resp_line ''+n1 h:1@2 master - 0 0 1 connected''], ra_target = ''h:0''\<rparr>"

definition peer_dial :: "string \<Rightarrow> string + redis_conn" where
  "peer_dial addr = (if addr = ''h:1'' then Inr (plain_conn [resp_line ''+spike'']) else Inl ''no route to host'')"

definition sample_query :: tool_args where
  "sample_query = [(''peer'', ''h:1''), (''command'', ''latency'')]"

lemma sample_query_answer:
  "case redis_query_peer plain_quote None peer_dial (RedisRef (Some sample_redis)) (RedisAcc sample_session) sample_query of
     (Inr r, Some b, s) \<Rightarrow> r = ''[PEER h:1] LATENCY LATEST'' @ [nl] @ ''spike'' \<and> cn_out (ra_client b) = writeCommand [''LATENCY'', ''LATEST'']
   | _ \<Rightarrow> False"
  by code_simp

theorem peer_query_confined_witness:
  "\<exists>r b s. redis_query_peer plain_quote None peer_dial (RedisRef (Some sample_redis)) (RedisAcc sample_session) sample_query = (Inr r, Some b, s) \<and>
     cn_closed (ra_client b)"
proof -
  obtain r b s where q: "redis_query_peer plain_quote None peer_dial (RedisRef (Some sample_redis)) (RedisAcc sample_session) sample_query = (Inr r, Some b, s)"
    using sample_query_answer by (cases rule: prod_cases3 [of "redis_query_peer plain_quote None peer_dial (RedisRef (Some sample_redis)) (RedisAcc sample_session) sample_query"])
      (auto split: sum.splits option.split_asm)
  then show ?thesis
    using peer_query_confined [OF q] by blast
qed

section \<open>The scan for big keys: order and bounds\<close>

interpretation byte_order: linorder "\<lambda>c d. (of_char c :: nat) \<le> of_char d" "\<lambda>c d. (of_char c :: nat) < of_char d"
  by unfold_locales auto

lemma byte_less_total: "byte_less a b \<or> byte_less b a"
  unfolding byte_less_def by (rule byte_order.lexordp_eq_linear)

lemma byte_less_trans: "byte_less a b \<Longrightarrow> byte_less b c \<Longrightarrow> byte_less a c"
  unfolding byte_less_def by (rule byte_order.lexordp_eq_trans)

lemma bigger_total: "bigger c d \<or> bigger d c"
  using byte_less_total by (auto simp: bigger_def)

lemma bigger_trans: "bigger c d \<Longrightarrow> bigger d e \<Longrightarrow> bigger c e"
  using byte_less_trans by (auto simp: bigger_def split: if_splits)

lemma mset_insert_by: "mset (insert_by le x ys) = add_mset x (mset ys)"
  by (induct ys) auto

lemma mset_sort_by: "mset (sort_by le xs) = mset xs"
  by (induct xs) (auto simp: sort_by_def mset_insert_by)

lemma sorted_insert_by:
  assumes "\<And>a b. le a b \<or> le b a" "\<And>a b c. le a b \<Longrightarrow> le b c \<Longrightarrow> le a c" "sorted_wrt le ys"
  shows "sorted_wrt le (insert_by le x ys)"
  using assms(3)
proof (induct ys)
  case (Cons y ys)
  have "set (insert_by le x ys) = insert x (set ys)"
    using mset_insert_by [of le x ys] by (metis set_mset_add_mset_insert set_mset_mset)
  then show ?case
    using Cons assms(1) by (auto intro: assms(2))
qed simp

lemma sorted_sort_by:
  assumes "\<And>a b. le a b \<or> le b a" "\<And>a b c. le a b \<Longrightarrow> le b c \<Longrightarrow> le a c"
  shows "sorted_wrt le (sort_by le xs)"
  by (induct xs) (simp_all add: sort_by_def sorted_insert_by [OF assms])

lemma measure_key_bind:
  assumes "measure_key q key k a = (Inr v, a')"
  shows "\<exists>c b. k c b = (Inr v, a')"
  using assms by (auto simp: measure_key_def attempt_def Let_def split: sum.splits prod.splits call_error.splits if_splits)

lemma sample_page_bound:
  "sample_page q sampleKeys keys found a = (Inr found', a') \<Longrightarrow> int (length found) \<le> sampleKeys \<Longrightarrow> int (length found') \<le> sampleKeys"
proof (induct keys arbitrary: found a)
  case (Cons key keys)
  show ?case
  proof (cases "int (length found) \<ge> sampleKeys")
    case False
    then obtain c b where "sample_page q sampleKeys keys (found @ (case c of None \<Rightarrow> [] | Some c \<Rightarrow> [c])) b = (Inr found', a')"
      using Cons(2) measure_key_bind by fastforce
    then show ?thesis
      using Cons(1) False by (auto split: option.splits)
  qed (use Cons in \<open>simp add: ret_def\<close>)
qed (simp add: ret_def)

lemma scan_round_bound:
  assumes "scan_round q sampleKeys match cursor found a = (Inr (found', c), a')" "int (length found) \<le> sampleKeys"
  shows "int (length found') \<le> sampleKeys"
proof (cases "sampleKeys - int (length found) \<le> 0")
  case False
  then obtain keys b where "sample_page q sampleKeys keys found b = (Inr found', a')"
    using assms(1) by (auto simp: scan_round_def ask_def attempt_def fail_def split: sum.splits prod.splits call_error.splits)
  then show ?thesis using assms(2) sample_page_bound by blast
qed (use assms in \<open>auto simp: scan_round_def ret_def\<close>)

lemma scan_loop_bound:
  "scan_loop q ctx sampleKeys match n cursor found a = (Inr found', a') \<Longrightarrow> int (length found) \<le> sampleKeys \<Longrightarrow> int (length found') \<le> sampleKeys"
proof (induct q ctx sampleKeys match n cursor found a rule: scan_loop.induct)
  case (1 q ctx sampleKeys match n cursor found a)
  obtain r b where rb: "scan_round q sampleKeys match cursor found a = (r, b)" by fastforce
  have ctx: "ctx n = None" using 1(2) by (subst (asm) scan_loop.simps) (auto simp: fail_def split: option.splits)
  then obtain f c where r: "r = Inr (f, c)"
    using 1(2) rb by (subst (asm) scan_loop.simps) (auto split: sum.splits)
  have f: "int (length f) \<le> sampleKeys" using scan_round_bound rb r 1(3) by blast
  show ?case
  proof (cases c)
    case None
    then show ?thesis using 1(2) rb r ctx f by (subst (asm) scan_loop.simps) simp
  next
    case (Some c')
    then show ?thesis
      using 1(1) [OF ctx rb [symmetric] r refl Some] 1(2) rb r ctx f by (subst (asm) scan_loop.simps) simp
  qed
qed

text \<open>the scan ends with at most \<open>sample_keys\<close> sampled keys, between 1 and 5000, and lists the largest of them in order: at most
  \<open>topn\<close>, and no key that is left out is larger than one that is listed.\<close>

theorem bigkeys_lists_largest:
  assumes "redis_bigkeys_scan q ctx args a = (Inr report, a')"
  shows "\<exists>found top rest topN. report = bigkeys_report (trim_space (m_str args ''match'')) topN found \<and> top_keys topN found = top \<and>
     mset found = mset top + mset rest \<and> length found \<le> 5000 \<and> int (length top) \<le> topN \<and> topN \<in> {1..100} \<and>
     sorted_wrt bigger top \<and> (rest = [] \<or> int (length top) = topN) \<and> (\<forall>c \<in> set top. \<forall>d \<in> set rest. bk_Size d \<le> bk_Size c)"
proof -
  define sampleKeys where "sampleKeys = clampInt (parseIntArg (m_str args ''sample_keys'') 1000) 1 5000"
  define topN where "topN = clampInt (parseIntArg (m_str args ''topn'') 20) 1 100"
  have sk: "sampleKeys \<in> {1..5000}" and tn: "topN \<in> {1..100}"
    by (auto simp: sampleKeys_def topN_def clampInt_def)
  obtain found where found: "scan_loop q ctx sampleKeys (trim_space (m_str args ''match'')) 0 ''0'' [] a = (Inr found, a')"
    "report = bigkeys_report (trim_space (m_str args ''match'')) topN found"
    using assms by (auto simp: redis_bigkeys_scan_def sampleKeys_def topN_def Let_def map_prod_def split: prod.splits) (case_tac x1; auto)
  have "int (length found) \<le> sampleKeys"
    using scan_loop_bound [OF found(1)] sk by simp
  moreover define s where "s = sort_by bigger found"
  have s: "sorted_wrt bigger s" "mset s = mset found" "length s = length found"
    using sorted_sort_by bigger_total bigger_trans mset_sort_by [of bigger found] unfolding s_def by (blast, simp, metis size_mset)
  moreover have "bk_Size d \<le> bk_Size c" if "c \<in> set (take (nat topN) s)" "d \<in> set (drop (nat topN) s)" for c d
  proof -
    have "bigger c d"
      using s(1) that sorted_wrt_append [of bigger "take (nat topN) s" "drop (nat topN) s"] by simp
    then show ?thesis by (auto simp: bigger_def split: if_splits)
  qed
  moreover have "sorted_wrt bigger (take (nat topN) s)" using s(1) by (rule sorted_wrt_take)
  moreover have "mset found = mset (take (nat topN) s) + mset (drop (nat topN) s)"
    using s(2) by (metis append_take_drop_id mset_append)
  ultimately show ?thesis
    using found(2) sk tn
    by (intro exI [where x = found] exI [where x = "take (nat topN) s"] exI [where x = "drop (nat topN) s"] exI [where x = topN])
      (auto simp: top_keys_def s_def)
qed

subsection \<open>Servers that answer\<close>

text \<open>A connection whose server answers each command at once, in order.\<close>

definition answering :: "string list \<Rightarrow> string \<Rightarrow> RedisAccessor" where
  "answering answers out = \<lparr>ra_client = (plain_conn answers)\<lparr>cn_out := out\<rparr>, ra_target = ''h:0''\<rparr>"

lemma answering_value:
  "fits v \<Longrightarrow> acc_RawCommand q args (answering (encode v # rest) out) = (Inr v, answering rest (out @ writeCommand args))"
  using read_value_encode [of v "[]"] by (simp add: acc_RawCommand_def rawCommand_def answering_def plain_conn_def arrive_def)

lemma answering_error:
  assumes "nl \<notin> set line" "line = [] \<or> last line \<noteq> cr"
  shows "acc_RawCommand q args (answering (resp_line (CHR ''-'' # line) # rest) out) = (Inl (CallErr line), answering rest (out @ writeCommand args))"
  using readLine_line [of line "[]"] assms
  by (simp add: acc_RawCommand_def rawCommand_def answering_def plain_conn_def arrive_def read_value.simps(2) resp_line_def)

lemma command_raw: "acc_Command q args a = map_prod (map_sum id formatReply) id (acc_RawCommand q args a)"
  by (simp add: acc_Command_def acc_RawCommand_def command_def prod.map_comp comp_def)

definition one_key_page :: reply where
  "one_key_page = RArr [RStr ''7'', RArr [RStr ''k'']]"

text \<open>A page whose only key cannot be typed, again and again.\<close>

definition denying :: "nat \<Rightarrow> string list" where
  "denying n = concat (replicate n [encode one_key_page, resp_line ''-NOPERM''])"

lemma one_key_page_fits [simp]: "fits one_key_page"
  by (simp add: one_key_page_def maxBulkSize_def max_slice_def)

lemma denied_command:
  "acc_RawCommand q args (answering (resp_line ''-NOPERM'' # rest) out) = (Inl (CallErr ''NOPERM''), answering rest (out @ writeCommand args))"
  using answering_error [of "''NOPERM''"] by (simp add: nl_def)

lemma denied_round:
  "scan_round q 1 [] cursor [] (answering (encode one_key_page # resp_line ''-NOPERM'' # rest) out) =
     (Inr ([], Some ''7''), answering rest (out @ writeCommand (scan_args cursor [] 1) @ writeCommand [''TYPE'', ''k'']))"
proof -
  have "sample_page q 1 [''k''] [] (answering (resp_line ''-NOPERM'' # rest) out') = (Inr [], answering rest (out' @ writeCommand [''TYPE'', ''k'']))" for out'
    by (simp add: measure_key_def attempt_def command_raw denied_command ret_def)
  moreover have "parseScanReply one_key_page = Inr (''7'', [''k''])"
    by (simp add: one_key_page_def)
  ultimately show ?thesis
    by (simp add: scan_round_def ask_def attempt_def answering_value)
qed

lemma denied_scan:
  "\<exists>r cmds. scan_loop q (\<lambda>_. None) 1 [] i cursor [] (answering (denying n) out) = (r, answering [] (out @ concat (map writeCommand cmds))) \<and>
     length (filter (\<lambda>c. hd c = ''SCAN'') cmds) = Suc n"
proof (induct n arbitrary: i cursor out)
  case 0
  have "acc_RawCommand q args (answering [] out) = (Inl (CallErr ''EOF''), answering [] (out @ writeCommand args))" for args
    by (simp add: acc_RawCommand_def rawCommand_def answering_def plain_conn_def arrive_def)
  then have "scan_round q 1 [] cursor [] (answering [] out) = (Inl (CallErr ''redis SCAN: EOF''), answering [] (out @ writeCommand (scan_args cursor [] 1)))"
    by (simp add: scan_round_def ask_def attempt_def fail_def)
  then show ?case
    by (subst scan_loop.simps) (intro exI [where x = "Inl (CallErr ''redis SCAN: EOF'')"] exI [where x = "[scan_args cursor [] 1]"], simp add: denying_def scan_args_def)
next
  case (Suc n)
  let ?sent = "[scan_args cursor [] 1, [''TYPE'', ''k'']]"
  have loop: "scan_loop q (\<lambda>_. None) 1 [] i cursor [] (answering (denying (Suc n)) out) =
      scan_loop q (\<lambda>_. None) 1 [] (Suc i) ''7'' [] (answering (denying n) (out @ concat (map writeCommand ?sent)))"
    by (subst scan_loop.simps) (simp add: denying_def denied_round)
  obtain r cmds where "scan_loop q (\<lambda>_. None) 1 [] (Suc i) ''7'' [] (answering (denying n) (out @ concat (map writeCommand ?sent))) =
      (r, answering [] ((out @ concat (map writeCommand ?sent)) @ concat (map writeCommand cmds)))"
    "length (filter (\<lambda>c. hd c = ''SCAN'') cmds) = Suc n"
    using Suc by metis
  then show ?case
    unfolding loop by (intro exI [where x = r] exI [where x = "?sent @ cmds"]) (simp add: scan_args_def)
qed

text \<open>The scan is not bounded by \<open>sample_keys\<close>: with \<open>sample_keys = 1\<close>, where the server denies \<^verbatim>\<open>TYPE\<close> (or a key vanishes), keys do not count as
  sampled and the scan goes on through as many pages as the server has.\<close>

theorem bigkeys_unbounded:
  "\<exists>a r a' cmds. redis_bigkeys_scan q (\<lambda>_. None) [(''sample_keys'', ''1'')] a = (r, a') \<and> cn_out (ra_client a) = [] \<and>
     cn_out (ra_client a') = concat (map writeCommand cmds) \<and> length (filter (\<lambda>c. hd c = ''SCAN'') cmds) > n"
proof -
  have "ParseInt ''1'' = Inr 1"
    using ParseInt_show [of 1] by (simp add: show_int_def show_nat_step char_of_def bit_iff_odd in_i64_def)
  moreover have "trim_space ''1'' = ''1''" "trim_space [] = []"
    by (simp_all add: trim_space_def trim_right_def is_space_def)
  ultimately have scan: "redis_bigkeys_scan q (\<lambda>_. None) [(''sample_keys'', ''1'')] a =
      map_prod (map_sum id (bigkeys_report [] 20)) id (scan_loop q (\<lambda>_. None) 1 [] 0 ''0'' [] a)" for a
    by (simp add: redis_bigkeys_scan_def parseIntArg_def clampInt_def m_str_def)
  obtain r cmds where "scan_loop q (\<lambda>_. None) 1 [] 0 ''0'' [] (answering (denying n) []) = (r, answering [] (concat (map writeCommand cmds)))"
    "length (filter (\<lambda>c. hd c = ''SCAN'') cmds) = Suc n"
    using denied_scan [of q 0 "''0''" n "[]"] by auto
  then show ?thesis
    unfolding scan by (intro exI [where x = "answering (denying n) []"] exI [where x = "map_sum id (bigkeys_report [] 20) r"]
        exI [where x = "answering [] (concat (map writeCommand cmds))"] exI [where x = cmds]) (simp add: answering_def plain_conn_def)
qed

end
