(* ===== verification/File_Check.thy ===== *)
theory File_Check
  imports Plugin_Events
begin

text \<open>
  \<^verbatim>\<open>plugins/filecheck/filecheck.go\<close>: the targets of an instance are resolved to files, and up to three checks report on them. What the file
  system answers is an argument of each phase, since files change between them: \<^verbatim>\<open>os.Stat\<close>, \<^verbatim>\<open>filepath.Glob\<close>, the entries
  \<^verbatim>\<open>filepath.WalkDir\<close> visits with whether each can be read and is no directory, and the checksum of a file's content.
\<close>

section \<open>Settings\<close>

record MtimeCheck =
  mt_Severity :: string
  mt_Mode :: string
  mt_TimeSpan :: duration

record ChecksumCheck =
  cs_Severity :: string
  cs_MaxFileSize :: int

record filecheck_Instance =
  fc_Targets :: "string list"
  fc_Mtime :: MtimeCheck
  fc_Checksum :: ChecksumCheck
  fc_Existence :: string
  fc_prevChecksums :: "(string, string) gomap"

definition defaultMaxFileSize :: int where "defaultMaxFileSize = 50 * 1024 * 1024"
definition maxDisplayFiles :: nat where "maxDisplayFiles = 20"
definition maxWalkFiles :: nat where "maxWalkFiles = 10000"

definition mtime_Init :: "MtimeCheck \<Rightarrow> string + MtimeCheck" where
  "mtime_Init m =
     (if mt_Severity m = [] then Inr m
      else
        let m = (if mt_TimeSpan m = 0 then m\<lparr>mt_TimeSpan := 180 * Second\<rparr> else m);
            m = (if mt_Mode m = [] then m\<lparr>mt_Mode := ''changed''\<rparr> else m)
        in if mt_Mode m \<noteq> ''changed'' \<and> mt_Mode m \<noteq> ''stale''
           then Inl (''mtime mode must be '' @ [CHR 0x27] @ ''changed'' @ [CHR 0x27] @ '' or '' @ [CHR 0x27] @ ''stale'' @ [CHR 0x27] @ '', got '' @
             [CHR 0x27] @ mt_Mode m @ [CHR 0x27])
           else Inr m)"

definition filecheck_Init :: "filecheck_Instance \<Rightarrow> string + filecheck_Instance" where
  "filecheck_Init ins =
     (if fc_Targets ins = [] then Inl ''targets is empty''
      else sbind (mtime_Init (fc_Mtime ins)) (\<lambda>m.
        let ins = ins\<lparr>fc_Mtime := m\<rparr>; c = fc_Checksum ins in
        Inr (if cs_Severity c \<noteq> [] \<and> cs_MaxFileSize c = 0 then ins\<lparr>fc_Checksum := c\<lparr>cs_MaxFileSize := defaultMaxFileSize\<rparr>\<rparr> else ins)))"

section \<open>Resolving targets\<close>

record stat_info =
  fi_IsDir :: bool
  fi_Size :: int
  fi_ModTime :: int

datatype stat_answer = Found stat_info | NotExist string | StatError string

record file_system =
  fs_Stat :: "string \<Rightarrow> stat_answer"
  fs_Glob :: "string \<Rightarrow> string + string list"
  fs_WalkDir :: "string \<Rightarrow> (string \<times> bool) list"
  fs_sha256 :: "string \<Rightarrow> string + string"

text \<open>The \<^verbatim>\<open>seen\<close> set always holds exactly the files collected so far.\<close>

definition addUnique :: "string \<Rightarrow> string list \<Rightarrow> string list" where
  "addUnique path files = (if path \<in> set files then files else files @ [path])"

fun walk_entries :: "(string \<times> bool) list \<Rightarrow> string list \<Rightarrow> string list" where
  "walk_entries [] files = files"
| "walk_entries ((path, is_file) # es) files =
     (if \<not> is_file then walk_entries es files
      else if length files \<ge> maxWalkFiles then files
      else walk_entries es (addUnique path files))"

definition walkDir :: "file_system \<Rightarrow> string \<Rightarrow> string list \<Rightarrow> string list" where
  "walkDir fs dir files = walk_entries (fs_WalkDir fs dir) files"

definition collectPath :: "file_system \<Rightarrow> string \<Rightarrow> string list \<Rightarrow> string list" where
  "collectPath fs path files =
     (if length files \<ge> maxWalkFiles then files
      else case fs_Stat fs path of
        Found fi \<Rightarrow> if fi_IsDir fi then walkDir fs path files else addUnique path files
      | _ \<Rightarrow> files)"

definition stat_message :: "stat_answer \<Rightarrow> string" where
  "stat_message r = (case r of Found _ \<Rightarrow> [] | NotExist e \<Rightarrow> e | StatError e \<Rightarrow> e)"

record resolved =
  rv_files :: "string list"
  rv_missing :: "string list"
  rv_errors :: "string list"

definition resolve_target :: "file_system \<Rightarrow> string \<Rightarrow> resolved \<Rightarrow> resolved" where
  "resolve_target fs target r =
     (case fs_Stat fs target of
        Found fi \<Rightarrow> r\<lparr>rv_files := (if fi_IsDir fi then walkDir fs target (rv_files r) else addUnique target (rv_files r))\<rparr>
      | StatError e \<Rightarrow> r\<lparr>rv_errors := rv_errors r @ [target @ '': '' @ e]\<rparr>
      | NotExist _ \<Rightarrow>
          if \<not> HasMeta target then r\<lparr>rv_missing := rv_missing r @ [target]\<rparr>
          else case fs_Glob fs target of
            Inl _ \<Rightarrow> r
          | Inr [] \<Rightarrow> r\<lparr>rv_missing := rv_missing r @ [target]\<rparr>
          | Inr ms \<Rightarrow> r\<lparr>rv_files := fold (collectPath fs) ms (rv_files r)\<rparr>)"

definition filecheck_resolveTargets :: "file_system \<Rightarrow> string list \<Rightarrow> resolved" where
  "filecheck_resolveTargets fs targets =
     (let r = fold (resolve_target fs) targets \<lparr>rv_files = [], rv_missing = [], rv_errors = []\<rparr>
      in r\<lparr>rv_files := take maxWalkFiles (rv_files r)\<rparr>)"

section \<open>Checks\<close>

definition targetLabel :: "filecheck_Instance \<Rightarrow> string" where
  "targetLabel ins = join '','' (fc_Targets ins)"

definition appendAccessErrors :: "string list \<Rightarrow> string" where
  "appendAccessErrors errs =
     (if errs = [] then []
      else [nl] @ show_nat (length errs) @ '' files could not be accessed:'' @ [nl] @
        concat (map (\<lambda>e. ''  '' @ e @ [nl]) (take 5 errs)) @
        (if length errs > 5 then ''  ... and '' @ show_nat (length errs - 5) @ '' more'' @ [nl] else []))"

text \<open>At most \<^verbatim>\<open>maxDisplayFiles\<close> of the files, one line each.\<close>

definition display_files :: "('a \<Rightarrow> string) \<Rightarrow> 'a list \<Rightarrow> string" where
  "display_files line xs =
     concat (map (\<lambda>x. ''  '' @ line x @ [nl]) (take maxDisplayFiles xs)) @
     (if length xs > maxDisplayFiles then ''  ... and '' @ show_nat (length xs - maxDisplayFiles) @ '' more files'' @ [nl] else [])"

definition filecheck_ok :: "string \<Rightarrow> string \<Rightarrow> string \<Rightarrow> Event" where
  "filecheck_ok check target desc = alert_with EventStatusOk desc (check_event check target)"

definition checkExistence :: "filecheck_Instance \<Rightarrow> string list \<Rightarrow> string list \<Rightarrow> Event" where
  "checkExistence ins missing accessErrors =
     (let target = targetLabel ins; threshold_desc = (''threshold_desc'', fc_Existence ins @ '': target files missing'') in
      if missing = [] \<and> accessErrors = [] then filecheck_ok ''filecheck::existence'' target ''all targets exist''
      else
        alert_with (fc_Existence ins)
          ((if missing = [] then []
            else show_nat (length missing) @ '' targets missing:'' @ [nl] @ concat (map (\<lambda>m. ''  '' @ m @ [nl]) missing)) @
           appendAccessErrors accessErrors)
          (SetAttrs (if missing = [] then [threshold_desc] else [(''missing_count'', show_nat (length missing)), threshold_desc])
            (check_event ''filecheck::existence'' target)))"

text \<open>\<^verbatim>\<open>Time.Sub\<close> saturates.\<close>

definition time_sub :: "int \<Rightarrow> int \<Rightarrow> duration" where
  "time_sub t u = max (- (2 ^ 63)) (min (2 ^ 63 - 1) (t - u))"

definition mtime_matches :: "MtimeCheck \<Rightarrow> duration \<Rightarrow> bool" where
  "mtime_matches m age \<longleftrightarrow> (if mt_Mode m = ''stale'' then age > mt_TimeSpan m else age < mt_TimeSpan m)"

definition mtime_scan :: "file_system \<Rightarrow> MtimeCheck \<Rightarrow> int \<Rightarrow> string list \<Rightarrow> (string \<times> int) list \<times> string list" where
  "mtime_scan fs m now files =
     (List.map_filter (\<lambda>fp. case fs_Stat fs fp of
          Found fi \<Rightarrow> if mtime_matches m (time_sub now (fi_ModTime fi)) then Some (fp, fi_ModTime fi) else None
        | _ \<Rightarrow> None) files,
      List.map_filter (\<lambda>fp. case fs_Stat fs fp of Found _ \<Rightarrow> None | r \<Rightarrow> Some (fp @ '': '' @ stat_message r)) files)"

definition checkMtime :: "(int \<Rightarrow> string) \<Rightarrow> filecheck_Instance \<Rightarrow> file_system \<Rightarrow> int \<Rightarrow> string list \<Rightarrow> Event" where
  "checkMtime fmt_time ins fs now files =
     (let m = fc_Mtime ins; target = targetLabel ins; (matched, errs) = mtime_scan fs m now files; span = dur_string (mt_TimeSpan m);
          stale = (mt_Mode m = ''stale'')
      in if matched = []
         then filecheck_ok ''filecheck::mtime'' target
           ((if stale then ''all files updated within '' @ span else ''files not changed'') @ appendAccessErrors errs)
         else
           alert_with (mt_Severity m)
             (show_nat (length matched) @ (if stale then '' files not updated for more than '' else '' files changed within '') @ span @ '':'' @ [nl] @
              display_files (\<lambda>(p, t). p @ '' ('' @ fmt_time t @ '')'') matched @ appendAccessErrors errs)
             (SetAttrs [(''matched_count'', show_nat (length matched)), (''mode'', mt_Mode m), (''time_span'', span),
                (''threshold_desc'', mt_Severity m @
                  (if mt_Mode m = ''changed'' then '': file changed within '' else '': file not updated within '') @ span)]
               (check_event ''filecheck::mtime'' target)))"

record checksum_scan =
  sc_prev :: "(string, string) gomap"
  sc_changed :: "(string \<times> string) list"
  sc_errs :: "string list"

definition checksum_file :: "file_system \<Rightarrow> int \<Rightarrow> string \<Rightarrow> checksum_scan \<Rightarrow> checksum_scan" where
  "checksum_file fs maxSize fp s =
     (case fs_Stat fs fp of
        Found fi \<Rightarrow>
          if fi_Size fi > maxSize then s
          else (case fs_sha256 fs fp of
             Inl e \<Rightarrow> s\<lparr>sc_errs := sc_errs s @ [fp @ '': '' @ e]\<rparr>
           | Inr hash \<Rightarrow>
               (let prev = map_of (sc_prev s) fp; s = s\<lparr>sc_prev := m_set fp hash (sc_prev s)\<rparr> in
                if prev \<noteq> None \<and> prev \<noteq> Some hash then s\<lparr>sc_changed := sc_changed s @ [(fp, hash)]\<rparr> else s))
      | r \<Rightarrow> s\<lparr>sc_errs := sc_errs s @ [fp @ '': '' @ stat_message r]\<rparr>)"

definition checkChecksum :: "filecheck_Instance \<Rightarrow> file_system \<Rightarrow> string list \<Rightarrow> Event \<times> filecheck_Instance" where
  "checkChecksum ins fs files =
     (let c = fc_Checksum ins; target = targetLabel ins;
          s = fold (checksum_file fs (cs_MaxFileSize c)) files \<lparr>sc_prev = fc_prevChecksums ins, sc_changed = [], sc_errs = []\<rparr>;
          changed = sc_changed s; errs = appendAccessErrors (sc_errs s);
          event = (if changed = [] then filecheck_ok ''filecheck::checksum'' target (''file checksums unchanged'' @ errs)
            else
              alert_with (cs_Severity c)
                (show_nat (length changed) @ '' file checksums changed:'' @ [nl] @
                 display_files (\<lambda>(p, h). p @ '' (sha256: '' @ take 16 h @ ''...)'') changed @ errs)
                (SetAttrs [(''changed_count'', show_nat (length changed)), (''threshold_desc'', cs_Severity c @ '': file checksum changed'')]
                  (check_event ''filecheck::checksum'' target)))
      in (event, ins\<lparr>fc_prevChecksums := sc_prev s\<rparr>))"

text \<open>What the three phases of a gather see.\<close>

record filecheck_world =
  fw_resolve :: file_system
  fw_mtime :: file_system
  fw_checksum :: file_system
  fw_now :: int

definition filecheck_Gather :: "(int \<Rightarrow> string) \<Rightarrow> filecheck_world \<Rightarrow> filecheck_Instance \<Rightarrow> Event list \<times> filecheck_Instance" where
  "filecheck_Gather fmt_time w ins =
     (let r = filecheck_resolveTargets (fw_resolve w) (fc_Targets ins); files = rv_files r;
          e1 = (if fc_Existence ins \<noteq> [] then [checkExistence ins (rv_missing r) (rv_errors r)] else []);
          e2 = (if mt_Severity (fc_Mtime ins) \<noteq> [] then [checkMtime fmt_time ins (fw_mtime w) (fw_now w) files] else [])
      in if cs_Severity (fc_Checksum ins) \<noteq> []
         then case checkChecksum ins (fw_checksum w) files of (e3, ins) \<Rightarrow> (e1 @ e2 @ [e3], ins)
         else (e1 @ e2, ins))"

section \<open>Facts\<close>

lemma walk_entries_distinct: "distinct files \<Longrightarrow> distinct (walk_entries es files)"
  by (induct es files rule: walk_entries.induct) (auto simp: addUnique_def)

lemma collectPath_distinct: "distinct files \<Longrightarrow> distinct (collectPath fs p files)"
  by (auto simp: collectPath_def walkDir_def walk_entries_distinct addUnique_def split: stat_answer.split)

lemma fold_collect_distinct: "distinct files \<Longrightarrow> distinct (fold (collectPath fs) ps files)"
  by (induct ps arbitrary: files) (auto simp: collectPath_distinct)

lemma resolve_target_distinct: "distinct (rv_files r) \<Longrightarrow> distinct (rv_files (resolve_target fs t r))"
  by (auto simp: resolve_target_def walkDir_def walk_entries_distinct addUnique_def fold_collect_distinct collectPath_distinct
      split: stat_answer.split sum.split list.split)

lemma resolved_distinct: "distinct (rv_files (filecheck_resolveTargets fs ts))"
proof -
  have "distinct (rv_files r) \<Longrightarrow> distinct (rv_files (fold (resolve_target fs) ts r))" for r
    by (induct ts arbitrary: r) (auto simp: resolve_target_distinct)
  then show ?thesis by (simp add: filecheck_resolveTargets_def Let_def distinct_take)
qed

text \<open>The checksum a gather reads of a file, if it is not too large and can be read.\<close>

definition file_reading :: "file_system \<Rightarrow> int \<Rightarrow> string \<Rightarrow> string option" where
  "file_reading fs maxSize fp =
     (case fs_Stat fs fp of
        Found fi \<Rightarrow> if fi_Size fi > maxSize then None else (case fs_sha256 fs fp of Inl _ \<Rightarrow> None | Inr h \<Rightarrow> Some h)
      | _ \<Rightarrow> None)"

definition differs :: "string option \<Rightarrow> string option \<Rightarrow> bool" where
  "differs old new \<longleftrightarrow> old \<noteq> None \<and> new \<noteq> None \<and> old \<noteq> new"

lemma checksum_file_effect:
  "map_of (sc_prev (checksum_file fs mx fp s)) x =
     (if x = fp \<and> file_reading fs mx fp \<noteq> None then file_reading fs mx fp else map_of (sc_prev s) x)"
  "sc_changed (checksum_file fs mx fp s) =
     sc_changed s @ (if differs (map_of (sc_prev s) fp) (file_reading fs mx fp) then [(fp, the (file_reading fs mx fp))] else [])"
  by (auto simp: checksum_file_def file_reading_def differs_def Let_def split: stat_answer.split sum.split)

lemma checksum_fold_effect:
  assumes "distinct files"
  shows "map_of (sc_prev (fold (checksum_file fs mx) files s)) x =
       (if x \<in> set files \<and> file_reading fs mx x \<noteq> None then file_reading fs mx x else map_of (sc_prev s) x)"
    and "sc_changed (fold (checksum_file fs mx) files s) =
       sc_changed s @ map (\<lambda>f. (f, the (file_reading fs mx f))) (filter (\<lambda>f. differs (map_of (sc_prev s) f) (file_reading fs mx f)) files)"
  using assms
proof (induct files arbitrary: s)
  case (Cons f files)
  { case 1 then show ?case using Cons by (auto simp: checksum_file_effect) }
  { case 2
    have "filter (\<lambda>g. differs (map_of (sc_prev (checksum_file fs mx f s)) g) (file_reading fs mx g)) files =
        filter (\<lambda>g. differs (map_of (sc_prev s) g) (file_reading fs mx g)) files"
      using 2 by (intro filter_cong) (auto simp: checksum_file_effect)
    then show ?case using Cons 2 by (simp add: checksum_file_effect) }
qed simp_all

text \<open>The last checksum read of a file in a series of gathers.\<close>

definition gather_reading :: "filecheck_Instance \<Rightarrow> filecheck_world \<Rightarrow> string \<Rightarrow> string option" where
  "gather_reading ins w fp =
     (if fp \<in> set (rv_files (filecheck_resolveTargets (fw_resolve w) (fc_Targets ins))) then file_reading (fw_checksum w) (cs_MaxFileSize (fc_Checksum ins)) fp
      else None)"

fun last_reading :: "filecheck_Instance \<Rightarrow> filecheck_world list \<Rightarrow> string \<Rightarrow> string option" where
  "last_reading ins [] fp = None"
| "last_reading ins (w # ws) fp =
     (case last_reading ins ws fp of Some h \<Rightarrow> Some h | None \<Rightarrow> gather_reading ins w fp)"

lemma last_reading_snoc:
  "last_reading ins (ws @ [w]) fp = (case gather_reading ins w fp of Some h \<Rightarrow> Some h | None \<Rightarrow> last_reading ins ws fp)"
  by (induct ws) (auto split: option.split)

definition filecheck_gathers :: "(int \<Rightarrow> string) \<Rightarrow> filecheck_Instance \<Rightarrow> filecheck_world list \<Rightarrow> filecheck_Instance" where
  "filecheck_gathers ft ins ws = foldl (\<lambda>ins w. snd (filecheck_Gather ft w ins)) ins ws"

lemma gather_settings:
  "snd (filecheck_Gather ft w ins) = ins\<lparr>fc_prevChecksums := fc_prevChecksums (snd (filecheck_Gather ft w ins))\<rparr>"
  by (simp add: filecheck_Gather_def checkChecksum_def Let_def)

lemma gather_prev:
  assumes "cs_Severity (fc_Checksum ins) \<noteq> []"
  shows "map_of (fc_prevChecksums (snd (filecheck_Gather ft w ins))) fp =
    (case gather_reading ins w fp of Some h \<Rightarrow> Some h | None \<Rightarrow> map_of (fc_prevChecksums ins) fp)"
  using assms
  by (auto simp: filecheck_Gather_def checkChecksum_def Let_def checksum_fold_effect [OF resolved_distinct] gather_reading_def split: option.split)

lemma gathers_state:
  assumes "cs_Severity (fc_Checksum ins) \<noteq> []" "fc_prevChecksums ins = []"
  shows "\<exists>prev. filecheck_gathers ft ins ws = ins\<lparr>fc_prevChecksums := prev\<rparr> \<and> (\<forall>fp. map_of prev fp = last_reading ins ws fp)"
proof (induct ws rule: rev_induct)
  case Nil
  have "ins\<lparr>fc_prevChecksums := fc_prevChecksums ins\<rparr> = ins" by simp
  then show ?case
    unfolding assms(2) by (intro exI [where x = "[]"]) (simp add: filecheck_gathers_def)
next
  case (snoc w ws)
  then obtain prev where prev: "filecheck_gathers ft ins ws = ins\<lparr>fc_prevChecksums := prev\<rparr>" "\<forall>fp. map_of prev fp = last_reading ins ws fp"
    by blast
  let ?g = "snd (filecheck_Gather ft w (ins\<lparr>fc_prevChecksums := prev\<rparr>))"
  have "filecheck_gathers ft ins (ws @ [w]) = ?g"
    using prev(1) by (simp add: filecheck_gathers_def)
  moreover have "?g = ins\<lparr>fc_prevChecksums := fc_prevChecksums ?g\<rparr>"
    using gather_settings [of ft w "ins\<lparr>fc_prevChecksums := prev\<rparr>"] by simp
  moreover have "map_of (fc_prevChecksums ?g) fp = last_reading ins (ws @ [w]) fp" for fp
    using prev(2) assms(1) by (simp add: gather_prev last_reading_snoc gather_reading_def split: option.split)
  ultimately show ?case by metis
qed

section \<open>Properties\<close>

text \<open>C36: after any series of gathers the checksum check alerts in a gather exactly when some file it can read differs from the last
  checksum read of it, however many gathers could not read the file in between, and the first reading of a file never alerts.\<close>

theorem checksum_alerts_on_change:
  assumes "cs_Severity (fc_Checksum ins) \<notin> {[], EventStatusOk}" "fc_prevChecksums ins = []"
  shows "\<exists>e. last (fst (filecheck_Gather ft w (filecheck_gathers ft ins ws))) = e \<and> is_event (targetLabel ins) ''filecheck::checksum'' e \<and>
     EventStatus e = (if \<exists>fp. differs (last_reading ins ws fp) (gather_reading ins w fp) then cs_Severity (fc_Checksum ins) else EventStatusOk)"
proof -
  have sev: "cs_Severity (fc_Checksum ins) \<noteq> []" using assms(1) by simp
  obtain prev where prev: "filecheck_gathers ft ins ws = ins\<lparr>fc_prevChecksums := prev\<rparr>" "\<forall>fp. map_of prev fp = last_reading ins ws fp"
    using gathers_state [OF sev assms(2)] by blast
  define files where "files = rv_files (filecheck_resolveTargets (fw_resolve w) (fc_Targets ins))"
  define s where "s = fold (checksum_file (fw_checksum w) (cs_MaxFileSize (fc_Checksum ins))) files \<lparr>sc_prev = prev, sc_changed = [], sc_errs = []\<rparr>"
  have "sc_changed s \<noteq> [] \<longleftrightarrow> (\<exists>fp. differs (last_reading ins ws fp) (gather_reading ins w fp))"
    using checksum_fold_effect(2) [OF resolved_distinct] prev(2)
    by (auto simp: s_def files_def gather_reading_def filter_empty_conv differs_def)
  then show ?thesis
    using sev by (auto simp: prev(1) filecheck_Gather_def checkChecksum_def Let_def s_def files_def targetLabel_def filecheck_ok_def intro!: check_events)
qed

definition sample_fs :: "string option \<Rightarrow> file_system" where
  "sample_fs hash = \<lparr>fs_Stat = (\<lambda>_. if hash = None then NotExist ''gone'' else Found \<lparr>fi_IsDir = False, fi_Size = 3, fi_ModTime = 0\<rparr>),
     fs_Glob = (\<lambda>_. Inr []), fs_WalkDir = (\<lambda>_. []), fs_sha256 = (\<lambda>_. Inr (the hash))\<rparr>"

definition sample_gather :: "string option \<Rightarrow> filecheck_world" where
  "sample_gather hash = \<lparr>fw_resolve = sample_fs hash, fw_mtime = sample_fs hash, fw_checksum = sample_fs hash, fw_now = 0\<rparr>"

definition sample_filecheck :: filecheck_Instance where
  "sample_filecheck = \<lparr>fc_Targets = [''/etc/passwd''], fc_Mtime = \<lparr>mt_Severity = [], mt_Mode = [], mt_TimeSpan = 0\<rparr>,
     fc_Checksum = \<lparr>cs_Severity = ''Warning'', cs_MaxFileSize = 10\<rparr>, fc_Existence = [], fc_prevChecksums = []\<rparr>"

text \<open>The file changes while it is away: the gather that finds it again alerts.\<close>

theorem checksum_alerts_on_change_witness:
  "EventStatus (last (fst (filecheck_Gather (\<lambda>_. []) (sample_gather (Some ''b''))
     (filecheck_gathers (\<lambda>_. []) sample_filecheck [sample_gather (Some ''a''), sample_gather None])))) = ''Warning''"
proof -
  have "differs (last_reading sample_filecheck [sample_gather (Some ''a''), sample_gather None] ''/etc/passwd'')
      (gather_reading sample_filecheck (sample_gather (Some ''b'')) ''/etc/passwd'')"
    by code_simp
  moreover have "cs_Severity (fc_Checksum sample_filecheck) \<notin> {[], EventStatusOk}" "fc_prevChecksums sample_filecheck = []"
    "cs_Severity (fc_Checksum sample_filecheck) = ''Warning''"
    by (simp_all add: sample_filecheck_def status_defs)
  ultimately show ?thesis
    using checksum_alerts_on_change [of sample_filecheck "\<lambda>_. []" "sample_gather (Some ''b'')"
        "[sample_gather (Some ''a''), sample_gather None]"] by auto
qed

text \<open>A target whose pattern is malformed is neither missing nor an error: the check reports that all targets exist.\<close>

theorem malformed_glob_exists:
  assumes "fc_Targets ins = [''/data/[a'']" "fc_Existence ins \<noteq> []" "fs_Stat (fw_resolve w) ''/data/[a'' = NotExist e"
    "fs_Glob (fw_resolve w) ''/data/[a'' = Inl bad"
  shows "hd (fst (filecheck_Gather ft w ins)) = filecheck_ok ''filecheck::existence'' ''/data/[a'' ''all targets exist''"
  using assms
  by (simp add: filecheck_Gather_def filecheck_resolveTargets_def resolve_target_def HasMeta_def checkExistence_def targetLabel_def Let_def checkChecksum_def)

text \<open>With every target missing, the stale check reports that all files were updated in time.\<close>

theorem stale_missing_fresh:
  assumes "fc_Targets ins = [t]" "fc_Existence ins = []" "mt_Severity (fc_Mtime ins) \<noteq> []" "mt_Mode (fc_Mtime ins) = ''stale''"
    "fs_Stat (fw_resolve w) t = NotExist e" "\<not> HasMeta t"
  shows "hd (fst (filecheck_Gather ft w ins)) = filecheck_ok ''filecheck::mtime'' t (''all files updated within '' @ dur_string (mt_TimeSpan (fc_Mtime ins)))"
  using assms
  by (simp add: filecheck_Gather_def filecheck_resolveTargets_def resolve_target_def checkMtime_def mtime_scan_def targetLabel_def Let_def checkChecksum_def
      appendAccessErrors_def map_filter_simps)

end
