(* ===== verification/Docker.thy ===== *)
theory Docker
  imports Host_States
begin

text \<open>
  \<^verbatim>\<open>plugins/docker/docker.go\<close> and \<^verbatim>\<open>api.go\<close>: the choice of containers, the five checks of a container and the restarts counted in a sliding
  window. The answers of the Docker API are an argument, by address, with the decoders of \<^verbatim>\<open>encoding/json\<close>; so are the
  conversion of a \<^verbatim>\<open>float64\<close> out of range to \<^verbatim>\<open>uint64\<close> and the formatting of times. The goroutines of the containers share nothing: each
  has its own restart state, and only the order of their events is left open.
\<close>

section \<open>The API\<close>

record containerListEntry =
  cl_Id :: string
  cl_Names :: "string list"
  cl_Image :: string
  cl_State :: string
  cl_Status :: string

record containerHealth =
  ch_Status :: string
  ch_FailingStreak :: int
  ch_Log :: "string list"

record containerState =
  ct_OOMKilled :: bool
  ct_ExitCode :: int
  ct_StartedAt :: string
  ct_FinishedAt :: string
  ct_Health :: "containerHealth option"

record containerHostConfig =
  hc_NanoCPUs :: int
  hc_CpuQuota :: int
  hc_CpuPeriod :: int

record containerInspect =
  in_State :: containerState
  in_HostConfig :: containerHostConfig
  in_RestartCount :: int

record throttlingData =
  td_ThrottledPeriods :: nat
  td_ThrottledTime :: nat

record cpuStats =
  cu_TotalUsage :: nat
  cu_PercpuUsage :: "nat list"
  cu_SystemCPUUsage :: nat
  cu_OnlineCPUs :: nat
  cu_Throttling :: throttlingData

datatype stat_value = StatFloat real | StatNumber int | StatOther

record memoryStats =
  ms_Usage :: nat
  ms_Limit :: nat
  ms_Stats :: "(string, stat_value) gomap"

record containerStats =
  st_CPU :: cpuStats
  st_PreCPU :: cpuStats
  st_Memory :: memoryStats

text \<open>An HTTP answer is an error or a status with a body.\<close>

type_synonym http_answer = "string + int \<times> string"

record docker_env =
  de_get :: "string \<Rightarrow> http_answer"
  de_version :: "string \<Rightarrow> string + string"
  de_list :: "string \<Rightarrow> string + containerListEntry list"
  de_inspect :: "string \<Rightarrow> string + containerInspect"
  de_stats :: "string \<Rightarrow> string + containerStats"
  de_now :: "string \<Rightarrow> int"
  de_quote :: "string \<Rightarrow> string"
  de_u64 :: "real \<Rightarrow> nat"
  de_time :: "string \<Rightarrow> string option"

definition docker_truncate :: "string \<Rightarrow> nat \<Rightarrow> string" where
  "docker_truncate s n = (if length (runes s) \<le> n then s else string_of_runes (take n (runes s)) @ ''...'')"

definition api_answer :: "string \<Rightarrow> (string \<Rightarrow> string + 'a) \<Rightarrow> http_answer \<Rightarrow> string + 'a" where
  "api_answer what decode r =
     (case r of
        Inl e \<Rightarrow> Inl e
      | Inr (code, body) \<Rightarrow>
          if code \<noteq> 200 then Inl (''HTTP '' @ show_int code @ '': '' @ docker_truncate body 200)
          else (case decode body of Inl e \<Rightarrow> Inl (''decode '' @ what @ '' response: '' @ e) | Inr v \<Rightarrow> Inr v))"

record restartRecord =
  rr_count :: int
  rr_timestamp :: int

record containerRestartState =
  cr_lastRestartCount :: int
  cr_initialized :: bool
  cr_records :: "restartRecord list"

record docker_Instance =
  dk_Socket :: string
  dk_APIVersion :: string
  dk_Timeout :: duration
  dk_Targets :: "string list"
  dk_Concurrency :: int
  dk_MaxContainers :: int
  dk_Window :: duration
  dk_RestartWarnGe :: int
  dk_RestartCriticalGe :: int
  dk_CpuUsage :: threshold
  dk_MemoryUsage :: threshold
  dk_baseURL :: string
  dk_apiVersion :: string
  dk_explicitNames :: "string list"
  dk_globFilter :: "Filter option"
  dk_restartStates :: "(string, containerRestartState) gomap"

definition newDockerHTTPClient :: "string \<Rightarrow> string" where
  "newDockerHTTPClient socket = (if prefix ''http://'' socket \<or> prefix ''https://'' socket then socket else ''http://localhost'')"

definition apiURL :: "docker_Instance \<Rightarrow> string \<Rightarrow> string" where
  "apiURL ins path = dk_baseURL ins @ ''/v'' @ dk_apiVersion ins @ path"

text \<open>Whatever its status, the body of the answer is decoded; every failure gives the fallback.\<close>

definition negotiateAPIVersion :: "docker_env \<Rightarrow> docker_Instance \<Rightarrow> docker_Instance" where
  "negotiateAPIVersion env ins =
     ins\<lparr>dk_apiVersion :=
       (case de_get env (dk_baseURL ins @ ''/version'') of
          Inl _ \<Rightarrow> ''1.25''
        | Inr (_, body) \<Rightarrow> (case de_version env body of Inl _ \<Rightarrow> ''1.25'' | Inr v \<Rightarrow> if v = [] then ''1.25'' else v))\<rparr>"

definition listContainers :: "docker_env \<Rightarrow> docker_Instance \<Rightarrow> string + containerListEntry list" where
  "listContainers env ins = api_answer ''list'' (de_list env) (de_get env (apiURL ins ''/containers/json?all=true''))"

definition inspectContainer :: "docker_env \<Rightarrow> docker_Instance \<Rightarrow> string \<Rightarrow> string + containerInspect" where
  "inspectContainer env ins i = api_answer ''inspect'' (de_inspect env) (de_get env (apiURL ins (''/containers/'' @ i @ ''/json'')))"

definition getContainerStats :: "docker_env \<Rightarrow> docker_Instance \<Rightarrow> string \<Rightarrow> string + containerStats" where
  "getContainerStats env ins i = api_answer ''stats'' (de_stats env) (de_get env (apiURL ins (''/containers/'' @ i @ ''/stats?stream=false'')))"

section \<open>Set-up\<close>

definition docker_defaults :: "string \<Rightarrow> docker_Instance \<Rightarrow> docker_Instance" where
  "docker_defaults os ins =
     (let socket = (if dk_Socket ins = [] then if os = ''windows'' then ''http://localhost:2375'' else ''/var/run/docker.sock'' else dk_Socket ins)
      in ins\<lparr>dk_Socket := trim_right (\<lambda>c. c = CHR ''/'') socket,
             dk_apiVersion := (if dk_APIVersion ins \<noteq> [] then dk_APIVersion ins else dk_apiVersion ins),
             dk_Timeout := (if dk_Timeout ins \<le> 0 then 10 * Second else dk_Timeout ins),
             dk_Concurrency := (if dk_Concurrency ins \<le> 0 then 5 else dk_Concurrency ins),
             dk_MaxContainers := (if dk_MaxContainers ins \<le> 0 then 100 else dk_MaxContainers ins),
             dk_Window := (if dk_Window ins = 0 then 600 * Second else dk_Window ins)\<rparr>)"

definition docker_Init :: "compilers \<Rightarrow> string \<Rightarrow> docker_Instance \<Rightarrow> string + docker_Instance" where
  "docker_Init cs os ins =
     (let ins = docker_defaults os ins in
      sbind (refuse (dk_Window ins < 60 * Second) ''restart_detected.window must be >= 1m'') (\<lambda>_.
      sbind (refuse (dk_RestartWarnGe ins > 0 \<and> dk_RestartCriticalGe ins > 0 \<and> dk_RestartWarnGe ins \<ge> dk_RestartCriticalGe ins)
        (''restart_detected.warn_ge('' @ show_int (dk_RestartWarnGe ins) @ '') must be less than restart_detected.critical_ge('' @
         show_int (dk_RestartCriticalGe ins) @ '')'')) (\<lambda>_.
      sbind (th_order (fmt_fixed 1) ''cpu_usage'' (dk_CpuUsage ins)) (\<lambda>_.
      sbind (th_order (fmt_fixed 1) ''memory_usage'' (dk_MemoryUsage ins)) (\<lambda>_.
      let globs = filter HasMeta (dk_Targets ins);
          ins = ins\<lparr>dk_restartStates := [], dk_explicitNames := remdups (filter (\<lambda>t. \<not> HasMeta t) (dk_Targets ins))\<rparr>
      in case (if globs = [] then Inr (dk_globFilter ins) else Compile cs globs) of
           Inl e \<Rightarrow> Inl (''invalid glob pattern in targets: '' @ e)
         | Inr f \<Rightarrow> Inr (ins\<lparr>dk_globFilter := f, dk_baseURL := newDockerHTTPClient (dk_Socket ins)\<rparr>))))))"

section \<open>Containers\<close>

definition shortContainerID :: "string \<Rightarrow> string" where
  "shortContainerID i = take 12 i"

definition containerName :: "containerListEntry \<Rightarrow> string" where
  "containerName c = (case cl_Names c of [] \<Rightarrow> shortContainerID (cl_Id c) | n # _ \<Rightarrow> trim_prefix ''/'' n)"

definition isActiveState :: "string \<Rightarrow> bool" where
  "isActiveState state \<longleftrightarrow> state \<in> {''running'', ''paused'', ''restarting''}"

definition wanted :: "docker_Instance \<Rightarrow> containerListEntry \<Rightarrow> bool" where
  "wanted ins c \<longleftrightarrow>
     containerName c \<in> set (dk_explicitNames ins) \<or>
     (case dk_globFilter ins of None \<Rightarrow> False | Some f \<Rightarrow> isActiveState (cl_State c) \<and> Match f (containerName c))"

fun match_containers :: "docker_Instance \<Rightarrow> string list \<Rightarrow> containerListEntry list \<Rightarrow> containerListEntry list" where
  "match_containers ins seen [] = []"
| "match_containers ins seen (c # cs) =
     (if wanted ins c \<and> containerName c \<notin> set seen then c # match_containers ins (containerName c # seen) cs
      else match_containers ins seen cs)"

definition matchTargets :: "docker_Instance \<Rightarrow> containerListEntry list \<Rightarrow> containerListEntry list" where
  "matchTargets ins cs = match_containers ins [] cs"

definition buildContainerEvent :: "string \<Rightarrow> containerListEntry \<Rightarrow> Event" where
  "buildContainerEvent check c =
     SetAttrs ((if shortContainerID (cl_Id c) \<noteq> [] then [(''container_id'', shortContainerID (cl_Id c))] else []) @
         (if cl_Image c \<noteq> [] then [(''container_image'', cl_Image c)] else []))
       (check_event check (containerName c))"

definition checkContainerRunning :: "docker_env \<Rightarrow> containerListEntry \<Rightarrow> Event" where
  "checkContainerRunning env c =
     (let name = de_quote env (containerName c); state = cl_State c;
          event = SetCurrentValue state
            (SetAttrs [(''state'', state), (''status'', cl_Status c), (''threshold_desc'', ''Warning: paused/restarting, Critical: not running'')]
              (buildContainerEvent ''docker::container_running'' c))
      in if state = ''running'' then SetDescription (''container '' @ name @ '' is running'') event
         else if state \<in> {''paused'', ''restarting''} then alert_with EventStatusWarning (''container '' @ name @ '' is '' @ state) event
         else alert_with EventStatusCritical
           (''container '' @ name @ '' is not running (state: '' @ state @
            (if state \<in> {''exited'', ''dead''} then '', status: '' @ cl_Status c else []) @ '')'') event)"

section \<open>Restarts in a window\<close>

definition expire :: "int \<Rightarrow> restartRecord list \<Rightarrow> restartRecord list" where
  "expire cutoff rs = filter (\<lambda>r. rr_timestamp r > cutoff) rs"

definition restart_step :: "duration \<Rightarrow> int \<Rightarrow> int \<Rightarrow> containerRestartState \<Rightarrow> containerRestartState" where
  "restart_step window now cnt s =
     (let delta = i64 (cnt - cr_lastRestartCount s);
          s = (if \<not> cr_initialized s then s\<lparr>cr_lastRestartCount := cnt, cr_initialized := True\<rparr>
               else if delta < 0 then s\<lparr>cr_lastRestartCount := cnt, cr_records := []\<rparr>
               else if delta > 0
               then s\<lparr>cr_lastRestartCount := cnt, cr_records := cr_records s @ [\<lparr>rr_count = delta, rr_timestamp = now\<rparr>]\<rparr>
               else s)
      in s\<lparr>cr_records := expire (now - window) (cr_records s)\<rparr>)"

definition restartsInWindow :: "containerRestartState \<Rightarrow> int" where
  "restartsInWindow s = foldl (\<lambda>n r. i64 (n + rr_count r)) 0 (cr_records s)"

definition parseDockerTime :: "docker_env \<Rightarrow> string \<Rightarrow> string option" where
  "parseDockerTime env s = (if s = [] \<or> s = ''0001-01-01T00:00:00Z'' then None else de_time env s)"

definition restart_attrs :: "docker_env \<Rightarrow> docker_Instance \<Rightarrow> containerInspect \<Rightarrow> int \<Rightarrow> labels" where
  "restart_attrs env ins d n =
     [(''restarts_in_window'', show_int n), (''window'', humanDuration (dk_Window ins)), (''restart_count'', show_int (in_RestartCount d)),
      (''exit_code'', show_int (ct_ExitCode (in_State d)))] @
     (if ct_OOMKilled (in_State d) then [(''oom_killed'', ''true'')] else []) @
     (case parseDockerTime env (ct_StartedAt (in_State d)) of None \<Rightarrow> [] | Some t \<Rightarrow> [(''started_at'', t)]) @
     (case parseDockerTime env (ct_FinishedAt (in_State d)) of None \<Rightarrow> [] | Some t \<Rightarrow> [(''finished_at'', t)])"

definition restart_event :: "docker_env \<Rightarrow> docker_Instance \<Rightarrow> containerListEntry \<Rightarrow> containerInspect \<Rightarrow> int \<Rightarrow> Event" where
  "restart_event env ins c d n =
     (let w = dk_RestartWarnGe ins; cr = dk_RestartCriticalGe ins; window = humanDuration (dk_Window ins);
          desc = ''container '' @ de_quote env (containerName c) @ '' restarted '' @ show_int n @ '' times in last '' @ window;
          oom = (if ct_OOMKilled (in_State d) then '' (OOM killed, exit code: '' @ show_int (ct_ExitCode (in_State d)) @ '')'' else []);
          event = with_parts ((if w > 0 then [''Warning '' @ ge_sign @ '' '' @ show_int w] else []) @
              (if cr > 0 then [''Critical '' @ ge_sign @ '' '' @ show_int cr] else []))
            (SetCurrentValue (show_int n) (SetAttrs (restart_attrs env ins d n) (buildContainerEvent ''docker::restart_detected'' c)))
      in if cr > 0 \<and> n \<ge> cr then alert_with EventStatusCritical (desc @ '', above critical threshold '' @ show_int cr @ oom) event
         else if w > 0 \<and> n \<ge> w then alert_with EventStatusWarning (desc @ '', above warning threshold '' @ show_int w @ oom) event
         else SetDescription desc event)"

definition checkRestartDetected ::
  "docker_env \<Rightarrow> docker_Instance \<Rightarrow> containerListEntry \<Rightarrow> containerInspect \<Rightarrow> containerRestartState \<Rightarrow> Event list \<times> containerRestartState" where
  "checkRestartDetected env ins c d s =
     (if dk_RestartWarnGe ins \<le> 0 \<and> dk_RestartCriticalGe ins \<le> 0 then ([], s)
      else let s = restart_step (dk_Window ins) (de_now env (cl_Id c)) (in_RestartCount d) s
           in ([restart_event env ins c d (restartsInWindow s)], s))"

section \<open>Health and usage\<close>

definition checkHealthStatus :: "docker_env \<Rightarrow> containerListEntry \<Rightarrow> containerInspect \<Rightarrow> Event list" where
  "checkHealthStatus env c d =
     (case ct_Health (in_State d) of
        None \<Rightarrow> []
      | Some h \<Rightarrow>
          let bad = (ch_Status h = ''unhealthy'');
              attrs = [(''health_status'', ch_Status h)] @
                (if bad then (''health_failing_streak'', show_int (ch_FailingStreak h)) #
                   (if ch_Log h \<noteq> [] then [(''health_last_output'', docker_truncate (trim_space (last (ch_Log h))) 200)] else []) else []) @
                [(''threshold_desc'', ''Critical: health '' @ ne_sign @ '' healthy'')];
              event = SetCurrentValue (ch_Status h) (SetAttrs attrs (buildContainerEvent ''docker::health_status'' c));
              desc = ''container '' @ de_quote env (containerName c) @ '' health check: '' @ ch_Status h
          in [if bad then alert_with EventStatusCritical (desc @ '' (failing streak: '' @ show_int (ch_FailingStreak h) @ '')'') event
              else SetDescription desc event])"

definition u64_sub :: "nat \<Rightarrow> nat \<Rightarrow> nat" where
  "u64_sub a b = nat ((int a - int b) mod 2 ^ 64)"

definition getAllocatedCPUs :: "containerHostConfig \<Rightarrow> real" where
  "getAllocatedCPUs hc =
     (if hc_NanoCPUs hc > 0 then fl (hc_NanoCPUs hc) / 10 ^ 9
      else if hc_CpuQuota hc > 0 \<and> hc_CpuPeriod hc > 0 then fl (hc_CpuQuota hc) / fl (hc_CpuPeriod hc)
      else 0)"

definition onlineCPUs :: "cpuStats \<Rightarrow> nat" where
  "onlineCPUs s = (if cu_OnlineCPUs s = 0 then length (cu_PercpuUsage s) mod 2 ^ 32 else cu_OnlineCPUs s)"

definition cpu_percent :: "containerStats \<Rightarrow> containerHostConfig \<Rightarrow> real option" where
  "cpu_percent st hc =
     (let cpuDelta = u64_sub (cu_TotalUsage (st_CPU st)) (cu_TotalUsage (st_PreCPU st));
          systemDelta = u64_sub (cu_SystemCPUUsage (st_CPU st)) (cu_SystemCPUUsage (st_PreCPU st)); cpus = onlineCPUs (st_CPU st);
          cores = fl (int cpuDelta) / fl (int systemDelta) * real cpus; allocated = getAllocatedCPUs hc
      in if systemDelta = 0 \<or> cpus = 0 then None
         else Some (if allocated > 0 then cores / allocated * 100 else cores / real cpus * 100))"

definition cpu_limit :: "containerStats \<Rightarrow> containerHostConfig \<Rightarrow> string" where
  "cpu_limit st hc =
     (if getAllocatedCPUs hc > 0 then fmt_fixed 1 (getAllocatedCPUs hc) @ '' cores'' else show_nat (onlineCPUs (st_CPU st)) @ '' cores (unlimited)'')"

definition unset :: "threshold \<Rightarrow> bool" where
  "unset t \<longleftrightarrow> th_WarnGe t \<le> 0 \<and> th_CriticalGe t \<le> 0"

definition usage_rated :: "docker_env \<Rightarrow> containerListEntry \<Rightarrow> threshold \<Rightarrow> string \<Rightarrow> real \<Rightarrow> Event \<Rightarrow> Event" where
  "usage_rated env c t what v event =
     (let desc = ''container '' @ de_quote env (containerName c) @ '' '' @ what in
      rated t v (desc @ '', above critical threshold '' @ pct 0 (th_CriticalGe t)) (desc @ '', above warning threshold '' @ pct 0 (th_WarnGe t)) desc
        (with_parts (th_parts (pct 0) t) event))"

definition docker_checkCpuUsage :: "docker_env \<Rightarrow> docker_Instance \<Rightarrow> containerListEntry \<Rightarrow> containerStats \<Rightarrow> containerInspect \<Rightarrow> Event list" where
  "docker_checkCpuUsage env ins c st d =
     (if unset (dk_CpuUsage ins) then []
      else case cpu_percent st (in_HostConfig d) of
        None \<Rightarrow> []
      | Some v \<Rightarrow>
          let limit = cpu_limit st (in_HostConfig d); td = cu_Throttling (st_CPU st);
              attrs = [(''cpu_percent'', pct 1 v), (''cpu_limit'', limit), (''online_cpus'', show_nat (onlineCPUs (st_CPU st)))] @
                (if td_ThrottledPeriods td > 0 \<or> td_ThrottledTime td > 0
                 then [(''cpu_throttled_periods'', show_nat (td_ThrottledPeriods td)),
                       (''cpu_throttled_time'', fmt_fixed 1 (fl (int (td_ThrottledTime td)) / 10 ^ 9) @ ''s'')] else [])
          in [usage_rated env c (dk_CpuUsage ins) (''CPU usage '' @ pct 1 v @ '' of '' @ limit) v
                (SetCurrentValue (pct 1 v) (SetAttrs attrs (buildContainerEvent ''docker::cpu_usage'' c)))])"

definition getStatUint64 :: "docker_env \<Rightarrow> (string, stat_value) gomap \<Rightarrow> string \<Rightarrow> nat" where
  "getStatUint64 env stats key =
     (case map_of stats key of
        Some (StatFloat x) \<Rightarrow> de_u64 env x
      | Some (StatNumber n) \<Rightarrow> nat (n mod 2 ^ 64)
      | _ \<Rightarrow> 0)"

definition getFileCache :: "docker_env \<Rightarrow> memoryStats \<Rightarrow> nat" where
  "getFileCache env m =
     (case filter (\<lambda>v. v > 0) (map (getStatUint64 env (ms_Stats m)) [''inactive_file'', ''total_inactive_file'', ''cache'']) of
        [] \<Rightarrow> 0
      | v # _ \<Rightarrow> v)"

text \<open>\<^verbatim>\<open>math.Round\<close> rounds half away from zero; the values are not negative.\<close>

definition round_up :: "real \<Rightarrow> int" where
  "round_up x = \<lfloor>x + 1 / 2\<rfloor>"

definition docker_humanBytes :: "nat \<Rightarrow> string" where
  "docker_humanBytes b =
     (let x = fl (int b) in
      if b \<ge> 2 ^ 30 then fmt_fixed 1 (of_int (round_up (x / 2 ^ 30 * 10)) / 10) @ '' GiB''
      else if b \<ge> 2 ^ 20 then show_int (round_up (x / 2 ^ 20)) @ '' MiB''
      else if b \<ge> 2 ^ 10 then show_int (round_up (x / 2 ^ 10)) @ '' KiB''
      else show_nat b @ '' B'')"

definition docker_checkMemoryUsage :: "docker_env \<Rightarrow> docker_Instance \<Rightarrow> containerListEntry \<Rightarrow> containerStats \<Rightarrow> Event list" where
  "docker_checkMemoryUsage env ins c st =
     (let m = st_Memory st; limit = ms_Limit m; used = ms_Usage m - getFileCache env m; v = fl (int used) / fl (int limit) * 100 in
      if unset (dk_MemoryUsage ins) \<or> limit = 0 \<or> limit > 2 ^ 50 then []
      else
        [usage_rated env c (dk_MemoryUsage ins)
           (''memory usage '' @ pct 1 v @ '' ('' @ docker_humanBytes used @ '' / '' @ docker_humanBytes limit @ '')'') v
           (SetCurrentValue (pct 1 v)
             (SetAttrs [(''memory_percent'', pct 1 v), (''memory_used'', docker_humanBytes used), (''memory_limit'', docker_humanBytes limit)]
               (buildContainerEvent ''docker::memory_usage'' c)))])"

section \<open>Gathering\<close>

definition stats_failed :: "docker_env \<Rightarrow> containerListEntry \<Rightarrow> string \<Rightarrow> string \<Rightarrow> Event" where
  "stats_failed env c e check =
     alert_with EventStatusCritical (''failed to get container stats for '' @ de_quote env (containerName c) @ '': '' @ e) (buildContainerEvent check c)"

definition usage_checks :: "docker_env \<Rightarrow> docker_Instance \<Rightarrow> containerListEntry \<Rightarrow> containerInspect \<Rightarrow> Event list" where
  "usage_checks env ins c d =
     (let cpu = \<not> unset (dk_CpuUsage ins); mem = \<not> unset (dk_MemoryUsage ins) in
      if \<not> cpu \<and> \<not> mem then []
      else case getContainerStats env ins (cl_Id c) of
        Inl e \<Rightarrow> (if cpu then [stats_failed env c e ''docker::cpu_usage''] else []) @ (if mem then [stats_failed env c e ''docker::memory_usage''] else [])
      | Inr st \<Rightarrow> docker_checkCpuUsage env ins c st d @ docker_checkMemoryUsage env ins c st)"

definition container_goroutine ::
  "docker_env \<Rightarrow> docker_Instance \<Rightarrow> containerListEntry \<Rightarrow> containerRestartState \<Rightarrow> Event list \<times> containerRestartState" where
  "container_goroutine env ins c s =
     (case inspectContainer env ins (cl_Id c) of
        Inl e \<Rightarrow>
          ([checkContainerRunning env c,
            alert_with EventStatusCritical (''failed to inspect container '' @ de_quote env (containerName c) @ '': '' @ e)
              (buildContainerEvent ''docker::container_running'' c)], s)
      | Inr d \<Rightarrow>
          (case checkRestartDetected env ins c d s of
             (es, s) \<Rightarrow>
               (checkContainerRunning env c # es @
                (if cl_State c \<noteq> ''running'' then [] else checkHealthStatus env c d @ usage_checks env ins c d), s)))"

definition engine_event :: "string \<Rightarrow> string \<Rightarrow> Event" where
  "engine_event status desc = alert_with status desc (check_event ''docker::container_running'' ''docker-engine'')"

definition zero_restart :: containerRestartState where
  "zero_restart = \<lparr>cr_lastRestartCount = 0, cr_initialized = False, cr_records = []\<rparr>"

text \<open>The restart state of a container is set up before its goroutine starts. Names are distinct among the matched containers.\<close>

definition restart_state :: "docker_Instance \<Rightarrow> containerListEntry \<Rightarrow> containerRestartState" where
  "restart_state ins c = (case map_of (dk_restartStates ins) (containerName c) of None \<Rightarrow> zero_restart | Some s \<Rightarrow> s)"

definition not_found_events :: "docker_env \<Rightarrow> docker_Instance \<Rightarrow> containerListEntry list \<Rightarrow> Event list" where
  "not_found_events env ins matched =
     map (\<lambda>name. alert_with EventStatusCritical (''container '' @ de_quote env name @ '' not found'') (check_event ''docker::container_running'' name))
       (filter (\<lambda>name. name \<notin> containerName ` set matched) (dk_explicitNames ins))"

definition docker_Gather :: "docker_env \<Rightarrow> docker_Instance \<Rightarrow> Event list \<times> docker_Instance" where
  "docker_Gather env ins =
     (if dk_Targets ins = [] then ([], ins)
      else
        let ins = (if dk_apiVersion ins = [] then negotiateAPIVersion env ins else ins) in
        case listContainers env ins of
          Inl e \<Rightarrow> ([engine_event EventStatusCritical (''failed to list containers: '' @ e)], ins)
        | Inr containers \<Rightarrow>
            let matched = matchTargets ins containers; over = (int (length matched) > dk_MaxContainers ins);
                checked = (if over then take (nat (dk_MaxContainers ins)) matched else matched);
                limit = show_int (dk_MaxContainers ins);
                runs = map (\<lambda>c. (containerName c, container_goroutine env ins c (restart_state ins c))) checked;
                states = fold (\<lambda>(name, es, s). m_set name s) runs (dk_restartStates ins)
            in ([engine_event EventStatusOk (''Docker Engine is reachable, '' @ show_nat (length containers) @ '' containers found'')] @
                (if over
                 then [engine_event EventStatusWarning (''matched '' @ show_nat (length matched) @ '' containers, exceeding max_containers '' @ limit @
                         '', only checking first '' @ limit)] else []) @
                not_found_events env ins checked @ concat (map (\<lambda>(name, es, s). es) runs),
                ins\<lparr>dk_restartStates := filter (\<lambda>(name, _). name \<in> containerName ` set containers) states\<rparr>))"

section \<open>Facts\<close>

lemma match_containers_props:
  "distinct (map containerName (match_containers ins seen cs)) \<and> set (map containerName (match_containers ins seen cs)) \<inter> set seen = {} \<and>
   set (match_containers ins seen cs) \<subseteq> {c \<in> set cs. wanted ins c}"
  by (induct ins seen cs rule: match_containers.induct) auto

lemma match_containers_covers:
  "c \<in> set cs \<Longrightarrow> wanted ins c \<Longrightarrow> containerName c \<in> set seen \<union> containerName ` set (match_containers ins seen cs)"
  by (induct ins seen cs rule: match_containers.induct) auto

text \<open>The observations of a container, as times and restart counts: the last stretch in which the count did not fall, and its consecutive pairs.\<close>

fun last_stretch :: "(int \<times> int) list \<Rightarrow> (int \<times> int) list" where
  "last_stretch [] = []"
| "last_stretch (p # ps) = (if sorted (map snd (p # ps)) then p # ps else last_stretch ps)"

definition pairs :: "'a list \<Rightarrow> ('a \<times> 'a) list" where
  "pairs xs = zip xs (tl xs)"

definition restarts_between :: "(int \<times> int) list \<Rightarrow> int \<Rightarrow> int" where
  "restarts_between obs cutoff = (\<Sum>((t, c), (t', c')) \<leftarrow> pairs (last_stretch obs). if t' > cutoff then c' - c else 0)"

definition restart_run :: "duration \<Rightarrow> (int \<times> int) list \<Rightarrow> containerRestartState" where
  "restart_run w obs = foldl (\<lambda>s (t, c). restart_step w t c s) zero_restart obs"

lemma pairs_simps [simp]: "pairs [] = []" "pairs [x] = []" "pairs (x # y # ys) = (x, y) # pairs (y # ys)"
  by (simp_all add: pairs_def)

lemma pairs_snoc: "xs \<noteq> [] \<Longrightarrow> pairs (xs @ [x]) = pairs xs @ [(last xs, x)]"
  by (induct xs rule: induct_list012) auto

lemma last_stretch_ne: "obs \<noteq> [] \<Longrightarrow> last_stretch obs \<noteq> [] \<and> last (last_stretch obs) = last obs"
  by (induct obs) auto

lemma last_stretch_sorted: "sorted (map snd (last_stretch obs))"
  by (induct obs) auto

lemma sorted_le_last: "sorted xs \<Longrightarrow> (x :: int) \<in> set xs \<Longrightarrow> x \<le> last xs"
  by (induct xs) auto

lemma last_stretch_snoc:
  "obs \<noteq> [] \<Longrightarrow> last_stretch (obs @ [p]) = (if snd (last obs) \<le> snd p then last_stretch obs @ [p] else [p])"
proof (induct obs)
  case (Cons o' os)
  let ?m = "\<lambda>xs. sorted (map snd xs)"
  have whole: "?m ((o' # os) @ [p]) \<longleftrightarrow> ?m (o' # os) \<and> snd (last (o' # os)) \<le> snd p"
  proof
    assume s: "?m (o' # os) \<and> snd (last (o' # os)) \<le> snd p"
    have "snd x \<le> snd (last (o' # os))" if "x \<in> set (o' # os)" for x
      using s that sorted_le_last [of "map snd (o' # os)" "snd x"] by (auto simp: last_map split: if_splits)
    then have "snd x \<le> snd p" if "x \<in> set (o' # os)" for x using s that order_trans by blast
    then show "?m ((o' # os) @ [p])" using s by (simp add: sorted_append)
  qed (auto simp: sorted_append)
  show ?case
  proof (cases "os = []")
    case True
    then show ?thesis by simp
  next
    case False
    then show ?thesis
      using Cons whole by (simp only: append_Cons last_stretch.simps) (auto simp del: sorted_wrt.simps list.map)
  qed
qed simp

lemma sum_i64:
  assumes "\<forall>r \<in> set rs. 0 \<le> rr_count r" "0 \<le> n" "n + sum_list (map rr_count rs) < 2 ^ 63"
  shows "foldl (\<lambda>n r. i64 (n + rr_count r)) n rs = n + sum_list (map rr_count rs)"
  using assms
proof (induct rs arbitrary: n)
  case (Cons r rs)
  have "0 \<le> sum_list (map rr_count rs)" using Cons(2) by (intro sum_list_nonneg) auto
  then have "i64 (n + rr_count r) = n + rr_count r" using Cons(2-4) by (intro i64_id in_i64_nonneg) auto
  then show ?case using Cons by simp
qed simp

definition stretch_records :: "(int \<times> int) list \<Rightarrow> restartRecord list" where
  "stretch_records obs =
     map (\<lambda>((t, c), (t', c')). \<lparr>rr_count = c' - c, rr_timestamp = t'\<rparr>) (filter (\<lambda>((t, c), (t', c')). c' > c) (pairs (last_stretch obs)))"

definition counts_ok :: "(int \<times> int) list \<Rightarrow> bool" where
  "counts_ok obs \<longleftrightarrow> (\<forall>(t, c) \<in> set obs. 0 \<le> c \<and> c < 2 ^ 62)"

lemma stretch_records_snoc:
  assumes "obs \<noteq> []"
  shows "stretch_records (obs @ [(t, c)]) =
    (if c < snd (last obs) then []
     else stretch_records obs @ (if c > snd (last obs) then [\<lparr>rr_count = c - snd (last obs), rr_timestamp = t\<rparr>] else []))"
  using last_stretch_ne [OF assms] by (auto simp: stretch_records_def last_stretch_snoc [OF assms] pairs_snoc split: prod.splits)

lemma expire_expire: "c \<le> c' \<Longrightarrow> expire c' (expire c rs) = expire c' rs"
  by (induct rs) (auto simp: expire_def)

lemma expire_append: "expire c (rs @ rs') = expire c rs @ expire c rs'"
  by (simp add: expire_def)

lemma restart_run_state:
  assumes "obs \<noteq> []" "sorted (map fst obs)" "counts_ok obs"
  shows "restart_run w obs = \<lparr>cr_lastRestartCount = snd (last obs), cr_initialized = True, cr_records = expire (fst (last obs) - w) (stretch_records obs)\<rparr>"
  using assms
proof (induct obs rule: rev_induct)
  case (snoc p obs)
  obtain t c where p: "p = (t, c)" by fastforce
  show ?case
  proof (cases "obs = []")
    case True
    then show ?thesis
      by (simp add: p restart_run_def restart_step_def zero_restart_def stretch_records_def expire_def Let_def)
  next
    case False
    define lt lc where "lt = fst (last obs)" and "lc = snd (last obs)"
    have "last obs \<in> set obs" using False by simp
    then have rng: "0 \<le> c" "c < 2 ^ 62" "0 \<le> lc" "lc < 2 ^ 62" and t: "lt \<le> t"
      using snoc(3,4) by (auto simp: p counts_ok_def sorted_append lt_def lc_def)
    have "in_i64 (c - lc)" using rng by (auto simp: in_i64_def)
    moreover have "restart_run w obs = \<lparr>cr_lastRestartCount = lc, cr_initialized = True, cr_records = expire (lt - w) (stretch_records obs)\<rparr>"
      using snoc False by (simp add: counts_ok_def sorted_append lt_def lc_def)
    moreover have "restart_run w (obs @ [p]) = restart_step w t c (restart_run w obs)"
      by (simp add: restart_run_def p)
    ultimately show ?thesis
      using t by (simp add: p restart_step_def stretch_records_snoc [OF False] lc_def [symmetric] expire_append expire_expire Let_def)
        (simp add: expire_def)
  qed
qed simp

lemma stretch_sum:
  "sorted (map snd xs) \<Longrightarrow>
   sum_list (map rr_count (expire k (map (\<lambda>((t, c), (t', c')). \<lparr>rr_count = c' - c, rr_timestamp = t'\<rparr>) (filter (\<lambda>((t, c), (t', c')). c' > c) (pairs xs))))) =
   (\<Sum>((t, c), (t', c')) \<leftarrow> pairs xs. if t' > k then c' - c else 0)"
  by (induct xs rule: induct_list012) (auto simp: expire_def)

lemma growth_bound:
  "sorted (map snd xs) \<Longrightarrow> xs \<noteq> [] \<Longrightarrow> (\<Sum>((t, c), (t', c')) \<leftarrow> pairs xs. if t' > k then c' - c else 0) \<le> snd (last xs) - (snd (hd xs) :: int)"
  by (induct xs rule: induct_list012) auto

section \<open>Properties\<close>

text \<open>C37: the restarts a container is reported with are exactly the increases of its restart count that were seen within the window, since the
  count last fell; the first observation is only a baseline.\<close>

theorem docker_restart_window:
  assumes "obs \<noteq> []" "sorted (map fst obs)" "counts_ok obs"
  shows "restartsInWindow (restart_run w obs) = restarts_between obs (fst (last obs) - w)"
proof -
  let ?rs = "expire (fst (last obs) - w) (stretch_records obs)"
  have sum: "sum_list (map rr_count ?rs) = restarts_between obs (fst (last obs) - w)"
    unfolding stretch_records_def restarts_between_def by (rule stretch_sum) (rule last_stretch_sorted)
  have "0 \<le> snd (hd (last_stretch obs))" "snd (last obs) < 2 ^ 62"
  proof -
    have "set (last_stretch obs) \<subseteq> set obs" by (induct obs) auto
    then have "hd (last_stretch obs) \<in> set obs" "last obs \<in> set obs"
      using assms(1) last_stretch_ne [OF assms(1)] by auto
    then show "0 \<le> snd (hd (last_stretch obs))" "snd (last obs) < 2 ^ 62"
      using assms(3) by (auto simp: counts_ok_def)
  qed
  then have "restarts_between obs (fst (last obs) - w) < 2 ^ 63"
    using growth_bound [OF last_stretch_sorted, of obs "fst (last obs) - w"] last_stretch_ne [OF assms(1)]
    unfolding restarts_between_def by simp
  moreover have "\<forall>r \<in> set ?rs. 0 \<le> rr_count r"
    by (auto simp: expire_def stretch_records_def)
  ultimately show ?thesis
    using sum_i64 [of ?rs 0] sum by (simp add: restartsInWindow_def restart_run_state [OF assms])
qed

theorem docker_restart_window_witness:
  "restartsInWindow (restart_run 10 [(0, 4), (5, 6), (20, 7), (25, 7)]) = 1"
proof -
  have "counts_ok [(0, 4), (5, 6), (20, 7), (25, 7)]" by (simp add: counts_ok_def)
  then show ?thesis
    using docker_restart_window [of "[(0, 4), (5, 6), (20, 7), (25, 7)]" 10] by (simp add: restarts_between_def)
qed

lemma gather_listed:
  assumes "dk_Targets ins \<noteq> []" "dk_apiVersion ins \<noteq> []" "listContainers env ins = Inr cs" "int (length (matchTargets ins cs)) > dk_MaxContainers ins"
  shows "\<exists>rest d d'. fst (docker_Gather env ins) = engine_event EventStatusOk d # engine_event EventStatusWarning d' #
    not_found_events env ins (take (nat (dk_MaxContainers ins)) (matchTargets ins cs)) @ rest"
  using assms by (simp add: docker_Gather_def Let_def) blast

text \<open>Above \<^verbatim>\<open>max_containers\<close> every gather reports the engine as fine and at once warns about it, with the same labels, so the alert recovers and is
  raised again each time.\<close>

theorem docker_limit_flaps:
  assumes "dk_Targets ins \<noteq> []" "dk_apiVersion ins \<noteq> []" "listContainers env ins = Inr cs" "int (length (matchTargets ins cs)) > dk_MaxContainers ins"
  shows "\<exists>e e' rest. fst (docker_Gather env ins) = e # e' # rest \<and> Labels e = Labels e' \<and> EventStatus e = EventStatusOk \<and> EventStatus e' = EventStatusWarning"
  using gather_listed [OF assms] by (auto simp: engine_event_def)

text \<open>A container named in the targets that exists but lies beyond the limit is reported as not found.\<close>

theorem docker_limit_hides:
  assumes "dk_Targets ins \<noteq> []" "dk_apiVersion ins \<noteq> []" "listContainers env ins = Inr cs" "int (length (matchTargets ins cs)) > dk_MaxContainers ins"
    "c \<in> set (drop (nat (dk_MaxContainers ins)) (matchTargets ins cs))" "containerName c \<in> set (dk_explicitNames ins)"
  shows "c \<in> set cs \<and>
    (\<exists>e \<in> set (fst (docker_Gather env ins)). is_event (containerName c) ''docker::container_running'' e \<and> EventStatus e = EventStatusCritical \<and>
       Description e = ''container '' @ de_quote env (containerName c) @ '' not found'')"
proof -
  let ?m = "matchTargets ins cs" and ?k = "nat (dk_MaxContainers ins)"
  have "c \<in> set ?m" using assms(5) by (rule in_set_dropD)
  then have "c \<in> set cs" using match_containers_props [of ins "[]" cs] by (auto simp: matchTargets_def)
  moreover have "distinct (map containerName (take ?k ?m @ drop ?k ?m))"
    using match_containers_props [of ins "[]" cs] by (simp add: matchTargets_def)
  then have "containerName c \<notin> containerName ` set (take ?k ?m)"
    using assms(5) by (auto simp del: append_take_drop_id)
  define e where "e = alert_with EventStatusCritical (''container '' @ de_quote env (containerName c) @ '' not found'')
      (check_event ''docker::container_running'' (containerName c))"
  have "e \<in> set (not_found_events env ins (take ?k ?m))"
    using assms(6) \<open>containerName c \<notin> _\<close> by (simp add: not_found_events_def e_def)
  then have "e \<in> set (fst (docker_Gather env ins))"
    using gather_listed [OF assms(1-4)] by auto
  moreover have "is_event (containerName c) ''docker::container_running'' e"
    unfolding e_def by (intro check_events)
  moreover have "EventStatus e = EventStatusCritical" "Description e = ''container '' @ de_quote env (containerName c) @ '' not found''"
    by (simp_all add: e_def alert_with_def SetDescription_def SetEventStatus_def)
  ultimately show ?thesis by blast
qed

text \<open>When the first gather cannot ask for the version, the fallback is kept for good.\<close>

theorem docker_fallback_sticks:
  assumes "dk_Targets ins \<noteq> []" "dk_apiVersion ins = []" "de_get env (dk_baseURL ins @ ''/version'') = Inl e"
  shows "dk_apiVersion (snd (docker_Gather env' (snd (docker_Gather env ins)))) = ''1.25''"
proof -
  have keep: "dk_apiVersion (snd (docker_Gather env i)) = (if dk_Targets i \<noteq> [] \<and> dk_apiVersion i = [] then dk_apiVersion (negotiateAPIVersion env i) else dk_apiVersion i)"
    for env i by (auto simp: docker_Gather_def Let_def split: sum.split)
  show ?thesis
    using assms by (simp add: keep) (simp add: negotiateAPIVersion_def)
qed

end
