(* ===== verification/Cert.thy ===== *)
theory Cert
  imports File_Check
begin

text \<open>
  \<^verbatim>\<open>plugins/cert/cert.go\<close>: the expiry of certificates of remote servers and of files. Dialling, the TLS handshake, the PEM blocks of
  a file and the parsing of a certificate are arguments; the SMTP dialogue before a handshake runs on the bytes of the
  connection. The goroutines of the targets share nothing, so their events are listed in the order of the targets.
\<close>

section \<open>Settings\<close>

record ExpiryCheck =
  ex_WarnWithin :: duration
  ex_CriticalWithin :: duration

record cert_Instance =
  ce_RemoteTargets :: "string list"
  ce_FileTargets :: "string list"
  ce_Timeout :: duration
  ce_Concurrency :: int
  ce_MaxFileTargets :: int
  ce_StartTLS :: string
  ce_ServerName :: string
  ce_RemoteExpiry :: ExpiryCheck
  ce_FileExpiry :: ExpiryCheck
  ce_targetSNI :: "(string, string) gomap"
  ce_explicitFilePaths :: "string list"
  ce_fileGlobPatterns :: "string list"

definition cert_Hour :: duration where "cert_Hour = 3600 * Second"

definition validateAndFillThresholds :: "ExpiryCheck \<Rightarrow> bool \<Rightarrow> string + ExpiryCheck" where
  "validateAndFillThresholds check hasTargets =
     (let w = ex_WarnWithin check; c = ex_CriticalWithin check in
      if w > 0 \<and> c > 0 \<and> c \<ge> w then Inl (''critical_within('' @ dur_string c @ '') must be less than warn_within('' @ dur_string w @ '')'')
      else Inr (if hasTargets \<and> w = 0 \<and> c = 0 then check\<lparr>ex_WarnWithin := 720 * cert_Hour, ex_CriticalWithin := 168 * cert_Hour\<rparr> else check))"

text \<open>A remote target: what follows the last \<^verbatim>\<open>@\<close> is its server name.\<close>

definition split_sni :: "string \<Rightarrow> string \<times> string" where
  "split_sni raw =
     (case last_index_byte (CHR ''@'') raw of
        None \<Rightarrow> (raw, [])
      | Some i \<Rightarrow> if i > 0 then (take i raw, drop (i + 1) raw) else (raw, []))"

definition host_port :: "string \<Rightarrow> string \<times> string" where
  "host_port target =
     (case SplitHostPort target of
        Inl _ \<Rightarrow> (trim_right (\<lambda>c. c = CHR '']'') (trim_left (\<lambda>c. c = CHR ''['') target), ''443'')
      | Inr hp \<Rightarrow> hp)"

fun remote_targets :: "(string \<Rightarrow> string) \<Rightarrow> nat \<Rightarrow> string list \<Rightarrow> (string, string) gomap \<Rightarrow> string + string list \<times> (string, string) gomap" where
  "remote_targets quote i [] sni = Inr ([], sni)"
| "remote_targets quote i (raw # raws) sni =
     (let (target, name) = split_sni raw; (host, port) = host_port target in
      if host = [] then Inl (''remote_targets['' @ show_nat i @ ''] '' @ quote raw @ '': empty host'')
      else
        let normalized = JoinHostPort host port in
        map_sum id (map_prod (Cons normalized) id)
          (remote_targets quote (i + 1) raws (if name \<noteq> [] then m_set normalized name sni else sni)))"

definition cert_Init :: "(string \<Rightarrow> string) \<Rightarrow> cert_Instance \<Rightarrow> string + cert_Instance" where
  "cert_Init quote ins =
     (if ce_RemoteTargets ins = [] \<and> ce_FileTargets ins = [] then Inr ins
      else
        sbind (remote_targets quote 0 (ce_RemoteTargets ins) []) (\<lambda>(targets, sni).
        sbind (refuse (ce_StartTLS ins \<notin> {[], ''smtp''}) (''unsupported starttls protocol: '' @ quote (ce_StartTLS ins) @ '' (supported: [smtp])'')) (\<lambda>_.
        case validateAndFillThresholds (ce_RemoteExpiry ins) (targets \<noteq> []) of
          Inl e \<Rightarrow> Inl (''remote_expiry: '' @ e)
        | Inr re \<Rightarrow>
            (case validateAndFillThresholds (ce_FileExpiry ins) (ce_FileTargets ins \<noteq> []) of
               Inl e \<Rightarrow> Inl (''file_expiry: '' @ e)
             | Inr fe \<Rightarrow>
                 Inr (ins\<lparr>ce_RemoteTargets := targets, ce_targetSNI := sni, ce_RemoteExpiry := re, ce_FileExpiry := fe,
                   ce_Timeout := (if ce_Timeout ins \<le> 0 then 10 * Second else ce_Timeout ins),
                   ce_Concurrency := (if ce_Concurrency ins \<le> 0 then 10 else ce_Concurrency ins),
                   ce_MaxFileTargets := (if ce_MaxFileTargets ins \<le> 0 then 100 else ce_MaxFileTargets ins),
                   ce_fileGlobPatterns := ce_fileGlobPatterns ins @ filter HasMeta (ce_FileTargets ins),
                   ce_explicitFilePaths := ce_explicitFilePaths ins @ filter (\<lambda>t. \<not> HasMeta t) (ce_FileTargets ins)\<rparr>)))))"

definition determineSNI :: "cert_Instance \<Rightarrow> string \<Rightarrow> string" where
  "determineSNI ins target =
     (case map_of (ce_targetSNI ins) target of
        Some sni \<Rightarrow> sni
      | None \<Rightarrow>
          if ce_ServerName ins \<noteq> [] then ce_ServerName ins
          else (case SplitHostPort target of Inl _ \<Rightarrow> target | Inr (host, _) \<Rightarrow> host))"

section \<open>Expiry\<close>

record certificate =
  x_Subject :: string
  x_Issuer :: string
  x_Serial :: "string option"
  x_Raw :: string
  x_NotBefore :: int
  x_NotAfter :: int
  x_DNSNames :: "string list"

fun earliest_loop :: "certificate \<Rightarrow> nat \<Rightarrow> nat \<Rightarrow> certificate list \<Rightarrow> certificate \<times> nat" where
  "earliest_loop earliest idx i [] = (earliest, idx)"
| "earliest_loop earliest idx i (c # cs) =
     (if x_NotAfter c < x_NotAfter earliest then earliest_loop c i (i + 1) cs else earliest_loop earliest idx (i + 1) cs)"

definition earliestExpiry :: "certificate list \<Rightarrow> certificate \<times> nat" where
  "earliestExpiry certs = earliest_loop (hd certs) 0 1 (tl certs)"

definition cert_humanDuration :: "duration \<Rightarrow> string" where
  "cert_humanDuration d =
     (let d = \<bar>d\<bar>; days = d div cert_Hour div 24; hours = d div cert_Hour mod 24; minutes = d div (60 * Second) in
      if days > 0 then show_int days @ '' days '' @ show_int hours @ '' hours''
      else if hours > 0 then show_int hours @ '' hours '' @ show_int (minutes mod 60) @ '' minutes''
      else show_int minutes @ '' minutes'')"

definition upper_hex :: "char \<Rightarrow> string" where
  "upper_hex c = map upper_char (hex_encode [c])"

text \<open>The big-endian bytes of the serial number, or of the digest.\<close>

definition formatSerial :: "string option \<Rightarrow> string" where
  "formatSerial n = (case n of None \<Rightarrow> [] | Some b \<Rightarrow> join '':'' (map upper_hex b))"

definition sha256Fingerprint :: "(string \<Rightarrow> string) \<Rightarrow> string \<Rightarrow> string" where
  "sha256Fingerprint sha256 raw = join '':'' (map upper_hex (sha256 raw))"

record cert_env =
  cx_quote :: "string \<Rightarrow> string"
  cx_sha256 :: "string \<Rightarrow> string"
  cx_utc :: "int \<Rightarrow> string"

definition expiry_attrs :: "cert_env \<Rightarrow> duration \<Rightarrow> certificate \<Rightarrow> nat \<Rightarrow> ExpiryCheck \<Rightarrow> labels" where
  "expiry_attrs env timeUntil cert chainLen check =
     [(''cert_subject'', x_Subject cert), (''cert_issuer'', x_Issuer cert), (''cert_serial'', formatSerial (x_Serial cert)),
      (''cert_sha256'', sha256Fingerprint (cx_sha256 env) (x_Raw cert)), (''cert_not_before'', cx_utc env (x_NotBefore cert)),
      (''cert_expires_at'', cx_utc env (x_NotAfter cert)), (''cert_chain_count'', show_nat chainLen),
      (''threshold_desc'', join '', ''
        ((if ex_WarnWithin check > 0 then [''Warning: expires within '' @ cert_humanDuration (ex_WarnWithin check)] else []) @
         (if ex_CriticalWithin check > 0 then [''Critical: within '' @ cert_humanDuration (ex_CriticalWithin check)] else []))),
      (''time_until_expiry'', (if timeUntil \<ge> 0 then [] else ''-'') @ cert_humanDuration timeUntil)] @
     (if x_DNSNames cert \<noteq> [] then [(''cert_dns_names'', join '', '' (x_DNSNames cert))] else [])"

text \<open>\<open>now\<close> is read after the time until the expiry.\<close>

definition expiry_status :: "int \<Rightarrow> duration \<Rightarrow> certificate \<Rightarrow> ExpiryCheck \<Rightarrow> string" where
  "expiry_status now timeUntil cert check =
     (if now < x_NotBefore cert \<or> timeUntil < 0 \<or> ex_CriticalWithin check > 0 \<and> timeUntil \<le> ex_CriticalWithin check then EventStatusCritical
      else if ex_WarnWithin check > 0 \<and> timeUntil \<le> ex_WarnWithin check then EventStatusWarning
      else EventStatusOk)"

definition expiry_desc :: "cert_env \<Rightarrow> int \<Rightarrow> duration \<Rightarrow> certificate \<Rightarrow> nat \<Rightarrow> ExpiryCheck \<Rightarrow> string" where
  "expiry_desc env now timeUntil cert certIdx check =
     (let pre = (if certIdx > 0 then ''intermediate cert '' @ x_Subject cert @ '' '' else []) in
      if now < x_NotBefore cert then pre @ ''cert not yet valid (starts at '' @ cx_utc env (x_NotBefore cert) @ '')''
      else if timeUntil < 0 then pre @ ''expired '' @ cert_humanDuration timeUntil @ '' ago (expired at '' @ cx_utc env (x_NotAfter cert) @ '')''
      else if ex_CriticalWithin check > 0 \<and> timeUntil \<le> ex_CriticalWithin check
      then pre @ ''expires in '' @ cert_humanDuration timeUntil @ '', within critical threshold '' @ cert_humanDuration (ex_CriticalWithin check)
      else if ex_WarnWithin check > 0 \<and> timeUntil \<le> ex_WarnWithin check
      then pre @ ''expires in '' @ cert_humanDuration timeUntil @ '', within warning threshold '' @ cert_humanDuration (ex_WarnWithin check)
      else ''cert expires at '' @ cx_utc env (x_NotAfter cert) @ '', everything is ok'')"

definition evaluateExpiry :: "cert_env \<Rightarrow> int \<Rightarrow> int \<Rightarrow> Event \<Rightarrow> certificate \<Rightarrow> nat \<Rightarrow> nat \<Rightarrow> ExpiryCheck \<Rightarrow> Event" where
  "evaluateExpiry env now0 now event cert certIdx chainLen check =
     (let timeUntil = time_sub (x_NotAfter cert) now0; event = SetAttrs (expiry_attrs env timeUntil cert chainLen check) event;
          status = expiry_status now timeUntil cert check; desc = expiry_desc env now timeUntil cert certIdx check
      in if status = EventStatusOk then SetDescription desc event else alert_with status desc event)"

definition report_chain :: "cert_env \<Rightarrow> int \<Rightarrow> int \<Rightarrow> Event \<Rightarrow> certificate list \<Rightarrow> ExpiryCheck \<Rightarrow> Event" where
  "report_chain env now0 now event certs check =
     (case earliestExpiry certs of (cert, idx) \<Rightarrow> evaluateExpiry env now0 now event cert idx (length certs) check)"

section \<open>The SMTP dialogue\<close>

text \<open>What arrives on the connection, what a read past its end reports, the errors of the two writes and of the successive
  deadlines. The result is an error or the bytes left for the handshake.\<close>

record smtp_conn =
  sm_in :: string
  sm_stop :: string
  sm_write :: "nat \<Rightarrow> string option"
  sm_deadline :: "nat \<Rightarrow> string option"

definition read_line :: "string \<Rightarrow> (string \<times> string) option" where
  "read_line s = (case index_byte nl s of None \<Rightarrow> None | Some i \<Rightarrow> Some (take (i + 1) s, drop (i + 1) s))"

definition must :: "string option \<Rightarrow> string \<Rightarrow> string + 'a \<Rightarrow> string + 'a" where
  "must e what k = (case e of Some m \<Rightarrow> Inl (what @ m) | None \<Rightarrow> k)"

function ehlo_loop :: "smtp_conn \<Rightarrow> nat \<Rightarrow> string \<Rightarrow> string + nat \<times> string" where
  "ehlo_loop c k s =
     must (sm_deadline c k) []
       (case read_line s of
          None \<Rightarrow> Inl (''failed to read EHLO response: '' @ sm_stop c)
        | Some (line, rest) \<Rightarrow>
            if length line < 4 then Inl (''unexpected EHLO response: '' @ trim_space line)
            else if \<not> prefix ''250'' line then Inl (''EHLO rejected: '' @ trim_space line)
            else if line ! 3 = CHR '' '' then Inr (k + 1, rest)
            else ehlo_loop c (k + 1) rest)"
  by pat_completeness auto

termination
  by (relation "measure (\<lambda>(c, k, s). length s)") (auto simp: read_line_def split: option.splits dest: index_byte_Some)

declare ehlo_loop.simps [simp del]

definition smtpStartTLS :: "smtp_conn \<Rightarrow> string + string" where
  "smtpStartTLS c =
     must (sm_deadline c 0) []
       (case read_line (sm_in c) of
          None \<Rightarrow> Inl (''failed to read SMTP banner: '' @ sm_stop c)
        | Some (banner, s) \<Rightarrow>
            if \<not> prefix ''220'' banner then Inl (''unexpected SMTP banner: '' @ trim_space banner)
            else must (sm_deadline c 1) [] (must (sm_write c 0) ''failed to send EHLO: ''
              (sbind (ehlo_loop c 2 s) (\<lambda>(k, s).
                must (sm_deadline c k) [] (must (sm_write c 1) ''failed to send STARTTLS: ''
                  (must (sm_deadline c (k + 1)) []
                    (case read_line s of
                       None \<Rightarrow> Inl (''failed to read STARTTLS response: '' @ sm_stop c)
                     | Some (resp, s) \<Rightarrow> if \<not> prefix ''220'' resp then Inl (''STARTTLS rejected: '' @ trim_space resp) else Inr s)))))))"

section \<open>Checks\<close>

definition maxCertFileSize :: int where "maxCertFileSize = 1048576"

text \<open>What a check of a remote target meets: the connection or the error of dialling, the dialogue, the peer's certificates.\<close>

record remote_world =
  rw_dial :: "string \<Rightarrow> string + smtp_conn"
  rw_handshake :: "string \<Rightarrow> string \<Rightarrow> string + certificate list"
  rw_now0 :: int
  rw_now :: int

definition checkRemote :: "cert_env \<Rightarrow> remote_world \<Rightarrow> cert_Instance \<Rightarrow> string \<Rightarrow> Event" where
  "checkRemote env w ins target =
     (let sni = determineSNI ins target; event = SetAttrs [(''cert_sni'', sni)] (check_event ''cert::remote_expiry'' target) in
      case rw_dial w target of
        Inl e \<Rightarrow> alert_with EventStatusCritical (''TLS connection to '' @ target @ '' failed: '' @ e) event
      | Inr conn \<Rightarrow>
          (case (if ce_StartTLS ins \<noteq> [] then smtpStartTLS conn else Inr (sm_in conn)) of
             Inl e \<Rightarrow> alert_with EventStatusCritical (map upper_char (ce_StartTLS ins) @ '' STARTTLS negotiation with '' @ target @ '' failed: '' @ e) event
           | Inr s \<Rightarrow>
               (case rw_handshake w sni s of
                  Inl e \<Rightarrow> alert_with EventStatusCritical (''TLS handshake with '' @ target @ '' failed: '' @ e) event
                | Inr [] \<Rightarrow> alert_with EventStatusCritical (''no peer certificates from '' @ target) event
                | Inr certs \<Rightarrow> report_chain env (rw_now0 w) (rw_now w) event certs (ce_RemoteExpiry ins))))"

record file_world =
  fx_stat :: "string \<Rightarrow> stat_answer"
  fx_read :: "string \<Rightarrow> string + string"
  fx_glob :: "string \<Rightarrow> string + string list"
  fx_pem :: "string \<Rightarrow> (string \<times> string) list"
  fx_parse :: "string \<Rightarrow> string + certificate"
  fx_now0 :: int
  fx_now :: int

definition parseCerts :: "file_world \<Rightarrow> string \<Rightarrow> string + certificate list" where
  "parseCerts w content =
     (let certs = List.map_filter (\<lambda>(t, bytes).
            if t \<noteq> ''CERTIFICATE'' then None else (case fx_parse w bytes of Inl _ \<Rightarrow> None | Inr c \<Rightarrow> Some c)) (fx_pem w content)
      in if certs \<noteq> [] then Inr certs
         else (case fx_parse w content of Inl e \<Rightarrow> Inl (''neither PEM nor DER: '' @ e) | Inr c \<Rightarrow> Inr [c]))"

definition checkFile :: "cert_env \<Rightarrow> file_world \<Rightarrow> cert_Instance \<Rightarrow> string \<Rightarrow> Event" where
  "checkFile env w ins target =
     (let event = check_event ''cert::file_expiry'' target; bad = (\<lambda>d. alert_with EventStatusCritical d event) in
      case fx_stat w target of
        NotExist _ \<Rightarrow> bad (''certificate file not found: '' @ target)
      | StatError e \<Rightarrow> bad (''failed to stat '' @ target @ '': '' @ e)
      | Found info \<Rightarrow>
          if fi_Size info > maxCertFileSize then bad (''file too large ('' @ show_int (fi_Size info) @ '' bytes), likely not a certificate: '' @ target)
          else (case fx_read w target of
                  Inl e \<Rightarrow> bad (''failed to read '' @ target @ '': '' @ e)
                | Inr content \<Rightarrow>
                    (case parseCerts w content of
                       Inl e \<Rightarrow> bad (''no valid certificates found in '' @ target @ '': '' @ e)
                     | Inr [] \<Rightarrow> bad (''no valid certificates found in '' @ target)
                     | Inr certs \<Rightarrow> report_chain env (fx_now0 w) (fx_now w) event certs (ce_FileExpiry ins))))"

definition glob_files :: "file_world \<Rightarrow> string \<Rightarrow> string list" where
  "glob_files w pattern =
     (case fx_glob w pattern of
        Inl _ \<Rightarrow> []
      | Inr ms \<Rightarrow> filter (\<lambda>m. case fx_stat w m of Found info \<Rightarrow> \<not> fi_IsDir info | _ \<Rightarrow> False) ms)"

definition resolveFileTargets :: "file_world \<Rightarrow> cert_Instance \<Rightarrow> string list" where
  "resolveFileTargets w ins = fold addUnique (ce_explicitFilePaths ins @ concat (map (glob_files w) (ce_fileGlobPatterns ins))) []"

definition cert_Gather :: "cert_env \<Rightarrow> (string \<Rightarrow> remote_world) \<Rightarrow> file_world \<Rightarrow> (string \<Rightarrow> file_world) \<Rightarrow> cert_Instance \<Rightarrow> Event list" where
  "cert_Gather env rw fw0 fw ins =
     (if ce_RemoteTargets ins = [] \<and> ce_FileTargets ins = [] then []
      else
        let files = resolveFileTargets fw0 ins; over = (int (length files) > ce_MaxFileTargets ins); limit = show_int (ce_MaxFileTargets ins);
            checked = (if over then take (nat (ce_MaxFileTargets ins)) files else files)
        in map (\<lambda>t. checkRemote env (rw t) ins t) (ce_RemoteTargets ins) @
           (if over
            then [alert_with EventStatusWarning (''file_targets resolved to '' @ show_nat (length files) @ '' files, exceeding max_file_targets('' @ limit @
                    ''), only checking the first '' @ limit) (check_event ''cert::file_expiry'' ''glob'')] else []) @
           map (\<lambda>f. checkFile env (fw f) ins f) checked)"

section \<open>Properties\<close>

lemma earliest_loop_least:
  "earliest_loop e i k cs = (c, j) \<Longrightarrow> c \<in> insert e (set cs) \<and> (\<forall>d \<in> insert e (set cs). x_NotAfter c \<le> x_NotAfter d)"
  by (induct e i k cs rule: earliest_loop.induct) (auto split: if_splits)

lemma earliest_least:
  "certs \<noteq> [] \<Longrightarrow> earliestExpiry certs = (c, j) \<Longrightarrow> c \<in> set certs \<and> (\<forall>d \<in> set certs. x_NotAfter c \<le> x_NotAfter d)"
  using earliest_loop_least [of "hd certs" 0 1 "tl certs" c j] by (cases certs) (auto simp: earliestExpiry_def)

lemma report_chain_status:
  assumes "earliestExpiry certs = (c, j)" "EventStatus e = EventStatusOk"
  shows "EventStatus (report_chain env n0 n e certs check) = expiry_status n (time_sub (x_NotAfter c) n0) c check"
  using assms by (simp add: report_chain_def evaluateExpiry_def Let_def)

lemma expiry_status_values: "expiry_status n t c check \<in> {EventStatusOk, EventStatusWarning, EventStatusCritical}"
  by (simp add: expiry_status_def)

text \<open>What the expiry of one certificate alone calls for.\<close>

definition deserved :: "int \<Rightarrow> certificate \<Rightarrow> ExpiryCheck \<Rightarrow> string" where
  "deserved n0 c check =
     (let t = time_sub (x_NotAfter c) n0 in
      if t < 0 \<or> ex_CriticalWithin check > 0 \<and> t \<le> ex_CriticalWithin check then EventStatusCritical
      else if ex_WarnWithin check > 0 \<and> t \<le> ex_WarnWithin check then EventStatusWarning
      else EventStatusOk)"

lemma deserved_mono: "x_NotAfter c \<le> x_NotAfter d \<Longrightarrow> SeverityRank (deserved n0 d check) \<le> SeverityRank (deserved n0 c check)"
  by (auto simp: deserved_def Let_def time_sub_def SeverityRank_def status_defs)

text \<open>the event of a certificate chain is at least as severe as the expiry of each of its certificates calls for, so an expiring
  intermediate certificate is reported like the leaf.\<close>

theorem chain_expiry_reported:
  assumes "certs \<noteq> []" "c \<in> set certs" "EventStatus e = EventStatusOk"
  shows "SeverityRank (deserved n0 c check) \<le> SeverityRank (EventStatus (report_chain env n0 n e certs check))"
proof -
  obtain d j where d: "earliestExpiry certs = (d, j)" by fastforce
  have "SeverityRank (deserved n0 c check) \<le> SeverityRank (deserved n0 d check)"
    using earliest_least [OF assms(1) d] assms(2) deserved_mono by blast
  also have "\<dots> \<le> SeverityRank (expiry_status n (time_sub (x_NotAfter d) n0) d check)"
    by (auto simp: deserved_def expiry_status_def Let_def SeverityRank_def status_defs)
  finally show ?thesis by (simp add: report_chain_status [OF d assms(3)])
qed

definition sample_cert :: "int \<Rightarrow> int \<Rightarrow> certificate" where
  "sample_cert a b = \<lparr>x_Subject = ''CN=x'', x_Issuer = ''CN=ca'', x_Serial = None, x_Raw = [], x_NotBefore = a, x_NotAfter = b, x_DNSNames = []\<rparr>"

definition sample_expiry :: ExpiryCheck where
  "sample_expiry = \<lparr>ex_WarnWithin = 720 * cert_Hour, ex_CriticalWithin = 168 * cert_Hour\<rparr>"

definition sample_cert_env :: cert_env where
  "sample_cert_env = \<lparr>cx_quote = id, cx_sha256 = (\<lambda>_. []), cx_utc = (\<lambda>_. [])\<rparr>"

theorem chain_expiry_reported_witness:
  "SeverityRank (deserved 0 (sample_cert 0 (24 * cert_Hour)) sample_expiry) = 3 \<and>
   SeverityRank (EventStatus (report_chain sample_cert_env 0 0 (check_event ''cert::remote_expiry'' ''h:443'')
     [sample_cert 0 (9000 * cert_Hour), sample_cert 0 (24 * cert_Hour)] sample_expiry)) = 3"
proof -
  have "SeverityRank (deserved 0 (sample_cert 0 (24 * cert_Hour)) sample_expiry) = 3"
    by code_simp
  moreover have "SeverityRank (EventStatus (report_chain sample_cert_env 0 0 (check_event ''cert::remote_expiry'' ''h:443'')
     [sample_cert 0 (9000 * cert_Hour), sample_cert 0 (24 * cert_Hour)] sample_expiry)) \<ge> SeverityRank (deserved 0 (sample_cert 0 (24 * cert_Hour)) sample_expiry)"
    using chain_expiry_reported [of "[sample_cert 0 (9000 * cert_Hour), sample_cert 0 (24 * cert_Hour)]" "sample_cert 0 (24 * cert_Hour)"
        "check_event ''cert::remote_expiry'' ''h:443''" 0 sample_expiry sample_cert_env 0] by simp
  moreover have "SeverityRank s \<le> 3" for s by (simp add: SeverityRank_def)
  ultimately show ?thesis by (metis le_antisym)
qed

text \<open>Only the certificate that expires first is looked at: a leaf that is not valid yet goes unnoticed behind an
  intermediate certificate that expires earlier.\<close>

theorem future_leaf_unnoticed:
  "\<exists>certs. 0 < x_NotBefore (hd certs) \<and>
     EventStatus (report_chain env 0 0 (check_event ''cert::remote_expiry'' ''h:443'') certs sample_expiry) = EventStatusOk"
proof (rule exI [where x = "[sample_cert (24 * cert_Hour) (9000 * cert_Hour), sample_cert 0 (8000 * cert_Hour)]"])
  have "earliestExpiry [sample_cert (24 * cert_Hour) (9000 * cert_Hour), sample_cert 0 (8000 * cert_Hour)] = (sample_cert 0 (8000 * cert_Hour), 1)"
    by (simp add: earliestExpiry_def sample_cert_def cert_Hour_def)
  then show "0 < x_NotBefore (hd [sample_cert (24 * cert_Hour) (9000 * cert_Hour), sample_cert 0 (8000 * cert_Hour)]) \<and>
      EventStatus (report_chain env 0 0 (check_event ''cert::remote_expiry'' ''h:443'') [sample_cert (24 * cert_Hour) (9000 * cert_Hour), sample_cert 0 (8000 * cert_Hour)] sample_expiry) = EventStatusOk"
    by (simp add: report_chain_status) (simp add: expiry_status_def sample_cert_def sample_expiry_def time_sub_def cert_Hour_def)
qed

text \<open>A server that greets with more than one line, as the protocol allows, is refused: the second line of the greeting is taken as the
  answer to the command sent after the first.\<close>

theorem long_greeting_refused:
  assumes "\<forall>k. sm_deadline c k = None" "\<forall>k. sm_write c k = None"
    "sm_in c = ''220-mail.example.org ESMTP'' @ [CHR 0x0D, nl] @ ''220 ready'' @ [CHR 0x0D, nl] @ rest"
  shows "smtpStartTLS c = Inl ''EHLO rejected: 220 ready''"
proof -
  have l1: "read_line (sm_in c) = Some (''220-mail.example.org ESMTP'' @ [CHR 0x0D, nl], ''220 ready'' @ [CHR 0x0D, nl] @ rest)"
    using index_byte_append [of nl "''220-mail.example.org ESMTP'' @ [CHR 0x0D]" "''220 ready'' @ [CHR 0x0D, nl] @ rest"] assms(3)
    by (simp add: read_line_def nl_def)
  have l2: "read_line (''220 ready'' @ [CHR 0x0D, nl] @ rest) = Some (''220 ready'' @ [CHR 0x0D, nl], rest)"
    using index_byte_append [of nl "''220 ready'' @ [CHR 0x0D]" rest] by (simp add: read_line_def nl_def)
  have "ehlo_loop c 2 (''220 ready'' @ [CHR 0x0D, nl] @ rest) = Inl ''EHLO rejected: 220 ready''"
    unfolding ehlo_loop.simps [of c 2] l2 using assms(1) by (simp add: must_def trim_space_def trim_right_def is_space_def nl_def)
  then show ?thesis
    unfolding smtpStartTLS_def l1 using assms(1,2) by (simp add: must_def)
qed

text \<open>Two targets that differ only in their server name share one entry: the last name is used for both.\<close>

theorem server_names_collide:
  "remote_targets quote 0 [''h:443@a'', ''h:443@b''] [] = Inr ([''h:443'', ''h:443''], [(''h:443'', ''b'')])"
  by code_simp

lemma report_chain_event: "is_event t check e \<Longrightarrow> is_event t check (report_chain env n0 n e certs x)"
  by (auto simp: report_chain_def evaluateExpiry_def Let_def intro!: check_events split: prod.split)

lemma checkRemote_event: "is_event t ''cert::remote_expiry'' (checkRemote env w ins t)"
  by (auto simp: checkRemote_def Let_def intro!: check_events report_chain_event split: sum.split list.split)

lemma checkFile_event: "is_event t ''cert::file_expiry'' (checkFile env w ins t)"
  by (auto simp: checkFile_def Let_def intro!: check_events report_chain_event split: sum.split list.split stat_answer.split)

text \<open>The warning about too many files is raised for a target of its own that never recovers.\<close>

theorem file_limit_never_recovers:
  assumes "''glob'' \<notin> set (resolveFileTargets fw0 ins)"
  shows "\<forall>e \<in> set (cert_Gather env rw fw0 fw ins). is_event ''glob'' ''cert::file_expiry'' e \<longrightarrow> EventStatus e = EventStatusWarning"
proof (intro ballI impI)
  fix e
  assume e: "e \<in> set (cert_Gather env rw fw0 fw ins)" and glob: "is_event ''glob'' ''cert::file_expiry'' e"
  have "e \<noteq> checkRemote env w ins t" for w t
    using glob checkRemote_event [of t env w ins] by (auto simp: is_event_def)
  moreover have "e \<noteq> checkFile env (fw t) ins t" if "t \<in> set (resolveFileTargets fw0 ins)" for t
    using glob checkFile_event [of t env "fw t" ins] that assms by (auto simp: is_event_def)
  ultimately show "EventStatus e = EventStatusWarning"
    using e by (force simp: cert_Gather_def Let_def split: if_splits dest: in_set_takeD)
qed

end
