(* ===== verification/Sentinel.thy ===== *)
theory Sentinel
  imports Redis_Tools Redis_Gather
begin

text \<open>
  \<^verbatim>\<open>plugins/redis_sentinel\<close>: settings, the protocol client, the checks of a Sentinel and of the masters it watches, and the
  driver of theory \<open>Gather_Hung\<close>. The client reads replies like the one of the Redis plugin and differs in two error texts and in how an
  array is printed.
\<close>

section \<open>Settings\<close>

record SeverityCheck =
  sv_Enabled :: "bool option"
  sv_Severity :: string

record ThresholdCheck =
  th_Enabled :: "bool option"
  th_WarnLt :: int
  th_CriticalLt :: int

text \<open>\<^verbatim>\<open>OverviewCheck\<close> has the shape of a severity check.\<close>

record sentinel_settings =
  ss_Concurrency :: int
  ss_Timeout :: duration
  ss_ReadTimeout :: duration
  ss_Username :: string
  ss_Password :: string
  ss_ClientConfig :: ClientConfig
  ss_Connectivity :: SeverityCheck
  ss_Role :: SeverityCheck
  ss_MastersOverview :: SeverityCheck
  ss_CKQuorum :: SeverityCheck
  ss_MasterSDown :: SeverityCheck
  ss_MasterODown :: SeverityCheck
  ss_MasterAddrResolution :: SeverityCheck
  ss_PeerCount :: ThresholdCheck
  ss_KnownReplicas :: ThresholdCheck
  ss_KnownSentinels :: ThresholdCheck
  ss_FailoverInProgress :: SeverityCheck
  ss_Tilt :: SeverityCheck

record sentinel_Partial = sentinel_settings +
  sp_ID :: string

record sentinel_Instance = sentinel_settings +
  sn_Partial :: string
  sn_Targets :: "string list"
  sn_Masters :: "string list"

definition mergeSeverityCheck :: "SeverityCheck \<Rightarrow> SeverityCheck \<Rightarrow> SeverityCheck" where
  "mergeSeverityCheck dst src =
     \<lparr>sv_Enabled = or_flag (sv_Enabled dst) (sv_Enabled src), sv_Severity = or_str (sv_Severity dst) (sv_Severity src)\<rparr>"

definition mergeThresholdCheck :: "ThresholdCheck \<Rightarrow> ThresholdCheck \<Rightarrow> ThresholdCheck" where
  "mergeThresholdCheck dst src =
     \<lparr>th_Enabled = or_flag (th_Enabled dst) (th_Enabled src), th_WarnLt = or_int (th_WarnLt dst) (th_WarnLt src),
      th_CriticalLt = or_int (th_CriticalLt dst) (th_CriticalLt src)\<rparr>"

definition sentinel_merge :: "sentinel_Instance \<Rightarrow> sentinel_Partial \<Rightarrow> sentinel_Instance" where
  "sentinel_merge ins p =
     ins\<lparr>ss_Concurrency := or_int (ss_Concurrency ins) (ss_Concurrency p),
         ss_Timeout := or_int (ss_Timeout ins) (ss_Timeout p),
         ss_ReadTimeout := or_int (ss_ReadTimeout ins) (ss_ReadTimeout p),
         ss_Username := or_str (ss_Username ins) (ss_Username p),
         ss_Password := or_str (ss_Password ins) (ss_Password p),
         ss_ClientConfig := mergeClientConfig (ss_ClientConfig ins) (ss_ClientConfig p),
         ss_Connectivity := mergeSeverityCheck (ss_Connectivity ins) (ss_Connectivity p),
         ss_Role := mergeSeverityCheck (ss_Role ins) (ss_Role p),
         ss_MastersOverview := mergeSeverityCheck (ss_MastersOverview ins) (ss_MastersOverview p),
         ss_CKQuorum := mergeSeverityCheck (ss_CKQuorum ins) (ss_CKQuorum p),
         ss_MasterSDown := mergeSeverityCheck (ss_MasterSDown ins) (ss_MasterSDown p),
         ss_MasterODown := mergeSeverityCheck (ss_MasterODown ins) (ss_MasterODown p),
         ss_MasterAddrResolution := mergeSeverityCheck (ss_MasterAddrResolution ins) (ss_MasterAddrResolution p),
         ss_PeerCount := mergeThresholdCheck (ss_PeerCount ins) (ss_PeerCount p),
         ss_KnownReplicas := mergeThresholdCheck (ss_KnownReplicas ins) (ss_KnownReplicas p),
         ss_KnownSentinels := mergeThresholdCheck (ss_KnownSentinels ins) (ss_KnownSentinels p),
         ss_FailoverInProgress := mergeSeverityCheck (ss_FailoverInProgress ins) (ss_FailoverInProgress p),
         ss_Tilt := mergeSeverityCheck (ss_Tilt ins) (ss_Tilt p)\<rparr>"

fun sentinel_index :: "(string \<Rightarrow> string) \<Rightarrow> sentinel_Partial list \<Rightarrow> (string, sentinel_Partial) gomap \<Rightarrow> string + (string, sentinel_Partial) gomap" where
  "sentinel_index quote [] m = Inr m"
| "sentinel_index quote (p # ps) m =
     (if sp_ID p = [] then Inl ''redis_sentinel partial id must not be empty''
      else if m_has m (sp_ID p) then Inl (''duplicate redis_sentinel partial id '' @ quote (sp_ID p))
      else sentinel_index quote ps (m_set (sp_ID p) p m))"

fun sentinel_apply :: "(string \<Rightarrow> string) \<Rightarrow> (string, sentinel_Partial) gomap \<Rightarrow> sentinel_Instance list \<Rightarrow> string + sentinel_Instance list" where
  "sentinel_apply quote m [] = Inr []"
| "sentinel_apply quote m (ins # is) =
     (if sn_Partial ins = [] then map_sum id (Cons ins) (sentinel_apply quote m is)
      else case map_of m (sn_Partial ins) of
             None \<Rightarrow> Inl (''redis_sentinel partial '' @ quote (sn_Partial ins) @ '' not found'')
           | Some p \<Rightarrow> map_sum id (Cons (sentinel_merge ins p)) (sentinel_apply quote m is))"

definition sentinel_ApplyPartials :: "(string \<Rightarrow> string) \<Rightarrow> sentinel_Partial list \<Rightarrow> sentinel_Instance list \<Rightarrow> string + sentinel_Instance list" where
  "sentinel_ApplyPartials quote ps is = sbind (sentinel_index quote ps []) (\<lambda>m. sentinel_apply quote m is)"

definition severityCheckEnabled :: "SeverityCheck \<Rightarrow> bool \<Rightarrow> bool" where
  "severityCheckEnabled c def = (case sv_Enabled c of None \<Rightarrow> def | Some b \<Rightarrow> b)"

definition thresholdCheckEnabled :: "ThresholdCheck \<Rightarrow> bool \<Rightarrow> bool" where
  "thresholdCheckEnabled c def = (case th_Enabled c of None \<Rightarrow> def | Some b \<Rightarrow> b)"

definition applySeverityDefaults :: "bool \<Rightarrow> string \<Rightarrow> SeverityCheck \<Rightarrow> SeverityCheck" where
  "applySeverityDefaults en sev c = \<lparr>sv_Enabled = or_flag (sv_Enabled c) (Some en), sv_Severity = or_str (sv_Severity c) sev\<rparr>"

definition applyThresholdDefaults :: "bool \<Rightarrow> ThresholdCheck \<Rightarrow> ThresholdCheck" where
  "applyThresholdDefaults en c = c\<lparr>th_Enabled := or_flag (th_Enabled c) (Some en)\<rparr>"

definition sentinel_defaults :: "sentinel_Instance \<Rightarrow> sentinel_Instance" where
  "sentinel_defaults ins =
     ins\<lparr>ss_Connectivity := applySeverityDefaults True EventStatusCritical (ss_Connectivity ins),
         ss_Role := applySeverityDefaults True EventStatusCritical (ss_Role ins),
         ss_MastersOverview := applySeverityDefaults True EventStatusWarning (ss_MastersOverview ins),
         ss_CKQuorum := applySeverityDefaults True EventStatusCritical (ss_CKQuorum ins),
         ss_MasterSDown := applySeverityDefaults True EventStatusWarning (ss_MasterSDown ins),
         ss_MasterODown := applySeverityDefaults True EventStatusCritical (ss_MasterODown ins),
         ss_MasterAddrResolution := applySeverityDefaults True EventStatusCritical (ss_MasterAddrResolution ins),
         ss_PeerCount := applyThresholdDefaults False (ss_PeerCount ins),
         ss_KnownReplicas := applyThresholdDefaults False (ss_KnownReplicas ins),
         ss_KnownSentinels := applyThresholdDefaults False (ss_KnownSentinels ins),
         ss_FailoverInProgress := applySeverityDefaults False EventStatusWarning (ss_FailoverInProgress ins),
         ss_Tilt := applySeverityDefaults False EventStatusWarning (ss_Tilt ins)\<rparr>"

definition severity_checks :: "'a sentinel_settings_scheme \<Rightarrow> (string \<times> SeverityCheck) list" where
  "severity_checks ins =
     [(''connectivity'', ss_Connectivity ins), (''role'', ss_Role ins), (''ckquorum'', ss_CKQuorum ins), (''master_sdown'', ss_MasterSDown ins),
      (''master_odown'', ss_MasterODown ins), (''master_addr_resolution'', ss_MasterAddrResolution ins),
      (''failover_in_progress'', ss_FailoverInProgress ins), (''tilt'', ss_Tilt ins)]"

fun first_invalid :: "(string \<Rightarrow> string) \<Rightarrow> (string \<times> SeverityCheck) list \<Rightarrow> string + unit" where
  "first_invalid quote [] = Inr ()"
| "first_invalid quote ((name, c) # cs) =
     (if sv_Severity c \<noteq> [] \<and> \<not> EventStatusValid (sv_Severity c) then Inl (''invalid '' @ name @ ''.severity '' @ quote (sv_Severity c))
      else first_invalid quote cs)"

definition validateThresholdCheck :: "string \<Rightarrow> ThresholdCheck \<Rightarrow> string + unit" where
  "validateThresholdCheck name c =
     (if \<not> thresholdCheckEnabled c False then Inr ()
      else if th_WarnLt c < 0 \<or> th_CriticalLt c < 0 then Inl (name @ '' thresholds must be >= 0'')
      else if th_WarnLt c = 0 \<and> th_CriticalLt c = 0 then Inl (name @ '' requires warn_lt or critical_lt when enabled'')
      else refuse (th_WarnLt c > 0 \<and> th_CriticalLt c > 0 \<and> th_WarnLt c \<le> th_CriticalLt c)
        (name @ ''.warn_lt('' @ show_int (th_WarnLt c) @ '') must be greater than '' @ name @ ''.critical_lt('' @ show_int (th_CriticalLt c) @ '')''))"

definition defaultSentinelPort :: string where "defaultSentinelPort = ''26379''"

definition sentinel_normalizeTarget :: "(string \<Rightarrow> string) \<Rightarrow> string \<Rightarrow> string + string" where
  "sentinel_normalizeTarget quote raw =
     (let target = trim_space raw in
      if target = [] then Inl ''redis_sentinel target must not be empty''
      else case SplitHostPort target of
             Inr (host, port) \<Rightarrow>
               if port = [] then Inl (''bad port, target: '' @ raw)
               else Inr (JoinHostPort (if host = [] then ''localhost'' else host) port)
           | Inl e \<Rightarrow>
               if contains_text (addr_error_text target e) ''missing port in address'' then
                 if 1 < length (filter (\<lambda>c. c = CHR '':'') target) \<and> \<not> prefix ''['' target
                 then Inl (''redis_sentinel IPv6 target must use [addr]:port format: '' @ raw)
                 else Inr (JoinHostPort target defaultSentinelPort)
               else Inl (''failed to parse redis_sentinel target '' @ quote raw @ '': '' @ addr_error_text target e))"

text \<open>Targets and masters: each is normalised and must be new.\<close>

fun unique_list :: "(string \<Rightarrow> string + string) \<Rightarrow> (string \<Rightarrow> string) \<Rightarrow> string list \<Rightarrow> string list \<Rightarrow> string + string list" where
  "unique_list f dup seen [] = Inr (rev seen)"
| "unique_list f dup seen (x # xs) =
     sbind (f x) (\<lambda>y. if y \<in> set seen then Inl (dup y) else unique_list f dup (y # seen) xs)"

definition master_name :: "string \<Rightarrow> string + string" where
  "master_name raw = (let n = trim_space raw in if n = [] then Inl ''redis_sentinel master name must not be empty'' else Inr n)"

definition sentinel_Init ::
  "('pool, 'cert) cert_files \<Rightarrow> sentinel_Instance \<Rightarrow> string + sentinel_Instance \<times> ('pool, 'cert) tls_config option" where
  "sentinel_Init cf ins =
     (let quote = cf_quote cf;
          ins = ins\<lparr>ss_Concurrency := or_int (ss_Concurrency ins) 10, ss_Timeout := or_int (ss_Timeout ins) (3 * Second),
                    ss_ReadTimeout := or_int (ss_ReadTimeout ins) (2 * Second)\<rparr>
      in if ss_Username ins \<noteq> [] \<and> ss_Password ins = [] then Inl ''password must not be empty when username is set''
         else
           let ins = sentinel_defaults ins; empty = sv_Severity (ss_MastersOverview ins) in
           sbind (first_invalid quote (severity_checks ins)) (\<lambda>_.
           sbind (refuse (empty \<noteq> [] \<and> \<not> EventStatusValid empty) (''invalid masters_overview.empty_severity '' @ quote empty)) (\<lambda>_.
           sbind (validateThresholdCheck ''peer_count'' (ss_PeerCount ins)) (\<lambda>_.
           sbind (validateThresholdCheck ''known_replicas'' (ss_KnownReplicas ins)) (\<lambda>_.
           sbind (validateThresholdCheck ''known_sentinels'' (ss_KnownSentinels ins)) (\<lambda>_.
           sbind (unique_list (sentinel_normalizeTarget quote) (\<lambda>t. ''duplicate redis_sentinel target '' @ quote t) [] (sn_Targets ins)) (\<lambda>targets.
           sbind (unique_list master_name (\<lambda>n. ''duplicate redis_sentinel master '' @ quote n) [] (sn_Masters ins)) (\<lambda>masters.
           case client_TLSConfig cf (ss_ClientConfig ins) of
             Inl e \<Rightarrow> Inl (''failed to build redis_sentinel TLS config: '' @ e)
           | Inr tls \<Rightarrow> Inr (ins\<lparr>sn_Targets := targets, sn_Masters := masters\<rparr>, tls)))))))))"

section \<open>The client\<close>

fun sentinel_text :: "fmt_quote \<Rightarrow> string \<Rightarrow> resp_error \<Rightarrow> string" where
  "sentinel_text q stop (BulkTooBig n) = ''redis_sentinel bulk string size '' @ show_int n @ '' exceeds limit '' @ show_int maxBulkSize"
| "sentinel_text q stop (BadPrefix c) = ''unsupported redis_sentinel reply prefix '' @ fq_byte q c"
| "sentinel_text q stop e = resp_text q stop e"

definition sentinel_rawCommand :: "fmt_quote \<Rightarrow> string list \<Rightarrow> reply call" where
  "sentinel_rawCommand q args a =
     (let c = ra_client a in
      case cn_broken c of
        Some e \<Rightarrow> (Inl (CallErr e), a)
      | None \<Rightarrow>
          let c = arrive (c\<lparr>cn_out := cn_out c @ writeCommand args\<rparr>) in
          case read_value (cn_in c) of
            (v, r) \<Rightarrow>
              ((case v of
                  Inl MakePanic \<Rightarrow> Inl (CallPanic (sentinel_text q (cn_stop c) MakePanic))
                | Inl e \<Rightarrow> Inl (CallErr (sentinel_text q (cn_stop c) e))
                | Inr v \<Rightarrow> Inr v), a\<lparr>ra_client := c\<lparr>cn_in := r\<rparr>\<rparr>))"

fun sentinel_formatReply :: "reply \<Rightarrow> string" where
  "sentinel_formatReply (RArr xs) = trim_right (\<lambda>c. c = nl) (formatArray 0 0 xs)"
| "sentinel_formatReply r = formatReply r"

definition sentinel_command :: "fmt_quote \<Rightarrow> string list \<Rightarrow> string call" where
  "sentinel_command q args a = map_prod (map_sum id sentinel_formatReply) id (sentinel_rawCommand q args a)"

definition sentinel_info :: "fmt_quote \<Rightarrow> string \<Rightarrow> string call" where
  "sentinel_info q sect = sentinel_command q (if sect = [] then [''INFO''] else [''INFO'', sect])"

text \<open>A call whose reply is read by a function that may refuse it.\<close>

definition parsed :: "'a call \<Rightarrow> ('a \<Rightarrow> string + 'b) \<Rightarrow> 'b call" where
  "parsed m f = attempt m (\<lambda>r. case r of Inl e \<Rightarrow> fail e | Inr v \<Rightarrow> (case f v of Inl e \<Rightarrow> fail e | Inr w \<Rightarrow> ret w))"

text \<open>Dialling gives a connection after the TLS handshake, where TLS is configured.\<close>

definition NewSentinelAccessor ::
  "fmt_quote \<Rightarrow> (string \<Rightarrow> string + redis_conn) \<Rightarrow> RedisAccessorConfig \<Rightarrow> call_error + RedisAccessor" where
  "NewSentinelAccessor q dial cfg =
     (case dial (ac_Target cfg) of
        Inl e \<Rightarrow> Inl (CallErr e)
      | Inr c \<Rightarrow>
          let a = \<lparr>ra_client = c, ra_target = ac_Target cfg\<rparr> in
          if ac_Password cfg \<noteq> [] \<or> ac_Username cfg \<noteq> [] then
            (case sentinel_command q (auth_args cfg) a of
               (Inl e, _) \<Rightarrow> Inl e
             | (Inr rep, a) \<Rightarrow>
                 if to_upper rep \<noteq> ''OK'' then Inl (CallErr (''unexpected AUTH reply: '' @ fq_str q rep)) else Inr a)
          else Inr a)"

definition sentinel_Ping :: "fmt_quote \<Rightarrow> unit call" where
  "sentinel_Ping q =
     parsed (sentinel_command q [''PING'']) (\<lambda>rep.
       if to_upper rep \<noteq> ''PONG'' then Inl (''unexpected PING reply: '' @ fq_str q rep) else Inr ())"

fun parse_role :: "reply \<Rightarrow> string + string" where
  "parse_role (RArr (RStr role # _)) = Inr (to_lower (trim_space role))"
| "parse_role (RArr (r # _)) = Inl (''unexpected ROLE reply element type '' @ reply_type r)"
| "parse_role r = Inl (''unexpected ROLE reply type '' @ reply_type r)"

definition sentinel_Role :: "fmt_quote \<Rightarrow> string call" where
  "sentinel_Role q = parsed (sentinel_rawCommand q [''ROLE'']) parse_role"

definition sentinel_Info :: "fmt_quote \<Rightarrow> string \<Rightarrow> info call" where
  "sentinel_Info q sect = parsed (sentinel_info q sect) (\<lambda>raw. Inr (parseInfoToMap raw))"

definition sentinel_InfoRaw :: "fmt_quote \<Rightarrow> string \<Rightarrow> string call" where
  "sentinel_InfoRaw q sect = sentinel_info q sect"

text \<open>\<^verbatim>\<open>fmt.Sprintf("%v", x)\<close> of a reply that is an array.\<close>

fun go_value :: "reply \<Rightarrow> string" where
  "go_value (RStr s) = s"
| "go_value RNil = ''<nil>''"
| "go_value (RArr xs) = ''['' @ join '' '' (map go_value xs) @ '']''"

fun formatScalarValue :: "reply \<Rightarrow> string" where
  "formatScalarValue RNil = []"
| "formatScalarValue r = go_value r"

type_synonym SentinelMasterInfo = "(string, string) gomap"

fun string_pairs :: "reply list \<Rightarrow> SentinelMasterInfo \<Rightarrow> string + SentinelMasterInfo" where
  "string_pairs (RStr key # v # rs) m = string_pairs rs (m_set key (formatScalarValue v) m)"
| "string_pairs (r # v # rs) m = Inl (''unexpected key type '' @ reply_type r)"
| "string_pairs rs m = Inr m"

fun parseStringMap :: "reply \<Rightarrow> string + SentinelMasterInfo" where
  "parseStringMap (RArr rs) =
     (if length rs mod 2 \<noteq> 0 then Inl (''unexpected alternating key/value length '' @ show_nat (length rs)) else string_pairs rs [])"
| "parseStringMap r = Inl (''unexpected reply type '' @ reply_type r)"

fun string_maps :: "reply list \<Rightarrow> string + SentinelMasterInfo list" where
  "string_maps [] = Inr []"
| "string_maps (r # rs) = sbind (parseStringMap r) (\<lambda>m. map_sum id (Cons m) (string_maps rs))"

text \<open>The order of two entries with the same name is not specified by \<^verbatim>\<open>sort.Slice\<close>; here they stay as the server sent them.\<close>

fun parseListOfStringMaps :: "reply \<Rightarrow> string + SentinelMasterInfo list" where
  "parseListOfStringMaps (RArr rs) = map_sum id (sort_by (\<lambda>a b. byte_less (m_str a ''name'') (m_str b ''name''))) (string_maps rs)"
| "parseListOfStringMaps r = Inl (''unexpected reply type '' @ reply_type r)"

definition SentinelMasters :: "fmt_quote \<Rightarrow> SentinelMasterInfo list call" where
  "SentinelMasters q = parsed (sentinel_rawCommand q [''SENTINEL'', ''MASTERS'']) parseListOfStringMaps"

definition SentinelMaster :: "fmt_quote \<Rightarrow> string \<Rightarrow> SentinelMasterInfo call" where
  "SentinelMaster q name = parsed (sentinel_rawCommand q [''SENTINEL'', ''MASTER'', name]) parseStringMap"

definition SentinelReplicas :: "fmt_quote \<Rightarrow> string \<Rightarrow> SentinelMasterInfo list call" where
  "SentinelReplicas q name = parsed (sentinel_rawCommand q [''SENTINEL'', ''REPLICAS'', name]) parseListOfStringMaps"

definition SentinelSentinels :: "fmt_quote \<Rightarrow> string \<Rightarrow> SentinelMasterInfo list call" where
  "SentinelSentinels q name = parsed (sentinel_rawCommand q [''SENTINEL'', ''SENTINELS'', name]) parseListOfStringMaps"

definition SentinelCKQuorum :: "fmt_quote \<Rightarrow> string \<Rightarrow> string call" where
  "SentinelCKQuorum q name = sentinel_command q [''SENTINEL'', ''CKQUORUM'', name]"

fun parse_addr :: "reply \<Rightarrow> string + string" where
  "parse_addr (RArr [h, p]) =
     (case h of
        RStr host \<Rightarrow>
          (case p of
             RStr port \<Rightarrow> Inr (JoinHostPort host port)
           | _ \<Rightarrow> Inl (''unexpected GET-MASTER-ADDR-BY-NAME port type '' @ reply_type p))
      | _ \<Rightarrow> Inl (''unexpected GET-MASTER-ADDR-BY-NAME host type '' @ reply_type h))"
| "parse_addr (RArr rs) = Inl (''unexpected GET-MASTER-ADDR-BY-NAME reply length '' @ show_nat (length rs))"
| "parse_addr r = Inl (''unexpected GET-MASTER-ADDR-BY-NAME reply type '' @ reply_type r)"

definition SentinelGetMasterAddrByName :: "fmt_quote \<Rightarrow> string \<Rightarrow> string call" where
  "SentinelGetMasterAddrByName q name = parsed (sentinel_rawCommand q [''SENTINEL'', ''GET-MASTER-ADDR-BY-NAME'', name]) parse_addr"

section \<open>Tools\<close>

definition host_and_port :: "string \<Rightarrow> string \<Rightarrow> string" where
  "host_and_port host port =
     (let host = trim_space host; port = trim_space port in if host = [] \<or> port = [] then [] else host @ '':'' @ port)"

definition overview_line :: "SentinelMasterInfo \<Rightarrow> string" where
  "overview_line m =
     (let part = (\<lambda>k v. if v = [] then [] else '' '' @ k @ ''='' @ v) in
      ''- '' @ m_str m ''name'' @ part ''addr'' (host_and_port (m_str m ''ip'') (m_str m ''port'')) @ part ''flags'' (m_str m ''flags'') @
      part ''quorum'' (m_str m ''quorum'') @ [nl])"

definition formatOverview :: "string \<Rightarrow> SentinelMasterInfo list \<Rightarrow> string" where
  "formatOverview role masters =
     ''[ROLE]'' @ [nl] @ role @ [nl, nl] @ ''[MASTERS SUMMARY]'' @ [nl] @ ''count: '' @ show_nat (length masters) @ [nl] @
     concat (map overview_line masters)"

definition formatList :: "string \<Rightarrow> SentinelMasterInfo list \<Rightarrow> string" where
  "formatList title items =
     ''['' @ title @ '']'' @ [nl] @ ''count: '' @ show_nat (length items) @ [nl] @
     concat (map (\<lambda>(i, item). show_nat (i + 1) @ '')'' @ [nl] @
       concat (map (\<lambda>k. ''  '' @ k @ '': '' @ m_str item k @ [nl]) (sort_by byte_less (m_keys item)))) (enumerate 0 items))"

definition sentinel_overview :: "fmt_quote \<Rightarrow> string call" where
  "sentinel_overview q =
     ask ''ROLE'' (sentinel_Role q) (\<lambda>role. ask ''SENTINEL MASTERS'' (SentinelMasters q) (\<lambda>masters. ret (formatOverview role masters)))"

definition health_keys :: "string list" where
  "health_keys = [''status'', ''flags'', ''ip'', ''port'', ''num-slaves'', ''num-other-sentinels'', ''quorum'']"

definition health_report ::
  "string \<Rightarrow> string + SentinelMasterInfo \<Rightarrow> string + string \<Rightarrow> string + string \<Rightarrow> string + SentinelMasterInfo list \<Rightarrow> string + SentinelMasterInfo list \<Rightarrow> string" where
  "health_report name master ck addr replicas sentinels =
     (let text = (\<lambda>r. case r of Inl e \<Rightarrow> ''error: '' @ e @ [nl] | Inr s \<Rightarrow> s @ [nl]);
          number = (\<lambda>what r. case r of Inl e \<Rightarrow> what @ ''_error: '' @ e @ [nl] | Inr xs \<Rightarrow> what @ '': '' @ show_nat (length xs) @ [nl])
      in ''[MASTER HEALTH]'' @ [nl] @
         (case master of
            Inl e \<Rightarrow> ''master: error: '' @ e @ [nl]
          | Inr m \<Rightarrow> ''name: '' @ name @ [nl] @
              concat (map (\<lambda>k. let v = trim_space (m_str m k) in if v = [] then [] else k @ '': '' @ v @ [nl]) health_keys)) @
         nl # ''[CKQUORUM]'' @ [nl] @ text ck @ nl # ''[MASTER ADDR]'' @ [nl] @ text addr @
         nl # ''[TOPOLOGY COUNTS]'' @ [nl] @ number ''replicas'' replicas @ number ''sentinels'' sentinels)"

definition with_master :: "tool_args \<Rightarrow> (string \<Rightarrow> 'a call) \<Rightarrow> 'a call" where
  "with_master args f = (let name = trim_space (m_str args ''master'') in if name = [] then fail ''master is required'' else f name)"

definition sentinel_master_health :: "fmt_quote \<Rightarrow> tool_args \<Rightarrow> string call" where
  "sentinel_master_health q args =
     with_master args (\<lambda>name.
       attempt (SentinelMaster q name) (\<lambda>master.
       attempt (SentinelCKQuorum q name) (\<lambda>ck.
       attempt (SentinelGetMasterAddrByName q name) (\<lambda>addr.
       attempt (SentinelReplicas q name) (\<lambda>replicas.
       attempt (SentinelSentinels q name) (\<lambda>sentinels.
         if \<not> isl master \<or> \<not> isl ck \<or> \<not> isl addr then ret (health_report name master ck addr replicas sentinels)
         else fail (''failed to query master health for '' @ name)))))))"

definition sentinel_replicas :: "fmt_quote \<Rightarrow> tool_args \<Rightarrow> string call" where
  "sentinel_replicas q args =
     with_master args (\<lambda>name. ask (''SENTINEL REPLICAS '' @ name) (SentinelReplicas q name) (\<lambda>rs. ret (formatList ''REPLICAS'' rs)))"

definition sentinel_sentinels :: "fmt_quote \<Rightarrow> tool_args \<Rightarrow> string call" where
  "sentinel_sentinels q args =
     with_master args (\<lambda>name. ask (''SENTINEL SENTINELS '' @ name) (SentinelSentinels q name) (\<lambda>ps. ret (formatList ''SENTINELS'' ps)))"

definition sentinel_info_tool :: "fmt_quote \<Rightarrow> tool_args \<Rightarrow> string call" where
  "sentinel_info_tool q args =
     (let sect = trim_space (m_str args ''section'') in
      ask (if sect = [] then ''INFO'' else ''INFO '' @ sect) (sentinel_InfoRaw q sect) ret)"

text \<open>The pre-collector: what the first prompt of a diagnosis holds. A panic is left to its caller.\<close>

definition sentinel_preCollect :: "fmt_quote \<Rightarrow> string call" where
  "sentinel_preCollect q =
     attempt (sentinel_Role q) (\<lambda>r.
       case r of
         Inl _ \<Rightarrow> ret []
       | Inr role \<Rightarrow>
           attempt (SentinelMasters q) (\<lambda>r.
             ret (case r of Inl _ \<Rightarrow> ''[ROLE]'' @ [nl] @ role @ [nl] | Inr masters \<Rightarrow> formatOverview role masters)))"

definition sentinel_tools :: "fmt_quote \<Rightarrow> tool_args \<Rightarrow> (string \<times> string call) list" where
  "sentinel_tools q args =
     [(''sentinel_overview'', sentinel_overview q), (''sentinel_master_health'', sentinel_master_health q args),
      (''sentinel_replicas'', sentinel_replicas q args), (''sentinel_sentinels'', sentinel_sentinels q args),
      (''sentinel_info'', sentinel_info_tool q args)]"

section \<open>Checks\<close>

text \<open>A run against one target: the events pushed, then a panic or a value, and the connection.\<close>

type_synonym 'a srun = "RedisAccessor \<Rightarrow> Event list \<times> (string + 'a) \<times> RedisAccessor"

definition sdone :: "'a \<Rightarrow> 'a srun" where
  "sdone v a = ([], Inr v, a)"

definition semit :: "Event \<Rightarrow> unit srun" where
  "semit e a = ([e], Inr (), a)"

definition seq_run :: "'a srun \<Rightarrow> ('a \<Rightarrow> 'b srun) \<Rightarrow> 'b srun" where
  "seq_run m f a =
     (case m a of
        (es, Inl p, a) \<Rightarrow> (es, Inl p, a)
      | (es, Inr v, a) \<Rightarrow> (case f v a of (fs, r, a) \<Rightarrow> (es @ fs, r, a)))"

definition query :: "'a call \<Rightarrow> (string + 'a) srun" where
  "query m a =
     (case m a of
        (Inl (CallPanic p), a) \<Rightarrow> ([], Inl p, a)
      | (Inl (CallErr e), a) \<Rightarrow> ([], Inr (Inl e), a)
      | (Inr v, a) \<Rightarrow> ([], Inr (Inr v), a))"

definition if_enabled :: "bool \<Rightarrow> unit srun \<Rightarrow> unit srun" where
  "if_enabled b m = (if b then m else sdone ())"

definition newMasterEvent :: "string \<Rightarrow> string \<Rightarrow> string \<Rightarrow> Event" where
  "newMasterEvent check target name = BuildEvent [[(''check'', check), (''target'', target), (''master_name'', name)]]"

definition hasFlag :: "string \<Rightarrow> string \<Rightarrow> bool" where
  "hasFlag flags want \<longleftrightarrow> (\<exists>token \<in> set (split_at (CHR '','') (to_lower (trim_space flags))). trim_space token = want)"

definition failoverInProgress :: "string \<Rightarrow> bool" where
  "failoverInProgress flags \<longleftrightarrow>
     (\<exists>token \<in> set (split_at (CHR '','') (to_lower (trim_space flags))).
        contains_text (trim_space token) ''failover'' \<and> trim_space token \<noteq> ''no-failover'')"

definition sentinel_minCount :: "string \<Rightarrow> string \<Rightarrow> string \<Rightarrow> int \<Rightarrow> ThresholdCheck \<Rightarrow> string \<Rightarrow> Event" where
  "sentinel_minCount target check name v th metric =
     (let parts = (if th_WarnLt th > 0 then [''Warning < '' @ show_int (th_WarnLt th)] else []) @
                  (if th_CriticalLt th > 0 then [''Critical < '' @ show_int (th_CriticalLt th)] else []);
          event = SetCurrentValue (show_int v)
            (SetAttrs [(metric, show_int v), (''threshold_desc'', join '', '' parts)] (newMasterEvent check target name));
          below = (\<lambda>word limit. ''sentinel '' @ metric @ '' '' @ show_int v @ '' < '' @ word @ '' threshold '' @ show_int limit @ '' for master '' @ name)
      in if th_CriticalLt th > 0 \<and> v < th_CriticalLt th then alert_with EventStatusCritical (below ''critical'' (th_CriticalLt th)) event
         else if th_WarnLt th > 0 \<and> v < th_WarnLt th then alert_with EventStatusWarning (below ''warning'' (th_WarnLt th)) event
         else SetDescription (''sentinel '' @ metric @ '' '' @ show_int v @ '' for master '' @ name @ '', everything is ok'') event)"

definition desc_attr :: "string \<Rightarrow> string \<Rightarrow> string \<times> string" where
  "desc_attr severity what = (''threshold_desc'', severity @ '': '' @ what)"

definition ckquorum_event :: "sentinel_Instance \<Rightarrow> string \<Rightarrow> string \<Rightarrow> string + string \<Rightarrow> Event" where
  "ckquorum_event ins target name r =
     (let sev = sv_Severity (ss_CKQuorum ins);
          ev = SetAttrs [desc_attr sev ''CKQUORUM must succeed''] (newMasterEvent ''redis_sentinel::ckquorum'' target name)
      in case r of
           Inl e \<Rightarrow> alert_with sev (''sentinel ckquorum for master '' @ name @ '' failed: '' @ e) ev
         | Inr d \<Rightarrow> SetDescription (''sentinel ckquorum for master '' @ name @ '' ok: '' @ d) ev)"

text \<open>The two checks of a flag: subjectively and objectively down.\<close>

definition down_event :: "string \<Rightarrow> string \<Rightarrow> string \<Rightarrow> string \<Rightarrow> string \<Rightarrow> string \<Rightarrow> string \<Rightarrow> Event" where
  "down_event check flag word sev target name flags =
     (let ev = SetAttrs [(''flags'', flags), desc_attr sev (''flags contain '' @ flag)] (newMasterEvent check target name)
      in if hasFlag flags flag then alert_with sev (''sentinel master '' @ name @ '' is '' @ word @ '' down'') ev
         else SetDescription (''sentinel master '' @ name @ '' is not '' @ word @ '' down'') ev)"

definition addr_event :: "sentinel_Instance \<Rightarrow> string \<Rightarrow> string \<Rightarrow> string + string \<Rightarrow> Event" where
  "addr_event ins target name r =
     (let sev = sv_Severity (ss_MasterAddrResolution ins);
          ev = SetAttrs [desc_attr sev ''master address must resolve''] (newMasterEvent ''redis_sentinel::master_addr_resolution'' target name);
          bad = ''sentinel failed to resolve master '' @ name @ '' address''
      in case r of
           Inl e \<Rightarrow> alert_with sev (bad @ '': '' @ e) ev
         | Inr addr \<Rightarrow>
             if trim_space addr = [] then alert_with sev bad ev
             else SetDescription (''sentinel resolved master '' @ name @ '' to '' @ addr)
                    (SetCurrentValue addr (SetAttrs [(''resolved_master'', addr)] ev)))"

definition count_event :: "string \<Rightarrow> string \<Rightarrow> string \<Rightarrow> string \<Rightarrow> ThresholdCheck \<Rightarrow> string \<Rightarrow> string + SentinelMasterInfo list \<Rightarrow> Event" where
  "count_event target check name what th metric r =
     (case r of
        Inl e \<Rightarrow> alert_with EventStatusCritical (''failed to query '' @ what @ '' for master '' @ name @ '': '' @ e) (newMasterEvent check target name)
      | Inr xs \<Rightarrow> sentinel_minCount target check name (int (length xs)) th metric)"

definition failover_event :: "sentinel_Instance \<Rightarrow> string \<Rightarrow> string \<Rightarrow> string \<Rightarrow> Event" where
  "failover_event ins target name flags =
     SetAttrs [(''flags'', flags), desc_attr (sv_Severity (ss_FailoverInProgress ins)) ''failover state present'']
       (newMasterEvent ''redis_sentinel::failover_in_progress'' target name)"

text \<open>The last check of a master asks for the sentinels only if the earlier checks did not.\<close>

definition check_failover :: "fmt_quote \<Rightarrow> sentinel_Instance \<Rightarrow> string \<Rightarrow> string \<Rightarrow> string \<Rightarrow> (string + SentinelMasterInfo list) option \<Rightarrow> unit srun" where
  "check_failover q ins target name flags loaded =
     (let ev = failover_event ins target name flags in
      if failoverInProgress flags then
        seq_run (case loaded of Some r \<Rightarrow> sdone r | None \<Rightarrow> query (SentinelSentinels q name)) (\<lambda>r.
          semit (alert_with (sv_Severity (ss_FailoverInProgress ins)) (''sentinel reports failover in progress for master '' @ name)
            (case r of Inl _ \<Rightarrow> ev | Inr xs \<Rightarrow> SetAttrs [(''known_peers'', show_nat (length xs))] ev)))
      else semit (SetDescription (''sentinel reports no failover in progress for master '' @ name) ev))"

definition load :: "bool \<Rightarrow> 'a call \<Rightarrow> (string + 'a) option srun" where
  "load b m = (if b then seq_run (query m) (\<lambda>r. sdone (Some r)) else sdone None)"

definition severity_on :: "SeverityCheck \<Rightarrow> bool" where "severity_on c = severityCheckEnabled c True"
definition severity_asked :: "SeverityCheck \<Rightarrow> bool" where "severity_asked c = severityCheckEnabled c False"
definition threshold_asked :: "ThresholdCheck \<Rightarrow> bool" where "threshold_asked c = thresholdCheckEnabled c False"

definition checkMaster :: "fmt_quote \<Rightarrow> sentinel_Instance \<Rightarrow> string \<Rightarrow> string \<Rightarrow> SentinelMasterInfo \<Rightarrow> unit srun" where
  "checkMaster q ins target name master =
     (let flags = m_str master ''flags''; peers = threshold_asked (ss_PeerCount ins); known = threshold_asked (ss_KnownSentinels ins);
          reps = threshold_asked (ss_KnownReplicas ins)
      in seq_run (if_enabled (severity_on (ss_CKQuorum ins))
           (seq_run (query (SentinelCKQuorum q name)) (\<lambda>r. semit (ckquorum_event ins target name r)))) (\<lambda>_.
         seq_run (if_enabled (severity_on (ss_MasterSDown ins))
           (semit (down_event ''redis_sentinel::master_sdown'' ''s_down'' ''subjectively'' (sv_Severity (ss_MasterSDown ins)) target name flags))) (\<lambda>_.
         seq_run (if_enabled (severity_on (ss_MasterODown ins))
           (semit (down_event ''redis_sentinel::master_odown'' ''o_down'' ''objectively'' (sv_Severity (ss_MasterODown ins)) target name flags))) (\<lambda>_.
         seq_run (if_enabled (severity_on (ss_MasterAddrResolution ins))
           (seq_run (query (SentinelGetMasterAddrByName q name)) (\<lambda>r. semit (addr_event ins target name r)))) (\<lambda>_.
         seq_run (load (peers \<or> known) (SentinelSentinels q name)) (\<lambda>sentinels.
         seq_run (load reps (SentinelReplicas q name)) (\<lambda>replicas.
         seq_run (case sentinels of None \<Rightarrow> sdone () | Some r \<Rightarrow> if_enabled peers
           (semit (count_event target ''redis_sentinel::peer_count'' name ''sentinel peers'' (ss_PeerCount ins) ''peer sentinels'' r))) (\<lambda>_.
         seq_run (case sentinels of None \<Rightarrow> sdone () | Some r \<Rightarrow> if_enabled known
           (semit (count_event target ''redis_sentinel::known_sentinels'' name ''known sentinels'' (ss_KnownSentinels ins) ''known sentinels'' r))) (\<lambda>_.
         seq_run (case replicas of None \<Rightarrow> sdone () | Some r \<Rightarrow>
           semit (count_event target ''redis_sentinel::known_replicas'' name ''known replicas'' (ss_KnownReplicas ins) ''known replicas'' r)) (\<lambda>_.
         if_enabled (severity_asked (ss_FailoverInProgress ins)) (check_failover q ins target name flags sentinels)))))))))))"

definition missing_master_events :: "sentinel_Instance \<Rightarrow> string \<Rightarrow> string \<Rightarrow> Event list" where
  "missing_master_events ins target name =
     (let desc = ''configured master '' @ name @ '' is not present in SENTINEL MASTERS'';
          ev = (\<lambda>on check status. if on then [alert_with status desc (newMasterEvent check target name)] else [])
      in ev (severity_on (ss_CKQuorum ins)) ''redis_sentinel::ckquorum'' (sv_Severity (ss_CKQuorum ins)) @
         ev (severity_on (ss_MasterSDown ins)) ''redis_sentinel::master_sdown'' EventStatusCritical @
         ev (severity_on (ss_MasterODown ins)) ''redis_sentinel::master_odown'' EventStatusCritical @
         ev (severity_on (ss_MasterAddrResolution ins)) ''redis_sentinel::master_addr_resolution'' EventStatusCritical)"

fun emit_all :: "Event list \<Rightarrow> unit srun" where
  "emit_all [] = sdone ()"
| "emit_all (e # es) = seq_run (semit e) (\<lambda>_. emit_all es)"

text \<open>The masters by name, a later entry replacing an earlier one, and their names in order.\<close>

definition discover :: "SentinelMasterInfo list \<Rightarrow> (string, SentinelMasterInfo) gomap \<times> string list" where
  "discover masters =
     (let named = filter (\<lambda>(n, _). n \<noteq> []) (map (\<lambda>m. (trim_space (m_str m ''name''), m)) masters) in
      (foldl (\<lambda>d (n, m). m_set n m d) [] named, sort_by byte_less (map fst named)))"

definition overview_event :: "sentinel_Instance \<Rightarrow> string \<Rightarrow> string list \<Rightarrow> Event" where
  "overview_event ins target names =
     (let sev = sv_Severity (ss_MastersOverview ins); n = show_nat (length names);
          ev = SetCurrentValue n
            (SetAttrs [(''masters_total'', n), (''discovered_masters'', join '','' names), desc_attr sev ''zero monitored masters'']
              (check_event ''redis_sentinel::masters_overview'' target));
          ev = (if sn_Masters ins = [] then SetAttrs [(''per_master_checks'', ''skipped_no_configured_masters'')] ev else ev)
      in if names = [] then alert_with sev ''sentinel is reachable but monitors zero masters'' ev
         else if sn_Masters ins = [] then
           SetDescription (''sentinel monitors '' @ n @ '' masters; per-master checks are skipped because instances.masters is not configured'') ev
         else SetDescription (''sentinel monitors '' @ n @ '' masters, everything is ok'') ev)"

definition tilt_event :: "sentinel_Instance \<Rightarrow> string \<Rightarrow> string + info \<Rightarrow> Event" where
  "tilt_event ins target r =
     (case r of
        Inl e \<Rightarrow> alert_with EventStatusCritical (''failed to query sentinel INFO: '' @ e) (check_event ''redis_sentinel::tilt'' target)
      | Inr i \<Rightarrow>
          let tilt = trim_space (m_str i ''sentinel_tilt''); sev = sv_Severity (ss_Tilt ins);
              ev = SetCurrentValue tilt (SetAttrs [(''sentinel_tilt'', tilt), desc_attr sev ''sentinel_tilt == 1''] (check_event ''redis_sentinel::tilt'' target))
          in if tilt = ''1'' then alert_with sev ''sentinel is in tilt mode'' ev
             else SetDescription ''sentinel is not in tilt mode'' ev)"

fun check_masters :: "fmt_quote \<Rightarrow> sentinel_Instance \<Rightarrow> string \<Rightarrow> (string, SentinelMasterInfo) gomap \<Rightarrow> string list \<Rightarrow> unit srun" where
  "check_masters q ins target discovered [] = sdone ()"
| "check_masters q ins target discovered (name # names) =
     seq_run (case map_of discovered name of
                None \<Rightarrow> emit_all (missing_master_events ins target name)
              | Some m \<Rightarrow> checkMaster q ins target name m)
       (\<lambda>_. check_masters q ins target discovered names)"

definition after_role :: "fmt_quote \<Rightarrow> sentinel_Instance \<Rightarrow> string \<Rightarrow> unit srun" where
  "after_role q ins target =
     seq_run (query (SentinelMasters q)) (\<lambda>r.
       case r of
         Inl e \<Rightarrow> semit (alert_with EventStatusCritical (''failed to query SENTINEL MASTERS: '' @ e) (check_event ''redis_sentinel::masters_overview'' target))
       | Inr masters \<Rightarrow>
           let (discovered, names) = discover masters in
           seq_run (if_enabled (severity_on (ss_MastersOverview ins)) (semit (overview_event ins target names))) (\<lambda>_.
             if sn_Masters ins = [] then sdone ()
             else seq_run (check_masters q ins target discovered (sn_Masters ins)) (\<lambda>_.
               if_enabled (severity_asked (ss_Tilt ins)) (seq_run (query (sentinel_Info q [])) (\<lambda>r. semit (tilt_event ins target r))))))"

definition role_event :: "sentinel_Instance \<Rightarrow> string \<Rightarrow> string \<Rightarrow> Event" where
  "role_event ins target role =
     (let sev = sv_Severity (ss_Role ins);
          ev = SetCurrentValue role (SetAttrs [(''actual'', role), (''expect'', ''sentinel''), desc_attr sev ''role != sentinel'']
                 (check_event ''redis_sentinel::role'' target))
      in if role \<noteq> ''sentinel'' then alert_with sev (''sentinel role is '' @ role @ '', expected sentinel'') ev
         else SetDescription ''sentinel role is sentinel, everything is ok'' ev)"

definition after_ping :: "fmt_quote \<Rightarrow> sentinel_Instance \<Rightarrow> string \<Rightarrow> unit srun" where
  "after_ping q ins target =
     (if severity_on (ss_Role ins) then
        seq_run (query (sentinel_Role q)) (\<lambda>r.
          case r of
            Inl e \<Rightarrow> semit (alert_with EventStatusCritical (''failed to query sentinel role: '' @ e) (check_event ''redis_sentinel::role'' target))
          | Inr role \<Rightarrow>
              seq_run (semit (role_event ins target role)) (\<lambda>_. if role = ''sentinel'' then after_role q ins target else sdone ()))
      else after_role q ins target)"

definition sentinel_conn :: "sentinel_Instance \<Rightarrow> string \<Rightarrow> duration \<Rightarrow> Event" where
  "sentinel_conn ins target t =
     SetAttrs [(''response_time'', dur_string t), desc_attr (sv_Severity (ss_Connectivity ins)) ''sentinel ping failed'']
       (check_event ''redis_sentinel::connectivity'' target)"

definition conn_failed :: "sentinel_Instance \<Rightarrow> string \<Rightarrow> duration \<Rightarrow> string \<Rightarrow> Event list" where
  "conn_failed ins target t e =
     (if severity_on (ss_Connectivity ins)
      then [alert_with (sv_Severity (ss_Connectivity ins)) (''sentinel ping failed: '' @ e) (sentinel_conn ins target t)] else [])"

definition sentinel_config :: "sentinel_Instance \<Rightarrow> string \<Rightarrow> RedisAccessorConfig" where
  "sentinel_config ins target = \<lparr>ac_Target = target, ac_Username = ss_Username ins, ac_Password = ss_Password ins, ac_DB = 0\<rparr>"

text \<open>The events, and the panic that ended the run, if any.\<close>

definition sentinel_gatherTarget ::
  "fmt_quote \<Rightarrow> (string \<Rightarrow> string + redis_conn) \<Rightarrow> duration \<Rightarrow> string \<Rightarrow> sentinel_Instance \<Rightarrow> Event list \<times> string option" where
  "sentinel_gatherTarget q dial t target ins =
     (case NewSentinelAccessor q dial (sentinel_config ins target) of
        Inl (CallPanic p) \<Rightarrow> ([], Some p)
      | Inl (CallErr e) \<Rightarrow> (conn_failed ins target t e, None)
      | Inr acc \<Rightarrow>
          (case sentinel_Ping q acc of
             (Inl (CallPanic p), _) \<Rightarrow> ([], Some p)
           | (Inl (CallErr e), _) \<Rightarrow> (conn_failed ins target t e, None)
           | (Inr _, acc) \<Rightarrow>
               (case seq_run (if_enabled (severity_on (ss_Connectivity ins)) (semit (SetDescription ''sentinel ping ok'' (sentinel_conn ins target t))))
                       (\<lambda>_. after_ping q ins target) acc of
                  (es, Inl p, _) \<Rightarrow> (es, Some p)
                | (es, Inr _, _) \<Rightarrow> (es, None))))"

definition sentinel_goroutine ::
  "fmt_quote \<Rightarrow> (string \<Rightarrow> string + redis_conn) \<Rightarrow> duration \<Rightarrow> string \<Rightarrow> sentinel_Instance \<Rightarrow> Event list \<times> sentinel_Instance" where
  "sentinel_goroutine q dial t target ins =
     (case sentinel_gatherTarget q dial t target ins of
        (es, None) \<Rightarrow> (es, ins)
      | (es, Some p) \<Rightarrow>
          (es @ [alert_with EventStatusCritical (''panic during check: '' @ p) (check_event ''redis_sentinel::connectivity'' target)], ins))"

section \<open>The driver\<close>

definition sentinel_timeout :: "sentinel_Instance \<Rightarrow> duration" where
  "sentinel_timeout ins =
     (let perTarget = i64 (ss_Timeout ins + i64 (ss_ReadTimeout ins * 10));
          batches = (int (length (sn_Targets ins)) + ss_Concurrency ins - 1) div ss_Concurrency ins;
          t = i64 (perTarget * (batches + 1))
      in if t < 30 * Second then 30 * Second else t)"

definition sentinel_hung :: "string \<Rightarrow> int \<Rightarrow> Event" where
  "sentinel_hung target elapsed =
     alert_with EventStatusCritical (''sentinel check hung for '' @ show_int elapsed @ '' seconds (target may be unreachable or blocked)'')
       (SetAttrs [(''elapsed_seconds'', show_int elapsed), (''threshold_desc'', ''Critical: sentinel check hung'')]
         (check_event ''redis_sentinel::hung'' target))"

definition sentinel_recovered :: "string \<Rightarrow> Event" where
  "sentinel_recovered target = SetDescription ''sentinel check recovered from hung state'' (check_event ''redis_sentinel::hung'' target)"

definition sentinel_plugin :: "fmt_quote \<Rightarrow> sentinel_Instance \<Rightarrow> (redis_world, sentinel_Instance) hung_plugin" where
  "sentinel_plugin q ins =
     \<lparr>hp_targets = (\<lambda>ts. ts = sn_Targets ins), hp_concurrency = ss_Concurrency ins, hp_timeout = sentinel_timeout ins,
      hp_hung = sentinel_hung, hp_recovered = sentinel_recovered,
      hp_work = (\<lambda>(dial, t) target i. sentinel_goroutine q dial t target i)\<rparr>"

section \<open>What the client sends\<close>

lemma sentinel_raw_snd: "snd (sentinel_rawCommand q args a) = snd (acc_RawCommand q args a)"
proof -
  define c where "c = arrive ((ra_client a)\<lparr>cn_out := cn_out (ra_client a) @ writeCommand args\<rparr>)"
  obtain x s where rv: "read_value (cn_in c) = (x, s)" by fastforce
  show ?thesis
  proof (cases "cn_broken (ra_client a)")
    case None
    then show ?thesis
      using rv by (cases x rule: sum.exhaust; cases "projl x")
        (auto simp: sentinel_rawCommand_def acc_RawCommand_def rawCommand_def c_def [symmetric] Let_def)
  qed (simp add: sentinel_rawCommand_def acc_RawCommand_def rawCommand_def)
qed

context call_rule
begin

lemma keeps_sentinel_raw: "ok args \<Longrightarrow> keeps (sentinel_rawCommand q args)"
  using keep_command by (simp add: keeps_def sentinel_raw_snd)

lemma keeps_sentinel_command: "ok args \<Longrightarrow> keeps (sentinel_command q args)"
  using keeps_sentinel_raw [of args q] by (simp add: keeps_def sentinel_command_def)

lemma keeps_parsed: "keeps m \<Longrightarrow> keeps (parsed m f)"
  unfolding parsed_def by (intro keeps_intros)

lemma keeps_with_master: "(\<And>n. keeps (f n)) \<Longrightarrow> keeps (with_master args f)"
  unfolding with_master_def Let_def by (intro keeps_intros)

text \<open>A run keeps what its queries keep.\<close>

definition run_keeps :: "'a srun \<Rightarrow> bool" where
  "run_keeps m \<longleftrightarrow> (\<forall>a. R a (snd (snd (m a))))"

lemma run_keeps_unit [intro]: "run_keeps (sdone v)" "run_keeps (semit e)"
  by (simp_all add: run_keeps_def sdone_def semit_def keep_refl)

lemma run_keeps_query [intro]: "keeps m \<Longrightarrow> run_keeps (query m)"
  by (auto simp: run_keeps_def query_def keeps_def split: prod.split sum.split call_error.split) (metis snd_conv)+

lemma run_keeps_seq [intro]:
  assumes "run_keeps m" "\<And>v. run_keeps (f v)"
  shows "run_keeps (seq_run m f)"
proof -
  have "R a (snd (snd (seq_run m f a)))" for a
  proof -
    obtain es r b where m: "m a = (es, r, b)" using prod_cases3 by blast
    have "R a b" using assms(1) m by (metis run_keeps_def snd_conv)
    moreover have "R b (snd (snd (f v b)))" for v using assms(2) by (simp add: run_keeps_def)
    ultimately show ?thesis
      using m keep_trans by (auto simp: seq_run_def split: prod.split sum.split) (metis snd_conv)+
  qed
  then show ?thesis by (simp add: run_keeps_def)
qed

lemma run_keeps_cases [intro]:
  "run_keeps u \<Longrightarrow> run_keeps (if_enabled b u)"
  "run_keeps m \<Longrightarrow> run_keeps m' \<Longrightarrow> run_keeps (if b then m else m')"
  "run_keeps n \<Longrightarrow> (\<And>v. run_keeps (g v)) \<Longrightarrow> run_keeps (case x of None \<Rightarrow> n | Some v \<Rightarrow> g v)"
  "(\<And>e. run_keeps (h e)) \<Longrightarrow> (\<And>v. run_keeps (k v)) \<Longrightarrow> run_keeps (case y of Inl e \<Rightarrow> h e | Inr v \<Rightarrow> k v)"
  by (auto simp: if_enabled_def split: option.split sum.split)

lemma run_keeps_pair [intro]: "(\<And>x y. run_keeps (f x y)) \<Longrightarrow> run_keeps (case p of (x, y) \<Rightarrow> f x y)"
  by (simp split: prod.split)

lemma run_keeps_load [intro]: "keeps c \<Longrightarrow> run_keeps (load b c)"
  unfolding load_def by auto

lemma run_keeps_emit_all [intro]: "run_keeps (emit_all es)"
  by (induct es) auto

end

text \<open>The commands of the plugin: a Sentinel answers them without changing its configuration.\<close>

definition sentinel_reads :: "string list \<Rightarrow> bool" where
  "sentinel_reads args \<longleftrightarrow>
     take 1 args \<in> {[''INFO''], [''PING''], [''ROLE'']} \<or>
     take 2 args \<in> (\<lambda>w. [''SENTINEL'', w]) ` {''MASTERS'', ''MASTER'', ''REPLICAS'', ''SENTINELS'', ''CKQUORUM'', ''GET-MASTER-ADDR-BY-NAME''}"

interpretation watching: call_rule "sent_by sentinel_reads" sentinel_reads
  by unfold_locales (auto intro: sent_by_refl sent_by_trans sent_by_command)

lemma watching_calls [intro]:
  "watching.keeps (sentinel_info q s)" "watching.keeps (sentinel_Ping q)" "watching.keeps (sentinel_Role q)" "watching.keeps (sentinel_Info q s)"
  "watching.keeps (SentinelMasters q)" "watching.keeps (SentinelMaster q n)" "watching.keeps (SentinelReplicas q n)"
  "watching.keeps (SentinelSentinels q n)" "watching.keeps (SentinelCKQuorum q n)" "watching.keeps (SentinelGetMasterAddrByName q n)"
  unfolding sentinel_info_def sentinel_Ping_def sentinel_Role_def sentinel_Info_def SentinelMasters_def SentinelMaster_def SentinelReplicas_def
    SentinelSentinels_def SentinelCKQuorum_def SentinelGetMasterAddrByName_def
  by (auto intro!: watching.keeps_parsed watching.keeps_sentinel_raw watching.keeps_sentinel_command simp: sentinel_reads_def)

lemma watching_tools:
  "list_all (\<lambda>(name, tool). watching.keeps tool) (sentinel_tools q args)" "watching.keeps (sentinel_preCollect q)"
  unfolding sentinel_tools_def sentinel_overview_def sentinel_master_health_def sentinel_replicas_def sentinel_sentinels_def
    sentinel_info_tool_def sentinel_InfoRaw_def sentinel_preCollect_def Let_def
  by (auto intro!: watching.keeps_intros watching.keeps_with_master)

lemma watching_checkMaster: "watching.run_keeps (checkMaster q ins target name m)"
  unfolding checkMaster_def check_failover_def Let_def
  by (intro watching.run_keeps_seq watching.run_keeps_cases watching.run_keeps_load watching.run_keeps_unit watching.run_keeps_query watching_calls)

lemma watching_checks: "watching.run_keeps (after_ping q ins target)"
proof -
  have masters: "watching.run_keeps (check_masters q ins target d ns)" for d ns
    by (induct ns) (auto intro!: watching_checkMaster)
  have "watching.run_keeps (after_role q ins target)"
    unfolding after_role_def Let_def
    by (intro watching.run_keeps_seq watching.run_keeps_cases watching.run_keeps_pair watching.run_keeps_unit watching.run_keeps_query watching_calls masters)
  then show ?thesis
    unfolding after_ping_def
    by (intro watching.run_keeps_seq watching.run_keeps_cases watching.run_keeps_unit watching.run_keeps_query watching_calls)
qed

section \<open>What a run reports\<close>

definition ev_key :: "Event \<Rightarrow> string \<times> string" where
  "ev_key e = (ev_check e, m_str (nil_map (Labels e)) ''master_name'')"

lemma ev_key_builders [simp]:
  "ev_key (SetDescription d e) = ev_key e" "ev_key (SetEventStatus s e) = ev_key e" "ev_key (SetAttrs a e) = ev_key e"
  "ev_key (SetCurrentValue v e) = ev_key e" "ev_key (alert_with s d e) = ev_key e"
  by (simp_all add: ev_key_def alert_with_def)

lemma ev_key_events [simp]:
  "ev_key (newMasterEvent check target name) = (check, name)" "ev_key (check_event check target) = (check, [])"
  by (simp_all add: ev_key_def ev_check_def newMasterEvent_def check_event_def BuildEvent_def nil_map_def m_copy_Cons m_str_def)

lemma ev_key_reports [simp]:
  "ev_key (ckquorum_event ins target name r) = (''redis_sentinel::ckquorum'', name)" "ev_key (down_event check flag word sev target name flags) = (check, name)"
  "ev_key (addr_event ins target name r) = (''redis_sentinel::master_addr_resolution'', name)" "ev_key (sentinel_minCount target check name v th metric) = (check, name)"
  "ev_key (failover_event ins target name flags) = (''redis_sentinel::failover_in_progress'', name)"
  "ev_key (overview_event ins target names) = (''redis_sentinel::masters_overview'', [])" "ev_key (tilt_event ins target i) = (''redis_sentinel::tilt'', [])"
  "ev_key (role_event ins target role) = (''redis_sentinel::role'', [])" "ev_key (sentinel_conn ins target t) = (''redis_sentinel::connectivity'', [])"
  "ev_key (count_event target check name what th metric xs) = (check, name)"
  by (simp_all add: ckquorum_event_def down_event_def addr_event_def sentinel_minCount_def failover_event_def overview_event_def tilt_event_def
    role_event_def sentinel_conn_def count_event_def Let_def split: sum.split)

text \<open>A run that does not panic reports these checks of these masters, in this order, and returns a value with a property.\<close>

definition reports_keys :: "'a srun \<Rightarrow> (string \<times> string) list \<Rightarrow> ('a \<Rightarrow> bool) \<Rightarrow> bool" where
  "reports_keys m ks V \<longleftrightarrow> (\<forall>a es v b. m a = (es, Inr v, b) \<longrightarrow> map ev_key es = ks \<and> V v)"

lemma reports_keysD: "reports_keys m ks V \<Longrightarrow> m a = (es, Inr v, b) \<Longrightarrow> map ev_key es = ks \<and> V v"
  unfolding reports_keys_def by blast

lemma reports_done: "V v \<Longrightarrow> reports_keys (sdone v) [] V"
  by (simp add: reports_keys_def sdone_def)

lemma reports_emit: "reports_keys (semit e) [ev_key e] (\<lambda>_. True)"
  by (simp add: reports_keys_def semit_def)

lemma reports_query: "reports_keys (query m) [] (\<lambda>_. True)"
  by (auto simp: reports_keys_def query_def split: prod.splits sum.splits call_error.splits)

lemma seq_run_split:
  assumes "seq_run m f a = (es, Inr w, c)"
  obtains xs v b ys where "m a = (xs, Inr v, b)" "f v b = (ys, Inr w, c)" "es = xs @ ys"
  using assms by (auto simp: seq_run_def split: prod.splits sum.splits)

lemma reports_seq:
  assumes "reports_keys m ks V" "\<And>v. V v \<Longrightarrow> reports_keys (f v) ls W"
  shows "reports_keys (seq_run m f) (ks @ ls) W"
proof -
  have "map ev_key es = ks @ ls \<and> W w" if r: "seq_run m f a = (es, Inr w, c)" for a es w c
  proof -
    obtain xs v b ys where *: "m a = (xs, Inr v, b)" "f v b = (ys, Inr w, c)" "es = xs @ ys"
      using r by (rule seq_run_split)
    have "map ev_key xs = ks" "V v" using reports_keysD [OF assms(1) *(1)] by simp_all
    then show ?thesis using reports_keysD [OF assms(2) *(2)] *(3) by simp
  qed
  then show ?thesis unfolding reports_keys_def by blast
qed

lemma reports_if: "reports_keys m ks (\<lambda>_. True) \<Longrightarrow> reports_keys (if_enabled b m) (if b then ks else []) (\<lambda>_. True)"
  by (simp add: if_enabled_def reports_done)

lemma reports_load: "reports_keys (load b m) [] (\<lambda>v. v = None \<longleftrightarrow> \<not> b)"
proof (cases b)
  case True
  have "reports_keys (seq_run (query m) (\<lambda>r. sdone (Some r))) ([] @ []) (\<lambda>v. v \<noteq> None)"
    by (rule reports_seq [OF reports_query]) (simp add: reports_done)
  then show ?thesis using True by (simp add: load_def)
qed (simp add: load_def reports_done)

lemma reports_case:
  "(x = None \<Longrightarrow> reports_keys m ks V) \<Longrightarrow> (\<And>v. x = Some v \<Longrightarrow> reports_keys (g v) ks V) \<Longrightarrow>
    reports_keys (case x of None \<Rightarrow> m | Some v \<Rightarrow> g v) ks V"
  by (cases x) simp_all

lemma reports_emit_all: "reports_keys (emit_all es) (map ev_key es) (\<lambda>_. True)"
proof (induct es)
  case (Cons e es)
  have "reports_keys (seq_run (semit e) (\<lambda>_. emit_all es)) ([ev_key e] @ map ev_key es) (\<lambda>_. True)"
    by (rule reports_seq [OF reports_emit]) (rule Cons)
  then show ?case by simp
qed (simp add: reports_done)

text \<open>The checks of a master that the server lists, and of one it does not list.\<close>

definition base_master_keys :: "sentinel_Instance \<Rightarrow> string \<Rightarrow> (string \<times> string) list" where
  "base_master_keys ins name =
     (if severity_on (ss_CKQuorum ins) then [(''redis_sentinel::ckquorum'', name)] else []) @
     (if severity_on (ss_MasterSDown ins) then [(''redis_sentinel::master_sdown'', name)] else []) @
     (if severity_on (ss_MasterODown ins) then [(''redis_sentinel::master_odown'', name)] else []) @
     (if severity_on (ss_MasterAddrResolution ins) then [(''redis_sentinel::master_addr_resolution'', name)] else [])"

definition extra_master_keys :: "sentinel_Instance \<Rightarrow> string \<Rightarrow> (string \<times> string) list" where
  "extra_master_keys ins name =
     (if threshold_asked (ss_PeerCount ins) then [(''redis_sentinel::peer_count'', name)] else []) @
     (if threshold_asked (ss_KnownSentinels ins) then [(''redis_sentinel::known_sentinels'', name)] else []) @
     (if threshold_asked (ss_KnownReplicas ins) then [(''redis_sentinel::known_replicas'', name)] else []) @
     (if severity_asked (ss_FailoverInProgress ins) then [(''redis_sentinel::failover_in_progress'', name)] else [])"

lemma missing_keys: "map ev_key (missing_master_events ins target name) = base_master_keys ins name"
  by (simp add: missing_master_events_def base_master_keys_def Let_def)

lemma reports_one: "ev_key e = k \<Longrightarrow> reports_keys (semit e) [k] (\<lambda>_. True)"
  using reports_emit [of e] by simp

lemma reports_ask: "(\<And>r. ev_key (f r) = k) \<Longrightarrow> reports_keys (seq_run (query m) (\<lambda>r. semit (f r))) [k] (\<lambda>_. True)"
  using reports_seq [OF reports_query, of "\<lambda>r. semit (f r)" "[k]"] by (simp add: reports_one)

lemma reports_failover: "reports_keys (check_failover q ins target name flags loaded) [(''redis_sentinel::failover_in_progress'', name)] (\<lambda>_. True)"
proof -
  have "reports_keys (seq_run (case loaded of Some r \<Rightarrow> sdone r | None \<Rightarrow> query (SentinelSentinels q name)) (\<lambda>r. semit (f r))) ([] @ [k]) (\<lambda>_. True)"
    if "\<And>r. ev_key (f r) = k" for k and f :: "string + SentinelMasterInfo list \<Rightarrow> Event"
    by (rule reports_seq [where V = "\<lambda>_. True"]) (auto intro: reports_case reports_query reports_done reports_one that)
  then have "reports_keys (seq_run (case loaded of Some r \<Rightarrow> sdone r | None \<Rightarrow> query (SentinelSentinels q name)) (\<lambda>r. semit (f r))) [k] (\<lambda>_. True)"
    if "\<And>r. ev_key (f r) = k" for k and f :: "string + SentinelMasterInfo list \<Rightarrow> Event" using that by simp
  then show ?thesis
    unfolding check_failover_def Let_def by (auto intro: reports_one split: sum.split)
qed

lemma reports_loaded:
  "(b \<Longrightarrow> x \<noteq> None) \<Longrightarrow> (\<And>r. ev_key (f r) = k) \<Longrightarrow>
    reports_keys (case x of None \<Rightarrow> sdone () | Some r \<Rightarrow> if_enabled b (semit (f r))) (if b then [k] else []) (\<lambda>_. True)"
  "(x = None \<longleftrightarrow> \<not> b) \<Longrightarrow> (\<And>r. ev_key (f r) = k) \<Longrightarrow>
    reports_keys (case x of None \<Rightarrow> sdone () | Some r \<Rightarrow> semit (f r)) (if b then [k] else []) (\<lambda>_. True)"
  by (cases x; auto simp: if_enabled_def intro: reports_done reports_one)+

lemma reports_checkMaster: "reports_keys (checkMaster q ins target name m) (base_master_keys ins name @ extra_master_keys ins name) (\<lambda>_. True)"
proof -
  have split: "base_master_keys ins name @ extra_master_keys ins name =
     (if severity_on (ss_CKQuorum ins) then [(''redis_sentinel::ckquorum'', name)] else []) @
     (if severity_on (ss_MasterSDown ins) then [(''redis_sentinel::master_sdown'', name)] else []) @
     (if severity_on (ss_MasterODown ins) then [(''redis_sentinel::master_odown'', name)] else []) @
     (if severity_on (ss_MasterAddrResolution ins) then [(''redis_sentinel::master_addr_resolution'', name)] else []) @ [] @ [] @
     (if threshold_asked (ss_PeerCount ins) then [(''redis_sentinel::peer_count'', name)] else []) @
     (if threshold_asked (ss_KnownSentinels ins) then [(''redis_sentinel::known_sentinels'', name)] else []) @
     (if threshold_asked (ss_KnownReplicas ins) then [(''redis_sentinel::known_replicas'', name)] else []) @
     (if severity_asked (ss_FailoverInProgress ins) then [(''redis_sentinel::failover_in_progress'', name)] else [])"
    by (simp add: base_master_keys_def extra_master_keys_def)
  show ?thesis
    unfolding checkMaster_def Let_def split
    by (intro reports_seq [OF reports_load] reports_seq [where V = "\<lambda>_. True"] reports_if reports_ask reports_one reports_failover reports_loaded) auto
qed

definition master_keys :: "sentinel_Instance \<Rightarrow> (string \<Rightarrow> bool) \<Rightarrow> string \<Rightarrow> (string \<times> string) list" where
  "master_keys ins listed name = base_master_keys ins name @ (if listed name then extra_master_keys ins name else [])"

lemma reports_masters: "reports_keys (check_masters q ins target d ns) (concat (map (master_keys ins (\<lambda>n. map_of d n \<noteq> None)) ns)) (\<lambda>_. True)"
proof (induct ns)
  case (Cons n ns)
  have "reports_keys (case map_of d n of None \<Rightarrow> emit_all (missing_master_events ins target n) | Some m \<Rightarrow> checkMaster q ins target n m)
      (master_keys ins (\<lambda>n. map_of d n \<noteq> None) n) (\<lambda>_. True)"
    using reports_checkMaster [of q ins target n] reports_emit_all [of "missing_master_events ins target n"]
    by (intro reports_case) (simp_all add: master_keys_def missing_keys)
  then show ?case unfolding check_masters.simps list.map concat.simps by (rule reports_seq) (rule Cons)
qed (simp add: reports_done)

text \<open>The checks after the role is known: only the overview, when the masters cannot be listed; otherwise all that is configured.\<close>

definition full_keys :: "sentinel_Instance \<Rightarrow> (string \<Rightarrow> bool) \<Rightarrow> (string \<times> string) list" where
  "full_keys ins listed =
     (if severity_on (ss_MastersOverview ins) then [(''redis_sentinel::masters_overview'', [])] else []) @
     (if sn_Masters ins = [] then []
      else concat (map (master_keys ins listed) (sn_Masters ins)) @
        (if severity_asked (ss_Tilt ins) then [(''redis_sentinel::tilt'', [])] else []))"

definition role_options :: "sentinel_Instance \<Rightarrow> (string \<times> string) list set" where
  "role_options ins = insert [(''redis_sentinel::masters_overview'', [])] (range (full_keys ins))"

lemma after_role_keys:
  assumes "after_role q ins target a = (es, Inr v, b)"
  shows "map ev_key es \<in> role_options ins"
proof -
  obtain xs r c ys where qu: "query (SentinelMasters q) a = (xs, Inr r, c)" and
    k: "(case r of
         Inl e \<Rightarrow> semit (alert_with EventStatusCritical (''failed to query SENTINEL MASTERS: '' @ e) (check_event ''redis_sentinel::masters_overview'' target))
       | Inr masters \<Rightarrow>
           let (discovered, names) = discover masters in
           seq_run (if_enabled (severity_on (ss_MastersOverview ins)) (semit (overview_event ins target names))) (\<lambda>_.
             if sn_Masters ins = [] then sdone ()
             else seq_run (check_masters q ins target discovered (sn_Masters ins)) (\<lambda>_.
               if_enabled (severity_asked (ss_Tilt ins)) (seq_run (query (sentinel_Info q [])) (\<lambda>r. semit (tilt_event ins target r)))))) c = (ys, Inr v, b)"
    and es: "es = xs @ ys"
    using assms unfolding after_role_def by (rule seq_run_split)
  have xs: "xs = []" using reports_keysD [OF reports_query qu] by simp
  show ?thesis
  proof (cases r)
    case (Inl e)
    then show ?thesis using k es xs by (auto simp: semit_def role_options_def)
  next
    case (Inr masters)
    obtain d names where d: "discover masters = (d, names)" by fastforce
    have rest: "reports_keys (if sn_Masters ins = [] then sdone ()
             else seq_run (check_masters q ins target d (sn_Masters ins)) (\<lambda>_.
               if_enabled (severity_asked (ss_Tilt ins)) (seq_run (query (sentinel_Info q [])) (\<lambda>r. semit (tilt_event ins target r)))))
        (if sn_Masters ins = [] then [] else concat (map (master_keys ins (\<lambda>n. map_of d n \<noteq> None)) (sn_Masters ins)) @
          (if severity_asked (ss_Tilt ins) then [(''redis_sentinel::tilt'', [])] else [])) (\<lambda>_. True)"
    proof (cases "sn_Masters ins = []")
      case False
      show ?thesis unfolding if_not_P [OF False] by (intro reports_seq [OF reports_masters] reports_if reports_ask) simp
    qed (simp add: reports_done)
    have "reports_keys (seq_run (if_enabled (severity_on (ss_MastersOverview ins)) (semit (overview_event ins target names))) (\<lambda>_.
             if sn_Masters ins = [] then sdone ()
             else seq_run (check_masters q ins target d (sn_Masters ins)) (\<lambda>_.
               if_enabled (severity_asked (ss_Tilt ins)) (seq_run (query (sentinel_Info q [])) (\<lambda>r. semit (tilt_event ins target r))))))
        (full_keys ins (\<lambda>n. map_of d n \<noteq> None)) (\<lambda>_. True)"
      unfolding full_keys_def by (intro reports_seq [OF reports_if [OF reports_one]] rest) simp
    from reports_keysD [OF this] have "map ev_key ys = full_keys ins (\<lambda>n. map_of d n \<noteq> None)"
      using k Inr d by simp
    then show ?thesis using es xs by (simp add: role_options_def)
  qed
qed

definition conn_keys :: "sentinel_Instance \<Rightarrow> (string \<times> string) list" where
  "conn_keys ins = (if severity_on (ss_Connectivity ins) then [(''redis_sentinel::connectivity'', [])] else [])"

definition role_keys :: "sentinel_Instance \<Rightarrow> (string \<times> string) list" where
  "role_keys ins = (if severity_on (ss_Role ins) then [(''redis_sentinel::role'', [])] else [])"

lemma after_ping_keys:
  assumes "after_ping q ins target a = (es, Inr v, b)"
  shows "map ev_key es \<in> insert (role_keys ins) ((\<lambda>ks. role_keys ins @ ks) ` role_options ins)"
proof (cases "severity_on (ss_Role ins)")
  case True
  define f where "f = (\<lambda>r. case r of
            Inl e \<Rightarrow> semit (alert_with EventStatusCritical (''failed to query sentinel role: '' @ e) (check_event ''redis_sentinel::role'' target))
          | Inr role \<Rightarrow>
              seq_run (semit (role_event ins target role)) (\<lambda>_. if role = ''sentinel'' then after_role q ins target else sdone ()))"
  have "seq_run (query (sentinel_Role q)) f a = (es, Inr v, b)"
    using assms True unfolding after_ping_def f_def by (simp only: if_True)
  then obtain xs r c ys where qu: "query (sentinel_Role q) a = (xs, Inr r, c)" and k: "f r c = (ys, Inr v, b)" and es: "es = xs @ ys"
    by (rule seq_run_split)
  have xs: "xs = []" using reports_keysD [OF reports_query qu] by simp
  show ?thesis
  proof (cases r)
    case (Inl e)
    then show ?thesis using k es xs True by (auto simp: f_def semit_def role_keys_def)
  next
    case (Inr role)
    then show ?thesis
      using k es xs True by (auto simp: f_def semit_def sdone_def role_keys_def elim!: seq_run_split dest!: after_role_keys split: if_splits)
  qed
next
  case False
  then show ?thesis using assms after_role_keys by (simp add: after_ping_def role_keys_def)
qed

lemma gather_keys:
  assumes "sentinel_gatherTarget q dial t target ins = (es, None)"
  shows "map ev_key es \<in> {conn_keys ins, conn_keys ins @ role_keys ins} \<union> (\<lambda>ks. conn_keys ins @ role_keys ins @ ks) ` role_options ins"
proof -
  have failed: "map ev_key (conn_failed ins target t e) = conn_keys ins" for e
    by (simp add: conn_failed_def conn_keys_def)
  have run: "map ev_key xs \<in> {conn_keys ins @ role_keys ins} \<union> (\<lambda>ks. conn_keys ins @ role_keys ins @ ks) ` role_options ins"
    if r: "seq_run (if_enabled (severity_on (ss_Connectivity ins)) (semit (SetDescription d (sentinel_conn ins target t))))
      (\<lambda>_. after_ping q ins target) acc = (xs, Inr v, b)" for d acc xs v b
  proof -
    from r obtain ys u c zs where ys: "if_enabled (severity_on (ss_Connectivity ins)) (semit (SetDescription d (sentinel_conn ins target t))) acc = (ys, Inr u, c)"
      and zs: "after_ping q ins target c = (zs, Inr v, b)" and xs: "xs = ys @ zs" by (rule seq_run_split)
    have "map ev_key ys = conn_keys ins" using ys by (auto simp: if_enabled_def semit_def sdone_def conn_keys_def split: if_splits)
    then show ?thesis using after_ping_keys [OF zs] xs by auto
  qed
  show ?thesis
    using assms run failed by (auto simp: sentinel_gatherTarget_def split: sum.splits call_error.splits prod.splits)
qed

lemma gather_checks:
  assumes "sentinel_gatherTarget q dial t target ins = (es, None)" "e \<in> set es"
  shows "ev_check e \<in> fst ` set (conn_keys ins @ role_keys ins) \<union> {''redis_sentinel::masters_overview''} \<union> (\<Union>l. fst ` set (full_keys ins l))"
proof -
  obtain ks where ks: "ks = map ev_key es" by blast
  have "ks \<in> {conn_keys ins, conn_keys ins @ role_keys ins} \<union> (\<lambda>ks. conn_keys ins @ role_keys ins @ ks) ` role_options ins"
    unfolding ks using assms(1) by (rule gather_keys)
  moreover have "ev_key e \<in> set ks" using assms(2) ks by simp
  ultimately have "ev_key e \<in> set (conn_keys ins @ role_keys ins) \<union> {(''redis_sentinel::masters_overview'', [])} \<union> (\<Union>l. set (full_keys ins l))"
    by (auto simp: role_options_def)
  moreover have "ev_check e = fst (ev_key e)" by (simp add: ev_key_def)
  ultimately show ?thesis by auto
qed

text \<open>What holds of every event a run pushes, also of one that ends in a panic.\<close>

definition pushes :: "(Event \<Rightarrow> bool) \<Rightarrow> 'a srun \<Rightarrow> bool" where
  "pushes Q m \<longleftrightarrow> (\<forall>a. list_all Q (fst (m a)))"

lemma pushes_unit: "pushes Q (sdone v)" "Q e \<Longrightarrow> pushes Q (semit e)"
  by (simp_all add: pushes_def sdone_def semit_def)

lemma pushes_query: "pushes Q (query m)"
  by (simp add: pushes_def query_def split: prod.split sum.split call_error.split)

lemma pushes_seq: "pushes Q m \<Longrightarrow> (\<And>v. pushes Q (f v)) \<Longrightarrow> pushes Q (seq_run m f)"
  by (auto simp: pushes_def seq_run_def split: prod.split sum.split) (metis fst_conv)+

lemma pushes_if: "(b \<Longrightarrow> pushes Q u) \<Longrightarrow> pushes Q (if_enabled b u)"
  by (simp add: if_enabled_def pushes_unit)

lemma pushes_cases:
  "pushes Q m \<Longrightarrow> pushes Q m' \<Longrightarrow> pushes Q (if b then m else m')"
  "pushes Q n \<Longrightarrow> (\<And>v. pushes Q (g v)) \<Longrightarrow> pushes Q (case x of None \<Rightarrow> n | Some v \<Rightarrow> g v)"
  "(\<And>e. pushes Q (h e)) \<Longrightarrow> (\<And>v. pushes Q (k v)) \<Longrightarrow> pushes Q (case y of Inl e \<Rightarrow> h e | Inr v \<Rightarrow> k v)"
  "(\<And>x y. pushes Q (l x y)) \<Longrightarrow> pushes Q (case p of (x, y) \<Rightarrow> l x y)"
  by (simp_all split: option.split sum.split prod.split)

lemma pushes_load: "pushes Q (load b c)"
  unfolding load_def by (intro pushes_cases pushes_seq pushes_query pushes_unit)

lemma pushes_emit_all: "list_all Q es \<Longrightarrow> pushes Q (emit_all es)"
  by (induct es) (auto intro!: pushes_seq pushes_unit)

lemmas pushes_intros = pushes_seq pushes_query pushes_if pushes_cases pushes_load pushes_unit

text \<open>No run reports the hung check, and where the overview is switched off its only event is the failed listing.\<close>

definition calm :: "sentinel_Instance \<Rightarrow> Event \<Rightarrow> bool" where
  "calm ins e \<longleftrightarrow> ev_check e \<noteq> ''redis_sentinel::hung'' \<and>
     (ev_check e = ''redis_sentinel::masters_overview'' \<and> \<not> severity_on (ss_MastersOverview ins) \<longrightarrow> EventStatus e = EventStatusCritical)"

lemma ev_check_of_key: "ev_key e = (c, n) \<Longrightarrow> ev_check e = c"
  by (simp add: ev_key_def)

lemma calm_key: "fst (ev_key e) \<noteq> ''redis_sentinel::hung'' \<Longrightarrow> fst (ev_key e) \<noteq> ''redis_sentinel::masters_overview'' \<Longrightarrow> calm ins e"
  by (simp add: calm_def ev_key_def)

lemma calm_master: "pushes (calm ins) (checkMaster q ins target name m)"
  unfolding checkMaster_def check_failover_def Let_def
  by (intro pushes_intros; rule calm_key; simp split: sum.split)

lemma calm_missing: "list_all (calm ins) (missing_master_events ins target name)"
  by (auto simp: missing_master_events_def Let_def list_all_iff intro: calm_key)

lemma calm_masters: "pushes (calm ins) (check_masters q ins target d ns)"
  by (induct ns) (auto intro!: pushes_intros calm_master pushes_emit_all calm_missing)

lemma calm_overview:
  "severity_on (ss_MastersOverview ins) \<Longrightarrow> calm ins (overview_event ins target names)"
  "calm ins (alert_with EventStatusCritical d (check_event ''redis_sentinel::masters_overview'' target))"
  by (simp_all add: calm_def ev_check_of_key [OF ev_key_reports(6)])

lemma calm_run: "pushes (calm ins) (after_ping q ins target)"
proof -
  have "pushes (calm ins) (after_role q ins target)"
    unfolding after_role_def Let_def
    by (intro pushes_intros calm_masters calm_overview) (auto intro: calm_key)
  then show ?thesis
    unfolding after_ping_def by (intro pushes_intros) (auto intro: calm_key)
qed

lemma calm_goroutine: "list_all (calm ins) (fst (sentinel_goroutine q dial t target ins))"
proof -
  have conn: "calm ins (SetDescription d (sentinel_conn ins target t))" "calm ins (alert_with s d (check_event ''redis_sentinel::connectivity'' target))"
    "list_all (calm ins) (conn_failed ins target t d)" for d s
    by (auto simp: conn_failed_def intro: calm_key)
  have "pushes (calm ins) (seq_run (if_enabled b (semit (SetDescription d (sentinel_conn ins target t)))) (\<lambda>_. after_ping q ins target))" for b d
    by (intro pushes_intros conn calm_run)
  then have "list_all (calm ins) es" if "seq_run (if_enabled b (semit (SetDescription d (sentinel_conn ins target t)))) (\<lambda>_. after_ping q ins target) a = (es, r, c)" for b d a es r c
    using that by (metis fst_conv pushes_def)
  then have "list_all (calm ins) (fst (sentinel_gatherTarget q dial t target ins))"
    using conn(3) by (auto simp: sentinel_gatherTarget_def split: sum.splits call_error.splits prod.splits)
  then show ?thesis using conn(2) by (auto simp: sentinel_goroutine_def split: prod.splits option.splits)
qed

interpretation sentinel: hung_reporter "sentinel_plugin q ins" "''redis_sentinel::hung''" for q ins
  using calm_goroutine
  by unfold_locales (auto simp: sentinel_plugin_def sentinel_hung_def sentinel_recovered_def status_defs calm_def list_all_iff split: prod.splits)

section \<open>Properties\<close>

text \<open>a run against a Sentinel that does not panic reports a fixed list of checks: connectivity alone, up to the role, up to a
  failed listing of the masters, or every configured check once, in order, for every configured master; of a master the Sentinel does
  not list, only the four base checks.\<close>

theorem sentinel_reports_each_check:
  assumes "sentinel_gatherTarget q dial t target ins = (es, None)"
  shows "map ev_key es \<in> {conn_keys ins, conn_keys ins @ role_keys ins} \<union> (\<lambda>ks. conn_keys ins @ role_keys ins @ ks) ` role_options ins"
  using assms by (rule gather_keys)

definition off_check :: SeverityCheck where "off_check = \<lparr>sv_Enabled = Some False, sv_Severity = EventStatusCritical\<rparr>"

definition sample_sentinel :: sentinel_Instance where
  "sample_sentinel = \<lparr>ss_Concurrency = 10, ss_Timeout = 3 * Second, ss_ReadTimeout = 2 * Second, ss_Username = [], ss_Password = [],
     ss_ClientConfig = rs_ClientConfig sample_redis, ss_Connectivity = off_check\<lparr>sv_Enabled := None\<rparr>, ss_Role = off_check\<lparr>sv_Enabled := None\<rparr>,
     ss_MastersOverview = off_check\<lparr>sv_Enabled := None\<rparr>, ss_CKQuorum = off_check, ss_MasterSDown = off_check\<lparr>sv_Enabled := None\<rparr>, ss_MasterODown = off_check,
     ss_MasterAddrResolution = off_check, ss_PeerCount = \<lparr>th_Enabled = None, th_WarnLt = 0, th_CriticalLt = 0\<rparr>,
     ss_KnownReplicas = \<lparr>th_Enabled = None, th_WarnLt = 0, th_CriticalLt = 0\<rparr>, ss_KnownSentinels = \<lparr>th_Enabled = None, th_WarnLt = 0, th_CriticalLt = 0\<rparr>,
     ss_FailoverInProgress = off_check, ss_Tilt = off_check, sn_Partial = [], sn_Targets = [''s:26379''], sn_Masters = [''mymaster'']\<rparr>"

text \<open>A Sentinel that knows one master, subjectively down.\<close>

definition sample_conn :: redis_conn where
  "sample_conn = \<lparr>cn_in = [], cn_arrivals = [encode (RStr ''PONG''), encode (RArr [RStr ''sentinel'', RArr [RStr ''mymaster'']]),
     encode (RArr [RArr [RStr ''name'', RStr ''mymaster'', RStr ''flags'', RStr ''master,s_down'']])], cn_out = [],
     cn_stop = ''i/o timeout'', cn_broken = None, cn_closed = False\<rparr>"

lemma raw_encoded:
  assumes "fits r" "cn_broken (ra_client a) = None" "cn_in (ra_client a) = []" "cn_arrivals (ra_client a) = encode r # rest"
  shows "\<exists>b. sentinel_rawCommand q args a = (Inr r, b) \<and> cn_broken (ra_client b) = None \<and> cn_in (ra_client b) = [] \<and> cn_arrivals (ra_client b) = rest"
  using assms read_value_encode [OF assms(1), of "[]"] by (simp add: sentinel_rawCommand_def arrive_def Let_def)

lemma sentinel_sample_run:
  "\<exists>es. sentinel_gatherTarget sample_quote (\<lambda>_. Inr sample_conn) 1000 ''s:26379'' sample_sentinel = (es, None) \<and>
    map ev_key es = [(''redis_sentinel::connectivity'', []), (''redis_sentinel::role'', []), (''redis_sentinel::masters_overview'', []),
      (''redis_sentinel::master_sdown'', ''mymaster'')]"
proof -
  define a0 where "a0 = \<lparr>ra_client = sample_conn, ra_target = ''s:26379''\<rparr>"
  have "fits (RStr ''PONG'')" by (simp add: maxBulkSize_def)
  from raw_encoded [OF this, of a0 _ sample_quote "[''PING'']"] obtain a1 where a1: "sentinel_rawCommand sample_quote [''PING''] a0 = (Inr (RStr ''PONG''), a1)"
    "cn_broken (ra_client a1) = None" "cn_in (ra_client a1) = []"
    "cn_arrivals (ra_client a1) = [encode (RArr [RStr ''sentinel'', RArr [RStr ''mymaster'']]),
      encode (RArr [RArr [RStr ''name'', RStr ''mymaster'', RStr ''flags'', RStr ''master,s_down'']])]"
    by (auto simp: a0_def sample_conn_def simp del: encode.simps)
  have "fits (RArr [RStr ''sentinel'', RArr [RStr ''mymaster'']])" by (simp add: maxBulkSize_def max_slice_def)
  from raw_encoded [OF this a1(2,3,4), of sample_quote "[''ROLE'']"] obtain a2 where
    a2: "sentinel_rawCommand sample_quote [''ROLE''] a1 = (Inr (RArr [RStr ''sentinel'', RArr [RStr ''mymaster'']]), a2)"
    "cn_broken (ra_client a2) = None" "cn_in (ra_client a2) = []"
    "cn_arrivals (ra_client a2) = [encode (RArr [RArr [RStr ''name'', RStr ''mymaster'', RStr ''flags'', RStr ''master,s_down'']])]"
    by blast
  have "fits (RArr [RArr [RStr ''name'', RStr ''mymaster'', RStr ''flags'', RStr ''master,s_down'']])" by (simp add: maxBulkSize_def max_slice_def)
  from raw_encoded [OF this a2(2,3,4), of sample_quote "[''SENTINEL'', ''MASTERS'']"] obtain a3 where
    a3: "sentinel_rawCommand sample_quote [''SENTINEL'', ''MASTERS''] a2 =
      (Inr (RArr [RArr [RStr ''name'', RStr ''mymaster'', RStr ''flags'', RStr ''master,s_down'']]), a3)"
    by blast
  have role: "to_lower (trim_space ''sentinel'') = ''sentinel''" "trim_space ''mymaster'' = ''mymaster''" "to_upper ''PONG'' = ''PONG''" by code_simp+
  have found: "discover [[(''name'', ''mymaster''), (''flags'', ''master,s_down'')]] =
      ([(''mymaster'', [(''name'', ''mymaster''), (''flags'', ''master,s_down'')])], [''mymaster''])"
    by (simp add: discover_def m_str_def role m_set_def m_del_def sort_by_def)
  have ping: "sentinel_Ping sample_quote a0 = (Inr (), a1)"
    by (simp add: sentinel_Ping_def parsed_def attempt_def sentinel_command_def a1(1) role ret_def)
  have ask_role: "query (sentinel_Role sample_quote) a1 = ([], Inr (Inr ''sentinel''), a2)"
    by (simp add: query_def sentinel_Role_def parsed_def attempt_def a2(1) role ret_def)
  have masters: "query (SentinelMasters sample_quote) a2 = ([], Inr (Inr [[(''name'', ''mymaster''), (''flags'', ''master,s_down'')]]), a3)"
    by (simp add: query_def SentinelMasters_def parsed_def attempt_def a3 ret_def m_set_def m_del_def sort_by_def)
  show ?thesis
    by (simp add: sentinel_gatherTarget_def NewSentinelAccessor_def sentinel_config_def ping a0_def [symmetric] seq_run_def if_enabled_def semit_def sdone_def
      after_ping_def ask_role after_role_def masters found checkMaster_def load_def sample_sentinel_def severity_on_def severity_asked_def threshold_asked_def
      severityCheckEnabled_def thresholdCheckEnabled_def off_check_def)
qed

theorem sentinel_reports_each_check_witness:
  "[(''redis_sentinel::connectivity'', []), (''redis_sentinel::role'', []), (''redis_sentinel::masters_overview'', []), (''redis_sentinel::master_sdown'', ''mymaster'')]
     \<in> {conn_keys sample_sentinel, conn_keys sample_sentinel @ role_keys sample_sentinel} \<union>
       (\<lambda>ks. conn_keys sample_sentinel @ role_keys sample_sentinel @ ks) ` role_options sample_sentinel"
proof -
  from sentinel_sample_run obtain es where es: "sentinel_gatherTarget sample_quote (\<lambda>_. Inr sample_conn) 1000 ''s:26379'' sample_sentinel = (es, None) \<and>
    map ev_key es = [(''redis_sentinel::connectivity'', []), (''redis_sentinel::role'', []), (''redis_sentinel::masters_overview'', []),
      (''redis_sentinel::master_sdown'', ''mymaster'')]" ..
  show ?thesis using sentinel_reports_each_check [OF conjunct1 [OF es]] unfolding conjunct2 [OF es] .
qed

text \<open>the tools and the checks only send commands that read: a diagnosis or a gather never makes a Sentinel fail over, forget a
  master or change a setting.\<close>

theorem sentinel_only_reads:
  "list_all (\<lambda>(name, tool). sent_by sentinel_reads a (snd (tool a))) (sentinel_tools q args) \<and>
   sent_by sentinel_reads a (snd (sentinel_preCollect q a)) \<and> sent_by sentinel_reads a (snd (snd (after_ping q ins target a)))"
  using watching_tools(1) [of q args] watching_tools(2) [of q] watching_checks [of q ins target]
  by (auto simp: watching.keeps_def watching.run_keeps_def list_all_iff)

text \<open>a hung alert of a Sentinel is cleared under the same condition as one of a Redis server.\<close>

theorem sentinel_hung_recovers:
  assumes "hung_reach (sentinel_plugin q ins) prompt s" "hs_phase s = Looping (t # ts)" "map_of (hs_inFlight s) t = None"
    "hung_next (sentinel_plugin q ins) GPass s = Some s'"
  shows "\<not> owed ''redis_sentinel::hung'' t (hs_queue s')"
  using sentinel.pass_settles [OF assms] .

text \<open>With the overview switched off a failed listing still raises its alert, and nothing a run can push clears it.\<close>

theorem overview_never_clears:
  assumes "\<not> severity_on (ss_MastersOverview ins)" "e \<in> set (fst (sentinel_goroutine q dial t target ins))"
    "ev_check e = ''redis_sentinel::masters_overview''"
  shows "EventStatus e = EventStatusCritical"
  using calm_goroutine assms by (auto simp: list_all_iff calm_def)

text \<open>Without configured masters the tilt check never runs, whether it is switched on or not.\<close>

theorem tilt_unwatched:
  assumes "sn_Masters ins = []" "sentinel_gatherTarget q dial t target ins = (es, None)" "e \<in> set es"
  shows "ev_check e \<noteq> ''redis_sentinel::tilt''"
  using gather_checks [OF assms(2,3)] assms(1) by (auto simp: conn_keys_def role_keys_def full_keys_def split: if_splits)

text \<open>A master that disappears from the Sentinel leaves its other alerts as they are: none of the optional checks reports it.\<close>

theorem missing_master_unchecked:
  assumes "e \<in> set (missing_master_events ins target name)"
  shows "ev_check e \<in> {''redis_sentinel::ckquorum'', ''redis_sentinel::master_sdown'', ''redis_sentinel::master_odown'', ''redis_sentinel::master_addr_resolution''}"
  using assms by (auto simp: missing_master_events_def Let_def ev_check_of_key [OF ev_key_events(1)] split: if_splits)

end
