(* ===== verification/Probe.thy ===== *)
theory Probe
  imports Redis_Peer Gather_Hung Cert
begin

text \<open>
  The plugins that probe remote targets: \<^verbatim>\<open>plugins/net\<close>, \<^verbatim>\<open>plugins/http\<close>, \<^verbatim>\<open>plugins/ping\<close> and \<^verbatim>\<open>plugins/dns\<close>. Each starts one goroutine per target
  under a semaphore and waits for all of them; the goroutines share nothing but the queue, so a gather pushes an interleaving of the
  lists of events of its targets. What a probe meets on the network is an argument. The second half of the theory says what a gather does to
  the alert of the main check of a target.
\<close>

section \<open>Common parts\<close>

text \<open>\<^verbatim>\<open>HumanString\<close> of \<^verbatim>\<open>digcore/config/duration.go\<close> computes with \<^verbatim>\<open>float64\<close>; below 48 days (and the whole hours, minutes and seconds
  of a threshold are far below) these separate nanoseconds, and truncation is integer division.\<close>

definition HumanString :: "duration \<Rightarrow> string" where
  "HumanString d =
     (let s = d div Second; m = s div 60; h = m div 60 in
      if s < 60 then show_int s @ '' seconds''
      else if m < 60 then show_int m @ '' minutes '' @ show_int (s mod 60) @ '' seconds''
      else if h < 24 then show_int h @ '' hours '' @ show_int (m mod 60) @ '' minutes '' @ show_int (s mod 60) @ '' seconds''
      else show_int (h div 24) @ '' days '' @ show_int (h mod 24) @ '' hours '' @ show_int (m mod 60) @ '' minutes '' @ show_int (s mod 60) @ '' seconds'')"

record probe_ResponseTime =
  rc_WarnGe :: duration
  rc_CriticalGe :: duration

definition rt_parts :: "(duration \<Rightarrow> string) \<Rightarrow> probe_ResponseTime \<Rightarrow> string list" where
  "rt_parts text c =
     (if rc_WarnGe c > 0 then [''Warning '' @ ge_sign @ '' '' @ text (rc_WarnGe c)] else []) @
     (if rc_CriticalGe c > 0 then [''Critical '' @ ge_sign @ '' '' @ text (rc_CriticalGe c)] else [])"

text \<open>The event of a duration against its limits; the plugins differ in the name of the value and in the text of a limit.\<close>

definition rt_graded :: "(duration \<Rightarrow> string) \<Rightarrow> string \<Rightarrow> probe_ResponseTime \<Rightarrow> duration \<Rightarrow> Event \<Rightarrow> Event" where
  "rt_graded text what c t e =
     (if rc_CriticalGe c > 0 \<and> t \<ge> rc_CriticalGe c
      then alert_with EventStatusCritical (what @ '' '' @ dur_string t @ '' >= critical threshold '' @ text (rc_CriticalGe c)) e
      else if rc_WarnGe c > 0 \<and> t \<ge> rc_WarnGe c
      then alert_with EventStatusWarning (what @ '' '' @ dur_string t @ '' >= warning threshold '' @ text (rc_WarnGe c)) e
      else SetDescription (what @ '' '' @ dur_string t @ '', everything is ok'') e)"

definition validate_rt :: "string \<Rightarrow> probe_ResponseTime \<Rightarrow> string + unit" where
  "validate_rt name c =
     refuse (rc_WarnGe c > 0 \<and> rc_CriticalGe c > 0 \<and> rc_WarnGe c \<ge> rc_CriticalGe c)
       (name @ ''.warn_ge('' @ dur_string (rc_WarnGe c) @ '') must be less than '' @ name @ ''.critical_ge('' @ dur_string (rc_CriticalGe c) @ '')'')"

text \<open>The partial with the id of an instance, the first if there are several; an id that names none is ignored.\<close>

fun with_partial :: "('p \<Rightarrow> string) \<Rightarrow> ('i \<Rightarrow> 'p \<Rightarrow> 'i) \<Rightarrow> string \<Rightarrow> 'p list \<Rightarrow> 'i \<Rightarrow> 'i" where
  "with_partial pid merge name [] ins = ins"
| "with_partial pid merge name (p # ps) ins = (if pid p = name then merge ins p else with_partial pid merge name ps ins)"

definition first_partials :: "('p \<Rightarrow> string) \<Rightarrow> ('i \<Rightarrow> string) \<Rightarrow> ('i \<Rightarrow> 'p \<Rightarrow> 'i) \<Rightarrow> 'p list \<Rightarrow> 'i list \<Rightarrow> 'i list" where
  "first_partials pid ref merge ps = map (\<lambda>ins. if ref ins \<noteq> [] then with_partial pid merge (ref ins) ps ins else ins)"

text \<open>\<^verbatim>\<open>BuildEvent\<close> on the check and the labels of a probe.\<close>

definition probe_event :: "string \<Rightarrow> labels \<Rightarrow> Event" where
  "probe_event check labels = BuildEvent [[(''check'', check)], labels]"

section \<open>net\<close>

record net_settings =
  ns_Concurrency :: int
  ns_Timeout :: duration
  ns_ReadTimeout :: duration
  ns_Protocol :: string
  ns_Send :: string
  ns_Expect :: string
  ns_Severity :: string
  ns_ResponseTime :: probe_ResponseTime

record net_Partial = net_settings +
  np_ID :: string

record net_Instance = net_settings +
  ni_Partial :: string
  ni_Targets :: "string list"

definition merge_rt :: "probe_ResponseTime \<Rightarrow> probe_ResponseTime \<Rightarrow> probe_ResponseTime" where
  "merge_rt c d = \<lparr>rc_WarnGe = or_int (rc_WarnGe c) (rc_WarnGe d), rc_CriticalGe = or_int (rc_CriticalGe c) (rc_CriticalGe d)\<rparr>"

definition net_merge :: "net_Instance \<Rightarrow> net_Partial \<Rightarrow> net_Instance" where
  "net_merge ins p =
     ins\<lparr>ns_Concurrency := or_int (ns_Concurrency ins) (ns_Concurrency p), ns_Timeout := or_int (ns_Timeout ins) (ns_Timeout p),
         ns_ReadTimeout := or_int (ns_ReadTimeout ins) (ns_ReadTimeout p), ns_Protocol := or_str (ns_Protocol ins) (ns_Protocol p),
         ns_Send := or_str (ns_Send ins) (ns_Send p), ns_Expect := or_str (ns_Expect ins) (ns_Expect p),
         ns_Severity := or_str (ns_Severity ins) (ns_Severity p), ns_ResponseTime := merge_rt (ns_ResponseTime ins) (ns_ResponseTime p)\<rparr>"

definition net_ApplyPartials :: "net_Partial list \<Rightarrow> net_Instance list \<Rightarrow> net_Instance list" where
  "net_ApplyPartials = first_partials np_ID ni_Partial net_merge"

definition net_target :: "string \<Rightarrow> string + string" where
  "net_target target =
     (case SplitHostPort target of
        Inl e \<Rightarrow> Inl (''failed to split host port, target: '' @ target @ '', error: '' @ addr_error_text target e)
      | Inr (host, port) \<Rightarrow>
          if port = [] then Inl (''bad port, target: '' @ target)
          else Inr (if host = [] then ''localhost:'' @ port else target))"

fun map_until :: "('a \<Rightarrow> 'e + 'b) \<Rightarrow> 'a list \<Rightarrow> 'e + 'b list" where
  "map_until f [] = Inr []"
| "map_until f (x # xs) = sbind (f x) (\<lambda>y. map_sum id (Cons y) (map_until f xs))"

definition net_Init :: "net_Instance \<Rightarrow> string + net_Instance" where
  "net_Init ins =
     (let ins = ins\<lparr>ns_Concurrency := or_int (ns_Concurrency ins) 10, ns_Timeout := or_int (ns_Timeout ins) Second,
            ns_ReadTimeout := or_int (ns_ReadTimeout ins) Second, ns_Protocol := or_str (ns_Protocol ins) ''tcp''\<rparr>
      in if ns_Protocol ins \<notin> {''tcp'', ''udp''} then Inl ''bad protocol, only tcp and udp are supported''
         else if ns_Protocol ins = ''udp'' \<and> ns_Send ins = [] then Inl ''send string cannot be empty when protocol is udp''
         else if ns_Protocol ins = ''udp'' \<and> ns_Expect ins = [] then Inl ''expected string cannot be empty when protocol is udp''
         else
           let ins = ins\<lparr>ns_Severity := or_str (ns_Severity ins) EventStatusCritical\<rparr> in
           sbind (validate_rt ''response_time'' (ns_ResponseTime ins)) (\<lambda>_.
           sbind (map_until net_target (ni_Targets ins)) (\<lambda>ts. Inr (ins\<lparr>ni_Targets := ts\<rparr>))))"

definition maxResponseDisplaySize :: nat where "maxResponseDisplaySize = 512"
definition maxResponseSize :: nat where "maxResponseSize = 65536"

definition truncateStr :: "string \<Rightarrow> nat \<Rightarrow> string" where
  "truncateStr s n = (if length s \<le> n then s else take n s @ ''... (truncated)'')"

text \<open>The reads of a TCP connection until the expected text arrived, a read failed or enough was read. A read gives some bytes and may
  report an error along with them; a list that ends stands for reads that fail.\<close>

fun read_until :: "string \<Rightarrow> string \<Rightarrow> (string \<times> bool) list \<Rightarrow> string" where
  "read_until expect buf [] = buf"
| "read_until expect buf ((bytes, failed') # reads) =
     (if length buf \<ge> maxResponseSize then buf
      else
        let buf' = buf @ bytes in
        if bytes \<noteq> [] \<and> contains_text buf' expect then buf'
        else if failed' then buf'
        else read_until expect buf' reads)"

text \<open>What a TCP probe meets: the errors of its operations, the reads, and the time that passed when it reports.\<close>

record tcp_world =
  tw_dial :: "string option"
  tw_send :: "string option"
  tw_deadline :: "string option"
  tw_reads :: "(string \<times> bool) list"
  tw_time :: duration

definition net_labels :: "net_Instance \<Rightarrow> string \<Rightarrow> labels" where
  "net_labels ins target = [(''target'', target), (''protocol'', ns_Protocol ins)]"

definition net_failed :: "net_Instance \<Rightarrow> string \<Rightarrow> duration \<Rightarrow> string \<Rightarrow> Event list" where
  "net_failed ins target t desc =
     [alert_with (ns_Severity ins) desc
        (SetAttrs [(''threshold_desc'', ns_Severity ins @ '': unreachable'')]
          (SetAttrs [(''response_time'', dur_string t)] (probe_event ''net::connectivity'' (net_labels ins target))))]"

definition net_checkResponseTime :: "net_Instance \<Rightarrow> string \<Rightarrow> duration \<Rightarrow> Event list" where
  "net_checkResponseTime ins target t =
     (let c = ns_ResponseTime ins; parts = rt_parts HumanString c in
      if rc_WarnGe c = 0 \<and> rc_CriticalGe c = 0 then []
      else
        let e = SetCurrentValue (dur_string t) (SetAttrs [(''response_time'', dur_string t)] (probe_event ''net::response_time'' (net_labels ins target)));
            e = (if parts \<noteq> [] then SetAttrs [(''threshold_desc'', join '', '' parts)] e else e)
        in [rt_graded HumanString ''response time'' c t e])"

definition TCPGather :: "net_Instance \<Rightarrow> string \<Rightarrow> tcp_world \<Rightarrow> Event list" where
  "TCPGather ins target w =
     (let t = tw_time w; data = read_until (ns_Expect ins) [] (tw_reads w) in
      case tw_dial w of
        Some e \<Rightarrow> net_failed ins target t (''connection error: '' @ e)
      | None \<Rightarrow>
          (case (if ns_Send ins \<noteq> [] then tw_send w else None) of
             Some e \<Rightarrow> net_failed ins target t (''failed to send message: '' @ ns_Send ins @ '', error: '' @ e)
           | None \<Rightarrow>
               (case (if ns_Expect ins \<noteq> [] then tw_deadline w else None) of
                  Some e \<Rightarrow> net_failed ins target t (''failed to set read deadline, error: '' @ e)
                | None \<Rightarrow>
                    if ns_Expect ins \<noteq> [] \<and> \<not> contains_text data (ns_Expect ins)
                    then net_failed ins target t (''response mismatch. expected: '' @ ns_Expect ins @ '', real response: '' @ truncateStr data maxResponseDisplaySize)
                    else SetDescription ''everything is ok''
                           (SetCurrentValue (dur_string t) (SetAttrs [(''response_time'', dur_string t)] (probe_event ''net::connectivity'' (net_labels ins target)))) #
                         net_checkResponseTime ins target t)))"

text \<open>A UDP probe reads one datagram, cut at the size of its buffer by the system.\<close>

record udp_world =
  uw_resolve :: "string option"
  uw_dial :: "string option"
  uw_send :: "string option"
  uw_deadline :: "string option"
  uw_read :: "string + string"
  uw_time :: duration

fun first_error :: "(string \<times> string option) list \<Rightarrow> string option" where
  "first_error [] = None"
| "first_error ((what, None) # es) = first_error es"
| "first_error ((what, Some e) # es) = Some (what @ '' error: '' @ e)"

definition UDPGather :: "net_Instance \<Rightarrow> string \<Rightarrow> udp_world \<Rightarrow> Event list" where
  "UDPGather ins target w =
     (let t = uw_time w; at' = ''address('' @ target @ '')'' in
      case first_error [(''resolve udp '' @ at', uw_resolve w), (''dial udp '' @ at', uw_dial w),
          (''write string('' @ ns_Send ins @ '') to udp '' @ at', uw_send w), (''set connection deadline to udp '' @ at', uw_deadline w)] of
        Some e \<Rightarrow> net_failed ins target t e
      | None \<Rightarrow>
          (case uw_read w of
             Inl e \<Rightarrow> net_failed ins target t (''read from udp '' @ at' @ '' error: '' @ e)
           | Inr data \<Rightarrow>
               if \<not> contains_text data (ns_Expect ins)
               then net_failed ins target t (''response mismatch. expect: '' @ ns_Expect ins @ '', real: '' @ truncateStr data maxResponseDisplaySize)
               else SetDescription ''everything is ok''
                      (SetAttrs [(''response_time'', dur_string t)] (probe_event ''net::connectivity'' (net_labels ins target))) #
                    net_checkResponseTime ins target t))"

type_synonym net_world = "tcp_world \<times> udp_world"

definition net_gather :: "net_Instance \<Rightarrow> net_world \<Rightarrow> string \<Rightarrow> Event list" where
  "net_gather ins w target =
     (if ns_Protocol ins = ''tcp'' then TCPGather ins target (fst w)
      else if ns_Protocol ins = ''udp'' then UDPGather ins target (snd w)
      else [])"

text \<open>What the recovery from a panic pushes.\<close>

definition net_panic :: "net_Instance \<Rightarrow> string \<Rightarrow> string \<Rightarrow> Event" where
  "net_panic ins target p =
     SetAttrs [(''threshold_desc'', ns_Severity ins @ '': unreachable'')]
       (alert_with EventStatusCritical (''panic during check: '' @ p) (check_event ''net::connectivity'' target))"

section \<open>Network interfaces\<close>

text \<open>An address of an interface: a network with its IP, or something else.\<close>

datatype net_addr = IPNet bool string | OtherAddr

fun ipnet_text :: "net_addr \<Rightarrow> string option" where
  "ipnet_text (IPNet v6 ip) = Some ip"
| "ipnet_text OtherAddr = None"

text \<open>\<^verbatim>\<open>net.InterfaceByName\<close> and \<^verbatim>\<open>Addrs\<close>: either may fail.\<close>

type_synonym interfaces = "string \<Rightarrow> string + (string + net_addr list)"

definition LocalAddressByInterfaceName :: "(string \<Rightarrow> string) \<Rightarrow> interfaces \<Rightarrow> string \<Rightarrow> string + string" where
  "LocalAddressByInterfaceName quote ifs name =
     sbind (ifs name) (\<lambda>r. sbind r (\<lambda>addrs.
       case List.map_filter ipnet_text addrs of
         [] \<Rightarrow> Inl (''cannot create local address for interface '' @ quote name)
       | ip # _ \<Rightarrow> Inr ip))"

section \<open>http\<close>

record HTTPConfig =
  hc_Interface :: string
  hc_Method :: string
  hc_Timeout :: duration
  hc_FollowRedirects :: "bool option"
  hc_BasicAuthUser :: string
  hc_BasicAuthPass :: string
  hc_Headers :: "string list"
  hc_Payload :: string
  hc_HTTPProxy :: string
  hc_ClientConfig :: ClientConfig

definition GetTimeout :: "'a HTTPConfig_scheme \<Rightarrow> duration" where
  "GetTimeout hc = (if hc_Timeout hc = 0 then 5 * Second else hc_Timeout hc)"

definition GetMethod :: "'a HTTPConfig_scheme \<Rightarrow> string" where
  "GetMethod hc = (if hc_Method hc = [] then ''GET'' else hc_Method hc)"

text \<open>The proxy of the environment, or the one configured. Parsing a URL gives an error or its scheme.\<close>

type_synonym url_parse = "string \<Rightarrow> string + string"

definition GetProxy :: "(string \<Rightarrow> string) \<Rightarrow> url_parse \<Rightarrow> 'a HTTPConfig_scheme \<Rightarrow> string + string option" where
  "GetProxy quote url hc =
     (if hc_HTTPProxy hc \<noteq> [] then
        (case url (hc_HTTPProxy hc) of
           Inl e \<Rightarrow> Inl (''error parsing proxy url '' @ quote (hc_HTTPProxy hc) @ '': '' @ e)
         | Inr _ \<Rightarrow> Inr (Some (hc_HTTPProxy hc)))
      else Inr None)"

record http_Partial = HTTPConfig +
  hp_ID :: string
  hp_Concurrency :: int

record ('pool, 'cert) probe_client =
  cl_Proxy :: "string option"
  cl_LocalAddr :: "string option"
  cl_TLS :: "('pool, 'cert) tls_config option"
  cl_Timeout :: duration
  cl_LastResponse :: bool

record http_Instance = HTTPConfig +
  hx_Partial :: string
  hx_Targets :: "string list"
  hx_Concurrency :: int
  hx_Connectivity :: string
  hx_ResponseTime :: probe_ResponseTime
  hx_CertExpiry :: ExpiryCheck
  hx_StatusExpect :: "string list"
  hx_StatusSeverity :: string
  hx_filter :: "Filter option"
  hx_ExpectSubstring :: string
  hx_ExpectRegex :: string
  hx_BodySeverity :: string
  hx_compiledRegex :: "(string \<Rightarrow> bool) option"

definition http_merge :: "http_Instance \<Rightarrow> http_Partial \<Rightarrow> http_Instance" where
  "http_merge ins p =
     ins\<lparr>hx_Concurrency := or_int (hx_Concurrency ins) (hp_Concurrency p), hc_HTTPProxy := or_str (hc_HTTPProxy ins) (hc_HTTPProxy p),
         hc_Interface := or_str (hc_Interface ins) (hc_Interface p), hc_Method := or_str (hc_Method ins) (hc_Method p),
         hc_Timeout := or_int (hc_Timeout ins) (hc_Timeout p), hc_FollowRedirects := or_flag (hc_FollowRedirects ins) (hc_FollowRedirects p),
         hc_BasicAuthUser := or_str (hc_BasicAuthUser ins) (hc_BasicAuthUser p), hc_BasicAuthPass := or_str (hc_BasicAuthPass ins) (hc_BasicAuthPass p),
         hc_Headers := (if hc_Headers ins = [] then hc_Headers p else hc_Headers ins), hc_Payload := or_str (hc_Payload ins) (hc_Payload p)\<rparr>"

definition http_ApplyPartials :: "http_Partial list \<Rightarrow> http_Instance list \<Rightarrow> http_Instance list" where
  "http_ApplyPartials = first_partials hp_ID hx_Partial http_merge"

record ('pool, 'cert) http_env =
  he_files :: "('pool, 'cert) cert_files"
  he_patterns :: compilers
  he_url :: url_parse
  he_interfaces :: interfaces
  he_time :: "int \<Rightarrow> string"

definition createHTTPClient :: "('pool, 'cert) http_env \<Rightarrow> http_Instance \<Rightarrow> string + ('pool, 'cert) probe_client" where
  "createHTTPClient env ins =
     sbind (client_TLSConfig (he_files env) (hc_ClientConfig ins)) (\<lambda>tls.
     sbind (if hc_Interface ins \<noteq> [] then map_sum id Some (LocalAddressByInterfaceName (quote_str (he_patterns env)) (he_interfaces env) (hc_Interface ins)) else Inr None) (\<lambda>local.
     sbind (GetProxy (quote_str (he_patterns env)) (he_url env) ins) (\<lambda>proxy.
       Inr \<lparr>cl_Proxy = proxy, cl_LocalAddr = local, cl_TLS = tls, cl_Timeout = GetTimeout ins, cl_LastResponse = (hc_FollowRedirects ins = Some False)\<rparr>)))"

text \<open>The targets are checked in order; the first https target switches TLS on unless it is configured.\<close>

fun http_targets :: "url_parse \<Rightarrow> string list \<Rightarrow> http_Instance \<Rightarrow> string + http_Instance" where
  "http_targets url [] ins = Inr ins"
| "http_targets url (target # ts) ins =
     (case url target of
        Inl e \<Rightarrow> Inl (''failed to parse http url: '' @ target @ '', error: '' @ e)
      | Inr scheme \<Rightarrow>
          if scheme \<notin> {''http'', ''https''} then Inl (''only http and https are supported, target: '' @ target)
          else http_targets url ts
            (if scheme = ''https'' \<and> tc_UseTLS (hc_ClientConfig ins) = None
             then ins\<lparr>hc_ClientConfig := (hc_ClientConfig ins)\<lparr>tc_UseTLS := Some True\<rparr>\<rparr> else ins))"

definition http_status_init :: "compilers \<Rightarrow> http_Instance \<Rightarrow> string + http_Instance" where
  "http_status_init cc ins =
     (if hx_StatusExpect ins = [] then Inr ins
      else case Compile cc (hx_StatusExpect ins) of
             Inl e \<Rightarrow> Inl (''failed to compile status_code.expect: '' @ e)
           | Inr f \<Rightarrow> Inr (ins\<lparr>hx_StatusSeverity := or_str (hx_StatusSeverity ins) EventStatusWarning, hx_filter := f\<rparr>))"

definition http_body_init :: "compilers \<Rightarrow> http_Instance \<Rightarrow> string + http_Instance" where
  "http_body_init cc ins =
     (let severity = or_str (hx_BodySeverity ins) EventStatusWarning in
      if hx_ExpectSubstring ins \<noteq> [] \<and> hx_ExpectRegex ins \<noteq> [] then Inl ''response_body: expect_substring and expect_regex are mutually exclusive''
      else if hx_ExpectRegex ins = [] then Inr (if hx_ExpectSubstring ins \<noteq> [] then ins\<lparr>hx_BodySeverity := severity\<rparr> else ins)
      else case regexp_Compile cc (hx_ExpectRegex ins) of
             Inl e \<Rightarrow> Inl (''failed to compile response_body.expect_regex: '' @ e)
           | Inr re \<Rightarrow> Inr (ins\<lparr>hx_compiledRegex := Some re, hx_BodySeverity := severity\<rparr>))"

definition http_Init :: "('pool, 'cert) http_env \<Rightarrow> http_Instance \<Rightarrow> string + http_Instance \<times> ('pool, 'cert) probe_client" where
  "http_Init env ins =
     (let ins = ins\<lparr>hx_Concurrency := or_int (hx_Concurrency ins) 10, hx_Connectivity := or_str (hx_Connectivity ins) EventStatusCritical\<rparr>;
          ce = hx_CertExpiry ins
      in sbind (validate_rt ''response_time'' (hx_ResponseTime ins)) (\<lambda>_.
         sbind (refuse (ex_WarnWithin ce > 0 \<and> ex_CriticalWithin ce > 0 \<and> ex_CriticalWithin ce \<ge> ex_WarnWithin ce)
           (''cert_expiry.critical_within('' @ dur_string (ex_CriticalWithin ce) @ '') must be less than cert_expiry.warn_within('' @ dur_string (ex_WarnWithin ce) @ '')'')) (\<lambda>_.
         sbind (http_status_init (he_patterns env) ins) (\<lambda>ins.
         sbind (http_body_init (he_patterns env) ins) (\<lambda>ins.
         sbind (refuse (hc_Headers ins \<noteq> [] \<and> length (hc_Headers ins) mod 2 \<noteq> 0)
           (''headers must be key-value pairs (even number of elements), got '' @ show_nat (length (hc_Headers ins)))) (\<lambda>_.
         sbind (http_targets (he_url env) (hx_Targets ins) ins) (\<lambda>ins.
         case createHTTPClient env ins of
           Inl e \<Rightarrow> Inl (''failed to create http client: '' @ e)
         | Inr c \<Rightarrow> Inr (ins, c))))))))"

text \<open>The request of a probe: the headers as added, and the host header if one of them is \<^verbatim>\<open>Host\<close>.\<close>

record probe_request =
  rq_Method :: string
  rq_URL :: string
  rq_Payload :: "string option"
  rq_Header :: "(string \<times> string) list"
  rq_Host :: "string option"
  rq_Auth :: "(string \<times> string) option"

fun header_pairs :: "string list \<Rightarrow> (string \<times> string) list" where
  "header_pairs (k # v # hs) = (k, v) # header_pairs hs"
| "header_pairs hs = []"

definition http_request_of :: "http_Instance \<Rightarrow> string \<Rightarrow> probe_request" where
  "http_request_of ins target =
     (let hs = header_pairs (hc_Headers ins) in
      \<lparr>rq_Method = GetMethod ins, rq_URL = target, rq_Payload = (if hc_Payload ins \<noteq> [] then Some (hc_Payload ins) else None), rq_Header = hs,
       rq_Host = map_of (rev hs) ''Host'',
       rq_Auth = (if hc_BasicAuthUser ins \<noteq> [] \<or> hc_BasicAuthPass ins \<noteq> [] then Some (hc_BasicAuthUser ins, hc_BasicAuthPass ins) else None)\<rparr>)"

record http_response =
  hr_StatusCode :: int
  hr_NotAfter :: "int list option"
  hr_Body :: string

record http_world =
  hw_request :: "string option"
  hw_do :: "probe_request \<Rightarrow> string + http_response"
  hw_time :: duration
  hw_now :: int

text \<open>Times are nanoseconds since 1970; the zero time is the first of January of the year 1.\<close>

definition zero_time :: int where "zero_time = - (62135596800 * Second)"

fun earliest_not_after :: "int \<Rightarrow> int list \<Rightarrow> int" where
  "earliest_not_after earliest [] = earliest"
| "earliest_not_after earliest (t # ts) =
     earliest_not_after (if (earliest = zero_time \<or> t < earliest) \<and> t \<noteq> zero_time then t else earliest) ts"

definition getEarliestCertExpiry :: "int list \<Rightarrow> int" where
  "getEarliestCertExpiry = earliest_not_after zero_time"

definition truncate_to :: "duration \<Rightarrow> duration \<Rightarrow> duration" where
  "truncate_to m d = (if d \<ge> 0 then d - d mod m else - ((- d) - (- d) mod m))"

definition http_labels :: "http_Instance \<Rightarrow> string \<Rightarrow> labels" where
  "http_labels ins target = [(''target'', target), (''method'', GetMethod ins)]"

definition http_cert_event :: "(int \<Rightarrow> string) \<Rightarrow> int \<Rightarrow> ExpiryCheck \<Rightarrow> int \<Rightarrow> Event \<Rightarrow> Event" where
  "http_cert_event fmt now check expiry e =
     (if expiry = zero_time then alert_with EventStatusCritical ''no peer certificates found in TLS connection'' e
      else
        let left = time_sub expiry now; short = dur_string (truncate_to (60 * Second) left);
            parts = (if ex_WarnWithin check > 0 then [''Warning: expires within '' @ HumanString (ex_WarnWithin check)] else []) @
                    (if ex_CriticalWithin check > 0 then [''Critical: within '' @ HumanString (ex_CriticalWithin check)] else []);
            e = SetAttrs [(''cert_expires_at'', fmt expiry), (''time_until_expiry'', short), (''threshold_desc'', join '', '' parts)] e
        in if ex_CriticalWithin check > 0 \<and> left \<le> ex_CriticalWithin check
           then alert_with EventStatusCritical (''cert expires in '' @ short @ '', within critical threshold '' @ HumanString (ex_CriticalWithin check)) e
           else if ex_WarnWithin check > 0 \<and> left \<le> ex_WarnWithin check
           then alert_with EventStatusWarning (''cert expires in '' @ short @ '', within warning threshold '' @ HumanString (ex_WarnWithin check)) e
           else SetDescription (''cert expires at '' @ fmt expiry @ '', everything is ok'') e)"

definition maxBodyReadSize :: nat where "maxBodyReadSize = 2 ^ 20"
definition maxBodyDisplaySize :: nat where "maxBodyDisplaySize = 1024"

text \<open>\<^verbatim>\<open>strings.ToValidUTF8\<close> with an empty replacement.\<close>

function drop_invalid :: "string \<Rightarrow> string" where
  "drop_invalid s =
     (if s = [] then []
      else if decode_rune s = (RuneError, 1) then drop_invalid (drop 1 s)
      else take (snd (decode_rune s)) s @ drop_invalid (drop (snd (decode_rune s)) s))"
  by pat_completeness auto

termination
  by (relation "measure length") (use decode_rune_width in \<open>force+\<close>)

declare drop_invalid.simps [simp del]

definition truncateBody :: "string \<Rightarrow> nat \<Rightarrow> string" where
  "truncateBody body n = (if length body \<le> n then body else drop_invalid (take n body) @ [nl] @ ''... (truncated)'')"

text \<open>\<^verbatim>\<open>fmt.Sprintf("%v", xs)\<close> of a list of strings.\<close>

definition show_strings :: "string list \<Rightarrow> string" where
  "show_strings xs = ''['' @ join '' '' xs @ '']''"

text \<open>A match with a filter that was never compiled is a nil dereference; \<open>http_Init\<close> compiles it whenever codes are expected.\<close>

definition status_event :: "http_Instance \<Rightarrow> string \<Rightarrow> string \<Rightarrow> Event \<Rightarrow> Event" where
  "status_event ins code body e =
     (let expected = show_strings (hx_StatusExpect ins);
          e = SetAttrs [(''status_code'', code), (''expect_code'', expected), (''response_body'', truncateBody body maxBodyDisplaySize),
                (''threshold_desc'', hx_StatusSeverity ins @ '': status code does not match expected'')] e
      in if (case hx_filter ins of Some f \<Rightarrow> Match f code | None \<Rightarrow> False)
         then SetDescription (''status code '' @ code @ '' matches expected '' @ expected) e
         else alert_with (hx_StatusSeverity ins) (''status code '' @ code @ '' does not match expected '' @ expected) e)"

definition body_event :: "http_Instance \<Rightarrow> string \<Rightarrow> string \<Rightarrow> Event \<Rightarrow> Event" where
  "body_event ins code body e =
     (let (key, want, matched) = (case hx_compiledRegex ins of
            Some re \<Rightarrow> (''expect_regex'', hx_ExpectRegex ins, re body)
          | None \<Rightarrow> (''expect_substring'', hx_ExpectSubstring ins, contains_text body (hx_ExpectSubstring ins)));
          e = SetAttrs [(''status_code'', code), (''response_body'', truncateBody body maxBodyDisplaySize),
                (''threshold_desc'', hx_BodySeverity ins @ '': response body does not match''), (key, want)] e
      in if matched then SetDescription (''response body matches '' @ key @ '': '' @ want) e
         else alert_with (hx_BodySeverity ins) (''response body does not match '' @ key @ '': '' @ want) e)"

definition http_checks :: "(int \<Rightarrow> string) \<Rightarrow> http_Instance \<Rightarrow> http_world \<Rightarrow> string \<Rightarrow> http_response \<Rightarrow> Event list" where
  "http_checks fmt ins w target resp =
     (let ev = (\<lambda>check. probe_event check (http_labels ins target)); t = hw_time w; rt = hx_ResponseTime ins; ce = hx_CertExpiry ins;
          code = show_int (hr_StatusCode resp); wantBody = (hx_ExpectSubstring ins \<noteq> [] \<or> hx_compiledRegex ins \<noteq> None);
          body = (if hx_StatusExpect ins \<noteq> [] \<or> wantBody then take maxBodyReadSize (hr_Body resp) else [])
      in (if rc_WarnGe rt > 0 \<or> rc_CriticalGe rt > 0
          then [rt_graded HumanString ''response time'' rt t (SetCurrentValue (dur_string t)
             (SetAttrs [(''response_time'', dur_string t), (''threshold_desc'', join '', '' (rt_parts HumanString rt))] (ev ''http::response_time'')))] else []) @
         (if (ex_WarnWithin ce > 0 \<or> ex_CriticalWithin ce > 0) \<and> prefix ''https://'' target
          then (case hr_NotAfter resp of
             None \<Rightarrow> []
           | Some ts \<Rightarrow> [http_cert_event fmt (hw_now w) ce (getEarliestCertExpiry ts) (ev ''http::cert_expiry'')]) else []) @
         (if hx_StatusExpect ins \<noteq> [] then [status_event ins code body (ev ''http::status_code'')] else []) @
         (if wantBody then [body_event ins code body (ev ''http::response_body'')] else []))"

definition http_gather :: "(int \<Rightarrow> string) \<Rightarrow> http_Instance \<Rightarrow> http_world \<Rightarrow> string \<Rightarrow> Event list" where
  "http_gather fmt ins w target =
     (case hw_request w of
        Some e \<Rightarrow> [alert_with (hx_Connectivity ins) (''failed to create request: '' @ e) (probe_event ''http::connectivity'' (http_labels ins target))]
      | None \<Rightarrow>
          let conn = SetAttrs [(''response_time'', dur_string (hw_time w)), (''threshold_desc'', hx_Connectivity ins @ '': connection failed'')]
                (probe_event ''http::connectivity'' (http_labels ins target))
          in case hw_do w (http_request_of ins target) of
               Inl e \<Rightarrow> [alert_with (hx_Connectivity ins) e conn]
             | Inr resp \<Rightarrow> SetDescription ''everything is ok'' conn # http_checks fmt ins w target resp)"

definition http_panic :: "string \<Rightarrow> string \<Rightarrow> Event" where
  "http_panic target p = alert_with EventStatusCritical (''panic during check: '' @ p) (check_event ''http::connectivity'' target)"

section \<open>ping\<close>

record PacketLossCheck =
  pl_WarnGe :: real
  pl_CriticalGe :: real

record ping_settings =
  pg_Concurrency :: int
  pg_Count :: int
  pg_PingInterval :: duration
  pg_Timeout :: duration
  pg_Interface :: string
  pg_IPv6 :: "bool option"
  pg_Size :: "int option"
  pg_Connectivity :: string
  pg_PacketLoss :: PacketLossCheck
  pg_Rtt :: probe_ResponseTime

record ping_Partial = ping_settings +
  pp_ID :: string

record ping_Instance = ping_settings +
  pn_Partial :: string
  pn_Targets :: "string list"
  pn_calcInterval :: duration
  pn_calcTimeout :: duration
  pn_sourceAddress :: string

definition or_real :: "real \<Rightarrow> real \<Rightarrow> real" where "or_real dst src = (if dst = 0 then src else dst)"
definition or_some :: "'a option \<Rightarrow> 'a option \<Rightarrow> 'a option" where "or_some dst src = (case dst of None \<Rightarrow> src | Some v \<Rightarrow> Some v)"

definition ping_merge :: "ping_Instance \<Rightarrow> ping_Partial \<Rightarrow> ping_Instance" where
  "ping_merge ins p =
     ins\<lparr>pg_Concurrency := or_int (pg_Concurrency ins) (pg_Concurrency p), pg_Count := or_int (pg_Count ins) (pg_Count p),
         pg_PingInterval := or_int (pg_PingInterval ins) (pg_PingInterval p), pg_Timeout := or_int (pg_Timeout ins) (pg_Timeout p),
         pg_Interface := or_str (pg_Interface ins) (pg_Interface p), pg_IPv6 := or_some (pg_IPv6 ins) (pg_IPv6 p), pg_Size := or_some (pg_Size ins) (pg_Size p),
         pg_Connectivity := or_str (pg_Connectivity ins) (pg_Connectivity p),
         pg_PacketLoss := \<lparr>pl_WarnGe = or_real (pl_WarnGe (pg_PacketLoss ins)) (pl_WarnGe (pg_PacketLoss p)),
           pl_CriticalGe = or_real (pl_CriticalGe (pg_PacketLoss ins)) (pl_CriticalGe (pg_PacketLoss p))\<rparr>,
         pg_Rtt := merge_rt (pg_Rtt ins) (pg_Rtt p)\<rparr>"

definition ping_ApplyPartials :: "ping_Partial list \<Rightarrow> ping_Instance list \<Rightarrow> ping_Instance list" where
  "ping_ApplyPartials = first_partials pp_ID pn_Partial ping_merge"

text \<open>The source address on an interface: one of the wanted family if there is one, else the first.\<close>

definition source_address :: "(string \<Rightarrow> string) \<Rightarrow> bool \<Rightarrow> string \<Rightarrow> net_addr list \<Rightarrow> string + string" where
  "source_address quote wantV6 name addrs =
     (if addrs = [] then Inl (''interface '' @ quote name @ '' has no addresses'')
      else
        let family = List.map_filter (\<lambda>a. case a of IPNet v6 ip \<Rightarrow> if v6 = wantV6 then Some ip else None | OtherAddr \<Rightarrow> None) addrs;
            found = (case family of ip # _ \<Rightarrow> ip | [] \<Rightarrow> []);
            found = (if found = [] then (case List.map_filter ipnet_text addrs of ip # _ \<Rightarrow> ip | [] \<Rightarrow> []) else found)
        in if found = [] then Inl (''interface '' @ quote name @ '' has no usable IP address'') else Inr found)"

definition ping_source :: "(string \<Rightarrow> string) \<Rightarrow> (string \<Rightarrow> bool) \<Rightarrow> interfaces \<Rightarrow> ping_Instance \<Rightarrow> string + string" where
  "ping_source quote isIP ifs ins =
     (let name = pg_Interface ins in
      if name = [] then Inr (pn_sourceAddress ins)
      else if isIP name then Inr name
      else case ifs name of
             Inl e \<Rightarrow> Inl (''failed to get interface '' @ quote name @ '': '' @ e)
           | Inr (Inl e) \<Rightarrow> Inl (''failed to get addresses of interface '' @ quote name @ '': '' @ e)
           | Inr (Inr addrs) \<Rightarrow> source_address quote (pg_IPv6 ins = Some True) name addrs)"

definition ping_times :: "ping_Instance \<Rightarrow> ping_Instance" where
  "ping_times ins =
     (let count = (if pg_Count ins < 1 then 5 else pg_Count ins); least = 200 * (Second div 1000);
          interval = (if pg_PingInterval ins < least then least else pg_PingInterval ins);
          timeout = (if pg_Timeout ins = 0 then 3 * Second else pg_Timeout ins); minTimeout = i64 (count * interval)
      in ins\<lparr>pg_Count := count, pn_calcInterval := interval, pn_calcTimeout := (if timeout < minTimeout then minTimeout else timeout)\<rparr>)"

definition ping_Init :: "(string \<Rightarrow> string) \<Rightarrow> (string \<Rightarrow> bool) \<Rightarrow> interfaces \<Rightarrow> ping_Instance \<Rightarrow> string + ping_Instance" where
  "ping_Init quote isIP ifs ins =
     (let ins = ping_times (ins\<lparr>pg_Concurrency := or_int (pg_Concurrency ins) 10\<rparr>);
          ins = ins\<lparr>pg_Connectivity := or_str (pg_Connectivity ins) EventStatusCritical\<rparr>; pl = pg_PacketLoss ins
      in sbind (refuse (pl_WarnGe pl > 0 \<and> pl_CriticalGe pl > 0 \<and> pl_WarnGe pl \<ge> pl_CriticalGe pl)
           (''packet_loss.warn_ge('' @ fmt_fixed 1 (pl_WarnGe pl) @ '') must be less than packet_loss.critical_ge('' @ fmt_fixed 1 (pl_CriticalGe pl) @ '')'')) (\<lambda>_.
         sbind (validate_rt ''rtt'' (pg_Rtt ins)) (\<lambda>_.
         sbind (ping_source quote isIP ifs ins) (\<lambda>src. Inr (ins\<lparr>pn_sourceAddress := src\<rparr>)))))"

record ping_stats =
  pt_Sent :: int
  pt_Recv :: int
  pt_Loss :: real
  pt_Min :: duration
  pt_Avg :: duration
  pt_Max :: duration
  pt_StdDev :: duration

text \<open>What the pinger library answers: it cannot be created, its run fails, or it counts.\<close>

datatype pinger = NoPinger string | RunFailed string | Counted ping_stats

definition ping_target :: "bool \<Rightarrow> pinger \<Rightarrow> string + ping_stats" where
  "ping_target linux r =
     (case r of
        NoPinger e \<Rightarrow> Inl (''failed to create new pinger: '' @ e)
      | RunFailed e \<Rightarrow>
          Inl (if contains_text e ''operation not permitted''
               then (if linux then ''permission changes required, enable CAP_NET_RAW capabilities (refer to the ping plugin'' @ [CHR 0x27] @ ''s README.md for more info)''
                     else ''permission changes required, refer to the ping plugin'' @ [CHR 0x27] @ ''s README.md for more info'')
               else e)
      | Counted s \<Rightarrow> Inr s)"

definition pct2 :: "real \<Rightarrow> string" where "pct2 x = fmt_fixed 2 x @ ''%''"
definition pct1 :: "real \<Rightarrow> string" where "pct1 x = fmt_fixed 1 x @ ''%''"

definition setStatsLabels :: "ping_stats \<Rightarrow> Event \<Rightarrow> Event" where
  "setStatsLabels s e =
     SetAttrs ([(''packets_sent'', show_int (pt_Sent s)), (''packets_recv'', show_int (pt_Recv s)), (''packet_loss'', pct2 (pt_Loss s))] @
       (if pt_Recv s > 0
        then [(''min_rtt'', dur_string (pt_Min s)), (''avg_rtt'', dur_string (pt_Avg s)), (''max_rtt'', dur_string (pt_Max s)), (''std_dev_rtt'', dur_string (pt_StdDev s))]
        else [])) e"

definition loss_event :: "PacketLossCheck \<Rightarrow> real \<Rightarrow> Event \<Rightarrow> Event" where
  "loss_event c v e =
     (let parts = (if pl_WarnGe c > 0 then [''Warning '' @ ge_sign @ '' '' @ pct1 (pl_WarnGe c)] else []) @
                  (if pl_CriticalGe c > 0 then [''Critical '' @ ge_sign @ '' '' @ pct1 (pl_CriticalGe c)] else []);
          e = SetCurrentValue (pct2 v) (SetAttrs [(''packet_loss'', pct2 v), (''threshold_desc'', join '', '' parts)] e)
      in if pl_CriticalGe c > 0 \<and> v \<ge> pl_CriticalGe c
         then alert_with EventStatusCritical (''packet loss '' @ pct2 v @ '' >= critical threshold '' @ pct1 (pl_CriticalGe c)) e
         else if pl_WarnGe c > 0 \<and> v \<ge> pl_WarnGe c
         then alert_with EventStatusWarning (''packet loss '' @ pct2 v @ '' >= warning threshold '' @ pct1 (pl_WarnGe c)) e
         else SetDescription (''packet loss '' @ pct2 v @ '', everything is ok'') e)"

definition ping_checks :: "ping_Instance \<Rightarrow> string \<Rightarrow> ping_stats \<Rightarrow> Event list" where
  "ping_checks ins target s =
     (let ev = (\<lambda>check. probe_event check [(''target'', target)]); pl = pg_PacketLoss ins; rtt = pg_Rtt ins in
      (if pl_WarnGe pl > 0 \<or> pl_CriticalGe pl > 0 then [loss_event pl (pt_Loss s) (ev ''ping::packet_loss'')] else []) @
      (if rc_WarnGe rtt > 0 \<or> rc_CriticalGe rtt > 0
       then [rt_graded HumanString ''avg RTT'' rtt (pt_Avg s) (SetCurrentValue (dur_string (pt_Avg s))
          (SetAttrs [(''avg_rtt'', dur_string (pt_Avg s)), (''min_rtt'', dur_string (pt_Min s)), (''max_rtt'', dur_string (pt_Max s)),
             (''threshold_desc'', join '', '' (rt_parts HumanString rtt))] (ev ''ping::rtt'')))] else []))"

definition ping_gather :: "bool \<Rightarrow> ping_Instance \<Rightarrow> pinger \<Rightarrow> string \<Rightarrow> Event list" where
  "ping_gather linux ins r target =
     (let conn = SetAttrs [(''threshold_desc'', pg_Connectivity ins @ '': ping failed'')] (probe_event ''ping::connectivity'' [(''target'', target)]);
          bad = (\<lambda>d e. [alert_with (pg_Connectivity ins) d e])
      in case ping_target linux r of
           Inl e \<Rightarrow> bad (''ping '' @ target @ '' failed: '' @ e) conn
         | Inr s \<Rightarrow>
             if pt_Sent s = 0 then bad (''no packets sent to '' @ target) conn
             else if pt_Recv s = 0 then bad (''no packets received from '' @ target @ '', 100% packet loss'') (setStatsLabels s conn)
             else SetDescription ''everything is ok'' (setStatsLabels s conn) # ping_checks ins target s)"

section \<open>dns\<close>

record dns_Instance =
  dn_Targets :: "string list"
  dn_Servers :: "string list"
  dn_ExpectedIPs :: "string list"
  dn_Timeout :: duration
  dn_Concurrency :: int
  dn_Severity :: string
  dn_ResponseTime :: probe_ResponseTime
  dn_expectedSet :: "string list"
  dn_serverLabel :: string
  dn_servers :: "string list option"

text \<open>\<^verbatim>\<open>net.ParseIP\<close> followed by \<^verbatim>\<open>String\<close>: the canonical text of an address.\<close>

type_synonym parse_ip = "string \<Rightarrow> string option"

fun expected_set :: "(string \<Rightarrow> string) \<Rightarrow> parse_ip \<Rightarrow> string list \<Rightarrow> string + string list" where
  "expected_set quote ip [] = Inr []"
| "expected_set quote ip (x # xs) =
     (case ip (trim_space x) of
        None \<Rightarrow> Inl (''invalid expected IP: '' @ quote x)
      | Some c \<Rightarrow> map_sum id (\<lambda>s. if c \<in> set s then s else c # s) (expected_set quote ip xs))"

definition server_ok :: "parse_ip \<Rightarrow> string \<Rightarrow> bool" where
  "server_ok ip s \<longleftrightarrow> ip s \<noteq> None \<or> (case SplitHostPort s of Inl _ \<Rightarrow> False | Inr (host, _) \<Rightarrow> ip host \<noteq> None)"

text \<open>The addresses a custom resolver takes in turn, one per connection.\<close>

definition buildCustomResolver :: "parse_ip \<Rightarrow> string list \<Rightarrow> string list" where
  "buildCustomResolver ip = map (\<lambda>s. if ip s \<noteq> None then JoinHostPort s ''53'' else s)"

definition resolver_dial :: "string list \<Rightarrow> nat \<Rightarrow> string \<times> nat" where
  "resolver_dial addrs idx = (addrs ! (idx mod length addrs), idx + 1)"

definition dns_Init :: "(string \<Rightarrow> string) \<Rightarrow> parse_ip \<Rightarrow> dns_Instance \<Rightarrow> string + dns_Instance" where
  "dns_Init quote ip ins =
     (if dn_Targets ins = [] then Inl ''targets must not be empty''
      else if list_ex (\<lambda>t. trim_space t = []) (dn_Targets ins) then Inl ''target must not be empty or blank''
      else if dn_Severity ins \<noteq> [] \<and> \<not> EventStatusValid (dn_Severity ins) then Inl (''invalid resolution.severity '' @ quote (dn_Severity ins))
      else
        let ins = ins\<lparr>dn_Severity := or_str (dn_Severity ins) EventStatusCritical\<rparr> in
        sbind (validate_rt ''response_time'' (dn_ResponseTime ins)) (\<lambda>_.
        let ins = ins\<lparr>dn_Timeout := or_int (dn_Timeout ins) (5 * Second), dn_Concurrency := or_int (dn_Concurrency ins) 10\<rparr> in
        sbind (expected_set quote ip (dn_ExpectedIPs ins)) (\<lambda>set'.
        let ins = ins\<lparr>dn_expectedSet := set'\<rparr> in
        if dn_Servers ins = [] then Inr (ins\<lparr>dn_serverLabel := ''system'', dn_servers := None\<rparr>)
        else case filter (\<lambda>s. \<not> server_ok ip s) (dn_Servers ins) of
               s # _ \<Rightarrow> Inl (''invalid DNS server address '' @ quote s @ '' (expected IP or IP:port)'')
             | [] \<Rightarrow> Inr (ins\<lparr>dn_serverLabel := join '','' (dn_Servers ins), dn_servers := Some (buildCustomResolver ip (dn_Servers ins))\<rparr>))))"

record dns_error =
  de_Name :: string
  de_Server :: string
  de_Err :: string
  de_IsNotFound :: bool
  de_IsTimeout :: bool
  de_IsTemporary :: bool

text \<open>An error of the resolver is a \<^verbatim>\<open>net.DNSError\<close> or has only a text.\<close>

definition classifyDNSError :: "dns_error + string \<Rightarrow> string" where
  "classifyDNSError e =
     (case e of
        Inr text \<Rightarrow> text
      | Inl d \<Rightarrow>
          if de_IsNotFound d then ''NXDOMAIN (domain not found): '' @ de_Name d
          else if de_IsTimeout d then ''timeout resolving '' @ de_Name d @ '' (server: '' @ de_Server d @ '')''
          else if de_IsTemporary d then ''temporary failure resolving '' @ de_Name d @ '': '' @ de_Err d
          else de_Err d @ '' (server: '' @ de_Server d @ '')'')"

type_synonym dns_world = "((dns_error + string) + string list) \<times> duration"

definition dns_attrs :: "dns_Instance \<Rightarrow> duration \<Rightarrow> string list \<Rightarrow> labels" where
  "dns_attrs ins t ips =
     [(''server'', dn_serverLabel ins), (''response_time'', dur_string t)] @ (if join '','' ips \<noteq> [] then [(''resolved_ips'', join '','' ips)] else [])"

definition dns_event :: "dns_Instance \<Rightarrow> string \<Rightarrow> string \<Rightarrow> duration \<Rightarrow> string list \<Rightarrow> labels \<Rightarrow> Event" where
  "dns_event ins check target t ips extra = SetAttrs (dns_attrs ins t ips @ extra) (probe_event check [(''target'', target)])"

definition checkResolution :: "dns_Instance \<Rightarrow> string \<Rightarrow> (dns_error + string) + string list \<Rightarrow> duration \<Rightarrow> Event" where
  "checkResolution ins target r t =
     (let ev = (\<lambda>ips. dns_event ins ''dns::resolution'' target t ips [(''threshold_desc'', dn_Severity ins @ '': resolve failed'')]) in
      case r of
        Inl e \<Rightarrow> alert_with (dn_Severity ins) (''DNS resolution failed: '' @ classifyDNSError e) (ev [])
      | Inr ips \<Rightarrow> SetDescription (''resolved to ['' @ join '', '' ips @ ''] in '' @ dur_string t) (ev ips))"

definition checkExpectedIPs :: "dns_Instance \<Rightarrow> string \<Rightarrow> string list \<Rightarrow> duration \<Rightarrow> Event" where
  "checkExpectedIPs ins target ips t =
     (let ev = dns_event ins ''dns::expected_ips'' target t ips
            [(''expected_ips'', join '','' (dn_ExpectedIPs ins)), (''threshold_desc'', dn_Severity ins @ '': expected IP not found'')]
      in if list_ex (\<lambda>ip. ip \<in> set (dn_expectedSet ins)) ips
         then SetDescription (''resolved to ['' @ join '', '' ips @ ''], matches expected IPs'') ev
         else alert_with (dn_Severity ins) (''resolved to ['' @ join '', '' ips @ ''], none of expected IPs ['' @ join '', '' (dn_ExpectedIPs ins) @ ''] found'') ev)"

definition dns_checkResponseTime :: "dns_Instance \<Rightarrow> string \<Rightarrow> string list \<Rightarrow> duration \<Rightarrow> Event list" where
  "dns_checkResponseTime ins target ips t =
     (let c = dn_ResponseTime ins in
      if rc_WarnGe c = 0 \<and> rc_CriticalGe c = 0 then []
      else [rt_graded dur_string ''DNS response time'' c t (SetCurrentValue (dur_string t)
        (dns_event ins ''dns::response_time'' target t ips [(''threshold_desc'', join '', '' (rt_parts dur_string c))]))])"

text \<open>A failed lookup gives no addresses.\<close>

definition dns_gather :: "dns_Instance \<Rightarrow> dns_world \<Rightarrow> string \<Rightarrow> Event list" where
  "dns_gather ins w target =
     (let (r, t) = w; r = map_sum id (sort_by byte_less) r in
      checkResolution ins target r t #
      (case r of
         Inl _ \<Rightarrow> []
       | Inr ips \<Rightarrow> (if dn_expectedSet ins \<noteq> [] then [checkExpectedIPs ins target ips t] else []) @ dns_checkResponseTime ins target ips t))"

section \<open>A gather over many targets\<close>

text \<open>The queues the goroutines can produce: every interleaving of their lists of events.\<close>

fun merges :: "'a list list \<Rightarrow> 'a list set" where
  "merges [] = {[]}"
| "merges (xs # xss) = (\<Union>ys \<in> merges xss. shuffles xs ys)"

definition gathers :: "('w \<Rightarrow> string \<Rightarrow> Event list) \<Rightarrow> ('w \<times> string) list \<Rightarrow> Event list set" where
  "gathers work wts = merges (map (\<lambda>(w, t). work w t) wts)"

lemma filter_merges: "es \<in> merges xss \<Longrightarrow> filter P es \<in> merges (map (filter P) xss)"
proof (induct xss arbitrary: es)
  case (Cons xs xss)
  then obtain ys where ys: "ys \<in> merges xss" "es \<in> shuffles xs ys" by auto
  have "filter P es \<in> shuffles (filter P xs) (filter P ys)"
    using ys(2) filter_shuffles [of P xs ys] by blast
  then show ?case using Cons(1) [OF ys(1)] by auto
qed simp

lemma merges_empty: "list_all (\<lambda>xs. xs = []) xss \<Longrightarrow> merges xss = {[]}"
  by (induct xss) auto

locale probe =
  fixes work :: "'w \<Rightarrow> string \<Rightarrow> Event list" and main :: string
  assumes first_main: "\<exists>e es. work w t = e # es \<and> ev_check e = main \<and> ev_of e = t \<and> list_all (\<lambda>e. ev_check e \<noteq> main \<and> ev_of e = t) es"
begin

lemma main_events: "filter (\<lambda>e. ev_check e = main \<and> ev_of e = t') (work w t) = (if t = t' then [hd (work w t)] else [])"
proof -
  obtain e es where e: "work w t = e # es" "ev_check e = main" "ev_of e = t" "list_all (\<lambda>e. ev_check e \<noteq> main \<and> ev_of e = t) es"
    using first_main by blast
  then have "filter (\<lambda>e. ev_check e = main \<and> ev_of e = t') es = []"
    by (auto simp: list_all_iff filter_empty_conv)
  then show ?thesis using e by auto
qed

lemma merges_main:
  assumes "distinct (map snd wts)" "(w, t) \<in> set wts"
  shows "merges (map (filter (\<lambda>e. ev_check e = main \<and> ev_of e = t) \<circ> (\<lambda>(w, t). work w t)) wts) = {[hd (work w t)]}"
  using assms
proof (induct wts)
  case (Cons wt wts)
  obtain w' t' where wt: "wt = (w', t')" by fastforce
  show ?case
  proof (cases "t' = t")
    case True
    then have "(w, t) \<notin> set wts" using Cons(2) wt by (metis distinct.simps(2) in_set_zipE list.simps(9) snd_conv zip_map_fst_snd)
    then have w: "w' = w" using Cons(3) wt True by auto
    have "list_all (\<lambda>xs. xs = []) (map (filter (\<lambda>e. ev_check e = main \<and> ev_of e = t) \<circ> (\<lambda>(w, t). work w t)) wts)"
      using Cons(2) wt True by (force simp: list_all_iff main_events image_iff)
    then have "merges (map (filter (\<lambda>e. ev_check e = main \<and> ev_of e = t) \<circ> (\<lambda>(w, t). work w t)) wts) = {[]}" by (rule merges_empty)
    then show ?thesis using wt True w by (simp add: main_events o_def)
  next
    case False
    then show ?thesis using Cons wt by (simp add: main_events)
  qed
qed simp

text \<open>A gather settles the main check of each of its targets, whatever was reported before and however the goroutines interleave.\<close>

lemma alert_exact:
  assumes "distinct (map snd wts)" "(w, t) \<in> set wts" "es \<in> gathers work wts"
  shows "owed main t (q @ es) \<longleftrightarrow> EventStatus (hd (work w t)) \<noteq> EventStatusOk"
proof -
  have "filter (\<lambda>e. ev_check e = main \<and> ev_of e = t) es \<in> merges (map (filter (\<lambda>e. ev_check e = main \<and> ev_of e = t)) (map (\<lambda>(w, t). work w t) wts))"
    using assms(3) unfolding gathers_def by (rule filter_merges)
  then have "filter (\<lambda>e. ev_check e = main \<and> ev_of e = t) es = [hd (work w t)]"
    using merges_main [OF assms(1,2)] by simp
  then show ?thesis by (simp add: owed_def)
qed

end

lemma probe_event_labels [simp]:
  "ev_check (probe_event c (net_labels ins t)) = c" "ev_of (probe_event c (net_labels ins t)) = t"
  "ev_check (probe_event c (http_labels hins t)) = c" "ev_of (probe_event c (http_labels hins t)) = t"
  "ev_check (probe_event c [(''target'', t)]) = c" "ev_of (probe_event c [(''target'', t)]) = t" "EventStatus (probe_event c ls) = EventStatusOk"
  by (simp_all add: ev_check_def ev_of_def probe_event_def net_labels_def http_labels_def BuildEvent_def nil_map_def m_copy_Cons m_str_def)

lemma rt_graded_labels [simp]: "ev_check (rt_graded text what c t e) = ev_check e" "ev_of (rt_graded text what c t e) = ev_of e"
  by (simp_all add: rt_graded_def)

lemma net_parts_labels:
  "list_all (\<lambda>e. ev_check e \<noteq> ''net::connectivity'' \<and> ev_of e = t) (net_checkResponseTime ins t d)"
  "\<exists>e. net_failed ins t d desc = [e] \<and> ev_check e = ''net::connectivity'' \<and> ev_of e = t \<and> EventStatus e = ns_Severity ins"
  by (simp_all add: net_checkResponseTime_def net_failed_def Let_def)

interpretation tcp: probe "\<lambda>w t. TCPGather ins t w" "''net::connectivity''" for ins
  by unfold_locales (auto simp: TCPGather_def Let_def net_parts_labels net_failed_def split: option.splits)

interpretation udp: probe "\<lambda>w t. UDPGather ins t w" "''net::connectivity''" for ins
  by unfold_locales (auto simp: UDPGather_def Let_def net_parts_labels net_failed_def split: option.splits sum.splits)

lemma graded_labels [simp]:
  "ev_check (http_cert_event fmt n ce x e) = ev_check e" "ev_of (http_cert_event fmt n ce x e) = ev_of e"
  "ev_check (status_event i c b e) = ev_check e" "ev_of (status_event i c b e) = ev_of e"
  "ev_check (body_event i c b e) = ev_check e" "ev_of (body_event i c b e) = ev_of e"
  "ev_check (loss_event pl v e) = ev_check e" "ev_of (loss_event pl v e) = ev_of e"
  "ev_check (setStatsLabels s e) = ev_check e" "ev_of (setStatsLabels s e) = ev_of e"
  by (simp_all add: http_cert_event_def status_event_def body_event_def loss_event_def setStatsLabels_def Let_def split: prod.split)

lemma http_checks_labels: "list_all (\<lambda>e. ev_check e \<noteq> ''http::connectivity'' \<and> ev_of e = t) (http_checks fmt ins w t resp)"
  by (simp add: http_checks_def Let_def split: option.split)

interpretation http: probe "http_gather fmt ins" "''http::connectivity''" for fmt ins
  by unfold_locales (auto simp: http_gather_def Let_def http_checks_labels split: option.splits sum.splits)

lemma ping_checks_labels: "list_all (\<lambda>e. ev_check e \<noteq> ''ping::connectivity'' \<and> ev_of e = t) (ping_checks ins t s)"
  by (simp add: ping_checks_def Let_def)

interpretation ping: probe "ping_gather linux ins" "''ping::connectivity''" for linux ins
  by unfold_locales (auto simp: ping_gather_def Let_def ping_checks_labels split: sum.splits)

lemma dns_labels:
  "ev_check (dns_event ins c t d ips x) = c" "ev_of (dns_event ins c t d ips x) = t"
  "ev_check (checkResolution ins t r d) = ''dns::resolution''" "ev_of (checkResolution ins t r d) = t"
  "ev_check (checkExpectedIPs ins t ips d) = ''dns::expected_ips''" "ev_of (checkExpectedIPs ins t ips d) = t"
  "list_all (\<lambda>e. ev_check e \<noteq> ''dns::resolution'' \<and> ev_of e = t) (dns_checkResponseTime ins t ips d)"
  by (simp_all add: dns_event_def checkResolution_def checkExpectedIPs_def dns_checkResponseTime_def Let_def split: sum.split)

interpretation dns: probe "dns_gather ins" "''dns::resolution''" for ins
  by unfold_locales (auto simp: dns_gather_def Let_def dns_labels split: prod.splits sum.splits)

section \<open>What a TCP probe reads\<close>

fun arrived :: "(string \<times> bool) list \<Rightarrow> string" where
  "arrived [] = []"
| "arrived ((bytes, failed') # reads) = bytes @ (if failed' then [] else arrived reads)"

lemma contains_append: "contains_text s t \<Longrightarrow> contains_text (s @ u) t"
  unfolding contains_text_def sublist_def by (metis append.assoc)

lemma read_until_arrived:
  assumes "length (buf @ arrived reads) \<le> maxResponseSize" "\<not> contains_text buf expect"
  shows "contains_text (read_until expect buf reads) expect \<longleftrightarrow> contains_text (buf @ arrived reads) expect"
  using assms
proof (induct expect buf reads rule: read_until.induct)
  case (2 expect buf bytes failed' reads)
  show ?case
  proof (cases "length buf \<ge> maxResponseSize")
    case True
    then have "length (bytes @ (if failed' then [] else arrived reads)) = 0" using 2(2) unfolding arrived.simps length_append by linarith
    then have "bytes @ (if failed' then [] else arrived reads) = []" by blast
    then show ?thesis using True 2(3) by simp
  next
    case False
    show ?thesis
    proof (cases "bytes \<noteq> [] \<and> contains_text (buf @ bytes) expect")
      case True
      then show ?thesis using False contains_append [of "buf @ bytes" expect] by (simp add: Let_def)
    next
      case no: False
      then have not: "\<not> contains_text (buf @ bytes) expect" using 2(3) by auto
      show ?thesis
        using 2 False no not by (cases failed') (auto simp: Let_def)
    qed
  qed
qed simp

section \<open>Properties\<close>

text \<open>after a gather over TCP targets the connectivity alert of a target is open exactly when its probe failed: no connection, the
  message not sent, or the expected text not in what arrived within the limit. Events of other targets and earlier alerts do not matter.\<close>

theorem tcp_alert_exact:
  assumes "distinct (map snd wts)" "(w, t) \<in> set wts" "es \<in> gathers (\<lambda>w t. TCPGather ins t w) wts"
    and "ns_Severity ins \<noteq> EventStatusOk" "length (arrived (tw_reads w)) \<le> maxResponseSize"
  shows "owed ''net::connectivity'' t (q @ es) \<longleftrightarrow>
    tw_dial w \<noteq> None \<or> ns_Send ins \<noteq> [] \<and> tw_send w \<noteq> None \<or>
    ns_Expect ins \<noteq> [] \<and> (tw_deadline w \<noteq> None \<or> \<not> contains_text (arrived (tw_reads w)) (ns_Expect ins))"
proof -
  have "contains_text (read_until (ns_Expect ins) [] (tw_reads w)) (ns_Expect ins) \<longleftrightarrow> contains_text (arrived (tw_reads w)) (ns_Expect ins)"
    if "ns_Expect ins \<noteq> []"
    using read_until_arrived [of "[]" "tw_reads w" "ns_Expect ins"] assms(5) that by (simp add: contains_text_def)
  then have "EventStatus (hd (TCPGather ins t w)) \<noteq> EventStatusOk \<longleftrightarrow>
    tw_dial w \<noteq> None \<or> ns_Send ins \<noteq> [] \<and> tw_send w \<noteq> None \<or>
    ns_Expect ins \<noteq> [] \<and> (tw_deadline w \<noteq> None \<or> \<not> contains_text (arrived (tw_reads w)) (ns_Expect ins))"
    using assms(4) by (auto simp: TCPGather_def net_failed_def Let_def split: option.splits)
  then show ?thesis using tcp.alert_exact [OF assms(1-3)] by simp
qed

lemma append_shuffles: "xs @ ys \<in> shuffles xs ys"
  by (induct xs) (simp_all add: Cons_in_shuffles_leftI)

definition sample_net :: net_Instance where
  "sample_net = \<lparr>ns_Concurrency = 10, ns_Timeout = Second, ns_ReadTimeout = Second, ns_Protocol = ''tcp'', ns_Send = ''PING'', ns_Expect = ''PONG'',
     ns_Severity = EventStatusCritical, ns_ResponseTime = \<lparr>rc_WarnGe = 0, rc_CriticalGe = 0\<rparr>, ni_Partial = [], ni_Targets = [''a:1'', ''b:1'']\<rparr>"

definition answers_with :: "(string \<times> bool) list \<Rightarrow> tcp_world" where
  "answers_with reads = \<lparr>tw_dial = None, tw_send = None, tw_deadline = None, tw_reads = reads, tw_time = 1000\<rparr>"

theorem tcp_alert_exact_witness:
  "\<not> owed ''net::connectivity'' ''a:1'' (TCPGather sample_net ''b:1'' (answers_with [(''NO'', True)]) @
     TCPGather sample_net ''a:1'' (answers_with [(''+PO'', False), (''NG'', False)]))"
proof -
  let ?a = "answers_with [(''+PO'', False), (''NG'', False)]" and ?b = "answers_with [(''NO'', True)]"
  have "owed ''net::connectivity'' ''a:1'' ([] @ TCPGather sample_net ''b:1'' ?b @ TCPGather sample_net ''a:1'' ?a) \<longleftrightarrow>
    tw_dial ?a \<noteq> None \<or> ns_Send sample_net \<noteq> [] \<and> tw_send ?a \<noteq> None \<or>
    ns_Expect sample_net \<noteq> [] \<and> (tw_deadline ?a \<noteq> None \<or> \<not> contains_text (arrived (tw_reads ?a)) (ns_Expect sample_net))"
    by (rule tcp_alert_exact [where wts = "[(?b, ''b:1''), (?a, ''a:1'')]"])
      (simp_all add: gathers_def sample_net_def answers_with_def maxResponseSize_def status_defs append_shuffles)
  moreover have "contains_text ''+PONG'' ''PONG''" unfolding contains_text_def by (rule sublist_Cons_right [THEN iffD2]) simp
  ultimately show ?thesis by (simp add: answers_with_def sample_net_def)
qed

text \<open>A gather also settles the main alert of every target of the other probes: it is open exactly when the target was not reached.\<close>

theorem other_alerts_exact:
  assumes "distinct (map snd wts)" "(r, t) \<in> set wts" "es \<in> gathers (ping_gather linux ping) wts" "pg_Connectivity ping \<noteq> EventStatusOk"
    and "distinct (map snd hts)" "(w, t) \<in> set hts" "hs \<in> gathers (http_gather fmt ins) hts" "hx_Connectivity ins \<noteq> EventStatusOk"
    and "distinct (map snd dts)" "(d, t) \<in> set dts" "ds \<in> gathers (dns_gather dns) dts" "dn_Severity dns \<noteq> EventStatusOk"
  shows "owed ''ping::connectivity'' t (q @ es) \<longleftrightarrow> (\<forall>s. r = Counted s \<longrightarrow> pt_Sent s = 0 \<or> pt_Recv s = 0)"
    and "owed ''http::connectivity'' t (q @ hs) \<longleftrightarrow> hw_request w \<noteq> None \<or> isl (hw_do w (http_request_of ins t))"
    and "owed ''dns::resolution'' t (q @ ds) \<longleftrightarrow> isl (fst d)"
proof -
  show "owed ''ping::connectivity'' t (q @ es) \<longleftrightarrow> (\<forall>s. r = Counted s \<longrightarrow> pt_Sent s = 0 \<or> pt_Recv s = 0)"
    using ping.alert_exact [OF assms(1-3), of q] assms(4)
    by (cases r) (auto simp: ping_gather_def ping_target_def setStatsLabels_def Let_def)
  show "owed ''http::connectivity'' t (q @ hs) \<longleftrightarrow> hw_request w \<noteq> None \<or> isl (hw_do w (http_request_of ins t))"
    using http.alert_exact [OF assms(5-7), of q] assms(8)
    by (auto simp: http_gather_def Let_def isl_def split: option.splits sum.splits)
  show "owed ''dns::resolution'' t (q @ ds) \<longleftrightarrow> isl (fst d)"
    using dns.alert_exact [OF assms(9-11), of q] assms(12)
    by (cases d; cases "fst d") (auto simp: dns_gather_def checkResolution_def dns_event_def Let_def)
qed

text \<open>An https client is only built with what its checks need: a compiled filter for the expected codes, pairs of headers, one kind of body
  check, and TLS unless it was switched off.\<close>

lemma http_targets_keeps:
  assumes "http_targets url ts ins = Inr ins'"
  shows "hx_filter ins' = hx_filter ins" "hx_StatusExpect ins' = hx_StatusExpect ins" "hc_Headers ins' = hc_Headers ins"
    "hx_ExpectSubstring ins' = hx_ExpectSubstring ins" "hx_ExpectRegex ins' = hx_ExpectRegex ins" "hx_compiledRegex ins' = hx_compiledRegex ins"
  using assms by (induct url ts ins rule: http_targets.induct) (auto split: sum.splits if_splits)

lemma http_targets_schemes: "http_targets url ts ins = Inr ins' \<Longrightarrow> t \<in> set ts \<Longrightarrow> url t = Inr ''http'' \<or> url t = Inr ''https''"
  by (induct url ts ins rule: http_targets.induct) (auto split: sum.splits if_splits)

lemma split_patterns_length:
  "split_patterns cc ps gs rs = Inr (gs', rs') \<Longrightarrow> length gs' + length rs' = length ps + length gs + length rs"
  by (induct cc ps gs rs rule: split_patterns.induct) (auto split: if_splits sum.splits)

lemma map_sum_Inr_iff: "map_sum f g x = Inr y \<longleftrightarrow> (\<exists>z. x = Inr z \<and> y = g z)"
  by (cases x) auto

lemma Compile_nonempty: "Compile cc ps = Inr f \<Longrightarrow> ps \<noteq> [] \<Longrightarrow> f \<noteq> None"
  by (auto simp: Compile_def Let_def map_sum_Inr_iff split: sum.splits prod.splits if_splits dest!: split_patterns_length)

lemma http_status_ready:
  assumes "http_status_init cc ins = Inr i"
  shows "hx_StatusExpect i = [] \<or> hx_filter i \<noteq> None" "hx_compiledRegex i = hx_compiledRegex ins" "hx_Targets i = hx_Targets ins"
  using assms by (auto simp: http_status_init_def dest: Compile_nonempty split: if_splits sum.splits)

lemma http_body_ready:
  assumes "http_body_init cc ins = Inr i" "hx_compiledRegex ins = None"
  shows "hx_ExpectSubstring i = [] \<or> hx_compiledRegex i = None" "hx_filter i = hx_filter ins" "hx_StatusExpect i = hx_StatusExpect ins"
    "hx_Targets i = hx_Targets ins"
  using assms by (auto simp: http_body_init_def Let_def split: if_splits sum.splits)

theorem http_init_ready:
  assumes "http_Init env ins = Inr (ins', c)" "hx_compiledRegex ins = None"
  shows "hx_StatusExpect ins' = [] \<or> hx_filter ins' \<noteq> None" "even (length (hc_Headers ins'))"
    and "hx_ExpectSubstring ins' = [] \<or> hx_compiledRegex ins' = None"
    and "t \<in> set (hx_Targets ins) \<Longrightarrow> he_url env t = Inr ''http'' \<or> he_url env t = Inr ''https''"
proof -
  define i0 where "i0 = ins\<lparr>hx_Concurrency := or_int (hx_Concurrency ins) 10, hx_Connectivity := or_str (hx_Connectivity ins) EventStatusCritical\<rparr>"
  obtain i1 i2 where i1: "http_status_init (he_patterns env) i0 = Inr i1" and i2: "http_body_init (he_patterns env) i1 = Inr i2"
    and even: "\<not> (hc_Headers i2 \<noteq> [] \<and> length (hc_Headers i2) mod 2 \<noteq> 0)" and ts: "http_targets (he_url env) (hx_Targets i2) i2 = Inr ins'"
    using assms(1) unfolding http_Init_def Let_def sbind_Inr_iff refuse_Inr_iff case_sum_Inr_iff i0_def [symmetric] by blast
  have r: "hx_compiledRegex i1 = None" using http_status_ready(2) [OF i1] assms(2) by (simp add: i0_def)
  show "hx_StatusExpect ins' = [] \<or> hx_filter ins' \<noteq> None"
    using http_status_ready(1) [OF i1] http_body_ready(2,3) [OF i2 r] http_targets_keeps(1,2) [OF ts] by simp
  show "even (length (hc_Headers ins'))"
    using even http_targets_keeps(3) [OF ts] by (cases "hc_Headers i2 = []") (simp_all add: even_iff_mod_2_eq_zero)
  show "hx_ExpectSubstring ins' = [] \<or> hx_compiledRegex ins' = None"
    using http_body_ready(1) [OF i2 r] http_targets_keeps(4,6) [OF ts] by simp
  show "he_url env t = Inr ''http'' \<or> he_url env t = Inr ''https''" if "t \<in> set (hx_Targets ins)"
    using http_targets_schemes [OF ts] http_body_ready(4) [OF i2 r] http_status_ready(3) [OF i1] that by (simp add: i0_def)
qed

text \<open>The event of a recovered panic lacks a label of the check it stands for, so it opens an alert of its own that no later
  result of that check can close.\<close>

theorem panic_alert_apart:
  "m_has (nil_map (Labels (probe_event ''net::connectivity'' (net_labels ins t)))) ''protocol'' \<and> \<not> m_has (nil_map (Labels (net_panic ins t p))) ''protocol'' \<and>
   m_has (nil_map (Labels (probe_event ''http::connectivity'' (http_labels hins t)))) ''method'' \<and> \<not> m_has (nil_map (Labels (http_panic t p))) ''method''"
  by (simp add: m_has_def net_panic_def http_panic_def probe_event_def check_event_def net_labels_def http_labels_def BuildEvent_def nil_map_def m_copy_Cons)

text \<open>The TLS settings of a partial are part of its type but never reach an instance.\<close>

theorem partial_tls_ignored: "hc_ClientConfig (http_merge ins p) = hc_ClientConfig ins"
  by (simp add: http_merge_def)

text \<open>The time a ping may take is raised to what its packets need, unless the product overflows.\<close>

theorem ping_time_enough:
  assumes "in_i64 (pg_Count (ping_times ins) * pn_calcInterval (ping_times ins))"
  shows "pg_Count (ping_times ins) * pn_calcInterval (ping_times ins) \<le> pn_calcTimeout (ping_times ins)"
  using assms by (auto simp: ping_times_def Let_def i64_id)

end
