(* ===== verification/Host_Policy.thy ===== *)
theory Host_Policy
  imports Probe Host_States
begin

text \<open>
  The plugins that compare a host with what its owner asked for: mounted file systems
  (\<^verbatim>\<open>plugins/mount\<close>), kernel parameters (\<^verbatim>\<open>plugins/sysctl\<close>), security modules (\<^verbatim>\<open>plugins/secmod\<close>) and units
  (\<^verbatim>\<open>plugins/systemd\<close>), and the two tools a diagnosis reads kernel parameters with. The files they read and the
  programs they run are arguments. Each item asked for gives one event; that contract is a locale, and what
  it means for the alerts is proved once there.
\<close>

section \<open>What is asked for\<close>

text \<open>\<^verbatim>\<open>normalizeSeverity\<close> of \<^verbatim>\<open>mount\<close> and \<^verbatim>\<open>secmod\<close>, and \<^verbatim>\<open>isAlertSeverity\<close>.\<close>

definition isAlertSeverity :: "string \<Rightarrow> bool" where
  "isAlertSeverity s \<longleftrightarrow> s = EventStatusInfo \<or> s = EventStatusWarning \<or> s = EventStatusCritical"

definition severity_default :: "string \<Rightarrow> string \<Rightarrow> string" where
  "severity_default d s = (let s = trim_space s in if s = [] then d else s)"

definition normalizeSeverity :: "(string \<Rightarrow> string) \<Rightarrow> string \<Rightarrow> string \<Rightarrow> string + string" where
  "normalizeSeverity quote d s =
     (let s = severity_default d s in
      if isAlertSeverity s then Inr s
      else Inl (''invalid severity '' @ quote s @ '', must be Info, Warning or Critical''))"

lemma alert_severity_not_ok: "isAlertSeverity s \<Longrightarrow> s \<noteq> EventStatusOk"
  by (auto simp: isAlertSeverity_def status_defs)

lemma normalizeSeverity_ok: "normalizeSeverity quote d s = Inr s' \<Longrightarrow> isAlertSeverity s'"
  by (auto simp: normalizeSeverity_def Let_def split: if_splits)

text \<open>
  An item of the configuration, the name its events carry as their target, and the status it deserves in a
  world: each gather gives one event for the item.
\<close>

locale policy =
  fixes check_item :: "'w \<Rightarrow> 'i \<Rightarrow> Event list" and check :: string and item_name :: "'i \<Rightarrow> string" and verdict :: "'w \<Rightarrow> 'i \<Rightarrow> string"
  assumes reported: "reports check (item_name i) (verdict w i) (check_item w i)"
begin

abbreviation run_items :: "'w \<Rightarrow> 'i list \<Rightarrow> Event list" where
  "run_items w items \<equiv> concat (map (check_item w) items)"

lemma other_items: "t \<notin> item_name ` set items \<Longrightarrow> owed check t (q @ run_items w items) = owed check t q"
proof (induct items arbitrary: q)
  case (Cons i items)
  obtain e where e: "check_item w i = [e]" "is_event (item_name i) check e"
    using reported unfolding reports_def by blast
  have "owed check t ((q @ [e]) @ run_items w items) = owed check t (q @ [e])"
    using Cons(2) by (intro Cons(1)) simp
  moreover have "owed check t (q @ [e]) = owed check t q"
    using e(2) Cons(2) by (auto simp: owed_push is_event_def)
  ultimately show ?case using e(1) by simp
qed simp

text \<open>The last item of a name decides what is said of it.\<close>

lemma last_item:
  assumes "item_name i \<notin> item_name ` set later"
  shows "owed check (item_name i) (q @ run_items w (earlier @ i # later)) \<longleftrightarrow> verdict w i \<noteq> EventStatusOk"
proof -
  have "owed check (item_name i) (((q @ run_items w earlier) @ check_item w i) @ run_items w later)
        = owed check (item_name i) ((q @ run_items w earlier) @ check_item w i)"
    using other_items assms by blast
  then show ?thesis using owed_reports [OF reported, of i "q @ run_items w earlier" w] by simp
qed

text \<open>With distinct names, the alert of every item is open exactly when the item is not as asked for.\<close>

lemma settled:
  assumes "distinct (map item_name items)" "i \<in> set items"
  shows "owed check (item_name i) (q @ run_items w items) \<longleftrightarrow> verdict w i \<noteq> EventStatusOk"
proof -
  obtain earlier later where "items = earlier @ i # later"
    using assms(2) by (meson split_list)
  then show ?thesis using assms(1) last_item [of i later] by auto
qed

end

section \<open>Mounted file systems\<close>

record MountSpec =
  mo_Path :: string
  mo_FSType :: string
  mo_Options :: "string list"
  mo_Severity :: string

record FstabCheck =
  fc_Enabled :: bool
  fc_Severity :: string
  fc_ExcludeFSTypes :: "string list"
  fc_ExcludePaths :: "string list"

record mount_Instance =
  mo_Mounts :: "MountSpec list"
  mo_Fstab :: FstabCheck

record mountEntry =
  me_device :: string
  me_fsType :: string
  me_options :: "(string, bool) gomap"
  me_rawOptions :: string

record fstabEntry =
  fe_device :: string
  fe_mountPoint :: string
  fe_fsType :: string
  fe_options :: "string list"

definition spec_at :: "string \<Rightarrow> nat \<Rightarrow> string" where
  "spec_at name i = name @ ''['' @ show_nat i @ '']''"

fun trim_options :: "string \<Rightarrow> nat \<Rightarrow> string list \<Rightarrow> string + string list" where
  "trim_options place j [] = Inr []"
| "trim_options place j (raw # opts) =
     (let opt = trim_space raw in
      if opt = [] then Inl (place @ spec_at ''.options'' j @ '': option must not be empty'')
      else map_sum id (Cons opt) (trim_options place (j + 1) opts))"

definition mount_spec_init :: "(string \<Rightarrow> string) \<Rightarrow> string list \<Rightarrow> nat \<Rightarrow> MountSpec \<Rightarrow> string + MountSpec" where
  "mount_spec_init quote seen i m =
     (let path = trim_space (mo_Path m); place = spec_at ''mounts'' i in
      sbind (refuse (path = []) (place @ '': path must not be empty'')) (\<lambda>_.
      sbind (refuse (\<not> prefix ''/'' path) (place @ '': path must be absolute (start with /), got '' @ quote path)) (\<lambda>_.
      let path = (if length path > 1 then trim_right (\<lambda>c. c = CHR ''/'') path else path) in
      sbind (refuse (path \<in> set seen) (place @ '': duplicate mount path '' @ quote path)) (\<lambda>_.
      sbind (trim_options place 0 (mo_Options m)) (\<lambda>options.
      case normalizeSeverity quote EventStatusWarning (mo_Severity m) of
        Inl e \<Rightarrow> Inl (place @ '' (path='' @ path @ ''): '' @ e)
      | Inr severity \<Rightarrow>
          Inr \<lparr>mo_Path = path, mo_FSType = trim_space (to_lower (mo_FSType m)), mo_Options = options, mo_Severity = severity\<rparr>)))))"

fun mount_specs_init :: "(string \<Rightarrow> string) \<Rightarrow> string list \<Rightarrow> nat \<Rightarrow> MountSpec list \<Rightarrow> string + MountSpec list" where
  "mount_specs_init quote seen i [] = Inr []"
| "mount_specs_init quote seen i (m # ms) =
     sbind (mount_spec_init quote seen i m) (\<lambda>m. map_sum id (Cons m) (mount_specs_init quote (mo_Path m # seen) (i + 1) ms))"

definition fstab_init :: "(string \<Rightarrow> string) \<Rightarrow> FstabCheck \<Rightarrow> string + FstabCheck" where
  "fstab_init quote fc =
     (if \<not> fc_Enabled fc then Inr fc
      else case normalizeSeverity quote EventStatusWarning (fc_Severity fc) of
             Inl e \<Rightarrow> Inl (''fstab.severity: '' @ e)
           | Inr severity \<Rightarrow>
               Inr (fc\<lparr>fc_Severity := severity,
                      fc_ExcludeFSTypes := (if fc_ExcludeFSTypes fc = [] then [''tmpfs'', ''devtmpfs'', ''squashfs'', ''overlay''] else fc_ExcludeFSTypes fc),
                      fc_ExcludePaths := map trim_space (fc_ExcludePaths fc)\<rparr>))"

definition mount_Init :: "(string \<Rightarrow> string) \<Rightarrow> string \<Rightarrow> mount_Instance \<Rightarrow> string + mount_Instance" where
  "mount_Init quote os ins =
     sbind (linux_only ''mount'' os) (\<lambda>_.
     sbind (mount_specs_init quote [] 0 (mo_Mounts ins)) (\<lambda>mounts.
     sbind (fstab_init quote (mo_Fstab ins)) (\<lambda>fstab.
     Inr (ins\<lparr>mo_Mounts := mounts, mo_Fstab := fstab\<rparr>))))"

text \<open>\<^verbatim>\<open>strconv.ParseUint(oct, 8, 8)\<close> on three bytes, and the loop that decodes the escapes.\<close>

definition octal_val :: "char \<Rightarrow> nat option" where
  "octal_val c = (case digit_val c of Some d \<Rightarrow> if d < 8 then Some d else None | None \<Rightarrow> None)"

fun parse_octal :: "nat \<Rightarrow> string \<Rightarrow> nat option" where
  "parse_octal n [] = (if n < 256 then Some n else None)"
| "parse_octal n (c # cs) = (case octal_val c of None \<Rightarrow> None | Some d \<Rightarrow> parse_octal (n * 8 + d) cs)"

abbreviation backslash :: char where "backslash \<equiv> CHR 0x5C"

fun unescape_loop :: "string \<Rightarrow> string" where
  "unescape_loop (c # a # b # d # rest) =
     (if c = backslash then
        case parse_octal 0 [a, b, d] of
          Some v \<Rightarrow> char_of v # unescape_loop rest
        | None \<Rightarrow> c # unescape_loop (a # b # d # rest)
      else c # unescape_loop (a # b # d # rest))"
| "unescape_loop s = s"

definition unescapeOctal :: "string \<Rightarrow> string" where
  "unescapeOctal s = (if backslash \<in> set s then unescape_loop s else s)"

definition entry_fields :: "string \<Rightarrow> string list list" where
  "entry_fields content =
     filter (\<lambda>fs. length fs \<ge> 4) (map Fields (filter (\<lambda>l. l \<noteq> [] \<and> hd l \<noteq> CHR ''#'') (map trim_space (split_at nl content))))"

definition mount_line :: "(string, mountEntry) gomap \<Rightarrow> string list \<Rightarrow> (string, mountEntry) gomap" where
  "mount_line result fs =
     m_set (unescapeOctal (fs ! 1))
       \<lparr>me_device = fs ! 0, me_fsType = fs ! 2, me_options = foldl (\<lambda>m opt. m_set opt True m) [] (split_at (CHR '','') (fs ! 3)), me_rawOptions = fs ! 3\<rparr>
       result"

definition parseMountLines :: "string \<Rightarrow> (string, mountEntry) gomap" where
  "parseMountLines content = foldl mount_line [] (entry_fields content)"

definition parseFstabLines :: "string \<Rightarrow> fstabEntry list" where
  "parseFstabLines content =
     map (\<lambda>fs. \<lparr>fe_device = fs ! 0, fe_mountPoint = unescapeOctal (fs ! 1), fe_fsType = fs ! 2, fe_options = split_at (CHR '','') (fs ! 3)\<rparr>) (entry_fields content)"

definition formatNotMounted :: "MountSpec \<Rightarrow> string" where
  "formatNotMounted spec =
     (if mo_FSType spec \<noteq> [] then mo_Path spec @ '' is not mounted (expected '' @ mo_FSType spec @ '')'' else mo_Path spec @ '' is not mounted'')"

definition formatExpect :: "MountSpec \<Rightarrow> string" where
  "formatExpect spec =
     (let parts = (if mo_FSType spec \<noteq> [] then [mo_FSType spec] else []) @ (if mo_Options spec \<noteq> [] then [join '','' (mo_Options spec)] else [])
      in if parts = [] then ''mounted'' else join '', '' parts)"

definition compliance_event :: "string \<Rightarrow> Event" where "compliance_event target = check_event ''mount::compliance'' target"

definition has_option :: "mountEntry \<Rightarrow> string \<Rightarrow> bool" where
  "has_option entry name \<longleftrightarrow> map_of (me_options entry) name = Some True"

definition checkMount :: "(string, mountEntry) gomap \<Rightarrow> MountSpec \<Rightarrow> Event list" where
  "checkMount mountMap spec =
     (let event = compliance_event (mo_Path spec); sev = mo_Severity spec in
      case map_of mountMap (mo_Path spec) of
        None \<Rightarrow>
          [alert_with sev (formatNotMounted spec)
             (SetAttrs [(''actual'', ''not mounted''), (''expect'', formatExpect spec), (''threshold_desc'', sev @ '': not mounted'')] event)]
      | Some entry \<Rightarrow>
          let attrs = [(''actual'', me_fsType entry @ '', '' @ me_rawOptions entry), (''expect'', formatExpect spec)];
              missing = filter (\<lambda>opt. \<not> has_option entry opt) (mo_Options spec) in
          if mo_FSType spec \<noteq> [] \<and> me_fsType entry \<noteq> mo_FSType spec then
            [alert_with sev (mo_Path spec @ '' is mounted as '' @ me_fsType entry @ '', expected '' @ mo_FSType spec)
               (SetAttrs (attrs @ [(''threshold_desc'', sev @ '': fstype '' @ ne_sign @ '' '' @ mo_FSType spec)]) event)]
          else if missing \<noteq> [] then
            [alert_with sev (mo_Path spec @ '' is missing mount options: '' @ join '', '' missing @ '' (actual: '' @ me_rawOptions entry @ '')'')
               (SetAttrs (attrs @ [(''threshold_desc'', sev @ '': missing mount options'')]) event)]
          else
            [alert_with EventStatusOk
               (mo_Path spec @ '' is mounted as '' @ me_fsType entry @
                (if mo_Options spec \<noteq> [] then '' with expected options ('' @ join '', '' (mo_Options spec) @ '')'' else []))
               (SetAttrs (attrs @ [(''threshold_desc'', sev @ '': mount compliance check'')]) event)])"

text \<open>The entries of \<^verbatim>\<open>/etc/fstab\<close> that are checked, as the specifications they are checked against.\<close>

definition fstab_skipped :: "mount_Instance \<Rightarrow> fstabEntry \<Rightarrow> bool" where
  "fstab_skipped ins entry \<longleftrightarrow>
     fe_mountPoint entry = ''none'' \<or> fe_fsType entry = ''swap'' \<or>
     fe_fsType entry \<in> set (map to_lower (fc_ExcludeFSTypes (mo_Fstab ins))) \<or> fe_mountPoint entry \<in> set (fc_ExcludePaths (mo_Fstab ins)) \<or>
     ''noauto'' \<in> set (fe_options entry) \<or>
     fe_mountPoint entry \<in> set (map mo_Path (mo_Mounts ins))"

definition fstab_specs :: "mount_Instance \<Rightarrow> string \<Rightarrow> MountSpec list" where
  "fstab_specs ins content =
     map (\<lambda>entry. \<lparr>mo_Path = fe_mountPoint entry, mo_FSType = fe_fsType entry, mo_Options = [], mo_Severity = fc_Severity (mo_Fstab ins)\<rparr>)
       (filter (\<lambda>entry. \<not> fstab_skipped ins entry) (parseFstabLines content))"

definition checkFstabMounts :: "mount_Instance \<Rightarrow> file_read \<Rightarrow> (string, mountEntry) gomap \<Rightarrow> Event list" where
  "checkFstabMounts ins fstab mountMap =
     (case fstab of
        FMissing _ \<Rightarrow> []
      | FError e \<Rightarrow> [alert_with EventStatusCritical (''failed to read /etc/fstab: '' @ e) (compliance_event ''fstab'')]
      | FContent content \<Rightarrow> concat (map (checkMount mountMap) (fstab_specs ins content)))"

definition mount_Gather :: "(string \<Rightarrow> file_read) \<Rightarrow> mount_Instance \<Rightarrow> Event list" where
  "mount_Gather rd ins =
     (case rd ''/proc/mounts'' of
        FContent content \<Rightarrow>
          let mountMap = parseMountLines content in
          concat (map (checkMount mountMap) (mo_Mounts ins)) @
          (if fc_Enabled (mo_Fstab ins) then checkFstabMounts ins (rd ''/etc/fstab'') mountMap else [])
      | FMissing e \<Rightarrow> [alert_with EventStatusCritical (''failed to parse /proc/mounts: '' @ e) (compliance_event ''mounts'')]
      | FError e \<Rightarrow> [alert_with EventStatusCritical (''failed to parse /proc/mounts: '' @ e) (compliance_event ''mounts'')])"

text \<open>What the check of one mount point promises.\<close>

definition complies :: "(string, mountEntry) gomap \<Rightarrow> MountSpec \<Rightarrow> bool" where
  "complies mountMap spec \<longleftrightarrow>
     (case map_of mountMap (mo_Path spec) of
        None \<Rightarrow> False
      | Some entry \<Rightarrow> (mo_FSType spec = [] \<or> me_fsType entry = mo_FSType spec) \<and> list_all (has_option entry) (mo_Options spec))"

interpretation mounts: policy checkMount "''mount::compliance''" mo_Path "\<lambda>mm spec. if complies mm spec then EventStatusOk else mo_Severity spec"
  by unfold_locales
    (auto simp: checkMount_def complies_def reports_def is_event_def Let_def compliance_event_def filter_empty_conv list_all_iff split: option.splits)

section \<open>Kernel parameters\<close>

record ParamSpec =
  pm_Key :: string
  pm_Op :: string
  pm_Value :: string
  pm_Severity :: string

text \<open>\<^verbatim>\<open>strconv.ParseFloat\<close> and the order of \<^verbatim>\<open>float64\<close> (which has values that compare with nothing) are arguments.\<close>

record 'f float_lib =
  fl_parse :: "string \<Rightarrow> 'f option"
  fl_less :: "'f \<Rightarrow> 'f \<Rightarrow> bool"

definition le_sign :: string where "le_sign = [CHR 0xE2, CHR 0x89, CHR 0xA4]"

definition opSymbol :: "(string, string) gomap" where
  "opSymbol = [(''eq'', ''=''), (''ne'', ne_sign), (''ge'', ge_sign), (''le'', le_sign), (''gt'', ''>''), (''lt'', ''<'')]"

definition validOps :: "string list" where
  "validOps = [''eq'', ''ne'', ''ge'', ''le'', ''gt'', ''lt'']"

definition isNumericOp :: "string \<Rightarrow> bool" where
  "isNumericOp op \<longleftrightarrow> op = ''ge'' \<or> op = ''le'' \<or> op = ''gt'' \<or> op = ''lt''"

definition squoted :: "string \<Rightarrow> string" where "squoted s = [CHR 0x27] @ s @ [CHR 0x27]"

definition validateKey :: "(string \<Rightarrow> string) \<Rightarrow> string \<Rightarrow> string + unit" where
  "validateKey quote key =
     sbind (refuse (contains_text key ''/'') (''key '' @ quote key @ '' must not contain '' @ squoted ''/'' @ '' (use '' @ squoted ''.'' @ '' as separator)'')) (\<lambda>_.
     sbind (refuse (contains_text key ''..'') (''key '' @ quote key @ '' must not contain '' @ squoted ''..'')) (\<lambda>_.
     sbind (refuse (prefix ''.'' key) (''key '' @ quote key @ '' must not start with '' @ squoted ''.'')) (\<lambda>_.
     refuse (suffix ''.'' key) (''key '' @ quote key @ '' must not end with '' @ squoted ''.''))))"

definition param_init :: "(string \<Rightarrow> string) \<Rightarrow> 'f float_lib \<Rightarrow> nat \<Rightarrow> ParamSpec \<Rightarrow> string + ParamSpec" where
  "param_init quote lib i p =
     (let key = trim_space (pm_Key p); place = spec_at ''param_check.params'' i; named = place @ '' ('' @ key @ '')'' in
      sbind (refuse (key = []) (place @ '': key must not be empty'')) (\<lambda>_.
      sbind (map_sum (\<lambda>e. place @ '': '' @ e) id (validateKey quote key)) (\<lambda>_.
      let op = trim_space (to_lower (pm_Op p)); op = (if op = [] then ''eq'' else op) in
      sbind (refuse (op \<notin> set validOps) (named @ '': invalid op '' @ quote op @ '', must be one of: eq, ne, ge, le, gt, lt'')) (\<lambda>_.
      let v = trim_space (pm_Value p) in
      sbind (refuse (v = []) (named @ '': value must not be empty'')) (\<lambda>_.
      sbind (refuse (isNumericOp op \<and> fl_parse lib v = None) (named @ '': value '' @ quote v @ '' must be numeric for op '' @ quote op)) (\<lambda>_.
      let severity = severity_default EventStatusWarning (pm_Severity p) in
      sbind (refuse (\<not> isAlertSeverity severity) (named @ '': invalid severity '' @ quote severity @ '', must be Info, Warning or Critical'')) (\<lambda>_.
      Inr \<lparr>pm_Key = key, pm_Op = op, pm_Value = v, pm_Severity = severity\<rparr>)))))))"

fun params_init :: "(string \<Rightarrow> string) \<Rightarrow> 'f float_lib \<Rightarrow> nat \<Rightarrow> ParamSpec list \<Rightarrow> string + ParamSpec list" where
  "params_init quote lib i [] = Inr []"
| "params_init quote lib i (p # ps) = sbind (param_init quote lib i p) (\<lambda>p. map_sum id (Cons p) (params_init quote lib (i + 1) ps))"

definition sysctl_Init :: "(string \<Rightarrow> string) \<Rightarrow> 'f float_lib \<Rightarrow> string \<Rightarrow> ParamSpec list \<Rightarrow> string + ParamSpec list" where
  "sysctl_Init quote lib os params =
     sbind (linux_only ''sysctl'' os) (\<lambda>_.
     sbind (refuse (params = []) ''param_check.params must not be empty'') (\<lambda>_.
     params_init quote lib 0 params))"

definition keyToPath :: "string \<Rightarrow> string" where
  "keyToPath key = ''/proc/sys/'' @ map (\<lambda>c. if c = CHR ''.'' then CHR ''/'' else c) key"

definition normalizeWhitespace :: "string \<Rightarrow> string" where
  "normalizeWhitespace s = join '' '' (Fields s)"

definition compareNumeric :: "(string \<Rightarrow> string) \<Rightarrow> 'f float_lib \<Rightarrow> string \<Rightarrow> string \<Rightarrow> string + int" where
  "compareNumeric quote lib actual expect =
     (case (ParseInt actual, ParseInt expect) of
        (Inr a, Inr b) \<Rightarrow> Inr (if a < b then -1 else if a > b then 1 else 0)
      | _ \<Rightarrow>
          case fl_parse lib actual of
            None \<Rightarrow> Inl (''actual value '' @ quote actual @ '' is not numeric'')
          | Some a \<Rightarrow>
              case fl_parse lib expect of
                None \<Rightarrow> Inl (''value '' @ quote expect @ '' is not numeric'')
              | Some b \<Rightarrow> Inr (if fl_less lib a b then -1 else if fl_less lib b a then 1 else 0))"

definition compareValues :: "(string \<Rightarrow> string) \<Rightarrow> 'f float_lib \<Rightarrow> string \<Rightarrow> string \<Rightarrow> string \<Rightarrow> string + bool" where
  "compareValues quote lib actual expect op =
     (if op = ''eq'' then Inr (normalizeWhitespace actual = normalizeWhitespace expect)
      else if op = ''ne'' then Inr (normalizeWhitespace actual \<noteq> normalizeWhitespace expect)
      else
        sbind (compareNumeric quote lib actual expect) (\<lambda>cmp.
        if op = ''ge'' then Inr (cmp \<ge> 0)
        else if op = ''le'' then Inr (cmp \<le> 0)
        else if op = ''gt'' then Inr (cmp > 0)
        else if op = ''lt'' then Inr (cmp < 0)
        else Inl (''unknown op '' @ quote op)))"

definition param_event :: "ParamSpec \<Rightarrow> Event" where
  "param_event p =
     (let sym = m_str opSymbol (pm_Op p); sym = (if sym = [] then pm_Op p else sym) in
      SetAttrs [(''expect'', pm_Op p @ '' '' @ pm_Value p),
                (''threshold_desc'', pm_Severity p @ '': '' @ pm_Key p @ '' '' @ sym @ '' '' @ pm_Value p)]
        (check_event ''sysctl::param_check'' (pm_Key p)))"

definition checkParam :: "(string \<Rightarrow> string) \<Rightarrow> 'f float_lib \<Rightarrow> (string \<Rightarrow> file_read) \<Rightarrow> ParamSpec \<Rightarrow> Event list" where
  "checkParam quote lib rd p =
     (let path = keyToPath (pm_Key p); event = param_event p in
      case rd path of
        FMissing _ \<Rightarrow> [alert_with (pm_Severity p) (pm_Key p @ '': parameter not found (file '' @ path @ '' does not exist)'') event]
      | FError e \<Rightarrow> [alert_with EventStatusCritical (pm_Key p @ '': failed to read parameter: '' @ e) event]
      | FContent content \<Rightarrow>
          let actual = trim_space content; event = SetCurrentValue actual (SetAttrs [(''actual'', actual)] event) in
          case compareValues quote lib actual (pm_Value p) (pm_Op p) of
            Inl e \<Rightarrow> [alert_with EventStatusCritical (pm_Key p @ '': comparison error: '' @ e) event]
          | Inr matched \<Rightarrow>
              if matched then
                [alert_with EventStatusOk (pm_Key p @ '' = '' @ actual @ '', matches expectation ('' @ pm_Op p @ '' '' @ pm_Value p @ '')'') event]
              else [alert_with (pm_Severity p) (pm_Key p @ '' = '' @ actual @ '', expected '' @ pm_Op p @ '' '' @ pm_Value p) event])"

definition sysctl_Gather :: "(string \<Rightarrow> string) \<Rightarrow> 'f float_lib \<Rightarrow> (string \<Rightarrow> file_read) \<Rightarrow> ParamSpec list \<Rightarrow> Event list" where
  "sysctl_Gather quote lib rd params = concat (map (checkParam quote lib rd) params)"

text \<open>What one parameter deserves.\<close>

definition param_verdict :: "(string \<Rightarrow> string) \<Rightarrow> 'f float_lib \<Rightarrow> (string \<Rightarrow> file_read) \<Rightarrow> ParamSpec \<Rightarrow> string" where
  "param_verdict quote lib rd p =
     (case rd (keyToPath (pm_Key p)) of
        FMissing _ \<Rightarrow> pm_Severity p
      | FError _ \<Rightarrow> EventStatusCritical
      | FContent content \<Rightarrow>
          case compareValues quote lib (trim_space content) (pm_Value p) (pm_Op p) of
            Inl _ \<Rightarrow> EventStatusCritical
          | Inr matched \<Rightarrow> if matched then EventStatusOk else pm_Severity p)"

lemma param_event_labels [simp]: "ev_check (param_event p) = ''sysctl::param_check''" "ev_of (param_event p) = pm_Key p"
  by (simp_all add: param_event_def Let_def)

interpretation params: policy "checkParam quote lib" "''sysctl::param_check''" pm_Key "param_verdict quote lib" for quote lib
  by unfold_locales (auto simp: checkParam_def param_verdict_def reports_def is_event_def Let_def split: file_read.splits sum.splits)

text \<open>The two tools of a diagnosis.\<close>

definition defaultKeys :: "string list" where
  "defaultKeys =
     [''vm.swappiness'', ''vm.dirty_ratio'', ''vm.dirty_background_ratio'', ''vm.overcommit_memory'', ''vm.overcommit_ratio'',
      ''vm.panic_on_oom'', ''vm.max_map_count'', ''fs.file-max'', ''fs.nr_open'', ''net.core.somaxconn'',
      ''net.core.netdev_max_backlog'', ''net.core.rmem_max'', ''net.core.wmem_max'', ''net.ipv4.tcp_max_syn_backlog'',
      ''net.ipv4.tcp_syncookies'', ''net.ipv4.tcp_tw_reuse'', ''net.ipv4.tcp_fin_timeout'', ''net.ipv4.tcp_keepalive_time'',
      ''net.ipv4.tcp_keepalive_intvl'', ''net.ipv4.tcp_keepalive_probes'', ''net.ipv4.ip_local_port_range'', ''net.ipv4.tcp_rmem'',
      ''net.ipv4.tcp_wmem'', ''kernel.pid_max'', ''kernel.threads-max'']"

definition readSysctl :: "(string \<Rightarrow> file_read) \<Rightarrow> string \<Rightarrow> string" where
  "readSysctl rd key =
     (case rd (keyToPath key) of
        FMissing _ \<Rightarrow> ''[not found]''
      | FError e \<Rightarrow> ''[error] '' @ e
      | FContent content \<Rightarrow> normalizeWhitespace (trim_space content))"

definition snapshot_keys :: "string \<Rightarrow> string + string list" where
  "snapshot_keys raw =
     (if raw = [] then Inr defaultKeys
      else
        let keys = filter (\<lambda>k. k \<noteq> []) (map trim_space (split_at (CHR '','') raw)) in
        sbind (refuse (keys = []) ''keys parameter is empty after parsing'') (\<lambda>_.
        sbind (refuse (length keys > 100) (''too many keys ('' @ show_nat (length keys) @ '', max 100)'')) (\<lambda>_. Inr keys)))"

definition snapshot_value :: "(string \<Rightarrow> string) \<Rightarrow> (string \<Rightarrow> file_read) \<Rightarrow> string \<Rightarrow> bool \<times> string" where
  "snapshot_value quote rd key =
     (case validateKey quote key of Inl e \<Rightarrow> (False, ''[error] '' @ e) | Inr _ \<Rightarrow> (True, readSysctl rd key))"

text \<open>\<^verbatim>\<open>%-*s\<close>: padded with blanks to a width in runes.\<close>

definition pad_runes :: "nat \<Rightarrow> string \<Rightarrow> string" where
  "pad_runes n s = s @ replicate (n - RuneCountInString s) (CHR '' '')"

definition execSysctlSnapshot :: "(string \<Rightarrow> string) \<Rightarrow> string \<Rightarrow> (string \<Rightarrow> file_read) \<Rightarrow> (string, string) gomap \<Rightarrow> string + string" where
  "execSysctlSnapshot quote os rd args =
     sbind (refuse (os \<noteq> ''linux'') (''sysctl_snapshot requires linux (current: '' @ os @ '')'')) (\<lambda>_.
     sbind (snapshot_keys (m_str args ''keys'')) (\<lambda>keys.
     let results = map (\<lambda>key. (key, snapshot_value quote rd key)) keys;
         maxKeyLen = foldl (\<lambda>n (key, good, _). if good \<and> length key > n then length key else n) 0 results in
     Inr (concat (map (\<lambda>(key, _, v). pad_runes maxKeyLen key @ '' = '' @ v @ [nl]) results))))"

definition execSysctlGet :: "(string \<Rightarrow> string) \<Rightarrow> string \<Rightarrow> (string \<Rightarrow> file_read) \<Rightarrow> (string, string) gomap \<Rightarrow> string + string" where
  "execSysctlGet quote os rd args =
     sbind (refuse (os \<noteq> ''linux'') (''sysctl_get requires linux (current: '' @ os @ '')'')) (\<lambda>_.
     let key = trim_space (m_str args ''key'') in
     sbind (refuse (key = []) ''key parameter is required'') (\<lambda>_.
     sbind (validateKey quote key) (\<lambda>_.
     case rd (keyToPath key) of
       FMissing _ \<Rightarrow> Inr (key @ '': parameter not found'')
     | FError e \<Rightarrow> Inl (''read '' @ keyToPath key @ '': '' @ e)
     | FContent content \<Rightarrow> Inr (key @ '' = '' @ normalizeWhitespace (trim_space content)))))"

section \<open>Security modules\<close>

record module_check =
  sm_Expect :: string
  sm_Severity :: string

record secmod_Instance =
  se_EnforceMode :: module_check
  se_AppArmor :: module_check

definition module_init :: "(string \<Rightarrow> string) \<Rightarrow> string \<Rightarrow> string list \<Rightarrow> module_check \<Rightarrow> string + module_check" where
  "module_init quote name valid c =
     (if sm_Expect c = [] then Inr c
      else
        sbind (refuse (sm_Expect c \<notin> set valid) (name @ ''.expect must be one of: '' @ join '', '' valid @ '' (got '' @ quote (sm_Expect c) @ '')'')) (\<lambda>_.
        case normalizeSeverity quote EventStatusWarning (sm_Severity c) of
          Inl e \<Rightarrow> Inl (name @ ''.severity: '' @ e)
        | Inr severity \<Rightarrow> Inr (c\<lparr>sm_Severity := severity\<rparr>)))"

definition lowered :: "module_check \<Rightarrow> module_check" where
  "lowered c = c\<lparr>sm_Expect := trim_space (to_lower (sm_Expect c))\<rparr>"

definition secmod_Init :: "(string \<Rightarrow> string) \<Rightarrow> string \<Rightarrow> secmod_Instance \<Rightarrow> string + secmod_Instance" where
  "secmod_Init quote os ins =
     sbind (linux_only ''secmod'' os) (\<lambda>_.
     sbind (module_init quote ''enforce_mode'' [''enforcing'', ''permissive'', ''disabled''] (lowered (se_EnforceMode ins))) (\<lambda>em.
     sbind (module_init quote ''apparmor_enabled'' [''yes'', ''no''] (lowered (se_AppArmor ins))) (\<lambda>aa.
     Inr (ins\<lparr>se_EnforceMode := em, se_AppArmor := aa\<rparr>))))"

definition module_state :: "(string \<Rightarrow> string) \<Rightarrow> string \<Rightarrow> (string \<times> string) list \<Rightarrow> string \<Rightarrow> file_read \<Rightarrow> string + string" where
  "module_state quote path states absent r =
     (case r of
        FMissing _ \<Rightarrow> Inr absent
      | FError e \<Rightarrow> Inl e
      | FContent content \<Rightarrow>
          case map_of states (trim_space content) of
            Some state \<Rightarrow> Inr state
          | None \<Rightarrow> Inl (''unexpected value in '' @ path @ '': '' @ quote (trim_space content)))"

definition readSELinuxMode :: "(string \<Rightarrow> string) \<Rightarrow> (string \<Rightarrow> file_read) \<Rightarrow> string + string" where
  "readSELinuxMode quote rd =
     module_state quote ''/sys/fs/selinux/enforce'' [(''1'', ''enforcing''), (''0'', ''permissive'')] ''disabled'' (rd ''/sys/fs/selinux/enforce'')"

definition readAppArmorStatus :: "(string \<Rightarrow> string) \<Rightarrow> (string \<Rightarrow> file_read) \<Rightarrow> string + string" where
  "readAppArmorStatus quote rd =
     module_state quote ''/sys/module/apparmor/parameters/enabled'' [(''Y'', ''yes''), (''N'', ''no'')] ''no'' (rd ''/sys/module/apparmor/parameters/enabled'')"

definition checkEnforceMode :: "(string \<Rightarrow> string) \<Rightarrow> (string \<Rightarrow> file_read) \<Rightarrow> module_check \<Rightarrow> Event list" where
  "checkEnforceMode quote rd c =
     (let event = check_event ''secmod::selinux_mode'' ''selinux'' in
      case readSELinuxMode quote rd of
        Inl e \<Rightarrow> [alert_with EventStatusCritical (''failed to read SELinux status: '' @ e) event]
      | Inr actual \<Rightarrow>
          let event = SetAttrs [(''actual'', actual), (''expect'', sm_Expect c)] event in
          if actual = sm_Expect c then [alert_with EventStatusOk (''SELinux mode is '' @ actual @ '', matches expectation'') event]
          else [alert_with (sm_Severity c) (''SELinux mode is '' @ actual @ '', expected '' @ sm_Expect c) event])"

definition checkAppArmor :: "(string \<Rightarrow> string) \<Rightarrow> (string \<Rightarrow> file_read) \<Rightarrow> module_check \<Rightarrow> Event list" where
  "checkAppArmor quote rd c =
     (let event = check_event ''secmod::apparmor_enabled'' ''apparmor'' in
      case readAppArmorStatus quote rd of
        Inl e \<Rightarrow> [alert_with EventStatusCritical (''failed to read AppArmor status: '' @ e) event]
      | Inr actual \<Rightarrow>
          let event = SetAttrs [(''actual'', actual), (''expect'', sm_Expect c)] event in
          if actual = sm_Expect c then [alert_with EventStatusOk (''AppArmor is '' @ actual @ '', matches expectation'') event]
          else [alert_with (sm_Severity c) (''AppArmor is '' @ actual @ '', expected '' @ sm_Expect c) event])"

definition secmod_Gather :: "(string \<Rightarrow> string) \<Rightarrow> (string \<Rightarrow> file_read) \<Rightarrow> secmod_Instance \<Rightarrow> Event list" where
  "secmod_Gather quote rd ins =
     (if sm_Expect (se_EnforceMode ins) \<noteq> [] then checkEnforceMode quote rd (se_EnforceMode ins) else []) @
     (if sm_Expect (se_AppArmor ins) \<noteq> [] then checkAppArmor quote rd (se_AppArmor ins) else [])"

definition module_verdict :: "string + string \<Rightarrow> module_check \<Rightarrow> string" where
  "module_verdict r c =
     (case r of Inl _ \<Rightarrow> EventStatusCritical | Inr actual \<Rightarrow> if actual = sm_Expect c then EventStatusOk else sm_Severity c)"

interpretation selinux: policy "checkEnforceMode quote" "''secmod::selinux_mode''" "\<lambda>_. ''selinux''" "\<lambda>rd. module_verdict (readSELinuxMode quote rd)" for quote
  by unfold_locales (auto simp: checkEnforceMode_def module_verdict_def reports_def is_event_def Let_def split: sum.splits)

interpretation apparmor: policy "checkAppArmor quote" "''secmod::apparmor_enabled''" "\<lambda>_. ''apparmor''" "\<lambda>rd. module_verdict (readAppArmorStatus quote rd)" for quote
  by unfold_locales (auto simp: checkAppArmor_def module_verdict_def reports_def is_event_def Let_def split: sum.splits)

section \<open>Units\<close>

record systemd_Instance =
  sd_Units :: "string list"
  sd_ExpectedActiveState :: string
  sd_Timeout :: duration
  sd_Concurrency :: int
  sd_Severity :: string
  sd_bin :: string

definition knownUnitSuffixes :: "string list" where
  "knownUnitSuffixes = [''.service'', ''.socket'', ''.timer'', ''.mount'', ''.automount'', ''.swap'', ''.target'', ''.path'', ''.slice'', ''.scope'']"

definition normalizeUnitName :: "string \<Rightarrow> string" where
  "normalizeUnitName u = (if list_ex (\<lambda>s. suffix s u) knownUnitSuffixes then u else u @ ''.service'')"

fun units_ok :: "(string \<Rightarrow> string) \<Rightarrow> string list \<Rightarrow> string + unit" where
  "units_ok quote [] = Inr ()"
| "units_ok quote (u # us) =
     (if trim_space u = [] then Inl ''unit name must not be empty or blank''
      else if CHR '' '' \<in> set u \<or> CHR 0x09 \<in> set u then Inl (''unit name '' @ quote u @ '' contains whitespace'')
      else units_ok quote us)"

definition systemd_Init :: "(string \<Rightarrow> string) \<Rightarrow> (string \<Rightarrow> string + string) \<Rightarrow> string \<Rightarrow> systemd_Instance \<Rightarrow> string + systemd_Instance" where
  "systemd_Init quote look os ins =
     sbind (linux_only ''systemd'' os) (\<lambda>_.
     sbind (refuse (sd_Units ins = []) ''units must not be empty'') (\<lambda>_.
     sbind (units_ok quote (sd_Units ins)) (\<lambda>_.
     sbind (map_sum (\<lambda>e. ''systemctl not found: '' @ e) id (look ''systemctl'')) (\<lambda>bin.
     sbind (refuse (sd_Severity ins \<noteq> [] \<and> \<not> EventStatusValid (sd_Severity ins))
       (''invalid state.severity '' @ quote (sd_Severity ins) @ '', must be one of: Critical, Warning, Info, Ok'')) (\<lambda>_.
     Inr (ins\<lparr>sd_bin := bin,
            sd_ExpectedActiveState := (if sd_ExpectedActiveState ins = [] then ''active'' else sd_ExpectedActiveState ins),
            sd_Timeout := (if sd_Timeout ins = 0 then 5 * Second else sd_Timeout ins),
            sd_Concurrency := (if sd_Concurrency ins = 0 then 5 else sd_Concurrency ins),
            sd_Severity := (if sd_Severity ins = [] then EventStatusCritical else sd_Severity ins)\<rparr>))))))"

definition queryProperties :: "string list" where
  "queryProperties = [''LoadState'', ''ActiveState'', ''SubState'', ''Type'', ''MainPID'', ''NRestarts'', ''Result'', ''Description'',
     ''FragmentPath'', ''UnitFileState'', ''ActiveEnterTimestamp'']"

definition parseProperties :: "string \<Rightarrow> (string, string) gomap" where
  "parseProperties data =
     foldl (\<lambda>props line. case index_byte (CHR ''='') line of None \<Rightarrow> props | Some i \<Rightarrow> m_set (take i line) (drop (i + 1) line) props) [] (split_at nl data)"

text \<open>How a program that is run with a time limit ends (\<^verbatim>\<open>cmdx.RunTimeout\<close>): killed at the limit, or on its own, with the
  error of the run, if any: an exit code other than zero, or a program that could not be run. Its two outputs are
  the chunks it wrote. The run is a function of the program and its arguments.\<close>

datatype run_error = ExitError (exit_code: int) (run_text: string) | RunError (run_text: string)

datatype run_end = TimedOut "string list" "string list" | Ended "string list" "string list" "run_error option"

type_synonym runner = "string \<Rightarrow> string list \<Rightarrow> run_end"

definition queryUnit :: "systemd_Instance \<Rightarrow> runner \<Rightarrow> string \<Rightarrow> string + (string, string) gomap" where
  "queryUnit ins run u =
     (case run (sd_bin ins) [''show'', u, ''--property='' @ join '','' queryProperties] of
        TimedOut _ _ \<Rightarrow> Inl (''systemctl show timed out after '' @ dur_string (sd_Timeout ins))
      | Ended out err runErr \<Rightarrow>
          let props = parseProperties (concat out); err = trim_space (concat err) in
          if props \<noteq> [] then Inr props
          else case runErr of
                 Some e \<Rightarrow> if err \<noteq> [] then Inl (run_text e @ '' (stderr: '' @ err @ '')'') else Inl (run_text e)
               | None \<Rightarrow> Inr props)"

definition unit_attrs :: "(string, string) gomap \<Rightarrow> string \<Rightarrow> labels" where
  "unit_attrs props canonicalUnit =
     (let get = m_str props; opt = (\<lambda>name key. if get key \<noteq> [] then [(name, get key)] else []);
          counted = (\<lambda>name key. if get key \<noteq> [] \<and> get key \<noteq> ''0'' then [(name, get key)] else []) in
      [(''active_state'', get ''ActiveState''), (''sub_state'', get ''SubState''), (''load_state'', get ''LoadState''), (''canonical_unit'', canonicalUnit)] @
      opt ''type'' ''Type'' @ counted ''main_pid'' ''MainPID'' @ opt ''description'' ''Description'' @ opt ''fragment_path'' ''FragmentPath'' @
      opt ''active_enter_timestamp'' ''ActiveEnterTimestamp'' @ counted ''n_restarts'' ''NRestarts'')"

definition gatherUnit :: "systemd_Instance \<Rightarrow> runner \<Rightarrow> string \<Rightarrow> Event list" where
  "gatherUnit ins run u =
     (let canonicalUnit = normalizeUnitName u; event = check_event ''systemd::state'' u in
      case queryUnit ins run canonicalUnit of
        Inl e \<Rightarrow> [alert_with EventStatusCritical (''systemctl query failed: '' @ e) event]
      | Inr props \<Rightarrow>
          let get = m_str props; activeState = get ''ActiveState''; subState = get ''SubState''; loadState = get ''LoadState'';
              expected = sd_ExpectedActiveState ins;
              event = SetAttrs [(''threshold_desc'', sd_Severity ins @ '': state '' @ ne_sign @ '' '' @ expected)]
                        (SetCurrentValue activeState (SetAttrs (unit_attrs props canonicalUnit) event)) in
          if loadState = ''not-found'' then
            [alert_with (sd_Severity ins) (''unit '' @ canonicalUnit @ '' not found (not installed or name is incorrect)'') event]
          else if loadState = ''masked'' then
            [alert_with (sd_Severity ins) (''unit '' @ canonicalUnit @ '' is masked (administratively disabled)'') event]
          else if activeState = expected then
            [SetDescription (''unit '' @ u @ '' is '' @ activeState @ ''('' @ subState @ '')'') event]
          else
            [alert_with (sd_Severity ins)
               (''unit '' @ u @ '' is '' @ activeState @ ''('' @ subState @ ''), expected '' @ expected @
                (if get ''Result'' \<noteq> [] \<and> get ''Result'' \<noteq> ''success'' then '', result: '' @ get ''Result'' else []) @
                (if get ''ActiveEnterTimestamp'' \<noteq> [] then '', last active: '' @ get ''ActiveEnterTimestamp'' else [])) event])"

text \<open>A goroutine that panics pushes an event of the same check.\<close>

definition unit_panic :: "string \<Rightarrow> string \<Rightarrow> Event" where
  "unit_panic u r = alert_with EventStatusCritical (''panic during check: '' @ r) (check_event ''systemd::state'' u)"

definition unit_goroutine :: "systemd_Instance \<Rightarrow> runner \<times> string option \<Rightarrow> string \<Rightarrow> Event list" where
  "unit_goroutine ins w u = (case snd w of None \<Rightarrow> gatherUnit ins (fst w) u | Some r \<Rightarrow> [unit_panic u r])"

definition unit_verdict :: "systemd_Instance \<Rightarrow> string + (string, string) gomap \<Rightarrow> string" where
  "unit_verdict ins r =
     (case r of
        Inl _ \<Rightarrow> EventStatusCritical
      | Inr props \<Rightarrow>
          if m_str props ''LoadState'' \<noteq> ''not-found'' \<and> m_str props ''LoadState'' \<noteq> ''masked'' \<and> m_str props ''ActiveState'' = sd_ExpectedActiveState ins
          then EventStatusOk else sd_Severity ins)"

lemma gatherUnit_reports: "reports ''systemd::state'' u (unit_verdict ins (queryUnit ins run (normalizeUnitName u))) (gatherUnit ins run u)"
  by (auto simp: gatherUnit_def unit_verdict_def reports_def is_event_def Let_def split: sum.splits)

interpretation units: probe "unit_goroutine ins" "''systemd::state''" for ins
proof
  fix w u
  show "\<exists>e es. unit_goroutine ins w u = e # es \<and> ev_check e = ''systemd::state'' \<and> ev_of e = u \<and> list_all (\<lambda>e. ev_check e \<noteq> ''systemd::state'' \<and> ev_of e = u) es"
    using gatherUnit_reports [of u ins "fst w"]
    by (auto simp: unit_goroutine_def unit_panic_def reports_def is_event_def split: option.split)
qed

section \<open>Links\<close>

record LinkSpec =
  ls_Interface :: string
  ls_Severity :: string

fun links_init :: "(string \<Rightarrow> string) \<Rightarrow> string list \<Rightarrow> nat \<Rightarrow> LinkSpec list \<Rightarrow> string + LinkSpec list" where
  "links_init quote seen i [] = Inr []"
| "links_init quote seen i (l # ls) =
     (let iface = trim_space (ls_Interface l) in
      sbind (refuse (iface = []) (spec_at ''link_up'' i @ ''.interface must not be empty'')) (\<lambda>_.
      sbind (refuse (iface \<in> set seen) (''duplicate link_up interface: '' @ iface)) (\<lambda>_.
      case normalizeSeverity quote EventStatusCritical (ls_Severity l) of
        Inl e \<Rightarrow> Inl (spec_at ''link_up'' i @ '' ('' @ iface @ ''): '' @ e)
      | Inr severity \<Rightarrow>
          map_sum id (Cons \<lparr>ls_Interface = iface, ls_Severity = severity\<rparr>) (links_init quote (iface # seen) (i + 1) ls))))"

definition readOperstate :: "(string \<Rightarrow> file_read) \<Rightarrow> string \<Rightarrow> string + string" where
  "readOperstate rd iface =
     (case rd (iface @ ''/operstate'') of FMissing _ \<Rightarrow> Inr ''not_found'' | FError e \<Rightarrow> Inl e | FContent content \<Rightarrow> Inr (trim_space content))"

definition gatherLink :: "(string \<Rightarrow> file_read) \<Rightarrow> LinkSpec \<Rightarrow> Event list" where
  "gatherLink rd spec =
     (let iface = ls_Interface spec; sev = ls_Severity spec; event = check_event ''netif::link'' iface in
      case readOperstate rd iface of
        Inl e \<Rightarrow> [alert_with EventStatusCritical (''failed to read '' @ iface @ '' operstate: '' @ e) event]
      | Inr operstate \<Rightarrow>
          let event = SetAttrs [(''threshold_desc'', sev @ '': link '' @ ne_sign @ '' up'')]
                        (SetCurrentValue operstate (SetAttrs [(''operstate'', operstate), (''expect'', ''up'')] event)) in
          if operstate = ''not_found'' then [alert_with sev (iface @ '' interface not found'') event]
          else if operstate = ''up'' \<or> operstate = ''unknown'' then [alert_with EventStatusOk (iface @ '' link is up'') event]
          else [alert_with sev (iface @ '' link is not ready (operstate: '' @ operstate @ '')'') event])"

definition link_verdict :: "(string \<Rightarrow> file_read) \<Rightarrow> LinkSpec \<Rightarrow> string" where
  "link_verdict rd spec =
     (case readOperstate rd (ls_Interface spec) of
        Inl _ \<Rightarrow> EventStatusCritical
      | Inr operstate \<Rightarrow> if operstate = ''up'' \<or> operstate = ''unknown'' then EventStatusOk else ls_Severity spec)"

interpretation links: policy gatherLink "''netif::link''" ls_Interface link_verdict
  by unfold_locales (auto simp: gatherLink_def link_verdict_def reports_def is_event_def Let_def split: sum.splits)

section \<open>Kernel parameters stay under their directory\<close>

definition under_proc_sys :: "string \<Rightarrow> bool" where
  "under_proc_sys p \<longleftrightarrow>
     prefix ''/proc/sys/'' p \<and> list_all (\<lambda>s. s \<noteq> [] \<and> CHR ''.'' \<notin> set s) (split_at (CHR ''/'') (drop (length ''/proc/sys/'') p))"

lemma split_at_map:
  "d' \<notin> set s \<Longrightarrow> split_at d' (map (\<lambda>c. if c = d then d' else c) s) = split_at d s"
  by (induct s) auto

lemma split_at_empty_tail: "[] \<in> set (tl (split_at d s)) \<Longrightarrow> suffix [d] s \<or> sublist [d, d] s"
proof (induct s)
  case (Cons c cs)
  obtain w ws where w: "split_at d cs = w # ws" by (cases "split_at d cs") (auto simp: split_at_nonempty)
  have later: "suffix [d] cs \<or> sublist [d, d] cs \<Longrightarrow> suffix [d] (c # cs) \<or> sublist [d, d] (c # cs)"
    by (auto simp: suffix_Cons sublist_Cons_right)
  show ?case
  proof (cases "c = d \<and> w = []")
    case True
    then show ?thesis using w by (cases cs) (auto simp: sublist_Cons_right suffix_def split: if_splits list.splits)
  next
    case False
    then have "[] \<in> set (tl (split_at d cs))" using Cons(2) w by (auto split: if_splits)
    then show ?thesis using Cons(1) later by blast
  qed
qed simp

lemma split_at_parts:
  assumes "key \<noteq> []" "\<not> prefix [d] key" "\<not> suffix [d] key" "\<not> sublist [d, d] key"
  shows "list_all (\<lambda>s. s \<noteq> [] \<and> d \<notin> set s) (split_at d key)"
proof -
  obtain c cs where key: "key = c # cs" "c \<noteq> d" using assms(1,2) by (cases key) auto
  obtain w ws where w: "split_at d key = (c # w) # ws"
    using key split_at_nonempty [of d cs] by (cases "split_at d cs") auto
  then have "[] \<notin> set (split_at d key)" using split_at_empty_tail [of d key] assms(3,4) by auto
  then show ?thesis using split_at_no_sep [of _ d key] by (auto simp: list_all_iff)
qed

lemma sublist_single: "sublist [c] s \<longleftrightarrow> c \<in> set s"
  by (induct s) (auto simp: sublist_Cons_right)

lemma keyToPath_confined:
  assumes "validateKey quote key = Inr u" "key \<noteq> []"
  shows "under_proc_sys (keyToPath key)"
proof -
  have no: "CHR ''/'' \<notin> set key" "\<not> sublist ''..'' key" "\<not> prefix ''.'' key" "\<not> suffix ''.'' key"
    using assms(1) by (auto simp: validateKey_def contains_text_def sublist_single)
  then show ?thesis
    using split_at_parts [of key "CHR ''.''"] assms(2) by (simp add: under_proc_sys_def keyToPath_def split_at_map)
qed

lemma snapshot_keys_nonempty: "snapshot_keys raw = Inr keys \<Longrightarrow> [] \<notin> set keys"
  by (auto simp: snapshot_keys_def defaultKeys_def Let_def split: if_splits)

lemma snapshot_value_cong:
  assumes "\<And>p. under_proc_sys p \<Longrightarrow> rd p = rd' p" "key \<noteq> []"
  shows "snapshot_value quote rd key = snapshot_value quote rd' key"
  using assms keyToPath_confined [of quote key] by (auto simp: snapshot_value_def readSysctl_def split: sum.split)

text \<open>C39: the kernel parameter tools of a diagnosis, whose keys the model chooses, read nothing but files below
  \<^verbatim>\<open>/proc/sys\<close>: two worlds that agree there give the same answers, and the path of every key they read has only
  components that are not empty and hold no dot, so no key climbs out of the directory.
\<close>

theorem sysctl_tools_confined:
  assumes "\<And>p. under_proc_sys p \<Longrightarrow> rd p = rd' p"
  shows "execSysctlGet quote os rd args = execSysctlGet quote os rd' args
    \<and> execSysctlSnapshot quote os rd args = execSysctlSnapshot quote os rd' args"
proof
  show "execSysctlGet quote os rd args = execSysctlGet quote os rd' args"
    using assms keyToPath_confined [of quote "trim_space (m_str args ''key'')"]
    by (cases "validateKey quote (trim_space (m_str args ''key''))") (auto simp: execSysctlGet_def Let_def refuse_def)
  show "execSysctlSnapshot quote os rd args = execSysctlSnapshot quote os rd' args"
  proof (cases "snapshot_keys (m_str args ''keys'')")
    case (Inr keys)
    have "map (\<lambda>key. (key, snapshot_value quote rd key)) keys = map (\<lambda>key. (key, snapshot_value quote rd' key)) keys"
      using snapshot_keys_nonempty [OF Inr] by (auto intro!: snapshot_value_cong assms)
    then show ?thesis by (simp only: execSysctlSnapshot_def Inr Let_def sbind.simps)
  qed (simp add: execSysctlSnapshot_def)
qed

definition two_files :: "string \<Rightarrow> string \<Rightarrow> file_read" where
  "two_files secret p = (if p = ''/proc/sys/vm/swappiness'' then FContent (''60'' @ [nl]) else FContent secret)"

theorem sysctl_tools_confined_witness:
  "execSysctlGet id ''linux'' (\<lambda>p. if under_proc_sys p then two_files ''a'' p else FContent ''secret'') [(''key'', ''vm.swappiness'')]
    = execSysctlGet id ''linux'' (two_files ''a'') [(''key'', ''vm.swappiness'')]
   \<and> execSysctlGet id ''linux'' (two_files ''a'') [(''key'', ''vm.swappiness'')] = Inr ''vm.swappiness = 60''
   \<and> isl (execSysctlGet id ''linux'' (two_files ''a'') [(''key'', ''../../etc/shadow'')])"
proof (intro conjI)
  show "execSysctlGet id ''linux'' (\<lambda>p. if under_proc_sys p then two_files ''a'' p else FContent ''secret'') [(''key'', ''vm.swappiness'')]
    = execSysctlGet id ''linux'' (two_files ''a'') [(''key'', ''vm.swappiness'')]"
    using sysctl_tools_confined [of "\<lambda>p. if under_proc_sys p then two_files ''a'' p else FContent ''secret''" "two_files ''a''"] by simp
  show "execSysctlGet id ''linux'' (two_files ''a'') [(''key'', ''vm.swappiness'')] = Inr ''vm.swappiness = 60''"
    by code_simp
  show "isl (execSysctlGet id ''linux'' (two_files ''a'') [(''key'', ''../../etc/shadow'')])"
    by code_simp
qed

section \<open>The mount table\<close>

text \<open>
  The text of \<^verbatim>\<open>/proc/mounts\<close>, as proc(5) and fstab(5) describe it: one line for each mounted file system, white space,
  the backslash and the number sign of a name written as octal escapes.
\<close>

record mounted =
  mt_device :: string
  mt_path :: string
  mt_fsType :: string
  mt_options :: "string list"

definition octal3 :: "char \<Rightarrow> string" where
  "octal3 c = (let n = byte c in [backslash, char_of (48 + n div 64), char_of (48 + n div 8 mod 8), char_of (48 + n mod 8)])"

definition mangle :: "string \<Rightarrow> string" where
  "mangle s = concat (map (\<lambda>c. if c \<in> {CHR '' '', CHR 0x09, nl, backslash, CHR ''#''} then octal3 c else [c]) s)"

definition mount_fields :: "mounted \<Rightarrow> string list" where
  "mount_fields m = [mangle (mt_device m), mangle (mt_path m), mt_fsType m, join '','' (mt_options m), ''0'', ''0'']"

definition mount_table :: "mounted list \<Rightarrow> string" where
  "mount_table ms = concat (map (\<lambda>m. join '' '' (mount_fields m) @ [nl]) ms)"

text \<open>Names in ASCII, without the control characters the kernel leaves as they are and \<^verbatim>\<open>strings.Fields\<close> splits at.\<close>

definition plain_name :: "string \<Rightarrow> bool" where
  "plain_name s \<longleftrightarrow> s \<noteq> [] \<and> list_all (\<lambda>c. byte c < 128 \<and> c \<notin> {CHR 0x0B, CHR 0x0C, CHR 0x0D}) s"

definition plain_word :: "string \<Rightarrow> bool" where
  "plain_word s \<longleftrightarrow> s \<noteq> [] \<and> list_all (\<lambda>c. byte c < 128 \<and> \<not> is_space c) s"

definition mounted_ok :: "mounted \<Rightarrow> bool" where
  "mounted_ok m \<longleftrightarrow>
     plain_name (mt_device m) \<and> plain_name (mt_path m) \<and> plain_word (mt_fsType m) \<and>
     mt_options m \<noteq> [] \<and> list_all (\<lambda>x. plain_word x \<and> CHR '','' \<notin> set x) (mt_options m)"

lemma octal_digit: "d < 8 \<Longrightarrow> octal_val (char_of (48 + d)) = Some d"
  by (simp add: octal_val_def digit_val_def of_char_char_of_small)

lemma parse_octal3: "n < 256 \<Longrightarrow> parse_octal 0 [char_of (48 + n div 64), char_of (48 + n div 8 mod 8), char_of (48 + n mod 8)] = Some n"
proof -
  assume n: "n < 256"
  have "n div 64 * 8 + n div 8 mod 8 = n div 8" using div_mult_mod_eq [of "n div 8" 8] div_mult2_eq [of n 8 8] by simp
  then have "(n div 64 * 8 + n div 8 mod 8) * 8 + n mod 8 = n" using div_mult_mod_eq [of n 8] by simp
  then show ?thesis using n by (simp add: octal_digit)
qed

lemma unescape_octal3: "unescape_loop (octal3 c @ r) = c # unescape_loop r"
proof -
  have "byte c < 256" by simp
  then show ?thesis using parse_octal3 [of "byte c"] by (simp add: octal3_def Let_def del: parse_octal.simps)
qed

lemma unescape_plain: "c \<noteq> backslash \<Longrightarrow> unescape_loop (c # r) = c # unescape_loop r"
  by (cases r rule: remdups_adj.cases; cases "tl (tl r)") auto

lemma unescape_mangle: "unescape_loop (mangle s) = s"
  by (induct s) (auto simp: mangle_def unescape_octal3 unescape_plain)

lemma mangle_no_backslash: "backslash \<notin> set (mangle s) \<Longrightarrow> mangle s = s"
  by (induct s) (auto simp: mangle_def octal3_def Let_def split: if_splits)

text \<open>Decoding gives the name the kernel wrote, whatever its bytes.\<close>

lemma unescapeOctal_mangle [simp]: "unescapeOctal (mangle s) = s"
  using unescape_mangle mangle_no_backslash by (simp add: unescapeOctal_def)

lemma Fields_word: "w \<noteq> [] \<Longrightarrow> list_all (\<lambda>c. \<not> is_space c) w \<Longrightarrow> Fields (w @ CHR '' '' # r) = w # Fields r"
proof (induct w)
  case (Cons c w)
  then show ?case by (cases w) (auto simp: is_space_def)
qed simp

lemma Fields_words: "list_all (\<lambda>w. w \<noteq> [] \<and> list_all (\<lambda>c. \<not> is_space c) w) ws \<Longrightarrow> Fields (join '' '' (ws @ [''0''])) = ws @ [''0'']"
proof (induct ws)
  case (Cons w ws)
  then show ?case using Fields_word [of w "join '' '' (ws @ [''0''])"] by (cases ws) auto
qed (simp add: is_space_def)

lemma trim_left_plain: "s \<noteq> [] \<Longrightarrow> \<not> p (hd s) \<Longrightarrow> trim_left p s = s"
  by (cases s) auto

lemma trim_space_plain: "s \<noteq> [] \<Longrightarrow> \<not> is_space (hd s) \<Longrightarrow> \<not> is_space (last s) \<Longrightarrow> trim_space s = s"
  by (simp add: trim_space_def trim_right_def trim_left_plain hd_rev)

lemma join_last: "last (join sep (ws @ [[c]])) = c \<and> join sep (ws @ [[c]]) \<noteq> []"
proof (induct ws)
  case (Cons w ws)
  then show ?case by (cases ws) auto
qed simp

lemma octal3_plain:
  assumes "c' \<in> set (octal3 c)"
  shows "\<not> is_space c' \<and> c' \<noteq> nl \<and> c' \<noteq> CHR ''#''"
proof -
  let ?n = "byte c"
  have "?n < 256" by simp
  then have "?n < 8 * 64" by linarith
  then have small: "?n div 64 < 8" "?n div 8 mod 8 < 8" "?n mod 8 < 8" by (simp_all add: less_mult_imp_div_less)
  have "c' \<in> {backslash, char_of (48 + ?n div 64), char_of (48 + ?n div 8 mod 8), char_of (48 + ?n mod 8)}"
    using assms by (simp add: octal3_def Let_def)
  then obtain d :: nat where "c' = backslash \<or> d < 8 \<and> c' = char_of (48 + d)"
    using small by blast
  then have "byte c' = 92 \<or> 48 \<le> byte c' \<and> byte c' < 56" by auto
  then show ?thesis by (auto simp: is_space_def nl_def)
qed

lemma mangle_plain:
  assumes "plain_name s"
  shows "mangle s \<noteq> []" "list_all (\<lambda>c. \<not> is_space c) (mangle s)" "nl \<notin> set (mangle s)" "hd (mangle s) \<noteq> CHR ''#''"
proof -
  have all: "\<forall>c \<in> set (mangle s). \<not> is_space c \<and> c \<noteq> nl \<and> c \<noteq> CHR ''#''"
    using assms octal3_plain by (auto simp: mangle_def plain_name_def list_all_iff is_space_def nl_def split: if_splits)
  show ne: "mangle s \<noteq> []" using assms by (cases s) (auto simp: mangle_def plain_name_def octal3_def Let_def)
  show "list_all (\<lambda>c. \<not> is_space c) (mangle s)" "nl \<notin> set (mangle s)" "hd (mangle s) \<noteq> CHR ''#''"
    using all hd_in_set [OF ne] by (auto simp: list_all_iff)
qed

lemma options_word: "os \<noteq> [] \<Longrightarrow> list_all plain_word os \<Longrightarrow> plain_word (join '','' os)"
proof (induct os)
  case (Cons x xs)
  then show ?case by (cases xs) (auto simp: plain_word_def is_space_def)
qed simp

text \<open>One line of the table, read back.\<close>

lemma mount_line_text:
  assumes "mounted_ok m"
  defines "line \<equiv> join '' '' (mount_fields m)"
  shows "Fields line = mount_fields m" "trim_space line = line" "line \<noteq> []" "hd line \<noteq> CHR ''#''" "nl \<notin> set line"
proof -
  have words: "plain_word (mt_fsType m)" "plain_word (join '','' (mt_options m))"
    using assms(1) options_word [of "mt_options m"] by (auto simp: mounted_ok_def list_all_iff)
  note dev = mangle_plain [of "mt_device m"] and path = mangle_plain [of "mt_path m"]
  have names: "plain_name (mt_device m)" "plain_name (mt_path m)" using assms(1) by (auto simp: mounted_ok_def)
  have split: "line = join '' '' (butlast (mount_fields m) @ [''0''])" by (simp add: line_def mount_fields_def)
  have parts: "list_all (\<lambda>w. w \<noteq> [] \<and> list_all (\<lambda>c. \<not> is_space c) w) (butlast (mount_fields m))"
    using words dev(1,2) path(1,2) names by (auto simp: mount_fields_def plain_word_def list_all_iff is_space_def)
  show "Fields line = mount_fields m" using Fields_words [OF parts] split by (simp add: mount_fields_def)
  obtain c r where c: "mangle (mt_device m) = c # r" "\<not> is_space c" "c \<noteq> CHR ''#''"
    using dev [OF names(1)] by (cases "mangle (mt_device m)") auto
  show ne: "line \<noteq> []" and "hd line \<noteq> CHR ''#''" using c by (auto simp: line_def mount_fields_def)
  show "trim_space line = line"
    using ne c join_last [of "'' ''" "butlast (mount_fields m)" "CHR ''0''"] split
    by (intro trim_space_plain) (auto simp: line_def mount_fields_def is_space_def)
  have "\<forall>w \<in> set (mount_fields m). nl \<notin> set w"
    using dev(3) path(3) names words by (auto simp: mount_fields_def plain_word_def list_all_iff is_space_def nl_def)
  then show "nl \<notin> set line" by (auto simp: line_def mount_fields_def nl_def)
qed

lemma entry_fields_table: "list_all mounted_ok ms \<Longrightarrow> entry_fields (mount_table ms) = map mount_fields ms"
proof (induct ms)
  case Nil
  then show ?case by (simp add: entry_fields_def mount_table_def trim_space_def trim_right_def)
next
  case (Cons m ms)
  note line = mount_line_text [of m]
  have "entry_fields (mount_table (m # ms)) = mount_fields m # entry_fields (mount_table ms)"
    using Cons(2) line split_at_first [of nl "join '' '' (mount_fields m)" "mount_table ms"]
    by (simp add: entry_fields_def mount_table_def) (simp add: mount_fields_def)
  then show ?case using Cons by simp
qed

definition entry_of :: "mounted \<Rightarrow> mountEntry" where
  "entry_of m = \<lparr>me_device = mangle (mt_device m), me_fsType = mt_fsType m,
     me_options = foldl (\<lambda>s x. m_set x True s) [] (mt_options m), me_rawOptions = join '','' (mt_options m)\<rparr>"

lemma mount_line_entry: "mounted_ok m \<Longrightarrow> mount_line mm (mount_fields m) = m_set (mt_path m) (entry_of m) mm"
  using split_at_join [of "mt_options m" "CHR '',''"]
  by (auto simp: mount_line_def mount_fields_def entry_of_def mounted_ok_def list_all_iff)

lemma foldl_set_true: "map_of (foldl (\<lambda>s x. m_set x True s) acc xs) k = (if k \<in> set xs then Some True else map_of acc k)"
  by (induct xs arbitrary: acc) (auto simp: m_set_get)

lemma has_option_entry [simp]: "has_option (entry_of m) x \<longleftrightarrow> x \<in> set (mt_options m)"
  by (simp add: has_option_def entry_of_def foldl_set_true)

lemma fsType_entry [simp]: "me_fsType (entry_of m) = mt_fsType m"
  by (simp add: entry_of_def)

text \<open>The last line of a mount point is the one in force.\<close>

definition in_force :: "mounted list \<Rightarrow> string \<Rightarrow> mounted option" where
  "in_force ms p = find (\<lambda>m. mt_path m = p) (rev ms)"

lemma foldl_mount_lines:
  "list_all mounted_ok ms \<Longrightarrow>
   map_of (foldl mount_line acc (map mount_fields ms)) p = (case in_force ms p of Some m \<Rightarrow> Some (entry_of m) | None \<Rightarrow> map_of acc p)"
proof (induct ms rule: rev_induct)
  case (snoc m ms)
  then show ?case by (auto simp: mount_line_entry m_set_get in_force_def split: option.split)
qed (simp add: in_force_def)

lemma parse_mount_table:
  "list_all mounted_ok ms \<Longrightarrow> map_of (parseMountLines (mount_table ms)) p = map_option entry_of (in_force ms p)"
  by (auto simp: parseMountLines_def entry_fields_table foldl_mount_lines split: option.split)

section \<open>What an accepted configuration guarantees\<close>

lemma trim_right_slash: "trim_right (\<lambda>c. c = CHR ''/'') (CHR ''/'' # s) = [] \<or> prefix ''/'' (trim_right (\<lambda>c. c = CHR ''/'') (CHR ''/'' # s))"
proof -
  have "trim_left p (xs @ [c]) = [] \<or> suffix [c] (trim_left p (xs @ [c]))" for p xs and c :: char
    by (induct xs) (auto simp: suffix_def)
  then show ?thesis by (force simp: trim_right_def suffix_to_prefix)
qed

lemma mount_spec_ready:
  assumes "mount_spec_init quote seen i m = Inr m'"
  shows "mo_Path m' \<notin> set seen" "isAlertSeverity (mo_Severity m')" "mo_Path m' = [] \<or> prefix ''/'' (mo_Path m')"
proof -
  let ?p = "trim_space (mo_Path m)"
  let ?p' = "if length ?p > 1 then trim_right (\<lambda>c. c = CHR ''/'') ?p else ?p"
  obtain sev where m': "prefix ''/'' ?p" "?p' \<notin> set seen" "mo_Path m' = ?p'"
    "normalizeSeverity quote EventStatusWarning (mo_Severity m) = Inr sev" "mo_Severity m' = sev"
    using assms by (auto simp: mount_spec_init_def Let_def case_sum_Inr_iff simp del: One_nat_def)
  show "mo_Path m' \<notin> set seen" "isAlertSeverity (mo_Severity m')" using m' normalizeSeverity_ok by auto
  obtain r where "?p = CHR ''/'' # r" using m'(1) by (auto simp: prefix_def)
  then show "mo_Path m' = [] \<or> prefix ''/'' (mo_Path m')" using m'(3) trim_right_slash [of r] by auto
qed

lemma mount_specs_ready:
  "mount_specs_init quote seen i ms = Inr ms' \<Longrightarrow>
   distinct (map mo_Path ms') \<and> set (map mo_Path ms') \<inter> set seen = {}
   \<and> list_all (\<lambda>m. isAlertSeverity (mo_Severity m) \<and> (mo_Path m = [] \<or> prefix ''/'' (mo_Path m))) ms'"
proof (induct ms arbitrary: seen i ms')
  case (Cons m ms)
  then obtain m' rest where m: "mount_spec_init quote seen i m = Inr m'" "mount_specs_init quote (mo_Path m' # seen) (i + 1) ms = Inr rest" "ms' = m' # rest"
    by (auto simp: map_sum_Inr_iff)
  show ?case using Cons(1) [OF m(2)] mount_spec_ready [OF m(1)] m(3) by auto
qed simp

lemma mount_init_ready:
  "mount_Init quote os cfg = Inr ins \<Longrightarrow>
   distinct (map mo_Path (mo_Mounts ins)) \<and> list_all (\<lambda>m. isAlertSeverity (mo_Severity m) \<and> (mo_Path m = [] \<or> prefix ''/'' (mo_Path m))) (mo_Mounts ins)"
  using mount_specs_ready by (fastforce simp: mount_Init_def)

section \<open>Alerts on mounts\<close>

lemma fstab_specs_other: "p \<in> set (map mo_Path (mo_Mounts ins)) \<Longrightarrow> p \<notin> mo_Path ` set (fstab_specs ins content)"
  by (force simp: fstab_specs_def fstab_skipped_def)

lemma fstab_keeps:
  assumes "p \<in> set (map mo_Path (mo_Mounts ins))" "p \<noteq> ''fstab''"
  shows "owed ''mount::compliance'' p (q @ checkFstabMounts ins r mm) = owed ''mount::compliance'' p q"
  using assms mounts.other_items [OF fstab_specs_other, OF assms(1)]
  by (auto simp: checkFstabMounts_def owed_push compliance_event_def split: file_read.split)

text \<open>What is asked of one mount point, and the table that satisfies it.\<close>

definition satisfied_by :: "mounted list \<Rightarrow> MountSpec \<Rightarrow> bool" where
  "satisfied_by ms spec \<longleftrightarrow>
     (case in_force ms (mo_Path spec) of
        None \<Rightarrow> False
      | Some m \<Rightarrow> (mo_FSType spec = [] \<or> mt_fsType m = mo_FSType spec) \<and> set (mo_Options spec) \<subseteq> set (mt_options m))"

lemma complies_table: "list_all mounted_ok ms \<Longrightarrow> complies (parseMountLines (mount_table ms)) spec \<longleftrightarrow> satisfied_by ms spec"
  by (auto simp: complies_def satisfied_by_def parse_mount_table list_all_iff split: option.split)

text \<open>C38: with a configuration the plugin accepts, and whatever was reported before, a gather leaves the alert of a
  configured mount point open exactly when the file system mounted there last is missing, has another type or lacks an
  option, whatever names with blanks and escapes the mount table holds and whatever \<^verbatim>\<open>/etc/fstab\<close> says.
\<close>

theorem mount_alert_exact:
  assumes "mount_Init quote os cfg = Inr ins" "spec \<in> set (mo_Mounts ins)"
    "list_all mounted_ok ms" "rd ''/proc/mounts'' = FContent (mount_table ms)"
  shows "owed ''mount::compliance'' (mo_Path spec) (q @ mount_Gather rd ins) \<longleftrightarrow> \<not> satisfied_by ms spec"
proof -
  have ready: "distinct (map mo_Path (mo_Mounts ins))" "isAlertSeverity (mo_Severity spec)" "mo_Path spec \<noteq> ''fstab''"
    using mount_init_ready [OF assms(1)] assms(2) by (auto simp: list_all_iff)
  let ?mm = "parseMountLines (mount_table ms)"
  have settled: "owed ''mount::compliance'' (mo_Path spec) (q @ concat (map (checkMount ?mm) (mo_Mounts ins))) \<longleftrightarrow> \<not> complies ?mm spec"
    using mounts.settled [OF ready(1) assms(2), of q ?mm] alert_severity_not_ok [OF ready(2)] by auto
  have "owed ''mount::compliance'' (mo_Path spec) (q @ mount_Gather rd ins)
        = owed ''mount::compliance'' (mo_Path spec) (q @ concat (map (checkMount ?mm) (mo_Mounts ins)))"
    using fstab_keeps [of "mo_Path spec" ins "q @ concat (map (checkMount ?mm) (mo_Mounts ins))"] assms(2,4) ready(3)
    by (simp add: mount_Gather_def Let_def)
  then show ?thesis using settled complies_table [OF assms(3)] by simp
qed

definition data_disk :: mounted where
  "data_disk = \<lparr>mt_device = ''/dev/sdb1'', mt_path = ''/mnt/my data'', mt_fsType = ''xfs'', mt_options = [''rw'', ''noexec'']\<rparr>"

definition data_spec :: MountSpec where
  "data_spec = \<lparr>mo_Path = ''/mnt/my data/'', mo_FSType = ''XFS'', mo_Options = [''noexec'', '' nosuid''], mo_Severity = []\<rparr>"

definition mount_sample :: mount_Instance where
  "mount_sample = \<lparr>mo_Mounts = [data_spec], mo_Fstab = \<lparr>fc_Enabled = False, fc_Severity = [], fc_ExcludeFSTypes = [], fc_ExcludePaths = []\<rparr>\<rparr>"

definition checked_spec :: MountSpec where
  "checked_spec = \<lparr>mo_Path = ''/mnt/my data'', mo_FSType = ''xfs'', mo_Options = [''noexec'', ''nosuid''], mo_Severity = EventStatusWarning\<rparr>"

lemma mount_sample_init: "mount_Init id ''linux'' mount_sample = Inr (mount_sample\<lparr>mo_Mounts := [checked_spec]\<rparr>)"
  by code_simp

theorem mount_alert_exact_witness:
  "owed ''mount::compliance'' ''/mnt/my data''
     (mount_Gather (\<lambda>_. FContent (mount_table [data_disk])) (mount_sample\<lparr>mo_Mounts := [checked_spec]\<rparr>))
   \<and> \<not> owed ''mount::compliance'' ''/mnt/my data''
     (mount_Gather (\<lambda>_. FContent (mount_table [data_disk, data_disk\<lparr>mt_options := [''ro'', ''nosuid'', ''noexec'']\<rparr>])) (mount_sample\<lparr>mo_Mounts := [checked_spec]\<rparr>))"
proof -
  have spec: "checked_spec \<in> set (mo_Mounts (mount_sample\<lparr>mo_Mounts := [checked_spec]\<rparr>))" by simp
  have tables: "list_all mounted_ok [data_disk]" "list_all mounted_ok [data_disk, data_disk\<lparr>mt_options := [''ro'', ''nosuid'', ''noexec'']\<rparr>]"
    by code_simp+
  have sats: "\<not> satisfied_by [data_disk] checked_spec"
    "satisfied_by [data_disk, data_disk\<lparr>mt_options := [''ro'', ''nosuid'', ''noexec'']\<rparr>] checked_spec"
    by code_simp+
  show ?thesis
    using mount_alert_exact [OF mount_sample_init spec tables(1), of "\<lambda>_. FContent (mount_table [data_disk])" "[]"]
      mount_alert_exact [OF mount_sample_init spec tables(2),
        of "\<lambda>_. FContent (mount_table [data_disk, data_disk\<lparr>mt_options := [''ro'', ''nosuid'', ''noexec'']\<rparr>])" "[]"] sats
    by (simp add: checked_spec_def)
qed

text \<open>
  An unreadable \<^verbatim>\<open>/proc/mounts\<close> raises an alert on the target \<^verbatim>\<open>mounts\<close>, and no later gather of a configuration without
  \<^verbatim>\<open>fstab\<close> says anything of that target: the alert stays open.
\<close>

theorem mounts_failure_never_clears:
  assumes "mount_Init quote os cfg = Inr ins" "\<not> fc_Enabled (mo_Fstab ins)" "owed ''mount::compliance'' ''mounts'' q"
  shows "owed ''mount::compliance'' ''mounts'' (q @ mount_Gather rd ins)"
proof -
  have "''mounts'' \<notin> mo_Path ` set (mo_Mounts ins)"
  proof
    assume "''mounts'' \<in> mo_Path ` set (mo_Mounts ins)"
    then obtain m where m: "''mounts'' = mo_Path m" "m \<in> set (mo_Mounts ins)" by (rule imageE)
    then have "mo_Path m = [] \<or> prefix ''/'' (mo_Path m)" using mount_init_ready [OF assms(1)] by (simp add: list_all_iff)
    then show False unfolding m(1) [symmetric] by simp
  qed
  then show ?thesis
    using mounts.other_items assms(2,3) by (auto simp: mount_Gather_def owed_push compliance_event_def Let_def split: file_read.split)
qed

text \<open>A path of slashes only is accepted and becomes the empty path, at which nothing is ever mounted.\<close>

theorem slashes_accepted:
  "mount_spec_init quote [] 0 \<lparr>mo_Path = ''//'', mo_FSType = [], mo_Options = [], mo_Severity = []\<rparr>
   = Inr \<lparr>mo_Path = [], mo_FSType = [], mo_Options = [], mo_Severity = EventStatusWarning\<rparr>"
  by (simp add: mount_spec_init_def Let_def trim_space_def trim_right_def is_space_def normalizeSeverity_def severity_default_def isAlertSeverity_def)

section \<open>Alerts on parameters, modules, units and links\<close>

lemma param_ready: "param_init quote lib i p = Inr p' \<Longrightarrow> isAlertSeverity (pm_Severity p')"
  by (auto simp: param_init_def Let_def)

text \<open>
  Two parameters on one key, as a range needs them, share the alert: the second, when it holds, closes the alert of the
  first in the same gather.
\<close>

theorem range_half_unwatched:
  assumes "pm_Key p = pm_Key p'" "param_verdict quote lib rd p' = EventStatusOk"
  shows "\<not> owed ''sysctl::param_check'' (pm_Key p) (q @ sysctl_Gather quote lib rd [p, p'])"
  using params.last_item [of p' "[]" q quote lib rd "[p]"] assms by (simp add: sysctl_Gather_def)

lemma range_accepted:
  "sysctl_Init quote lib ''linux'' [\<lparr>pm_Key = ''vm.a'', pm_Op = ''eq'', pm_Value = ''1'', pm_Severity = []\<rparr>, \<lparr>pm_Key = ''vm.a'', pm_Op = ''ne'', pm_Value = ''2'', pm_Severity = []\<rparr>]
   = Inr [\<lparr>pm_Key = ''vm.a'', pm_Op = ''eq'', pm_Value = ''1'', pm_Severity = EventStatusWarning\<rparr>, \<lparr>pm_Key = ''vm.a'', pm_Op = ''ne'', pm_Value = ''2'', pm_Severity = EventStatusWarning\<rparr>]"
  by code_simp

text \<open>however the goroutines of the units interleave, a gather leaves the alert of a unit open exactly when
  its goroutine panicked, the query failed, the unit is missing or masked, or it is not in the expected state.
\<close>

theorem unit_alert_exact:
  assumes "sd_Severity ins \<noteq> EventStatusOk" "distinct (map snd wts)" "((run, None), u) \<in> set wts" "es \<in> gathers (unit_goroutine ins) wts"
  shows "owed ''systemd::state'' u (q @ es) \<longleftrightarrow>
    \<not> (\<exists>props. queryUnit ins run (normalizeUnitName u) = Inr props \<and> m_str props ''LoadState'' \<notin> {''not-found'', ''masked''}
        \<and> m_str props ''ActiveState'' = sd_ExpectedActiveState ins)"
proof -
  have "EventStatus (hd (unit_goroutine ins (run, None) u)) = unit_verdict ins (queryUnit ins run (normalizeUnitName u))"
    using gatherUnit_reports [of u ins run] by (auto simp: unit_goroutine_def reports_def)
  then show ?thesis
    using units.alert_exact [OF assms(2-4), of q] assms(1)
    by (auto simp: unit_verdict_def status_defs split: sum.split)
qed

end
