(* ===== verification/Processes.thy ===== *)
theory Processes
  imports Host_Policy
begin

text \<open>
  The plugins that watch network interfaces (\<^verbatim>\<open>plugins/netif\<close>) and processes (\<^verbatim>\<open>plugins/procnum\<close>, \<^verbatim>\<open>plugins/procfd\<close>, with
  \<^verbatim>\<open>digcore/pkg/procutil\<close>). What the kernel and the process library answer are arguments. A counter of an interface is an unsigned
  64-bit number: sums wrap around.
\<close>

section \<open>Interfaces\<close>

record ifCounters =
  rxErrors :: nat
  txErrors :: nat
  rxDropped :: nat
  txDropped :: nat

record netif_Instance =
  nf_Include :: "string list"
  nf_Exclude :: "string list"
  nf_Errors :: threshold
  nf_Drops :: threshold
  nf_LinkUp :: "LinkSpec list"
  nf_hasErrorCheck :: bool
  nf_hasDropCheck :: bool
  nf_prevCounters :: "(string, ifCounters) gomap"
  nf_initialized :: bool

definition delta_on :: "threshold \<Rightarrow> bool" where
  "delta_on dc \<longleftrightarrow> th_WarnGe dc > 0 \<or> th_CriticalGe dc > 0"

definition validateDeltaCheck :: "string \<Rightarrow> threshold \<Rightarrow> string + unit" where
  "validateDeltaCheck name dc =
     sbind (refuse (th_WarnGe dc < 0) (name @ ''.warn_ge must be >= 0 (got '' @ fmt_fixed 1 (th_WarnGe dc) @ '')'')) (\<lambda>_.
     sbind (refuse (th_CriticalGe dc < 0) (name @ ''.critical_ge must be >= 0 (got '' @ fmt_fixed 1 (th_CriticalGe dc) @ '')'')) (\<lambda>_.
     th_order (fmt_fixed 1) name dc))"

text \<open>\<^verbatim>\<open>filepath.Match\<close>: no answer stands for a malformed pattern.\<close>

type_synonym path_match = "string \<Rightarrow> string \<Rightarrow> bool option"

fun globs_ok :: "(string \<Rightarrow> string) \<Rightarrow> path_match \<Rightarrow> string \<Rightarrow> string list \<Rightarrow> string + unit" where
  "globs_ok quote matches kind [] = Inr ()"
| "globs_ok quote matches kind (pat # pats) =
     (if matches pat ''test'' = None then Inl (''invalid '' @ kind @ '' glob pattern '' @ quote pat @ '': syntax error in pattern'')
      else globs_ok quote matches kind pats)"

definition netif_Init :: "(string \<Rightarrow> string) \<Rightarrow> path_match \<Rightarrow> string \<Rightarrow> netif_Instance \<Rightarrow> string + netif_Instance" where
  "netif_Init quote matches os ins =
     sbind (linux_only ''netif'' os) (\<lambda>_.
     sbind (refuse (\<not> delta_on (nf_Errors ins) \<and> \<not> delta_on (nf_Drops ins) \<and> nf_LinkUp ins = []) ''at least one check must be configured (errors, drops, or link_up)'') (\<lambda>_.
     sbind (validateDeltaCheck ''errors'' (nf_Errors ins)) (\<lambda>_.
     sbind (validateDeltaCheck ''drops'' (nf_Drops ins)) (\<lambda>_.
     sbind (links_init quote [] 0 (nf_LinkUp ins)) (\<lambda>links.
     sbind (globs_ok quote matches ''include'' (nf_Include ins)) (\<lambda>_.
     sbind (globs_ok quote matches ''exclude'' (nf_Exclude ins)) (\<lambda>_.
     Inr (ins\<lparr>nf_hasErrorCheck := delta_on (nf_Errors ins), nf_hasDropCheck := delta_on (nf_Drops ins), nf_LinkUp := links, nf_prevCounters := []\<rparr>))))))))"

definition matchAny :: "path_match \<Rightarrow> string \<Rightarrow> string list \<Rightarrow> bool" where
  "matchAny matches name patterns = list_ex (\<lambda>pat. matches pat name = Some True) patterns"

definition applyFilter :: "path_match \<Rightarrow> string list \<Rightarrow> string list \<Rightarrow> string list \<Rightarrow> string list" where
  "applyFilter matches ifaces include exclude =
     filter (\<lambda>iface. (include = [] \<or> matchAny matches iface include) \<and> \<not> matchAny matches iface exclude) ifaces"

text \<open>The files of an interface, named from the directory of the interfaces.\<close>

definition readUint64File :: "(string \<Rightarrow> string) \<Rightarrow> file_read \<Rightarrow> string + nat option" where
  "readUint64File quote r =
     (case r of
        FMissing _ \<Rightarrow> Inr None
      | FError e \<Rightarrow> Inl e
      | FContent content \<Rightarrow>
          case ParseUint (trim_space content) of
            Inl e \<Rightarrow> Inl (num_text quote ''ParseUint'' (trim_space content) e)
          | Inr n \<Rightarrow> Inr (Some n))"

fun read_stats :: "(string \<Rightarrow> string) \<Rightarrow> (string \<Rightarrow> file_read) \<Rightarrow> string list \<Rightarrow> string + nat list option" where
  "read_stats quote rd [] = Inr (Some [])"
| "read_stats quote rd (f # fs) =
     sbind (readUint64File quote (rd f)) (\<lambda>r.
     case r of None \<Rightarrow> Inr None | Some n \<Rightarrow> map_sum id (map_option (Cons n)) (read_stats quote rd fs))"

definition readCounters :: "(string \<Rightarrow> string) \<Rightarrow> (string \<Rightarrow> file_read) \<Rightarrow> string \<Rightarrow> string + ifCounters option" where
  "readCounters quote rd iface =
     map_sum id (map_option (\<lambda>ns. \<lparr>rxErrors = ns ! 0, txErrors = ns ! 1, rxDropped = ns ! 2, txDropped = ns ! 3\<rparr>))
       (read_stats quote rd (map (\<lambda>f. iface @ ''/statistics/'' @ f) [''rx_errors'', ''tx_errors'', ''rx_dropped'', ''tx_dropped'']))"

definition safeDelta :: "nat \<Rightarrow> nat \<Rightarrow> nat" where
  "safeDelta current prev = (if current \<ge> prev then current - prev else 0)"

definition u64 :: "nat \<Rightarrow> nat" where "u64 n = n mod 2 ^ 64"

definition emitDeltaEvent :: "string \<Rightarrow> string \<Rightarrow> string \<Rightarrow> threshold \<Rightarrow> nat \<times> nat \<times> nat \<times> nat \<Rightarrow> Event" where
  "emitDeltaEvent check kind iface dc r =
     (let (currRx, prevRx, currTx, prevTx) = r;
          rxDelta = safeDelta currRx prevRx; txDelta = safeDelta currTx prevTx; delta = u64 (rxDelta + txDelta); total = u64 (currRx + currTx);
          event = SetCurrentValue (show_nat delta)
            (SetAttrs [(''delta'', show_nat delta), (''rx'', show_nat rxDelta), (''tx'', show_nat txDelta), (''total'', show_nat total)] (check_event check iface));
          grown = (\<lambda>level limit. iface @ '' has '' @ show_nat delta @ '' new '' @ kind @ '' since last check (rx: '' @ show_nat rxDelta @ '', tx: '' @
            show_nat txDelta @ '', total: '' @ show_nat total @ ''), above '' @ level @ '' threshold '' @ fmt_fixed 0 limit) in
      rated dc (real (float64_of_nat delta)) (grown ''critical'' (th_CriticalGe dc)) (grown ''warning'' (th_WarnGe dc))
        (iface @ '' no new '' @ kind @ '' (total: '' @ show_nat total @ '')'')
        (with_parts (th_parts (fmt_fixed 0) dc) event))"

record netif_world =
  nw_ifaces :: "string + string list"
  nw_files :: "string \<Rightarrow> file_read"

definition current_counters :: "(string \<Rightarrow> string) \<Rightarrow> path_match \<Rightarrow> netif_Instance \<Rightarrow> netif_world \<Rightarrow> string list \<Rightarrow> (string, ifCounters) gomap" where
  "current_counters quote matches ins w allIfaces =
     foldl (\<lambda>m iface. case readCounters quote (nw_files w) iface of Inr (Some c) \<Rightarrow> m_set iface c m | _ \<Rightarrow> m) []
       (applyFilter matches allIfaces (nf_Include ins) (nf_Exclude ins))"

definition iface_events :: "netif_Instance \<Rightarrow> string \<times> ifCounters \<Rightarrow> Event list" where
  "iface_events ins ic =
     (let (iface, curr) = ic in
      case map_of (nf_prevCounters ins) iface of
        None \<Rightarrow> []
      | Some prev \<Rightarrow>
          (if nf_hasErrorCheck ins
           then [emitDeltaEvent ''netif::errors'' ''errors'' iface (nf_Errors ins) (rxErrors curr, rxErrors prev, txErrors curr, txErrors prev)] else []) @
          (if nf_hasDropCheck ins
           then [emitDeltaEvent ''netif::drops'' ''drops'' iface (nf_Drops ins) (rxDropped curr, rxDropped prev, txDropped curr, txDropped prev)] else []))"

definition gatherErrorsAndDrops :: "(string \<Rightarrow> string) \<Rightarrow> path_match \<Rightarrow> netif_world \<Rightarrow> netif_Instance \<Rightarrow> netif_Instance \<times> Event list" where
  "gatherErrorsAndDrops quote matches w ins =
     (case nw_ifaces w of
        Inl _ \<Rightarrow> (ins, [])
      | Inr allIfaces \<Rightarrow>
          let currentCounters = current_counters quote matches ins w allIfaces in
          if \<not> nf_initialized ins then (ins\<lparr>nf_prevCounters := currentCounters, nf_initialized := True\<rparr>, [])
          else (ins\<lparr>nf_prevCounters := currentCounters\<rparr>, concat (map (iface_events ins) currentCounters)))"

definition netif_Gather :: "(string \<Rightarrow> string) \<Rightarrow> path_match \<Rightarrow> netif_world \<Rightarrow> netif_Instance \<Rightarrow> netif_Instance \<times> Event list" where
  "netif_Gather quote matches w ins =
     (let (ins', es) = (if nf_hasErrorCheck ins \<or> nf_hasDropCheck ins then gatherErrorsAndDrops quote matches w ins else (ins, [])) in
      (ins', es @ concat (map (gatherLink (nw_files w)) (nf_LinkUp ins))))"

section \<open>Finding processes\<close>

record os_error =
  oe_notExist :: bool
  oe_noProcess :: bool
  oe_text :: string

definition IsProcessGone :: "os_error \<Rightarrow> bool" where
  "IsProcessGone e \<longleftrightarrow> oe_notExist e \<or> oe_noProcess e"

text \<open>What the process library and \<^verbatim>\<open>/proc\<close> answer.\<close>

record proc_world =
  pw_pids :: "string + int list"
  pw_exe :: "int \<Rightarrow> string + string"
  pw_cmdline :: "int \<Rightarrow> string + string"
  pw_username :: "int \<Rightarrow> string + string"
  pw_exists :: "int \<Rightarrow> string + bool"
  pw_file :: "string \<Rightarrow> string + string"
  pw_limits :: "int \<Rightarrow> os_error + string"
  pw_fds :: "int \<Rightarrow> os_error + nat"
  pw_panic :: "int \<Rightarrow> string option"

text \<open>\<^verbatim>\<open>filepath.Base\<close> where the separator is a slash.\<close>

definition filepath_Base :: "string \<Rightarrow> string" where
  "filepath_Base path =
     (if path = [] then ''.''
      else
        let s = trim_right (\<lambda>c. c = CHR ''/'') path;
            s = (case last_index_byte (CHR ''/'') s of Some i \<Rightarrow> drop (i + 1) s | None \<Rightarrow> s)
        in if s = [] then ''/'' else s)"

definition ProcessExecName :: "proc_world \<Rightarrow> int \<Rightarrow> string + string" where
  "ProcessExecName w pid = map_sum id filepath_Base (pw_exe w pid)"

definition CountAllProcesses :: "proc_world \<Rightarrow> string + nat" where
  "CountAllProcesses w = map_sum id length (pw_pids w)"

text \<open>\<^verbatim>\<open>strconv.ParseInt(s, 10, 32)\<close>.\<close>

fun uint32_loop :: "nat \<Rightarrow> string \<Rightarrow> num_error + nat" where
  "uint32_loop n [] = Inr n"
| "uint32_loop n (c # cs) =
     (case digit_val c of
        None \<Rightarrow> Inl ErrSyntax
      | Some d \<Rightarrow> if n * 10 + d \<ge> 2 ^ 32 then Inl ErrRange else uint32_loop (n * 10 + d) cs)"

definition ParseInt32 :: "string \<Rightarrow> num_error + int" where
  "ParseInt32 s =
     (if s = [] then Inl ErrSyntax
      else
        let (neg, ds) = split_sign s in
        case (if ds = [] then Inl ErrSyntax else uint32_loop 0 ds) of
          Inl e \<Rightarrow> Inl e
        | Inr un \<Rightarrow>
            if \<not> neg \<and> un \<ge> 2 ^ 31 then Inl ErrRange
            else if neg \<and> un > 2 ^ 31 then Inl ErrRange
            else Inr (if neg then - int un else int un))"

definition ReadPidFile :: "(string \<Rightarrow> string) \<Rightarrow> proc_world \<Rightarrow> string \<Rightarrow> string + int list" where
  "ReadPidFile quote w path =
     (case pw_file w path of
        Inl e \<Rightarrow> Inl (''failed to read pidfile '' @ squoted path @ '': '' @ e)
      | Inr content \<Rightarrow>
          case ParseInt32 (trim_space content) of
            Inl e \<Rightarrow> Inl (''invalid pid in '' @ squoted path @ '': '' @ num_text quote ''ParseInt'' (trim_space content) e)
          | Inr pid \<Rightarrow> if pid \<le> 0 then Inl (''invalid pid '' @ show_int pid @ '' in '' @ squoted path @ '': must be positive'') else Inr [pid])"

record proc_search =
  ps_ExecName :: string
  ps_Cmdline :: string
  ps_User :: string
  ps_PidFile :: string

definition trimmed_search :: "'a proc_search_scheme \<Rightarrow> 'a proc_search_scheme" where
  "trimmed_search s =
     s\<lparr>ps_ExecName := trim_space (ps_ExecName s), ps_Cmdline := trim_space (ps_Cmdline s), ps_User := trim_space (ps_User s), ps_PidFile := trim_space (ps_PidFile s)\<rparr>"

definition has_filter :: "'a proc_search_scheme \<Rightarrow> bool" where
  "has_filter s \<longleftrightarrow> ps_ExecName s \<noteq> [] \<or> ps_Cmdline s \<noteq> [] \<or> ps_User s \<noteq> []"

definition label_parts :: "'a proc_search_scheme \<Rightarrow> string list" where
  "label_parts s =
     (if ps_ExecName s \<noteq> [] then [ps_ExecName s] else []) @ (if ps_Cmdline s \<noteq> [] then [ps_Cmdline s] else []) @
     (if ps_User s \<noteq> [] then [''user:'' @ ps_User s] else [])"

definition matchProcess :: "'a proc_search_scheme \<Rightarrow> proc_world \<Rightarrow> int \<Rightarrow> bool" where
  "matchProcess s w pid \<longleftrightarrow>
     (if ps_ExecName s \<noteq> [] then case ProcessExecName w pid of Inl _ \<Rightarrow> False | Inr name \<Rightarrow> contains_text name (ps_ExecName s) else True) \<and>
     (if ps_Cmdline s \<noteq> [] then case pw_cmdline w pid of Inl _ \<Rightarrow> False | Inr cmd \<Rightarrow> contains_text cmd (ps_Cmdline s) else True) \<and>
     (if ps_User s \<noteq> [] then case pw_username w pid of Inl _ \<Rightarrow> False | Inr user \<Rightarrow> user = ps_User s else True)"

definition findProcesses :: "'a proc_search_scheme \<Rightarrow> proc_world \<Rightarrow> string + int list" where
  "findProcesses s w = map_sum id (filter (matchProcess s w)) (pw_pids w)"

definition findByPidFile :: "(string \<Rightarrow> string) \<Rightarrow> 'a proc_search_scheme \<Rightarrow> proc_world \<Rightarrow> string + int list" where
  "findByPidFile quote s w = map_sum id (filter (\<lambda>pid. pw_exists w pid = Inr True)) (ReadPidFile quote w (ps_PidFile s))"

section \<open>Counting processes\<close>

datatype searchMode = searchModeProcess | searchModePidFile

record ProcessCountCheck =
  pc_WarnLt :: "int option"
  pc_CriticalLt :: "int option"
  pc_WarnGt :: "int option"
  pc_CriticalGt :: "int option"

record procnum_Instance = proc_search +
  pq_mode :: searchMode
  pq_searchLabel :: string
  pq_ProcessCount :: ProcessCountCheck

definition procnum_label :: "'a proc_search_scheme \<Rightarrow> string" where
  "procnum_label s =
     (if ps_PidFile s \<noteq> [] then ps_PidFile s
      else if label_parts s = [] then ''all''
      else join '' && '' (label_parts s))"

definition not_negative :: "string \<Rightarrow> int option \<Rightarrow> string + unit" where
  "not_negative name v =
     (case v of Some n \<Rightarrow> refuse (n < 0) (''process_count.'' @ name @ '' must be non-negative (got '' @ show_int n @ '')'') | None \<Rightarrow> Inr ())"

definition validate_counts :: "ProcessCountCheck \<Rightarrow> string + unit" where
  "validate_counts pc =
     sbind (refuse (pc_WarnLt pc = None \<and> pc_CriticalLt pc = None \<and> pc_WarnGt pc = None \<and> pc_CriticalGt pc = None)
       ''at least one process_count threshold must be configured'') (\<lambda>_.
     sbind (not_negative ''warn_lt'' (pc_WarnLt pc)) (\<lambda>_.
     sbind (not_negative ''critical_lt'' (pc_CriticalLt pc)) (\<lambda>_.
     sbind (not_negative ''warn_gt'' (pc_WarnGt pc)) (\<lambda>_.
     sbind (not_negative ''critical_gt'' (pc_CriticalGt pc)) (\<lambda>_.
     sbind (case (pc_WarnLt pc, pc_CriticalLt pc) of
              (Some w, Some c) \<Rightarrow> refuse (w < c) (''process_count.warn_lt('' @ show_int w @ '') must be >= process_count.critical_lt('' @ show_int c @ '')'')
            | _ \<Rightarrow> Inr ()) (\<lambda>_.
     case (pc_WarnGt pc, pc_CriticalGt pc) of
       (Some w, Some c) \<Rightarrow> refuse (w > c) (''process_count.warn_gt('' @ show_int w @ '') must be <= process_count.critical_gt('' @ show_int c @ '')'')
     | _ \<Rightarrow> Inr ()))))))"

definition procnum_Init :: "procnum_Instance \<Rightarrow> string + procnum_Instance" where
  "procnum_Init ins0 =
     (let ins = trimmed_search ins0 in
      sbind (refuse (has_filter ins \<and> ps_PidFile ins \<noteq> [])
        ''search_pid_file is mutually exclusive with process filters (search_exec_name/search_cmdline/search_user)'') (\<lambda>_.
      sbind (validate_counts (pq_ProcessCount ins)) (\<lambda>_.
      Inr (ins\<lparr>pq_mode := (if ps_PidFile ins \<noteq> [] then searchModePidFile else searchModeProcess), pq_searchLabel := procnum_label ins\<rparr>))))"

definition procnum_event :: "procnum_Instance \<Rightarrow> Event" where
  "procnum_event ins =
     SetAttrs
       ((if ps_ExecName ins \<noteq> [] then [(''search_exec_name'', ps_ExecName ins)] else []) @
        (if ps_Cmdline ins \<noteq> [] then [(''search_cmdline'', ps_Cmdline ins)] else []) @
        (if ps_User ins \<noteq> [] then [(''search_user'', ps_User ins)] else []) @
        (if ps_PidFile ins \<noteq> [] then [(''search_pid_file'', ps_PidFile ins)] else []))
       (check_event ''procnum::process_count'' (pq_searchLabel ins))"

definition count_found :: "(string \<Rightarrow> string) \<Rightarrow> procnum_Instance \<Rightarrow> proc_world \<Rightarrow> string + nat" where
  "count_found quote ins w =
     (case pq_mode ins of
        searchModePidFile \<Rightarrow> map_sum id length (findByPidFile quote ins w)
      | searchModeProcess \<Rightarrow> if pq_searchLabel ins = ''all'' then CountAllProcesses w else map_sum id length (findProcesses ins w))"

definition count_parts :: "ProcessCountCheck \<Rightarrow> string list" where
  "count_parts pc =
     (let part = (\<lambda>text v. case v of Some n \<Rightarrow> [text @ show_int n] | None \<Rightarrow> []) in
      part ''Warning < '' (pc_WarnLt pc) @ part ''Critical < '' (pc_CriticalLt pc) @ part ''Warning > '' (pc_WarnGt pc) @ part ''Critical > '' (pc_CriticalGt pc))"

definition lt_limit :: "int \<Rightarrow> int option \<Rightarrow> bool" where "lt_limit n v = (case v of Some l \<Rightarrow> n < l | None \<Rightarrow> False)"
definition gt_limit :: "int \<Rightarrow> int option \<Rightarrow> bool" where "gt_limit n v = (case v of Some l \<Rightarrow> n > l | None \<Rightarrow> False)"

definition counted_event :: "ProcessCountCheck \<Rightarrow> int \<Rightarrow> Event \<Rightarrow> Event" where
  "counted_event pc n event =
     (let text = (\<lambda>rel level l. ''process count '' @ show_int n @ rel @ level @ '' threshold '' @ show_int (the l)) in
      if lt_limit n (pc_CriticalLt pc) then alert_with EventStatusCritical (text '' < '' ''critical'' (pc_CriticalLt pc)) event
      else if lt_limit n (pc_WarnLt pc) then alert_with EventStatusWarning (text '' < '' ''warning'' (pc_WarnLt pc)) event
      else if gt_limit n (pc_CriticalGt pc) then alert_with EventStatusCritical (text '' > '' ''critical'' (pc_CriticalGt pc)) event
      else if gt_limit n (pc_WarnGt pc) then alert_with EventStatusWarning (text '' > '' ''warning'' (pc_WarnGt pc)) event
      else SetDescription (''process count '' @ show_int n @ '', everything is ok'') event)"

definition procnum_Gather :: "(string \<Rightarrow> string) \<Rightarrow> procnum_Instance \<Rightarrow> proc_world \<Rightarrow> Event list" where
  "procnum_Gather quote ins w =
     (case count_found quote ins w of
        Inl e \<Rightarrow> [alert_with EventStatusCritical (''search error: '' @ e) (procnum_event ins)]
      | Inr n \<Rightarrow>
          [counted_event (pq_ProcessCount ins) (int n)
             (SetAttrs [(''process_count'', show_nat n), (''threshold_desc'', join '', '' (count_parts (pq_ProcessCount ins)))] (procnum_event ins))])"

section \<open>File descriptors of processes\<close>

record procfd_Instance = proc_search +
  pf_Concurrency :: int
  pf_FdUsage :: threshold
  pf_searchLabel :: string

definition procfd_label :: "'a proc_search_scheme \<Rightarrow> string" where
  "procfd_label s = (if ps_PidFile s \<noteq> [] then ps_PidFile s else join '' && '' (label_parts s))"

definition procfd_Init :: "string \<Rightarrow> procfd_Instance \<Rightarrow> string + procfd_Instance" where
  "procfd_Init os ins0 =
     sbind (linux_only ''procfd'' os) (\<lambda>_.
     let ins = trimmed_search ins0; t = pf_FdUsage ins in
     sbind (refuse (\<not> has_filter ins \<and> ps_PidFile ins = [])
       ''at least one search condition must be configured (search_exec_name, search_cmdline, search_user, or search_pid_file)'') (\<lambda>_.
     sbind (refuse (ps_PidFile ins \<noteq> [] \<and> has_filter ins)
       ''search_pid_file is mutually exclusive with other search filters (search_exec_name/search_cmdline/search_user)'') (\<lambda>_.
     sbind (refuse (th_off t) ''fd_usage thresholds must be configured (warn_ge and/or critical_ge)'') (\<lambda>_.
     sbind (th_percent_order ''fd_usage'' t) (\<lambda>_.
     Inr (ins\<lparr>pf_Concurrency := (if pf_Concurrency ins = 0 then 10 else pf_Concurrency ins), pf_searchLabel := procfd_label ins\<rparr>))))))"

record fdResult =
  fd_pid :: int
  fd_openFds :: nat
  fd_softLimit :: nat
  fd_hardLimit :: nat
  fd_usagePercent :: real
  fd_execName :: string
  fd_unlimited :: bool
  fd_gone :: bool
  fd_err :: "string option"

definition fd_result :: "int \<Rightarrow> fdResult" where
  "fd_result pid = \<lparr>fd_pid = pid, fd_openFds = 0, fd_softLimit = 0, fd_hardLimit = 0, fd_usagePercent = 0, fd_execName = [],
     fd_unlimited = False, fd_gone = False, fd_err = None\<rparr>"

definition parse_limit :: "(string \<Rightarrow> string) \<Rightarrow> string \<Rightarrow> string \<Rightarrow> string + nat" where
  "parse_limit quote name s =
     (if s = ''unlimited'' then Inr 0
      else map_sum (\<lambda>e. ''parse '' @ name @ '' limit: '' @ num_text quote ''ParseUint'' s e) id (ParseUint s))"

fun nofile_lines :: "(string \<Rightarrow> string) \<Rightarrow> int \<Rightarrow> string list \<Rightarrow> string + nat \<times> nat" where
  "nofile_lines quote pid [] = Inl (''Max open files not found in /proc/'' @ show_int pid @ ''/limits'')"
| "nofile_lines quote pid (line # lines) =
     (if \<not> prefix ''Max open files'' line then nofile_lines quote pid lines
      else if length line < 27 then Inl (''unexpected limits line format: '' @ quote line)
      else
        let fs = Fields (drop 26 line) in
        if length fs < 2 then Inl (''unexpected limits fields: '' @ quote line)
        else
          sbind (parse_limit quote ''soft'' (fs ! 0)) (\<lambda>soft.
          sbind (parse_limit quote ''hard'' (fs ! 1)) (\<lambda>hard.
          Inr (soft, hard))))"

definition parseNofileLimit :: "(string \<Rightarrow> string) \<Rightarrow> string \<Rightarrow> int \<Rightarrow> string + nat \<times> nat" where
  "parseNofileLimit quote content pid = nofile_lines quote pid (split_at nl content)"

definition readNofileLimit :: "(string \<Rightarrow> string) \<Rightarrow> proc_world \<Rightarrow> int \<Rightarrow> os_error + nat \<times> nat" where
  "readNofileLimit quote w pid =
     sbind (pw_limits w pid) (\<lambda>content.
     map_sum (\<lambda>e. \<lparr>oe_notExist = False, oe_noProcess = False, oe_text = e\<rparr>) id (parseNofileLimit quote content pid))"

definition fd_failed :: "string \<Rightarrow> os_error \<Rightarrow> fdResult \<Rightarrow> fdResult" where
  "fd_failed what e r = (if IsProcessGone e then r\<lparr>fd_gone := True\<rparr> else r\<lparr>fd_err := Some (what @ '': '' @ oe_text e)\<rparr>)"

definition fd_usage :: "nat \<Rightarrow> nat \<Rightarrow> real" where
  "fd_usage openFds soft = real (float64_of_nat openFds) / real (float64_of_nat soft) * 100"

definition readProcessFd :: "(string \<Rightarrow> string) \<Rightarrow> proc_world \<Rightarrow> int \<Rightarrow> fdResult" where
  "readProcessFd quote w pid =
     (let r = (fd_result pid)\<lparr>fd_execName := (case ProcessExecName w pid of Inr name \<Rightarrow> name | Inl _ \<Rightarrow> [])\<rparr> in
      case readNofileLimit quote w pid of
        Inl e \<Rightarrow> fd_failed ''read limits'' e r
      | Inr (soft, hard) \<Rightarrow>
          if soft = 0 then r\<lparr>fd_unlimited := True, fd_hardLimit := hard\<rparr>
          else case pw_fds w pid of
                 Inl e \<Rightarrow> fd_failed ''count fds'' e r
               | Inr openFds \<Rightarrow>
                   r\<lparr>fd_openFds := openFds, fd_softLimit := soft, fd_hardLimit := hard, fd_usagePercent := fd_usage openFds soft\<rparr>)"

text \<open>The results stand at the index of their process, whatever order the goroutines run in.\<close>

definition collectFdData :: "(string \<Rightarrow> string) \<Rightarrow> proc_world \<Rightarrow> int list \<Rightarrow> fdResult list" where
  "collectFdData quote w pids =
     map (\<lambda>pid. case pw_panic w pid of Some r \<Rightarrow> (fd_result pid)\<lparr>fd_err := Some (''panic: '' @ r)\<rparr> | None \<Rightarrow> readProcessFd quote w pid) pids"

definition findMatchingProcesses :: "(string \<Rightarrow> string) \<Rightarrow> procfd_Instance \<Rightarrow> proc_world \<Rightarrow> string + int list" where
  "findMatchingProcesses quote ins w = (if ps_PidFile ins \<noteq> [] then findByPidFile quote ins w else findProcesses ins w)"

definition fd_checked :: "fdResult \<Rightarrow> bool" where
  "fd_checked r \<longleftrightarrow> \<not> fd_gone r \<and> fd_err r = None \<and> \<not> fd_unlimited r"

definition worse :: "fdResult option \<Rightarrow> fdResult \<Rightarrow> fdResult option" where
  "worse worst r =
     (if \<not> fd_checked r then worst
      else case worst of None \<Rightarrow> Some r | Some r' \<Rightarrow> if fd_usagePercent r > fd_usagePercent r' then Some r else Some r')"

definition procfd_event :: "procfd_Instance \<Rightarrow> Event" where
  "procfd_event ins = check_event ''procfd::fd_usage'' (pf_searchLabel ins)"

definition worst_event :: "procfd_Instance \<Rightarrow> nat \<Rightarrow> nat \<Rightarrow> fdResult \<Rightarrow> Event" where
  "worst_event ins matchedCount checkedCount worst =
     (let t = pf_FdUsage ins; usage = pct 1 (fd_usagePercent worst);
          fds = ''fd usage '' @ usage @ '' ('' @ show_nat (fd_openFds worst) @ ''/'' @ show_nat (fd_softLimit worst) @ '')'';
          above = (\<lambda>level l. fds @ '' for pid '' @ show_int (fd_pid worst) @ '', above '' @ level @ '' threshold '' @ pct 0 l) in
      rated t (fd_usagePercent worst) (above ''critical'' (th_CriticalGe t)) (above ''warning'' (th_WarnGe t)) (fds @ '', '' @ everything_ok)
        (with_parts (th_parts (pct 0) t)
          (SetCurrentValue usage
            (SetAttrs
              ([(''pid'', show_int (fd_pid worst)), (''open_fds'', show_nat (fd_openFds worst)), (''nofile_soft'', show_nat (fd_softLimit worst)),
                (''nofile_hard'', show_nat (fd_hardLimit worst)), (''usage_percent'', usage), (''matched_count'', show_nat matchedCount),
                (''checked_count'', show_nat checkedCount)] @
               (if fd_execName worst \<noteq> [] then [(''exec_name'', fd_execName worst)] else []))
              (procfd_event ins)))))"

definition procfd_Gather :: "(string \<Rightarrow> string) \<Rightarrow> procfd_Instance \<Rightarrow> proc_world \<Rightarrow> Event list" where
  "procfd_Gather quote ins w =
     (case findMatchingProcesses quote ins w of
        Inl e \<Rightarrow> [alert_with EventStatusCritical (''search error: '' @ e) (procfd_event ins)]
      | Inr pids \<Rightarrow>
          if pids = [] then []
          else
            let results = collectFdData quote w pids; checkedCount = length (filter fd_checked results);
                errorCount = length (filter (\<lambda>r. \<not> fd_gone r \<and> fd_err r \<noteq> None) results) in
            if checkedCount = 0 \<and> errorCount > 0 then
              [alert_with EventStatusCritical
                 (''failed to check fd usage: all '' @ show_nat (length pids) @ '' matched processes returned errors'') (procfd_event ins)]
            else
              case foldl worse None results of
                None \<Rightarrow> []
              | Some worst \<Rightarrow> [worst_event ins (length pids) checkedCount worst])"

section \<open>Growth of the counters of an interface\<close>

lemma emit_fields [simp]:
  "ev_check (emitDeltaEvent c k i dc r) = c" "ev_of (emitDeltaEvent c k i dc r) = i"
  by (simp_all add: emitDeltaEvent_def Let_def split: prod.split)

definition growth :: "nat \<times> nat \<times> nat \<times> nat \<Rightarrow> nat" where
  "growth r = (let (currRx, prevRx, currTx, prevTx) = r in u64 (safeDelta currRx prevRx + safeDelta currTx prevTx))"

interpretation deltas: threshold_check "\<lambda>r. [emitDeltaEvent check kind iface dc r]" "\<lambda>r. Some (real (float64_of_nat (growth r)))" dc check iface
  for check kind iface dc
  by unfold_locales (auto simp: reports_def is_event_def emitDeltaEvent_def growth_def Let_def)

lemma m_ok_current: "m_ok (current_counters quote matches ins w ifs)"
proof -
  have "m_ok acc \<Longrightarrow> m_ok (foldl (\<lambda>m iface. case readCounters quote (nw_files w) iface of Inr (Some c) \<Rightarrow> m_set iface c m | _ \<Rightarrow> m) acc is)" for acc "is"
    by (induct "is" arbitrary: acc) (auto split: sum.split option.split)
  then show ?thesis by (simp add: current_counters_def)
qed

lemma current_get:
  "map_of (current_counters quote matches ins w ifs) i =
   (if i \<in> set (applyFilter matches ifs (nf_Include ins) (nf_Exclude ins))
    then case readCounters quote (nw_files w) i of Inr r \<Rightarrow> r | Inl _ \<Rightarrow> None else None)"
proof -
  have "map_of (foldl (\<lambda>m iface. case readCounters quote (nw_files w) iface of Inr (Some c) \<Rightarrow> m_set iface c m | _ \<Rightarrow> m) acc is) i =
        (case (if i \<in> set is then case readCounters quote (nw_files w) i of Inr r \<Rightarrow> r | Inl _ \<Rightarrow> None else None) of Some c \<Rightarrow> Some c | None \<Rightarrow> map_of acc i)" for acc "is"
    by (induct "is" arbitrary: acc) (auto simp: m_set_get split: sum.split option.split)
  then show ?thesis by (simp add: current_counters_def split: option.split)
qed

text \<open>What a gather says of the errors of one interface.\<close>

lemma iface_error_events:
  assumes "nf_hasErrorCheck ins" "distinct (map fst cs)"
  shows "filter (\<lambda>e. ev_check e = ''netif::errors'' \<and> ev_of e = i) (concat (map (iface_events ins) cs)) =
    (case (map_of cs i, map_of (nf_prevCounters ins) i) of
       (Some c2, Some c1) \<Rightarrow> [emitDeltaEvent ''netif::errors'' ''errors'' i (nf_Errors ins) (rxErrors c2, rxErrors c1, txErrors c2, txErrors c1)]
     | _ \<Rightarrow> [])"
  using assms(2)
proof (induct cs)
  case (Cons ic cs)
  obtain j c where ic: "ic = (j, c)" by fastforce
  have one: "filter (\<lambda>e. ev_check e = ''netif::errors'' \<and> ev_of e = i) (iface_events ins (j, c)) =
    (if j = i then case map_of (nf_prevCounters ins) i of
       Some prev \<Rightarrow> [emitDeltaEvent ''netif::errors'' ''errors'' i (nf_Errors ins) (rxErrors c, rxErrors prev, txErrors c, txErrors prev)]
     | None \<Rightarrow> [] else [])"
    using assms(1) by (auto simp: iface_events_def split: option.split)
  show ?case
  proof (cases "j = i")
    case True
    then have "map_of cs i = None" using Cons(2) ic by (auto simp: map_of_eq_None_iff)
    then show ?thesis using Cons one True ic by (auto split: option.split)
  qed (use Cons one ic in simp)
qed simp

lemma link_events_other: "filter (\<lambda>e. ev_check e = ''netif::errors'' \<and> ev_of e = i) (concat (map (gatherLink rd) ls)) = []"
proof -
  have "filter (\<lambda>e. ev_check e = ''netif::errors'' \<and> ev_of e = i) (gatherLink rd l) = []" for l
  proof -
    obtain e where e: "gatherLink rd l = [e]" "is_event (ls_Interface l) ''netif::link'' e"
      using links.reported [of l rd] unfolding reports_def by blast
    then have "ev_check e = ''netif::link''" by (simp add: is_event_def)
    then show ?thesis using e(1) by simp
  qed
  then show ?thesis by (induct ls) simp_all
qed

definition read_by :: "(string \<Rightarrow> string) \<Rightarrow> path_match \<Rightarrow> netif_Instance \<Rightarrow> netif_world \<Rightarrow> string \<Rightarrow> ifCounters \<Rightarrow> bool" where
  "read_by quote matches ins w i c \<longleftrightarrow>
     (case nw_ifaces w of
        Inl _ \<Rightarrow> False
      | Inr ifs \<Rightarrow> i \<in> set (applyFilter matches ifs (nf_Include ins) (nf_Exclude ins)) \<and> readCounters quote (nw_files w) i = Inr (Some c))"

lemma netif_gather_state:
  assumes "nf_hasErrorCheck ins" "nw_ifaces w = Inr ifs"
  shows "fst (netif_Gather quote matches w ins) = ins\<lparr>nf_prevCounters := current_counters quote matches ins w ifs, nf_initialized := True\<rparr>"
  using assms by (auto simp: netif_Gather_def gatherErrorsAndDrops_def Let_def)

text \<open>after two gathers that read an interface, the alert on its errors is open exactly when the errors counted between the two readings
  reach a threshold; a counter that fell counts as no growth.\<close>

theorem netif_reports_growth:
  assumes "nf_hasErrorCheck ins" "read_by quote matches ins w1 i c1" "read_by quote matches ins w2 i c2"
  shows "owed ''netif::errors'' i (q @ snd (netif_Gather quote matches w2 (fst (netif_Gather quote matches w1 ins)))) \<longleftrightarrow>
    th_status (nf_Errors ins) (real (float64_of_nat (growth (rxErrors c2, rxErrors c1, txErrors c2, txErrors c1)))) \<noteq> EventStatusOk"
proof -
  obtain f1 f2 where f: "nw_ifaces w1 = Inr f1" "nw_ifaces w2 = Inr f2"
    using assms(2,3) by (auto simp: read_by_def split: sum.splits)
  define ins1 where "ins1 = fst (netif_Gather quote matches w1 ins)"
  have ins1: "ins1 = ins\<lparr>nf_prevCounters := current_counters quote matches ins w1 f1, nf_initialized := True\<rparr>"
    unfolding ins1_def by (rule netif_gather_state [OF assms(1) f(1)])
  define cc where "cc = current_counters quote matches ins1 w2 f2"
  have gets: "map_of cc i = Some c2" "map_of (nf_prevCounters ins1) i = Some c1"
    using assms(2,3) f by (simp_all add: cc_def ins1 current_get read_by_def)
  have "filter (\<lambda>e. ev_check e = ''netif::errors'' \<and> ev_of e = i) (snd (netif_Gather quote matches w2 ins1)) =
    [emitDeltaEvent ''netif::errors'' ''errors'' i (nf_Errors ins) (rxErrors c2, rxErrors c1, txErrors c2, txErrors c1)]"
    using iface_error_events [of ins1 cc i] m_ok_current [of quote matches ins1 w2 f2] gets assms(1) f(2)
    by (simp add: netif_Gather_def gatherErrorsAndDrops_def Let_def link_events_other m_ok_def cc_def) (simp add: ins1)
  then have "owed ''netif::errors'' i (q @ snd (netif_Gather quote matches w2 ins1)) \<longleftrightarrow>
    EventStatus (emitDeltaEvent ''netif::errors'' ''errors'' i (nf_Errors ins) (rxErrors c2, rxErrors c1, txErrors c2, txErrors c1)) \<noteq> EventStatusOk"
    by (simp add: owed_def)
  then show ?thesis
    using deltas.reported [of "(rxErrors c2, rxErrors c1, txErrors c2, txErrors c1)"] by (auto simp: reports_def ins1_def)
qed

text \<open>An interface that is not read any more, because it is gone, keeps its alert.\<close>

theorem lost_interface_keeps_alert:
  assumes "nf_hasErrorCheck ins" "nw_ifaces w = Inr ifs" "i \<notin> set ifs"
  shows "owed ''netif::errors'' i (q @ snd (netif_Gather quote matches w ins)) = owed ''netif::errors'' i q"
proof -
  have "map_of (current_counters quote matches ins w ifs) i = None"
    using assms(3) by (simp add: current_get applyFilter_def)
  then have "filter (\<lambda>e. ev_check e = ''netif::errors'' \<and> ev_of e = i) (snd (netif_Gather quote matches w ins)) = []"
    using iface_error_events [of ins "current_counters quote matches ins w ifs" i] m_ok_current [of quote matches ins w ifs] assms
    by (simp add: netif_Gather_def gatherErrorsAndDrops_def Let_def link_events_other m_ok_def)
  then show ?thesis by (simp add: owed_def)
qed

text \<open>Growth below the thresholds is described as no growth.\<close>

theorem small_growth_denied:
  "Description (emitDeltaEvent ''netif::errors'' ''errors'' ''eth0'' \<lparr>th_WarnGe = 100, th_CriticalGe = 0\<rparr> (7, 0, 0, 0)) = ''eth0 no new errors (total: 7)''"
proof -
  have "float64_of_nat 7 = 7" "show_nat 7 = ''7''" by code_simp+
  then show ?thesis
    by (simp add: emitDeltaEvent_def Let_def rated_def th_status_def EvaluateGeThreshold_def u64_def safeDelta_def SetDescription_def status_defs)
qed

section \<open>Numbers of processes\<close>

lemma procnum_event_labels [simp]: "ev_check (procnum_event ins) = ''procnum::process_count''" "ev_of (procnum_event ins) = pq_searchLabel ins"
  "EventStatus (procnum_event ins) = EventStatusOk"
  by (simp_all add: procnum_event_def)

definition in_bounds :: "ProcessCountCheck \<Rightarrow> int \<Rightarrow> bool" where
  "in_bounds pc n \<longleftrightarrow>
     (\<forall>l \<in> set_option (pc_WarnLt pc) \<union> set_option (pc_CriticalLt pc). l \<le> n) \<and>
     (\<forall>l \<in> set_option (pc_WarnGt pc) \<union> set_option (pc_CriticalGt pc). n \<le> l)"

lemma counted_event_fields:
  "ev_check (counted_event pc n e) = ev_check e" "ev_of (counted_event pc n e) = ev_of e"
  "EventStatus e = EventStatusOk \<Longrightarrow> EventStatus (counted_event pc n e) = EventStatusOk \<longleftrightarrow> in_bounds pc n"
  by (auto simp: counted_event_def Let_def lt_limit_def gt_limit_def in_bounds_def status_defs split: option.split)

lemma procnum_reports:
  "count_found quote ins w = Inr n \<Longrightarrow>
   \<exists>e. procnum_Gather quote ins w = [e] \<and> ev_check e = ''procnum::process_count'' \<and> ev_of e = pq_searchLabel ins
     \<and> (EventStatus e = EventStatusOk \<longleftrightarrow> in_bounds (pq_ProcessCount ins) (int n))"
  by (simp add: procnum_Gather_def counted_event_fields)

lemma procnum_init_fields:
  assumes "procnum_Init ins0 = Inr ins"
  shows "ins = (trimmed_search ins0)\<lparr>pq_mode := (if ps_PidFile (trimmed_search ins0) \<noteq> [] then searchModePidFile else searchModeProcess),
      pq_searchLabel := procnum_label (trimmed_search ins0)\<rparr>" "\<not> (has_filter ins \<and> ps_PidFile ins \<noteq> [])"
  using assms by (auto simp: procnum_Init_def Let_def has_filter_def)

text \<open>with an accepted configuration of process filters and processes that can be listed, the alert is open exactly when the number of processes that satisfy
  every filter is below a lower bound or above an upper bound, unless the filters spell the word all.\<close>

theorem procnum_alert_exact:
  assumes "procnum_Init ins0 = Inr ins" "ps_PidFile ins = []" "has_filter ins" "pq_searchLabel ins \<noteq> ''all''" "pw_pids w = Inr pids"
  shows "owed ''procnum::process_count'' (pq_searchLabel ins) (q @ procnum_Gather quote ins w) \<longleftrightarrow>
    \<not> in_bounds (pq_ProcessCount ins) (int (length (filter (matchProcess ins w) pids)))"
proof -
  have "pq_mode ins = searchModeProcess"
    using procnum_init_fields(1) [OF assms(1)] assms(2) by (auto simp: trimmed_search_def)
  then have "count_found quote ins w = Inr (length (filter (matchProcess ins w) pids))"
    using assms(4,5) by (simp add: count_found_def findProcesses_def)
  then obtain e where "procnum_Gather quote ins w = [e]" "ev_check e = ''procnum::process_count''" "ev_of e = pq_searchLabel ins"
    "EventStatus e = EventStatusOk \<longleftrightarrow> in_bounds (pq_ProcessCount ins) (int (length (filter (matchProcess ins w) pids)))"
    using procnum_reports by blast
  then show ?thesis by (simp add: owed_push)
qed

text \<open>A filter that spells the word all is accepted, and then every process is counted.\<close>

theorem name_all_counts_everything:
  assumes "procnum_Init ins0 = Inr ins" "ps_ExecName ins = ''all''" "ps_Cmdline ins = []" "ps_User ins = []"
  shows "count_found quote ins w = CountAllProcesses w"
proof -
  have "ps_PidFile ins = []" using procnum_init_fields(2) [OF assms(1)] assms(2) by (auto simp: has_filter_def)
  then have "pq_mode ins = searchModeProcess" "pq_searchLabel ins = ''all''"
    using procnum_init_fields(1) [OF assms(1)] assms(2-4) by (auto simp: trimmed_search_def procnum_label_def label_parts_def)
  then show ?thesis by (simp add: count_found_def)
qed

section \<open>The fullest table of file descriptors\<close>

lemma foldl_worse:
  "foldl worse acc rs = None \<longleftrightarrow> acc = None \<and> filter fd_checked rs = []"
  "foldl worse acc rs = Some r \<Longrightarrow>
     (acc = Some r \<or> r \<in> set rs \<and> fd_checked r) \<and> (\<forall>r' \<in> set_option acc \<union> set (filter fd_checked rs). fd_usagePercent r' \<le> fd_usagePercent r)"
proof -
  show "foldl worse acc rs = None \<longleftrightarrow> acc = None \<and> filter fd_checked rs = []"
    by (induct rs arbitrary: acc) (auto simp: worse_def split: option.splits if_splits)
  show "foldl worse acc rs = Some r \<Longrightarrow>
     (acc = Some r \<or> r \<in> set rs \<and> fd_checked r) \<and> (\<forall>r' \<in> set_option acc \<union> set (filter fd_checked rs). fd_usagePercent r' \<le> fd_usagePercent r)"
  proof (induct rs arbitrary: acc)
    case (Cons x rs)
    have "foldl worse (worse acc x) rs = Some r" using Cons(2) by simp
    note ih = Cons(1) [OF this]
    show ?case
    proof (cases "fd_checked x")
      case True
      then show ?thesis using ih by (cases acc) (auto simp: worse_def split: if_splits)
    qed (use ih in \<open>auto simp: worse_def\<close>)
  qed simp
qed

lemma worst_event_fields:
  "ev_check (worst_event ins m c r) = ''procfd::fd_usage''" "ev_of (worst_event ins m c r) = pf_searchLabel ins"
  "EventStatus (worst_event ins m c r) = th_status (pf_FdUsage ins) (fd_usagePercent r)"
  by (simp_all add: worst_event_def procfd_event_def Let_def)

definition over_limit :: "threshold \<Rightarrow> real \<Rightarrow> bool" where
  "over_limit t v \<longleftrightarrow> th_CriticalGe t > 0 \<and> v \<ge> th_CriticalGe t \<or> th_WarnGe t > 0 \<and> v \<ge> th_WarnGe t"

text \<open>when at least one matching process can be checked, the alert is open exactly when one of the processes that can be checked uses a share of
  its file descriptors that reaches a threshold, whatever the others use.\<close>

theorem procfd_alert_exact:
  assumes "findMatchingProcesses quote ins w = Inr pids" "list_ex fd_checked (collectFdData quote w pids)"
  shows "owed ''procfd::fd_usage'' (pf_searchLabel ins) (q @ procfd_Gather quote ins w) \<longleftrightarrow>
    list_ex (\<lambda>r. fd_checked r \<and> over_limit (pf_FdUsage ins) (fd_usagePercent r)) (collectFdData quote w pids)"
proof -
  let ?rs = "collectFdData quote w pids"
  have ne: "filter fd_checked ?rs \<noteq> []" using assms(2) by (auto simp: list_ex_iff filter_empty_conv)
  then obtain r where r: "foldl worse None ?rs = Some r"
    using foldl_worse(1) [of None ?rs] by blast
  note worst = foldl_worse(2) [OF r]
  have "procfd_Gather quote ins w = [worst_event ins (length pids) (length (filter fd_checked ?rs)) r]"
    using assms(1) ne r by (auto simp: procfd_Gather_def Let_def collectFdData_def)
  then have "owed ''procfd::fd_usage'' (pf_searchLabel ins) (q @ procfd_Gather quote ins w) \<longleftrightarrow> over_limit (pf_FdUsage ins) (fd_usagePercent r)"
    by (auto simp: owed_push worst_event_fields th_status_ok over_limit_def)
  moreover have "over_limit (pf_FdUsage ins) (fd_usagePercent r') \<Longrightarrow> fd_usagePercent r' \<le> fd_usagePercent r \<Longrightarrow> over_limit (pf_FdUsage ins) (fd_usagePercent r)" for r'
    by (auto simp: over_limit_def)
  ultimately show ?thesis using worst by (auto simp: list_ex_iff)
qed

definition full_table :: proc_world where
  "full_table = \<lparr>pw_pids = Inr [7, 8], pw_exe = (\<lambda>_. Inr ''/usr/sbin/nginx''), pw_cmdline = (\<lambda>_. Inr ''nginx''), pw_username = (\<lambda>_. Inr ''www''),
     pw_exists = (\<lambda>_. Inr True), pw_file = (\<lambda>_. Inl ''no file''), pw_limits = (\<lambda>_. Inr ''Max open files            1024                 4096                 files''),
     pw_fds = (\<lambda>pid. Inr (if pid = 8 then 1000 else 10)), pw_panic = (\<lambda>_. None)\<rparr>"

definition nginx_fds :: procfd_Instance where
  "nginx_fds = \<lparr>ps_ExecName = ''nginx'', ps_Cmdline = [], ps_User = [], ps_PidFile = [], pf_Concurrency = 10,
     pf_FdUsage = \<lparr>th_WarnGe = 80, th_CriticalGe = 95\<rparr>, pf_searchLabel = ''nginx''\<rparr>"

lemma limits_1024: "parseNofileLimit id ''Max open files            1024                 4096                 files'' 8 = Inr (1024, 4096)"
proof -
  have shown: "show_nat 1024 = ''1024''" "show_nat 4096 = ''4096''" by code_simp+
  have limits: "parse_limit id name ''1024'' = Inr 1024" "parse_limit id name ''4096'' = Inr 4096" for name
    using ParseUint_show [of 1024] ParseUint_show [of 4096] unfolding shown by (simp_all add: parse_limit_def)
  have "split_at nl ''Max open files            1024                 4096                 files'' = [''Max open files            1024                 4096                 files'']"
    "Fields (drop 26 ''Max open files            1024                 4096                 files'') = [''1024'', ''4096'', ''files'']"
    by code_simp+
  then show ?thesis using limits by (simp add: parseNofileLimit_def)
qed

lemma full_fds: "readProcessFd id full_table 8 = (fd_result 8)\<lparr>fd_execName := ''nginx'', fd_openFds := 1000, fd_softLimit := 1024, fd_hardLimit := 4096, fd_usagePercent := 1000 / 1024 * 100\<rparr>"
proof -
  have "filepath_Base ''/usr/sbin/nginx'' = ''nginx''" "float64_of_nat 1000 = 1000" "float64_of_nat 1024 = 1024" by code_simp+
  then show ?thesis
    using limits_1024 by (simp add: readProcessFd_def readNofileLimit_def full_table_def ProcessExecName_def fd_usage_def Let_def)
qed

lemma nginx_found: "findMatchingProcesses id nginx_fds full_table = Inr [7, 8]"
proof -
  have "filepath_Base ''/usr/sbin/nginx'' = ''nginx''" by code_simp
  then show ?thesis
    by (simp add: findMatchingProcesses_def findProcesses_def matchProcess_def nginx_fds_def full_table_def ProcessExecName_def contains_text_def)
qed

theorem procfd_alert_exact_witness: "owed ''procfd::fd_usage'' ''nginx'' (procfd_Gather id nginx_fds full_table)"
proof -
  have eight: "(fd_result 8)\<lparr>fd_execName := ''nginx'', fd_openFds := 1000, fd_softLimit := 1024, fd_hardLimit := 4096, fd_usagePercent := 1000 / 1024 * 100\<rparr>
    \<in> set (collectFdData id full_table [7, 8])"
    using full_fds by (simp add: collectFdData_def) (simp add: full_table_def)
  have checked: "list_ex (\<lambda>r. fd_checked r \<and> over_limit (pf_FdUsage nginx_fds) (fd_usagePercent r)) (collectFdData id full_table [7, 8])"
    unfolding list_ex_iff
    by (rule bexI [OF _ eight]) (simp add: fd_checked_def fd_result_def over_limit_def nginx_fds_def)
  then have "list_ex fd_checked (collectFdData id full_table [7, 8])" by (auto simp: list_ex_iff)
  then show ?thesis
    using procfd_alert_exact [OF nginx_found, of "[]"] checked by (simp add: nginx_fds_def)
qed

text \<open>A process whose last matching process exits leaves its alert open: nothing is reported for an empty list.\<close>

theorem no_process_keeps_alert:
  "findMatchingProcesses quote ins w = Inr [] \<Longrightarrow> owed c t (q @ procfd_Gather quote ins w) = owed c t q"
  by (simp add: procfd_Gather_def)

text \<open>A soft limit of zero is taken for no limit at all.\<close>

theorem zero_limit_unchecked:
  "readNofileLimit quote w pid = Inr (0, hard) \<Longrightarrow> fd_unlimited (readProcessFd quote w pid)"
  by (simp add: readProcessFd_def Let_def)

end
