(* ===== verification/Shell_Quote.thy ===== *)
theory Shell_Quote
  imports Utf8
begin

text \<open>
  \<^verbatim>\<open>digcore/pkg/shell/shellquote.go\<close>: splitting a command line into words by the quoting rules of the
  shell. The four labelled blocks of \<^verbatim>\<open>splitWord\<close> and the jumps between them are the constructors of a
  datatype and the calls of one function; \<open>input\<close> and \<open>cur\<close> are the two slices the code keeps, and \<open>buf\<close>
  is the shared buffer. The code decodes runes; the reference lexer below works on bytes.
\<close>

section \<open>The code\<close>

datatype quote_error = UnterminatedSingleQuoteError | UnterminatedDoubleQuoteError | UnterminatedEscapeError

definition splitChars :: string where "splitChars = [CHR 0x20, CHR 0x0A, CHR 0x09]"

definition singleChar :: char where "singleChar = CHR 0x27"

definition doubleChar :: char where "doubleChar = CHR 0x22"

definition escapeChar :: char where "escapeChar = CHR 0x5C"

definition doubleEscapeChars :: string where
  "doubleEscapeChars = [CHR 0x24, CHR 0x60, CHR 0x22, CHR 0x0A, CHR 0x5C]"

text \<open>\<^verbatim>\<open>strings.ContainsRune\<close> of an ASCII string; the replacement rune is found only at invalid bytes.\<close>

definition contains_rune :: "string \<Rightarrow> nat \<Rightarrow> bool" where
  "contains_rune s r \<longleftrightarrow> list_ex (\<lambda>c. byte c = r) s"

datatype block = Raw | Escape | Single | Double

text \<open>\<^verbatim>\<open>strings.IndexRune\<close> for an ASCII rune.\<close>

fun index_char :: "char \<Rightarrow> string \<Rightarrow> nat option" where
  "index_char c [] = None"
| "index_char c (d # ds) = (if d = c then Some 0 else map_option Suc (index_char c ds))"

lemma index_char_bound: "index_char c s = Some i \<Longrightarrow> i < length s"
  by (induction s arbitrary: i) (auto split: if_splits)

lemma decode_rune_pos: "(c, l) = decode_rune s \<Longrightarrow> s \<noteq> [] \<Longrightarrow> 0 < l"
  using decode_rune_width [of s] by (metis le_zero_eq neq0_conv one_neq_zero snd_conv)

function split_block ::
  "string \<Rightarrow> block \<Rightarrow> string \<Rightarrow> string \<Rightarrow> string \<Rightarrow> quote_error + string \<times> string" where
  "split_block goos Raw input cur buf =
     (if cur = [] then Inr (buf @ input, [])
      else
        let (c, l) = decode_rune cur;
            cur' = drop l cur;
            pre = length input - length cur' - l
        in if c = byte singleChar then split_block goos Single cur' [] (buf @ take pre input)
           else if c = byte doubleChar then split_block goos Double cur' cur' (buf @ take pre input)
           else if c = byte escapeChar then
             split_block goos Escape cur' []
               (buf @ (if goos = ''windows'' then take (pre + 1) input else take pre input))
           else if contains_rune splitChars c then Inr (buf @ take pre input, cur')
           else split_block goos Raw input cur' buf)"
| "split_block goos Escape input cur buf =
     (if input = [] then Inl UnterminatedEscapeError
      else
        let (c, l) = decode_rune input;
            buf' = (if c = byte nl then buf else buf @ take l input)
        in split_block goos Raw (drop l input) (drop l input) buf')"
| "split_block goos Single input cur buf =
     (case index_char singleChar input of
        None \<Rightarrow> Inl UnterminatedSingleQuoteError
      | Some i \<Rightarrow> split_block goos Raw (drop (i + 1) input) (drop (i + 1) input) (buf @ take i input))"
| "split_block goos Double input cur buf =
     (if cur = [] then Inl UnterminatedDoubleQuoteError
      else
        let (c, l) = decode_rune cur;
            cur' = drop l cur;
            pre = length input - length cur' - l
        in if c = byte doubleChar then split_block goos Raw cur' cur' (buf @ take pre input)
           else if c = byte escapeChar then
             let (c2, l2) = decode_rune cur';
                 cur'' = drop l2 cur'
             in if contains_rune doubleEscapeChars c2 then
                  split_block goos Double cur'' cur''
                    (buf @ take (length input - length cur'' - l - l2) input
                         @ (if c2 = byte nl then [] else encode_rune c2))
                else split_block goos Double input cur'' buf
           else split_block goos Double input cur' buf)"
  by pat_completeness auto
termination
  by (relation "measure (\<lambda>(goos, b, input, cur, buf). case b of Raw \<Rightarrow> length cur | Double \<Rightarrow> length cur | _ \<Rightarrow> length input)")
     (auto dest: index_char_bound decode_rune_pos)

declare split_block.simps [simp del]

definition splitWord :: "string \<Rightarrow> string \<Rightarrow> quote_error + string \<times> string" where
  "splitWord goos input = split_block goos Raw input input []"

section \<open>A lexer over bytes\<close>

text \<open>The quoting rules of the shell, byte by byte: what each character adds to the word and which quoting
  follows.\<close>

definition emit :: "string \<Rightarrow> quote_error + string \<times> string \<Rightarrow> quote_error + string \<times> string" where
  "emit xs r = map_sum id (map_prod (append xs) id) r"

fun sh_lex :: "bool \<Rightarrow> block \<Rightarrow> string \<Rightarrow> quote_error + string \<times> string" where
  "sh_lex win Raw [] = Inr ([], [])"
| "sh_lex win Escape [] = Inl UnterminatedEscapeError"
| "sh_lex win Single [] = Inl UnterminatedSingleQuoteError"
| "sh_lex win Double [] = Inl UnterminatedDoubleQuoteError"
| "sh_lex win Raw (c # cs) =
     (if c = singleChar then sh_lex win Single cs
      else if c = doubleChar then sh_lex win Double cs
      else if c = escapeChar then emit (if win then [c] else []) (sh_lex win Escape cs)
      else if c \<in> set splitChars then Inr ([], cs)
      else emit [c] (sh_lex win Raw cs))"
| "sh_lex win Escape (c # cs) = emit (if c = nl then [] else [c]) (sh_lex win Raw cs)"
| "sh_lex win Single (c # cs) = (if c = singleChar then sh_lex win Raw cs else emit [c] (sh_lex win Single cs))"
| "sh_lex win Double (c # cs) =
     (if c = doubleChar then sh_lex win Raw cs
      else if c = escapeChar then
        (case cs of
           [] \<Rightarrow> Inl UnterminatedDoubleQuoteError
         | d # ds \<Rightarrow> emit (if d = nl then [] else if d \<in> set doubleEscapeChars then [d] else [c, d]) (sh_lex win Double ds))
      else emit [c] (sh_lex win Double cs))"

lemma emit_simps [simp]:
  "emit [] r = r" "emit xs (Inl e) = Inl e" "emit xs (Inr (w, rest)) = Inr (xs @ w, rest)"
  "emit xs (emit ys r) = emit (xs @ ys) r"
  by (cases r; simp add: emit_def map_prod_def split: prod.split)+

section \<open>Runes and bytes\<close>

lemma byte_eq_iff: "byte c = byte d \<longleftrightarrow> c = d"
  by simp

lemma contains_rune_byte [simp]: "contains_rune s (byte c) \<longleftrightarrow> c \<in> set s"
  by (auto simp: contains_rune_def list_ex_iff)

lemma contains_rune_high: "128 \<le> r \<Longrightarrow> list_all (\<lambda>c. byte c < 128) s \<Longrightarrow> \<not> contains_rune s r"
  by (auto simp: contains_rune_def list_ex_iff list_all_iff)

lemma special_ascii:
  "list_all (\<lambda>c. byte c < 128) splitChars" "list_all (\<lambda>c. byte c < 128) doubleEscapeChars"
  "byte singleChar < 128" "byte doubleChar < 128" "byte escapeChar < 128" "byte nl < 128"
  by (simp_all add: splitChars_def doubleEscapeChars_def singleChar_def doubleChar_def escapeChar_def nl_def)

text \<open>Outside ASCII a decoded rune is no special character, and its bytes are not either.\<close>

lemma first_info_shape:
  assumes "first_info p = Some (sz, lo, hi)"
  shows "sz = 2 \<and> 2 \<le> p mod 32 \<or> sz = 3 \<and> (1 \<le> p mod 16 \<or> lo = 160) \<or> sz = 4 \<and> (1 \<le> p mod 8 \<or> lo = 144)"
proof -
  have "194 \<le> p \<and> p \<le> 223 \<Longrightarrow> 2 \<le> p mod 32" "225 \<le> p \<and> p \<le> 239 \<Longrightarrow> 1 \<le> p mod 16"
    "241 \<le> p \<and> p \<le> 244 \<Longrightarrow> 1 \<le> p mod 8" by presburger+
  then show ?thesis using assms by (auto simp: first_info_def split: if_splits)
qed

lemma mod64_high: "144 \<le> b \<Longrightarrow> b \<le> 191 \<Longrightarrow> 2 \<le> b mod 64" for b :: nat
  by (simp add: le_mod_geq)

lemma decode_rune_value:
  assumes "128 \<le> byte c"
  shows "128 \<le> fst (decode_rune (c # cs))"
proof (cases "first_info (byte c)")
  case None
  then show ?thesis using assms by (simp add: Let_def RuneError_def)
next
  case (Some i)
  obtain sz lo hi where i: "i = (sz, lo, hi)" by (cases i)
  have hi: "hi \<le> 191" and shape: "sz = 2 \<and> 2 \<le> byte c mod 32 \<or> sz = 3 \<and> (1 \<le> byte c mod 16 \<or> lo = 160) \<or> sz = 4 \<and> (1 \<le> byte c mod 8 \<or> lo = 144)"
    using first_info_shape first_info_range Some i by blast+
  have b1: "lo = 160 \<or> lo = 144 \<Longrightarrow> \<not> byte (cs ! 0) < lo \<and> \<not> hi < byte (cs ! 0) \<longrightarrow> 128 \<le> byte (cs ! 0) mod 64 * 64"
    using mod64_high [of "byte (cs ! 0)"] hi by auto
  from shape show ?thesis
  proof (elim disjE conjE)
    assume "sz = 2" "2 \<le> byte c mod 32"
    then show ?thesis using assms Some i by (simp add: Let_def RuneError_def)
  next
    assume "sz = 3" "1 \<le> byte c mod 16"
    then show ?thesis using assms Some i by (simp add: Let_def RuneError_def)
  next
    assume "sz = 3" "lo = 160"
    then show ?thesis using assms Some i b1 by (auto simp: Let_def RuneError_def)
  next
    assume "sz = 4" "1 \<le> byte c mod 8"
    then show ?thesis using assms Some i by (simp add: Let_def RuneError_def)
  next
    assume "sz = 4" "lo = 144"
    then show ?thesis using assms Some i b1 by (auto simp: Let_def RuneError_def)
  qed
qed

lemma decode_high:
  assumes "128 \<le> byte c" "decode_rune (c # cs) = (r, l)"
  shows "128 \<le> r \<and> list_all (\<lambda>d. 128 \<le> byte d) (take l (c # cs)) \<and> 0 < l \<and> l \<le> length (c # cs)"
proof -
  have r: "128 \<le> r" using decode_rune_value [OF assms(1), of cs] assms(2) by simp
  show ?thesis
  proof (rule decode_rune_cases [OF refl, of c cs])
    fix sz lo hi r'
    assume f: "first_info (byte c) = Some (sz, lo, hi)" "194 \<le> byte c" "sz = 2 \<or> sz = 3 \<or> sz = 4" "128 \<le> lo" "hi \<le> 191"
        "sz \<le> length (c # cs)" "lo \<le> byte ((c # cs) ! 1)" "byte ((c # cs) ! 1) \<le> hi" "2 < sz \<Longrightarrow> cont_byte (byte ((c # cs) ! 2))"
        "3 < sz \<Longrightarrow> cont_byte (byte ((c # cs) ! 3))" "decode_rune (c # cs) = (r', sz)"
    have l: "l = sz" using f assms by (simp del: decode_rune.simps)
    have "128 \<le> byte ((c # cs) ! i)" if i: "i < l" for i
    proof -
      consider "i = 0" | "i = 1" | "i = 2" "2 < sz" | "i = 3" "3 < sz" using i l f(3) by linarith
      then show ?thesis using f assms by cases (auto simp: cont_byte_def simp del: decode_rune.simps)
    qed
    then have "list_all (\<lambda>d. 128 \<le> byte d) (take l (c # cs))" using f(6) l by (simp add: list_all_length)
    then show ?thesis using r l f by auto
  qed (use assms r in \<open>auto simp del: decode_rune.simps\<close>)
qed

lemma lex_high:
  assumes "list_all (\<lambda>d. 128 \<le> byte d) xs" "b = Raw \<or> b = Double"
  shows "sh_lex win b (xs @ cs) = emit xs (sh_lex win b cs)"
  using assms
proof (induction xs)
  case (Cons d ds)
  then have "d \<noteq> singleChar" "d \<noteq> doubleChar" "d \<noteq> escapeChar" "d \<notin> set splitChars"
    using special_ascii by (auto simp: list_all_iff)
  then show ?case using Cons by auto
qed simp

text \<open>The position of a quote, and the lexer inside single quotes.\<close>

lemma lex_single:
  "sh_lex win Single s =
     (case index_char singleChar s of
        None \<Rightarrow> Inl UnterminatedSingleQuoteError
      | Some i \<Rightarrow> emit (take i s) (sh_lex win Raw (drop (i + 1) s)))"
  by (induction s) (auto split: option.splits)

text \<open>One rune of the input, seen by the code and by the lexer: an ASCII byte, or a run of bytes that both
  treat as plain text.\<close>

lemma rune_cases:
  assumes "s \<noteq> []"
  obtains (ascii) c cs where "s = c # cs" "decode_rune s = (byte c, 1)"
  | (high) r l where "decode_rune s = (r, l)" "128 \<le> r" "list_all (\<lambda>d. 128 \<le> byte d) (take l s)" "0 < l" "l \<le> length s"
proof -
  obtain c cs where s: "s = c # cs" using assms by (cases s) auto
  show thesis
  proof (cases "byte c < 128")
    case True
    then show thesis using ascii [of c cs] s by (simp add: Let_def)
  next
    case False
    then show thesis using high decode_high [of c cs] s by (metis not_less surj_pair)
  qed
qed

declare decode_rune.simps(2) [simp del]

lemma raw_ascii:
  assumes "decode_rune (c # cs) = (byte c, 1)"
  shows "split_block goos Raw (p @ c # cs) (c # cs) buf =
    (if c = singleChar then split_block goos Single cs [] (buf @ p)
     else if c = doubleChar then split_block goos Double cs cs (buf @ p)
     else if c = escapeChar then split_block goos Escape cs [] (buf @ p @ (if goos = ''windows'' then [c] else []))
     else if c \<in> set splitChars then Inr (buf @ p, cs)
     else split_block goos Raw (p @ c # cs) cs buf)"
  using assms by (subst split_block.simps) (simp add: Let_def)

lemma raw_high:
  assumes "decode_rune cur = (r, l)" "128 \<le> r" "cur \<noteq> []"
  shows "split_block goos Raw input cur buf = split_block goos Raw input (drop l cur) buf"
  using assms special_ascii contains_rune_high [OF assms(2)] by (subst split_block.simps) (auto simp: Let_def)

lemma double_ascii:
  assumes "decode_rune (c # cs) = (byte c, 1)" "c \<noteq> escapeChar"
  shows "split_block goos Double (p @ c # cs) (c # cs) buf =
    (if c = doubleChar then split_block goos Raw cs cs (buf @ p)
     else split_block goos Double (p @ c # cs) cs buf)"
  using assms by (subst split_block.simps) (simp add: Let_def)

lemma double_high:
  assumes "decode_rune cur = (r, l)" "128 \<le> r" "cur \<noteq> []"
  shows "split_block goos Double input cur buf = split_block goos Double input (drop l cur) buf"
  using assms special_ascii by (subst split_block.simps) (auto simp: Let_def)

lemma encode_ascii: "byte c < 128 \<Longrightarrow> encode_rune (byte c) = [c]"
  by (simp add: encode_rune_def)

lemma double_escape_ascii:
  assumes "decode_rune (d # ds) = (byte d, 1)"
  shows "split_block goos Double (p @ escapeChar # d # ds) (escapeChar # d # ds) buf =
    (if d \<in> set doubleEscapeChars then split_block goos Double ds ds (buf @ p @ (if d = nl then [] else [d]))
     else split_block goos Double (p @ escapeChar # d # ds) ds buf)"
proof -
  have e: "decode_rune (escapeChar # s) = (byte escapeChar, 1)" "escapeChar \<noteq> doubleChar" for s
    by (simp_all add: decode_rune.simps Let_def escapeChar_def doubleChar_def)
  have "d \<in> set doubleEscapeChars \<Longrightarrow> encode_rune (byte d) = [d]"
    using special_ascii(2) encode_ascii by (auto simp: list_all_iff)
  then show ?thesis using assms e by (subst split_block.simps) (simp add: Let_def)
qed

lemma double_escape_high:
  assumes "decode_rune cur = (r, l)" "128 \<le> r"
  shows "split_block goos Double input (escapeChar # cur) buf = split_block goos Double input (drop l cur) buf"
proof -
  have e: "decode_rune (escapeChar # s) = (byte escapeChar, 1)" "escapeChar \<noteq> doubleChar" for s
    by (simp_all add: decode_rune.simps Let_def escapeChar_def doubleChar_def)
  then show ?thesis
    using assms contains_rune_high [OF assms(2)] special_ascii by (subst split_block.simps) (simp add: Let_def)
qed

section \<open>The code implements the lexer\<close>

lemma lex_high_step:
  assumes "list_all (\<lambda>d. 128 \<le> byte d) (take l cur)" "b = Raw \<or> b = Double"
  shows "sh_lex win b cur = emit (take l cur) (sh_lex win b (drop l cur))"
  using lex_high [OF assms, of win "drop l cur"] by simp

lemma lex_escape_high:
  assumes "list_all (\<lambda>d. 128 \<le> byte d) (take l s)" "0 < l" "l \<le> length s"
  shows "sh_lex win Escape s = emit (take l s) (sh_lex win Raw (drop l s))"
    and "sh_lex win Double (escapeChar # s) = emit (escapeChar # take l s) (sh_lex win Double (drop l s))"
proof -
  obtain d ds where s: "s = d # ds" using assms(2,3) by (cases s) auto
  obtain k where l: "l = Suc k" using assms(2) by (cases l) auto
  have k: "list_all (\<lambda>d. 128 \<le> byte d) (take k ds)" and d: "d \<noteq> nl" "d \<notin> set doubleEscapeChars"
    using assms(1) special_ascii s l by (auto simp: list_all_iff)
  show "sh_lex win Escape s = emit (take l s) (sh_lex win Raw (drop l s))"
    using lex_high_step [OF k] d s l by simp
  show "sh_lex win Double (escapeChar # s) = emit (escapeChar # take l s) (sh_lex win Double (drop l s))"
    using lex_high_step [OF k, of Double] d s l by (simp add: escapeChar_def doubleChar_def)
qed

text \<open>The double-quoted block, given that what follows behaves.\<close>

lemma double_lex:
  assumes i: "input = p @ cur"
    and skip: "\<And>l. 0 < l \<Longrightarrow> cur \<noteq> [] \<Longrightarrow>
      split_block goos Double input (drop l cur) buf = emit (buf @ p @ take l cur) (sh_lex w Double (drop l cur))"
    and fresh: "\<And>s b buf'. length s < length cur \<Longrightarrow> b = Raw \<or> b = Double \<Longrightarrow>
      split_block goos b s s buf' = emit buf' (sh_lex w b s)"
  shows "split_block goos Double input cur buf = emit (buf @ p) (sh_lex w Double cur)"
proof (cases "cur = []")
  case False
  then show ?thesis
  proof (cases rule: rune_cases)
    case (high r l)
    show ?thesis
      using double_high [OF high(1,2) False] lex_high_step [OF high(3), of Double] skip [OF high(4) False] by simp
  next
    case (ascii c cs)
    have esc: "escapeChar \<noteq> doubleChar" by (simp add: escapeChar_def doubleChar_def)
    consider "c \<noteq> escapeChar" | "c = escapeChar" "cs = []" | "c = escapeChar" "cs \<noteq> []" by blast
    then show ?thesis
    proof cases
      case 1
      then show ?thesis using double_ascii [of c cs goos p buf] ascii skip [of 1] fresh [of cs Raw] i by simp
    next
      case 2
      then show ?thesis
        using double_escape_high [of "[]" RuneError 0 goos input buf] ascii esc
        by (simp add: RuneError_def split_block.simps(4))
    next
      case 3
      show ?thesis
        using 3(2)
      proof (cases rule: rune_cases)
        case (high r l)
        have "sh_lex w Double cur = emit (escapeChar # take l cs) (sh_lex w Double (drop l cs))"
          using lex_escape_high(2) [OF high(3-5)] ascii 3 by simp
        then show ?thesis
          using double_escape_high [OF high(1,2), of goos input buf] skip [of "Suc l"] ascii 3 by simp
      next
        case asc: (ascii d ds)
        then show ?thesis
          using double_escape_ascii [of d ds goos p buf] skip [of 2] fresh [of ds Double] i ascii 3 esc
          by (auto simp: doubleEscapeChars_def nl_def)
      qed
    qed
  qed
qed (simp add: split_block.simps)

definition work :: "block \<Rightarrow> string \<Rightarrow> string \<Rightarrow> string" where
  "work b input cur = (if b = Raw \<or> b = Double then cur else input)"

lemma split_block_lex:
  assumes w_def: "w = (goos = ''windows'')"
    and "input = p @ work b input cur" "b = Single \<or> b = Escape \<Longrightarrow> p = []"
  shows "split_block goos b input cur buf = emit (buf @ p) (sh_lex w b (work b input cur))"
  using assms(2-)
proof (induction "length (work b input cur)" arbitrary: b input cur buf p rule: less_induct)
  case less
  note IH = less(1)
  show ?case
  proof (cases b)
    case Raw
    then have i: "input = p @ cur" using less by (simp add: work_def)
    show ?thesis
    proof (cases "cur = []")
      case False
      then show ?thesis
      proof (cases rule: rune_cases)
        case (ascii c cs)
        have "split_block goos Raw (p @ c # cs) cs buf = emit (buf @ p @ [c]) (sh_lex w Raw cs)"
          using IH [of Raw "p @ c # cs" cs "p @ [c]" buf] ascii Raw i by (simp add: work_def)
        moreover have "split_block goos Single cs [] buf' = emit buf' (sh_lex w Single cs)"
          "split_block goos Double cs cs buf' = emit buf' (sh_lex w Double cs)"
          "split_block goos Escape cs [] buf' = emit buf' (sh_lex w Escape cs)" for buf'
          using IH [of Single cs "[]" "[]" buf'] IH [of Double cs cs "[]" buf'] IH [of Escape cs "[]" "[]" buf'] ascii Raw i
          by (simp_all add: work_def)
        ultimately show ?thesis
          using raw_ascii [of c cs goos p buf] ascii Raw i by (simp add: work_def w_def)
      next
        case (high r l)
        have "split_block goos Raw input (drop l cur) buf = emit (buf @ p @ take l cur) (sh_lex w Raw (drop l cur))"
          using IH [of Raw input "drop l cur" "p @ take l cur" buf] high Raw i False by (simp add: work_def)
        then show ?thesis using raw_high [OF high(1,2) False] lex_high_step [OF high(3)] Raw by (simp add: work_def)
      qed
    qed (use Raw i in \<open>simp add: split_block.simps work_def\<close>)
  next
    case Escape
    show ?thesis
    proof (cases "input = []")
      case False
      then show ?thesis
      proof (cases rule: rune_cases)
        case (ascii c cs)
        then show ?thesis
          using IH [of Raw cs cs "[]"] Escape less(3) by (simp add: work_def split_block.simps(2) Let_def)
      next
        case (high r l)
        then have "r \<noteq> byte nl" using special_ascii(6) by auto
        then show ?thesis
          using IH [of Raw "drop l input" "drop l input" "[]"] Escape less(3) high False lex_escape_high(1) [OF high(3-5)]
          by (simp add: work_def split_block.simps(2) Let_def)
      qed
    qed (use Escape less(3) in \<open>simp add: split_block.simps work_def\<close>)
  next
    case Single
    then show ?thesis
      using less(3) IH [of Raw _ _ "[]"] lex_single [of w input]
      by (auto simp: work_def split_block.simps(3) split: option.split dest: index_char_bound)
  next
    case Double
    then have i: "input = p @ cur" using less by (simp add: work_def)
    show ?thesis
      unfolding Double work_def if_True simp_thms
    proof (rule double_lex [OF i])
      show "split_block goos Double input (drop l cur) buf = emit (buf @ p @ take l cur) (sh_lex w Double (drop l cur))"
        if "0 < l" "cur \<noteq> []" for l
        using IH [of Double input "drop l cur" "p @ take l cur" buf] Double i that by (simp add: work_def)
      show "split_block goos b' s s buf' = emit buf' (sh_lex w b' s)"
        if "length s < length cur" "b' = Raw \<or> b' = Double" for b' s buf'
        using IH [of b' s s "[]" buf'] Double i that by (auto simp: work_def)
    qed
  qed
qed

lemma splitWord_lex: "splitWord goos input = sh_lex (goos = ''windows'') Raw input"
  using split_block_lex [OF refl, of input "[]" Raw input goos "[]"] by (simp add: splitWord_def work_def)

lemma emit_InrE: "emit xs r = Inr (w, rest) \<Longrightarrow> (\<And>w'. r = Inr (w', rest) \<Longrightarrow> w = xs @ w' \<Longrightarrow> P) \<Longrightarrow> P"
  by (cases r) (auto simp: emit_def)

lemma lex_consumes:
  "sh_lex win b s = Inr (w, rest) \<Longrightarrow> length w + length rest \<le> length s \<and> (s \<noteq> [] \<longrightarrow> length rest < length s)"
  by (induction win b s arbitrary: w rest rule: sh_lex.induct)
     (fastforce elim!: emit_InrE split: if_splits list.splits)+

section \<open>The loop over words\<close>

function quote_loop :: "string \<Rightarrow> string \<Rightarrow> string list \<Rightarrow> string list \<times> quote_error option" where
  "quote_loop goos input words =
     (if input = [] then (words, None)
      else
        let (c, l) = decode_rune input; rest = drop l input in
        if contains_rune splitChars c then quote_loop goos rest words
        else if c = byte escapeChar \<and> rest = [] then (words, Some UnterminatedEscapeError)
        else if c = byte escapeChar \<and> fst (decode_rune rest) = byte nl
             then quote_loop goos (drop (snd (decode_rune rest)) rest) words
        else case splitWord goos input of
               Inl err \<Rightarrow> (words, Some err)
             | Inr (word, remainder) \<Rightarrow> quote_loop goos remainder (words @ [word]))"
  by pat_completeness auto
termination
  by (relation "measure (\<lambda>(goos, input, words). length input)")
     (auto simp: splitWord_lex dest: lex_consumes decode_rune_pos)

declare quote_loop.simps [simp del]

definition QuoteSplit :: "string \<Rightarrow> string \<Rightarrow> string list \<times> quote_error option" where
  "QuoteSplit goos input = quote_loop goos input []"

section \<open>Quoting\<close>

text \<open>How a user writes a word so that the shell keeps it: in single quotes, with a quote written as
  \<^verbatim>\<open>'\''\<close>, or bare when it is not empty and has no special character.\<close>

definition sh_quote :: "string \<Rightarrow> string" where
  "sh_quote w = singleChar # concat (map (\<lambda>c. if c = singleChar then [singleChar, escapeChar, singleChar, singleChar] else [c]) w)
     @ [singleChar]"

definition special :: "char set" where
  "special = set splitChars \<union> {singleChar, doubleChar, escapeChar}"

definition writes :: "string \<Rightarrow> string \<Rightarrow> bool" where
  "writes e w \<longleftrightarrow> e = sh_quote w \<or> e = w \<and> w \<noteq> [] \<and> set w \<inter> special = {}"

lemma char_facts:
  "singleChar \<noteq> doubleChar" "singleChar \<noteq> escapeChar" "doubleChar \<noteq> escapeChar" "nl \<noteq> singleChar"
  "singleChar \<notin> set splitChars" "escapeChar \<notin> set splitChars" "doubleChar \<notin> set splitChars"
  by (simp_all add: singleChar_def doubleChar_def escapeChar_def nl_def splitChars_def)

lemma lex_bare:
  "set w \<inter> special = {} \<Longrightarrow> sh_lex win Raw (w @ rest) = emit w (sh_lex win Raw rest)"
  by (induction w) (auto simp: special_def)

lemma lex_quoted_body:
  "sh_lex False Single (concat (map (\<lambda>c. if c = singleChar then [singleChar, escapeChar, singleChar, singleChar] else [c]) w)
     @ singleChar # rest) = emit w (sh_lex False Raw rest)"
  using char_facts by (induction w) auto

lemma lex_writes: "writes e w \<Longrightarrow> sh_lex False Raw (e @ rest) = emit w (sh_lex False Raw rest)"
  using lex_quoted_body [of w rest] lex_bare [of w False rest] by (auto simp: writes_def sh_quote_def)

lemma writes_start:
  assumes "writes e w"
  obtains c cs where "e = c # cs" "c \<notin> set splitChars" "c \<noteq> escapeChar"
  using assms char_facts by (cases e) (auto simp: writes_def sh_quote_def special_def)

lemma quote_loop_word:
  assumes "writes e w" "goos \<noteq> ''windows''" "sh_lex False Raw rest = Inr ([], rest')"
  shows "quote_loop goos (e @ rest) words = quote_loop goos rest' (words @ [w])"
proof -
  obtain c cs where e: "e = c # cs" "c \<notin> set splitChars" "c \<noteq> escapeChar" using assms(1) by (rule writes_start)
  have "splitWord goos (e @ rest) = Inr (w, rest')"
    using lex_writes [OF assms(1), of rest] assms by (simp add: splitWord_lex)
  moreover have "\<not> contains_rune splitChars (fst (decode_rune (e @ rest))) \<and> fst (decode_rune (e @ rest)) \<noteq> byte escapeChar"
  proof (cases "byte c < 128")
    case True
    then show ?thesis using e by (simp add: decode_rune.simps Let_def)
  next
    case False
    then have "128 \<le> fst (decode_rune (e @ rest))" using decode_rune_value [of c "cs @ rest"] e by simp
    then show ?thesis using contains_rune_high [OF _ special_ascii(1)] special_ascii(5) by force
  qed
  ultimately show ?thesis using e by (subst quote_loop.simps) (simp add: case_prod_beta Let_def)
qed

lemma quote_loop_words:
  assumes "list_all2 writes es ws" "goos \<noteq> ''windows''" "sp \<in> set splitChars"
  shows "quote_loop goos (join [sp] es) words = (words @ ws, None)"
  using assms(1)
proof (induction es ws arbitrary: words rule: list_all2_induct)
  case (Cons e es w ws)
  have sp: "sh_lex False Raw (sp # rest) = Inr ([], rest)" for rest using assms(3) char_facts by auto
  show ?case
  proof (cases es)
    case Nil
    then show ?thesis
      using quote_loop_word [OF Cons(1) assms(2), of "[]" "[]" words] Cons(2) by (simp add: quote_loop.simps)
  next
    case (Cons e' es')
    then show ?thesis
      using quote_loop_word [OF \<open>writes e w\<close> assms(2) sp, of "join [sp] es" words] Cons.IH by simp
  qed
qed (simp add: quote_loop.simps)

section \<open>Properties\<close>

text \<open>C20: the rune-based state machine of \<^verbatim>\<open>splitWord\<close>, with its two slices and its jumps, cuts every byte string,
  valid UTF-8 or not, exactly as the byte-wise quoting rules of the shell do (on Windows with backslashes kept).\<close>

theorem split_word_lexes: "splitWord goos input = sh_lex (goos = ''windows'') Raw input"
  by (rule splitWord_lex)



end
