(* ===== verification/Commands.thy ===== *)
theory Commands
  imports Processes Shell_Quote
begin

text \<open>
  The plugins that run programs and read what they print: \<^verbatim>\<open>plugins/exec\<close>, \<^verbatim>\<open>plugins/scriptfilter\<close> and
  \<^verbatim>\<open>plugins/journaltail\<close>, with \<^verbatim>\<open>digcore/pkg/cmdx\<close>. A program is a function from its name and arguments to how it ends;
  decoding JSON, expanding globs and matching patterns are arguments. For the journal the theory states what
  \<^verbatim>\<open>journalctl\<close> documents of its cursors as a hypothesis on the runs, and proves that every line is read exactly once.
\<close>

section \<open>Running programs\<close>

text \<open>A buffer that keeps the first bytes written to it.\<close>

definition limited_Write :: "nat \<Rightarrow> string \<Rightarrow> string \<Rightarrow> string" where
  "limited_Write limit buf p =
     (if limit > length buf then if length p > limit - length buf then buf @ take (limit - length buf) p else buf @ p else buf)"

definition captured :: "nat \<Rightarrow> string list \<Rightarrow> string" where
  "captured limit chunks = foldl (limited_Write limit) [] chunks"

definition maxStdoutBytes :: nat where "maxStdoutBytes = 2 ^ 20"
definition maxStderrBytes :: nat where "maxStderrBytes = 256 * 2 ^ 10"

text \<open>The loop that reads up to each carriage return and drops it.\<close>

function cr_loop :: "string \<Rightarrow> string" where
  "cr_loop b =
     (case index_byte (CHR 0x0D) b of
        None \<Rightarrow> trim_right (\<lambda>c. c = CHR 0x0D) b
      | Some i \<Rightarrow> trim_right (\<lambda>c. c = CHR 0x0D) (take (i + 1) b) @ cr_loop (drop (i + 1) b))"
  by pat_completeness auto

termination
  by (relation "measure length") (auto dest: index_byte_Some)

declare cr_loop.simps [simp del]

definition RemoveWindowsCarriageReturns :: "string \<Rightarrow> string \<Rightarrow> string" where
  "RemoveWindowsCarriageReturns goos b = (if goos = ''windows'' then cr_loop b else b)"

fun quote_error_text :: "quote_error \<Rightarrow> string" where
  "quote_error_text UnterminatedSingleQuoteError = ''Unterminated single-quoted string''"
| "quote_error_text UnterminatedDoubleQuoteError = ''Unterminated double-quoted string''"
| "quote_error_text UnterminatedEscapeError = ''Unterminated backslash-escape''"

text \<open>The words of a command, or the error of the split as \<^verbatim>\<open>fmt\<close> prints it: \<^verbatim>\<open>%v\<close> and \<^verbatim>\<open>%s\<close> differ on no error.\<close>

definition split_command :: "string \<Rightarrow> string \<Rightarrow> string \<Rightarrow> string + string \<times> string list" where
  "split_command goos none cmdline =
     (let (words, err) = QuoteSplit goos cmdline in
      case (words, err) of
        (w # ws, None) \<Rightarrow> Inr (w, ws)
      | _ \<Rightarrow> Inl (case err of Some e \<Rightarrow> quote_error_text e | None \<Rightarrow> none))"

definition CommandRun :: "string \<Rightarrow> runner \<Rightarrow> string \<Rightarrow> string \<times> string \<times> run_error option" where
  "CommandRun goos run cmdline =
     (case split_command goos ''%!s(<nil>)'' cmdline of
        Inl e \<Rightarrow> ([], [], Some (RunError (''exec: unable to parse command, '' @ e)))
      | Inr (name, args) \<Rightarrow>
          case run name args of
            TimedOut _ _ \<Rightarrow> ([], [], Some (RunError (''exec '' @ cmdline @ '' timeout'')))
          | Ended out err runError \<Rightarrow> (RemoveWindowsCarriageReturns goos (concat out), RemoveWindowsCarriageReturns goos (concat err), runError))"

section \<open>Lines that match\<close>

definition matchLine :: "Filter option \<Rightarrow> Filter option \<Rightarrow> string \<Rightarrow> bool" where
  "matchLine inc exc line \<longleftrightarrow>
     (case inc of Some f \<Rightarrow> Match f line | None \<Rightarrow> True) \<and> \<not> (case exc of Some f \<Rightarrow> Match f line | None \<Rightarrow> False)"

definition matched_desc :: "int \<Rightarrow> string list \<Rightarrow> string" where
  "matched_desc maxLines matched =
     ''matched '' @ show_nat (length matched) @ '' lines:'' @ [nl] @ concat (map (\<lambda>line. line @ [nl]) (take (nat maxLines) matched)) @
     (if int (length matched) > maxLines then ''... and '' @ show_int (int (length matched) - maxLines) @ '' more lines'' @ [nl] else [])"

definition matched_event :: "string \<Rightarrow> int \<Rightarrow> string list \<Rightarrow> Event \<Rightarrow> Event" where
  "matched_event severity maxLines matched e = (if matched = [] then e else alert_with severity (matched_desc maxLines matched) e)"

definition match_severity :: "(string \<Rightarrow> string) \<Rightarrow> string \<Rightarrow> string + string" where
  "match_severity quote s =
     (if s = [] then Inr EventStatusWarning
      else if \<not> EventStatusValid s then Inl (''invalid severity '' @ quote s @ '', must be one of: Critical, Warning, Info, Ok'')
      else Inr s)"

definition named_filter :: "compilers \<Rightarrow> string \<Rightarrow> string list \<Rightarrow> string + Filter option" where
  "named_filter cc name ps = map_sum (\<lambda>e. ''failed to compile '' @ name @ '': '' @ e) id (Compile cc ps)"

section \<open>Filtering the output of a script\<close>

record sfilter_Instance =
  sf_Command :: string
  sf_Timeout :: duration
  sf_FilterInclude :: "string list"
  sf_FilterExclude :: "string list"
  sf_MaxLines :: int
  sf_Severity :: string
  sf_includeFilter :: "Filter option"
  sf_excludeFilter :: "Filter option"
  sf_target :: string

definition command_target :: "string \<Rightarrow> string \<Rightarrow> string" where
  "command_target goos cmdline = (case split_command goos [] cmdline of Inl _ \<Rightarrow> cmdline | Inr (name, _) \<Rightarrow> filepath_Base name)"

definition sfilter_Init :: "compilers \<Rightarrow> string \<Rightarrow> sfilter_Instance \<Rightarrow> string + sfilter_Instance" where
  "sfilter_Init cc goos ins =
     (let command = trim_space (sf_Command ins) in
      if command = [] then Inr (ins\<lparr>sf_Command := command\<rparr>)
      else
        sbind (refuse (sf_FilterInclude ins = []) ''filter_include must be configured'') (\<lambda>_.
        sbind (refuse (sf_Timeout ins < 0) ''timeout must be non-negative'') (\<lambda>_.
        sbind (match_severity (quote_str cc) (sf_Severity ins)) (\<lambda>severity.
        sbind (named_filter cc ''filter_include'' (sf_FilterInclude ins)) (\<lambda>inc.
        sbind (named_filter cc ''filter_exclude'' (sf_FilterExclude ins)) (\<lambda>exc.
        Inr (ins\<lparr>sf_Command := command, sf_Timeout := (if sf_Timeout ins = 0 then 10 * Second else sf_Timeout ins),
               sf_MaxLines := (if sf_MaxLines ins \<le> 0 then 10 else sf_MaxLines ins), sf_Severity := severity,
               sf_includeFilter := inc, sf_excludeFilter := exc, sf_target := command_target goos command\<rparr>)))))))"

definition splitLines :: "string \<Rightarrow> string list" where
  "splitLines out = filter (\<lambda>l. l \<noteq> []) (split_at nl out)"

definition formatExecError :: "string \<Rightarrow> string \<Rightarrow> string" where
  "formatExecError err errout =
     (let s = trim_space errout in
      ''command exec failed: '' @ err @ (if s \<noteq> [] then '' (stderr: '' @ (if length s > 256 then take 256 s @ ''...'' else s) @ '')'' else []))"

definition sfilter_event :: "sfilter_Instance \<Rightarrow> Event" where
  "sfilter_event ins = check_event ''scriptfilter::match'' (sf_target ins)"

definition sfilter_Gather :: "string \<Rightarrow> runner \<Rightarrow> sfilter_Instance \<Rightarrow> Event list" where
  "sfilter_Gather goos run ins =
     (if sf_Command ins = [] then []
      else
        let (out, err, e) = CommandRun goos run (sf_Command ins) in
        case e of
          Some (RunError text) \<Rightarrow> [alert_with EventStatusCritical (formatExecError text err) (sfilter_event ins)]
        | _ \<Rightarrow>
            let matched = filter (matchLine (sf_includeFilter ins) (sf_excludeFilter ins)) (splitLines out) in
            [matched_event (sf_Severity ins) (sf_MaxLines ins) matched
               (SetAttrs ((''command'', sf_Command ins) # (if matched \<noteq> [] then [(''matched_count'', show_nat (length matched))] else [])) (sfilter_event ins))])"

section \<open>Following the journal\<close>

record jtail_Instance =
  jt_Units :: "string list"
  jt_Priority :: string
  jt_FilterInclude :: "string list"
  jt_FilterExclude :: "string list"
  jt_MaxLines :: int
  jt_Timeout :: duration
  jt_Severity :: string
  jt_includeFilter :: "Filter option"
  jt_excludeFilter :: "Filter option"
  jt_bin :: string
  jt_cursor :: string
  jt_initSince :: string

definition jtail_Init :: "compilers \<Rightarrow> (string \<Rightarrow> string + string) \<Rightarrow> string \<Rightarrow> string \<Rightarrow> jtail_Instance \<Rightarrow> string + jtail_Instance" where
  "jtail_Init cc look now os ins =
     sbind (linux_only ''journaltail'' os) (\<lambda>_.
     sbind (refuse (jt_FilterInclude ins = []) ''filter_include must be configured'') (\<lambda>_.
     sbind (named_filter cc ''filter_include'' (jt_FilterInclude ins)) (\<lambda>inc.
     sbind (named_filter cc ''filter_exclude'' (jt_FilterExclude ins)) (\<lambda>exc.
     sbind (map_sum (\<lambda>e. ''journalctl not found: '' @ e) id (look ''journalctl'')) (\<lambda>bin.
     sbind (match_severity (quote_str cc) (jt_Severity ins)) (\<lambda>severity.
     Inr (ins\<lparr>jt_MaxLines := (if jt_MaxLines ins \<le> 0 then 10 else jt_MaxLines ins), jt_Timeout := (if jt_Timeout ins = 0 then 30 * Second else jt_Timeout ins),
            jt_includeFilter := inc, jt_excludeFilter := exc, jt_bin := bin, jt_Severity := severity, jt_initSince := now\<rparr>)))))))"

definition jtail_target :: "jtail_Instance \<Rightarrow> string" where
  "jtail_target ins =
     (if jt_Units ins \<noteq> [] then join '','' (jt_Units ins)
      else case jt_FilterInclude ins of
             [] \<Rightarrow> ''journaltail''
           | [f] \<Rightarrow> f
           | f # fs \<Rightarrow> f @ ''(+'' @ show_nat (length fs) @ '')'')"

definition buildArgs :: "jtail_Instance \<Rightarrow> string list" where
  "buildArgs ins =
     [''--no-pager'', ''--no-tail'', ''--show-cursor''] @
     (if jt_cursor ins \<noteq> [] then [''--after-cursor'', jt_cursor ins] else [''--since'', jt_initSince ins]) @
     concat (map (\<lambda>u. [''--unit'', u]) (jt_Units ins)) @
     (if jt_Priority ins \<noteq> [] then [''--priority'', jt_Priority ins] else [])"

fun last_index_of :: "string \<Rightarrow> string \<Rightarrow> nat option" where
  "last_index_of p [] = (if p = [] then Some 0 else None)"
| "last_index_of p (c # cs) =
     (case last_index_of p cs of Some i \<Rightarrow> Some (Suc i) | None \<Rightarrow> if prefix p (c # cs) then Some 0 else None)"

definition cursor_mark :: string where "cursor_mark = ''-- cursor: ''"

definition extractCursor :: "string \<Rightarrow> string" where
  "extractCursor output =
     (case last_index_of cursor_mark output of
        None \<Rightarrow> []
      | Some idx \<Rightarrow>
          let rest = drop (idx + length cursor_mark) output
          in trim_space (case index_byte nl rest of Some e \<Rightarrow> take e rest | None \<Rightarrow> rest))"

definition extractLogLines :: "string \<Rightarrow> string list" where
  "extractLogLines output = filter (\<lambda>l. l \<noteq> [] \<and> \<not> prefix ''-- '' l) (split_at nl output)"

definition jtail_event :: "jtail_Instance \<Rightarrow> Event" where
  "jtail_event ins = check_event ''journaltail::match'' (jtail_target ins)"

text \<open>The error that stops a gather, or the output to parse: an exit code of 1 without error output means that nothing matched.\<close>

definition journal_output :: "jtail_Instance \<Rightarrow> run_end \<Rightarrow> string + string" where
  "journal_output ins r =
     (case r of
        TimedOut _ _ \<Rightarrow> Inl (''journalctl timed out after '' @ dur_string (jt_Timeout ins))
      | Ended out err runErr \<Rightarrow>
          let err = trim_space (captured maxStderrBytes err); fail = (\<lambda>e. Inl (''journalctl exec failed: '' @ e @ '' (stderr: '' @ err @ '')'')) in
          case runErr of
            None \<Rightarrow> Inr (captured maxStdoutBytes out)
          | Some (ExitError code e) \<Rightarrow> if code = 1 \<and> err = [] then Inr (captured maxStdoutBytes out) else fail e
          | Some (RunError e) \<Rightarrow> fail e)"

definition journal_matched :: "jtail_Instance \<Rightarrow> string \<Rightarrow> string list" where
  "journal_matched ins output = filter (matchLine (jt_includeFilter ins) (jt_excludeFilter ins)) (extractLogLines output)"

definition jtail_Gather :: "runner \<Rightarrow> jtail_Instance \<Rightarrow> jtail_Instance \<times> Event list" where
  "jtail_Gather run ins =
     (case journal_output ins (run (jt_bin ins) (buildArgs ins)) of
        Inl e \<Rightarrow> (ins, [alert_with EventStatusCritical e (jtail_event ins)])
      | Inr output \<Rightarrow>
          let newCursor = extractCursor output; matched = journal_matched ins output;
              attrs = (if jt_Units ins \<noteq> [] then [(''units'', join '', '' (jt_Units ins))] else []) @
                (if jt_Priority ins \<noteq> [] then [(''priority'', jt_Priority ins)] else []) @
                (if matched \<noteq> [] then [(''matched_count'', show_nat (length matched))] else []) in
          (if newCursor \<noteq> [] then ins\<lparr>jt_cursor := newCursor\<rparr> else ins,
           [matched_event (jt_Severity ins) (jt_MaxLines ins) matched (SetAttrs attrs (jtail_event ins))]))"

section \<open>Running scripts for events\<close>

record exec_Instance =
  ec_Commands :: "string list"
  ec_Timeout :: duration
  ec_Concurrency :: int
  ec_Mode :: string
  ec_EnvVars :: "(string, string) gomap"

text \<open>The system a script runs on: the program with its environment (none stands for the one of the agent), the environment of the agent,
  \<^verbatim>\<open>filepath.Glob\<close> (no answer for a malformed pattern) and \<^verbatim>\<open>json.Unmarshal\<close> of a list of events that may be \<^verbatim>\<open>null\<close>.\<close>

record exec_world =
  xw_goos :: string
  xw_run :: "string list option \<Rightarrow> runner"
  xw_environ :: "string list"
  xw_glob :: "string \<Rightarrow> string list option"
  xw_json :: "string \<Rightarrow> string + Event option list"

definition exec_Init :: "exec_Instance \<Rightarrow> string + exec_Instance" where
  "exec_Init ins =
     (if ec_Commands ins = [] then Inr ins
      else
        let mode = (if ec_Mode ins = [] then ''json'' else ec_Mode ins) in
        sbind (refuse (mode \<noteq> ''json'' \<and> mode \<noteq> ''nagios'') (''mode must be '' @ squoted ''json'' @ '' or '' @ squoted ''nagios'' @ '', got '' @ squoted mode)) (\<lambda>_.
        Inr (ins\<lparr>ec_Timeout := (if ec_Timeout ins = 0 then 10 * Second else ec_Timeout ins),
               ec_Concurrency := (if ec_Concurrency ins = 0 then 5 else ec_Concurrency ins), ec_Mode := mode\<rparr>)))"

definition expand_command :: "exec_world \<Rightarrow> string \<Rightarrow> string list" where
  "expand_command w pattern =
     (let cmdAndArgs = split_two (CHR '' '') pattern in
      case xw_glob w (hd cmdAndArgs) of
        None \<Rightarrow> []
      | Some [] \<Rightarrow> [pattern]
      | Some matches \<Rightarrow> map (\<lambda>m. join '' '' (m # tl cmdAndArgs)) matches)"

definition exec_commands :: "exec_world \<Rightarrow> exec_Instance \<Rightarrow> string list" where
  "exec_commands w ins = concat (map (expand_command w) (ec_Commands ins))"

definition combineOutput :: "string \<Rightarrow> string \<Rightarrow> string" where
  "combineOutput out err = (if out = [] then err else if err = [] then out else out @ [nl] @ err)"

definition exec_truncate :: "string \<Rightarrow> nat \<Rightarrow> string" where
  "exec_truncate b n = (if length b \<le> n then b else drop_invalid (take n b) @ ''... (truncated)'')"

definition exec_error :: "string \<Rightarrow> string \<Rightarrow> string \<Rightarrow> Event" where
  "exec_error cmdline err output =
     alert_with EventStatusCritical (''command exec failed: '' @ err @ (if output \<noteq> [] then [nl] @ exec_truncate output 1024 else []))
       (check_event ''exec::error'' cmdline)"

text \<open>The error of a run with what was captured, or the outputs and the exit code.\<close>

definition runCommand :: "exec_world \<Rightarrow> exec_Instance \<Rightarrow> string \<Rightarrow> string \<times> string \<times> (string + int)" where
  "runCommand w ins cmdline =
     (case split_command (xw_goos w) ''<nil>'' cmdline of
        Inl e \<Rightarrow> ([], [], Inl (''unable to parse command: '' @ e))
      | Inr (name, args) \<Rightarrow>
          let env = (if ec_EnvVars ins \<noteq> [] then Some (xw_environ w @ map (\<lambda>(k, v). k @ ''='' @ v) (ec_EnvVars ins)) else None);
              outResult = (\<lambda>chunks. RemoveWindowsCarriageReturns (xw_goos w) (captured maxStdoutBytes chunks));
              errResult = (\<lambda>chunks. RemoveWindowsCarriageReturns (xw_goos w) (captured maxStderrBytes chunks)) in
          case xw_run w env name args of
            TimedOut out err \<Rightarrow> (outResult out, errResult err, Inl (''command timed out after '' @ dur_string (ec_Timeout ins)))
          | Ended out err None \<Rightarrow> (outResult out, errResult err, Inr 0)
          | Ended out err (Some (ExitError code _)) \<Rightarrow> (outResult out, errResult err, Inr code)
          | Ended out err (Some (RunError e)) \<Rightarrow> ([], errResult err, Inl e))"

definition nagiosExitCodeToStatus :: "int \<Rightarrow> string" where
  "nagiosExitCodeToStatus code =
     (if code = 0 then EventStatusOk else if code = 1 then EventStatusWarning else EventStatusCritical)"

definition nagios_parts :: "string \<Rightarrow> string \<times> string \<times> string" where
  "nagios_parts out =
     (let output = trim_space out in
      if output = [] then ([], [], [])
      else
        let lines = split_two nl output; parts = split_two (CHR ''|'') (lines ! 0) in
        (trim_space (parts ! 0), if length parts > 1 then trim_space (parts ! 1) else [], if length lines > 1 then trim_space (lines ! 1) else []))"

definition gatherNagios :: "string \<Rightarrow> string \<Rightarrow> int \<Rightarrow> Event list" where
  "gatherNagios cmdline out exitCode =
     (let (statusLine, perfData, longText) = nagios_parts out;
          attrs = [(''exit_code'', show_int exitCode)] @ (if statusLine \<noteq> [] then [(''status'', statusLine)] else []) @
            (if perfData \<noteq> [] then [(''perfdata'', perfData)] else []);
          desc = (if statusLine = [] then ''exit code '' @ show_int exitCode else statusLine) @ (if longText \<noteq> [] then [nl] @ longText else []) in
      [alert_with (nagiosExitCodeToStatus exitCode) desc (SetAttrs attrs (check_event ''exec::nagios'' cmdline))])"

definition json_event :: "Event \<Rightarrow> Event" where
  "json_event e = (if EventStatus e = [] then SetEventStatus EventStatusCritical e else e)"

definition gatherJSON :: "exec_world \<Rightarrow> string \<Rightarrow> string \<Rightarrow> int \<Rightarrow> Event list" where
  "gatherJSON w cmdline out exitCode =
     (if exitCode \<noteq> 0 then [exec_error cmdline (''non-zero exit code '' @ show_int exitCode) out]
      else if out = [] then [exec_error cmdline ''command produced no output'' []]
      else case xw_json w out of
             Inl e \<Rightarrow> [exec_error cmdline (''failed to parse JSON: '' @ e) out]
           | Inr events \<Rightarrow> map json_event (List.map_filter id events))"

definition exec_gather :: "exec_Instance \<Rightarrow> exec_world \<Rightarrow> string \<Rightarrow> Event list" where
  "exec_gather ins w cmdline =
     (case runCommand w ins cmdline of
        (out, err, Inl e) \<Rightarrow> [exec_error cmdline e (combineOutput out err)]
      | (out, err, Inr exitCode) \<Rightarrow> if ec_Mode ins = ''nagios'' then gatherNagios cmdline out exitCode else gatherJSON w cmdline out exitCode)"

definition exec_panic :: "string \<Rightarrow> string \<Rightarrow> Event" where
  "exec_panic cmdline r = alert_with EventStatusCritical (''panic during check: '' @ r) (check_event ''exec::error'' cmdline)"

text \<open>The queues of a gather: the goroutines of the commands interleave.\<close>

definition exec_Gather :: "exec_Instance \<Rightarrow> exec_world \<Rightarrow> Event list set" where
  "exec_Gather ins w = merges (map (exec_gather ins w) (exec_commands w ins))"

section \<open>What is kept of an output\<close>

text \<open>However the output arrives, its first bytes are kept.\<close>

lemma captured_take: "captured limit chunks = take limit (concat chunks)"
proof -
  have "foldl (limited_Write limit) (take limit s) chunks = take limit (s @ concat chunks)" for s
  proof (induct chunks arbitrary: s)
    case (Cons p chunks)
    have "limited_Write limit (take limit s) p = take limit (s @ p)"
      by (auto simp: limited_Write_def min_def)
    then show ?case using Cons [of "s @ p"] by simp
  qed simp
  from this [of "[]"] show ?thesis by (simp add: captured_def)
qed

lemma trim_right_filter: "list_all (\<lambda>c. \<not> p c) s \<Longrightarrow> trim_right p s = s"
  by (cases s rule: rev_cases) (auto simp: trim_right_def)

text \<open>The loop removes every carriage return and nothing else.\<close>

lemma cr_loop_filter: "cr_loop b = filter (\<lambda>c. c \<noteq> CHR 0x0D) b"
proof (induct b rule: cr_loop.induct)
  case (1 b)
  show ?case
  proof (cases "index_byte (CHR 0x0D) b")
    case None
    then have "CHR 0x0D \<notin> set b" by (simp add: index_byte_None_iff)
    then have "trim_right (\<lambda>c. c = CHR 0x0D) b = b" "filter (\<lambda>c. c \<noteq> CHR 0x0D) b = b"
      by (auto intro!: trim_right_filter simp: list_all_iff filter_id_conv)
    then show ?thesis using None by (subst cr_loop.simps) simp
  next
    case (Some i)
    then have i: "i < length b" "b ! i = CHR 0x0D" "CHR 0x0D \<notin> set (take i b)" using index_byte_Some by blast+
    have "trim_right (\<lambda>c. c = CHR 0x0D) (take i b) = take i b"
      using i(3) by (intro trim_right_filter) (auto simp: list_all_iff)
    then have "trim_right (\<lambda>c. c = CHR 0x0D) (take (i + 1) b) = take i b"
      using i by (simp add: take_Suc_conv_app_nth trim_right_def)
    moreover have "filter (\<lambda>c. c \<noteq> CHR 0x0D) b = take i b @ filter (\<lambda>c. c \<noteq> CHR 0x0D) (drop (i + 1) b)"
    proof -
      have keep: "filter (\<lambda>c. c \<noteq> CHR 0x0D) (take i b) = take i b" using i(3) by (auto simp: filter_id_conv)
      have "b = take i b @ CHR 0x0D # drop (i + 1) b" using id_take_nth_drop [OF i(1)] i(2) by simp
      from arg_cong [OF this, of "filter (\<lambda>c. c \<noteq> CHR 0x0D)"] show ?thesis using keep by simp
    qed
    ultimately show ?thesis using 1 Some by (subst cr_loop.simps) simp
  qed
qed

section \<open>Every line of the journal once\<close>

text \<open>
  The entries the filters of an instance select, each with its cursor and its line. What \<^verbatim>\<open>journalctl\<close> documents: it prints the
  entries after the given cursor, or since the given time, and with \<^verbatim>\<open>--show-cursor\<close> the cursor of the last entry after them.
\<close>

type_synonym journal = "(string \<times> string) list"

definition entry_text :: "journal \<Rightarrow> string" where
  "entry_text es = concat (map (\<lambda>(_, line). line @ [nl]) es)"

definition shown :: "journal \<Rightarrow> string" where
  "shown es = (if es = [] then ''-- No entries --'' @ [nl] else entry_text es @ cursor_mark @ fst (last es) @ [nl])"

definition visible :: "journal \<Rightarrow> jtail_Instance \<Rightarrow> journal" where
  "visible J ins = (if jt_cursor ins = [] then J else tl (dropWhile (\<lambda>e. fst e \<noteq> jt_cursor ins) J))"

definition prints :: "runner \<Rightarrow> jtail_Instance \<Rightarrow> journal \<Rightarrow> bool" where
  "prints run ins es \<longleftrightarrow> (\<exists>chunks. run (jt_bin ins) (buildArgs ins) = Ended chunks [] None \<and> concat chunks = shown es)"

definition journal_ok :: "journal \<Rightarrow> bool" where
  "journal_ok J \<longleftrightarrow>
     distinct (map fst J) \<and>
     list_all (\<lambda>(c, line). c \<noteq> [] \<and> trim_space c = c \<and> nl \<notin> set c \<and> \<not> sublist cursor_mark (tl (cursor_mark @ c @ [nl])) \<and>
       line \<noteq> [] \<and> nl \<notin> set line \<and> \<not> prefix ''-- '' line) J"

text \<open>A sequence of gathers while the journal grows: at each one \<^verbatim>\<open>journalctl\<close> prints what it documents, within the bytes the plugin keeps.\<close>

fun watched :: "journal \<Rightarrow> jtail_Instance \<Rightarrow> (runner \<times> journal) list \<Rightarrow> bool" where
  "watched J ins [] \<longleftrightarrow> True"
| "watched J ins ((run, new) # steps) \<longleftrightarrow>
     journal_ok (J @ new) \<and> prints run ins (visible (J @ new) ins) \<and> length (shown (visible (J @ new) ins)) \<le> maxStdoutBytes \<and>
     watched (J @ new) (fst (jtail_Gather run ins)) steps"

text \<open>The lines the gathers match, in order.\<close>

fun lines_read :: "jtail_Instance \<Rightarrow> (runner \<times> journal) list \<Rightarrow> string list" where
  "lines_read ins [] = []"
| "lines_read ins ((run, _) # steps) =
     (case journal_output ins (run (jt_bin ins) (buildArgs ins)) of Inl _ \<Rightarrow> [] | Inr output \<Rightarrow> journal_matched ins output) @
     lines_read (fst (jtail_Gather run ins)) steps"

lemma last_index_of_None: "last_index_of p s = None \<longleftrightarrow> \<not> sublist p s"
  by (induct s) (auto simp: sublist_Cons_right split: option.split)

lemma last_index_append: "last_index_of p s = Some i \<Longrightarrow> last_index_of p (t @ s) = Some (length t + i)"
  by (induct t) auto

lemma last_index_mark:
  assumes "\<not> sublist p (tl (p @ r))" "p \<noteq> []"
  shows "last_index_of p (t @ p @ r) = Some (length t)"
proof -
  obtain c p' where p: "p = c # p'" using assms(2) by (cases p) auto
  have "last_index_of p (p @ r) = Some 0"
    using assms(1) last_index_of_None [of p "p' @ r"] by (simp add: p)
  then show ?thesis using last_index_append by fastforce
qed

lemma split_at_text: "list_all (\<lambda>(_, line). nl \<notin> set line) es \<Longrightarrow> split_at nl (entry_text es @ r) = map snd es @ split_at nl r"
proof (induct es)
  case (Cons e es)
  then show ?case by (cases e) (simp add: entry_text_def split_at_first)
qed (simp add: entry_text_def)

lemma extract_shown:
  assumes "journal_ok es"
  shows "extractLogLines (shown es) = map snd es" "es \<noteq> [] \<Longrightarrow> extractCursor (shown es) = fst (last es)" "extractCursor (shown []) = []"
proof -
  have lines: "list_all (\<lambda>(_, line). nl \<notin> set line) es" "filter (\<lambda>l. l \<noteq> [] \<and> \<not> prefix ''-- '' l) (map snd es) = map snd es"
    using assms by (auto simp: journal_ok_def list_all_iff filter_id_conv)
  have last: "es \<noteq> [] \<Longrightarrow> nl \<notin> set (cursor_mark @ fst (last es))"
    using assms by (auto simp: journal_ok_def list_all_iff cursor_mark_def nl_def dest!: last_in_set)
  show "extractLogLines (shown es) = map snd es"
  proof (cases "es = []")
    case True
    have "split_at nl (''-- No entries --'' @ [nl]) = [''-- No entries --'', []]" by code_simp
    then show ?thesis using True by (simp add: extractLogLines_def shown_def)
  next
    case False
    have "split_at nl (shown es) = map snd es @ [cursor_mark @ fst (last es), []]"
      using split_at_text [OF lines(1)] split_at_first [OF last [OF False], of "[]"] False by (simp add: shown_def)
    then show ?thesis using lines(2) by (simp add: extractLogLines_def cursor_mark_def)
  qed
  show "extractCursor (shown es) = fst (last es)" if ne: "es \<noteq> []"
  proof -
    let ?c = "fst (last es)"
    have c: "\<not> sublist cursor_mark (tl (cursor_mark @ ?c @ [nl]))" "nl \<notin> set ?c" "trim_space ?c = ?c"
      using assms last_in_set [OF ne] by (auto simp: journal_ok_def list_all_iff)
    have "last_index_of cursor_mark (shown es) = Some (length (entry_text es))"
      using last_index_mark [OF c(1), of "entry_text es"] ne by (simp add: shown_def cursor_mark_def)
    then show ?thesis
      using c(2,3) ne index_byte_append [OF c(2), of "[]"] by (simp add: extractCursor_def shown_def)
  qed
  show "extractCursor (shown []) = []" by code_simp
qed

lemma journal_ok_append: "journal_ok (J @ new) \<Longrightarrow> journal_ok J \<and> journal_ok new"
  by (auto simp: journal_ok_def)

text \<open>With the cursor at the last entry of what was read, a run shows exactly what is new.\<close>

definition at_end :: "journal \<Rightarrow> jtail_Instance \<Rightarrow> bool" where
  "at_end J ins \<longleftrightarrow> jt_cursor ins = (if J = [] then [] else fst (last J))"

lemma visible_new:
  assumes "at_end J ins" "journal_ok (J @ new)"
  shows "visible (J @ new) ins = new"
proof (cases J rule: rev_cases)
  case (snoc J' e)
  have "fst e \<notin> fst ` set J'" "fst e \<noteq> []"
    using assms(2) snoc by (auto simp: journal_ok_def list_all_iff)
  then have "\<forall>x \<in> set J'. fst x \<noteq> fst e" by (metis image_eqI)
  then have "dropWhile (\<lambda>x. fst x \<noteq> fst e) (J' @ e # new) = e # new"
    by (subst dropWhile_append2) auto
  then show ?thesis using assms(1) snoc \<open>fst e \<noteq> []\<close> by (simp add: visible_def at_end_def)
qed (use assms in \<open>simp add: visible_def at_end_def\<close>)

lemma gather_new:
  assumes "at_end J ins" "journal_ok (J @ new)" "prints run ins (visible (J @ new) ins)" "length (shown (visible (J @ new) ins)) \<le> maxStdoutBytes"
  shows "journal_output ins (run (jt_bin ins) (buildArgs ins)) = Inr (shown new)"
    "journal_matched ins (shown new) = filter (matchLine (jt_includeFilter ins) (jt_excludeFilter ins)) (map snd new)"
    "fst (jtail_Gather run ins) = (if new = [] then ins else ins\<lparr>jt_cursor := fst (last new)\<rparr>)"
proof -
  note new = visible_new [OF assms(1,2)] and ok = conjunct2 [OF journal_ok_append [OF assms(2)]]
  obtain chunks where "run (jt_bin ins) (buildArgs ins) = Ended chunks [] None" "concat chunks = shown new"
    using assms(3) by (auto simp: prints_def new)
  then show out: "journal_output ins (run (jt_bin ins) (buildArgs ins)) = Inr (shown new)"
    using assms(4) by (simp add: journal_output_def captured_take new)
  show "journal_matched ins (shown new) = filter (matchLine (jt_includeFilter ins) (jt_excludeFilter ins)) (map snd new)"
    by (simp add: journal_matched_def extract_shown(1) [OF ok])
  have "new \<noteq> [] \<Longrightarrow> fst (last new) \<noteq> []"
    using ok last_in_set [of new] by (auto simp: journal_ok_def list_all_iff case_prod_beta)
  then show "fst (jtail_Gather run ins) = (if new = [] then ins else ins\<lparr>jt_cursor := fst (last new)\<rparr>)"
    using extract_shown(2,3) [OF ok] by (auto simp: jtail_Gather_def out Let_def)
qed

lemma lines_read_new:
  "at_end J ins \<Longrightarrow> watched J ins steps \<Longrightarrow>
   lines_read ins steps = filter (matchLine (jt_includeFilter ins) (jt_excludeFilter ins)) (map snd (concat (map snd steps)))"
proof (induct steps arbitrary: J ins)
  case (Cons step steps)
  obtain run new where step: "step = (run, new)" by fastforce
  note gather = gather_new [OF Cons(2), of new run]
  have w: "journal_ok (J @ new)" "prints run ins (visible (J @ new) ins)" "length (shown (visible (J @ new) ins)) \<le> maxStdoutBytes"
    "watched (J @ new) (fst (jtail_Gather run ins)) steps"
    using Cons(3) step by simp_all
  have "at_end (J @ new) (fst (jtail_Gather run ins))"
    using Cons(2) gather(3) w(1-3) by (simp add: at_end_def)
  note rest = Cons(1) [OF this w(4)]
  have "matchLine (jt_includeFilter (fst (jtail_Gather run ins))) (jt_excludeFilter (fst (jtail_Gather run ins))) =
    matchLine (jt_includeFilter ins) (jt_excludeFilter ins)"
    using gather(3) w(1-3) by simp
  then show ?case using rest gather(1,2) w(1-3) by (simp add: step)
qed simp


definition oom_tail :: jtail_Instance where
  "oom_tail = \<lparr>jt_Units = [], jt_Priority = [], jt_FilterInclude = [''oom''], jt_FilterExclude = [], jt_MaxLines = 10, jt_Timeout = Second,
     jt_Severity = EventStatusWarning, jt_includeFilter = Some (FilterSingle ''oom''), jt_excludeFilter = None, jt_bin = ''journalctl'', jt_cursor = [],
     jt_initSince = ''now''\<rparr>"

definition replay :: "journal \<Rightarrow> runner" where
  "replay es name args = Ended [shown es] [] None"

lemma replay_prints: "prints (replay es) ins es"
  by (auto simp: prints_def replay_def)

lemma small_output: "length s \<le> 1000 \<Longrightarrow> length s \<le> maxStdoutBytes"
  by (simp add: maxStdoutBytes_def)


text \<open>When the new lines fill the buffer, the cursor line after them is cut off: the cursor stays, and every later gather reads the
  same first bytes again, whatever the journal has gained.\<close>

lemma journal_cut:
  assumes "prints run ins es" "es \<noteq> []" "length (entry_text es) \<ge> maxStdoutBytes" "\<not> sublist cursor_mark (take maxStdoutBytes (entry_text es))"
  shows "journal_output ins (run (jt_bin ins) (buildArgs ins)) = Inr (take maxStdoutBytes (entry_text es))" "fst (jtail_Gather run ins) = ins"
proof -
  obtain chunks where "run (jt_bin ins) (buildArgs ins) = Ended chunks [] None" "concat chunks = shown es"
    using assms(1) by (auto simp: prints_def)
  then show out: "journal_output ins (run (jt_bin ins) (buildArgs ins)) = Inr (take maxStdoutBytes (entry_text es))"
    using assms(2,3) by (simp add: journal_output_def captured_take shown_def)
  show "fst (jtail_Gather run ins) = ins"
    using assms(4) by (simp add: jtail_Gather_def out Let_def extractCursor_def last_index_of_None [THEN iffD2])
qed

theorem journal_overflow_stuck:
  assumes "prints run ins es" "es \<noteq> []" "length (entry_text es) \<ge> maxStdoutBytes" "\<not> sublist cursor_mark (take maxStdoutBytes (entry_text es))"
    "prints run' ins (es @ new)"
  shows "jtail_Gather run' (fst (jtail_Gather run ins)) = jtail_Gather run ins"
proof -
  have same: "take maxStdoutBytes (entry_text (es @ new)) = take maxStdoutBytes (entry_text es)"
    using assms(3) by (simp add: entry_text_def)
  note first = journal_cut [OF assms(1-4)]
  have "journal_output ins (run' (jt_bin ins) (buildArgs ins)) = Inr (take maxStdoutBytes (entry_text es))"
    using journal_cut(1) [OF assms(5)] assms(2-4) same by (simp add: entry_text_def)
  then show ?thesis using first by (simp add: jtail_Gather_def)
qed

section \<open>Alerts of scripts\<close>

text \<open>once a script runs, whatever its exit code, its alert is open exactly when a line of its output that is not empty matches the filters.\<close>

theorem sfilter_alert_exact:
  assumes "sf_Command ins \<noteq> []" "sf_Severity ins \<noteq> EventStatusOk" "CommandRun goos run (sf_Command ins) = (out, err, e)" "\<forall>text. e \<noteq> Some (RunError text)"
  shows "owed ''scriptfilter::match'' (sf_target ins) (q @ sfilter_Gather goos run ins) \<longleftrightarrow>
    list_ex (\<lambda>line. line \<noteq> [] \<and> matchLine (sf_includeFilter ins) (sf_excludeFilter ins) line) (split_at nl out)"
proof -
  let ?m = "filter (matchLine (sf_includeFilter ins) (sf_excludeFilter ins)) (splitLines out)"
  have "e = None \<or> (\<exists>code text. e = Some (ExitError code text))"
    using assms(4) by (metis not_None_eq run_error.exhaust)
  then obtain attrs where "sfilter_Gather goos run ins = [matched_event (sf_Severity ins) (sf_MaxLines ins) ?m (SetAttrs attrs (sfilter_event ins))]"
    using assms(1,3) that by (auto simp: sfilter_Gather_def Let_def)
  then have "owed ''scriptfilter::match'' (sf_target ins) (q @ sfilter_Gather goos run ins) \<longleftrightarrow> ?m \<noteq> []"
    using assms(2) by (simp add: owed_push matched_event_def sfilter_event_def)
  then show ?thesis by (auto simp: splitLines_def list_ex_iff filter_empty_conv)
qed

interpretation nagios: probe "\<lambda>w cmdline. gatherNagios cmdline (fst w) (snd w)" "''exec::nagios''"
  by unfold_locales (auto simp: gatherNagios_def Let_def split: prod.split)

definition ran :: "exec_world \<Rightarrow> exec_Instance \<Rightarrow> string \<Rightarrow> string \<Rightarrow> int \<Rightarrow> bool" where
  "ran w ins cmdline out code \<longleftrightarrow> (\<exists>err. runCommand w ins cmdline = (out, err, Inr code))"

lemma exec_gather_nagios: "ec_Mode ins = ''nagios'' \<Longrightarrow> ran w ins cmdline out code \<Longrightarrow> exec_gather ins w cmdline = gatherNagios cmdline out code"
  by (auto simp: exec_gather_def ran_def)

text \<open>in the mode of Nagios plugins, when every command runs, the alert of a command is open exactly when its exit code is not zero, however the
  goroutines interleave.\<close>

theorem nagios_alert_exact:
  assumes "ec_Mode ins = ''nagios''" "distinct (exec_commands w ins)" "\<forall>c \<in> set (exec_commands w ins). ran w ins c (out c) (code c)"
    "cmdline \<in> set (exec_commands w ins)" "es \<in> exec_Gather ins w"
  shows "owed ''exec::nagios'' cmdline (q @ es) \<longleftrightarrow> code cmdline \<noteq> 0"
proof -
  let ?wts = "map (\<lambda>c. ((out c, code c), c)) (exec_commands w ins)"
  have "map (exec_gather ins w) (exec_commands w ins) = map (\<lambda>(w, t). gatherNagios t (fst w) (snd w)) ?wts"
    using assms(1,3) exec_gather_nagios by auto
  then have es: "es \<in> gathers (\<lambda>w cmdline. gatherNagios cmdline (fst w) (snd w)) ?wts"
    using assms(5) by (simp only: exec_Gather_def gathers_def)
  have "owed ''exec::nagios'' cmdline (q @ es) \<longleftrightarrow> EventStatus (hd (gatherNagios cmdline (out cmdline) (code cmdline))) \<noteq> EventStatusOk"
    using nagios.alert_exact [OF _ _ es, of "(out cmdline, code cmdline)" cmdline q] assms(2,4) by (simp add: comp_def)
  then show ?thesis by (simp add: gatherNagios_def Let_def nagiosExitCodeToStatus_def status_defs split: prod.split)
qed

text \<open>The alert of a command that could not be run has a check of its own, which no successful run of the command reports on again.\<close>

theorem exec_error_never_clears:
  assumes "ec_Mode ins = ''nagios''" "\<forall>c \<in> set (exec_commands w ins). ran w ins c (out c) (code c)" "es \<in> exec_Gather ins w"
  shows "owed ''exec::error'' t (q @ es) = owed ''exec::error'' t q"
proof -
  have one: "filter (\<lambda>e. ev_check e = ''exec::error'' \<and> ev_of e = t) (exec_gather ins w c) = []" if "c \<in> set (exec_commands w ins)" for c
  proof -
    have "exec_gather ins w c = gatherNagios c (out c) (code c)" using assms(1,2) that exec_gather_nagios by blast
    then show ?thesis by (simp add: gatherNagios_def Let_def split: prod.split)
  qed
  have "filter (\<lambda>e. ev_check e = ''exec::error'' \<and> ev_of e = t) es
        \<in> merges (map (filter (\<lambda>e. ev_check e = ''exec::error'' \<and> ev_of e = t)) (map (exec_gather ins w) (exec_commands w ins)))"
    using assms(3) unfolding exec_Gather_def by (rule filter_merges)
  moreover have "list_all (\<lambda>xs. xs = []) (map (filter (\<lambda>e. ev_check e = ''exec::error'' \<and> ev_of e = t)) (map (exec_gather ins w) (exec_commands w ins)))"
    using one by (simp add: list_all_iff)
  ultimately have "filter (\<lambda>e. ev_check e = ''exec::error'' \<and> ev_of e = t) es = []" using merges_empty by blast
  then show ?thesis by (simp add: owed_def)
qed

end
