(* ===== verification/Clock_IO.thy ===== *)
theory Clock_IO
  imports Commands
begin

text \<open>
  The plugins on the clock (\<^verbatim>\<open>plugins/ntp\<close>) and on the latency of block devices (\<^verbatim>\<open>plugins/diskio\<close>). The time tools are programs as
  in \<open>Commands\<close>, and reading a floating-point number is an argument, for the finite numbers the tools print. The
  counters of the devices and the clock are arguments as well.
\<close>

section \<open>Clock synchronisation\<close>

record ntp_Instance =
  nt_Mode :: string
  nt_Timeout :: duration
  nt_Severity :: string
  nt_OffsetWarnGe :: duration
  nt_OffsetCriticalGe :: duration
  nt_StratumWarnGe :: int
  nt_StratumCriticalGe :: int
  nt_detectedMode :: string
  nt_bin :: string

type_synonym look_path = "string \<Rightarrow> string + string"

definition autoDetect :: "look_path \<Rightarrow> string + string \<times> string" where
  "autoDetect look =
     (case look ''chronyc'' of
        Inr bin \<Rightarrow> Inr (''chrony'', bin)
      | Inl _ \<Rightarrow>
          case look ''ntpq'' of
            Inr bin \<Rightarrow> Inr (''ntpd'', bin)
          | Inl _ \<Rightarrow>
              case look ''timedatectl'' of
                Inr bin \<Rightarrow> Inr (''timedatectl'', bin)
              | Inl _ \<Rightarrow> Inl ''no NTP tool found (tried chronyc, ntpq, timedatectl)'')"

definition ntp_tool :: "look_path \<Rightarrow> string \<Rightarrow> string \<Rightarrow> string + string \<times> string" where
  "ntp_tool look mode prog = map_sum (\<lambda>e. prog @ '' not found: '' @ e) (Pair mode) (look prog)"

definition ntp_detect :: "(string \<Rightarrow> string) \<Rightarrow> look_path \<Rightarrow> string \<Rightarrow> string + string \<times> string" where
  "ntp_detect quote look mode =
     (let mode = trim_space mode; mode = (if mode = [] then ''auto'' else mode) in
      if mode = ''auto'' then autoDetect look
      else if mode = ''chrony'' then ntp_tool look mode ''chronyc''
      else if mode = ''ntpd'' then ntp_tool look mode ''ntpq''
      else if mode = ''timedatectl'' then ntp_tool look mode ''timedatectl''
      else Inl (''invalid mode '' @ quote mode @ '', must be one of: auto, chrony, ntpd, timedatectl''))"

definition ntp_Init :: "(string \<Rightarrow> string) \<Rightarrow> look_path \<Rightarrow> string \<Rightarrow> ntp_Instance \<Rightarrow> string + ntp_Instance" where
  "ntp_Init quote look os ins =
     sbind (linux_only ''ntp'' os) (\<lambda>_.
     sbind (refuse (nt_Severity ins \<noteq> [] \<and> \<not> EventStatusValid (nt_Severity ins)) (''invalid sync.severity '' @ quote (nt_Severity ins))) (\<lambda>_.
     sbind (refuse (nt_OffsetWarnGe ins > 0 \<and> nt_OffsetCriticalGe ins > 0 \<and> nt_OffsetWarnGe ins \<ge> nt_OffsetCriticalGe ins)
       (''offset.warn_ge('' @ dur_string (nt_OffsetWarnGe ins) @ '') must be less than offset.critical_ge('' @ dur_string (nt_OffsetCriticalGe ins) @ '')'')) (\<lambda>_.
     sbind (refuse (nt_StratumWarnGe ins > 0 \<and> nt_StratumCriticalGe ins > 0 \<and> nt_StratumWarnGe ins \<ge> nt_StratumCriticalGe ins)
       (''stratum.warn_ge('' @ show_int (nt_StratumWarnGe ins) @ '') must be less than stratum.critical_ge('' @ show_int (nt_StratumCriticalGe ins) @ '')'')) (\<lambda>_.
     sbind (ntp_detect quote look (nt_Mode ins)) (\<lambda>(mode, bin).
     Inr (ins\<lparr>nt_Timeout := (if nt_Timeout ins = 0 then 10 * Second else nt_Timeout ins),
            nt_Severity := (if nt_Severity ins = [] then EventStatusCritical else nt_Severity ins),
            nt_detectedMode := mode, nt_bin := bin\<rparr>))))))"

record ntpResult =
  nr_synced :: bool
  nr_offset :: duration
  nr_stratum :: int
  nr_source :: string
  nr_extra :: labels

definition no_result :: ntpResult where
  "no_result = \<lparr>nr_synced = False, nr_offset = 0, nr_stratum = 0, nr_source = [], nr_extra = []\<rparr>"

type_synonym parse_float = "string \<Rightarrow> real option"

text \<open>\<^verbatim>\<open>time.Duration(f)\<close> drops the fraction.\<close>

definition duration_of :: "real \<Rightarrow> duration" where
  "duration_of x = (if x < 0 then - \<lfloor>- x\<rfloor> else \<lfloor>x\<rfloor>)"

definition parseChronyOffset :: "parse_float \<Rightarrow> string \<Rightarrow> duration" where
  "parseChronyOffset pf v =
     (let fs = Fields v in
      if length fs < 3 then 0
      else case pf (fs ! 0) of
             None \<Rightarrow> 0
           | Some f \<Rightarrow> duration_of ((if contains_text v ''slow'' then - f else f) * real_of_int Second))"

definition with_extra :: "string \<Rightarrow> string \<Rightarrow> ntpResult \<Rightarrow> ntpResult" where
  "with_extra k v r = r\<lparr>nr_extra := m_set k v (nr_extra r)\<rparr>"

text \<open>\<^verbatim>\<open>strconv.Atoi\<close> into a field that keeps its value when the text is no number.\<close>

definition with_stratum :: "string \<Rightarrow> ntpResult \<Rightarrow> ntpResult" where
  "with_stratum v r = (case ParseInt v of Inr n \<Rightarrow> r\<lparr>nr_stratum := n\<rparr> | Inl _ \<Rightarrow> r)"

definition reference_source :: "string \<Rightarrow> ntpResult \<Rightarrow> ntpResult" where
  "reference_source v r =
     (case (index_byte (CHR ''('') v, index_byte (CHR '')'') v) of
        (Some i, Some e) \<Rightarrow> if e > i then r\<lparr>nr_source := take (e - (i + 1)) (drop (i + 1) v)\<rparr> else r
      | _ \<Rightarrow> r)"

definition chrony_line :: "parse_float \<Rightarrow> ntpResult \<Rightarrow> string \<Rightarrow> ntpResult" where
  "chrony_line pf r line =
     (case split_two (CHR '':'') line of
        [k, v] \<Rightarrow>
          let key = trim_space k; v = trim_space v in
          if key = ''Reference ID'' then with_extra ''reference_id'' v (reference_source v r)
          else if key = ''Stratum'' then with_stratum v r
          else if key = ''System time'' then with_extra ''system_time'' v (r\<lparr>nr_offset := parseChronyOffset pf v\<rparr>)
          else if key = ''Last offset'' then with_extra ''last_offset'' v r
          else if key = ''RMS offset'' then with_extra ''rms_offset'' v r
          else if key = ''Leap status'' then (with_extra ''leap_status'' v r)\<lparr>nr_synced := (v = ''Normal'')\<rparr>
          else r
      | _ \<Rightarrow> r)"

definition parseChronyTracking :: "parse_float \<Rightarrow> string \<Rightarrow> ntpResult" where
  "parseChronyTracking pf out = foldl (chrony_line pf) no_result (split_at nl out)"

definition ntpq_peer :: "parse_float \<Rightarrow> ntpResult \<Rightarrow> string list \<Rightarrow> ntpResult" where
  "ntpq_peer pf r fs =
     (let r = with_stratum (fs ! 2) (r\<lparr>nr_source := fs ! 0\<rparr>);
          r = (case pf (fs ! 8) of Some f \<Rightarrow> r\<lparr>nr_offset := duration_of (f * 1000000)\<rparr> | None \<Rightarrow> r) in
      with_extra ''refid'' (fs ! 1) (with_extra ''jitter'' (fs ! 9 @ ''ms'') (with_extra ''delay'' (fs ! 7 @ ''ms'') r)))"

fun ntpq_lines :: "parse_float \<Rightarrow> ntpResult \<Rightarrow> string list \<Rightarrow> ntpResult" where
  "ntpq_lines pf r [] = r"
| "ntpq_lines pf r (l # ls) =
     (let line = trim_space l in
      if line = [] \<or> hd line \<noteq> CHR ''*'' then ntpq_lines pf r ls
      else
        let r = r\<lparr>nr_synced := True\<rparr>; fs = Fields (drop 1 line) in
        if length fs < 10 then ntpq_lines pf r ls else ntpq_peer pf r fs)"

definition parseNtpqOutput :: "parse_float \<Rightarrow> string \<Rightarrow> ntpResult" where
  "parseNtpqOutput pf out = ntpq_lines pf no_result (split_at nl out)"

definition timedatectl_line :: "ntpResult \<Rightarrow> string \<Rightarrow> ntpResult" where
  "timedatectl_line r line =
     (case split_two (CHR ''='') line of
        [k, v] \<Rightarrow>
          let key = trim_space k; v = trim_space v in
          if key = ''NTP'' then with_extra ''ntp_enabled'' v r
          else if key = ''NTPSynchronized'' then with_extra ''ntp_synchronized'' v (r\<lparr>nr_synced := (v = ''yes'')\<rparr>)
          else r
      | _ \<Rightarrow> r)"

definition parseTimedatectl :: "string \<Rightarrow> ntpResult" where
  "parseTimedatectl out = foldl timedatectl_line no_result (split_at nl out)"

definition run_tool :: "ntp_Instance \<Rightarrow> runner \<Rightarrow> string \<Rightarrow> string list \<Rightarrow> string + string" where
  "run_tool ins run what args =
     (case run (nt_bin ins) args of
        TimedOut _ _ \<Rightarrow> Inl (what @ '' timed out after '' @ dur_string (nt_Timeout ins))
      | Ended _ err (Some e) \<Rightarrow> Inl (what @ '' failed: '' @ run_text e @ '' (stderr: '' @ trim_space (concat err) @ '')'')
      | Ended out _ None \<Rightarrow> Inr (concat out))"

definition ntp_query :: "parse_float \<Rightarrow> ntp_Instance \<Rightarrow> runner \<Rightarrow> string + ntpResult" where
  "ntp_query pf ins run =
     (if nt_detectedMode ins = ''chrony'' then map_sum id (parseChronyTracking pf) (run_tool ins run ''chronyc tracking'' [''-n'', ''tracking''])
      else if nt_detectedMode ins = ''ntpd'' then map_sum id (parseNtpqOutput pf) (run_tool ins run ''ntpq -pn'' [''-pn''])
      else if nt_detectedMode ins = ''timedatectl'' then map_sum id parseTimedatectl (run_tool ins run ''timedatectl show'' [''show''])
      else Inl (''unknown mode: '' @ nt_detectedMode ins))"

definition attrLabels :: "ntp_Instance \<Rightarrow> ntpResult \<Rightarrow> labels" where
  "attrLabels ins r =
     m_copy (nr_extra r)
       ([(''mode'', nt_detectedMode ins)] @ (if nr_source r \<noteq> [] then [(''source'', nr_source r)] else []) @
        (if nr_stratum r > 0 then [(''stratum'', show_int (nr_stratum r))] else []))"

definition mergeAttrs :: "labels list \<Rightarrow> labels" where
  "mergeAttrs ms = foldl (\<lambda>acc m. m_copy m acc) [] ms"

definition checkSync :: "ntp_Instance \<Rightarrow> ntpResult \<Rightarrow> Event list" where
  "checkSync ins r =
     (let event = SetCurrentValue (if nr_synced r then ''synced'' else ''not synced'')
            (SetAttrs [(''threshold_desc'', nt_Severity ins @ '': NTP not synchronized'')]
              (SetAttrs (attrLabels ins r) (check_event ''ntp::sync'' ''ntp''))) in
      if nr_synced r then
        [SetDescription (''NTP synchronized (mode: '' @ nt_detectedMode ins @ (if nr_source r \<noteq> [] then '', source: '' @ nr_source r else []) @ '')'') event]
      else
        [alert_with (nt_Severity ins)
           (''NTP not synchronized (mode: '' @ nt_detectedMode ins @
            (case map_of (nr_extra r) ''leap_status'' of Some leap \<Rightarrow> '', leap status: '' @ leap | None \<Rightarrow> []) @ ''), clock may be drifting'') event])"

text \<open>The two limits of a check and its event, described by \<open>text\<close>.\<close>

definition ge_limits :: "('v::linorder \<Rightarrow> string) \<Rightarrow> 'v \<Rightarrow> 'v \<Rightarrow> 'v \<Rightarrow> string list" where
  "ge_limits text zero w c =
     (if w > zero then [''Warning '' @ ge_sign @ '' '' @ text w] else []) @ (if c > zero then [''Critical '' @ ge_sign @ '' '' @ text c] else [])"

definition ge_graded :: "('v::linorder \<Rightarrow> string) \<Rightarrow> string \<Rightarrow> string \<Rightarrow> string \<Rightarrow> 'v \<Rightarrow> 'v \<Rightarrow> 'v \<Rightarrow> 'v \<Rightarrow> Event \<Rightarrow> Event" where
  "ge_graded text what afterc afterw zero w c v event =
     (if c > zero \<and> v \<ge> c then alert_with EventStatusCritical (what @ '' '' @ text v @ '' >= critical threshold '' @ text c @ afterc) event
      else if w > zero \<and> v \<ge> w then alert_with EventStatusWarning (what @ '' '' @ text v @ '' >= warning threshold '' @ text w @ afterw) event
      else SetDescription (what @ '' '' @ text v @ '', everything is ok'') event)"

definition abs_offset :: "ntpResult \<Rightarrow> duration" where
  "abs_offset r = \<bar>float64_of_int (nr_offset r)\<bar>"

definition checkOffset :: "ntp_Instance \<Rightarrow> ntpResult \<Rightarrow> Event list" where
  "checkOffset ins r =
     (let w = nt_OffsetWarnGe ins; c = nt_OffsetCriticalGe ins; absOffset = abs_offset r in
      if w = 0 \<and> c = 0 then []
      else if \<not> nr_synced r then []
      else
        [ge_graded dur_string ''time offset'' [] [] 0 w c absOffset
           (with_parts (ge_limits dur_string 0 w c)
             (SetCurrentValue (dur_string absOffset)
               (SetAttrs (mergeAttrs [attrLabels ins r, [(''offset'', dur_string (nr_offset r)), (''abs_offset'', dur_string absOffset)]])
                 (check_event ''ntp::offset'' ''ntp''))))])"

definition checkStratum :: "ntp_Instance \<Rightarrow> ntpResult \<Rightarrow> Event list" where
  "checkStratum ins r =
     (let w = nt_StratumWarnGe ins; c = nt_StratumCriticalGe ins; stratum = nr_stratum r in
      if w = 0 \<and> c = 0 then []
      else if \<not> nr_synced r then []
      else
        [ge_graded show_int ''NTP stratum'' '' (time source unreliable)'' '' (time source may be unreliable)'' 0 w c stratum
           (with_parts (ge_limits show_int 0 w c)
             (SetCurrentValue (show_int stratum)
               (SetAttrs (mergeAttrs [attrLabels ins r, [(''stratum'', show_int stratum)]]) (check_event ''ntp::stratum'' ''ntp''))))])"

definition ntp_Gather :: "parse_float \<Rightarrow> runner \<Rightarrow> ntp_Instance \<Rightarrow> Event list" where
  "ntp_Gather pf run ins =
     (case ntp_query pf ins run of
        Inl e \<Rightarrow>
          [alert_with (nt_Severity ins) (''NTP query failed ('' @ nt_detectedMode ins @ ''): '' @ e)
             (SetAttrs [(''mode'', nt_detectedMode ins)] (check_event ''ntp::sync'' ''ntp''))]
      | Inr r \<Rightarrow> checkSync ins r @ (if nt_detectedMode ins \<noteq> ''timedatectl'' then checkOffset ins r @ checkStratum ins r else []))"

section \<open>Latency of block devices\<close>

record IOCountersStat =
  io_ReadCount :: nat
  io_WriteCount :: nat
  io_ReadTime :: nat
  io_WriteTime :: nat
  io_IoTime :: nat

record diskio_Instance =
  di_Devices :: "string list"
  di_IgnoreDevices :: "string list"
  di_Enabled :: bool
  di_IOLatency :: threshold
  di_deviceFilter :: "Filter option"
  di_prevCounters :: "(string, IOCountersStat) gomap"
  di_prevTime :: int
  di_deviceTypes :: "(string, string) gomap"
  di_sampled :: bool
  di_disabled :: bool

text \<open>The counters of all devices, the clock, the entries of \<^verbatim>\<open>/sys/block\<close> and their \<^verbatim>\<open>queue/rotational\<close>, where it can be read.\<close>

record io_world =
  iw_counters :: "string + (string, IOCountersStat) gomap"
  iw_now :: int
  iw_block :: "string \<Rightarrow> bool"
  iw_rotational :: "string \<Rightarrow> string option"

definition diskio_Init :: "compilers \<Rightarrow> string \<Rightarrow> diskio_Instance \<Rightarrow> string + diskio_Instance" where
  "diskio_Init cc os ins =
     (if os \<noteq> ''linux'' \<or> \<not> di_Enabled ins then Inr (ins\<lparr>di_disabled := True\<rparr>)
      else
        sbind (map_sum (\<lambda>e. ''diskio: '' @ e) id (th_order (fmt_fixed 1) ''io_latency'' (di_IOLatency ins))) (\<lambda>_.
        sbind (map_sum (\<lambda>e. ''diskio: failed to compile device filter: '' @ e) id (NewIncludeExcludeFilter cc (di_Devices ins) (di_IgnoreDevices ins))) (\<lambda>f.
        Inr (ins\<lparr>di_deviceFilter := Some f, di_prevCounters := [], di_deviceTypes := []\<rparr>))))"

definition shouldSkipVirtual :: "string \<Rightarrow> bool" where
  "shouldSkipVirtual name \<longleftrightarrow> prefix ''loop'' name \<or> prefix ''ram'' name"

definition shouldMonitor :: "io_world \<Rightarrow> diskio_Instance \<Rightarrow> string \<Rightarrow> bool" where
  "shouldMonitor w ins name \<longleftrightarrow>
     \<not> shouldSkipVirtual name \<and> iw_block w name \<and> (case di_deviceFilter ins of Some f \<Rightarrow> Match f name | None \<Rightarrow> True)"

fun first_rotational :: "io_world \<Rightarrow> string list \<Rightarrow> string" where
  "first_rotational w [] = ''?''"
| "first_rotational w (candidate # cs) =
     (case iw_rotational w candidate of
        None \<Rightarrow> first_rotational w cs
      | Some content \<Rightarrow> if trim_space content = ''1'' then ''HDD'' else ''SSD'')"

definition detectDeviceType :: "io_world \<Rightarrow> string \<Rightarrow> string" where
  "detectDeviceType w name =
     (if prefix ''nvme'' name then ''NVMe''
      else first_rotational w [name, trim_right (\<lambda>c. CHR ''0'' \<le> c \<and> c \<le> CHR ''9'') name])"

definition resolveDeviceType :: "io_world \<Rightarrow> string \<Rightarrow> (string, string) gomap \<Rightarrow> string \<times> (string, string) gomap" where
  "resolveDeviceType w name types =
     (case map_of types name of Some dt \<Rightarrow> (dt, types) | None \<Rightarrow> let dt = detectDeviceType w name in (dt, m_set name dt types))"

definition thresholds :: "diskio_Instance \<Rightarrow> string \<Rightarrow> threshold" where
  "thresholds ins devType =
     (if delta_on (di_IOLatency ins) then di_IOLatency ins
      else if devType = ''HDD'' then \<lparr>th_WarnGe = 50, th_CriticalGe = 200\<rparr>
      else if devType = ''SSD'' then \<lparr>th_WarnGe = 20, th_CriticalGe = 100\<rparr>
      else if devType = ''NVMe'' then \<lparr>th_WarnGe = 10, th_CriticalGe = 50\<rparr>
      else \<lparr>th_WarnGe = 100, th_CriticalGe = 500\<rparr>)"

definition total_ios :: "IOCountersStat \<Rightarrow> IOCountersStat \<Rightarrow> nat" where
  "total_ios prev cur = u64 (safeDelta (io_ReadCount cur) (io_ReadCount prev) + safeDelta (io_WriteCount cur) (io_WriteCount prev))"

definition await_ms :: "IOCountersStat \<Rightarrow> IOCountersStat \<Rightarrow> real" where
  "await_ms prev cur =
     (let totalMs = u64 (safeDelta (io_ReadTime cur) (io_ReadTime prev) + safeDelta (io_WriteTime cur) (io_WriteTime prev)) in
      if total_ios prev cur > 0 then real (float64_of_nat totalMs) / real (float64_of_nat (total_ios prev cur)) else 0)"

definition emitEvent :: "diskio_Instance \<Rightarrow> string \<Rightarrow> string \<Rightarrow> IOCountersStat \<Rightarrow> IOCountersStat \<Rightarrow> real \<Rightarrow> Event" where
  "emitEvent ins devType name prev cur elapsedSec =
     (let awaitMs = await_ms prev cur;
          util = real (float64_of_nat (safeDelta (io_IoTime cur) (io_IoTime prev))) / (elapsedSec * 1000) * 100;
          utilPct = (if util > 100 then 100 else util);
          readIOPS = real (float64_of_nat (safeDelta (io_ReadCount cur) (io_ReadCount prev))) / elapsedSec;
          writeIOPS = real (float64_of_nat (safeDelta (io_WriteCount cur) (io_WriteCount prev))) / elapsedSec;
          t = thresholds ins devType; ms = (\<lambda>x. fmt_fixed 1 x @ ''ms'');
          parts = (if th_WarnGe t > 0 then [''Warning >= '' @ ms (th_WarnGe t)] else []) @ (if th_CriticalGe t > 0 then [''Critical >= '' @ ms (th_CriticalGe t)] else []);
          src = (if delta_on (di_IOLatency ins) then ''manual'' else ''auto'');
          attrs = [(''device_type'', devType), (''await_ms'', fmt_fixed 1 awaitMs), (''util_percent'', fmt_fixed 1 utilPct),
                   (''read_iops'', fmt_fixed 1 readIOPS), (''write_iops'', fmt_fixed 1 writeIOPS)] @
            (if parts \<noteq> [] then [(''threshold_desc'', join '', '' parts @ '' ('' @ devType @ '' '' @ src @ '')'')] else []);
          event = SetCurrentValue (ms awaitMs) (SetAttrs attrs (check_event ''diskio::io_latency'' name));
          head = ''device '' @ name @ '' ('' @ devType @ '')''; 
          rates = ''(util '' @ pct 1 utilPct @ '', read '' @ fmt_fixed 1 readIOPS @ '' IOPS, write '' @ fmt_fixed 1 writeIOPS @ '' IOPS)'';
          above = (\<lambda>level l. head @ '' await '' @ ms awaitMs @ '' >= '' @ level @ '' threshold '' @ ms l @ '' '' @ rates) in
      if total_ios prev cur = 0 then SetDescription (head @ '' idle, no IO during sampling interval'') event
      else if th_CriticalGe t > 0 \<and> awaitMs \<ge> th_CriticalGe t then alert_with EventStatusCritical (above ''critical'' (th_CriticalGe t)) event
      else if th_WarnGe t > 0 \<and> awaitMs \<ge> th_WarnGe t then alert_with EventStatusWarning (above ''warning'' (th_WarnGe t)) event
      else SetDescription (head @ '' await '' @ ms awaitMs @ '', healthy '' @ rates) event)"

text \<open>One device of a round: the types known so far and the events.\<close>

definition device_step :: "io_world \<Rightarrow> diskio_Instance \<Rightarrow> real \<Rightarrow> (string, string) gomap \<times> Event list \<Rightarrow> string \<times> IOCountersStat \<Rightarrow> (string, string) gomap \<times> Event list" where
  "device_step w ins elapsed st d =
     (let (types, es) = st; (name, cur) = d; (devType, types') = resolveDeviceType w name types in
      (types', case map_of (di_prevCounters ins) name of None \<Rightarrow> es | Some prev \<Rightarrow> es @ [emitEvent ins devType name prev cur elapsed]))"

definition monitored :: "io_world \<Rightarrow> diskio_Instance \<Rightarrow> (string, IOCountersStat) gomap \<Rightarrow> (string, IOCountersStat) gomap" where
  "monitored w ins stats = filter (\<lambda>(name, _). shouldMonitor w ins name) stats"

definition gone_devices :: "diskio_Instance \<Rightarrow> (string, IOCountersStat) gomap \<Rightarrow> string list" where
  "gone_devices ins mon = filter (\<lambda>name. \<not> m_has mon name) (m_keys (di_prevCounters ins))"

definition diskio_Gather :: "io_world \<Rightarrow> diskio_Instance \<Rightarrow> diskio_Instance \<times> Event list" where
  "diskio_Gather w ins =
     (if di_disabled ins then (ins, [])
      else case iw_counters w of
             Inl e \<Rightarrow> (ins, [alert_with EventStatusCritical (''failed to read IO counters: '' @ e) (check_event ''diskio::io_latency'' ''all'')])
           | Inr stats \<Rightarrow>
               let mon = monitored w ins stats in
               if \<not> di_sampled ins then
                 (ins\<lparr>di_prevCounters := m_copy mon (di_prevCounters ins), di_deviceTypes := foldl (\<lambda>types (name, _). snd (resolveDeviceType w name types)) (di_deviceTypes ins) mon,
                    di_prevTime := iw_now w, di_sampled := True\<rparr>, [])
               else if iw_now w \<le> di_prevTime ins then (ins\<lparr>di_prevTime := iw_now w\<rparr>, [])
               else
                 let elapsed = real_of_int (iw_now w - di_prevTime ins) / real_of_int Second;
                     (types, es) = foldl (device_step w ins elapsed) (di_deviceTypes ins, []) mon in
                 (ins\<lparr>di_prevCounters := mon, di_deviceTypes := foldl (\<lambda>ts name. m_del name ts) types (gone_devices ins mon), di_prevTime := iw_now w\<rparr>, es))"

section \<open>Alerts on the clock\<close>

lemma ge_graded_fields:
  "ev_check (ge_graded text what ac aw zero w c v e) = ev_check e" "ev_of (ge_graded text what ac aw zero w c v e) = ev_of e"
  "EventStatus e = EventStatusOk \<Longrightarrow> EventStatus (ge_graded text what ac aw zero w c v e) =
     (if c > zero \<and> v \<ge> c then EventStatusCritical else if w > zero \<and> v \<ge> w then EventStatusWarning else EventStatusOk)"
  by (simp_all add: ge_graded_def)

definition int_limits :: "int \<Rightarrow> int \<Rightarrow> threshold" where
  "int_limits w c = \<lparr>th_WarnGe = real_of_int w, th_CriticalGe = real_of_int c\<rparr>"

definition offset_reading :: "ntp_Instance \<Rightarrow> ntpResult \<Rightarrow> real option" where
  "offset_reading ins r =
     (if nr_synced r \<and> (nt_OffsetWarnGe ins \<noteq> 0 \<or> nt_OffsetCriticalGe ins \<noteq> 0) then Some (real_of_int (abs_offset r)) else None)"

definition stratum_reading :: "ntp_Instance \<Rightarrow> ntpResult \<Rightarrow> real option" where
  "stratum_reading ins r =
     (if nr_synced r \<and> (nt_StratumWarnGe ins \<noteq> 0 \<or> nt_StratumCriticalGe ins \<noteq> 0) then Some (real_of_int (nr_stratum r)) else None)"

interpretation clock_offset: threshold_check "checkOffset ins" "offset_reading ins" "int_limits (nt_OffsetWarnGe ins) (nt_OffsetCriticalGe ins)"
  "''ntp::offset''" "''ntp''" for ins
  by unfold_locales
    (auto simp: checkOffset_def offset_reading_def reports_def is_event_def Let_def ge_graded_fields th_status_def EvaluateGeThreshold_def int_limits_def split: if_splits)

interpretation clock_stratum: threshold_check "checkStratum ins" "stratum_reading ins" "int_limits (nt_StratumWarnGe ins) (nt_StratumCriticalGe ins)"
  "''ntp::stratum''" "''ntp''" for ins
  by unfold_locales
    (auto simp: checkStratum_def stratum_reading_def reports_def is_event_def Let_def ge_graded_fields th_status_def EvaluateGeThreshold_def int_limits_def split: if_splits)

lemma checkSync_event:
  "\<exists>e. checkSync ins r = [e] \<and> ev_check e = ''ntp::sync'' \<and> ev_of e = ''ntp'' \<and> EventStatus e = (if nr_synced r then EventStatusOk else nt_Severity ins)"
  by (simp add: checkSync_def Let_def)

lemma other_checks:
  "\<forall>e \<in> set (checkOffset ins r). ev_check e \<noteq> ''ntp::sync''" "\<forall>e \<in> set (checkStratum ins r). ev_check e \<noteq> ''ntp::sync''"
  by (simp_all add: checkOffset_def checkStratum_def Let_def ge_graded_fields)

text \<open>the alert on the synchronisation is open after a gather exactly when the time tool failed or does not say that the clock is synchronised.\<close>

theorem ntp_sync_exact:
  assumes "nt_Severity ins \<noteq> EventStatusOk"
  shows "owed ''ntp::sync'' ''ntp'' (q @ ntp_Gather pf run ins) \<longleftrightarrow> \<not> (\<exists>r. ntp_query pf ins run = Inr r \<and> nr_synced r)"
proof (cases "ntp_query pf ins run")
  case (Inl e)
  then show ?thesis using assms by (simp add: ntp_Gather_def owed_push)
next
  case (Inr r)
  obtain e where e: "checkSync ins r = [e]" "ev_check e = ''ntp::sync''" "ev_of e = ''ntp''"
    "EventStatus e = (if nr_synced r then EventStatusOk else nt_Severity ins)"
    using checkSync_event by blast
  let ?rest = "if nt_detectedMode ins \<noteq> ''timedatectl'' then checkOffset ins r @ checkStratum ins r else []"
  have "owed ''ntp::sync'' ''ntp'' ((q @ [e]) @ ?rest) = owed ''ntp::sync'' ''ntp'' (q @ [e])"
    using other_checks [of ins r] by (intro owed_other) auto
  then show ?thesis using Inr e assms by (simp add: ntp_Gather_def owed_push)
qed

text \<open>A clock that is synchronised while a leap second is announced counts as not synchronised.\<close>

theorem leap_second_alarm:
  "nr_synced (parseChronyTracking pf ''Leap status     : Insert second'') = False"
proof -
  have parts: "split_at nl ''Leap status     : Insert second'' = [''Leap status     : Insert second'']"
    "split_two (CHR '':'') ''Leap status     : Insert second'' = [''Leap status     '', '' Insert second'']"
    "trim_space ''Leap status     '' = ''Leap status''" "trim_space '' Insert second'' = ''Insert second''"
    by code_simp+
  then show ?thesis by (simp add: parseChronyTracking_def chrony_line_def Let_def)
qed

text \<open>An offset that cannot be read counts as no offset at all.\<close>

theorem unreadable_offset_is_zero:
  "pf ''n/a'' = None \<Longrightarrow> nr_offset (parseChronyTracking pf ''System time     : n/a seconds slow of NTP time'') = 0"
proof -
  assume pf: "pf ''n/a'' = None"
  have parts: "split_at nl ''System time     : n/a seconds slow of NTP time'' = [''System time     : n/a seconds slow of NTP time'']"
    "split_two (CHR '':'') ''System time     : n/a seconds slow of NTP time'' = [''System time     '', '' n/a seconds slow of NTP time'']"
    "trim_space ''System time     '' = ''System time''" "trim_space '' n/a seconds slow of NTP time'' = ''n/a seconds slow of NTP time''"
    "Fields ''n/a seconds slow of NTP time'' = [''n/a'', ''seconds'', ''slow'', ''of'', ''NTP'', ''time'']"
    by code_simp+
  show ?thesis
    using pf parts by (simp add: parseChronyTracking_def chrony_line_def parseChronyOffset_def with_extra_def no_result_def Let_def)
qed

section \<open>Alerts on latency\<close>

lemma emitEvent_fields:
  "ev_check (emitEvent ins t n p c el) = ''diskio::io_latency''" "ev_of (emitEvent ins t n p c el) = n"
  "EventStatus (emitEvent ins t n p c el) \<noteq> EventStatusOk \<longleftrightarrow> total_ios p c > 0 \<and> over_limit (thresholds ins t) (await_ms p c)"
  by (auto simp: emitEvent_def Let_def over_limit_def status_defs)

lemma resolve_type:
  "fst (resolveDeviceType w n types) = (case map_of types n of Some dt \<Rightarrow> dt | None \<Rightarrow> detectDeviceType w n)"
  "m \<noteq> n \<Longrightarrow> map_of (snd (resolveDeviceType w n types)) m = map_of types m"
  by (auto simp: resolveDeviceType_def Let_def m_set_get split: option.split)

definition device_type :: "io_world \<Rightarrow> diskio_Instance \<Rightarrow> string \<Rightarrow> string" where
  "device_type w ins n = (case map_of (di_deviceTypes ins) n of Some dt \<Rightarrow> dt | None \<Rightarrow> detectDeviceType w n)"

lemma device_steps_other:
  "t \<notin> fst ` set ds \<Longrightarrow> filter (\<lambda>e. ev_of e = t) (snd (foldl (device_step w ins el) (types, es) ds)) = filter (\<lambda>e. ev_of e = t) es"
proof (induct ds arbitrary: types es)
  case (Cons d ds)
  obtain es' where "device_step w ins el (types, es) d = (snd (resolveDeviceType w (fst d) types), es')" "filter (\<lambda>e. ev_of e = t) es' = filter (\<lambda>e. ev_of e = t) es"
    using Cons(2) by (auto simp: device_step_def case_prod_beta emitEvent_fields split: option.split)
  then show ?case using Cons by simp
qed simp

lemma device_steps:
  assumes "distinct (map fst ds)" "(n, cur) \<in> set ds" "map_of (di_prevCounters ins) n = Some prev" "map_of types n = map_of (di_deviceTypes ins) n"
  shows "filter (\<lambda>e. ev_of e = n) (snd (foldl (device_step w ins el) (types, es) ds)) = filter (\<lambda>e. ev_of e = n) es @ [emitEvent ins (device_type w ins n) n prev cur el]"
  using assms(1,2,4)
proof (induct ds arbitrary: types es)
  case (Cons d ds)
  obtain m c where d: "d = (m, c)" by fastforce
  let ?types = "snd (resolveDeviceType w m types)"
  define es' where "es' = (case map_of (di_prevCounters ins) m of None \<Rightarrow> es | Some p \<Rightarrow> es @ [emitEvent ins (fst (resolveDeviceType w m types)) m p c el])"
  have step: "device_step w ins el (types, es) d = (?types, es')"
    unfolding es'_def by (auto simp: device_step_def d split: prod.split option.split)
  show ?case
  proof (cases "m = n")
    case True
    then have "n \<notin> fst ` set ds" using Cons(2) d by auto
    note rest = device_steps_other [OF \<open>n \<notin> fst ` set ds\<close>]
    have "c = cur" using Cons(2,3) d True \<open>n \<notin> fst ` set ds\<close> by (auto simp: image_iff)
    then show ?thesis using step rest True assms(3) Cons(4)
      by (simp add: es'_def resolve_type device_type_def emitEvent_fields)
  next
    case False
    then have "filter (\<lambda>e. ev_of e = n) es' = filter (\<lambda>e. ev_of e = n) es"
      by (auto simp: es'_def emitEvent_fields split: option.split)
    moreover have "map_of ?types n = map_of (di_deviceTypes ins) n" using resolve_type(2) [of n m] False Cons(4) by auto
    ultimately show ?thesis using Cons(1) [of ?types es'] Cons(2,3) d False step by simp
  qed
qed simp

text \<open>after a round that follows a sample, the alert of a monitored device is open exactly when input or output was done since the
  sample and its mean latency reaches a threshold: the configured ones, or those of the kind of device.\<close>

theorem diskio_alert_exact:
  assumes "\<not> di_disabled ins" "di_sampled ins" "iw_counters w = Inr stats" "m_ok stats" "iw_now w > di_prevTime ins"
    "map_of stats n = Some cur" "shouldMonitor w ins n" "map_of (di_prevCounters ins) n = Some prev"
  shows "owed ''diskio::io_latency'' n (q @ snd (diskio_Gather w ins)) \<longleftrightarrow>
    total_ios prev cur > 0 \<and> over_limit (thresholds ins (device_type w ins n)) (await_ms prev cur)"
proof -
  define el where "el = real_of_int (iw_now w - di_prevTime ins) / real_of_int Second"
  let ?mon = "monitored w ins stats"
  have mon: "distinct (map fst ?mon)" "(n, cur) \<in> set ?mon"
    using assms(4,6,7) by (auto simp: monitored_def m_ok_def distinct_map_filter dest: map_of_SomeD)
  have es: "snd (diskio_Gather w ins) = snd (foldl (device_step w ins el) (di_deviceTypes ins, []) ?mon)"
    using assms(1-3,5) by (simp add: diskio_Gather_def Let_def el_def split: prod.split)
  have "filter (\<lambda>e. ev_check e = ''diskio::io_latency'' \<and> ev_of e = n) (snd (diskio_Gather w ins)) = [emitEvent ins (device_type w ins n) n prev cur el]"
  proof -
    have one: "filter (\<lambda>e. ev_of e = n) (snd (diskio_Gather w ins)) = [emitEvent ins (device_type w ins n) n prev cur el]"
      using device_steps [OF mon assms(8) refl, of w el "[]"] es by simp
    have "filter (\<lambda>e. ev_check e = ''diskio::io_latency'') (filter (\<lambda>e. ev_of e = n) (snd (diskio_Gather w ins))) = [emitEvent ins (device_type w ins n) n prev cur el]"
      unfolding one by (simp add: emitEvent_fields)
    then show ?thesis by (simp add: conj_commute)
  qed
  then show ?thesis using emitEvent_fields(3) by (simp add: owed_def)
qed

text \<open>A failure to read the counters raises an alert on the target \<^verbatim>\<open>all\<close>, which no later round reports on, unless a device has that name.\<close>

theorem io_failure_never_clears:
  assumes "iw_counters w = Inr stats" "\<not> m_has stats ''all''"
  shows "owed ''diskio::io_latency'' ''all'' (q @ snd (diskio_Gather w ins)) = owed ''diskio::io_latency'' ''all'' q"
proof -
  have "''all'' \<notin> fst ` set (monitored w ins stats)"
    using assms(2) by (force simp: monitored_def m_has_iff m_keys_def)
  then have "filter (\<lambda>e. ev_of e = ''all'') (snd (diskio_Gather w ins)) = []"
    using assms(1) device_steps_other [of "''all''" "monitored w ins stats" w ins] by (simp add: diskio_Gather_def Let_def case_prod_beta)
  then have "filter (\<lambda>e. ev_check e = ''diskio::io_latency'' \<and> ev_of e = ''all'') (snd (diskio_Gather w ins)) = []"
    by (auto simp: filter_empty_conv)
  then show ?thesis by (simp add: owed_def)
qed

end
