(* ===== verification/Spec2Isabelle.thy ===== *)
theory Spec2Isabelle
  imports Alert_Identity Session Chat_Stream Logfile Inspect MCP Sigv4 Redis_Gather Host_States Disk Redis_Tools File_Check Docker Cert Sentinel Clock_IO
begin

text \<open>
  A verification development of catpaw, a monitoring agent: plugins gather events, an alert engine
  turns them into notifications, an aggregator groups alerts into AI diagnoses, a diagnosis engine
  runs a conversation between a language model and local tools, and an optional connection to a
  server forwards alerts and runs remote sessions.

  \<^bold>\<open>Parts and theories.\<close> Paths are relative to the source tree; every definition has the name of the
  Go function, method or type it translates (with a prefix where two types share a method name), and
  record fields are the struct's fields with a two-letter prefix.

  \<^item> \<open>Prelude\<close>: Go maps as association lists with distinct keys, nil maps, 64-bit wrap-around,
    truncating division, decimal printing, case folding.
  \<^item> \<open>Safe_Queue\<close> (\<^verbatim>\<open>digcore/pkg/safe/queue.go\<close>): the locked queue between plugins and engine; FIFO order
    and the limited variant.
  \<^item> \<open>Events\<close> (\<^verbatim>\<open>digcore/types/event.go\<close>, \<^verbatim>\<open>digcore/config/inline.go\<close>): the event record, its builders, thresholds,
    and the settings of an instance.
  \<^item> \<open>Notify\<close> (\<^verbatim>\<open>digcore/notify\<close>): fan-out to notifiers, payloads, retry loops over HTTP replies.
  \<^item> \<open>Aggregator\<close> (\<^verbatim>\<open>digcore/diagnose/aggregator.go\<close>): which events are diagnosed and how a window of them
    becomes one request. Timers fire at arbitrary moments; no accepted alert is lost or duplicated.
  \<^item> \<open>Alert_Engine\<close> and \<open>Alert_Identity\<close> (\<^verbatim>\<open>digcore/engine\<close>): cleaning and alert keys, the life cycle of an
    alert on an explicit heap of events (the cache and the queue share pointers), notification
    guards, recovery, and the trigger of diagnoses. The engine refines an abstract life cycle per
    alert key.
  \<^item> \<open>Ring_Buffer\<close> (\<^verbatim>\<open>digcore/server/ringbuf.go\<close> and the alert flush of \<^verbatim>\<open>conn.go\<close>): the buffer that keeps the newest
    alerts while the server is away; an array with head and count refined to a list.
  \<^item> \<open>Reconnect\<close> (\<^verbatim>\<open>digcore/server/conn.go\<close>, \<^verbatim>\<open>proto.go\<close>): one connection life cycle and the back-off of the
    reconnect loop.
  \<^item> \<open>Utf8\<close>: \<^verbatim>\<open>unicode/utf8\<close> decoding and the truncations built on it. Strings are byte lists.
  \<^item> \<open>AI_Messages\<close> (\<^verbatim>\<open>digcore/diagnose/aiclient\<close> types, token, compact): compaction of a conversation.
  \<^item> \<open>Config\<close> (\<^verbatim>\<open>digcore/config\<close>, \<^verbatim>\<open>digcore/pkg/cfg\<close>): file order, defaults, environment references, identity,
    validation and the whole start-up of the configuration.
  \<^item> \<open>AI_Client\<close> (\<^verbatim>\<open>aiclient\<close>: \<^verbatim>\<open>retry.go\<close>, \<^verbatim>\<open>failover.go\<close>, \<^verbatim>\<open>client.go\<close>, \<^verbatim>\<open>server_client.go\<close>, \<^verbatim>\<open>bedrock.go\<close>): retry, failover and the
    three back ends as functions of what the network answers.
  \<^item> \<open>Diag_State\<close> (\<^verbatim>\<open>state.go\<close>, \<^verbatim>\<open>cleanup.go\<close>): token budget, cooldowns, retention of records.
  \<^item> \<open>Report\<close> (\<^verbatim>\<open>record.go\<close>, \<^verbatim>\<open>report.go\<close>): records and the size-limited report texts.
  \<^item> \<open>Registry\<close> (\<^verbatim>\<open>registry.go\<close>, \<^verbatim>\<open>toolconv.go\<close>) and \<open>Executor\<close> (\<^verbatim>\<open>executor.go\<close>): the tools offered to the model and how
    a call of the model is routed to one.
  \<^item> \<open>Diag_Engine\<close> (\<^verbatim>\<open>digcore/diagnose/engine.go\<close>): one diagnosis, its effects, and the engine shared by
    concurrent diagnoses and remote sessions as a step relation over all interleavings.
  \<^item> \<open>Session\<close> (\<^verbatim>\<open>digcore/server/session.go\<close>, \<^verbatim>\<open>session_handler.go\<close>): the session table, the handlers of server messages and
    the goroutines of the sessions, interleaved; each session ends with exactly one final message.
  \<^item> \<open>Chat_Stream\<close> (\<^verbatim>\<open>digcore/diagnose/streaming.go\<close>): a chat on an explicit model of slices, with roll-back.
  \<^item> \<open>MCP\<close> (\<^verbatim>\<open>digcore/mcp\<close>): clients of external tool servers, request and answer pairing, the tools they add.
  \<^item> \<open>Sigv4\<close> (\<^verbatim>\<open>aiclient/sigv4.go\<close>): the canonical request and signature of a Bedrock call.
  \<^item> \<open>Agent\<close>, \<open>Inspect\<close> (\<^verbatim>\<open>agent\<close>): loading, starting, reloading and stopping plugins, one gather with its panics, and
    the inspection command.
  \<^item> \<open>Shell_Quote\<close> (\<^verbatim>\<open>digcore/pkg/shell\<close>), \<open>Pattern_Filter\<close> (\<^verbatim>\<open>filter\<close>, \<^verbatim>\<open>choice\<close>, \<^verbatim>\<open>conv\<close>), \<open>Strconv\<close> (what is used of the standard
    library's parsing and printing), \<open>Tls_Config\<close> (\<^verbatim>\<open>digcore/pkg/tls\<close>).
  \<^item> \<open>Logfile\<close> (\<^verbatim>\<open>plugins/logfile\<close>): following log files; every complete line is reported exactly once.
  \<^item> \<open>Plugin_Events\<close>: what the plugins share when they report. \<open>Gather_Hung\<close>: the concurrent driver three plugins
    share (a loop over targets, goroutines with a semaphore, the maps of running and hung targets, a timeout), as a step
    relation, with the contract of a recovery as a locale.
  \<^item> \<open>Redis_Resp\<close>, \<open>Redis_Config\<close>, \<open>Redis_Checks\<close>, \<open>Redis_Gather\<close>, \<open>Redis_Peer\<close>, \<open>Redis_Tools\<close> (\<^verbatim>\<open>plugins/redis\<close>): the protocol client on
    the bytes of a connection, settings and set-up, the checks, the driver, the cluster peers and the diagnosis tools.
    The tools only send commands that read, and only to the session's server and nodes of its cluster.
  \<^item> \<open>Host_Metrics\<close> (\<^verbatim>\<open>mem\<close>, \<^verbatim>\<open>cpu\<close>, \<^verbatim>\<open>conntrack\<close>, \<^verbatim>\<open>neigh\<close>, \<^verbatim>\<open>filefd\<close>), \<open>Host_States\<close> (\<^verbatim>\<open>sockstat\<close>, \<^verbatim>\<open>tcpstate\<close>, \<^verbatim>\<open>uptime\<close>, \<^verbatim>\<open>zombie\<close>, \<^verbatim>\<open>hostident\<close>),
    \<open>Disk\<close>, \<open>File_Check\<close>, \<open>Docker\<close>: plugins of the host, with the parsers of \<^verbatim>\<open>/proc\<close>, netlink messages and API answers, and the
    state they keep between gathers (counters, checksums, restart windows).
  \<^item> \<open>Cert\<close> (\<^verbatim>\<open>plugins/cert\<close>), \<open>Sentinel\<close> (\<^verbatim>\<open>plugins/redis_sentinel\<close>), \<open>Probe\<close> (\<^verbatim>\<open>net\<close>, \<^verbatim>\<open>http\<close>, \<^verbatim>\<open>ping\<close>, \<^verbatim>\<open>dns\<close>, with \<^verbatim>\<open>netx\<close> and the HTTP settings): probes of
    remote targets, one goroutine for each; the queue is any interleaving of what they push. The connectivity alert of a
    target is open exactly when its own probe failed.
  \<^item> \<open>Host_Policy\<close> (\<^verbatim>\<open>mount\<close>, \<^verbatim>\<open>sysctl\<close>, \<^verbatim>\<open>secmod\<close>, \<^verbatim>\<open>systemd\<close>): what the owner of a host asked for against what the host reports; the mount table
    is read back from the text the kernel writes, and the kernel parameter tools stay below their directory.
  \<^item> \<open>Processes\<close> (\<^verbatim>\<open>netif\<close>, \<^verbatim>\<open>procnum\<close>, \<^verbatim>\<open>procfd\<close>, \<^verbatim>\<open>procutil\<close>), \<open>Commands\<close> (\<^verbatim>\<open>exec\<close>, \<^verbatim>\<open>scriptfilter\<close>, \<^verbatim>\<open>journaltail\<close>, \<^verbatim>\<open>cmdx\<close>), \<open>Clock_IO\<close> (\<^verbatim>\<open>ntp\<close>, \<^verbatim>\<open>diskio\<close>):
    counters of interfaces, processes and devices, and programs whose output is parsed; the lines of the journal are
    reported exactly once while \<^verbatim>\<open>journalctl\<close> answers as documented.

  \<^bold>\<open>How effects are modelled.\<close> State is passed explicitly. Go panics, errors and early returns are values
  (\<open>None\<close>, \<open>Inl\<close>, or a constructor). The clock, random jitter, HTTP replies, the model's answers, tool
  functions, JSON and TOML codecs, the environment and hash functions are arguments of the
  definitions; where a theorem needs something of them it is a named hypothesis and its witness
  instantiates it. Map iteration order is an arbitrary order of the association list.

  \<^bold>\<open>Interfaces.\<close> Each contract between components is a locale interpreted on the model: the FIFO queue,
  the bounded buffer that drops its oldest elements, the store of alerts, the fan-out to
  notifiers, the tool directory, the concurrency limiter of the diagnosis engine, the reporter of
  hung targets (Redis, disk and Sentinel), the check with two thresholds (eight checks of the host, the growth of
  the counters of an interface, the offset and stratum of the clock), the item asked for with its one event (mounts,
  parameters, security modules, links), the goroutine that reports a main check first (TCP, UDP, HTTP, ping, DNS, units,
  Nagios plugins), and the relations every call to a Redis server or Sentinel keeps, extended to those every reading
  command keeps.

  \<^bold>\<open>Bounds.\<close> No definition uses fuel. Loops are structural recursions or have a termination proof: the
  rounds of a diagnosis by the rounds left, the flush by the number of buffered events, retries by
  the attempts left, the protocol reader and the scan for big keys by the bytes left on the
  connection. The reconnect loop of the program does not end; it is modelled as a function
  from the list of failures it meets to the waits it makes. Arithmetic on \<^verbatim>\<open>float64\<close> is modelled on
  real numbers, conversions of integers with their rounding to 53 bits.

  \<^bold>\<open>What is not modelled.\<close> WebSocket transport and its read, write and heartbeat loops, file output, the terminal,
  logging, process groups and signals, HTTP and TLS handshakes are left to the operating system and to libraries. Prompt
  templates and the texts of the command line are prose. Left out although they could be modelled in the same
  way: the parsers of the system diagnosis tools (\<^verbatim>\<open>plugins/sysdiag\<close> and the \<^verbatim>\<open>diagnose.go\<close> files of the host plugins, which
  format what the kernel reports for the model), the self test and the start-up in \<^verbatim>\<open>main.go\<close>.
\<close>

end
